(* ===== verification/Prelude.thy ===== *)
theory Prelude
  imports Main "HOL-Library.Word" "HOL-Library.Monad_Syntax" "HOL-Library.State_Monad"
begin

text \<open>
  Shared vocabulary of the development: the machine integer types, byte buffers with the
  bounds the C code relies on, the convention for undefined behaviour, the collections of
  lemmas that carry the component proofs, and the generic facts about runs of a step function.

  Conventions.
  \<^item> A C value of a fixed width is a word of that width. A C \<open>int\<close> status code is an
    \<open>int\<close>; it never leaves the 32-bit range in the code modelled here.
  \<^item> Assertions are compiled out, as in the release builds. A memory access outside its object and a null dereference are the
    value \<open>None\<close> of an option; a run the C standard defines is \<open>Some\<close> of its result.
  \<^item> A function that sends data to the operating system or to a device threads an opaque world
    \<open>'w\<close>, changed only by the system functions that are parameters of the model.
\<close>

unbundle bit_operations_syntax

named_theorems ub_simps \<open>rewriting of guarded memory accesses\<close>
named_theorems frame_simps \<open>fields an operation does not write\<close>
named_theorems ctrl_defs \<open>definitions of the UVC control requests\<close>

type_synonym u8 = "8 word"
type_synonym u16 = "16 word"
type_synonym u32 = "32 word"
type_synonym u64 = "64 word"
type_synonym bytes = "8 word list"

section \<open>Guarded memory\<close>

text \<open>
  \<open>need n p k\<close> is the code \<open>k\<close> reading the first \<open>n\<close> bytes behind the pointer \<open>p\<close>,
  where \<open>p\<close> lists the bytes from the pointer to the end of its object.
\<close>

definition need :: "nat \<Rightarrow> 'a list \<Rightarrow> 'b option \<Rightarrow> 'b option" where
  "need n p k = (if n \<le> length p then k else None)"

lemma need_Some [ub_simps]: "need n p k = Some x \<longleftrightarrow> n \<le> length p \<and> k = Some x"
  by (simp add: need_def)

lemma need_None [ub_simps]: "need n p k = None \<longleftrightarrow> (n \<le> length p \<longrightarrow> k = None)"
  by (simp add: need_def)

lemma need_enough [simp]: "n \<le> length p \<Longrightarrow> need n p k = k"
  by (simp add: need_def)

lemma need_short: "length p < n \<Longrightarrow> need n p k = None"
  by (simp add: need_def)

text \<open>\<open>memcpy(buf + off, src, length src)\<close>.\<close>

definition mem_write :: "nat \<Rightarrow> 'a list \<Rightarrow> 'a list \<Rightarrow> 'a list option" where
  "mem_write off src buf =
     (if off + length src \<le> length buf
      then Some (take off buf @ src @ drop (off + length src) buf) else None)"

lemma mem_write_length: "mem_write off src buf = Some buf' \<Longrightarrow> length buf' = length buf"
  by (auto simp: mem_write_def split: if_splits)

lemma mem_write_take:
  "mem_write off src buf = Some buf' \<Longrightarrow> take (off + length src) buf' = take off buf @ src"
  by (auto simp: mem_write_def min.absorb2 split: if_splits)

lemma mem_write_ok:
  "off + length src \<le> length buf \<Longrightarrow>
   mem_write off src buf = Some (take off buf @ src @ drop (off + length src) buf)"
  by (simp add: mem_write_def)

lemma mem_write_fault: "length buf < off + length src \<Longrightarrow> mem_write off src buf = None"
  by (simp add: mem_write_def)

section \<open>Runs of a step function\<close>

text \<open>
  Several components are driven by a sequence of events (packets, transfers, calls through the
  language boundary). An invariant kept by each step is kept by every run.
\<close>

locale step_invariant =
  fixes step :: "'s \<Rightarrow> 'e \<Rightarrow> 's"
    and inv :: "'s \<Rightarrow> bool"
    and ok :: "'e \<Rightarrow> bool"
  assumes step_keeps: "inv s \<Longrightarrow> ok e \<Longrightarrow> inv (step s e)"
begin

lemma run_keeps: "inv s \<Longrightarrow> list_all ok es \<Longrightarrow> inv (foldl step s es)"
  by (induction es arbitrary: s) (auto intro: step_keeps)

end

text \<open>The same for steps that may run into undefined behaviour: under the invariant they do not.\<close>

fun run_partial :: "('s \<Rightarrow> 'e \<Rightarrow> 's option) \<Rightarrow> 's \<Rightarrow> 'e list \<Rightarrow> 's option" where
  "run_partial step s [] = Some s"
| "run_partial step s (e # es) = do { s' \<leftarrow> step s e; run_partial step s' es }"

lemma run_partial_append:
  "run_partial step s (xs @ ys) = do { s' \<leftarrow> run_partial step s xs; run_partial step s' ys }"
  by (induction xs arbitrary: s) (auto split: option.splits bind_splits)

locale safe_step =
  fixes step :: "'s \<Rightarrow> 'e \<Rightarrow> 's option"
    and inv :: "'s \<Rightarrow> bool"
    and ok :: "'e \<Rightarrow> bool"
  assumes step_safe: "inv s \<Longrightarrow> ok e \<Longrightarrow> \<exists>s'. step s e = Some s' \<and> inv s'"
begin

lemma run_safe: "inv s \<Longrightarrow> list_all ok es \<Longrightarrow> \<exists>s'. run_partial step s es = Some s' \<and> inv s'"
proof (induction es arbitrary: s)
  case Nil
  then show ?case by simp
next
  case (Cons e es)
  then obtain s' where "step s e = Some s'" and "inv s'"
    using step_safe [of s e] by auto
  with Cons show ?case by simp
qed

end

section \<open>Lists\<close>

lemma nth_append_at [simp]: "(xs @ y # ys) ! length xs = y"
  by simp

lemma length_3_cases: "3 \<le> length xs \<Longrightarrow> \<exists>a b c ys. xs = a # b # c # ys"
  by (metis Suc_le_length_iff numeral_3_eq_3)

lemma butlast_snoc_nth: "length xs = Suc n \<Longrightarrow> xs ! n = z \<Longrightarrow> butlast xs @ [z] = xs"
  by (metis append_butlast_last_id last_conv_nth diff_Suc_1 list.size(3) nat.distinct(1))

section \<open>Words\<close>

lemma u8_eqI:
  fixes a b :: u8
  assumes "bit a 0 = bit b 0" "bit a 1 = bit b 1" "bit a 2 = bit b 2" "bit a 3 = bit b 3"
    "bit a 4 = bit b 4" "bit a 5 = bit b 5" "bit a 6 = bit b 6" "bit a 7 = bit b 7"
  shows "a = b"
proof (rule bit_word_eqI)
  fix n :: nat
  assume "n < LENGTH(8)"
  then consider "n = 0" | "n = 1" | "n = 2" | "n = 3" | "n = 4" | "n = 5" | "n = 6" | "n = 7"
    by fastforce
  then show "bit a n = bit b n" by cases (use assms in auto)
qed

lemma u32_of_u8: "ucast (ucast x :: u8) = (x :: u32) \<longleftrightarrow> uint x < 256"
proof -
  have "uint (ucast (ucast x :: u8) :: u32) = uint x mod 256"
    by (simp add: unsigned_ucast_eq take_bit_eq_mod uint_mod)
  then show ?thesis
    by (metis mod_pos_pos_trivial pos_mod_bound uint_ge_0 word_uint_eq_iff zero_less_numeral)
qed

end
