(* ===== verification/Sensor_Handle.thy ===== *)
theory Sensor_Handle
  imports Prelude
begin

text \<open>
  The character-device drivers of \<open>sensordriver/src/main/jni\<close>: the native methods of the
  ADC (\<open>com_bupt_sensordriver_adc.c\<close>), the LED (\<open>com_bupt_sensordriver_led.c\<close>) and the
  lift sensor (\<open>com_bupt_sensordriver_sensor.c\<close>). Each module keeps a file descriptor in a static
  variable that starts as 0 and calls the system through it. The system calls are the fields
  of the record \<open>os\<close>, a parameter of every operation. Log output and the missing return values
  of the \<open>jint\<close> functions (no \<open>return\<close> statement is reached in \<open>Open\<close>, \<open>Close\<close> and
  \<open>Ioctl\<close>) are not part of the state.
\<close>

section \<open>System calls\<close>

datatype oflag = O_RDWR | O_NDELAY | O_NOCTTY

text \<open>
  \<open>sys_read fd n w\<close> is \<open>read(fd, buf, n)\<close>: its return value and the bytes it stored at the
  start of \<open>buf\<close>. \<open>uninit w\<close> is the value an uninitialised byte variable holds.
\<close>

record 'w os =
  sys_open :: "string \<Rightarrow> oflag list \<Rightarrow> 'w \<Rightarrow> int \<times> 'w"
  sys_close :: "int \<Rightarrow> 'w \<Rightarrow> 'w"
  sys_ioctl :: "int \<Rightarrow> int \<Rightarrow> int \<Rightarrow> 'w \<Rightarrow> 'w"
  sys_read :: "int \<Rightarrow> nat \<Rightarrow> 'w \<Rightarrow> int \<times> bytes \<times> 'w"
  sys_write :: "int \<Rightarrow> bytes \<Rightarrow> 'w \<Rightarrow> int \<times> 'w"
  uninit :: "'w \<Rightarrow> u8"

text \<open>What POSIX says of \<open>read\<close>: at most \<open>n\<close> bytes, as many as it returns.\<close>

definition read_conforms :: "'w os \<Rightarrow> bool" where
  "read_conforms os \<longleftrightarrow>
     (\<forall>h n w r bs w'. sys_read os h n w = (r, bs, w') \<longrightarrow>
        length bs \<le> n \<and> (if r < 0 then bs = [] else int (length bs) = r))"

lemma read_conformsD:
  "read_conforms os \<Longrightarrow> sys_read os h n w = (r, bs, w') \<Longrightarrow> length bs \<le> n"
  unfolding read_conforms_def by blast

section \<open>State of a module\<close>

record 'w handle =
  fd :: int
  world :: 'w

definition open_dev :: "'w os \<Rightarrow> string \<Rightarrow> ('w, 'x) handle_scheme \<Rightarrow> ('w, 'x) handle_scheme" where
  "open_dev os name s =
     (if fd s \<le> 0
      then case sys_open os name [O_RDWR, O_NDELAY, O_NOCTTY] (world s) of
             (r, w) \<Rightarrow> s\<lparr>fd := r, world := w\<rparr>
      else s)"

definition close_dev :: "'w os \<Rightarrow> ('w, 'x) handle_scheme \<Rightarrow> ('w, 'x) handle_scheme" where
  "close_dev os s = (if 0 < fd s then s\<lparr>world := sys_close os (fd s) (world s)\<rparr> else s)"

definition ioctl_dev :: "'w os \<Rightarrow> int \<Rightarrow> int \<Rightarrow> int \<Rightarrow> ('w, 'x) handle_scheme \<Rightarrow> ('w, 'x) handle_scheme" where
  "ioctl_dev os h num en s = s\<lparr>world := sys_ioctl os h en num (world s)\<rparr>"

text \<open>A \<open>memset\<close> to zero of \<open>n\<close> bytes, then the bytes \<open>read\<close> stored at its start.\<close>

definition zeroed :: "nat \<Rightarrow> bytes \<Rightarrow> bytes" where
  "zeroed n bs = bs @ replicate (n - length bs) 0"

text \<open>\<open>strlen\<close>: the index of the first zero byte; without one it runs off the array.\<close>

fun strlen :: "bytes \<Rightarrow> nat option" where
  "strlen [] = None"
| "strlen (b # bs) = (if b = 0 then Some 0 else map_option Suc (strlen bs))"

section \<open>ADC\<close>

definition adc_Open :: "'w os \<Rightarrow> 'w handle \<Rightarrow> 'w handle" where
  "adc_Open os s = open_dev os ''/dev/adc'' s"

definition adc_Close :: "'w os \<Rightarrow> 'w handle \<Rightarrow> 'w handle" where
  "adc_Close os s = close_dev os s"

definition adc_Ioctl :: "'w os \<Rightarrow> int \<Rightarrow> int \<Rightarrow> 'w handle \<Rightarrow> 'w handle" where
  "adc_Ioctl os num en s = ioctl_dev os (fd s) num en s"

text \<open>The \<open>jintArray\<close> holds each byte zero-extended to an \<open>int\<close>.\<close>

definition adc_Read :: "'w os \<Rightarrow> 'w handle \<Rightarrow> (int list \<times> 'w handle) option" where
  "adc_Read os s =
     (case sys_read os (fd s) 512 (world s) of (r, bs, w) \<Rightarrow>
        let buffer = zeroed 512 bs in
        do { len \<leftarrow> strlen buffer; Some (map uint (take len buffer), s\<lparr>world := w\<rparr>) })"

section \<open>LED\<close>

definition led_Open :: "'w os \<Rightarrow> 'w handle \<Rightarrow> 'w handle" where
  "led_Open os s = open_dev os ''/dev/leds'' s"

definition led_Close :: "'w os \<Rightarrow> 'w handle \<Rightarrow> 'w handle" where
  "led_Close os s = close_dev os s"

definition led_Ioctl :: "'w os \<Rightarrow> int \<Rightarrow> int \<Rightarrow> 'w handle \<Rightarrow> 'w handle" where
  "led_Ioctl os num en s = ioctl_dev os (fd s) num en s"

section \<open>Lift sensor\<close>

text \<open>The sensor module has a second descriptor \<open>fd2\<close>; the code that would open it is commented out.\<close>

record 'w sensor = "'w handle" +
  fd2 :: int

definition sensor_init :: "'w \<Rightarrow> 'w sensor" where
  "sensor_init w = \<lparr>fd = 0, world = w, fd2 = 0\<rparr>"

definition sensor_Open :: "'w os \<Rightarrow> 'w sensor \<Rightarrow> 'w sensor" where
  "sensor_Open os s = open_dev os ''/dev/sensor_irq'' s"

definition sensor_Close :: "'w os \<Rightarrow> 'w sensor \<Rightarrow> 'w sensor" where
  "sensor_Close os s =
     (let s1 = close_dev os s in
      if 0 < fd2 s1 then s1\<lparr>world := sys_close os (fd2 s1) (world s1)\<rparr> else s1)"

definition sensor_Ioctl :: "'w os \<Rightarrow> int \<Rightarrow> int \<Rightarrow> 'w sensor \<Rightarrow> 'w sensor" where
  "sensor_Ioctl os num en s = ioctl_dev os (fd2 s) num en s"

text \<open>
  \<open>buffer\<close> is a plain \<open>char\<close> array, so the widening to \<open>int\<close> depends on the signedness the
  target gives \<open>char\<close> (unsigned on ARM, signed on x86); \<open>char_signed\<close> selects it.
\<close>

definition int_of_char :: "bool \<Rightarrow> u8 \<Rightarrow> int" where
  "int_of_char char_signed b = (if char_signed then sint b else uint b)"

definition sensor_Read :: "bool \<Rightarrow> 'w os \<Rightarrow> 'w sensor \<Rightarrow> int list \<times> 'w sensor" where
  "sensor_Read char_signed os s =
     (case sys_read os (fd s) 6 (world s) of (r, bs, w) \<Rightarrow>
        (map (int_of_char char_signed) (take 6 (zeroed 10 bs)), s\<lparr>world := w\<rparr>))"


section \<open>The descriptor life cycle shared by the modules\<close>

text \<open>
  What \<open>Open\<close> and \<open>Close\<close> of every module promise: an open descriptor is not opened again,
  and closing leaves the variable as it is. The consequences are proved once.
\<close>

datatype fd_call = Call_Open | Call_Close

fun fd_step :: "('s \<Rightarrow> 's) \<Rightarrow> ('s \<Rightarrow> 's) \<Rightarrow> 's \<Rightarrow> fd_call \<Rightarrow> 's" where
  "fd_step opn cls s Call_Open = opn s"
| "fd_step opn cls s Call_Close = cls s"

locale fd_sticky =
  fixes opn :: "'s \<Rightarrow> 's"
    and cls :: "'s \<Rightarrow> 's"
    and desc :: "'s \<Rightarrow> int"
  assumes open_keeps: "0 < desc s \<Longrightarrow> desc (opn s) = desc s"
    and close_keeps: "desc (cls s) = desc s"
begin

lemma step_sticky: "0 < desc s \<Longrightarrow> desc (fd_step opn cls s c) = desc s"
  by (cases c) (simp_all add: open_keeps close_keeps)

lemma run_sticky: "0 < desc s \<Longrightarrow> desc (foldl (fd_step opn cls) s cs) = desc s"
  by (induction cs arbitrary: s) (simp_all add: step_sticky)

end

text \<open>The ADC, LED and sensor modules do nothing at all when asked to open an open descriptor.\<close>

locale fd_driver =
  fixes opn :: "'s \<Rightarrow> 's"
    and cls :: "'s \<Rightarrow> 's"
    and desc :: "'s \<Rightarrow> int"
  assumes open_held: "0 < desc s \<Longrightarrow> opn s = s"
    and desc_close: "desc (cls s) = desc s"
begin

lemma open_idem: "0 < desc (opn s) \<Longrightarrow> opn (opn s) = opn s"
  by (rule open_held)

lemma reopen_after_close: "0 < desc s \<Longrightarrow> opn (cls s) = cls s"
  by (rule open_held) (simp add: desc_close)

end

sublocale fd_driver \<subseteq> fd_sticky
  by unfold_locales (simp_all add: open_held desc_close)

lemma open_dev_held: "0 < fd s \<Longrightarrow> open_dev os name s = s"
  by (simp add: open_dev_def)

lemma close_dev_fd [simp]: "fd (close_dev os s) = fd s"
  by (simp add: close_dev_def)

interpretation adc: fd_driver "adc_Open os" "adc_Close os" fd for os
  by unfold_locales (simp_all add: adc_Open_def adc_Close_def open_dev_held)

interpretation led: fd_driver "led_Open os" "led_Close os" fd for os
  by unfold_locales (simp_all add: led_Open_def led_Close_def open_dev_held)

interpretation sensor: fd_driver "sensor_Open os" "sensor_Close os" fd for os
  by unfold_locales
    (simp_all add: sensor_Open_def sensor_Close_def open_dev_held Let_def)

section \<open>Reads\<close>

lemma length_zeroed: "length bs \<le> n \<Longrightarrow> length (zeroed n bs) = n"
  by (simp add: zeroed_def)

lemma strlen_Some: "strlen bs = Some n \<Longrightarrow> n < length bs \<and> take n bs = takeWhile (\<lambda>b. b \<noteq> 0) bs"
  by (induction bs arbitrary: n) (auto split: if_splits)

lemma strlen_None_iff: "strlen bs = None \<longleftrightarrow> 0 \<notin> set bs"
  by (induction bs) auto

lemma takeWhile_append_zeros: "takeWhile (\<lambda>b. b \<noteq> 0) (bs @ replicate k (0 :: u8)) = takeWhile (\<lambda>b. b \<noteq> 0) bs"
proof (induction bs)
  case Nil
  then show ?case by (cases k) simp_all
qed simp

lemma takeWhile_zeroed: "takeWhile (\<lambda>b. b \<noteq> 0) (zeroed n bs) = takeWhile (\<lambda>b. b \<noteq> 0) bs"
  by (simp add: zeroed_def takeWhile_append_zeros)

lemma zero_in_zeroed: "length bs < n \<Longrightarrow> 0 \<in> set (zeroed n bs)"
  by (simp add: zeroed_def)

text \<open>\<open>adc.Read\<close> hands Java the bytes the device delivered up to the first zero byte,
  zero-extended, whenever fewer than 512 bytes arrived or one of them is zero; the return value
  of \<open>read\<close> plays no role, so a failed read gives the empty array.\<close>

theorem adc_Read_prefix:
  assumes "read_conforms os"
    and "sys_read os (fd s) 512 (world s) = (r, bs, w)"
    and "length bs < 512 \<or> 0 \<in> set bs"
  shows "adc_Read os s = Some (map uint (takeWhile (\<lambda>b. b \<noteq> 0) bs), s\<lparr>world := w\<rparr>)"
proof -
  have "0 \<in> set (zeroed 512 bs)"
    using assms(3) by (auto simp: zero_in_zeroed) (auto simp: zeroed_def)
  then obtain n where n: "strlen (zeroed 512 bs) = Some n"
    using strlen_None_iff [of "zeroed 512 bs"] by auto
  then show ?thesis
    using strlen_Some [OF n] assms(2) by (simp add: adc_Read_def Let_def takeWhile_zeroed)
qed

text \<open>A full delivery of 512 non-zero bytes makes \<open>strlen\<close> in \<open>adc.Read\<close> run off the end
  of the 512-byte array: the call is undefined.\<close>

theorem adc_Read_overrun:
  assumes "sys_read os (fd s) 512 (world s) = (512, bs, w)"
    and "length bs = 512" and "0 \<notin> set bs"
  shows "adc_Read os s = None"
  using assms strlen_None_iff [of bs] by (simp add: adc_Read_def zeroed_def)

lemma sensor_Read_length: 
  "length (fst (sensor_Read cs os s)) = 6" if "read_conforms os"
proof -
  obtain r bs w where r: "sys_read os (fd s) 6 (world s) = (r, bs, w)"
    by (cases "sys_read os (fd s) 6 (world s)") auto
  with that have "length bs \<le> 6"
    by (rule read_conformsD)
  with r show ?thesis
    by (simp add: sensor_Read_def zeroed_def)
qed

section \<open>The sensor module as a state machine\<close>

datatype sensor_call = S_Open | S_Close | S_Ioctl int int | S_Read

fun sensor_step :: "bool \<Rightarrow> 'w os \<Rightarrow> 'w sensor \<Rightarrow> sensor_call \<Rightarrow> 'w sensor" where
  "sensor_step cs os s S_Open = sensor_Open os s"
| "sensor_step cs os s S_Close = sensor_Close os s"
| "sensor_step cs os s (S_Ioctl num en) = sensor_Ioctl os num en s"
| "sensor_step cs os s S_Read = snd (sensor_Read cs os s)"

lemma sensor_step_fd2 [frame_simps]: "fd2 (sensor_step cs os s c) = fd2 s"
  by (cases c) (simp_all add: sensor_Open_def open_dev_def sensor_Close_def close_dev_def
      sensor_Ioctl_def ioctl_dev_def sensor_Read_def Let_def split: prod.splits)

interpretation sensor_run: step_invariant "sensor_step cs os" "\<lambda>s. fd2 s = 0" "\<lambda>_. True" for cs os
  by unfold_locales (simp add: frame_simps)

text \<open>Whatever calls were made before, \<open>sensor.Ioctl\<close> addresses descriptor 0, the standard
  input of the process: the descriptor \<open>fd2\<close> it uses is never opened.\<close>

theorem sensor_Ioctl_hits_stdin:
  "sensor_Ioctl os num en (foldl (sensor_step cs os) (sensor_init w) calls) =
   (let s = foldl (sensor_step cs os) (sensor_init w) calls
    in s\<lparr>world := sys_ioctl os 0 en num (world s)\<rparr>)"
proof -
  have "fd2 (foldl (sensor_step cs os) (sensor_init w) calls) = 0"
    by (rule sensor_run.run_keeps) (simp_all add: sensor_init_def list_all_iff)
  then show ?thesis by (simp add: sensor_Ioctl_def ioctl_dev_def Let_def)
qed

text \<open>Once a module holds a descriptor, no sequence of \<open>Open\<close> and \<open>Close\<close> changes it. In
  particular \<open>Open\<close> after \<open>Close\<close> does not open the device again, and a second \<open>Close\<close> closes the
  same descriptor number a second time.\<close>

theorem close_is_final:
  assumes "0 < fd s"
  shows "fd (foldl (fd_step (adc_Open os) (adc_Close os)) s cs) = fd s \<and>
    adc_Open os (adc_Close os s) = adc_Close os s \<and>
    world (adc_Close os (adc_Close os s)) = sys_close os (fd s) (sys_close os (fd s) (world s))"
  using adc.run_sticky [OF assms] adc.reopen_after_close [OF assms] assms
  by (simp add: adc_Close_def close_dev_def)

section \<open>Instances\<close>

text \<open>A device that answers every read with the given bytes and logs the descriptors closed.\<close>

definition answer_os :: "bytes \<Rightarrow> int list os" where
  "answer_os bs = \<lparr>sys_open = (\<lambda>_ _ w. (3, w)), sys_close = (\<lambda>h w. h # w), sys_ioctl = (\<lambda>_ _ _ w. w),
     sys_read = (\<lambda>_ n w. (int (length (take n bs)), take n bs, w)),
     sys_write = (\<lambda>_ b w. (int (length b), w)), uninit = (\<lambda>_. 0)\<rparr>"

lemma answer_os_conforms: "read_conforms (answer_os bs)"
  by (auto simp: read_conforms_def answer_os_def)

lemma answer_os_close: "sys_close (answer_os bs) h w = h # w"
  by (simp add: answer_os_def)

theorem adc_Read_prefix_witness:
  "adc_Read (answer_os [52, 50, 0, 7]) \<lparr>fd = 3, world = []\<rparr> = Some ([52, 50], \<lparr>fd = 3, world = []\<rparr>)"
  using adc_Read_prefix [OF answer_os_conforms, of "[52, 50, 0, 7]" "\<lparr>fd = 3, world = []\<rparr>" 4 "[52, 50, 0, 7]" "[]"]
  by (simp add: answer_os_def)

theorem adc_Read_overrun_witness:
  "adc_Read (answer_os (replicate 512 1)) \<lparr>fd = 3, world = []\<rparr> = None"
  by (rule adc_Read_overrun [of _ _ "replicate 512 1" "[]"]) (simp_all add: answer_os_def)

theorem close_is_final_witness:
  "fd (foldl (fd_step (adc_Open (answer_os [])) (adc_Close (answer_os []))) \<lparr>fd = 3, world = []\<rparr>
       [Call_Close, Call_Open, Call_Close]) = 3 \<and>
   world (adc_Close (answer_os []) (adc_Close (answer_os []) \<lparr>fd = 3, world = []\<rparr>)) = [3, 3]"
  using close_is_final [of "\<lparr>fd = 3, world = []\<rparr>" "answer_os []" "[Call_Close, Call_Open, Call_Close]"]
  by (simp del: foldl_Cons add: answer_os_close)

end
