(* ===== verification/Sensor_Rfid.thy ===== *)
theory Sensor_Rfid
  imports Sensor_Handle
begin

text \<open>
  The RC522 card reader of \<open>sensordriver/src/main/jni/com_bupt_sensordriver_rfid.c\<close>: register
  access over SPI, the reader's transceive command with its bounded poll loop, the ISO 14443
  request and anticollision exchanges, and the native methods built on them. The functions that
  talk to the chip are computations of the state monad over the module's state, so that the order
  of the register accesses is the code's. \<open>usleep\<close> and log output are left out.
\<close>

section \<open>Registers and command codes\<close>

text \<open>From \<open>spidev_test.h\<close>.\<close>

abbreviation "CommandReg \<equiv> (0x01 :: int)"
abbreviation "ComIEnReg \<equiv> (0x02 :: int)"
abbreviation "ComIrqReg \<equiv> (0x04 :: int)"
abbreviation "ErrorReg \<equiv> (0x06 :: int)"
abbreviation "Status2Reg \<equiv> (0x08 :: int)"
abbreviation "FIFODataReg \<equiv> (0x09 :: int)"
abbreviation "FIFOLevelReg \<equiv> (0x0A :: int)"
abbreviation "ControlReg \<equiv> (0x0C :: int)"
abbreviation "BitFramingReg \<equiv> (0x0D :: int)"
abbreviation "CollReg \<equiv> (0x0E :: int)"
abbreviation "ModeReg \<equiv> (0x11 :: int)"
abbreviation "TxControlReg \<equiv> (0x14 :: int)"
abbreviation "TxASKReg \<equiv> (0x15 :: int)"
abbreviation "TModeReg \<equiv> (0x2A :: int)"
abbreviation "TPrescalerReg \<equiv> (0x2B :: int)"
abbreviation "TReloadRegH \<equiv> (0x2C :: int)"
abbreviation "TReloadRegL \<equiv> (0x2D :: int)"
abbreviation "VersionReg \<equiv> (0x37 :: int)"

abbreviation "PCD_IDLE \<equiv> (0x00 :: u8)"
abbreviation "PCD_AUTHENT \<equiv> (0x0E :: u8)"
abbreviation "PCD_TRANSCEIVE \<equiv> (0x0C :: u8)"
abbreviation "PCD_RESETPHASE \<equiv> (0x0F :: u8)"
abbreviation "PICC_ANTICOLL1 \<equiv> (0x93 :: u8)"

abbreviation "MI_OK \<equiv> (0 :: u8)"
abbreviation "MI_ERR \<equiv> (0xFE :: u8)"
abbreviation "MI_NOTAGERR \<equiv> (0xFF :: u8)"

abbreviation "MAXRLEN \<equiv> (18 :: nat)"

section \<open>Module state\<close>

record 'w rfid = "'w handle" +
  UID :: bytes
  Temp :: bytes

definition rfid_init :: "'w \<Rightarrow> 'w rfid" where
  "rfid_init w = \<lparr>fd = 0, world = w, UID = replicate 5 0, Temp = replicate 4 0\<rparr>"

type_synonym ('w, 'a) rc = "('w rfid, 'a) state"

definition spi_write :: "'w os \<Rightarrow> bytes \<Rightarrow> ('w, int) rc" where
  "spi_write os bs = State (\<lambda>s. case sys_write os (fd s) bs (world s) of
     (r, w) \<Rightarrow> (r, s\<lparr>world := w\<rparr>))"

text \<open>A one-byte read into an uninitialised variable: what the variable holds afterwards.\<close>

definition spi_read1 :: "'w os \<Rightarrow> ('w, u8) rc" where
  "spi_read1 os = State (\<lambda>s. case sys_read os (fd s) 1 (world s) of
     (r, bs, w) \<Rightarrow> ((case bs of b # _ \<Rightarrow> b | [] \<Rightarrow> uninit os (world s)), s\<lparr>world := w\<rparr>))"

section \<open>Register access\<close>

definition write_address :: "int \<Rightarrow> u8" where
  "write_address addr = push_bit 1 (word_of_int addr) AND 0x7E"

definition read_address :: "int \<Rightarrow> u8" where
  "read_address addr = (push_bit 1 (word_of_int addr) OR 0x80) AND NOT 1"

definition WriteRawRC :: "'w os \<Rightarrow> int \<Rightarrow> u8 \<Rightarrow> ('w, int) rc" where
  "WriteRawRC os addr data = spi_write os [write_address addr, data]"

definition ReadRawRC :: "'w os \<Rightarrow> int \<Rightarrow> ('w, u8) rc" where
  "ReadRawRC os addr = do {
     _ \<leftarrow> spi_write os [read_address addr];
     spi_read1 os }"

definition SetBitMask :: "'w os \<Rightarrow> int \<Rightarrow> u8 \<Rightarrow> ('w, unit) rc" where
  "SetBitMask os reg msk = do {
     t \<leftarrow> ReadRawRC os reg;
     let tmp = t OR msk;
     _ \<leftarrow> WriteRawRC os reg (tmp OR msk);
     State_Monad.return () }"

definition ClearBitMask :: "'w os \<Rightarrow> int \<Rightarrow> u8 \<Rightarrow> ('w, unit) rc" where
  "ClearBitMask os reg msk = do {
     t \<leftarrow> ReadRawRC os reg;
     let tmp = t AND NOT msk;
     _ \<leftarrow> WriteRawRC os reg tmp;
     State_Monad.return () }"

definition rc522_init :: "'w os \<Rightarrow> ('w, int) rc" where
  "rc522_init os = do {
     _ \<leftarrow> WriteRawRC os CommandReg PCD_RESETPHASE;
     _ \<leftarrow> WriteRawRC os ModeReg 0x3D;
     _ \<leftarrow> WriteRawRC os TReloadRegL 30;
     _ \<leftarrow> WriteRawRC os TReloadRegH 0;
     _ \<leftarrow> WriteRawRC os TModeReg 0x8D;
     _ \<leftarrow> WriteRawRC os TPrescalerReg 0x3E;
     _ \<leftarrow> ReadRawRC os VersionReg;
     State_Monad.return 0 }"

definition PcdAntennaOn :: "'w os \<Rightarrow> ('w, unit) rc" where
  "PcdAntennaOn os = do {
     _ \<leftarrow> WriteRawRC os TxASKReg 0x40;
     i \<leftarrow> ReadRawRC os TxControlReg;
     (if i AND 0x03 = 0 then SetBitMask os TxControlReg 0x03 else State_Monad.return ());
     _ \<leftarrow> ReadRawRC os TxASKReg;
     State_Monad.return () }"

section \<open>The transceive command\<close>

text \<open>
  The loop \<open>do { n = ReadRawRC(ComIrqReg); i--; } while (i != 0 && !(n & 1) && !(n & waitFor))\<close>.
  \<open>poll_irq os waitFor i\<close> is one pass with \<open>i\<close> the value of the counter after its decrement; the
  code enters with 6000, so the first pass has 5999.
\<close>

fun poll_irq :: "'w os \<Rightarrow> u8 \<Rightarrow> nat \<Rightarrow> ('w, u8 \<times> nat) rc" where
  "poll_irq os waitFor 0 = do { n \<leftarrow> ReadRawRC os ComIrqReg; State_Monad.return (n, 0) }"
| "poll_irq os waitFor (Suc i) = do {
     n \<leftarrow> ReadRawRC os ComIrqReg;
     if n AND 0x01 = 0 \<and> n AND waitFor = 0 then poll_irq os waitFor i
     else State_Monad.return (n, Suc i) }"

fun fifo_write :: "'w os \<Rightarrow> bytes \<Rightarrow> ('w, unit) rc" where
  "fifo_write os [] = State_Monad.return ()"
| "fifo_write os (b # bs) = do { _ \<leftarrow> WriteRawRC os FIFODataReg b; fifo_write os bs }"

fun fifo_read :: "'w os \<Rightarrow> nat \<Rightarrow> ('w, bytes) rc" where
  "fifo_read os 0 = State_Monad.return []"
| "fifo_read os (Suc n) = do {
     b \<leftarrow> ReadRawRC os FIFODataReg;
     bs \<leftarrow> fifo_read os n;
     State_Monad.return (b # bs) }"

definition irq_masks :: "u8 \<Rightarrow> u8 \<times> u8" where
  "irq_masks Command =
     (if Command = PCD_AUTHENT then (0x12, 0x10)
      else if Command = PCD_TRANSCEIVE then (0x77, 0x30) else (0, 0))"

text \<open>\<open>*pOutLenBit\<close> is computed in \<open>int\<close> from the FIFO level before the level is clamped.\<close>

definition out_len_bit :: "u8 \<Rightarrow> u8 \<Rightarrow> u32" where
  "out_len_bit n lastBits =
     (if lastBits \<noteq> 0 then word_of_int ((uint n - 1) * 8 + uint lastBits) else word_of_int (uint n * 8))"

definition clamp_level :: "u8 \<Rightarrow> nat" where
  "clamp_level n = (let n1 = (if n = 0 then 1 else unat n) in if n1 > MAXRLEN then MAXRLEN else n1)"

text \<open>
  The part of \<open>PcdComMF522\<close> after the poll loop: the error register is read only when the counter
  did not run out, the FIFO only for a transceive.
\<close>

definition com_collect ::
    "'w os \<Rightarrow> u8 \<Rightarrow> u8 \<Rightarrow> u8 \<Rightarrow> nat \<Rightarrow> bytes \<Rightarrow> u32 \<Rightarrow> ('w, u8 \<times> bytes \<times> u32) rc" where
  "com_collect os Command irqEn n i pOutData outLen =
     (if i \<noteq> 0 then do {
        e \<leftarrow> ReadRawRC os ErrorReg;
        if e AND 0x1B = 0 then
          (let status = (if n AND irqEn AND 0x01 \<noteq> 0 then MI_NOTAGERR else MI_OK) in
           if Command = PCD_TRANSCEIVE then do {
             n2 \<leftarrow> ReadRawRC os FIFOLevelReg;
             c \<leftarrow> ReadRawRC os ControlReg;
             let len = out_len_bit n2 (c AND 0x07);
             data \<leftarrow> fifo_read os (clamp_level n2);
             State_Monad.return (status, data @ drop (length data) pOutData, len) }
           else State_Monad.return (status, pOutData, outLen))
        else State_Monad.return (MI_ERR, pOutData, outLen) }
      else State_Monad.return (MI_ERR, pOutData, outLen))"

text \<open>
  \<open>PcdComMF522 os cmd in out len0\<close> returns the status, the contents of the output buffer and
  the bit count; \<open>out\<close> and \<open>len0\<close> are their contents before the call.
\<close>

definition PcdComMF522 ::
    "'w os \<Rightarrow> u8 \<Rightarrow> bytes \<Rightarrow> bytes \<Rightarrow> u32 \<Rightarrow> ('w, u8 \<times> bytes \<times> u32) rc" where
  "PcdComMF522 os Command pInData pOutData outLen = do {
     let (irqEn, waitFor) = irq_masks Command;
     _ \<leftarrow> WriteRawRC os ComIEnReg (irqEn OR 0x80);
     ClearBitMask os ComIrqReg 0x80;
     _ \<leftarrow> WriteRawRC os CommandReg PCD_IDLE;
     SetBitMask os FIFOLevelReg 0x80;
     fifo_write os pInData;
     _ \<leftarrow> WriteRawRC os CommandReg Command;
     (if Command = PCD_TRANSCEIVE then SetBitMask os BitFramingReg 0x80 else State_Monad.return ());
     (n, i) \<leftarrow> poll_irq os waitFor 5999;
     ClearBitMask os BitFramingReg 0x80;
     (status, out, len) \<leftarrow> com_collect os Command irqEn n i pOutData outLen;
     SetBitMask os ControlReg 0x80;
     _ \<leftarrow> WriteRawRC os CommandReg PCD_IDLE;
     State_Monad.return (status, out, len) }"

section \<open>Card exchanges\<close>

text \<open>
  \<open>buf\<close> and \<open>unLen\<close> are the uninitialised locals \<open>ucComMF522Buf[MAXRLEN]\<close> and \<open>unLen\<close>.
\<close>

record locals =
  ucComMF522Buf :: bytes
  unLen :: u32

definition PcdRequest :: "'w os \<Rightarrow> locals \<Rightarrow> u8 \<Rightarrow> bytes \<Rightarrow> ('w, u8 \<times> bytes) rc" where
  "PcdRequest os l req_code tagType = do {
     ClearBitMask os Status2Reg 0x08;
     _ \<leftarrow> WriteRawRC os BitFramingReg 0x07;
     SetBitMask os TxControlReg 0x03;
     let buf = (ucComMF522Buf l)[0 := req_code];
     (status, buf, len) \<leftarrow> PcdComMF522 os PCD_TRANSCEIVE (take 1 buf) buf (unLen l);
     State_Monad.return
       (if status = MI_OK \<and> len = 0x10 then (status, tagType[0 := buf ! 0, 1 := buf ! 1])
        else (MI_ERR, tagType)) }"

definition snr_check :: "bytes \<Rightarrow> u8" where
  "snr_check buf = buf ! 0 XOR buf ! 1 XOR buf ! 2 XOR buf ! 3"

definition PcdAnticoll :: "'w os \<Rightarrow> locals \<Rightarrow> bytes \<Rightarrow> ('w, u8 \<times> bytes) rc" where
  "PcdAnticoll os l snr = do {
     ClearBitMask os Status2Reg 0x08;
     _ \<leftarrow> WriteRawRC os BitFramingReg 0x00;
     ClearBitMask os CollReg 0x80;
     let buf = (ucComMF522Buf l)[0 := PICC_ANTICOLL1, 1 := 0x20];
     (status, buf, len) \<leftarrow> PcdComMF522 os PCD_TRANSCEIVE (take 2 buf) buf (unLen l);
     let (status, snr) =
       (if status = MI_OK
        then (if snr_check buf \<noteq> buf ! 4 then MI_ERR else MI_OK, take 4 buf @ drop 4 snr)
        else (status, snr));
     SetBitMask os CollReg 0x80;
     State_Monad.return (status, snr) }"

definition put_uid :: "bytes \<Rightarrow> ('w, unit) rc" where
  "put_uid u = State_Monad.update (UID_update (\<lambda>_. u))"

definition put_temp :: "bytes \<Rightarrow> ('w, unit) rc" where
  "put_temp t = State_Monad.update (Temp_update (\<lambda>_. t))"

text \<open>
  \<open>Auto_Reader\<close>, with the locals of its three exchanges: 4, the length of a card number, or 0.
\<close>

definition Auto_Reader :: "'w os \<Rightarrow> locals \<Rightarrow> locals \<Rightarrow> locals \<Rightarrow> ('w, int) rc" where
  "Auto_Reader os l1 l2 l3 = do {
     put_uid (replicate 5 0);
     s \<leftarrow> State_Monad.get;
     (status, t) \<leftarrow> PcdRequest os l1 0x52 (Temp s);
     put_temp t;
     if status = MI_OK then do {
       s \<leftarrow> State_Monad.get;
       (status, u) \<leftarrow> PcdAnticoll os l2 (UID s);
       put_uid u;
       if status = MI_OK then do {
         s \<leftarrow> State_Monad.get;
         (_, t) \<leftarrow> PcdRequest os l3 0x52 (Temp s);
         put_temp t;
         State_Monad.return 4 }
       else State_Monad.return 0 }
     else State_Monad.return 0 }"

section \<open>Native methods\<close>

definition rfid_Open :: "'w os \<Rightarrow> 'w rfid \<Rightarrow> 'w rfid" where
  "rfid_Open os s =
     (let s1 = open_dev os ''/dev/rc522'' s in
      if fd s1 \<le> 0 then s1
      else snd (run_state (do { _ \<leftarrow> rc522_init os; PcdAntennaOn os }) s1))"

definition rfid_Close :: "'w os \<Rightarrow> 'w rfid \<Rightarrow> 'w rfid" where
  "rfid_Close os s = close_dev os s"

definition rfid_Ioctl :: "'w os \<Rightarrow> int \<Rightarrow> int \<Rightarrow> 'w rfid \<Rightarrow> 'w rfid" where
  "rfid_Ioctl os num en s = ioctl_dev os (fd s) num en s"

definition rfid_Read :: "'w os \<Rightarrow> 'w rfid \<Rightarrow> int list option \<times> 'w rfid" where
  "rfid_Read os s =
     (case sys_read os (fd s) 512 (world s) of (len, bs, w) \<Rightarrow>
        (if len \<le> 0 then None else Some (map uint (take (nat len) (zeroed 512 bs))),
         s\<lparr>world := w\<rparr>))"

definition ReadCardNum ::
    "'w os \<Rightarrow> locals \<Rightarrow> locals \<Rightarrow> locals \<Rightarrow> 'w rfid \<Rightarrow> bytes option \<times> 'w rfid" where
  "ReadCardNum os l1 l2 l3 s =
     (case run_state (Auto_Reader os l1 l2 l3) s of (len, s') \<Rightarrow>
        (if len \<le> 0 then None else Some (take (nat len) (UID s')), s'))"

section \<open>Frame facts: register access leaves the module variables alone\<close>

text \<open>\<open>quiet m\<close>: the computation \<open>m\<close> changes nothing but the world behind the descriptor.\<close>

definition quiet :: "('w, 'a) rc \<Rightarrow> bool" where
  "quiet m \<longleftrightarrow> (\<forall>s. \<exists>w. snd (run_state m s) = s\<lparr>world := w\<rparr>)"

named_theorems quiet_intros \<open>computations that only talk to the chip\<close>

lemma quiet_return [quiet_intros]: "quiet (State_Monad.return x)"
  unfolding quiet_def
proof
  fix s :: "'w rfid"
  have "snd (run_state (State_Monad.return x) s) = s\<lparr>world := world s\<rparr>" by simp
  then show "\<exists>w. snd (run_state (State_Monad.return x) s) = s\<lparr>world := w\<rparr>" ..
qed

lemma quiet_bind [quiet_intros]:
  assumes "quiet m" and "\<And>a. quiet (f a)"
  shows "quiet (State_Monad.bind m f)"
  unfolding quiet_def
proof
  fix s
  obtain a s1 where m: "run_state m s = (a, s1)" by (cases "run_state m s")
  with assms(1) obtain w where s1: "s1 = s\<lparr>world := w\<rparr>"
    unfolding quiet_def by (metis snd_conv)
  obtain w' where "snd (run_state (f a) s1) = s1\<lparr>world := w'\<rparr>"
    using assms(2) unfolding quiet_def by blast
  with m s1 show "\<exists>w. snd (run_state (State_Monad.bind m f) s) = s\<lparr>world := w\<rparr>"
    by auto
qed

lemma quiet_spi_write [quiet_intros]: "quiet (spi_write os bs)"
  by (auto simp: quiet_def spi_write_def split: prod.splits)

lemma quiet_spi_read1 [quiet_intros]: "quiet (spi_read1 os)"
  by (auto simp: quiet_def spi_read1_def split: prod.splits)

lemma quiet_WriteRawRC [quiet_intros]: "quiet (WriteRawRC os addr data)"
  unfolding WriteRawRC_def by (intro quiet_intros)

lemma quiet_ReadRawRC [quiet_intros]: "quiet (ReadRawRC os addr)"
  unfolding ReadRawRC_def by (intro quiet_intros)

lemma quiet_SetBitMask [quiet_intros]: "quiet (SetBitMask os reg m)"
  unfolding SetBitMask_def Let_def by (intro quiet_intros)

lemma quiet_ClearBitMask [quiet_intros]: "quiet (ClearBitMask os reg m)"
  unfolding ClearBitMask_def Let_def by (intro quiet_intros)

lemma quiet_if [quiet_intros]: "quiet m \<Longrightarrow> quiet n \<Longrightarrow> quiet (if b then m else n)"
  by simp

lemma quiet_case_prod [quiet_intros]: "(\<And>a b. quiet (f a b)) \<Longrightarrow> quiet (case p of (a, b) \<Rightarrow> f a b)"
  by (cases p) simp

lemma quiet_rc522_init [quiet_intros]: "quiet (rc522_init os)"
  unfolding rc522_init_def by (intro quiet_intros)

lemma quiet_PcdAntennaOn [quiet_intros]: "quiet (PcdAntennaOn os)"
  unfolding PcdAntennaOn_def by (intro quiet_intros)

lemma quiet_poll_irq [quiet_intros]: "quiet (poll_irq os waitFor i)"
  by (induction i) (auto intro!: quiet_intros)

lemma quiet_fifo_write [quiet_intros]: "quiet (fifo_write os bs)"
  by (induction bs) (auto intro!: quiet_intros)

lemma quiet_fifo_read [quiet_intros]: "quiet (fifo_read os n)"
  by (induction n) (auto intro!: quiet_intros)

lemma quiet_com_collect [quiet_intros]: "quiet (com_collect os c irq n i out len)"
  unfolding com_collect_def Let_def by (intro quiet_intros)

lemma quiet_PcdComMF522 [quiet_intros]: "quiet (PcdComMF522 os c inp out len)"
  unfolding PcdComMF522_def Let_def by (intro quiet_intros)

lemma quiet_PcdRequest [quiet_intros]: "quiet (PcdRequest os l code t)"
  unfolding PcdRequest_def Let_def by (intro quiet_intros)

lemma quiet_PcdAnticoll [quiet_intros]: "quiet (PcdAnticoll os l u)"
  unfolding PcdAnticoll_def Let_def by (intro quiet_intros)

lemma quietD: "quiet m \<Longrightarrow> run_state m s = (a, s') \<Longrightarrow> \<exists>w. s' = s\<lparr>world := w\<rparr>"
  unfolding quiet_def by (metis snd_conv)

section \<open>Results of the computations, whatever the chip answers\<close>

lemma pred_return: "P x \<Longrightarrow> pred_state P (State_Monad.return x)"
  by (rule pred_stateI) simp

lemma pred_bind:
  assumes "pred_state Q m" and "\<And>a. Q a \<Longrightarrow> pred_state P (f a)"
  shows "pred_state P (State_Monad.bind m f)"
proof (rule pred_stateI)
  fix a s s'
  assume run: "run_state (State_Monad.bind m f) s = (a, s')"
  obtain b s1 where m: "run_state m s = (b, s1)" by (cases "run_state m s")
  with assms(1) have "Q b" by blast
  then have "pred_state P (f b)" by (rule assms(2))
  moreover from run m have "run_state (f b) s1 = (a, s')" by simp
  ultimately show "P a" by blast
qed

lemma pred_any: "pred_state (\<lambda>_. True) m"
  by (rule pred_stateI) simp

lemma pred_bind_any: "(\<And>a. pred_state P (f a)) \<Longrightarrow> pred_state P (State_Monad.bind m f)"
  by (rule pred_bind [OF pred_any])

lemma pred_case_prod: "(\<And>a b. pred_state P (f a b)) \<Longrightarrow> pred_state P (case p of (a, b) \<Rightarrow> f a b)"
  by (cases p) simp

lemma pred_if: "(b \<Longrightarrow> pred_state P m) \<Longrightarrow> (\<not> b \<Longrightarrow> pred_state P n) \<Longrightarrow> pred_state P (if b then m else n)"
  by simp

lemma fifo_read_length: "pred_state (\<lambda>bs. length bs = n) (fifo_read os n)"
proof (induction n)
  case (Suc n)
  then show ?case
    by (auto intro!: pred_bind_any pred_return elim!: pred_bind)
qed (auto intro: pred_return)

lemma clamp_level_bound: "clamp_level n \<le> MAXRLEN \<and> 0 < clamp_level n"
  by (auto simp: clamp_level_def Let_def unat_gt_0)

lemma poll_irq_result:
  "pred_state (\<lambda>(n, k). k \<le> i \<and> (k \<noteq> 0 \<longrightarrow> n AND 0x01 \<noteq> 0 \<or> n AND waitFor \<noteq> 0))
     (poll_irq os waitFor i)"
proof (induction i)
  case 0
  then show ?case by (auto intro!: pred_bind_any pred_return)
next
  case (Suc i)
  then have "pred_state (\<lambda>(n, k). k \<le> Suc i \<and> (k \<noteq> 0 \<longrightarrow> n AND 0x01 \<noteq> 0 \<or> n AND waitFor \<noteq> 0))
     (poll_irq os waitFor i)"
    by (rule state.pred_mono_strong) auto
  then show ?case
    by (auto intro!: pred_bind_any pred_if pred_return)
qed

text \<open>
  What a transceive can leave in the caller's variables: the output buffer keeps its size, an
  error leaves it and the bit count untouched, and at most \<open>MAXRLEN\<close> bytes of it are overwritten.
\<close>

definition com_result :: "bytes \<Rightarrow> u32 \<Rightarrow> u8 \<times> bytes \<times> u32 \<Rightarrow> bool" where
  "com_result out len0 r \<longleftrightarrow> (case r of (st, out', len') \<Rightarrow>
     st \<in> {MI_OK, MI_NOTAGERR, MI_ERR} \<and>
     (length out = MAXRLEN \<longrightarrow> length out' = MAXRLEN) \<and>
     (st = MI_ERR \<longrightarrow> out' = out \<and> len' = len0))"

lemma com_read_result:
  "st = MI_OK \<or> st = MI_NOTAGERR \<Longrightarrow> pred_state (com_result out len0)
     (do { data \<leftarrow> fifo_read os (clamp_level n);
           State_Monad.return (st, data @ drop (length data) out, len) })"
  by (rule pred_bind [OF fifo_read_length])
    (use clamp_level_bound [of n] in \<open>auto simp: com_result_def intro!: pred_return\<close>)

lemma com_result_err: "com_result out len0 (MI_ERR, out, len0)"
  by (simp add: com_result_def)

lemma com_result_done:
  "st = MI_OK \<or> st = MI_NOTAGERR \<Longrightarrow> com_result out len0 (st, out, len0)"
  by (auto simp: com_result_def)

lemma com_collect_result: "pred_state (com_result out len0) (com_collect os c irqEn n i out len0)"
  unfolding com_collect_def Let_def
  by (intro pred_if pred_bind_any com_result_err com_result_done com_read_result pred_return) auto

lemma com_tail:
  "pred_state (com_result out len0) (do {
      (status, out, len) \<leftarrow> com_collect os c irqEn n i out len0;
      SetBitMask os ControlReg 0x80;
      _ \<leftarrow> WriteRawRC os CommandReg PCD_IDLE;
      State_Monad.return (status, out, len) })"
  by (rule pred_bind [OF com_collect_result]) (auto intro!: pred_bind_any pred_return)

lemma PcdComMF522_result: "pred_state (com_result out len0) (PcdComMF522 os c inp out len0)"
  unfolding PcdComMF522_def Let_def
  by (rule com_tail | rule pred_bind_any | rule pred_case_prod)+

text \<open>C34. For every behaviour of the chip the transceive command returns one of three
  statuses, changes nothing but the world behind the descriptor, keeps the 18-byte buffer in
  bounds, and after \<open>MI_ERR\<close> the caller's buffer and bit count are as before.\<close>

theorem PcdComMF522_contract:
  assumes "run_state (PcdComMF522 os c inp out len0) s = ((st, out', len'), s')"
    and "length out = MAXRLEN"
  shows "st \<in> {MI_OK, MI_NOTAGERR, MI_ERR} \<and> length out' = MAXRLEN \<and>
    (st = MI_ERR \<longrightarrow> out' = out \<and> len' = len0) \<and> (\<exists>w. s' = s\<lparr>world := w\<rparr>)"
proof -
  have "com_result out len0 (st, out', len')"
    using PcdComMF522_result assms(1) by blast
  moreover have "\<exists>w. s' = s\<lparr>world := w\<rparr>"
    using quiet_PcdComMF522 assms(1) by (rule quietD)
  ultimately show ?thesis using assms(2) by (simp add: com_result_def)
qed

section \<open>Addresses\<close>

lemma address_bits: "write_address a AND 0x81 = 0" "read_address a AND 0x81 = 0x80"
  unfolding write_address_def read_address_def
  by (rule u8_eqI; simp add: bit_simps)+

lemma address_table:
  "list_all (\<lambda>a. drop_bit 1 (write_address a) AND 0x3F = word_of_int a \<and>
     drop_bit 1 (read_address a) AND 0x3F = word_of_int a) [0..63]"
  by code_simp

text \<open>The SPI address byte of every one of the 64 registers carries the register number in
  bits 6 to 1, the direction in bit 7 (0 write, 1 read) and 0 in bit 0, so a write and a read
  never address the chip alike.\<close>

theorem spi_address_layout:
  assumes "0 \<le> a" and "a < 64"
  shows "drop_bit 1 (write_address a) AND 0x3F = word_of_int a \<and>
    drop_bit 1 (read_address a) AND 0x3F = word_of_int a \<and>
    write_address a AND 0x81 = 0 \<and> read_address a AND 0x81 = 0x80"
proof -
  have "a \<in> set [0..63]" using assms by simp
  then show ?thesis
    using address_table address_bits unfolding list_all_iff by blast
qed

section \<open>A silent chip\<close>

lemma poll_irq_silent:
  assumes "\<forall>s. fst (run_state (ReadRawRC os ComIrqReg) s) AND (0x01 OR waitFor) = 0"
  shows "\<exists>n. fst (run_state (poll_irq os waitFor i) s) = (n, 0)"
proof (induction i arbitrary: s)
  case 0
  show ?case by (simp split: prod.splits)
next
  case (Suc i)
  obtain n s1 where r: "run_state (ReadRawRC os ComIrqReg) s = (n, s1)"
    by (cases "run_state (ReadRawRC os ComIrqReg) s")
  with assms have z: "n AND (0x01 OR waitFor) = 0" by (metis fst_conv)
  then have "n AND 0x01 = 0" and "n AND waitFor = 0"
    by (auto simp: bit.conj_disj_distrib or_eq_0_iff)
  with Suc.IH [of s1] r show ?case by simp
qed

lemma poll_irq_silent_pred:
  assumes "\<forall>s. fst (run_state (ReadRawRC os ComIrqReg) s) AND (0x01 OR waitFor) = 0"
  shows "pred_state (\<lambda>(n, k). k = 0) (poll_irq os waitFor i)"
proof (rule pred_stateI)
  fix r s s'
  assume "run_state (poll_irq os waitFor i) s = (r, s')"
  with poll_irq_silent [OF assms, of i s] show "case r of (n, k) \<Rightarrow> k = 0" by auto
qed

lemma silent_tail:
  assumes "pred_state (\<lambda>(n, k). k = 0) m"
  shows "pred_state (\<lambda>r. r = (MI_ERR, out, len0)) (do {
      (n, i) \<leftarrow> m;
      ClearBitMask os BitFramingReg 0x80;
      (status, out, len) \<leftarrow> com_collect os c irqEn n i out len0;
      SetBitMask os ControlReg 0x80;
      _ \<leftarrow> WriteRawRC os CommandReg PCD_IDLE;
      State_Monad.return (status, out, len) })"
  by (rule pred_bind [OF assms], clarsimp simp: com_collect_def)
    ((rule pred_bind_any)+, simp add: pred_return)

lemma irq_masks_transceive: "irq_masks PCD_TRANSCEIVE = (0x77, 0x30)"
  by (simp add: irq_masks_def)

text \<open>The poll loop always ends: when the interrupt register never shows the timer or a
  receive bit, the transceive command gives up after its 6000 reads with \<open>MI_ERR\<close> and hands the
  caller's buffer and bit count back unchanged.\<close>

theorem PcdComMF522_silent:
  assumes "\<forall>s. fst (run_state (ReadRawRC os ComIrqReg) s) AND 0x31 = 0"
  shows "fst (run_state (PcdComMF522 os PCD_TRANSCEIVE inp out len0) s) = (MI_ERR, out, len0)"
proof -
  have silent: "\<forall>s. fst (run_state (ReadRawRC os ComIrqReg) s) AND (0x01 OR 0x30) = 0"
    using assms by simp
  note tail = silent_tail [OF poll_irq_silent_pred [OF silent]]
  have "pred_state (\<lambda>r. r = (MI_ERR, out, len0)) (PcdComMF522 os PCD_TRANSCEIVE inp out len0)"
    unfolding PcdComMF522_def irq_masks_transceive Let_def prod.case
    by (rule tail | rule pred_bind_any)+
  then show ?thesis by (rule pred_state_run_state)
qed

section \<open>Anticollision and card numbers\<close>

text \<open>
  A card number \<open>u\<close> was read with its check byte: some 18-byte response buffer starts with it,
  and the exclusive or of its four bytes is the fifth.
\<close>

definition checked_number :: "bytes \<Rightarrow> bool" where
  "checked_number u \<longleftrightarrow>
     (\<exists>buf. length buf = MAXRLEN \<and> take 4 u = take 4 buf \<and> snr_check buf = buf ! 4)"

lemma PcdAnticoll_result:
  assumes "length (ucComMF522Buf l) = MAXRLEN" and "length snr = 5"
  shows "pred_state (\<lambda>(st, u). length u = 5 \<and> (st = MI_OK \<longrightarrow> checked_number u)) (PcdAnticoll os l snr)"
proof -
  let ?P = "\<lambda>(st, u). length u = 5 \<and> (st = MI_OK \<longrightarrow> checked_number u)"
  let ?buf = "(ucComMF522Buf l)[0 := PICC_ANTICOLL1, 1 := 0x20]"
  have com: "pred_state (\<lambda>(st, out, len). length out = MAXRLEN)
      (PcdComMF522 os PCD_TRANSCEIVE (take 2 ?buf) ?buf (unLen l))"
    by (rule state.pred_mono_strong [OF PcdComMF522_result]) (use assms in \<open>auto simp: com_result_def\<close>)
  have tail: "pred_state ?P (do {
      (status, buf, len) \<leftarrow> PcdComMF522 os PCD_TRANSCEIVE (take 2 ?buf) ?buf (unLen l);
      let (status, snr) =
        (if status = MI_OK
         then (if snr_check buf \<noteq> buf ! 4 then MI_ERR else MI_OK, take 4 buf @ drop 4 snr)
         else (status, snr));
      SetBitMask os CollReg 0x80;
      State_Monad.return (status, snr) })"
    by (rule pred_bind [OF com])
      (use assms(2) in \<open>auto simp: checked_number_def intro!: pred_bind_any pred_return split: if_splits\<close>)
  show ?thesis
    unfolding PcdAnticoll_def Let_def
    by (rule tail [unfolded Let_def] | rule pred_bind_any)+
qed

lemma PcdRequest_Temp_length:
  "length t = 4 \<Longrightarrow> pred_state (\<lambda>(st, t'). length t' = 4) (PcdRequest os l code t)"
  unfolding PcdRequest_def Let_def
  by (auto intro!: pred_bind_any pred_return split: if_splits)

lemma run_put [simp]:
  "run_state (put_uid u) s = ((), s\<lparr>UID := u\<rparr>)" "run_state (put_temp t) s = ((), s\<lparr>Temp := t\<rparr>)"
  by (simp_all add: put_uid_def put_temp_def State_Monad.update_def)

lemma run_PcdRequest_quiet:
  "run_state (PcdRequest os l c t) s = (r, s') \<Longrightarrow> UID s' = UID s"
  using quietD [OF quiet_PcdRequest] by fastforce

text \<open>When \<open>ReadCardNum\<close> returns a card number it has four bytes, they are the first four
  of the five bytes kept in \<open>UID\<close>, and they came with a check byte that matched.\<close>

theorem ReadCardNum_checked:
  assumes "length (ucComMF522Buf l2) = MAXRLEN"
    and "ReadCardNum os l1 l2 l3 s = (Some u, s')"
  shows "length u = 4 \<and> u = take 4 (UID s') \<and> length (UID s') = 5 \<and> checked_number u"
proof -
  obtain r s1 where "run_state (Auto_Reader os l1 l2 l3) s = (r, s1)"
    by (cases "run_state (Auto_Reader os l1 l2 l3) s")
  with assms(2) have auto: "run_state (Auto_Reader os l1 l2 l3) s = (r, s')" and "0 < r"
    and u: "u = take (nat r) (UID s')"
    by (auto simp: ReadCardNum_def split: if_splits)
  let ?s0 = "s\<lparr>UID := replicate 5 0\<rparr>"
  obtain st1 t1 s2 where req: "run_state (PcdRequest os l1 0x52 (Temp ?s0)) ?s0 = ((st1, t1), s2)"
    by (metis prod.collapse)
  let ?s3 = "s2\<lparr>Temp := t1\<rparr>"
  obtain st2 u2 s4 where ac: "run_state (PcdAnticoll os l2 (UID ?s3)) ?s3 = ((st2, u2), s4)"
    by (metis prod.collapse)
  let ?s5 = "s4\<lparr>UID := u2\<rparr>"
  obtain st3 t3 s6 where req2: "run_state (PcdRequest os l3 0x52 (Temp ?s5)) ?s5 = ((st3, t3), s6)"
    by (metis prod.collapse)
  have "UID s2 = replicate 5 0"
    using run_PcdRequest_quiet [OF req] by simp
  then have "length u2 = 5 \<and> (st2 = MI_OK \<longrightarrow> checked_number u2)"
    using PcdAnticoll_result [OF assms(1), of "UID ?s3"] ac by fastforce
  moreover have "UID s6 = u2"
    using run_PcdRequest_quiet [OF req2] by simp
  moreover have "r = 4 \<and> st2 = MI_OK \<and> UID s' = UID s6"
    using auto \<open>0 < r\<close> req ac req2 by (auto simp: Auto_Reader_def split: if_splits)
  ultimately show ?thesis
    using u by (auto simp: checked_number_def)
qed

text \<open>A chip whose receive FIFO stays empty and whose interrupt register reports an end of reception.\<close>

definition empty_reply_os :: "u8 os" where
  "empty_reply_os = \<lparr>sys_open = (\<lambda>_ _ w. (3, w)), sys_close = (\<lambda>_ w. w), sys_ioctl = (\<lambda>_ _ _ w. w),
     sys_read = (\<lambda>_ n w. (1, [if w = read_address ComIrqReg then 0x30 else 0], w)),
     sys_write = (\<lambda>_ bs w. (int (length bs), hd bs)), uninit = (\<lambda>_. 0)\<rparr>"

text \<open>The anticollision exchange does not look at the number of bits received: with an empty
  receive FIFO (level 0) and the right residue in the uninitialised local buffer it reports
  success and a card number no card sent.\<close>

theorem PcdAnticoll_accepts_empty_reply:
  "fst (run_state (ReadRawRC empty_reply_os FIFOLevelReg) (rfid_init 0)) = 0 \<and>
   fst (run_state (PcdAnticoll empty_reply_os
     \<lparr>ucComMF522Buf = [0, 0, 0, 0, 0x20] @ replicate 13 0, unLen = 0\<rparr> (replicate 5 0)) (rfid_init 0))
   = (MI_OK, [0, 0x20, 0, 0, 0])"
  by code_simp

text \<open>
  The reader's \<open>Open\<close> initialises the chip again each time it is called on an open descriptor, so
  only the weaker of the two life-cycle contracts holds.
\<close>

lemma rfid_Open_fd: "0 < fd s \<Longrightarrow> fd (rfid_Open os s) = fd s"
proof -
  assume "0 < fd s"
  moreover have "quiet (do { _ \<leftarrow> rc522_init os; PcdAntennaOn os })"
    by (intro quiet_intros)
  then obtain w where "snd (run_state (do { _ \<leftarrow> rc522_init os; PcdAntennaOn os }) s) = s\<lparr>world := w\<rparr>"
    unfolding quiet_def by blast
  ultimately show ?thesis
    by (simp add: rfid_Open_def open_dev_held Let_def del: run_state_bind)
qed

interpretation rfid: fd_sticky "rfid_Open os" "rfid_Close os" fd for os
  by unfold_locales (simp_all add: rfid_Open_fd rfid_Close_def)

section \<open>Instances\<close>

theorem spi_address_layout_witness:
  "drop_bit 1 (read_address FIFOLevelReg) AND 0x3F = (0x0A :: u8) \<and> read_address FIFOLevelReg AND 0x81 = 0x80"
  using spi_address_layout [of FIFOLevelReg] by simp

theorem PcdComMF522_contract_witness:
  "let r = run_state (PcdComMF522 empty_reply_os PCD_TRANSCEIVE [0x52] (replicate 18 0) 0) (rfid_init 0)
   in length (fst (snd (fst r))) = MAXRLEN"
  using PcdComMF522_contract [of empty_reply_os PCD_TRANSCEIVE "[0x52]" "replicate 18 0" 0 "rfid_init 0"]
  by (cases "run_state (PcdComMF522 empty_reply_os PCD_TRANSCEIVE [0x52] (replicate 18 0) 0) (rfid_init 0)")
    (auto simp: Let_def)

text \<open>A chip whose registers all read 0, and one that answers each exchange with a card's bytes.\<close>

definition silent_os :: "u8 os" where
  "silent_os = empty_reply_os\<lparr>sys_read := (\<lambda>_ n w. (1, [0], w))\<rparr>"

lemma silent_os_reads: "fst (run_state (ReadRawRC silent_os r) s) = 0"
  by (simp add: ReadRawRC_def spi_write_def spi_read1_def silent_os_def empty_reply_os_def)

theorem PcdComMF522_silent_witness:
  "fst (run_state (PcdComMF522 silent_os PCD_TRANSCEIVE [0x52] [1, 2] 0) (rfid_init 0)) = (MI_ERR, [1, 2], 0)"
  by (rule PcdComMF522_silent) (simp add: silent_os_reads)

text \<open>
  The card of \<open>card_os\<close>: two bytes of card type for a request, five bytes 0 of number and check
  byte for an anticollision. The world is the last address byte and whether the frame bits written
  last announce a request.
\<close>

definition card_os :: "(u8 \<times> bool) os" where
  "card_os = \<lparr>sys_open = (\<lambda>_ _ w. (3, w)), sys_close = (\<lambda>_ w. w), sys_ioctl = (\<lambda>_ _ _ w. w),
     sys_read = (\<lambda>_ n (a, q). (1,
       [if a = read_address ComIrqReg then 0x30
        else if a = read_address FIFOLevelReg then (if q then 2 else 5) else 0], (a, q))),
     sys_write = (\<lambda>_ bs (a, q). (int (length bs),
       (hd bs, if hd bs = write_address FIFODataReg then bs ! 1 = 0x52 else q))),
     uninit = (\<lambda>_. 0)\<rparr>"

definition zero_locals :: locals where
  "zero_locals = \<lparr>ucComMF522Buf = replicate 18 0, unLen = 0\<rparr>"

lemma card_os_read:
  "fst (ReadCardNum card_os zero_locals zero_locals zero_locals (rfid_init (0, False))) = Some [0, 0, 0, 0]"
  by code_simp

theorem ReadCardNum_checked_witness: "checked_number [0, 0, 0, 0]"
proof -
  have len: "length (ucComMF522Buf zero_locals) = MAXRLEN"
    by (simp add: zero_locals_def)
  obtain s' where "ReadCardNum card_os zero_locals zero_locals zero_locals (rfid_init (0, False))
      = (Some [0, 0, 0, 0], s')"
    using card_os_read by (metis prod.collapse)
  from ReadCardNum_checked [OF len this] show ?thesis by blast
qed

end
