(* ===== verification/Uvc_Types.thy ===== *)
theory Uvc_Types
  imports Prelude
begin

text \<open>
  The data of \<open>libuvccamera/src/main/jni/libuvc\<close>: error codes, request codes and control
  selectors of \<open>include/libuvc/libuvc.h\<close>, the descriptor structures a device is parsed into
  (\<open>libuvc.h\<close>, \<open>libuvc_internal.h\<close>), and the part of libusb's configuration descriptor the parser
  walks. A doubly linked \<open>DL_APPEND\<close> list is a HOL list in the order of the links; \<open>parent\<close>
  pointers are recovered from the position in the enclosing list.
\<close>

section \<open>Codes\<close>

abbreviation "UVC_SUCCESS \<equiv> (0 :: int)"
abbreviation "UVC_ERROR_IO \<equiv> (-1 :: int)"
abbreviation "UVC_ERROR_INVALID_PARAM \<equiv> (-2 :: int)"
abbreviation "UVC_ERROR_BUSY \<equiv> (-6 :: int)"
abbreviation "UVC_ERROR_NO_MEM \<equiv> (-11 :: int)"
abbreviation "UVC_ERROR_NOT_SUPPORTED \<equiv> (-12 :: int)"
abbreviation "UVC_ERROR_INVALID_DEVICE \<equiv> (-50 :: int)"
abbreviation "UVC_ERROR_INVALID_MODE \<equiv> (-51 :: int)"
abbreviation "UVC_ERROR_CALLBACK_EXISTS \<equiv> (-52 :: int)"
abbreviation "UVC_ERROR_OTHER \<equiv> (-99 :: int)"

abbreviation "UVC_SET_CUR \<equiv> (0x01 :: u8)"
abbreviation "UVC_GET_CUR \<equiv> (0x81 :: u8)"
abbreviation "UVC_GET_MIN \<equiv> (0x82 :: u8)"
abbreviation "UVC_GET_MAX \<equiv> (0x83 :: u8)"
abbreviation "UVC_GET_LEN \<equiv> (0x85 :: u8)"
abbreviation "UVC_GET_DEF \<equiv> (0x87 :: u8)"

abbreviation "REQ_TYPE_SET \<equiv> (0x21 :: u8)"
abbreviation "REQ_TYPE_GET \<equiv> (0xa1 :: u8)"

text \<open>Control selectors (\<open>uvc_vc_ctrl_selector\<close>, \<open>uvc_ct_ctrl_selector\<close>, \<open>uvc_pu_ctrl_selector\<close>).\<close>

abbreviation "UVC_VC_VIDEO_POWER_MODE_CONTROL \<equiv> (0x01 :: u16)"
abbreviation "UVC_VC_REQUEST_ERROR_CODE_CONTROL \<equiv> (0x02 :: u16)"
abbreviation "UVC_CT_SCANNING_MODE_CONTROL \<equiv> (0x01 :: u16)"
abbreviation "UVC_CT_AE_MODE_CONTROL \<equiv> (0x02 :: u16)"
abbreviation "UVC_CT_AE_PRIORITY_CONTROL \<equiv> (0x03 :: u16)"
abbreviation "UVC_CT_EXPOSURE_TIME_ABSOLUTE_CONTROL \<equiv> (0x04 :: u16)"
abbreviation "UVC_CT_EXPOSURE_TIME_RELATIVE_CONTROL \<equiv> (0x05 :: u16)"
abbreviation "UVC_CT_FOCUS_ABSOLUTE_CONTROL \<equiv> (0x06 :: u16)"
abbreviation "UVC_CT_FOCUS_RELATIVE_CONTROL \<equiv> (0x07 :: u16)"
abbreviation "UVC_CT_FOCUS_AUTO_CONTROL \<equiv> (0x08 :: u16)"
abbreviation "UVC_CT_IRIS_ABSOLUTE_CONTROL \<equiv> (0x09 :: u16)"
abbreviation "UVC_CT_IRIS_RELATIVE_CONTROL \<equiv> (0x0a :: u16)"
abbreviation "UVC_CT_ZOOM_ABSOLUTE_CONTROL \<equiv> (0x0b :: u16)"
abbreviation "UVC_CT_ZOOM_RELATIVE_CONTROL \<equiv> (0x0c :: u16)"
abbreviation "UVC_CT_PANTILT_ABSOLUTE_CONTROL \<equiv> (0x0d :: u16)"
abbreviation "UVC_CT_PANTILT_RELATIVE_CONTROL \<equiv> (0x0e :: u16)"
abbreviation "UVC_CT_ROLL_ABSOLUTE_CONTROL \<equiv> (0x0f :: u16)"
abbreviation "UVC_CT_ROLL_RELATIVE_CONTROL \<equiv> (0x10 :: u16)"
abbreviation "UVC_CT_PRIVACY_CONTROL \<equiv> (0x11 :: u16)"
abbreviation "UVC_CT_FOCUS_SIMPLE_CONTROL \<equiv> (0x12 :: u16)"
abbreviation "UVC_CT_DIGITAL_WINDOW_CONTROL \<equiv> (0x13 :: u16)"
abbreviation "UVC_CT_REGION_OF_INTEREST_CONTROL \<equiv> (0x14 :: u16)"
abbreviation "UVC_PU_BACKLIGHT_COMPENSATION_CONTROL \<equiv> (0x01 :: u16)"
abbreviation "UVC_PU_BRIGHTNESS_CONTROL \<equiv> (0x02 :: u16)"
abbreviation "UVC_PU_CONTRAST_CONTROL \<equiv> (0x03 :: u16)"
abbreviation "UVC_PU_GAIN_CONTROL \<equiv> (0x04 :: u16)"
abbreviation "UVC_PU_POWER_LINE_FREQUENCY_CONTROL \<equiv> (0x05 :: u16)"
abbreviation "UVC_PU_HUE_CONTROL \<equiv> (0x06 :: u16)"
abbreviation "UVC_PU_SATURATION_CONTROL \<equiv> (0x07 :: u16)"
abbreviation "UVC_PU_SHARPNESS_CONTROL \<equiv> (0x08 :: u16)"
abbreviation "UVC_PU_GAMMA_CONTROL \<equiv> (0x09 :: u16)"
abbreviation "UVC_PU_WHITE_BALANCE_TEMPERATURE_CONTROL \<equiv> (0x0a :: u16)"
abbreviation "UVC_PU_WHITE_BALANCE_TEMPERATURE_AUTO_CONTROL \<equiv> (0x0b :: u16)"
abbreviation "UVC_PU_WHITE_BALANCE_COMPONENT_CONTROL \<equiv> (0x0c :: u16)"
abbreviation "UVC_PU_WHITE_BALANCE_COMPONENT_AUTO_CONTROL \<equiv> (0x0d :: u16)"
abbreviation "UVC_PU_DIGITAL_MULTIPLIER_CONTROL \<equiv> (0x0e :: u16)"
abbreviation "UVC_PU_DIGITAL_MULTIPLIER_LIMIT_CONTROL \<equiv> (0x0f :: u16)"
abbreviation "UVC_PU_HUE_AUTO_CONTROL \<equiv> (0x10 :: u16)"
abbreviation "UVC_PU_ANALOG_VIDEO_STANDARD_CONTROL \<equiv> (0x11 :: u16)"
abbreviation "UVC_PU_ANALOG_LOCK_STATUS_CONTROL \<equiv> (0x12 :: u16)"
abbreviation "UVC_PU_CONTRAST_AUTO_CONTROL \<equiv> (0x13 :: u16)"
abbreviation "UVC_VS_PROBE_CONTROL \<equiv> (0x01 :: u16)"
abbreviation "UVC_VS_COMMIT_CONTROL \<equiv> (0x02 :: u16)"
abbreviation "UVC_VS_STILL_PROBE_CONTROL \<equiv> (0x03 :: u16)"
abbreviation "UVC_VS_STILL_COMMIT_CONTROL \<equiv> (0x04 :: u16)"

section \<open>Terminals and units of the control interface\<close>

record uvc_input_terminal =
  it_bTerminalID :: u8
  it_wTerminalType :: u16
  wObjectiveFocalLengthMin :: u16
  wObjectiveFocalLengthMax :: u16
  wOcularFocalLength :: u16
  it_bmControls :: u64
  it_request :: u16

record uvc_output_terminal =
  ot_bTerminalID :: u8
  ot_wTerminalType :: u16
  ot_bAssocTerminal :: u16
  ot_bSourceID :: u8
  ot_iTerminal :: u8
  ot_request :: u16

record uvc_processing_unit =
  pu_bUnitID :: u8
  pu_bSourceID :: u8
  pu_bmControls :: u64
  pu_request :: u16

record uvc_extension_unit =
  xu_bUnitID :: u8
  guidExtensionCode :: bytes
  xu_bmControls :: u64
  xu_request :: u16

record uvc_control_interface =
  input_term_descs :: "uvc_input_terminal list"
  output_term_descs :: "uvc_output_terminal list"
  processing_unit_descs :: "uvc_processing_unit list"
  extension_unit_descs :: "uvc_extension_unit list"
  bcdUVC :: u16
  ci_bEndpointAddress :: u8
  ci_bInterfaceNumber :: u8

section \<open>Formats and frames of a streaming interface\<close>

text \<open>\<open>intervals\<close> is \<open>None\<close> for the null pointer, else the array with its terminating zero.\<close>

record uvc_frame_desc =
  fr_bDescriptorSubtype :: u8
  bFrameIndex :: u8
  bmCapabilities :: u8
  wWidth :: u16
  wHeight :: u16
  dwMinBitRate :: u32
  dwMaxBitRate :: u32
  dwMaxVideoFrameBufferSize :: u32
  dwDefaultFrameInterval :: u32
  dwMinFrameInterval :: u32
  dwMaxFrameInterval :: u32
  dwFrameIntervalStep :: u32
  bFrameIntervalType :: u8
  dwBytesPerLine :: u32
  intervals :: "u32 list option"

text \<open>
  The two unions of the C structure are \<open>guidFormat\<close> (16 bytes, \<open>fourccFormat\<close> being the first four)
  and \<open>bBitsPerPixel\<close> (the same byte as \<open>bmFlags\<close>).
\<close>

record uvc_format_desc =
  fo_bDescriptorSubtype :: u8
  bFormatIndex :: u8
  bNumFrameDescriptors :: u8
  guidFormat :: bytes
  bBitsPerPixel :: u8
  bDefaultFrameIndex :: u8
  bAspectRatioX :: u8
  bAspectRatioY :: u8
  bmInterlaceFlags :: u8
  bCopyProtect :: u8
  bVariableSize :: u8
  frame_descs :: "uvc_frame_desc list"

record uvc_streaming_interface =
  si_bInterfaceNumber :: u8
  format_descs :: "uvc_format_desc list"
  si_bEndpointAddress :: u8
  bTerminalLink :: u8
  bmInfo :: u8
  bStillCaptureMethod :: u8
  bTriggerSupport :: u8
  bTriggerUsage :: u8
  bmaControls :: "u64 list option"

section \<open>The configuration descriptor handed over by libusb\<close>

record libusb_endpoint_descriptor =
  ep_bEndpointAddress :: u8
  ep_wMaxPacketSize :: u16
  ep_extra :: bytes

record libusb_interface_descriptor =
  if_bInterfaceNumber :: u8
  if_bAlternateSetting :: u8
  if_bInterfaceClass :: u8
  if_bInterfaceSubClass :: u8
  if_endpoint :: "libusb_endpoint_descriptor list"
  if_extra :: bytes

text \<open>A configuration is a list of interfaces, an interface the list of its alternate settings.\<close>

type_synonym libusb_interface = "libusb_interface_descriptor list"
type_synonym libusb_config_descriptor = "libusb_interface list"

record uvc_device_info =
  config :: libusb_config_descriptor
  ctrl_if :: uvc_control_interface
  stream_ifs :: "uvc_streaming_interface list"

section \<open>Control transfers\<close>

text \<open>
  \<open>libusb_control_transfer\<close> with the device behind it, split by the direction bit of
  \<open>bmRequestType\<close>: \<open>usb_in type request wValue wIndex wLength\<close> gives the return code and the bytes
  stored in the buffer, \<open>usb_out type request wValue wIndex data\<close> the return code. The timeout is
  0 in every call.
\<close>

record 'd usb =
  usb_in :: "u8 \<Rightarrow> u8 \<Rightarrow> u16 \<Rightarrow> u16 \<Rightarrow> nat \<Rightarrow> 'd \<Rightarrow> int \<times> bytes \<times> 'd"
  usb_out :: "u8 \<Rightarrow> u8 \<Rightarrow> u16 \<Rightarrow> u16 \<Rightarrow> bytes \<Rightarrow> 'd \<Rightarrow> int \<times> 'd"

text \<open>
  What libusb documents of a control transfer: a negative code is an error, else the code is the
  number of bytes moved, at most the length asked for.
\<close>

definition usb_conforms :: "'d usb \<Rightarrow> bool" where
  "usb_conforms usb \<longleftrightarrow>
     (\<forall>t q v i n d r bs d'. usb_in usb t q v i n d = (r, bs, d') \<longrightarrow> r \<le> int n \<and> (0 \<le> r \<longrightarrow> int (length bs) = r)) \<and>
     (\<forall>t q v i bs d r d'. usb_out usb t q v i bs d = (r, d') \<longrightarrow> r \<le> int (length bs))"

text \<open>
  A device that keeps what it is sent: a \<open>SET_CUR\<close> is accepted whole, and a \<open>GET_CUR\<close> of the same
  length to the same control returns it.
\<close>

definition usb_stores :: "'d usb \<Rightarrow> bool" where
  "usb_stores usb \<longleftrightarrow> (\<forall>v i bs d. \<exists>d' d''.
     usb_out usb REQ_TYPE_SET UVC_SET_CUR v i bs d = (int (length bs), d') \<and>
     usb_in usb REQ_TYPE_GET UVC_GET_CUR v i (length bs) d' = (int (length bs), bs, d''))"

text \<open>The device that is one memory cell per control, used for instances of the theorems.\<close>

type_synonym mem_dev = "(u16 \<times> u16) \<Rightarrow> bytes"

definition mem_usb :: "mem_dev usb" where
  "mem_usb = \<lparr>usb_in = (\<lambda>t q v i n d. (int (length (take n (d (v, i)))), take n (d (v, i)), d)),
     usb_out = (\<lambda>t q v i bs d. (int (length bs), d((v, i) := bs)))\<rparr>"

lemma mem_usb_conforms: "usb_conforms mem_usb"
  by (auto simp: usb_conforms_def mem_usb_def)

lemma mem_usb_stores: "usb_stores mem_usb"
  by (auto simp: usb_stores_def mem_usb_def)

end
