(* ===== verification/Uvc_Bytes.thy ===== *)
theory Uvc_Bytes
  imports Uvc_Types
begin

text \<open>
  The little-endian accessors of \<open>libuvc_internal.h\<close> (\<open>SW_TO_SHORT\<close>, \<open>DW_TO_INT\<close>, \<open>QW_TO_LONG\<close> and
  their inverses), and the contract a pair of an encoder and a decoder meets. The macros compute in
  C's \<open>int\<close> (32 bits); where a result is stored in a narrower field the conversion is written out
  where the field is assigned.
\<close>

section \<open>Accessors\<close>

definition SW_TO_SHORT :: "bytes \<Rightarrow> u32" where
  "SW_TO_SHORT p = ucast (p ! 0) OR push_bit 8 (ucast (p ! 1))"

definition DW_TO_INT :: "bytes \<Rightarrow> u32" where
  "DW_TO_INT p = ucast (p ! 0) OR push_bit 8 (ucast (p ! 1)) OR push_bit 16 (ucast (p ! 2))
     OR push_bit 24 (ucast (p ! 3))"

text \<open>
  The first four bytes are combined in \<open>int\<close>; the \<open>|\<close> with a \<open>uint64_t\<close> then converts that \<open>int\<close>
  to 64 bits with its sign.
\<close>

definition QW_TO_LONG :: "bytes \<Rightarrow> u64" where
  "QW_TO_LONG p = scast (DW_TO_INT p) OR push_bit 32 (ucast (p ! 4)) OR push_bit 40 (ucast (p ! 5))
     OR push_bit 48 (ucast (p ! 6)) OR push_bit 56 (ucast (p ! 7))"

definition SHORT_TO_SW :: "u16 \<Rightarrow> bytes" where
  "SHORT_TO_SW s = [ucast s, ucast (drop_bit 8 s)]"

definition INT_TO_DW :: "u32 \<Rightarrow> bytes" where
  "INT_TO_DW i = [ucast i, ucast (drop_bit 8 i), ucast (drop_bit 16 i), ucast (drop_bit 24 i)]"

definition LONG_TO_QW :: "u64 \<Rightarrow> bytes" where
  "LONG_TO_QW i = [ucast i, ucast (drop_bit 8 i), ucast (drop_bit 16 i), ucast (drop_bit 24 i),
     ucast (drop_bit 32 i), ucast (drop_bit 40 i), ucast (drop_bit 48 i), ucast (drop_bit 56 i)]"

text \<open>A \<open>SW_TO_SHORT\<close> stored in a 16-bit variable.\<close>

abbreviation get_sw :: "bytes \<Rightarrow> u16" where
  "get_sw p \<equiv> ucast (SW_TO_SHORT p)"

section \<open>Encodings\<close>

text \<open>An encoding of the values that satisfy \<open>valid\<close>.\<close>

locale partial_codec =
  fixes enc :: "'a \<Rightarrow> bytes"
    and dec :: "bytes \<Rightarrow> 'a"
    and width :: nat
    and valid :: "'a \<Rightarrow> bool"
  assumes length_enc: "length (enc x) = width"
    and dec_enc: "valid x \<Longrightarrow> dec (enc x) = x"
begin

lemma enc_inj_on: "valid x \<Longrightarrow> valid y \<Longrightarrow> enc x = enc y \<Longrightarrow> x = y"
  by (metis dec_enc)

end

locale codec =
  fixes enc :: "'a \<Rightarrow> bytes"
    and dec :: "bytes \<Rightarrow> 'a"
    and width :: nat
  assumes length_enc_all: "length (enc x) = width"
    and dec_enc_all: "dec (enc x) = x"

sublocale codec \<subseteq> partial_codec enc dec width "\<lambda>_. True"
  by unfold_locales (simp_all add: length_enc_all dec_enc_all)

text \<open>An encoding that uses every byte string of its width.\<close>

locale full_codec = codec +
  assumes enc_dec: "length b = width \<Longrightarrow> enc (dec b) = b"
begin

lemma dec_inj: "length b = width \<Longrightarrow> length c = width \<Longrightarrow> dec b = dec c \<Longrightarrow> b = c"
  by (metis enc_dec)

end

lemma list_eq_nth: "length xs = length ys \<Longrightarrow> (\<And>i. i < length xs \<Longrightarrow> xs ! i = ys ! i) \<Longrightarrow> xs = ys"
  by (rule nth_equalityI)

lemma length_2D: "length b = 2 \<Longrightarrow> \<exists>x y. b = [x, y]"
  by (auto simp: length_Suc_conv numeral_2_eq_2)

lemma length_4D: "length b = 4 \<Longrightarrow> \<exists>x y z w. b = [x, y, z, w]"
  by (auto simp: length_Suc_conv eval_nat_numeral)

section \<open>Round trips\<close>

lemma sw_bit: "bit (SW_TO_SHORT [a, b]) n \<longleftrightarrow> (if n < 8 then bit a n else bit b (n - 8))"
  by (auto simp: SW_TO_SHORT_def bit_simps dest: bit_imp_le_length)

lemma get_sw_enc [simp]: "get_sw (SHORT_TO_SW s) = s"
  by (rule bit_word_eqI)
    (auto simp: SW_TO_SHORT_def SHORT_TO_SW_def bit_simps dest: bit_imp_le_length)

lemma length_SHORT_TO_SW [simp]: "length (SHORT_TO_SW s) = 2"
  by (simp add: SHORT_TO_SW_def)

lemma length_INT_TO_DW [simp]: "length (INT_TO_DW i) = 4"
  by (simp add: INT_TO_DW_def)

lemma get_sw_append [simp]: "get_sw (SHORT_TO_SW s @ xs) = s"
  using get_sw_enc [of s] by (simp add: SHORT_TO_SW_def SW_TO_SHORT_def)

lemma enc_sw:
  assumes "length b = 2"
  shows "SHORT_TO_SW (get_sw b) = b"
proof -
  obtain x y where b: "b = [x, y]"
    using length_2D [OF assms] by blast
  have "ucast (get_sw [x, y]) = x" "ucast (drop_bit 8 (get_sw [x, y])) = y"
    by (rule bit_word_eqI; auto simp: sw_bit bit_simps dest: bit_imp_le_length)+
  then show ?thesis
    by (simp add: SHORT_TO_SW_def b)
qed

lemma dw_bit:
  "bit (DW_TO_INT [a, b, c, d]) n \<longleftrightarrow>
     (if n < 8 then bit a n else if n < 16 then bit b (n - 8) else if n < 24 then bit c (n - 16)
      else bit d (n - 24))"
  by (auto simp: DW_TO_INT_def bit_simps dest: bit_imp_le_length)

lemma DW_enc [simp]: "DW_TO_INT (INT_TO_DW i) = i"
  by (rule bit_word_eqI) (auto simp: INT_TO_DW_def dw_bit bit_simps)

lemma DW_append [simp]: "DW_TO_INT (INT_TO_DW i @ xs) = i"
  using DW_enc [of i] by (simp add: INT_TO_DW_def DW_TO_INT_def)

lemma enc_dw:
  assumes "length b = 4"
  shows "INT_TO_DW (DW_TO_INT b) = b"
proof -
  obtain x y z w where b: "b = [x, y, z, w]"
    using length_4D [OF assms] by blast
  let ?i = "DW_TO_INT [x, y, z, w]"
  have "ucast ?i = x" "ucast (drop_bit 8 ?i) = y" "ucast (drop_bit 16 ?i) = z" "ucast (drop_bit 24 ?i) = w"
    by (rule bit_word_eqI; auto simp: dw_bit bit_simps dest: bit_imp_le_length)+
  then show ?thesis
    by (simp add: INT_TO_DW_def b)
qed

text \<open>
  The 64-bit accessor is not an inverse of its encoder: bit 31 is copied into every higher bit.
\<close>

lemma dw_low: "DW_TO_INT (LONG_TO_QW i) = ucast i"
proof (rule bit_word_eqI)
  fix n :: nat
  assume "n < LENGTH(32)"
  then show "bit (DW_TO_INT (LONG_TO_QW i)) n = bit (ucast i :: u32) n"
    by (cases "n < 24"; cases "n < 16"; cases "n < 8")
      (auto simp: LONG_TO_QW_def DW_TO_INT_def bit_simps dest: bit_imp_le_length)
qed

lemma qw_bit:
  "bit (QW_TO_LONG (LONG_TO_QW i)) n \<longleftrightarrow>
     (if n < 32 then bit i n else n < 64 \<and> (bit i n \<or> bit i 31))"
proof -
  have *: "n = 31" if "n < 32" "31 \<le> n"
    using that by simp
  show ?thesis
    unfolding QW_TO_LONG_def dw_low
    apply (cases "n < 32"; cases "n < 40"; cases "n < 48"; cases "n < 56"; cases "n < 64")
    apply (simp_all add: LONG_TO_QW_def bit_simps min_def)
    apply (auto dest: bit_imp_le_length *)
    done
qed

text \<open>The 64-bit little-endian accessor gives back the value its encoder wrote exactly when bit 31
  of the value is clear or the whole upper half is ones: the low half is combined in a signed
  \<open>int\<close>, and its sign is spread over the upper half.\<close>

theorem QW_roundtrip_iff:
  "QW_TO_LONG (LONG_TO_QW i) = i \<longleftrightarrow> \<not> bit i 31 \<or> (\<forall>n \<in> {32..<64}. bit i n)"
  by (auto simp: bit_eq_iff qw_bit dest: bit_imp_le_length)

theorem QW_roundtrip_iff_witness: "QW_TO_LONG (LONG_TO_QW 0x80000000) = 0xFFFFFFFF80000000
    \<and> QW_TO_LONG (LONG_TO_QW 0x80000000) \<noteq> 0x80000000"
  using QW_roundtrip_iff [of "0x80000000"] by (simp add: QW_TO_LONG_def LONG_TO_QW_def DW_TO_INT_def)

interpretation u8_codec: full_codec "\<lambda>x :: u8. [x]" "\<lambda>b. b ! 0" 1
  by unfold_locales (auto simp: length_Suc_conv)

interpretation u16_codec: full_codec SHORT_TO_SW "\<lambda>b. get_sw b" 2
  by unfold_locales (simp_all add: get_sw_enc enc_sw)

interpretation u32_codec: full_codec INT_TO_DW DW_TO_INT 4
  by unfold_locales (simp_all add: DW_enc enc_dw)

end
