(* ===== verification/Uvc_Ctrl.thy ===== *)
theory Uvc_Ctrl
  imports Uvc_Bytes
begin

text \<open>
  Control requests of \<open>libuvc/src/ctrl.c\<close>: the transfer every \<open>uvc_get_*\<close> and \<open>uvc_set_*\<close> makes,
  the requests by unit and selector, the requests to the control interface, and the contract of a
  control as a locale. The controls of the camera terminal are in \<open>Uvc_Camera\<close>, those of the
  processing unit in \<open>Uvc_Processing\<close>.

  A getter returns its code, what it stored through its output pointers (\<open>None\<close> when it stored
  nothing) and the device; a function that takes the first terminal or unit of the device reads
  through a null pointer, \<open>None\<close>, when the device has none. Signed parameters are the word of
  their bits.
\<close>

section \<open>The transfer of a control\<close>

definition ctrl_get ::
  "'d usb \<Rightarrow> u8 \<Rightarrow> u16 \<Rightarrow> u16 \<Rightarrow> nat \<Rightarrow> (bytes \<Rightarrow> 'v) \<Rightarrow> 'd \<Rightarrow> int \<times> 'v option \<times> 'd" where
  "ctrl_get usb req_code cs index n rd d =
     (let (ret, data, d') = usb_in usb REQ_TYPE_GET req_code (push_bit 8 cs) index n d in
      if ret = int n then (UVC_SUCCESS, Some (rd data), d') else (ret, None, d'))"

definition ctrl_set :: "'d usb \<Rightarrow> u16 \<Rightarrow> u16 \<Rightarrow> bytes \<Rightarrow> 'd \<Rightarrow> int \<times> 'd" where
  "ctrl_set usb cs index data d =
     (let (ret, d') = usb_out usb REQ_TYPE_SET UVC_SET_CUR (push_bit 8 cs) index data d in
      if ret = int (length data) then (UVC_SUCCESS, d') else (ret, d'))"

definition camera_unit :: "uvc_control_interface \<Rightarrow> u16 option" where
  "camera_unit ci = (case input_term_descs ci of [] \<Rightarrow> None | t # _ \<Rightarrow> Some (it_request t))"

definition processing_unit :: "uvc_control_interface \<Rightarrow> u16 option" where
  "processing_unit ci = (case processing_unit_descs ci of [] \<Rightarrow> None | u # _ \<Rightarrow> Some (pu_request u))"

section \<open>Requests by unit and selector\<close>

text \<open>\<open>buf\<close> is the content of the uninitialised local; a transfer of fewer than two bytes leaves part of it.\<close>

definition uvc_get_ctrl_len :: "'d usb \<Rightarrow> u8 \<Rightarrow> u8 \<Rightarrow> bytes \<Rightarrow> 'd \<Rightarrow> int \<times> 'd" where
  "uvc_get_ctrl_len usb unit ctrl buf d =
     (let (ret, data, d') = usb_in usb REQ_TYPE_GET UVC_GET_LEN (push_bit 8 (ucast ctrl))
            (push_bit 8 (ucast unit)) 2 d;
          buf' = data @ drop (length data) buf
      in if ret < 0 then (ret, d') else (uint (get_sw buf'), d'))"

text \<open>The buffer \<open>data\<close> of the caller must hold \<open>len\<close> bytes; \<open>len\<close> is narrowed to \<open>wLength\<close>.\<close>

definition uvc_get_ctrl ::
  "'d usb \<Rightarrow> u8 \<Rightarrow> u8 \<Rightarrow> bytes \<Rightarrow> int \<Rightarrow> u8 \<Rightarrow> 'd \<Rightarrow> (int \<times> bytes \<times> 'd) option" where
  "uvc_get_ctrl usb unit ctrl data len req_code d =
     (let (ret, bs, d') = usb_in usb REQ_TYPE_GET req_code (push_bit 8 (ucast ctrl))
            (push_bit 8 (ucast unit)) (nat (len mod 65536)) d
      in do { data' \<leftarrow> mem_write 0 bs data; Some (ret, data', d') })"

definition uvc_set_ctrl ::
  "'d usb \<Rightarrow> u8 \<Rightarrow> u8 \<Rightarrow> bytes \<Rightarrow> int \<Rightarrow> 'd \<Rightarrow> (int \<times> 'd) option" where
  "uvc_set_ctrl usb unit ctrl data len d =
     (let n = nat (len mod 65536) in
      need n data (Some (usb_out usb REQ_TYPE_SET UVC_SET_CUR (push_bit 8 (ucast ctrl))
        (push_bit 8 (ucast unit)) (take n data) d)))"

section \<open>Requests to the interfaces\<close>

definition uvc_vc_get_error_code ::
  "'d usb \<Rightarrow> uvc_control_interface \<Rightarrow> u8 \<Rightarrow> 'd \<Rightarrow> int \<times> u8 option \<times> 'd" where
  "uvc_vc_get_error_code usb ci req_code d =
     ctrl_get usb req_code UVC_VC_REQUEST_ERROR_CODE_CONTROL (ucast (ci_bInterfaceNumber ci)) 1
       (\<lambda>data. data ! 0) d"

text \<open>The request to the streaming interface is compiled out.\<close>

definition uvc_vs_get_error_code :: "'d usb \<Rightarrow> u8 \<Rightarrow> 'd \<Rightarrow> int \<times> u8 option \<times> 'd" where
  "uvc_vs_get_error_code usb req_code d = (UVC_SUCCESS, None, d)"

definition uvc_get_power_mode ::
  "'d usb \<Rightarrow> uvc_control_interface \<Rightarrow> u8 \<Rightarrow> 'd \<Rightarrow> int \<times> u32 option \<times> 'd" where
  "uvc_get_power_mode usb ci req_code d =
     ctrl_get usb req_code UVC_VC_VIDEO_POWER_MODE_CONTROL (ucast (ci_bInterfaceNumber ci)) 1
       (\<lambda>data. ucast (data ! 0)) d"

definition uvc_set_power_mode ::
  "'d usb \<Rightarrow> uvc_control_interface \<Rightarrow> u32 \<Rightarrow> 'd \<Rightarrow> int \<times> 'd" where
  "uvc_set_power_mode usb ci mode d =
     ctrl_set usb UVC_VC_VIDEO_POWER_MODE_CONTROL (ucast (ci_bInterfaceNumber ci)) [ucast mode] d"

section \<open>The contract of a control\<close>

text \<open>A setter followed by a \<open>GET_CUR\<close>, as a test that computes.\<close>

definition reads_back ::
  "('d usb \<Rightarrow> uvc_control_interface \<Rightarrow> u8 \<Rightarrow> 'd \<Rightarrow> (int \<times> 'v option \<times> 'd) option) \<Rightarrow>
   ('d usb \<Rightarrow> uvc_control_interface \<Rightarrow> 'v \<Rightarrow> 'd \<Rightarrow> (int \<times> 'd) option) \<Rightarrow>
   'd usb \<Rightarrow> uvc_control_interface \<Rightarrow> 'v \<Rightarrow> 'd \<Rightarrow> bool" where
  "reads_back get put usb ci v d =
     (case put usb ci v d of None \<Rightarrow> False | Some (ret, d') \<Rightarrow>
        ret = UVC_SUCCESS \<and>
        (case get usb ci UVC_GET_CUR d' of None \<Rightarrow> False | Some (ret', out, d'') \<Rightarrow>
           ret' = UVC_SUCCESS \<and> out = Some v))"

locale control = partial_codec enc dec width valid
  for enc :: "'v \<Rightarrow> bytes" and dec and width and valid +
  fixes ctl_unit :: "uvc_control_interface \<Rightarrow> u16 option"
    and cs :: u16
    and get :: "'d usb \<Rightarrow> uvc_control_interface \<Rightarrow> u8 \<Rightarrow> 'd \<Rightarrow> (int \<times> 'v option \<times> 'd) option"
    and put :: "'d usb \<Rightarrow> uvc_control_interface \<Rightarrow> 'v \<Rightarrow> 'd \<Rightarrow> (int \<times> 'd) option"
  assumes get_eq:
      "get usb ci req_code d =
        (case ctl_unit ci of None \<Rightarrow> None | Some ri \<Rightarrow> Some (ctrl_get usb req_code cs ri width dec d))"
    and put_eq:
      "put usb ci v d =
        (case ctl_unit ci of None \<Rightarrow> None | Some ri \<Rightarrow> Some (ctrl_set usb cs ri (enc v) d))"
begin

lemma get_None: "get usb ci req_code d = None \<longleftrightarrow> ctl_unit ci = None"
  by (simp add: get_eq split: option.split)

lemma put_None: "put usb ci v d = None \<longleftrightarrow> ctl_unit ci = None"
  by (simp add: put_eq split: option.split)

lemma reads_back:
  assumes stores: "usb_stores usb" and unit: "ctl_unit ci = Some ri" and v: "valid v"
  shows "reads_back get put usb ci v d"
proof -
  obtain d' d'' where
    "usb_out usb REQ_TYPE_SET UVC_SET_CUR (push_bit 8 cs) ri (enc v) d = (int width, d')"
    "usb_in usb REQ_TYPE_GET UVC_GET_CUR (push_bit 8 cs) ri width d' = (int width, enc v, d'')"
    using stores unfolding usb_stores_def by (metis length_enc)
  then show ?thesis
    by (simp add: reads_back_def get_eq put_eq unit ctrl_get_def ctrl_set_def length_enc dec_enc v)
qed

text \<open>What a caller can tell from the code: a value was stored only if the code is 0.\<close>

lemma get_stored: "get usb ci req_code d = Some (ret, Some v, d') \<Longrightarrow> ret = UVC_SUCCESS"
  by (auto simp: get_eq ctrl_get_def Let_def split: option.splits prod.splits if_splits)

lemma get_not_stored:
  assumes "usb_conforms usb" and "get usb ci req_code d = Some (ret, None, d')"
  shows "ret < int width"
  using assms unfolding usb_conforms_def
  by (fastforce simp: get_eq ctrl_get_def Let_def order.order_iff_strict
      split: option.splits prod.splits if_splits)

end

lemma reads_back_other:
  "reads_back get put usb ci v d \<Longrightarrow> \<exists>d' d''. put usb ci v d = Some (UVC_SUCCESS, d') \<and>
     get usb ci UVC_GET_CUR d' = Some (UVC_SUCCESS, Some v, d'')"
  by (auto simp: reads_back_def split: option.splits prod.splits)

end
