(* ===== verification/Uvc_Camera.thy ===== *)
theory Uvc_Camera
  imports Uvc_Ctrl
begin

text \<open>
  The controls of the camera terminal (\<open>ctrl.c\<close>, \<open>uvc_get_ae_mode\<close> to \<open>uvc_set_digital_roi\<close>), one
  definition per function, each pair an instance of the contract of \<open>Uvc_Ctrl\<close>.
\<close>

section \<open>Operations\<close>

definition uvc_get_ae_mode ::
  "'d usb \<Rightarrow> uvc_control_interface \<Rightarrow> u8 \<Rightarrow> 'd \<Rightarrow> (int \<times> u8 option \<times> 'd) option" where
  [ctrl_defs]: "uvc_get_ae_mode usb ci req_code d = do {
     ri \<leftarrow> camera_unit ci;
     Some (ctrl_get usb req_code UVC_CT_AE_MODE_CONTROL ri 1
       (\<lambda>data. data ! 0) d) }"

definition uvc_set_ae_mode ::
  "'d usb \<Rightarrow> uvc_control_interface \<Rightarrow> u8 \<Rightarrow> 'd \<Rightarrow> (int \<times> 'd) option" where
  [ctrl_defs]: "uvc_set_ae_mode usb ci mode d = do {
     ri \<leftarrow> camera_unit ci;
     Some (ctrl_set usb UVC_CT_AE_MODE_CONTROL ri ([mode]) d) }"

definition uvc_get_ae_priority ::
  "'d usb \<Rightarrow> uvc_control_interface \<Rightarrow> u8 \<Rightarrow> 'd \<Rightarrow> (int \<times> u8 option \<times> 'd) option" where
  [ctrl_defs]: "uvc_get_ae_priority usb ci req_code d = do {
     ri \<leftarrow> camera_unit ci;
     Some (ctrl_get usb req_code UVC_CT_AE_PRIORITY_CONTROL ri 1
       (\<lambda>data. data ! 0) d) }"

definition uvc_set_ae_priority ::
  "'d usb \<Rightarrow> uvc_control_interface \<Rightarrow> u8 \<Rightarrow> 'd \<Rightarrow> (int \<times> 'd) option" where
  [ctrl_defs]: "uvc_set_ae_priority usb ci priority d = do {
     ri \<leftarrow> camera_unit ci;
     Some (ctrl_set usb UVC_CT_AE_PRIORITY_CONTROL ri ([priority]) d) }"

definition uvc_get_exposure_abs ::
  "'d usb \<Rightarrow> uvc_control_interface \<Rightarrow> u8 \<Rightarrow> 'd \<Rightarrow> (int \<times> u32 option \<times> 'd) option" where
  [ctrl_defs]: "uvc_get_exposure_abs usb ci req_code d = do {
     ri \<leftarrow> camera_unit ci;
     Some (ctrl_get usb req_code UVC_CT_EXPOSURE_TIME_ABSOLUTE_CONTROL ri 4
       (\<lambda>data. DW_TO_INT data) d) }"

definition uvc_set_exposure_abs ::
  "'d usb \<Rightarrow> uvc_control_interface \<Rightarrow> u32 \<Rightarrow> 'd \<Rightarrow> (int \<times> 'd) option" where
  [ctrl_defs]: "uvc_set_exposure_abs usb ci time d = do {
     ri \<leftarrow> camera_unit ci;
     Some (ctrl_set usb UVC_CT_EXPOSURE_TIME_ABSOLUTE_CONTROL ri (INT_TO_DW time) d) }"

definition uvc_get_exposure_rel ::
  "'d usb \<Rightarrow> uvc_control_interface \<Rightarrow> u8 \<Rightarrow> 'd \<Rightarrow> (int \<times> u32 option \<times> 'd) option" where
  [ctrl_defs]: "uvc_get_exposure_rel usb ci req_code d = do {
     ri \<leftarrow> camera_unit ci;
     Some (ctrl_get usb req_code UVC_CT_EXPOSURE_TIME_RELATIVE_CONTROL ri 1
       (\<lambda>data. ucast (data ! 0)) d) }"

definition uvc_set_exposure_rel ::
  "'d usb \<Rightarrow> uvc_control_interface \<Rightarrow> u32 \<Rightarrow> 'd \<Rightarrow> (int \<times> 'd) option" where
  [ctrl_defs]: "uvc_set_exposure_rel usb ci step d = do {
     ri \<leftarrow> camera_unit ci;
     Some (ctrl_set usb UVC_CT_EXPOSURE_TIME_RELATIVE_CONTROL ri ([ucast step]) d) }"

definition uvc_get_scanning_mode ::
  "'d usb \<Rightarrow> uvc_control_interface \<Rightarrow> u8 \<Rightarrow> 'd \<Rightarrow> (int \<times> u8 option \<times> 'd) option" where
  [ctrl_defs]: "uvc_get_scanning_mode usb ci req_code d = do {
     ri \<leftarrow> camera_unit ci;
     Some (ctrl_get usb req_code UVC_CT_SCANNING_MODE_CONTROL ri 1
       (\<lambda>data. data ! 0) d) }"

definition uvc_set_scanning_mode ::
  "'d usb \<Rightarrow> uvc_control_interface \<Rightarrow> u8 \<Rightarrow> 'd \<Rightarrow> (int \<times> 'd) option" where
  [ctrl_defs]: "uvc_set_scanning_mode usb ci mode d = do {
     ri \<leftarrow> camera_unit ci;
     Some (ctrl_set usb UVC_CT_SCANNING_MODE_CONTROL ri ([mode]) d) }"

definition uvc_get_focus_auto ::
  "'d usb \<Rightarrow> uvc_control_interface \<Rightarrow> u8 \<Rightarrow> 'd \<Rightarrow> (int \<times> u8 option \<times> 'd) option" where
  [ctrl_defs]: "uvc_get_focus_auto usb ci req_code d = do {
     ri \<leftarrow> camera_unit ci;
     Some (ctrl_get usb req_code UVC_CT_FOCUS_AUTO_CONTROL ri 1
       (\<lambda>data. data ! 0) d) }"

definition uvc_set_focus_auto ::
  "'d usb \<Rightarrow> uvc_control_interface \<Rightarrow> u8 \<Rightarrow> 'd \<Rightarrow> (int \<times> 'd) option" where
  [ctrl_defs]: "uvc_set_focus_auto usb ci autofocus d = do {
     ri \<leftarrow> camera_unit ci;
     Some (ctrl_set usb UVC_CT_FOCUS_AUTO_CONTROL ri ([autofocus]) d) }"

definition uvc_get_focus_abs ::
  "'d usb \<Rightarrow> uvc_control_interface \<Rightarrow> u8 \<Rightarrow> 'd \<Rightarrow> (int \<times> u16 option \<times> 'd) option" where
  [ctrl_defs]: "uvc_get_focus_abs usb ci req_code d = do {
     ri \<leftarrow> camera_unit ci;
     Some (ctrl_get usb req_code UVC_CT_FOCUS_ABSOLUTE_CONTROL ri 2
       (\<lambda>data. get_sw data) d) }"

definition uvc_set_focus_abs ::
  "'d usb \<Rightarrow> uvc_control_interface \<Rightarrow> u16 \<Rightarrow> 'd \<Rightarrow> (int \<times> 'd) option" where
  [ctrl_defs]: "uvc_set_focus_abs usb ci focus d = do {
     ri \<leftarrow> camera_unit ci;
     Some (ctrl_set usb UVC_CT_FOCUS_ABSOLUTE_CONTROL ri (SHORT_TO_SW focus) d) }"

definition uvc_get_focus_rel ::
  "'d usb \<Rightarrow> uvc_control_interface \<Rightarrow> u8 \<Rightarrow> 'd \<Rightarrow> (int \<times> (u8 \<times> u8) option \<times> 'd) option" where
  [ctrl_defs]: "uvc_get_focus_rel usb ci req_code d = do {
     ri \<leftarrow> camera_unit ci;
     Some (ctrl_get usb req_code UVC_CT_FOCUS_RELATIVE_CONTROL ri 2
       (\<lambda>data. (data ! 0, data ! 1)) d) }"

definition uvc_set_focus_rel ::
  "'d usb \<Rightarrow> uvc_control_interface \<Rightarrow> u8 \<Rightarrow> u8 \<Rightarrow> 'd \<Rightarrow> (int \<times> 'd) option" where
  [ctrl_defs]: "uvc_set_focus_rel usb ci focus speed d = do {
     ri \<leftarrow> camera_unit ci;
     Some (ctrl_set usb UVC_CT_FOCUS_RELATIVE_CONTROL ri ([focus, speed]) d) }"

definition uvc_get_iris_abs ::
  "'d usb \<Rightarrow> uvc_control_interface \<Rightarrow> u8 \<Rightarrow> 'd \<Rightarrow> (int \<times> u16 option \<times> 'd) option" where
  [ctrl_defs]: "uvc_get_iris_abs usb ci req_code d = do {
     ri \<leftarrow> camera_unit ci;
     Some (ctrl_get usb req_code UVC_CT_FOCUS_ABSOLUTE_CONTROL ri 2
       (\<lambda>data. get_sw data) d) }"

definition uvc_set_iris_abs ::
  "'d usb \<Rightarrow> uvc_control_interface \<Rightarrow> u16 \<Rightarrow> 'd \<Rightarrow> (int \<times> 'd) option" where
  [ctrl_defs]: "uvc_set_iris_abs usb ci iris d = do {
     ri \<leftarrow> camera_unit ci;
     Some (ctrl_set usb UVC_CT_FOCUS_ABSOLUTE_CONTROL ri (SHORT_TO_SW iris) d) }"

definition uvc_get_iris_rel ::
  "'d usb \<Rightarrow> uvc_control_interface \<Rightarrow> u8 \<Rightarrow> 'd \<Rightarrow> (int \<times> u8 option \<times> 'd) option" where
  [ctrl_defs]: "uvc_get_iris_rel usb ci req_code d = do {
     ri \<leftarrow> camera_unit ci;
     Some (ctrl_get usb req_code UVC_CT_FOCUS_RELATIVE_CONTROL ri 1
       (\<lambda>data. data ! 0) d) }"

definition uvc_set_iris_rel ::
  "'d usb \<Rightarrow> uvc_control_interface \<Rightarrow> u8 \<Rightarrow> 'd \<Rightarrow> (int \<times> 'd) option" where
  [ctrl_defs]: "uvc_set_iris_rel usb ci iris d = do {
     ri \<leftarrow> camera_unit ci;
     Some (ctrl_set usb UVC_CT_FOCUS_RELATIVE_CONTROL ri ([iris]) d) }"

definition uvc_get_zoom_abs ::
  "'d usb \<Rightarrow> uvc_control_interface \<Rightarrow> u8 \<Rightarrow> 'd \<Rightarrow> (int \<times> u16 option \<times> 'd) option" where
  [ctrl_defs]: "uvc_get_zoom_abs usb ci req_code d = do {
     ri \<leftarrow> camera_unit ci;
     Some (ctrl_get usb req_code UVC_CT_ZOOM_ABSOLUTE_CONTROL ri 2
       (\<lambda>data. get_sw data) d) }"

definition uvc_set_zoom_abs ::
  "'d usb \<Rightarrow> uvc_control_interface \<Rightarrow> u16 \<Rightarrow> 'd \<Rightarrow> (int \<times> 'd) option" where
  [ctrl_defs]: "uvc_set_zoom_abs usb ci zoom d = do {
     ri \<leftarrow> camera_unit ci;
     Some (ctrl_set usb UVC_CT_ZOOM_ABSOLUTE_CONTROL ri (SHORT_TO_SW zoom) d) }"

definition uvc_get_zoom_rel ::
  "'d usb \<Rightarrow> uvc_control_interface \<Rightarrow> u8 \<Rightarrow> 'd \<Rightarrow> (int \<times> (u8 \<times> u8 \<times> u8) option \<times> 'd) option" where
  [ctrl_defs]: "uvc_get_zoom_rel usb ci req_code d = do {
     ri \<leftarrow> camera_unit ci;
     Some (ctrl_get usb req_code UVC_CT_ZOOM_RELATIVE_CONTROL ri 3
       (\<lambda>data. (data ! 0, data ! 1, data ! 2)) d) }"

definition uvc_set_zoom_rel ::
  "'d usb \<Rightarrow> uvc_control_interface \<Rightarrow> u8 \<Rightarrow> u8 \<Rightarrow> u8 \<Rightarrow> 'd \<Rightarrow> (int \<times> 'd) option" where
  [ctrl_defs]: "uvc_set_zoom_rel usb ci zoom isdigital speed d = do {
     ri \<leftarrow> camera_unit ci;
     Some (ctrl_set usb UVC_CT_ZOOM_RELATIVE_CONTROL ri ([zoom, isdigital, speed]) d) }"

definition uvc_get_pantilt_abs ::
  "'d usb \<Rightarrow> uvc_control_interface \<Rightarrow> u8 \<Rightarrow> 'd \<Rightarrow> (int \<times> (u32 \<times> u32) option \<times> 'd) option" where
  [ctrl_defs]: "uvc_get_pantilt_abs usb ci req_code d = do {
     ri \<leftarrow> camera_unit ci;
     Some (ctrl_get usb req_code UVC_CT_PANTILT_ABSOLUTE_CONTROL ri 8
       (\<lambda>data. (DW_TO_INT data, DW_TO_INT (drop 4 data))) d) }"

definition uvc_set_pantilt_abs ::
  "'d usb \<Rightarrow> uvc_control_interface \<Rightarrow> u32 \<Rightarrow> u32 \<Rightarrow> 'd \<Rightarrow> (int \<times> 'd) option" where
  [ctrl_defs]: "uvc_set_pantilt_abs usb ci pan tilt d = do {
     ri \<leftarrow> camera_unit ci;
     Some (ctrl_set usb UVC_CT_PANTILT_ABSOLUTE_CONTROL ri (INT_TO_DW pan @ INT_TO_DW tilt) d) }"

definition uvc_get_pantilt_rel ::
  "'d usb \<Rightarrow> uvc_control_interface \<Rightarrow> u8 \<Rightarrow> 'd \<Rightarrow> (int \<times> (u8 \<times> u8 \<times> u8 \<times> u8) option \<times> 'd) option" where
  [ctrl_defs]: "uvc_get_pantilt_rel usb ci req_code d = do {
     ri \<leftarrow> camera_unit ci;
     Some (ctrl_get usb req_code UVC_CT_PANTILT_RELATIVE_CONTROL ri 4
       (\<lambda>data. (data ! 0, data ! 1, data ! 2, data ! 3)) d) }"

definition uvc_set_pantilt_rel ::
  "'d usb \<Rightarrow> uvc_control_interface \<Rightarrow> u8 \<Rightarrow> u8 \<Rightarrow> u8 \<Rightarrow> u8 \<Rightarrow> 'd \<Rightarrow> (int \<times> 'd) option" where
  [ctrl_defs]: "uvc_set_pantilt_rel usb ci pan_rel pan_speed tilt_rel tilt_speed d = do {
     ri \<leftarrow> camera_unit ci;
     Some (ctrl_set usb UVC_CT_PANTILT_RELATIVE_CONTROL ri ([pan_rel, pan_speed, tilt_rel, tilt_speed]) d) }"

definition uvc_get_roll_abs ::
  "'d usb \<Rightarrow> uvc_control_interface \<Rightarrow> u8 \<Rightarrow> 'd \<Rightarrow> (int \<times> u16 option \<times> 'd) option" where
  [ctrl_defs]: "uvc_get_roll_abs usb ci req_code d = do {
     ri \<leftarrow> camera_unit ci;
     Some (ctrl_get usb req_code UVC_CT_ROLL_ABSOLUTE_CONTROL ri 2
       (\<lambda>data. get_sw data) d) }"

definition uvc_set_roll_abs ::
  "'d usb \<Rightarrow> uvc_control_interface \<Rightarrow> u16 \<Rightarrow> 'd \<Rightarrow> (int \<times> 'd) option" where
  [ctrl_defs]: "uvc_set_roll_abs usb ci roll d = do {
     ri \<leftarrow> camera_unit ci;
     Some (ctrl_set usb UVC_CT_ROLL_ABSOLUTE_CONTROL ri (SHORT_TO_SW roll) d) }"

definition uvc_get_roll_rel ::
  "'d usb \<Rightarrow> uvc_control_interface \<Rightarrow> u8 \<Rightarrow> 'd \<Rightarrow> (int \<times> (u8 \<times> u8) option \<times> 'd) option" where
  [ctrl_defs]: "uvc_get_roll_rel usb ci req_code d = do {
     ri \<leftarrow> camera_unit ci;
     Some (ctrl_get usb req_code UVC_CT_ROLL_RELATIVE_CONTROL ri 2
       (\<lambda>data. (data ! 0, data ! 1)) d) }"

definition uvc_set_roll_rel ::
  "'d usb \<Rightarrow> uvc_control_interface \<Rightarrow> u8 \<Rightarrow> u8 \<Rightarrow> 'd \<Rightarrow> (int \<times> 'd) option" where
  [ctrl_defs]: "uvc_set_roll_rel usb ci roll_rel speed d = do {
     ri \<leftarrow> camera_unit ci;
     Some (ctrl_set usb UVC_CT_ROLL_RELATIVE_CONTROL ri ([roll_rel, speed]) d) }"

definition uvc_get_privacy ::
  "'d usb \<Rightarrow> uvc_control_interface \<Rightarrow> u8 \<Rightarrow> 'd \<Rightarrow> (int \<times> u8 option \<times> 'd) option" where
  [ctrl_defs]: "uvc_get_privacy usb ci req_code d = do {
     ri \<leftarrow> camera_unit ci;
     Some (ctrl_get usb req_code UVC_CT_PRIVACY_CONTROL ri 1
       (\<lambda>data. data ! 0) d) }"

definition uvc_set_privacy ::
  "'d usb \<Rightarrow> uvc_control_interface \<Rightarrow> u8 \<Rightarrow> 'd \<Rightarrow> (int \<times> 'd) option" where
  [ctrl_defs]: "uvc_set_privacy usb ci privacy d = do {
     ri \<leftarrow> camera_unit ci;
     Some (ctrl_set usb UVC_CT_PRIVACY_CONTROL ri ([privacy]) d) }"

definition uvc_get_digital_window ::
  "'d usb \<Rightarrow> uvc_control_interface \<Rightarrow> u8 \<Rightarrow> 'd \<Rightarrow> (int \<times> (u16 \<times> u16 \<times> u16 \<times> u16 \<times> u16 \<times> u16) option \<times> 'd) option" where
  [ctrl_defs]: "uvc_get_digital_window usb ci req_code d = do {
     ri \<leftarrow> camera_unit ci;
     Some (ctrl_get usb req_code UVC_CT_DIGITAL_WINDOW_CONTROL ri 12
       (\<lambda>data. (get_sw data, get_sw (drop 2 data), get_sw (drop 4 data), get_sw (drop 6 data), get_sw (drop 8 data), get_sw (drop 10 data))) d) }"

definition uvc_set_digital_window ::
  "'d usb \<Rightarrow> uvc_control_interface \<Rightarrow> u16 \<Rightarrow> u16 \<Rightarrow> u16 \<Rightarrow> u16 \<Rightarrow> u16 \<Rightarrow> u16 \<Rightarrow> 'd \<Rightarrow> (int \<times> 'd) option" where
  [ctrl_defs]: "uvc_set_digital_window usb ci window_top window_left window_bottom window_right num_steps num_steps_units d = do {
     ri \<leftarrow> camera_unit ci;
     Some (ctrl_set usb UVC_CT_DIGITAL_WINDOW_CONTROL ri (SHORT_TO_SW window_top @ SHORT_TO_SW window_left @ SHORT_TO_SW window_bottom @ SHORT_TO_SW window_right @ SHORT_TO_SW num_steps @ SHORT_TO_SW num_steps_units) d) }"

definition uvc_get_digital_roi ::
  "'d usb \<Rightarrow> uvc_control_interface \<Rightarrow> u8 \<Rightarrow> 'd \<Rightarrow> (int \<times> (u16 \<times> u16 \<times> u16 \<times> u16 \<times> u16) option \<times> 'd) option" where
  [ctrl_defs]: "uvc_get_digital_roi usb ci req_code d = do {
     ri \<leftarrow> camera_unit ci;
     Some (ctrl_get usb req_code UVC_CT_REGION_OF_INTEREST_CONTROL ri 10
       (\<lambda>data. (get_sw data, get_sw (drop 2 data), get_sw (drop 4 data), get_sw (drop 6 data), get_sw (drop 8 data))) d) }"

definition uvc_set_digital_roi ::
  "'d usb \<Rightarrow> uvc_control_interface \<Rightarrow> u16 \<Rightarrow> u16 \<Rightarrow> u16 \<Rightarrow> u16 \<Rightarrow> u16 \<Rightarrow> 'd \<Rightarrow> (int \<times> 'd) option" where
  [ctrl_defs]: "uvc_set_digital_roi usb ci roi_top roi_left roi_bottom roi_right auto_controls d = do {
     ri \<leftarrow> camera_unit ci;
     Some (ctrl_set usb UVC_CT_REGION_OF_INTEREST_CONTROL ri (SHORT_TO_SW roi_top @ SHORT_TO_SW roi_left @ SHORT_TO_SW roi_bottom @ SHORT_TO_SW roi_right @ SHORT_TO_SW auto_controls) d) }"

section \<open>Each pair is a control\<close>

interpretation ae_mode: control "\<lambda>mode. [mode]"
  "\<lambda>data. data ! 0" 1 "\<lambda>_. True"
  camera_unit UVC_CT_AE_MODE_CONTROL "uvc_get_ae_mode" "uvc_set_ae_mode"
  by unfold_locales (auto simp: ctrl_defs split: option.splits bind_splits)

interpretation ae_priority: control "\<lambda>priority. [priority]"
  "\<lambda>data. data ! 0" 1 "\<lambda>_. True"
  camera_unit UVC_CT_AE_PRIORITY_CONTROL "uvc_get_ae_priority" "uvc_set_ae_priority"
  by unfold_locales (auto simp: ctrl_defs split: option.splits bind_splits)

interpretation exposure_abs: control "\<lambda>time. INT_TO_DW time"
  "\<lambda>data. DW_TO_INT data" 4 "\<lambda>_. True"
  camera_unit UVC_CT_EXPOSURE_TIME_ABSOLUTE_CONTROL "uvc_get_exposure_abs" "uvc_set_exposure_abs"
  by unfold_locales (auto simp: ctrl_defs split: option.splits bind_splits)

interpretation exposure_rel: control "\<lambda>step. [ucast step]"
  "\<lambda>data. ucast (data ! 0)" 1 "\<lambda>v. uint v < 256"
  camera_unit UVC_CT_EXPOSURE_TIME_RELATIVE_CONTROL "uvc_get_exposure_rel" "uvc_set_exposure_rel"
  by unfold_locales (auto simp: ctrl_defs u32_of_u8 split: option.splits bind_splits)

interpretation scanning_mode: control "\<lambda>mode. [mode]"
  "\<lambda>data. data ! 0" 1 "\<lambda>_. True"
  camera_unit UVC_CT_SCANNING_MODE_CONTROL "uvc_get_scanning_mode" "uvc_set_scanning_mode"
  by unfold_locales (auto simp: ctrl_defs split: option.splits bind_splits)

interpretation focus_auto: control "\<lambda>autofocus. [autofocus]"
  "\<lambda>data. data ! 0" 1 "\<lambda>_. True"
  camera_unit UVC_CT_FOCUS_AUTO_CONTROL "uvc_get_focus_auto" "uvc_set_focus_auto"
  by unfold_locales (auto simp: ctrl_defs split: option.splits bind_splits)

interpretation focus_abs: control "\<lambda>focus. SHORT_TO_SW focus"
  "\<lambda>data. get_sw data" 2 "\<lambda>_. True"
  camera_unit UVC_CT_FOCUS_ABSOLUTE_CONTROL "uvc_get_focus_abs" "uvc_set_focus_abs"
  by unfold_locales (auto simp: ctrl_defs split: option.splits bind_splits)

interpretation focus_rel: control "\<lambda>(focus, speed). [focus, speed]"
  "\<lambda>data. (data ! 0, data ! 1)" 2 "\<lambda>_. True"
  camera_unit UVC_CT_FOCUS_RELATIVE_CONTROL "uvc_get_focus_rel" "\<lambda>usb ci (focus, speed). uvc_set_focus_rel usb ci focus speed"
  by unfold_locales (auto simp: ctrl_defs split: option.splits bind_splits)

interpretation iris_abs: control "\<lambda>iris. SHORT_TO_SW iris"
  "\<lambda>data. get_sw data" 2 "\<lambda>_. True"
  camera_unit UVC_CT_FOCUS_ABSOLUTE_CONTROL "uvc_get_iris_abs" "uvc_set_iris_abs"
  by unfold_locales (auto simp: ctrl_defs split: option.splits bind_splits)

interpretation iris_rel: control "\<lambda>iris. [iris]"
  "\<lambda>data. data ! 0" 1 "\<lambda>_. True"
  camera_unit UVC_CT_FOCUS_RELATIVE_CONTROL "uvc_get_iris_rel" "uvc_set_iris_rel"
  by unfold_locales (auto simp: ctrl_defs split: option.splits bind_splits)

interpretation zoom_abs: control "\<lambda>zoom. SHORT_TO_SW zoom"
  "\<lambda>data. get_sw data" 2 "\<lambda>_. True"
  camera_unit UVC_CT_ZOOM_ABSOLUTE_CONTROL "uvc_get_zoom_abs" "uvc_set_zoom_abs"
  by unfold_locales (auto simp: ctrl_defs split: option.splits bind_splits)

interpretation zoom_rel: control "\<lambda>(zoom, isdigital, speed). [zoom, isdigital, speed]"
  "\<lambda>data. (data ! 0, data ! 1, data ! 2)" 3 "\<lambda>_. True"
  camera_unit UVC_CT_ZOOM_RELATIVE_CONTROL "uvc_get_zoom_rel" "\<lambda>usb ci (zoom, isdigital, speed). uvc_set_zoom_rel usb ci zoom isdigital speed"
  by unfold_locales (auto simp: ctrl_defs split: option.splits bind_splits)

interpretation pantilt_abs: control "\<lambda>(pan, tilt). INT_TO_DW pan @ INT_TO_DW tilt"
  "\<lambda>data. (DW_TO_INT data, DW_TO_INT (drop 4 data))" 8 "\<lambda>_. True"
  camera_unit UVC_CT_PANTILT_ABSOLUTE_CONTROL "uvc_get_pantilt_abs" "\<lambda>usb ci (pan, tilt). uvc_set_pantilt_abs usb ci pan tilt"
  by unfold_locales (auto simp: ctrl_defs split: option.splits bind_splits)

interpretation pantilt_rel: control "\<lambda>(pan_rel, pan_speed, tilt_rel, tilt_speed). [pan_rel, pan_speed, tilt_rel, tilt_speed]"
  "\<lambda>data. (data ! 0, data ! 1, data ! 2, data ! 3)" 4 "\<lambda>_. True"
  camera_unit UVC_CT_PANTILT_RELATIVE_CONTROL "uvc_get_pantilt_rel" "\<lambda>usb ci (pan_rel, pan_speed, tilt_rel, tilt_speed). uvc_set_pantilt_rel usb ci pan_rel pan_speed tilt_rel tilt_speed"
  by unfold_locales (auto simp: ctrl_defs split: option.splits bind_splits)

interpretation roll_abs: control "\<lambda>roll. SHORT_TO_SW roll"
  "\<lambda>data. get_sw data" 2 "\<lambda>_. True"
  camera_unit UVC_CT_ROLL_ABSOLUTE_CONTROL "uvc_get_roll_abs" "uvc_set_roll_abs"
  by unfold_locales (auto simp: ctrl_defs split: option.splits bind_splits)

interpretation roll_rel: control "\<lambda>(roll_rel, speed). [roll_rel, speed]"
  "\<lambda>data. (data ! 0, data ! 1)" 2 "\<lambda>_. True"
  camera_unit UVC_CT_ROLL_RELATIVE_CONTROL "uvc_get_roll_rel" "\<lambda>usb ci (roll_rel, speed). uvc_set_roll_rel usb ci roll_rel speed"
  by unfold_locales (auto simp: ctrl_defs split: option.splits bind_splits)

interpretation privacy: control "\<lambda>privacy. [privacy]"
  "\<lambda>data. data ! 0" 1 "\<lambda>_. True"
  camera_unit UVC_CT_PRIVACY_CONTROL "uvc_get_privacy" "uvc_set_privacy"
  by unfold_locales (auto simp: ctrl_defs split: option.splits bind_splits)

interpretation digital_window: control "\<lambda>(window_top, window_left, window_bottom, window_right, num_steps, num_steps_units). SHORT_TO_SW window_top @ SHORT_TO_SW window_left @ SHORT_TO_SW window_bottom @ SHORT_TO_SW window_right @ SHORT_TO_SW num_steps @ SHORT_TO_SW num_steps_units"
  "\<lambda>data. (get_sw data, get_sw (drop 2 data), get_sw (drop 4 data), get_sw (drop 6 data), get_sw (drop 8 data), get_sw (drop 10 data))" 12 "\<lambda>_. True"
  camera_unit UVC_CT_DIGITAL_WINDOW_CONTROL "uvc_get_digital_window" "\<lambda>usb ci (window_top, window_left, window_bottom, window_right, num_steps, num_steps_units). uvc_set_digital_window usb ci window_top window_left window_bottom window_right num_steps num_steps_units"
  by unfold_locales (auto simp: ctrl_defs split: option.splits bind_splits)

interpretation digital_roi: control "\<lambda>(roi_top, roi_left, roi_bottom, roi_right, auto_controls). SHORT_TO_SW roi_top @ SHORT_TO_SW roi_left @ SHORT_TO_SW roi_bottom @ SHORT_TO_SW roi_right @ SHORT_TO_SW auto_controls"
  "\<lambda>data. (get_sw data, get_sw (drop 2 data), get_sw (drop 4 data), get_sw (drop 6 data), get_sw (drop 8 data))" 10 "\<lambda>_. True"
  camera_unit UVC_CT_REGION_OF_INTEREST_CONTROL "uvc_get_digital_roi" "\<lambda>usb ci (roi_top, roi_left, roi_bottom, roi_right, auto_controls). uvc_set_digital_roi usb ci roi_top roi_left roi_bottom roi_right auto_controls"
  by unfold_locales (auto simp: ctrl_defs split: option.splits bind_splits)

section \<open>What the controls guarantee\<close>

text \<open>A camera terminal whose requests are addressed to terminal 1 of interface 0.\<close>

definition one_camera :: uvc_control_interface where
  "one_camera = \<lparr>input_term_descs = [\<lparr>it_bTerminalID = 1, it_wTerminalType = 0x201,
       wObjectiveFocalLengthMin = 0, wObjectiveFocalLengthMax = 0, wOcularFocalLength = 0,
       it_bmControls = 0, it_request = 0x100\<rparr>],
     output_term_descs = [], processing_unit_descs = [], extension_unit_descs = [],
     bcdUVC = 0x100, ci_bEndpointAddress = 0, ci_bInterfaceNumber = 0\<rparr>"

lemma camera_unit_one_camera: "camera_unit one_camera = Some 0x100"
  by (simp add: camera_unit_def one_camera_def)

text \<open>On a device with a camera terminal that stores what it is sent, every camera terminal control
  except relative exposure (and iris, treated apart) reads back, through its getter, exactly the
  value its setter was given, whatever the number and width of its parameters, with success from both calls.\<close>

theorem camera_controls_roundtrip:
  assumes "usb_stores usb" and "camera_unit ci = Some ri"
  shows "reads_back uvc_get_ae_mode uvc_set_ae_mode usb ci x1 d \<and>
     reads_back uvc_get_ae_priority uvc_set_ae_priority usb ci x2 d \<and>
     reads_back uvc_get_exposure_abs uvc_set_exposure_abs usb ci x3 d \<and>
     reads_back uvc_get_scanning_mode uvc_set_scanning_mode usb ci x4 d \<and>
     reads_back uvc_get_focus_auto uvc_set_focus_auto usb ci x5 d \<and>
     reads_back uvc_get_focus_abs uvc_set_focus_abs usb ci x6 d \<and>
     reads_back uvc_get_focus_rel (\<lambda>usb ci (focus, speed). uvc_set_focus_rel usb ci focus speed) usb ci (x7, x8) d \<and>
     reads_back uvc_get_zoom_abs uvc_set_zoom_abs usb ci x11 d \<and>
     reads_back uvc_get_zoom_rel (\<lambda>usb ci (zoom, isdigital, speed). uvc_set_zoom_rel usb ci zoom isdigital speed) usb ci (x12, x13, x14) d \<and>
     reads_back uvc_get_pantilt_abs (\<lambda>usb ci (pan, tilt). uvc_set_pantilt_abs usb ci pan tilt) usb ci (x15, x16) d \<and>
     reads_back uvc_get_pantilt_rel (\<lambda>usb ci (pan_rel, pan_speed, tilt_rel, tilt_speed). uvc_set_pantilt_rel usb ci pan_rel pan_speed tilt_rel tilt_speed) usb ci (x17, x18, x19, x20) d \<and>
     reads_back uvc_get_roll_abs uvc_set_roll_abs usb ci x21 d \<and>
     reads_back uvc_get_roll_rel (\<lambda>usb ci (roll_rel, speed). uvc_set_roll_rel usb ci roll_rel speed) usb ci (x22, x23) d \<and>
     reads_back uvc_get_privacy uvc_set_privacy usb ci x24 d \<and>
     reads_back uvc_get_digital_window (\<lambda>usb ci (window_top, window_left, window_bottom, window_right, num_steps, num_steps_units). uvc_set_digital_window usb ci window_top window_left window_bottom window_right num_steps num_steps_units) usb ci (x25, x26, x27, x28, x29, x30) d \<and>
     reads_back uvc_get_digital_roi (\<lambda>usb ci (roi_top, roi_left, roi_bottom, roi_right, auto_controls). uvc_set_digital_roi usb ci roi_top roi_left roi_bottom roi_right auto_controls) usb ci (x31, x32, x33, x34, x35) d"
  by (intro conjI)
    (rule ae_mode.reads_back [OF assms TrueI]
     | rule ae_priority.reads_back [OF assms TrueI]
     | rule exposure_abs.reads_back [OF assms TrueI]
     | rule scanning_mode.reads_back [OF assms TrueI]
     | rule focus_auto.reads_back [OF assms TrueI]
     | rule focus_abs.reads_back [OF assms TrueI]
     | rule focus_rel.reads_back [OF assms TrueI]
     | rule zoom_abs.reads_back [OF assms TrueI]
     | rule zoom_rel.reads_back [OF assms TrueI]
     | rule pantilt_abs.reads_back [OF assms TrueI]
     | rule pantilt_rel.reads_back [OF assms TrueI]
     | rule roll_abs.reads_back [OF assms TrueI]
     | rule roll_rel.reads_back [OF assms TrueI]
     | rule privacy.reads_back [OF assms TrueI]
     | rule digital_window.reads_back [OF assms TrueI]
     | rule digital_roi.reads_back [OF assms TrueI])+

theorem camera_controls_roundtrip_witness:
  "reads_back uvc_get_exposure_abs uvc_set_exposure_abs mem_usb one_camera 156 (\<lambda>_. []) \<and>
   reads_back uvc_get_zoom_rel (\<lambda>usb ci (zoom, isdigital, speed). uvc_set_zoom_rel usb ci zoom isdigital speed)
     mem_usb one_camera (0xFF, 1, 4) (\<lambda>_. [])"
  by (simp add: camera_controls_roundtrip [OF mem_usb_stores camera_unit_one_camera])

text \<open>Relative exposure loses its sign: the step is an \<open>int\<close>, one byte of it is sent and the byte
  read back is zero-extended, so a step reads back exactly when it is between 0 and 255, and the
  decrement -1 the control is made for never does.\<close>

theorem exposure_rel_roundtrip_iff:
  assumes "usb_stores usb" and "camera_unit ci = Some ri"
  shows "reads_back uvc_get_exposure_rel uvc_set_exposure_rel usb ci step d \<longleftrightarrow> uint step < 256"
proof
  assume "uint step < 256"
  then show "reads_back uvc_get_exposure_rel uvc_set_exposure_rel usb ci step d"
    by (rule exposure_rel.reads_back [OF assms])
next
  obtain d' d'' where
    "usb_out usb REQ_TYPE_SET UVC_SET_CUR (push_bit 8 UVC_CT_EXPOSURE_TIME_RELATIVE_CONTROL) ri [ucast step] d = (1, d')"
    "usb_in usb REQ_TYPE_GET UVC_GET_CUR (push_bit 8 UVC_CT_EXPOSURE_TIME_RELATIVE_CONTROL) ri 1 d' = (1, [ucast step], d'')"
    using assms(1) unfolding usb_stores_def by (metis One_nat_def length_Cons list.size(3) of_nat_1)
  moreover assume "reads_back uvc_get_exposure_rel uvc_set_exposure_rel usb ci step d"
  ultimately show "uint step < 256"
    by (simp add: reads_back_def ctrl_defs ctrl_get_def ctrl_set_def assms(2) u32_of_u8)
qed

theorem exposure_rel_roundtrip_iff_witness:
  "\<not> reads_back uvc_get_exposure_rel uvc_set_exposure_rel mem_usb one_camera 0xFFFFFFFF (\<lambda>_. [])"
  using exposure_rel_roundtrip_iff [OF mem_usb_stores camera_unit_one_camera] by simp

lemma iris_is_focus: "uvc_get_iris_abs = uvc_get_focus_abs" "uvc_set_iris_abs = uvc_set_focus_abs"
  by (simp_all add: ctrl_defs fun_eq_iff)

text \<open>The iris controls address the focus selectors: setting the absolute iris sets the absolute
  focus to the same value, setting the focus sets the iris, and both iris controls look correct to a caller
  that only reads the iris back.\<close>

theorem iris_overwrites_focus:
  assumes "usb_stores usb" and "camera_unit ci = Some ri"
  shows "reads_back uvc_get_focus_abs uvc_set_iris_abs usb ci v d \<and>
     reads_back uvc_get_iris_abs uvc_set_focus_abs usb ci v d \<and>
     reads_back uvc_get_iris_abs uvc_set_iris_abs usb ci v d \<and>
     reads_back uvc_get_iris_rel uvc_set_iris_rel usb ci w d"
  using iris_abs.reads_back [OF assms TrueI] iris_rel.reads_back [OF assms TrueI]
  by (simp add: iris_is_focus)

theorem iris_overwrites_focus_witness:
  "reads_back uvc_get_focus_abs uvc_set_iris_abs mem_usb one_camera 7 (\<lambda>_. [])"
  using iris_overwrites_focus [OF mem_usb_stores camera_unit_one_camera] by blast

end
