(* ===== verification/Uvc_Processing.thy ===== *)
theory Uvc_Processing
  imports Uvc_Ctrl
begin

text \<open>
  The controls of the processing unit (\<open>ctrl.c\<close>, \<open>uvc_get_backlight_compensation\<close> to
  \<open>uvc_set_analog_video_lockstate\<close>), one definition per function, each pair an instance of the
  contract of \<open>Uvc_Ctrl\<close>.
\<close>

section \<open>Operations\<close>

definition uvc_get_backlight_compensation ::
  "'d usb \<Rightarrow> uvc_control_interface \<Rightarrow> u8 \<Rightarrow> 'd \<Rightarrow> (int \<times> u16 option \<times> 'd) option" where
  [ctrl_defs]: "uvc_get_backlight_compensation usb ci req_code d = do {
     ri \<leftarrow> processing_unit ci;
     Some (ctrl_get usb req_code UVC_PU_BACKLIGHT_COMPENSATION_CONTROL ri 2
       (\<lambda>data. get_sw data) d) }"

definition uvc_set_backlight_compensation ::
  "'d usb \<Rightarrow> uvc_control_interface \<Rightarrow> u16 \<Rightarrow> 'd \<Rightarrow> (int \<times> 'd) option" where
  [ctrl_defs]: "uvc_set_backlight_compensation usb ci bl_comp d = do {
     ri \<leftarrow> processing_unit ci;
     Some (ctrl_set usb UVC_PU_BACKLIGHT_COMPENSATION_CONTROL ri (SHORT_TO_SW bl_comp) d) }"

definition uvc_get_brightness ::
  "'d usb \<Rightarrow> uvc_control_interface \<Rightarrow> u8 \<Rightarrow> 'd \<Rightarrow> (int \<times> u16 option \<times> 'd) option" where
  [ctrl_defs]: "uvc_get_brightness usb ci req_code d = do {
     ri \<leftarrow> processing_unit ci;
     Some (ctrl_get usb req_code UVC_PU_BRIGHTNESS_CONTROL ri 2
       (\<lambda>data. get_sw data) d) }"

definition uvc_set_brightness ::
  "'d usb \<Rightarrow> uvc_control_interface \<Rightarrow> u16 \<Rightarrow> 'd \<Rightarrow> (int \<times> 'd) option" where
  [ctrl_defs]: "uvc_set_brightness usb ci brightness d = do {
     ri \<leftarrow> processing_unit ci;
     Some (ctrl_set usb UVC_PU_BRIGHTNESS_CONTROL ri (SHORT_TO_SW brightness) d) }"

definition uvc_get_contrast ::
  "'d usb \<Rightarrow> uvc_control_interface \<Rightarrow> u8 \<Rightarrow> 'd \<Rightarrow> (int \<times> u16 option \<times> 'd) option" where
  [ctrl_defs]: "uvc_get_contrast usb ci req_code d = do {
     ri \<leftarrow> processing_unit ci;
     Some (ctrl_get usb req_code UVC_PU_CONTRAST_CONTROL ri 2
       (\<lambda>data. get_sw data) d) }"

definition uvc_set_contrast ::
  "'d usb \<Rightarrow> uvc_control_interface \<Rightarrow> u16 \<Rightarrow> 'd \<Rightarrow> (int \<times> 'd) option" where
  [ctrl_defs]: "uvc_set_contrast usb ci contrast d = do {
     ri \<leftarrow> processing_unit ci;
     Some (ctrl_set usb UVC_PU_CONTRAST_CONTROL ri (SHORT_TO_SW contrast) d) }"

definition uvc_get_contrast_auto ::
  "'d usb \<Rightarrow> uvc_control_interface \<Rightarrow> u8 \<Rightarrow> 'd \<Rightarrow> (int \<times> u8 option \<times> 'd) option" where
  [ctrl_defs]: "uvc_get_contrast_auto usb ci req_code d = do {
     ri \<leftarrow> processing_unit ci;
     Some (ctrl_get usb req_code UVC_PU_CONTRAST_AUTO_CONTROL ri 1
       (\<lambda>data. data ! 0) d) }"

definition uvc_set_contrast_auto ::
  "'d usb \<Rightarrow> uvc_control_interface \<Rightarrow> u8 \<Rightarrow> 'd \<Rightarrow> (int \<times> 'd) option" where
  [ctrl_defs]: "uvc_set_contrast_auto usb ci autoContrast d = do {
     ri \<leftarrow> processing_unit ci;
     Some (ctrl_set usb UVC_PU_CONTRAST_AUTO_CONTROL ri ([if autoContrast \<noteq> 0 then 1 else 0]) d) }"

definition uvc_get_gain ::
  "'d usb \<Rightarrow> uvc_control_interface \<Rightarrow> u8 \<Rightarrow> 'd \<Rightarrow> (int \<times> u16 option \<times> 'd) option" where
  [ctrl_defs]: "uvc_get_gain usb ci req_code d = do {
     ri \<leftarrow> processing_unit ci;
     Some (ctrl_get usb req_code UVC_PU_GAIN_CONTROL ri 2
       (\<lambda>data. get_sw data) d) }"

definition uvc_set_gain ::
  "'d usb \<Rightarrow> uvc_control_interface \<Rightarrow> u16 \<Rightarrow> 'd \<Rightarrow> (int \<times> 'd) option" where
  [ctrl_defs]: "uvc_set_gain usb ci gain d = do {
     ri \<leftarrow> processing_unit ci;
     Some (ctrl_set usb UVC_PU_GAIN_CONTROL ri (SHORT_TO_SW gain) d) }"

definition uvc_get_powerline_freqency ::
  "'d usb \<Rightarrow> uvc_control_interface \<Rightarrow> u8 \<Rightarrow> 'd \<Rightarrow> (int \<times> u8 option \<times> 'd) option" where
  [ctrl_defs]: "uvc_get_powerline_freqency usb ci req_code d = do {
     ri \<leftarrow> processing_unit ci;
     Some (ctrl_get usb req_code UVC_PU_POWER_LINE_FREQUENCY_CONTROL ri 1
       (\<lambda>data. data ! 0) d) }"

text \<open>
  Automatic selection is replaced by the device's default before UVC 1.5. A \<open>GET_DEF\<close> that returns 0
  without a byte leaves \<open>freq\<close> as it is.
\<close>

definition uvc_set_powerline_freqency ::
  "'d usb \<Rightarrow> uvc_control_interface \<Rightarrow> u8 \<Rightarrow> 'd \<Rightarrow> (int \<times> 'd) option" where
  "uvc_set_powerline_freqency usb ci freq d = do {
     (ret, freq, d) \<leftarrow>
       (if freq AND 0xff = 0xff \<or> (freq AND 0x03 = 0x03 \<and> bcdUVC ci < 0x0150)
        then do {
          (ret, out, d') \<leftarrow> uvc_get_powerline_freqency usb ci UVC_GET_DEF d;
          Some (ret, (case out of None \<Rightarrow> freq | Some f \<Rightarrow> f), d') }
        else Some (UVC_SUCCESS, freq, d));
     if ret \<noteq> UVC_SUCCESS then Some (ret, d)
     else do {
       ri \<leftarrow> processing_unit ci;
       Some (ctrl_set usb UVC_PU_POWER_LINE_FREQUENCY_CONTROL ri [freq AND 0x03] d) } }"

definition uvc_get_hue ::
  "'d usb \<Rightarrow> uvc_control_interface \<Rightarrow> u8 \<Rightarrow> 'd \<Rightarrow> (int \<times> u16 option \<times> 'd) option" where
  [ctrl_defs]: "uvc_get_hue usb ci req_code d = do {
     ri \<leftarrow> processing_unit ci;
     Some (ctrl_get usb req_code UVC_PU_HUE_CONTROL ri 2
       (\<lambda>data. get_sw data) d) }"

definition uvc_set_hue ::
  "'d usb \<Rightarrow> uvc_control_interface \<Rightarrow> u16 \<Rightarrow> 'd \<Rightarrow> (int \<times> 'd) option" where
  [ctrl_defs]: "uvc_set_hue usb ci hue d = do {
     ri \<leftarrow> processing_unit ci;
     Some (ctrl_set usb UVC_PU_HUE_CONTROL ri (SHORT_TO_SW hue) d) }"

definition uvc_get_hue_auto ::
  "'d usb \<Rightarrow> uvc_control_interface \<Rightarrow> u8 \<Rightarrow> 'd \<Rightarrow> (int \<times> u8 option \<times> 'd) option" where
  [ctrl_defs]: "uvc_get_hue_auto usb ci req_code d = do {
     ri \<leftarrow> processing_unit ci;
     Some (ctrl_get usb req_code UVC_PU_HUE_AUTO_CONTROL ri 1
       (\<lambda>data. data ! 0) d) }"

definition uvc_set_hue_auto ::
  "'d usb \<Rightarrow> uvc_control_interface \<Rightarrow> u8 \<Rightarrow> 'd \<Rightarrow> (int \<times> 'd) option" where
  [ctrl_defs]: "uvc_set_hue_auto usb ci autoHue d = do {
     ri \<leftarrow> processing_unit ci;
     Some (ctrl_set usb UVC_PU_HUE_AUTO_CONTROL ri ([if autoHue \<noteq> 0 then 1 else 0]) d) }"

definition uvc_get_saturation ::
  "'d usb \<Rightarrow> uvc_control_interface \<Rightarrow> u8 \<Rightarrow> 'd \<Rightarrow> (int \<times> u16 option \<times> 'd) option" where
  [ctrl_defs]: "uvc_get_saturation usb ci req_code d = do {
     ri \<leftarrow> processing_unit ci;
     Some (ctrl_get usb req_code UVC_PU_SATURATION_CONTROL ri 2
       (\<lambda>data. get_sw data) d) }"

definition uvc_set_saturation ::
  "'d usb \<Rightarrow> uvc_control_interface \<Rightarrow> u16 \<Rightarrow> 'd \<Rightarrow> (int \<times> 'd) option" where
  [ctrl_defs]: "uvc_set_saturation usb ci saturation d = do {
     ri \<leftarrow> processing_unit ci;
     Some (ctrl_set usb UVC_PU_SATURATION_CONTROL ri (SHORT_TO_SW saturation) d) }"

definition uvc_get_sharpness ::
  "'d usb \<Rightarrow> uvc_control_interface \<Rightarrow> u8 \<Rightarrow> 'd \<Rightarrow> (int \<times> u16 option \<times> 'd) option" where
  [ctrl_defs]: "uvc_get_sharpness usb ci req_code d = do {
     ri \<leftarrow> processing_unit ci;
     Some (ctrl_get usb req_code UVC_PU_SHARPNESS_CONTROL ri 2
       (\<lambda>data. get_sw data) d) }"

definition uvc_set_sharpness ::
  "'d usb \<Rightarrow> uvc_control_interface \<Rightarrow> u16 \<Rightarrow> 'd \<Rightarrow> (int \<times> 'd) option" where
  [ctrl_defs]: "uvc_set_sharpness usb ci sharpness d = do {
     ri \<leftarrow> processing_unit ci;
     Some (ctrl_set usb UVC_PU_SHARPNESS_CONTROL ri (SHORT_TO_SW sharpness) d) }"

definition uvc_get_gamma ::
  "'d usb \<Rightarrow> uvc_control_interface \<Rightarrow> u8 \<Rightarrow> 'd \<Rightarrow> (int \<times> u16 option \<times> 'd) option" where
  [ctrl_defs]: "uvc_get_gamma usb ci req_code d = do {
     ri \<leftarrow> processing_unit ci;
     Some (ctrl_get usb req_code UVC_PU_GAMMA_CONTROL ri 2
       (\<lambda>data. get_sw data) d) }"

definition uvc_set_gamma ::
  "'d usb \<Rightarrow> uvc_control_interface \<Rightarrow> u16 \<Rightarrow> 'd \<Rightarrow> (int \<times> 'd) option" where
  [ctrl_defs]: "uvc_set_gamma usb ci gamma d = do {
     ri \<leftarrow> processing_unit ci;
     Some (ctrl_set usb UVC_PU_GAMMA_CONTROL ri (SHORT_TO_SW gamma) d) }"

definition uvc_get_white_balance_temperature ::
  "'d usb \<Rightarrow> uvc_control_interface \<Rightarrow> u8 \<Rightarrow> 'd \<Rightarrow> (int \<times> u16 option \<times> 'd) option" where
  [ctrl_defs]: "uvc_get_white_balance_temperature usb ci req_code d = do {
     ri \<leftarrow> processing_unit ci;
     Some (ctrl_get usb req_code UVC_PU_WHITE_BALANCE_TEMPERATURE_CONTROL ri 2
       (\<lambda>data. get_sw data) d) }"

definition uvc_set_white_balance_temperature ::
  "'d usb \<Rightarrow> uvc_control_interface \<Rightarrow> u16 \<Rightarrow> 'd \<Rightarrow> (int \<times> 'd) option" where
  [ctrl_defs]: "uvc_set_white_balance_temperature usb ci wb_temperature d = do {
     ri \<leftarrow> processing_unit ci;
     Some (ctrl_set usb UVC_PU_WHITE_BALANCE_TEMPERATURE_CONTROL ri (SHORT_TO_SW wb_temperature) d) }"

definition uvc_get_white_balance_temperature_auto ::
  "'d usb \<Rightarrow> uvc_control_interface \<Rightarrow> u8 \<Rightarrow> 'd \<Rightarrow> (int \<times> u8 option \<times> 'd) option" where
  [ctrl_defs]: "uvc_get_white_balance_temperature_auto usb ci req_code d = do {
     ri \<leftarrow> processing_unit ci;
     Some (ctrl_get usb req_code UVC_PU_WHITE_BALANCE_TEMPERATURE_AUTO_CONTROL ri 1
       (\<lambda>data. data ! 0) d) }"

definition uvc_set_white_balance_temperature_auto ::
  "'d usb \<Rightarrow> uvc_control_interface \<Rightarrow> u8 \<Rightarrow> 'd \<Rightarrow> (int \<times> 'd) option" where
  [ctrl_defs]: "uvc_set_white_balance_temperature_auto usb ci autoWbTemp d = do {
     ri \<leftarrow> processing_unit ci;
     Some (ctrl_set usb UVC_PU_WHITE_BALANCE_TEMPERATURE_AUTO_CONTROL ri ([if autoWbTemp \<noteq> 0 then 1 else 0]) d) }"

definition uvc_get_white_balance_component ::
  "'d usb \<Rightarrow> uvc_control_interface \<Rightarrow> u8 \<Rightarrow> 'd \<Rightarrow> (int \<times> u32 option \<times> 'd) option" where
  [ctrl_defs]: "uvc_get_white_balance_component usb ci req_code d = do {
     ri \<leftarrow> processing_unit ci;
     Some (ctrl_get usb req_code UVC_PU_WHITE_BALANCE_COMPONENT_CONTROL ri 4
       (\<lambda>data. DW_TO_INT data) d) }"

definition uvc_set_white_balance_component ::
  "'d usb \<Rightarrow> uvc_control_interface \<Rightarrow> u32 \<Rightarrow> 'd \<Rightarrow> (int \<times> 'd) option" where
  [ctrl_defs]: "uvc_set_white_balance_component usb ci wb_compo d = do {
     ri \<leftarrow> processing_unit ci;
     Some (ctrl_set usb UVC_PU_WHITE_BALANCE_COMPONENT_CONTROL ri (INT_TO_DW wb_compo) d) }"

definition uvc_get_white_balance_component_auto ::
  "'d usb \<Rightarrow> uvc_control_interface \<Rightarrow> u8 \<Rightarrow> 'd \<Rightarrow> (int \<times> u8 option \<times> 'd) option" where
  [ctrl_defs]: "uvc_get_white_balance_component_auto usb ci req_code d = do {
     ri \<leftarrow> processing_unit ci;
     Some (ctrl_get usb req_code UVC_PU_WHITE_BALANCE_COMPONENT_AUTO_CONTROL ri 1
       (\<lambda>data. data ! 0) d) }"

definition uvc_set_white_balance_component_auto ::
  "'d usb \<Rightarrow> uvc_control_interface \<Rightarrow> u8 \<Rightarrow> 'd \<Rightarrow> (int \<times> 'd) option" where
  [ctrl_defs]: "uvc_set_white_balance_component_auto usb ci autoWbCompo d = do {
     ri \<leftarrow> processing_unit ci;
     Some (ctrl_set usb UVC_PU_WHITE_BALANCE_COMPONENT_AUTO_CONTROL ri ([if autoWbCompo \<noteq> 0 then 1 else 0]) d) }"

definition uvc_get_digital_multiplier ::
  "'d usb \<Rightarrow> uvc_control_interface \<Rightarrow> u8 \<Rightarrow> 'd \<Rightarrow> (int \<times> u16 option \<times> 'd) option" where
  [ctrl_defs]: "uvc_get_digital_multiplier usb ci req_code d = do {
     ri \<leftarrow> processing_unit ci;
     Some (ctrl_get usb req_code UVC_PU_DIGITAL_MULTIPLIER_CONTROL ri 2
       (\<lambda>data. get_sw data) d) }"

definition uvc_set_digital_multiplier ::
  "'d usb \<Rightarrow> uvc_control_interface \<Rightarrow> u16 \<Rightarrow> 'd \<Rightarrow> (int \<times> 'd) option" where
  [ctrl_defs]: "uvc_set_digital_multiplier usb ci multiplier d = do {
     ri \<leftarrow> processing_unit ci;
     Some (ctrl_set usb UVC_PU_DIGITAL_MULTIPLIER_CONTROL ri (SHORT_TO_SW multiplier) d) }"

definition uvc_get_digital_multiplier_limit ::
  "'d usb \<Rightarrow> uvc_control_interface \<Rightarrow> u8 \<Rightarrow> 'd \<Rightarrow> (int \<times> u16 option \<times> 'd) option" where
  [ctrl_defs]: "uvc_get_digital_multiplier_limit usb ci req_code d = do {
     ri \<leftarrow> processing_unit ci;
     Some (ctrl_get usb req_code UVC_PU_DIGITAL_MULTIPLIER_LIMIT_CONTROL ri 2
       (\<lambda>data. get_sw data) d) }"

definition uvc_set_digital_multiplier_limit ::
  "'d usb \<Rightarrow> uvc_control_interface \<Rightarrow> u16 \<Rightarrow> 'd \<Rightarrow> (int \<times> 'd) option" where
  [ctrl_defs]: "uvc_set_digital_multiplier_limit usb ci limit d = do {
     ri \<leftarrow> processing_unit ci;
     Some (ctrl_set usb UVC_PU_DIGITAL_MULTIPLIER_LIMIT_CONTROL ri (SHORT_TO_SW limit) d) }"

definition uvc_get_analog_video_standard ::
  "'d usb \<Rightarrow> uvc_control_interface \<Rightarrow> u8 \<Rightarrow> 'd \<Rightarrow> (int \<times> u8 option \<times> 'd) option" where
  [ctrl_defs]: "uvc_get_analog_video_standard usb ci req_code d = do {
     ri \<leftarrow> processing_unit ci;
     Some (ctrl_get usb req_code UVC_PU_ANALOG_VIDEO_STANDARD_CONTROL ri 1
       (\<lambda>data. data ! 0) d) }"

definition uvc_set_analog_video_standard ::
  "'d usb \<Rightarrow> uvc_control_interface \<Rightarrow> u8 \<Rightarrow> 'd \<Rightarrow> (int \<times> 'd) option" where
  [ctrl_defs]: "uvc_set_analog_video_standard usb ci standard d = do {
     ri \<leftarrow> processing_unit ci;
     Some (ctrl_set usb UVC_PU_ANALOG_VIDEO_STANDARD_CONTROL ri ([standard]) d) }"

definition uvc_get_analog_video_lockstate ::
  "'d usb \<Rightarrow> uvc_control_interface \<Rightarrow> u8 \<Rightarrow> 'd \<Rightarrow> (int \<times> u8 option \<times> 'd) option" where
  [ctrl_defs]: "uvc_get_analog_video_lockstate usb ci req_code d = do {
     ri \<leftarrow> processing_unit ci;
     Some (ctrl_get usb req_code UVC_PU_ANALOG_LOCK_STATUS_CONTROL ri 1
       (\<lambda>data. data ! 0) d) }"

definition uvc_set_analog_video_lockstate ::
  "'d usb \<Rightarrow> uvc_control_interface \<Rightarrow> u8 \<Rightarrow> 'd \<Rightarrow> (int \<times> 'd) option" where
  [ctrl_defs]: "uvc_set_analog_video_lockstate usb ci lock_state d = do {
     ri \<leftarrow> processing_unit ci;
     Some (ctrl_set usb UVC_PU_ANALOG_LOCK_STATUS_CONTROL ri ([lock_state]) d) }"

section \<open>Each pair is a control\<close>

interpretation backlight_compensation: control "\<lambda>bl_comp. SHORT_TO_SW bl_comp"
  "\<lambda>data. get_sw data" 2 "\<lambda>_. True"
  processing_unit UVC_PU_BACKLIGHT_COMPENSATION_CONTROL "uvc_get_backlight_compensation" "uvc_set_backlight_compensation"
  by unfold_locales (auto simp: ctrl_defs split: option.splits bind_splits)

interpretation brightness: control "\<lambda>brightness. SHORT_TO_SW brightness"
  "\<lambda>data. get_sw data" 2 "\<lambda>_. True"
  processing_unit UVC_PU_BRIGHTNESS_CONTROL "uvc_get_brightness" "uvc_set_brightness"
  by unfold_locales (auto simp: ctrl_defs split: option.splits bind_splits)

interpretation contrast: control "\<lambda>contrast. SHORT_TO_SW contrast"
  "\<lambda>data. get_sw data" 2 "\<lambda>_. True"
  processing_unit UVC_PU_CONTRAST_CONTROL "uvc_get_contrast" "uvc_set_contrast"
  by unfold_locales (auto simp: ctrl_defs split: option.splits bind_splits)

interpretation contrast_auto: control "\<lambda>autoContrast. [if autoContrast \<noteq> 0 then 1 else 0]"
  "\<lambda>data. data ! 0" 1 "\<lambda>v. v = 0 \<or> v = 1"
  processing_unit UVC_PU_CONTRAST_AUTO_CONTROL "uvc_get_contrast_auto" "uvc_set_contrast_auto"
  by unfold_locales (auto simp: ctrl_defs split: option.splits bind_splits)

interpretation gain: control "\<lambda>gain. SHORT_TO_SW gain"
  "\<lambda>data. get_sw data" 2 "\<lambda>_. True"
  processing_unit UVC_PU_GAIN_CONTROL "uvc_get_gain" "uvc_set_gain"
  by unfold_locales (auto simp: ctrl_defs split: option.splits bind_splits)

interpretation hue: control "\<lambda>hue. SHORT_TO_SW hue"
  "\<lambda>data. get_sw data" 2 "\<lambda>_. True"
  processing_unit UVC_PU_HUE_CONTROL "uvc_get_hue" "uvc_set_hue"
  by unfold_locales (auto simp: ctrl_defs split: option.splits bind_splits)

interpretation hue_auto: control "\<lambda>autoHue. [if autoHue \<noteq> 0 then 1 else 0]"
  "\<lambda>data. data ! 0" 1 "\<lambda>v. v = 0 \<or> v = 1"
  processing_unit UVC_PU_HUE_AUTO_CONTROL "uvc_get_hue_auto" "uvc_set_hue_auto"
  by unfold_locales (auto simp: ctrl_defs split: option.splits bind_splits)

interpretation saturation: control "\<lambda>saturation. SHORT_TO_SW saturation"
  "\<lambda>data. get_sw data" 2 "\<lambda>_. True"
  processing_unit UVC_PU_SATURATION_CONTROL "uvc_get_saturation" "uvc_set_saturation"
  by unfold_locales (auto simp: ctrl_defs split: option.splits bind_splits)

interpretation sharpness: control "\<lambda>sharpness. SHORT_TO_SW sharpness"
  "\<lambda>data. get_sw data" 2 "\<lambda>_. True"
  processing_unit UVC_PU_SHARPNESS_CONTROL "uvc_get_sharpness" "uvc_set_sharpness"
  by unfold_locales (auto simp: ctrl_defs split: option.splits bind_splits)

interpretation gamma: control "\<lambda>gamma. SHORT_TO_SW gamma"
  "\<lambda>data. get_sw data" 2 "\<lambda>_. True"
  processing_unit UVC_PU_GAMMA_CONTROL "uvc_get_gamma" "uvc_set_gamma"
  by unfold_locales (auto simp: ctrl_defs split: option.splits bind_splits)

interpretation white_balance_temperature: control "\<lambda>wb_temperature. SHORT_TO_SW wb_temperature"
  "\<lambda>data. get_sw data" 2 "\<lambda>_. True"
  processing_unit UVC_PU_WHITE_BALANCE_TEMPERATURE_CONTROL "uvc_get_white_balance_temperature" "uvc_set_white_balance_temperature"
  by unfold_locales (auto simp: ctrl_defs split: option.splits bind_splits)

interpretation white_balance_temperature_auto: control "\<lambda>autoWbTemp. [if autoWbTemp \<noteq> 0 then 1 else 0]"
  "\<lambda>data. data ! 0" 1 "\<lambda>v. v = 0 \<or> v = 1"
  processing_unit UVC_PU_WHITE_BALANCE_TEMPERATURE_AUTO_CONTROL "uvc_get_white_balance_temperature_auto" "uvc_set_white_balance_temperature_auto"
  by unfold_locales (auto simp: ctrl_defs split: option.splits bind_splits)

interpretation white_balance_component: control "\<lambda>wb_compo. INT_TO_DW wb_compo"
  "\<lambda>data. DW_TO_INT data" 4 "\<lambda>_. True"
  processing_unit UVC_PU_WHITE_BALANCE_COMPONENT_CONTROL "uvc_get_white_balance_component" "uvc_set_white_balance_component"
  by unfold_locales (auto simp: ctrl_defs split: option.splits bind_splits)

interpretation white_balance_component_auto: control "\<lambda>autoWbCompo. [if autoWbCompo \<noteq> 0 then 1 else 0]"
  "\<lambda>data. data ! 0" 1 "\<lambda>v. v = 0 \<or> v = 1"
  processing_unit UVC_PU_WHITE_BALANCE_COMPONENT_AUTO_CONTROL "uvc_get_white_balance_component_auto" "uvc_set_white_balance_component_auto"
  by unfold_locales (auto simp: ctrl_defs split: option.splits bind_splits)

interpretation digital_multiplier: control "\<lambda>multiplier. SHORT_TO_SW multiplier"
  "\<lambda>data. get_sw data" 2 "\<lambda>_. True"
  processing_unit UVC_PU_DIGITAL_MULTIPLIER_CONTROL "uvc_get_digital_multiplier" "uvc_set_digital_multiplier"
  by unfold_locales (auto simp: ctrl_defs split: option.splits bind_splits)

interpretation digital_multiplier_limit: control "\<lambda>limit. SHORT_TO_SW limit"
  "\<lambda>data. get_sw data" 2 "\<lambda>_. True"
  processing_unit UVC_PU_DIGITAL_MULTIPLIER_LIMIT_CONTROL "uvc_get_digital_multiplier_limit" "uvc_set_digital_multiplier_limit"
  by unfold_locales (auto simp: ctrl_defs split: option.splits bind_splits)

interpretation analog_video_standard: control "\<lambda>standard. [standard]"
  "\<lambda>data. data ! 0" 1 "\<lambda>_. True"
  processing_unit UVC_PU_ANALOG_VIDEO_STANDARD_CONTROL "uvc_get_analog_video_standard" "uvc_set_analog_video_standard"
  by unfold_locales (auto simp: ctrl_defs split: option.splits bind_splits)

interpretation analog_video_lockstate: control "\<lambda>lock_state. [lock_state]"
  "\<lambda>data. data ! 0" 1 "\<lambda>_. True"
  processing_unit UVC_PU_ANALOG_LOCK_STATUS_CONTROL "uvc_get_analog_video_lockstate" "uvc_set_analog_video_lockstate"
  by unfold_locales (auto simp: ctrl_defs split: option.splits bind_splits)

section \<open>What the controls guarantee\<close>

text \<open>A UVC 1.0 processing unit whose requests are addressed to unit 2 of interface 0.\<close>

definition one_processing :: uvc_control_interface where
  "one_processing = \<lparr>input_term_descs = [], output_term_descs = [],
     processing_unit_descs = [\<lparr>pu_bUnitID = 2, pu_bSourceID = 1, pu_bmControls = 0, pu_request = 0x200\<rparr>],
     extension_unit_descs = [], bcdUVC = 0x100, ci_bEndpointAddress = 0, ci_bInterfaceNumber = 0\<rparr>"

lemma processing_unit_one_processing: "processing_unit one_processing = Some 0x200"
  by (simp add: processing_unit_def one_processing_def)

text \<open>A control that is set to \<open>v\<close> and then read gives \<open>w\<close>.\<close>

definition comes_back ::
  "('d usb \<Rightarrow> uvc_control_interface \<Rightarrow> u8 \<Rightarrow> 'd \<Rightarrow> (int \<times> 'v option \<times> 'd) option) \<Rightarrow>
   ('d usb \<Rightarrow> uvc_control_interface \<Rightarrow> 'v \<Rightarrow> 'd \<Rightarrow> (int \<times> 'd) option) \<Rightarrow>
   'd usb \<Rightarrow> uvc_control_interface \<Rightarrow> 'v \<Rightarrow> 'v \<Rightarrow> 'd \<Rightarrow> bool" where
  "comes_back get put usb ci v w d \<longleftrightarrow> (\<exists>d' d''. put usb ci v d = Some (UVC_SUCCESS, d') \<and> get usb ci UVC_GET_CUR d' = Some (UVC_SUCCESS, Some w, d''))"

lemma comes_back_normal:
  "put usb ci v d = put usb ci w d \<Longrightarrow> reads_back get put usb ci w d \<Longrightarrow> comes_back get put usb ci v w d"
  by (auto simp: reads_back_def comes_back_def split: option.splits)

lemma one_or_zero: "(if x \<noteq> 0 then 1 else 0) = (0 :: u8) \<or> (if x \<noteq> 0 then 1 else 0) = (1 :: u8)"
  by simp

lemma automatic_modes:
  assumes "usb_stores usb" and "processing_unit ci = Some ri"
  shows "comes_back uvc_get_contrast_auto uvc_set_contrast_auto usb ci x (if x \<noteq> 0 then 1 else 0) d"
    and "comes_back uvc_get_hue_auto uvc_set_hue_auto usb ci x (if x \<noteq> 0 then 1 else 0) d"
    and "comes_back uvc_get_white_balance_temperature_auto uvc_set_white_balance_temperature_auto usb ci x (if x \<noteq> 0 then 1 else 0) d"
    and "comes_back uvc_get_white_balance_component_auto uvc_set_white_balance_component_auto usb ci x (if x \<noteq> 0 then 1 else 0) d"
proof -
  show "comes_back uvc_get_contrast_auto uvc_set_contrast_auto usb ci x (if x \<noteq> 0 then 1 else 0) d"
    by (rule comes_back_normal [OF _ contrast_auto.reads_back [OF assms one_or_zero]]) (simp add: uvc_set_contrast_auto_def)
  show "comes_back uvc_get_hue_auto uvc_set_hue_auto usb ci x (if x \<noteq> 0 then 1 else 0) d"
    by (rule comes_back_normal [OF _ hue_auto.reads_back [OF assms one_or_zero]]) (simp add: uvc_set_hue_auto_def)
  show "comes_back uvc_get_white_balance_temperature_auto uvc_set_white_balance_temperature_auto usb ci x (if x \<noteq> 0 then 1 else 0) d"
    by (rule comes_back_normal [OF _ white_balance_temperature_auto.reads_back [OF assms one_or_zero]]) (simp add: uvc_set_white_balance_temperature_auto_def)
  show "comes_back uvc_get_white_balance_component_auto uvc_set_white_balance_component_auto usb ci x (if x \<noteq> 0 then 1 else 0) d"
    by (rule comes_back_normal [OF _ white_balance_component_auto.reads_back [OF assms one_or_zero]]) (simp add: uvc_set_white_balance_component_auto_def)
qed

text \<open>Automatic selection of the power line frequency, where the device does not offer it.\<close>

definition powerline_default :: "uvc_control_interface \<Rightarrow> u8 \<Rightarrow> bool" where
  "powerline_default ci freq \<longleftrightarrow> freq = 0xff \<or> freq AND 3 = 3 \<and> bcdUVC ci < 0x150"

lemma all_ones: "(freq :: u8) AND 0xff = freq"
proof -
  have "(0xff :: u8) = - 1"
    by simp
  then show ?thesis
    by (simp only: and.right_neutral)
qed

lemma powerline_stored:
  assumes "usb_stores usb" and "processing_unit ci = Some ri"
  shows "\<not> powerline_default ci freq \<Longrightarrow> comes_back uvc_get_powerline_freqency uvc_set_powerline_freqency usb ci freq (freq AND 3) d"
    and "powerline_default ci freq \<Longrightarrow>
      usb_in usb REQ_TYPE_GET UVC_GET_DEF (push_bit 8 UVC_PU_POWER_LINE_FREQUENCY_CONTROL) ri 1 d = (1, [dflt], d1) \<Longrightarrow>
      comes_back uvc_get_powerline_freqency uvc_set_powerline_freqency usb ci freq (dflt AND 3) d"
proof -
  have stored: "\<exists>d' d''. usb_out usb REQ_TYPE_SET UVC_SET_CUR (push_bit 8 UVC_PU_POWER_LINE_FREQUENCY_CONTROL) ri [f] d = (1, d') \<and>
      usb_in usb REQ_TYPE_GET UVC_GET_CUR (push_bit 8 UVC_PU_POWER_LINE_FREQUENCY_CONTROL) ri 1 d' = (1, [f], d'')" for f d
    using assms(1) unfolding usb_stores_def by (metis One_nat_def length_Cons list.size(3) of_nat_1)
  show "comes_back uvc_get_powerline_freqency uvc_set_powerline_freqency usb ci freq (freq AND 3) d" if "\<not> powerline_default ci freq"
    using stored [of "freq AND 3" d] that assms(2)
    by (auto simp: comes_back_def uvc_set_powerline_freqency_def uvc_get_powerline_freqency_def ctrl_get_def ctrl_set_def powerline_default_def all_ones)
  show "comes_back uvc_get_powerline_freqency uvc_set_powerline_freqency usb ci freq (dflt AND 3) d" if "powerline_default ci freq"
    "usb_in usb REQ_TYPE_GET UVC_GET_DEF (push_bit 8 UVC_PU_POWER_LINE_FREQUENCY_CONTROL) ri 1 d = (1, [dflt], d1)"
    using stored [of "dflt AND 3" d1] that assms(2)
    by (auto simp: comes_back_def uvc_set_powerline_freqency_def uvc_get_powerline_freqency_def ctrl_get_def ctrl_set_def powerline_default_def all_ones)
qed

text \<open>C35. On a device with a processing unit that stores what it is sent, each of the fourteen value controls of the processing unit reads
  back what its setter was given, and each of the four automatic modes, set to any value, reads back 1, or 0 for 0. The power line
  frequency reads back the two low bits it was set to; for 255, and for automatic selection before UVC 1.5, it reads back those of the
  default the device tells.\<close>

theorem processing_controls_roundtrip:
  assumes "usb_stores usb" and "processing_unit ci = Some ri"
  shows "reads_back uvc_get_backlight_compensation uvc_set_backlight_compensation usb ci x1 d \<and>
     reads_back uvc_get_brightness uvc_set_brightness usb ci x2 d \<and>
     reads_back uvc_get_contrast uvc_set_contrast usb ci x3 d \<and>
     reads_back uvc_get_gain uvc_set_gain usb ci x4 d \<and>
     reads_back uvc_get_hue uvc_set_hue usb ci x5 d \<and>
     reads_back uvc_get_saturation uvc_set_saturation usb ci x6 d \<and>
     reads_back uvc_get_sharpness uvc_set_sharpness usb ci x7 d \<and>
     reads_back uvc_get_gamma uvc_set_gamma usb ci x8 d \<and>
     reads_back uvc_get_white_balance_temperature uvc_set_white_balance_temperature usb ci x9 d \<and>
     reads_back uvc_get_white_balance_component uvc_set_white_balance_component usb ci x10 d \<and>
     reads_back uvc_get_digital_multiplier uvc_set_digital_multiplier usb ci x11 d \<and>
     reads_back uvc_get_digital_multiplier_limit uvc_set_digital_multiplier_limit usb ci x12 d \<and>
     reads_back uvc_get_analog_video_standard uvc_set_analog_video_standard usb ci x13 d \<and>
     reads_back uvc_get_analog_video_lockstate uvc_set_analog_video_lockstate usb ci x14 d \<and>
     comes_back uvc_get_contrast_auto uvc_set_contrast_auto usb ci x15 (if x15 \<noteq> 0 then 1 else 0) d \<and>
     comes_back uvc_get_hue_auto uvc_set_hue_auto usb ci x15 (if x15 \<noteq> 0 then 1 else 0) d \<and>
     comes_back uvc_get_white_balance_temperature_auto uvc_set_white_balance_temperature_auto usb ci x15 (if x15 \<noteq> 0 then 1 else 0) d \<and>
     comes_back uvc_get_white_balance_component_auto uvc_set_white_balance_component_auto usb ci x15 (if x15 \<noteq> 0 then 1 else 0) d \<and>
     (\<not> powerline_default ci f \<longrightarrow> comes_back uvc_get_powerline_freqency uvc_set_powerline_freqency usb ci f (f AND 3) d) \<and>
     (\<forall>dflt d1. powerline_default ci f \<and>
        usb_in usb REQ_TYPE_GET UVC_GET_DEF (push_bit 8 UVC_PU_POWER_LINE_FREQUENCY_CONTROL) ri 1 d = (1, [dflt], d1) \<longrightarrow>
        comes_back uvc_get_powerline_freqency uvc_set_powerline_freqency usb ci f (dflt AND 3) d)"
proof -
  have "(\<not> powerline_default ci f \<longrightarrow> comes_back uvc_get_powerline_freqency uvc_set_powerline_freqency usb ci f (f AND 3) d) \<and>
     (\<forall>dflt d1. powerline_default ci f \<and>
        usb_in usb REQ_TYPE_GET UVC_GET_DEF (push_bit 8 UVC_PU_POWER_LINE_FREQUENCY_CONTROL) ri 1 d = (1, [dflt], d1) \<longrightarrow>
        comes_back uvc_get_powerline_freqency uvc_set_powerline_freqency usb ci f (dflt AND 3) d)"
    using powerline_stored [OF assms] by blast
  then show ?thesis
    by (intro conjI)
      (rule backlight_compensation.reads_back [OF assms TrueI]
       | rule brightness.reads_back [OF assms TrueI]
       | rule contrast.reads_back [OF assms TrueI]
       | rule gain.reads_back [OF assms TrueI]
       | rule hue.reads_back [OF assms TrueI]
       | rule saturation.reads_back [OF assms TrueI]
       | rule sharpness.reads_back [OF assms TrueI]
       | rule gamma.reads_back [OF assms TrueI]
       | rule white_balance_temperature.reads_back [OF assms TrueI]
       | rule white_balance_component.reads_back [OF assms TrueI]
       | rule digital_multiplier.reads_back [OF assms TrueI]
       | rule digital_multiplier_limit.reads_back [OF assms TrueI]
       | rule analog_video_standard.reads_back [OF assms TrueI]
       | rule analog_video_lockstate.reads_back [OF assms TrueI]
       | rule automatic_modes [OF assms]
       | erule conjunct1 | erule conjunct2)+
qed

theorem processing_controls_roundtrip_witness:
  "reads_back uvc_get_brightness uvc_set_brightness mem_usb one_processing 0xFFC0 (\<lambda>_. []) \<and>
   reads_back uvc_get_white_balance_component uvc_set_white_balance_component mem_usb one_processing 0x89ABCDEF (\<lambda>_. []) \<and>
   comes_back uvc_get_hue_auto uvc_set_hue_auto mem_usb one_processing 7 1 (\<lambda>_. []) \<and>
   comes_back uvc_get_powerline_freqency uvc_set_powerline_freqency mem_usb one_processing 6 2 (\<lambda>_. [])"
proof -
  note all = processing_controls_roundtrip [OF mem_usb_stores processing_unit_one_processing, where d = "\<lambda>_. []"]
  have "\<not> powerline_default one_processing 6"
    by (simp add: powerline_default_def)
  with all [of _ _ _ _ _ _ _ _ _ _ _ _ _ _ _ 6] all [where ?x15.0 = 7] show ?thesis
    by simp
qed

text \<open>What the caller of a getter can tell from its code, on any device that keeps to the control
  transfer protocol: a value was stored only with code 0; if none was stored the code is smaller than the length
  of the control, but it may be 0, the code of success: a transfer of no bytes reports success and leaves the caller's
  variable unwritten.\<close>

theorem getter_codes:
  assumes "usb_conforms usb" and "uvc_get_brightness usb ci req_code d = Some (ret, out, d')"
  shows "(case out of Some _ \<Rightarrow> ret = UVC_SUCCESS | None \<Rightarrow> ret < 2) \<and>
    (usb_in usb REQ_TYPE_GET req_code (push_bit 8 UVC_PU_BRIGHTNESS_CONTROL) (the (processing_unit ci)) 2 d
       = (0, bs, d1) \<longrightarrow> ret = UVC_SUCCESS \<and> out = None)"
  using assms(2) brightness.get_stored [of usb ci req_code d ret _ d']
    brightness.get_not_stored [OF assms(1), of ci req_code d ret d']
  by (auto simp: ctrl_defs ctrl_get_def split: option.splits bind_splits)

definition empty_usb :: "unit usb" where
  "empty_usb = \<lparr>usb_in = (\<lambda>t q v i n d. (0, [], d)), usb_out = (\<lambda>t q v i bs d. (0, d))\<rparr>"

theorem getter_codes_witness:
  "\<exists>ret out d'. uvc_get_brightness empty_usb one_processing UVC_GET_CUR () = Some (ret, out, d') \<and>
     ret = UVC_SUCCESS \<and> out = None"
proof -
  have "usb_conforms empty_usb"
    by (auto simp: usb_conforms_def empty_usb_def)
  moreover have "uvc_get_brightness empty_usb one_processing UVC_GET_CUR () = Some (0, None, ())"
    by code_simp
  ultimately show ?thesis
    using getter_codes [of empty_usb one_processing UVC_GET_CUR "()" 0 None "()" "[]" "()"]
    by (simp add: empty_usb_def)
qed

text \<open>The power line frequency: a request other than automatic is stored as its two low bits. Asked
  for automatic (3), a device older than UVC 1.5 is instead sent the two low bits of its own default, but if the query for
  the default succeeds with no byte, automatic is sent to it after all.\<close>

theorem powerline_frequency:
  assumes stores: "usb_stores usb" and unit: "processing_unit ci = Some ri"
  shows "(freq AND 3 \<noteq> 3 \<longrightarrow>
      (\<exists>d' d''. uvc_set_powerline_freqency usb ci freq d = Some (UVC_SUCCESS, d') \<and>
         uvc_get_powerline_freqency usb ci UVC_GET_CUR d' = Some (UVC_SUCCESS, Some (freq AND 3), d''))) \<and>
    (freq AND 3 = 3 \<and> bcdUVC ci < 0x150 \<longrightarrow>
      (\<forall>dflt d1. usb_in usb REQ_TYPE_GET UVC_GET_DEF (push_bit 8 UVC_PU_POWER_LINE_FREQUENCY_CONTROL) ri 1 d = (1, [dflt], d1) \<longrightarrow>
         uvc_set_powerline_freqency usb ci freq d =
           Some (ctrl_set usb UVC_PU_POWER_LINE_FREQUENCY_CONTROL ri [dflt AND 3] d1)) \<and>
      (\<forall>d1. usb_in usb REQ_TYPE_GET UVC_GET_DEF (push_bit 8 UVC_PU_POWER_LINE_FREQUENCY_CONTROL) ri 1 d = (0, [], d1) \<longrightarrow>
         uvc_set_powerline_freqency usb ci freq d =
           Some (ctrl_set usb UVC_PU_POWER_LINE_FREQUENCY_CONTROL ri [3] d1)))"
proof (intro conjI impI allI)
  assume low: "freq AND 3 \<noteq> 3"
  have not_all: "freq AND 0xff \<noteq> 0xff"
  proof
    assume "freq AND 0xff = 0xff"
    then have "(freq AND 0xff) AND 3 = 0xff AND 3"
      by simp
    then show False
      using low by (simp add: and.assoc)
  qed
  obtain d' d'' where
    "usb_out usb REQ_TYPE_SET UVC_SET_CUR (push_bit 8 UVC_PU_POWER_LINE_FREQUENCY_CONTROL) ri [freq AND 3] d = (1, d')"
    "usb_in usb REQ_TYPE_GET UVC_GET_CUR (push_bit 8 UVC_PU_POWER_LINE_FREQUENCY_CONTROL) ri 1 d' = (1, [freq AND 3], d'')"
    using stores unfolding usb_stores_def by (metis One_nat_def length_Cons list.size(3) of_nat_1)
  then show "\<exists>d' d''. uvc_set_powerline_freqency usb ci freq d = Some (UVC_SUCCESS, d') \<and>
      uvc_get_powerline_freqency usb ci UVC_GET_CUR d' = Some (UVC_SUCCESS, Some (freq AND 3), d'')"
    using low not_all
    by (simp add: uvc_set_powerline_freqency_def uvc_get_powerline_freqency_def ctrl_get_def ctrl_set_def unit)
qed (auto simp: uvc_set_powerline_freqency_def uvc_get_powerline_freqency_def ctrl_get_def unit)

theorem powerline_frequency_witness:
  "uvc_set_powerline_freqency mem_usb one_processing 3 ((\<lambda>_. [])((0x500, 0x200) := [2])) =
     Some (ctrl_set mem_usb UVC_PU_POWER_LINE_FREQUENCY_CONTROL 0x200 [2] ((\<lambda>_. [])((0x500, 0x200) := [2])))"
  using powerline_frequency [OF mem_usb_stores processing_unit_one_processing, of 3 "(\<lambda>_. [])((0x500, 0x200) := [2])"]
  by (simp add: mem_usb_def one_processing_def)

end
