(* ===== verification/Uvc_Desc.thy ===== *)
theory Uvc_Desc
  imports Uvc_Bytes
begin

text \<open>
  The parsers of single class-specific descriptor blocks (\<open>libuvc/src/device.c\<close>, from
  \<open>uvc_parse_vc_input_terminal\<close> to \<open>uvc_parse_vs\<close>). A parser gets the bytes from the start of its
  block to the end of the descriptor memory, so that a read past that end is \<open>None\<close>, and the length
  the block claims. \<open>calloc\<close> is taken to succeed. \<open>size_t\<close> has 32 bits on every ABI of
  \<open>Application.mk\<close>.
\<close>

section \<open>Bit maps\<close>

text \<open>The loop \<open>acc = block[i] + (acc << 8)\<close> from the highest byte down.\<close>

definition le64 :: "bytes \<Rightarrow> u64" where
  "le64 bs = foldr (\<lambda>b acc. ucast b + push_bit 8 acc) bs 0"

lemma le64_Nil [simp]: "le64 [] = 0"
  by (simp add: le64_def)

lemma le64_Cons: "le64 (b # bs) = ucast b + push_bit 8 (le64 bs)"
  by (simp add: le64_def)

text \<open>\<open>b[i] + (b[i + 1] << 8)\<close> stored in 16 bits.\<close>

definition word_at :: "nat \<Rightarrow> bytes \<Rightarrow> u16" where
  "word_at i block = ucast (block ! i) + push_bit 8 (ucast (block ! Suc i))"

section \<open>Terminals and units\<close>

definition unit_request :: "u8 \<Rightarrow> u8 \<Rightarrow> u16" where
  "unit_request unit_id ifnum = push_bit 8 (ucast unit_id) OR ucast ifnum"

abbreviation "UVC_ITT_CAMERA \<equiv> (0x0201 :: u32)"
abbreviation "UVC_OTT_DISPLAY \<equiv> (0x0301 :: u32)"

definition uvc_parse_vc_input_terminal ::
  "uvc_control_interface \<Rightarrow> bytes \<Rightarrow> nat \<Rightarrow> (int \<times> uvc_control_interface) option" where
  "uvc_parse_vc_input_terminal ci block block_size =
     need 6 block
      (if SW_TO_SHORT (drop 4 block) \<noteq> UVC_ITT_CAMERA then Some (UVC_SUCCESS, ci)
       else need 15 block (need (15 + unat (block ! 14)) block
         (let term = \<lparr>it_bTerminalID = block ! 3, it_wTerminalType = get_sw (drop 4 block),
                wObjectiveFocalLengthMin = get_sw (drop 8 block),
                wObjectiveFocalLengthMax = get_sw (drop 10 block),
                wOcularFocalLength = get_sw (drop 12 block),
                it_bmControls = le64 (take (unat (block ! 14)) (drop 15 block)),
                it_request = unit_request (block ! 3) (ci_bInterfaceNumber ci)\<rparr>
          in Some (UVC_SUCCESS, ci\<lparr>input_term_descs := input_term_descs ci @ [term]\<rparr>))))"

definition uvc_parse_vc_output_terminal ::
  "uvc_control_interface \<Rightarrow> bytes \<Rightarrow> nat \<Rightarrow> (int \<times> uvc_control_interface) option" where
  "uvc_parse_vc_output_terminal ci block block_size =
     need 6 block
      (if SW_TO_SHORT (drop 4 block) \<noteq> UVC_OTT_DISPLAY then Some (UVC_SUCCESS, ci)
       else need 9 block
         (let term = \<lparr>ot_bTerminalID = block ! 3, ot_wTerminalType = get_sw (drop 4 block),
                ot_bAssocTerminal = ucast (block ! 6), ot_bSourceID = block ! 7, ot_iTerminal = block ! 8,
                ot_request = unit_request (block ! 3) (ci_bInterfaceNumber ci)\<rparr>
          in Some (UVC_SUCCESS, ci\<lparr>output_term_descs := output_term_descs ci @ [term]\<rparr>)))"

definition uvc_parse_vc_processing_unit ::
  "uvc_control_interface \<Rightarrow> bytes \<Rightarrow> nat \<Rightarrow> (int \<times> uvc_control_interface) option" where
  "uvc_parse_vc_processing_unit ci block block_size =
     need 8 block (need (8 + unat (block ! 7)) block
       (let unit = \<lparr>pu_bUnitID = block ! 3, pu_bSourceID = block ! 4,
              pu_bmControls = le64 (take (unat (block ! 7)) (drop 8 block)),
              pu_request = unit_request (block ! 3) (ci_bInterfaceNumber ci)\<rparr>
        in Some (UVC_SUCCESS, ci\<lparr>processing_unit_descs := processing_unit_descs ci @ [unit]\<rparr>)))"

definition uvc_parse_vc_extension_unit ::
  "uvc_control_interface \<Rightarrow> bytes \<Rightarrow> nat \<Rightarrow> (int \<times> uvc_control_interface) option" where
  "uvc_parse_vc_extension_unit ci block block_size =
     need 22 block
       (let num_in_pins = unat (block ! 21) in
        need (23 + num_in_pins) block
          (let size_of_controls = unat (block ! (22 + num_in_pins));
               start_of_controls = drop (23 + num_in_pins) block in
           need size_of_controls start_of_controls
             (let unit = \<lparr>xu_bUnitID = block ! 3, guidExtensionCode = take 16 (drop 4 block),
                    xu_bmControls = le64 (take size_of_controls start_of_controls),
                    xu_request = unit_request (block ! 3) (ci_bInterfaceNumber ci)\<rparr>
              in Some (UVC_SUCCESS, ci\<lparr>extension_unit_descs := extension_unit_descs ci @ [unit]\<rparr>))))"

section \<open>Streaming header and formats\<close>

text \<open>
  \<open>p = (block_size - 13) / n\<close> is computed in \<open>size_t\<close> and narrowed to a byte; entry \<open>pp\<close> (from 1)
  ends at \<open>block[12 + pp * n]\<close>.
\<close>

definition bma_count :: "nat \<Rightarrow> nat \<Rightarrow> nat" where
  "bma_count block_size n = nat ((int block_size - 13) mod 2 ^ 32) div n mod 256"

definition bma_entries :: "nat \<Rightarrow> nat \<Rightarrow> bytes \<Rightarrow> u64 list" where
  "bma_entries p n block = map (\<lambda>pp. le64 (take n (drop (13 + pp * n) block))) [0..<p]"

definition uvc_parse_vs_input_header ::
  "uvc_streaming_interface \<Rightarrow> bytes \<Rightarrow> nat \<Rightarrow> (int \<times> uvc_streaming_interface) option" where
  "uvc_parse_vs_input_header si block block_size =
     need 13 block
       (let si = si\<lparr>si_bEndpointAddress := block ! 6 AND 0x8f, bTerminalLink := block ! 8,
              bmInfo := block ! 7, bStillCaptureMethod := block ! 9, bTriggerSupport := block ! 10,
              bTriggerUsage := block ! 11, bmaControls := None\<rparr>;
            n = unat (block ! 12) in
        if n = 0 then Some (UVC_SUCCESS, si)
        else (let p = bma_count block_size n in
              if p = 0 then Some (UVC_SUCCESS, si)
              else need (13 + p * n) block
                (Some (UVC_SUCCESS, si\<lparr>bmaControls := Some (bma_entries p n block)\<rparr>))))"

text \<open>A descriptor fresh from \<open>calloc\<close>.\<close>

definition zero_format :: uvc_format_desc where
  "zero_format = \<lparr>fo_bDescriptorSubtype = 0, bFormatIndex = 0, bNumFrameDescriptors = 0,
     guidFormat = replicate 16 0, bBitsPerPixel = 0, bDefaultFrameIndex = 0, bAspectRatioX = 0,
     bAspectRatioY = 0, bmInterlaceFlags = 0, bCopyProtect = 0, bVariableSize = 0, frame_descs = []\<rparr>"

definition zero_frame :: uvc_frame_desc where
  "zero_frame = \<lparr>fr_bDescriptorSubtype = 0, bFrameIndex = 0, bmCapabilities = 0, wWidth = 0,
     wHeight = 0, dwMinBitRate = 0, dwMaxBitRate = 0, dwMaxVideoFrameBufferSize = 0,
     dwDefaultFrameInterval = 0, dwMinFrameInterval = 0, dwMaxFrameInterval = 0,
     dwFrameIntervalStep = 0, bFrameIntervalType = 0, dwBytesPerLine = 0, intervals = None\<rparr>"

definition append_format :: "uvc_format_desc \<Rightarrow> uvc_streaming_interface \<Rightarrow> uvc_streaming_interface" where
  "append_format f si = si\<lparr>format_descs := format_descs si @ [f]\<rparr>"

definition uvc_parse_vs_format_uncompressed ::
  "uvc_streaming_interface \<Rightarrow> bytes \<Rightarrow> nat \<Rightarrow> (int \<times> uvc_streaming_interface) option" where
  "uvc_parse_vs_format_uncompressed si block block_size =
     need 27 block (Some (UVC_SUCCESS, append_format
       (zero_format\<lparr>fo_bDescriptorSubtype := block ! 2, bFormatIndex := block ! 3,
          guidFormat := take 16 (drop 5 block), bBitsPerPixel := block ! 21,
          bDefaultFrameIndex := block ! 22, bAspectRatioX := block ! 23, bAspectRatioY := block ! 24,
          bmInterlaceFlags := block ! 25, bCopyProtect := block ! 26\<rparr>) si))"

definition uvc_parse_vs_frame_format ::
  "uvc_streaming_interface \<Rightarrow> bytes \<Rightarrow> nat \<Rightarrow> (int \<times> uvc_streaming_interface) option" where
  "uvc_parse_vs_frame_format si block block_size =
     need 28 block (Some (UVC_SUCCESS, append_format
       (zero_format\<lparr>fo_bDescriptorSubtype := block ! 2, bFormatIndex := block ! 3,
          bNumFrameDescriptors := block ! 4, guidFormat := take 16 (drop 5 block),
          bBitsPerPixel := block ! 21, bDefaultFrameIndex := block ! 22, bAspectRatioX := block ! 23,
          bAspectRatioY := block ! 24, bmInterlaceFlags := block ! 25, bCopyProtect := block ! 26,
          bVariableSize := block ! 27\<rparr>) si))"

text \<open>
  \<open>bmFlags\<close> and \<open>bBitsPerPixel\<close> share their storage: the flags are stored and then overwritten by 0.
\<close>

definition MJPG :: bytes where
  "MJPG = [0x4D, 0x4A, 0x50, 0x47]"

definition uvc_parse_vs_format_mjpeg ::
  "uvc_streaming_interface \<Rightarrow> bytes \<Rightarrow> nat \<Rightarrow> (int \<times> uvc_streaming_interface) option" where
  "uvc_parse_vs_format_mjpeg si block block_size =
     need 11 block (Some (UVC_SUCCESS, append_format
       (zero_format\<lparr>fo_bDescriptorSubtype := block ! 2, bFormatIndex := block ! 3,
          guidFormat := MJPG @ replicate 12 0, bBitsPerPixel := block ! 5, bBitsPerPixel := 0,
          bDefaultFrameIndex := block ! 6, bAspectRatioX := block ! 7, bAspectRatioY := block ! 8,
          bmInterlaceFlags := block ! 9, bCopyProtect := block ! 10\<rparr>) si))"

section \<open>Frames\<close>

text \<open>
  A frame belongs to the last format of the list, \<open>format_descs->prev\<close>; with no format that is a
  null dereference. \<open>update_last\<close> applies a partial change to the last element.
\<close>

fun update_last :: "('a \<Rightarrow> 'a option) \<Rightarrow> 'a list \<Rightarrow> 'a list option" where
  "update_last f [] = None"
| "update_last f [x] = do { y \<leftarrow> f x; Some [y] }"
| "update_last f (x # y # xs) = do { zs \<leftarrow> update_last f (y # xs); Some (x # zs) }"

lemma update_last_snoc: "update_last f (xs @ [x]) = do { y \<leftarrow> f x; Some (xs @ [y]) }"
proof (induction xs)
  case (Cons a xs)
  then show ?case
    by (cases "xs @ [x]") (auto split: bind_splits)
qed simp

definition append_frame :: "uvc_frame_desc \<Rightarrow> uvc_format_desc \<Rightarrow> uvc_format_desc" where
  "append_frame fr fo = fo\<lparr>frame_descs := frame_descs fo @ [fr]\<rparr>"

definition with_last_format ::
  "uvc_streaming_interface \<Rightarrow> (uvc_format_desc \<Rightarrow> uvc_format_desc option) \<Rightarrow>
   (int \<times> uvc_streaming_interface) option" where
  "with_last_format si f = do {
     fs \<leftarrow> update_last f (format_descs si);
     Some (UVC_SUCCESS, si\<lparr>format_descs := fs\<rparr>) }"

text \<open>The array of \<open>n\<close> intervals behind \<open>p\<close>.\<close>

fun dwords :: "nat \<Rightarrow> bytes \<Rightarrow> u32 list" where
  "dwords 0 p = []"
| "dwords (Suc n) p = DW_TO_INT p # dwords n (drop 4 p)"

lemma length_dwords [simp]: "length (dwords n p) = n"
  by (induction n arbitrary: p) simp_all

text \<open>The fields both kinds of frames take from the same place.\<close>

definition frame_head :: "bytes \<Rightarrow> uvc_frame_desc" where
  "frame_head block = zero_frame\<lparr>fr_bDescriptorSubtype := block ! 2, bFrameIndex := block ! 3,
     bmCapabilities := block ! 4, wWidth := word_at 5 block, wHeight := word_at 7 block,
     dwMinBitRate := DW_TO_INT (drop 9 block), dwMaxBitRate := DW_TO_INT (drop 13 block)\<rparr>"

definition continuous_intervals :: "bytes \<Rightarrow> uvc_frame_desc \<Rightarrow> uvc_frame_desc" where
  "continuous_intervals block fr = fr\<lparr>dwMinFrameInterval := DW_TO_INT (drop 26 block),
     dwMaxFrameInterval := DW_TO_INT (drop 30 block), dwFrameIntervalStep := DW_TO_INT (drop 34 block)\<rparr>"

definition uvc_parse_vs_frame_frame ::
  "uvc_streaming_interface \<Rightarrow> bytes \<Rightarrow> nat \<Rightarrow> (int \<times> uvc_streaming_interface) option" where
  "uvc_parse_vs_frame_frame si block block_size = with_last_format si (\<lambda>format.
     need 26 block
       (let n = unat (block ! 21);
            frame = (frame_head block)\<lparr>dwDefaultFrameInterval := DW_TO_INT (drop 17 block),
              bFrameIntervalType := block ! 21, dwBytesPerLine := DW_TO_INT (drop 22 block)\<rparr> in
        if n = 0 then need 38 block (Some (append_frame (continuous_intervals block frame) format))
        else need (26 + 4 * n) block
          (Some (append_frame (frame\<lparr>intervals := Some (dwords n (drop 26 block) @ [0])\<rparr>) format))))"

text \<open>
  \<open>bBitsPerPixel * wWidth * wHeight / 8\<close> in \<open>int\<close>; a product beyond \<open>INT_MAX\<close> is undefined.
\<close>

definition frame_bytes :: "uvc_format_desc \<Rightarrow> uvc_frame_desc \<Rightarrow> u32 option" where
  "frame_bytes fo fr =
     (let bits = uint (bBitsPerPixel fo) * uint (wWidth fr) * uint (wHeight fr) in
      if bits < 2 ^ 31 then Some (word_of_int (bits div 8)) else None)"

definition set_frame_bytes :: "uvc_format_desc \<Rightarrow> uvc_frame_desc \<Rightarrow> uvc_frame_desc option" where
  "set_frame_bytes fo fr =
     (if fr_bDescriptorSubtype fr = 0x05
      then do { b \<leftarrow> frame_bytes fo fr; Some (fr\<lparr>dwMaxVideoFrameBufferSize := b\<rparr>) }
      else Some fr)"

definition discrete_intervals :: "nat \<Rightarrow> bytes \<Rightarrow> uvc_frame_desc \<Rightarrow> uvc_frame_desc" where
  "discrete_intervals n block fr =
     (let ints = map (\<lambda>interval. if interval \<noteq> 0 then interval else 1) (dwords n (drop 26 block)) in
      fr\<lparr>intervals := Some (ints @ [0]),
         dwDefaultFrameInterval := min (ints ! (n - 1)) (max (ints ! 0) (dwDefaultFrameInterval fr))\<rparr>)"

definition uvc_parse_vs_frame_uncompressed ::
  "uvc_streaming_interface \<Rightarrow> bytes \<Rightarrow> nat \<Rightarrow> (int \<times> uvc_streaming_interface) option" where
  "uvc_parse_vs_frame_uncompressed si block block_size = with_last_format si (\<lambda>format.
     need 26 block
       (let n = unat (block ! 25);
            frame = (frame_head block)\<lparr>dwMaxVideoFrameBufferSize := DW_TO_INT (drop 17 block),
              dwDefaultFrameInterval := DW_TO_INT (drop 21 block), bFrameIntervalType := block ! 25\<rparr> in
        need (if n = 0 then 38 else 26 + 4 * n) block (do {
          frame \<leftarrow> set_frame_bytes format
            (if n = 0 then continuous_intervals block frame else discrete_intervals n block frame);
          Some (append_frame frame format) })))"

section \<open>Dispatch\<close>

definition uvc_parse_vs ::
  "uvc_streaming_interface \<Rightarrow> bytes \<Rightarrow> nat \<Rightarrow> (int \<times> uvc_streaming_interface) option" where
  "uvc_parse_vs si block block_size =
     need 3 block
       (let descriptor_subtype = block ! 2 in
        if descriptor_subtype = 0x01 then uvc_parse_vs_input_header si block block_size
        else if descriptor_subtype = 0x04 then uvc_parse_vs_format_uncompressed si block block_size
        else if descriptor_subtype = 0x06 then uvc_parse_vs_format_mjpeg si block block_size
        else if descriptor_subtype = 0x05 \<or> descriptor_subtype = 0x07
          then uvc_parse_vs_frame_uncompressed si block block_size
        else if descriptor_subtype = 0x10 then uvc_parse_vs_frame_format si block block_size
        else if descriptor_subtype = 0x11 then uvc_parse_vs_frame_frame si block block_size
        else Some (UVC_SUCCESS, si))"

lemmas vs_parsers = uvc_parse_vs_input_header_def uvc_parse_vs_format_uncompressed_def
  uvc_parse_vs_format_mjpeg_def uvc_parse_vs_frame_uncompressed_def uvc_parse_vs_frame_format_def
  uvc_parse_vs_frame_frame_def

section \<open>What a parsed frame satisfies\<close>

text \<open>
  The interval array of a frame is null or holds \<open>bFrameIntervalType\<close> entries and the terminating
  zero; in an uncompressed or MJPEG frame no entry before the last is zero, so that a walk to the
  first zero sees all of them, and the default interval is one the array spans.
\<close>

definition frame_ok :: "uvc_frame_desc \<Rightarrow> bool" where
  "frame_ok fr = (case intervals fr of
     None \<Rightarrow> bFrameIntervalType fr = 0
   | Some xs \<Rightarrow> bFrameIntervalType fr \<noteq> 0 \<and> length xs = Suc (unat (bFrameIntervalType fr)) \<and>
       xs ! unat (bFrameIntervalType fr) = 0 \<and>
       (fr_bDescriptorSubtype fr \<noteq> 0x11 \<longrightarrow>
          0 \<notin> set (butlast xs) \<and>
          dwDefaultFrameInterval fr \<le> xs ! (unat (bFrameIntervalType fr) - 1)))"

definition streaming_ok :: "uvc_streaming_interface \<Rightarrow> bool" where
  "streaming_ok si \<longleftrightarrow> (\<forall>fo \<in> set (format_descs si). length (guidFormat fo) = 16 \<and>
     (\<forall>fr \<in> set (frame_descs fo). frame_ok fr))"

lemma streaming_ok_append_format:
  "streaming_ok si \<Longrightarrow> length (guidFormat fo) = 16 \<Longrightarrow> frame_descs fo = [] \<Longrightarrow>
   streaming_ok (append_format fo si)"
  by (auto simp: streaming_ok_def append_format_def)

lemma with_last_format_ok:
  assumes "streaming_ok si" and "with_last_format si f = Some (ret, si')"
    and "\<And>fo fo'. f fo = Some fo' \<Longrightarrow> \<exists>fr. fo' = append_frame fr fo \<and> frame_ok fr"
  shows "streaming_ok si' \<and> ret = UVC_SUCCESS"
proof (cases "format_descs si" rule: rev_cases)
  case Nil
  with assms(2) show ?thesis
    by (simp add: with_last_format_def)
next
  case (snoc fs fo)
  with assms(2) obtain fo' where "f fo = Some fo'" and si': "si' = si\<lparr>format_descs := fs @ [fo']\<rparr>"
    and "ret = UVC_SUCCESS"
    by (auto simp: with_last_format_def update_last_snoc split: bind_splits)
  with assms(3) obtain fr where "fo' = append_frame fr fo" "frame_ok fr"
    by blast
  with assms(1) snoc si' \<open>ret = UVC_SUCCESS\<close> show ?thesis
    by (auto simp: streaming_ok_def append_frame_def)
qed

end
