(* ===== verification/Uvc_Scan.thy ===== *)
theory Uvc_Scan
  imports Uvc_Desc
begin

text \<open>
  The loops over descriptor blocks (\<open>device.c\<close>: \<open>uvc_scan_streaming\<close>, \<open>uvc_parse_vc_header\<close>,
  \<open>uvc_parse_vc\<close>, \<open>uvc_scan_control\<close>). Both loops advance by the length byte of the block without
  looking at it: a length of 0 makes no progress, and one beyond the bytes left wraps the counter
  and leaves the buffer. Every pass of a loop that ends moves at least one byte, so a scan of \<open>n\<close>
  bytes is given \<open>n + 1\<close> passes; a loop that needs more never ends, which is \<open>None\<close>. On what
  \<open>libusb\<close> hands on, neither happens (\<open>Libusb_Scan\<close>).
\<close>

section \<open>The loop over blocks\<close>

fun scan_blocks ::
  "nat \<Rightarrow> ('s \<Rightarrow> bytes \<Rightarrow> nat \<Rightarrow> (int \<times> 's) option) \<Rightarrow> bytes \<Rightarrow> 's \<Rightarrow> (int \<times> 's) option" where
  "scan_blocks 0 parse buffer s = None"
| "scan_blocks (Suc k) parse buffer s =
     (if length buffer < 3 then Some (UVC_SUCCESS, s)
      else (let block_size = unat (hd buffer) in do {
        (ret, s) \<leftarrow> parse s buffer block_size;
        if ret \<noteq> UVC_SUCCESS then Some (ret, s)
        else need block_size buffer (scan_blocks k parse (drop block_size buffer) s) }))"

text \<open>The blocks a buffer is cut into, when every length is positive and stays inside the buffer.\<close>

fun blocks_of :: "nat \<Rightarrow> bytes \<Rightarrow> bytes list option" where
  "blocks_of 0 buffer = None"
| "blocks_of (Suc k) buffer =
     (if length buffer < 3 then Some []
      else (let n = unat (hd buffer) in
        if n = 0 \<or> length buffer < n then None
        else do { bs \<leftarrow> blocks_of k (drop n buffer); Some (take n buffer # bs) }))"

text \<open>
  \<open>block_parser parse inv fits\<close>: on a state with the invariant a block that \<open>fits\<close> is parsed without fault, and the
  invariant holds afterwards. \<open>fits\<close> may depend on the state, as a frame needs a format before it.
\<close>

locale block_parser =
  fixes parse :: "'s \<Rightarrow> bytes \<Rightarrow> nat \<Rightarrow> (int \<times> 's) option"
    and inv :: "'s \<Rightarrow> bool"
  assumes parse_inv: "inv s \<Longrightarrow> parse s block n = Some (ret, s') \<Longrightarrow> inv s'"
begin

lemma scan_inv: "inv s \<Longrightarrow> scan_blocks k parse buffer s = Some (ret, s') \<Longrightarrow> inv s'"
proof (induction k arbitrary: buffer s)
  case (Suc k)
  then show ?case
    by (auto simp: Let_def ub_simps split: if_splits bind_splits) (blast intro: parse_inv)+
qed simp

text \<open>A block of length 0 that parses leaves the loop where it was, so no number of passes ends it.\<close>

lemma scan_zero_block:
  assumes "3 \<le> length buffer" and "hd buffer = 0" and "inv s"
    and "\<And>s. inv s \<Longrightarrow> \<exists>s'. parse s buffer 0 = Some (UVC_SUCCESS, s')"
  shows "scan_blocks k parse buffer s = None"
  using assms(3)
proof (induction k arbitrary: s)
  case (Suc k)
  obtain s' where "parse s buffer 0 = Some (UVC_SUCCESS, s')"
    using assms(4) [OF Suc.prems] by blast
  moreover from this have "inv s'"
    using parse_inv Suc.prems by blast
  ultimately show ?case
    using assms(1,2) Suc.IH by (simp add: Let_def)
qed simp

end

text \<open>A fold of the parser over the blocks, with the same early exit.\<close>

fun parse_all :: "('s \<Rightarrow> bytes \<Rightarrow> nat \<Rightarrow> (int \<times> 's) option) \<Rightarrow> bytes list \<Rightarrow> 's \<Rightarrow> (int \<times> 's) option" where
  "parse_all parse [] s = Some (UVC_SUCCESS, s)"
| "parse_all parse (b # bs) s = do {
     (ret, s) \<leftarrow> parse s b (length b);
     if ret \<noteq> UVC_SUCCESS then Some (ret, s) else parse_all parse bs s }"

text \<open>A parser that looks at its block only.\<close>

locale local_parser =
  fixes parse :: "'s \<Rightarrow> bytes \<Rightarrow> nat \<Rightarrow> (int \<times> 's) option"
  assumes parse_prefix:
    "parse s block (length block) = Some r \<Longrightarrow> parse s (block @ rest) (length block) = Some r"
begin

lemma scan_parse_all:
  assumes "blocks_of k buffer = Some bs" and "parse_all parse bs s = Some r"
  shows "scan_blocks k parse buffer s = Some r"
  using assms
proof (induction k arbitrary: buffer bs s)
  case (Suc k)
  show ?case
  proof (cases "length buffer < 3")
    case False
    let ?n = "unat (hd buffer)"
    from False Suc.prems(1) obtain bs' where n: "?n \<noteq> 0" "?n \<le> length buffer"
      and bs': "blocks_of k (drop ?n buffer) = Some bs'" and bs: "bs = take ?n buffer # bs'"
      by (auto simp: Let_def split: if_splits bind_splits)
    from n have len: "length (take ?n buffer) = ?n"
      by simp
    from Suc.prems(2) bs obtain ret s' where p: "parse s (take ?n buffer) ?n = Some (ret, s')"
      and rest: "if ret \<noteq> UVC_SUCCESS then r = (ret, s') else parse_all parse bs' s' = Some r"
      by (auto simp: len min.absorb2 n(2) split: bind_splits if_splits)
    from p have "parse s (take ?n buffer @ drop ?n buffer) ?n = Some (ret, s')"
      using parse_prefix [of s "take ?n buffer" "(ret, s')" "drop ?n buffer"] by (simp only: len)
    then have "parse s buffer ?n = Some (ret, s')"
      by simp
    with False n rest bs' show ?thesis
      by (auto simp: Let_def Suc.IH)
  qed (use Suc.prems in simp)
qed simp

end

section \<open>The block parsers are local\<close>

lemma nth_append_left: "i < length xs \<Longrightarrow> (xs @ ys) ! i = xs ! i"
  by (simp add: nth_append)

lemma DW_prefix: "4 \<le> length p \<Longrightarrow> DW_TO_INT (p @ r) = DW_TO_INT p"
  by (auto simp: DW_TO_INT_def nth_append)

lemma SW_prefix: "2 \<le> length p \<Longrightarrow> SW_TO_SHORT (p @ r) = SW_TO_SHORT p"
  by (auto simp: SW_TO_SHORT_def nth_append)

lemma word_at_prefix: "Suc i < length p \<Longrightarrow> word_at i (p @ r) = word_at i p"
  by (simp add: word_at_def nth_append_left)

lemma dwords_prefix: "4 * n \<le> length p \<Longrightarrow> dwords n (p @ r) = dwords n p"
  by (induction n arbitrary: p) (simp_all add: DW_prefix)

lemmas prefix_simps = DW_prefix SW_prefix word_at_prefix dwords_prefix nth_append_left

lemma frame_head_prefix: "17 \<le> length p \<Longrightarrow> frame_head (p @ r) = frame_head p"
  by (simp add: frame_head_def prefix_simps)

lemma continuous_prefix: "38 \<le> length p \<Longrightarrow> continuous_intervals (p @ r) fr = continuous_intervals p fr"
  by (simp add: continuous_intervals_def prefix_simps)

lemma discrete_prefix:
  "26 + 4 * n \<le> length p \<Longrightarrow> discrete_intervals n (p @ r) fr = discrete_intervals n p fr"
  by (simp add: discrete_intervals_def prefix_simps)

lemma with_last_format_mono:
  assumes "with_last_format si f = Some x" and "\<And>fo fo'. f fo = Some fo' \<Longrightarrow> g fo = Some fo'"
  shows "with_last_format si g = Some x"
proof (cases "format_descs si" rule: rev_cases)
  case Nil
  with assms(1) show ?thesis
    by (simp add: with_last_format_def)
next
  case (snoc fs fo)
  with assms show ?thesis
    by (auto simp: with_last_format_def update_last_snoc split: bind_splits)
qed

lemma bma_entries_prefix:
  assumes "13 + p * n \<le> length block"
  shows "bma_entries p n (block @ rest) = bma_entries p n block"
proof -
  have *: "take n (drop (13 + pp * n) (block @ rest)) = take n (drop (13 + pp * n) block)" if "pp < p" for pp
  proof -
    have "Suc pp * n \<le> p * n"
      using that by (intro mult_right_mono) simp_all
    with assms show ?thesis
      by simp
  qed
  show ?thesis
    unfolding bma_entries_def by (rule map_cong [OF refl]) (metis * atLeastLessThan_iff set_upt)
qed

lemma input_header_prefix:
  "uvc_parse_vs_input_header si block n = Some x \<Longrightarrow> uvc_parse_vs_input_header si (block @ rest) n = Some x"
  unfolding uvc_parse_vs_input_header_def
  by (auto simp: ub_simps Let_def nth_append_left bma_entries_prefix split: if_splits)

lemma formats_prefix:
  "uvc_parse_vs_format_uncompressed si block n = Some x \<Longrightarrow> uvc_parse_vs_format_uncompressed si (block @ rest) n = Some x"
  "uvc_parse_vs_format_mjpeg si block n = Some x \<Longrightarrow> uvc_parse_vs_format_mjpeg si (block @ rest) n = Some x"
  "uvc_parse_vs_frame_format si block n = Some x \<Longrightarrow> uvc_parse_vs_frame_format si (block @ rest) n = Some x"
  by (auto simp: uvc_parse_vs_format_uncompressed_def uvc_parse_vs_format_mjpeg_def
      uvc_parse_vs_frame_format_def ub_simps nth_append_left)

lemma frames_prefix:
  "uvc_parse_vs_frame_frame si block n = Some x \<Longrightarrow> uvc_parse_vs_frame_frame si (block @ rest) n = Some x"
  "uvc_parse_vs_frame_uncompressed si block n = Some x \<Longrightarrow> uvc_parse_vs_frame_uncompressed si (block @ rest) n = Some x"
  unfolding uvc_parse_vs_frame_frame_def uvc_parse_vs_frame_uncompressed_def
  by (erule with_last_format_mono; auto simp: ub_simps Let_def prefix_simps frame_head_prefix
      continuous_prefix discrete_prefix split: if_splits)+

lemma uvc_parse_vs_prefix: "uvc_parse_vs si block n = Some x \<Longrightarrow> uvc_parse_vs si (block @ rest) n = Some x"
  unfolding uvc_parse_vs_def
  by (auto simp: ub_simps Let_def nth_append_left input_header_prefix formats_prefix frames_prefix split: if_splits)

interpretation vs_local: local_parser uvc_parse_vs
  by unfold_locales (rule uvc_parse_vs_prefix)

section \<open>Streaming interfaces\<close>

definition zero_streaming :: uvc_streaming_interface where
  "zero_streaming = \<lparr>si_bInterfaceNumber = 0, format_descs = [], si_bEndpointAddress = 0,
     bTerminalLink = 0, bmInfo = 0, bStillCaptureMethod = 0, bTriggerSupport = 0, bTriggerUsage = 0,
     bmaControls = None\<rparr>"

text \<open>Some devices put the descriptors after the first endpoint.\<close>

definition streaming_extra :: "libusb_interface_descriptor \<Rightarrow> bytes" where
  "streaming_extra if_desc =
     (if if_extra if_desc = [] then
        (case if_endpoint if_desc of [] \<Rightarrow> [] | ep # _ \<Rightarrow> ep_extra ep)
      else if_extra if_desc)"

text \<open>
  The interface index is the one the control header claims; an index past the configuration is read
  out of bounds. The new interface is appended to \<open>stream_ifs\<close> before it is filled in.
\<close>

definition uvc_scan_streaming :: "uvc_device_info \<Rightarrow> nat \<Rightarrow> (int \<times> uvc_device_info) option" where
  "uvc_scan_streaming info interface_idx =
     need (Suc interface_idx) (config info)
      (case config info ! interface_idx of [] \<Rightarrow> None
       | if_desc # _ \<Rightarrow> (let buffer = streaming_extra if_desc in do {
           (ret, stream_if) \<leftarrow> scan_blocks (Suc (length buffer)) uvc_parse_vs buffer
             (zero_streaming\<lparr>si_bInterfaceNumber := if_bInterfaceNumber if_desc\<rparr>);
           Some (ret, info\<lparr>stream_ifs := stream_ifs info @ [stream_if]\<rparr>) }))"

section \<open>The control interface\<close>

fun scan_listed :: "bytes \<Rightarrow> nat list \<Rightarrow> uvc_device_info \<Rightarrow> (int \<times> uvc_device_info) option" where
  "scan_listed block [] info = Some (UVC_SUCCESS, info)"
| "scan_listed block (i # is) info = need (Suc i) block (do {
     (scan_ret, info) \<leftarrow> uvc_scan_streaming info (unat (block ! i));
     if scan_ret \<noteq> UVC_SUCCESS then Some (scan_ret, info) else scan_listed block is info })"

definition uvc_parse_vc_header ::
  "uvc_device_info \<Rightarrow> bytes \<Rightarrow> nat \<Rightarrow> (int \<times> uvc_device_info) option" where
  "uvc_parse_vc_header info block block_size =
     need 5 block
      (let info = info\<lparr>ctrl_if := (ctrl_if info)\<lparr>bcdUVC := get_sw (drop 3 block)\<rparr>\<rparr> in
       if bcdUVC (ctrl_if info) \<in> {0x0100, 0x010a, 0x0110, 0x0150}
       then scan_listed block [12..<block_size] info
       else Some (UVC_ERROR_NOT_SUPPORTED, info))"

definition on_ctrl_if ::
  "(uvc_control_interface \<Rightarrow> bytes \<Rightarrow> nat \<Rightarrow> (int \<times> uvc_control_interface) option) \<Rightarrow>
   uvc_device_info \<Rightarrow> bytes \<Rightarrow> nat \<Rightarrow> (int \<times> uvc_device_info) option" where
  "on_ctrl_if f info block block_size = do {
     (ret, ci) \<leftarrow> f (ctrl_if info) block block_size;
     Some (ret, info\<lparr>ctrl_if := ci\<rparr>) }"

text \<open>Output terminals and selector units are accepted and skipped.\<close>

definition uvc_parse_vc ::
  "uvc_device_info \<Rightarrow> bytes \<Rightarrow> nat \<Rightarrow> (int \<times> uvc_device_info) option" where
  "uvc_parse_vc info block block_size =
     need 2 block
      (if block ! 1 \<noteq> 36 then Some (UVC_SUCCESS, info)
       else need 3 block
        (let descriptor_subtype = block ! 2 in
         if descriptor_subtype = 0x01 then uvc_parse_vc_header info block block_size
         else if descriptor_subtype = 0x02 then on_ctrl_if uvc_parse_vc_input_terminal info block block_size
         else if descriptor_subtype = 0x03 then Some (UVC_SUCCESS, info)
         else if descriptor_subtype = 0x04 then Some (UVC_SUCCESS, info)
         else if descriptor_subtype = 0x05 then on_ctrl_if uvc_parse_vc_processing_unit info block block_size
         else if descriptor_subtype = 0x06 then on_ctrl_if uvc_parse_vc_extension_unit info block block_size
         else Some (UVC_ERROR_INVALID_DEVICE, info)))"

text \<open>
  The search for the control interface: the first whose first alternate setting is a video control
  interface, or a vendor-specific one with subclass 1 of the TIS camera 199e:8101.
\<close>

fun find_control ::
  "u16 \<Rightarrow> u16 \<Rightarrow> nat \<Rightarrow> libusb_config_descriptor \<Rightarrow> (nat \<times> libusb_interface_descriptor) option option" where
  "find_control idVendor idProduct i [] = Some None"
| "find_control idVendor idProduct i (intf # intfs) = (case intf of [] \<Rightarrow> None
   | if_desc # _ \<Rightarrow>
       if if_bInterfaceClass if_desc = 14 \<and> if_bInterfaceSubClass if_desc = 1 \<or>
          if_bInterfaceClass if_desc = 255 \<and> if_bInterfaceSubClass if_desc = 1 \<and>
          idVendor = 0x199e \<and> idProduct = 0x8101
       then Some (Some (i, if_desc))
       else find_control idVendor idProduct (Suc i) intfs)"

definition uvc_scan_control ::
  "u16 \<Rightarrow> u16 \<Rightarrow> uvc_device_info \<Rightarrow> (int \<times> uvc_device_info) option" where
  "uvc_scan_control idVendor idProduct info = do {
     found \<leftarrow> find_control idVendor idProduct 0 (config info);
     case found of None \<Rightarrow> Some (UVC_ERROR_INVALID_DEVICE, info)
     | Some (interface_idx, if_desc) \<Rightarrow>
        (let ci = (ctrl_if info)\<lparr>ci_bInterfaceNumber := word_of_int (int interface_idx)\<rparr>;
             ci = (case if_endpoint if_desc of [] \<Rightarrow> ci
                   | ep # _ \<Rightarrow> ci\<lparr>ci_bEndpointAddress := ep_bEndpointAddress ep\<rparr>)
         in scan_blocks (Suc (length (if_extra if_desc))) uvc_parse_vc (if_extra if_desc)
              (info\<lparr>ctrl_if := ci\<rparr>)) }"

text \<open>\<open>uvc_get_device_info\<close> fills a structure of zeros.\<close>

definition zero_info :: "libusb_config_descriptor \<Rightarrow> uvc_device_info" where
  "zero_info c = \<lparr>config = c,
     ctrl_if = \<lparr>input_term_descs = [], output_term_descs = [], processing_unit_descs = [],
       extension_unit_descs = [], bcdUVC = 0, ci_bEndpointAddress = 0, ci_bInterfaceNumber = 0\<rparr>,
     stream_ifs = []\<rparr>"

section \<open>Invariants of the scan\<close>

text \<open>
  Every terminal and unit is addressed at the control interface; every streaming interface has
  well-formed formats and frames.
\<close>

definition control_ok :: "uvc_control_interface \<Rightarrow> bool" where
  "control_ok ci \<longleftrightarrow>
     (\<forall>t \<in> set (input_term_descs ci). it_wTerminalType t = 0x0201 \<and>
        it_request t = unit_request (it_bTerminalID t) (ci_bInterfaceNumber ci)) \<and>
     (\<forall>u \<in> set (processing_unit_descs ci). pu_request u = unit_request (pu_bUnitID u) (ci_bInterfaceNumber ci)) \<and>
     (\<forall>u \<in> set (extension_unit_descs ci). length (guidExtensionCode u) = 16 \<and>
        xu_request u = unit_request (xu_bUnitID u) (ci_bInterfaceNumber ci)) \<and>
     output_term_descs ci = []"

definition info_ok :: "uvc_device_info \<Rightarrow> bool" where
  "info_ok info \<longleftrightarrow> control_ok (ctrl_if info) \<and> (\<forall>si \<in> set (stream_ifs info). streaming_ok si)"

lemma zero_in_butlast_map: "0 \<notin> set (map (\<lambda>x :: u32. if x \<noteq> 0 then x else 1) xs)"
  by auto

lemma frame_frame_ok:
  assumes "streaming_ok si" and "block ! 2 = 0x11"
    and "uvc_parse_vs_frame_frame si block n = Some (ret, si')"
  shows "streaming_ok si'"
proof -
  have "\<exists>fr. fo' = append_frame fr fo \<and> frame_ok fr"
    if "need 26 block (let n = unat (block ! 21);
            frame = (frame_head block)\<lparr>dwDefaultFrameInterval := DW_TO_INT (drop 17 block),
              bFrameIntervalType := block ! 21, dwBytesPerLine := DW_TO_INT (drop 22 block)\<rparr> in
        if n = 0 then need 38 block (Some (append_frame (continuous_intervals block frame) fo))
        else need (26 + 4 * n) block
          (Some (append_frame (frame\<lparr>intervals := Some (dwords n (drop 26 block) @ [0])\<rparr>) fo))) = Some fo'"
    for fo fo'
  proof (cases "block ! 21 = 0")
    case True
    with that assms(2) show ?thesis
      by (auto simp: ub_simps Let_def frame_ok_def frame_head_def continuous_intervals_def zero_frame_def)
  next
    case False
    then have "unat (block ! 21) \<noteq> 0"
      by (simp add: unat_eq_0)
    with that assms(2) False show ?thesis
      by (auto simp: ub_simps Let_def frame_ok_def frame_head_def nth_append)
  qed
  from with_last_format_ok [OF assms(1) assms(3) [unfolded uvc_parse_vs_frame_frame_def] this]
  show ?thesis by blast
qed

lemma set_frame_bytes_ok: "frame_ok fr \<Longrightarrow> set_frame_bytes fo fr = Some fr' \<Longrightarrow> frame_ok fr'"
  by (auto simp: set_frame_bytes_def frame_ok_def split: if_splits bind_splits option.splits)

lemma discrete_ok:
  assumes "n = unat (bFrameIntervalType fr)" and "n \<noteq> 0"
  shows "frame_ok (discrete_intervals n block fr)"
  using assms
  by (auto simp: frame_ok_def discrete_intervals_def Let_def nth_append unat_eq_0 unat_gt_0)

lemma continuous_ok: "bFrameIntervalType fr = 0 \<Longrightarrow> intervals fr = None \<Longrightarrow> frame_ok (continuous_intervals block fr)"
  by (simp add: frame_ok_def continuous_intervals_def)

lemma frame_uncompressed_ok:
  assumes "streaming_ok si" and "uvc_parse_vs_frame_uncompressed si block n = Some (ret, si')"
  shows "streaming_ok si'"
proof -
  let ?frame = "(frame_head block)\<lparr>dwMaxVideoFrameBufferSize := DW_TO_INT (drop 17 block),
      dwDefaultFrameInterval := DW_TO_INT (drop 21 block), bFrameIntervalType := block ! 25\<rparr>"
  have ok: "frame_ok (if unat (block ! 25) = 0 then continuous_intervals block ?frame
      else discrete_intervals (unat (block ! 25)) block ?frame)"
    by (auto simp: unat_eq_0 unat_gt_0 frame_head_def zero_frame_def intro!: discrete_ok continuous_ok)
  have "\<exists>fr. fo' = append_frame fr fo \<and> frame_ok fr"
    if "need 26 block (let n = unat (block ! 25); frame = ?frame in
        need (if n = 0 then 38 else 26 + 4 * n) block (do {
          frame \<leftarrow> set_frame_bytes fo
            (if n = 0 then continuous_intervals block frame else discrete_intervals n block frame);
          Some (append_frame frame fo) })) = Some fo'" for fo fo'
  proof -
    from that obtain fr where "set_frame_bytes fo (if unat (block ! 25) = 0 then continuous_intervals block ?frame
        else discrete_intervals (unat (block ! 25)) block ?frame) = Some fr" and "fo' = append_frame fr fo"
      unfolding Let_def need_Some by (auto split: bind_splits)
    with set_frame_bytes_ok [OF ok] show ?thesis
      by blast
  qed
  from with_last_format_ok [OF assms(1) assms(2) [unfolded uvc_parse_vs_frame_uncompressed_def] this]
  show ?thesis by blast
qed

lemma uvc_parse_vs_ok:
  assumes "streaming_ok si" and "uvc_parse_vs si block n = Some (ret, si')"
  shows "streaming_ok si'"
proof -
  have header: "streaming_ok x" if "uvc_parse_vs_input_header si block n = Some (ret, x)" for x
    using that assms(1)
    by (auto simp: uvc_parse_vs_input_header_def streaming_ok_def ub_simps Let_def split: if_splits)
  have formats: "uvc_parse_vs_format_uncompressed si block n = Some (ret, x) \<Longrightarrow> streaming_ok x"
    "uvc_parse_vs_format_mjpeg si block n = Some (ret, x) \<Longrightarrow> streaming_ok x"
    "uvc_parse_vs_frame_format si block n = Some (ret, x) \<Longrightarrow> streaming_ok x" for x
    by (auto simp: uvc_parse_vs_format_uncompressed_def uvc_parse_vs_format_mjpeg_def MJPG_def
        uvc_parse_vs_frame_format_def ub_simps zero_format_def intro!: streaming_ok_append_format [OF assms(1)])
  from assms show ?thesis
    unfolding uvc_parse_vs_def Let_def need_Some
    by (auto split: if_splits
        dest: header formats frame_uncompressed_ok [OF assms(1)] frame_frame_ok [OF assms(1)])
qed

interpretation vs_blocks: block_parser uvc_parse_vs streaming_ok
  by unfold_locales (rule uvc_parse_vs_ok)

lemma scan_streaming_ok:
  assumes "info_ok info" and "uvc_scan_streaming info i = Some (ret, info')"
  shows "info_ok info' \<and> ctrl_if info' = ctrl_if info \<and> config info' = config info"
proof -
  have "streaming_ok (zero_streaming\<lparr>si_bInterfaceNumber := k\<rparr>)" for k
    by (simp add: streaming_ok_def zero_streaming_def)
  note inv = vs_blocks.scan_inv [OF this]
  show ?thesis
    using assms
    by (auto simp: uvc_scan_streaming_def info_ok_def ub_simps Let_def simp del: scan_blocks.simps
        split: list.splits bind_splits dest: inv)
qed

lemma scan_listed_ok:
  "info_ok info \<Longrightarrow> scan_listed block is info = Some (ret, info') \<Longrightarrow>
   info_ok info' \<and> ctrl_if info' = ctrl_if info \<and> config info' = config info"
proof (induction "is" arbitrary: info)
  case (Cons i "is")
  from Cons.prems(2) obtain r info1 where step: "uvc_scan_streaming info (unat (block ! i)) = Some (r, info1)"
    and rest: "if r \<noteq> UVC_SUCCESS then ret = r \<and> info' = info1 else scan_listed block is info1 = Some (ret, info')"
    by (auto simp: ub_simps split: bind_splits if_splits)
  note ok = scan_streaming_ok [OF Cons.prems(1) step]
  show ?case
  proof (cases "r = UVC_SUCCESS")
    case True
    with rest ok Cons.IH [of info1] show ?thesis by simp
  qed (use rest ok in simp)
qed simp

lemma on_ctrl_if_ok:
  assumes "info_ok info" and "on_ctrl_if f info block n = Some (ret, info')"
    and "\<And>ci'. f (ctrl_if info) block n = Some (ret, ci') \<Longrightarrow>
      control_ok ci' \<and> ci_bInterfaceNumber ci' = ci_bInterfaceNumber (ctrl_if info)"
  shows "info_ok info'"
  using assms by (auto simp: on_ctrl_if_def info_ok_def split: bind_splits)

lemma vc_units_ok:
  assumes "control_ok ci"
  shows "uvc_parse_vc_input_terminal ci block n = Some (ret, ci') \<Longrightarrow> control_ok ci'"
    and "uvc_parse_vc_processing_unit ci block n = Some (ret, ci') \<Longrightarrow> control_ok ci'"
    and "uvc_parse_vc_extension_unit ci block n = Some (ret, ci') \<Longrightarrow> control_ok ci'"
  using assms
  by (auto simp: uvc_parse_vc_input_terminal_def uvc_parse_vc_processing_unit_def
      uvc_parse_vc_extension_unit_def control_ok_def ub_simps Let_def split: if_splits)

lemma on_ctrl_if_info_ok:
  assumes "info_ok info" and "on_ctrl_if f info block n = Some (ret, info')"
    and "\<And>ci ci'. control_ok ci \<Longrightarrow> f ci block n = Some (ret, ci') \<Longrightarrow> control_ok ci'"
  shows "info_ok info'"
  using assms by (auto simp: on_ctrl_if_def info_ok_def split: bind_splits)

lemma vc_header_ok:
  assumes "info_ok info" and "uvc_parse_vc_header info block n = Some (ret, info')"
  shows "info_ok info'"
proof -
  have "info_ok (info\<lparr>ctrl_if := (ctrl_if info)\<lparr>bcdUVC := v\<rparr>\<rparr>)" for v
    using assms(1) by (simp add: info_ok_def control_ok_def)
  then show ?thesis
    using assms(2)
    by (auto simp: uvc_parse_vc_header_def ub_simps Let_def split: if_splits dest: scan_listed_ok [rotated])
qed

lemma uvc_parse_vc_ok:
  assumes "info_ok info" and "uvc_parse_vc info block n = Some (ret, info')"
  shows "info_ok info'"
  using assms unfolding uvc_parse_vc_def Let_def
  by (auto simp: need_Some split: if_splits
      dest: vc_header_ok on_ctrl_if_info_ok [OF assms(1) _ vc_units_ok(1)]
        on_ctrl_if_info_ok [OF assms(1) _ vc_units_ok(2)] on_ctrl_if_info_ok [OF assms(1) _ vc_units_ok(3)])

interpretation vc_blocks: block_parser uvc_parse_vc info_ok
  by unfold_locales (rule uvc_parse_vc_ok)

text \<open>C31. Whatever the descriptors of a device say, when the scan returns, every terminal and unit it recorded is
  addressed by its own id at the control interface, every format has its 16-byte identifier, and every
  frame has an interval array of the length it claims, ended by zero and, for uncompressed and MJPEG
  frames, by the first zero; no output terminal is recorded.\<close>

theorem scan_control_info_ok:
  assumes "uvc_scan_control idVendor idProduct (zero_info c) = Some (ret, info)"
  shows "info_ok info"
proof -
  let ?ci = "ctrl_if (zero_info c)"
  have ok: "info_ok ((zero_info c)\<lparr>ctrl_if := ?ci\<lparr>ci_bInterfaceNumber := a\<rparr>\<rparr>)"
    "info_ok ((zero_info c)\<lparr>ctrl_if := ?ci\<lparr>ci_bInterfaceNumber := a, ci_bEndpointAddress := b\<rparr>\<rparr>)"
    "info_ok (zero_info c)" for a b
    by (simp_all add: info_ok_def control_ok_def zero_info_def)
  show ?thesis
    using assms
    by (auto simp: uvc_scan_control_def Let_def ok simp del: scan_blocks.simps
        split: bind_splits option.splits prod.splits list.splits
        dest: vc_blocks.scan_inv [OF ok(1)] vc_blocks.scan_inv [OF ok(2)])
qed

text \<open>
  A webcam: a control interface with a camera terminal and a processing unit, and one streaming
  interface with an MJPEG format of one frame, 640x480 at 30 and 15 frames a second.
\<close>

definition webcam_control :: bytes where
  "webcam_control = [13, 36, 1, 0, 1, 0, 0, 0, 0, 0, 0, 1, 1] @
     [18, 36, 2, 1, 1, 2, 0, 0, 0, 0, 0, 0, 0, 0, 3, 0x0E, 0, 0] @
     [11, 36, 5, 2, 1, 0, 0, 2, 0x7F, 5, 0]"

definition webcam_streaming :: bytes where
  "webcam_streaming = [14, 36, 1, 1, 55, 0, 0x81, 0, 3, 0, 0, 0, 1, 0] @
     [11, 36, 6, 1, 1, 1, 1, 0, 0, 0, 0] @
     [34, 36, 7, 1, 0, 0x80, 2, 0xE0, 1, 0, 0, 0, 0, 0, 0, 0, 1, 0, 0x60, 9, 0, 0x15, 0x16, 5, 0, 2,
      0x15, 0x16, 5, 0, 0x2A, 0x2C, 0x0A, 0]"

definition webcam :: libusb_config_descriptor where
  "webcam =
     [[\<lparr>if_bInterfaceNumber = 0, if_bAlternateSetting = 0, if_bInterfaceClass = 14,
        if_bInterfaceSubClass = 1, if_endpoint = [], if_extra = webcam_control\<rparr>],
      [\<lparr>if_bInterfaceNumber = 1, if_bAlternateSetting = 0, if_bInterfaceClass = 14,
        if_bInterfaceSubClass = 2, if_endpoint = [], if_extra = webcam_streaming\<rparr>]]"

lemma webcam_scan:
  "map_option fst (uvc_scan_control 0 0 (zero_info webcam)) = Some UVC_SUCCESS"
  "map_option (\<lambda>(_, info). map it_request (input_term_descs (ctrl_if info)))
     (uvc_scan_control 0 0 (zero_info webcam)) = Some [0x100]"
  "map_option (\<lambda>(_, info). map (\<lambda>si. map (\<lambda>fo. map intervals (frame_descs fo)) (format_descs si)) (stream_ifs info))
     (uvc_scan_control 0 0 (zero_info webcam)) = Some [[[Some [333333, 666666, 0]]]]"
  by code_simp+

theorem scan_control_info_ok_witness:
  "\<exists>info. uvc_scan_control 0 0 (zero_info webcam) = Some (UVC_SUCCESS, info) \<and> info_ok info \<and>
     map it_request (input_term_descs (ctrl_if info)) = [0x100] \<and>
     map (\<lambda>si. map (\<lambda>fo. map intervals (frame_descs fo)) (format_descs si)) (stream_ifs info) =
       [[[Some [333333, 666666, 0]]]]"
proof -
  obtain info where scan: "uvc_scan_control 0 0 (zero_info webcam) = Some (UVC_SUCCESS, info)"
    using webcam_scan(1) by (cases "uvc_scan_control 0 0 (zero_info webcam)") auto
  then show ?thesis
    using webcam_scan(2,3) scan_control_info_ok [OF scan] by simp
qed

text \<open>The loop alone does not guard against a block of length 0: one whose subtype the parser does not know is accepted, and the scan stays
  on it. The end of the scan rests on \<open>libusb\<close>, which refuses a descriptor with such a block.\<close>

lemma zero_length_block_stays:
  assumes "i < length (config info)" and "config info ! i = if_desc # alts"
    and "if_extra if_desc = 0 # t # subtype # rest"
    and "subtype \<notin> {0x01, 0x04, 0x05, 0x06, 0x07, 0x10, 0x11}"
  shows "uvc_parse_vs si (if_extra if_desc) 0 = Some (UVC_SUCCESS, si) \<and>
    (\<forall>passes. scan_blocks passes uvc_parse_vs (if_extra if_desc) si = None) \<and>
    uvc_scan_streaming info i = None"
proof -
  have parse: "uvc_parse_vs si (if_extra if_desc) 0 = Some (UVC_SUCCESS, si)" for si
    using assms(4) by (simp add: uvc_parse_vs_def assms(3))
  have scan: "scan_blocks k uvc_parse_vs (if_extra if_desc) si = None" for k si
  proof (induction k)
    case (Suc k)
    then show ?case
      using parse by (simp add: assms(3))
  qed simp
  then show ?thesis
    using parse scan assms by (simp add: uvc_scan_streaming_def streaming_extra_def del: scan_blocks.simps)
qed

text \<open>The control header names its streaming interfaces by number and the scan uses each number as an index into the configuration
  without looking at its length: a number past the last interface is read out of bounds.\<close>

theorem header_interface_out_of_bounds:
  assumes "length (config info) \<le> unat (block ! 12)" and "12 < n" and "13 \<le> length block"
  shows "(case uvc_parse_vc_header info block n of None \<Rightarrow> True
    | Some (ret, _) \<Rightarrow> ret = UVC_ERROR_NOT_SUPPORTED \<and> get_sw (drop 3 block) \<notin> {0x0100, 0x010a, 0x0110, 0x0150})"
proof -
  have "[12..<n] = 12 # [13..<n]"
    using assms(2) by (simp add: upt_conv_Cons)
  then show ?thesis
    using assms(1,3) by (auto simp: uvc_parse_vc_header_def uvc_scan_streaming_def need_def Let_def)
qed

theorem header_interface_out_of_bounds_witness:
  "uvc_parse_vc_header (zero_info []) webcam_control 13 = None"
proof -
  have "get_sw (drop 3 webcam_control) = 0x0100"
    by code_simp
  then show ?thesis
    using header_interface_out_of_bounds [of "zero_info []" webcam_control 13]
    by (auto simp: webcam_control_def zero_info_def split: option.splits)
qed

end
