(* ===== verification/Uvc_Roundtrip.thy ===== *)
theory Uvc_Roundtrip
  imports Uvc_Scan
begin

text \<open>
  The other direction of the descriptor parsers: the blocks a UVC device sends for a format and for
  a frame, and the proof that scanning the blocks of a list of formats gives exactly that list.
\<close>

section \<open>The encodings a device uses\<close>

definition format_block :: "uvc_format_desc \<Rightarrow> bytes" where
  "format_block fo =
     (if fo_bDescriptorSubtype fo = 0x06
      then [11, 0x24, 0x06, bFormatIndex fo, of_nat (length (frame_descs fo)), 0, bDefaultFrameIndex fo,
            bAspectRatioX fo, bAspectRatioY fo, bmInterlaceFlags fo, bCopyProtect fo]
      else if fo_bDescriptorSubtype fo = 0x04
      then [27, 0x24, 0x04, bFormatIndex fo, of_nat (length (frame_descs fo))] @ guidFormat fo @
            [bBitsPerPixel fo, bDefaultFrameIndex fo, bAspectRatioX fo, bAspectRatioY fo,
             bmInterlaceFlags fo, bCopyProtect fo]
      else [28, 0x24, 0x10, bFormatIndex fo, bNumFrameDescriptors fo] @ guidFormat fo @
            [bBitsPerPixel fo, bDefaultFrameIndex fo, bAspectRatioX fo, bAspectRatioY fo,
             bmInterlaceFlags fo, bCopyProtect fo, bVariableSize fo])"

definition frame_tail :: "uvc_frame_desc \<Rightarrow> bytes" where
  "frame_tail fr = (case intervals fr of
     None \<Rightarrow> INT_TO_DW (dwMinFrameInterval fr) @ INT_TO_DW (dwMaxFrameInterval fr) @ INT_TO_DW (dwFrameIntervalStep fr)
   | Some xs \<Rightarrow> concat (map INT_TO_DW (butlast xs)))"

definition frame_block :: "uvc_frame_desc \<Rightarrow> bytes" where
  "frame_block fr =
     [of_nat (26 + length (frame_tail fr)), 0x24, fr_bDescriptorSubtype fr, bFrameIndex fr, bmCapabilities fr] @
     SHORT_TO_SW (wWidth fr) @ SHORT_TO_SW (wHeight fr) @
     INT_TO_DW (dwMinBitRate fr) @ INT_TO_DW (dwMaxBitRate fr) @
     (if fr_bDescriptorSubtype fr = 0x11
      then INT_TO_DW (dwDefaultFrameInterval fr) @ [bFrameIntervalType fr] @ INT_TO_DW (dwBytesPerLine fr)
      else INT_TO_DW (dwMaxVideoFrameBufferSize fr) @ INT_TO_DW (dwDefaultFrameInterval fr) @ [bFrameIntervalType fr]) @
     frame_tail fr"

text \<open>The descriptors a parser can give back: the fields it does not fill are zero.\<close>

definition format_canonical :: "uvc_format_desc \<Rightarrow> bool" where
  "format_canonical fo \<longleftrightarrow> length (guidFormat fo) = 16 \<and>
     (if fo_bDescriptorSubtype fo = 0x06
      then guidFormat fo = MJPG @ replicate 12 0 \<and> bNumFrameDescriptors fo = 0 \<and> bBitsPerPixel fo = 0 \<and> bVariableSize fo = 0
      else if fo_bDescriptorSubtype fo = 0x04 then bNumFrameDescriptors fo = 0 \<and> bVariableSize fo = 0
      else fo_bDescriptorSubtype fo = 0x10)"

definition frame_canonical :: "uvc_format_desc \<Rightarrow> uvc_frame_desc \<Rightarrow> bool" where
  "frame_canonical fo fr \<longleftrightarrow> frame_ok fr \<and>
     (case intervals fr of None \<Rightarrow> True
      | Some xs \<Rightarrow> length xs \<le> 58 \<and> dwMinFrameInterval fr = 0 \<and> dwMaxFrameInterval fr = 0 \<and> dwFrameIntervalStep fr = 0 \<and>
          (fr_bDescriptorSubtype fr \<noteq> 0x11 \<longrightarrow> xs ! 0 \<le> dwDefaultFrameInterval fr)) \<and>
     (if fr_bDescriptorSubtype fr = 0x11 then dwMaxVideoFrameBufferSize fr = 0
      else if fr_bDescriptorSubtype fr = 0x05
      then dwBytesPerLine fr = 0 \<and> frame_bytes fo fr = Some (dwMaxVideoFrameBufferSize fr)
      else fr_bDescriptorSubtype fr = 0x07 \<and> dwBytesPerLine fr = 0)"

section \<open>Pieces\<close>

lemma add_or_16: "(ucast x :: u16) + push_bit 8 (ucast y) = ucast x OR push_bit 8 (ucast y)" for x y :: u8
  by (rule disjunctive_add) (auto simp: bit_simps dest: bit_imp_le_length)

lemma word_at_get_sw: "Suc i < length p \<Longrightarrow> word_at i p = get_sw (drop i p)"
  by (rule bit_word_eqI)
    (auto simp: word_at_def SW_TO_SHORT_def add_or_16 bit_simps dest: bit_imp_le_length)

lemma dwords_concat: "dwords (length xs) (concat (map INT_TO_DW xs) @ r) = xs"
  by (induction xs) simp_all

lemma length_concat_DW: "length (concat (map INT_TO_DW xs)) = 4 * length xs"
  by (induction xs) simp_all

lemma format_block_parse:
  assumes "format_canonical fo"
  shows "uvc_parse_vs si (format_block fo) (length (format_block fo)) =
    Some (UVC_SUCCESS, append_format (fo\<lparr>frame_descs := []\<rparr>) si)"
  using assms
  by (cases fo) (auto simp: format_canonical_def format_block_def uvc_parse_vs_def append_format_def zero_format_def
      uvc_parse_vs_format_mjpeg_def uvc_parse_vs_format_uncompressed_def uvc_parse_vs_frame_format_def
      nth_append split: if_splits)

text \<open>The fields of a frame block, at the offsets the parser reads them from.\<close>

lemma frame_block_head:
  "frame_head (frame_block fr) = zero_frame\<lparr>fr_bDescriptorSubtype := fr_bDescriptorSubtype fr,
     bFrameIndex := bFrameIndex fr, bmCapabilities := bmCapabilities fr, wWidth := wWidth fr,
     wHeight := wHeight fr, dwMinBitRate := dwMinBitRate fr, dwMaxBitRate := dwMaxBitRate fr\<rparr>"
  by (simp add: frame_head_def frame_block_def word_at_get_sw)

lemma frame_block_mid:
  "fr_bDescriptorSubtype fr = 0x11 \<Longrightarrow> DW_TO_INT (drop 17 (frame_block fr)) = dwDefaultFrameInterval fr"
  "fr_bDescriptorSubtype fr = 0x11 \<Longrightarrow> frame_block fr ! 21 = bFrameIntervalType fr"
  "fr_bDescriptorSubtype fr = 0x11 \<Longrightarrow> DW_TO_INT (drop 22 (frame_block fr)) = dwBytesPerLine fr"
  "fr_bDescriptorSubtype fr \<noteq> 0x11 \<Longrightarrow> DW_TO_INT (drop 17 (frame_block fr)) = dwMaxVideoFrameBufferSize fr"
  "fr_bDescriptorSubtype fr \<noteq> 0x11 \<Longrightarrow> DW_TO_INT (drop 21 (frame_block fr)) = dwDefaultFrameInterval fr"
  "fr_bDescriptorSubtype fr \<noteq> 0x11 \<Longrightarrow> frame_block fr ! 25 = bFrameIntervalType fr"
  by (simp_all add: frame_block_def nth_append)

lemma frame_block_tail: "drop 26 (frame_block fr) = frame_tail fr"
  by (simp add: frame_block_def)

lemma frame_block_length: "length (frame_block fr) = 26 + length (frame_tail fr)"
  by (simp add: frame_block_def)

lemma frame_block_sub: "frame_block fr ! 2 = fr_bDescriptorSubtype fr"
  by (simp add: frame_block_def)

lemma continuous_frame_block:
  assumes "intervals fr = None"
  shows "continuous_intervals (frame_block fr) x = x\<lparr>dwMinFrameInterval := dwMinFrameInterval fr,
     dwMaxFrameInterval := dwMaxFrameInterval fr, dwFrameIntervalStep := dwFrameIntervalStep fr\<rparr>"
proof -
  have "drop 30 (frame_block fr) = drop 4 (frame_tail fr)" "drop 34 (frame_block fr) = drop 8 (frame_tail fr)"
    by (simp_all add: frame_block_def)
  then show ?thesis
    using assms by (simp add: continuous_intervals_def frame_block_tail frame_tail_def)
qed

lemma discrete_frame_block:
  assumes "intervals fr = Some xs" and "frame_ok fr" and "fr_bDescriptorSubtype fr \<noteq> 0x11"
    and "xs ! 0 \<le> dwDefaultFrameInterval fr" and "dwDefaultFrameInterval x = dwDefaultFrameInterval fr"
  shows "discrete_intervals (unat (bFrameIntervalType fr)) (frame_block fr) x = x\<lparr>intervals := intervals fr\<rparr>"
proof -
  let ?n = "unat (bFrameIntervalType fr)"
  from assms(1-3) have len: "length xs = Suc ?n" and last: "xs ! ?n = 0" and nz: "0 \<notin> set (butlast xs)"
    and dflt: "dwDefaultFrameInterval fr \<le> xs ! (?n - 1)" and n: "bFrameIntervalType fr \<noteq> 0"
    by (auto simp: frame_ok_def)
  from n have "0 < ?n"
    by (simp add: unat_gt_0)
  have xs: "xs = butlast xs @ [0]"
    using butlast_snoc_nth [OF len last] by simp
  have "dwords ?n (frame_tail fr) = butlast xs"
    using dwords_concat [of "butlast xs" "[]"] len by (simp add: frame_tail_def assms(1))
  moreover have "map (\<lambda>i. if i \<noteq> 0 then i else 1) (butlast xs) = butlast xs"
    using nz by (intro map_idI) auto
  moreover have "butlast xs ! 0 = xs ! 0" "butlast xs ! (?n - 1) = xs ! (?n - 1)"
    using len \<open>0 < ?n\<close> by (simp_all add: nth_butlast)
  ultimately show ?thesis
    using assms(1,4,5) dflt xs
    by (simp add: discrete_intervals_def frame_block_tail)
qed

lemma frame_block_parse:
  assumes canon: "frame_canonical fo fr" and fs: "format_descs si = fs @ [fo]"
  shows "uvc_parse_vs si (frame_block fr) n =
    Some (UVC_SUCCESS, si\<lparr>format_descs := fs @ [append_frame fr fo]\<rparr>)"
proof -
  have len3: "3 \<le> length (frame_block fr)"
    by (simp add: frame_block_length)
  show ?thesis
  proof (cases "fr_bDescriptorSubtype fr = 0x11")
    case frame_based: True
    show ?thesis
    proof (cases "intervals fr")
      case None
      then have "bFrameIntervalType fr = 0" "length (frame_tail fr) = 12"
        using canon by (simp_all add: frame_canonical_def frame_ok_def frame_tail_def)
      then show ?thesis
        using frame_based canon None len3
        by (cases fr) (simp add: uvc_parse_vs_def frame_block_sub uvc_parse_vs_frame_frame_def with_last_format_def fs
            update_last_snoc frame_block_mid frame_block_head continuous_frame_block frame_block_length
            frame_canonical_def zero_frame_def)
    next
      case (Some xs)
      let ?n = "unat (bFrameIntervalType fr)"
      have len: "length xs = Suc ?n" and last: "xs ! ?n = 0" and n: "bFrameIntervalType fr \<noteq> 0"
        using canon Some by (auto simp: frame_canonical_def frame_ok_def)
      have xs: "butlast xs @ [0] = xs"
        using butlast_snoc_nth [OF len last] by simp
      have "dwords ?n (frame_tail fr) = butlast xs"
        using dwords_concat [of "butlast xs" "[]"] len by (simp add: frame_tail_def Some)
      moreover have "length (frame_tail fr) = 4 * ?n"
        by (simp add: frame_tail_def Some length_concat_DW len)
      ultimately show ?thesis
        using frame_based canon Some len3 n xs
        by (cases fr) (simp add: uvc_parse_vs_def frame_block_sub uvc_parse_vs_frame_frame_def with_last_format_def fs
            update_last_snoc frame_block_mid frame_block_head frame_block_tail frame_block_length
            frame_canonical_def zero_frame_def unat_eq_0)
    qed
  next
    case uncompressed: False
    then have sub: "fr_bDescriptorSubtype fr = 0x05 \<or> fr_bDescriptorSubtype fr = 0x07"
      using canon by (auto simp: frame_canonical_def split: if_splits)
    have keep: "set_frame_bytes fo fr = Some fr"
      using canon uncompressed by (cases fr) (auto simp: frame_canonical_def set_frame_bytes_def)
    let ?frame = "(frame_head (frame_block fr))\<lparr>dwMaxVideoFrameBufferSize := dwMaxVideoFrameBufferSize fr,
      dwDefaultFrameInterval := dwDefaultFrameInterval fr, bFrameIntervalType := bFrameIntervalType fr\<rparr>"
    let ?n = "unat (bFrameIntervalType fr)"
    have full: "(if ?n = 0 then continuous_intervals (frame_block fr) ?frame
        else discrete_intervals ?n (frame_block fr) ?frame) = fr"
      and long: "(if ?n = 0 then 38 else 26 + 4 * ?n) \<le> length (frame_block fr)"
    proof -
      show "(if ?n = 0 then continuous_intervals (frame_block fr) ?frame
        else discrete_intervals ?n (frame_block fr) ?frame) = fr"
      proof (cases "intervals fr")
        case None
        then show ?thesis
          using canon sub by (cases fr) (auto simp: frame_canonical_def frame_ok_def continuous_frame_block
              frame_block_head zero_frame_def split: if_splits)
      next
        case (Some xs)
        have "discrete_intervals ?n (frame_block fr) ?frame = ?frame\<lparr>intervals := intervals fr\<rparr>"
          using canon Some uncompressed by (intro discrete_frame_block) (auto simp: frame_canonical_def)
        then show ?thesis
          using canon sub Some by (cases fr) (auto simp: frame_canonical_def frame_ok_def
              frame_block_head zero_frame_def unat_eq_0 split: if_splits)
      qed
      show "(if ?n = 0 then 38 else 26 + 4 * ?n) \<le> length (frame_block fr)"
        using canon by (auto simp: frame_canonical_def frame_ok_def frame_block_length frame_tail_def
            length_concat_DW unat_eq_0 split: option.splits)
    qed
    have "uvc_parse_vs si (frame_block fr) n = uvc_parse_vs_frame_uncompressed si (frame_block fr) n"
      using sub len3 by (auto simp: uvc_parse_vs_def frame_block_sub)
    also have "\<dots> = Some (UVC_SUCCESS, si\<lparr>format_descs := fs @ [append_frame fr fo]\<rparr>)"
      using long
      by (simp add: uvc_parse_vs_frame_uncompressed_def with_last_format_def fs update_last_snoc
          frame_block_mid uncompressed full keep Let_def need_def frame_block_length del: if_split)
    finally show ?thesis .
  qed
qed

section \<open>A whole interface\<close>

definition interface_blocks :: "uvc_format_desc list \<Rightarrow> bytes list" where
  "interface_blocks fos = concat (map (\<lambda>fo. format_block fo # map frame_block (frame_descs fo)) fos)"

definition formats_canonical :: "uvc_format_desc list \<Rightarrow> bool" where
  "formats_canonical fos \<longleftrightarrow>
     (\<forall>fo \<in> set fos. format_canonical fo \<and> (\<forall>fr \<in> set (frame_descs fo). frame_canonical fo fr))"

lemma parse_all_append:
  "parse_all p xs s = Some (UVC_SUCCESS, s') \<Longrightarrow> parse_all p (xs @ ys) s = parse_all p ys s'"
  by (induction xs arbitrary: s) (auto split: bind_splits if_splits)

lemma frame_canonical_append [simp]: "frame_canonical (append_frame x fo) fr = frame_canonical fo fr"
  by (simp add: frame_canonical_def frame_bytes_def append_frame_def)

lemma frame_canonical_frames [simp]: "frame_canonical (fo\<lparr>frame_descs := xs\<rparr>) fr = frame_canonical fo fr"
  by (simp add: frame_canonical_def frame_bytes_def)

lemma parse_frames:
  assumes "format_descs si = fs @ [fo]" and "\<forall>fr \<in> set frs. frame_canonical fo fr"
  shows "parse_all uvc_parse_vs (map frame_block frs) si =
    Some (UVC_SUCCESS, si\<lparr>format_descs := fs @ [fo\<lparr>frame_descs := frame_descs fo @ frs\<rparr>]\<rparr>)"
  using assms
proof (induction frs arbitrary: si fo)
  case (Cons fr frs)
  let ?si = "si\<lparr>format_descs := fs @ [append_frame fr fo]\<rparr>"
  have "parse_all uvc_parse_vs (map frame_block (fr # frs)) si = parse_all uvc_parse_vs (map frame_block frs) ?si"
    using frame_block_parse [OF _ Cons.prems(1), of fr] Cons.prems(2) by simp
  also have "\<dots> = Some (UVC_SUCCESS, ?si\<lparr>format_descs :=
      fs @ [(append_frame fr fo)\<lparr>frame_descs := frame_descs (append_frame fr fo) @ frs\<rparr>]\<rparr>)"
    using Cons.prems by (intro Cons.IH) simp_all
  finally show ?case
    by (simp add: append_frame_def)
qed simp

lemma parse_interface:
  "formats_canonical fos \<Longrightarrow> parse_all uvc_parse_vs (interface_blocks fos) si =
     Some (UVC_SUCCESS, si\<lparr>format_descs := format_descs si @ fos\<rparr>)"
proof (induction fos arbitrary: si)
  case Nil
  then show ?case by (simp add: interface_blocks_def)
next
  case (Cons fo fos)
  let ?f = "fo\<lparr>frame_descs := []\<rparr>"
  let ?si = "si\<lparr>format_descs := format_descs si @ [fo]\<rparr>"
  have "parse_all uvc_parse_vs (map frame_block (frame_descs fo)) (append_format ?f si) =
      Some (UVC_SUCCESS, (append_format ?f si)\<lparr>format_descs := format_descs si @
        [?f\<lparr>frame_descs := frame_descs ?f @ frame_descs fo\<rparr>]\<rparr>)"
    using Cons.prems by (intro parse_frames) (simp_all add: append_format_def formats_canonical_def)
  then have "parse_all uvc_parse_vs (format_block fo # map frame_block (frame_descs fo)) si = Some (UVC_SUCCESS, ?si)"
    using Cons.prems by (simp add: format_block_parse formats_canonical_def append_format_def)
  from parse_all_append [OF this, of "interface_blocks fos"]
  have "parse_all uvc_parse_vs (interface_blocks (fo # fos)) si = parse_all uvc_parse_vs (interface_blocks fos) ?si"
    by (simp add: interface_blocks_def)
  also have "\<dots> = Some (UVC_SUCCESS, ?si\<lparr>format_descs := format_descs ?si @ fos\<rparr>)"
    using Cons.prems by (intro Cons.IH) (simp add: formats_canonical_def)
  finally show ?case
    by simp
qed

text \<open>Every block says its own length, so the scan cuts the bytes where the device joined them.\<close>

definition block_ok :: "bytes \<Rightarrow> bool" where
  "block_ok b \<longleftrightarrow> 3 \<le> length b \<and> unat (hd b) = length b"

lemma format_block_ok: "format_canonical fo \<Longrightarrow> block_ok (format_block fo)"
  by (auto simp: block_ok_def format_block_def format_canonical_def split: if_splits)

lemma frame_block_ok: "frame_canonical fo fr \<Longrightarrow> block_ok (frame_block fr)"
proof -
  assume *: "frame_canonical fo fr"
  then have "26 + length (frame_tail fr) < 256"
    by (auto simp: frame_canonical_def frame_tail_def length_concat_DW split: option.splits)
  moreover have "hd (frame_block fr) = of_nat (26 + length (frame_tail fr))"
    by (simp add: frame_block_def)
  ultimately have "unat (hd (frame_block fr)) = 26 + length (frame_tail fr)"
    by (simp only: unat_of_nat) simp
  then show ?thesis
    by (simp add: block_ok_def frame_block_length)
qed

lemma interface_blocks_ok: "formats_canonical fos \<Longrightarrow> list_all block_ok (interface_blocks fos)"
  by (auto simp: interface_blocks_def formats_canonical_def list_all_iff intro: format_block_ok frame_block_ok)

lemma blocks_of_concat:
  "list_all block_ok bs \<Longrightarrow> length bs < k \<Longrightarrow> blocks_of k (concat bs) = Some bs"
proof (induction bs arbitrary: k)
  case Nil
  then show ?case by (cases k) auto
next
  case (Cons b bs)
  then obtain k' where k: "k = Suc k'" "length bs < k'"
    by (cases k) auto
  from Cons.prems have b: "3 \<le> length b" "unat (hd b) = length b"
    by (auto simp: block_ok_def)
  then have "hd (b @ concat bs) = hd b" "b \<noteq> []"
    by (auto simp: hd_append)
  then show ?case
    using Cons b k by (auto simp: Let_def)
qed

lemma length_concat_blocks: "list_all block_ok bs \<Longrightarrow> length bs \<le> length (concat bs)"
  by (induction bs) (auto simp: block_ok_def)

text \<open>C14. Round trip of the streaming descriptors: scanning the blocks a device sends for any list of formats with
  their frames (uncompressed, MJPEG and frame based, with continuous or up to 57 discrete intervals) succeeds and appends one
  streaming interface whose format list, frame by frame and interval by interval, is the list encoded.\<close>

theorem scan_streaming_roundtrip:
  assumes "formats_canonical fos" and "i < length (config info)"
    and "config info ! i = if_desc # alts" and "if_extra if_desc = concat (interface_blocks fos)"
    and "if_extra if_desc \<noteq> []"
  shows "uvc_scan_streaming info i = Some (UVC_SUCCESS, info\<lparr>stream_ifs := stream_ifs info @
    [zero_streaming\<lparr>si_bInterfaceNumber := if_bInterfaceNumber if_desc, format_descs := fos\<rparr>]\<rparr>)"
proof -
  let ?b = "if_extra if_desc" and ?z = "zero_streaming\<lparr>si_bInterfaceNumber := if_bInterfaceNumber if_desc\<rparr>"
  have ok: "list_all block_ok (interface_blocks fos)"
    using assms(1) by (rule interface_blocks_ok)
  have "blocks_of (Suc (length ?b)) ?b = Some (interface_blocks fos)"
    using blocks_of_concat [OF ok, of "Suc (length ?b)"] length_concat_blocks [OF ok] by (simp add: assms(4))
  from vs_local.scan_parse_all [OF this parse_interface [OF assms(1)]]
  have "scan_blocks (Suc (length ?b)) uvc_parse_vs ?b ?z = Some (UVC_SUCCESS, ?z\<lparr>format_descs := fos\<rparr>)"
    by (simp add: zero_streaming_def)
  then show ?thesis
    using assms(2,3,5) by (simp add: uvc_scan_streaming_def streaming_extra_def del: scan_blocks.simps)
qed

text \<open>An uncompressed YUY2 format with a continuous and a discrete frame, and an MJPEG format.\<close>

definition demo_formats :: "uvc_format_desc list" where
  "demo_formats =
     [zero_format\<lparr>fo_bDescriptorSubtype := 0x04, bFormatIndex := 1,
        guidFormat := [0x59, 0x55, 0x59, 0x32, 0, 0, 0x10, 0, 0x80, 0, 0, 0xAA, 0, 0x38, 0x9B, 0x71],
        bBitsPerPixel := 16, bDefaultFrameIndex := 1,
        frame_descs := [zero_frame\<lparr>fr_bDescriptorSubtype := 0x05, bFrameIndex := 1, wWidth := 640, wHeight := 480,
            dwMaxVideoFrameBufferSize := 614400, dwDefaultFrameInterval := 333333,
            dwMinFrameInterval := 333333, dwMaxFrameInterval := 2000000, dwFrameIntervalStep := 1\<rparr>]\<rparr>,
      zero_format\<lparr>fo_bDescriptorSubtype := 0x06, bFormatIndex := 2, guidFormat := MJPG @ replicate 12 0,
        bDefaultFrameIndex := 1,
        frame_descs := [zero_frame\<lparr>fr_bDescriptorSubtype := 0x07, bFrameIndex := 1, wWidth := 1280, wHeight := 720,
            dwMaxVideoFrameBufferSize := 1843200, dwDefaultFrameInterval := 333333, bFrameIntervalType := 2,
            intervals := Some [333333, 666666, 0]\<rparr>]\<rparr>]"

definition demo_cam :: libusb_config_descriptor where
  "demo_cam = [[\<lparr>if_bInterfaceNumber = 7, if_bAlternateSetting = 0, if_bInterfaceClass = 14,
     if_bInterfaceSubClass = 2, if_endpoint = [], if_extra = concat (interface_blocks demo_formats)\<rparr>]]"

theorem scan_streaming_roundtrip_witness:
  "uvc_scan_streaming (zero_info demo_cam) 0 = Some (UVC_SUCCESS, (zero_info demo_cam)\<lparr>stream_ifs :=
     [zero_streaming\<lparr>si_bInterfaceNumber := 7, format_descs := demo_formats\<rparr>]\<rparr>)"
proof -
  have "formats_canonical demo_formats"
    by code_simp
  moreover have "concat (interface_blocks demo_formats) \<noteq> []"
    by code_simp
  ultimately show ?thesis
    using scan_streaming_roundtrip [of demo_formats 0 "zero_info demo_cam" "hd (demo_cam ! 0)" "[]"]
    by (simp add: zero_info_def demo_cam_def)
qed

end
