(* ===== verification/Uvc_Status.thy ===== *)
theory Uvc_Status
  imports Uvc_Types
begin

text \<open>
  Status reports (\<open>device.c\<close>, \<open>uvc_process_control_status\<close> to \<open>uvc_set_button_callback\<close>). The
  callbacks of the application are opaque; what the library does with them is the list of calls it
  makes. Each report is handled under the mutex of the handle, so a report and a change of callbacks do not
  interleave.
\<close>

section \<open>State and calls\<close>

record ('c, 'p) status_state =
  dev_info :: uvc_device_info
  status_cb :: "'c option"
  status_user_ptr :: 'p
  button_cb :: "'c option"
  button_user_ptr :: 'p

text \<open>
  A call of the status callback carries class, event, selector, attribute, the bytes from the
  content pointer on, the content length and the user pointer; a call of the button callback the
  button, its state and the user pointer.
\<close>

datatype ('c, 'p) cb_call =
  Status_Call 'c u8 u8 u8 u8 bytes nat 'p
| Button_Call 'c u8 u8 'p

datatype libusb_transfer_status =
  TRANSFER_COMPLETED | TRANSFER_ERROR | TRANSFER_TIMED_OUT | TRANSFER_CANCELLED | TRANSFER_STALL
| TRANSFER_NO_DEVICE | TRANSFER_OVERFLOW

abbreviation "UVC_STATUS_CLASS_CONTROL_CAMERA \<equiv> (0x11 :: u8)"
abbreviation "UVC_STATUS_CLASS_CONTROL_PROCESSING \<equiv> (0x12 :: u8)"

definition uvc_set_status_callback ::
  "('c, 'p) status_state \<Rightarrow> 'c option \<Rightarrow> 'p \<Rightarrow> ('c, 'p) status_state" where
  "uvc_set_status_callback devh cb user_ptr = devh\<lparr>status_cb := cb, status_user_ptr := user_ptr\<rparr>"

definition uvc_set_button_callback ::
  "('c, 'p) status_state \<Rightarrow> 'c option \<Rightarrow> 'p \<Rightarrow> ('c, 'p) status_state" where
  "uvc_set_button_callback devh cb user_ptr = devh\<lparr>button_cb := cb, button_user_ptr := user_ptr\<rparr>"

section \<open>Reports\<close>

definition status_class :: "uvc_control_interface \<Rightarrow> u8 \<Rightarrow> u8 option" where
  "status_class ci originator =
     (if \<exists>t \<in> set (input_term_descs ci). it_bTerminalID t = originator
      then Some UVC_STATUS_CLASS_CONTROL_CAMERA
      else if \<exists>u \<in> set (processing_unit_descs ci). pu_bUnitID u = originator
      then Some UVC_STATUS_CLASS_CONTROL_PROCESSING else None)"

definition uvc_process_control_status ::
  "('c, 'p) status_state \<Rightarrow> bytes \<Rightarrow> nat \<Rightarrow> ('c, 'p) cb_call list option" where
  "uvc_process_control_status devh data len =
     (if len < 5 then Some []
      else need 4 data
       (let originator = data ! 1; event = data ! 2; selector = data ! 3 in
        if originator = 0 then Some []
        else if event \<noteq> 0 then Some []
        else (case status_class (ctrl_if (dev_info devh)) originator of None \<Rightarrow> Some []
          | Some cls \<Rightarrow> need 5 data
             (case status_cb devh of None \<Rightarrow> Some []
              | Some cb \<Rightarrow> Some [Status_Call cb cls event selector (data ! 4) (drop 5 data) (len - 5)
                  (status_user_ptr devh)]))))"

definition uvc_process_streaming_status ::
  "('c, 'p) status_state \<Rightarrow> bytes \<Rightarrow> nat \<Rightarrow> ('c, 'p) cb_call list option" where
  "uvc_process_streaming_status devh data len =
     (if len < 3 then Some []
      else need 3 data
       (if data ! 2 = 0
        then (if len < 4 then Some []
              else (case button_cb devh of None \<Rightarrow> Some []
                | Some cb \<Rightarrow> need 4 data (Some [Button_Call cb (data ! 1) (data ! 3) (button_user_ptr devh)])))
        else Some []))"

definition uvc_process_status_xfer ::
  "('c, 'p) status_state \<Rightarrow> bytes \<Rightarrow> int \<Rightarrow> ('c, 'p) cb_call list option" where
  "uvc_process_status_xfer devh buffer actual_length =
     (if actual_length > 0
      then need 1 buffer
        (let kind = buffer ! 0 AND 0x0f in
         if kind = 1 then uvc_process_control_status devh buffer (nat actual_length)
         else if kind = 2 then uvc_process_streaming_status devh buffer (nat actual_length)
         else Some [])
      else Some [])"

text \<open>The calls made, and whether the transfer is submitted again.\<close>

definition uvc_status_callback ::
  "('c, 'p) status_state \<Rightarrow> libusb_transfer_status \<Rightarrow> bytes \<Rightarrow> int \<Rightarrow>
   (('c, 'p) cb_call list \<times> bool) option" where
  "uvc_status_callback devh status buffer actual_length =
     (case status of
        TRANSFER_ERROR \<Rightarrow> Some ([], False)
      | TRANSFER_CANCELLED \<Rightarrow> Some ([], False)
      | TRANSFER_NO_DEVICE \<Rightarrow> Some ([], False)
      | TRANSFER_COMPLETED \<Rightarrow> do {
          calls \<leftarrow> uvc_process_status_xfer devh buffer actual_length;
          Some (calls, True) }
      | TRANSFER_TIMED_OUT \<Rightarrow> Some ([], True)
      | TRANSFER_STALL \<Rightarrow> Some ([], True)
      | TRANSFER_OVERFLOW \<Rightarrow> Some ([], True))"

section \<open>Properties\<close>

text \<open>
  What the application is promised: a report about a control reaches the status callback, with the
  class of the entity it names; a button report reaches the button callback; everything else is dropped.
\<close>

definition control_report :: "('c, 'p) status_state \<Rightarrow> bytes \<Rightarrow> bool" where
  "control_report devh r \<longleftrightarrow> 5 \<le> length r \<and> r ! 0 AND 0x0f = 1 \<and> r ! 1 \<noteq> 0 \<and> r ! 2 = 0 \<and>
     status_class (ctrl_if (dev_info devh)) (r ! 1) \<noteq> None"

definition button_report :: "bytes \<Rightarrow> bool" where
  "button_report r \<longleftrightarrow> 4 \<le> length r \<and> r ! 0 AND 0x0f = 2 \<and> r ! 2 = 0"

definition status_spec :: "('c, 'p) status_state \<Rightarrow> bytes \<Rightarrow> ('c, 'p) cb_call list" where
  "status_spec devh r =
     (if control_report devh r
      then (case status_cb devh of None \<Rightarrow> [] | Some cb \<Rightarrow>
        [Status_Call cb (the (status_class (ctrl_if (dev_info devh)) (r ! 1))) 0 (r ! 3) (r ! 4) (drop 5 r)
           (length r - 5) (status_user_ptr devh)])
      else if button_report r
      then (case button_cb devh of None \<Rightarrow> [] | Some cb \<Rightarrow>
        [Button_Call cb (r ! 1) (r ! 3) (button_user_ptr devh)])
      else [])"

text \<open>The call with the content cut to its length.\<close>

fun cut_content :: "('c, 'p) cb_call \<Rightarrow> ('c, 'p) cb_call" where
  "cut_content (Status_Call cb cls ev sel attr content n p) = Status_Call cb cls ev sel attr (take n content) n p"
| "cut_content (Button_Call cb b st p) = Button_Call cb b st p"

text \<open>C32. A completed status transfer is handled without leaving its buffer, makes exactly the calls the report promises (a control
  report of a known terminal or unit, terminals first, reaches the status callback; a button report the button callback; anything
  else none), and is submitted again.\<close>

theorem status_callback_refines:
  assumes "length buffer = 32" and "len \<le> 32"
  shows "\<exists>calls. uvc_status_callback devh TRANSFER_COMPLETED buffer (int len) = Some (calls, True) \<and>
     map cut_content calls = status_spec devh (take len buffer)"
  using assms
  by (auto simp: uvc_status_callback_def uvc_process_status_xfer_def uvc_process_control_status_def
      uvc_process_streaming_status_def status_spec_def control_report_def button_report_def Let_def
      take_drop min_def split: option.split)

text \<open>A camera with terminal 1 whose application has set both callbacks.\<close>

definition demo_devh :: "(string, nat) status_state" where
  "demo_devh = uvc_set_button_callback (uvc_set_status_callback
     \<lparr>dev_info = \<lparr>config = [], ctrl_if = \<lparr>input_term_descs = [\<lparr>it_bTerminalID = 1, it_wTerminalType = 0x201,
          wObjectiveFocalLengthMin = 0, wObjectiveFocalLengthMax = 0, wOcularFocalLength = 0,
          it_bmControls = 0, it_request = 0x100\<rparr>],
        output_term_descs = [], processing_unit_descs = [], extension_unit_descs = [],
        bcdUVC = 0x100, ci_bEndpointAddress = 0x83, ci_bInterfaceNumber = 0\<rparr>, stream_ifs = []\<rparr>,
      status_cb = None, status_user_ptr = 0, button_cb = None, button_user_ptr = 0\<rparr>
     (Some ''status'') 5) (Some ''button'') 6"

definition demo_report :: bytes where
  "demo_report = [1, 1, 0, 2, 0, 0x20] @ replicate 26 0"

theorem status_callback_refines_witness:
  "\<exists>calls. uvc_status_callback demo_devh TRANSFER_COMPLETED demo_report 6 = Some (calls, True) \<and>
     map cut_content calls = [Status_Call ''status'' 0x11 0 2 0 [0x20] 1 5]"
proof -
  have "length demo_report = 32"
    by (simp add: demo_report_def)
  moreover have "status_spec demo_devh (take 6 demo_report) = [Status_Call ''status'' 0x11 0 2 0 [0x20] 1 5]"
    by code_simp
  ultimately show ?thesis
    using status_callback_refines [of demo_report 6 demo_devh] by simp
qed

text \<open>Whatever the outcome of a status transfer, it is submitted again unless it failed, was cancelled or lost its device, and only a completed one makes
  calls.\<close>

theorem status_resubmit:
  assumes "uvc_status_callback devh status buffer actual_length = Some (calls, again)"
  shows "(again \<longleftrightarrow> status \<notin> {TRANSFER_ERROR, TRANSFER_CANCELLED, TRANSFER_NO_DEVICE}) \<and>
    length calls \<le> 1 \<and> (calls \<noteq> [] \<longrightarrow> status = TRANSFER_COMPLETED)"
  using assms
  by (auto simp: uvc_status_callback_def uvc_process_status_xfer_def uvc_process_control_status_def
      uvc_process_streaming_status_def Let_def ub_simps
      split: libusb_transfer_status.splits option.splits if_splits bind_splits)

theorem status_resubmit_witness:
  "uvc_status_callback demo_devh TRANSFER_STALL demo_report 0 = Some ([], True) \<and>
   TRANSFER_STALL \<notin> {TRANSFER_ERROR, TRANSFER_CANCELLED, TRANSFER_NO_DEVICE}"
proof -
  have "uvc_status_callback demo_devh TRANSFER_STALL demo_report 0 = Some ([], True)"
    by (simp add: uvc_status_callback_def)
  from status_resubmit [OF this] this show ?thesis
    by blast
qed

end
