(* ===== verification/Uvc_Format.thy ===== *)
theory Uvc_Format
  imports Uvc_Scan
begin

text \<open>
  Frame formats (\<open>stream.c\<close>: \<open>_get_format_entry\<close>, \<open>_uvc_frame_format_matches_guid\<close>,
  \<open>uvc_frame_format_for_guid\<close>) and the lookup of a frame descriptor by its indices.
\<close>

section \<open>The format table\<close>

text \<open>\<open>UVC_FRAME_FORMAT_UNKNOWN\<close> and \<open>UVC_FRAME_FORMAT_ANY\<close> are the same value, 0.\<close>

datatype uvc_frame_format =
  FORMAT_ANY | FORMAT_UNCOMPRESSED | FORMAT_COMPRESSED | FORMAT_YUYV | FORMAT_UYVY | FORMAT_RGB565
| FORMAT_RGB | FORMAT_BGR | FORMAT_RGBX | FORMAT_MJPEG | FORMAT_GRAY8 | FORMAT_BY8

abbreviation "FORMAT_UNKNOWN \<equiv> FORMAT_ANY"

fun format_value :: "uvc_frame_format \<Rightarrow> nat" where
  "format_value FORMAT_ANY = 0"
| "format_value FORMAT_UNCOMPRESSED = 1"
| "format_value FORMAT_COMPRESSED = 2"
| "format_value FORMAT_YUYV = 3"
| "format_value FORMAT_UYVY = 4"
| "format_value FORMAT_RGB565 = 5"
| "format_value FORMAT_RGB = 6"
| "format_value FORMAT_BGR = 7"
| "format_value FORMAT_RGBX = 8"
| "format_value FORMAT_MJPEG = 9"
| "format_value FORMAT_GRAY8 = 10"
| "format_value FORMAT_BY8 = 11"

lemma format_value_inj: "format_value f = format_value g \<Longrightarrow> f = g"
  by (cases f; cases g) simp_all

text \<open>The order of the enumeration, in which \<open>uvc_frame_format_for_guid\<close> tries the formats.\<close>

instantiation uvc_frame_format :: linorder
begin

definition less_eq_uvc_frame_format :: "uvc_frame_format \<Rightarrow> uvc_frame_format \<Rightarrow> bool" where
  "f \<le> g \<longleftrightarrow> format_value f \<le> format_value g"

definition less_uvc_frame_format :: "uvc_frame_format \<Rightarrow> uvc_frame_format \<Rightarrow> bool" where
  "f < g \<longleftrightarrow> format_value f < format_value g"

instance
  by standard (auto simp: less_eq_uvc_frame_format_def less_uvc_frame_format_def intro: format_value_inj)

end

definition format_order :: "uvc_frame_format list" where
  "format_order = [FORMAT_ANY, FORMAT_UNCOMPRESSED, FORMAT_COMPRESSED, FORMAT_YUYV, FORMAT_UYVY,
     FORMAT_RGB565, FORMAT_RGB, FORMAT_BGR, FORMAT_RGBX, FORMAT_MJPEG, FORMAT_GRAY8, FORMAT_BY8]"

lemma format_order_sorted: "sorted format_order" "set format_order = UNIV"
  by (auto simp: format_order_def less_eq_uvc_frame_format_def) (metis uvc_frame_format.exhaust)

record format_table_entry =
  fte_format :: uvc_frame_format
  abstract_fmt :: bool
  fte_guid :: bytes
  children :: "uvc_frame_format list"

text \<open>
  The macro \<open>ABS_FMT\<close> writes 0 into \<open>abstract_fmt\<close> and leaves the identifier zero; so does \<open>FMT\<close> for
  the bytes it does not give.
\<close>

definition ABS_FMT :: "uvc_frame_format \<Rightarrow> uvc_frame_format list \<Rightarrow> format_table_entry" where
  "ABS_FMT f cs = \<lparr>fte_format = f, abstract_fmt = False, fte_guid = replicate 16 0, children = cs\<rparr>"

definition FMT :: "uvc_frame_format \<Rightarrow> bytes \<Rightarrow> format_table_entry" where
  "FMT f g = \<lparr>fte_format = f, abstract_fmt = False, fte_guid = g @ replicate (16 - length g) 0, children = []\<rparr>"

definition guid_tail :: bytes where
  "guid_tail = [0x00, 0x00, 0x10, 0x00, 0x80, 0x00, 0x00, 0xaa, 0x00, 0x38, 0x9b, 0x71]"

definition get_format_entry :: "uvc_frame_format \<Rightarrow> format_table_entry option" where
  "get_format_entry f = (case f of
     FORMAT_ANY \<Rightarrow> Some (ABS_FMT f [FORMAT_UNCOMPRESSED, FORMAT_COMPRESSED])
   | FORMAT_UNCOMPRESSED \<Rightarrow> Some (ABS_FMT f [FORMAT_YUYV, FORMAT_UYVY, FORMAT_GRAY8])
   | FORMAT_YUYV \<Rightarrow> Some (FMT f ([0x59, 0x55, 0x59, 0x32] @ guid_tail))
   | FORMAT_UYVY \<Rightarrow> Some (FMT f ([0x55, 0x59, 0x56, 0x59] @ guid_tail))
   | FORMAT_GRAY8 \<Rightarrow> Some (FMT f ([0x59, 0x38, 0x30, 0x30] @ guid_tail))
   | FORMAT_BY8 \<Rightarrow> Some (FMT f ([0x42, 0x59, 0x38, 0x20] @ guid_tail))
   | FORMAT_COMPRESSED \<Rightarrow> Some (ABS_FMT f [FORMAT_MJPEG])
   | FORMAT_MJPEG \<Rightarrow> Some (FMT f [0x4D, 0x4A, 0x50, 0x47])
   | _ \<Rightarrow> None)"

function uvc_frame_format_matches_guid :: "uvc_frame_format \<Rightarrow> bytes \<Rightarrow> bool" where
  "uvc_frame_format_matches_guid fmt guid = (case get_format_entry fmt of
     None \<Rightarrow> False
   | Some entry \<Rightarrow> (\<not> abstract_fmt entry \<and> guid = fte_guid entry) \<or>
       list_ex (\<lambda>child. uvc_frame_format_matches_guid child guid) (children entry))"
  by pat_completeness auto

text \<open>The children of an entry come later in the enumeration.\<close>

lemma children_later:
  "get_format_entry f = Some e \<Longrightarrow> c \<in> set (children e) \<Longrightarrow> format_value f < format_value c"
  by (auto simp: get_format_entry_def ABS_FMT_def FMT_def split: uvc_frame_format.splits)

lemma format_value_le: "format_value f \<le> 11"
  by (cases f) simp_all

termination uvc_frame_format_matches_guid
proof (relation "measure (\<lambda>(f, _). 12 - format_value f)")
  fix f :: uvc_frame_format and g :: bytes and e c
  assume "get_format_entry f = Some e" and "c \<in> set (children e)"
  then have "format_value f < format_value c"
    by (rule children_later)
  with format_value_le [of c] show "((c, g), (f, g)) \<in> measure (\<lambda>(f, _). 12 - format_value f)"
    by simp
qed simp

declare uvc_frame_format_matches_guid.simps [simp del]

fun first_format :: "uvc_frame_format list \<Rightarrow> bytes \<Rightarrow> uvc_frame_format" where
  "first_format [] guid = FORMAT_UNKNOWN"
| "first_format (f # fs) guid = (case get_format_entry f of
     None \<Rightarrow> first_format fs guid
   | Some entry \<Rightarrow>
      if abstract_fmt entry then first_format fs guid
      else if fte_guid entry = guid then fte_format entry
      else first_format fs guid)"

definition uvc_frame_format_for_guid :: "bytes \<Rightarrow> uvc_frame_format" where
  "uvc_frame_format_for_guid guid = first_format format_order guid"

section \<open>Lookup of a frame descriptor\<close>

text \<open>The frame with its format, which the code keeps as \<open>frame->parent\<close>.\<close>

fun find_in_formats ::
  "uvc_format_desc list \<Rightarrow> u16 \<Rightarrow> u16 \<Rightarrow> (uvc_format_desc \<times> uvc_frame_desc) option" where
  "find_in_formats [] format_id frame_id = None"
| "find_in_formats (fo # fos) format_id frame_id =
     (if ucast (bFormatIndex fo) = format_id then
        (case List.find (\<lambda>fr. ucast (bFrameIndex fr) = frame_id) (frame_descs fo) of
           Some fr \<Rightarrow> Some (fo, fr)
         | None \<Rightarrow> find_in_formats fos format_id frame_id)
      else find_in_formats fos format_id frame_id)"

definition uvc_find_frame_desc_stream ::
  "uvc_streaming_interface \<Rightarrow> u16 \<Rightarrow> u16 \<Rightarrow> (uvc_format_desc \<times> uvc_frame_desc) option" where
  "uvc_find_frame_desc_stream si format_id frame_id = find_in_formats (format_descs si) format_id frame_id"

fun uvc_find_frame_desc ::
  "uvc_streaming_interface list \<Rightarrow> u16 \<Rightarrow> u16 \<Rightarrow> (uvc_format_desc \<times> uvc_frame_desc) option" where
  "uvc_find_frame_desc [] format_id frame_id = None"
| "uvc_find_frame_desc (si # sis) format_id frame_id =
     (case uvc_find_frame_desc_stream si format_id frame_id of
        Some x \<Rightarrow> Some x | None \<Rightarrow> uvc_find_frame_desc sis format_id frame_id)"

section \<open>Properties\<close>

lemma find_in_formats_Some:
  "find_in_formats fos i j = Some (fo, fr) \<Longrightarrow>
   fo \<in> set fos \<and> fr \<in> set (frame_descs fo) \<and> ucast (bFormatIndex fo) = i \<and> ucast (bFrameIndex fr) = j"
  by (induction fos) (auto simp: find_Some_iff split: if_splits option.splits)

lemma find_in_formats_None:
  "find_in_formats fos i j = None \<longleftrightarrow>
   (\<forall>fo \<in> set fos. ucast (bFormatIndex fo) = i \<longrightarrow> (\<forall>fr \<in> set (frame_descs fo). ucast (bFrameIndex fr) \<noteq> j))"
  by (induction fos) (auto simp: find_None_iff find_Some_iff split: option.splits dest: nth_mem)

lemma find_frame_desc_None:
  "uvc_find_frame_desc sis i j = None \<longleftrightarrow> (\<forall>si \<in> set sis. uvc_find_frame_desc_stream si i j = None)"
  by (induction sis) (auto split: option.splits)

lemma find_frame_desc_Some:
  "uvc_find_frame_desc sis i j = Some x \<Longrightarrow> \<exists>si \<in> set sis. uvc_find_frame_desc_stream si i j = Some x"
  by (induction sis) (auto split: option.splits)

text \<open>The lookup of a frame is sound and complete: a descriptor it returns is in some format of some streaming interface and carries
  both indices asked for, and it returns none only when there is no such frame anywhere in the device.\<close>

theorem find_frame_desc_correct:
  "case uvc_find_frame_desc sis format_id frame_id of
     Some (fo, fr) \<Rightarrow> (\<exists>si \<in> set sis. fo \<in> set (format_descs si)) \<and> fr \<in> set (frame_descs fo) \<and>
       ucast (bFormatIndex fo) = format_id \<and> ucast (bFrameIndex fr) = frame_id
   | None \<Rightarrow> \<not> (\<exists>si \<in> set sis. \<exists>fo \<in> set (format_descs si). \<exists>fr \<in> set (frame_descs fo).
       ucast (bFormatIndex fo) = format_id \<and> ucast (bFrameIndex fr) = frame_id)"
proof (cases "uvc_find_frame_desc sis format_id frame_id")
  case None
  from iffD1 [OF find_frame_desc_None None] show ?thesis
    unfolding None by (auto simp: uvc_find_frame_desc_stream_def find_in_formats_None)
next
  case (Some x)
  then show ?thesis
    by (auto simp: uvc_find_frame_desc_stream_def split: prod.split
        dest!: find_frame_desc_Some find_in_formats_Some)
qed

text \<open>Which identifiers a requested format accepts: \<open>ANY\<close> takes YUY2, UYVY, Y800 and MJPG, but, since abstract
  entries are not marked abstract, also the identifier of sixteen zeros, as do \<open>UNCOMPRESSED\<close> and \<open>COMPRESSED\<close>; BY8 is
  accepted only when asked for by name; a format without an entry accepts nothing.\<close>

theorem matches_guid_table:
  "(uvc_frame_format_matches_guid FORMAT_ANY g \<longleftrightarrow>
      g = replicate 16 0 \<or> g = [0x59, 0x55, 0x59, 0x32] @ guid_tail \<or> g = [0x55, 0x59, 0x56, 0x59] @ guid_tail \<or>
      g = [0x59, 0x38, 0x30, 0x30] @ guid_tail \<or> g = MJPG @ replicate 12 0) \<and>
   (uvc_frame_format_matches_guid FORMAT_UNCOMPRESSED g \<longleftrightarrow>
      g = replicate 16 0 \<or> g = [0x59, 0x55, 0x59, 0x32] @ guid_tail \<or> g = [0x55, 0x59, 0x56, 0x59] @ guid_tail \<or>
      g = [0x59, 0x38, 0x30, 0x30] @ guid_tail) \<and>
   (uvc_frame_format_matches_guid FORMAT_COMPRESSED g \<longleftrightarrow> g = replicate 16 0 \<or> g = MJPG @ replicate 12 0) \<and>
   (uvc_frame_format_matches_guid FORMAT_MJPEG g \<longleftrightarrow> g = MJPG @ replicate 12 0) \<and>
   (uvc_frame_format_matches_guid FORMAT_BY8 g \<longleftrightarrow> g = [0x42, 0x59, 0x38, 0x20] @ guid_tail) \<and>
   \<not> uvc_frame_format_matches_guid FORMAT_RGBX g"
proof -
  have leaf: "uvc_frame_format_matches_guid f g \<longleftrightarrow> g = fte_guid e"
    if "get_format_entry f = Some e" "children e = []" "\<not> abstract_fmt e" for f e
    using that by (simp add: uvc_frame_format_matches_guid.simps [of f])
  have y: "uvc_frame_format_matches_guid FORMAT_YUYV g \<longleftrightarrow> g = [0x59, 0x55, 0x59, 0x32] @ guid_tail"
    by (subst leaf) (auto simp: get_format_entry_def FMT_def guid_tail_def)
  have u: "uvc_frame_format_matches_guid FORMAT_UYVY g \<longleftrightarrow> g = [0x55, 0x59, 0x56, 0x59] @ guid_tail"
    by (subst leaf) (auto simp: get_format_entry_def FMT_def guid_tail_def)
  have g8: "uvc_frame_format_matches_guid FORMAT_GRAY8 g \<longleftrightarrow> g = [0x59, 0x38, 0x30, 0x30] @ guid_tail"
    by (subst leaf) (auto simp: get_format_entry_def FMT_def guid_tail_def)
  have by8: "uvc_frame_format_matches_guid FORMAT_BY8 g \<longleftrightarrow> g = [0x42, 0x59, 0x38, 0x20] @ guid_tail"
    by (subst leaf) (auto simp: get_format_entry_def FMT_def guid_tail_def)
  have m: "uvc_frame_format_matches_guid FORMAT_MJPEG g \<longleftrightarrow> g = MJPG @ replicate 12 0"
    by (subst leaf) (auto simp: get_format_entry_def FMT_def MJPG_def)
  have un: "uvc_frame_format_matches_guid FORMAT_UNCOMPRESSED g \<longleftrightarrow> g = replicate 16 0 \<or>
      uvc_frame_format_matches_guid FORMAT_YUYV g \<or> uvc_frame_format_matches_guid FORMAT_UYVY g \<or>
      uvc_frame_format_matches_guid FORMAT_GRAY8 g"
    by (subst uvc_frame_format_matches_guid.simps) (simp add: get_format_entry_def ABS_FMT_def)
  have co: "uvc_frame_format_matches_guid FORMAT_COMPRESSED g \<longleftrightarrow> g = replicate 16 0 \<or>
      uvc_frame_format_matches_guid FORMAT_MJPEG g"
    by (subst uvc_frame_format_matches_guid.simps) (simp add: get_format_entry_def ABS_FMT_def)
  have any: "uvc_frame_format_matches_guid FORMAT_ANY g \<longleftrightarrow> g = replicate 16 0 \<or>
      uvc_frame_format_matches_guid FORMAT_UNCOMPRESSED g \<or> uvc_frame_format_matches_guid FORMAT_COMPRESSED g"
    by (subst uvc_frame_format_matches_guid.simps) (simp add: get_format_entry_def ABS_FMT_def)
  have no: "\<not> uvc_frame_format_matches_guid FORMAT_RGBX g"
    by (subst uvc_frame_format_matches_guid.simps) (simp add: get_format_entry_def)
  show ?thesis
    using y u g8 by8 m un co any no by metis
qed

text \<open>The identifier of every concrete format leads back to that format, and the identifier of zeros, which a request
  for any format accepts, leads to \<open>UNKNOWN\<close>: a stream of such a format is negotiated and then refused when it starts.\<close>

theorem format_guid_roundtrip:
  "map (\<lambda>f. map_option (\<lambda>e. uvc_frame_format_for_guid (fte_guid e)) (get_format_entry f))
     [FORMAT_YUYV, FORMAT_UYVY, FORMAT_GRAY8, FORMAT_BY8, FORMAT_MJPEG] =
     map Some [FORMAT_YUYV, FORMAT_UYVY, FORMAT_GRAY8, FORMAT_BY8, FORMAT_MJPEG] \<and>
   uvc_frame_format_for_guid (replicate 16 0) = FORMAT_UNKNOWN \<and>
   uvc_frame_format_matches_guid FORMAT_UNCOMPRESSED (replicate 16 0)"
  by (intro conjI) code_simp+

end
