(* ===== verification/Uvc_Negotiate.thy ===== *)
theory Uvc_Negotiate
  imports Uvc_Format "HOL-Library.Signed_Division"
begin

text \<open>
  Negotiation of a stream (\<open>stream.c\<close>: \<open>uvc_query_stream_ctrl\<close> to \<open>uvc_probe_stream_ctrl\<close>) and the
  interface requests of \<open>device.c\<close> it uses (\<open>uvc_claim_if\<close>, \<open>uvc_release_if\<close>, compiled with
  \<open>UVC_DETACH_ATTACH\<close> 0).
\<close>

section \<open>The host side of a device\<close>

text \<open>Control transfers and the interface calls of libusb, over the state \<open>'d\<close> of bus and device.\<close>

record 'd usb_host =
  host_usb :: "'d usb"
  libusb_claim_interface :: "int \<Rightarrow> 'd \<Rightarrow> int \<times> 'd"
  libusb_release_interface :: "int \<Rightarrow> 'd \<Rightarrow> int \<times> 'd"
  libusb_set_interface_alt_setting :: "int \<Rightarrow> int \<Rightarrow> 'd \<Rightarrow> int \<times> 'd"

definition uvc_claim_if :: "'d usb_host \<Rightarrow> int \<Rightarrow> 'd \<Rightarrow> int \<times> 'd" where
  "uvc_claim_if h idx d = libusb_claim_interface h idx d"

definition uvc_release_if :: "'d usb_host \<Rightarrow> bool \<Rightarrow> int \<Rightarrow> 'd \<Rightarrow> int \<times> 'd" where
  "uvc_release_if h reset_on_release_if idx d =
     (let d = (if reset_on_release_if then snd (libusb_set_interface_alt_setting h idx 0 d) else d)
      in libusb_release_interface h idx d)"

section \<open>The stream control block\<close>

record uvc_stream_ctrl =
  bmHint :: u16
  sc_bFormatIndex :: u8
  sc_bFrameIndex :: u8
  dwFrameInterval :: u32
  wKeyFrameRate :: u16
  wPFrameRate :: u16
  wCompQuality :: u16
  wCompWindowSize :: u16
  wDelay :: u16
  dwMaxVideoFrameSize :: u32
  dwMaxPayloadTransferSize :: u32
  dwClockFrequency :: u32
  bmFramingInfo :: u8
  bPreferedVersion :: u8
  bMinVersion :: u8
  bMaxVersion :: u8
  bUsage :: u8
  bBitDepthLuma :: u8
  bmSettings :: u8
  bMaxNumberOfRefFramesPlus1 :: u8
  bmRateControlModes :: u16
  bmLayoutPerStream :: u64
  sc_bInterfaceNumber :: u8

definition zero_ctrl :: uvc_stream_ctrl where
  "zero_ctrl = \<lparr>bmHint = 0, sc_bFormatIndex = 0, sc_bFrameIndex = 0, dwFrameInterval = 0,
     wKeyFrameRate = 0, wPFrameRate = 0, wCompQuality = 0, wCompWindowSize = 0, wDelay = 0,
     dwMaxVideoFrameSize = 0, dwMaxPayloadTransferSize = 0, dwClockFrequency = 0, bmFramingInfo = 0,
     bPreferedVersion = 0, bMinVersion = 0, bMaxVersion = 0, bUsage = 0, bBitDepthLuma = 0,
     bmSettings = 0, bMaxNumberOfRefFramesPlus1 = 0, bmRateControlModes = 0, bmLayoutPerStream = 0,
     sc_bInterfaceNumber = 0\<rparr>"

definition stream_ctrl_len :: "u16 \<Rightarrow> nat" where
  "stream_ctrl_len bcd = (if bcd \<ge> 0x0150 then 48 else if bcd \<ge> 0x0110 then 34 else 26)"

text \<open>The three parts of the block: UVC 1.0, the fields added by 1.1, and those added by 1.5.\<close>

definition ctrl_base :: "uvc_stream_ctrl \<Rightarrow> bytes" where
  "ctrl_base c = SHORT_TO_SW (bmHint c) @ [sc_bFormatIndex c, sc_bFrameIndex c] @ INT_TO_DW (dwFrameInterval c) @
     SHORT_TO_SW (wKeyFrameRate c) @ SHORT_TO_SW (wPFrameRate c) @ SHORT_TO_SW (wCompQuality c) @
     SHORT_TO_SW (wCompWindowSize c) @ SHORT_TO_SW (wDelay c) @ INT_TO_DW (dwMaxVideoFrameSize c) @
     INT_TO_DW (dwMaxPayloadTransferSize c)"

definition ctrl_ext11 :: "uvc_stream_ctrl \<Rightarrow> bytes" where
  "ctrl_ext11 c = INT_TO_DW (dwClockFrequency c) @
     [bmFramingInfo c, bPreferedVersion c, bMinVersion c, bMaxVersion c]"

definition ctrl_ext15 :: "uvc_stream_ctrl \<Rightarrow> bytes" where
  "ctrl_ext15 c = [bUsage c, bBitDepthLuma c, bmSettings c, bMaxNumberOfRefFramesPlus1 c] @
     SHORT_TO_SW (bmRateControlModes c) @ LONG_TO_QW (bmLayoutPerStream c)"

definition encode_ctrl :: "nat \<Rightarrow> uvc_stream_ctrl \<Rightarrow> bytes" where
  "encode_ctrl len c = ctrl_base c @ (if len > 26 then ctrl_ext11 c @ (if len = 48 then ctrl_ext15 c else []) else [])"

definition decode_ctrl :: "nat \<Rightarrow> bytes \<Rightarrow> uvc_stream_ctrl \<Rightarrow> uvc_stream_ctrl" where
  "decode_ctrl len buf c =
     (let c = c\<lparr>bmHint := get_sw buf, sc_bFormatIndex := buf ! 2, sc_bFrameIndex := buf ! 3,
            dwFrameInterval := DW_TO_INT (drop 4 buf), wKeyFrameRate := get_sw (drop 8 buf),
            wPFrameRate := get_sw (drop 10 buf), wCompQuality := get_sw (drop 12 buf),
            wCompWindowSize := get_sw (drop 14 buf), wDelay := get_sw (drop 16 buf),
            dwMaxVideoFrameSize := DW_TO_INT (drop 18 buf),
            dwMaxPayloadTransferSize := DW_TO_INT (drop 22 buf)\<rparr>;
          c = (if len > 26 then c\<lparr>dwClockFrequency := DW_TO_INT (drop 26 buf), bmFramingInfo := buf ! 30,
                 bPreferedVersion := buf ! 31, bMinVersion := buf ! 32, bMaxVersion := buf ! 33\<rparr> else c)
      in if len \<ge> 48 then c\<lparr>bUsage := buf ! 34, bBitDepthLuma := buf ! 35, bmSettings := buf ! 36,
           bMaxNumberOfRefFramesPlus1 := buf ! 37, bmRateControlModes := get_sw (drop 38 buf),
           bmLayoutPerStream := QW_TO_LONG (drop 40 buf)\<rparr> else c)"

text \<open>Some cameras leave the maximum frame size zero; it is then taken from the descriptors.\<close>

definition fix_max_size :: "uvc_device_info \<Rightarrow> uvc_stream_ctrl \<Rightarrow> uvc_stream_ctrl" where
  "fix_max_size info c =
     (if dwMaxVideoFrameSize c = 0 then
        (case uvc_find_frame_desc (stream_ifs info) (ucast (sc_bFormatIndex c)) (ucast (sc_bFrameIndex c)) of
           Some (_, fr) \<Rightarrow> c\<lparr>dwMaxVideoFrameSize := dwMaxVideoFrameBufferSize fr\<rparr> | None \<Rightarrow> c)
      else c)"

definition uvc_query_stream_ctrl ::
  "'d usb \<Rightarrow> uvc_device_info \<Rightarrow> uvc_stream_ctrl \<Rightarrow> bool \<Rightarrow> u8 \<Rightarrow> 'd \<Rightarrow> int \<times> uvc_stream_ctrl \<times> 'd" where
  "uvc_query_stream_ctrl usb info ctrl probe req d =
     (let len = stream_ctrl_len (bcdUVC (ctrl_if info));
          wValue = push_bit 8 (if probe then UVC_VS_PROBE_CONTROL else UVC_VS_COMMIT_CONTROL);
          wIndex = ucast (sc_bInterfaceNumber ctrl);
          (err, data, d) =
            (if req = UVC_SET_CUR
             then (case usb_out usb REQ_TYPE_SET req wValue wIndex (encode_ctrl len ctrl) d of (e, d) \<Rightarrow> (e, [], d))
             else usb_in usb REQ_TYPE_GET req wValue wIndex len d);
          buf = data @ drop (length data) (replicate 48 0)
      in if err \<le> 0 then (if err = 0 then UVC_ERROR_OTHER else err, ctrl, d)
         else if err < int len then (UVC_ERROR_OTHER, ctrl, d)
         else if req \<noteq> UVC_SET_CUR then (UVC_SUCCESS, fix_max_size info (decode_ctrl len buf ctrl), d)
         else (UVC_SUCCESS, ctrl, d))"

definition prepare_stream_ctrl ::
  "'d usb \<Rightarrow> uvc_device_info \<Rightarrow> uvc_stream_ctrl \<Rightarrow> 'd \<Rightarrow> int \<times> uvc_stream_ctrl \<times> 'd" where
  "prepare_stream_ctrl usb info ctrl d =
     (let (result, ctrl, d) = uvc_query_stream_ctrl usb info ctrl True UVC_GET_CUR d in
      if result \<noteq> 0 then (result, ctrl, d)
      else let (result, ctrl, d) = uvc_query_stream_ctrl usb info ctrl True UVC_GET_MIN d in
        if result \<noteq> 0 then (result, ctrl, d)
        else uvc_query_stream_ctrl usb info ctrl True UVC_GET_MAX d)"

definition uvc_probe_stream_ctrl ::
  "'d usb_host \<Rightarrow> uvc_device_info \<Rightarrow> uvc_stream_ctrl \<Rightarrow> 'd \<Rightarrow> int \<times> uvc_stream_ctrl \<times> 'd" where
  "uvc_probe_stream_ctrl h info ctrl d =
     (let (err, d) = uvc_claim_if h (uint (sc_bInterfaceNumber ctrl)) d in
      if err \<noteq> 0 then (err, ctrl, d)
      else let (err, ctrl, d) = uvc_query_stream_ctrl (host_usb h) info ctrl True UVC_SET_CUR d in
        if err \<noteq> 0 then (err, ctrl, d)
        else uvc_query_stream_ctrl (host_usb h) info ctrl True UVC_GET_CUR d)"

definition uvc_get_frame_desc ::
  "uvc_device_info \<Rightarrow> uvc_stream_ctrl \<Rightarrow> int \<times> (uvc_format_desc \<times> uvc_frame_desc) option" where
  "uvc_get_frame_desc info ctrl =
     (let desc = uvc_find_frame_desc (stream_ifs info) (ucast (sc_bFormatIndex ctrl)) (ucast (sc_bFrameIndex ctrl))
      in (if desc \<noteq> None then UVC_SUCCESS else UVC_ERROR_INVALID_PARAM, desc))"

section \<open>Choice of a frame interval\<close>

text \<open>The walk over a zero-terminated array; an array without its zero is read past its end.\<close>

fun pick_interval :: "u32 \<Rightarrow> u32 \<Rightarrow> u32 list \<Rightarrow> u32 option option" where
  "pick_interval min_fps max_fps [] = None"
| "pick_interval min_fps max_fps (interval # is) =
     (if interval = 0 then Some None
      else (let it = 10000000 div interval in
        if it \<ge> min_fps \<and> it \<le> max_fps then Some (Some interval) else pick_interval min_fps max_fps is))"

text \<open>
  The test of one frame rate against a continuous range. The division of the offset by a step of 0
  is undefined.
\<close>

definition try_fps :: "uvc_frame_desc \<Rightarrow> int \<Rightarrow> u32 option option" where
  "try_fps frame fps =
     (if fps = 0 then Some None
      else (let interval_100ns = word_of_int (10000000 sdiv fps);
                interval_offset = interval_100ns - dwMinFrameInterval frame in
        if interval_100ns \<ge> dwMinFrameInterval frame \<and> interval_100ns \<le> dwMaxFrameInterval frame
        then (if interval_offset = 0 then Some (Some interval_100ns)
              else if dwFrameIntervalStep frame = 0 then None
              else if interval_offset mod dwFrameIntervalStep frame = 0 then Some (Some interval_100ns)
              else Some None)
        else Some None))"

text \<open>
  \<open>for (fps = max_fps; fps >= min_fps; fps--)\<close>, as \<open>n\<close> passes from \<open>fps\<close> down; the pass after
  \<open>INT_MIN\<close> overflows.
\<close>

fun pick_fps :: "uvc_frame_desc \<Rightarrow> nat \<Rightarrow> int \<Rightarrow> u32 option option" where
  "pick_fps frame 0 fps = Some None"
| "pick_fps frame (Suc n) fps = do {
     r \<leftarrow> try_fps frame fps;
     case r of Some i \<Rightarrow> Some (Some i)
     | None \<Rightarrow> if fps = - (2 ^ 31) then None else pick_fps frame n (fps - 1) }"

definition frame_interval :: "uvc_frame_desc \<Rightarrow> int \<Rightarrow> int \<Rightarrow> u32 option option" where
  "frame_interval frame min_fps max_fps =
     (case intervals frame of
        Some is \<Rightarrow> pick_interval (word_of_int min_fps) (word_of_int max_fps) is
      | None \<Rightarrow> pick_fps frame (nat (max_fps - min_fps + 1)) max_fps)"

fun pick_frame ::
  "int \<Rightarrow> int \<Rightarrow> int \<Rightarrow> int \<Rightarrow> uvc_frame_desc list \<Rightarrow> (uvc_frame_desc \<times> u32) option option" where
  "pick_frame width height min_fps max_fps [] = Some None"
| "pick_frame width height min_fps max_fps (frame # frames) =
     (if uint (wWidth frame) \<noteq> width \<or> uint (wHeight frame) \<noteq> height
      then pick_frame width height min_fps max_fps frames
      else do {
        r \<leftarrow> frame_interval frame min_fps max_fps;
        case r of Some i \<Rightarrow> Some (Some (frame, i))
        | None \<Rightarrow> pick_frame width height min_fps max_fps frames })"

section \<open>Negotiation\<close>

text \<open>
  One format of one interface. \<open>reset\<close> is the handle's \<open>reset_on_release_if\<close>. The interface stays
  claimed on success.
\<close>

definition get_stream_ctrl_format ::
  "'d usb_host \<Rightarrow> bool \<Rightarrow> uvc_device_info \<Rightarrow> uvc_streaming_interface \<Rightarrow> uvc_format_desc \<Rightarrow>
   int \<Rightarrow> int \<Rightarrow> int \<Rightarrow> int \<Rightarrow> uvc_stream_ctrl \<Rightarrow> 'd \<Rightarrow> (int \<times> uvc_stream_ctrl \<times> 'd) option" where
  "get_stream_ctrl_format h reset info stream_if format width height min_fps max_fps ctrl d =
     (let ctrl = ctrl\<lparr>sc_bInterfaceNumber := si_bInterfaceNumber stream_if\<rparr>;
          ifnum = uint (sc_bInterfaceNumber ctrl);
          fail = (\<lambda>result ctrl d. Some (result, ctrl, snd (uvc_release_if h reset ifnum d)));
          (result, d) = uvc_claim_if h ifnum d
      in if result \<noteq> 0 then fail result ctrl d
         else let (_, ctrl, d) = prepare_stream_ctrl (host_usb h) info ctrl d;
                  (result, ctrl, d) = prepare_stream_ctrl (host_usb h) info ctrl d
           in if result \<noteq> 0 then fail result ctrl d
              else do {
                r \<leftarrow> pick_frame width height min_fps max_fps (frame_descs format);
                case r of None \<Rightarrow> fail UVC_ERROR_INVALID_MODE ctrl d
                | Some (frame, interval) \<Rightarrow>
                    Some (UVC_SUCCESS, ctrl\<lparr>bmHint := 1, sc_bFormatIndex := bFormatIndex format,
                      sc_bFrameIndex := bFrameIndex frame, dwFrameInterval := interval\<rparr>, d) })"

fun try_formats ::
  "'d usb_host \<Rightarrow> bool \<Rightarrow> uvc_device_info \<Rightarrow> uvc_frame_format \<Rightarrow> int \<Rightarrow> int \<Rightarrow> int \<Rightarrow> int \<Rightarrow>
   (uvc_streaming_interface \<times> uvc_format_desc) list \<Rightarrow> uvc_stream_ctrl \<Rightarrow> 'd \<Rightarrow>
   (int \<times> uvc_stream_ctrl \<times> 'd) option" where
  "try_formats h reset info cf width height min_fps max_fps [] ctrl d = Some (UVC_ERROR_INVALID_MODE, ctrl, d)"
| "try_formats h reset info cf width height min_fps max_fps ((stream_if, format) # fs) ctrl d =
     (if \<not> uvc_frame_format_matches_guid cf (guidFormat format)
      then try_formats h reset info cf width height min_fps max_fps fs ctrl d
      else do {
        (result, ctrl, d) \<leftarrow> get_stream_ctrl_format h reset info stream_if format width height min_fps max_fps ctrl d;
        if result = 0 then Some (uvc_probe_stream_ctrl h info ctrl d)
        else try_formats h reset info cf width height min_fps max_fps fs ctrl d })"

definition all_formats :: "uvc_device_info \<Rightarrow> (uvc_streaming_interface \<times> uvc_format_desc) list" where
  "all_formats info = concat (map (\<lambda>si. map (Pair si) (format_descs si)) (stream_ifs info))"

definition uvc_get_stream_ctrl_format_size_fps ::
  "'d usb_host \<Rightarrow> bool \<Rightarrow> uvc_device_info \<Rightarrow> uvc_frame_format \<Rightarrow> int \<Rightarrow> int \<Rightarrow> int \<Rightarrow> int \<Rightarrow> 'd \<Rightarrow>
   (int \<times> uvc_stream_ctrl \<times> 'd) option" where
  "uvc_get_stream_ctrl_format_size_fps h reset info cf width height min_fps max_fps d =
     try_formats h reset info cf width height min_fps max_fps (all_formats info) zero_ctrl d"

definition uvc_get_stream_ctrl_format_size ::
  "'d usb_host \<Rightarrow> bool \<Rightarrow> uvc_device_info \<Rightarrow> uvc_frame_format \<Rightarrow> int \<Rightarrow> int \<Rightarrow> int \<Rightarrow> 'd \<Rightarrow>
   (int \<times> uvc_stream_ctrl \<times> 'd) option" where
  "uvc_get_stream_ctrl_format_size h reset info cf width height fps d =
     uvc_get_stream_ctrl_format_size_fps h reset info cf width height fps fps d"

section \<open>The control block on the wire\<close>

lemma length_LONG_TO_QW [simp]: "length (LONG_TO_QW q) = 8"
  by (simp add: LONG_TO_QW_def)

lemma length_ctrl_base [simp]: "length (ctrl_base c) = 26"
  by (simp add: ctrl_base_def)

lemma length_ctrl_ext11 [simp]: "length (ctrl_ext11 c) = 8"
  by (simp add: ctrl_ext11_def)

lemma length_ctrl_ext15 [simp]: "length (ctrl_ext15 c) = 14"
  by (simp add: ctrl_ext15_def)

lemma length_encode_ctrl [simp]: "length (encode_ctrl (stream_ctrl_len bcd) c) = stream_ctrl_len bcd"
  by (simp add: encode_ctrl_def stream_ctrl_len_def)

text \<open>The part of a block a device of a given version carries, the rest being the receiver's.\<close>

definition carried :: "nat \<Rightarrow> uvc_stream_ctrl \<Rightarrow> uvc_stream_ctrl \<Rightarrow> uvc_stream_ctrl" where
  "carried len c r =
     (let r11 = c\<lparr>dwClockFrequency := dwClockFrequency r, bmFramingInfo := bmFramingInfo r,
            bPreferedVersion := bPreferedVersion r, bMinVersion := bMinVersion r, bMaxVersion := bMaxVersion r\<rparr>;
          c0 = (if len > 26 then c else r11);
          c1 = (if len = 48 then c0\<lparr>bmLayoutPerStream := QW_TO_LONG (LONG_TO_QW (bmLayoutPerStream c))\<rparr>
            else c0\<lparr>bUsage := bUsage r, bBitDepthLuma := bBitDepthLuma r, bmSettings := bmSettings r,
              bMaxNumberOfRefFramesPlus1 := bMaxNumberOfRefFramesPlus1 r,
              bmRateControlModes := bmRateControlModes r, bmLayoutPerStream := bmLayoutPerStream r\<rparr>)
      in c1\<lparr>sc_bInterfaceNumber := sc_bInterfaceNumber r\<rparr>)"

lemma QW_append: "QW_TO_LONG (LONG_TO_QW q @ x) = QW_TO_LONG (LONG_TO_QW q)"
  by (simp add: QW_TO_LONG_def LONG_TO_QW_def DW_TO_INT_def)

lemma decode_encode:
  "decode_ctrl (stream_ctrl_len bcd) (encode_ctrl (stream_ctrl_len bcd) c @ x) r = carried (stream_ctrl_len bcd) c r"
proof -
  consider "stream_ctrl_len bcd = 26" | "stream_ctrl_len bcd = 34" | "stream_ctrl_len bcd = 48"
    by (fastforce simp: stream_ctrl_len_def split: if_splits)
  then show ?thesis
    by cases (cases c; cases r; simp add: decode_ctrl_def encode_ctrl_def ctrl_base_def ctrl_ext11_def
        ctrl_ext15_def carried_def nth_append QW_append)+
qed

text \<open>Round trip of the stream control block, for every UVC version: after a probe or commit request has
  set a block with a maximum frame size, the corresponding \<open>GET_CUR\<close> gives every field the version carries back as it was sent and leaves the
  others, and the interface number, as the caller had them; only the 64-bit layout field goes through the
  accessor that spreads its bit 31.\<close>

theorem stream_ctrl_roundtrip:
  assumes "usb_stores usb" and "dwMaxVideoFrameSize c \<noteq> 0" and "sc_bInterfaceNumber r = sc_bInterfaceNumber c"
  shows "\<exists>d' d''. uvc_query_stream_ctrl usb info c probe UVC_SET_CUR d = (UVC_SUCCESS, c, d') \<and>
    uvc_query_stream_ctrl usb info r probe UVC_GET_CUR d' =
      (UVC_SUCCESS, carried (stream_ctrl_len (bcdUVC (ctrl_if info))) c r, d'')"
proof -
  let ?len = "stream_ctrl_len (bcdUVC (ctrl_if info))"
  let ?v = "push_bit 8 (if probe then UVC_VS_PROBE_CONTROL else UVC_VS_COMMIT_CONTROL)"
  obtain d' d'' where
    set: "usb_out usb REQ_TYPE_SET UVC_SET_CUR ?v (ucast (sc_bInterfaceNumber c)) (encode_ctrl ?len c) d = (int ?len, d')"
    and get: "usb_in usb REQ_TYPE_GET UVC_GET_CUR ?v (ucast (sc_bInterfaceNumber c)) ?len d' = (int ?len, encode_ctrl ?len c, d'')"
    using assms(1) unfolding usb_stores_def by (metis length_encode_ctrl)
  have pos: "0 < ?len"
    by (simp add: stream_ctrl_len_def)
  have "dwMaxVideoFrameSize (carried ?len c r) = dwMaxVideoFrameSize c"
    by (simp add: carried_def Let_def)
  then have keep: "fix_max_size info (carried ?len c r) = carried ?len c r"
    using assms(2) by (simp add: fix_max_size_def)
  have "uvc_query_stream_ctrl usb info c probe UVC_SET_CUR d = (UVC_SUCCESS, c, d')"
    using pos by (simp add: uvc_query_stream_ctrl_def set Let_def)
  moreover have "uvc_query_stream_ctrl usb info r probe UVC_GET_CUR d' = (UVC_SUCCESS, carried ?len c r, d'')"
    using pos by (simp add: uvc_query_stream_ctrl_def get assms(3) Let_def decode_encode keep)
  ultimately show ?thesis
    by blast
qed

definition demo_ctrl :: uvc_stream_ctrl where
  "demo_ctrl = zero_ctrl\<lparr>bmHint := 1, sc_bFormatIndex := 2, sc_bFrameIndex := 1, dwFrameInterval := 333333,
     dwMaxVideoFrameSize := 1843200, dwMaxPayloadTransferSize := 3072, sc_bInterfaceNumber := 1\<rparr>"

theorem stream_ctrl_roundtrip_witness:
  "\<exists>d' d''. uvc_query_stream_ctrl mem_usb (zero_info []) demo_ctrl True UVC_SET_CUR (\<lambda>_. []) = (UVC_SUCCESS, demo_ctrl, d') \<and>
    uvc_query_stream_ctrl mem_usb (zero_info []) (zero_ctrl\<lparr>sc_bInterfaceNumber := 1\<rparr>) True UVC_GET_CUR d' =
      (UVC_SUCCESS, carried 26 demo_ctrl (zero_ctrl\<lparr>sc_bInterfaceNumber := 1\<rparr>), d'')"
proof -
  have "stream_ctrl_len (bcdUVC (ctrl_if (zero_info []))) = 26"
    by (simp add: zero_info_def stream_ctrl_len_def)
  then show ?thesis
    using stream_ctrl_roundtrip [OF mem_usb_stores, of demo_ctrl "zero_ctrl\<lparr>sc_bInterfaceNumber := 1\<rparr>" "zero_info []" True "\<lambda>_. []"]
    by (simp add: demo_ctrl_def)
qed

text \<open>Whatever the device answers, a query that does not succeed leaves the control block alone and
  reports an error, never a positive count, and a \<open>SET\<close> never changes it; a transfer of no bytes and a short one are errors.\<close>

theorem query_stream_ctrl_codes:
  assumes "uvc_query_stream_ctrl usb info c probe req d = (ret, c', d')"
  shows "ret \<le> UVC_SUCCESS \<and> (ret \<noteq> UVC_SUCCESS \<or> req = UVC_SET_CUR \<longrightarrow> c' = c) \<and>
    sc_bInterfaceNumber c' = sc_bInterfaceNumber c"
proof -
  have "sc_bInterfaceNumber (fix_max_size info (decode_ctrl n b c)) = sc_bInterfaceNumber c" for n b
    by (simp add: fix_max_size_def decode_ctrl_def Let_def split: option.split prod.split)
  then show ?thesis
    using assms
    by (auto simp: uvc_query_stream_ctrl_def Let_def split: if_splits prod.splits)
qed

theorem query_stream_ctrl_codes_witness:
  "uvc_query_stream_ctrl mem_usb (zero_info []) demo_ctrl True UVC_GET_CUR (\<lambda>_. [1, 0]) = (UVC_ERROR_OTHER, demo_ctrl, \<lambda>_. [1, 0]) \<and>
   UVC_ERROR_OTHER \<le> UVC_SUCCESS"
proof -
  have "uvc_query_stream_ctrl mem_usb (zero_info []) demo_ctrl True UVC_GET_CUR (\<lambda>_. [1, 0]) = (UVC_ERROR_OTHER, demo_ctrl, \<lambda>_. [1, 0])"
    by (simp add: uvc_query_stream_ctrl_def mem_usb_def zero_info_def stream_ctrl_len_def Let_def)
  with query_stream_ctrl_codes [OF this] show ?thesis
    by blast
qed

section \<open>Soundness and completeness of the choice\<close>

text \<open>What it means for an interval to be one the frame offers at a rate in the range asked for.\<close>

definition interval_fits :: "uvc_frame_desc \<Rightarrow> int \<Rightarrow> int \<Rightarrow> u32 \<Rightarrow> bool" where
  "interval_fits frame min_fps max_fps i \<longleftrightarrow> (case intervals frame of
     Some is \<Rightarrow> i \<in> set is \<and> i \<noteq> 0 \<and> word_of_int min_fps \<le> 10000000 div i \<and> 10000000 div i \<le> word_of_int max_fps
   | None \<Rightarrow> dwMinFrameInterval frame \<le> i \<and> i \<le> dwMaxFrameInterval frame \<and>
       (i = dwMinFrameInterval frame \<or> (i - dwMinFrameInterval frame) mod dwFrameIntervalStep frame = 0) \<and>
       (\<exists>fps. min_fps \<le> fps \<and> fps \<le> max_fps \<and> fps \<noteq> 0 \<and> i = word_of_int (10000000 sdiv fps)))"

lemma pick_interval_Some:
  "pick_interval lo hi is = Some (Some i) \<Longrightarrow> i \<in> set is \<and> i \<noteq> 0 \<and> lo \<le> 10000000 div i \<and> 10000000 div i \<le> hi"
  by (induction "is") (auto simp: Let_def split: if_splits)

lemma pick_interval_terminated:
  "0 \<notin> set xs \<Longrightarrow> \<exists>r. pick_interval lo hi (xs @ [0]) = Some r \<and>
     (r = None \<longrightarrow> (\<forall>x \<in> set xs. \<not> (lo \<le> 10000000 div x \<and> 10000000 div x \<le> hi)))"
  by (induction xs) (auto simp: Let_def)

lemma try_fps_Some:
  "try_fps fr fps = Some (Some i) \<Longrightarrow> fps \<noteq> 0 \<and> i = word_of_int (10000000 sdiv fps) \<and>
     dwMinFrameInterval fr \<le> i \<and> i \<le> dwMaxFrameInterval fr \<and>
     (i = dwMinFrameInterval fr \<or> (i - dwMinFrameInterval fr) mod dwFrameIntervalStep fr = 0)"
  by (auto simp: try_fps_def Let_def split: if_splits)

lemma pick_fps_Some:
  "pick_fps fr n fps = Some (Some i) \<Longrightarrow>
   \<exists>f. fps - int n < f \<and> f \<le> fps \<and> try_fps fr f = Some (Some i)"
proof (induction n arbitrary: fps)
  case (Suc n)
  then obtain r where r: "try_fps fr fps = Some r"
    by (auto split: bind_splits)
  show ?case
  proof (cases r)
    case None
    with Suc.prems r have "pick_fps fr n (fps - 1) = Some (Some i)"
      by (auto split: if_splits)
    from Suc.IH [OF this] obtain f where "fps - 1 - int n < f" "f \<le> fps - 1" "try_fps fr f = Some (Some i)"
      by blast
    then show ?thesis
      by (intro exI [of _ f]) simp
  next
    case (Some j)
    with Suc.prems r show ?thesis
      by (intro exI [of _ fps]) simp
  qed
qed simp

lemma frame_interval_fits:
  assumes "frame_interval fr min_fps max_fps = Some (Some i)"
  shows "interval_fits fr min_fps max_fps i"
proof (cases "intervals fr")
  case None
  with assms have "pick_fps fr (nat (max_fps - min_fps + 1)) max_fps = Some (Some i)"
    by (simp add: frame_interval_def)
  from pick_fps_Some [OF this] obtain f where "max_fps - int (nat (max_fps - min_fps + 1)) < f" "f \<le> max_fps"
    and t: "try_fps fr f = Some (Some i)"
    by blast
  then have "min_fps \<le> f"
    by linarith
  with \<open>f \<le> max_fps\<close> try_fps_Some [OF t] show ?thesis
    unfolding interval_fits_def None option.case by blast
next
  case (Some xs)
  with assms pick_interval_Some show ?thesis
    by (auto simp: frame_interval_def interval_fits_def)
qed

lemma pick_frame_Some:
  "pick_frame w h lo hi frs = Some (Some (fr, i)) \<Longrightarrow>
   fr \<in> set frs \<and> uint (wWidth fr) = w \<and> uint (wHeight fr) = h \<and> interval_fits fr lo hi i"
  by (induction frs) (auto split: if_splits bind_splits option.splits dest: frame_interval_fits)

text \<open>What is proposed to the device: a frame of the format at hand, of exactly the size asked for, and an interval it offers, from its array
  or its continuous range and step, at a rate between the two asked for; the device shall not negotiate the interval.\<close>

definition proposes :: "uvc_streaming_interface \<Rightarrow> uvc_format_desc \<Rightarrow> int \<Rightarrow> int \<Rightarrow> int \<Rightarrow> int \<Rightarrow> uvc_stream_ctrl \<Rightarrow> bool" where
  "proposes si fo width height min_fps max_fps p \<longleftrightarrow> (\<exists>fr \<in> set (frame_descs fo). uint (wWidth fr) = width \<and> uint (wHeight fr) = height \<and>
     sc_bInterfaceNumber p = si_bInterfaceNumber si \<and> sc_bFormatIndex p = bFormatIndex fo \<and> sc_bFrameIndex p = bFrameIndex fr \<and>
     interval_fits fr min_fps max_fps (dwFrameInterval p) \<and> bmHint p = 1)"

lemma query_interface:
  "uvc_query_stream_ctrl usb info c probe req d = (r, c', d') \<Longrightarrow> sc_bInterfaceNumber c' = sc_bInterfaceNumber c"
  by (auto simp: uvc_query_stream_ctrl_def Let_def decode_ctrl_def fix_max_size_def split: if_splits prod.splits option.splits)

lemma prepare_interface:
  assumes "prepare_stream_ctrl usb info c d = (r, c', d')"
  shows "sc_bInterfaceNumber c' = sc_bInterfaceNumber c"
proof -
  obtain r1 c1 d1 where 1: "uvc_query_stream_ctrl usb info c True UVC_GET_CUR d = (r1, c1, d1)"
    by (cases "uvc_query_stream_ctrl usb info c True UVC_GET_CUR d") auto
  obtain r2 c2 d2 where 2: "uvc_query_stream_ctrl usb info c1 True UVC_GET_MIN d1 = (r2, c2, d2)"
    by (cases "uvc_query_stream_ctrl usb info c1 True UVC_GET_MIN d1") auto
  show ?thesis
    using assms 1 2 query_interface [OF 1] query_interface [OF 2]
    by (auto simp: prepare_stream_ctrl_def Let_def dest: query_interface split: if_splits)
qed

lemma format_proposal:
  assumes "get_stream_ctrl_format h reset info si fo width height min_fps max_fps c d = Some (UVC_SUCCESS, p, d')"
  shows "proposes si fo width height min_fps max_fps p"
proof -
  obtain dc where "uvc_claim_if h (uint (si_bInterfaceNumber si)) d = (0, dc)"
    using assms by (auto simp: get_stream_ctrl_format_def Let_def split: prod.splits if_splits)
  moreover obtain r1 c1 d1 where 1: "prepare_stream_ctrl (host_usb h) info (c\<lparr>sc_bInterfaceNumber := si_bInterfaceNumber si\<rparr>) dc = (r1, c1, d1)"
    by (cases "prepare_stream_ctrl (host_usb h) info (c\<lparr>sc_bInterfaceNumber := si_bInterfaceNumber si\<rparr>) dc") auto
  moreover obtain r2 c2 d2 where 2: "prepare_stream_ctrl (host_usb h) info c1 d1 = (r2, c2, d2)"
    by (cases "prepare_stream_ctrl (host_usb h) info c1 d1") auto
  moreover have "sc_bInterfaceNumber c2 = si_bInterfaceNumber si"
    using prepare_interface [OF 1] prepare_interface [OF 2] by simp
  ultimately show ?thesis
    using assms unfolding proposes_def
    by (auto simp: get_stream_ctrl_format_def Let_def split: if_splits bind_splits option.splits dest!: pick_frame_Some)
qed

lemma probe_interface:
  assumes "uvc_probe_stream_ctrl h info p d = (r, c', d')"
  shows "sc_bInterfaceNumber c' = sc_bInterfaceNumber p"
proof -
  obtain e dc where 1: "uvc_claim_if h (uint (sc_bInterfaceNumber p)) d = (e, dc)"
    by (cases "uvc_claim_if h (uint (sc_bInterfaceNumber p)) d") auto
  obtain r1 c1 d1 where 2: "uvc_query_stream_ctrl (host_usb h) info p True UVC_SET_CUR dc = (r1, c1, d1)"
    by (cases "uvc_query_stream_ctrl (host_usb h) info p True UVC_SET_CUR dc") auto
  show ?thesis
    using assms 1 2 query_interface [OF 2] by (auto simp: uvc_probe_stream_ctrl_def Let_def dest: query_interface split: if_splits)
qed

lemma try_formats_proposal:
  "try_formats h reset info cf width height min_fps max_fps fs c d = Some (UVC_SUCCESS, c', d') \<Longrightarrow>
    \<exists>(si, fo) \<in> set fs. \<exists>p dp. uvc_frame_format_matches_guid cf (guidFormat fo) \<and> proposes si fo width height min_fps max_fps p \<and>
      uvc_probe_stream_ctrl h info p dp = (UVC_SUCCESS, c', d')"
proof (induction fs arbitrary: c d)
  case (Cons f fs)
  obtain si fo where f: "f = (si, fo)"
    by (cases f)
  show ?case
  proof (cases "uvc_frame_format_matches_guid cf (guidFormat fo)")
    case True
    with Cons.prems f obtain r p dp where g: "get_stream_ctrl_format h reset info si fo width height min_fps max_fps c d = Some (r, p, dp)"
      by (auto split: bind_splits)
    show ?thesis
    proof (cases "r = 0")
      case True
      with format_proposal [of h reset info si fo width height min_fps max_fps c d p dp] g
      have "proposes si fo width height min_fps max_fps p"
        by simp
      moreover have "uvc_probe_stream_ctrl h info p dp = (UVC_SUCCESS, c', d')"
        using Cons.prems f g True \<open>uvc_frame_format_matches_guid cf (guidFormat fo)\<close> by simp
      ultimately show ?thesis
        using f \<open>uvc_frame_format_matches_guid cf (guidFormat fo)\<close> by auto
    next
      case False
      with Cons.prems f g True have "try_formats h reset info cf width height min_fps max_fps fs p dp = Some (UVC_SUCCESS, c', d')"
        by simp
      from Cons.IH [OF this] show ?thesis
        by auto
    qed
  next
    case False
    with Cons.prems f have "try_formats h reset info cf width height min_fps max_fps fs c d = Some (UVC_SUCCESS, c', d')"
      by simp
    from Cons.IH [OF this] show ?thesis
      by auto
  qed
qed simp

text \<open>C23. A successful negotiation, for every device: a block was proposed to the device that names an interface of the camera, one of its formats
  of the kind asked for, a frame of that format with exactly the size asked for, and an interval the frame offers at a rate between the two
  asked for; the device took it in the probe (\<open>uvc_probe_stream_ctrl\<close>), and the block returned is what the device answered then, for the
  same interface. If the device answers with what was proposed, that is what the block returned names.\<close>

theorem negotiation_sound:
  assumes "uvc_get_stream_ctrl_format_size_fps h reset info cf width height min_fps max_fps d = Some (UVC_SUCCESS, c', d')"
  shows "\<exists>(si, fo) \<in> set (all_formats info). \<exists>fr \<in> set (frame_descs fo). \<exists>p dp.
    uvc_frame_format_matches_guid cf (guidFormat fo) \<and> uint (wWidth fr) = width \<and> uint (wHeight fr) = height \<and>
    sc_bInterfaceNumber p = si_bInterfaceNumber si \<and> sc_bFormatIndex p = bFormatIndex fo \<and> sc_bFrameIndex p = bFrameIndex fr \<and>
    interval_fits fr min_fps max_fps (dwFrameInterval p) \<and> bmHint p = 1 \<and>
    uvc_probe_stream_ctrl h info p dp = (UVC_SUCCESS, c', d') \<and> sc_bInterfaceNumber c' = si_bInterfaceNumber si"
proof -
  obtain si fo p dp where p: "(si, fo) \<in> set (all_formats info)" "uvc_frame_format_matches_guid cf (guidFormat fo)"
    "proposes si fo width height min_fps max_fps p" "uvc_probe_stream_ctrl h info p dp = (UVC_SUCCESS, c', d')"
    using try_formats_proposal [OF assms [unfolded uvc_get_stream_ctrl_format_size_fps_def]] by auto
  have "sc_bInterfaceNumber c' = si_bInterfaceNumber si"
    using probe_interface [OF p(4)] p(3) by (auto simp: proposes_def)
  with p show ?thesis
    unfolding proposes_def by fastforce
qed

text \<open>When the size-matching frames of a format have well-formed discrete intervals the search for a frame is total, and it gives up
  only if none of them has an interval at a rate in the range.\<close>

theorem discrete_search_complete:
  assumes "\<forall>fr \<in> set frs. uint (wWidth fr) = width \<and> uint (wHeight fr) = height \<longrightarrow>
      (\<exists>xs. intervals fr = Some (xs @ [0]) \<and> 0 \<notin> set xs)"
  shows "\<exists>r. pick_frame width height min_fps max_fps frs = Some r \<and>
    (r = None \<longrightarrow> \<not> (\<exists>fr \<in> set frs. \<exists>i. uint (wWidth fr) = width \<and> uint (wHeight fr) = height \<and>
       interval_fits fr min_fps max_fps i))"
  using assms
proof (induction frs)
  case (Cons fr frs)
  then obtain r where r: "pick_frame width height min_fps max_fps frs = Some r"
    and none: "r = None \<longrightarrow> \<not> (\<exists>fr \<in> set frs. \<exists>i. uint (wWidth fr) = width \<and> uint (wHeight fr) = height \<and>
       interval_fits fr min_fps max_fps i)"
    by auto
  show ?case
  proof (cases "uint (wWidth fr) = width \<and> uint (wHeight fr) = height")
    case True
    with Cons.prems obtain xs where xs: "intervals fr = Some (xs @ [0])" "0 \<notin> set xs"
      by auto
    from pick_interval_terminated [OF xs(2), of "word_of_int min_fps" "word_of_int max_fps"]
    obtain q where q: "frame_interval fr min_fps max_fps = Some q"
      and qn: "q = None \<Longrightarrow> \<not> interval_fits fr min_fps max_fps i" for i
      by (auto simp: frame_interval_def interval_fits_def xs)
    show ?thesis
      using True q qn r none by (cases q) auto
  next
    case False
    with r none show ?thesis
      by auto
  qed
qed simp

text \<open>A continuous frame whose descriptor gives the step 0 makes the negotiation divide by zero, for every rate whose interval lies
  inside the range but is not its lower end.\<close>

theorem continuous_step_zero:
  assumes "intervals fr = None" and "dwFrameIntervalStep fr = 0" and "0 < fps"
    and "dwMinFrameInterval fr < word_of_int (10000000 sdiv fps)"
    and "word_of_int (10000000 sdiv fps) \<le> dwMaxFrameInterval fr"
  shows "pick_frame (uint (wWidth fr)) (uint (wHeight fr)) fps fps (fr # frs) = None"
proof -
  have "try_fps fr fps = None"
    using assms(2-5) by (auto simp: try_fps_def Let_def)
  then show ?thesis
    using assms(1) by (simp add: frame_interval_def)
qed

section \<open>Instances\<close>

text \<open>A bus on which every interface can be claimed.\<close>

definition mem_host :: "mem_dev usb_host" where
  "mem_host = \<lparr>host_usb = mem_usb, libusb_claim_interface = (\<lambda>_ d. (0, d)),
     libusb_release_interface = (\<lambda>_ d. (0, d)), libusb_set_interface_alt_setting = (\<lambda>_ _ d. (0, d))\<rparr>"

definition vga_frame :: uvc_frame_desc where
  "vga_frame = zero_frame\<lparr>fr_bDescriptorSubtype := 7, bFrameIndex := 3, wWidth := 640, wHeight := 480,
     bFrameIntervalType := 2, intervals := Some [333333, 666666, 0]\<rparr>"

definition vga_format :: uvc_format_desc where
  "vga_format = zero_format\<lparr>fo_bDescriptorSubtype := 6, bFormatIndex := 2, guidFormat := MJPG @ replicate 12 0,
     frame_descs := [vga_frame]\<rparr>"

text \<open>A device that answers every probe with the same block.\<close>

definition demo_dev :: mem_dev where
  "demo_dev = (\<lambda>_. encode_ctrl 26 demo_ctrl)"

definition vga_info :: uvc_device_info where
  "vga_info = (zero_info [])\<lparr>stream_ifs := [zero_streaming\<lparr>si_bInterfaceNumber := 1, format_descs := [vga_format]\<rparr>]\<rparr>"

text \<open>The device takes the proposal and answers with it.\<close>

theorem negotiation_sound_witness:
  "\<exists>c' d' p dp. uvc_get_stream_ctrl_format_size_fps mem_host False vga_info FORMAT_MJPEG 640 480 10 20 demo_dev = Some (UVC_SUCCESS, c', d') \<and>
     sc_bFrameIndex c' = 3 \<and> dwFrameInterval c' = 666666 \<and> sc_bFrameIndex p = 3 \<and> uvc_probe_stream_ctrl mem_host vga_info p dp = (UVC_SUCCESS, c', d')"
proof -
  have "map_option (\<lambda>(r, c, d). (r, sc_bFrameIndex c, dwFrameInterval c))
      (uvc_get_stream_ctrl_format_size_fps mem_host False vga_info FORMAT_MJPEG 640 480 10 20 demo_dev) = Some (UVC_SUCCESS, 3, 666666)"
    by code_simp
  then obtain c' d' where run: "uvc_get_stream_ctrl_format_size_fps mem_host False vga_info FORMAT_MJPEG 640 480 10 20 demo_dev =
      Some (UVC_SUCCESS, c', d')" and c': "sc_bFrameIndex c' = 3" "dwFrameInterval c' = 666666"
    by auto
  from negotiation_sound [OF run] obtain p dp where "sc_bFrameIndex p = 3" "uvc_probe_stream_ctrl mem_host vga_info p dp = (UVC_SUCCESS, c', d')"
    by (auto simp: vga_info_def all_formats_def zero_info_def vga_format_def vga_frame_def)
  with run c' show ?thesis
    by blast
qed

theorem discrete_search_complete_witness:
  "\<exists>r. pick_frame 640 480 31 60 [vga_frame] = Some r"
  using discrete_search_complete [of "[vga_frame]" 640 480 31 60]
  by (force simp: vga_frame_def intro: exI [of _ "[333333, 666666]"])

theorem continuous_step_zero_witness:
  "pick_frame 0 0 30 30 [zero_frame\<lparr>dwMaxFrameInterval := 400000\<rparr>] = None"
  using continuous_step_zero [of "zero_frame\<lparr>dwMaxFrameInterval := 400000\<rparr>" 30 "[]"]
  by (simp add: zero_frame_def signed_divide_int_def)

end
