(* ===== verification/Uvc_Payload.thy ===== *)
theory Uvc_Payload
  imports Uvc_Bytes
begin

text \<open>
  Payloads into frames (\<open>stream.c\<close>: \<open>_uvc_swap_buffers\<close>, \<open>_uvc_process_payload\<close>,
  \<open>_uvc_process_payload_iso\<close>). The two frame buffers are lists of their full size; a null buffer is
  \<open>None\<close>. Two fields are history: \<open>published\<close>, what the hold fields showed to the consumers after each swap, and
  \<open>clear_halts\<close>, the number of \<open>libusb_clear_halt\<close> calls on the streaming endpoint; its result, and that of the request for the
  error code made next to it, are ignored.
  A failing \<open>assert\<close> and, where assertions are compiled out, the write past the buffer that follows, are both \<open>None\<close>.
\<close>

section \<open>State\<close>

abbreviation "UVC_STREAM_ERR \<equiv> (0x40 :: u8)"
abbreviation "UVC_STREAM_SCR \<equiv> (0x08 :: u8)"
abbreviation "UVC_STREAM_PTS \<equiv> (0x04 :: u8)"
abbreviation "UVC_STREAM_EOF \<equiv> (0x02 :: u8)"
abbreviation "UVC_STREAM_FID \<equiv> (0x01 :: u8)"

record published_frame =
  pf_bytes :: bytes
  pf_err :: u8
  pf_seq :: u32
  pf_pts :: u32
  pf_scr :: u32

record stream =
  is_isight :: bool
  running :: bool
  bfh_err :: u8
  hold_bfh_err :: u8
  fid :: u8
  seq :: u32
  hold_seq :: u32
  pts :: u32
  hold_pts :: u32
  last_scr :: u32
  hold_last_scr :: u32
  got_bytes :: nat
  hold_bytes :: nat
  size_buf :: nat
  outbuf :: "bytes option"
  holdbuf :: "bytes option"
  published :: "published_frame list"
  clear_halts :: nat

definition partial_frame :: "stream \<Rightarrow> bytes" where
  "partial_frame s = (case outbuf s of None \<Rightarrow> [] | Some b \<Rightarrow> take (got_bytes s) b)"

definition swap_buffers :: "stream \<Rightarrow> stream" where
  "swap_buffers s = s\<lparr>
     hold_bfh_err := bfh_err s, hold_bytes := got_bytes s, holdbuf := outbuf s, outbuf := holdbuf s,
     hold_last_scr := last_scr s, hold_pts := pts s, hold_seq := seq s,
     published := published s @ [\<lparr>pf_bytes = partial_frame s, pf_err = bfh_err s, pf_seq = seq s,
       pf_pts = pts s, pf_scr = last_scr s\<rparr>],
     seq := seq s + 1, got_bytes := 0, last_scr := 0, pts := 0, bfh_err := 0\<rparr>"

definition flag :: "u8 \<Rightarrow> u8 \<Rightarrow> bool" where
  "flag info m \<longleftrightarrow> info AND m \<noteq> 0"

definition set_err :: "stream \<Rightarrow> stream" where
  "set_err s = s\<lparr>bfh_err := bfh_err s OR UVC_STREAM_ERR\<rparr>"

definition clear_halt :: "stream \<Rightarrow> stream" where
  "clear_halt s = s\<lparr>clear_halts := Suc (clear_halts s)\<rparr>"

definition isight_tag :: bytes where
  "isight_tag = [0x11, 0x22, 0x33, 0x44, 0xde, 0xad, 0xbe, 0xef, 0xde, 0xad, 0xfa, 0xce]"

text \<open>The start of a frame by its id bit: publish what is left of the one before.\<close>

definition flip_frame :: "u8 \<Rightarrow> stream \<Rightarrow> stream" where
  "flip_frame info s =
     (let s = (if fid s \<noteq> info AND UVC_STREAM_FID \<and> got_bytes s \<noteq> 0 then swap_buffers s else s)
      in s\<lparr>fid := info AND UVC_STREAM_FID\<rparr>)"

section \<open>Bulk payloads\<close>

text \<open>The clock fields: each takes four bytes of the header when they are inside it, else it is cleared.\<close>

definition header_clocks :: "bytes \<Rightarrow> nat \<Rightarrow> stream \<Rightarrow> stream option" where
  "header_clocks payload header_len s =
     (let info = payload ! 1 in do {
        (s, variable_offset) \<leftarrow>
          (if flag info UVC_STREAM_PTS then
             (if 2 + 4 \<le> header_len
              then need 6 payload (Some (s\<lparr>pts := DW_TO_INT (drop 2 payload)\<rparr>, 6))
              else Some (s\<lparr>pts := 0\<rparr>, 2))
           else Some (s, 2));
        if flag info UVC_STREAM_SCR then
          (if variable_offset + 4 \<le> header_len
           then need (variable_offset + 4) payload
             (Some (s\<lparr>last_scr := DW_TO_INT (drop variable_offset payload)\<rparr>))
           else Some (s\<lparr>last_scr := 0\<rparr>))
        else Some s })"

text \<open>\<open>got_bytes + data_len\<close> is computed in \<open>size_t\<close>.\<close>

definition add_data :: "bytes \<Rightarrow> stream \<Rightarrow> stream option" where
  "add_data data s =
     (let n = (got_bytes s + length data) mod 2 ^ 32 in
      if n < size_buf s
      then (case outbuf s of None \<Rightarrow> None
        | Some b \<Rightarrow> do { b \<leftarrow> mem_write (got_bytes s) data b; Some (s\<lparr>outbuf := Some b, got_bytes := n\<rparr>) })
      else Some (set_err s))"

definition payload_data :: "bytes \<Rightarrow> u8 \<Rightarrow> stream \<Rightarrow> stream option" where
  "payload_data data info s =
     (if data \<noteq> [] then do {
        s \<leftarrow> add_data data s;
        Some (if flag info UVC_STREAM_EOF then swap_buffers s else s) }
      else Some s)"

text \<open>\<open>payload\<close> holds exactly the bytes transferred; a null payload is the empty list.\<close>

definition process_payload :: "stream \<Rightarrow> bytes \<Rightarrow> stream option" where
  "process_payload s payload =
     (let payload_len = length payload in
      if payload_len = 0 \<or> outbuf s = None then Some s
      else if is_isight s \<and>
          (payload_len < 14 \<or> take 12 (drop 2 payload) \<noteq> isight_tag) \<and>
          (payload_len < 15 \<or> take 12 (drop 3 payload) \<noteq> isight_tag)
      then payload_data payload 0 s
      else need 1 payload
        (let header_len = unat (payload ! 0) in
         if header_len > payload_len then Some (set_err s)
         else (let data = (if is_isight s then [] else drop header_len payload) in
           if header_len < 2 then payload_data data 0 s
           else need 2 payload
             (let info = payload ! 1;
                  s = (if flag info UVC_STREAM_ERR then clear_halt s else s)
              in do {
                s \<leftarrow> header_clocks payload header_len (flip_frame info s);
                payload_data data info s }))))"

section \<open>Isochronous packets\<close>

text \<open>
  \<open>pkt_mem\<close> is the transfer buffer from the start of the packet on, \<open>None\<close> when
  \<open>libusb_get_iso_packet_buffer_simple\<close> returns null; the bytes past \<open>actual_length\<close> are whatever is there.
\<close>

record iso_packet =
  pkt_status :: int
  actual_length :: nat
  pkt_mem :: "bytes option"

definition iso_header :: "nat \<Rightarrow> bytes \<Rightarrow> stream \<Rightarrow> stream option" where
  "iso_header header_len b s =
     (let info = b ! 1; s = flip_frame info s in do {
        s \<leftarrow> (if flag info UVC_STREAM_PTS then
               (if header_len \<ge> 6 then need 6 b (Some (s\<lparr>pts := DW_TO_INT (drop 2 b)\<rparr>)) else Some (s\<lparr>pts := 0\<rparr>))
             else Some s);
        if flag info UVC_STREAM_SCR then
          (if header_len \<ge> 10 then need 10 b (Some (s\<lparr>last_scr := DW_TO_INT (drop 6 b)\<rparr>)) else Some (s\<lparr>last_scr := 0\<rparr>))
        else Some s })"

text \<open>The asserts bound the copy; nothing else does.\<close>

definition iso_data :: "nat \<Rightarrow> nat \<Rightarrow> bytes \<Rightarrow> stream \<Rightarrow> stream option" where
  "iso_data alen header_len b s =
     (if alen < header_len then Some (set_err s)
      else do {
        s \<leftarrow> (if alen > header_len then
               (let odd_bytes = alen - header_len in
                if got_bytes s + odd_bytes < size_buf s
                then (case outbuf s of None \<Rightarrow> None
                  | Some ob \<Rightarrow> need alen b (do {
                      ob \<leftarrow> mem_write (got_bytes s) (take odd_bytes (drop header_len b)) ob;
                      Some (s\<lparr>outbuf := Some ob, got_bytes := got_bytes s + odd_bytes\<rparr>) }))
                else None)
             else Some s);
        need 2 b (Some (if flag (b ! 1) UVC_STREAM_EOF \<and> got_bytes s \<noteq> 0 then swap_buffers s else s)) })"

definition process_iso_packet :: "stream \<Rightarrow> iso_packet \<Rightarrow> stream option" where
  "process_iso_packet s pkt =
     (let alen = actual_length pkt in
      if pkt_status pkt \<noteq> 0 then Some (clear_halt (set_err s))
      else if alen = 0 then Some s
      else (case pkt_mem pkt of None \<Rightarrow> Some (set_err s)
        | Some b \<Rightarrow>
           if is_isight s \<and> alen < 30 then iso_data alen 0 b s
           else need (if is_isight s then 15 else 1) b
             (if is_isight s \<and> take 12 (drop 2 b) \<noteq> isight_tag \<and> take 12 (drop 3 b) \<noteq> isight_tag
              then iso_data alen 0 b s
              else (let header_len = unat (b ! 0) in need 2 b
                (if flag (b ! 1) UVC_STREAM_ERR then Some (clear_halt s)
                 else do {
                   s \<leftarrow> iso_header header_len b s;
                   if is_isight s then Some s else iso_data alen header_len b s })))))"

text \<open>The loop over the packets of a transfer.\<close>

definition process_payload_iso :: "stream \<Rightarrow> iso_packet list \<Rightarrow> stream option" where
  "process_payload_iso s pkts = run_partial process_iso_packet s pkts"

section \<open>Memory safety\<close>

definition stream_ok :: "stream \<Rightarrow> bool" where
  "stream_ok s \<longleftrightarrow> (\<exists>b h. outbuf s = Some b \<and> holdbuf s = Some h \<and> length b = size_buf s \<and> length h = size_buf s) \<and>
     0 < size_buf s \<and> size_buf s < 2 ^ 31 \<and> got_bytes s < size_buf s"

lemma swap_buffers_ok [intro]: "stream_ok s \<Longrightarrow> stream_ok (swap_buffers s)"
  by (auto simp: stream_ok_def swap_buffers_def)

lemma flip_frame_ok: "stream_ok s \<Longrightarrow> stream_ok (flip_frame info s)"
  by (auto simp: flip_frame_def Let_def stream_ok_def swap_buffers_def)

lemma set_err_ok [simp]: "stream_ok (set_err s) = stream_ok s"
  by (simp add: stream_ok_def set_err_def)

lemma clear_halt_ok [simp]: "stream_ok (clear_halt s) = stream_ok s"
  by (simp add: stream_ok_def clear_halt_def)

lemma add_data_safe:
  assumes "stream_ok s" and "length data < 2 ^ 31"
  shows "\<exists>s'. add_data data s = Some s' \<and> stream_ok s'"
proof -
  obtain b h where *: "outbuf s = Some b" "holdbuf s = Some h" "length b = size_buf s" "length h = size_buf s"
    "size_buf s < 2 ^ 31" "got_bytes s < size_buf s"
    using assms(1) by (auto simp: stream_ok_def)
  then have "(got_bytes s + length data) mod 2 ^ 32 = got_bytes s + length data"
    using assms(2) by (intro mod_less) simp
  then show ?thesis
    using * assms(1) by (auto simp: add_data_def Let_def mem_write_def stream_ok_def set_err_def)
qed

lemma payload_data_safe:
  assumes "stream_ok s" and "length data < 2 ^ 31"
  shows "\<exists>s'. payload_data data info s = Some s' \<and> stream_ok s'"
  using add_data_safe [OF assms] assms(1) by (auto simp: payload_data_def)

lemma header_clocks_safe:
  assumes "stream_ok s" and "header_len \<le> length payload"
  shows "\<exists>s'. header_clocks payload header_len s = Some s' \<and> stream_ok s'"
  using assms by (auto simp: header_clocks_def Let_def need_def stream_ok_def)

lemma process_payload_safe:
  assumes "stream_ok s" and "length payload < 2 ^ 31"
  shows "\<exists>s'. process_payload s payload = Some s' \<and> stream_ok s'"
proof -
  have "\<exists>s'. (do { s1 \<leftarrow> header_clocks payload hl s0; payload_data data info s1 }) = Some s' \<and> stream_ok s'"
    if ok: "stream_ok s0" and hl: "hl \<le> length payload" and data: "length data \<le> length payload" for s0 hl data info
  proof -
    obtain s1 where "header_clocks payload hl s0 = Some s1" "stream_ok s1"
      using header_clocks_safe [OF ok hl] by blast
    with payload_data_safe [of s1 data info] assms(2) data show ?thesis
      by auto
  qed
  note rest = this
  show ?thesis
  proof (cases "payload = []")
    case False
    then have "Suc 0 \<le> length payload"
      by (cases payload) simp_all
    then show ?thesis
      using assms payload_data_safe [OF assms(1)]
      by (auto simp: process_payload_def Let_def need_def not_less intro!: rest flip_frame_ok
          intro: payload_data_safe)
  qed (use assms(1) in \<open>simp add: process_payload_def\<close>)
qed

interpretation payload_run: safe_step process_payload stream_ok "\<lambda>p. length p < 2 ^ 31"
  by unfold_locales (rule process_payload_safe)

text \<open>C30. Bulk streaming is memory safe: from a stream with its two buffers, any sequence of payloads whatsoever, of any length
  an \<open>int\<close> can count and with any header, is processed without reading outside a payload or writing outside the frame buffer, and the buffers
  stay in place.\<close>

theorem bulk_memory_safe:
  assumes "stream_ok s" and "list_all (\<lambda>p. length p < 2 ^ 31) ps"
  shows "\<exists>s'. run_partial process_payload s ps = Some s' \<and> stream_ok s'"
  using assms by (rule payload_run.run_safe)

section \<open>Reassembly\<close>

text \<open>
  The specification: a frame is the data of consecutive payloads, closed by the end-of-frame bit of a payload with data or by
  the next change of the frame id. State: the id, the data so far, the frames out with their error flags.
\<close>

type_synonym assembler = "u8 \<times> bytes \<times> (bytes \<times> u8) list"

fun asm_step :: "assembler \<Rightarrow> u8 \<times> bytes \<Rightarrow> assembler" where
  "asm_step (f, acc, out) (info, data) =
     (let (acc, out) = (if f \<noteq> info AND UVC_STREAM_FID \<and> acc \<noteq> [] then ([], out @ [(acc, 0)]) else (acc, out));
          acc = acc @ data
      in if data \<noteq> [] \<and> flag info UVC_STREAM_EOF then (info AND UVC_STREAM_FID, [], out @ [(acc, 0)])
         else (info AND UVC_STREAM_FID, acc, out))"

definition stream_abs :: "stream \<Rightarrow> assembler" where
  "stream_abs s = (fid s, partial_frame s, map (\<lambda>f. (pf_bytes f, pf_err f)) (published s))"

text \<open>A payload with a header of at least two bytes, and its contents.\<close>

definition has_header :: "bytes \<Rightarrow> bool" where
  "has_header p \<longleftrightarrow> p \<noteq> [] \<and> 2 \<le> unat (p ! 0) \<and> unat (p ! 0) \<le> length p"

definition payload_contents :: "bytes \<Rightarrow> u8 \<times> bytes" where
  "payload_contents p = (p ! 1, drop (unat (p ! 0)) p)"

text \<open>The frame under way and the new data leave one byte of the buffer free.\<close>

definition fits :: "nat \<Rightarrow> assembler \<Rightarrow> u8 \<times> bytes \<Rightarrow> bool" where
  "fits cap st x = (case (st, x) of ((f, acc, out), (info, data)) \<Rightarrow>
     (if f \<noteq> info AND UVC_STREAM_FID then 0 else length acc) + length data < cap)"

lemma partial_empty: "stream_ok s \<Longrightarrow> partial_frame s = [] \<longleftrightarrow> got_bytes s = 0"
  by (auto simp: partial_frame_def stream_ok_def)

lemma length_partial: "stream_ok s \<Longrightarrow> length (partial_frame s) = got_bytes s"
  by (auto simp: partial_frame_def stream_ok_def)

definition sim :: "nat \<Rightarrow> assembler \<Rightarrow> stream \<Rightarrow> bool" where
  "sim cap st s \<longleftrightarrow> stream_ok s \<and> stream_abs s = st \<and> bfh_err s = 0 \<and> \<not> is_isight s \<and> size_buf s = cap"

lemma swap_abs:
  "sim cap (f, acc, out) s \<Longrightarrow> sim cap (f, [], out @ [(acc, 0)]) (swap_buffers s)"
  by (auto simp: sim_def stream_abs_def swap_buffers_def partial_frame_def stream_ok_def)

lemma flip_sim:
  assumes "sim cap (f, acc, out) s"
  shows "sim cap (info AND UVC_STREAM_FID,
      (if f \<noteq> info AND UVC_STREAM_FID then [] else acc),
      (if f \<noteq> info AND UVC_STREAM_FID \<and> acc \<noteq> [] then out @ [(acc, 0)] else out)) (flip_frame info s)"
proof -
  have fid: "sim cap (g, a, q) s' \<Longrightarrow> sim cap (x, a, q) (s'\<lparr>fid := x\<rparr>)" for g a q x s'
    by (auto simp: sim_def stream_abs_def stream_ok_def partial_frame_def)
  from assms have "fid s = f" and acc: "acc = [] \<longleftrightarrow> got_bytes s = 0"
    using partial_empty [of s] by (auto simp: sim_def stream_abs_def)
  then show ?thesis
    using fid [OF assms] fid [OF swap_abs [OF assms]] by (auto simp: flip_frame_def Let_def)
qed

lemma header_clocks_sim:
  assumes "sim cap st s" and "hl \<le> length p"
  shows "\<exists>s'. header_clocks p hl s = Some s' \<and> sim cap st s'"
  using assms
  by (auto simp: header_clocks_def Let_def need_def sim_def stream_abs_def partial_frame_def stream_ok_def)

lemma payload_data_sim:
  assumes "sim cap (f, acc, out) s" and "length acc + length data < cap"
  shows "\<exists>s'. payload_data data info s = Some s' \<and>
    sim cap (if data \<noteq> [] \<and> flag info UVC_STREAM_EOF then (f, [], out @ [(acc @ data, 0)]) else (f, acc @ data, out)) s'"
proof -
  from assms(1) have ok: "stream_ok s" and acc: "acc = partial_frame s" and cap: "size_buf s = cap"
    by (auto simp: sim_def stream_abs_def)
  then obtain b h where b: "outbuf s = Some b" "length b = cap" "cap < 2 ^ 31" "holdbuf s = Some h" "length h = cap"
    by (auto simp: stream_ok_def)
  have got: "got_bytes s = length acc"
    using length_partial [OF ok] acc by simp
  let ?b = "take (got_bytes s) b @ data @ drop (got_bytes s + length data) b"
  let ?s = "s\<lparr>outbuf := Some ?b, got_bytes := got_bytes s + length data\<rparr>"
  have add: "add_data data s = Some ?s"
    using assms(2) b cap got by (simp add: add_data_def mem_write_def Let_def)
  have "partial_frame ?s = acc @ data"
    using acc b assms(2) got by (simp add: partial_frame_def)
  then have sim: "sim cap (f, acc @ data, out) ?s"
    using assms b cap got by (auto simp: sim_def stream_abs_def stream_ok_def)
  show ?thesis
  proof (cases "data = []")
    case True
    with assms(1) show ?thesis
      by (simp add: payload_data_def)
  next
    case False
    with sim swap_abs [OF sim] add show ?thesis
      by (simp add: payload_data_def)
  qed
qed

lemma process_payload_sim:
  assumes "sim cap st s" and "has_header p" and "fits cap st (payload_contents p)"
  shows "\<exists>s'. process_payload s p = Some s' \<and> sim cap (asm_step st (payload_contents p)) s'"
proof -
  obtain f acc out where st: "st = (f, acc, out)"
    by (cases st)
  let ?hl = "unat (p ! 0)" and ?info = "p ! 1"
  let ?acc = "if f \<noteq> ?info AND UVC_STREAM_FID then [] else acc"
  let ?out = "if f \<noteq> ?info AND UVC_STREAM_FID \<and> acc \<noteq> [] then out @ [(acc, 0)] else out"
  let ?s = "if flag ?info UVC_STREAM_ERR then clear_halt s else s"
  have "sim cap st ?s"
    using assms(1) by (auto simp: sim_def stream_abs_def clear_halt_def partial_frame_def stream_ok_def)
  then have "sim cap (?info AND UVC_STREAM_FID, ?acc, ?out) (flip_frame ?info ?s)"
    using flip_sim by (simp only: st)
  then obtain s1 where s1: "header_clocks p ?hl (flip_frame ?info ?s) = Some s1"
      "sim cap (?info AND UVC_STREAM_FID, ?acc, ?out) s1"
    using header_clocks_sim assms(2) unfolding has_header_def by blast
  have "length ?acc + length (drop ?hl p) < cap"
    using assms(3) by (auto simp: fits_def st payload_contents_def)
  from payload_data_sim [OF s1(2) this, of ?info] obtain s2 where
    s2: "payload_data (drop ?hl p) ?info s1 = Some s2"
      "sim cap (asm_step st (payload_contents p)) s2"
    by (auto simp: st payload_contents_def Let_def split: if_splits)
  have "Suc 0 \<le> length p" "2 \<le> length p"
    using assms(2) by (auto simp: has_header_def)
  moreover have "\<exists>b. outbuf s = Some b" "\<not> is_isight s"
    using assms(1) by (auto simp: sim_def stream_ok_def)
  ultimately have "process_payload s p = Some s2"
    using assms(2) s1(1) s2(1) by (auto simp: process_payload_def Let_def has_header_def)
  with s2(2) show ?thesis
    by blast
qed

fun all_fit :: "nat \<Rightarrow> assembler \<Rightarrow> (u8 \<times> bytes) list \<Rightarrow> bool" where
  "all_fit cap st [] = True"
| "all_fit cap st (x # xs) = (fits cap st x \<and> all_fit cap (asm_step st x) xs)"

lemma run_sim:
  "sim cap st s \<Longrightarrow> list_all has_header ps \<Longrightarrow> all_fit cap st (map payload_contents ps) \<Longrightarrow>
   \<exists>s'. run_partial process_payload s ps = Some s' \<and> sim cap (foldl asm_step st (map payload_contents ps)) s'"
proof (induction ps arbitrary: s st)
  case (Cons p ps)
  then obtain s1 where "process_payload s p = Some s1" "sim cap (asm_step st (payload_contents p)) s1"
    using process_payload_sim [of cap st s p] by auto
  with Cons.IH [of "asm_step st (payload_contents p)" s1] Cons.prems show ?case
    by auto
qed simp

text \<open>
  What a camera sends for a list of frames, each a list of chunks: two-byte headers, the frame id alternating from frame to frame,
  the end-of-frame bit on the last chunk.
\<close>

fun frame_payloads :: "u8 \<Rightarrow> bytes list \<Rightarrow> bytes list" where
  "frame_payloads f [] = []"
| "frame_payloads f [c] = [[2, f OR UVC_STREAM_EOF] @ c]"
| "frame_payloads f (c # c' # cs) = ([2, f] @ c) # frame_payloads f (c' # cs)"

fun stream_payloads :: "u8 \<Rightarrow> bytes list list \<Rightarrow> bytes list" where
  "stream_payloads f [] = []"
| "stream_payloads f (cs # frames) = frame_payloads f cs @ stream_payloads (f XOR UVC_STREAM_FID) frames"

lemma fid_bits:
  "(f :: u8) \<in> {0, 1} \<Longrightarrow> f AND 1 = f" "f \<in> {0, 1} \<Longrightarrow> (f OR 2) AND 1 = f"
  "f \<in> {0, 1} \<Longrightarrow> \<not> flag f UVC_STREAM_EOF" "flag (f OR 2) UVC_STREAM_EOF"
  "f \<in> {0, 1} \<Longrightarrow> f XOR 1 \<in> {0, 1}"
proof -
  show "flag (f OR 2) UVC_STREAM_EOF"
    unfolding flag_def
  proof
    assume "(f OR 2) AND 2 = 0"
    then have "bit ((f OR 2) AND 2) 1 = bit (0 :: u8) 1"
      by simp
    then show False
      by (simp add: bit_simps)
  qed
qed (auto simp: flag_def)

lemma payloads_have_header: "list_all has_header (frame_payloads f cs)"
  by (induction f cs rule: frame_payloads.induct) (simp_all add: has_header_def)

lemma asm_frame:
  assumes "f \<in> {0, 1}" and "cs \<noteq> []" and "\<forall>c \<in> set cs. c \<noteq> []" and "g = f \<or> acc = []"
    and "length acc + length (concat cs) < cap"
  shows "foldl asm_step (g, acc, out) (map payload_contents (frame_payloads f cs)) = (f, [], out @ [(acc @ concat cs, 0)]) \<and>
    all_fit cap (g, acc, out) (map payload_contents (frame_payloads f cs))"
  using assms
proof (induction f cs arbitrary: g acc rule: frame_payloads.induct)
  case (2 f c)
  then show ?case
    by (auto simp: payload_contents_def fid_bits fits_def)
next
  case (3 f c c' cs)
  have "foldl asm_step (f, acc @ c, out) (map payload_contents (frame_payloads f (c' # cs))) =
      (f, [], out @ [((acc @ c) @ concat (c' # cs), 0)]) \<and>
    all_fit cap (f, acc @ c, out) (map payload_contents (frame_payloads f (c' # cs)))"
    using 3 by (intro "3.IH") auto
  moreover have "asm_step (g, acc, out) (payload_contents ([2, f] @ c)) = (f, acc @ c, out)"
    using 3 by (auto simp: payload_contents_def fid_bits)
  moreover have "fits cap (g, acc, out) (payload_contents ([2, f] @ c))"
    using 3 by (auto simp: payload_contents_def fits_def fid_bits)
  ultimately show ?case
    by simp
qed simp

lemma all_fit_append:
  "all_fit cap st (xs @ ys) \<longleftrightarrow> all_fit cap st xs \<and> all_fit cap (foldl asm_step st xs) ys"
  by (induction xs arbitrary: st) auto

definition frames_fit :: "nat \<Rightarrow> bytes list list \<Rightarrow> bool" where
  "frames_fit cap frames \<longleftrightarrow> (\<forall>cs \<in> set frames. cs \<noteq> [] \<and> (\<forall>c \<in> set cs. c \<noteq> []) \<and> length (concat cs) < cap)"

lemma asm_frames:
  assumes "f \<in> {0, 1}" and "frames_fit cap frames"
  shows "\<exists>g. foldl asm_step (g0, [], out) (map payload_contents (stream_payloads f frames)) =
      (g, [], out @ map (\<lambda>cs. (concat cs, 0)) frames) \<and>
    all_fit cap (g0, [], out) (map payload_contents (stream_payloads f frames))"
  using assms
proof (induction frames arbitrary: f g0 out)
  case (Cons cs frames)
  have f: "f XOR 1 \<in> {0, 1}"
    using Cons.prems(1) by (rule fid_bits(5))
  have frames: "frames_fit cap frames"
    using Cons.prems(2) by (simp add: frames_fit_def)
  have one: "foldl asm_step (g0, [], out) (map payload_contents (frame_payloads f cs)) = (f, [], out @ [([] @ concat cs, 0)]) \<and>
      all_fit cap (g0, [], out) (map payload_contents (frame_payloads f cs))"
    using Cons.prems by (intro asm_frame) (auto simp: frames_fit_def)
  from Cons.IH [OF f frames, of f "out @ [(concat cs, 0)]"] one show ?case
    by (auto simp: all_fit_append)
qed simp

lemma stream_payloads_header: "list_all has_header (stream_payloads f frames)"
  by (induction frames arbitrary: f) (simp_all add: payloads_have_header)

lemma bulk_frames:
  assumes "stream_ok s" and "got_bytes s = 0" and "bfh_err s = 0" and "\<not> is_isight s"
    and "f \<in> {0, 1}" and "frames_fit (size_buf s) frames"
  shows "\<exists>s'. run_partial process_payload s (stream_payloads f frames) = Some s' \<and>
    map (\<lambda>p. (pf_bytes p, pf_err p)) (published s') =
      map (\<lambda>p. (pf_bytes p, pf_err p)) (published s) @ map (\<lambda>cs. (concat cs, 0)) frames \<and> got_bytes s' = 0"
proof -
  let ?out = "map (\<lambda>p. (pf_bytes p, pf_err p)) (published s)"
  have "partial_frame s = []"
    using partial_empty [OF assms(1)] assms(2) by simp
  then have start: "sim (size_buf s) (fid s, [], ?out) s"
    using assms(1,3,4) by (simp add: sim_def stream_abs_def)
  from asm_frames [OF assms(5,6), of "fid s" ?out] obtain g where
    fold: "foldl asm_step (fid s, [], ?out) (map payload_contents (stream_payloads f frames)) =
      (g, [], ?out @ map (\<lambda>cs. (concat cs, 0)) frames)"
    and fit: "all_fit (size_buf s) (fid s, [], ?out) (map payload_contents (stream_payloads f frames))"
    by blast
  from run_sim [OF start stream_payloads_header fit] obtain s' where run: "run_partial process_payload s (stream_payloads f frames) = Some s'"
    and sim: "sim (size_buf s) (g, [], ?out @ map (\<lambda>cs. (concat cs, 0)) frames) s'"
    unfolding fold by blast
  from sim have "got_bytes s' = 0"
    using partial_empty [of s'] by (auto simp: sim_def stream_abs_def)
  with run sim show ?thesis
    by (auto simp: sim_def stream_abs_def)
qed

text \<open>C1. End to end: what a camera sends for any list of frames, each cut into non-empty chunks in any way and smaller than the buffer, is published as exactly
  those frames, in order, each the concatenation of its chunks, without its error flag.\<close>

theorem bulk_reassembly:
  assumes "stream_ok s" and "got_bytes s = 0" and "bfh_err s = 0" and "\<not> is_isight s"
    and "f \<in> {0, 1}" and "frames_fit (size_buf s) frames"
  shows "\<exists>s'. run_partial process_payload s (stream_payloads f frames) = Some s' \<and>
    map (\<lambda>p. (pf_bytes p, pf_err p)) (published s') =
      map (\<lambda>p. (pf_bytes p, pf_err p)) (published s) @ map (\<lambda>cs. (concat cs, 0)) frames \<and> got_bytes s' = 0"
  using assms by (rule bulk_frames)

text \<open>C17. Refinement: as long as the frame under way leaves a byte of the buffer free, the code's state is at every moment the
  state of the assembler, whatever mixture of id changes, end-of-frame bits, error bits, clock fields and empty payloads arrives.\<close>

theorem bulk_refines_assembler:
  assumes "stream_ok s" and "bfh_err s = 0" and "\<not> is_isight s" and "list_all has_header ps"
    and "all_fit (size_buf s) (stream_abs s) (map payload_contents ps)"
  shows "\<exists>s'. run_partial process_payload s ps = Some s' \<and>
    stream_abs s' = foldl asm_step (stream_abs s) (map payload_contents ps)"
proof -
  have "sim (size_buf s) (stream_abs s) s"
    using assms(1-3) by (simp add: sim_def)
  from run_sim [OF this assms(4,5)] show ?thesis
    by (auto simp: sim_def)
qed

section \<open>Frame numbers\<close>

text \<open>Frames are numbered from 0 in the order they are published, and the counter is one ahead of the frame on hold.\<close>

definition seq_ok :: "stream \<Rightarrow> bool" where
  "seq_ok s \<longleftrightarrow> map pf_seq (published s) = map of_nat [0..<length (published s)] \<and> seq s = of_nat (length (published s))"

text \<open>
  What a payload or packet writes: the fields of the header and the error flag, the buffer under way, and everything a swap does. A
  property kept by these is kept by every payload and every packet.
\<close>

locale payload_invariant =
  fixes P :: "stream \<Rightarrow> bool"
  assumes swap: "P s \<Longrightarrow> P (swap_buffers s)"
    and fid: "P s \<Longrightarrow> P (s\<lparr>fid := a\<rparr>)"
    and pts: "P s \<Longrightarrow> P (s\<lparr>pts := c\<rparr>)"
    and scr: "P s \<Longrightarrow> P (s\<lparr>last_scr := c\<rparr>)"
    and err: "P s \<Longrightarrow> P (s\<lparr>bfh_err := a\<rparr>)"
    and halts: "P s \<Longrightarrow> P (s\<lparr>clear_halts := n\<rparr>)"
    and data: "P s \<Longrightarrow> P (s\<lparr>outbuf := Some b, got_bytes := n\<rparr>)"
begin

lemma set_err: "P s \<Longrightarrow> P (set_err s)"
  by (simp add: set_err_def err)

lemma clear_halt: "P s \<Longrightarrow> P (clear_halt s)"
  by (simp add: clear_halt_def halts)

lemma flip: "P s \<Longrightarrow> P (flip_frame info s)"
  by (simp add: flip_frame_def Let_def swap fid)

lemma clocks: "P s \<Longrightarrow> header_clocks p hl s = Some s' \<Longrightarrow> P s'"
  by (auto simp: header_clocks_def Let_def ub_simps pts scr split: if_splits bind_splits)

lemma iso_clocks: "P s \<Longrightarrow> iso_header hl b s = Some s' \<Longrightarrow> P s'"
  by (auto simp: iso_header_def Let_def ub_simps pts scr flip split: if_splits bind_splits)

lemma add: "P s \<Longrightarrow> add_data xs s = Some s' \<Longrightarrow> P s'"
  by (auto simp: add_data_def Let_def data set_err split: if_splits bind_splits option.splits)

lemma payload_end: "P s \<Longrightarrow> payload_data xs info s = Some s' \<Longrightarrow> P s'"
  by (auto simp: payload_data_def swap dest: add split: if_splits bind_splits)

lemma iso_end: "P s \<Longrightarrow> iso_data alen hl b s = Some s' \<Longrightarrow> P s'"
  by (auto simp: iso_data_def Let_def ub_simps swap data set_err split: if_splits bind_splits option.splits)

lemma payload:
  assumes "P s" and "process_payload s p = Some s'"
  shows "P s'"
proof -
  have step: "P s2" if "header_clocks p hl (flip_frame i s0) = Some s1" "payload_data d j s1 = Some s2" "P s0"
    for hl i d j s0 s1 s2
    using that payload_end clocks flip by blast
  from assms show ?thesis
    unfolding process_payload_def Let_def need_def
    by (auto split: if_splits bind_splits dest: payload_end [OF assms(1)] intro: step set_err clear_halt)
qed

lemma packet:
  assumes "P s" and "process_iso_packet s pkt = Some s'"
  shows "P s'"
proof -
  have step: "P s2" if "iso_header hl b s = Some s1" "iso_data alen hl b s1 = Some s2" for hl b alen s1 s2
    using that iso_clocks [OF assms(1)] iso_end by blast
  from assms show ?thesis
    unfolding process_iso_packet_def Let_def need_def
    by (auto split: if_splits bind_splits option.splits dest: iso_end [OF assms(1)] iso_clocks [OF assms(1)]
        intro: step set_err clear_halt)
qed

lemma packets: "P s \<Longrightarrow> process_payload_iso s pkts = Some s' \<Longrightarrow> P s'"
  unfolding process_payload_iso_def
  by (induction pkts arbitrary: s) (auto split: bind_splits intro: packet)

end

interpretation numbered: payload_invariant seq_ok
  by unfold_locales (simp_all add: seq_ok_def swap_buffers_def)

text \<open>A run of a mixture of bulk payloads and isochronous packets.\<close>

fun process_any :: "stream \<Rightarrow> bytes + iso_packet \<Rightarrow> stream option" where
  "process_any s (Inl p) = process_payload s p"
| "process_any s (Inr pkt) = process_iso_packet s pkt"

lemma process_any_seq_ok: "seq_ok s \<Longrightarrow> process_any s x = Some s' \<Longrightarrow> seq_ok s'"
  by (cases x) (auto intro: numbered.payload numbered.packet)

lemma run_any_Inl: "run_partial process_any s (map Inl ps) = run_partial process_payload s ps"
  by (induction ps arbitrary: s) simp_all

text \<open>Whatever arrives, frames are numbered consecutively from 0 as they are published, none twice and none left out (up to the
  wrap of the 32-bit counter).\<close>

theorem frames_numbered:
  assumes "published s = []" and "seq s = 0" and "run_partial process_any s xs = Some s'"
  shows "map pf_seq (published s') = map of_nat [0..<length (published s')] \<and>
    seq s' = of_nat (length (published s'))"
proof -
  have "run_partial process_any s xs = Some s' \<Longrightarrow> seq_ok s \<Longrightarrow> seq_ok s'" for s
    by (induction xs arbitrary: s) (auto split: bind_splits intro: process_any_seq_ok)
  then show ?thesis
    using assms by (simp add: seq_ok_def)
qed

section \<open>Isochronous bounds\<close>

text \<open>A packet whose slot in the transfer buffer holds what it claims and at least the fifteen bytes the header code may look at.\<close>

definition slot_ok :: "iso_packet \<Rightarrow> bool" where
  "slot_ok pkt \<longleftrightarrow> (case pkt_mem pkt of None \<Rightarrow> True | Some b \<Rightarrow> 15 \<le> length b \<and> actual_length pkt \<le> length b)"

lemma iso_header_safe:
  assumes "stream_ok s" and "15 \<le> length b"
  shows "\<exists>s'. iso_header hl b s = Some s' \<and> stream_ok s' \<and> got_bytes s' \<le> got_bytes s \<and> size_buf s' = size_buf s \<and>
    is_isight s' = is_isight s"
proof -
  have "got_bytes (flip_frame i s) \<le> got_bytes s" "size_buf (flip_frame i s) = size_buf s"
    "is_isight (flip_frame i s) = is_isight s" for i
    by (auto simp: flip_frame_def swap_buffers_def Let_def)
  with flip_frame_ok [OF assms(1)] show ?thesis
    using assms(2) by (auto simp: iso_header_def Let_def need_def stream_ok_def)
qed

lemma iso_data_safe:
  assumes "stream_ok s" and "15 \<le> length b" and "alen \<le> length b" and "got_bytes s + alen < size_buf s"
  shows "\<exists>s'. iso_data alen hl b s = Some s' \<and> stream_ok s' \<and> got_bytes s' \<le> got_bytes s + alen \<and> size_buf s' = size_buf s"
proof (cases "alen \<le> hl")
  case True
  with assms show ?thesis
    by (auto simp: iso_data_def need_def set_err_def stream_ok_def swap_buffers_def)
next
  case False
  obtain ob h where ob: "outbuf s = Some ob" "length ob = size_buf s" "holdbuf s = Some h" "length h = size_buf s" "size_buf s < 2 ^ 31"
    using assms(1) by (auto simp: stream_ok_def)
  then have "\<exists>ob'. mem_write (got_bytes s) (take (alen - hl) (drop hl b)) ob = Some ob' \<and> length ob' = size_buf s"
    using assms(3,4) by (auto simp: mem_write_def)
  then obtain ob' where "mem_write (got_bytes s) (take (alen - hl) (drop hl b)) ob = Some ob'" "length ob' = size_buf s"
    by blast
  with False ob assms show ?thesis
    by (auto simp: iso_data_def Let_def need_def stream_ok_def swap_buffers_def)
qed

lemma iso_packet_safe:
  assumes "stream_ok s" and "slot_ok pkt" and "got_bytes s + actual_length pkt < size_buf s"
  shows "\<exists>s'. process_iso_packet s pkt = Some s' \<and> stream_ok s' \<and>
    got_bytes s' \<le> got_bytes s + actual_length pkt \<and> size_buf s' = size_buf s"
proof (cases "pkt_mem pkt")
  case None
  then show ?thesis
    using assms by (auto simp: process_iso_packet_def Let_def set_err_def clear_halt_def stream_ok_def)
next
  case (Some b)
  then have b: "15 \<le> length b" "actual_length pkt \<le> length b"
    using assms(2) by (simp_all add: slot_ok_def)
  obtain s1 where s1: "iso_header (unat (b ! 0)) b s = Some s1" "stream_ok s1" "got_bytes s1 \<le> got_bytes s"
    "size_buf s1 = size_buf s" "is_isight s1 = is_isight s"
    using iso_header_safe [OF assms(1) b(1)] by blast
  obtain s2 where "iso_data (actual_length pkt) (unat (b ! 0)) b s1 = Some s2" "stream_ok s2"
    "got_bytes s2 \<le> got_bytes s1 + actual_length pkt" "size_buf s2 = size_buf s1"
    using iso_data_safe [OF s1(2) b, of "unat (b ! 0)"] s1(3,4) assms(3) by auto
  moreover obtain s3 where "iso_data (actual_length pkt) 0 b s = Some s3" "stream_ok s3"
    "got_bytes s3 \<le> got_bytes s + actual_length pkt" "size_buf s3 = size_buf s"
    using iso_data_safe [OF assms(1) b assms(3), of 0] by blast
  ultimately show ?thesis
    using assms(1) b s1 Some
    by (auto simp: process_iso_packet_def Let_def need_def clear_halt_def set_err_def stream_ok_def)
qed

text \<open>Isochronous streaming is memory safe as long as the frame under way and everything in the transfer stay below the buffer size; the packets may
  be bad, empty, truncated or without memory.\<close>

theorem iso_transfer_safe:
  assumes "stream_ok s" and "list_all slot_ok pkts"
    and "got_bytes s + sum_list (map actual_length pkts) < size_buf s"
  shows "\<exists>s'. process_payload_iso s pkts = Some s' \<and> stream_ok s'"
  using assms unfolding process_payload_iso_def
proof (induction pkts arbitrary: s)
  case (Cons pkt pkts)
  then obtain s1 where s1: "process_iso_packet s pkt = Some s1" "stream_ok s1"
    "got_bytes s1 \<le> got_bytes s + actual_length pkt" "size_buf s1 = size_buf s"
    using iso_packet_safe [of s pkt] by auto
  have "\<exists>s'. run_partial process_iso_packet s1 pkts = Some s' \<and> stream_ok s'"
    using Cons.prems s1 by (intro Cons.IH) auto
  with s1 show ?case
    by auto
qed simp

text \<open>The isochronous path has no bound of its own: a packet that continues a frame and brings it to the buffer size fails the assertion, and in a
  build without assertions writes past the buffer, where the bulk path flags the frame.\<close>

theorem iso_overflow:
  assumes "stream_ok s" and "\<not> is_isight s" and "pkt_status pkt = 0" and "pkt_mem pkt = Some b"
    and "2 \<le> unat (b ! 0)" and "unat (b ! 0) < actual_length pkt" and "actual_length pkt \<le> length b"
    and "15 \<le> length b" and "\<not> flag (b ! 1) UVC_STREAM_ERR" and "fid s = b ! 1 AND UVC_STREAM_FID"
    and "size_buf s \<le> got_bytes s + (actual_length pkt - unat (b ! 0))"
  shows "process_iso_packet s pkt = None"
proof -
  have "\<exists>s1. iso_header (unat (b ! 0)) b s = Some s1 \<and> got_bytes s1 = got_bytes s \<and> size_buf s1 = size_buf s \<and>
      is_isight s1 = is_isight s"
    using assms(8,10) by (auto simp: iso_header_def flip_frame_def Let_def need_def)
  then obtain s1 where "iso_header (unat (b ! 0)) b s = Some s1" "got_bytes s1 = got_bytes s" "size_buf s1 = size_buf s"
      "is_isight s1 = is_isight s"
    by blast
  with assms show ?thesis
    by (auto simp: process_iso_packet_def iso_data_def Let_def need_def)
qed

section \<open>Instances\<close>

text \<open>A stream with buffers of 16 bytes.\<close>

definition small_stream :: stream where
  "small_stream = \<lparr>is_isight = False, running = True, bfh_err = 0, hold_bfh_err = 0, fid = 0, seq = 0,
     hold_seq = 0, pts = 0, hold_pts = 0, last_scr = 0, hold_last_scr = 0, got_bytes = 0, hold_bytes = 0,
     size_buf = 16, outbuf = Some (replicate 16 0), holdbuf = Some (replicate 16 0), published = [], clear_halts = 0\<rparr>"

lemma small_stream_ok: "stream_ok small_stream"
  by (simp add: stream_ok_def small_stream_def)

theorem bulk_memory_safe_witness:
  "\<exists>s'. run_partial process_payload small_stream [[255], [12, 0x4F], [2, 2] @ replicate 40 7] = Some s' \<and> stream_ok s'"
  by (rule bulk_memory_safe [OF small_stream_ok]) simp

theorem bulk_reassembly_witness:
  "\<exists>s'. run_partial process_payload small_stream (stream_payloads 1 [[[1, 2], [3]], [[4, 5, 6, 7]]]) = Some s' \<and>
    map pf_bytes (published s') = [[1, 2, 3], [4, 5, 6, 7]]"
proof -
  have "frames_fit (size_buf small_stream) [[[1, 2], [3]], [[4, 5, 6, 7]]]"
    by (simp add: frames_fit_def small_stream_def)
  from bulk_reassembly [OF small_stream_ok _ _ _ _ this, of 1]
  obtain s' where run: "run_partial process_payload small_stream (stream_payloads 1 [[[1, 2], [3]], [[4, 5, 6, 7]]]) = Some s'"
    and "map (\<lambda>p. (pf_bytes p, pf_err p)) (published s') = [([1, 2, 3], 0), ([4, 5, 6, 7], 0)]"
    by (auto simp: small_stream_def)
  from this(2) have "map fst (map (\<lambda>p. (pf_bytes p, pf_err p)) (published s')) = [[1, 2, 3], [4, 5, 6, 7]]"
    by simp
  then have "map pf_bytes (published s') = [[1, 2, 3], [4, 5, 6, 7]]"
    by (simp add: comp_def)
  with run show ?thesis
    by (intro exI conjI)
qed

theorem bulk_refines_assembler_witness:
  "\<exists>s'. run_partial process_payload small_stream [[2, 1, 9], [2, 0x40, 8], [6, 0, 0, 0, 0, 0, 7]] = Some s' \<and>
    stream_abs s' = (0, [8, 7], [([9], 0)])"
proof -
  let ?ps = "[[2, 1, 9], [2, 0x40, 8], [6, 0, 0, 0, 0, 0, 7]] :: bytes list"
  have abs: "stream_abs small_stream = (0, [], [])"
    by (simp add: stream_abs_def small_stream_def partial_frame_def)
  have "list_all has_header ?ps" "all_fit 16 (0, [], []) (map payload_contents ?ps)"
    by code_simp+
  moreover have "foldl asm_step (0, [], []) (map payload_contents ?ps) = (0, [8, 7], [([9], 0)])"
    by code_simp
  moreover have "size_buf small_stream = 16" "bfh_err small_stream = 0" "\<not> is_isight small_stream"
    by (simp_all add: small_stream_def)
  ultimately show ?thesis
    using bulk_refines_assembler [OF small_stream_ok, of ?ps] by (simp only: abs) blast
qed

theorem frames_numbered_witness:
  "\<exists>s'. run_partial process_any small_stream [Inl [2, 2, 9], Inl [2, 3, 8]] = Some s' \<and> map pf_seq (published s') = [0, 1]"
proof -
  have fit: "frames_fit (size_buf small_stream) [[[9]], [[8]]]"
    by (simp add: frames_fit_def small_stream_def)
  have ps: "stream_payloads 0 [[[9]], [[8]]] = [[2, 2, 9], [2, 3, 8]]"
    by simp
  from bulk_frames [OF small_stream_ok _ _ _ _ fit, of 0]
  obtain s' where "run_partial process_payload small_stream [[2, 2, 9], [2, 3, 8]] = Some s'"
    and frames: "map (\<lambda>p. (pf_bytes p, pf_err p)) (published s') = [([9], 0), ([8], 0)]"
    unfolding ps by (auto simp: small_stream_def)
  then have "run_partial process_any small_stream (map Inl [[2, 2, 9], [2, 3, 8]]) = Some s'"
    by (simp only: run_any_Inl)
  then have run: "run_partial process_any small_stream [Inl [2, 2, 9], Inl [2, 3, 8]] = Some s'"
    by (simp only: list.map)
  have two: "[0..<2] = [0, 1]"
    by (simp add: upt_rec)
  have len: "length (published s') = 2"
    using arg_cong [OF frames, of length] by simp
  have "bfh_err small_stream = 0" "published small_stream = []" "seq small_stream = 0"
    by (simp_all add: small_stream_def)
  then have "map pf_seq (published s') = map of_nat [0..<length (published s')]"
    using frames_numbered [OF _ _ run] by blast
  then have "map pf_seq (published s') = [0, 1]"
    unfolding len two by simp
  with run show ?thesis
    by (intro exI conjI)
qed

definition demo_packet :: "u8 \<Rightarrow> bytes \<Rightarrow> iso_packet" where
  "demo_packet info data = \<lparr>pkt_status = 0, actual_length = 2 + length data, pkt_mem = Some ([2, info] @ data @ replicate 20 0)\<rparr>"

theorem iso_transfer_safe_witness:
  "\<exists>s'. process_payload_iso small_stream [demo_packet 0 [1, 2], demo_packet 2 [3]] = Some s' \<and> stream_ok s'"
  by (rule iso_transfer_safe [OF small_stream_ok]) (simp_all add: demo_packet_def slot_ok_def small_stream_def)

theorem iso_overflow_witness: "process_iso_packet small_stream (demo_packet 0 (replicate 16 1)) = None"
  by (rule iso_overflow [OF small_stream_ok, where b = "[2, 0] @ replicate 16 1 @ replicate 20 0"])
    (simp_all add: demo_packet_def small_stream_def flag_def)

end
