(* ===== verification/Uvc_Stream.thy ===== *)
theory Uvc_Stream
  imports Uvc_Negotiate Uvc_Payload Uvc_Status
begin

text \<open>
  The life of a stream (\<open>stream.c\<close>: \<open>uvc_stream_ctrl\<close>, \<open>_uvc_stream_callback\<close>,
  \<open>uvc_start_streaming\<close> to \<open>uvc_stream_close\<close>). The code runs on three threads: the application's, the one that
  handles libusb events, and the one that calls the application's frame callback. What happens between two waits, locks or
  calls out is one operation here; the order of the operations of different threads is free.
  \<^item> A transfer is in flight from a successful submission to its callback. The callback decides to submit it again
    (\<open>Resubmitting\<close>) and the submission follows as an operation of its own; when it fails the transfer is \<open>Idle\<close> and still in the table.
  \<^item> \<open>libusb_cancel_transfer\<close> only makes a callback come sooner; callbacks with any status may come at any time, so it is not
    modelled.
  \<^item> \<open>orphans\<close> and \<open>orphan_threads\<close> of the device handle are history: the transfers in flight and the
    callback threads alive whose stream handle has been freed, and which go on using it.
\<close>

section \<open>State\<close>

abbreviation "LIBUVC_NUM_TRANSFER_BUFS \<equiv> (10 :: nat)"
abbreviation "LIBUVC_XFER_BUF_SIZE \<equiv> (16 * 1024 * 1024 :: nat)"

datatype transfer_state = Idle | In_Flight | Resubmitting

record transfer =
  tr_state :: transfer_state
  tr_length :: nat
  num_iso_packets :: nat
  iso_packet_length :: nat

text \<open>The frame handed to the application; \<open>fm_data\<close> is the whole buffer, \<open>data_bytes\<close> its length.\<close>

record uvc_frame =
  fm_data :: bytes
  fm_actual_bytes :: nat
  fm_width :: u32
  fm_height :: u32
  fm_format :: uvc_frame_format
  fm_step :: nat

record stream_handle =
  stream_if :: uvc_streaming_interface
  strm :: stream
  cur_ctrl :: uvc_stream_ctrl
  cb_thread :: bool
  last_polled_seq :: u32
  user_cb :: bool
  transfers :: "transfer option list"
  frame :: uvc_frame
  sh_frame_format :: uvc_frame_format

record uvc_device_handle =
  dh_info :: uvc_device_info
  dh_is_isight :: bool
  reset_on_release_if :: bool
  streams :: "stream_handle list"
  orphans :: "transfer list"
  orphan_threads :: nat

record 'd stream_host =
  host :: "'d usb_host"
  libusb_submit_transfer :: "nat \<Rightarrow> transfer \<Rightarrow> 'd \<Rightarrow> int \<times> 'd"

section \<open>Opening\<close>

text \<open>\<open>uvc_stream_ctrl\<close>.\<close>

definition commit_stream_ctrl ::
  "'d usb \<Rightarrow> uvc_device_info \<Rightarrow> stream_handle \<Rightarrow> uvc_stream_ctrl \<Rightarrow> 'd \<Rightarrow> int \<times> stream_handle \<times> 'd" where
  "commit_stream_ctrl usb info strmh ctrl d =
     (if si_bInterfaceNumber (stream_if strmh) \<noteq> sc_bInterfaceNumber ctrl
      then (UVC_ERROR_INVALID_PARAM, strmh, d)
      else if running (strm strmh) then (UVC_ERROR_BUSY, strmh, d)
      else let (ret, ctrl, d) = uvc_query_stream_ctrl usb info ctrl False UVC_SET_CUR d in
        if ret \<noteq> UVC_SUCCESS then (ret, strmh, d) else (UVC_SUCCESS, strmh\<lparr>cur_ctrl := ctrl\<rparr>, d))"

definition get_stream_by_interface :: "uvc_device_handle \<Rightarrow> u8 \<Rightarrow> stream_handle option" where
  "get_stream_by_interface devh idx =
     List.find (\<lambda>h. si_bInterfaceNumber (stream_if h) = idx) (streams devh)"

definition get_stream_if :: "uvc_device_handle \<Rightarrow> u8 \<Rightarrow> uvc_streaming_interface option" where
  "get_stream_if devh idx = List.find (\<lambda>si. si_bInterfaceNumber si = idx) (stream_ifs (dh_info devh))"

definition zero_stream :: stream where
  "zero_stream = \<lparr>is_isight = False, running = False, bfh_err = 0, hold_bfh_err = 0, fid = 0, seq = 0, hold_seq = 0,
     pts = 0, hold_pts = 0, last_scr = 0, hold_last_scr = 0, got_bytes = 0, hold_bytes = 0, size_buf = 0,
     outbuf = None, holdbuf = None, published = [], clear_halts = 0\<rparr>"

definition zero_uvc_frame :: uvc_frame where
  "zero_uvc_frame = \<lparr>fm_data = [], fm_actual_bytes = 0, fm_width = 0, fm_height = 0, fm_format = FORMAT_UNKNOWN,
     fm_step = 0\<rparr>"

text \<open>\<open>out0\<close> and \<open>hold0\<close> are what \<open>malloc\<close> returns for the two buffers.\<close>

definition uvc_stream_open_ctrl ::
  "'d stream_host \<Rightarrow> bytes option \<Rightarrow> bytes option \<Rightarrow> uvc_device_handle \<Rightarrow> uvc_stream_ctrl \<Rightarrow> 'd \<Rightarrow>
   int \<times> uvc_device_handle \<times> 'd" where
  "uvc_stream_open_ctrl h out0 hold0 devh ctrl d =
     (if get_stream_by_interface devh (sc_bInterfaceNumber ctrl) \<noteq> None then (UVC_ERROR_BUSY, devh, d)
      else (case get_stream_if devh (sc_bInterfaceNumber ctrl) of None \<Rightarrow> (UVC_ERROR_INVALID_PARAM, devh, d)
        | Some si \<Rightarrow>
          let strmh = \<lparr>stream_if = si, strm = zero_stream\<lparr>is_isight := dh_is_isight devh\<rparr>, cur_ctrl = zero_ctrl,
                cb_thread = False, last_polled_seq = 0, user_cb = False,
                transfers = replicate LIBUVC_NUM_TRANSFER_BUFS None, frame = zero_uvc_frame,
                sh_frame_format = FORMAT_UNKNOWN\<rparr>;
              (ret, d) = uvc_claim_if (host h) (uint (si_bInterfaceNumber si)) d
          in if ret \<noteq> UVC_SUCCESS then (ret, devh, d)
             else let (ret, strmh, d) = commit_stream_ctrl (host_usb (host h)) (dh_info devh) strmh ctrl d in
               if ret \<noteq> UVC_SUCCESS then (ret, devh, d)
               else let strmh = strmh\<lparr>strm := (strm strmh)\<lparr>running := False, outbuf := out0, holdbuf := hold0,
                          size_buf := LIBUVC_XFER_BUF_SIZE\<rparr>\<rparr>
                 in (UVC_SUCCESS, devh\<lparr>streams := streams devh @ [strmh]\<rparr>, d)))"

section \<open>Starting\<close>

text \<open>\<open>wMaxPacketSize\<close>: eleven bits of size, two of additional transactions.\<close>

definition endpoint_bytes :: "u16 \<Rightarrow> nat" where
  "endpoint_bytes w = unat (w AND 0x07ff) * (unat (drop_bit 11 w AND 3) + 1)"

definition altsetting_bytes :: "u8 \<Rightarrow> libusb_interface_descriptor \<Rightarrow> nat" where
  "altsetting_bytes address alt =
     (case List.find (\<lambda>ep. ep_bEndpointAddress ep = address) (if_endpoint alt) of None \<Rightarrow> 0
      | Some ep \<Rightarrow> endpoint_bytes (ep_wMaxPacketSize ep))"

fun select_altsetting ::
  "u8 \<Rightarrow> nat \<Rightarrow> libusb_interface_descriptor list \<Rightarrow> (libusb_interface_descriptor \<times> nat) option" where
  "select_altsetting address config_bytes_per_packet [] = None"
| "select_altsetting address config_bytes_per_packet (alt # alts) =
     (let n = altsetting_bytes address alt in
      if n \<noteq> 0 \<and> (n \<ge> config_bytes_per_packet \<or> alts = []) then Some (alt, n)
      else select_altsetting address config_bytes_per_packet alts)"

text \<open>The sum is computed in \<open>size_t\<close>.\<close>

definition packets_per_transfer :: "u32 \<Rightarrow> nat \<Rightarrow> nat" where
  "packets_per_transfer frame_size n = min 32 ((unat frame_size + n - 1) mod 2 ^ 32 div n)"

text \<open>
  The bandwidth factor only scales one number: \<open>factor\<close> is \<open>None\<close> outside the open interval
  from 0 to 1, else the product with it, truncated.
\<close>

definition packet_bytes :: "(u32 \<Rightarrow> u32) option \<Rightarrow> uvc_stream_ctrl \<Rightarrow> nat" where
  "packet_bytes factor ctrl =
     (case factor of None \<Rightarrow> unat (dwMaxPayloadTransferSize ctrl)
      | Some f \<Rightarrow> (let n = unat (f (dwMaxPayloadTransferSize ctrl)) in
          if n = 0 then unat (dwMaxPayloadTransferSize ctrl) else n))"

definition setup_transfers :: "nat \<Rightarrow> nat \<Rightarrow> nat \<Rightarrow> stream_handle \<Rightarrow> stream_handle" where
  "setup_transfers total_transfer_size packets n strmh =
     strmh\<lparr>transfers := replicate LIBUVC_NUM_TRANSFER_BUFS
       (Some \<lparr>tr_state = Idle, tr_length = total_transfer_size, num_iso_packets = packets, iso_packet_length = n\<rparr>)\<rparr>"

definition setup_iso ::
  "'d stream_host \<Rightarrow> (u32 \<Rightarrow> u32) option \<Rightarrow> libusb_interface \<Rightarrow> u32 \<Rightarrow> stream_handle \<Rightarrow> 'd \<Rightarrow>
   int \<times> stream_handle \<times> 'd" where
  "setup_iso h factor intf frame_size strmh d =
     (let config_bytes_per_packet = packet_bytes factor (cur_ctrl strmh) in
      if config_bytes_per_packet = 0 then (UVC_ERROR_IO, strmh, d)
      else (case select_altsetting (si_bEndpointAddress (stream_if strmh)) config_bytes_per_packet intf of
          None \<Rightarrow> (UVC_ERROR_INVALID_MODE, strmh, d)
        | Some (alt, n) \<Rightarrow>
          let packets = packets_per_transfer frame_size n; total_transfer_size = packets * n in
          if total_transfer_size = 0 then (UVC_ERROR_INVALID_MODE, strmh, d)
          else let (ret, d) = libusb_set_interface_alt_setting (host h) (uint (if_bInterfaceNumber alt))
                  (uint (if_bAlternateSetting alt)) d in
            if ret \<noteq> UVC_SUCCESS then (ret, strmh, d)
            else (UVC_SUCCESS, setup_transfers total_transfer_size packets n strmh, d)))"

definition start_fail :: "stream_handle \<Rightarrow> stream_handle" where
  "start_fail strmh = strmh\<lparr>strm := (strm strmh)\<lparr>running := False\<rparr>\<rparr>"

text \<open>The fields a start resets; the history \<open>published\<close> is that of the current run.\<close>

definition start_reset :: "stream_handle \<Rightarrow> stream_handle" where
  "start_reset strmh = strmh\<lparr>strm := (strm strmh)\<lparr>running := True, seq := 0, fid := 0, pts := 0, last_scr := 0,
     bfh_err := 0, published := []\<rparr>\<rparr>"

text \<open>
  \<open>uvc_stream_start_bandwidth\<close> up to the transfers. The interface number is used as an index of the
  configuration, without a check.
\<close>

definition stream_setup ::
  "'d stream_host \<Rightarrow> uvc_device_info \<Rightarrow> (u32 \<Rightarrow> u32) option \<Rightarrow> stream_handle \<Rightarrow> 'd \<Rightarrow>
   (int \<times> stream_handle \<times> 'd) option" where
  "stream_setup h info factor strmh0 d =
     (let strmh = start_reset strmh0; ctrl = cur_ctrl strmh in
      case uvc_find_frame_desc_stream (stream_if strmh) (ucast (sc_bFormatIndex ctrl)) (ucast (sc_bFrameIndex ctrl)) of
        None \<Rightarrow> Some (UVC_ERROR_INVALID_PARAM, strmh, d)
      | Some (format_desc, frame_desc) \<Rightarrow>
        let strmh = strmh\<lparr>sh_frame_format := uvc_frame_format_for_guid (guidFormat format_desc)\<rparr> in
        if sh_frame_format strmh = FORMAT_UNKNOWN then Some (UVC_ERROR_NOT_SUPPORTED, strmh, d)
        else let frame_size = (if dwMaxVideoFrameSize ctrl \<le> dwMaxVideoFrameBufferSize frame_desc
               then dwMaxVideoFrameSize ctrl else dwMaxVideoFrameBufferSize frame_desc);
                 interface_id = unat (si_bInterfaceNumber (stream_if strmh))
          in need (Suc interface_id) (config info)
            (let intf = config info ! interface_id in
             Some (if length intf > 1 then setup_iso h factor intf frame_size strmh d
                   else (UVC_SUCCESS, setup_transfers (unat (dwMaxPayloadTransferSize ctrl)) 0 0 strmh, d))))"

fun submit_transfers ::
  "'d stream_host \<Rightarrow> nat list \<Rightarrow> stream_handle \<Rightarrow> 'd \<Rightarrow> (int \<times> stream_handle \<times> 'd) option" where
  "submit_transfers h [] strmh d = Some (UVC_SUCCESS, strmh, d)"
| "submit_transfers h (i # is) strmh d =
     (case transfers strmh ! i of None \<Rightarrow> None
      | Some t \<Rightarrow> let (ret, d) = libusb_submit_transfer h i t d in
          if ret \<noteq> UVC_SUCCESS then Some (ret, strmh, d)
          else submit_transfers h is (strmh\<lparr>transfers := (transfers strmh)[i := Some (t\<lparr>tr_state := In_Flight\<rparr>)]\<rparr>) d)"

definition uvc_stream_start_bandwidth ::
  "'d stream_host \<Rightarrow> uvc_device_info \<Rightarrow> (u32 \<Rightarrow> u32) option \<Rightarrow> bool \<Rightarrow> stream_handle \<Rightarrow> 'd \<Rightarrow>
   (int \<times> stream_handle \<times> 'd) option" where
  "uvc_stream_start_bandwidth h info factor cb strmh d =
     (if running (strm strmh) then Some (UVC_ERROR_BUSY, strmh, d)
      else do {
        (ret, strmh, d) \<leftarrow> stream_setup h info factor strmh d;
        if ret \<noteq> UVC_SUCCESS then Some (ret, start_fail strmh, d)
        else let strmh = strmh\<lparr>user_cb := cb, cb_thread := cb_thread strmh \<or> cb\<rparr> in do {
          (ret, strmh, d) \<leftarrow> submit_transfers h [0..<LIBUVC_NUM_TRANSFER_BUFS] strmh d;
          if ret \<noteq> UVC_SUCCESS then Some (ret, start_fail strmh, d) else Some (ret, strmh, d) } })"

definition uvc_stream_start ::
  "'d stream_host \<Rightarrow> uvc_device_info \<Rightarrow> bool \<Rightarrow> stream_handle \<Rightarrow> 'd \<Rightarrow> (int \<times> stream_handle \<times> 'd) option" where
  "uvc_stream_start h info cb strmh d = uvc_stream_start_bandwidth h info None cb strmh d"

section \<open>Completions\<close>

datatype stream_event =
  Completion nat libusb_transfer_status bytes "iso_packet list"
| Submission nat bool
| Stop_Request

text \<open>A transfer without packets is a bulk transfer.\<close>

definition stream_callback ::
  "stream_handle \<Rightarrow> nat \<Rightarrow> transfer \<Rightarrow> libusb_transfer_status \<Rightarrow> bytes \<Rightarrow> iso_packet list \<Rightarrow> stream_handle option" where
  "stream_callback strmh i t status data pkts = do {
     (s, resubmit) \<leftarrow> (case status of
         TRANSFER_COMPLETED \<Rightarrow> do {
           s \<leftarrow> (if num_iso_packets t = 0 then process_payload (strm strmh) data
                else process_payload_iso (strm strmh) pkts);
           Some (s, True) }
       | TRANSFER_NO_DEVICE \<Rightarrow> Some ((strm strmh)\<lparr>running := False\<rparr>, False)
       | TRANSFER_CANCELLED \<Rightarrow> Some (strm strmh, False)
       | TRANSFER_ERROR \<Rightarrow> Some (strm strmh, False)
       | TRANSFER_TIMED_OUT \<Rightarrow> Some (strm strmh, True)
       | TRANSFER_STALL \<Rightarrow> Some (strm strmh, True)
       | TRANSFER_OVERFLOW \<Rightarrow> Some (strm strmh, True));
     Some (strmh\<lparr>strm := s, transfers := (transfers strmh)[i :=
       (if running s \<and> resubmit then Some (t\<lparr>tr_state := Resubmitting\<rparr>) else None)]\<rparr>) }"

text \<open>An event of a transfer that is not in the state for it does not happen.\<close>

fun handle_event :: "stream_handle \<Rightarrow> stream_event \<Rightarrow> stream_handle option" where
  "handle_event strmh (Completion i status data pkts) =
     (if i < length (transfers strmh) then
        (case transfers strmh ! i of None \<Rightarrow> Some strmh
         | Some t \<Rightarrow> if tr_state t = In_Flight then stream_callback strmh i t status data pkts else Some strmh)
      else Some strmh)"
| "handle_event strmh (Submission i success) =
     (if i < length (transfers strmh) then
        (case transfers strmh ! i of None \<Rightarrow> Some strmh
         | Some t \<Rightarrow> Some (if tr_state t = Resubmitting
             then strmh\<lparr>transfers := (transfers strmh)[i := Some (t\<lparr>tr_state := if success then In_Flight else Idle\<rparr>)]\<rparr>
             else strmh))
      else Some strmh)"
| "handle_event strmh Stop_Request = Some (start_fail strmh)"

section \<open>Frames to the application\<close>

text \<open>The frame descriptor is looked up in all interfaces of the device, and used without a check.\<close>

definition populate_frame :: "uvc_device_info \<Rightarrow> stream_handle \<Rightarrow> stream_handle option" where
  "populate_frame info strmh =
     (let s = strm strmh; f = frame strmh; ctrl = cur_ctrl strmh in
      case uvc_find_frame_desc (stream_ifs info) (ucast (sc_bFormatIndex ctrl)) (ucast (sc_bFrameIndex ctrl)) of
        None \<Rightarrow> None
      | Some (_, frame_desc) \<Rightarrow>
        (case holdbuf s of None \<Rightarrow> None
         | Some hb \<Rightarrow> need (hold_bytes s) hb (Some (strmh\<lparr>frame := \<lparr>
             fm_data = take (hold_bytes s) hb @ drop (hold_bytes s) (fm_data f),
             fm_actual_bytes = (if hold_bfh_err s = 0 then hold_bytes s else 0),
             fm_width = ucast (wWidth frame_desc), fm_height = ucast (wHeight frame_desc),
             fm_format = sh_frame_format strmh,
             fm_step = (if sh_frame_format strmh = FORMAT_YUYV then unat (wWidth frame_desc) * 2 else 0)\<rparr>\<rparr>))))"

text \<open>
  The callback thread: \<open>At_Lock q\<close> before taking the mutex with \<open>last_seq = q\<close>, \<open>At_Call q\<close> after
  releasing it. The error flag is read again there, without the mutex.
\<close>

datatype caller = At_Lock u32 | At_Call u32 | Returned

fun user_caller :: "uvc_device_info \<Rightarrow> stream_handle \<Rightarrow> caller \<Rightarrow> (stream_handle \<times> caller \<times> uvc_frame list) option" where
  "user_caller info strmh (At_Lock last_seq) =
     (let s = strm strmh in
      if running s \<and> last_seq = hold_seq s then Some (strmh, At_Lock last_seq, [])
      else if \<not> running s then Some (strmh, Returned, [])
      else do {
        strmh \<leftarrow> (if hold_bfh_err s = 0 then populate_frame info strmh else Some strmh);
        Some (strmh, At_Call (hold_seq s), []) })"
| "user_caller info strmh (At_Call last_seq) =
     Some (strmh, At_Lock last_seq, if hold_bfh_err (strm strmh) = 0 then [frame strmh] else [])"
| "user_caller info strmh Returned = Some (strmh, Returned, [])"

datatype poll_result = Frame_Out uvc_frame | No_Frame | Must_Wait

definition take_polled :: "uvc_device_info \<Rightarrow> poll_result \<Rightarrow> stream_handle \<Rightarrow> (int \<times> poll_result \<times> stream_handle) option" where
  "take_polled info other strmh =
     (if last_polled_seq strmh < hold_seq (strm strmh) then do {
        strmh \<leftarrow> populate_frame info strmh;
        Some (UVC_SUCCESS, Frame_Out (frame strmh), strmh\<lparr>last_polled_seq := hold_seq (strm strmh)\<rparr>) }
      else Some (UVC_SUCCESS, other, strmh))"

text \<open>The call up to its wait, and what it does when woken.\<close>

definition uvc_stream_get_frame ::
  "uvc_device_info \<Rightarrow> stream_handle \<Rightarrow> int \<Rightarrow> (int \<times> poll_result \<times> stream_handle) option" where
  "uvc_stream_get_frame info strmh timeout_us =
     (if \<not> running (strm strmh) then Some (UVC_ERROR_INVALID_PARAM, No_Frame, strmh)
      else if user_cb strmh then Some (UVC_ERROR_CALLBACK_EXISTS, No_Frame, strmh)
      else take_polled info (if timeout_us \<noteq> -1 then Must_Wait else No_Frame) strmh)"

definition get_frame_woken :: "uvc_device_info \<Rightarrow> stream_handle \<Rightarrow> (int \<times> poll_result \<times> stream_handle) option" where
  "get_frame_woken info strmh = take_polled info No_Frame strmh"

text \<open>The absolute time a wait with a time limit ends, as \<open>pthread_cond_timedwait\<close> gets it: \<open>tv_sec\<close> and \<open>tv_nsec\<close>.\<close>

definition get_frame_deadline :: "int \<Rightarrow> int \<Rightarrow> int \<Rightarrow> int \<times> int" where
  "get_frame_deadline now_sec now_nsec timeout_us =
     (now_sec + timeout_us sdiv 1000000, now_nsec + (timeout_us smod 1000000) * 1000)"

section \<open>Stopping and closing\<close>

definition all_deleted :: "stream_handle \<Rightarrow> bool" where
  "all_deleted strmh \<longleftrightarrow> list_all (\<lambda>t. t = None) (transfers strmh)"

text \<open>
  The wait of a stop over the events that come meanwhile; the inner \<open>None\<close> is a stop still waiting.
\<close>

fun stop_wait :: "stream_handle \<Rightarrow> stream_event list \<Rightarrow> stream_handle option option" where
  "stop_wait strmh [] = Some (if all_deleted strmh then Some strmh else None)"
| "stop_wait strmh (e # es) =
     (if all_deleted strmh then Some (Some strmh)
      else do { strmh \<leftarrow> handle_event strmh e; stop_wait strmh es })"

definition uvc_stream_stop :: "stream_handle \<Rightarrow> stream_event list \<Rightarrow> (int \<times> stream_handle) option option" where
  "uvc_stream_stop strmh es =
     (if \<not> running (strm strmh) then Some (Some (UVC_ERROR_INVALID_PARAM, strmh))
      else do {
        r \<leftarrow> stop_wait (start_fail strmh) es;
        Some (map_option (\<lambda>strmh. (UVC_SUCCESS, if user_cb strmh then strmh\<lparr>cb_thread := False\<rparr> else strmh)) r) })"

definition in_flight :: "stream_handle \<Rightarrow> transfer list" where
  "in_flight strmh = [t. Some t \<leftarrow> transfers strmh, tr_state t \<noteq> Idle]"

text \<open>The k-th stream of the device is closed; the buffers, the table and the handle are freed.\<close>

definition free_stream :: "'d stream_host \<Rightarrow> uvc_device_handle \<Rightarrow> nat \<Rightarrow> stream_handle \<Rightarrow> 'd \<Rightarrow> uvc_device_handle \<times> 'd" where
  "free_stream h devh k strmh d =
     (let (_, d) = uvc_release_if (host h) (reset_on_release_if devh) (uint (si_bInterfaceNumber (stream_if strmh))) d
      in (devh\<lparr>streams := take k (streams devh) @ drop (Suc k) (streams devh),
            orphans := orphans devh @ in_flight strmh,
            orphan_threads := orphan_threads devh + (if cb_thread strmh then 1 else 0)\<rparr>, d))"

definition uvc_stream_close ::
  "'d stream_host \<Rightarrow> uvc_device_handle \<Rightarrow> nat \<Rightarrow> stream_event list \<Rightarrow> 'd \<Rightarrow> (uvc_device_handle \<times> 'd) option option" where
  "uvc_stream_close h devh k es d =
     (let strmh = streams devh ! k in
      if running (strm strmh) then do {
        r \<leftarrow> uvc_stream_stop strmh es;
        Some (map_option (\<lambda>(_, strmh). free_stream h devh k strmh d) r) }
      else Some (Some (free_stream h devh k strmh d)))"

text \<open>All streams, one after the other, each over its own events.\<close>

fun stop_all ::
  "'d stream_host \<Rightarrow> nat \<Rightarrow> uvc_device_handle \<Rightarrow> stream_event list list \<Rightarrow> 'd \<Rightarrow> (uvc_device_handle \<times> 'd) option option" where
  "stop_all h 0 devh ess d = Some (Some (devh, d))"
| "stop_all h (Suc n) devh ess d = do {
     r \<leftarrow> uvc_stream_close h devh 0 (case ess of [] \<Rightarrow> [] | es # _ \<Rightarrow> es) d;
     (case r of None \<Rightarrow> Some None | Some (devh, d) \<Rightarrow> stop_all h n devh (tl ess) d) }"

definition uvc_stop_streaming ::
  "'d stream_host \<Rightarrow> uvc_device_handle \<Rightarrow> stream_event list list \<Rightarrow> 'd \<Rightarrow> (uvc_device_handle \<times> 'd) option option" where
  "uvc_stop_streaming h devh ess d = stop_all h (length (streams devh)) devh ess d"

definition uvc_start_streaming_bandwidth ::
  "'d stream_host \<Rightarrow> bytes option \<Rightarrow> bytes option \<Rightarrow> uvc_device_handle \<Rightarrow> uvc_stream_ctrl \<Rightarrow> bool \<Rightarrow> (u32 \<Rightarrow> u32) option \<Rightarrow>
   'd \<Rightarrow> (int \<times> uvc_device_handle \<times> 'd) option" where
  "uvc_start_streaming_bandwidth h out0 hold0 devh ctrl cb factor d =
     (let (ret, devh, d) = uvc_stream_open_ctrl h out0 hold0 devh ctrl d in
      if ret \<noteq> UVC_SUCCESS then Some (ret, devh, d)
      else let k = length (streams devh) - 1 in do {
        (ret, strmh, d) \<leftarrow> uvc_stream_start_bandwidth h (dh_info devh) factor cb (streams devh ! k) d;
        let devh = devh\<lparr>streams := (streams devh)[k := strmh]\<rparr> in
        if ret \<noteq> UVC_SUCCESS then do {
          r \<leftarrow> uvc_stream_close h devh k [] d;
          (case r of None \<Rightarrow> None | Some (devh, d) \<Rightarrow> Some (ret, devh, d)) }
        else Some (UVC_SUCCESS, devh, d) })"

definition uvc_start_streaming ::
  "'d stream_host \<Rightarrow> bytes option \<Rightarrow> bytes option \<Rightarrow> uvc_device_handle \<Rightarrow> uvc_stream_ctrl \<Rightarrow> bool \<Rightarrow>
   'd \<Rightarrow> (int \<times> uvc_device_handle \<times> 'd) option" where
  "uvc_start_streaming h out0 hold0 devh ctrl cb d = uvc_start_streaming_bandwidth h out0 hold0 devh ctrl cb None d"

end
