(* ===== verification/Uvc_Session.thy ===== *)
theory Uvc_Session
  imports Uvc_Stream
begin

text \<open>
  What holds of a stream from its start to its close: the choice of an alternate setting, the outcome of a start,
  the events up to the end of a stop, and the frames the application gets.
\<close>

section \<open>The alternate setting\<close>

lemma select_altsetting_Some:
  "select_altsetting a m alts = Some (alt, n) \<Longrightarrow>
   \<exists>pre post. alts = pre @ alt # post \<and> n = altsetting_bytes a alt \<and> 0 < n \<and> (m \<le> n \<or> post = []) \<and>
     (\<forall>x \<in> set pre. altsetting_bytes a x = 0 \<or> altsetting_bytes a x < m)"
proof (induction alts)
  case (Cons x alts)
  show ?case
  proof (cases "altsetting_bytes a x \<noteq> 0 \<and> (altsetting_bytes a x \<ge> m \<or> alts = [])")
    case True
    with Cons.prems have "alt = x" "n = altsetting_bytes a x"
      by (auto simp: Let_def)
    with True show ?thesis
      by (intro exI [of _ "[]"] exI [of _ alts]) simp
  next
    case False
    with Cons.prems have "select_altsetting a m alts = Some (alt, n)"
      by (simp add: Let_def del: de_Morgan_conj de_Morgan_disj split: if_splits)
    with Cons.IH obtain pre post where *: "alts = pre @ alt # post" "n = altsetting_bytes a alt" "0 < n" "m \<le> n \<or> post = []"
      "\<forall>x \<in> set pre. altsetting_bytes a x = 0 \<or> altsetting_bytes a x < m"
      by blast
    with False show ?thesis
      by (intro exI [of _ "x # pre"] exI [of _ post]) auto
  qed
qed simp

lemma packets_le_32: "packets_per_transfer w n \<le> 32"
  by (simp add: packets_per_transfer_def)

section \<open>The outcome of a start\<close>

definition table_of :: "nat \<Rightarrow> nat \<Rightarrow> transfer \<Rightarrow> transfer option list" where
  "table_of k m t = replicate k (Some (t\<lparr>tr_state := In_Flight\<rparr>)) @ replicate m (Some t)"

lemma table_step: "(table_of k (Suc m) t)[k := Some (t\<lparr>tr_state := In_Flight\<rparr>)] = table_of (Suc k) m t"
  by (simp add: table_of_def list_update_append replicate_app_Cons_same)

lemma submit_transfers_table:
  assumes "transfers s = table_of k m t"
  shows "\<exists>ret j d'. submit_transfers h [k..<k + m] s d =
       Some (ret, s\<lparr>transfers := table_of (k + j) (m - j) t\<rparr>, d') \<and> j \<le> m \<and> (ret = UVC_SUCCESS \<longleftrightarrow> j = m)"
  using assms
proof (induction m arbitrary: k s d)
  case 0
  then show ?case by simp
next
  case (Suc m)
  have at: "transfers s ! k = Some t"
    using Suc.prems by (simp add: table_of_def nth_append)
  have upt: "[k..<k + Suc m] = k # [Suc k..<Suc k + m]"
    by (simp add: upt_rec)
  obtain ret d' where sub: "libusb_submit_transfer h k t d = (ret, d')"
    by fastforce
  show ?case
  proof (cases "ret = UVC_SUCCESS")
    case True
    let ?s = "s\<lparr>transfers := (transfers s)[k := Some (t\<lparr>tr_state := In_Flight\<rparr>)]\<rparr>"
    have "transfers ?s = table_of (Suc k) m t"
      using Suc.prems by (simp add: table_step)
    from Suc.IH [OF this] obtain ret' j d'' where
      "submit_transfers h [Suc k..<Suc k + m] ?s d' = Some (ret', ?s\<lparr>transfers := table_of (Suc k + j) (m - j) t\<rparr>, d'')"
      "j \<le> m" "ret' = UVC_SUCCESS \<longleftrightarrow> j = m"
      by blast
    then show ?thesis
      unfolding upt by (intro exI [of _ ret'] exI [of _ "Suc j"] exI [of _ d'']) (simp add: at sub True)
  next
    case False
    then show ?thesis
      unfolding upt by (intro exI [of _ ret] exI [of _ 0] exI [of _ d']) (simp add: at sub Suc.prems [symmetric])
  qed
qed

lemma submit_transfers_first_failure:
  assumes "transfers s = table_of k m t" and "k + j < k + m"
    and "\<And>i t d. i < k + j \<Longrightarrow> fst (libusb_submit_transfer h i t d) = UVC_SUCCESS"
    and "\<And>t d. fst (libusb_submit_transfer h (k + j) t d) = e" and "e \<noteq> UVC_SUCCESS"
  shows "\<exists>d'. submit_transfers h [k..<k + m] s d = Some (e, s\<lparr>transfers := table_of (k + j) (m - j) t\<rparr>, d')"
  using assms
proof (induction m arbitrary: k j s d)
  case 0
  then show ?case by simp
next
  case (Suc m)
  have at: "transfers s ! k = Some t"
    using Suc.prems(1) by (simp add: table_of_def nth_append)
  have upt: "[k..<k + Suc m] = k # [Suc k..<Suc k + m]"
    by (simp add: upt_rec)
  obtain ret d' where sub: "libusb_submit_transfer h k t d = (ret, d')"
    by fastforce
  show ?case
  proof (cases j)
    case 0
    with Suc.prems(4) [of t d] sub have "ret = e"
      by simp
    with 0 \<open>e \<noteq> UVC_SUCCESS\<close> show ?thesis
      unfolding upt by (simp add: at sub Suc.prems(1) [symmetric])
  next
    case (Suc j')
    let ?s = "s\<lparr>transfers := (transfers s)[k := Some (t\<lparr>tr_state := In_Flight\<rparr>)]\<rparr>"
    have ok: "ret = UVC_SUCCESS"
      using Suc.prems(3) [of k t d] sub Suc by simp
    have "transfers ?s = table_of (Suc k) m t"
      using Suc.prems(1) by (simp add: table_step)
    moreover have "Suc k + j' < Suc k + m"
      using Suc.prems(2) Suc by simp
    ultimately obtain d'' where
      "submit_transfers h [Suc k..<Suc k + m] ?s d' = Some (e, ?s\<lparr>transfers := table_of (Suc k + j') (m - j') t\<rparr>, d'')"
      using Suc.IH [of ?s "Suc k" j' d'] Suc.prems(3-5) Suc by auto
    then show ?thesis
      unfolding upt by (simp add: at sub ok Suc)
  qed
qed

text \<open>
  What the transfers of a stream should look like. An interface with several alternate settings is isochronous: the
  setting is the first whose packets are large enough, or the last, and a transfer has 1 to 32 of its packets. Any
  other interface is bulk: a transfer holds one payload.
\<close>

definition iso_plan :: "libusb_interface \<Rightarrow> u8 \<Rightarrow> nat \<Rightarrow> transfer \<Rightarrow> bool" where
  "iso_plan intf address m t \<longleftrightarrow>
     (\<exists>pre alt post. intf = pre @ alt # post \<and> (m \<le> altsetting_bytes address alt \<or> post = []) \<and>
        (\<forall>x \<in> set pre. altsetting_bytes address x = 0 \<or> altsetting_bytes address x < m) \<and>
        iso_packet_length t = altsetting_bytes address alt) \<and>
     0 < iso_packet_length t \<and> 1 \<le> num_iso_packets t \<and> num_iso_packets t \<le> 32 \<and>
     tr_length t = num_iso_packets t * iso_packet_length t"

lemma iso_plan_state [simp]: "iso_plan intf a m (t\<lparr>tr_state := x\<rparr>) = iso_plan intf a m t"
  by (simp add: iso_plan_def)

definition transfer_plan :: "uvc_device_info \<Rightarrow> (u32 \<Rightarrow> u32) option \<Rightarrow> stream_handle \<Rightarrow> transfer \<Rightarrow> bool" where
  "transfer_plan info factor s t \<longleftrightarrow>
     (let intf = config info ! unat (si_bInterfaceNumber (stream_if s)) in
      if length intf > 1
      then iso_plan intf (si_bEndpointAddress (stream_if s)) (packet_bytes factor (cur_ctrl s)) t
      else num_iso_packets t = 0 \<and> tr_length t = unat (dwMaxPayloadTransferSize (cur_ctrl s)))"

lemma setup_transfers_table:
  "setup_transfers k p n s = s\<lparr>transfers := table_of 0 LIBUVC_NUM_TRANSFER_BUFS
     \<lparr>tr_state = Idle, tr_length = k, num_iso_packets = p, iso_packet_length = n\<rparr>\<rparr>"
  by (simp add: setup_transfers_def table_of_def)

lemma setup_iso_success:
  assumes "setup_iso h factor intf w s d = (UVC_SUCCESS, s', d')"
  shows "\<exists>t. s' = s\<lparr>transfers := table_of 0 LIBUVC_NUM_TRANSFER_BUFS t\<rparr> \<and> tr_state t = Idle \<and>
    iso_plan intf (si_bEndpointAddress (stream_if s)) (packet_bytes factor (cur_ctrl s)) t"
proof -
  let ?a = "si_bEndpointAddress (stream_if s)" and ?m = "packet_bytes factor (cur_ctrl s)"
  obtain alt n where sel: "select_altsetting ?a ?m intf = Some (alt, n)"
    and len: "packets_per_transfer w n * n \<noteq> 0"
    and s': "s' = setup_transfers (packets_per_transfer w n * n) (packets_per_transfer w n) n s"
    using assms by (auto simp: setup_iso_def Let_def split: if_splits option.splits prod.splits)
  from select_altsetting_Some [OF sel] len
  have "iso_plan intf ?a ?m \<lparr>tr_state = Idle, tr_length = packets_per_transfer w n * n,
      num_iso_packets = packets_per_transfer w n, iso_packet_length = n\<rparr>"
    unfolding iso_plan_def by (auto simp: packets_le_32 Suc_le_eq)
  then show ?thesis
    unfolding s' setup_transfers_table by (intro exI conjI) simp_all
qed

text \<open>All of a stream handle but what the setup writes.\<close>

definition unplanned :: "stream_handle \<Rightarrow> stream_handle" where
  "unplanned s = s\<lparr>transfers := [], sh_frame_format := FORMAT_UNKNOWN\<rparr>"

lemma unplanned_fields:
  assumes "unplanned s' = unplanned s"
  shows "strm s' = strm s" "cur_ctrl s' = cur_ctrl s" "stream_if s' = stream_if s" "cb_thread s' = cb_thread s"
    "user_cb s' = user_cb s" "last_polled_seq s' = last_polled_seq s" "frame s' = frame s"
  using arg_cong [OF assms, of strm] arg_cong [OF assms, of cur_ctrl] arg_cong [OF assms, of stream_if]
    arg_cong [OF assms, of cb_thread] arg_cong [OF assms, of user_cb] arg_cong [OF assms, of last_polled_seq]
    arg_cong [OF assms, of frame]
  by (simp_all add: unplanned_def)

lemma unplanned_transfers [simp]: "unplanned (s\<lparr>transfers := ts\<rparr>) = unplanned s"
  by (simp add: unplanned_def)

lemma unplanned_format [simp]: "unplanned (s\<lparr>sh_frame_format := f\<rparr>) = unplanned s"
  by (simp add: unplanned_def)

lemma setup_iso_keeps: "setup_iso h factor intf w s d = (ret, s', d') \<Longrightarrow> unplanned s' = unplanned s"
  by (auto simp: setup_iso_def setup_transfers_def Let_def split: if_splits option.splits prod.splits)

lemma stream_setup_keeps:
  "stream_setup h info factor s d = Some (ret, s', d') \<Longrightarrow> unplanned s' = unplanned (start_reset s)"
  by (auto simp: stream_setup_def Let_def ub_simps setup_transfers_def dest!: setup_iso_keeps
      split: option.splits if_splits)

lemma stream_setup_success:
  assumes "stream_setup h info factor s d = Some (UVC_SUCCESS, s', d')"
  shows "\<exists>t. transfers s' = table_of 0 LIBUVC_NUM_TRANSFER_BUFS t \<and> tr_state t = Idle \<and> transfer_plan info factor s t"
proof -
  let ?i = "unat (si_bInterfaceNumber (stream_if s))"
  obtain w f where "(if length (config info ! ?i) > 1
      then setup_iso h factor (config info ! ?i) w ((start_reset s)\<lparr>sh_frame_format := f\<rparr>) d
      else (UVC_SUCCESS, setup_transfers (unat (dwMaxPayloadTransferSize (cur_ctrl s))) 0 0
        ((start_reset s)\<lparr>sh_frame_format := f\<rparr>), d)) = (UVC_SUCCESS, s', d')"
    using assms by (auto simp: stream_setup_def Let_def need_def start_reset_def split: option.splits if_splits)
  then show ?thesis
    by (auto simp: transfer_plan_def setup_transfers_table start_reset_def dest!: setup_iso_success split: if_splits)
qed

text \<open>A start from a stopped stream either fails and leaves the stream stopped, or succeeds, and then the stream runs with
  its ten transfers all submitted and shaped as planned (the smallest sufficient alternate setting, at most 32 packets, or one
  bulk payload), with frame counter, frame id and error flag zero.\<close>

theorem start_outcome:
  assumes "uvc_stream_start_bandwidth h info factor cb s d = Some (ret, s', d')" and "\<not> running (strm s)"
  shows "running (strm s') = (ret = UVC_SUCCESS) \<and>
    (ret = UVC_SUCCESS \<longrightarrow> (\<exists>t. transfers s' = replicate LIBUVC_NUM_TRANSFER_BUFS (Some t) \<and> tr_state t = In_Flight \<and>
      transfer_plan info factor s' t) \<and> seq (strm s') = 0 \<and> fid (strm s') = 0 \<and> bfh_err (strm s') = 0)"
proof -
  from assms obtain r1 s1 d1 where su: "stream_setup h info factor s d = Some (r1, s1, d1)"
    by (auto simp: uvc_stream_start_bandwidth_def split: bind_splits)
  note keep = unplanned_fields [OF stream_setup_keeps [OF su]]
  show ?thesis
  proof (cases "r1 = UVC_SUCCESS")
    case False
    with assms su show ?thesis
      by (auto simp: uvc_stream_start_bandwidth_def start_fail_def)
  next
    case True
    let ?s = "s1\<lparr>user_cb := cb, cb_thread := cb_thread s1 \<or> cb\<rparr>"
    from stream_setup_success [OF su [unfolded True]] obtain t where
      t: "transfers ?s = table_of 0 LIBUVC_NUM_TRANSFER_BUFS t" and plan: "transfer_plan info factor s t"
      by auto
    from submit_transfers_table [OF t, of h d1] obtain r2 j d2 where
      sub: "submit_transfers h [0..<LIBUVC_NUM_TRANSFER_BUFS] ?s d1 =
        Some (r2, ?s\<lparr>transfers := table_of j (LIBUVC_NUM_TRANSFER_BUFS - j) t\<rparr>, d2)"
      and r2: "r2 = UVC_SUCCESS \<longleftrightarrow> j = LIBUVC_NUM_TRANSFER_BUFS"
      by (metis add_0)
    have res: "ret = r2" "s' = (if r2 = UVC_SUCCESS then ?s\<lparr>transfers := table_of j (LIBUVC_NUM_TRANSFER_BUFS - j) t\<rparr>
        else start_fail (?s\<lparr>transfers := table_of j (LIBUVC_NUM_TRANSFER_BUFS - j) t\<rparr>))"
      using assms su sub True by (auto simp: uvc_stream_start_bandwidth_def simp del: upt_rec_numeral split: if_splits)
    have "transfer_plan info factor s' (t\<lparr>tr_state := In_Flight\<rparr>)"
      using plan keep by (simp add: res transfer_plan_def start_reset_def start_fail_def Let_def)
    then show ?thesis
      using keep r2 by (auto simp: res table_of_def start_fail_def start_reset_def)
  qed
qed

section \<open>A start that fails half way\<close>

lemma free_stream_fields:
  "free_stream h devh k s d = (devh', d') \<Longrightarrow>
   devh' = devh\<lparr>streams := take k (streams devh) @ drop (Suc k) (streams devh), orphans := orphans devh @ in_flight s,
     orphan_threads := orphan_threads devh + (if cb_thread s then 1 else 0)\<rparr>"
  by (simp add: free_stream_def case_prod_beta Let_def)

lemma open_ctrl_success:
  assumes "uvc_stream_open_ctrl h o1 o2 devh ctrl d = (UVC_SUCCESS, devh', d')"
  shows "\<exists>s. devh' = devh\<lparr>streams := streams devh @ [s]\<rparr> \<and> \<not> running (strm s) \<and> \<not> cb_thread s"
  using assms
  by (auto simp: uvc_stream_open_ctrl_def commit_stream_ctrl_def Let_def split: if_splits option.splits prod.splits)

lemma in_flight_table: "tr_state t = Idle \<Longrightarrow> in_flight (s\<lparr>transfers := table_of k m t\<rparr>) = replicate k (t\<lparr>tr_state := In_Flight\<rparr>)"
proof -
  assume t: "tr_state t = Idle"
  have *: "concat (map (\<lambda>x. case x of None \<Rightarrow> [] | Some t \<Rightarrow> if tr_state t \<noteq> Idle then [t] else []) (table_of k m t)) =
      replicate k (t\<lparr>tr_state := In_Flight\<rparr>)"
  proof -
    have "concat (replicate m ([] :: transfer list)) = []" for m
      by (induction m) simp_all
    moreover have "concat (replicate k [x]) = replicate k x" for x :: transfer
      by (induction k) simp_all
    ultimately show ?thesis
      by (simp add: table_of_def t)
  qed
  show ?thesis
    unfolding in_flight_def by (simp add: *)
qed

text \<open>When the submission of the j-th transfer fails, starting a stream reports the error and closes the stream, but the
  transfers already submitted, all \<open>j\<close> of them, stay in flight, and the callback thread alive, with the freed handle.\<close>

theorem failed_submit_orphans:
  assumes "uvc_stream_open_ctrl h o1 o2 devh ctrl d = (UVC_SUCCESS, devh1, d1)"
    and "stream_setup h (dh_info devh1) factor (last (streams devh1)) d1 = Some (UVC_SUCCESS, s, d2)"
    and "j < LIBUVC_NUM_TRANSFER_BUFS"
    and "\<And>i t d. i < j \<Longrightarrow> fst (libusb_submit_transfer h i t d) = UVC_SUCCESS"
    and "\<And>t d. fst (libusb_submit_transfer h j t d) = e" and "e \<noteq> UVC_SUCCESS"
  shows "\<exists>devh' d' t. uvc_start_streaming_bandwidth h o1 o2 devh ctrl cb factor d = Some (e, devh', d') \<and>
    streams devh' = streams devh \<and> tr_state t = In_Flight \<and> orphans devh' = orphans devh @ replicate j t \<and>
    orphan_threads devh' = orphan_threads devh + (if cb then 1 else 0)"
proof -
  obtain s0 where devh1: "devh1 = devh\<lparr>streams := streams devh @ [s0]\<rparr>" and s0: "\<not> running (strm s0)" "\<not> cb_thread s0"
    using open_ctrl_success [OF assms(1)] by blast
  have su: "stream_setup h (dh_info devh1) factor s0 d1 = Some (UVC_SUCCESS, s, d2)"
    using assms(2) by (simp add: devh1)
  let ?s = "s\<lparr>user_cb := cb, cb_thread := cb_thread s \<or> cb\<rparr>"
  obtain t where t: "transfers ?s = table_of 0 LIBUVC_NUM_TRANSFER_BUFS t" "tr_state t = Idle"
    using stream_setup_success [OF su] by auto
  let ?s' = "?s\<lparr>transfers := table_of j (LIBUVC_NUM_TRANSFER_BUFS - j) t\<rparr>"
  from submit_transfers_first_failure [OF t(1), of j h e d2] assms(3-6) obtain d3 where
    sub: "submit_transfers h [0..<LIBUVC_NUM_TRANSFER_BUFS] ?s d2 = Some (e, ?s', d3)"
    by (metis add_0)
  have start: "uvc_stream_start_bandwidth h (dh_info devh1) factor cb s0 d1 = Some (e, start_fail ?s', d3)"
    using s0 assms(6) sub by (simp add: uvc_stream_start_bandwidth_def su del: upt_rec_numeral)
  have "\<not> cb_thread s"
    using unplanned_fields(4) [OF stream_setup_keeps [OF su]] s0 by (simp add: start_reset_def)
  then have thr: "cb_thread (start_fail ?s') = cb"
    by (simp add: start_fail_def)
  have fly: "in_flight (start_fail ?s') = replicate j (t\<lparr>tr_state := In_Flight\<rparr>)"
    using in_flight_table [OF t(2), where k = j and s = ?s] by (simp add: in_flight_def start_fail_def)
  obtain devh2 d4 where free: "free_stream h (devh\<lparr>streams := streams devh @ [start_fail ?s']\<rparr>) (length (streams devh))
      (start_fail ?s') d3 = (devh2, d4)"
    by fastforce
  have "\<not> running (strm (start_fail ?s'))"
    by (simp add: start_fail_def)
  then have "uvc_start_streaming_bandwidth h o1 o2 devh ctrl cb factor d = Some (e, devh2, d4)"
    using assms(1,6) start free
    by (simp add: uvc_start_streaming_bandwidth_def devh1 Let_def uvc_stream_close_def nth_append)
  moreover have "streams devh2 = streams devh" "orphans devh2 = orphans devh @ replicate j (t\<lparr>tr_state := In_Flight\<rparr>)"
    "orphan_threads devh2 = orphan_threads devh + (if cb then 1 else 0)"
    using free_stream_fields [OF free] fly thr by simp_all
  ultimately show ?thesis
    by (intro exI [of _ devh2] exI [of _ d4] exI [of _ "t\<lparr>tr_state := In_Flight\<rparr>"]) simp
qed

end
