(* ===== verification/Uvc_Stop.thy ===== *)
theory Uvc_Stop
  imports Uvc_Session
begin

text \<open>
  The end of a stream: which events let a stop return, what keeps it waiting, and what a close leaves behind when the device
  has gone. The state of a transfer moves on its own, so the proofs follow one slot of the table.
\<close>

section \<open>One slot of the table\<close>

definition slot :: "stream_handle \<Rightarrow> nat \<Rightarrow> transfer_state option" where
  "slot s i = (case transfers s ! i of None \<Rightarrow> None | Some t \<Rightarrow> Some (tr_state t))"

interpretation run_kept: payload_invariant "\<lambda>s. running s = r" for r
  by unfold_locales (simp_all add: swap_buffers_def)

lemmas running_kept = run_kept.payload [OF refl] run_kept.packets [OF refl]

lemma callback_cases:
  assumes "stream_callback s i t status data pkts = Some s'"
  shows "length (transfers s') = length (transfers s) \<and> user_cb s' = user_cb s \<and> cb_thread s' = cb_thread s \<and>
    (\<not> running (strm s) \<longrightarrow> \<not> running (strm s') \<and> transfers s' = (transfers s)[i := None]) \<and>
    (transfers s' = (transfers s)[i := None] \<or> transfers s' = (transfers s)[i := Some (t\<lparr>tr_state := Resubmitting\<rparr>)])"
  using assms
  by (auto simp: stream_callback_def split: bind_splits libusb_transfer_status.splits if_splits
      dest: running_kept)

lemma event_keeps:
  assumes "handle_event s e = Some s'"
  shows "length (transfers s') = length (transfers s)" "user_cb s' = user_cb s" "cb_thread s' = cb_thread s"
    "\<not> running (strm s) \<Longrightarrow> \<not> running (strm s')"
  using assms by (cases e; auto simp: start_fail_def dest: callback_cases split: if_splits option.splits)+

lemma slot_update [simp]:
  "j < length (transfers s) \<Longrightarrow>
   slot (s\<lparr>transfers := (transfers s)[j := x]\<rparr>) i = (if i = j then map_option tr_state x else slot s i)"
  by (auto simp: slot_def split: option.splits)

lemma slot_cong: "transfers s' = transfers s \<Longrightarrow> slot s' i = slot s i"
  by (simp add: slot_def)

lemma callback_slot:
  assumes "stream_callback s j t status data pkts = Some s'" and "j < length (transfers s)"
  shows "i \<noteq> j \<Longrightarrow> slot s' i = slot s i" "slot s' j \<in> {None, Some Resubmitting}"
    "\<not> running (strm s) \<Longrightarrow> slot s' j = None"
  using callback_cases [OF assms(1)] assms(2) by (auto simp: slot_def)

text \<open>What an event does to one slot: one that is empty stays empty, one whose transfer was lost stays lost.\<close>

definition touches :: "nat \<Rightarrow> stream_event \<Rightarrow> bool" where
  "touches i e = (case e of Completion j _ _ _ \<Rightarrow> j = i | Submission j _ \<Rightarrow> j = i | Stop_Request \<Rightarrow> False)"

lemma untouched:
  assumes "handle_event s e = Some s'" and "\<not> touches i e"
  shows "slot s' i = slot s i"
proof (cases e)
  case (Completion j st d p)
  with assms show ?thesis
    by (auto simp: touches_def split: if_splits option.splits dest: callback_slot(1))
qed (use assms in \<open>auto simp: touches_def start_fail_def slot_def split: if_splits option.splits\<close>)

lemma completed:
  assumes "handle_event s (Completion i status data pkts) = Some s'" and "i < length (transfers s)"
  shows "slot s i = Some In_Flight \<Longrightarrow> slot s' i \<in> {None, Some Resubmitting}"
    "slot s i = Some In_Flight \<Longrightarrow> \<not> running (strm s) \<Longrightarrow> slot s' i = None"
    "slot s i \<noteq> Some In_Flight \<Longrightarrow> slot s' i = slot s i"
proof -
  have *: "\<exists>t. stream_callback s i t status data pkts = Some s'" if "slot s i = Some In_Flight"
    using assms that by (auto simp: slot_def split: option.splits if_splits)
  have same: "s' = s" if "slot s i \<noteq> Some In_Flight"
    using assms that by (auto simp: slot_def split: option.splits if_splits)
  show "slot s i = Some In_Flight \<Longrightarrow> slot s' i \<in> {None, Some Resubmitting}"
    using * callback_slot(2) assms(2) by metis
  show "slot s i = Some In_Flight \<Longrightarrow> \<not> running (strm s) \<Longrightarrow> slot s' i = None"
    using * callback_slot(3) assms(2) by metis
  show "slot s i \<noteq> Some In_Flight \<Longrightarrow> slot s' i = slot s i"
    using same by simp
qed

lemma submitted:
  assumes "handle_event s (Submission i ok) = Some s'" and "i < length (transfers s)"
  shows "slot s' i = (if slot s i = Some Resubmitting then Some (if ok then In_Flight else Idle) else slot s i)"
  using assms by (auto simp: slot_def split: option.splits if_splits)

lemma untouched_cases:
  obtains (untouched) "\<not> touches i e" | (completion) st d p where "e = Completion i st d p"
  | (submission) ok where "e = Submission i ok"
  by (cases e) (auto simp: touches_def)

lemma lost_stays:
  assumes "handle_event s e = Some s'" and "i < length (transfers s)" and "slot s i = Some Idle"
  shows "slot s' i = Some Idle"
  using assms by (cases rule: untouched_cases [of i e]) (auto simp: untouched completed submitted simp del: handle_event.simps)

lemma gone_stays:
  assumes "handle_event s e = Some s'" and "i < length (transfers s)" and "slot s i = None"
  shows "slot s' i = None"
  using assms by (cases rule: untouched_cases [of i e]) (auto simp: untouched completed submitted simp del: handle_event.simps)

lemma none_lost:
  assumes "handle_event s e = Some s'" and "i < length (transfers s)" and "slot s i \<noteq> Some Idle"
    and "e \<noteq> Submission i False"
  shows "slot s' i \<noteq> Some Idle"
  using assms completed [of s i _ _ _ s']
  by (cases rule: untouched_cases [of i e]; cases "slot s i = Some In_Flight") (auto simp: untouched submitted simp del: handle_event.simps)

lemma flying_stays:
  assumes "handle_event s e = Some s'" and "i < length (transfers s)" and "slot s i \<in> {None, Some In_Flight}"
    and "\<not> running (strm s)"
  shows "slot s' i \<in> {None, Some In_Flight}"
  using assms completed [of s i _ _ _ s']
  by (cases rule: untouched_cases [of i e]; cases "slot s i = Some In_Flight") (auto simp: untouched submitted simp del: handle_event.simps)

section \<open>Runs of events\<close>

abbreviation "run_events \<equiv> run_partial handle_event"

lemma run_length: "run_events s es = Some s' \<Longrightarrow> length (transfers s') = length (transfers s)"
  by (induction es arbitrary: s) (auto split: bind_splits dest: event_keeps(1))

lemma run_stopped: "run_events s es = Some s' \<Longrightarrow> \<not> running (strm s) \<Longrightarrow> \<not> running (strm s')"
  by (induction es arbitrary: s) (auto split: bind_splits dest: event_keeps(4))

lemma run_keeps_slot:
  assumes "\<And>s e s'. handle_event s e = Some s' \<Longrightarrow> P e \<Longrightarrow> i < length (transfers s) \<Longrightarrow> Q s \<Longrightarrow> Q s'"
  shows "run_events s es = Some s' \<Longrightarrow> list_all P es \<Longrightarrow> i < length (transfers s) \<Longrightarrow> Q s \<Longrightarrow> Q s'"
proof (induction es arbitrary: s)
  case (Cons e es)
  then obtain s1 where e: "handle_event s e = Some s1" and r: "run_events s1 es = Some s'"
    by (auto split: bind_splits)
  show ?case
    using Cons.IH [OF r] assms [OF e] event_keeps(1) [OF e] Cons.prems by simp
qed simp

lemma stop_wait_prefix:
  "stop_wait s es = Some r \<Longrightarrow> \<exists>es1 es2 s'. es = es1 @ es2 \<and> run_events s es1 = Some s' \<and>
     (case r of Some x \<Rightarrow> x = s' \<and> all_deleted s' | None \<Rightarrow> es2 = [] \<and> \<not> all_deleted s')"
proof (induction es arbitrary: s)
  case Nil
  then show ?case by (auto split: if_splits)
next
  case (Cons e es)
  show ?case
  proof (cases "all_deleted s")
    case True
    with Cons.prems show ?thesis
      by (intro exI [of _ "[]"] exI [of _ "e # es"] exI [of _ s]) auto
  next
    case False
    with Cons.prems obtain s1 where e: "handle_event s e = Some s1" and "stop_wait s1 es = Some r"
      by (auto split: bind_splits)
    with Cons.IH obtain es1 es2 s' where "es = es1 @ es2" "run_events s1 es1 = Some s'"
      "case r of Some x \<Rightarrow> x = s' \<and> all_deleted s' | None \<Rightarrow> es2 = [] \<and> \<not> all_deleted s'"
      by blast
    with e show ?thesis
      by (intro exI [of _ "e # es1"] exI [of _ es2] exI [of _ s']) simp
  qed
qed

lemma all_deleted_slots: "all_deleted s \<longleftrightarrow> (\<forall>i < length (transfers s). slot s i = None)"
  by (auto simp: all_deleted_def slot_def list_all_length split: option.split)

lemma all_deleted_in_flight: "all_deleted s \<Longrightarrow> in_flight s = []"
  by (auto simp: all_deleted_def in_flight_def list_all_iff split: option.split)

text \<open>
  The events answer for a transfer: once a submission that may be under way has gone through, its completion comes.
\<close>

definition drains :: "nat \<Rightarrow> stream_event list \<Rightarrow> bool" where
  "drains i es \<longleftrightarrow> (\<exists>a b c st data pkts. es = a @ Submission i True # b @ Completion i st data pkts # c)"

definition no_loss :: "stream_event \<Rightarrow> bool" where
  "no_loss e \<longleftrightarrow> (\<forall>i. e \<noteq> Submission i False)"

lemma run_none_lost:
  "run_events s es = Some s' \<Longrightarrow> list_all no_loss es \<Longrightarrow> i < length (transfers s) \<Longrightarrow> slot s i \<noteq> Some Idle \<Longrightarrow>
   slot s' i \<noteq> Some Idle"
  by (rule run_keeps_slot [where P = no_loss and Q = "\<lambda>s. slot s i \<noteq> Some Idle"])
    (auto simp: no_loss_def dest: none_lost simp del: handle_event.simps)

lemma run_gone_stays:
  "run_events s es = Some s' \<Longrightarrow> i < length (transfers s) \<Longrightarrow> slot s i = None \<Longrightarrow> slot s' i = None"
  by (rule run_keeps_slot [where P = "\<lambda>_. True" and Q = "\<lambda>s. slot s i = None"])
    (auto simp: list_all_iff dest: gone_stays simp del: handle_event.simps)

lemma run_flying_stays:
  "run_events s es = Some s' \<Longrightarrow> i < length (transfers s) \<Longrightarrow> slot s i \<in> {None, Some In_Flight} \<Longrightarrow> \<not> running (strm s) \<Longrightarrow>
   slot s' i \<in> {None, Some In_Flight}"
  using run_keeps_slot [where P = "\<lambda>_. True" and Q = "\<lambda>s. slot s i \<in> {None, Some In_Flight} \<and> \<not> running (strm s)", of i s es s']
    flying_stays event_keeps(4) by (simp add: list_all_iff del: handle_event.simps)

lemma drained:
  assumes "run_events s es = Some s'" and "\<not> running (strm s)" and "slot s i \<noteq> Some Idle" and "i < length (transfers s)"
    and "list_all no_loss es" and "drains i es"
  shows "slot s' i = None"
proof -
  obtain a b c st data pkts where es: "es = a @ Submission i True # b @ Completion i st data pkts # c"
    using assms(6) by (auto simp: drains_def)
  obtain s1 s2 s3 s4 where a: "run_events s a = Some s1" and sub: "handle_event s1 (Submission i True) = Some s2"
    and b: "run_events s2 b = Some s3" and cmp: "handle_event s3 (Completion i st data pkts) = Some s4"
    and c: "run_events s4 c = Some s'"
    using assms(1) by (auto simp: es run_partial_append simp del: handle_event.simps split: bind_splits)
  note len = run_length [OF a] event_keeps(1) [OF sub] run_length [OF b] event_keeps(1) [OF cmp]
  note stop = run_stopped [OF a assms(2)]
  have "slot s1 i \<noteq> Some Idle"
    using run_none_lost [OF a _ assms(4,3)] assms(5) by (simp add: es)
  then have "slot s2 i \<in> {None, Some In_Flight}"
    using submitted [OF sub] len assms(4) by (cases "slot s1 i") (auto intro: transfer_state.exhaust)
  then have "slot s3 i \<in> {None, Some In_Flight}"
    using run_flying_stays [OF b] len assms(4) event_keeps(4) [OF sub stop] by simp
  then have "slot s4 i = None"
    using completed [OF cmp] len assms(4) run_stopped [OF b event_keeps(4) [OF sub stop]] by auto
  then show ?thesis
    using run_gone_stays [OF c] len assms(4) by simp
qed

lemma stop_reaches_end:
  assumes "stop_wait s es = Some r" and "\<not> running (strm s)" and "\<forall>i < length (transfers s). slot s i \<noteq> Some Idle"
    and "list_all no_loss es" and "\<forall>i < length (transfers s). drains i es"
  shows "\<exists>s'. r = Some s' \<and> all_deleted s' \<and> cb_thread s' = cb_thread s \<and> user_cb s' = user_cb s"
proof -
  from stop_wait_prefix [OF assms(1)] obtain es1 es2 s' where
    *: "es = es1 @ es2" "run_events s es1 = Some s'"
    "case r of Some x \<Rightarrow> x = s' \<and> all_deleted s' | None \<Rightarrow> es2 = [] \<and> \<not> all_deleted s'"
    by blast
  have "cb_thread s' = cb_thread s \<and> user_cb s' = user_cb s" if "run_events s es = Some s'" for s es s'
    using that by (induction es arbitrary: s) (auto split: bind_splits dest: event_keeps(2,3) simp del: handle_event.simps)
  with * have keep: "cb_thread s' = cb_thread s \<and> user_cb s' = user_cb s"
    by blast
  show ?thesis
  proof (cases r)
    case None
    with * have run: "run_events s es = Some s'" and "\<not> all_deleted s'"
      by simp_all
    with drained [OF run] assms run_length [OF run] show ?thesis
      by (simp add: all_deleted_slots)
  qed (use * keep in simp)
qed

text \<open>C18. Closing a running stream comes to an end and leaves nothing behind: when no transfer has been lost,
  no submission fails any more, and each transfer completes, with whatever status and in whatever order, the close returns, with the stream
  out of the device's list, no transfer in flight and no callback thread alive.\<close>

theorem close_returns_clean:
  assumes "running (strm (streams devh ! k))"
    and "\<forall>i < length (transfers (streams devh ! k)). slot (streams devh ! k) i \<noteq> Some Idle"
    and "cb_thread (streams devh ! k) \<longrightarrow> user_cb (streams devh ! k)"
    and "list_all no_loss es" and "\<forall>i < length (transfers (streams devh ! k)). drains i es"
    and "uvc_stream_close h devh k es d \<noteq> None"
  shows "\<exists>devh' d'. uvc_stream_close h devh k es d = Some (Some (devh', d')) \<and>
    streams devh' = take k (streams devh) @ drop (Suc k) (streams devh) \<and>
    orphans devh' = orphans devh \<and> orphan_threads devh' = orphan_threads devh"
proof -
  let ?s = "streams devh ! k"
  obtain r where r: "stop_wait (start_fail ?s) es = Some r"
    using assms(1,6) by (auto simp: uvc_stream_close_def uvc_stream_stop_def Let_def split: bind_splits)
  have "slot (start_fail ?s) i = slot ?s i" for i
    by (simp add: slot_def start_fail_def)
  with stop_reaches_end [OF r] assms obtain s' where
    s': "r = Some s'" "all_deleted s'" "cb_thread s' = cb_thread ?s" "user_cb s' = user_cb ?s"
    by (auto simp: start_fail_def)
  let ?s' = "if user_cb s' then s'\<lparr>cb_thread := False\<rparr> else s'"
  obtain devh' d' where free: "free_stream h devh k ?s' d = (devh', d')"
    by fastforce
  have "in_flight ?s' = []" "\<not> cb_thread ?s'"
    using all_deleted_in_flight [OF s'(2)] s'(3,4) assms(3) by (auto simp: in_flight_def)
  with free_stream_fields [OF free] show ?thesis
    using r free s'(1) assms(1)
    by (intro exI [of _ devh'] exI [of _ d']) (simp add: uvc_stream_close_def uvc_stream_stop_def Let_def)
qed

text \<open>A transfer whose resubmission fails stays in the table for good: the result of that submission is ignored, no later event
  takes the transfer out, and a stop of the stream waits for ever, whatever else completes.\<close>

theorem lost_transfer_blocks_stop:
  assumes "i < length (transfers s)" and "slot s i = Some Resubmitting" and "running (strm s)"
  shows "\<exists>s'. handle_event s (Submission i False) = Some s' \<and>
    (\<forall>es r. uvc_stream_stop s' es = Some r \<longrightarrow> r = None)"
proof -
  obtain s' where ev: "handle_event s (Submission i False) = Some s'"
  proof -
    have "handle_event s (Submission i False) \<noteq> None"
      by (simp split: option.split)
    then show ?thesis
      using that by blast
  qed
  have idle: "slot s' i = Some Idle" and len: "i < length (transfers s')"
    using submitted [OF ev assms(1)] assms(1,2) event_keeps(1) [OF ev] by simp_all
  have run: "running (strm s')"
    using ev assms(1,3) by (auto split: option.splits if_splits)
  have "r = None" if "stop_wait (start_fail s') es = Some r" for es r
  proof -
    from stop_wait_prefix [OF that] obtain es1 es2 s'' where
      "es = es1 @ es2" and *: "run_events (start_fail s') es1 = Some s''"
      "case r of Some x \<Rightarrow> x = s'' \<and> all_deleted s'' | None \<Rightarrow> es2 = [] \<and> \<not> all_deleted s''"
      by blast
    have st: "slot (start_fail s') i = Some Idle" "i < length (transfers (start_fail s'))"
      using idle len by (simp_all add: start_fail_def slot_def)
    have "slot s'' i = Some Idle"
      using run_keeps_slot [where P = "\<lambda>_. True" and Q = "\<lambda>s. slot s i = Some Idle", OF lost_stays *(1)] st
      by (simp add: list_all_iff)
    then have "\<not> all_deleted s''"
      using run_length [OF *(1)] st by (auto simp: all_deleted_slots)
    with *(2) show ?thesis
      by (cases r) auto
  qed
  then have "\<forall>es r. uvc_stream_stop s' es = Some r \<longrightarrow> r = None"
    using run by (auto simp: uvc_stream_stop_def split: bind_splits)
  with ev show ?thesis
    by blast
qed

text \<open>When the device is unplugged, the first transfer to report it clears \<open>running\<close>; a close that comes then neither waits for
  the other transfers nor for the callback thread, and frees the handle they go on using.\<close>

theorem unplug_close_orphans:
  assumes "i < length (transfers s)" and "slot s i = Some In_Flight" and "j \<noteq> i" and "transfers s ! j = Some t"
    and "j < length (transfers s)" and "tr_state t = In_Flight"
  shows "\<exists>s'. handle_event s (Completion i TRANSFER_NO_DEVICE data pkts) = Some s' \<and>
    (\<forall>h devh k es d. streams devh ! k = s' \<longrightarrow> (\<exists>devh' d'.
       uvc_stream_close h devh k es d = Some (Some (devh', d')) \<and> t \<in> set (orphans devh') \<and>
       orphan_threads devh' = orphan_threads devh + (if cb_thread s then 1 else 0)))"
proof -
  obtain u where u: "transfers s ! i = Some u" "tr_state u = In_Flight"
    using assms(2) by (auto simp: slot_def split: option.splits)
  let ?s = "s\<lparr>strm := (strm s)\<lparr>running := False\<rparr>, transfers := (transfers s)[i := None]\<rparr>"
  have ev: "handle_event s (Completion i TRANSFER_NO_DEVICE data pkts) = Some ?s"
    using assms(1) u by (simp add: stream_callback_def)
  have "Some t \<in> set (transfers ?s)"
    using assms(3-5) by (metis (no_types, lifting) length_list_update nth_list_update_neq nth_mem stream_handle.select_convs(7)
        stream_handle.surjective stream_handle.update_convs(7))
  then have t: "t \<in> set (in_flight ?s)"
    using assms(6) by (force simp: in_flight_def)
  have "\<exists>devh' d'. uvc_stream_close h devh k es d = Some (Some (devh', d')) \<and> t \<in> set (orphans devh') \<and>
      orphan_threads devh' = orphan_threads devh + (if cb_thread s then 1 else 0)" if "streams devh ! k = ?s"
    for h :: "'a stream_host" and devh k es d
  proof -
    obtain devh' d' where free: "free_stream h devh k ?s d = (devh', d')"
      by fastforce
    from free_stream_fields [OF free] t that free show ?thesis
      by (intro exI [of _ devh'] exI [of _ d']) (simp add: uvc_stream_close_def Let_def)
  qed
  with ev show ?thesis
    by blast
qed

end
