(* ===== verification/Uvc_Deliver.thy ===== *)
theory Uvc_Deliver
  imports Uvc_Stop
begin

text \<open>
  From published frames to the application: the events of the transfers, the callback thread and a polling
  application as one step relation, what every run of it hands over, and the behaviour at the first frame
  and at a restart.
\<close>

section \<open>A session\<close>

text \<open>The stream handle, where the callback thread stands, and the frames handed over so far.\<close>

type_synonym session = "stream_handle \<times> caller \<times> uvc_frame list"

definition frames_out :: "poll_result \<Rightarrow> uvc_frame list" where
  "frames_out r = (case r of Frame_Out f \<Rightarrow> [f] | No_Frame \<Rightarrow> [] | Must_Wait \<Rightarrow> [])"

lemma frames_out_simps [simp]:
  "frames_out (Frame_Out f) = [f]" "frames_out No_Frame = []" "frames_out Must_Wait = []"
  by (simp_all add: frames_out_def)

inductive session_step :: "uvc_device_info \<Rightarrow> session \<Rightarrow> session \<Rightarrow> bool" for info where
  Event: "handle_event s e = Some s' \<Longrightarrow> session_step info (s, pc, out) (s', pc, out)"
| Caller: "user_caller info s pc = Some (s', pc', fs) \<Longrightarrow> session_step info (s, pc, out) (s', pc', out @ fs)"
| Poll: "uvc_stream_get_frame info s timeout_us = Some (ret, r, s') \<Longrightarrow>
    session_step info (s, pc, out) (s', pc, out @ frames_out r)"
| Poll_Woken: "get_frame_woken info s = Some (ret, r, s') \<Longrightarrow> session_step info (s, pc, out) (s', pc, out @ frames_out r)"

inductive_cases session_stepE: "session_step info (s, pc, out) x"

section \<open>What is on hold\<close>

definition hold_contents :: "stream \<Rightarrow> bytes" where
  "hold_contents s = (case holdbuf s of None \<Rightarrow> [] | Some b \<Rightarrow> take (hold_bytes s) b)"

definition hold_inv :: "stream \<Rightarrow> bool" where
  "hold_inv s \<longleftrightarrow> (if published s = [] then hold_seq s = 0
     else hold_contents s = pf_bytes (last (published s)) \<and> hold_bfh_err s = pf_err (last (published s)) \<and>
       hold_seq s = pf_seq (last (published s)))"

interpretation held: payload_invariant hold_inv
  by unfold_locales (auto simp: hold_inv_def hold_contents_def swap_buffers_def partial_frame_def split: option.split)

interpretation history: payload_invariant "\<lambda>s. \<exists>x. published s = ps @ x" for ps
  by unfold_locales (auto simp: swap_buffers_def)

lemma callback_strm:
  "stream_callback s i t st data pkts = Some s' \<Longrightarrow> frame s' = frame s \<and> cur_ctrl s' = cur_ctrl s \<and>
   (strm s' = strm s \<or> strm s' = (strm s)\<lparr>running := False\<rparr> \<or> process_payload (strm s) data = Some (strm s') \<or>
    process_payload_iso (strm s) pkts = Some (strm s'))"
  by (auto simp: stream_callback_def split: bind_splits libusb_transfer_status.splits if_splits)

lemma event_strm:
  assumes "handle_event s e = Some s'"
  shows "frame s' = frame s \<and> (strm s' = strm s \<or> strm s' = (strm s)\<lparr>running := False\<rparr> \<or>
    (\<exists>data. process_payload (strm s) data = Some (strm s')) \<or> (\<exists>pkts. process_payload_iso (strm s) pkts = Some (strm s')))"
proof (cases e)
  case (Completion i st data pkts)
  with assms show ?thesis
    by (cases "i < length (transfers s)"; cases "transfers s ! i") (auto dest: callback_strm split: if_splits)
qed (use assms in \<open>auto simp: start_fail_def split: if_splits option.splits\<close>)

lemma hold_inv_running: "hold_inv (s\<lparr>running := b\<rparr>) = hold_inv s"
  by (simp add: hold_inv_def hold_contents_def split: option.split)

lemma event_hold:
  assumes "handle_event s e = Some s'" and "hold_inv (strm s)"
  shows "hold_inv (strm s')" "\<exists>x. published (strm s') = published (strm s) @ x" "frame s' = frame s"
  using event_strm [OF assms(1)] assms(2) history.payload [of "strm s" "published (strm s)"]
    history.packets [of "strm s" "published (strm s)"]
  by (auto simp: hold_inv_running intro: held.payload held.packets)

text \<open>A frame handed over: marked empty, or the bytes of a frame published without error.\<close>

definition honest :: "published_frame list \<Rightarrow> uvc_frame \<Rightarrow> bool" where
  "honest ps f \<longleftrightarrow> fm_actual_bytes f = 0 \<or> (\<exists>p \<in> set ps. pf_err p = 0 \<and> take (fm_actual_bytes f) (fm_data f) = pf_bytes p)"

lemma honest_mono: "honest ps f \<Longrightarrow> honest (ps @ x) f"
  by (auto simp: honest_def)

lemma populate_honest:
  assumes "populate_frame info s = Some s'" and "hold_inv (strm s)" and "published (strm s) \<noteq> []"
  shows "honest (published (strm s)) (frame s') \<and> strm s' = strm s"
proof -
  let ?s = "strm s"
  obtain hb where hb: "holdbuf ?s = Some hb" "hold_bytes ?s \<le> length hb" and s': "strm s' = ?s"
    and fr: "fm_data (frame s') = take (hold_bytes ?s) hb @ drop (hold_bytes ?s) (fm_data (frame s))"
      "fm_actual_bytes (frame s') = (if hold_bfh_err ?s = 0 then hold_bytes ?s else 0)"
    using assms(1) by (auto simp: populate_frame_def Let_def ub_simps split: option.splits)
  show ?thesis
  proof (cases "hold_bfh_err ?s = 0")
    case True
    then have "take (fm_actual_bytes (frame s')) (fm_data (frame s')) = hold_contents ?s"
      using hb fr by (simp add: hold_contents_def)
    moreover have "hold_contents ?s = pf_bytes (last (published ?s))" "pf_err (last (published ?s)) = 0"
      using assms(2,3) True by (simp_all add: hold_inv_def)
    ultimately show ?thesis
      using assms(3) s' by (auto simp: honest_def)
  qed (use s' fr in \<open>simp add: honest_def\<close>)
qed

definition session_ok :: "session \<Rightarrow> bool" where
  "session_ok x = (case x of (s, pc, out) \<Rightarrow>
     hold_inv (strm s) \<and> honest (published (strm s)) (frame s) \<and> list_all (honest (published (strm s))) out \<and>
     (published (strm s) = [] \<longrightarrow> pc \<in> {At_Lock 0, Returned}))"

lemma take_polled_ok:
  assumes "take_polled info other s = Some (ret, r, s')" and "session_ok (s, pc, out)" and "frames_out other = []"
  shows "session_ok (s', pc, out @ frames_out r)"
proof (cases "last_polled_seq s < hold_seq (strm s)")
  case True
  then have "published (strm s) \<noteq> []"
    using assms(2) by (auto simp: session_ok_def hold_inv_def split: if_splits)
  with True assms(1,2) show ?thesis
    by (auto simp: take_polled_def session_ok_def dest: populate_honest split: bind_splits)
qed (use assms in \<open>auto simp: take_polled_def\<close>)

lemma step_ok: "session_step info x y \<Longrightarrow> session_ok x \<Longrightarrow> session_ok y"
proof (induction rule: session_step.induct)
  case (Event s e s' pc out)
  then have "hold_inv (strm s)"
    by (simp add: session_ok_def)
  note keep = event_hold [OF Event.hyps this]
  then obtain xs where "hold_inv (strm s')" "published (strm s') = published (strm s) @ xs" "frame s' = frame s"
    by blast
  with Event.prems show ?case
    by (auto simp: session_ok_def honest_mono list_all_iff)
next
  case (Caller s pc s' pc' fs out)
  show ?case
  proof (cases pc)
    case (At_Lock q)
    with Caller show ?thesis
      by (auto simp: session_ok_def Let_def hold_inv_def dest: populate_honest split: if_splits bind_splits)
  qed (use Caller in \<open>auto simp: session_ok_def\<close>)
next
  case (Poll s timeout_us ret r s' pc out)
  then show ?case
    by (auto simp: uvc_stream_get_frame_def split: if_splits intro: take_polled_ok)
next
  case (Poll_Woken s ret r s' pc out)
  then show ?case
    by (auto simp: get_frame_woken_def intro: take_polled_ok)
qed

text \<open>C2. Whatever the interleaving of transfers, callback thread, polls and stop requests, every frame the application gets from a
  freshly started stream is either marked empty or is byte for byte a frame the camera sent without an error in this run.\<close>

theorem delivered_frames_published:
  assumes "(session_step info)\<^sup>*\<^sup>* (s0, At_Lock 0, []) (s, pc, out)"
    and "published (strm s0) = []" and "hold_seq (strm s0) = 0" and "fm_actual_bytes (frame s0) = 0"
    and "f \<in> set out"
  shows "fm_actual_bytes f = 0 \<or>
    (\<exists>p \<in> set (published (strm s)). pf_err p = 0 \<and> take (fm_actual_bytes f) (fm_data f) = pf_bytes p)"
proof -
  have "session_ok (s0, At_Lock 0, [])"
    using assms(2-4) by (simp add: session_ok_def hold_inv_def honest_def)
  with assms(1) have "session_ok (s, pc, out)"
    by (induction rule: rtranclp_induct) (auto intro: step_ok)
  with assms(5) show ?thesis
    by (auto simp: session_ok_def honest_def list_all_iff)
qed

section \<open>The first frame\<close>

lemma payload_completion:
  assumes "i < length (transfers s)" and "transfers s ! i = Some t" and "tr_state t = In_Flight"
    and "num_iso_packets t = 0" and "process_payload (strm s) p = Some x"
  shows "\<exists>ts. handle_event s (Completion i TRANSFER_COMPLETED p pkts) = Some (s\<lparr>strm := x, transfers := ts\<rparr>)"
  using assms by (auto simp: stream_callback_def)

text \<open>The first frame of a stream is never handed over: it is published under number 0, which is also where the
  callback thread and the poller start counting, so neither takes it for a new frame.\<close>

theorem first_frame_not_delivered:
  assumes "stream_ok (strm s)" and "running (strm s)" and "seq (strm s) = 0" and "hold_seq (strm s) = 0"
    and "got_bytes (strm s) = 0" and "bfh_err (strm s) = 0" and "\<not> is_isight (strm s)" and "published (strm s) = []"
    and "i < length (transfers s)" and "transfers s ! i = Some t" and "tr_state t = In_Flight" and "num_iso_packets t = 0"
    and "data \<noteq> []" and "length data < size_buf (strm s)"
  shows "\<exists>s'. handle_event s (Completion i TRANSFER_COMPLETED ([2, 2] @ data) []) = Some s' \<and>
    map pf_bytes (published (strm s')) = [data] \<and>
    user_caller info s' (At_Lock 0) = Some (s', At_Lock 0, []) \<and>
    (last_polled_seq s = 0 \<and> \<not> user_cb s \<longrightarrow>
       uvc_stream_get_frame info s' (-1) = Some (UVC_SUCCESS, No_Frame, s') \<and>
       get_frame_woken info s' = Some (UVC_SUCCESS, No_Frame, s'))"
proof -
  have "frames_fit (size_buf (strm s)) [[data]]" and p: "stream_payloads 0 [[data]] = [[2, 2] @ data]"
    using assms(13,14) by (simp_all add: frames_fit_def)
  from bulk_frames [OF assms(1,5-7) _ this(1), of 0] obtain x where
    run: "process_payload (strm s) ([2, 2] @ data) = Some x"
    and out: "map (\<lambda>p. (pf_bytes p, pf_err p)) (published x) = [(data, 0)]"
    unfolding p using assms(8) by (auto split: bind_splits)
  obtain f where f: "published x = [f]" "pf_bytes f = data"
    using out by auto
  have "seq_ok (strm s)" "hold_inv (strm s)"
    using assms(3,4,8) by (simp_all add: seq_ok_def hold_inv_def)
  from numbered.payload [OF this(1) run] held.payload [OF this(2) run] f have hold: "hold_seq x = 0"
    by (simp add: seq_ok_def hold_inv_def)
  have running: "running x"
    using running_kept(1) [OF run] assms(2) by simp
  from payload_completion [OF assms(9-12) run] obtain ts where
    "handle_event s (Completion i TRANSFER_COMPLETED ([2, 2] @ data) []) = Some (s\<lparr>strm := x, transfers := ts\<rparr>)"
    by blast
  with f hold running show ?thesis
    by (intro exI [of _ "s\<lparr>strm := x, transfers := ts\<rparr>"])
      (simp add: uvc_stream_get_frame_def get_frame_woken_def take_polled_def Let_def del: handle_event.simps)
qed

section \<open>A restart\<close>

lemma started_state:
  assumes "uvc_stream_start_bandwidth h info factor cb s d = Some (UVC_SUCCESS, s', d')" and "\<not> running (strm s)"
  shows "strm s' = strm (start_reset s)" "cur_ctrl s' = cur_ctrl s" "stream_if s' = stream_if s"
    "last_polled_seq s' = last_polled_seq s" "frame s' = frame s" "user_cb s' = cb"
proof -
  from assms obtain s1 d1 where su: "stream_setup h info factor s d = Some (UVC_SUCCESS, s1, d1)"
    by (auto simp: uvc_stream_start_bandwidth_def split: bind_splits if_splits)
  let ?s = "s1\<lparr>user_cb := cb, cb_thread := cb_thread s1 \<or> cb\<rparr>"
  from stream_setup_success [OF su] obtain t where t: "transfers ?s = table_of 0 LIBUVC_NUM_TRANSFER_BUFS t"
    by auto
  from submit_transfers_table [OF t, of h d1] obtain r2 j d2 where
    sub: "submit_transfers h [0..<LIBUVC_NUM_TRANSFER_BUFS] ?s d1 =
      Some (r2, ?s\<lparr>transfers := table_of j (LIBUVC_NUM_TRANSFER_BUFS - j) t\<rparr>, d2)"
    by (metis add_0)
  have "s' = ?s\<lparr>transfers := table_of j (LIBUVC_NUM_TRANSFER_BUFS - j) t\<rparr>"
    using assms su sub by (auto simp: uvc_stream_start_bandwidth_def simp del: upt_rec_numeral split: if_splits)
  with unplanned_fields [OF stream_setup_keeps [OF su]]
  show "strm s' = strm (start_reset s)" "cur_ctrl s' = cur_ctrl s" "stream_if s' = stream_if s"
    "last_polled_seq s' = last_polled_seq s" "frame s' = frame s" "user_cb s' = cb"
    by (simp_all add: start_reset_def)
qed

lemma found_in_device:
  assumes "si \<in> set sis" and "uvc_find_frame_desc_stream si i j \<noteq> None"
  shows "uvc_find_frame_desc sis i j \<noteq> None"
  using assms by (auto simp: find_frame_desc_None)

lemma setup_found:
  assumes "stream_setup h info factor s d = Some (UVC_SUCCESS, s', d')"
  shows "uvc_find_frame_desc_stream (stream_if s) (ucast (sc_bFormatIndex (cur_ctrl s))) (ucast (sc_bFrameIndex (cur_ctrl s))) \<noteq> None"
proof
  assume "uvc_find_frame_desc_stream (stream_if s) (ucast (sc_bFormatIndex (cur_ctrl s))) (ucast (sc_bFrameIndex (cur_ctrl s))) = None"
  then have "stream_setup h info factor s d = Some (UVC_ERROR_INVALID_PARAM, start_reset s, d)"
    by (simp add: stream_setup_def start_reset_def)
  with assms show False
    by simp
qed

text \<open>A restart resets the frame counter but not the frame on hold: the callback thread's first action is to take the last frame of the
  run before, without error, for a new one, before the camera has sent anything.\<close>

theorem restart_delivers_old_frame:
  assumes "uvc_stream_start_bandwidth h info factor True s d = Some (UVC_SUCCESS, s', d')" and "\<not> running (strm s)"
    and "stream_if s \<in> set (stream_ifs info)"
    and "hold_seq (strm s) \<noteq> 0" and "hold_bfh_err (strm s) = 0"
    and "holdbuf (strm s) = Some hb" and "hold_bytes (strm s) \<le> length hb"
  shows "published (strm s') = [] \<and> (\<exists>s2 f. (session_step info)\<^sup>*\<^sup>* (s', At_Lock 0, []) (s2, At_Lock (hold_seq (strm s)), [f]) \<and>
    take (fm_actual_bytes f) (fm_data f) = take (hold_bytes (strm s)) hb)"
proof -
  note st = started_state [OF assms(1,2)]
  from assms(1,2) obtain s1 d1 where su: "stream_setup h info factor s d = Some (UVC_SUCCESS, s1, d1)"
    by (auto simp: uvc_stream_start_bandwidth_def split: bind_splits if_splits)
  obtain fo fr where found: "uvc_find_frame_desc (stream_ifs info) (ucast (sc_bFormatIndex (cur_ctrl s)))
      (ucast (sc_bFrameIndex (cur_ctrl s))) = Some (fo, fr)"
    using found_in_device [OF assms(3) setup_found [OF su]] by auto
  have hold: "running (strm s')" "hold_seq (strm s') = hold_seq (strm s)" "hold_bfh_err (strm s') = 0"
    "holdbuf (strm s') = Some hb" "hold_bytes (strm s') = hold_bytes (strm s)" "published (strm s') = []"
    using st(1) assms(5,6) by (simp_all add: start_reset_def)
  obtain s2 where pop: "populate_frame info s' = Some s2" and s2: "strm s2 = strm s'"
    and f: "take (fm_actual_bytes (frame s2)) (fm_data (frame s2)) = take (hold_bytes (strm s)) hb"
    using found hold assms(7) st(2) by (simp add: populate_frame_def Let_def)
  have "user_caller info s' (At_Lock 0) = Some (s2, At_Call (hold_seq (strm s)), [])"
    using hold assms(4) pop by (simp add: Let_def)
  from session_step.Caller [OF this, of "[]"]
  have one: "session_step info (s', At_Lock 0, []) (s2, At_Call (hold_seq (strm s)), [])"
    by simp
  have "user_caller info s2 (At_Call (hold_seq (strm s))) = Some (s2, At_Lock (hold_seq (strm s)), [frame s2])"
    using hold s2 by simp
  from session_step.Caller [OF this, of "[]"]
  have "session_step info (s2, At_Call (hold_seq (strm s)), []) (s2, At_Lock (hold_seq (strm s)), [frame s2])"
    by simp
  with one f hold(6) show ?thesis
    by (meson converse_rtranclp_into_rtranclp rtranclp.rtrancl_refl)
qed

section \<open>The error flag and the time limit\<close>

text \<open>
  The callback thread looks at the error flag a second time after releasing the mutex. A frame that arrives in between changes the
  answer: an erroneous frame then leads to a call with the frame of the call before.
\<close>

lemma caller_rereads_error:
  assumes "running (strm s)" and "q \<noteq> hold_seq (strm s)" and "hold_bfh_err (strm s) \<noteq> 0"
    and "handle_event s e = Some s'" and "hold_bfh_err (strm s') = 0"
  shows "(session_step info)\<^sup>*\<^sup>* (s, At_Lock q, out) (s', At_Lock (hold_seq (strm s)), out @ [frame s])"
proof -
  have "user_caller info s (At_Lock q) = Some (s, At_Call (hold_seq (strm s)), [])"
    using assms(1-3) by (simp add: Let_def)
  from session_step.Caller [OF this, of out]
  have 1: "session_step info (s, At_Lock q, out) (s, At_Call (hold_seq (strm s)), out)"
    by simp
  have 2: "session_step info (s, At_Call (hold_seq (strm s)), out) (s', At_Call (hold_seq (strm s)), out)"
    using session_step.Event [OF assms(4)] .
  have "frame s' = frame s"
    using event_strm [OF assms(4)] by blast
  then have "user_caller info s' (At_Call (hold_seq (strm s))) = Some (s', At_Lock (hold_seq (strm s)), [frame s])"
    using assms(5) by simp
  from session_step.Caller [OF this, of out] 1 2 show ?thesis
    by (meson converse_rtranclp_into_rtranclp rtranclp.rtrancl_refl)
qed

text \<open>The nanoseconds of the deadline are not carried into its seconds.\<close>

lemma deadline_not_normalised: "snd (get_frame_deadline sec 999999999 1) = 1000000999"
  by (simp add: get_frame_deadline_def signed_modulo_int_def)

end
