(* ===== verification/Uvc_Stream_Demo.thy ===== *)
theory Uvc_Stream_Demo
  imports Uvc_Deliver
begin

text \<open>
  Concrete streams: a camera with one isochronous interface of three alternate settings, a bus on which everything
  succeeds, and the theorems of the stream's life applied to them.
\<close>

section \<open>A camera\<close>

definition yuyv_frame :: uvc_frame_desc where
  "yuyv_frame = zero_frame\<lparr>bFrameIndex := 1, wWidth := 4, wHeight := 2, dwMaxVideoFrameBufferSize := 1000\<rparr>"

definition yuyv_format :: uvc_format_desc where
  "yuyv_format = zero_format\<lparr>bFormatIndex := 1, guidFormat := [0x59, 0x55, 0x59, 0x32] @ guid_tail, frame_descs := [yuyv_frame]\<rparr>"

definition cam_if :: uvc_streaming_interface where
  "cam_if = zero_streaming\<lparr>si_bInterfaceNumber := 0, si_bEndpointAddress := 0x81, format_descs := [yuyv_format]\<rparr>"

definition cam_alt :: "u8 \<Rightarrow> u16 \<Rightarrow> libusb_interface_descriptor" where
  "cam_alt n w = \<lparr>if_bInterfaceNumber = 0, if_bAlternateSetting = n, if_bInterfaceClass = 14, if_bInterfaceSubClass = 2,
     if_endpoint = (if w = 0 then [] else [\<lparr>ep_bEndpointAddress = 0x81, ep_wMaxPacketSize = w, ep_extra = []\<rparr>]),
     if_extra = []\<rparr>"

definition cam_info :: uvc_device_info where
  "cam_info = (zero_info [[cam_alt 0 0, cam_alt 1 128, cam_alt 2 0x0a00]])\<lparr>stream_ifs := [cam_if]\<rparr>"

definition cam_ctrl :: uvc_stream_ctrl where
  "cam_ctrl = zero_ctrl\<lparr>sc_bFormatIndex := 1, sc_bFrameIndex := 1, dwMaxVideoFrameSize := 640,
     dwMaxPayloadTransferSize := 100\<rparr>"

definition idle_handle :: stream_handle where
  "idle_handle = \<lparr>stream_if = cam_if, strm = small_stream\<lparr>running := False\<rparr>, cur_ctrl = cam_ctrl, cb_thread = False,
     last_polled_seq = 0, user_cb = False, transfers = replicate LIBUVC_NUM_TRANSFER_BUFS None, frame = zero_uvc_frame,
     sh_frame_format = FORMAT_UNKNOWN\<rparr>"

text \<open>A bus whose \<open>j\<close>-th submission fails.\<close>

definition bus :: "nat \<Rightarrow> mem_dev stream_host" where
  "bus j = \<lparr>host = mem_host, libusb_submit_transfer = (\<lambda>i _ d. (if i = j then -1 else 0, d))\<rparr>"

text \<open>The start picks the second alternate setting, whose packets of 128 bytes are the first to hold the payload of 100.\<close>

definition demo_transfer :: transfer where
  "demo_transfer = \<lparr>tr_state = Idle, tr_length = 640, num_iso_packets = 5, iso_packet_length = 128\<rparr>"

definition ready :: "stream_handle \<Rightarrow> stream_handle" where
  "ready s = (start_reset s)\<lparr>sh_frame_format := FORMAT_YUYV, transfers := table_of 0 10 demo_transfer\<rparr>"

lemma guid_yuyv: "uvc_frame_format_for_guid ([0x59, 0x55, 0x59, 0x32] @ guid_tail) = FORMAT_YUYV"
  by code_simp

lemma demo_alt: "select_altsetting 0x81 100 [cam_alt 0 0, cam_alt 1 128, cam_alt 2 0x0a00] = Some (cam_alt 1 128, 128)"
  by code_simp

lemma demo_packets: "packets_per_transfer 640 128 = 5"
  by (simp add: packets_per_transfer_def)

lemma demo_frame: "uvc_find_frame_desc_stream cam_if 1 1 = Some (yuyv_format, yuyv_frame)"
  by (simp add: uvc_find_frame_desc_stream_def cam_if_def yuyv_format_def yuyv_frame_def)

lemma demo_setup:
  assumes "stream_if s = cam_if" and "cur_ctrl s = cam_ctrl"
  shows "stream_setup (bus j) cam_info None s d = Some (UVC_SUCCESS, ready s, d)"
proof -
  have "setup_iso (bus j) None [cam_alt 0 0, cam_alt 1 128, cam_alt 2 0x0a00] 640
      ((start_reset s)\<lparr>sh_frame_format := FORMAT_YUYV\<rparr>) d = (UVC_SUCCESS, ready s, d)"
    using demo_alt demo_packets assms
    by (simp add: setup_iso_def packet_bytes_def start_reset_def cam_ctrl_def cam_if_def zero_ctrl_def
        bus_def mem_host_def setup_transfers_table ready_def demo_transfer_def)
  moreover have "guidFormat yuyv_format = [0x59, 0x55, 0x59, 0x32] @ guid_tail"
    by (simp add: yuyv_format_def)
  ultimately show ?thesis
    using demo_frame guid_yuyv assms
    by (simp add: stream_setup_def start_reset_def cam_ctrl_def zero_ctrl_def yuyv_frame_def zero_frame_def
        cam_info_def zero_info_def cam_if_def)
qed

lemma demo_start:
  assumes "9 < j" and "stream_if s = cam_if" and "cur_ctrl s = cam_ctrl" and "\<not> running (strm s)"
  shows "\<exists>s' d'. uvc_stream_start_bandwidth (bus j) cam_info None cb s d = Some (UVC_SUCCESS, s', d')"
proof -
  let ?s = "(ready s)\<lparr>user_cb := cb, cb_thread := cb_thread (ready s) \<or> cb\<rparr>"
  have "transfers ?s = table_of 0 10 demo_transfer"
    by (simp add: ready_def)
  from submit_transfers_table [OF this, of "bus j" d] obtain ret k d' where
    "submit_transfers (bus j) [0..<10] ?s d = Some (ret, ?s\<lparr>transfers := table_of k (10 - k) demo_transfer\<rparr>, d')"
    by (metis add_0)
  moreover have "submit_transfers (bus j) is s d = Some (r, s', d') \<Longrightarrow> \<forall>i \<in> set is. i \<noteq> j \<Longrightarrow> r = UVC_SUCCESS" for "is" s d r s' d'
    by (induction "is" arbitrary: s d) (auto simp: bus_def split: option.splits)
  ultimately show ?thesis
    using assms demo_setup [of s j d]
    by (force simp: uvc_stream_start_bandwidth_def simp del: upt_rec_numeral)
qed

theorem start_outcome_witness:
  "\<exists>s' d'. uvc_stream_start_bandwidth (bus 10) cam_info None True idle_handle demo_dev = Some (UVC_SUCCESS, s', d') \<and>
     running (strm s') \<and> length (transfers s') = 10"
proof -
  have idle: "stream_if idle_handle = cam_if" "cur_ctrl idle_handle = cam_ctrl" "\<not> running (strm idle_handle)"
    by (simp_all add: idle_handle_def)
  from demo_start [OF _ this, of 10 True demo_dev] obtain s' d' where
    run: "uvc_stream_start_bandwidth (bus 10) cam_info None True idle_handle demo_dev = Some (UVC_SUCCESS, s', d')"
    by auto
  from start_outcome [OF run idle(3)] run show ?thesis
    by auto
qed

section \<open>Opening, and a submission that fails\<close>

definition cam_devh :: uvc_device_handle where
  "cam_devh = \<lparr>dh_info = cam_info, dh_is_isight = False, reset_on_release_if = False, streams = [], orphans = [],
     orphan_threads = 0\<rparr>"

lemma demo_open:
  "\<exists>s d'. uvc_stream_open_ctrl (bus j) None None cam_devh cam_ctrl d =
     (UVC_SUCCESS, cam_devh\<lparr>streams := [s]\<rparr>, d') \<and> stream_if s = cam_if \<and> cur_ctrl s = cam_ctrl"
proof -
  have "stream_ctrl_len (bcdUVC (ctrl_if cam_info)) = 26"
    by (simp add: stream_ctrl_len_def cam_info_def zero_info_def)
  then have "\<exists>d'. uvc_query_stream_ctrl mem_usb cam_info cam_ctrl False UVC_SET_CUR d = (UVC_SUCCESS, cam_ctrl, d')"
    by (simp add: uvc_query_stream_ctrl_def mem_usb_def Let_def encode_ctrl_def)
  then obtain d' where "uvc_query_stream_ctrl mem_usb cam_info cam_ctrl False UVC_SET_CUR d = (UVC_SUCCESS, cam_ctrl, d')"
    by blast
  then show ?thesis
    by (simp add: uvc_stream_open_ctrl_def get_stream_by_interface_def get_stream_if_def cam_devh_def cam_info_def
        zero_info_def cam_if_def zero_streaming_def cam_ctrl_def zero_ctrl_def uvc_claim_if_def bus_def mem_host_def
        commit_stream_ctrl_def zero_stream_def)
qed

theorem failed_submit_orphans_witness:
  "\<exists>devh' d'. uvc_start_streaming_bandwidth (bus 3) None None cam_devh cam_ctrl True None demo_dev = Some (-1, devh', d') \<and>
     streams devh' = [] \<and> length (orphans devh') = 3 \<and> orphan_threads devh' = 1"
proof -
  obtain s d' where open1: "uvc_stream_open_ctrl (bus 3) None None cam_devh cam_ctrl demo_dev =
      (UVC_SUCCESS, cam_devh\<lparr>streams := [s]\<rparr>, d')" and s: "stream_if s = cam_if" "cur_ctrl s = cam_ctrl"
    using demo_open by blast
  have "stream_setup (bus 3) (dh_info (cam_devh\<lparr>streams := [s]\<rparr>)) None (last (streams (cam_devh\<lparr>streams := [s]\<rparr>))) d' =
      Some (UVC_SUCCESS, ready s, d')"
    using demo_setup [OF s] by (simp add: cam_devh_def)
  from failed_submit_orphans [OF open1 this, of 3 "-1" True] show ?thesis
    by (auto simp: bus_def cam_devh_def)
qed

section \<open>Closing\<close>

definition flying :: "transfer_state \<Rightarrow> stream_handle" where
  "flying x = idle_handle\<lparr>strm := small_stream, user_cb := True, cb_thread := True,
     transfers := [Some (demo_transfer\<lparr>tr_state := In_Flight\<rparr>), Some (demo_transfer\<lparr>tr_state := x\<rparr>)]\<rparr>"

lemma flying_fields:
  "transfers (flying x) = [Some (demo_transfer\<lparr>tr_state := In_Flight\<rparr>), Some (demo_transfer\<lparr>tr_state := x\<rparr>)]"
  "running (strm (flying x))" "user_cb (flying x)" "cb_thread (flying x)"
  by (simp_all add: flying_def small_stream_def)

definition last_events :: "stream_event list" where
  "last_events = [Submission 0 True, Submission 1 True, Completion 0 TRANSFER_CANCELLED [] [],
     Completion 1 TRANSFER_TIMED_OUT [] []]"

theorem close_returns_clean_witness:
  "\<exists>devh' d'. uvc_stream_close (bus 10) (cam_devh\<lparr>streams := [flying Resubmitting]\<rparr>) 0 last_events demo_dev =
     Some (Some (devh', d')) \<and> streams devh' = [] \<and> orphans devh' = [] \<and> orphan_threads devh' = 0"
proof -
  let ?s = "flying Resubmitting" and ?devh = "cam_devh\<lparr>streams := [flying Resubmitting]\<rparr>"
  have "drains 0 last_events" "drains 1 last_events"
    unfolding drains_def last_events_def
    by (rule exI [of _ "[]"], rule exI [of _ "[Submission 1 True]"], force)
      (rule exI [of _ "[Submission 0 True]"], rule exI [of _ "[Completion 0 TRANSFER_CANCELLED [] []]"], force)
  then have drains: "\<forall>i < length (transfers ?s). drains i last_events"
    by (simp add: flying_fields less_2_cases_iff numeral_2_eq_2 [symmetric])
  have "uvc_stream_close (bus 10) ?devh 0 last_events demo_dev \<noteq> None"
    by (simp add: uvc_stream_close_def uvc_stream_stop_def last_events_def flying_fields start_fail_def
        stream_callback_def all_deleted_def Let_def)
  moreover have "\<forall>i < length (transfers ?s). slot ?s i \<noteq> Some Idle"
    by (auto simp: flying_fields slot_def less_Suc_eq)
  ultimately show ?thesis
    using close_returns_clean [of ?devh 0 last_events "bus 10" demo_dev] drains
    by (auto simp: flying_fields last_events_def no_loss_def cam_devh_def)
qed

theorem lost_transfer_blocks_stop_witness:
  "\<exists>s'. handle_event (flying Resubmitting) (Submission 1 False) = Some s' \<and> (\<forall>es r. uvc_stream_stop s' es = Some r \<longrightarrow> r = None)"
  by (rule lost_transfer_blocks_stop) (simp_all add: flying_fields slot_def)

theorem unplug_close_orphans_witness:
  "\<exists>s' devh' d'. handle_event (flying In_Flight) (Completion 0 TRANSFER_NO_DEVICE [] []) = Some s' \<and>
     uvc_stream_close (bus 10) (cam_devh\<lparr>streams := [s']\<rparr>) 0 [] demo_dev = Some (Some (devh', d')) \<and>
     orphans devh' \<noteq> [] \<and> orphan_threads devh' = 1"
proof -
  obtain s' where "handle_event (flying In_Flight) (Completion 0 TRANSFER_NO_DEVICE [] []) = Some s'"
    and all: "\<forall>h devh k es d. streams devh ! k = s' \<longrightarrow> (\<exists>devh' d'.
       uvc_stream_close (h :: mem_dev stream_host) devh k es d = Some (Some (devh', d')) \<and>
       demo_transfer\<lparr>tr_state := In_Flight\<rparr> \<in> set (orphans devh') \<and>
       orphan_threads devh' = orphan_threads devh + (if cb_thread (flying In_Flight) then 1 else 0))"
    using unplug_close_orphans [of 0 "flying In_Flight" 1 "demo_transfer\<lparr>tr_state := In_Flight\<rparr>" "[]" "[]"]
    by (auto simp: flying_fields slot_def simp del: handle_event.simps)
  moreover from all have "\<exists>devh' d'. uvc_stream_close (bus 10) (cam_devh\<lparr>streams := [s']\<rparr>) 0 [] demo_dev = Some (Some (devh', d')) \<and>
      demo_transfer\<lparr>tr_state := In_Flight\<rparr> \<in> set (orphans devh') \<and> orphan_threads devh' = 1"
    by (force simp: flying_fields cam_devh_def)
  ultimately show ?thesis
    by fastforce
qed

section \<open>Frames\<close>

text \<open>A handle with one bulk transfer in flight, polled by the application.\<close>

definition bulk_transfer :: "transfer_state \<Rightarrow> transfer" where
  "bulk_transfer x = \<lparr>tr_state = x, tr_length = 16, num_iso_packets = 0, iso_packet_length = 0\<rparr>"

definition polled_handle :: stream_handle where
  "polled_handle = idle_handle\<lparr>strm := small_stream, transfers := [Some (bulk_transfer In_Flight)]\<rparr>"

lemma polled_fields:
  "strm polled_handle = small_stream" "transfers polled_handle = [Some (bulk_transfer In_Flight)]"
  "last_polled_seq polled_handle = 0" "\<not> user_cb polled_handle" "frame polled_handle = zero_uvc_frame"
  "cur_ctrl polled_handle = cam_ctrl"
  by (simp_all add: polled_handle_def idle_handle_def)

theorem first_frame_not_delivered_witness:
  "\<exists>s'. handle_event polled_handle (Completion 0 TRANSFER_COMPLETED [2, 2, 7] []) = Some s' \<and>
     map pf_bytes (published (strm s')) = [[7]] \<and>
     uvc_stream_get_frame cam_info s' (-1) = Some (UVC_SUCCESS, No_Frame, s')"
proof -
  have "stream_ok (strm polled_handle)"
    by (simp add: polled_fields small_stream_ok)
  from first_frame_not_delivered [OF this, of 0 "bulk_transfer In_Flight" "[7]" cam_info] show ?thesis
    by (auto simp: polled_fields small_stream_def bulk_transfer_def simp del: handle_event.simps)
qed

text \<open>Two frames; the second is the first to be handed over.\<close>

lemma two_payloads:
  "\<exists>x1 x2 hb. process_payload small_stream [2, 2, 9] = Some x1 \<and> running x1 \<and> process_payload x1 [2, 3, 8] = Some x2 \<and>
     running x2 \<and> hold_seq x2 = 1 \<and> hold_bfh_err x2 = 0 \<and> hold_bytes x2 = 1 \<and> holdbuf x2 = Some (8 # hb) \<and>
     published x2 \<noteq> []"
  by (simp add: process_payload_def small_stream_def flip_frame_def header_clocks_def payload_data_def add_data_def
      mem_write_def swap_buffers_def flag_def need_def Let_def)

lemma demo_frame_device: "uvc_find_frame_desc (stream_ifs cam_info) 1 1 = Some (yuyv_format, yuyv_frame)"
  using demo_frame by (simp add: cam_info_def)

lemma demo_populate:
  assumes "holdbuf (strm s) = Some (8 # hb)" and "hold_bytes (strm s) = 1" and "hold_bfh_err (strm s) = 0"
    and "cur_ctrl s = cam_ctrl"
  shows "\<exists>s'. populate_frame cam_info s = Some s' \<and> fm_actual_bytes (frame s') = 1 \<and> take 1 (fm_data (frame s')) = [8] \<and>
    strm s' = strm s"
  using assms demo_frame_device
  by (simp add: populate_frame_def Let_def cam_ctrl_def zero_ctrl_def need_def)

lemma demo_session:
  "\<exists>s f. (session_step cam_info)\<^sup>*\<^sup>* (polled_handle, At_Lock 0, []) (s, At_Lock 0, [f]) \<and> fm_actual_bytes f = 1 \<and>
     take 1 (fm_data f) = [8]"
proof -
  obtain x1 x2 hb where x: "process_payload small_stream [2, 2, 9] = Some x1" "running x1"
    "process_payload x1 [2, 3, 8] = Some x2" "running x2" "hold_seq x2 = 1" "hold_bfh_err x2 = 0" "hold_bytes x2 = 1"
    "holdbuf x2 = Some (8 # hb)"
    using two_payloads by blast
  define s1 where "s1 = polled_handle\<lparr>strm := x1, transfers := [Some (bulk_transfer Resubmitting)]\<rparr>"
  define s2 where "s2 = polled_handle\<lparr>strm := x1\<rparr>"
  define s3 where "s3 = polled_handle\<lparr>strm := x2, transfers := [Some (bulk_transfer Resubmitting)]\<rparr>"
  have "handle_event polled_handle (Completion 0 TRANSFER_COMPLETED [2, 2, 9] []) = Some s1"
    using x by (simp add: polled_fields bulk_transfer_def stream_callback_def s1_def)
  from session_step.Event [OF this, of cam_info "At_Lock 0" "[]"]
  have 1: "session_step cam_info (polled_handle, At_Lock 0, []) (s1, At_Lock 0, [])" .
  have "handle_event s1 (Submission 0 True) = Some s2"
    by (simp add: s1_def s2_def bulk_transfer_def polled_handle_def)
  from session_step.Event [OF this, of cam_info "At_Lock 0" "[]"]
  have 2: "session_step cam_info (s1, At_Lock 0, []) (s2, At_Lock 0, [])" .
  have "handle_event s2 (Completion 0 TRANSFER_COMPLETED [2, 3, 8] []) = Some s3"
    using x by (simp add: s2_def s3_def bulk_transfer_def polled_fields stream_callback_def)
  from session_step.Event [OF this, of cam_info "At_Lock 0" "[]"]
  have 3: "session_step cam_info (s2, At_Lock 0, []) (s3, At_Lock 0, [])" .
  have "strm s3 = x2" "cur_ctrl s3 = cam_ctrl" "\<not> user_cb s3" "last_polled_seq s3 = 0"
    by (simp_all add: s3_def polled_fields)
  with demo_populate [of s3 hb] x obtain s4 where s4: "populate_frame cam_info s3 = Some s4"
    "fm_actual_bytes (frame s4) = 1" "take 1 (fm_data (frame s4)) = [8]"
    by auto
  have "\<exists>s5. uvc_stream_get_frame cam_info s3 0 = Some (UVC_SUCCESS, Frame_Out (frame s4), s5)"
    using s4 x \<open>strm s3 = x2\<close> \<open>\<not> user_cb s3\<close> \<open>last_polled_seq s3 = 0\<close>
    by (simp add: uvc_stream_get_frame_def take_polled_def)
  then obtain s5 where "uvc_stream_get_frame cam_info s3 0 = Some (UVC_SUCCESS, Frame_Out (frame s4), s5)"
    by blast
  from session_step.Poll [OF this, of "At_Lock 0" "[]"]
  have 4: "session_step cam_info (s3, At_Lock 0, []) (s5, At_Lock 0, [frame s4])"
    by simp
  from 1 2 3 4 s4(2,3) show ?thesis
    by (meson converse_rtranclp_into_rtranclp rtranclp.rtrancl_refl)
qed

theorem delivered_frames_published_witness:
  "\<exists>s f. (session_step cam_info)\<^sup>*\<^sup>* (polled_handle, At_Lock 0, []) (s, At_Lock 0, [f]) \<and>
     (\<exists>p \<in> set (published (strm s)). pf_bytes p = [8])"
proof -
  obtain s f where run: "(session_step cam_info)\<^sup>*\<^sup>* (polled_handle, At_Lock 0, []) (s, At_Lock 0, [f])"
    and f: "fm_actual_bytes f = 1" "take 1 (fm_data f) = [8]"
    using demo_session by blast
  have "published (strm polled_handle) = []" "hold_seq (strm polled_handle) = 0" "fm_actual_bytes (frame polled_handle) = 0"
    by (simp_all add: polled_fields small_stream_def zero_uvc_frame_def)
  from delivered_frames_published [OF run this, of f] f run show ?thesis
    by (intro exI [of _ s] exI [of _ f]) fastforce
qed

definition stopped_handle :: stream_handle where
  "stopped_handle = idle_handle\<lparr>strm := small_stream\<lparr>running := False, hold_seq := 5, hold_bytes := 2,
     holdbuf := Some (replicate 16 7)\<rparr>\<rparr>"

theorem restart_delivers_old_frame_witness:
  "\<exists>s' d' s2 f. uvc_stream_start_bandwidth (bus 10) cam_info None True stopped_handle demo_dev = Some (UVC_SUCCESS, s', d') \<and>
     published (strm s') = [] \<and> (session_step cam_info)\<^sup>*\<^sup>* (s', At_Lock 0, []) (s2, At_Lock 5, [f]) \<and>
     take (fm_actual_bytes f) (fm_data f) = [7, 7]"
proof -
  have st: "stream_if stopped_handle = cam_if" "cur_ctrl stopped_handle = cam_ctrl" "\<not> running (strm stopped_handle)"
    by (simp_all add: stopped_handle_def idle_handle_def)
  from demo_start [OF _ st, of 10 True demo_dev] obtain s' d' where
    run: "uvc_stream_start_bandwidth (bus 10) cam_info None True stopped_handle demo_dev = Some (UVC_SUCCESS, s', d')"
    by auto
  have hold: "hold_seq (strm stopped_handle) = 5" "hold_bfh_err (strm stopped_handle) = 0"
    "holdbuf (strm stopped_handle) = Some (replicate 16 7)" "hold_bytes (strm stopped_handle) = 2"
    by (simp_all add: stopped_handle_def small_stream_def)
  have "stream_if stopped_handle \<in> set (stream_ifs cam_info)"
    by (simp add: st cam_info_def)
  moreover have "hold_seq (strm stopped_handle) \<noteq> 0" "hold_bytes (strm stopped_handle) \<le> length (replicate 16 (7 :: u8))"
    by (simp_all add: hold)
  moreover have "take (hold_bytes (strm stopped_handle)) (replicate 16 (7 :: u8)) = [7, 7]"
    by (simp add: hold eval_nat_numeral)
  ultimately show ?thesis
    using restart_delivers_old_frame [OF run st(3) _ _ hold(2,3)] run unfolding hold(1) by fastforce
qed

end
