(* ===== verification/Uvc_Device.thy ===== *)
theory Uvc_Device
  imports Uvc_Stop
begin

text \<open>
  Devices, device handles and the context that owns them (\<open>device.c\<close>: \<open>uvc_already_open\<close> to \<open>uvc_open\<close>,
  \<open>uvc_get_device_info\<close>, \<open>uvc_get_device_list\<close>, the reference counts, \<open>uvc_close\<close>; \<open>init.c\<close>). Devices and
  handles live in stores from identifiers, drawn in order, to their contents; an access to one that has been freed is
  \<open>None\<close>. Two fields are history: \<open>usb_refs\<close>, the references taken on each libusb device, and \<open>configs\<close>,
  the number of configuration descriptors held.
\<close>

section \<open>State\<close>

record libusb_device_descriptor =
  idVendor :: u16
  idProduct :: u16
  iManufacturer :: u8
  iProduct :: u8
  iSerialNumber :: u8

text \<open>What libusb does for the functions here, over the state \<open>'d\<close> of bus and devices.\<close>

record 'd usb_bus =
  libusb_get_device_list :: "'d \<Rightarrow> int \<times> nat list"
  libusb_get_device_descriptor :: "nat \<Rightarrow> int \<times> libusb_device_descriptor"
  libusb_get_config_descriptor :: "nat \<Rightarrow> int \<times> libusb_config_descriptor"
  libusb_open :: "nat \<Rightarrow> 'd \<Rightarrow> int \<times> 'd"
  libusb_close :: "nat \<Rightarrow> 'd \<Rightarrow> 'd"
  libusb_set_auto_detach_kernel_driver :: "nat \<Rightarrow> bool \<Rightarrow> 'd \<Rightarrow> 'd"
  libusb_get_string_descriptor_ascii :: "nat \<Rightarrow> u8 \<Rightarrow> 'd \<Rightarrow> int \<times> bytes"
  libusb_find_device :: "int \<Rightarrow> int \<Rightarrow> bytes option \<Rightarrow> int \<Rightarrow> 'd \<Rightarrow> nat option"
  libusb_get_device_with_fd :: "int \<Rightarrow> int \<Rightarrow> bytes option \<Rightarrow> int \<Rightarrow> int \<Rightarrow> int \<Rightarrow> 'd \<Rightarrow> nat option \<times> 'd"
  libusb_set_device_fd :: "nat \<Rightarrow> int \<Rightarrow> 'd \<Rightarrow> 'd"
  submit_status_transfer :: "nat \<Rightarrow> 'd \<Rightarrow> int \<times> 'd"
  device_host :: "nat \<Rightarrow> 'd stream_host"

record uvc_device =
  usb_dev :: nat
  ref :: int

record open_handle =
  oh_dev :: nat
  oh_devh :: uvc_device_handle
  status_xfer :: bool

record 'd uvc_context =
  own_usb_ctx :: bool
  open_devices :: "nat list"
  handler_thread :: bool
  kill_handler_thread :: bool
  handles :: "nat \<rightharpoonup> open_handle"
  devices :: "nat \<rightharpoonup> uvc_device"
  next_id :: nat
  usb_refs :: "nat \<Rightarrow> int"
  configs :: int
  bus_state :: 'd

section \<open>References\<close>

definition uvc_ref_device :: "nat \<Rightarrow> 'd uvc_context \<Rightarrow> 'd uvc_context option" where
  "uvc_ref_device dev w = (case devices w dev of None \<Rightarrow> None
     | Some u \<Rightarrow> Some (w\<lparr>devices := (devices w)(dev \<mapsto> u\<lparr>ref := ref u + 1\<rparr>),
         usb_refs := (usb_refs w)(usb_dev u := usb_refs w (usb_dev u) + 1)\<rparr>))"

definition uvc_unref_device :: "nat \<Rightarrow> 'd uvc_context \<Rightarrow> 'd uvc_context option" where
  "uvc_unref_device dev w = (case devices w dev of None \<Rightarrow> None
     | Some u \<Rightarrow> Some (w\<lparr>devices := (if ref u - 1 = 0 then (devices w)(dev := None)
           else (devices w)(dev \<mapsto> u\<lparr>ref := ref u - 1\<rparr>)),
         usb_refs := (usb_refs w)(usb_dev u := usb_refs w (usb_dev u) - 1)\<rparr>))"

text \<open>A new device structure for a libusb device, with the first reference taken.\<close>

definition new_device :: "nat \<Rightarrow> 'd uvc_context \<Rightarrow> nat \<times> 'd uvc_context" where
  "new_device usb w = (next_id w, w\<lparr>next_id := Suc (next_id w), devices := (devices w)(next_id w \<mapsto> \<lparr>usb_dev = usb, ref = 1\<rparr>),
     usb_refs := (usb_refs w)(usb := usb_refs w usb + 1)\<rparr>)"

fun uvc_free_device_list :: "nat list \<Rightarrow> bool \<Rightarrow> 'd uvc_context \<Rightarrow> 'd uvc_context option" where
  "uvc_free_device_list [] unref_devices w = Some w"
| "uvc_free_device_list (dev # devs) unref_devices w =
     (if unref_devices then do { w \<leftarrow> uvc_unref_device dev w; uvc_free_device_list devs unref_devices w } else Some w)"

section \<open>Finding devices\<close>

text \<open>A device of video streaming class, or the TIS camera.\<close>

definition has_video_streaming :: "libusb_device_descriptor \<Rightarrow> libusb_config_descriptor \<Rightarrow> bool" where
  "has_video_streaming desc c \<longleftrightarrow> idVendor desc = 0x199e \<and> idProduct desc = 0x8101 \<or>
     list_ex (list_ex (\<lambda>a. if_bInterfaceClass a = 14 \<and> if_bInterfaceSubClass a = 2)) c"

fun list_devices :: "'d usb_bus \<Rightarrow> nat list \<Rightarrow> 'd uvc_context \<Rightarrow> nat list \<times> 'd uvc_context" where
  "list_devices b [] w = ([], w)"
| "list_devices b (usb # usbs) w =
     (case libusb_get_config_descriptor b usb of (r, c) \<Rightarrow>
        if r \<noteq> 0 then list_devices b usbs w
        else let w = w\<lparr>configs := configs w + 1\<rparr> in
          case libusb_get_device_descriptor b usb of (r, desc) \<Rightarrow>
            if r \<noteq> 0 then list_devices b usbs w
            else let w = w\<lparr>configs := configs w - 1\<rparr> in
              if has_video_streaming desc c
              then let (dev, w) = new_device usb w; (devs, w) = list_devices b usbs w in (dev # devs, w)
              else list_devices b usbs w)"

definition uvc_get_device_list :: "'d usb_bus \<Rightarrow> 'd uvc_context \<Rightarrow> int \<times> nat list \<times> 'd uvc_context" where
  "uvc_get_device_list b w =
     (case libusb_get_device_list b (bus_state w) of (n, usbs) \<Rightarrow>
        if n < 0 then (UVC_ERROR_IO, [], w)
        else let (devs, w) = list_devices b usbs w in (UVC_SUCCESS, devs, w))"

record uvc_device_descriptor =
  dd_idVendor :: u16
  dd_idProduct :: u16
  dd_serialNumber :: "bytes option"
  dd_manufacturer :: "bytes option"
  dd_product :: "bytes option"

text \<open>A string descriptor up to its first zero.\<close>

definition string_descriptor :: "'d usb_bus \<Rightarrow> nat \<Rightarrow> u8 \<Rightarrow> 'd \<Rightarrow> bytes option" where
  "string_descriptor b usb i d = (case libusb_get_string_descriptor_ascii b usb i d of (n, s) \<Rightarrow>
     if n > 0 then Some (takeWhile (\<lambda>c. c \<noteq> 0) s) else None)"

definition uvc_get_device_descriptor ::
  "'d usb_bus \<Rightarrow> nat \<Rightarrow> 'd uvc_context \<Rightarrow> (int \<times> uvc_device_descriptor option \<times> 'd uvc_context) option" where
  "uvc_get_device_descriptor b dev w = (case devices w dev of None \<Rightarrow> None
     | Some u \<Rightarrow> (case libusb_get_device_descriptor b (usb_dev u) of (ret, desc) \<Rightarrow>
         if ret \<noteq> 0 then Some (ret, None, w)
         else case libusb_open b (usb_dev u) (bus_state w) of (r, d) \<Rightarrow>
           if r = 0 then
             Some (ret, Some \<lparr>dd_idVendor = idVendor desc, dd_idProduct = idProduct desc,
               dd_serialNumber = string_descriptor b (usb_dev u) (iSerialNumber desc) d,
               dd_manufacturer = string_descriptor b (usb_dev u) (iManufacturer desc) d,
               dd_product = string_descriptor b (usb_dev u) (iProduct desc) d\<rparr>,
               w\<lparr>bus_state := libusb_close b (usb_dev u) d\<rparr>)
           else Some (ret, Some \<lparr>dd_idVendor = idVendor desc, dd_idProduct = idProduct desc, dd_serialNumber = None,
             dd_manufacturer = None, dd_product = None\<rparr>, w\<lparr>bus_state := d\<rparr>)))"

definition device_matches :: "int \<Rightarrow> int \<Rightarrow> bytes option \<Rightarrow> uvc_device_descriptor \<Rightarrow> bool" where
  "device_matches vid pid sn desc \<longleftrightarrow> (vid = 0 \<or> uint (dd_idVendor desc) = vid) \<and> (pid = 0 \<or> uint (dd_idProduct desc) = pid) \<and>
     (sn = None \<or> dd_serialNumber desc = sn)"

fun search_device ::
  "'d usb_bus \<Rightarrow> int \<Rightarrow> int \<Rightarrow> bytes option \<Rightarrow> nat list \<Rightarrow> 'd uvc_context \<Rightarrow> (nat option \<times> 'd uvc_context) option" where
  "search_device b vid pid sn [] w = Some (None, w)"
| "search_device b vid pid sn (dev # devs) w = do {
     (ret, desc, w) \<leftarrow> uvc_get_device_descriptor b dev w;
     (case desc of
        Some desc \<Rightarrow> if device_matches vid pid sn desc then Some (Some dev, w) else search_device b vid pid sn devs w
      | None \<Rightarrow> search_device b vid pid sn devs w) }"

definition uvc_find_device ::
  "'d usb_bus \<Rightarrow> int \<Rightarrow> int \<Rightarrow> bytes option \<Rightarrow> 'd uvc_context \<Rightarrow> (int \<times> nat option \<times> 'd uvc_context) option" where
  "uvc_find_device b vid pid sn w = (case uvc_get_device_list b w of (ret, devs, w) \<Rightarrow>
     if ret \<noteq> UVC_SUCCESS then Some (ret, None, w)
     else do {
       (found, w) \<leftarrow> search_device b vid pid sn devs w;
       w \<leftarrow> (case found of None \<Rightarrow> Some w | Some dev \<Rightarrow> uvc_ref_device dev w);
       w \<leftarrow> uvc_free_device_list devs True w;
       Some (if found = None then -4 else UVC_SUCCESS, found, w) })"

definition uvc_find_device2 ::
  "'d usb_bus \<Rightarrow> int \<Rightarrow> int \<Rightarrow> bytes option \<Rightarrow> int \<Rightarrow> 'd uvc_context \<Rightarrow> int \<times> nat option \<times> 'd uvc_context" where
  "uvc_find_device2 b vid pid sn fd w = (case libusb_find_device b vid pid sn fd (bus_state w) of
     None \<Rightarrow> (-4, None, w)
   | Some usb \<Rightarrow> let (dev, w) = new_device usb (w\<lparr>bus_state := libusb_set_device_fd b usb fd (bus_state w)\<rparr>)
       in (UVC_SUCCESS, Some dev, w))"

definition uvc_get_device_with_fd ::
  "'d usb_bus \<Rightarrow> int \<Rightarrow> int \<Rightarrow> bytes option \<Rightarrow> int \<Rightarrow> int \<Rightarrow> int \<Rightarrow> 'd uvc_context \<Rightarrow> int \<times> nat option \<times> 'd uvc_context" where
  "uvc_get_device_with_fd b vid pid serial fd busnum devaddr w =
     (case libusb_get_device_with_fd b vid pid serial fd busnum devaddr (bus_state w) of
        (None, d) \<Rightarrow> (-4, None, w\<lparr>bus_state := d\<rparr>)
      | (Some usb, d) \<Rightarrow> let (dev, w) = new_device usb (w\<lparr>bus_state := d\<rparr>) in (UVC_SUCCESS, Some dev, w))"

section \<open>Opening\<close>

definition uvc_already_open :: "nat \<Rightarrow> 'd uvc_context \<Rightarrow> bool" where
  "uvc_already_open usb w \<longleftrightarrow> list_ex (\<lambda>h. case handles w h of None \<Rightarrow> False
     | Some oh \<Rightarrow> (case devices w (oh_dev oh) of None \<Rightarrow> False | Some u \<Rightarrow> usb_dev u = usb)) (open_devices w)"

definition uvc_get_device_info ::
  "'d usb_bus \<Rightarrow> nat \<Rightarrow> 'd uvc_context \<Rightarrow> (int \<times> uvc_device_info option \<times> 'd uvc_context) option" where
  "uvc_get_device_info b usb w = (case libusb_get_config_descriptor b usb of (r, c) \<Rightarrow>
     if r \<noteq> 0 then Some (UVC_ERROR_IO, None, w)
     else let desc = snd (libusb_get_device_descriptor b usb) in do {
       (ret, info) \<leftarrow> uvc_scan_control (idVendor desc) (idProduct desc) (zero_info c);
       Some (if ret \<noteq> 0 then (ret, None, w) else (ret, Some info, w\<lparr>configs := configs w + 1\<rparr>)) })"

definition uvc_start_handler_thread :: "'d uvc_context \<Rightarrow> 'd uvc_context" where
  "uvc_start_handler_thread w = (if own_usb_ctx w then w\<lparr>handler_thread := True\<rparr> else w)"

text \<open>The thread: it handles events, a round per element, until it sees the flag; the number of rounds is counted.\<close>

fun uvc_handle_events :: "('d uvc_context \<Rightarrow> 'd uvc_context) list \<Rightarrow> 'd uvc_context \<Rightarrow> nat \<times> 'd uvc_context" where
  "uvc_handle_events [] w = (0, w)"
| "uvc_handle_events (round # rounds) w =
     (if kill_handler_thread w then (0, w)
      else let (n, w) = uvc_handle_events rounds (round w) in (Suc n, w))"

definition open_failed ::
  "'d usb_bus \<Rightarrow> nat \<Rightarrow> nat \<Rightarrow> int \<Rightarrow> 'd uvc_context \<Rightarrow> (int \<times> nat option \<times> 'd uvc_context) option" where
  "open_failed b dev usb ret w = (let
       d = libusb_set_auto_detach_kernel_driver b usb False (bus_state w); w = w\<lparr>bus_state := libusb_close b usb d\<rparr>
     in do { w \<leftarrow> uvc_unref_device dev w; Some (ret, None, w) })"

text \<open>From the claim of the control interface on; failures here release it and free the device information.\<close>

definition open_control ::
  "'d usb_bus \<Rightarrow> nat \<Rightarrow> nat \<Rightarrow> uvc_device_info \<Rightarrow> 'd uvc_context \<Rightarrow> (int \<times> nat option \<times> 'd uvc_context) option" where
  "open_control b dev usb info w = (let
       h = host (device_host b usb); ifnum = uint (ci_bInterfaceNumber (ctrl_if info));
       d = libusb_set_auto_detach_kernel_driver b usb True (bus_state w);
       (ret, d) = uvc_claim_if h ifnum d;
       fail = (\<lambda>ret d. open_failed b dev usb ret
         (w\<lparr>bus_state := snd (uvc_release_if h False ifnum d), configs := configs w - 1\<rparr>))
     in if ret \<noteq> UVC_SUCCESS then fail ret d
        else let desc = snd (libusb_get_device_descriptor b usb);
                 isight = (idVendor desc = 0x05ac \<and> idProduct desc = 0x8501);
                 status = (ci_bEndpointAddress (ctrl_if info) \<noteq> 0);
                 (ret, d) = (if status then submit_status_transfer b usb d else (ret, d))
          in if ret \<noteq> 0 then fail ret d
             else let w = w\<lparr>bus_state := d\<rparr>;
                      w = (if own_usb_ctx w \<and> open_devices w = [] then uvc_start_handler_thread w else w);
                      devh = next_id w
               in Some (ret, Some devh, w\<lparr>next_id := Suc devh, open_devices := open_devices w @ [devh],
                    handles := (handles w)(devh \<mapsto> \<lparr>oh_dev = dev, oh_devh = \<lparr>dh_info = info, dh_is_isight = isight,
                      reset_on_release_if = False, streams = [], orphans = [], orphan_threads = 0\<rparr>, status_xfer = status\<rparr>)\<rparr>))"

definition uvc_open :: "'d usb_bus \<Rightarrow> nat \<Rightarrow> 'd uvc_context \<Rightarrow> (int \<times> nat option \<times> 'd uvc_context) option" where
  "uvc_open b dev w = (case devices w dev of None \<Rightarrow> None
     | Some u \<Rightarrow> (case libusb_open b (usb_dev u) (bus_state w) of (ret, d) \<Rightarrow>
         if ret \<noteq> UVC_SUCCESS then Some (ret, None, w\<lparr>bus_state := d\<rparr>)
         else do {
           w \<leftarrow> uvc_ref_device dev (w\<lparr>bus_state := d\<rparr>);
           (ret, info, w) \<leftarrow> uvc_get_device_info b (usb_dev u) w;
           (case info of None \<Rightarrow> open_failed b dev (usb_dev u) ret w
            | Some info \<Rightarrow> open_control b dev (usb_dev u) info w) }))"

section \<open>Closing\<close>

definition uvc_set_reset_altsetting :: "nat \<Rightarrow> bool \<Rightarrow> 'd uvc_context \<Rightarrow> (int \<times> 'd uvc_context) option" where
  "uvc_set_reset_altsetting devh b w = (case handles w devh of None \<Rightarrow> None
     | Some oh \<Rightarrow> Some (UVC_SUCCESS, w\<lparr>handles := (handles w)(devh \<mapsto> oh\<lparr>oh_devh := (oh_devh oh)\<lparr>reset_on_release_if := b\<rparr>\<rparr>)\<rparr>))"

definition uvc_num_devices :: "'d uvc_context \<Rightarrow> nat" where
  "uvc_num_devices w = length (open_devices w)"

definition uvc_free_devh :: "nat \<Rightarrow> 'd uvc_context \<Rightarrow> 'd uvc_context" where
  "uvc_free_devh devh w = w\<lparr>handles := (handles w)(devh := None), configs := configs w - 1\<rparr>"

text \<open>The inner \<open>None\<close> is a close still waiting for its streams to stop.\<close>

definition uvc_close ::
  "'d usb_bus \<Rightarrow> nat \<Rightarrow> stream_event list list \<Rightarrow> 'd uvc_context \<Rightarrow> 'd uvc_context option option" where
  "uvc_close b devh ess w = (case handles w devh of None \<Rightarrow> None
     | Some oh \<Rightarrow> (case devices w (oh_dev oh) of None \<Rightarrow> None
       | Some u \<Rightarrow> let usb = usb_dev u; dh = oh_devh oh in do {
           stopped \<leftarrow> (if streams dh \<noteq> [] then uvc_stop_streaming (device_host b usb) dh ess (bus_state w)
             else Some (Some (dh, bus_state w)));
           (case stopped of None \<Rightarrow> Some None
            | Some (dh, d) \<Rightarrow> let
                d = snd (uvc_release_if (host (device_host b usb)) (reset_on_release_if dh)
                  (uint (ci_bInterfaceNumber (ctrl_if (dh_info dh)))) d);
                d = libusb_set_auto_detach_kernel_driver b usb False d;
                d = libusb_close b usb d;
                w = (if own_usb_ctx w \<and> open_devices w = [devh]
                  then w\<lparr>kill_handler_thread := True, handler_thread := False\<rparr> else w);
                w = w\<lparr>bus_state := d, open_devices := remove1 devh (open_devices w)\<rparr>
              in do { w \<leftarrow> uvc_unref_device (oh_dev oh) w; Some (Some (uvc_free_devh devh w)) }) }))"

section \<open>The context\<close>

definition uvc_init2 :: "int \<times> 'd \<Rightarrow> bool \<Rightarrow> int \<times> 'd uvc_context option" where
  "uvc_init2 usb_init own = (case usb_init of (ret, d) \<Rightarrow>
     if own \<and> ret \<noteq> UVC_SUCCESS then (ret, None)
     else (if own then ret else UVC_SUCCESS, Some \<lparr>own_usb_ctx = own, open_devices = [], handler_thread = False,
       kill_handler_thread = False, handles = Map.empty, devices = Map.empty, next_id = 0, usb_refs = (\<lambda>_. 0),
       configs = 0, bus_state = d\<rparr>))"

text \<open>The handle after \<open>devh\<close> in the list, read from \<open>devh\<close> itself.\<close>

definition next_handle :: "nat list \<Rightarrow> nat \<Rightarrow> 'd uvc_context \<Rightarrow> nat option option" where
  "next_handle order devh w = (case handles w devh of None \<Rightarrow> None
     | Some _ \<Rightarrow> Some (case dropWhile (\<lambda>h. h \<noteq> devh) order of [] \<Rightarrow> None | _ # hs \<Rightarrow> (case hs of [] \<Rightarrow> None | h # _ \<Rightarrow> Some h)))"

fun close_all ::
  "'d usb_bus \<Rightarrow> nat list \<Rightarrow> nat \<Rightarrow> nat option \<Rightarrow> 'd uvc_context \<Rightarrow> 'd uvc_context option option" where
  "close_all b order n None w = Some (Some w)"
| "close_all b order 0 (Some devh) w = None"
| "close_all b order (Suc n) (Some devh) w = do {
     r \<leftarrow> uvc_close b devh [] w;
     (case r of None \<Rightarrow> Some None
      | Some w \<Rightarrow> do { nx \<leftarrow> next_handle order devh w; close_all b order n nx w }) }"

definition uvc_exit :: "'d usb_bus \<Rightarrow> 'd uvc_context \<Rightarrow> 'd uvc_context option option" where
  "uvc_exit b w = close_all b (open_devices w) (length (open_devices w))
     (case open_devices w of [] \<Rightarrow> None | h # _ \<Rightarrow> Some h) w"

section \<open>Balance of opening and closing\<close>

text \<open>Two contexts that hold the same devices, handles, references and configuration descriptors.\<close>

definition same_resources :: "'d uvc_context \<Rightarrow> 'd uvc_context \<Rightarrow> bool" where
  "same_resources w w' \<longleftrightarrow> devices w' = devices w \<and> usb_refs w' = usb_refs w \<and> configs w' = configs w \<and>
     open_devices w' = open_devices w \<and> handles w' = handles w"

text \<open>No handle has the identifier to be drawn next.\<close>

definition fresh_handle :: "'d uvc_context \<Rightarrow> bool" where
  "fresh_handle w \<longleftrightarrow> handles w (next_id w) = None \<and> next_id w \<notin> set (open_devices w)"

lemma ref_unref:
  assumes "devices w dev = Some u" and "0 < ref u"
  shows "uvc_ref_device dev w = Some (w\<lparr>devices := (devices w)(dev \<mapsto> u\<lparr>ref := ref u + 1\<rparr>),
      usb_refs := (usb_refs w)(usb_dev u := usb_refs w (usb_dev u) + 1)\<rparr>)"
    and "devices v = (devices w)(dev \<mapsto> u\<lparr>ref := ref u + 1\<rparr>) \<Longrightarrow>
      usb_refs v = (usb_refs w)(usb_dev u := usb_refs w (usb_dev u) + 1) \<Longrightarrow>
      uvc_unref_device dev v = Some (v\<lparr>devices := devices w, usb_refs := usb_refs w\<rparr>)"
  using assms by (auto simp: uvc_ref_device_def uvc_unref_device_def fun_upd_idem_iff fun_upd_twist)

lemma device_info_cases:
  assumes "uvc_get_device_info b usb w = Some (ret, info, w')"
  obtains (failed) "info = None" "w' = w" "ret \<noteq> 0"
  | (found) i where "info = Some i" "w' = w\<lparr>configs := configs w + 1\<rparr>" "ret = 0"
  using assms by (auto simp: uvc_get_device_info_def Let_def split: prod.splits if_splits bind_splits)

lemma open_failed_balanced:
  assumes "devices w dev = Some u" and "0 < ref u" and "devices v = (devices w)(dev \<mapsto> u\<lparr>ref := ref u + 1\<rparr>)"
    and "usb_refs v = (usb_refs w)(usb_dev u := usb_refs w (usb_dev u) + 1)"
    and "configs v = configs w" "open_devices v = open_devices w" "handles v = handles w"
    and "open_failed b dev usb e v = Some (ret, h, w')"
  shows "h = None \<and> same_resources w w'"
  using assms by (auto simp: open_failed_def Let_def ref_unref(2) same_resources_def split: bind_splits)

lemma open_control_cases:
  assumes "open_control b dev usb info w = Some (ret, h, w')"
  shows "(\<exists>e d. open_failed b dev usb e (w\<lparr>bus_state := d, configs := configs w - 1\<rparr>) = Some (ret, h, w') \<and> e \<noteq> 0) \<or>
    (ret = 0 \<and> h = Some (next_id w) \<and> devices w' = devices w \<and> usb_refs w' = usb_refs w \<and> configs w' = configs w \<and>
     open_devices w' = open_devices w @ [next_id w] \<and> own_usb_ctx w' = own_usb_ctx w \<and>
     kill_handler_thread w' = kill_handler_thread w \<and>
     handler_thread w' = (own_usb_ctx w \<and> open_devices w = [] \<or> handler_thread w) \<and>
     (\<exists>oh. handles w' = (handles w)(next_id w \<mapsto> oh) \<and> oh_dev oh = dev \<and> streams (oh_devh oh) = []))"
proof -
  let ?h = "host (device_host b usb)" and ?i = "uint (ci_bInterfaceNumber (ctrl_if info))"
  obtain ret1 d1 where claim: "uvc_claim_if ?h ?i (libusb_set_auto_detach_kernel_driver b usb True (bus_state w)) = (ret1, d1)"
    by fastforce
  let ?status = "ci_bEndpointAddress (ctrl_if info) \<noteq> 0"
  obtain ret2 d2 where sub: "(if ?status then submit_status_transfer b usb d1 else (ret1, d1)) = (ret2, d2)"
    by fastforce
  show ?thesis
  proof (cases "ret1 = UVC_SUCCESS \<and> ret2 = 0")
    case True
    with assms claim sub show ?thesis
      by (intro disjI2) (auto simp: open_control_def uvc_start_handler_thread_def Let_def split: if_splits)
  next
    case False
    with assms claim sub show ?thesis
      by (intro disjI1) (auto simp: open_control_def Let_def split: if_splits)
  qed
qed

lemma opened_close:
  assumes "handles w k = Some oh" and "oh_dev oh = dev" and "streams (oh_devh oh) = []" and "devices w dev = Some u"
  shows "\<exists>v. uvc_close b k [] w = (case uvc_unref_device dev v of None \<Rightarrow> None | Some w \<Rightarrow> Some (Some (uvc_free_devh k w))) \<and>
    devices v = devices w \<and> usb_refs v = usb_refs w \<and> configs v = configs w \<and> handles v = handles w \<and>
    own_usb_ctx v = own_usb_ctx w \<and> next_id v = next_id w \<and>
    open_devices v = remove1 k (open_devices w) \<and>
    (own_usb_ctx w \<and> open_devices w = [k] \<longrightarrow> kill_handler_thread v)"
proof -
  let ?d = "libusb_close b (usb_dev u) (libusb_set_auto_detach_kernel_driver b (usb_dev u) False
    (snd (uvc_release_if (host (device_host b (usb_dev u))) (reset_on_release_if (oh_devh oh))
      (uint (ci_bInterfaceNumber (ctrl_if (dh_info (oh_devh oh))))) (bus_state w))))"
  let ?v = "(if own_usb_ctx w \<and> open_devices w = [k] then w\<lparr>kill_handler_thread := True, handler_thread := False\<rparr>
    else w)\<lparr>bus_state := ?d, open_devices := remove1 k (open_devices w)\<rparr>"
  have "uvc_close b k [] w = (case uvc_unref_device dev ?v of None \<Rightarrow> None | Some w \<Rightarrow> Some (Some (uvc_free_devh k w)))"
    using assms by (simp add: uvc_close_def Let_def split: option.split)
  then show ?thesis
    by (intro exI [of _ ?v]) simp
qed

text \<open>What an open of \<open>dev\<close> may end in.\<close>

definition open_outcome ::
  "'d usb_bus \<Rightarrow> nat \<Rightarrow> 'd uvc_context \<Rightarrow> int \<Rightarrow> nat option \<Rightarrow> 'd uvc_context \<Rightarrow> bool" where
  "open_outcome b dev w ret h w' \<longleftrightarrow> (case h of None \<Rightarrow> ret \<noteq> UVC_SUCCESS \<and> same_resources w w'
    | Some k \<Rightarrow> ret = UVC_SUCCESS \<and> open_devices w' = open_devices w @ [k] \<and>
        (\<exists>w''. uvc_close b k [] w' = Some (Some w'') \<and> same_resources w w''))"

lemma open_outcomes:
  assumes "devices w dev = Some u" and "0 < ref u" and "fresh_handle w" and "uvc_open b dev w = Some (ret, h, w')"
  shows "open_outcome b dev w ret h w'"
proof -
  obtain r1 d1 where op: "libusb_open b (usb_dev u) (bus_state w) = (r1, d1)"
    by fastforce
  show ?thesis
  proof (cases "r1 = UVC_SUCCESS")
    case False
    with assms op show ?thesis
      by (auto simp: uvc_open_def same_resources_def open_outcome_def)
  next
    case True
    let ?w1 = "w\<lparr>bus_state := d1, devices := (devices w)(dev \<mapsto> u\<lparr>ref := ref u + 1\<rparr>),
      usb_refs := (usb_refs w)(usb_dev u := usb_refs w (usb_dev u) + 1)\<rparr>"
    have "uvc_ref_device dev (w\<lparr>bus_state := d1\<rparr>) = Some ?w1"
      using assms(1) by (simp add: uvc_ref_device_def)
    with assms op True obtain r2 info w2 where inf: "uvc_get_device_info b (usb_dev u) ?w1 = Some (r2, info, w2)"
      and rest: "(case info of None \<Rightarrow> open_failed b dev (usb_dev u) r2 w2
        | Some info \<Rightarrow> open_control b dev (usb_dev u) info w2) = Some (ret, h, w')"
      by (auto simp: uvc_open_def split: bind_splits)
    from inf show ?thesis
    proof (cases rule: device_info_cases)
      case failed
      with rest have "open_failed b dev (usb_dev u) r2 ?w1 = Some (ret, h, w')"
        by simp
      moreover from this have "ret = r2"
        by (auto simp: open_failed_def Let_def split: bind_splits)
      moreover have "h = None \<and> same_resources w w'"
        using calculation(1) by (intro open_failed_balanced [OF assms(1,2), of ?w1]) simp_all
      ultimately show ?thesis
        using failed by (simp add: open_outcome_def)
    next
      case (found i)
      with rest have "open_control b dev (usb_dev u) i w2 = Some (ret, h, w')"
        by simp
      from open_control_cases [OF this] show ?thesis
      proof (elim disjE exE conjE)
        fix e d
        assume f: "open_failed b dev (usb_dev u) e (w2\<lparr>bus_state := d, configs := configs w2 - 1\<rparr>) = Some (ret, h, w')" "e \<noteq> 0"
        then have "ret = e"
          by (auto simp: open_failed_def Let_def split: bind_splits)
        with open_failed_balanced [OF assms(1,2) _ _ _ _ _ f(1)] f(2) found show ?thesis
          by (auto simp: open_outcome_def)
      next
        fix oh
        assume o: "ret = 0" "h = Some (next_id w2)" "devices w' = devices w2" "usb_refs w' = usb_refs w2" "configs w' = configs w2"
          "open_devices w' = open_devices w2 @ [next_id w2]" "handles w' = (handles w2)(next_id w2 \<mapsto> oh)"
          "oh_dev oh = dev" "streams (oh_devh oh) = []"
        let ?k = "next_id w2"
        from opened_close [of w' ?k oh dev "u\<lparr>ref := ref u + 1\<rparr>" b] o found obtain v where
          close: "uvc_close b ?k [] w' = (case uvc_unref_device dev v of None \<Rightarrow> None | Some w \<Rightarrow> Some (Some (uvc_free_devh ?k w)))"
          and v: "devices v = devices w'" "usb_refs v = usb_refs w'" "configs v = configs w'" "handles v = handles w'"
            "open_devices v = remove1 ?k (open_devices w')"
          by auto
        have "uvc_unref_device dev v = Some (v\<lparr>devices := devices w, usb_refs := usb_refs w\<rparr>)"
          using v o found by (intro ref_unref(2) [OF assms(1,2)]) simp_all
        then have "uvc_close b ?k [] w' = Some (Some (uvc_free_devh ?k (v\<lparr>devices := devices w, usb_refs := usb_refs w\<rparr>)))"
          using close by simp
        moreover have "same_resources w (uvc_free_devh ?k (v\<lparr>devices := devices w, usb_refs := usb_refs w\<rparr>))"
          using v o found assms(3)
          by (auto simp: same_resources_def uvc_free_devh_def fresh_handle_def remove1_append fun_upd_idem_iff)
        ultimately show ?thesis
          using o found by (simp add: open_outcome_def)
      qed
    qed
  qed
qed

text \<open>C33. Opening is balanced. An open that fails at any point (the device, its descriptors, the control interface, the status
  transfer) leaves the references, descriptors and handles as they were; after one that succeeds, closing the handle gives all of them
  back.\<close>

theorem open_balanced:
  assumes "devices w dev = Some u" and "0 < ref u" and "fresh_handle w" and "uvc_open b dev w = Some (ret, h, w')"
  shows "case h of None \<Rightarrow> ret \<noteq> UVC_SUCCESS \<and> same_resources w w'
    | Some k \<Rightarrow> ret = UVC_SUCCESS \<and> open_devices w' = open_devices w @ [k] \<and>
        (\<exists>w''. uvc_close b k [] w' = Some (Some w'') \<and> same_resources w w'')"
  using open_outcomes [OF assms] by (simp add: open_outcome_def)

lemma open_failed_None: "open_failed b dev usb e w = Some (ret, h, w') \<Longrightarrow> h = None"
  by (auto simp: open_failed_def Let_def split: bind_splits)

lemma open_success:
  assumes "uvc_open b dev w = Some (ret, Some k, w')"
  shows "open_devices w' = open_devices w @ [k] \<and> kill_handler_thread w' = kill_handler_thread w \<and>
    handler_thread w' = (own_usb_ctx w \<and> open_devices w = [] \<or> handler_thread w)"
proof -
  obtain u d1 where u: "devices w dev = Some u" and op: "libusb_open b (usb_dev u) (bus_state w) = (UVC_SUCCESS, d1)"
    using assms by (auto simp: uvc_open_def split: option.splits prod.splits if_splits)
  obtain w1 where w1: "uvc_ref_device dev (w\<lparr>bus_state := d1\<rparr>) = Some w1"
    "open_devices w1 = open_devices w" "kill_handler_thread w1 = kill_handler_thread w" "own_usb_ctx w1 = own_usb_ctx w"
    "handler_thread w1 = handler_thread w"
    using u by (simp add: uvc_ref_device_def)
  with assms u op obtain r2 info w2 where inf: "uvc_get_device_info b (usb_dev u) w1 = Some (r2, info, w2)"
    and rest: "(case info of None \<Rightarrow> open_failed b dev (usb_dev u) r2 w2
      | Some info \<Rightarrow> open_control b dev (usb_dev u) info w2) = Some (ret, Some k, w')"
    by (auto simp: uvc_open_def split: bind_splits)
  from inf show ?thesis
  proof (cases rule: device_info_cases)
    case failed
    with rest show ?thesis
      by (auto dest: open_failed_None)
  next
    case (found i)
    with rest have "open_control b dev (usb_dev u) i w2 = Some (ret, Some k, w')"
      by simp
    from open_control_cases [OF this] found w1 show ?thesis
      by (auto dest: open_failed_None)
  qed
qed

text \<open>Once the last device of a context has been closed, the flag that stops the event thread is never cleared: after the next
  successful open a thread exists again, but it returns before it handles a single event, so no transfer of that device ever completes.\<close>

theorem reopen_handles_no_events:
  assumes "own_usb_ctx w" and "open_devices w = [k]" and "handles w k = Some oh" and "streams (oh_devh oh) = []"
    and "uvc_close b k [] w = Some (Some w1)" and "uvc_open b dev w1 = Some (ret, Some k', w2)"
  shows "open_devices w2 = [k'] \<and> handler_thread w2 \<and> uvc_handle_events rounds w2 = (0, w2)"
proof -
  obtain u where u: "devices w (oh_dev oh) = Some u"
    using assms(3,5) by (auto simp: uvc_close_def split: option.splits)
  obtain v where close: "uvc_close b k [] w = (case uvc_unref_device (oh_dev oh) v of None \<Rightarrow> None
      | Some w \<Rightarrow> Some (Some (uvc_free_devh k w)))"
    and v: "own_usb_ctx v" "open_devices v = []" "kill_handler_thread v"
    using opened_close [OF assms(3) refl assms(4) u, of b] assms(1,2) by auto
  then obtain v' where v': "uvc_unref_device (oh_dev oh) v = Some v'" "w1 = uvc_free_devh k v'"
    using assms(5) by (cases "uvc_unref_device (oh_dev oh) v") simp_all
  with v have w1: "kill_handler_thread w1" "own_usb_ctx w1" "open_devices w1 = []"
    by (auto simp: uvc_unref_device_def uvc_free_devh_def split: option.splits)
  from open_success [OF assms(6)] w1 have "kill_handler_thread w2 \<and> handler_thread w2 \<and> open_devices w2 = [k']"
    by simp
  then show ?thesis
    by (cases rounds) simp_all
qed

section \<open>Closing the context\<close>

lemma close_frees: "uvc_close b k ess w = Some (Some w') \<Longrightarrow> handles w' k = None"
  by (auto simp: uvc_close_def uvc_free_devh_def Let_def split: option.splits bind_splits)

text \<open>The loop of \<open>uvc_exit\<close> steps from a handle it has just freed.\<close>

lemma exit_reads_freed_handle:
  assumes "open_devices w = k # ks" and "uvc_close b k [] w = Some (Some w')"
  shows "uvc_exit b w = None"
  using assms close_frees [OF assms(2)] by (simp add: uvc_exit_def next_handle_def)

section \<open>References of a search\<close>

text \<open>The structures from \<open>n\<close> on, one for each libusb device of \<open>us\<close>, each with one reference.\<close>

definition with_devices :: "nat \<Rightarrow> nat list \<Rightarrow> (nat \<rightharpoonup> uvc_device) \<Rightarrow> (nat \<rightharpoonup> uvc_device)" where
  "with_devices n us m = (\<lambda>k. if n \<le> k \<and> k < n + length us then Some \<lparr>usb_dev = us ! (k - n), ref = 1\<rparr> else m k)"

definition count_refs :: "nat list \<Rightarrow> (nat \<Rightarrow> int) \<Rightarrow> nat \<Rightarrow> int" where
  "count_refs us r = (\<lambda>x. r x + int (count_list us x))"

lemma with_devices_Nil [simp]: "with_devices n [] m = m"
  by (rule ext) (auto simp: with_devices_def)

lemma upt_length_Cons: "[n..<n + length (u # us)] = n # [Suc n..<Suc n + length us]"
  by (simp add: upt_conv_Cons del: upt_Suc)

lemma with_devices_Cons:
  "with_devices (Suc n) us (m(n \<mapsto> \<lparr>usb_dev = u, ref = 1\<rparr>)) = with_devices n (u # us) m"
proof
  fix k
  show "with_devices (Suc n) us (m(n \<mapsto> \<lparr>usb_dev = u, ref = 1\<rparr>)) k = with_devices n (u # us) m k"
    by (cases "k = n") (auto simp: with_devices_def nth_Cons')
qed

lemma list_devices_spec:
  "\<exists>us. list_devices b usbs w = (devs, w') \<longrightarrow> devs = [next_id w ..< next_id w + length us] \<and>
     devices w' = with_devices (next_id w) us (devices w) \<and> usb_refs w' = count_refs us (usb_refs w) \<and>
     handles w' = handles w \<and> open_devices w' = open_devices w \<and> set us \<subseteq> set usbs"
proof (induction usbs arbitrary: w devs)
  case Nil
  then show ?case
    by (intro exI [of _ "[]"]) (auto simp: count_refs_def)
next
  case (Cons usb usbs)
  obtain r c where cfg: "libusb_get_config_descriptor b usb = (r, c)" by fastforce
  obtain r' desc where dsc: "libusb_get_device_descriptor b usb = (r', desc)" by fastforce
  show ?case
  proof (cases "r = 0 \<and> r' = 0 \<and> has_video_streaming desc c")
    case True
    let ?w = "snd (new_device usb w)"
    obtain devs1 where rest: "list_devices b usbs ?w = (devs1, snd (list_devices b usbs ?w))"
      by (metis prod.collapse)
    obtain us where us: "list_devices b usbs ?w = (devs1, w') \<longrightarrow> devs1 = [next_id ?w ..< next_id ?w + length us] \<and>
       devices w' = with_devices (next_id ?w) us (devices ?w) \<and> usb_refs w' = count_refs us (usb_refs ?w) \<and>
       handles w' = handles ?w \<and> open_devices w' = open_devices ?w \<and> set us \<subseteq> set usbs"
      using Cons.IH [of ?w devs1] by blast
    show ?thesis
    proof (intro exI [of _ "usb # us"] impI)
      assume run: "list_devices b (usb # usbs) w = (devs, w')"
      then have "list_devices b usbs ?w = (devs1, w')" "devs = next_id w # devs1"
        using True cfg dsc rest by (auto simp: new_device_def Let_def split: prod.splits)
      with us show "devs = [next_id w ..< next_id w + length (usb # us)] \<and>
        devices w' = with_devices (next_id w) (usb # us) (devices w) \<and> usb_refs w' = count_refs (usb # us) (usb_refs w) \<and>
        handles w' = handles w \<and> open_devices w' = open_devices w \<and> set (usb # us) \<subseteq> set (usb # usbs)"
        unfolding upt_length_Cons by (auto simp: new_device_def with_devices_Cons count_refs_def simp del: upt_Suc)
    qed
  next
    case False
    let ?w = "if r = 0 \<and> r' \<noteq> 0 then w\<lparr>configs := configs w + 1\<rparr> else w"
    have run: "list_devices b (usb # usbs) w = list_devices b usbs ?w"
      using False cfg dsc by (auto simp: Let_def)
    from Cons.IH [of ?w devs] show ?thesis
      unfolding run by (cases "r = 0 \<and> r' \<noteq> 0") auto
  qed
qed

lemma search_keeps:
  "search_device b vid pid sn devs w = Some (found, w') \<Longrightarrow>
   devices w' = devices w \<and> usb_refs w' = usb_refs w \<and> handles w' = handles w \<and> open_devices w' = open_devices w \<and>
   (\<forall>dev. found = Some dev \<longrightarrow> dev \<in> set devs)"
proof (induction devs arbitrary: w)
  case (Cons d devs)
  then obtain ret desc w1 where get: "uvc_get_device_descriptor b d w = Some (ret, desc, w1)"
    by (auto split: bind_splits)
  then have "devices w1 = devices w \<and> usb_refs w1 = usb_refs w \<and> handles w1 = handles w \<and> open_devices w1 = open_devices w"
    by (auto simp: uvc_get_device_descriptor_def split: option.splits prod.splits if_splits)
  with Cons.IH [of w1] Cons.prems get show ?case
    by (auto split: option.splits if_splits)
qed simp

lemma free_append:
  "uvc_free_device_list (xs @ ys) True w = do { w \<leftarrow> uvc_free_device_list xs True w; uvc_free_device_list ys True w }"
  by (induction xs arbitrary: w) (auto split: bind_splits)

text \<open>Freeing a run of devices with one reference each takes exactly these out.\<close>

lemma free_run:
  assumes "devices w = with_devices n us m" and "\<forall>k. n \<le> k \<and> k < n + length us \<longrightarrow> m k = None"
    and "usb_refs w = count_refs us r"
  shows "\<exists>w'. uvc_free_device_list [n..<n + length us] True w = Some w' \<and> devices w' = m \<and> usb_refs w' = r \<and>
    handles w' = handles w \<and> open_devices w' = open_devices w"
  using assms
proof (induction us arbitrary: n w)
  case Nil
  then show ?case
    by (simp add: count_refs_def)
next
  case (Cons u us)
  let ?w = "w\<lparr>devices := with_devices (Suc n) us m, usb_refs := count_refs us r\<rparr>"
  have dev: "devices w n = Some \<lparr>usb_dev = u, ref = 1\<rparr>"
    using Cons.prems(1) by (simp add: with_devices_def)
  have gone: "(with_devices n (u # us) m)(n := None) = with_devices (Suc n) us m"
    using Cons.prems(2) by (auto simp: with_devices_def nth_Cons' fun_eq_iff)
  have "(count_refs (u # us) r)(u := count_refs (u # us) r u - 1) = count_refs us r"
    by (auto simp: count_refs_def)
  with dev gone have "uvc_unref_device n w = Some ?w"
    using Cons.prems(1,3) by (simp add: uvc_unref_device_def)
  moreover obtain w' where "uvc_free_device_list [Suc n..<Suc n + length us] True ?w = Some w' \<and> devices w' = m \<and> usb_refs w' = r \<and>
      handles w' = handles w \<and> open_devices w' = open_devices w"
    using Cons.IH [of ?w "Suc n"] Cons.prems(2) by auto
  ultimately show ?case
    unfolding upt_length_Cons by (simp del: upt_Suc)
qed

lemma run_split:
  assumes "dev \<in> set [n..<n + length us]"
  shows "\<exists>us1 u us2. us = us1 @ u # us2 \<and> dev = n + length us1"
  using assms id_take_nth_drop [of "dev - n" us]
  by (intro exI [of _ "take (dev - n) us"] exI [of _ "us ! (dev - n)"] exI [of _ "drop (Suc (dev - n)) us"]) auto

lemma with_devices_split:
  "with_devices n (us1 @ u # us2) m =
   with_devices n us1 ((with_devices (Suc (n + length us1)) us2 m)(n + length us1 \<mapsto> \<lparr>usb_dev = u, ref = 1\<rparr>))"
  by (induction us1 arbitrary: n)
    (auto simp: with_devices_def fun_eq_iff nth_Cons' nth_append)

lemma count_refs_split: "count_refs (us1 @ u # us2) r = count_refs us1 (count_refs us2 (r(u := r u + 1)))"
  by (auto simp: count_refs_def)

lemma with_devices_upd:
  "k < n \<Longrightarrow> (with_devices n us m)(k \<mapsto> u) = with_devices n us (m(k \<mapsto> u))"
  by (auto simp: with_devices_def fun_eq_iff)

lemma with_devices_upd':
  "n + length us \<le> k \<Longrightarrow> (with_devices n us m)(k \<mapsto> u) = with_devices n us (m(k \<mapsto> u))"
  by (auto simp: with_devices_def fun_eq_iff)

lemma count_refs_upd: "(count_refs us r)(u := count_refs us r u + i) = count_refs us (r(u := r u + i))"
  by (auto simp: count_refs_def)

text \<open>Freeing the run after one of its devices has been given a second reference leaves that device.\<close>

lemma free_but_one:
  assumes w: "devices w = with_devices n us m" "usb_refs w = count_refs us r" and fresh: "\<forall>k \<ge> n. m k = None"
    and split: "us = us1 @ u # us2" "dev = n + length us1"
    and run: "uvc_ref_device dev w = Some w1" "uvc_free_device_list [n..<n + length us] True w1 = Some w'"
  shows "devices w' = m(dev \<mapsto> \<lparr>usb_dev = u, ref = 1\<rparr>) \<and> usb_refs w' = r(u := r u + 1)"
proof -
  let ?D = "\<lambda>i::int. \<lparr>usb_dev = u, ref = i\<rparr>"
  let ?M = "\<lambda>i. with_devices (Suc dev) us2 (m(dev \<mapsto> ?D i))"
  have dev: "devices w = with_devices n us1 (?M 1)" "devices w dev = Some (?D 1)"
    using w(1) split by (simp_all add: with_devices_split with_devices_upd) (simp add: with_devices_def)
  have w1: "devices w1 = with_devices n us1 (?M 2)" "usb_refs w1 = count_refs us1 (count_refs us2 (r(u := 2 + r u)))"
    using run(1) w(2) dev split
    by (auto simp: uvc_ref_device_def with_devices_upd' with_devices_upd count_refs_split count_refs_upd)
  have "[n..<n + length us] = [n..<n + length us1] @ dev # [Suc dev..<Suc dev + length us2]"
    using split upt_add_eq_append [of n dev "Suc (length us2)"] upt_conv_Cons [of dev "Suc dev + length us2"]
    by (simp add: add.commute add.left_commute del: upt_Suc)
  with run(2) obtain w2 where w2: "uvc_free_device_list [n..<n + length us1] True w1 = Some w2"
    and rest: "uvc_free_device_list (dev # [Suc dev..<Suc dev + length us2]) True w2 = Some w'"
    by (auto simp: free_append simp del: upt_Suc uvc_free_device_list.simps split: bind_splits)
  have "\<forall>k. n \<le> k \<and> k < n + length us1 \<longrightarrow> ?M 2 k = None"
    using fresh split(2) by (auto simp: with_devices_def)
  from free_run [OF w1(1) this w1(2)] w2
  have d2: "devices w2 = ?M 2" "usb_refs w2 = count_refs us2 (r(u := 2 + r u))"
    by auto
  let ?w3 = "w2\<lparr>devices := ?M 1, usb_refs := count_refs us2 (r(u := r u + 1))\<rparr>"
  have "?M 2 dev = Some (?D 2)"
    by (simp add: with_devices_def)
  then have "uvc_unref_device dev w2 = Some ?w3"
    using d2 count_refs_upd [of us2 "r(u := 2 + r u)" u "-1"]
    by (simp add: uvc_unref_device_def with_devices_upd add.commute)
  with rest have last: "uvc_free_device_list [Suc dev..<Suc dev + length us2] True ?w3 = Some w'"
    by (simp del: upt_Suc)
  have "\<exists>w'. uvc_free_device_list [Suc dev..<Suc dev + length us2] True ?w3 = Some w' \<and> devices w' = m(dev \<mapsto> ?D 1) \<and>
      usb_refs w' = r(u := r u + 1) \<and> handles w' = handles ?w3 \<and> open_devices w' = open_devices ?w3"
    using fresh split(2) by (intro free_run) auto
  with last show ?thesis
    by auto
qed

text \<open>A search leaves behind the device it found, with the one reference the caller owns, and nothing else: every other device
  structure of the list is taken apart and its libusb reference given back.\<close>

theorem find_device_refs:
  assumes "\<forall>k \<ge> next_id w. devices w k = None" and "uvc_find_device b vid pid sn w = Some (ret, found, w')"
  shows "(case found of None \<Rightarrow> devices w' = devices w \<and> usb_refs w' = usb_refs w
    | Some dev \<Rightarrow> ret = UVC_SUCCESS \<and> (\<exists>usb. devices w' = (devices w)(dev \<mapsto> \<lparr>usb_dev = usb, ref = 1\<rparr>) \<and>
        usb_refs w' = (usb_refs w)(usb := usb_refs w usb + 1)))"
proof -
  obtain r0 devs w1 where list: "uvc_get_device_list b w = (r0, devs, w1)"
    by (metis prod_cases3)
  show ?thesis
  proof (cases "r0 = UVC_SUCCESS")
    case False
    with list have "w1 = w"
      by (auto simp: uvc_get_device_list_def split: prod.splits if_splits)
    with False assms(2) list show ?thesis
      by (auto simp: uvc_find_device_def)
  next
    case True
    let ?n = "next_id w" and ?m = "devices w" and ?r = "usb_refs w"
    from list True obtain usbs where "list_devices b usbs w = (devs, w1)"
      by (auto simp: uvc_get_device_list_def split: prod.splits if_splits)
    with list_devices_spec [of b usbs w devs w1] obtain us where us: "devs = [?n..<?n + length us]"
      "devices w1 = with_devices ?n us ?m" "usb_refs w1 = count_refs us ?r"
      by blast
    obtain w2 where search: "search_device b vid pid sn devs w1 = Some (found, w2)"
      and rest: "do { w \<leftarrow> (case found of None \<Rightarrow> Some w2 | Some dev \<Rightarrow> uvc_ref_device dev w2);
        uvc_free_device_list devs True w } = Some w'" and ret: "ret = (if found = None then -4 else UVC_SUCCESS)"
      using assms(2) list True by (auto simp: uvc_find_device_def split: bind_splits)
    from search_keeps [OF search] us have w2: "devices w2 = with_devices ?n us ?m" "usb_refs w2 = count_refs us ?r"
      and mem: "\<And>dev. found = Some dev \<Longrightarrow> dev \<in> set [?n..<?n + length us]"
      by auto
    show ?thesis
    proof (cases found)
      case None
      with free_run [OF w2(1) _ w2(2)] assms(1) rest us(1) show ?thesis
        by auto
    next
      case (Some dev)
      have "dev \<in> set [?n..<?n + length us]"
        using mem [OF Some] .
      then obtain us1 u us2 where split: "us = us1 @ u # us2" "dev = ?n + length us1"
        using run_split [of dev ?n us] by auto
      from rest Some obtain w3 where w3: "uvc_ref_device dev w2 = Some w3"
        "uvc_free_device_list [?n..<?n + length us] True w3 = Some w'"
        using us(1) by (auto split: bind_splits)
      from free_but_one [OF w2 assms(1) split w3] show ?thesis
        using ret Some by auto
    qed
  qed
qed

section \<open>A bus with one webcam\<close>

text \<open>A bus with one webcam, device 7; the context has found it, or holds nothing yet.\<close>

definition demo_bus :: "mem_dev usb_bus" where
  "demo_bus = \<lparr>libusb_get_device_list = (\<lambda>_. (1, [7])),
     libusb_get_device_descriptor = (\<lambda>_. (0, \<lparr>idVendor = 0, idProduct = 0, iManufacturer = 0, iProduct = 0, iSerialNumber = 0\<rparr>)),
     libusb_get_config_descriptor = (\<lambda>_. (0, webcam)), libusb_open = (\<lambda>_ d. (0, d)), libusb_close = (\<lambda>_ d. d),
     libusb_set_auto_detach_kernel_driver = (\<lambda>_ _ d. d), libusb_get_string_descriptor_ascii = (\<lambda>_ _ _. (0, [])),
     libusb_find_device = (\<lambda>_ _ _ _ _. Some 7), libusb_get_device_with_fd = (\<lambda>_ _ _ _ _ _ d. (Some 7, d)),
     libusb_set_device_fd = (\<lambda>_ _ d. d), submit_status_transfer = (\<lambda>_ d. (0, d)),
     device_host = (\<lambda>_. \<lparr>host = mem_host, libusb_submit_transfer = (\<lambda>_ _ d. (0, d))\<rparr>)\<rparr>"

definition demo_context :: "mem_dev uvc_context" where
  "demo_context = snd (new_device 7 (the (snd (uvc_init2 (0, demo_dev) True))))"

lemma demo_context_fields:
  "devices demo_context = [0 \<mapsto> \<lparr>usb_dev = 7, ref = 1\<rparr>]" "next_id demo_context = 1" "handles demo_context = Map.empty"
  "open_devices demo_context = []" "own_usb_ctx demo_context" "kill_handler_thread demo_context = False"
  by (simp_all add: demo_context_def new_device_def uvc_init2_def)

lemma demo_opens:
  assumes "devices w dev = Some \<lparr>usb_dev = 7, ref = 1\<rparr>"
  obtains oh w' where "uvc_open demo_bus dev w = Some (UVC_SUCCESS, Some (next_id w), w')" "own_usb_ctx w' = own_usb_ctx w"
    "open_devices w' = open_devices w @ [next_id w]" "handles w' (next_id w) = Some oh" "streams (oh_devh oh) = []"
proof -
  obtain info where scan: "uvc_scan_control 0 0 (zero_info webcam) = Some (UVC_SUCCESS, info)"
    using webcam_scan(1) by (cases "uvc_scan_control 0 0 (zero_info webcam)") auto
  obtain w1 where w1: "uvc_open demo_bus dev w = open_control demo_bus dev 7 info w1" "next_id w1 = next_id w"
    "own_usb_ctx w1 = own_usb_ctx w" "open_devices w1 = open_devices w"
    using assms by (simp add: uvc_open_def demo_bus_def uvc_ref_device_def uvc_get_device_info_def scan)
  moreover have "\<exists>w'. open_control demo_bus dev 7 info w1 = Some (UVC_SUCCESS, Some (next_id w1), w')"
    by (cases "ci_bEndpointAddress (ctrl_if info) = 0")
      (simp_all add: open_control_def demo_bus_def uvc_claim_if_def uvc_start_handler_thread_def mem_host_def Let_def)
  then obtain w' where run: "open_control demo_bus dev 7 info w1 = Some (UVC_SUCCESS, Some (next_id w1), w')"
    by blast
  moreover obtain oh where "own_usb_ctx w' = own_usb_ctx w1" "open_devices w' = open_devices w1 @ [next_id w1]"
    "handles w' (next_id w1) = Some oh" "streams (oh_devh oh) = []"
    using open_control_cases [OF run] by (elim disjE exE conjE) (auto dest: open_failed_None)
  ultimately show ?thesis
    using run that by simp
qed

theorem open_balanced_witness:
  "\<exists>w w'. uvc_open demo_bus 0 demo_context = Some (UVC_SUCCESS, Some 1, w) \<and> uvc_close demo_bus 1 [] w = Some (Some w') \<and>
     devices w' = [0 \<mapsto> \<lparr>usb_dev = 7, ref = 1\<rparr>] \<and> handles w' = Map.empty \<and> configs w' = configs demo_context"
proof -
  obtain w where run: "uvc_open demo_bus 0 demo_context = Some (UVC_SUCCESS, Some 1, w)"
    by (rule demo_opens [of demo_context 0]) (auto simp: demo_context_fields)
  have "fresh_handle demo_context"
    by (simp add: fresh_handle_def demo_context_fields)
  with open_balanced [OF _ _ _ run, of "\<lparr>usb_dev = 7, ref = 1\<rparr>"] run show ?thesis
    by (auto simp: demo_context_fields same_resources_def)
qed

text \<open>Open, close and open again.\<close>

theorem reopen_handles_no_events_witness:
  "\<exists>w w1 w2 k. uvc_open demo_bus 0 demo_context = Some (UVC_SUCCESS, Some 1, w) \<and> uvc_close demo_bus 1 [] w = Some (Some w1) \<and>
     uvc_open demo_bus 0 w1 = Some (UVC_SUCCESS, Some k, w2) \<and>
     open_devices w2 = [k] \<and> handler_thread w2 \<and> uvc_handle_events [\<lambda>w. w, \<lambda>w. w] w2 = (0, w2)"
proof -
  obtain w oh where w: "uvc_open demo_bus 0 demo_context = Some (UVC_SUCCESS, Some 1, w)" "own_usb_ctx w" "open_devices w = [1]"
    "handles w 1 = Some oh" "streams (oh_devh oh) = []"
    by (rule demo_opens [of demo_context 0]) (auto simp: demo_context_fields)
  have "open_outcome demo_bus 0 demo_context UVC_SUCCESS (Some 1) w"
    using w(1) by (intro open_outcomes [where u = "\<lparr>usb_dev = 7, ref = 1\<rparr>"]) (simp_all add: fresh_handle_def demo_context_fields)
  then obtain w1 where w1: "uvc_close demo_bus 1 [] w = Some (Some w1)" "devices w1 0 = Some \<lparr>usb_dev = 7, ref = 1\<rparr>"
    by (auto simp: open_outcome_def same_resources_def demo_context_fields)
  obtain w2 where w2: "uvc_open demo_bus 0 w1 = Some (UVC_SUCCESS, Some (next_id w1), w2)"
    by (rule demo_opens [OF w1(2)])
  from reopen_handles_no_events [OF w(2-5) w1(1) w2, of "[\<lambda>w. w, \<lambda>w. w]"] w(1) w1(1) w2 show ?thesis
    by blast
qed

theorem find_device_refs_witness:
  "\<exists>w'. uvc_find_device demo_bus 0 0 None (the (snd (uvc_init2 (0, demo_dev) True))) = Some (UVC_SUCCESS, Some 0, w') \<and>
     devices w' = [0 \<mapsto> \<lparr>usb_dev = 7, ref = 1\<rparr>] \<and> usb_refs w' 7 = 1"
proof -
  let ?w = "the (snd (uvc_init2 (0, demo_dev) True)) :: mem_dev uvc_context"
  have "\<exists>w'. uvc_find_device demo_bus 0 0 None ?w = Some (UVC_SUCCESS, Some 0, w') \<and> usb_refs w' 7 = 1"
    by (simp add: uvc_find_device_def uvc_get_device_list_def uvc_init2_def demo_bus_def has_video_streaming_def webcam_def
        new_device_def Let_def uvc_get_device_descriptor_def device_matches_def uvc_ref_device_def uvc_unref_device_def)
  then obtain w' where run: "uvc_find_device demo_bus 0 0 None ?w = Some (UVC_SUCCESS, Some 0, w')" "usb_refs w' 7 = 1"
    by blast
  have none: "devices ?w = Map.empty" "usb_refs ?w = (\<lambda>_. 0)"
    by (simp_all add: uvc_init2_def)
  obtain usb where usb: "devices w' = [0 \<mapsto> \<lparr>usb_dev = usb, ref = 1\<rparr>]" "usb_refs w' = (\<lambda>_. 0)(usb := 1)"
    using find_device_refs [OF _ run(1)] none by auto
  with run(2) have "usb = 7"
    by (simp split: if_splits)
  with run usb show ?thesis
    by blast
qed

end
