(* ===== verification/Uvc_Frame.thy ===== *)
theory Uvc_Frame
  imports Uvc_Stream
begin

text \<open>
  Frames the library owns and the conversions between pixel formats (\<open>frame.c\<close>). A buffer is the list of its bytes,
  \<open>data_bytes\<close> its length, a null buffer the empty list. What \<open>malloc\<close> and \<open>realloc\<close> leave in fresh
  bytes is the parameter \<open>fill\<close>; they succeed. The JPEG decoders only call libjpeg and are the parameter \<open>mjpeg\<close>.
  Rows, groups and pixels are counted in \<open>nat\<close>; the products the code takes in \<open>uint32_t\<close> are taken there.
\<close>

section \<open>Buffers\<close>

record library_frame = uvc_frame +
  fm_sequence :: u32
  library_owns_data :: bool

definition uvc_ensure_frame_size :: "(nat \<Rightarrow> u8) \<Rightarrow> nat \<Rightarrow> library_frame \<Rightarrow> int \<times> library_frame" where
  "uvc_ensure_frame_size fill need_bytes fr =
     (if library_owns_data fr
      then let fr = (if fm_data fr = [] \<or> length (fm_data fr) \<noteq> need_bytes
             then fr\<lparr>fm_actual_bytes := need_bytes,
               fm_data := take need_bytes (fm_data fr) @ map fill [length (fm_data fr)..<need_bytes]\<rparr>
             else fr)
        in if need_bytes = 0 then (UVC_ERROR_NO_MEM, fr) else (UVC_SUCCESS, fr)
      else if fm_data fr = [] \<or> length (fm_data fr) < need_bytes then (UVC_ERROR_NO_MEM, fr)
      else (UVC_SUCCESS, fr))"

text \<open>A frame whose other fields are what \<open>malloc\<close> returned, \<open>old\<close>.\<close>

definition uvc_allocate_frame :: "(nat \<Rightarrow> u8) \<Rightarrow> library_frame \<Rightarrow> nat \<Rightarrow> library_frame" where
  "uvc_allocate_frame fill old data_bytes =
     (if data_bytes > 0
      then old\<lparr>library_owns_data := True, fm_actual_bytes := data_bytes, fm_data := map fill [0..<data_bytes]\<rparr>
      else old)"

text \<open>\<open>memcpy(op, ip, rowbytes)\<close>.\<close>

definition copy_row :: "nat \<Rightarrow> bytes \<Rightarrow> nat \<Rightarrow> nat \<Rightarrow> bytes \<Rightarrow> bytes option" where
  "copy_row rowbytes src ip op dst = need (ip + rowbytes) src (mem_write op (take rowbytes (drop ip src)) dst)"

text \<open>Rows from \<open>h\<close> on, four in each round, while \<open>h < hh\<close>.\<close>

function duplicate_rows :: "nat \<Rightarrow> nat \<Rightarrow> nat \<Rightarrow> nat \<Rightarrow> bytes \<Rightarrow> nat \<Rightarrow> bytes \<Rightarrow> bytes option" where
  "duplicate_rows hh rowbytes istep ostep src h dst =
     (if h < hh then do {
        dst \<leftarrow> copy_row rowbytes src (h * istep) (h * ostep) dst;
        dst \<leftarrow> copy_row rowbytes src ((h + 1) * istep) ((h + 1) * ostep) dst;
        dst \<leftarrow> copy_row rowbytes src ((h + 2) * istep) ((h + 2) * ostep) dst;
        dst \<leftarrow> copy_row rowbytes src ((h + 3) * istep) ((h + 3) * ostep) dst;
        duplicate_rows hh rowbytes istep ostep src (h + 4) dst }
      else Some dst)"
  by pat_completeness auto
termination
  by (relation "measure (\<lambda>(hh, _, _, _, _, h, _). hh - h)") auto

declare duplicate_rows.simps [simp del]

definition uvc_duplicate_frame :: "(nat \<Rightarrow> u8) \<Rightarrow> library_frame \<Rightarrow> library_frame \<Rightarrow> (int \<times> library_frame) option" where
  "uvc_duplicate_frame fill inp out =
     (case uvc_ensure_frame_size fill (length (fm_data inp)) out of (ret, out) \<Rightarrow>
        if ret < 0 then Some (UVC_ERROR_NO_MEM, out)
        else let out = out\<lparr>fm_width := fm_width inp, fm_height := fm_height inp, fm_format := fm_format inp,
                   fm_step := (if library_owns_data out then fm_step inp else fm_step out), fm_sequence := fm_sequence inp,
                   fm_actual_bytes := fm_actual_bytes inp\<rparr>
          in do {
            data \<leftarrow> (if fm_step inp \<noteq> 0 \<and> fm_step out \<noteq> 0
              then duplicate_rows (min (unat (fm_height inp)) (unat (fm_height out))) (min (fm_step inp) (fm_step out))
                (fm_step inp) (fm_step out) (fm_data inp) 0 (fm_data out)
              else copy_row (fm_actual_bytes inp) (fm_data inp) 0 0 (fm_data out));
            Some (UVC_SUCCESS, out\<lparr>fm_data := data\<rparr>) })"

section \<open>Pixels\<close>

datatype pixel = PIXEL_RGB565 | PIXEL_UYVY | PIXEL_YUYV | PIXEL_RGB | PIXEL_BGR | PIXEL_RGBX

fun pixel_bytes :: "pixel \<Rightarrow> nat" where
  "pixel_bytes PIXEL_RGB565 = 2"
| "pixel_bytes PIXEL_UYVY = 2"
| "pixel_bytes PIXEL_YUYV = 2"
| "pixel_bytes PIXEL_RGB = 3"
| "pixel_bytes PIXEL_BGR = 3"
| "pixel_bytes PIXEL_RGBX = 4"

lemma pixel_bytes_pos: "0 < pixel_bytes f"
  by (cases f) simp_all

fun pixel_format :: "pixel \<Rightarrow> uvc_frame_format" where
  "pixel_format PIXEL_RGB565 = FORMAT_RGB565"
| "pixel_format PIXEL_UYVY = FORMAT_UYVY"
| "pixel_format PIXEL_YUYV = FORMAT_YUYV"
| "pixel_format PIXEL_RGB = FORMAT_RGB"
| "pixel_format PIXEL_BGR = FORMAT_BGR"
| "pixel_format PIXEL_RGBX = FORMAT_RGBX"

definition sat :: "int \<Rightarrow> u8" where
  "sat i = word_of_int (if i \<ge> 255 then 255 else if i < 0 then 0 else i)"

text \<open>The colour offsets of two pixels with the chrominances \<open>u\<close> and \<open>v\<close>; \<open>>> 14\<close> rounds down.\<close>

definition red_of :: "u8 \<Rightarrow> int" where
  "red_of v = (22987 * (uint v - 128)) div 2 ^ 14"

definition green_of :: "u8 \<Rightarrow> u8 \<Rightarrow> int" where
  "green_of u v = (-5636 * (uint u - 128) - 11698 * (uint v - 128)) div 2 ^ 14"

definition blue_of :: "u8 \<Rightarrow> int" where
  "blue_of u = (29049 * (uint u - 128)) div 2 ^ 14"

text \<open>Each macro for two pixels lists the bytes it writes, in order, from the input at \<open>ax\<close>.\<close>

definition RGB2RGBX_2 :: "bytes \<Rightarrow> nat \<Rightarrow> bytes" where
  "RGB2RGBX_2 p ax = [p ! ax, p ! (ax + 1), p ! (ax + 2), 0xff, p ! (ax + 3), p ! (ax + 4), p ! (ax + 5), 0xff]"

definition RGB2RGB565_2 :: "bytes \<Rightarrow> nat \<Rightarrow> bytes" where
  "RGB2RGB565_2 p ax = [
     (push_bit 3 (p ! (ax + 1)) AND 0xE0) OR (drop_bit 3 (p ! (ax + 2)) AND 0x1F),
     (p ! ax AND 0xF8) OR (drop_bit 5 (p ! (ax + 1)) AND 0x07),
     (push_bit 3 (p ! (ax + 4)) AND 0xE0) OR (drop_bit 3 (p ! (ax + 5)) AND 0x1F),
     (p ! (ax + 3) AND 0xF8) OR (drop_bit 5 (p ! (ax + 4)) AND 0x07)]"

definition IYUYV2RGB_2 :: "bytes \<Rightarrow> nat \<Rightarrow> bytes" where
  "IYUYV2RGB_2 p ax = (let r = red_of (p ! (ax + 3)); g = green_of (p ! (ax + 1)) (p ! (ax + 3)); b = blue_of (p ! (ax + 1));
       y0 = uint (p ! ax); y2 = uint (p ! (ax + 2))
     in [sat (y0 + r), sat (y0 + g), sat (y0 + b), sat (y2 + r), sat (y2 + g), sat (y2 + b)])"

definition IYUYV2RGBX_2 :: "bytes \<Rightarrow> nat \<Rightarrow> bytes" where
  "IYUYV2RGBX_2 p ax = (let r = red_of (p ! (ax + 3)); g = green_of (p ! (ax + 1)) (p ! (ax + 3)); b = blue_of (p ! (ax + 1));
       y0 = uint (p ! ax); y2 = uint (p ! (ax + 2))
     in [sat (y0 + r), sat (y0 + g), sat (y0 + b), 0xff, sat (y2 + r), sat (y2 + g), sat (y2 + b), 0xff])"

text \<open>The macro reads the chrominances from the start of its group, \<open>gx\<close>, not from \<open>ax\<close>.\<close>

definition IYUYV2BGR_2 :: "nat \<Rightarrow> bytes \<Rightarrow> nat \<Rightarrow> bytes" where
  "IYUYV2BGR_2 gx p ax = (let r = red_of (p ! (gx + 3)); g = green_of (p ! (gx + 1)) (p ! (gx + 3)); b = blue_of (p ! (gx + 1));
       y0 = uint (p ! ax); y2 = uint (p ! (ax + 2))
     in [sat (y0 + b), sat (y0 + g), sat (y0 + r), sat (y2 + b), sat (y2 + g), sat (y2 + r)])"

definition IUYVY2RGB_2 :: "bytes \<Rightarrow> nat \<Rightarrow> bytes" where
  "IUYVY2RGB_2 p ax = (let r = red_of (p ! (ax + 2)); g = green_of (p ! ax) (p ! (ax + 2)); b = blue_of (p ! ax);
       y1 = uint (p ! (ax + 1)); y3 = uint (p ! (ax + 3))
     in [sat (y1 + r), sat (y1 + g), sat (y1 + b), sat (y3 + r), sat (y3 + g), sat (y3 + b)])"

definition IUYVY2RGBX_2 :: "bytes \<Rightarrow> nat \<Rightarrow> bytes" where
  "IUYVY2RGBX_2 p ax = (let r = red_of (p ! (ax + 2)); g = green_of (p ! ax) (p ! (ax + 2)); b = blue_of (p ! ax);
       y1 = uint (p ! (ax + 1)); y3 = uint (p ! (ax + 3))
     in [sat (y1 + r), sat (y1 + g), sat (y1 + b), 0xff, sat (y3 + r), sat (y3 + g), sat (y3 + b), 0xff])"

definition IUYVY2BGR_2 :: "bytes \<Rightarrow> nat \<Rightarrow> bytes" where
  "IUYVY2BGR_2 p ax = (let r = red_of (p ! (ax + 2)); g = green_of (p ! ax) (p ! (ax + 2)); b = blue_of (p ! ax);
       y1 = uint (p ! (ax + 1)); y3 = uint (p ! (ax + 3))
     in [sat (y1 + b), sat (y1 + g), sat (y1 + r), sat (y3 + b), sat (y3 + g), sat (y3 + r)])"

text \<open>The macros for eight pixels: four calls, each two pixels on; \<open>n\<close> is the size of two input pixels.\<close>

definition eight :: "nat \<Rightarrow> (bytes \<Rightarrow> nat \<Rightarrow> bytes) \<Rightarrow> bytes \<Rightarrow> nat \<Rightarrow> bytes" where
  "eight n two p ax = two p ax @ two p (ax + n) @ two p (ax + 2 * n) @ two p (ax + 3 * n)"

definition RGB2RGBX_8 :: "bytes \<Rightarrow> nat \<Rightarrow> bytes" where "RGB2RGBX_8 = eight 6 RGB2RGBX_2"
definition RGB2RGB565_8 :: "bytes \<Rightarrow> nat \<Rightarrow> bytes" where "RGB2RGB565_8 = eight 6 RGB2RGB565_2"
definition IYUYV2RGB_8 :: "bytes \<Rightarrow> nat \<Rightarrow> bytes" where "IYUYV2RGB_8 = eight 4 IYUYV2RGB_2"
definition IYUYV2RGBX_8 :: "bytes \<Rightarrow> nat \<Rightarrow> bytes" where "IYUYV2RGBX_8 = eight 4 IYUYV2RGBX_2"
definition IYUYV2BGR_8 :: "bytes \<Rightarrow> nat \<Rightarrow> bytes" where "IYUYV2BGR_8 p ax = eight 4 (IYUYV2BGR_2 ax) p ax"
definition IUYVY2RGB_8 :: "bytes \<Rightarrow> nat \<Rightarrow> bytes" where "IUYVY2RGB_8 = eight 4 IUYVY2RGB_2"
definition IUYVY2RGBX_8 :: "bytes \<Rightarrow> nat \<Rightarrow> bytes" where "IUYVY2RGBX_8 = eight 4 IUYVY2RGBX_2"
definition IUYVY2BGR_8 :: "bytes \<Rightarrow> nat \<Rightarrow> bytes" where "IUYVY2BGR_8 = eight 4 IUYVY2BGR_2"

section \<open>The conversion loops\<close>

text \<open>
  Groups of eight pixels from \<open>p\<close> to \<open>q\<close>, while both lie inside their buffers and, when the loop goes by rows of
  \<open>ww\<close> pixels, the row has not ended.
\<close>

function convert_run ::
  "pixel \<Rightarrow> pixel \<Rightarrow> (bytes \<Rightarrow> nat \<Rightarrow> bytes) \<Rightarrow> bytes \<Rightarrow> nat option \<Rightarrow> nat \<Rightarrow> nat \<Rightarrow> nat \<Rightarrow> bytes \<Rightarrow> bytes option" where
  "convert_run fi fo group8 src ww w p q dst =
     (if q + pixel_bytes fo * 8 \<le> length dst \<and> p + pixel_bytes fi * 8 \<le> length src \<and>
         (case ww of None \<Rightarrow> True | Some n \<Rightarrow> w < n)
      then do {
        dst \<leftarrow> need (p + pixel_bytes fi * 8) src (mem_write q (group8 src p) dst);
        convert_run fi fo group8 src ww (w + 8) (p + pixel_bytes fi * 8) (q + pixel_bytes fo * 8) dst }
      else Some dst)"
  by pat_completeness auto
termination
proof (relation "measure (\<lambda>(fi, fo, group8, src, ww, w, p, q, dst). length src - p)", goal_cases)
  case (2 fi fo group8 src ww w p q dst dst')
  then show ?case
    using pixel_bytes_pos [of fi] by (elim conjE) simp
qed simp

declare convert_run.simps [simp del]

text \<open>Rows \<open>h\<close> to \<open>hh - 1\<close>.\<close>

fun convert_rows ::
  "pixel \<Rightarrow> pixel \<Rightarrow> (bytes \<Rightarrow> nat \<Rightarrow> bytes) \<Rightarrow> bytes \<Rightarrow> nat \<Rightarrow> nat \<Rightarrow> nat \<Rightarrow> nat list \<Rightarrow> bytes \<Rightarrow> bytes option" where
  "convert_rows fi fo group8 src ww istep ostep [] dst = Some dst"
| "convert_rows fi fo group8 src ww istep ostep (h # hs) dst = do {
     dst \<leftarrow> convert_run fi fo group8 src (Some ww) 0 (istep * h) (ostep * h) dst;
     convert_rows fi fo group8 src ww istep ostep hs dst }"

definition convert ::
  "(nat \<Rightarrow> u8) \<Rightarrow> pixel \<Rightarrow> pixel \<Rightarrow> (bytes \<Rightarrow> nat \<Rightarrow> bytes) \<Rightarrow> library_frame \<Rightarrow> library_frame \<Rightarrow> (int \<times> library_frame) option" where
  "convert fill fi fo group8 inp out =
     (if fm_format inp \<noteq> pixel_format fi then Some (UVC_ERROR_INVALID_PARAM, out)
      else case uvc_ensure_frame_size fill (unat (fm_width inp * fm_height inp * of_nat (pixel_bytes fo))) out of (ret, out) \<Rightarrow>
        if ret < 0 then Some (UVC_ERROR_NO_MEM, out)
        else let out = out\<lparr>fm_width := fm_width inp, fm_height := fm_height inp, fm_format := pixel_format fo,
                   fm_step := (if library_owns_data out then unat (fm_width inp * of_nat (pixel_bytes fo)) else fm_step out),
                   fm_sequence := fm_sequence inp\<rparr>
          in do {
            data \<leftarrow> (if fm_step inp \<noteq> 0 \<and> fm_step out \<noteq> 0 \<and> fm_step inp \<noteq> fm_step out
              then convert_rows fi fo group8 (fm_data inp) (min (unat (fm_width inp)) (unat (fm_width out))) (fm_step inp)
                (fm_step out) [0..<min (unat (fm_height inp)) (unat (fm_height out))] (fm_data out)
              else convert_run fi fo group8 (fm_data inp) None 0 0 0 (fm_data out));
            Some (UVC_SUCCESS, out\<lparr>fm_data := data\<rparr>) })"

section \<open>The conversions\<close>

type_synonym conversion = "library_frame \<Rightarrow> library_frame \<Rightarrow> (int \<times> library_frame) option"

definition uvc_rgb2rgbx :: "(nat \<Rightarrow> u8) \<Rightarrow> conversion" where
  "uvc_rgb2rgbx fill = convert fill PIXEL_RGB PIXEL_RGBX RGB2RGBX_8"

definition uvc_rgb2rgb565 :: "(nat \<Rightarrow> u8) \<Rightarrow> conversion" where
  "uvc_rgb2rgb565 fill = convert fill PIXEL_RGB PIXEL_RGB565 RGB2RGB565_8"

definition uvc_yuyv2rgb :: "(nat \<Rightarrow> u8) \<Rightarrow> conversion" where
  "uvc_yuyv2rgb fill = convert fill PIXEL_YUYV PIXEL_RGB IYUYV2RGB_8"

definition uvc_yuyv2rgb565 :: "(nat \<Rightarrow> u8) \<Rightarrow> conversion" where
  "uvc_yuyv2rgb565 fill = convert fill PIXEL_YUYV PIXEL_RGB565 (\<lambda>p ax. RGB2RGB565_8 (IYUYV2RGB_8 p ax) 0)"

definition uvc_yuyv2rgbx :: "(nat \<Rightarrow> u8) \<Rightarrow> conversion" where
  "uvc_yuyv2rgbx fill = convert fill PIXEL_YUYV PIXEL_RGBX IYUYV2RGBX_8"

definition uvc_yuyv2bgr :: "(nat \<Rightarrow> u8) \<Rightarrow> conversion" where
  "uvc_yuyv2bgr fill = convert fill PIXEL_YUYV PIXEL_BGR IYUYV2BGR_8"

definition uvc_uyvy2rgb :: "(nat \<Rightarrow> u8) \<Rightarrow> conversion" where
  "uvc_uyvy2rgb fill = convert fill PIXEL_UYVY PIXEL_RGB IUYVY2RGB_8"

definition uvc_uyvy2rgb565 :: "(nat \<Rightarrow> u8) \<Rightarrow> conversion" where
  "uvc_uyvy2rgb565 fill = convert fill PIXEL_UYVY PIXEL_RGB565 (\<lambda>p ax. RGB2RGB565_8 (IUYVY2RGB_8 p ax) 0)"

definition uvc_uyvy2rgbx :: "(nat \<Rightarrow> u8) \<Rightarrow> conversion" where
  "uvc_uyvy2rgbx fill = convert fill PIXEL_UYVY PIXEL_RGBX IUYVY2RGBX_8"

definition uvc_uyvy2bgr :: "(nat \<Rightarrow> u8) \<Rightarrow> conversion" where
  "uvc_uyvy2bgr fill = convert fill PIXEL_UYVY PIXEL_BGR IUYVY2BGR_8"

text \<open>One pair of rows of a YUYV frame, four pixels in each round, from \<open>yuv\<close> to the two rows of luminances and the
  chrominances of the upper row; \<open>order\<close> lists the offsets of the chrominances in their order.\<close>

function sp_row ::
  "nat list \<Rightarrow> bytes \<Rightarrow> nat \<Rightarrow> nat \<Rightarrow> nat \<Rightarrow> nat \<Rightarrow> nat \<Rightarrow> nat \<Rightarrow> nat \<Rightarrow> bytes \<Rightarrow> (nat \<times> bytes) option" where
  "sp_row order src src_width width w yuv y0 y1 uv dst =
     (if w < width then do {
        dst \<leftarrow> need (yuv + 8) src (mem_write y0 (map (\<lambda>i. src ! (yuv + i)) [0, 2, 4, 6]) dst);
        dst \<leftarrow> mem_write uv (map (\<lambda>i. src ! (yuv + i)) order) dst;
        dst \<leftarrow> need (yuv + src_width + 7) src (mem_write y1 (map (\<lambda>i. src ! (yuv + src_width + i)) [0, 2, 4, 6]) dst);
        sp_row order src src_width width (w + 4) (yuv + 8) (y0 + 4) (y1 + 4) (uv + 4) dst }
      else Some (uv, dst))"
  by pat_completeness auto
termination
  by (relation "measure (\<lambda>(_, _, _, width, w, _). width - w)") auto

declare sp_row.simps [simp del]

function sp_rows :: "nat list \<Rightarrow> bytes \<Rightarrow> nat \<Rightarrow> nat \<Rightarrow> nat \<Rightarrow> nat \<Rightarrow> nat \<Rightarrow> bytes \<Rightarrow> bytes option" where
  "sp_rows order src src_width width limit h uv dst =
     (if h < limit then do {
        (uv, dst) \<leftarrow> sp_row order src src_width width 0 (src_width * h) (width * h) (width * h + width) uv dst;
        sp_rows order src src_width width limit (h + 2) uv dst }
      else Some dst)"
  by pat_completeness auto
termination
  by (relation "measure (\<lambda>(_, _, _, _, limit, h, _). limit - h)") auto

declare sp_rows.simps [simp del]

definition yuyv2sp :: "nat list \<Rightarrow> (nat \<Rightarrow> u8) \<Rightarrow> conversion" where
  "yuyv2sp order fill inp out =
     (if fm_format inp \<noteq> FORMAT_YUYV then Some (UVC_ERROR_INVALID_PARAM, out)
      else case uvc_ensure_frame_size fill (unat ((fm_width inp * fm_height inp * 3) div 2)) out of (ret, out) \<Rightarrow>
        if ret < 0 then Some (UVC_ERROR_NO_MEM, out)
        else let out = out\<lparr>fm_width := fm_width inp, fm_step := unat (fm_width inp), fm_height := fm_height inp\<rparr>;
                 width = unat (fm_width inp); hh = min (fm_height inp) (fm_height out)
          in do {
            data \<leftarrow> sp_rows order (fm_data inp) (fm_step inp) width (unat (hh - 1)) 0 (width * unat (fm_height out)) (fm_data out);
            Some (UVC_SUCCESS, out\<lparr>fm_data := data\<rparr>) })"

definition uvc_yuyv2yuv420SP :: "(nat \<Rightarrow> u8) \<Rightarrow> conversion" where
  "uvc_yuyv2yuv420SP = yuyv2sp [1, 3, 5, 7]"

definition uvc_yuyv2iyuv420SP :: "(nat \<Rightarrow> u8) \<Rightarrow> conversion" where
  "uvc_yuyv2iyuv420SP = yuyv2sp [3, 1, 7, 5]"

section \<open>Any format\<close>

type_synonym decoder = "uvc_frame_format \<Rightarrow> conversion"

definition uvc_any2rgb565 :: "decoder \<Rightarrow> (nat \<Rightarrow> u8) \<Rightarrow> conversion" where
  "uvc_any2rgb565 mjpeg fill inp out = (case fm_format inp of
       FORMAT_MJPEG \<Rightarrow> mjpeg FORMAT_RGB565 inp out
     | FORMAT_YUYV \<Rightarrow> uvc_yuyv2rgb565 fill inp out
     | FORMAT_UYVY \<Rightarrow> uvc_uyvy2rgb565 fill inp out
     | FORMAT_RGB565 \<Rightarrow> uvc_duplicate_frame fill inp out
     | FORMAT_RGB \<Rightarrow> uvc_rgb2rgb565 fill inp out
     | _ \<Rightarrow> Some (UVC_ERROR_NOT_SUPPORTED, out))"

definition uvc_any2rgb :: "decoder \<Rightarrow> (nat \<Rightarrow> u8) \<Rightarrow> conversion" where
  "uvc_any2rgb mjpeg fill inp out = (case fm_format inp of
       FORMAT_MJPEG \<Rightarrow> mjpeg FORMAT_RGB inp out
     | FORMAT_YUYV \<Rightarrow> uvc_yuyv2rgb fill inp out
     | FORMAT_UYVY \<Rightarrow> uvc_uyvy2rgb fill inp out
     | FORMAT_RGB \<Rightarrow> uvc_duplicate_frame fill inp out
     | _ \<Rightarrow> Some (UVC_ERROR_NOT_SUPPORTED, out))"

definition uvc_any2bgr :: "decoder \<Rightarrow> (nat \<Rightarrow> u8) \<Rightarrow> conversion" where
  "uvc_any2bgr mjpeg fill inp out = (case fm_format inp of
       FORMAT_MJPEG \<Rightarrow> mjpeg FORMAT_BGR inp out
     | FORMAT_YUYV \<Rightarrow> uvc_yuyv2bgr fill inp out
     | FORMAT_UYVY \<Rightarrow> uvc_uyvy2bgr fill inp out
     | FORMAT_BGR \<Rightarrow> uvc_duplicate_frame fill inp out
     | _ \<Rightarrow> Some (UVC_ERROR_NOT_SUPPORTED, out))"

definition uvc_any2rgbx :: "decoder \<Rightarrow> (nat \<Rightarrow> u8) \<Rightarrow> conversion" where
  "uvc_any2rgbx mjpeg fill inp out = (case fm_format inp of
       FORMAT_MJPEG \<Rightarrow> mjpeg FORMAT_RGBX inp out
     | FORMAT_YUYV \<Rightarrow> uvc_yuyv2rgbx fill inp out
     | FORMAT_UYVY \<Rightarrow> uvc_uyvy2rgbx fill inp out
     | FORMAT_RGBX \<Rightarrow> uvc_duplicate_frame fill inp out
     | FORMAT_RGB \<Rightarrow> uvc_rgb2rgbx fill inp out
     | _ \<Rightarrow> Some (UVC_ERROR_NOT_SUPPORTED, out))"

definition uvc_any2yuyv :: "decoder \<Rightarrow> (nat \<Rightarrow> u8) \<Rightarrow> conversion" where
  "uvc_any2yuyv mjpeg fill inp out = (case fm_format inp of
       FORMAT_MJPEG \<Rightarrow> mjpeg FORMAT_YUYV inp out
     | FORMAT_YUYV \<Rightarrow> uvc_duplicate_frame fill inp out
     | _ \<Rightarrow> Some (UVC_ERROR_NOT_SUPPORTED, out))"

definition uvc_any2yuv420SP :: "decoder \<Rightarrow> (nat \<Rightarrow> u8) \<Rightarrow> library_frame \<Rightarrow> conversion" where
  "uvc_any2yuv420SP mjpeg fill old inp out = do {
     (result, yuv) \<leftarrow> uvc_any2yuyv mjpeg fill inp (uvc_allocate_frame fill old (unat ((fm_width inp * fm_height inp * 3) div 2)));
     (if result = 0 then uvc_yuyv2yuv420SP fill yuv out else Some (result, out)) }"

definition uvc_any2iyuv420SP :: "decoder \<Rightarrow> (nat \<Rightarrow> u8) \<Rightarrow> library_frame \<Rightarrow> conversion" where
  "uvc_any2iyuv420SP mjpeg fill old inp out = do {
     (result, yuv) \<leftarrow> uvc_any2yuyv mjpeg fill inp (uvc_allocate_frame fill old (unat ((fm_width inp * fm_height inp * 3) div 2)));
     (if result = 0 then uvc_yuyv2iyuv420SP fill yuv out else Some (result, out)) }"

end
