(* ===== verification/Uvc_Convert.thy ===== *)
theory Uvc_Convert
  imports Uvc_Frame
begin

text \<open>
  What the conversions of \<open>Uvc_Frame\<close> compute: none of them leaves its buffers, and on packed frames whose width is a multiple of
  eight (four for the semi-planar ones) the result is that of a conversion pixel pair by pixel pair.
\<close>

section \<open>Writing in place\<close>

lemma mem_write_at:
  "length A = q \<Longrightarrow> length M = length X \<Longrightarrow> mem_write q X (A @ M @ B) = Some (A @ X @ B)"
  by (simp add: mem_write_def)

lemma concat_map_Suc: "concat (map f [0..<Suc k]) = f 0 @ concat (map (\<lambda>i. f (Suc i)) [0..<k])"
  by (simp add: map_upt_Suc del: upt_Suc)

lemma concat_blocks:
  "concat (map (\<lambda>h. concat (map (\<lambda>i. f (h * k + i)) [0..<k])) [0..<n]) = concat (map f [0..<n * k])"
proof (induction n)
  case (Suc n)
  have "[0..<Suc n * k] = [0..<n * k] @ map (\<lambda>i. n * k + i) [0..<k]"
    using upt_add_eq_append [of 0 "n * k" k] by (simp add: map_add_upt add.commute)
  with Suc show ?case
    by (simp add: comp_def)
qed simp

section \<open>The loops\<close>

lemma convert_run_safe:
  assumes "\<And>p. length (group8 src p) = pixel_bytes fo * 8"
  shows "\<exists>dst'. convert_run fi fo group8 src ww w p q dst = Some dst' \<and> length dst' = length dst"
  using assms
proof (induction fi fo group8 src ww w p q dst rule: convert_run.induct)
  case (1 fi fo group8 src ww w p q dst)
  show ?case
  proof (cases "q + pixel_bytes fo * 8 \<le> length dst \<and> p + pixel_bytes fi * 8 \<le> length src \<and>
      (case ww of None \<Rightarrow> True | Some n \<Rightarrow> w < n)")
    case True
    then obtain d where d: "mem_write q (group8 src p) dst = Some d" "length d = length dst"
      using 1(2) by (metis mem_write_ok mem_write_length)
    then show ?thesis
      using 1 True by (subst convert_run.simps) auto
  next
    case False
    then show ?thesis
      by (subst convert_run.simps) auto
  qed
qed

lemma convert_run_exact:
  assumes "\<And>p. length (group8 src p) = pixel_bytes fo * 8"
    and "length A = q" and "length M = k * (pixel_bytes fo * 8)" and "p + k * (pixel_bytes fi * 8) \<le> length src"
    and "ww = Some (w + 8 * k) \<or> ww = None \<and> B = []"
  shows "convert_run fi fo group8 src ww w p q (A @ M @ B) =
    Some (A @ concat (map (\<lambda>i. group8 src (p + i * (pixel_bytes fi * 8))) [0..<k]) @ B)"
  using assms(2-)
proof (induction k arbitrary: w p q A M)
  case 0
  then show ?case
    using pixel_bytes_pos [of fo] by (subst convert_run.simps) auto
next
  case (Suc k)
  let ?fi = "pixel_bytes fi * 8" and ?fo = "pixel_bytes fo * 8"
  define M1 M2 where "M1 = take ?fo M" and "M2 = drop ?fo M"
  have M: "M = M1 @ M2" "length M1 = ?fo" "length M2 = k * ?fo"
    using Suc.prems(2) by (simp_all add: M1_def M2_def)
  have enough: "p + ?fi \<le> length src" "p + ?fi + k * ?fi \<le> length src"
    using Suc.prems(3) by simp_all
  have "mem_write q (group8 src p) (A @ M @ B) = Some (A @ group8 src p @ M2 @ B)"
    using mem_write_at [of A q M1 "group8 src p" "M2 @ B"] Suc.prems(1) M assms(1) by simp
  moreover have "convert_run fi fo group8 src ww (w + 8) (p + ?fi) (q + ?fo) ((A @ group8 src p) @ M2 @ B) =
      Some ((A @ group8 src p) @ concat (map (\<lambda>i. group8 src (p + ?fi + i * ?fi)) [0..<k]) @ B)"
    using Suc.prems M enough assms(1) by (intro Suc.IH) auto
  moreover have "case ww of None \<Rightarrow> True | Some n \<Rightarrow> w < n"
    using Suc.prems(4) by (auto split: option.split)
  ultimately show ?case
    using Suc.prems M enough unfolding concat_map_Suc by (subst convert_run.simps) (simp add: add.assoc)
qed

lemma convert_rows_exact:
  assumes "\<And>p. length (group8 src p) = pixel_bytes fo * 8"
    and "istep = k * (pixel_bytes fi * 8)" and "ostep = k * (pixel_bytes fo * 8)" and "(h + n) * istep \<le> length src"
    and "length A = h * ostep" and "length M = n * ostep"
  shows "convert_rows fi fo group8 src (8 * k) istep ostep [h..<h + n] (A @ M) =
    Some (A @ concat (map (\<lambda>h. concat (map (\<lambda>i. group8 src ((h * k + i) * (pixel_bytes fi * 8))) [0..<k])) [h..<h + n]))"
  using assms(4-)
proof (induction n arbitrary: h A M)
  case (Suc n)
  let ?row = "concat (map (\<lambda>i. group8 src ((h * k + i) * (pixel_bytes fi * 8))) [0..<k])"
  define M1 M2 where "M1 = take ostep M" and "M2 = drop ostep M"
  have M: "M = M1 @ M2" "length M1 = ostep" "length M2 = n * ostep"
    using Suc.prems(3) by (simp_all add: M1_def M2_def)
  have "istep * h + k * (pixel_bytes fi * 8) \<le> length src"
    using Suc.prems(1) assms(2) by (simp add: algebra_simps)
  then have "convert_run fi fo group8 src (Some (8 * k)) 0 (istep * h) (ostep * h) (A @ M1 @ M2) =
      Some (A @ concat (map (\<lambda>i. group8 src (istep * h + i * (pixel_bytes fi * 8))) [0..<k]) @ M2)"
    using Suc.prems(2) M assms(1,3) by (intro convert_run_exact) (auto simp: mult.commute)
  also have "(\<lambda>i. group8 src (istep * h + i * (pixel_bytes fi * 8))) = (\<lambda>i. group8 src ((h * k + i) * (pixel_bytes fi * 8)))"
    using assms(2) by (simp add: algebra_simps)
  finally have row: "convert_run fi fo group8 src (Some (8 * k)) 0 (istep * h) (ostep * h) (A @ M1 @ M2) = Some (A @ ?row @ M2)" .
  have "length ?row = ostep"
    using assms(1,3) by (simp add: length_concat comp_def sum_list_triv)
  then have "convert_rows fi fo group8 src (8 * k) istep ostep [Suc h..<Suc h + n] ((A @ ?row) @ M2) =
      Some ((A @ ?row) @ concat (map (\<lambda>h. concat (map (\<lambda>i. group8 src ((h * k + i) * (pixel_bytes fi * 8))) [0..<k])) [Suc h..<Suc h + n]))"
    using Suc.prems M by (intro Suc.IH) (auto simp: algebra_simps)
  moreover have "[h..<h + Suc n] = h # [Suc h..<Suc h + n]"
    by (simp add: upt_conv_Cons del: upt_Suc)
  ultimately show ?case
    using row M(1) by (simp del: upt_Suc)
qed simp

section \<open>Packed frames\<close>

text \<open>A frame of pixels \<open>px\<close> without padding, small enough for its size in bytes to be computed without wrapping.\<close>

definition packed :: "pixel \<Rightarrow> library_frame \<Rightarrow> bool" where
  "packed px f \<longleftrightarrow> fm_format f = pixel_format px \<and> fm_step f = unat (fm_width f) * pixel_bytes px \<and>
     length (fm_data f) = unat (fm_height f) * fm_step f \<and> fm_width f \<noteq> 0 \<and> fm_height f \<noteq> 0 \<and>
     unat (fm_width f) * unat (fm_height f) * 4 < 2 ^ 32"

lemma pixel_bytes_le_4: "pixel_bytes px \<le> 4"
  by (cases px) simp_all

lemma ensure_owned:
  assumes "library_owns_data out" and "0 < n"
  obtains out' where "uvc_ensure_frame_size fill n out = (UVC_SUCCESS, out')" "length (fm_data out') = n" "library_owns_data out'"
    "fm_format out' = fm_format out" "fm_sequence out' = fm_sequence out"
proof (cases "fm_data out = [] \<or> length (fm_data out) \<noteq> n")
  case True
  with assms that show ?thesis
    by (simp add: uvc_ensure_frame_size_def)
next
  case False
  with assms that show ?thesis
    by (simp add: uvc_ensure_frame_size_def)
qed

lemma unat_mult_small: "unat x * unat y < 2 ^ 32 \<Longrightarrow> unat (x * y :: u32) = unat x * unat y"
  by (simp add: unat_word_ariths)

lemma packed_bytes:
  fixes w h :: u32
  assumes "unat w * unat h * 4 < 2 ^ 32" and "h \<noteq> 0"
  shows "unat (w * h * of_nat (pixel_bytes px)) = unat w * unat h * pixel_bytes px"
    and "unat (w * of_nat (pixel_bytes px)) = unat w * pixel_bytes px"
proof -
  have px: "unat (of_nat (pixel_bytes px) :: u32) = pixel_bytes px"
    by (cases px) simp_all
  have le: "unat w * unat h * pixel_bytes px \<le> unat w * unat h * 4"
    using pixel_bytes_le_4 by simp
  have "0 < unat h"
    using assms(2) by (simp add: unat_gt_0)
  then have "unat w * pixel_bytes px \<le> unat w * unat h * pixel_bytes px"
    by simp
  with le assms(1) have fits: "unat w * pixel_bytes px < 2 ^ 32" "unat w * unat h * pixel_bytes px < 2 ^ 32" "unat w * unat h < 2 ^ 32"
    by linarith+
  then have "unat (w * h) = unat w * unat h"
    by (intro unat_mult_small)
  with fits show "unat (w * h * of_nat (pixel_bytes px)) = unat w * unat h * pixel_bytes px"
    using unat_mult_small [of "w * h" "of_nat (pixel_bytes px)"] px by simp
  show "unat (w * of_nat (pixel_bytes px)) = unat w * pixel_bytes px"
    using fits unat_mult_small [of w "of_nat (pixel_bytes px)"] px by simp
qed

lemma convert_exact:
  assumes group8: "\<And>p ax. length (group8 p ax) = pixel_bytes fo * 8"
    and "packed fi inp" and "unat (fm_width inp) = 8 * k" and "library_owns_data out"
  shows "\<exists>out'. convert fill fi fo group8 inp out = Some (UVC_SUCCESS, out') \<and> packed fo out' \<and>
    fm_width out' = fm_width inp \<and> fm_height out' = fm_height inp \<and> library_owns_data out' \<and>
    fm_data out' = concat (map (\<lambda>g. group8 (fm_data inp) (g * (pixel_bytes fi * 8))) [0..<unat (fm_height inp) * k])"
proof -
  let ?H = "unat (fm_height inp)" and ?src = "fm_data inp" and ?bi = "pixel_bytes fi * 8" and ?bo = "pixel_bytes fo * 8"
  let ?data = "concat (map (\<lambda>g. group8 ?src (g * ?bi)) [0..<?H * k])"
  have p: "fm_format inp = pixel_format fi" "fm_step inp = k * ?bi" "length ?src = ?H * (k * ?bi)" "fm_width inp \<noteq> 0"
    "fm_height inp \<noteq> 0" "unat (fm_width inp) * ?H * 4 < 2 ^ 32"
    using assms(2,3) by (simp_all add: packed_def)
  note size = packed_bytes [OF p(6,5), of fo]
  have step: "unat (fm_width inp * of_nat (pixel_bytes fo)) = k * ?bo"
    using size(2) assms(3) by simp
  have pos: "0 < k" "0 < ?H"
    using p(4,5) assms(3) by (simp_all add: unat_gt_0 [symmetric])
  have need: "unat (fm_width inp * fm_height inp * of_nat (pixel_bytes fo)) = ?H * (k * ?bo)"
    using size(1) assms(3) by simp
  moreover have "0 < ?H * (k * ?bo)"
    using pos pixel_bytes_pos [of fo] by simp
  ultimately obtain o1 where ens: "uvc_ensure_frame_size fill (unat (fm_width inp * fm_height inp * of_nat (pixel_bytes fo))) out = (UVC_SUCCESS, o1)"
    "length (fm_data o1) = ?H * (k * ?bo)" "library_owns_data o1"
    using ensure_owned [OF assms(4)] by metis
  have len: "length ?data = ?H * (k * ?bo)"
    using group8 by (simp add: length_concat comp_def sum_list_triv)
  have rows: "convert_rows fi fo group8 ?src (8 * k) (k * ?bi) (k * ?bo) [0..<?H] (fm_data o1) = Some ?data"
    using convert_rows_exact [of group8 ?src fo "k * ?bi" k fi "k * ?bo" 0 ?H "[]" "fm_data o1"] group8 ens(2) p(3)
      concat_blocks [of "\<lambda>g. group8 ?src (g * ?bi)" k ?H]
    by simp
  have run: "convert_run fi fo group8 ?src None 0 0 0 (fm_data o1) = Some ?data"
    using convert_run_exact [of group8 ?src fo "[]" 0 "fm_data o1" "?H * k" 0 fi None 0 "[]"] group8 ens(2) p(3)
    by simp
  let ?o = "o1\<lparr>fm_width := fm_width inp, fm_height := fm_height inp, fm_format := pixel_format fo, fm_step := k * ?bo,
    fm_sequence := fm_sequence inp, fm_data := ?data\<rparr>"
  have "convert fill fi fo group8 inp out = Some (UVC_SUCCESS, ?o)"
    using p ens step rows run assms(3) pos by (simp add: convert_def Let_def)
  moreover have "packed fo ?o"
    using p len assms(3) by (simp add: packed_def)
  ultimately show ?thesis
    using ens(3) by (intro exI [of _ ?o]) simp
qed

section \<open>Pixel pair by pixel pair\<close>

lemma length_two:
  "length (RGB2RGBX_2 p ax) = 8" "length (RGB2RGB565_2 p ax) = 4" "length (IYUYV2RGB_2 p ax) = 6"
  "length (IYUYV2RGBX_2 p ax) = 8" "length (IYUYV2BGR_2 gx p ax) = 6" "length (IUYVY2RGB_2 p ax) = 6"
  "length (IUYVY2RGBX_2 p ax) = 8" "length (IUYVY2BGR_2 p ax) = 6"
  by (simp_all add: RGB2RGBX_2_def RGB2RGB565_2_def IYUYV2RGB_2_def IYUYV2RGBX_2_def IYUYV2BGR_2_def IUYVY2RGB_2_def
      IUYVY2RGBX_2_def IUYVY2BGR_2_def Let_def)

lemma eight_pairs: "eight n two p ax = concat (map (\<lambda>i. two p (ax + i * n)) [0..<4])"
  by (simp add: eight_def upt_rec numeral_eq_Suc)

lemma RGB2RGB565_shift:
  "RGB2RGB565_2 (xs @ ys) (length xs) = RGB2RGB565_2 ys 0"
  "length xs = 6 \<Longrightarrow> RGB2RGB565_2 (xs @ ys) 0 = RGB2RGB565_2 xs 0"
  by (simp_all add: RGB2RGB565_2_def nth_append numeral_2_eq_2)

lemma eight_565:
  assumes "\<And>ax. length (two p ax) = 6"
  shows "RGB2RGB565_8 (eight n two p ax) 0 = eight n (\<lambda>p ax. RGB2RGB565_2 (two p ax) 0) p ax"
proof -
  have "RGB2RGB565_2 (a @ b @ c @ d) 6 = RGB2RGB565_2 b 0" "RGB2RGB565_2 (a @ b @ c @ d) 12 = RGB2RGB565_2 c 0"
    "RGB2RGB565_2 (a @ b @ c @ d) 18 = RGB2RGB565_2 d 0"
    if "length a = 6" "length b = 6" "length c = 6" "length d = 6" for a b c d
    using that RGB2RGB565_shift(1) [of a "b @ c @ d"] RGB2RGB565_shift(1) [of "a @ b" "c @ d"]
      RGB2RGB565_shift(1) [of "a @ b @ c" d] by (simp_all add: RGB2RGB565_shift(2))
  then show ?thesis
    using assms by (simp add: eight_def RGB2RGB565_8_def RGB2RGB565_shift(2))
qed

text \<open>The conversions with the pixels they go between and what they make of two pixels.\<close>

definition conversions :: "(nat \<Rightarrow> u8) \<Rightarrow> (conversion \<times> pixel \<times> pixel \<times> (bytes \<Rightarrow> nat \<Rightarrow> bytes)) list" where
  "conversions fill = [
     (uvc_rgb2rgbx fill, PIXEL_RGB, PIXEL_RGBX, RGB2RGBX_2),
     (uvc_rgb2rgb565 fill, PIXEL_RGB, PIXEL_RGB565, RGB2RGB565_2),
     (uvc_yuyv2rgb fill, PIXEL_YUYV, PIXEL_RGB, IYUYV2RGB_2),
     (uvc_yuyv2rgb565 fill, PIXEL_YUYV, PIXEL_RGB565, \<lambda>p ax. RGB2RGB565_2 (IYUYV2RGB_2 p ax) 0),
     (uvc_yuyv2rgbx fill, PIXEL_YUYV, PIXEL_RGBX, IYUYV2RGBX_2),
     (uvc_uyvy2rgb fill, PIXEL_UYVY, PIXEL_RGB, IUYVY2RGB_2),
     (uvc_uyvy2rgb565 fill, PIXEL_UYVY, PIXEL_RGB565, \<lambda>p ax. RGB2RGB565_2 (IUYVY2RGB_2 p ax) 0),
     (uvc_uyvy2rgbx fill, PIXEL_UYVY, PIXEL_RGBX, IUYVY2RGBX_2),
     (uvc_uyvy2bgr fill, PIXEL_UYVY, PIXEL_BGR, IUYVY2BGR_2)]"

lemma conversions_convert:
  "(conv, fi, fo, two) \<in> set (conversions fill) \<Longrightarrow>
   conv = convert fill fi fo (eight (2 * pixel_bytes fi) two) \<and> (\<forall>p ax. length (two p ax) = 2 * pixel_bytes fo)"
  by (auto simp: conversions_def uvc_rgb2rgbx_def uvc_rgb2rgb565_def uvc_yuyv2rgb_def uvc_yuyv2rgb565_def uvc_yuyv2rgbx_def
      uvc_uyvy2rgb_def uvc_uyvy2rgb565_def uvc_uyvy2rgbx_def uvc_uyvy2bgr_def RGB2RGBX_8_def IYUYV2RGB_8_def IYUYV2RGBX_8_def
      IUYVY2RGB_8_def IUYVY2RGBX_8_def IUYVY2BGR_8_def eight_565 length_two RGB2RGB565_8_def [symmetric]
      intro!: arg_cong [of _ _ "convert fill _ _"])

lemma groups_pairs:
  "concat (map (\<lambda>g. eight (2 * b) (two (g * (b * 8))) p (g * (b * 8))) [0..<n]) =
   concat (map (\<lambda>i. two (i div 4 * (b * 8)) p (i * (2 * b))) [0..<n * 4])"
proof -
  have "eight (2 * b) (two (g * (b * 8))) p (g * (b * 8)) =
      concat (map (\<lambda>i. two ((g * 4 + i) div 4 * (b * 8)) p ((g * 4 + i) * (2 * b))) [0..<4])" for g
    unfolding eight_pairs by (intro arg_cong [of _ _ concat] map_cong refl) (simp add: algebra_simps)
  then show ?thesis
    using concat_blocks [of "\<lambda>i. two (i div 4 * (b * 8)) p (i * (2 * b))" 4 n] by simp
qed

lemma conversion_pairs:
  assumes "(conv, fi, fo, two) \<in> set (conversions fill)" and "packed fi inp" and "8 dvd unat (fm_width inp)" and "library_owns_data out"
  shows "\<exists>out'. conv inp out = Some (UVC_SUCCESS, out') \<and> packed fo out' \<and> fm_width out' = fm_width inp \<and>
    fm_height out' = fm_height inp \<and>
    fm_data out' = concat (map (\<lambda>i. two (fm_data inp) (i * (2 * pixel_bytes fi)))
      [0..<unat (fm_height inp) * unat (fm_width inp) div 2])"
proof -
  from assms(3) obtain k where k: "unat (fm_width inp) = 8 * k" by auto
  note conv = conversions_convert [OF assms(1)]
  then have "\<And>p ax. length (eight (2 * pixel_bytes fi) two p ax) = pixel_bytes fo * 8"
    by (simp add: eight_def)
  from convert_exact [of "eight (2 * pixel_bytes fi) two" fo, OF this assms(2) k assms(4), of fill] conv show ?thesis
    using groups_pairs [of "pixel_bytes fi" "\<lambda>_. two" "fm_data inp" "unat (fm_height inp) * k"] k
    by (auto simp: mult.assoc mult.left_commute mult.commute [of 4])
qed

lemma yuyv2bgr_pairs:
  assumes "packed PIXEL_YUYV inp" and "8 dvd unat (fm_width inp)" and "library_owns_data out"
  shows "\<exists>out'. uvc_yuyv2bgr fill inp out = Some (UVC_SUCCESS, out') \<and> packed PIXEL_BGR out' \<and> fm_width out' = fm_width inp \<and>
    fm_height out' = fm_height inp \<and> fm_data out' = concat (map (\<lambda>i. IYUYV2BGR_2 (i div 4 * 16) (fm_data inp) (i * 4))
      [0..<unat (fm_height inp) * unat (fm_width inp) div 2])"
proof -
  from assms(2) obtain k where k: "unat (fm_width inp) = 8 * k" by auto
  have "\<And>p ax. length (IYUYV2BGR_8 p ax) = pixel_bytes PIXEL_BGR * 8"
    by (simp add: IYUYV2BGR_8_def eight_def length_two)
  from convert_exact [of IYUYV2BGR_8 PIXEL_BGR, OF this assms(1) k assms(3), of fill] show ?thesis
    using groups_pairs [of 2 IYUYV2BGR_2 "fm_data inp" "unat (fm_height inp) * k"] k
    by (auto simp: uvc_yuyv2bgr_def IYUYV2BGR_8_def mult.assoc mult.left_commute mult.commute [of 4])
qed

text \<open>YUYV to BGR takes the colour of all eight pixels of a group from the first pair of the group; only the brightness of the
  other six is their own.\<close>

theorem yuyv2bgr_smears_colour:
  assumes "packed PIXEL_YUYV inp" and "8 dvd unat (fm_width inp)" and "library_owns_data out"
  shows "\<exists>out'. uvc_yuyv2bgr fill inp out = Some (UVC_SUCCESS, out') \<and>
    fm_data out' = concat (map (\<lambda>i. IYUYV2BGR_2 (i div 4 * 16) (fm_data inp) (i * 4))
      [0..<unat (fm_height inp) * unat (fm_width inp) div 2])"
  using yuyv2bgr_pairs [OF assms, of fill] by blast

text \<open>All of them. The conversion of a pair also gets the number of its group of eight pixels, which only YUYV to BGR looks at.\<close>

definition all_conversions :: "(nat \<Rightarrow> u8) \<Rightarrow> (conversion \<times> pixel \<times> pixel \<times> (nat \<Rightarrow> bytes \<Rightarrow> nat \<Rightarrow> bytes)) list" where
  "all_conversions fill = (uvc_yuyv2bgr fill, PIXEL_YUYV, PIXEL_BGR, \<lambda>g. IYUYV2BGR_2 (g * 16)) #
     map (\<lambda>(conv, fi, fo, two). (conv, fi, fo, \<lambda>_. two)) (conversions fill)"

text \<open>C29. On a packed frame whose width is a multiple of eight, every packed conversion makes the packed frame one gets by converting each
  pair of pixels on its own: the loops over rows and groups of eight pixels, with their guards on both buffers, miss nothing and write
  nothing twice, whatever the buffer of the result held before. The pairs are independent but for YUYV to BGR, where a pair has the
  colour of the first pair of its group.\<close>

theorem conversions_pairwise:
  assumes "(conv, fi, fo, two) \<in> set (all_conversions fill)" and "packed fi inp" and "8 dvd unat (fm_width inp)" and "library_owns_data out"
  shows "\<exists>out'. conv inp out = Some (UVC_SUCCESS, out') \<and> packed fo out' \<and> fm_width out' = fm_width inp \<and>
    fm_height out' = fm_height inp \<and>
    fm_data out' = concat (map (\<lambda>i. two (i div 4) (fm_data inp) (i * (2 * pixel_bytes fi)))
      [0..<unat (fm_height inp) * unat (fm_width inp) div 2])"
proof -
  from assms(1) consider "conv = uvc_yuyv2bgr fill" "fi = PIXEL_YUYV" "fo = PIXEL_BGR" "two = (\<lambda>g. IYUYV2BGR_2 (g * 16))"
    | two' where "(conv, fi, fo, two') \<in> set (conversions fill)" "two = (\<lambda>_. two')"
    unfolding all_conversions_def by auto
  then show ?thesis
  proof cases
    case 1
    with yuyv2bgr_pairs [of inp out fill] assms(2-4) show ?thesis
      by simp
  next
    case 2
    with conversion_pairs [OF 2(1) assms(2-4)] show ?thesis
      by simp
  qed
qed

section \<open>Copies\<close>

text \<open>The buffer after the rows below \<open>i\<close> have been copied.\<close>

definition rows_done :: "nat \<Rightarrow> bytes \<Rightarrow> bytes \<Rightarrow> nat \<Rightarrow> bytes" where
  "rows_done n src dst i = take (i * n) src @ drop (i * n) dst"

lemma copy_row_next:
  assumes "0 < n" and "length src = hh * n" and "length dst = hh * n"
  shows "copy_row n src (i * n) (i * n) (rows_done n src dst i) = (if i < hh then Some (rows_done n src dst (Suc i)) else None)"
proof (cases "i < hh")
  case True
  have Suc: "Suc i * n = i * n + n"
    by simp
  have "Suc i * n \<le> hh * n"
    using True by (intro mult_le_mono1) simp
  with True assms show ?thesis
    unfolding Suc rows_done_def by (simp add: copy_row_def mem_write_def take_add add.commute [of n "i * n"])
next
  case False
  then have "hh * n < Suc i * n"
    using assms(1) by (intro mult_less_mono1) simp_all
  with False assms show ?thesis
    by (simp add: copy_row_def need_def add.commute)
qed

lemma duplicate_rows_iff:
  assumes "0 < n" and "length src = hh * n" and "length dst = hh * n" and "h \<le> hh"
  shows "duplicate_rows hh n n n src h (rows_done n src dst h) =
    (if 4 dvd (hh - h) then Some (rows_done n src dst hh) else None)"
  using assms(4)
proof (induction "hh - h" arbitrary: h rule: less_induct)
  case less
  note row = copy_row_next [OF assms(1-3)]
  show ?case
  proof (cases "h + 4 \<le> hh")
    case True
    then have "4 dvd (hh - h) \<longleftrightarrow> 4 dvd (hh - (h + 4))"
      using dvd_diff_nat [of 4 "hh - h" 4] dvd_add [of 4 "hh - (h + 4)" 4] by auto
    with True less.hyps [of "h + 4"] show ?thesis
      using row [of h] row [of "Suc h"] row [of "h + 2"] row [of "h + 3"]
      by (subst duplicate_rows.simps) (simp add: eval_nat_numeral)
  next
    case False
    then consider "hh = h" | "hh = h + 1" | "hh = h + 2" | "hh = h + 3"
      using less.prems by linarith
    then show ?thesis
      using row [of h] row [of "Suc h"] row [of "h + 2"] row [of "h + 3"]
      by cases (subst duplicate_rows.simps, simp add: eval_nat_numeral nat_dvd_not_less)+
  qed
qed

text \<open>A copy of a frame with rows is made in rounds of four rows and never looks at what is left: when the number of rows is a
  multiple of four the copy is the frame, and otherwise it reads and writes past the end of both buffers.\<close>

theorem duplicate_frame_iff:
  assumes "library_owns_data out" and "0 < fm_step inp" and "length (fm_data inp) = unat (fm_height inp) * fm_step inp"
    and "fm_height inp \<noteq> 0"
  shows "case uvc_duplicate_frame fill inp out of
      None \<Rightarrow> \<not> 4 dvd unat (fm_height inp)
    | Some (ret, out') \<Rightarrow> 4 dvd unat (fm_height inp) \<and> ret = UVC_SUCCESS \<and> out' = inp\<lparr>library_owns_data := True\<rparr>"
proof -
  let ?h = "unat (fm_height inp)" and ?n = "fm_step inp"
  have "0 < ?h"
    using assms(4) by (simp add: unat_gt_0)
  with assms(2) have "0 < ?h * ?n"
    by simp
  then obtain o1 where ens: "uvc_ensure_frame_size fill (length (fm_data inp)) out = (UVC_SUCCESS, o1)"
    "length (fm_data o1) = ?h * ?n" "library_owns_data o1"
    using ensure_owned [OF assms(1), of "?h * ?n"] assms(3) by metis
  have "duplicate_rows ?h ?n ?n ?n (fm_data inp) 0 (fm_data o1) = (if 4 dvd ?h then Some (fm_data inp) else None)"
    using duplicate_rows_iff [OF assms(2,3) ens(2), of 0] assms(3) ens(2) by (simp add: rows_done_def)
  with ens assms(2) show ?thesis
    by (simp add: uvc_duplicate_frame_def Let_def)
qed

section \<open>Semi-planar frames\<close>

text \<open>The bytes at the offsets \<open>offs\<close> of each of \<open>k\<close> groups of four pixels from \<open>p\<close> on.\<close>

definition samples :: "bytes \<Rightarrow> nat list \<Rightarrow> nat \<Rightarrow> nat \<Rightarrow> bytes" where
  "samples src offs p k = concat (map (\<lambda>g. map (\<lambda>i. src ! (p + 8 * g + i)) offs) [0..<k])"

lemma samples_0 [simp]: "samples src offs p 0 = []"
  by (simp add: samples_def)

lemma samples_Suc: "samples src offs p (Suc k) = map (\<lambda>i. src ! (p + i)) offs @ samples src offs (p + 8) k"
  unfolding samples_def concat_map_Suc by (simp add: add.assoc add.left_commute)

lemma length_samples [simp]: "length (samples src offs p k) = length offs * k"
  by (simp add: samples_def length_concat comp_def sum_list_triv)

lemma sp_row_exact:
  assumes "length order = 4"
    and "w + 4 * k = width" and "yuv + 8 * k \<le> length src" and "yuv + src_width + 8 * k \<le> length src"
    and "length A = y0" and "length A + length M0 + length P = y1" and "y1 + length M1 + length Q = uv"
    and "length M0 = 4 * k" "length M1 = 4 * k" "length U = 4 * k"
  shows "sp_row order src src_width width w yuv y0 y1 uv (A @ M0 @ P @ M1 @ Q @ U @ R) =
    Some (uv + 4 * k, A @ samples src [0, 2, 4, 6] yuv k @ P @ samples src [0, 2, 4, 6] (yuv + src_width) k @ Q @
      samples src order yuv k @ R)"
  using assms(2-)
proof (induction k arbitrary: w yuv y0 y1 uv A M0 P M1 Q U)
  case 0
  then show ?case
    by (subst sp_row.simps) simp
next
  case (Suc k)
  define N0 N1 V where "N0 = drop 4 M0" and "N1 = drop 4 M1" and "V = drop 4 U"
  define L0 L1 T where "L0 = take 4 M0" and "L1 = take 4 M1" and "T = take 4 U"
  have parts: "M0 = L0 @ N0" "M1 = L1 @ N1" "U = T @ V" "length L0 = 4" "length L1 = 4" "length T = 4"
    "length N0 = 4 * k" "length N1 = 4 * k" "length V = 4 * k"
    using Suc.prems(7-9) by (simp_all add: N0_def N1_def V_def L0_def L1_def T_def)
  let ?X = "map (\<lambda>i. src ! (yuv + i)) [0, 2, 4, 6]" and ?C = "map (\<lambda>i. src ! (yuv + i)) order"
    and ?Y = "map (\<lambda>i. src ! (yuv + src_width + i)) [0, 2, 4, 6]"
  have w1: "mem_write y0 ?X (A @ M0 @ P @ M1 @ Q @ U @ R) = Some (A @ ?X @ N0 @ P @ M1 @ Q @ U @ R)"
    using mem_write_at [of A y0 L0 ?X "N0 @ P @ M1 @ Q @ U @ R"] Suc.prems(4) parts by simp
  have w2: "mem_write uv ?C (A @ ?X @ N0 @ P @ M1 @ Q @ U @ R) = Some (A @ ?X @ N0 @ P @ M1 @ Q @ ?C @ V @ R)"
    using mem_write_at [of "A @ ?X @ N0 @ P @ M1 @ Q" uv T ?C "V @ R"] Suc.prems(4-9) parts assms(1) by simp
  have w3: "mem_write y1 ?Y (A @ ?X @ N0 @ P @ M1 @ Q @ ?C @ V @ R) = Some ((A @ ?X) @ N0 @ (P @ ?Y) @ N1 @ (Q @ ?C) @ V @ R)"
    using mem_write_at [of "A @ ?X @ N0 @ P" y1 L1 ?Y "N1 @ Q @ ?C @ V @ R"] Suc.prems(4-9) parts by simp
  have "sp_row order src src_width width (w + 4) (yuv + 8) (y0 + 4) (y1 + 4) (uv + 4) ((A @ ?X) @ N0 @ (P @ ?Y) @ N1 @ (Q @ ?C) @ V @ R) =
      Some (uv + 4 + 4 * k, (A @ ?X) @ samples src [0, 2, 4, 6] (yuv + 8) k @ (P @ ?Y) @
        samples src [0, 2, 4, 6] (yuv + 8 + src_width) k @ (Q @ ?C) @ samples src order (yuv + 8) k @ R)"
    using Suc.prems parts assms(1) by (intro Suc.IH) simp_all
  moreover have "yuv + 8 + src_width = yuv + src_width + 8"
    by simp
  moreover have "w < width"
    using Suc.prems(1) by simp
  moreover have "yuv + 8 \<le> length src" "yuv + src_width + 7 \<le> length src"
    using Suc.prems(2,3) by simp_all
  ultimately show ?case
    using w1 w2 w3 unfolding samples_Suc by (subst sp_row.simps) (simp del: list.map)
qed

lemma sp_rows_exact:
  assumes "length order = 4"
    and "width = 4 * k" and "0 < k" and "h + 2 * n = Suc limit" and "src_width * (h + 2 * n) \<le> length src" and "8 * k \<le> src_width"
    and "length A = width * h" and "length M = 2 * n * width" and "length U = n * width" and "uv = length A + length M + length C"
  shows "sp_rows order src src_width width limit h uv (A @ M @ C @ U) =
    Some (A @ concat (map (\<lambda>i. samples src [0, 2, 4, 6] (src_width * (h + 2 * i)) k @
        samples src [0, 2, 4, 6] (src_width * (h + 2 * i) + src_width) k) [0..<n]) @ C @
      concat (map (\<lambda>i. samples src order (src_width * (h + 2 * i)) k) [0..<n]))"
  using assms(4-)
proof (induction n arbitrary: h uv A M C U)
  case 0
  then show ?case
    by (subst sp_rows.simps) simp
next
  case (Suc n)
  define M0 M1 N where "M0 = take width M" and "M1 = take width (drop width M)" and "N = drop width (drop width M)"
  define T V where "T = take width U" and "V = drop width U"
  have "M = M0 @ M1 @ N"
    unfolding M0_def M1_def N_def by (metis append_take_drop_id)
  then have parts: "M = M0 @ M1 @ N" "U = T @ V" "length M0 = width" "length M1 = width" "length N = 2 * n * width"
    "length T = width" "length V = n * width"
    using Suc.prems(5,6)
    by (simp_all add: M0_def M1_def N_def T_def V_def)
  let ?L = "\<lambda>h. samples src [0, 2, 4, 6] (src_width * h) k" and ?L' = "\<lambda>h. samples src [0, 2, 4, 6] (src_width * h + src_width) k"
    and ?C = "\<lambda>h. samples src order (src_width * h) k"
  have "src_width * (h + 2) \<le> src_width * (h + 2 * Suc n)"
    by (intro mult_le_mono2) simp
  then have row: "src_width * h + src_width + 8 * k \<le> length src"
    using Suc.prems(2,3) by (simp add: algebra_simps)
  have "sp_row order src src_width width 0 (src_width * h) (width * h) (width * h + width) uv (A @ M0 @ [] @ M1 @ (N @ C) @ T @ V) =
      Some (uv + 4 * k, A @ ?L h @ [] @ ?L' h @ (N @ C) @ ?C h @ V)"
    using row assms(1,2) Suc.prems(4,7) parts by (intro sp_row_exact) simp_all
  moreover have "sp_rows order src src_width width limit (h + 2) (uv + 4 * k) ((A @ ?L h @ ?L' h) @ N @ (C @ ?C h) @ V) =
      Some ((A @ ?L h @ ?L' h) @ concat (map (\<lambda>i. ?L (h + 2 + 2 * i) @ ?L' (h + 2 + 2 * i)) [0..<n]) @ (C @ ?C h) @
        concat (map (\<lambda>i. ?C (h + 2 + 2 * i)) [0..<n]))"
    using Suc.prems assms(1,2) parts by (intro Suc.IH) (simp_all add: algebra_simps)
  moreover have "h < limit"
    using Suc.prems(1) by simp
  ultimately show ?case
    unfolding concat_map_Suc parts(1,2) by (subst sp_rows.simps) simp
qed

text \<open>The two conversions for video encoders: a packed YUYV frame whose width is a multiple of four and whose height is even becomes
  the plane of all luminances followed by the chrominances of every other row, in the order U V (or V U). Format and sequence number of
  the result are left as they were.\<close>

theorem semi_planar_exact:
  assumes "(conv, order) \<in> {(uvc_yuyv2yuv420SP fill, [1, 3, 5, 7]), (uvc_yuyv2iyuv420SP fill, [3, 1, 7, 5])}"
    and "packed PIXEL_YUYV inp" and "unat (fm_width inp) = 4 * k" and "unat (fm_height inp) = 2 * m" and "library_owns_data out"
  shows "\<exists>out'. conv inp out = Some (UVC_SUCCESS, out') \<and> fm_width out' = fm_width inp \<and> fm_height out' = fm_height inp \<and>
    fm_step out' = unat (fm_width inp) \<and> fm_format out' = fm_format out \<and> fm_sequence out' = fm_sequence out \<and>
    fm_data out' = concat (map (\<lambda>h. samples (fm_data inp) [0, 2, 4, 6] (fm_step inp * h) k) [0..<2 * m]) @
      concat (map (\<lambda>j. samples (fm_data inp) order (fm_step inp * (2 * j)) k) [0..<m])"
proof -
  let ?src = "fm_data inp" and ?w = "fm_width inp" and ?h = "fm_height inp"
  have order: "length order = 4" and conv: "conv = yuyv2sp order fill"
    using assms(1) by (auto simp: uvc_yuyv2yuv420SP_def uvc_yuyv2iyuv420SP_def)
  have p: "fm_format inp = FORMAT_YUYV" "fm_step inp = 8 * k" "length ?src = 2 * m * (8 * k)" "?w \<noteq> 0" "?h \<noteq> 0" "4 * k * (2 * m) * 4 < 2 ^ 32"
    using assms(2-4) by (simp_all add: packed_def)
  have pos: "0 < k" "0 < m"
    using p(4,5) assms(3,4) by (simp_all add: unat_gt_0 [symmetric])
  have "unat (?w * ?h) = 4 * k * (2 * m)"
    using p(6) assms(3,4) unat_mult_small [of ?w ?h] by simp
  then have "unat (?w * ?h * 3) = 24 * k * m"
    using p(6) unat_mult_small [of "?w * ?h" 3] by simp
  then have need: "unat (?w * ?h * 3 div 2) = 12 * k * m"
    by (simp add: unat_div)
  obtain o1 where ens: "uvc_ensure_frame_size fill (12 * k * m) out = (UVC_SUCCESS, o1)" "length (fm_data o1) = 12 * k * m"
      "fm_format o1 = fm_format out" "fm_sequence o1 = fm_sequence out"
    using ensure_owned [OF assms(5), of "12 * k * m"] pos by auto
  define M U where "M = take (8 * k * m) (fm_data o1)" and "U = drop (8 * k * m) (fm_data o1)"
  have MU: "fm_data o1 = M @ U" "length M = 2 * m * (4 * k)" "length U = m * (4 * k)"
    using ens(2) by (simp_all add: M_def U_def)
  have limit: "unat (?h - 1) = 2 * m - 1"
    using p(5) assms(4) by (simp add: unat_minus_one)
  have "sp_rows order ?src (8 * k) (4 * k) (2 * m - 1) 0 (4 * k * (2 * m)) ([] @ M @ [] @ U) =
      Some ([] @ concat (map (\<lambda>i. samples ?src [0, 2, 4, 6] (8 * k * (0 + 2 * i)) k @ samples ?src [0, 2, 4, 6] (8 * k * (0 + 2 * i) + 8 * k) k) [0..<m]) @
        [] @ concat (map (\<lambda>i. samples ?src order (8 * k * (0 + 2 * i)) k) [0..<m]))"
    using pos p(3) order MU by (intro sp_rows_exact) simp_all
  then have rows: "sp_rows order ?src (8 * k) (4 * k) (2 * m - 1) 0 (4 * k * (2 * m)) (fm_data o1) =
      Some (concat (map (\<lambda>i. samples ?src [0, 2, 4, 6] (8 * k * (2 * i)) k @ samples ?src [0, 2, 4, 6] (8 * k * (2 * i) + 8 * k) k) [0..<m]) @
        concat (map (\<lambda>i. samples ?src order (8 * k * (2 * i)) k) [0..<m]))"
    using MU(1) by simp
  have "concat (map (\<lambda>i. samples ?src [0, 2, 4, 6] (8 * k * (2 * i)) k @ samples ?src [0, 2, 4, 6] (8 * k * (2 * i) + 8 * k) k) [0..<m]) =
      concat (map (\<lambda>h. samples ?src [0, 2, 4, 6] (8 * k * h) k) [0..<2 * m])"
    using concat_blocks [of "\<lambda>h. samples ?src [0, 2, 4, 6] (8 * k * h) k" 2 m] by (simp add: numeral_2_eq_2 algebra_simps)
  with rows show ?thesis
    using p ens assms(3,4) need limit
    by (intro exI [of _ "o1\<lparr>fm_width := ?w, fm_step := 4 * k, fm_height := ?h,
        fm_data := concat (map (\<lambda>h. samples ?src [0, 2, 4, 6] (8 * k * h) k) [0..<2 * m]) @
          concat (map (\<lambda>i. samples ?src order (8 * k * (2 * i)) k) [0..<m])\<rparr>"])
      (simp add: conv yuyv2sp_def Let_def)
qed

section \<open>Small frames\<close>

text \<open>A frame of one row of eight pixels, one of two rows of four, and a frame to convert into.\<close>

definition demo_image :: "u32 \<Rightarrow> u32 \<Rightarrow> bytes \<Rightarrow> library_frame" where
  "demo_image w h data = \<lparr>fm_data = data, fm_actual_bytes = length data, fm_width = w, fm_height = h, fm_format = FORMAT_YUYV,
     fm_step = unat w * 2, fm_sequence = 5, library_owns_data = True\<rparr>"

definition demo_row :: bytes where
  "demo_row = [16, 128, 235, 128, 81, 90, 81, 240, 100, 100, 100, 100, 0, 0, 255, 255]"

definition blank_frame :: library_frame where
  "blank_frame = demo_image 0 0 []"

theorem conversions_pairwise_witness:
  "\<exists>out. uvc_yuyv2rgb (\<lambda>_. 0) (demo_image 8 1 demo_row) blank_frame = Some (UVC_SUCCESS, out) \<and>
     take 9 (fm_data out) = [16, 16, 16, 235, 235, 235, 238, 14, 13]"
proof -
  have "packed PIXEL_YUYV (demo_image 8 1 demo_row)"
    by (simp add: packed_def demo_image_def demo_row_def)
  with conversions_pairwise [of "uvc_yuyv2rgb (\<lambda>_. 0)" PIXEL_YUYV PIXEL_RGB "\<lambda>_. IYUYV2RGB_2" "\<lambda>_. 0" "demo_image 8 1 demo_row" blank_frame]
  obtain out where out: "uvc_yuyv2rgb (\<lambda>_. 0) (demo_image 8 1 demo_row) blank_frame = Some (UVC_SUCCESS, out)"
    "fm_data out = concat (map (\<lambda>i. IYUYV2RGB_2 demo_row (i * 4)) [0..<4])"
    by (auto simp: all_conversions_def conversions_def blank_frame_def demo_image_def)
  moreover have "take 9 (concat (map (\<lambda>i. IYUYV2RGB_2 demo_row (i * 4)) [0..<4])) = [16, 16, 16, 235, 235, 235, 238, 14, 13]"
    by code_simp
  ultimately show ?thesis
    by auto
qed

text \<open>The third and fourth pixels, of another colour, come out grey.\<close>

theorem yuyv2bgr_smears_colour_witness:
  "\<exists>out. uvc_yuyv2bgr (\<lambda>_. 0) (demo_image 8 1 demo_row) blank_frame = Some (UVC_SUCCESS, out) \<and>
     take 3 (drop 6 (fm_data out)) = [81, 81, 81] \<and> take 3 (drop 6 (fm_data out)) \<noteq> take 3 (IYUYV2BGR_2 4 demo_row 4)"
proof -
  have "packed PIXEL_YUYV (demo_image 8 1 demo_row)"
    by (simp add: packed_def demo_image_def demo_row_def)
  with yuyv2bgr_smears_colour [of "demo_image 8 1 demo_row" blank_frame "\<lambda>_. 0"]
  obtain out where out: "uvc_yuyv2bgr (\<lambda>_. 0) (demo_image 8 1 demo_row) blank_frame = Some (UVC_SUCCESS, out)"
    "fm_data out = concat (map (\<lambda>i. IYUYV2BGR_2 (i div 4 * 16) demo_row (i * 4)) [0..<4])"
    by (auto simp: blank_frame_def demo_image_def)
  moreover have "take 3 (drop 6 (concat (map (\<lambda>i. IYUYV2BGR_2 (i div 4 * 16) demo_row (i * 4)) [0..<4]))) = [81, 81, 81]"
    "take 3 (IYUYV2BGR_2 4 demo_row 4) \<noteq> [81, 81, 81]"
    by code_simp+
  ultimately show ?thesis
    by auto
qed

theorem duplicate_frame_iff_witness:
  "uvc_duplicate_frame (\<lambda>_. 0) (demo_image 2 4 demo_row) blank_frame = Some (UVC_SUCCESS, demo_image 2 4 demo_row) \<and>
   uvc_duplicate_frame (\<lambda>_. 0) (demo_image 4 2 demo_row) blank_frame = None"
  using duplicate_frame_iff [of blank_frame "demo_image 2 4 demo_row" "\<lambda>_. 0"]
    duplicate_frame_iff [of blank_frame "demo_image 4 2 demo_row" "\<lambda>_. 0"]
  by (auto simp: blank_frame_def demo_image_def demo_row_def split: option.splits)

theorem semi_planar_exact_witness:
  "\<exists>out. uvc_yuyv2yuv420SP (\<lambda>_. 0) (demo_image 4 2 demo_row) blank_frame = Some (UVC_SUCCESS, out) \<and>
     fm_data out = [16, 235, 81, 81, 100, 100, 0, 255, 128, 128, 90, 240]"
proof -
  have "packed PIXEL_YUYV (demo_image 4 2 demo_row)"
    by (simp add: packed_def demo_image_def demo_row_def)
  with semi_planar_exact [of "uvc_yuyv2yuv420SP (\<lambda>_. 0)" "[1, 3, 5, 7]" "\<lambda>_. 0" "demo_image 4 2 demo_row" 1 1 blank_frame]
  obtain out where out: "uvc_yuyv2yuv420SP (\<lambda>_. 0) (demo_image 4 2 demo_row) blank_frame = Some (UVC_SUCCESS, out)"
    "fm_data out = concat (map (\<lambda>h. samples demo_row [0, 2, 4, 6] (8 * h) 1) [0..<2]) @
      concat (map (\<lambda>j. samples demo_row [1, 3, 5, 7] (8 * (2 * j)) 1) [0..<1])"
    by (auto simp: blank_frame_def demo_image_def)
  moreover have "concat (map (\<lambda>h. samples demo_row [0, 2, 4, 6] (8 * h) 1) [0..<2]) @
      concat (map (\<lambda>j. samples demo_row [1, 3, 5, 7] (8 * (2 * j)) 1) [0..<1]) =
    [16, 235, 81, 81, 100, 100, 0, 255, 128, 128, 90, 240]"
    by code_simp
  ultimately show ?thesis
    by auto
qed

end
