(* ===== verification/Uvc_Planar.thy ===== *)
theory Uvc_Planar
  imports Uvc_Convert
begin

text \<open>
  The planar conversions of \<open>frame.c\<close>: one plane of luminances and two of chrominances. The chrominances of the even rows go to the
  plane at \<open>v\<close>, those of the odd rows to the plane at \<open>u\<close>.
\<close>

section \<open>Definitions\<close>

text \<open>One row, four pixels in each round; \<open>chroma\<close> lists the offsets of its two chrominances.\<close>

function p_row :: "nat list \<Rightarrow> bytes \<Rightarrow> nat \<Rightarrow> nat \<Rightarrow> nat \<Rightarrow> nat \<Rightarrow> nat \<Rightarrow> bytes \<Rightarrow> (nat \<times> nat \<times> bytes) option" where
  "p_row chroma src width w yuv y uv dst =
     (if w < width then do {
        dst \<leftarrow> need (yuv + 7) src (mem_write y (map (\<lambda>i. src ! (yuv + i)) [0, 2, 4, 6]) dst);
        dst \<leftarrow> need (yuv + Max (set chroma) + 1) src (mem_write uv (map (\<lambda>i. src ! (yuv + i)) chroma) dst);
        p_row chroma src width (w + 4) (yuv + 8) (y + 4) (uv + 2) dst }
      else Some (y, uv, dst))"
  by pat_completeness auto
termination
  by (relation "measure (\<lambda>(_, _, width, w, _). width - w)") auto

declare p_row.simps [simp del]

fun p_rows :: "bytes \<Rightarrow> nat \<Rightarrow> nat \<Rightarrow> nat list \<Rightarrow> nat \<Rightarrow> nat \<Rightarrow> nat \<Rightarrow> bytes \<Rightarrow> bytes option" where
  "p_rows src src_width width [] y u v dst = Some dst"
| "p_rows src src_width width (h # hs) y u v dst =
     (if odd h
      then do {
        (y, u, dst) \<leftarrow> p_row [3, 7] src width 0 (src_width * h) y u dst;
        p_rows src src_width width hs y u v dst }
      else do {
        (y, v, dst) \<leftarrow> p_row [1, 5] src width 0 (src_width * h) y v dst;
        p_rows src src_width width hs y u v dst })"

text \<open>\<open>u\<close> and \<open>v\<close> are the starts of the planes in quarters of the number of pixels.\<close>

definition yuyv2p :: "nat \<Rightarrow> nat \<Rightarrow> (nat \<Rightarrow> u8) \<Rightarrow> conversion" where
  "yuyv2p u v fill inp out =
     (if fm_format inp \<noteq> FORMAT_YUYV then Some (UVC_ERROR_INVALID_PARAM, out)
      else case uvc_ensure_frame_size fill (unat ((fm_width inp * fm_height inp * 3) div 2)) out of (ret, out) \<Rightarrow>
        if ret < 0 then Some (UVC_ERROR_NO_MEM, out)
        else let out = out\<lparr>fm_width := fm_width inp, fm_step := unat (fm_width inp), fm_height := fm_height inp\<rparr>;
                 width = unat (fm_width inp); height = unat (fm_height out); hh = min (unat (fm_height inp)) (unat (fm_height out))
          in do {
            data \<leftarrow> p_rows (fm_data inp) (fm_step inp) width [0..<hh] 0 (width * height * u div 4) (width * height * v div 4) (fm_data out);
            Some (UVC_SUCCESS, out\<lparr>fm_data := data\<rparr>) })"

definition uvc_yuyv2yuv420P :: "(nat \<Rightarrow> u8) \<Rightarrow> conversion" where
  "uvc_yuyv2yuv420P = yuyv2p 5 4"

definition uvc_yuyv2iyuv420P :: "(nat \<Rightarrow> u8) \<Rightarrow> conversion" where
  "uvc_yuyv2iyuv420P = yuyv2p 5 5"

section \<open>Rows\<close>

lemma p_row_exact:
  assumes "chroma \<in> {[1, 5], [3, 7]}"
    and "width = w + 4 * k" and "yuv + 8 * k \<le> length src"
    and "length A = y" and "length M = 4 * k" and "length U = 2 * k" and "uv = y + length M + length P"
  shows "p_row chroma src width w yuv y uv (A @ M @ P @ U @ R) =
    Some (y + 4 * k, uv + 2 * k, A @ samples src [0, 2, 4, 6] yuv k @ P @ samples src chroma yuv k @ R)"
  using assms(2-)
proof (induction k arbitrary: w yuv y uv A M P U)
  case 0
  then show ?case
    by (subst p_row.simps) simp
next
  case (Suc k)
  define N V L T where "N = drop 4 M" and "V = drop 2 U" and "L = take 4 M" and "T = take 2 U"
  have parts: "M = L @ N" "U = T @ V" "length L = 4" "length T = 2" "length N = 4 * k" "length V = 2 * k"
    using Suc.prems(4,5) by (simp_all add: N_def V_def L_def T_def)
  let ?X = "map (\<lambda>i. src ! (yuv + i)) [0, 2, 4, 6]" and ?C = "map (\<lambda>i. src ! (yuv + i)) chroma"
  have chroma: "length chroma = 2" "Max (set chroma) \<le> 7"
    using assms(1) by auto
  have w1: "mem_write y ?X (A @ M @ P @ U @ R) = Some (A @ ?X @ N @ P @ U @ R)"
    using mem_write_at [of A y L ?X "N @ P @ U @ R"] Suc.prems(3) parts by simp
  have w2: "mem_write uv ?C (A @ ?X @ N @ P @ U @ R) = Some ((A @ ?X) @ N @ (P @ ?C) @ V @ R)"
    using mem_write_at [of "A @ ?X @ N @ P" uv T ?C "V @ R"] Suc.prems(3-6) parts chroma by simp
  have "p_row chroma src width (w + 4) (yuv + 8) (y + 4) (uv + 2) ((A @ ?X) @ N @ (P @ ?C) @ V @ R) =
      Some (y + 4 + 4 * k, uv + 2 + 2 * k, (A @ ?X) @ samples src [0, 2, 4, 6] (yuv + 8) k @ (P @ ?C) @ samples src chroma (yuv + 8) k @ R)"
    using Suc.prems parts chroma by (intro Suc.IH) simp_all
  moreover have "w < width"
    using Suc.prems(1) by simp
  moreover have "yuv + 7 \<le> length src" "yuv + Max (set chroma) + 1 \<le> length src"
    using Suc.prems(2) chroma(2) by simp_all
  ultimately show ?case
    using w1 w2 unfolding samples_Suc by (subst p_row.simps) (simp del: list.map)
qed

definition luma :: "bytes \<Rightarrow> nat \<Rightarrow> nat \<Rightarrow> bytes" where
  "luma src k h = samples src [0, 2, 4, 6] (8 * k * h) k"

definition chroma_even :: "bytes \<Rightarrow> nat \<Rightarrow> nat \<Rightarrow> bytes" where
  "chroma_even src k h = samples src [1, 5] (8 * k * h) k"

definition chroma_odd :: "bytes \<Rightarrow> nat \<Rightarrow> nat \<Rightarrow> bytes" where
  "chroma_odd src k h = samples src [3, 7] (8 * k * h) k"

lemma length_planes [simp]:
  "length (luma src k h) = 4 * k" "length (chroma_even src k h) = 2 * k" "length (chroma_odd src k h) = 2 * k"
  by (simp_all add: luma_def chroma_even_def chroma_odd_def)

lemma row_inside:
  fixes k h n len :: nat
  assumes "8 * k * (h + 2 * Suc n) \<le> len"
  shows "8 * k * h + 8 * k \<le> len" and "8 * k * Suc h + 8 * k \<le> len" and "8 * k * (h + 2 + 2 * n) \<le> len"
proof -
  define X where "X = 8 * k * (h + 2 * n)"
  have "8 * k * h \<le> X" "X + 16 * k \<le> len" "8 * k * (h + 2 + 2 * n) = X + 16 * k" "8 * k * Suc h = 8 * k * h + 8 * k"
    using assms by (simp_all add: X_def algebra_simps)
  then show "8 * k * h + 8 * k \<le> len" "8 * k * Suc h + 8 * k \<le> len" "8 * k * (h + 2 + 2 * n) \<le> len"
    by simp_all
qed

lemma upt_pair: "[h..<h + 2 * Suc n] = h # Suc h # [h + 2..<h + 2 + 2 * n]"
  by (simp add: upt_conv_Cons)

text \<open>Two planes of chrominances.\<close>

lemma p_rows_exact:
  assumes "even h" and "8 * k * (h + 2 * n) \<le> length src"
    and "length A = y" and "length M = 8 * k * n" and "length V = 2 * k * n" and "length U = 2 * k * n"
    and "v = y + length M + length C" and "u = v + length V + length D"
  shows "p_rows src (8 * k) (4 * k) [h..<h + 2 * n] y u v (A @ M @ C @ V @ D @ U) =
    Some (A @ concat (map (\<lambda>i. luma src k (h + 2 * i) @ luma src k (Suc (h + 2 * i))) [0..<n]) @ C @
      concat (map (\<lambda>i. chroma_even src k (h + 2 * i)) [0..<n]) @ D @ concat (map (\<lambda>i. chroma_odd src k (Suc (h + 2 * i))) [0..<n]))"
  using assms
proof (induction n arbitrary: h y u v A M C V D U)
  case 0
  then show ?case
    by simp
next
  case (Suc n)
  define M0 M1 N V0 V1 U0 U1 where "M0 = take (4 * k) M" and "M1 = take (4 * k) (drop (4 * k) M)" and "N = drop (8 * k) M"
    and "V0 = take (2 * k) V" and "V1 = drop (2 * k) V" and "U0 = take (2 * k) U" and "U1 = drop (2 * k) U"
  have "M = M0 @ M1 @ drop (4 * k) (drop (4 * k) M)"
    unfolding M0_def M1_def by (metis append_take_drop_id)
  then have parts: "M = M0 @ M1 @ N" "V = V0 @ V1" "U = U0 @ U1" "length M0 = 4 * k" "length M1 = 4 * k" "length N = 8 * k * n"
    "length V0 = 2 * k" "length V1 = 2 * k * n" "length U0 = 2 * k" "length U1 = 2 * k * n"
    using Suc.prems(4-6) by (simp_all add: M0_def M1_def N_def V0_def V1_def U0_def U1_def)
  note room = row_inside [OF Suc.prems(2)]
  have even_row: "p_row [1, 5] src (4 * k) 0 (8 * k * h) y v (A @ M0 @ (M1 @ N @ C) @ V0 @ (V1 @ D @ U)) =
      Some (y + 4 * k, v + 2 * k, A @ luma src k h @ (M1 @ N @ C) @ chroma_even src k h @ (V1 @ D @ U))"
    using room(1) Suc.prems(3,7) parts unfolding luma_def chroma_even_def chroma_odd_def by (intro p_row_exact) simp_all
  have odd_row: "p_row [3, 7] src (4 * k) 0 (8 * k * Suc h) (y + 4 * k) u
      ((A @ luma src k h) @ M1 @ (N @ C @ chroma_even src k h @ V1 @ D) @ U0 @ U1) =
      Some (y + 4 * k + 4 * k, u + 2 * k, (A @ luma src k h) @ luma src k (Suc h) @ (N @ C @ chroma_even src k h @ V1 @ D) @
        chroma_odd src k (Suc h) @ U1)"
    using room(2) Suc.prems(3,7,8) parts unfolding luma_def chroma_even_def chroma_odd_def by (intro p_row_exact) simp_all
  have rest: "p_rows src (8 * k) (4 * k) [h + 2..<h + 2 + 2 * n] (y + 8 * k) (u + 2 * k) (v + 2 * k)
      ((A @ luma src k h @ luma src k (Suc h)) @ N @ (C @ chroma_even src k h) @ V1 @ (D @ chroma_odd src k (Suc h)) @ U1) =
    Some ((A @ luma src k h @ luma src k (Suc h)) @
      concat (map (\<lambda>i. luma src k (h + 2 + 2 * i) @ luma src k (Suc (h + 2 + 2 * i))) [0..<n]) @ (C @ chroma_even src k h) @
      concat (map (\<lambda>i. chroma_even src k (h + 2 + 2 * i)) [0..<n]) @ (D @ chroma_odd src k (Suc h)) @
      concat (map (\<lambda>i. chroma_odd src k (Suc (h + 2 + 2 * i))) [0..<n]))"
    using Suc.prems(1,3,7,8) room(3) parts by (intro Suc.IH) simp_all
  from even_row odd_row rest show ?case
    unfolding upt_pair concat_map_Suc parts(1-3) using Suc.prems(1) by (simp add: add.commute add.left_commute)
qed

text \<open>One plane for both: the odd rows overwrite the even ones.\<close>

lemma p_rows_collide:
  assumes "even h" and "8 * k * (h + 2 * n) \<le> length src"
    and "length A = y" and "length M = 8 * k * n" and "length U = 2 * k * n" and "u = y + length M + length C"
  shows "p_rows src (8 * k) (4 * k) [h..<h + 2 * n] y u u (A @ M @ C @ U) =
    Some (A @ concat (map (\<lambda>i. luma src k (h + 2 * i) @ luma src k (Suc (h + 2 * i))) [0..<n]) @ C @
      concat (map (\<lambda>i. chroma_odd src k (Suc (h + 2 * i))) [0..<n]))"
  using assms
proof (induction n arbitrary: h y u A M C U)
  case 0
  then show ?case
    by simp
next
  case (Suc n)
  define M0 M1 N U0 U1 where "M0 = take (4 * k) M" and "M1 = take (4 * k) (drop (4 * k) M)" and "N = drop (8 * k) M"
    and "U0 = take (2 * k) U" and "U1 = drop (2 * k) U"
  have "M = M0 @ M1 @ drop (4 * k) (drop (4 * k) M)"
    unfolding M0_def M1_def by (metis append_take_drop_id)
  then have parts: "M = M0 @ M1 @ N" "U = U0 @ U1" "length M0 = 4 * k" "length M1 = 4 * k" "length N = 8 * k * n"
    "length U0 = 2 * k" "length U1 = 2 * k * n"
    using Suc.prems(4,5) by (simp_all add: M0_def M1_def N_def U0_def U1_def)
  note room = row_inside [OF Suc.prems(2)]
  have even_row: "p_row [1, 5] src (4 * k) 0 (8 * k * h) y u (A @ M0 @ (M1 @ N @ C) @ U0 @ U1) =
      Some (y + 4 * k, u + 2 * k, A @ luma src k h @ (M1 @ N @ C) @ chroma_even src k h @ U1)"
    using room(1) Suc.prems(3,6) parts unfolding luma_def chroma_even_def chroma_odd_def by (intro p_row_exact) simp_all
  have odd_row: "p_row [3, 7] src (4 * k) 0 (8 * k * Suc h) (y + 4 * k) u ((A @ luma src k h) @ M1 @ (N @ C) @ chroma_even src k h @ U1) =
      Some (y + 4 * k + 4 * k, u + 2 * k, (A @ luma src k h) @ luma src k (Suc h) @ (N @ C) @ chroma_odd src k (Suc h) @ U1)"
    using room(2) Suc.prems(3,6) parts unfolding luma_def chroma_even_def chroma_odd_def by (intro p_row_exact) simp_all
  have rest: "p_rows src (8 * k) (4 * k) [h + 2..<h + 2 + 2 * n] (y + 8 * k) (u + 2 * k) (u + 2 * k)
      ((A @ luma src k h @ luma src k (Suc h)) @ N @ (C @ chroma_odd src k (Suc h)) @ U1) =
    Some ((A @ luma src k h @ luma src k (Suc h)) @
      concat (map (\<lambda>i. luma src k (h + 2 + 2 * i) @ luma src k (Suc (h + 2 + 2 * i))) [0..<n]) @ (C @ chroma_odd src k (Suc h)) @
      concat (map (\<lambda>i. chroma_odd src k (Suc (h + 2 + 2 * i))) [0..<n]))"
    using Suc.prems(1,3,6) room(3) parts by (intro Suc.IH) simp_all
  from even_row odd_row rest show ?case
    unfolding upt_pair concat_map_Suc parts(1,2) using Suc.prems(1) by (simp add: add.commute add.left_commute)
qed

section \<open>The conversions\<close>

lemma pairs_of_rows:
  "concat (map (\<lambda>i. luma src k (2 * i) @ luma src k (Suc (2 * i))) [0..<m]) = concat (map (luma src k) [0..<2 * m])"
  using concat_blocks [of "luma src k" 2 m] by (simp add: numeral_2_eq_2 mult.commute)

lemma yuyv2p_setup:
  assumes "packed PIXEL_YUYV inp" and "unat (fm_width inp) = 4 * k" and "unat (fm_height inp) = 2 * m" and "library_owns_data out"
  obtains o1 where "uvc_ensure_frame_size fill (12 * k * m) out = (UVC_SUCCESS, o1)" "length (fm_data o1) = 12 * k * m"
    "fm_format o1 = fm_format out" "fm_sequence o1 = fm_sequence out"
    "length (fm_data inp) = 8 * k * (2 * m)"
    "\<And>u v. yuyv2p u v fill inp out = do {
       data \<leftarrow> p_rows (fm_data inp) (8 * k) (4 * k) [0..<2 * m] 0 (8 * k * m * u div 4) (8 * k * m * v div 4) (fm_data o1);
       Some (UVC_SUCCESS, o1\<lparr>fm_width := fm_width inp, fm_step := 4 * k, fm_height := fm_height inp, fm_data := data\<rparr>) }"
proof -
  let ?w = "fm_width inp" and ?h = "fm_height inp"
  have p: "fm_format inp = FORMAT_YUYV" "fm_step inp = 8 * k" "length (fm_data inp) = 8 * k * (2 * m)" "?w \<noteq> 0" "?h \<noteq> 0"
    "4 * k * (2 * m) * 4 < 2 ^ 32"
    using assms(1-3) by (simp_all add: packed_def)
  have pos: "0 < k" "0 < m"
    using p(4,5) assms(2,3) by (simp_all add: unat_gt_0 [symmetric])
  have "unat (?w * ?h) = 4 * k * (2 * m)"
    using p(6) assms(2,3) unat_mult_small [of ?w ?h] by simp
  then have "unat (?w * ?h * 3) = 24 * k * m"
    using p(6) unat_mult_small [of "?w * ?h" 3] by simp
  then have need: "unat (?w * ?h * 3 div 2) = 12 * k * m"
    by (simp add: unat_div)
  obtain o1 where o1: "uvc_ensure_frame_size fill (12 * k * m) out = (UVC_SUCCESS, o1)" "length (fm_data o1) = 12 * k * m"
      "fm_format o1 = fm_format out" "fm_sequence o1 = fm_sequence out"
    using ensure_owned [OF assms(4), of "12 * k * m"] pos by auto
  have "yuyv2p u v fill inp out = do {
       data \<leftarrow> p_rows (fm_data inp) (8 * k) (4 * k) [0..<2 * m] 0 (8 * k * m * u div 4) (8 * k * m * v div 4) (fm_data o1);
       Some (UVC_SUCCESS, o1\<lparr>fm_width := fm_width inp, fm_step := 4 * k, fm_height := fm_height inp, fm_data := data\<rparr>) }" for u v
  proof -
    have "4 * k * (2 * m) * x = 8 * k * m * x" for x
      by simp
    then show ?thesis
      using p(1,2) o1(1) need assms(2,3) unfolding yuyv2p_def Let_def by (simp del: mult_ac)
  qed
  with o1 p(3) that show ?thesis
    by blast
qed

text \<open>A packed YUYV frame whose width is a multiple of four and whose height is even becomes a plane of all luminances, a plane of the
  first chrominances of the even rows and a plane of the second chrominances of the odd rows.\<close>

theorem yuv420P_exact:
  assumes "packed PIXEL_YUYV inp" and "unat (fm_width inp) = 4 * k" and "unat (fm_height inp) = 2 * m" and "library_owns_data out"
  shows "\<exists>out'. uvc_yuyv2yuv420P fill inp out = Some (UVC_SUCCESS, out') \<and>
    fm_data out' = concat (map (luma (fm_data inp) k) [0..<2 * m]) @
      concat (map (\<lambda>i. chroma_even (fm_data inp) k (2 * i)) [0..<m]) @ concat (map (\<lambda>i. chroma_odd (fm_data inp) k (Suc (2 * i))) [0..<m])"
proof -
  obtain o1 where o1: "uvc_ensure_frame_size fill (12 * k * m) out = (UVC_SUCCESS, o1)" "length (fm_data o1) = 12 * k * m"
      "fm_format o1 = fm_format out" "fm_sequence o1 = fm_sequence out" "length (fm_data inp) = 8 * k * (2 * m)"
    and run: "\<And>u v. yuyv2p u v fill inp out = do {
       data \<leftarrow> p_rows (fm_data inp) (8 * k) (4 * k) [0..<2 * m] 0 (8 * k * m * u div 4) (8 * k * m * v div 4) (fm_data o1);
       Some (UVC_SUCCESS, o1\<lparr>fm_width := fm_width inp, fm_step := 4 * k, fm_height := fm_height inp, fm_data := data\<rparr>) }"
    using yuyv2p_setup [OF assms, where fill = fill] by blast
  define M V U where "M = take (8 * k * m) (fm_data o1)" and "V = take (2 * k * m) (drop (8 * k * m) (fm_data o1))"
    and "U = drop (2 * k * m) (drop (8 * k * m) (fm_data o1))"
  have parts: "fm_data o1 = M @ V @ U"
    unfolding M_def V_def U_def by (metis append_take_drop_id)
  have "length M = 8 * k * m" "length V = 2 * k * m" "length U = 2 * k * m" "8 * k * m * 5 div 4 = 10 * k * m"
    using o1(2) by (simp_all add: M_def V_def U_def)
  then have "p_rows (fm_data inp) (8 * k) (4 * k) [0..<0 + 2 * m] 0 (8 * k * m * 5 div 4) (8 * k * m * 4 div 4) ([] @ M @ [] @ V @ [] @ U) =
    Some ([] @ concat (map (\<lambda>i. luma (fm_data inp) k (0 + 2 * i) @ luma (fm_data inp) k (Suc (0 + 2 * i))) [0..<m]) @ [] @
      concat (map (\<lambda>i. chroma_even (fm_data inp) k (0 + 2 * i)) [0..<m]) @ [] @
      concat (map (\<lambda>i. chroma_odd (fm_data inp) k (Suc (0 + 2 * i))) [0..<m]))"
    using o1(5) by (intro p_rows_exact) simp_all
  then show ?thesis
    by (simp add: uvc_yuyv2yuv420P_def run pairs_of_rows parts)
qed

text \<open>\<open>uvc_yuyv2iyuv420P\<close> starts both chrominance planes at the same byte: the plane before it keeps what the buffer held, and
  the chrominances of the even rows are overwritten by those of the odd rows.\<close>

theorem iyuv420P_planes_collide:
  assumes "packed PIXEL_YUYV inp" and "unat (fm_width inp) = 4 * k" and "unat (fm_height inp) = 2 * m" and "library_owns_data out"
  shows "\<exists>o1 out'. uvc_ensure_frame_size fill (12 * k * m) out = (UVC_SUCCESS, o1) \<and> uvc_yuyv2iyuv420P fill inp out = Some (UVC_SUCCESS, out') \<and>
    fm_data out' = concat (map (luma (fm_data inp) k) [0..<2 * m]) @ take (2 * k * m) (drop (8 * k * m) (fm_data o1)) @
      concat (map (\<lambda>i. chroma_odd (fm_data inp) k (Suc (2 * i))) [0..<m])"
proof -
  obtain o1 where o1: "uvc_ensure_frame_size fill (12 * k * m) out = (UVC_SUCCESS, o1)" "length (fm_data o1) = 12 * k * m"
      "fm_format o1 = fm_format out" "fm_sequence o1 = fm_sequence out" "length (fm_data inp) = 8 * k * (2 * m)"
    and run: "\<And>u v. yuyv2p u v fill inp out = do {
       data \<leftarrow> p_rows (fm_data inp) (8 * k) (4 * k) [0..<2 * m] 0 (8 * k * m * u div 4) (8 * k * m * v div 4) (fm_data o1);
       Some (UVC_SUCCESS, o1\<lparr>fm_width := fm_width inp, fm_step := 4 * k, fm_height := fm_height inp, fm_data := data\<rparr>) }"
    using yuyv2p_setup [OF assms, where fill = fill] by blast
  define M C U where "M = take (8 * k * m) (fm_data o1)" and "C = take (2 * k * m) (drop (8 * k * m) (fm_data o1))"
    and "U = drop (2 * k * m) (drop (8 * k * m) (fm_data o1))"
  have parts: "fm_data o1 = M @ C @ U"
    unfolding M_def C_def U_def by (metis append_take_drop_id)
  have "length M = 8 * k * m" "length C = 2 * k * m" "length U = 2 * k * m"
    using o1(2) by (simp_all add: M_def C_def U_def)
  then have "p_rows (fm_data inp) (8 * k) (4 * k) [0..<0 + 2 * m] 0 (8 * k * m * 5 div 4) (8 * k * m * 5 div 4) ([] @ M @ C @ U) =
    Some ([] @ concat (map (\<lambda>i. luma (fm_data inp) k (0 + 2 * i) @ luma (fm_data inp) k (Suc (0 + 2 * i))) [0..<m]) @ C @
      concat (map (\<lambda>i. chroma_odd (fm_data inp) k (Suc (0 + 2 * i))) [0..<m]))"
    using o1(5) by (intro p_rows_collide) simp_all
  then have "\<exists>out'. uvc_yuyv2iyuv420P fill inp out = Some (UVC_SUCCESS, out') \<and>
      fm_data out' = concat (map (luma (fm_data inp) k) [0..<2 * m]) @ C @ concat (map (\<lambda>i. chroma_odd (fm_data inp) k (Suc (2 * i))) [0..<m])"
    by (simp add: uvc_yuyv2iyuv420P_def run pairs_of_rows parts)
  with o1(1) show ?thesis
    unfolding C_def by blast
qed

lemma demo_packed: "packed PIXEL_YUYV (demo_image 4 2 demo_row)" "library_owns_data blank_frame"
  by (simp_all add: packed_def demo_image_def demo_row_def blank_frame_def)

theorem yuv420P_exact_witness:
  "\<exists>out. uvc_yuyv2yuv420P (\<lambda>_. 0) (demo_image 4 2 demo_row) blank_frame = Some (UVC_SUCCESS, out) \<and>
     fm_data out = [16, 235, 81, 81, 100, 100, 0, 255, 128, 90, 100, 255]"
proof -
  obtain out where "uvc_yuyv2yuv420P (\<lambda>_. 0) (demo_image 4 2 demo_row) blank_frame = Some (UVC_SUCCESS, out)"
    "fm_data out = concat (map (luma demo_row 1) [0..<2]) @ concat (map (\<lambda>i. chroma_even demo_row 1 (2 * i)) [0..<1]) @
      concat (map (\<lambda>i. chroma_odd demo_row 1 (Suc (2 * i))) [0..<1])"
    using yuv420P_exact [OF demo_packed(1) _ _ demo_packed(2), of 1 1 "\<lambda>_. 0"] by (auto simp: demo_image_def)
  moreover have "concat (map (luma demo_row 1) [0..<2]) @ concat (map (\<lambda>i. chroma_even demo_row 1 (2 * i)) [0..<1]) @
      concat (map (\<lambda>i. chroma_odd demo_row 1 (Suc (2 * i))) [0..<1]) = [16, 235, 81, 81, 100, 100, 0, 255, 128, 90, 100, 255]"
    by code_simp
  ultimately show ?thesis
    by auto
qed

theorem iyuv420P_planes_collide_witness:
  "\<exists>out. uvc_yuyv2iyuv420P (\<lambda>_. 7) (demo_image 4 2 demo_row) blank_frame = Some (UVC_SUCCESS, out) \<and>
     fm_data out = [16, 235, 81, 81, 100, 100, 0, 255, 7, 7, 100, 255]"
proof -
  obtain o1 out where o1: "uvc_ensure_frame_size (\<lambda>_. 7) 12 blank_frame = (UVC_SUCCESS, o1)"
    and out: "uvc_yuyv2iyuv420P (\<lambda>_. 7) (demo_image 4 2 demo_row) blank_frame = Some (UVC_SUCCESS, out)"
    "fm_data out = concat (map (luma demo_row 1) [0..<2]) @ take 2 (drop 8 (fm_data o1)) @
      concat (map (\<lambda>i. chroma_odd demo_row 1 (Suc (2 * i))) [0..<1])"
    using iyuv420P_planes_collide [OF demo_packed(1) _ _ demo_packed(2), of 1 1 "\<lambda>_. 7"] by (auto simp: demo_image_def)
  moreover have "fm_data o1 = replicate 12 7"
  proof -
    have "fm_data (snd (uvc_ensure_frame_size (\<lambda>_. 7) 12 blank_frame)) = replicate 12 7"
      by code_simp
    with o1 show ?thesis
      by simp
  qed
  moreover have "concat (map (luma demo_row 1) [0..<2]) @ take 2 (drop 8 (replicate 12 7)) @
      concat (map (\<lambda>i. chroma_odd demo_row 1 (Suc (2 * i))) [0..<1]) = [16, 235, 81, 81, 100, 100, 0, 255, 7, 7, 100, 255]"
    by code_simp
  ultimately show ?thesis
    by auto
qed

end
