(* ===== verification/Preview_Array.thy ===== *)
theory Preview_Array
  imports Prelude
begin

text \<open>
  The growing array of the preview (\<open>objectarray.h\<close>), for elements that are pointers: a slot is \<open>None\<close> when it holds a null
  pointer or has never been written. The capacity is the length of \<open>m_elements\<close>. Taking an element from outside the array, or from
  an empty one (the size would become negative), is undefined. The laws its users rely on are the locale \<open>object_list\<close>.
\<close>

section \<open>The array\<close>

record 'a object_array =
  m_elements :: "'a option list"
  m_size :: nat
  min_size :: nat

definition new_array :: "nat \<Rightarrow> 'a object_array" where
  "new_array initial_capacity = \<lparr>m_elements = replicate initial_capacity None, m_size = 0, min_size = initial_capacity\<rparr>"

definition capacity :: "'a object_array \<Rightarrow> nat" where
  "capacity a = length (m_elements a)"

definition resize :: "nat \<Rightarrow> 'a object_array \<Rightarrow> 'a object_array" where
  "resize new_size a =
     (if new_size \<noteq> capacity a
      then let n = (if new_size < capacity a then new_size else capacity a)
        in a\<lparr>m_elements := take n (m_elements a) @ replicate (new_size - n) None,
             m_size := (if m_size a < new_size then m_size a else new_size)\<rparr>
      else a)"

definition put :: "'a option \<Rightarrow> 'a object_array \<Rightarrow> nat \<times> 'a object_array" where
  "put object a = (case object of None \<Rightarrow> (m_size a, a)
     | Some x \<Rightarrow> let a = (if m_size a \<ge> capacity a then resize (if capacity a \<noteq> 0 then capacity a * 2 else 2) a else a);
           a = a\<lparr>m_elements := (m_elements a)[m_size a := Some x], m_size := m_size a + 1\<rparr>
         in (m_size a, a))"

text \<open>The elements from \<open>i + 1\<close> to \<open>n\<close> move down by one.\<close>

function shift_down :: "nat \<Rightarrow> nat \<Rightarrow> 'a list \<Rightarrow> 'a list" where
  "shift_down i n xs = (if i < n then shift_down (i + 1) n (xs[i := xs ! (i + 1)]) else xs)"
  by pat_completeness auto
termination
  by (relation "measure (\<lambda>(i, n, _). n - i)") auto

declare shift_down.simps [simp del]

definition remove :: "nat \<Rightarrow> 'a object_array \<Rightarrow> ('a option \<times> 'a object_array) option" where
  "remove index a =
     (if index < capacity a \<and> 0 < m_size a
      then Some (m_elements a ! index, a\<lparr>m_elements := shift_down index (m_size a - 1) (m_elements a), m_size := m_size a - 1\<rparr>)
      else None)"

function getIndex_from :: "nat \<Rightarrow> 'a option \<Rightarrow> 'a object_array \<Rightarrow> int" where
  "getIndex_from i object a =
     (if i < m_size a then if m_elements a ! i = object then int i else getIndex_from (i + 1) object a else -1)"
  by pat_completeness auto
termination
  by (relation "measure (\<lambda>(i, _, a). m_size a - i)") auto

declare getIndex_from.simps [simp del]

definition getIndex :: "'a option \<Rightarrow> 'a object_array \<Rightarrow> int" where
  "getIndex object a = getIndex_from 0 object a"

function removeObject_from :: "nat \<Rightarrow> 'a option \<Rightarrow> 'a object_array \<Rightarrow> 'a object_array option" where
  "removeObject_from i object a =
     (if i < m_size a
      then if m_elements a ! i = object then map_option snd (remove i a) else removeObject_from (i + 1) object a
      else Some a)"
  by pat_completeness auto
termination
  by (relation "measure (\<lambda>(i, _, a). m_size a - i)") auto

declare removeObject_from.simps [simp del]

definition removeObject :: "'a option \<Rightarrow> 'a object_array \<Rightarrow> 'a object_array option" where
  "removeObject object a = removeObject_from 0 object a"

definition take_last :: "'a object_array \<Rightarrow> 'a option \<times> 'a object_array" where
  "take_last a = (if m_size a > 0 then (m_elements a ! (m_size a - 1), a\<lparr>m_size := m_size a - 1\<rparr>) else (None, a))"

definition clear :: "'a object_array \<Rightarrow> 'a object_array" where
  "clear a = (resize (min_size a) a)\<lparr>m_size := 0\<rparr>"

section \<open>Its contents\<close>

definition contents :: "'a object_array \<Rightarrow> 'a list" where
  "contents a = map the (take (m_size a) (m_elements a))"

definition array_ok :: "'a object_array \<Rightarrow> bool" where
  "array_ok a \<longleftrightarrow> m_size a \<le> capacity a \<and> None \<notin> set (take (m_size a) (m_elements a))"

text \<open>What the users of the array rely on: a list, grown at its end, shortened at either end.\<close>

locale object_list =
  fixes add :: "'a \<Rightarrow> 'q \<Rightarrow> 'q"
    and first :: "'q \<Rightarrow> ('a option \<times> 'q) option"
    and pop :: "'q \<Rightarrow> 'a option \<times> 'q"
    and empty :: "'q \<Rightarrow> 'q"
    and items :: "'q \<Rightarrow> 'a list"
    and ok :: "'q \<Rightarrow> bool"
  assumes add_law: "ok q \<Longrightarrow> items (add x q) = items q @ [x] \<and> ok (add x q)"
    and first_law: "ok q \<Longrightarrow> items q = x # xs \<Longrightarrow> \<exists>q'. first q = Some (Some x, q') \<and> items q' = xs \<and> ok q'"
    and pop_law: "ok q \<Longrightarrow> items q = xs @ [x] \<Longrightarrow> \<exists>q'. pop q = (Some x, q') \<and> items q' = xs \<and> ok q'"
    and pop_empty: "ok q \<Longrightarrow> items q = [] \<Longrightarrow> fst (pop q) = None"
    and empty_law: "ok q \<Longrightarrow> items (empty q) = [] \<and> ok (empty q)"
begin

text \<open>First in, first out: what was put into an empty list comes back in order.\<close>

fun drain :: "nat \<Rightarrow> 'q \<Rightarrow> ('a list \<times> 'q) option" where
  "drain 0 q = Some ([], q)"
| "drain (Suc n) q = do { (x, q) \<leftarrow> first q; (xs, q) \<leftarrow> drain n q; (case x of None \<Rightarrow> None | Some x \<Rightarrow> Some (x # xs, q)) }"

lemma items_fold: "ok q \<Longrightarrow> items (fold add xs q) = items q @ xs \<and> ok (fold add xs q)"
  by (induction xs arbitrary: q) (auto simp: add_law)

lemma drain_items: "ok q \<Longrightarrow> items q = xs \<Longrightarrow> \<exists>q'. drain (length xs) q = Some (xs, q') \<and> items q' = [] \<and> ok q'"
proof (induction xs arbitrary: q)
  case (Cons x xs)
  with first_law [of q x xs] obtain q1 where "first q = Some (Some x, q1)" "items q1 = xs" "ok q1"
    by auto
  with Cons.IH [of q1] show ?case
    by auto
qed auto

lemma fifo: "ok q \<Longrightarrow> items q = [] \<Longrightarrow> \<exists>q'. drain (length xs) (fold add xs q) = Some (xs, q') \<and> items q' = []"
  using drain_items [of "fold add xs q" xs] items_fold [of q xs] by auto

text \<open>Last in, first out.\<close>

lemma lifo: "ok q \<Longrightarrow> \<exists>q'. pop (add x q) = (Some x, q') \<and> items q' = items q"
  using pop_law [of "add x q" "items q" x] add_law [of q x] by auto

end

section \<open>The laws\<close>

lemma length_contents [simp]: "array_ok a \<Longrightarrow> length (contents a) = m_size a"
  by (simp add: contents_def array_ok_def capacity_def)

lemma resize_ok:
  assumes "array_ok a" and "m_size a \<le> n"
  shows "contents (resize n a) = contents a \<and> array_ok (resize n a) \<and> m_size (resize n a) = m_size a \<and> capacity (resize n a) = n"
  using assms by (auto simp: resize_def contents_def array_ok_def capacity_def Let_def min_def)

lemma put_room:
  assumes "array_ok a" and "m_size a < capacity a"
  shows "let b = a\<lparr>m_elements := (m_elements a)[m_size a := Some x], m_size := m_size a + 1\<rparr>
    in contents b = contents a @ [x] \<and> array_ok b"
  using assms by (simp add: contents_def array_ok_def capacity_def take_Suc_conv_app_nth)

lemma put_ok:
  assumes "array_ok a"
  shows "contents (snd (put (Some x) a)) = contents a @ [x] \<and> array_ok (snd (put (Some x) a)) \<and> fst (put (Some x) a) = Suc (m_size a)"
proof -
  let ?b = "if m_size a \<ge> capacity a then resize (if capacity a \<noteq> 0 then capacity a * 2 else 2) a else a"
  have "m_size a = capacity a" if "capacity a \<le> m_size a"
    using that assms by (simp add: array_ok_def)
  then have b: "contents ?b = contents a" "array_ok ?b" "m_size ?b = m_size a" "m_size ?b < capacity ?b"
    using assms resize_ok [OF assms, of "capacity a * 2"] resize_ok [OF assms, of 2] by auto
  with put_room [OF b(2,4), of x] show ?thesis
    by (simp add: put_def Let_def)
qed

lemma shift_down_eq:
  "i \<le> n \<Longrightarrow> n < length xs \<Longrightarrow> shift_down i n xs = take i xs @ take (n - i) (drop (Suc i) xs) @ drop n xs"
proof (induction "n - i" arbitrary: i xs)
  case 0
  then show ?case
    by (subst shift_down.simps) simp
next
  case (Suc m)
  then have lt: "i < n"
    by simp
  have "shift_down (i + 1) n (xs[i := xs ! (i + 1)]) = take (i + 1) (xs[i := xs ! (i + 1)]) @
      take (n - (i + 1)) (drop (Suc (i + 1)) (xs[i := xs ! (i + 1)])) @ drop n (xs[i := xs ! (i + 1)])"
    using Suc by (intro Suc.hyps(1)) auto
  also have "\<dots> = take i xs @ (xs ! (i + 1) # take (n - (i + 1)) (drop (Suc (i + 1)) xs)) @ drop n xs"
    using lt Suc.prems by (simp add: take_Suc_conv_app_nth)
  also have "xs ! (i + 1) # take (n - (i + 1)) (drop (Suc (i + 1)) xs) = take (n - i) (drop (Suc i) xs)"
    using lt Suc.prems by (subst Cons_nth_drop_Suc [symmetric, of "Suc i"]) (simp_all add: Suc_diff_Suc [symmetric] del: Suc_diff_Suc)
  finally show ?case
    using lt by (subst shift_down.simps) simp
qed

lemma remove_ok:
  assumes "array_ok a" and "i < m_size a"
  shows "\<exists>a'. remove i a = Some (Some (contents a ! i), a') \<and> contents a' = take i (contents a) @ drop (Suc i) (contents a) \<and>
    array_ok a' \<and> m_size a' = m_size a - 1"
proof -
  let ?es = "m_elements a" and ?n = "m_size a - 1"
  let ?a = "a\<lparr>m_elements := shift_down i ?n ?es, m_size := ?n\<rparr>"
  have ok: "m_size a \<le> length ?es" "None \<notin> set (take (m_size a) ?es)"
    using assms(1) by (simp_all add: array_ok_def capacity_def)
  have es: "shift_down i ?n ?es = take i ?es @ take (?n - i) (drop (Suc i) ?es) @ drop ?n ?es"
    using assms(2) ok(1) by (intro shift_down_eq) simp_all
  have first: "take ?n (shift_down i ?n ?es) = take i (take (m_size a) ?es) @ drop (Suc i) (take (m_size a) ?es)"
  proof -
    have "length (take i ?es @ take (?n - i) (drop (Suc i) ?es)) = ?n"
      using assms(2) ok(1) by simp
    then have "take ?n (shift_down i ?n ?es) = take i ?es @ take (?n - i) (drop (Suc i) ?es)"
      unfolding es by (metis append.assoc append_eq_conv_conj)
    then show ?thesis
      using assms(2) by (simp add: drop_take min_def)
  qed
  have "?es ! i = Some (contents a ! i)"
  proof -
    have "?es ! i \<in> set (take (m_size a) ?es)"
      using assms(2) ok(1) by (auto simp: in_set_conv_nth intro!: exI [of _ i])
    with ok(2) obtain y where "?es ! i = Some y"
      by (cases "?es ! i") auto
    then show ?thesis
      using assms(2) ok(1) by (simp add: contents_def)
  qed
  moreover have "contents ?a = take i (contents a) @ drop (Suc i) (contents a)"
    using first by (simp add: contents_def take_map drop_map)
  moreover have "?n \<le> length (shift_down i ?n ?es)"
    using assms(2) ok(1) unfolding es by simp
  then have "array_ok ?a"
    using ok first set_take_subset [of i "take (m_size a) ?es"] set_drop_subset [of "Suc i" "take (m_size a) ?es"] assms(2)
    by (auto simp: array_ok_def capacity_def)
  ultimately show ?thesis
    using assms(2) ok(1) by (intro exI [of _ ?a]) (simp add: remove_def capacity_def)
qed

lemma take_last_ok:
  assumes "array_ok a" and "contents a = xs @ [x]"
  shows "\<exists>a'. take_last a = (Some x, a') \<and> contents a' = xs \<and> array_ok a'"
proof -
  have size: "m_size a = Suc (length xs)"
    using length_contents [OF assms(1)] assms(2) by simp
  have ok: "Suc (length xs) \<le> length (m_elements a)" "None \<notin> set (take (Suc (length xs)) (m_elements a))"
    using assms(1) size by (simp_all add: array_ok_def capacity_def)
  then have snoc: "take (Suc (length xs)) (m_elements a) = take (length xs) (m_elements a) @ [m_elements a ! length xs]"
    by (simp add: take_Suc_conv_app_nth)
  with assms(2) size have "map the (take (length xs) (m_elements a)) = xs" "the (m_elements a ! length xs) = x"
    by (simp_all add: contents_def)
  with ok(2) snoc size show ?thesis
    using ok(1) by (cases "m_elements a ! length xs") (auto simp: take_last_def contents_def array_ok_def capacity_def)
qed

lemma clear_ok: "array_ok (clear a) \<and> contents (clear a) = []"
  by (simp add: clear_def array_ok_def contents_def)

lemma getIndex_from_first:
  "getIndex_from i object a = (case find (\<lambda>j. m_elements a ! j = object) [i..<m_size a] of None \<Rightarrow> -1 | Some j \<Rightarrow> int j)"
proof (induction "m_size a - i" arbitrary: i)
  case 0
  then show ?case
    by (subst getIndex_from.simps) simp
next
  case (Suc n)
  then have "i < m_size a"
    by simp
  with Suc show ?case
    by (subst getIndex_from.simps) (simp add: upt_conv_Cons)
qed

interpretation array: object_list "\<lambda>x a. snd (put (Some x) a)" "remove 0" take_last clear contents array_ok
proof
  fix q :: "'a object_array" and x xs
  assume ok: "array_ok q"
  show "contents (snd (put (Some x) q)) = contents q @ [x] \<and> array_ok (snd (put (Some x) q))"
    using put_ok [OF ok] by simp
  show "fst (take_last q) = None" if "contents q = []"
    using that length_contents [OF ok] by (simp add: take_last_def)
  show "contents (clear q) = [] \<and> array_ok (clear q)"
    using clear_ok by auto
  show "\<exists>q'. take_last q = (Some x, q') \<and> contents q' = xs \<and> array_ok q'" if "contents q = xs @ [x]"
    using take_last_ok [OF ok that] .
  show "\<exists>q'. remove 0 q = Some (Some x, q') \<and> contents q' = xs \<and> array_ok q'" if "contents q = x # xs"
    using remove_ok [OF ok, of 0] length_contents [OF ok] that by auto
qed

end
