(* ===== verification/Preview_Frames.thy ===== *)
theory Preview_Frames
  imports Uvc_Convert Preview_Array
begin

text \<open>
  The frames of the preview (\<open>UVCPreview.cpp\<close>): a pool of buffers, the queue from the camera's callback to the preview thread,
  the one frame waiting for the capture thread, and the copy of a picture to a surface. A frame is known by its address, a number drawn in
  order; the frames that exist are in the store \<open>frames\<close>. Each operation here is a section under one mutex of the class.
  \<open>lost\<close> is history: the frames nothing points to any more. Allocation succeeds; a frame comes with the contents \<open>fill\<close>
  and fields \<open>old\<close> of the memory it gets.
\<close>

abbreviation "MAX_FRAME \<equiv> (4 :: nat)"
abbreviation "FRAME_POOL_SZ \<equiv> MAX_FRAME + 2"
abbreviation "PREVIEW_PIXEL_BYTES \<equiv> (4 :: nat)"

section \<open>Surfaces\<close>

record surface =
  sf_width :: nat
  sf_height :: nat
  sf_stride :: nat
  sf_bits :: bytes

fun copy_rows :: "nat \<Rightarrow> bytes \<Rightarrow> nat \<Rightarrow> nat \<Rightarrow> nat \<Rightarrow> nat \<Rightarrow> nat \<Rightarrow> bytes \<Rightarrow> (nat \<times> nat \<times> bytes) option" where
  "copy_rows 0 src width stride_src stride_dest ip op dst = Some (ip, op, dst)"
| "copy_rows (Suc n) src width stride_src stride_dest ip op dst = do {
     dst \<leftarrow> copy_row width src ip op dst;
     copy_rows n src width stride_src stride_dest (ip + stride_src) (op + stride_dest) dst }"

function copy_groups :: "nat \<Rightarrow> nat \<Rightarrow> bytes \<Rightarrow> nat \<Rightarrow> nat \<Rightarrow> nat \<Rightarrow> nat \<Rightarrow> nat \<Rightarrow> bytes \<Rightarrow> bytes option" where
  "copy_groups i height src width stride_src stride_dest ip op dst =
     (if i < height then do {
        (ip, op, dst) \<leftarrow> copy_rows 8 src width stride_src stride_dest ip op dst;
        copy_groups (i + 8) height src width stride_src stride_dest ip op dst }
      else Some dst)"
  by pat_completeness auto
termination
  by (relation "measure (\<lambda>(i, height, _). height - i)") auto

declare copy_groups.simps [simp del]

definition copyFrame :: "bytes \<Rightarrow> bytes \<Rightarrow> nat \<Rightarrow> nat \<Rightarrow> nat \<Rightarrow> nat \<Rightarrow> bytes option" where
  "copyFrame src dest width height stride_src stride_dest = do {
     (ip, op, dest) \<leftarrow> copy_rows (height mod 8) src width stride_src stride_dest 0 0 dest;
     copy_groups 0 height src width stride_src stride_dest ip op dest }"

definition copyToSurface :: "library_frame \<Rightarrow> surface option \<Rightarrow> (int \<times> surface option) option" where
  "copyToSurface fr window = (case window of None \<Rightarrow> Some (-1, None)
     | Some buffer \<Rightarrow> let
           src_w = unat (fm_width fr) * PREVIEW_PIXEL_BYTES; src_step = unat (fm_width fr) * PREVIEW_PIXEL_BYTES;
           dest_w = sf_width buffer * PREVIEW_PIXEL_BYTES; dest_step = sf_stride buffer * PREVIEW_PIXEL_BYTES;
           w = (if src_w < dest_w then src_w else dest_w);
           h = (if unat (fm_height fr) < sf_height buffer then unat (fm_height fr) else sf_height buffer)
         in do {
           bits \<leftarrow> copyFrame (fm_data fr) (sf_bits buffer) w h src_step dest_step;
           Some (0, Some (buffer\<lparr>sf_bits := bits\<rparr>)) })"

text \<open>Zeros, row by row.\<close>

fun clear_rows :: "nat \<Rightarrow> nat \<Rightarrow> nat \<Rightarrow> nat \<Rightarrow> bytes \<Rightarrow> bytes option" where
  "clear_rows 0 width stride op dst = Some dst"
| "clear_rows (Suc n) width stride op dst = do {
     dst \<leftarrow> mem_write op (replicate width 0) dst;
     clear_rows n width stride (op + stride) dst }"

definition clear_surface :: "surface option \<Rightarrow> surface option option" where
  "clear_surface window = (case window of None \<Rightarrow> Some None
     | Some buffer \<Rightarrow> do {
         bits \<leftarrow> clear_rows (sf_height buffer) (sf_width buffer * PREVIEW_PIXEL_BYTES) (sf_stride buffer * PREVIEW_PIXEL_BYTES) 0 (sf_bits buffer);
         Some (Some (buffer\<lparr>sf_bits := bits\<rparr>)) })"

section \<open>State\<close>

record preview =
  mIsRunning :: bool
  mIsCapturing :: bool
  requestWidth :: u32
  requestHeight :: u32
  requestMode :: int
  frameWidth :: u32
  frameHeight :: u32
  frameMode :: int
  frameBytes :: nat
  previewBytes :: nat
  mPreviewWindow :: "surface option"
  mCaptureWindow :: "surface option"
  previewFrames :: "nat object_array"
  mFramePool :: "nat object_array"
  captureQueu :: "nat option"
  mFrameCallbackObj :: bool
  mFrameCallbackFunc :: "conversion option"
  mPixelFormat :: int
  callbackPixelBytes :: nat
  frames :: "nat \<rightharpoonup> library_frame"
  next_frame :: nat
  lost :: "nat list"

section \<open>The pool\<close>

definition get_frame :: "(nat \<Rightarrow> u8) \<Rightarrow> library_frame \<Rightarrow> nat \<Rightarrow> preview \<Rightarrow> nat \<times> preview" where
  "get_frame fill old data_bytes p = (case take_last (mFramePool p) of
       (Some f, pool) \<Rightarrow> (f, p\<lparr>mFramePool := pool\<rparr>)
     | (None, pool) \<Rightarrow> (next_frame p, p\<lparr>mFramePool := pool, next_frame := Suc (next_frame p),
         frames := (frames p)(next_frame p \<mapsto> uvc_allocate_frame fill old data_bytes)\<rparr>))"

definition recycle_frame :: "nat \<Rightarrow> preview \<Rightarrow> preview" where
  "recycle_frame f p =
     (if m_size (mFramePool p) < FRAME_POOL_SZ then p\<lparr>mFramePool := snd (put (Some f) (mFramePool p))\<rparr>
      else p\<lparr>frames := (frames p)(f := None)\<rparr>)"

definition clear_pool :: "preview \<Rightarrow> preview" where
  "clear_pool p = p\<lparr>frames := (\<lambda>f. if f \<in> set (contents (mFramePool p)) then None else frames p f), mFramePool := clear (mFramePool p)\<rparr>"

fun fill_pool :: "(nat \<Rightarrow> u8) \<Rightarrow> library_frame \<Rightarrow> nat \<Rightarrow> nat \<Rightarrow> preview \<Rightarrow> preview" where
  "fill_pool fill old data_bytes 0 p = p"
| "fill_pool fill old data_bytes (Suc n) p = fill_pool fill old data_bytes n
     (p\<lparr>mFramePool := snd (put (Some (next_frame p)) (mFramePool p)), next_frame := Suc (next_frame p),
       frames := (frames p)(next_frame p \<mapsto> uvc_allocate_frame fill old data_bytes)\<rparr>)"

definition init_pool :: "(nat \<Rightarrow> u8) \<Rightarrow> library_frame \<Rightarrow> nat \<Rightarrow> preview \<Rightarrow> preview" where
  "init_pool fill old data_bytes p = fill_pool fill old data_bytes FRAME_POOL_SZ (clear_pool p)"

definition store_frame :: "nat \<Rightarrow> library_frame \<Rightarrow> preview \<Rightarrow> preview" where
  "store_frame f fr p = p\<lparr>frames := (frames p)(f \<mapsto> fr)\<rparr>"

section \<open>The queue to the preview thread\<close>

text \<open>The frame goes into the queue, or is still the caller's to recycle.\<close>

definition addPreviewFrame :: "nat \<Rightarrow> preview \<Rightarrow> bool \<times> preview" where
  "addPreviewFrame f p =
     (if mIsRunning p \<and> m_size (previewFrames p) < MAX_FRAME
      then (True, p\<lparr>previewFrames := snd (put (Some f) (previewFrames p))\<rparr>) else (False, p))"

text \<open>What \<open>waitPreviewFrame\<close> does after its wait, if it waited.\<close>

definition take_preview_frame :: "preview \<Rightarrow> (nat option \<times> preview) option" where
  "take_preview_frame p =
     (if mIsRunning p \<and> m_size (previewFrames p) > 0
      then do { (f, q) \<leftarrow> remove 0 (previewFrames p); Some (f, p\<lparr>previewFrames := q\<rparr>) } else Some (None, p))"

definition clearPreviewFrame :: "preview \<Rightarrow> preview" where
  "clearPreviewFrame p = (let p = fold recycle_frame (contents (previewFrames p)) p
     in p\<lparr>previewFrames := clear (previewFrames p)\<rparr>)"

section \<open>The frame for the capture thread\<close>

definition clearCaptureFrame :: "preview \<Rightarrow> preview" where
  "clearCaptureFrame p = (let p = (case captureQueu p of None \<Rightarrow> p | Some f \<Rightarrow> recycle_frame f p) in p\<lparr>captureQueu := None\<rparr>)"

text \<open>When the preview is not running the frame is not kept anywhere.\<close>

definition addCaptureFrame :: "nat \<Rightarrow> preview \<Rightarrow> preview" where
  "addCaptureFrame f p =
     (if mIsRunning p
      then let p = (case captureQueu p of None \<Rightarrow> p | Some old \<Rightarrow> recycle_frame old p) in p\<lparr>captureQueu := Some f\<rparr>
      else p\<lparr>lost := f # lost p\<rparr>)"

definition take_capture_frame :: "preview \<Rightarrow> nat option \<times> preview" where
  "take_capture_frame p =
     (if mIsRunning p \<and> captureQueu p \<noteq> None then (captureQueu p, p\<lparr>captureQueu := None\<rparr>) else (None, p))"

section \<open>Sizes and formats\<close>

definition prepare_preview :: "int \<Rightarrow> (u16 \<times> u16) option \<Rightarrow> preview \<Rightarrow> int \<times> preview" where
  "prepare_preview negotiated frame_desc p =
     (if negotiated = UVC_SUCCESS
      then let (result, w, h) = (case frame_desc of
               Some (w, h) \<Rightarrow> (UVC_SUCCESS, ucast w, ucast h) | None \<Rightarrow> (UVC_ERROR_INVALID_PARAM, requestWidth p, requestHeight p))
        in (result, p\<lparr>frameWidth := w, frameHeight := h, frameMode := requestMode p,
             frameBytes := unat (w * h * (if requestMode p = 0 then 2 else 4)), previewBytes := unat (w * h * 4)\<rparr>)
      else (negotiated, p))"

text \<open>\<open>PIXEL_FORMAT_RAW\<close> to \<open>PIXEL_FORMAT_NV21\<close> are 0 to 5.\<close>

definition callbackPixelFormatChanged :: "decoder \<Rightarrow> (nat \<Rightarrow> u8) \<Rightarrow> preview \<Rightarrow> preview" where
  "callbackPixelFormatChanged mjpeg fill p = (let sz = requestWidth p * requestHeight p;
       p = p\<lparr>mFrameCallbackFunc := None\<rparr>
     in if mPixelFormat p = 0 \<or> mPixelFormat p = 1 then p\<lparr>callbackPixelBytes := unat (sz * 2)\<rparr>
        else if mPixelFormat p = 2 then p\<lparr>mFrameCallbackFunc := Some (uvc_any2rgb565 mjpeg fill), callbackPixelBytes := unat (sz * 2)\<rparr>
        else if mPixelFormat p = 3 then p\<lparr>mFrameCallbackFunc := Some (uvc_any2rgbx mjpeg fill), callbackPixelBytes := unat (sz * 4)\<rparr>
        else if mPixelFormat p = 4 then p\<lparr>mFrameCallbackFunc := Some (uvc_yuyv2iyuv420SP fill), callbackPixelBytes := unat (sz * 3 div 2)\<rparr>
        else if mPixelFormat p = 5 then p\<lparr>mFrameCallbackFunc := Some (uvc_yuyv2yuv420SP fill), callbackPixelBytes := unat (sz * 3 div 2)\<rparr>
        else p)"

text \<open>The size is asked for; \<open>prepare_preview\<close> makes it the size of the frames.\<close>

definition setPreviewSize :: "u32 \<Rightarrow> u32 \<Rightarrow> int \<Rightarrow> preview \<Rightarrow> preview" where
  "setPreviewSize width height mode p =
     (if requestWidth p \<noteq> width \<or> requestHeight p \<noteq> height \<or> requestMode p \<noteq> mode
      then p\<lparr>requestWidth := width, requestHeight := height, requestMode := mode\<rparr> else p)"

definition clearDisplay :: "preview \<Rightarrow> preview option" where
  "clearDisplay p = do {
     cw \<leftarrow> clear_surface (mCaptureWindow p);
     pw \<leftarrow> clear_surface (mPreviewWindow p);
     Some (p\<lparr>mCaptureWindow := cw, mPreviewWindow := pw\<rparr>) }"

text \<open>Whether the camera's callback takes a frame.\<close>

definition frame_accepted :: "preview \<Rightarrow> library_frame \<Rightarrow> bool" where
  "frame_accepted p f \<longleftrightarrow> mIsRunning p \<and> fm_format f \<noteq> FORMAT_UNKNOWN \<and> fm_data f \<noteq> [] \<and>
     \<not> (fm_format f \<noteq> FORMAT_MJPEG \<and> fm_actual_bytes f < frameBytes p \<or> fm_width f \<noteq> frameWidth p \<or> fm_height f \<noteq> frameHeight p)"

section \<open>Copies to a surface\<close>

lemma copy_rows_fail:
  assumes "0 < width" and "i < n" and "length src < ip + i * ss + width \<or> length dst < op + i * sd + width"
  shows "copy_rows n src width ss sd ip op dst = None"
  using assms(2,3)
proof (induction n arbitrary: i ip op dst)
  case (Suc n)
  show ?case
  proof (cases "copy_row width src ip op dst")
    case (Some d)
    then have len: "length d = length dst" "ip + width \<le> length src" "op + width \<le> length dst"
      using mem_write_length [of op "take width (drop ip src)" dst d]
      by (auto simp: copy_row_def ub_simps) (auto simp: mem_write_def split: if_splits)
    with Suc.prems(2) have "i \<noteq> 0"
      by (cases i) auto
    then obtain j where j: "i = Suc j"
      using not0_implies_Suc by blast
    with Suc.IH [where i = j and ip = "ip + ss" and op = "op + sd" and dst = d] Suc.prems len Some show ?thesis
      by (simp add: add.assoc)
  qed simp
qed simp

lemma copy_rows_ok:
  assumes "width \<le> ss" and "width \<le> sd" and "ip + n * ss \<le> length src" and "op + n * sd \<le> length dst"
  shows "\<exists>dst'. copy_rows n src width ss sd ip op dst = Some (ip + n * ss, op + n * sd, dst') \<and> length dst' = length dst \<and>
    take op dst' = take op dst \<and> (\<forall>r<n. take width (drop (op + r * sd) dst') = take width (drop (ip + r * ss) src))"
  using assms(3-)
proof (induction n arbitrary: ip op dst)
  case (Suc n)
  let ?row = "take width (drop ip src)"
  have row: "length ?row = width" "ip + width \<le> length src"
    using Suc.prems(1) assms(1) by simp_all
  have room: "op + width \<le> length dst"
    using Suc.prems(2) assms(2) by simp
  define d where "d = take op dst @ ?row @ drop (op + width) dst"
  have d: "mem_write op ?row dst = Some d" "length d = length dst"
    using mem_write_ok [of op ?row dst] row room by (simp_all add: d_def)
  obtain dst' where dst': "copy_rows n src width ss sd (ip + ss) (op + sd) d = Some (ip + ss + n * ss, op + sd + n * sd, dst')"
    "length dst' = length d" "take (op + sd) dst' = take (op + sd) d"
    "\<forall>r<n. take width (drop (op + sd + r * sd) dst') = take width (drop (ip + ss + r * ss) src)"
    using Suc.IH [of "ip + ss" "op + sd" d] Suc.prems d(2) by (auto simp: add.assoc)
  have first: "take width (drop op dst') = ?row"
  proof -
    have "take width (drop op dst') = drop op (take (op + width) (take (op + sd) dst'))"
      using assms(2) by (simp add: drop_take min_def)
    also have "\<dots> = drop op (take (op + width) d)"
      using assms(2) dst'(3) by (simp add: min_def)
    also have "\<dots> = ?row"
      using row room by (simp add: d_def)
    finally show ?thesis .
  qed
  have "take op dst' = take op (take (op + sd) dst')"
    by (simp add: min_def)
  also have "\<dots> = take op dst"
    using dst'(3) room by (simp add: min_def d_def)
  finally have before: "take op dst' = take op dst" .
  have "take width (drop (op + r * sd) dst') = take width (drop (ip + r * ss) src)" if "r < Suc n" for r
    using that first dst'(4) by (cases r) (simp_all add: add.assoc)
  with dst'(1,2) d before row show ?case
    by (simp add: copy_row_def add.assoc)
qed simp

lemma copy_rows_add:
  "copy_rows (m + n) src width ss sd ip op dst =
   do { (ip, op, dst) \<leftarrow> copy_rows m src width ss sd ip op dst; copy_rows n src width ss sd ip op dst }"
  by (induction m arbitrary: ip op dst) (auto split: bind_splits)

lemma copy_groups_rows:
  "i + 8 * k \<le> height \<Longrightarrow> copy_groups i height src width ss sd ip op dst =
   do { (ip, op, dst) \<leftarrow> copy_rows (8 * k) src width ss sd ip op dst; copy_groups (i + 8 * k) height src width ss sd ip op dst }"
proof (induction k arbitrary: i ip op dst)
  case (Suc k)
  have k: "8 * Suc k = 8 + 8 * k"
    by simp
  show ?case
  proof (cases "copy_rows 8 src width ss sd ip op dst")
    case None
    then show ?thesis
      using Suc.prems unfolding k copy_rows_add by (subst copy_groups.simps) simp
  next
    case (Some r)
    with Suc.IH [of "i + 8"] Suc.prems show ?thesis
      unfolding k copy_rows_add by (subst copy_groups.simps) (auto split: prod.split simp: add.assoc)
  qed
qed simp

text \<open>All rows are copied, and then another group when the height is not a multiple of eight.\<close>

lemma copyFrame_rows:
  "copyFrame src dst width height ss sd = do {
     (ip, op, dst) \<leftarrow> copy_rows height src width ss sd 0 0 dst;
     copy_groups (8 * (height div 8)) height src width ss sd ip op dst }"
proof -
  have "copy_rows height src width ss sd 0 0 dst = do {
      (ip, op, dst) \<leftarrow> copy_rows (height mod 8) src width ss sd 0 0 dst;
      copy_rows (8 * (height div 8)) src width ss sd ip op dst }"
    by (metis copy_rows_add mod_mult_div_eq)
  moreover have "copy_groups 0 height src width ss sd ip op d = do {
      (ip, op, dst) \<leftarrow> copy_rows (8 * (height div 8)) src width ss sd ip op d;
      copy_groups (8 * (height div 8)) height src width ss sd ip op dst }" for ip op d
    using copy_groups_rows [of 0 "height div 8" height] by simp
  ultimately show ?thesis
    unfolding copyFrame_def by (cases "copy_rows (height mod 8) src width ss sd 0 0 dst") (auto split: prod.split)
qed

lemma copy_groups_fail:
  assumes "0 < width" and "i < height" and "length src < ip + 7 * ss + width \<or> length dst < op + 7 * sd + width"
  shows "copy_groups i height src width ss sd ip op dst = None"
  using assms(2) copy_rows_fail [OF assms(1), of 7 8 src ip ss dst op sd] assms(3)
  by (subst copy_groups.simps) simp

lemma copy_to_surface:
  fixes fr :: library_frame and b :: surface
  defines "h \<equiv> min (unat (fm_height fr)) (sf_height b)" and "w \<equiv> min (unat (fm_width fr)) (sf_width b) * 4"
  assumes "length (fm_data fr) = unat (fm_height fr) * (unat (fm_width fr) * 4)" and "length (sf_bits b) = sf_height b * (sf_stride b * 4)"
    and "sf_width b \<le> sf_stride b" and "0 < w"
  shows "case copyToSurface fr (Some b) of
      None \<Rightarrow> \<not> 8 dvd h
    | Some (ret, window) \<Rightarrow> 8 dvd h \<and> ret = 0 \<and> (\<exists>bits. window = Some (b\<lparr>sf_bits := bits\<rparr>) \<and>
        (\<forall>r<h. take w (drop (r * (sf_stride b * 4)) bits) = take w (drop (r * (unat (fm_width fr) * 4)) (fm_data fr))))"
proof -
  let ?ss = "unat (fm_width fr) * 4" and ?sd = "sf_stride b * 4" and ?src = "fm_data fr" and ?dst = "sf_bits b"
  have copy: "copyToSurface fr (Some b) = map_option (\<lambda>bits. (0, Some (b\<lparr>sf_bits := bits\<rparr>))) (copyFrame ?src ?dst w h ?ss ?sd)"
    by (auto simp: copyToSurface_def h_def w_def Let_def min_def map_conv_bind_option comp_def)
  have w: "w \<le> ?ss" "w \<le> ?sd"
    using assms(5) by (auto simp: w_def)
  have rows: "h * ?ss \<le> length ?src" "h * ?sd \<le> length ?dst"
    using assms(3,4) by (simp_all add: h_def)
  obtain d where d: "copy_rows h ?src w ?ss ?sd 0 0 ?dst = Some (h * ?ss, h * ?sd, d)" "length d = length ?dst"
    "\<forall>r<h. take w (drop (r * ?sd) d) = take w (drop (r * ?ss) ?src)"
    using copy_rows_ok [OF w, of 0 h ?src 0 ?dst] rows by auto
  show ?thesis
  proof (cases "8 dvd h")
    case True
    with d have "copyFrame ?src ?dst w h ?ss ?sd = Some d"
      by (subst copyFrame_rows) (simp add: copy_groups.simps)
    with True copy d(3) show ?thesis
      by (auto intro!: exI [of _ d])
  next
    case False
    then have "8 * (h div 8) < h"
      by (metis div_mult_self1_is_m dvd_triv_left le_neq_implies_less times_div_less_eq_dividend)
    moreover have "h = unat (fm_height fr) \<or> h = sf_height b"
      by (auto simp: h_def)
    then have "length ?src < h * ?ss + 7 * ?ss + w \<or> length d < h * ?sd + 7 * ?sd + w"
      using assms(3,4,6) d(2) by auto
    ultimately have "copy_groups (8 * (h div 8)) h ?src w ?ss ?sd (h * ?ss) (h * ?sd) d = None"
      by (intro copy_groups_fail [OF assms(6)])
    with d False show ?thesis
      by (subst copy, subst copyFrame_rows) simp
  qed
qed

text \<open>A picture reaches the surface row by row when the number of rows copied is a multiple of eight. Otherwise the remainder is copied
  first and then the groups of eight for the whole height again, past the end of the picture or of the surface.\<close>

theorem copyToSurface_iff:
  fixes fr :: library_frame and b :: surface
  assumes "length (fm_data fr) = unat (fm_height fr) * (unat (fm_width fr) * 4)" and "length (sf_bits b) = sf_height b * (sf_stride b * 4)"
    and "sf_width b \<le> sf_stride b" and "fm_width fr \<noteq> 0" and "0 < sf_width b"
  shows "let h = min (unat (fm_height fr)) (sf_height b); w = min (unat (fm_width fr)) (sf_width b) * 4
    in case copyToSurface fr (Some b) of
      None \<Rightarrow> \<not> 8 dvd h
    | Some (ret, window) \<Rightarrow> 8 dvd h \<and> ret = 0 \<and> (\<exists>bits. window = Some (b\<lparr>sf_bits := bits\<rparr>) \<and>
        (\<forall>r<h. take w (drop (r * (sf_stride b * 4)) bits) = take w (drop (r * (unat (fm_width fr) * 4)) (fm_data fr))))"
  using copy_to_surface [OF assms(1-3)] assms(4,5) unfolding Let_def by (simp add: unat_gt_0)

theorem copyToSurface_iff_witness:
  "copyToSurface (demo_image 1 4 demo_row) (Some \<lparr>sf_width = 1, sf_height = 4, sf_stride = 1, sf_bits = replicate 16 0\<rparr>) = None"
  using copyToSurface_iff [of "demo_image 1 4 demo_row" "\<lparr>sf_width = 1, sf_height = 4, sf_stride = 1, sf_bits = replicate 16 0\<rparr>"]
  by (auto simp: demo_image_def demo_row_def split: option.splits)

section \<open>Ownership\<close>

text \<open>Every frame that exists is in exactly one place: the pool, the queue, the slot for the capture thread, the frames lost, or the
  local variables of the threads, \<open>held\<close>; and the pool and the queue keep to their sizes.\<close>

definition bag :: "preview \<Rightarrow> nat list" where
  "bag p = contents (mFramePool p) @ contents (previewFrames p) @ (case captureQueu p of None \<Rightarrow> [] | Some f \<Rightarrow> [f]) @ lost p"

definition owned :: "preview \<Rightarrow> nat list \<Rightarrow> bool" where
  "owned p held \<longleftrightarrow> array_ok (mFramePool p) \<and> array_ok (previewFrames p) \<and> m_size (mFramePool p) \<le> FRAME_POOL_SZ \<and>
     m_size (previewFrames p) \<le> MAX_FRAME \<and> (\<forall>x \<ge> next_frame p. frames p x = None) \<and>
     (\<forall>x. count_list (bag p) x + count_list held x = (if frames p x = None then 0 else 1))"

lemma owned_cong: "(\<And>x. count_list xs x = count_list ys x) \<Longrightarrow> owned p xs = owned p ys"
  by (simp add: owned_def)

lemma owned_exists: "owned p held \<Longrightarrow> f \<in> set held \<Longrightarrow> frames p f \<noteq> None"
  unfolding owned_def by (metis add_is_0 count_list_0_iff)

lemma owned_pool: "owned p held \<Longrightarrow> array_ok (mFramePool p) \<and> m_size (mFramePool p) \<le> FRAME_POOL_SZ"
  and owned_queue: "owned p held \<Longrightarrow> array_ok (previewFrames p) \<and> m_size (previewFrames p) \<le> MAX_FRAME"
  by (simp_all add: owned_def)

text \<open>Frames move between the places.\<close>

lemma owned_move:
  assumes "owned p held" and "frames p' = frames p" "next_frame p' = next_frame p"
    and "array_ok (mFramePool p') \<and> m_size (mFramePool p') \<le> FRAME_POOL_SZ"
    and "array_ok (previewFrames p') \<and> m_size (previewFrames p') \<le> MAX_FRAME"
    and "\<And>x. count_list (bag p') x + count_list held' x = count_list (bag p) x + count_list held x"
  shows "owned p' held'"
  using assms by (simp add: owned_def)

lemma owned_get:
  assumes "owned p held" and "get_frame fill old n p = (c, p')"
  shows "owned p' (c # held)"
proof (cases "contents (mFramePool p) = []")
  case True
  have ok: "array_ok (mFramePool p)"
    using assms(1) by (simp add: owned_def)
  with True have "take_last (mFramePool p) = (None, mFramePool p)"
    using length_contents [OF ok] by (simp add: take_last_def)
  with assms(2) have "c = next_frame p" "p' = p\<lparr>next_frame := Suc (next_frame p),
      frames := (frames p)(next_frame p \<mapsto> uvc_allocate_frame fill old n)\<rparr>"
    by (auto simp: get_frame_def)
  moreover have count: "count_list (bag p) x + count_list held x = (if frames p x = None then 0 else 1)" for x
    using assms(1) by (simp add: owned_def)
  have "count_list (bag p) x + count_list (next_frame p # held) x = (if x \<noteq> next_frame p \<and> frames p x = None then 0 else 1)" for x
    using count [of x] assms(1) by (cases "x = next_frame p") (auto simp: owned_def)
  ultimately show ?thesis
    using assms(1) by (simp add: owned_def bag_def)
next
  case False
  then obtain xs f where pool: "contents (mFramePool p) = xs @ [f]"
    by (metis rev_exhaust)
  have ok: "array_ok (mFramePool p)"
    using assms(1) by (simp add: owned_def)
  obtain q where q: "take_last (mFramePool p) = (Some f, q)" "contents q = xs" "array_ok q"
    using array.pop_law [OF ok pool] by auto
  with assms(2) have "c = f" "p' = p\<lparr>mFramePool := q\<rparr>"
    by (auto simp: get_frame_def)
  moreover have "m_size q \<le> m_size (mFramePool p)"
    using length_contents [OF ok] length_contents [OF q(3)] pool q(2) by simp
  ultimately show ?thesis
    using assms(1) pool q(2,3) owned_pool [OF assms(1)] owned_queue [OF assms(1)]
    by (intro owned_move [OF assms(1)]) (auto simp: bag_def)
qed

lemma owned_recycle:
  assumes "owned p (f # held)"
  shows "owned (recycle_frame f p) held"
proof (cases "m_size (mFramePool p) < FRAME_POOL_SZ")
  case True
  have ok: "array_ok (mFramePool p)"
    using assms by (simp add: owned_def)
  let ?q = "snd (put (Some f) (mFramePool p))"
  have q: "contents ?q = contents (mFramePool p) @ [f]" "array_ok ?q"
    using array.add_law [OF ok] by auto
  then have "m_size ?q = Suc (m_size (mFramePool p))"
    using length_contents [OF q(2)] length_contents [OF ok] by simp
  with True q owned_queue [OF assms] show ?thesis
    by (intro owned_move [OF assms]) (auto simp: bag_def recycle_frame_def)
next
  case False
  have count: "count_list (bag p) x + count_list (f # held) x = (if frames p x = None then 0 else 1)" for x
    using assms by (simp add: owned_def)
  have "count_list (bag p) x + count_list held x = (if x = f \<or> frames p x = None then 0 else 1)" for x
    using count [of x] by (cases "x = f") (auto split: if_splits)
  moreover have "bag (p\<lparr>frames := (frames p)(f := None)\<rparr>) = bag p"
    by (simp add: bag_def)
  ultimately show ?thesis
    using False assms by (simp add: owned_def recycle_frame_def)
qed

lemma owned_add_preview:
  assumes "owned p (f # held)" and "addPreviewFrame f p = (kept, p')"
  shows "owned p' (if kept then held else f # held)"
proof -
  have ok: "array_ok (previewFrames p)"
    using assms(1) by (simp add: owned_def)
  let ?q = "snd (put (Some f) (previewFrames p))"
  have q: "contents ?q = contents (previewFrames p) @ [f]" "array_ok ?q"
    using array.add_law [OF ok] by auto
  then have "m_size ?q = Suc (m_size (previewFrames p))"
    using length_contents [OF q(2)] length_contents [OF ok] by simp
  with q assms(2) owned_pool [OF assms(1)] owned_queue [OF assms(1)] show ?thesis
    by (intro owned_move [OF assms(1)]) (auto simp: bag_def addPreviewFrame_def split: if_splits)
qed

lemma owned_take_preview:
  assumes "owned p held"
  obtains f p' where "take_preview_frame p = Some (f, p')" "owned p' (case f of None \<Rightarrow> held | Some f \<Rightarrow> f # held)"
proof (cases "mIsRunning p \<and> m_size (previewFrames p) > 0")
  case True
  have ok: "array_ok (previewFrames p)"
    using assms by (simp add: owned_def)
  with True obtain x xs where items: "contents (previewFrames p) = x # xs"
    using length_contents [OF ok] by (cases "contents (previewFrames p)") auto
  obtain q where q: "remove 0 (previewFrames p) = Some (Some x, q)" "contents q = xs" "array_ok q"
    using array.first_law [OF ok items] by auto
  then have "m_size q \<le> m_size (previewFrames p)"
    using length_contents [OF q(3)] length_contents [OF ok] items by simp
  then have "owned (p\<lparr>previewFrames := q\<rparr>) (x # held)"
    using q items owned_pool [OF assms] owned_queue [OF assms] by (intro owned_move [OF assms]) (auto simp: bag_def)
  with True q show ?thesis
    by (intro that [of "Some x" "p\<lparr>previewFrames := q\<rparr>"]) (auto simp: take_preview_frame_def)
next
  case False
  with assms show ?thesis
    by (intro that [of None p]) (auto simp: take_preview_frame_def)
qed

lemma recycle_keeps: "previewFrames (recycle_frame f p) = previewFrames p" "captureQueu (recycle_frame f p) = captureQueu p"
  by (simp_all add: recycle_frame_def)

lemma owned_set_slot:
  assumes "owned p held" and "\<And>x. count_list (case c of None \<Rightarrow> [] | Some f \<Rightarrow> [f]) x + count_list held' x =
    count_list (case captureQueu p of None \<Rightarrow> [] | Some f \<Rightarrow> [f]) x + count_list held x"
  shows "owned (p\<lparr>captureQueu := c\<rparr>) held'"
proof (rule owned_move [OF assms(1)])
  fix x
  show "count_list (bag (p\<lparr>captureQueu := c\<rparr>)) x + count_list held' x = count_list (bag p) x + count_list held x"
    using assms(2) [of x] by (simp add: bag_def)
qed (use owned_pool [OF assms(1)] owned_queue [OF assms(1)] in simp_all)

lemma owned_clear_slot:
  "owned p held \<Longrightarrow> captureQueu p = Some f \<Longrightarrow> owned (p\<lparr>captureQueu := None\<rparr>) (f # held)"
  by (erule owned_set_slot) simp

lemma owned_no_slot: "owned p held \<Longrightarrow> captureQueu p = None \<Longrightarrow> owned (p\<lparr>captureQueu := None\<rparr>) held"
  by (erule owned_set_slot) simp

lemma recycle_slot: "(recycle_frame f p)\<lparr>captureQueu := c\<rparr> = recycle_frame f (p\<lparr>captureQueu := c\<rparr>)"
  and recycle_queue: "(recycle_frame f p)\<lparr>previewFrames := q\<rparr> = recycle_frame f (p\<lparr>previewFrames := q\<rparr>)"
  by (simp_all add: recycle_frame_def)

lemma owned_clear_capture: "owned p held \<Longrightarrow> owned (clearCaptureFrame p) held"
  by (cases "captureQueu p")
    (auto simp: clearCaptureFrame_def Let_def recycle_slot intro: owned_recycle owned_clear_slot owned_no_slot)

lemma owned_add_capture:
  assumes "owned p (f # held)"
  shows "owned (addCaptureFrame f p) held"
proof -
  have set_slot: "owned (p\<lparr>captureQueu := Some f\<rparr>) held" if "owned p (f # held)" "captureQueu p = None" for p
    using that by (intro owned_set_slot [OF that(1)]) simp
  have "owned (clearCaptureFrame p) (f # held)"
    using owned_clear_capture [OF assms] .
  moreover have "captureQueu (clearCaptureFrame p) = None"
    by (simp add: clearCaptureFrame_def Let_def)
  ultimately have "owned ((clearCaptureFrame p)\<lparr>captureQueu := Some f\<rparr>) held"
    by (rule set_slot)
  moreover have "owned (p\<lparr>lost := f # lost p\<rparr>) held"
    using owned_pool [OF assms] owned_queue [OF assms] by (intro owned_move [OF assms]) (auto simp: bag_def)
  ultimately show ?thesis
    by (simp add: addCaptureFrame_def clearCaptureFrame_def Let_def)
qed

lemma owned_take_capture:
  assumes "owned p held" and "take_capture_frame p = (f, p')"
  shows "owned p' (case f of None \<Rightarrow> held | Some f \<Rightarrow> f # held)"
proof (cases "mIsRunning p \<and> captureQueu p \<noteq> None")
  case True
  then obtain g where "captureQueu p = Some g"
    by blast
  with True assms(2) have "f = Some g" "p' = p\<lparr>captureQueu := None\<rparr>"
    by (simp_all add: take_capture_frame_def)
  with owned_clear_slot [OF assms(1) \<open>captureQueu p = Some g\<close>] show ?thesis
    by simp
next
  case False
  with assms show ?thesis
    by (auto simp: take_capture_frame_def)
qed

lemma owned_fold_recycle: "owned p (fs @ held) \<Longrightarrow> owned (fold recycle_frame fs p) held"
  by (induction fs arbitrary: p) (auto intro: owned_recycle)

lemma owned_clear_preview:
  assumes "owned p held"
  shows "owned (clearPreviewFrame p) held"
proof -
  let ?fs = "contents (previewFrames p)" and ?q = "clear (previewFrames p)"
  have fold: "(fold recycle_frame fs p)\<lparr>previewFrames := q\<rparr> = fold recycle_frame fs (p\<lparr>previewFrames := q\<rparr>)" for fs p q
    by (induction fs arbitrary: p) (simp_all add: recycle_queue)
  have "m_size ?q = 0"
    by (simp add: clear_def)
  then have "owned (p\<lparr>previewFrames := ?q\<rparr>) (?fs @ held)"
    using clear_ok [of "previewFrames p"] owned_pool [OF assms] by (intro owned_move [OF assms]) (auto simp: bag_def)
  moreover have "previewFrames (fold recycle_frame fs p) = previewFrames p" for fs p
    by (induction fs arbitrary: p) (simp_all add: recycle_keeps)
  ultimately show ?thesis
    unfolding clearPreviewFrame_def Let_def fold by (simp add: owned_fold_recycle)
qed

lemma owned_store:
  assumes "owned p held" and "frames p f \<noteq> None"
  shows "owned (store_frame f fr p) held"
  using assms by (auto simp: owned_def bag_def store_frame_def)

text \<open>The same, for the frames held in any order.\<close>

lemma owned_perm: "owned p xs \<Longrightarrow> (\<And>x. count_list ys x = count_list xs x) \<Longrightarrow> owned p ys"
  using owned_cong [of xs ys p] by simp

lemma get_perm:
  "owned p xs \<Longrightarrow> get_frame fill old n p = (c, p') \<Longrightarrow> (\<And>x. count_list ys x = count_list (c # xs) x) \<Longrightarrow> owned p' ys"
  by (rule owned_perm, erule (1) owned_get)

lemma recycle_perm:
  "owned p xs \<Longrightarrow> (\<And>x. count_list (f # ys) x = count_list xs x) \<Longrightarrow> owned (recycle_frame f p) ys"
  by (rule owned_recycle, erule owned_perm)

lemma add_preview_perm:
  "owned p xs \<Longrightarrow> addPreviewFrame f p = (kept, p') \<Longrightarrow> (\<And>x. count_list (f # ys) x = count_list xs x) \<Longrightarrow>
   owned p' (if kept then ys else f # ys)"
  by (erule owned_add_preview [rotated], erule owned_perm)

lemma add_capture_perm:
  "owned p xs \<Longrightarrow> (\<And>x. count_list (f # ys) x = count_list xs x) \<Longrightarrow> owned (addCaptureFrame f p) ys"
  by (rule owned_add_capture, erule owned_perm)

text \<open>Fields that do not matter to it.\<close>

lemma owned_fields:
  "owned (p\<lparr>mIsRunning := r\<rparr>) held = owned p held" "owned (p\<lparr>mIsCapturing := r\<rparr>) held = owned p held"
  "owned (p\<lparr>mPreviewWindow := sf\<rparr>) held = owned p held" "owned (p\<lparr>mCaptureWindow := sf\<rparr>) held = owned p held"
  "owned (p\<lparr>mFrameCallbackObj := r\<rparr>) held = owned p held" "owned (p\<lparr>mPixelFormat := n\<rparr>) held = owned p held"
  by (simp_all add: owned_def bag_def)

lemma owned_prepare: "owned (snd (prepare_preview r d p)) held = owned p held"
  by (simp add: prepare_preview_def owned_def bag_def Let_def split: option.split prod.split)

lemma owned_format: "owned (callbackPixelFormatChanged mjpeg fill p) held = owned p held"
  by (simp add: callbackPixelFormatChanged_def owned_def bag_def Let_def)

lemma owned_size: "owned (setPreviewSize width height mode p) held = owned p held"
  by (simp add: setPreviewSize_def owned_def bag_def)

end
