(* ===== verification/Preview_Threads.thy ===== *)
theory Preview_Threads
  imports Preview_Frames
begin

text \<open>
  The threads of the preview (\<open>UVCPreview.cpp\<close>): the camera's callback thread, the preview thread, the capture thread and the
  application's. Each thread is a program counter that carries the frames of its local variables; a step goes from one section under a
  mutex to the next, and an event says which thread moves. Undefined behaviour is \<open>None\<close>: a frame that does not exist, a conversion
  or copy outside its buffers, joining a thread that was never created.
\<close>

section \<open>Threads\<close>

datatype callback_thread = CB_Idle | CB_Get library_frame | CB_Duplicate library_frame nat | CB_Add nat | CB_Recycle nat

datatype preview_thread = PT_None | PT_Prepare | PT_Start | PT_Clear | PT_Create | PT_Loop | PT_Wait | PT_Blocked | PT_Woken
  | PT_Mjpeg nat | PT_Decode nat nat | PT_Recycle_Mjpeg nat nat bool | PT_Recycle nat
  | PT_Draw nat | PT_Get_Converted nat | PT_Convert nat nat | PT_Show nat nat | PT_Recycle_Converted nat nat | PT_Capture nat
  | PT_Finish | PT_Stop_Streaming | PT_Exit

text \<open>\<open>surface\<close>: inside \<open>do_capture_surface\<close>; \<open>converted\<close>: its local frame.\<close>

datatype capture_thread = CT_None | CT_Init | CT_Format | CT_Loop | CT_Check bool "nat option" | CT_Wait bool "nat option"
  | CT_Blocked bool "nat option" | CT_Woken bool "nat option" | CT_Surface nat "nat option" | CT_Convert nat nat
  | CT_Callback bool "nat option" nat | CT_Function bool "nat option" nat nat | CT_Recycle_Frame bool "nat option" nat nat bool
  | CT_Deliver bool "nat option" nat | CT_Recycle bool "nat option" nat | CT_Leave bool "nat option" | CT_Exit

text \<open>The two waits of the setters carry the arguments of the call.\<close>

datatype main_thread = M_Idle | M_Join_Capture | M_Join_Preview | M_Clear_Display | M_Clear_Preview | M_Clear_Capture
  | M_Wait_Callback bool int | M_Set_Callback bool int | M_Wait_Capture "surface option" | M_Set_Capture "surface option"

record system =
  pv :: preview
  cb :: callback_thread
  pt :: preview_thread
  ct :: capture_thread
  mt :: main_thread
  streaming :: bool
  delivered :: "(bytes \<times> nat) list"

text \<open>What is not in this file: the decoder, the contents of fresh memory, and what the camera answers.\<close>

record world =
  w_mjpeg :: decoder
  w_fill :: "nat \<Rightarrow> u8"
  w_old :: library_frame
  w_negotiated :: int
  w_frame_desc :: "(u16 \<times> u16) option"
  w_started :: int

datatype event = Frame library_frame | CB | PT | CT | Main | Start | Stop | Set_Size u32 u32 int | Set_Display "surface option"
  | Set_Callback bool int | Set_Capture_Display "surface option" | Spurious_Preview | Spurious_Capture

section \<open>The callback thread\<close>

definition signal_preview :: "system \<Rightarrow> system" where
  "signal_preview s = (if pt s = PT_Blocked then s\<lparr>pt := PT_Woken\<rparr> else s)"

text \<open>A signal of \<open>capture_sync\<close> wakes the capture thread and a setter that waits for it: a broadcast wakes both, and where the code
  only signals, both may wake.\<close>

definition signal_capture :: "system \<Rightarrow> system" where
  "signal_capture s = s\<lparr>ct := (case ct s of CT_Blocked sf cv \<Rightarrow> CT_Woken sf cv | c \<Rightarrow> c),
     mt := (case mt s of M_Wait_Callback obj format \<Rightarrow> M_Set_Callback obj format | M_Wait_Capture sf \<Rightarrow> M_Set_Capture sf | m \<Rightarrow> m)\<rparr>"

text \<open>A conversion of the frame \<open>f\<close> into the frame \<open>g\<close>.\<close>

definition convert_frame :: "conversion \<Rightarrow> nat \<Rightarrow> nat \<Rightarrow> preview \<Rightarrow> (int \<times> preview) option" where
  "convert_frame conv f g p = do { a \<leftarrow> frames p f; b \<leftarrow> frames p g; (ret, b) \<leftarrow> conv a b; Some (ret, store_frame g b p) }"

definition cb_frame :: "library_frame \<Rightarrow> system \<Rightarrow> system" where
  "cb_frame fr s = (if streaming s \<and> cb s = CB_Idle \<and> frame_accepted (pv s) fr then s\<lparr>cb := CB_Get fr\<rparr> else s)"

fun cb_step :: "world \<Rightarrow> callback_thread \<Rightarrow> system \<Rightarrow> system option" where
  "cb_step w CB_Idle s = Some s"
| "cb_step w (CB_Get fr) s =
     (if mIsRunning (pv s)
      then let (c, p) = get_frame (w_fill w) (w_old w) (length (fm_data fr)) (pv s) in Some (s\<lparr>pv := p, cb := CB_Duplicate fr c\<rparr>)
      else Some (s\<lparr>cb := CB_Idle\<rparr>))"
| "cb_step w (CB_Duplicate fr c) s = do {
     copy \<leftarrow> frames (pv s) c;
     (ret, copy) \<leftarrow> uvc_duplicate_frame (w_fill w) fr copy;
     Some (s\<lparr>pv := store_frame c copy (pv s), cb := (if ret \<noteq> 0 then CB_Recycle c else CB_Add c)\<rparr>) }"
| "cb_step w (CB_Add c) s = (case addPreviewFrame c (pv s) of (kept, p) \<Rightarrow>
     if kept then Some (signal_preview (s\<lparr>pv := p, cb := CB_Idle\<rparr>)) else Some (s\<lparr>pv := p, cb := CB_Recycle c\<rparr>))"
| "cb_step w (CB_Recycle c) s = Some (s\<lparr>pv := recycle_frame c (pv s), cb := CB_Idle\<rparr>)"

section \<open>The preview thread\<close>

definition pt_take :: "system \<Rightarrow> system option" where
  "pt_take s = do {
     (f, p) \<leftarrow> take_preview_frame (pv s);
     Some (s\<lparr>pv := p, pt := (case f of None \<Rightarrow> PT_Loop | Some f \<Rightarrow> if frameMode p \<noteq> 0 then PT_Mjpeg f else PT_Draw f)\<rparr>) }"

fun pt_step :: "world \<Rightarrow> preview_thread \<Rightarrow> system \<Rightarrow> system option" where
  "pt_step w PT_None s = Some s"
| "pt_step w PT_Prepare s = (case prepare_preview (w_negotiated w) (w_frame_desc w) (pv s) of (result, p) \<Rightarrow>
     Some (s\<lparr>pv := p, pt := (if result = 0 then PT_Start else PT_Exit)\<rparr>))"
| "pt_step w PT_Start s =
     (if w_started w = 0 then Some (s\<lparr>pt := PT_Clear, streaming := True\<rparr>) else Some (s\<lparr>pt := PT_Exit\<rparr>))"
| "pt_step w PT_Clear s = Some (s\<lparr>pv := clearPreviewFrame (pv s), pt := PT_Create\<rparr>)"
| "pt_step w PT_Create s = Some (s\<lparr>pt := PT_Loop, ct := CT_Init\<rparr>)"
| "pt_step w PT_Loop s = Some (s\<lparr>pt := (if mIsRunning (pv s) then PT_Wait else PT_Finish)\<rparr>)"
| "pt_step w PT_Wait s = (if m_size (previewFrames (pv s)) = 0 then Some (s\<lparr>pt := PT_Blocked\<rparr>) else pt_take s)"
| "pt_step w PT_Blocked s = Some s"
| "pt_step w PT_Woken s = pt_take s"
| "pt_step w (PT_Mjpeg m) s = do {
     fr \<leftarrow> frames (pv s) m;
     (case get_frame (w_fill w) (w_old w) (unat (fm_width fr * fm_height fr * 2)) (pv s) of (f, p) \<Rightarrow>
        Some (s\<lparr>pv := p, pt := PT_Decode m f\<rparr>)) }"
| "pt_step w (PT_Decode m f) s = do {
     (ret, p) \<leftarrow> convert_frame (w_mjpeg w FORMAT_YUYV) m f (pv s);
     Some (s\<lparr>pv := p, pt := PT_Recycle_Mjpeg m f (ret = 0)\<rparr>) }"
| "pt_step w (PT_Recycle_Mjpeg m f ok) s = Some (s\<lparr>pv := recycle_frame m (pv s), pt := (if ok then PT_Draw f else PT_Recycle f)\<rparr>)"
| "pt_step w (PT_Recycle f) s = Some (s\<lparr>pv := recycle_frame f (pv s), pt := PT_Loop\<rparr>)"
| "pt_step w (PT_Draw f) s = Some (s\<lparr>pt := (if mPreviewWindow (pv s) \<noteq> None then PT_Get_Converted f else PT_Capture f)\<rparr>)"
| "pt_step w (PT_Get_Converted f) s = do {
     fr \<leftarrow> frames (pv s) f;
     (case get_frame (w_fill w) (w_old w) (unat (fm_width fr * fm_height fr * 4)) (pv s) of (c, p) \<Rightarrow>
        Some (s\<lparr>pv := p, pt := PT_Convert f c\<rparr>)) }"
| "pt_step w (PT_Convert f c) s = do {
     (ret, p) \<leftarrow> convert_frame (uvc_any2rgbx (w_mjpeg w) (w_fill w)) f c (pv s);
     Some (s\<lparr>pv := p, pt := (if ret = 0 then PT_Show f c else PT_Recycle_Converted f c)\<rparr>) }"
| "pt_step w (PT_Show f c) s = do {
     fr \<leftarrow> frames (pv s) c;
     (_, window) \<leftarrow> copyToSurface fr (mPreviewWindow (pv s));
     Some (s\<lparr>pv := (pv s)\<lparr>mPreviewWindow := window\<rparr>, pt := PT_Recycle_Converted f c\<rparr>) }"
| "pt_step w (PT_Recycle_Converted f c) s = Some (s\<lparr>pv := recycle_frame c (pv s), pt := PT_Capture f\<rparr>)"
| "pt_step w (PT_Capture f) s = (let s' = s\<lparr>pv := addCaptureFrame f (pv s), pt := PT_Loop\<rparr>
     in Some (if mIsRunning (pv s) then signal_capture s' else s'))"
| "pt_step w PT_Finish s = Some (signal_capture (s\<lparr>pt := PT_Stop_Streaming\<rparr>))"
| "pt_step w PT_Stop_Streaming s = Some (if cb s = CB_Idle then s\<lparr>pt := PT_Exit, streaming := False\<rparr> else s)"
| "pt_step w PT_Exit s = Some s"

section \<open>The capture thread\<close>

definition ct_take :: "bool \<Rightarrow> nat option \<Rightarrow> system \<Rightarrow> system" where
  "ct_take sf cv s = (case take_capture_frame (pv s) of (f, p) \<Rightarrow>
     s\<lparr>pv := p, ct := (case f of None \<Rightarrow> CT_Check sf cv
       | Some f \<Rightarrow> if sf \<and> mIsCapturing p then CT_Surface f cv else CT_Callback sf cv f)\<rparr>)"

fun ct_step :: "world \<Rightarrow> capture_thread \<Rightarrow> system \<Rightarrow> system option" where
  "ct_step w CT_None s = Some s"
| "ct_step w CT_Init s = Some (s\<lparr>pv := clearCaptureFrame (pv s), ct := CT_Format\<rparr>)"
| "ct_step w CT_Format s = Some (s\<lparr>pv := callbackPixelFormatChanged (w_mjpeg w) (w_fill w) (pv s), ct := CT_Loop\<rparr>)"
| "ct_step w CT_Loop s =
     (if mIsRunning (pv s) then Some (s\<lparr>pv := (pv s)\<lparr>mIsCapturing := True\<rparr>, ct := CT_Check (mCaptureWindow (pv s) \<noteq> None) None\<rparr>)
      else Some (s\<lparr>ct := CT_Exit\<rparr>))"
| "ct_step w (CT_Check sf cv) s =
     Some (s\<lparr>ct := (if mIsRunning (pv s) \<and> mIsCapturing (pv s) then CT_Wait sf cv else CT_Leave sf cv)\<rparr>)"
| "ct_step w (CT_Wait sf cv) s = Some (if captureQueu (pv s) = None then s\<lparr>ct := CT_Blocked sf cv\<rparr> else ct_take sf cv s)"
| "ct_step w (CT_Blocked sf cv) s = Some s"
| "ct_step w (CT_Woken sf cv) s = Some (ct_take sf cv s)"
| "ct_step w (CT_Surface f None) s = (case get_frame (w_fill w) (w_old w) (previewBytes (pv s)) (pv s) of (c, p) \<Rightarrow>
     Some (s\<lparr>pv := p, ct := CT_Convert f c\<rparr>))"
| "ct_step w (CT_Surface f (Some c)) s = Some (s\<lparr>ct := CT_Convert f c\<rparr>)"
| "ct_step w (CT_Convert f c) s = do {
     (ret, p) \<leftarrow> convert_frame (uvc_any2rgbx (w_mjpeg w) (w_fill w)) f c (pv s);
     fr \<leftarrow> frames p c;
     (_, window) \<leftarrow> (if ret = 0 then copyToSurface fr (mCaptureWindow p) else Some (0, mCaptureWindow p));
     Some (s\<lparr>pv := p\<lparr>mCaptureWindow := window\<rparr>, ct := CT_Callback True (Some c) f\<rparr>) }"
| "ct_step w (CT_Callback sf cv f) s =
     (if \<not> mFrameCallbackObj (pv s) then Some (s\<lparr>ct := CT_Recycle sf cv f\<rparr>)
      else if mFrameCallbackFunc (pv s) = None then Some (s\<lparr>ct := CT_Deliver sf cv f\<rparr>)
      else case get_frame (w_fill w) (w_old w) (callbackPixelBytes (pv s)) (pv s) of (g, p) \<Rightarrow>
        Some (s\<lparr>pv := p, ct := CT_Function sf cv f g\<rparr>))"
| "ct_step w (CT_Function sf cv f g) s = (case mFrameCallbackFunc (pv s) of None \<Rightarrow> None
     | Some conv \<Rightarrow> do {
         (b, p) \<leftarrow> convert_frame conv f g (pv s);
         Some (s\<lparr>pv := p, ct := CT_Recycle_Frame sf cv f g (b = 0)\<rparr>) })"
| "ct_step w (CT_Recycle_Frame sf cv f g ok) s =
     Some (s\<lparr>pv := recycle_frame f (pv s), ct := (if ok then CT_Deliver sf cv g else CT_Recycle sf cv g)\<rparr>)"
| "ct_step w (CT_Deliver sf cv g) s = do {
     fr \<leftarrow> frames (pv s) g;
     Some (s\<lparr>delivered := delivered s @ [(fm_data fr, callbackPixelBytes (pv s))], ct := CT_Recycle sf cv g\<rparr>) }"
| "ct_step w (CT_Recycle sf cv g) s = Some (s\<lparr>pv := recycle_frame g (pv s), ct := CT_Check sf cv\<rparr>)"
| "ct_step w (CT_Leave sf cv) s = (let p = (case cv of None \<Rightarrow> pv s | Some c \<Rightarrow> recycle_frame c (pv s))
     in Some (signal_capture (s\<lparr>pv := (if sf then p\<lparr>mCaptureWindow := None\<rparr> else p), ct := CT_Loop\<rparr>)))"
| "ct_step w CT_Exit s = Some s"

section \<open>The application's thread\<close>

definition startPreview :: "system \<Rightarrow> int \<times> system" where
  "startPreview s =
     (if \<not> mIsRunning (pv s)
      then if mPreviewWindow (pv s) \<noteq> None then (0, s\<lparr>pv := (pv s)\<lparr>mIsRunning := True\<rparr>, pt := PT_Prepare\<rparr>)
        else (1, signal_preview (s\<lparr>pv := (pv s)\<lparr>mIsRunning := False\<rparr>\<rparr>))
      else (1, s))"

text \<open>\<open>stopPreview\<close> up to its first join; \<open>main_step\<close> is the rest of it.\<close>

definition stopPreview :: "system \<Rightarrow> system" where
  "stopPreview s =
     (if mIsRunning (pv s)
      then signal_capture (signal_preview (s\<lparr>pv := (pv s)\<lparr>mIsRunning := False\<rparr>, mt := M_Join_Capture\<rparr>))
      else s\<lparr>mt := M_Clear_Preview\<rparr>)"

text \<open>The object has the method \<open>onFrame\<close>.\<close>

definition set_callback :: "world \<Rightarrow> bool \<Rightarrow> int \<Rightarrow> preview \<Rightarrow> preview" where
  "set_callback w obj format p = (let p = p\<lparr>mFrameCallbackObj := obj\<rparr>
     in if obj then callbackPixelFormatChanged (w_mjpeg w) (w_fill w) (p\<lparr>mPixelFormat := format\<rparr>) else p)"

definition setFrameCallback :: "world \<Rightarrow> bool \<Rightarrow> int \<Rightarrow> system \<Rightarrow> system" where
  "setFrameCallback w obj format s =
     (let wait = (mIsRunning (pv s) \<and> mIsCapturing (pv s));
          s = (if wait then s\<lparr>pv := (pv s)\<lparr>mIsCapturing := False\<rparr>\<rparr> else s)
      in if wait \<and> mFrameCallbackObj (pv s) then (signal_capture s)\<lparr>mt := M_Wait_Callback obj format\<rparr>
         else s\<lparr>pv := set_callback w obj format (pv s)\<rparr>)"

definition setCaptureDisplay :: "surface option \<Rightarrow> system \<Rightarrow> system" where
  "setCaptureDisplay sf s =
     (let wait = (mIsRunning (pv s) \<and> mIsCapturing (pv s));
          s = (if wait then s\<lparr>pv := (pv s)\<lparr>mIsCapturing := False\<rparr>\<rparr> else s)
      in if wait \<and> mCaptureWindow (pv s) \<noteq> None then (signal_capture s)\<lparr>mt := M_Wait_Capture sf\<rparr>
         else s\<lparr>pv := (pv s)\<lparr>mCaptureWindow := sf\<rparr>\<rparr>)"

fun main_step :: "world \<Rightarrow> main_thread \<Rightarrow> system \<Rightarrow> system option" where
  "main_step w M_Idle s = Some s"
| "main_step w M_Join_Capture s = (if ct s = CT_None then None
     else if ct s = CT_Exit then Some (s\<lparr>ct := CT_None, mt := M_Join_Preview\<rparr>) else Some s)"
| "main_step w M_Join_Preview s = (if pt s = PT_None then None
     else if pt s = PT_Exit then Some (s\<lparr>pt := PT_None, mt := M_Clear_Display\<rparr>) else Some s)"
| "main_step w M_Clear_Display s = do { p \<leftarrow> clearDisplay (pv s); Some (s\<lparr>pv := p, mt := M_Clear_Preview\<rparr>) }"
| "main_step w M_Clear_Preview s =
     Some (s\<lparr>pv := (clearPreviewFrame (pv s))\<lparr>mPreviewWindow := None\<rparr>, mt := M_Clear_Capture\<rparr>)"
| "main_step w M_Clear_Capture s =
     Some (s\<lparr>pv := (clearCaptureFrame (pv s))\<lparr>mCaptureWindow := None\<rparr>, mt := M_Idle\<rparr>)"
| "main_step w (M_Wait_Callback obj format) s = Some s"
| "main_step w (M_Set_Callback obj format) s = Some (s\<lparr>pv := set_callback w obj format (pv s), mt := M_Idle\<rparr>)"
| "main_step w (M_Wait_Capture sf) s = Some s"
| "main_step w (M_Set_Capture sf) s = Some (s\<lparr>pv := (pv s)\<lparr>mCaptureWindow := sf\<rparr>, mt := M_Idle\<rparr>)"

fun system_step :: "world \<Rightarrow> system \<Rightarrow> event \<Rightarrow> system option" where
  "system_step w s (Frame fr) = Some (cb_frame fr s)"
| "system_step w s CB = cb_step w (cb s) s"
| "system_step w s PT = pt_step w (pt s) s"
| "system_step w s CT = ct_step w (ct s) s"
| "system_step w s Main = main_step w (mt s) s"
| "system_step w s Start = Some (if mt s = M_Idle then snd (startPreview s) else s)"
| "system_step w s Stop = Some (if mt s = M_Idle then stopPreview s else s)"
| "system_step w s (Set_Size width height mode) =
     Some (if mt s = M_Idle then s\<lparr>pv := setPreviewSize width height mode (pv s)\<rparr> else s)"
| "system_step w s (Set_Callback obj format) = Some (if mt s = M_Idle then setFrameCallback w obj format s else s)"
| "system_step w s (Set_Capture_Display sf) = Some (if mt s = M_Idle then setCaptureDisplay sf s else s)"
| "system_step w s (Set_Display sf) = Some (if mt s = M_Idle then s\<lparr>pv := (pv s)\<lparr>mPreviewWindow := sf\<rparr>\<rparr> else s)"
| "system_step w s Spurious_Preview = Some (signal_preview s)"
| "system_step w s Spurious_Capture = Some (signal_capture s)"

section \<open>Who holds which frames\<close>

fun cb_held :: "callback_thread \<Rightarrow> nat list" where
  "cb_held (CB_Duplicate _ c) = [c]"
| "cb_held (CB_Add c) = [c]"
| "cb_held (CB_Recycle c) = [c]"
| "cb_held _ = []"

fun pt_held :: "preview_thread \<Rightarrow> nat list" where
  "pt_held (PT_Mjpeg m) = [m]"
| "pt_held (PT_Decode m f) = [m, f]"
| "pt_held (PT_Recycle_Mjpeg m f _) = [m, f]"
| "pt_held (PT_Recycle f) = [f]"
| "pt_held (PT_Draw f) = [f]"
| "pt_held (PT_Get_Converted f) = [f]"
| "pt_held (PT_Convert f c) = [f, c]"
| "pt_held (PT_Show f c) = [f, c]"
| "pt_held (PT_Recycle_Converted f c) = [f, c]"
| "pt_held (PT_Capture f) = [f]"
| "pt_held _ = []"

definition opt_list :: "'a option \<Rightarrow> 'a list" where
  "opt_list x = (case x of None \<Rightarrow> [] | Some y \<Rightarrow> [y])"

lemma opt_list_simps [simp]: "opt_list None = []" "opt_list (Some y) = [y]"
  by (simp_all add: opt_list_def)

fun ct_held :: "capture_thread \<Rightarrow> nat list" where
  "ct_held (CT_Check _ cv) = opt_list cv"
| "ct_held (CT_Wait _ cv) = opt_list cv"
| "ct_held (CT_Blocked _ cv) = opt_list cv"
| "ct_held (CT_Woken _ cv) = opt_list cv"
| "ct_held (CT_Surface f cv) = f # opt_list cv"
| "ct_held (CT_Convert f c) = [f, c]"
| "ct_held (CT_Callback _ cv f) = f # opt_list cv"
| "ct_held (CT_Function _ cv f g) = f # g # opt_list cv"
| "ct_held (CT_Recycle_Frame _ cv f g _) = f # g # opt_list cv"
| "ct_held (CT_Deliver _ cv g) = g # opt_list cv"
| "ct_held (CT_Recycle _ cv g) = g # opt_list cv"
| "ct_held (CT_Leave _ cv) = opt_list cv"
| "ct_held _ = []"

definition held :: "system \<Rightarrow> nat list" where
  "held s = cb_held (cb s) @ pt_held (pt s) @ ct_held (ct s)"

fun early :: "preview_thread \<Rightarrow> bool" where
  "early PT_None = True"
| "early PT_Prepare = True"
| "early PT_Start = True"
| "early PT_Clear = True"
| "early PT_Create = True"
| "early _ = False"

text \<open>Threads come and go in the order the code creates and joins them.\<close>

definition threads_ok :: "system \<Rightarrow> bool" where
  "threads_ok s \<longleftrightarrow> (early (pt s) \<longrightarrow> ct s = CT_None) \<and> (mt s = M_Join_Preview \<longrightarrow> \<not> early (pt s) \<and> ct s = CT_None) \<and>
     (\<not> mIsRunning (pv s) \<and> mt s \<notin> {M_Join_Capture, M_Join_Preview} \<longrightarrow> pt s = PT_None \<and> ct s = CT_None)"

definition system_ok :: "system \<Rightarrow> bool" where
  "system_ok s \<longleftrightarrow> owned (pv s) (held s) \<and> threads_ok s"

lemma signal_preview_fields [simp]:
  "pv (signal_preview s) = pv s" "cb (signal_preview s) = cb s" "ct (signal_preview s) = ct s" "mt (signal_preview s) = mt s"
  "early (pt (signal_preview s)) = early (pt s)" "pt (signal_preview s) = PT_None \<longleftrightarrow> pt s = PT_None" "held (signal_preview s) = held s"
  "pt_held (pt (signal_preview s)) = pt_held (pt s)"
  by (simp_all add: signal_preview_def held_def)

lemma signal_capture_fields [simp]:
  "pv (signal_capture s) = pv s" "cb (signal_capture s) = cb s" "pt (signal_capture s) = pt s"
  "ct (signal_capture s) = CT_None \<longleftrightarrow> ct s = CT_None" "held (signal_capture s) = held s"
  "ct_held (ct (signal_capture s)) = ct_held (ct s)"
  "mt (signal_capture s) = M_Join_Preview \<longleftrightarrow> mt s = M_Join_Preview" "mt (signal_capture s) = M_Join_Capture \<longleftrightarrow> mt s = M_Join_Capture"
  by (simp_all add: signal_capture_def held_def split: capture_thread.split main_thread.split)

lemma signals_ok [simp]:
  "system_ok (signal_preview s) = system_ok s" "system_ok (signal_capture s) = system_ok s"
  by (simp_all add: system_ok_def threads_ok_def)

lemma convert_frame_owned:
  assumes "owned p hs" and "convert_frame conv f g p = Some (ret, p')" and "g \<in> set hs"
  shows "owned p' hs" and "mIsRunning p' = mIsRunning p"
  using assms owned_store [OF assms(1)] by (auto simp: convert_frame_def store_frame_def split: bind_splits)

lemma running_keeps [simp]:
  "mIsRunning (recycle_frame f p) = mIsRunning p" "mIsRunning (store_frame f fr p) = mIsRunning p"
  by (simp_all add: recycle_frame_def store_frame_def)

lemma get_running: "get_frame fill old n p = (c, p') \<Longrightarrow> mIsRunning p' = mIsRunning p"
  by (auto simp: get_frame_def split: prod.splits option.splits)

lemma add_preview_running: "addPreviewFrame f p = (kept, p') \<Longrightarrow> mIsRunning p' = mIsRunning p"
  by (auto simp: addPreviewFrame_def split: if_splits)

lemma owned_stored: "owned p hs \<Longrightarrow> frames p f = Some y \<Longrightarrow> owned (store_frame f fr p) hs"
  by (rule owned_store) simp_all

lemma threads_ok_pv [simp]:
  "mIsRunning p = mIsRunning (pv s) \<Longrightarrow> threads_ok (s\<lparr>pv := p\<rparr>) = threads_ok s"
  "threads_ok (s\<lparr>cb := c\<rparr>) = threads_ok s"
  "mIsRunning p = mIsRunning (pv s) \<Longrightarrow> threads_ok (s\<lparr>pv := p, cb := c\<rparr>) = threads_ok s"
  by (simp_all add: threads_ok_def)

lemma cb_step_ok:
  assumes "system_ok s" and "cb_step w (cb s) s = Some s'"
  shows "system_ok s'"
proof (cases "cb s")
  case (CB_Get fr)
  obtain c p where g: "get_frame (w_fill w) (w_old w) (length (fm_data fr)) (pv s) = (c, p)"
    by fastforce
  with assms(1) CB_Get have "system_ok (s\<lparr>pv := p, cb := CB_Duplicate fr c\<rparr>)"
    by (auto simp: system_ok_def held_def get_running elim: get_perm)
  with assms CB_Get g show ?thesis
    by (auto simp: system_ok_def held_def split: if_splits)
next
  case (CB_Duplicate fr c)
  with assms(2) obtain old where old: "frames (pv s) c = Some old"
    by (auto split: bind_splits)
  with assms(2) CB_Duplicate obtain ret copy where dup: "uvc_duplicate_frame (w_fill w) fr old = Some (ret, copy)"
    by (auto split: bind_splits)
  have copy: "s' = s\<lparr>pv := store_frame c copy (pv s), cb := (if ret \<noteq> 0 then CB_Recycle c else CB_Add c)\<rparr>"
    using assms(2) CB_Duplicate old dup by simp
  have "cb_held (if ret \<noteq> (0::int) then CB_Recycle c else CB_Add c) = [c]"
    by simp
  with assms(1) CB_Duplicate copy old show ?thesis
    by (simp add: system_ok_def held_def owned_stored)
next
  case (CB_Add c)
  obtain kept p where add: "addPreviewFrame c (pv s) = (kept, p)"
    by fastforce
  with assms CB_Add have "owned p (if kept then pt_held (pt s) @ ct_held (ct s) else c # pt_held (pt s) @ ct_held (ct s))"
    by (intro add_preview_perm [OF _ add]) (auto simp: system_ok_def held_def)
  then have "system_ok (s\<lparr>pv := p, cb := (if kept then CB_Idle else CB_Recycle c)\<rparr>)"
    using assms(1) CB_Add add_preview_running [OF add] by (simp add: system_ok_def held_def split: if_splits)
  with assms CB_Add add show ?thesis
    by (auto split: if_splits)
next
  case (CB_Recycle c)
  with assms show ?thesis
    by (auto simp: system_ok_def held_def elim: recycle_perm)
qed (use assms in auto)

lemma threads_ok_pt:
  assumes "threads_ok s" and "\<not> early (pt s)" "\<not> early t"
  shows "threads_ok (s\<lparr>pt := t\<rparr>)" and "mIsRunning p = mIsRunning (pv s) \<Longrightarrow> threads_ok (s\<lparr>pv := p, pt := t\<rparr>)"
proof -
  have "pt s \<noteq> PT_None" "t \<noteq> PT_None"
    using assms(2,3) by auto
  with assms show "threads_ok (s\<lparr>pt := t\<rparr>)" "mIsRunning p = mIsRunning (pv s) \<Longrightarrow> threads_ok (s\<lparr>pv := p, pt := t\<rparr>)"
    by (simp_all add: threads_ok_def)
qed

lemma add_capture_running [simp]: "mIsRunning (addCaptureFrame f p) = mIsRunning p"
  by (simp add: addCaptureFrame_def Let_def split: option.split)

lemma clear_running [simp]: "mIsRunning (clearPreviewFrame p) = mIsRunning p" "mIsRunning (clearCaptureFrame p) = mIsRunning p"
proof -
  have "mIsRunning (fold recycle_frame fs p) = mIsRunning p" for fs p
    by (induction fs arbitrary: p) simp_all
  then show "mIsRunning (clearPreviewFrame p) = mIsRunning p"
    by (simp add: clearPreviewFrame_def Let_def)
qed (simp add: clearCaptureFrame_def Let_def split: option.split)

lemma take_preview_running: "take_preview_frame p = Some (f, p') \<Longrightarrow> mIsRunning p' = mIsRunning p"
  by (auto simp: take_preview_frame_def split: if_splits bind_splits)

lemma pt_take_ok:
  assumes "system_ok s" and "\<not> early (pt s)" and "pt_held (pt s) = []" and "pt_take s = Some s'"
  shows "system_ok s'"
proof -
  have own: "owned (pv s) (held s)"
    using assms(1) by (simp add: system_ok_def)
  obtain f p where take: "take_preview_frame (pv s) = Some (f, p)" "owned p (case f of None \<Rightarrow> held s | Some f \<Rightarrow> f # held s)"
    by (rule owned_take_preview [OF own])
  let ?t = "case f of None \<Rightarrow> PT_Loop | Some f \<Rightarrow> if frameMode p \<noteq> 0 then PT_Mjpeg f else PT_Draw f"
  have s': "s' = s\<lparr>pv := p, pt := ?t\<rparr>"
    using assms(4) take(1) by (simp add: pt_take_def)
  have "\<not> early ?t"
    by (simp split: option.split)
  then have "threads_ok s'"
    unfolding s' using assms(1,2) take(1) by (intro threads_ok_pt) (auto simp: system_ok_def dest: take_preview_running)
  moreover have "owned p (held s')"
    using take(2) assms(3) unfolding s' by (cases f) (auto simp: held_def elim: owned_perm)
  ultimately show ?thesis
    by (simp add: system_ok_def s')
qed

lemma pt_move_ok:
  assumes "system_ok s" and "\<not> early (pt s)" "\<not> early t" and "mIsRunning p = mIsRunning (pv s)"
    and "owned p (cb_held (cb s) @ pt_held t @ ct_held (ct s))"
  shows "system_ok (s\<lparr>pv := p, pt := t\<rparr>)"
  using assms threads_ok_pt(2) [of s t p] by (simp add: system_ok_def held_def)

lemma system_ok_owned: "system_ok s \<Longrightarrow> owned (pv s) (cb_held (cb s) @ pt_held (pt s) @ ct_held (ct s))"
  by (simp add: system_ok_def held_def)

lemma prepare_running: "prepare_preview r d p = (r', p') \<Longrightarrow> mIsRunning p' = mIsRunning p"
  by (auto simp: prepare_preview_def Let_def split: if_splits option.splits prod.splits)

lemma pt_step_ok:
  assumes "system_ok s" and "pt_step w (pt s) s = Some s'"
  shows "system_ok s'"
proof -
  note own = system_ok_owned [OF assms(1)]
  show ?thesis
  proof (cases "pt s")
    case (PT_Mjpeg m)
    then obtain fr f p where g: "frames (pv s) m = Some fr"
      "get_frame (w_fill w) (w_old w) (unat (fm_width fr * fm_height fr * 2)) (pv s) = (f, p)" "s' = s\<lparr>pv := p, pt := PT_Decode m f\<rparr>"
      using assms(2) by (auto split: bind_splits prod.splits)
    have "owned p (cb_held (cb s) @ pt_held (PT_Decode m f) @ ct_held (ct s))"
      using PT_Mjpeg own by (intro get_perm [OF own g(2)]) simp
    with g assms(1) PT_Mjpeg show ?thesis
      by (auto simp: get_running intro!: pt_move_ok)
  next
    case (PT_Decode m f)
    then obtain ret p where c: "convert_frame (w_mjpeg w FORMAT_YUYV) m f (pv s) = Some (ret, p)"
      "s' = s\<lparr>pv := p, pt := PT_Recycle_Mjpeg m f (ret = 0)\<rparr>"
      using assms(2) by (auto split: bind_splits)
    with convert_frame_owned [OF own c(1)] assms(1) PT_Decode show ?thesis
      by (auto intro!: pt_move_ok)
  next
    case (PT_Recycle_Mjpeg m f ok)
    have "owned (recycle_frame m (pv s)) (cb_held (cb s) @ [f] @ ct_held (ct s))"
      using PT_Recycle_Mjpeg own by (intro recycle_perm [OF own]) simp
    with assms PT_Recycle_Mjpeg show ?thesis
      by (cases ok) (auto intro!: pt_move_ok)
  next
    case (PT_Recycle f)
    have "owned (recycle_frame f (pv s)) (cb_held (cb s) @ [] @ ct_held (ct s))"
      using PT_Recycle own by (intro recycle_perm [OF own]) simp
    with assms PT_Recycle show ?thesis
      by (auto intro!: pt_move_ok)
  next
    case (PT_Get_Converted f)
    then obtain fr c p where g: "frames (pv s) f = Some fr"
      "get_frame (w_fill w) (w_old w) (unat (fm_width fr * fm_height fr * 4)) (pv s) = (c, p)" "s' = s\<lparr>pv := p, pt := PT_Convert f c\<rparr>"
      using assms(2) by (auto split: bind_splits prod.splits)
    have "owned p (cb_held (cb s) @ pt_held (PT_Convert f c) @ ct_held (ct s))"
      using PT_Get_Converted own by (intro get_perm [OF own g(2)]) simp
    with g assms(1) PT_Get_Converted show ?thesis
      by (auto simp: get_running intro!: pt_move_ok)
  next
    case (PT_Convert f c)
    then obtain ret p where v: "convert_frame (uvc_any2rgbx (w_mjpeg w) (w_fill w)) f c (pv s) = Some (ret, p)"
      "s' = s\<lparr>pv := p, pt := (if ret = 0 then PT_Show f c else PT_Recycle_Converted f c)\<rparr>"
      using assms(2) by (auto split: bind_splits)
    with convert_frame_owned [OF own v(1)] assms(1) PT_Convert show ?thesis
      by (auto intro!: pt_move_ok)
  next
    case (PT_Show f c)
    then obtain window where "s' = s\<lparr>pv := (pv s)\<lparr>mPreviewWindow := window\<rparr>, pt := PT_Recycle_Converted f c\<rparr>"
      using assms(2) by (auto split: bind_splits)
    with own assms(1) PT_Show show ?thesis
      by (auto simp: owned_fields intro!: pt_move_ok)
  next
    case (PT_Recycle_Converted f c)
    have "owned (recycle_frame c (pv s)) (cb_held (cb s) @ [f] @ ct_held (ct s))"
      using PT_Recycle_Converted own by (intro recycle_perm [OF own]) simp
    with assms PT_Recycle_Converted show ?thesis
      by (auto intro!: pt_move_ok)
  next
    case (PT_Capture f)
    have "owned (addCaptureFrame f (pv s)) (cb_held (cb s) @ [] @ ct_held (ct s))"
      using PT_Capture own by (intro add_capture_perm [OF own]) simp
    with assms PT_Capture have "system_ok (s\<lparr>pv := addCaptureFrame f (pv s), pt := PT_Loop\<rparr>)"
      by (auto intro!: pt_move_ok)
    with assms(2) PT_Capture show ?thesis
      by (auto simp: Let_def split: if_splits)
  next
    case PT_Wait
    with assms pt_take_ok [OF assms(1)] show ?thesis
      by (auto simp: system_ok_def threads_ok_def held_def split: if_splits)
  next
    case PT_Woken
    with assms pt_take_ok [OF assms(1)] show ?thesis
      by auto
  next
    case PT_Prepare
    obtain r p where prep: "prepare_preview (w_negotiated w) (w_frame_desc w) (pv s) = (r, p)"
      by fastforce
    then have "owned p (held s)" "mIsRunning p = mIsRunning (pv s)"
      using own owned_prepare [of "w_negotiated w" "w_frame_desc w" "pv s" "held s"] prepare_running [OF prep]
      by (simp_all add: held_def)
    with assms PT_Prepare prep show ?thesis
      by (auto simp: system_ok_def threads_ok_def held_def)
  next
    case PT_Clear
    then show ?thesis
      using assms own owned_clear_preview [of "pv s" "held s"]
      by (auto simp: system_ok_def threads_ok_def held_def)
  next
    case PT_Finish
    then have "system_ok (s\<lparr>pt := PT_Stop_Streaming\<rparr>)"
      using assms(1) by (simp add: system_ok_def threads_ok_def held_def)
    with assms(2) PT_Finish show ?thesis
      by auto
  qed (use assms in \<open>auto simp: system_ok_def threads_ok_def held_def split: if_splits\<close>)
qed

lemma owned_set_callback: "owned (set_callback w obj format p) hs = owned p hs"
  by (simp add: set_callback_def owned_format owned_fields Let_def)

lemma size_running [simp]: "mIsRunning (setPreviewSize width height mode p) = mIsRunning p"
  by (simp add: setPreviewSize_def)

lemma set_callback_running [simp]: "mIsRunning (set_callback w obj format p) = mIsRunning p"
  by (simp add: set_callback_def callbackPixelFormatChanged_def Let_def)

lemma ct_move_ok:
  assumes "system_ok s" and "ct s \<noteq> CT_None" and "mIsRunning p = mIsRunning (pv s)"
    and "owned p (cb_held (cb s) @ pt_held (pt s) @ ct_held t)"
  shows "system_ok (s\<lparr>pv := p, ct := t\<rparr>)"
  using assms by (auto simp: system_ok_def held_def threads_ok_def)

lemma ct_stay_ok:
  assumes "system_ok s" and "ct s \<noteq> CT_None" and "ct_held t = ct_held (ct s)"
  shows "system_ok (s\<lparr>ct := t\<rparr>)"
  using ct_move_ok [OF assms(1,2), of "pv s" t] assms(3) system_ok_owned [OF assms(1)] by simp

lemma ct_take_ok:
  assumes "system_ok s" and "ct s \<noteq> CT_None" and "ct_held (ct s) = opt_list cv"
  shows "system_ok (ct_take sf cv s)"
proof -
  note own = system_ok_owned [OF assms(1)]
  obtain f p where take: "take_capture_frame (pv s) = (f, p)"
    by fastforce
  then have run: "mIsRunning p = mIsRunning (pv s)"
    by (auto simp: take_capture_frame_def split: if_splits)
  from owned_take_capture [OF own take] show ?thesis
    using take run assms by (cases f) (auto simp: ct_take_def intro!: ct_move_ok elim: owned_perm)
qed

lemma format_running [simp]: "mIsRunning (callbackPixelFormatChanged mjpeg fill p) = mIsRunning p"
  by (simp add: callbackPixelFormatChanged_def Let_def)

lemma ct_step_ok:
  assumes "system_ok s" and "ct_step w (ct s) s = Some s'"
  shows "system_ok s'"
proof -
  note own = system_ok_owned [OF assms(1)]
  show ?thesis
  proof (cases "ct s")
    case CT_Init
    with assms own owned_clear_capture [OF own] show ?thesis
      by (auto intro!: ct_move_ok)
  next
    case CT_Format
    with assms own show ?thesis
      by (auto simp: owned_format intro!: ct_move_ok)
  next
    case CT_Loop
    have "system_ok (s\<lparr>pv := (pv s)\<lparr>mIsCapturing := True\<rparr>, ct := CT_Check sf None\<rparr>)" for sf
      using CT_Loop assms(1) own by (intro ct_move_ok) (simp_all add: owned_fields)
    moreover have "system_ok (s\<lparr>ct := CT_Exit\<rparr>)"
      using CT_Loop assms(1) by (intro ct_stay_ok) simp_all
    ultimately show ?thesis
      using assms(2) CT_Loop by (auto split: if_splits)
  next
    case (CT_Wait sf cv)
    with assms show ?thesis
      by (auto intro!: ct_stay_ok ct_take_ok split: if_splits)
  next
    case (CT_Woken sf cv)
    with assms show ?thesis
      by (auto intro!: ct_take_ok)
  next
    case (CT_Surface f cv)
    show ?thesis
    proof (cases cv)
      case None
      obtain c p where g: "get_frame (w_fill w) (w_old w) (previewBytes (pv s)) (pv s) = (c, p)"
        by fastforce
      have "owned p (cb_held (cb s) @ pt_held (pt s) @ ct_held (CT_Convert f c))"
        using CT_Surface None by (intro get_perm [OF own g]) simp
      with assms CT_Surface None g show ?thesis
        by (auto simp: get_running intro!: ct_move_ok)
    next
      case (Some c)
      with assms CT_Surface show ?thesis
        by (auto intro!: ct_stay_ok)
    qed
  next
    case (CT_Convert f c)
    then obtain ret p window where v: "convert_frame (uvc_any2rgbx (w_mjpeg w) (w_fill w)) f c (pv s) = Some (ret, p)"
      "s' = s\<lparr>pv := p\<lparr>mCaptureWindow := window\<rparr>, ct := CT_Callback True (Some c) f\<rparr>"
      using assms(2) by (auto split: bind_splits)
    with convert_frame_owned [OF own v(1)] assms(1) CT_Convert show ?thesis
      by (auto simp: owned_fields intro!: ct_move_ok)
  next
    case (CT_Callback sf cv f)
    obtain g p where g: "get_frame (w_fill w) (w_old w) (callbackPixelBytes (pv s)) (pv s) = (g, p)"
      by fastforce
    have "owned p (cb_held (cb s) @ pt_held (pt s) @ ct_held (CT_Function sf cv f g))"
      using CT_Callback by (intro get_perm [OF own g]) simp
    with CT_Callback g assms(1) have "system_ok (s\<lparr>pv := p, ct := CT_Function sf cv f g\<rparr>)"
      by (intro ct_move_ok) (simp_all add: get_running)
    moreover have "system_ok (s\<lparr>ct := CT_Recycle sf cv f\<rparr>)" "system_ok (s\<lparr>ct := CT_Deliver sf cv f\<rparr>)"
      using CT_Callback assms(1) by (auto intro!: ct_stay_ok)
    ultimately show ?thesis
      using assms(2) CT_Callback g by (auto split: if_splits)
  next
    case (CT_Function sf cv f g)
    then obtain conv b p where v: "convert_frame conv f g (pv s) = Some (b, p)"
      "s' = s\<lparr>pv := p, ct := CT_Recycle_Frame sf cv f g (b = 0)\<rparr>"
      using assms(2) by (auto split: bind_splits option.splits)
    with convert_frame_owned [OF own v(1)] assms(1) CT_Function show ?thesis
      by (auto intro!: ct_move_ok)
  next
    case (CT_Recycle_Frame sf cv f g ok)
    have "owned (recycle_frame f (pv s)) (cb_held (cb s) @ pt_held (pt s) @ g # opt_list cv)"
      using CT_Recycle_Frame by (intro recycle_perm [OF own]) simp
    with assms CT_Recycle_Frame show ?thesis
      by (cases ok) (auto intro!: ct_move_ok)
  next
    case (CT_Deliver sf cv g)
    with assms(2) obtain fr where fr: "frames (pv s) g = Some fr"
      by (cases "frames (pv s) g") simp_all
    with assms CT_Deliver show ?thesis
      by (auto simp: system_ok_def threads_ok_def held_def)
  next
    case (CT_Recycle sf cv g)
    have "owned (recycle_frame g (pv s)) (cb_held (cb s) @ pt_held (pt s) @ opt_list cv)"
      using CT_Recycle by (intro recycle_perm [OF own]) simp
    with assms CT_Recycle show ?thesis
      by (auto intro!: ct_move_ok)
  next
    case (CT_Leave sf cv)
    let ?p = "case cv of None \<Rightarrow> pv s | Some c \<Rightarrow> recycle_frame c (pv s)"
    have "owned ?p (cb_held (cb s) @ pt_held (pt s) @ [])"
      using CT_Leave own by (cases cv) (auto intro: recycle_perm)
    moreover have "mIsRunning ?p = mIsRunning (pv s)"
      by (simp split: option.split)
    ultimately show ?thesis
      using assms CT_Leave by (auto simp: Let_def owned_fields intro!: ct_move_ok)
  qed (use assms in \<open>auto intro!: ct_stay_ok split: if_splits\<close>)
qed

lemma main_step_ok:
  assumes "system_ok s" and "main_step w (mt s) s = Some s'"
  shows "system_ok s'"
proof -
  note own = system_ok_owned [OF assms(1)]
  show ?thesis
  proof (cases "mt s")
    case M_Clear_Display
    then obtain p where p: "clearDisplay (pv s) = Some p" "s' = s\<lparr>pv := p, mt := M_Clear_Preview\<rparr>"
      using assms(2) by (auto split: bind_splits)
    then obtain cw pw where "p = (pv s)\<lparr>mCaptureWindow := cw, mPreviewWindow := pw\<rparr>"
      by (auto simp: clearDisplay_def split: bind_splits)
    with p assms(1) M_Clear_Display show ?thesis
      by (simp add: system_ok_def threads_ok_def held_def owned_fields)
  next
    case M_Clear_Preview
    with assms owned_clear_preview [OF own] show ?thesis
      by (auto simp: system_ok_def threads_ok_def held_def owned_fields)
  next
    case M_Clear_Capture
    with assms owned_clear_capture [OF own] show ?thesis
      by (auto simp: system_ok_def threads_ok_def held_def owned_fields)
  next
    case (M_Set_Callback obj format)
    with assms show ?thesis
      by (auto simp: system_ok_def threads_ok_def held_def owned_set_callback)
  qed (use assms in \<open>auto simp: system_ok_def threads_ok_def held_def owned_fields split: if_splits\<close>)
qed

lemma start_ok: "system_ok s \<Longrightarrow> mt s = M_Idle \<Longrightarrow> system_ok (snd (startPreview s))"
  by (cases "mIsRunning (pv s)") (auto simp: startPreview_def system_ok_def threads_ok_def held_def owned_fields)

lemma stop_ok: "system_ok s \<Longrightarrow> mt s = M_Idle \<Longrightarrow> system_ok (stopPreview s)"
  by (cases "mIsRunning (pv s)") (auto simp: stopPreview_def system_ok_def threads_ok_def held_def owned_fields)

lemma main_event_ok:
  assumes "system_ok s" and "mt s = M_Idle"
  shows "system_ok (s\<lparr>pv := setPreviewSize width height mode (pv s)\<rparr>)"
    and "system_ok (s\<lparr>pv := (pv s)\<lparr>mPreviewWindow := sf\<rparr>\<rparr>)"
    and "system_ok (setFrameCallback w obj format s)"
    and "system_ok (setCaptureDisplay sf s)"
  using assms
  by (simp_all add: system_ok_def threads_ok_def held_def owned_size owned_fields owned_set_callback
      setFrameCallback_def setCaptureDisplay_def Let_def)

lemma cb_frame_ok: "system_ok s \<Longrightarrow> system_ok (cb_frame fr s)"
  by (auto simp: cb_frame_def system_ok_def held_def threads_ok_def)

lemma system_step_ok: "system_ok s \<Longrightarrow> system_step w s e = Some s' \<Longrightarrow> system_ok s'"
  by (cases e) (auto simp: cb_frame_ok start_ok stop_ok main_event_ok intro: cb_step_ok pt_step_ok ct_step_ok main_step_ok split: if_splits)

section \<open>A preview from its construction\<close>

text \<open>\<open>mPixelFormat\<close> is what the memory held: the constructor does not set it.\<close>

definition new_preview :: "int \<Rightarrow> preview" where
  "new_preview any_format = \<lparr>mIsRunning = False, mIsCapturing = False, requestWidth = 640, requestHeight = 480, requestMode = 0,
     frameWidth = 640, frameHeight = 480, frameMode = 0, frameBytes = 640 * 480 * 2, previewBytes = 640 * 480 * PREVIEW_PIXEL_BYTES,
     mPreviewWindow = None, mCaptureWindow = None, previewFrames = new_array 2, mFramePool = new_array 2, captureQueu = None,
     mFrameCallbackObj = False, mFrameCallbackFunc = None, mPixelFormat = any_format, callbackPixelBytes = 2,
     frames = Map.empty, next_frame = 0, lost = []\<rparr>"

definition new_system :: "int \<Rightarrow> system" where
  "new_system any_format = \<lparr>pv = new_preview any_format, cb = CB_Idle, pt = PT_None, ct = CT_None, mt = M_Idle, streaming = False, delivered = []\<rparr>"

lemma new_system_ok: "system_ok (new_system any_format)"
  by (simp add: new_system_def new_preview_def system_ok_def threads_ok_def held_def owned_def bag_def array_ok_def new_array_def
      capacity_def contents_def)

lemma run_ok: "system_ok s \<Longrightarrow> run_partial (system_step w) s es = Some s' \<Longrightarrow> system_ok s'"
  by (induction es arbitrary: s) (auto split: bind_splits dest: system_step_ok)

end
