(* ===== verification/Preview_Runs.thy ===== *)
theory Preview_Runs
  imports Preview_Threads
begin

text \<open>
  What holds of the threads of the preview together: who owns a frame, how \<open>stopPreview\<close> ends, and the runs in which it does not.
\<close>

section \<open>Frames\<close>

lemma count_distinct: "(\<And>x. count_list xs x \<le> 1) \<Longrightarrow> distinct xs"
proof (induction xs)
  case (Cons y ys)
  have "count_list ys x \<le> 1" for x
    using Cons.prems [of x] by (simp split: if_splits)
  moreover have "y \<notin> set ys"
    using Cons.prems [of y] by (simp add: count_list_0_iff)
  ultimately show ?case
    using Cons.IH by simp
qed simp

text \<open>C3. However the threads interleave, and whatever the application calls, each frame that exists is in exactly one place: the pool, the
  queue, the capture slot, a local variable of a thread, or lost. The pool has at most 6 frames and the queue at most 4.\<close>

theorem frames_conserved:
  assumes "run_partial (system_step w) (new_system any_format) es = Some s"
  shows "distinct (bag (pv s) @ held s) \<and> set (bag (pv s) @ held s) = dom (frames (pv s)) \<and>
    m_size (mFramePool (pv s)) \<le> FRAME_POOL_SZ \<and> m_size (previewFrames (pv s)) \<le> MAX_FRAME"
proof -
  have own: "owned (pv s) (held s)"
    using run_ok [OF new_system_ok assms] by (simp add: system_ok_def)
  then have count: "count_list (bag (pv s) @ held s) x = (if frames (pv s) x = None then 0 else 1)" for x
    by (simp add: owned_def)
  have "distinct (bag (pv s) @ held s)"
    by (rule count_distinct) (simp only: count split: if_split, simp)
  moreover have "x \<in> set (bag (pv s) @ held s) \<longleftrightarrow> x \<in> dom (frames (pv s))" for x
    using count [of x] count_list_0_iff [of "bag (pv s) @ held s" x] by (auto simp del: set_append count_list_append split: if_splits)
  ultimately show ?thesis
    using own by (auto simp: owned_def)
qed


definition demo_world :: world where
  "demo_world = \<lparr>w_mjpeg = (\<lambda>_ fr out. Some (UVC_ERROR_NOT_SUPPORTED, out)), w_fill = (\<lambda>_. 0), w_old = blank_frame,
     w_negotiated = 0, w_frame_desc = Some (2, 4), w_started = 0\<rparr>"

definition demo_surface :: surface where
  "demo_surface = \<lparr>sf_width = 2, sf_height = 0, sf_stride = 2, sf_bits = []\<rparr>"

text \<open>A frame from the camera to the application's callback.\<close>

definition demo_start :: "event list" where
  "demo_start = [Set_Size 2 4 0, Set_Display (Some demo_surface), Set_Callback True 1, Start, Set_Display None, PT, PT, PT, PT]"

definition demo_events :: "event list" where
  "demo_events = demo_start @ [CT, CT, CT, CT, CT, Frame (demo_image 2 4 demo_row), CB, CB, CB, PT, PT, PT, PT, PT, CT, CT, CT]"

lemma demo_image_fields [simp]:
  "fm_data (demo_image x y d) = d" "fm_actual_bytes (demo_image x y d) = length d" "fm_width (demo_image x y d) = x"
  "fm_height (demo_image x y d) = y" "fm_format (demo_image x y d) = FORMAT_YUYV" "length demo_row = 16" "demo_row \<noteq> []"
  by (simp_all add: demo_image_def demo_row_def)

lemma demo_duplicate:
  "uvc_duplicate_frame (\<lambda>_. 0) (demo_image 2 4 demo_row) (uvc_allocate_frame (\<lambda>_. 0) blank_frame 16) =
     Some (UVC_SUCCESS, demo_image 2 4 demo_row)"
  by code_simp

lemma replicate_2: "replicate 2 x = [x, x]"
  by (simp add: numeral_2_eq_2)

lemmas array_defs = new_array_def capacity_def contents_def clear_def resize_def put_def remove_def take_last_def replicate_2 shift_down.simps

lemmas pool_defs = get_frame_def recycle_frame_def store_frame_def addPreviewFrame_def take_preview_frame_def clearPreviewFrame_def
  addCaptureFrame_def take_capture_frame_def clearCaptureFrame_def prepare_preview_def setPreviewSize_def frame_accepted_def
  callbackPixelFormatChanged_def set_callback_def Let_def

lemmas thread_defs = signal_preview_def signal_capture_def cb_frame_def pt_take_def ct_take_def startPreview_def stopPreview_def
  setFrameCallback_def

lemmas demo_defs = demo_events_def demo_start_def demo_world_def new_system_def new_preview_def array_defs pool_defs thread_defs

theorem frames_conserved_witness:
  "\<exists>s. run_partial (system_step demo_world) (new_system 0) demo_events = Some s \<and> delivered s = [(demo_row, 16)] \<and>
     held s = [0] \<and> dom (frames (pv s)) = {0}"
proof -
  have "\<exists>s. run_partial (system_step demo_world) (new_system 0) demo_events = Some s \<and>
      delivered s = [(demo_row, 16)] \<and> held s = [0] \<and> bag (pv s) = []"
    by (simp add: demo_defs demo_duplicate held_def bag_def)
  then obtain s where s: "run_partial (system_step demo_world) (new_system 0) demo_events = Some s"
    "delivered s = [(demo_row, 16)]" "held s = [0]" "bag (pv s) = []"
    by blast
  with frames_conserved [OF s(1)] show ?thesis
    by auto
qed

section \<open>Stopping\<close>

lemma cleared [simp]:
  "m_size (previewFrames (clearPreviewFrame p)) = 0" "captureQueu (clearCaptureFrame p) = None"
  "previewFrames (clearCaptureFrame p) = previewFrames p" "mPreviewWindow (clearCaptureFrame p) = mPreviewWindow p"
  by (simp_all add: clearPreviewFrame_def clearCaptureFrame_def clear_def recycle_frame_def Let_def split: option.split)

definition demo_waiting :: "event list" where
  "demo_waiting = demo_start @ [CT, CT, CT, CT, CT, PT, PT]"

lemma demo_waiting_state:
  "\<exists>s. run_partial (system_step demo_world) (new_system 0) demo_waiting = Some s \<and> mIsRunning (pv s) \<and> streaming s \<and> mt s = M_Idle \<and>
     cb s = CB_Idle \<and> pt s = PT_Blocked \<and> ct s = CT_Blocked False None \<and> mPreviewWindow (pv s) = None \<and> mCaptureWindow (pv s) = None"
  by (simp add: demo_waiting_def demo_defs)

text \<open>The preview thread misses the signal of \<open>stopPreview\<close>, which clears \<open>mIsRunning\<close> and signals without the mutex.\<close>

definition missed_stop :: "system \<Rightarrow> bool" where
  "missed_stop s \<longleftrightarrow> \<not> mIsRunning (pv s) \<and> m_size (previewFrames (pv s)) = 0 \<and> pt s \<in> {PT_Wait, PT_Blocked} \<and>
     mt s \<in> {M_Join_Capture, M_Join_Preview}"

definition keeps :: "preview \<Rightarrow> preview \<Rightarrow> bool" where
  "keeps p p' \<longleftrightarrow> mIsRunning p' = mIsRunning p \<and> previewFrames p' = previewFrames p \<and> lost p' = lost p"

lemma keeps_simps [simp]:
  "keeps p (p'\<lparr>mIsCapturing := b\<rparr>) = keeps p p'" "keeps p (p'\<lparr>mCaptureWindow := sf\<rparr>) = keeps p p'"
  "keeps p (p'\<lparr>captureQueu := c\<rparr>) = keeps p p'" "keeps p (recycle_frame f p') = keeps p p'" "keeps p (store_frame f fr p') = keeps p p'"
  "keeps p (clearCaptureFrame p') = keeps p p'" "keeps p (callbackPixelFormatChanged mjpeg fill p') = keeps p p'" "keeps p p"
  by (auto simp: keeps_def recycle_frame_def store_frame_def clearCaptureFrame_def callbackPixelFormatChanged_def Let_def split: option.split)

lemma get_keeps: "get_frame fill old n p = (c, p') \<Longrightarrow> keeps p p'"
  by (auto simp: get_frame_def keeps_def split: prod.splits option.splits)

lemma convert_keeps: "convert_frame conv f g p = Some (ret, p') \<Longrightarrow> keeps p p'"
  by (auto simp: convert_frame_def split: bind_splits)

lemma take_capture_keeps: "take_capture_frame p = (f, p') \<Longrightarrow> keeps p p'"
  by (auto simp: take_capture_frame_def split: if_splits)

lemma ct_keeps:
  assumes "ct_step w (ct s) s = Some s'"
  shows "keeps (pv s) (pv s') \<and> pt s' = pt s \<and> cb s' = cb s \<and> (mt s \<in> {M_Join_Capture, M_Join_Preview} \<longrightarrow> mt s' = mt s)"
proof (cases "ct s")
  case (CT_Wait sf cv)
  with assms show ?thesis
    by (auto simp: ct_take_def take_capture_keeps split: if_splits prod.splits)
next
  case (CT_Woken sf cv)
  with assms show ?thesis
    by (auto simp: ct_take_def take_capture_keeps split: prod.splits)
next
  case (CT_Surface f cv)
  with assms show ?thesis
    by (cases cv) (auto simp: get_keeps split: prod.splits)
next
  case (CT_Convert f c)
  with assms obtain ret p window where "convert_frame (uvc_any2rgbx (w_mjpeg w) (w_fill w)) f c (pv s) = Some (ret, p)"
    "s' = s\<lparr>pv := p\<lparr>mCaptureWindow := window\<rparr>, ct := CT_Callback True (Some c) f\<rparr>"
    by (auto split: bind_splits)
  with CT_Convert show ?thesis
    by (simp add: convert_keeps)
next
  case (CT_Function sf cv f g)
  with assms show ?thesis
    by (auto split: bind_splits option.splits dest: convert_keeps)
next
  case (CT_Leave sf cv)
  with assms show ?thesis
    by (auto simp: Let_def signal_capture_def split: option.splits)
qed (use assms in \<open>auto simp: get_keeps split: if_splits prod.splits option.splits bind_splits\<close>)

lemma missed_cb:
  assumes "missed_stop s" and "cb_step w (cb s) s = Some s'"
  shows "missed_stop s'"
proof (cases "cb s")
  case (CB_Duplicate fr c)
  with assms(2) obtain old where "frames (pv s) c = Some old"
    by (auto split: bind_splits)
  with CB_Duplicate assms show ?thesis
    by (auto simp: missed_stop_def store_frame_def split: bind_splits)
next
  case (CB_Recycle c)
  have "keeps (pv s) (recycle_frame c (pv s))"
    by simp
  with CB_Recycle assms show ?thesis
    by (auto simp: missed_stop_def keeps_def)
qed (use assms in \<open>auto simp: missed_stop_def addPreviewFrame_def split: prod.splits\<close>)

lemma missed_step:
  assumes "missed_stop s" and "system_step w s e = Some s'" and "e \<noteq> Spurious_Preview"
  shows "missed_stop s'"
proof (cases e)
  case (Frame fr)
  with assms show ?thesis
    by (auto simp: missed_stop_def cb_frame_def frame_accepted_def)
next
  case CB
  with assms missed_cb show ?thesis
    by auto
next
  case CT
  with assms ct_keeps [of w s s'] show ?thesis
    by (auto simp: missed_stop_def keeps_def)
next
  case PT
  with assms show ?thesis
    by (auto simp: missed_stop_def)
next
  case Main
  with assms show ?thesis
    by (auto simp: missed_stop_def split: if_splits)
qed (use assms in \<open>auto simp: missed_stop_def signal_capture_def\<close>)

text \<open>C22. \<open>stopPreview\<close> between the preview thread's test of \<open>mIsRunning\<close> and its wait never returns: no step of any thread, no frame
  and no call wakes the thread, only the operating system's whim.\<close>

theorem stop_lost_wakeup:
  assumes "mIsRunning (pv s)" and "mt s = M_Idle" and "pt s = PT_Wait" and "m_size (previewFrames (pv s)) = 0"
    and "run_partial (system_step w) s (Stop # es) = Some s'" and "Spurious_Preview \<notin> set es"
  shows "pt s' \<in> {PT_Wait, PT_Blocked} \<and> mt s' \<in> {M_Join_Capture, M_Join_Preview}"
proof -
  have "missed_stop s'" if "missed_stop t" "run_partial (system_step w) t es = Some s'" for t
    using that assms(6)
  proof (induction es arbitrary: t)
    case (Cons e es)
    then show ?case
      by (auto split: bind_splits dest: missed_step)
  qed simp
  moreover have "missed_stop (stopPreview s)"
    using assms(1,3,4) by (simp add: missed_stop_def stopPreview_def signal_capture_def signal_preview_def)
  ultimately have "missed_stop s'"
    using assms(2,5) by simp
  then show ?thesis
    by (simp add: missed_stop_def)
qed

text \<open>The signal comes while the thread is about to wait; the capture thread ends and is joined.\<close>

theorem stop_lost_wakeup_witness:
  "\<exists>s s'. run_partial (system_step demo_world) (new_system 0) (demo_start @ [CT, CT, CT, CT, CT, PT]) = Some s \<and>
     run_partial (system_step demo_world) s (Stop # [PT, PT, CT, CT, CT, CT, Main, PT, Main]) = Some s' \<and>
     pt s' \<in> {PT_Wait, PT_Blocked} \<and> mt s' = M_Join_Preview"
proof -
  have "\<exists>s. run_partial (system_step demo_world) (new_system 0) (demo_start @ [CT, CT, CT, CT, CT, PT]) = Some s \<and> mIsRunning (pv s) \<and>
      mt s = M_Idle \<and> pt s = PT_Wait \<and> m_size (previewFrames (pv s)) = 0 \<and>
      (\<exists>s'. run_partial (system_step demo_world) s (Stop # [PT, PT, CT, CT, CT, CT, Main, PT, Main]) = Some s' \<and> mt s' = M_Join_Preview)"
    by (simp add: demo_defs)
  then obtain s s' where s: "run_partial (system_step demo_world) (new_system 0) (demo_start @ [CT, CT, CT, CT, CT, PT]) = Some s"
    "mIsRunning (pv s)" "mt s = M_Idle" "pt s = PT_Wait" "m_size (previewFrames (pv s)) = 0" "mt s' = M_Join_Preview"
    and run: "run_partial (system_step demo_world) s (Stop # [PT, PT, CT, CT, CT, CT, Main, PT, Main]) = Some s'"
    by blast
  have "Spurious_Preview \<notin> set [PT, PT, CT, CT, CT, CT, Main, PT, Main]"
    by simp
  from stop_lost_wakeup [OF s(2-5) run this] s(1,6) run show ?thesis
    by blast
qed

text \<open>When the camera cannot be prepared or started, \<open>mIsRunning\<close> stays set and there is no capture thread: \<open>stopPreview\<close> joins a
  thread that was never created.\<close>

theorem stop_joins_uncreated_thread:
  assumes "mIsRunning (pv s)" and "mt s = M_Idle" and "ct s = CT_None" and "pt s = PT_Start \<longrightarrow> w_started w \<noteq> 0"
    and "pt s = PT_Prepare \<longrightarrow> fst (prepare_preview (w_negotiated w) (w_frame_desc w) (pv s)) \<noteq> 0"
    and "pt s \<in> {PT_Prepare, PT_Start, PT_Exit}"
  shows "\<exists>s'. run_partial (system_step w) s [PT] = Some s' \<and> pt s' = PT_Exit \<and> run_partial (system_step w) s' [Stop, Main] = None"
proof -
  obtain r p where prep: "prepare_preview (w_negotiated w) (w_frame_desc w) (pv s) = (r, p)"
    by fastforce
  obtain s' where s': "pt_step w (pt s) s = Some s'" "pt s' = PT_Exit" "mIsRunning (pv s')" "mt s' = M_Idle" "ct s' = CT_None"
    using assms prep prepare_running [OF prep] by auto
  then have "run_partial (system_step w) s' [Stop, Main] = None"
    by (simp add: stopPreview_def signal_preview_def signal_capture_def)
  with s' show ?thesis
    by simp
qed

theorem stop_joins_uncreated_thread_witness:
  "let w = demo_world\<lparr>w_started := -1\<rparr>; s = run_partial (system_step w) (new_system 0) [Set_Display (Some demo_surface), Start, PT, PT] in
   s \<noteq> None \<and> run_partial (system_step w) (the s) [PT, Stop, Main] = None"
proof -
  let ?w = "demo_world\<lparr>w_started := -1\<rparr>"
  have "\<exists>s. run_partial (system_step ?w) (new_system 0) [Set_Display (Some demo_surface), Start, PT, PT] = Some s \<and>
      mIsRunning (pv s) \<and> mt s = M_Idle \<and> ct s = CT_None \<and> pt s = PT_Exit"
    by (simp add: demo_defs)
  then obtain s where s: "run_partial (system_step ?w) (new_system 0) [Set_Display (Some demo_surface), Start, PT, PT] = Some s"
    "mIsRunning (pv s)" "mt s = M_Idle" "ct s = CT_None" "pt s = PT_Exit"
    by blast
  with stop_joins_uncreated_thread [of s ?w] show ?thesis
    by (auto simp: Let_def demo_world_def simp del: system_step.simps)
qed

section \<open>Frames nobody recycles\<close>

lemma lost_simps [simp]:
  "lost (recycle_frame f p) = lost p" "lost (store_frame f fr p) = lost p" "lost (callbackPixelFormatChanged mjpeg fill p) = lost p"
  "lost (clearCaptureFrame p) = lost p" "lost (clearPreviewFrame p) = lost p" "lost (setPreviewSize width height mode p) = lost p"
  "lost (set_callback w obj format p) = lost p"
proof -
  have "lost (fold recycle_frame fs p) = lost p" for fs p
    by (induction fs arbitrary: p) (simp_all add: recycle_frame_def)
  then show "lost (clearPreviewFrame p) = lost p"
    by (simp add: clearPreviewFrame_def Let_def)
qed (simp_all add: recycle_frame_def store_frame_def callbackPixelFormatChanged_def clearCaptureFrame_def setPreviewSize_def
    set_callback_def Let_def split: option.split)

lemma lost_tuples:
  "get_frame fill old n p = (c, p') \<Longrightarrow> lost p' = lost p"
  "convert_frame conv f g p = Some (ret, p') \<Longrightarrow> lost p' = lost p"
  "addPreviewFrame f p = (kept, p') \<Longrightarrow> lost p' = lost p"
  "take_preview_frame p = Some (fo, p') \<Longrightarrow> lost p' = lost p"
  "prepare_preview r d p = (ret, p') \<Longrightarrow> lost p' = lost p"
  "clearDisplay p = Some p' \<Longrightarrow> lost p' = lost p"
  using get_keeps convert_keeps
  by (auto simp: keeps_def addPreviewFrame_def take_preview_frame_def prepare_preview_def clearDisplay_def Let_def
      split: if_splits bind_splits option.splits prod.splits)

lemma pt_lost:
  assumes "pt_step w (pt s) s = Some s'"
  shows "set (lost (pv s)) \<subseteq> set (lost (pv s'))"
proof (cases "pt s")
  case (PT_Capture f)
  with assms show ?thesis
    by (auto simp: addCaptureFrame_def Let_def split: if_splits option.splits)
qed (use assms in \<open>auto simp: pt_take_def lost_tuples split: if_splits prod.splits bind_splits\<close>)

lemma lost_step:
  assumes "system_step w s e = Some s'"
  shows "set (lost (pv s)) \<subseteq> set (lost (pv s'))"
proof (cases e)
  case PT
  with assms show ?thesis
    by (simp add: pt_lost)
next
  case CT
  with assms ct_keeps [of w s s'] show ?thesis
    by (simp add: keeps_def)
next
  case CB
  with assms show ?thesis
    by (cases "cb s") (auto simp: lost_tuples split: if_splits prod.splits bind_splits)
next
  case Main
  with assms show ?thesis
    by (cases "mt s") (auto simp: lost_tuples split: if_splits bind_splits)
qed (use assms in \<open>auto simp: cb_frame_def startPreview_def stopPreview_def setFrameCallback_def setCaptureDisplay_def Let_def\<close>)

lemma lost_run: "run_partial (system_step w) s es = Some s' \<Longrightarrow> set (lost (pv s)) \<subseteq> set (lost (pv s'))"
  by (induction es arbitrary: s) (auto split: bind_splits dest: lost_step)

text \<open>A frame the preview thread hands to the capture thread after \<open>mIsRunning\<close> is cleared is gone: it still exists after any run
  that follows, in no pool and no queue.\<close>

theorem stop_leaks_frame:
  assumes "run_partial (system_step w) (new_system any_format) es = Some s" and "mIsRunning (pv s)" and "mt s = M_Idle" and "pt s = PT_Capture f"
    and "run_partial (system_step w) s ([Stop, PT] @ es') = Some s'"
  shows "f \<in> dom (frames (pv s')) \<and> f \<notin> set (contents (mFramePool (pv s'))) \<and> f \<notin> set (contents (previewFrames (pv s'))) \<and>
    captureQueu (pv s') \<noteq> Some f \<and> f \<notin> set (held s')"
proof -
  obtain s1 where s1: "run_partial (system_step w) s [Stop, PT] = Some s1" "run_partial (system_step w) s1 es' = Some s'"
    using assms(5) unfolding run_partial_append by (auto split: bind_splits simp del: run_partial.simps)
  have "f \<in> set (lost (pv s1))"
    using s1(1) assms(2-4) by (auto simp: stopPreview_def signal_capture_def signal_preview_def addCaptureFrame_def)
  with lost_run [OF s1(2)] have lost: "f \<in> set (lost (pv s'))"
    by blast
  have "run_partial (system_step w) (new_system any_format) (es @ [Stop, PT] @ es') = Some s'"
    using assms(1,5) by (simp add: run_partial_append del: run_partial.simps)
  then have "owned (pv s') (held s')"
    using run_ok [OF new_system_ok] by (simp add: system_ok_def)
  then have count: "count_list (bag (pv s')) f + count_list (held s') f = (if frames (pv s') f = None then 0 else 1)"
    by (simp add: owned_def)
  have "count_list (lost (pv s')) f \<noteq> 0"
    using lost by (simp add: count_list_0_iff)
  then show ?thesis
    using count by (auto simp: bag_def count_list_0_iff [symmetric] split: if_splits)
qed

text \<open>The frame of the run above, caught between the two threads, is still there when \<open>stopPreview\<close> has returned.\<close>

theorem stop_leaks_frame_witness:
  "\<exists>s s'. run_partial (system_step demo_world) (new_system 0) (demo_start @ [CT, CT, CT, CT, CT, Frame (demo_image 2 4 demo_row), CB, CB, CB, PT, PT, PT]) = Some s \<and>
     run_partial (system_step demo_world) s ([Stop, PT] @ [CT, CT, CT, CT, PT, PT, PT, Main, Main, Main, Main, Main]) = Some s' \<and>
     mt s' = M_Idle \<and> 0 \<in> dom (frames (pv s')) \<and> 0 \<notin> set (contents (mFramePool (pv s')))"
proof -
  have "\<exists>s. run_partial (system_step demo_world) (new_system 0) (demo_start @ [CT, CT, CT, CT, CT, Frame (demo_image 2 4 demo_row), CB, CB, CB, PT, PT, PT]) = Some s \<and>
      mIsRunning (pv s) \<and> mt s = M_Idle \<and> pt s = PT_Capture 0 \<and>
      (\<exists>s'. run_partial (system_step demo_world) s ([Stop, PT] @ [CT, CT, CT, CT, PT, PT, PT, Main, Main, Main, Main, Main]) = Some s' \<and> mt s' = M_Idle)"
    by (simp add: demo_defs demo_duplicate clearDisplay_def clear_surface_def)
  then obtain s s' where s: "run_partial (system_step demo_world) (new_system 0) (demo_start @ [CT, CT, CT, CT, CT, Frame (demo_image 2 4 demo_row), CB, CB, CB, PT, PT, PT]) = Some s"
    "mIsRunning (pv s)" "mt s = M_Idle" "pt s = PT_Capture 0" "mt s' = M_Idle"
    and run: "run_partial (system_step demo_world) s ([Stop, PT] @ [CT, CT, CT, CT, PT, PT, PT, Main, Main, Main, Main, Main]) = Some s'"
    by blast
  from stop_leaks_frame [OF s(1-4) run] s(1,5) run show ?thesis
    by blast
qed

end
