(* ===== verification/Preview_Stop.thy ===== *)
theory Preview_Stop
  imports Preview_Runs
begin

text \<open>
  \<open>stopPreview\<close> returns (\<open>UVCPreview.cpp\<close>), however the threads are scheduled: once \<open>mIsRunning\<close> is cleared and no thread waits
  for a frame, each step of a thread either changes nothing or lowers the rank, the number of steps left, and some thread can always lower
  it. So a schedule in which every thread moves often enough ends the call.
\<close>

section \<open>The steps left\<close>

fun cb_rank :: "callback_thread \<Rightarrow> nat" where
  "cb_rank CB_Idle = 0"
| "cb_rank (CB_Get _) = 1"
| "cb_rank (CB_Duplicate _ _) = 3"
| "cb_rank (CB_Add _) = 2"
| "cb_rank (CB_Recycle _) = 1"

fun pt_rank :: "preview_thread \<Rightarrow> nat" where
  "pt_rank (PT_Mjpeg _) = 12"
| "pt_rank (PT_Decode _ _) = 11"
| "pt_rank (PT_Recycle_Mjpeg _ _ _) = 10"
| "pt_rank (PT_Draw _) = 9"
| "pt_rank (PT_Get_Converted _) = 8"
| "pt_rank (PT_Convert _ _) = 7"
| "pt_rank (PT_Show _ _) = 6"
| "pt_rank (PT_Recycle_Converted _ _) = 5"
| "pt_rank (PT_Capture _) = 4"
| "pt_rank (PT_Recycle _) = 4"
| "pt_rank PT_Wait = 4"
| "pt_rank PT_Woken = 4"
| "pt_rank PT_Loop = 3"
| "pt_rank PT_Finish = 2"
| "pt_rank PT_Stop_Streaming = 1"
| "pt_rank _ = 0"

fun ct_rank :: "capture_thread \<Rightarrow> nat" where
  "ct_rank (CT_Surface _ _) = 10"
| "ct_rank (CT_Convert _ _) = 9"
| "ct_rank (CT_Callback _ _ _) = 8"
| "ct_rank (CT_Function _ _ _ _) = 7"
| "ct_rank (CT_Recycle_Frame _ _ _ _ _) = 6"
| "ct_rank (CT_Deliver _ _ _) = 5"
| "ct_rank (CT_Recycle _ _ _) = 4"
| "ct_rank (CT_Wait _ _) = 4"
| "ct_rank (CT_Woken _ _) = 4"
| "ct_rank (CT_Check _ _) = 3"
| "ct_rank CT_Init = 3"
| "ct_rank (CT_Leave _ _) = 2"
| "ct_rank CT_Format = 2"
| "ct_rank CT_Loop = 1"
| "ct_rank _ = 0"

fun mt_rank :: "main_thread \<Rightarrow> nat" where
  "mt_rank M_Join_Capture = 5"
| "mt_rank M_Join_Preview = 4"
| "mt_rank M_Clear_Display = 3"
| "mt_rank M_Clear_Preview = 2"
| "mt_rank M_Clear_Capture = 1"
| "mt_rank _ = 0"

definition steps_left :: "system \<Rightarrow> nat" where
  "steps_left s = cb_rank (cb s) + pt_rank (pt s) + ct_rank (ct s) + mt_rank (mt s)"

lemma steps_left_le: "steps_left s \<le> 30"
proof -
  have "cb_rank (cb s) \<le> 3"
    by (cases "cb s") simp_all
  moreover have "pt_rank (pt s) \<le> 12"
    by (cases "pt s") simp_all
  moreover have "ct_rank (ct s) \<le> 10"
    by (cases "ct s") simp_all
  moreover have "mt_rank (mt s) \<le> 5"
    by (cases "mt s") simp_all
  ultimately show ?thesis
    unfolding steps_left_def by linarith
qed

section \<open>On the way out\<close>

text \<open>The application is inside \<open>stopPreview\<close>, and no thread waits or is about to wait for a frame that will not come.\<close>

fun phase :: "main_thread \<Rightarrow> preview_thread \<Rightarrow> capture_thread \<Rightarrow> bool" where
  "phase M_Join_Capture p c \<longleftrightarrow> \<not> early p \<and> c \<noteq> CT_None"
| "phase M_Join_Preview p c \<longleftrightarrow> \<not> early p \<and> c = CT_None"
| "phase M_Clear_Display p c \<longleftrightarrow> p = PT_None \<and> c = CT_None"
| "phase M_Clear_Preview p c \<longleftrightarrow> p = PT_None \<and> c = CT_None"
| "phase M_Clear_Capture p c \<longleftrightarrow> p = PT_None \<and> c = CT_None"
| "phase _ p c \<longleftrightarrow> False"

text \<open>\<open>n\<close> frames in the queue; \<open>ended\<close>: the camera is stopped and its callback is done.\<close>

fun pt_going :: "preview_thread \<Rightarrow> nat \<Rightarrow> bool \<Rightarrow> bool" where
  "pt_going PT_Blocked n ended \<longleftrightarrow> False"
| "pt_going PT_Wait n ended \<longleftrightarrow> n \<noteq> 0"
| "pt_going PT_None n ended \<longleftrightarrow> ended"
| "pt_going PT_Exit n ended \<longleftrightarrow> ended"
| "pt_going _ n ended \<longleftrightarrow> True"

fun ct_going :: "capture_thread \<Rightarrow> nat option \<Rightarrow> bool" where
  "ct_going (CT_Blocked _ _) q \<longleftrightarrow> False"
| "ct_going (CT_Wait _ _) q \<longleftrightarrow> q \<noteq> None"
| "ct_going _ q \<longleftrightarrow> True"

definition preview_cleared :: "main_thread \<Rightarrow> preview \<Rightarrow> bool" where
  "preview_cleared m p \<longleftrightarrow> (m = M_Clear_Capture \<longrightarrow> m_size (previewFrames p) = 0 \<and> mPreviewWindow p = None)"

definition stopping :: "system \<Rightarrow> bool" where
  "stopping s \<longleftrightarrow> \<not> mIsRunning (pv s) \<and> phase (mt s) (pt s) (ct s) \<and> preview_cleared (mt s) (pv s) \<and> ct_going (ct s) (captureQueu (pv s)) \<and>
     pt_going (pt s) (m_size (previewFrames (pv s))) (cb s = CB_Idle \<and> \<not> streaming s)"

definition stopped :: "system \<Rightarrow> bool" where
  "stopped s \<longleftrightarrow> mt s = M_Idle \<and> pt s = PT_None \<and> ct s = CT_None \<and> cb s = CB_Idle \<and> \<not> streaming s \<and> \<not> mIsRunning (pv s) \<and>
     m_size (previewFrames (pv s)) = 0 \<and> captureQueu (pv s) = None \<and> mPreviewWindow (pv s) = None \<and> mCaptureWindow (pv s) = None"

text \<open>What can happen while the application's thread is in a call: steps of threads, frames, and wakeups without a signal.\<close>

fun thread_event :: "event \<Rightarrow> bool" where
  "thread_event (Frame _) = True"
| "thread_event CB = True"
| "thread_event PT = True"
| "thread_event CT = True"
| "thread_event Main = True"
| "thread_event Spurious_Preview = True"
| "thread_event Spurious_Capture = True"
| "thread_event _ = False"

definition lowers :: "system \<Rightarrow> system \<Rightarrow> bool" where
  "lowers s s' \<longleftrightarrow> steps_left s' < steps_left s \<and> (stopping s' \<or> stopped s')"

text \<open>What a stopping system's state is left with by all threads but the application's.\<close>

definition same_queues :: "preview \<Rightarrow> preview \<Rightarrow> bool" where
  "same_queues p p' \<longleftrightarrow> mIsRunning p' = mIsRunning p \<and> previewFrames p' = previewFrames p \<and> (captureQueu p' = None \<longleftrightarrow> captureQueu p = None) \<and>
     (mPreviewWindow p = None \<longrightarrow> mPreviewWindow p' = None)"

lemma stopping_cb:
  assumes "stopping s" and "cb s \<noteq> CB_Idle" and "same_queues (pv s) p" and "cb_rank t < cb_rank (cb s)"
  shows "lowers s (s\<lparr>pv := p, cb := t\<rparr>)"
proof -
  have "pt_going (pt s) (m_size (previewFrames p)) b" for b
    using assms(1-3) by (cases "pt s") (simp_all add: stopping_def same_queues_def)
  moreover have "ct_going (ct s) (captureQueu p)"
    using assms(1,3) by (cases "ct s") (simp_all add: stopping_def same_queues_def)
  moreover have "preview_cleared (mt s) p"
    using assms(1,3) by (simp add: stopping_def same_queues_def preview_cleared_def)
  ultimately show ?thesis
    using assms(1,3,4) by (simp add: lowers_def steps_left_def stopping_def same_queues_def)
qed

lemma stopping_pt:
  assumes "stopping s" and "same_queues (pv s) p" and "pt_rank t < pt_rank (pt s)" and "\<not> early t" and "t \<noteq> PT_Blocked" and "t \<noteq> PT_Wait"
    and "t = PT_Exit \<Longrightarrow> cb s = CB_Idle \<and> \<not> b" and "t \<noteq> PT_Exit \<Longrightarrow> b = streaming s"
  shows "lowers s (s\<lparr>pv := p, pt := t, streaming := b\<rparr>)"
proof -
  have "\<not> early (pt s)" "phase (mt s) t (ct s)"
    using assms(1,3,4) by (cases "mt s"; auto simp: stopping_def)+
  moreover have "pt_going t n (cb s = CB_Idle \<and> \<not> b)" for n
    using assms(4-8) by (cases t) simp_all
  moreover have "ct_going (ct s) (captureQueu p)"
    using assms(1,2) by (cases "ct s") (simp_all add: stopping_def same_queues_def)
  moreover have "preview_cleared (mt s) p"
    using assms(1,2) by (simp add: stopping_def same_queues_def preview_cleared_def)
  ultimately show ?thesis
    using assms(1-3) by (simp add: lowers_def steps_left_def stopping_def same_queues_def)
qed

lemma stopping_ct:
  assumes "stopping s" and "mIsRunning p = mIsRunning (pv s)" and "previewFrames p = previewFrames (pv s)" and "mPreviewWindow p = mPreviewWindow (pv s)"
    and "ct_rank t < ct_rank (ct s)" and "t \<noteq> CT_None" and "ct_going t None"
  shows "lowers s (s\<lparr>pv := p, ct := t\<rparr>)"
proof -
  have "phase (mt s) (pt s) t"
    using assms(1,5,6) by (cases "mt s") (auto simp: stopping_def)
  moreover have "ct_going t q" for q
    using assms(7) by (cases t) simp_all
  moreover have "preview_cleared (mt s) p"
    using assms(1-4) by (simp add: stopping_def preview_cleared_def)
  ultimately show ?thesis
    using assms(1-5) by (simp add: lowers_def steps_left_def stopping_def)
qed

lemma stopping_pt_move:
  assumes "stopping s" and "same_queues (pv s) p" and "pt_rank t < pt_rank (pt s)" and "\<not> early t" and "t \<notin> {PT_Blocked, PT_Wait, PT_Exit}"
  shows "lowers s (s\<lparr>pv := p, pt := t\<rparr>)"
  using stopping_pt [where b = "streaming s", OF assms(1-4)] assms(5) by simp

lemma same_queues_simps [simp]:
  "same_queues p p" "same_queues p (recycle_frame f p)" "same_queues p (store_frame f fr p)" "same_queues p (p\<lparr>lost := fs\<rparr>)"
  by (simp_all add: same_queues_def recycle_frame_def store_frame_def)

lemma get_same_queues: "get_frame fill old n p = (c, p') \<Longrightarrow> same_queues p p'"
  by (auto simp: get_frame_def same_queues_def split: prod.splits option.splits)

lemma convert_same_queues: "convert_frame conv f g p = Some (ret, p') \<Longrightarrow> same_queues p p'"
  by (auto simp: convert_frame_def split: bind_splits)

lemma stopping_signal: "stopping s \<Longrightarrow> signal_capture s = s \<and> signal_preview s = s"
  by (cases "mt s"; cases "ct s"; cases "pt s = PT_Blocked") (simp_all add: stopping_def signal_capture_def signal_preview_def)

lemma lowers_signal: "lowers s s' \<Longrightarrow> signal_capture s' = s'"
  using stopping_signal by (auto simp: lowers_def) (simp add: stopped_def signal_capture_def)

lemma stopping_takes:
  "\<not> mIsRunning p \<Longrightarrow> take_preview_frame p = Some (None, p)" "\<not> mIsRunning p \<Longrightarrow> take_capture_frame p = (None, p)"
  by (simp_all add: take_preview_frame_def take_capture_frame_def)

section \<open>Each step counts\<close>

lemma stop_cb:
  assumes "stopping s" and "cb s \<noteq> CB_Idle" and "cb_step w (cb s) s = Some s'"
  shows "lowers s s'"
proof -
  have off: "\<not> mIsRunning (pv s)"
    using assms(1) by (simp add: stopping_def)
  note move = stopping_cb [OF assms(1,2)]
  show ?thesis
  proof (cases "cb s")
    case (CB_Get fr)
    with off assms(3) move [of "pv s" CB_Idle] show ?thesis
      by simp
  next
    case (CB_Duplicate fr c)
    with assms(3) obtain copy t where "s' = s\<lparr>pv := store_frame c copy (pv s), cb := t\<rparr>" "t = CB_Recycle c \<or> t = CB_Add c"
      by (auto split: bind_splits)
    with CB_Duplicate move [of "store_frame c copy (pv s)" t] show ?thesis
      by auto
  next
    case (CB_Add c)
    with off assms(3) move [of "pv s" "CB_Recycle c"] show ?thesis
      by (simp add: addPreviewFrame_def)
  next
    case (CB_Recycle c)
    with assms(3) move [of "recycle_frame c (pv s)" CB_Idle] show ?thesis
      by simp
  qed (use assms(2) in simp)
qed

lemma stop_pt:
  assumes "stopping s" and "pt s \<notin> {PT_None, PT_Exit}" and "pt s = PT_Stop_Streaming \<Longrightarrow> cb s = CB_Idle" and "pt_step w (pt s) s = Some s'"
  shows "lowers s s'"
proof -
  have off: "\<not> mIsRunning (pv s)"
    using assms(1) by (simp add: stopping_def)
  note move = stopping_pt_move [OF assms(1)]
  have take: "lowers s t" if "pt_take s = Some t" "pt s \<in> {PT_Wait, PT_Woken}" for t
    using that off move [of "pv s" PT_Loop] by (auto simp: pt_take_def stopping_takes)
  have going: "\<not> early (pt s)" "pt s \<noteq> PT_Blocked" "pt s = PT_Wait \<longrightarrow> m_size (previewFrames (pv s)) \<noteq> 0"
    using assms(1,2) by (cases "mt s"; auto simp: stopping_def)+
  show ?thesis
  proof (cases "pt s")
    case PT_Loop
    with off assms(4) move [of "pv s" PT_Finish] show ?thesis
      by simp
  next
    case (PT_Mjpeg m)
    with assms(4) obtain f p where "same_queues (pv s) p" "s' = s\<lparr>pv := p, pt := PT_Decode m f\<rparr>"
      by (auto split: bind_splits prod.splits intro: get_same_queues)
    with PT_Mjpeg move show ?thesis
      by simp
  next
    case (PT_Decode m f)
    with assms(4) obtain ok p where "same_queues (pv s) p" "s' = s\<lparr>pv := p, pt := PT_Recycle_Mjpeg m f ok\<rparr>"
      by (auto split: bind_splits intro: convert_same_queues)
    with PT_Decode move show ?thesis
      by simp
  next
    case (PT_Recycle_Mjpeg m f ok)
    with assms(4) move [of "recycle_frame m (pv s)"] show ?thesis
      by (cases ok) auto
  next
    case (PT_Recycle f)
    with assms(4) move [of "recycle_frame f (pv s)" PT_Loop] show ?thesis
      by simp
  next
    case (PT_Draw f)
    with assms(4) move [of "pv s" "PT_Get_Converted f"] move [of "pv s" "PT_Capture f"] show ?thesis
      by (auto split: if_splits)
  next
    case (PT_Get_Converted f)
    with assms(4) obtain c p where "same_queues (pv s) p" "s' = s\<lparr>pv := p, pt := PT_Convert f c\<rparr>"
      by (auto split: bind_splits prod.splits intro: get_same_queues)
    with PT_Get_Converted move show ?thesis
      by simp
  next
    case (PT_Convert f c)
    with assms(4) obtain p t where "same_queues (pv s) p" "s' = s\<lparr>pv := p, pt := t\<rparr>" "t = PT_Show f c \<or> t = PT_Recycle_Converted f c"
      by (auto split: bind_splits dest: convert_same_queues)
    with PT_Convert move [of p t] show ?thesis
      by auto
  next
    case (PT_Show f c)
    with assms(4) obtain ret window fr where "copyToSurface fr (mPreviewWindow (pv s)) = Some (ret, window)"
      "s' = s\<lparr>pv := (pv s)\<lparr>mPreviewWindow := window\<rparr>, pt := PT_Recycle_Converted f c\<rparr>"
      by (auto split: bind_splits)
    moreover from this have "same_queues (pv s) ((pv s)\<lparr>mPreviewWindow := window\<rparr>)"
      by (auto simp: same_queues_def copyToSurface_def)
    ultimately show ?thesis
      using PT_Show move by simp
  next
    case (PT_Recycle_Converted f c)
    with assms(4) move [of "recycle_frame c (pv s)" "PT_Capture f"] show ?thesis
      by simp
  next
    case (PT_Capture f)
    with assms(4) off move [of "addCaptureFrame f (pv s)" PT_Loop] show ?thesis
      by (simp add: addCaptureFrame_def)
  next
    case PT_Finish
    then have "lowers s (s\<lparr>pt := PT_Stop_Streaming\<rparr>)"
      using move [of "pv s" PT_Stop_Streaming] by simp
    moreover from this have "signal_capture (s\<lparr>pt := PT_Stop_Streaming\<rparr>) = s\<lparr>pt := PT_Stop_Streaming\<rparr>"
      by (rule lowers_signal)
    ultimately show ?thesis
      using assms(4) PT_Finish by simp
  next
    case PT_Stop_Streaming
    with assms(3,4) stopping_pt [OF assms(1), of "pv s" PT_Exit False] show ?thesis
      by simp
  qed (use assms(2,4) going take in auto)
qed

lemma stop_ct:
  assumes "stopping s" and "ct s \<notin> {CT_None, CT_Exit}" and "ct_step w (ct s) s = Some s'"
  shows "lowers s s'"
proof -
  have off: "\<not> mIsRunning (pv s)"
    using assms(1) by (simp add: stopping_def)
  note move = stopping_ct [OF assms(1)]
  have keep: "lowers s (s\<lparr>ct := t\<rparr>)" if "ct_rank t < ct_rank (ct s)" "t \<noteq> CT_None" "ct_going t None" for t
    using move [of "pv s" t] that by simp
  have take: "lowers s (ct_take sf cv s)" if "ct s \<in> {CT_Wait sf cv, CT_Woken sf cv}" for sf cv
    using that off move [of "pv s" "CT_Check sf cv"] by (auto simp: ct_take_def stopping_takes)
  show ?thesis
  proof (cases "ct s")
    case CT_Init
    with assms(3) move [of "clearCaptureFrame (pv s)" CT_Format] show ?thesis
      by (simp add: clearCaptureFrame_def Let_def recycle_frame_def split: option.split)
  next
    case CT_Format
    with assms(3) move [of "callbackPixelFormatChanged (w_mjpeg w) (w_fill w) (pv s)" CT_Loop] show ?thesis
      by (simp add: callbackPixelFormatChanged_def Let_def)
  next
    case CT_Loop
    with off assms(3) keep [of CT_Exit] show ?thesis
      by simp
  next
    case (CT_Check sf cv)
    with off assms(3) keep [of "CT_Leave sf cv"] show ?thesis
      by simp
  next
    case (CT_Wait sf cv)
    then have "captureQueu (pv s) \<noteq> None"
      using assms(1) by (simp add: stopping_def)
    with CT_Wait assms(3) take show ?thesis
      by auto
  next
    case (CT_Woken sf cv)
    with assms(3) take show ?thesis
      by auto
  next
    case (CT_Blocked sf cv)
    with assms(1) show ?thesis
      by (simp add: stopping_def)
  next
    case (CT_Surface f cv)
    show ?thesis
    proof (cases cv)
      case None
      with CT_Surface assms(3) obtain c p where g: "get_frame (w_fill w) (w_old w) (previewBytes (pv s)) (pv s) = (c, p)" "s' = s\<lparr>pv := p, ct := CT_Convert f c\<rparr>"
        by (auto split: prod.splits)
      with CT_Surface None move [of p "CT_Convert f c"] show ?thesis
        by (auto simp: get_frame_def split: prod.splits option.splits)
    next
      case (Some c)
      with CT_Surface assms(3) keep [of "CT_Convert f c"] show ?thesis
        by simp
    qed
  next
    case (CT_Convert f c)
    with assms(3) obtain ret p window where v: "convert_frame (uvc_any2rgbx (w_mjpeg w) (w_fill w)) f c (pv s) = Some (ret, p)"
      "s' = s\<lparr>pv := p\<lparr>mCaptureWindow := window\<rparr>, ct := CT_Callback True (Some c) f\<rparr>"
      by (auto split: bind_splits)
    with CT_Convert move [of "p\<lparr>mCaptureWindow := window\<rparr>" "CT_Callback True (Some c) f"] show ?thesis
      by (auto simp: convert_frame_def store_frame_def split: bind_splits)
  next
    case (CT_Callback sf cv f)
    obtain g p where g: "get_frame (w_fill w) (w_old w) (callbackPixelBytes (pv s)) (pv s) = (g, p)"
      by fastforce
    with CT_Callback have "lowers s (s\<lparr>pv := p, ct := CT_Function sf cv f g\<rparr>)"
      by (intro move) (auto simp: get_frame_def split: prod.splits option.splits)
    with CT_Callback g assms(3) keep [of "CT_Recycle sf cv f"] keep [of "CT_Deliver sf cv f"] show ?thesis
      by (auto split: if_splits)
  next
    case (CT_Function sf cv f g)
    with assms(3) obtain conv b p where v: "convert_frame conv f g (pv s) = Some (b, p)" "s' = s\<lparr>pv := p, ct := CT_Recycle_Frame sf cv f g (b = 0)\<rparr>"
      by (auto split: bind_splits option.splits)
    with CT_Function move [of p "CT_Recycle_Frame sf cv f g (b = 0)"] show ?thesis
      by (auto simp: convert_frame_def store_frame_def split: bind_splits)
  next
    case (CT_Recycle_Frame sf cv f g ok)
    with assms(3) move [of "recycle_frame f (pv s)"] show ?thesis
      by (cases ok) (auto simp: recycle_frame_def)
  next
    case (CT_Deliver sf cv g)
    then have "lowers s (s\<lparr>ct := CT_Recycle sf cv g\<rparr>)"
      by (intro keep) simp_all
    then have "lowers s (s\<lparr>delivered := d, ct := CT_Recycle sf cv g\<rparr>)" for d
      by (simp add: lowers_def stopping_def stopped_def steps_left_def)
    with CT_Deliver assms(3) show ?thesis
      by (auto split: bind_splits)
  next
    case (CT_Recycle sf cv g)
    with assms(3) move [of "recycle_frame g (pv s)" "CT_Check sf cv"] show ?thesis
      by (simp add: recycle_frame_def)
  next
    case (CT_Leave sf cv)
    let ?p = "case cv of None \<Rightarrow> pv s | Some c \<Rightarrow> recycle_frame c (pv s)"
    have "lowers s (s\<lparr>pv := (if sf then ?p\<lparr>mCaptureWindow := None\<rparr> else ?p), ct := CT_Loop\<rparr>)" (is "lowers s ?t")
      using CT_Leave by (intro move) (simp_all add: recycle_frame_def split: option.split)
    moreover from this have "signal_capture ?t = ?t"
      by (rule lowers_signal)
    ultimately show ?thesis
      using CT_Leave assms(3) by (simp add: Let_def)
  qed (use assms(2) in simp_all)
qed

lemma stop_main:
  assumes "stopping s" and "mt s = M_Join_Capture \<Longrightarrow> ct s = CT_Exit" and "mt s = M_Join_Preview \<Longrightarrow> pt s = PT_Exit"
    and "main_step w (mt s) s = Some s'"
  shows "lowers s s'"
proof (cases "mt s")
  case M_Join_Capture
  then have "s' = s\<lparr>ct := CT_None, mt := M_Join_Preview\<rparr>"
    using assms(2,4) by simp
  with M_Join_Capture assms(1,2) show ?thesis
    by (simp add: lowers_def steps_left_def stopping_def preview_cleared_def)
next
  case M_Join_Preview
  then have "s' = s\<lparr>pt := PT_None, mt := M_Clear_Display\<rparr>"
    using assms(3,4) by simp
  with M_Join_Preview assms(1,3) show ?thesis
    by (simp add: lowers_def steps_left_def stopping_def preview_cleared_def)
next
  case M_Clear_Display
  with assms(4) obtain cw pw where "s' = s\<lparr>pv := (pv s)\<lparr>mCaptureWindow := cw, mPreviewWindow := pw\<rparr>, mt := M_Clear_Preview\<rparr>"
    by (auto simp: clearDisplay_def split: bind_splits)
  moreover have "pt s = PT_None" "ct s = CT_None"
    using M_Clear_Display assms(1) by (simp_all add: stopping_def)
  ultimately show ?thesis
    using M_Clear_Display assms(1) by (simp add: lowers_def steps_left_def stopping_def preview_cleared_def)
next
  case M_Clear_Preview
  then have "pt s = PT_None" "ct s = CT_None" "\<not> mIsRunning (clearPreviewFrame (pv s))"
    using assms(1) by (simp_all add: stopping_def)
  with M_Clear_Preview assms(1,4) show ?thesis
    by (auto simp: lowers_def steps_left_def stopping_def preview_cleared_def)
next
  case M_Clear_Capture
  then have "pt s = PT_None" "ct s = CT_None" "\<not> mIsRunning (clearCaptureFrame (pv s))"
    using assms(1) by (simp_all add: stopping_def clearCaptureFrame_def recycle_frame_def Let_def split: option.split)
  with M_Clear_Capture assms(1,4) show ?thesis
    by (auto simp: lowers_def steps_left_def stopping_def stopped_def preview_cleared_def)
qed (use assms(1) in \<open>simp_all add: stopping_def\<close>)

text \<open>A step of a thread lowers the rank or changes nothing, and never does one thread wait for another that waits.\<close>

lemma stop_step:
  assumes "stopping s" and "thread_event e" and "system_step w s e = Some s'"
  shows "s' = s \<or> lowers s s'"
proof (cases e)
  case (Frame fr)
  with assms show ?thesis
    by (simp add: cb_frame_def frame_accepted_def stopping_def)
next
  case CB
  with assms stop_cb [OF assms(1)] show ?thesis
    by (cases "cb s = CB_Idle") auto
next
  case PT
  with assms stop_pt [OF assms(1)] show ?thesis
    by (cases "pt s \<in> {PT_None, PT_Exit} \<or> pt s = PT_Stop_Streaming \<and> cb s \<noteq> CB_Idle") auto
next
  case CT
  with assms stop_ct [OF assms(1)] show ?thesis
    by (cases "ct s \<in> {CT_None, CT_Exit}") auto
next
  case Main
  have "s' = s" if "mt s = M_Join_Capture \<and> ct s \<noteq> CT_Exit \<or> mt s = M_Join_Preview \<and> pt s \<noteq> PT_Exit"
    using that Main assms(3) by (auto split: if_splits)
  with Main assms(3) stop_main [OF assms(1)] show ?thesis
    by auto
qed (use assms stopping_signal [OF assms(1)] in simp_all)

lemma someone_moves:
  assumes "stopping s"
  shows "\<exists>e \<in> {CB, PT, CT, Main}. \<forall>s'. system_step w s e = Some s' \<longrightarrow> lowers s s'"
proof -
  consider "mt s = M_Join_Capture" "ct s \<noteq> CT_Exit" | "mt s = M_Join_Preview" "pt s = PT_Stop_Streaming" "cb s \<noteq> CB_Idle"
    | "mt s = M_Join_Preview" "pt s \<noteq> PT_Exit" "pt s = PT_Stop_Streaming \<longrightarrow> cb s = CB_Idle"
    | "mt s = M_Join_Capture \<longrightarrow> ct s = CT_Exit" "mt s = M_Join_Preview \<longrightarrow> pt s = PT_Exit"
    by blast
  then show ?thesis
  proof cases
    case 1
    then have "ct s \<notin> {CT_None, CT_Exit}"
      using assms by (simp add: stopping_def)
    with stop_ct [OF assms] show ?thesis
      by (intro bexI [of _ CT]) auto
  next
    case 2
    with stop_cb [OF assms] show ?thesis
      by (intro bexI [of _ CB]) auto
  next
    case 3
    then have "pt s \<notin> {PT_None, PT_Exit}"
      using assms by (auto simp: stopping_def)
    with 3 stop_pt [OF assms] show ?thesis
      by (intro bexI [of _ PT]) auto
  next
    case 4
    with stop_main [OF assms] show ?thesis
      by (intro bexI [of _ Main]) auto
  qed
qed

lemma stopped_stays: "stopped s \<Longrightarrow> thread_event e \<Longrightarrow> system_step w s e = Some s"
  by (cases e) (simp_all add: stopped_def cb_frame_def signal_preview_def signal_capture_def)

lemma stopped_run: "stopped s \<Longrightarrow> \<forall>e \<in> set es. thread_event e \<Longrightarrow> run_partial (system_step w) s es = Some s"
  by (induction es) (simp_all add: stopped_stays)

lemma lowers_trans: "lowers s t \<Longrightarrow> lowers t u \<Longrightarrow> lowers s u"
  by (auto simp: lowers_def)

lemma stop_run:
  assumes "stopping s" and "\<forall>e \<in> set es. thread_event e" and "run_partial (system_step w) s es = Some s'"
  shows "s' = s \<and> (\<forall>e \<in> set es. system_step w s e = Some s) \<or> lowers s s'"
  using assms
proof (induction es arbitrary: s)
  case (Cons e es)
  then obtain t where t: "system_step w s e = Some t" "run_partial (system_step w) t es = Some s'"
    by (auto split: bind_splits)
  from stop_step [OF Cons.prems(1) _ t(1)] Cons.prems(2) consider "t = s" | "lowers s t" "stopping t" | "lowers s t" "stopped t"
    by (auto simp: lowers_def)
  then show ?case
  proof cases
    case 1
    with Cons.IH [OF Cons.prems(1)] Cons.prems(2) t show ?thesis
      by auto
  next
    case 2
    with Cons.IH [OF 2(2)] Cons.prems(2) t(2) lowers_trans show ?thesis
      by auto
  next
    case 3
    with stopped_run [OF 3(2)] Cons.prems(2) t(2) show ?thesis
      by simp
  qed
qed simp

text \<open>A round is a stretch of the schedule in which each thread gets to move.\<close>

definition fair_round :: "event list \<Rightarrow> bool" where
  "fair_round es \<longleftrightarrow> {CB, PT, CT, Main} \<subseteq> set es \<and> (\<forall>e \<in> set es. thread_event e)"

lemma stop_rounds:
  assumes "stopping s" and "\<forall>es \<in> set rounds. fair_round es" and "steps_left s \<le> length rounds"
    and "run_partial (system_step w) s (concat rounds) = Some s'"
  shows "stopped s'"
  using assms
proof (induction rounds arbitrary: s)
  case Nil
  then show ?case
    by (cases "mt s") (simp_all add: steps_left_def stopping_def)
next
  case (Cons es rounds)
  then obtain t where t: "run_partial (system_step w) s es = Some t" "run_partial (system_step w) t (concat rounds) = Some s'"
    by (auto simp: run_partial_append split: bind_splits)
  have events: "\<forall>e \<in> set es. thread_event e" "\<forall>e \<in> set (concat rounds). thread_event e"
    using Cons.prems(2) by (auto simp: fair_round_def)
  have "{CB, PT, CT, Main} \<subseteq> set es"
    using Cons.prems(2) by (simp add: fair_round_def)
  then obtain e where e: "e \<in> set es" "\<forall>s'. system_step w s e = Some s' \<longrightarrow> lowers s s'"
    using someone_moves [OF Cons.prems(1)] by blast
  then have "system_step w s e \<noteq> Some s"
    by (auto simp: lowers_def)
  with stop_run [OF Cons.prems(1) events(1) t(1)] e(1) have low: "lowers s t"
    by blast
  show ?case
  proof (cases "stopped t")
    case True
    with stopped_run [OF True events(2)] t(2) show ?thesis
      by simp
  next
    case False
    with low Cons.prems show ?thesis
      by (intro Cons.IH [OF _ _ _ t(2)]) (auto simp: lowers_def)
  qed
qed

section \<open>Threads that wait for frames\<close>

text \<open>When both threads wait, the steps left touch no frame's contents, and none of them is undefined.\<close>

fun pt_quiet :: "preview_thread \<Rightarrow> bool" where
  "pt_quiet PT_Woken = True"
| "pt_quiet PT_Loop = True"
| "pt_quiet PT_Finish = True"
| "pt_quiet PT_Stop_Streaming = True"
| "pt_quiet PT_Exit = True"
| "pt_quiet PT_None = True"
| "pt_quiet _ = False"

fun ct_quiet :: "capture_thread \<Rightarrow> bool" where
  "ct_quiet (CT_Woken _ _) = True"
| "ct_quiet (CT_Check _ _) = True"
| "ct_quiet (CT_Leave _ _) = True"
| "ct_quiet CT_Loop = True"
| "ct_quiet CT_Exit = True"
| "ct_quiet CT_None = True"
| "ct_quiet _ = False"

definition surfaces_clear :: "preview \<Rightarrow> bool" where
  "surfaces_clear p \<longleftrightarrow> clear_surface (mPreviewWindow p) \<noteq> None \<and> clear_surface (mCaptureWindow p) \<noteq> None"

lemma surfaces_clear_simps [simp]:
  "surfaces_clear p \<Longrightarrow> surfaces_clear (p\<lparr>mCaptureWindow := None\<rparr>)" "surfaces_clear (recycle_frame f p) = surfaces_clear p"
  by (simp_all add: surfaces_clear_def clear_surface_def recycle_frame_def split: option.splits)

definition quiet_threads :: "system \<Rightarrow> bool" where
  "quiet_threads s \<longleftrightarrow> cb s = CB_Idle \<and> pt_quiet (pt s) \<and> ct_quiet (ct s) \<and> (mt_rank (mt s) \<ge> 3 \<longrightarrow> surfaces_clear (pv s))"

lemma quiet_pt:
  assumes "quiet_threads s" and "\<not> mIsRunning (pv s)" and "stopping s"
  shows "\<exists>s'. pt_step w (pt s) s = Some s' \<and> quiet_threads s'"
proof (cases "pt s")
  case PT_Finish
  have "stopping (s\<lparr>pt := PT_Stop_Streaming\<rparr>)"
    using PT_Finish assms(3) by (cases "mt s") (simp_all add: stopping_def)
  with stopping_signal [OF this] PT_Finish assms(1) show ?thesis
    by (simp add: quiet_threads_def)
qed (use assms(1,2) in \<open>simp_all add: quiet_threads_def pt_take_def stopping_takes\<close>)

lemma quiet_ct:
  assumes "quiet_threads s" and "\<not> mIsRunning (pv s)" and "stopping s"
  shows "\<exists>s'. ct_step w (ct s) s = Some s' \<and> quiet_threads s'"
proof (cases "ct s")
  case (CT_Leave sf cv)
  let ?p = "case cv of None \<Rightarrow> pv s | Some c \<Rightarrow> recycle_frame c (pv s)"
  let ?t = "s\<lparr>pv := (if sf then ?p\<lparr>mCaptureWindow := None\<rparr> else ?p), ct := CT_Loop\<rparr>"
  have "signal_capture ?t = ?t"
    using stopping_signal [OF assms(3)] assms(3) by (cases "mt s") (simp_all add: stopping_def signal_capture_def)
  moreover have "quiet_threads ?t"
    using assms(1) by (simp add: quiet_threads_def split: option.split)
  ultimately show ?thesis
    using CT_Leave by (simp add: Let_def)
qed (use assms(1,2) in \<open>simp_all add: quiet_threads_def ct_take_def stopping_takes\<close>)

lemma quiet_main:
  assumes "quiet_threads s" and "stopping s"
  shows "\<exists>s'. main_step w (mt s) s = Some s' \<and> quiet_threads s'"
proof (cases "mt s")
  case M_Clear_Display
  then show ?thesis
    using assms(1) by (auto simp: quiet_threads_def surfaces_clear_def clearDisplay_def)
qed (use assms in \<open>auto simp: quiet_threads_def stopping_def\<close>)

lemma quiet_step:
  assumes "stopping s" and "quiet_threads s" and "thread_event e"
  shows "\<exists>s'. system_step w s e = Some s' \<and> (stopping s' \<and> quiet_threads s' \<or> stopped s')"
proof -
  have off: "\<not> mIsRunning (pv s)"
    using assms(1) by (simp add: stopping_def)
  have "\<exists>s'. system_step w s e = Some s' \<and> quiet_threads s'"
  proof (cases e)
    case (Frame fr)
    with assms(2) off show ?thesis
      by (simp add: cb_frame_def frame_accepted_def)
  next
    case CB
    with assms(2) show ?thesis
      by (simp add: quiet_threads_def)
  qed (use assms stopping_signal [OF assms(1)] quiet_pt [OF assms(2) off] quiet_ct [OF assms(2) off] quiet_main [OF assms(2)] in auto)
  then show ?thesis
    using stop_step [OF assms(1,3)] assms(1) by (fastforce simp: lowers_def)
qed

lemma quiet_run:
  assumes "stopping s" and "quiet_threads s" and "\<forall>e \<in> set es. thread_event e"
  shows "run_partial (system_step w) s es \<noteq> None"
  using assms
proof (induction es arbitrary: s)
  case (Cons e es)
  obtain t where t: "system_step w s e = Some t" "stopping t \<and> quiet_threads t \<or> stopped t"
    using quiet_step [OF Cons.prems(1,2), of e w] Cons.prems(3) by auto
  then show ?case
  proof (cases "stopped t")
    case True
    with stopped_run [OF True, of es w] Cons.prems(3) t(1) show ?thesis
      by simp
  next
    case False
    with Cons.IH t Cons.prems(3) show ?thesis
      by simp
  qed
qed simp

section \<open>Stopping returns\<close>

lemma woken_going:
  "\<not> early t \<Longrightarrow> t \<noteq> PT_Exit \<Longrightarrow> t = PT_Wait \<longrightarrow> n \<noteq> 0 \<Longrightarrow> pt_going (if t = PT_Blocked then PT_Woken else t) n b"
  by (cases t) simp_all

lemma woken_capture_going:
  assumes "c \<noteq> CT_None" and "\<forall>sf cv. c = CT_Wait sf cv \<longrightarrow> q \<noteq> None"
  shows "ct_going (case c of CT_Blocked sf cv \<Rightarrow> CT_Woken sf cv | c \<Rightarrow> c) q" and "(case c of CT_Blocked sf cv \<Rightarrow> CT_Woken sf cv | c \<Rightarrow> c) \<noteq> CT_None"
  using assms by (cases c; simp)+

lemma stopPreview_stopping:
  assumes "system_ok s" and "mIsRunning (pv s)" and "ct s \<noteq> CT_None" and "pt s \<noteq> PT_Exit"
    and "pt s = PT_Wait \<longrightarrow> m_size (previewFrames (pv s)) \<noteq> 0" and "\<forall>sf cv. ct s = CT_Wait sf cv \<longrightarrow> captureQueu (pv s) \<noteq> None"
  shows "stopping (stopPreview s)"
proof -
  let ?p = "if pt s = PT_Blocked then PT_Woken else pt s" and ?c = "case ct s of CT_Blocked sf cv \<Rightarrow> CT_Woken sf cv | c \<Rightarrow> c"
  have early: "\<not> early (pt s)"
    using assms(1,3) by (auto simp: system_ok_def threads_ok_def)
  have "stopPreview s = s\<lparr>pv := (pv s)\<lparr>mIsRunning := False\<rparr>, pt := ?p, ct := ?c, mt := M_Join_Capture\<rparr>"
    using assms(2) by (simp add: stopPreview_def signal_preview_def signal_capture_def)
  moreover have "pt_going ?p (m_size (previewFrames (pv s))) b" "\<not> early ?p" for b
    using early assms(4,5) woken_going by simp_all
  moreover have "ct_going ?c (captureQueu (pv s))" "?c \<noteq> CT_None"
    using assms(3,6) woken_capture_going by blast+
  ultimately show ?thesis
    by (simp only: stopping_def) (simp add: preview_cleared_def del: if_split)
qed

text \<open>C21. Once a running preview is stopped, every schedule in which the camera's callback, the two threads and the application's thread
  all move in each of 30 rounds, in any order and with any frames and spurious wakeups between, ends both threads and brings the
  application's call back, with the camera stopped, the queues empty and the surfaces released. The preview may be anywhere in its work
  but for two places: neither thread is between its test for a frame and its wait. A step on a buffer too small for its picture is undefined;
  when both threads wait for frames there is none, whatever the schedule.\<close>

theorem stop_returns:
  assumes "run_partial (system_step w) (new_system any_format) es = Some s" and "mIsRunning (pv s)" and "mt s = M_Idle"
    and "ct s \<noteq> CT_None" and "pt s \<noteq> PT_Exit" and "pt s = PT_Wait \<longrightarrow> m_size (previewFrames (pv s)) \<noteq> 0"
    and "\<forall>sf cv. ct s = CT_Wait sf cv \<longrightarrow> captureQueu (pv s) \<noteq> None"
    and "\<forall>r \<in> set rounds. {CB, PT, CT, Main} \<subseteq> set r \<and> (\<forall>e \<in> set r. thread_event e)"
  shows "(\<forall>s'. 30 \<le> length rounds \<and> run_partial (system_step w) s (Stop # concat rounds) = Some s' \<longrightarrow>
      mt s' = M_Idle \<and> pt s' = PT_None \<and> ct s' = CT_None \<and> cb s' = CB_Idle \<and> \<not> streaming s' \<and> \<not> mIsRunning (pv s') \<and>
      m_size (previewFrames (pv s')) = 0 \<and> captureQueu (pv s') = None \<and> mPreviewWindow (pv s') = None \<and> mCaptureWindow (pv s') = None) \<and>
    (cb s = CB_Idle \<and> pt s = PT_Blocked \<and> (\<exists>sf cv. ct s = CT_Blocked sf cv) \<and> clear_surface (mPreviewWindow (pv s)) \<noteq> None \<and>
      clear_surface (mCaptureWindow (pv s)) \<noteq> None \<longrightarrow> run_partial (system_step w) s (Stop # concat rounds) \<noteq> None)"
proof -
  have "system_ok s"
    by (rule run_ok [OF new_system_ok assms(1)])
  then have going: "stopping (stopPreview s)"
    using assms by (intro stopPreview_stopping) auto
  have rounds: "\<forall>r \<in> set rounds. fair_round r" "\<forall>e \<in> set (concat rounds). thread_event e"
    using assms(8) by (auto simp: fair_round_def)
  have "stopped s'" if "30 \<le> length rounds" "run_partial (system_step w) (stopPreview s) (concat rounds) = Some s'" for s'
    using stop_rounds [OF going rounds(1) _ that(2)] steps_left_le [of "stopPreview s"] that(1) by simp
  moreover have "run_partial (system_step w) (stopPreview s) (concat rounds) \<noteq> None"
    if "cb s = CB_Idle" "pt s = PT_Blocked" "ct s = CT_Blocked sf cv" "surfaces_clear (pv s)" for sf cv
  proof (rule quiet_run [OF going _ rounds(2)])
    show "quiet_threads (stopPreview s)"
      using that assms(2) by (simp add: quiet_threads_def stopPreview_def signal_preview_def signal_capture_def surfaces_clear_def)
  qed
  ultimately show ?thesis
    using assms(3) by (auto simp: stopped_def surfaces_clear_def)
qed

text \<open>A preview that waits, stopped under a scheduler that lets the callback, the application and then the threads move.\<close>

theorem stop_returns_witness:
  "\<exists>s s'. run_partial (system_step demo_world) (new_system 0) demo_waiting = Some s \<and> streaming s \<and>
     run_partial (system_step demo_world) s (Stop # concat (replicate 30 [CB, Main, PT, CT])) = Some s' \<and> mt s' = M_Idle \<and> \<not> streaming s'"
proof -
  obtain s where s: "run_partial (system_step demo_world) (new_system 0) demo_waiting = Some s" "mIsRunning (pv s)" "streaming s"
    "mt s = M_Idle" "cb s = CB_Idle" "pt s = PT_Blocked" "ct s = CT_Blocked False None" "mPreviewWindow (pv s) = None" "mCaptureWindow (pv s) = None"
    using demo_waiting_state by blast
  define rounds where "rounds = replicate 30 [CB, Main, PT, CT]"
  have "ct s \<noteq> CT_None" "pt s \<noteq> PT_Exit" "pt s = PT_Wait \<longrightarrow> m_size (previewFrames (pv s)) \<noteq> 0"
    "\<forall>sf cv. ct s = CT_Wait sf cv \<longrightarrow> captureQueu (pv s) \<noteq> None"
    "\<forall>r \<in> set rounds. {CB, PT, CT, Main} \<subseteq> set r \<and> (\<forall>e \<in> set r. thread_event e)"
    using s(6,7) by (simp_all add: rounds_def)
  note all = stop_returns [OF s(1,2,4) this]
  have "run_partial (system_step demo_world) s (Stop # concat rounds) \<noteq> None"
    using s(5-9) by (intro conjunct2 [OF all, THEN mp]) (auto simp: clear_surface_def)
  then obtain s' where run: "run_partial (system_step demo_world) s (Stop # concat rounds) = Some s'"
    by blast
  have "30 \<le> length rounds"
    by (simp add: rounds_def)
  with all run have "mt s' = M_Idle" "\<not> streaming s'"
    by blast+
  with s(1,3) run show ?thesis
    unfolding rounds_def by blast
qed

end
