(* ===== verification/Camera_Values.thy ===== *)
theory Camera_Values
  imports Uvc_Camera Uvc_Processing
begin

text \<open>
  The limits of a control as the application sees them (\<open>UVCCamera.cpp\<close>): a cache of minimum, maximum and default per control, filled on
  first use, and the setters that clamp to it. A C \<open>int\<close> is an integer, narrowed where the code narrows it; the getters and setters of
  \<open>libuvc\<close> take words, and each overload says how its words become an \<open>int\<close>. Using a variable no transfer has written is \<open>None\<close>.
\<close>

named_theorems camera_defs \<open>the methods of the camera object\<close>

abbreviation UVC_ERROR_ACCESS :: int where "UVC_ERROR_ACCESS \<equiv> -3"
abbreviation UVC_ERROR_NOT_FOUND :: int where "UVC_ERROR_NOT_FOUND \<equiv> -5"
abbreviation UVC_ERROR_BUSY :: int where "UVC_ERROR_BUSY \<equiv> -6"

section \<open>The cached limits\<close>

record control_value =
  cv_min :: int
  cv_max :: int
  cv_def :: int
  cv_current :: int

type_synonym ('v, 'd) getter = "u8 \<Rightarrow> 'd \<Rightarrow> (int \<times> 'v option \<times> 'd) option"
type_synonym ('v, 'd) setter = "'v \<Rightarrow> 'd \<Rightarrow> (int \<times> 'd) option"
type_synonym 'd updater = "control_value \<Rightarrow> 'd \<Rightarrow> (int \<times> control_value \<times> 'd) option"

text \<open>One call of a getter and the use of what it stored.\<close>

definition read_value :: "('v \<Rightarrow> int) \<Rightarrow> ('v, 'd) getter \<Rightarrow> u8 \<Rightarrow> 'd \<Rightarrow> (int \<times> int \<times> 'd) option" where
  "read_value as_int get_func req_code d = do {
     (ret, out, d) \<leftarrow> get_func req_code d;
     if ret = UVC_SUCCESS then (case out of None \<Rightarrow> None | Some v \<Rightarrow> Some (UVC_SUCCESS, as_int v, d)) else Some (ret, 0, d) }"

definition update_ctrl_values :: "('v \<Rightarrow> int) \<Rightarrow> ('v, 'd) getter \<Rightarrow> 'd updater" where
  "update_ctrl_values as_int get_func vs d =
     (if cv_min vs = 0 \<and> cv_max vs = 0
      then do {
        (ret, v, d) \<leftarrow> read_value as_int get_func UVC_GET_MIN d;
        if ret \<noteq> 0 then Some (ret, vs, d) else do {
          let vs = vs\<lparr>cv_min := v\<rparr>;
          (ret, v, d) \<leftarrow> read_value as_int get_func UVC_GET_MAX d;
          if ret \<noteq> 0 then Some (ret, vs, d) else do {
            let vs = vs\<lparr>cv_max := v\<rparr>;
            (ret, v, d) \<leftarrow> read_value as_int get_func UVC_GET_DEF d;
            if ret \<noteq> 0 then Some (ret, vs, d) else Some (UVC_SUCCESS, vs\<lparr>cv_def := v\<rparr>, d) } } }
      else Some (UVC_SUCCESS, vs, d))"

text \<open>The overloads.\<close>

definition update_i16 :: "(u16, 'd) getter \<Rightarrow> 'd updater" where
  "update_i16 = update_ctrl_values sint"

definition update_u16 :: "(u16, 'd) getter \<Rightarrow> 'd updater" where
  "update_u16 = update_ctrl_values uint"

definition update_i8 :: "(u8, 'd) getter \<Rightarrow> 'd updater" where
  "update_i8 = update_ctrl_values sint"

definition update_u8 :: "(u8, 'd) getter \<Rightarrow> 'd updater" where
  "update_u8 = update_ctrl_values uint"

definition join_u8u8 :: "u8 \<times> u8 \<Rightarrow> int" where
  "join_u8u8 v = (case v of (v1, v2) \<Rightarrow> uint v1 * 2 ^ 8 + uint v2)"

definition update_u8u8 :: "(u8 \<times> u8, 'd) getter \<Rightarrow> 'd updater" where
  "update_u8u8 = update_ctrl_values join_u8u8"

definition join_i8u8 :: "u8 \<times> u8 \<Rightarrow> int" where
  "join_i8u8 v = (case v of (v1, v2) \<Rightarrow> sint v1 * 2 ^ 8 + uint v2)"

definition update_i8u8 :: "(u8 \<times> u8, 'd) getter \<Rightarrow> 'd updater" where
  "update_i8u8 = update_ctrl_values join_i8u8"

definition join_i8u8u8 :: "u8 \<times> u8 \<times> u8 \<Rightarrow> int" where
  "join_i8u8u8 v = (case v of (v1, v2, v3) \<Rightarrow> sint v1 * 2 ^ 16 + uint v2 * 2 ^ 8 + uint v3)"

definition update_i8u8u8 :: "(u8 \<times> u8 \<times> u8, 'd) getter \<Rightarrow> 'd updater" where
  "update_i8u8u8 = update_ctrl_values join_i8u8u8"

definition update_i32 :: "(u32, 'd) getter \<Rightarrow> 'd updater" where
  "update_i32 = update_ctrl_values sint"

text \<open>\<open>values.min = value\<close> narrows an unsigned value to \<open>int\<close>.\<close>

definition update_u32 :: "(u32, 'd) getter \<Rightarrow> 'd updater" where
  "update_u32 = update_ctrl_values sint"

definition read_values :: "(u32 \<times> u32, 'd) getter \<Rightarrow> u8 \<Rightarrow> 'd \<Rightarrow> (int \<times> (int \<times> int) \<times> 'd) option" where
  "read_values get_func req_code d = do {
     (ret, out, d) \<leftarrow> get_func req_code d;
     if ret = UVC_SUCCESS then (case out of None \<Rightarrow> None | Some (v1, v2) \<Rightarrow> Some (UVC_SUCCESS, (sint v1, sint v2), d)) else Some (ret, (0, 0), d) }"

definition update_i32i32 ::
  "(u32 \<times> u32, 'd) getter \<Rightarrow> control_value \<Rightarrow> control_value \<Rightarrow> 'd \<Rightarrow> (int \<times> control_value \<times> control_value \<times> 'd) option" where
  "update_i32i32 get_func vs1 vs2 d =
     (if cv_min vs1 = 0 \<and> cv_max vs1 = 0 \<or> cv_min vs2 = 0 \<and> cv_max vs2 = 0
      then do {
        (ret, (v1, v2), d) \<leftarrow> read_values get_func UVC_GET_MIN d;
        if ret \<noteq> 0 then Some (ret, vs1, vs2, d) else do {
          let (vs1, vs2) = (vs1\<lparr>cv_min := v1\<rparr>, vs2\<lparr>cv_min := v2\<rparr>);
          (ret, (v1, v2), d) \<leftarrow> read_values get_func UVC_GET_MAX d;
          if ret \<noteq> 0 then Some (ret, vs1, vs2, d) else do {
            let (vs1, vs2) = (vs1\<lparr>cv_max := v1\<rparr>, vs2\<lparr>cv_max := v2\<rparr>);
            (ret, (v1, v2), d) \<leftarrow> read_values get_func UVC_GET_DEF d;
            if ret \<noteq> 0 then Some (ret, vs1, vs2, d)
            else Some (UVC_SUCCESS, vs1\<lparr>cv_def := v1\<rparr>, vs2\<lparr>cv_def := v2\<rparr>, d) } } }
      else Some (UVC_SUCCESS, vs1, vs2, d))"

section \<open>Setting within the limits\<close>

definition clamp :: "int \<Rightarrow> int \<Rightarrow> int \<Rightarrow> int" where
  "clamp lo hi v = (if v < lo then lo else if v > hi then hi else v)"

text \<open>The result of \<open>set_func\<close> is not looked at.\<close>

definition set_clamped :: "'d updater \<Rightarrow> (control_value \<Rightarrow> 'v) \<Rightarrow> ('v, 'd) setter \<Rightarrow> 'd updater" where
  "set_clamped update clamped set_func vs d = do {
     (ret, vs, d) \<leftarrow> update vs d;
     if ret = UVC_SUCCESS then do { (_, d) \<leftarrow> set_func (clamped vs) d; Some (ret, vs, d) } else Some (ret, vs, d) }"

definition internalSetCtrlValue_i8 :: "u8 \<Rightarrow> (u8, 'd) getter \<Rightarrow> (u8, 'd) setter \<Rightarrow> 'd updater" where
  "internalSetCtrlValue_i8 v get_func = set_clamped (update_i8 get_func) (\<lambda>vs. word_of_int (clamp (cv_min vs) (cv_max vs) (sint v)))"

definition internalSetCtrlValue_u8 :: "u8 \<Rightarrow> (u8, 'd) getter \<Rightarrow> (u8, 'd) setter \<Rightarrow> 'd updater" where
  "internalSetCtrlValue_u8 v get_func = set_clamped (update_u8 get_func) (\<lambda>vs. word_of_int (clamp (cv_min vs) (cv_max vs) (uint v)))"

text \<open>Byte \<open>n\<close> of a limit, signed or not.\<close>

definition limit_u8 :: "nat \<Rightarrow> int \<Rightarrow> int" where
  "limit_u8 n x = uint (word_of_int (x div 2 ^ (8 * n)) :: u8)"

definition limit_i8 :: "nat \<Rightarrow> int \<Rightarrow> int" where
  "limit_i8 n x = sint (word_of_int (x div 2 ^ (8 * n)) :: u8)"

definition clamp_u8 :: "nat \<Rightarrow> control_value \<Rightarrow> u8 \<Rightarrow> u8" where
  "clamp_u8 n vs v = word_of_int (clamp (limit_u8 n (cv_min vs)) (limit_u8 n (cv_max vs)) (uint v))"

definition clamp_i8 :: "nat \<Rightarrow> control_value \<Rightarrow> u8 \<Rightarrow> u8" where
  "clamp_i8 n vs v = word_of_int (clamp (limit_i8 n (cv_min vs)) (limit_i8 n (cv_max vs)) (sint v))"

definition internalSetCtrlValue_u8u8 :: "u8 \<Rightarrow> u8 \<Rightarrow> (u8 \<times> u8, 'd) getter \<Rightarrow> (u8 \<times> u8, 'd) setter \<Rightarrow> 'd updater" where
  "internalSetCtrlValue_u8u8 v1 v2 get_func = set_clamped (update_u8u8 get_func) (\<lambda>vs. (clamp_u8 1 vs v1, clamp_u8 0 vs v2))"

definition internalSetCtrlValue_i8u8 :: "u8 \<Rightarrow> u8 \<Rightarrow> (u8 \<times> u8, 'd) getter \<Rightarrow> (u8 \<times> u8, 'd) setter \<Rightarrow> 'd updater" where
  "internalSetCtrlValue_i8u8 v1 v2 get_func = set_clamped (update_i8u8 get_func) (\<lambda>vs. (clamp_i8 1 vs v1, clamp_u8 0 vs v2))"

definition internalSetCtrlValue_i8u8u8 ::
  "u8 \<Rightarrow> u8 \<Rightarrow> u8 \<Rightarrow> (u8 \<times> u8 \<times> u8, 'd) getter \<Rightarrow> (u8 \<times> u8 \<times> u8, 'd) setter \<Rightarrow> 'd updater" where
  "internalSetCtrlValue_i8u8u8 v1 v2 v3 get_func =
     set_clamped (update_i8u8u8 get_func) (\<lambda>vs. (clamp_i8 2 vs v1, clamp_u8 1 vs v2, clamp_u8 0 vs v3))"

definition internalSetCtrlValue_i16 :: "u16 \<Rightarrow> (u16, 'd) getter \<Rightarrow> (u16, 'd) setter \<Rightarrow> 'd updater" where
  "internalSetCtrlValue_i16 v get_func = set_clamped (update_i16 get_func) (\<lambda>vs. word_of_int (clamp (cv_min vs) (cv_max vs) (sint v)))"

definition internalSetCtrlValue_u16 :: "u16 \<Rightarrow> (u16, 'd) getter \<Rightarrow> (u16, 'd) setter \<Rightarrow> 'd updater" where
  "internalSetCtrlValue_u16 v get_func = set_clamped (update_u16 get_func) (\<lambda>vs. word_of_int (clamp (cv_min vs) (cv_max vs) (uint v)))"

definition internalSetCtrlValue_i32 :: "u32 \<Rightarrow> (u32, 'd) getter \<Rightarrow> (u32, 'd) setter \<Rightarrow> 'd updater" where
  "internalSetCtrlValue_i32 v get_func = set_clamped (update_i32 get_func) (\<lambda>vs. word_of_int (clamp (cv_min vs) (cv_max vs) (sint v)))"

text \<open>A comparison of \<open>uint32_t\<close> with \<open>int\<close> is unsigned.\<close>

definition internalSetCtrlValue_u32 :: "u32 \<Rightarrow> (u32, 'd) getter \<Rightarrow> (u32, 'd) setter \<Rightarrow> 'd updater" where
  "internalSetCtrlValue_u32 v get_func = set_clamped (update_u32 get_func)
     (\<lambda>vs. let lo = word_of_int (cv_min vs); hi = word_of_int (cv_max vs) in if v < lo then lo else if v > hi then hi else v)"

lemmas overload_defs = update_i16_def update_u16_def update_i8_def update_u8_def update_u8u8_def update_i8u8_def update_i8u8u8_def
  update_i32_def update_u32_def

lemmas internal_defs = internalSetCtrlValue_i8_def internalSetCtrlValue_u8_def internalSetCtrlValue_u8u8_def
  internalSetCtrlValue_i8u8_def internalSetCtrlValue_i8u8u8_def internalSetCtrlValue_i16_def internalSetCtrlValue_u16_def
  internalSetCtrlValue_i32_def internalSetCtrlValue_u32_def

end
