(* ===== verification/Camera_Controls.thy ===== *)
theory Camera_Controls
  imports Camera_Values
begin

text \<open>
  The controls of the application's camera object (\<open>UVCCamera.cpp\<close>): what the device supports, and for each control the query of its
  limits, the setter and the getter. A method that gets its limits first (\<open>with_limits\<close>) keeps them in the object.
\<close>

section \<open>The camera object\<close>

text \<open>The \<open>control_value_t\<close> members.\<close>

datatype control_field =
    mScanningMode | mExposureMode | mExposurePriority | mExposureAbs | mAutoFocus | mAutoWhiteBlance
  | mAutoWhiteBlanceCompo | mWhiteBlance | mWhiteBlanceCompo | mBacklightComp | mBrightness | mContrast
  | mAutoContrast | mSharpness | mGain | mGamma | mSaturation | mHue
  | mAutoHue | mZoom | mZoomRel | mFocus | mFocusRel | mFocusSimple
  | mIris | mIrisRel | mPan | mTilt | mRoll | mPanRel
  | mTiltRel | mRollRel | mPrivacy | mPowerlineFrequency | mMultiplier | mMultiplierLimit
  | mAnalogVideoStandard | mAnalogVideoLockState

record camera =
  mDeviceHandle :: bool
  mCtrlSupports :: u64
  mPUSupports :: u64
  limits :: "control_field \<Rightarrow> control_value"

text \<open>The bits of \<open>bmControls\<close>.\<close>

abbreviation (input) CTRL_SCANNING :: u64 where "CTRL_SCANNING \<equiv> 0x1"

abbreviation (input) CTRL_AE :: u64 where "CTRL_AE \<equiv> 0x2"

abbreviation (input) CTRL_AE_PRIORITY :: u64 where "CTRL_AE_PRIORITY \<equiv> 0x4"

abbreviation (input) CTRL_AE_ABS :: u64 where "CTRL_AE_ABS \<equiv> 0x8"

abbreviation (input) CTRL_AE_REL :: u64 where "CTRL_AE_REL \<equiv> 0x10"

abbreviation (input) CTRL_FOCUS_ABS :: u64 where "CTRL_FOCUS_ABS \<equiv> 0x20"

abbreviation (input) CTRL_FOCUS_REL :: u64 where "CTRL_FOCUS_REL \<equiv> 0x40"

abbreviation (input) CTRL_IRIS_ABS :: u64 where "CTRL_IRIS_ABS \<equiv> 0x80"

abbreviation (input) CTRL_IRIS_REL :: u64 where "CTRL_IRIS_REL \<equiv> 0x100"

abbreviation (input) CTRL_ZOOM_ABS :: u64 where "CTRL_ZOOM_ABS \<equiv> 0x200"

abbreviation (input) CTRL_ZOOM_REL :: u64 where "CTRL_ZOOM_REL \<equiv> 0x400"

abbreviation (input) CTRL_PANTILT_ABS :: u64 where "CTRL_PANTILT_ABS \<equiv> 0x800"

abbreviation (input) CTRL_PANTILT_REL :: u64 where "CTRL_PANTILT_REL \<equiv> 0x1000"

abbreviation (input) CTRL_ROLL_ABS :: u64 where "CTRL_ROLL_ABS \<equiv> 0x2000"

abbreviation (input) CTRL_ROLL_REL :: u64 where "CTRL_ROLL_REL \<equiv> 0x4000"

abbreviation (input) CTRL_FOCUS_AUTO :: u64 where "CTRL_FOCUS_AUTO \<equiv> 0x20000"

abbreviation (input) CTRL_PRIVACY :: u64 where "CTRL_PRIVACY \<equiv> 0x40000"

abbreviation (input) CTRL_FOCUS_SIMPLE :: u64 where "CTRL_FOCUS_SIMPLE \<equiv> 0x80000"

abbreviation (input) CTRL_WINDOW :: u64 where "CTRL_WINDOW \<equiv> 0x100000"

abbreviation (input) PU_BRIGHTNESS :: u64 where "PU_BRIGHTNESS \<equiv> 0x1"

abbreviation (input) PU_CONTRAST :: u64 where "PU_CONTRAST \<equiv> 0x2"

abbreviation (input) PU_HUE :: u64 where "PU_HUE \<equiv> 0x4"

abbreviation (input) PU_SATURATION :: u64 where "PU_SATURATION \<equiv> 0x8"

abbreviation (input) PU_SHARPNESS :: u64 where "PU_SHARPNESS \<equiv> 0x10"

abbreviation (input) PU_GAMMA :: u64 where "PU_GAMMA \<equiv> 0x20"

abbreviation (input) PU_WB_TEMP :: u64 where "PU_WB_TEMP \<equiv> 0x40"

abbreviation (input) PU_WB_COMPO :: u64 where "PU_WB_COMPO \<equiv> 0x80"

abbreviation (input) PU_BACKLIGHT :: u64 where "PU_BACKLIGHT \<equiv> 0x100"

abbreviation (input) PU_GAIN :: u64 where "PU_GAIN \<equiv> 0x200"

abbreviation (input) PU_POWER_LF :: u64 where "PU_POWER_LF \<equiv> 0x400"

abbreviation (input) PU_HUE_AUTO :: u64 where "PU_HUE_AUTO \<equiv> 0x800"

abbreviation (input) PU_WB_TEMP_AUTO :: u64 where "PU_WB_TEMP_AUTO \<equiv> 0x1000"

abbreviation (input) PU_WB_COMPO_AUTO :: u64 where "PU_WB_COMPO_AUTO \<equiv> 0x2000"

abbreviation (input) PU_DIGITAL_MULT :: u64 where "PU_DIGITAL_MULT \<equiv> 0x4000"

abbreviation (input) PU_DIGITAL_LIMIT :: u64 where "PU_DIGITAL_LIMIT \<equiv> 0x8000"

abbreviation (input) PU_AVIDEO_STD :: u64 where "PU_AVIDEO_STD \<equiv> 0x10000"

abbreviation (input) PU_AVIDEO_LOCK :: u64 where "PU_AVIDEO_LOCK \<equiv> 0x20000"

abbreviation (input) PU_CONTRAST_AUTO :: u64 where "PU_CONTRAST_AUTO \<equiv> 0x40000"

text \<open>A call with the device handle; every callee reads through it first.\<close>

definition on_handle :: "camera \<Rightarrow> ('x \<Rightarrow> 'd \<Rightarrow> 'r option) \<Rightarrow> 'x \<Rightarrow> 'd \<Rightarrow> 'r option" where
  "on_handle c f x d = (if mDeviceHandle c then f x d else None)"

definition clearCameraParams :: "camera \<Rightarrow> camera" where
  "clearCameraParams c = c\<lparr>mCtrlSupports := 0, mPUSupports := 0,
     limits := (\<lambda>f. (limits c f)\<lparr>cv_min := 0, cv_max := 0, cv_def := 0,
       cv_current := (if f \<in> {mPan, mTilt, mPanRel, mTiltRel} then -1 else cv_current (limits c f))\<rparr>)\<rparr>"

definition getCtrlSupports :: "uvc_control_interface \<Rightarrow> camera \<Rightarrow> int \<times> u64 \<times> camera" where
  "getCtrlSupports ci c =
     (let (ret, c) = (if mDeviceHandle c
        then (if mCtrlSupports c = 0
          then (case input_term_descs ci of it # _ \<Rightarrow> (UVC_SUCCESS, c\<lparr>mCtrlSupports := it_bmControls it\<rparr>) | [] \<Rightarrow> (UVC_ERROR_NOT_FOUND, c))
          else (UVC_SUCCESS, c))
        else (UVC_ERROR_NOT_FOUND, c))
      in (ret, mCtrlSupports c, c))"

definition getProcSupports :: "uvc_control_interface \<Rightarrow> camera \<Rightarrow> int \<times> u64 \<times> camera" where
  "getProcSupports ci c =
     (let (ret, c) = (if mDeviceHandle c
        then (if mPUSupports c = 0
          then (case processing_unit_descs ci of pu # _ \<Rightarrow> (UVC_SUCCESS, c\<lparr>mPUSupports := pu_bmControls pu\<rparr>) | [] \<Rightarrow> (UVC_ERROR_NOT_FOUND, c))
          else (UVC_SUCCESS, c))
        else (UVC_ERROR_NOT_FOUND, c))
      in (ret, mPUSupports c, c))"

section \<open>The shapes of the methods\<close>

definition with_limits :: "control_field \<Rightarrow> 'd updater \<Rightarrow> camera \<Rightarrow> 'd \<Rightarrow> (int \<times> camera \<times> 'd) option" where
  "with_limits f upd c d = do { (ret, vs, d) \<leftarrow> upd (limits c f) d; Some (ret, c\<lparr>limits := (limits c)(f := vs)\<rparr>, d) }"

definition UPDATE_CTRL_VALUES ::
  "control_field \<Rightarrow> 'd updater \<Rightarrow> camera \<Rightarrow> 'd \<Rightarrow> (int \<times> (int \<times> int \<times> int) option \<times> camera \<times> 'd) option" where
  "UPDATE_CTRL_VALUES f upd c d = do {
     (ret, c, d) \<leftarrow> with_limits f upd c d;
     let vs = limits c f in Some (ret, if ret = 0 then Some (cv_min vs, cv_max vs, cv_def vs) else None, c, d) }"

definition get_current ::
  "control_field \<Rightarrow> 'd updater \<Rightarrow> ('v \<Rightarrow> int) \<Rightarrow> ('v, 'd) getter \<Rightarrow> camera \<Rightarrow> 'd \<Rightarrow> (int \<times> camera \<times> 'd) option" where
  "get_current f upd as_int get_func c d = do {
     (ret, c, d) \<leftarrow> with_limits f upd c d;
     if ret = 0 then do {
       (ret, value, d) \<leftarrow> read_value as_int get_func UVC_GET_CUR d;
       Some (if ret = 0 then value else 0, c, d) }
     else Some (0, c, d) }"

definition read_direct :: "('v \<Rightarrow> int) \<Rightarrow> ('v, 'd) getter \<Rightarrow> camera \<Rightarrow> 'd \<Rightarrow> (int \<times> camera \<times> 'd) option" where
  "read_direct as_int get_func c d = do {
     (r, value, d) \<leftarrow> read_value as_int get_func UVC_GET_CUR d;
     Some (if r = 0 then value else r, c, d) }"

definition write_direct :: "('v, 'd) setter \<Rightarrow> 'v \<Rightarrow> camera \<Rightarrow> 'd \<Rightarrow> (int \<times> camera \<times> 'd) option" where
  "write_direct set_func v c d = do { (r, d) \<leftarrow> set_func v d; Some (r, c, d) }"

section \<open>Pan, tilt and roll\<close>

text \<open>Limits and current values of both axes come and go together.\<close>

definition pantilt_limits :: "'d usb \<Rightarrow> uvc_control_interface \<Rightarrow> camera \<Rightarrow> 'd \<Rightarrow> (int \<times> camera \<times> 'd) option" where
  "pantilt_limits usb ci c d = do {
     (ret, pan, tilt, d) \<leftarrow> update_i32i32 (on_handle c (uvc_get_pantilt_abs usb ci)) (limits c mPan) (limits c mTilt) d;
     Some (ret, c\<lparr>limits := (limits c)(mPan := pan, mTilt := tilt)\<rparr>, d) }"

definition keep_pantilt :: "int \<Rightarrow> int \<Rightarrow> camera \<Rightarrow> camera" where
  "keep_pantilt pan tilt c = c\<lparr>limits := (limits c)(mPan := (limits c mPan)\<lparr>cv_current := pan\<rparr>,
     mTilt := (limits c mTilt)\<lparr>cv_current := tilt\<rparr>)\<rparr>"

definition send_pantilt ::
  "'d usb \<Rightarrow> uvc_control_interface \<Rightarrow> int \<Rightarrow> int \<Rightarrow> camera \<Rightarrow> 'd \<Rightarrow> (int \<times> camera \<times> 'd) option" where
  "send_pantilt usb ci pan tilt c d = do {
     (ret, d) \<leftarrow> on_handle c (\<lambda>(pan, tilt). uvc_set_pantilt_abs usb ci pan tilt) (word_of_int pan, word_of_int tilt) d;
     Some (ret, if ret = 0 then keep_pantilt pan tilt c else c, d) }"

text \<open>The axis not set goes out as last known, or as its default.\<close>

definition last_known :: "control_value \<Rightarrow> int" where
  "last_known vs = (if cv_current vs < 0 then cv_def vs else cv_current vs)"

definition updatePanLimit :: "'d usb \<Rightarrow> uvc_control_interface \<Rightarrow> camera \<Rightarrow> 'd \<Rightarrow> (int \<times> (int \<times> int \<times> int) option \<times> camera \<times> 'd) option" where
  "updatePanLimit usb ci c d =
     (if mCtrlSupports c AND CTRL_PANTILT_ABS \<noteq> 0
      then do { (_, c, d) \<leftarrow> pantilt_limits usb ci c d; Some (UVC_ERROR_ACCESS, None, c, d) }
      else Some (UVC_ERROR_ACCESS, None, c, d))"

definition setPan :: "'d usb \<Rightarrow> uvc_control_interface \<Rightarrow> int \<Rightarrow> camera \<Rightarrow> 'd \<Rightarrow> (int \<times> camera \<times> 'd) option" where
  "setPan usb ci pan c d =
     (if mCtrlSupports c AND CTRL_PANTILT_ABS \<noteq> 0
      then do {
        (ret, c, d) \<leftarrow> pantilt_limits usb ci c d;
        if ret = 0
        then send_pantilt usb ci (clamp (cv_min (limits c mPan)) (cv_max (limits c mPan)) pan) (last_known (limits c mTilt)) c d
        else Some (ret, c, d) }
      else Some (UVC_ERROR_ACCESS, c, d))"

definition getPan :: "'d usb \<Rightarrow> uvc_control_interface \<Rightarrow> camera \<Rightarrow> 'd \<Rightarrow> (int \<times> camera \<times> 'd) option" where
  "getPan usb ci c d =
     (if mCtrlSupports c AND CTRL_PANTILT_ABS \<noteq> 0
      then do {
        (ret, c, d) \<leftarrow> pantilt_limits usb ci c d;
        if ret = 0 then do {
          (ret, (pan, tilt), d) \<leftarrow> read_values (on_handle c (uvc_get_pantilt_abs usb ci)) UVC_GET_CUR d;
          if ret = 0 then Some (pan, keep_pantilt pan tilt c, d) else Some (0, c, d) }
        else Some (0, c, d) }
      else Some (0, c, d))"

definition updateTiltLimit :: "'d usb \<Rightarrow> uvc_control_interface \<Rightarrow> camera \<Rightarrow> 'd \<Rightarrow> (int \<times> (int \<times> int \<times> int) option \<times> camera \<times> 'd) option" where
  "updateTiltLimit usb ci c d =
     (if mCtrlSupports c AND CTRL_PANTILT_ABS \<noteq> 0
      then do { (_, c, d) \<leftarrow> pantilt_limits usb ci c d; Some (UVC_ERROR_ACCESS, None, c, d) }
      else Some (UVC_ERROR_ACCESS, None, c, d))"

definition setTilt :: "'d usb \<Rightarrow> uvc_control_interface \<Rightarrow> int \<Rightarrow> camera \<Rightarrow> 'd \<Rightarrow> (int \<times> camera \<times> 'd) option" where
  "setTilt usb ci tilt c d =
     (if mCtrlSupports c AND CTRL_PANTILT_ABS \<noteq> 0
      then do {
        (ret, c, d) \<leftarrow> pantilt_limits usb ci c d;
        if ret = 0
        then send_pantilt usb ci (last_known (limits c mPan)) (clamp (cv_min (limits c mTilt)) (cv_max (limits c mTilt)) tilt) c d
        else Some (ret, c, d) }
      else Some (UVC_ERROR_ACCESS, c, d))"

definition getTilt :: "'d usb \<Rightarrow> uvc_control_interface \<Rightarrow> camera \<Rightarrow> 'd \<Rightarrow> (int \<times> camera \<times> 'd) option" where
  "getTilt usb ci c d =
     (if mCtrlSupports c AND CTRL_PANTILT_ABS \<noteq> 0
      then do {
        (ret, c, d) \<leftarrow> pantilt_limits usb ci c d;
        if ret = 0 then do {
          (ret, (pan, tilt), d) \<leftarrow> read_values (on_handle c (uvc_get_pantilt_abs usb ci)) UVC_GET_CUR d;
          if ret = 0 then Some (tilt, keep_pantilt pan tilt c, d) else Some (0, c, d) }
        else Some (0, c, d) }
      else Some (0, c, d))"

definition getRoll :: "'d usb \<Rightarrow> uvc_control_interface \<Rightarrow> camera \<Rightarrow> 'd \<Rightarrow> (int \<times> camera \<times> 'd) option" where
  "getRoll usb ci c d =
     (if mCtrlSupports c AND CTRL_ROLL_ABS \<noteq> 0
      then do {
        (ret, c, d) \<leftarrow> with_limits mRoll (update_i16 (on_handle c (uvc_get_roll_abs usb ci))) c d;
        if ret = 0 then do {
          (ret, roll, d) \<leftarrow> read_value sint (on_handle c (uvc_get_roll_abs usb ci)) UVC_GET_CUR d;
          if ret = 0 then Some (roll, c\<lparr>limits := (limits c)(mRoll := (limits c mRoll)\<lparr>cv_current := roll\<rparr>)\<rparr>, d)
          else Some (0, c, d) }
        else Some (0, c, d) }
      else Some (0, c, d))"

section \<open>Power line frequency\<close>

text \<open>Asked for a negative frequency it queries the default, and goes on when that failed.\<close>

definition setPowerlineFrequency :: "'d usb \<Rightarrow> uvc_control_interface \<Rightarrow> int \<Rightarrow> camera \<Rightarrow> 'd \<Rightarrow> (int \<times> camera \<times> 'd) option" where
  "setPowerlineFrequency usb ci frequency c d =
     (if mPUSupports c AND PU_POWER_LF \<noteq> 0
      then if frequency < 0
        then do {
          (ret, out, d) \<leftarrow> on_handle c (uvc_get_powerline_freqency usb ci) UVC_GET_DEF d;
          if ret \<noteq> 0
          then (case out of None \<Rightarrow> None | Some value \<Rightarrow> write_direct (on_handle c (uvc_set_powerline_freqency usb ci)) value c d)
          else Some (ret, c, d) }
        else write_direct (on_handle c (uvc_set_powerline_freqency usb ci)) (word_of_int frequency) c d
      else Some (UVC_ERROR_IO, c, d))"

definition getPowerlineFrequency :: "'d usb \<Rightarrow> uvc_control_interface \<Rightarrow> camera \<Rightarrow> 'd \<Rightarrow> (int \<times> camera \<times> 'd) option" where
  "getPowerlineFrequency usb ci c d =
     (if mPUSupports c AND PU_POWER_LF \<noteq> 0
      then do {
        (ret, value, d) \<leftarrow> read_value uint (on_handle c (uvc_get_powerline_freqency usb ci)) UVC_GET_CUR d;
        Some (if ret = 0 then value else 0, c, d) }
      else Some (0, c, d))"

section \<open>The other camera terminal controls\<close>

definition updateScanningModeLimit ::
  "'d usb \<Rightarrow> uvc_control_interface \<Rightarrow> camera \<Rightarrow> 'd \<Rightarrow> (int \<times> (int \<times> int \<times> int) option \<times> camera \<times> 'd) option" where
  [camera_defs]: "updateScanningModeLimit usb ci c d =
     (if mPUSupports c AND CTRL_SCANNING \<noteq> 0 then UPDATE_CTRL_VALUES mScanningMode (update_u8 (on_handle c (uvc_get_scanning_mode usb ci))) c d
      else Some (UVC_ERROR_IO, None, c, d))"

definition setScanningMode ::
  "'d usb \<Rightarrow> uvc_control_interface \<Rightarrow> int \<Rightarrow> camera \<Rightarrow> 'd \<Rightarrow> (int \<times> camera \<times> 'd) option" where
  [camera_defs]: "setScanningMode usb ci mode c d =
     (if mDeviceHandle c \<and> mCtrlSupports c AND CTRL_SCANNING \<noteq> 0 then write_direct (on_handle c (uvc_set_scanning_mode usb ci)) (word_of_int mode) c d
      else Some (UVC_ERROR_ACCESS, c, d))"

definition getScanningMode ::
  "'d usb \<Rightarrow> uvc_control_interface \<Rightarrow> camera \<Rightarrow> 'd \<Rightarrow> (int \<times> camera \<times> 'd) option" where
  [camera_defs]: "getScanningMode usb ci c d =
     (if mDeviceHandle c \<and> mCtrlSupports c AND CTRL_SCANNING \<noteq> 0 then read_direct uint (on_handle c (uvc_get_scanning_mode usb ci)) c d
      else Some (UVC_ERROR_ACCESS, c, d))"

definition updateExposureModeLimit ::
  "'d usb \<Rightarrow> uvc_control_interface \<Rightarrow> camera \<Rightarrow> 'd \<Rightarrow> (int \<times> (int \<times> int \<times> int) option \<times> camera \<times> 'd) option" where
  [camera_defs]: "updateExposureModeLimit usb ci c d =
     (if mPUSupports c AND CTRL_AE \<noteq> 0 then UPDATE_CTRL_VALUES mExposureMode (update_u8 (on_handle c (uvc_get_ae_mode usb ci))) c d
      else Some (UVC_ERROR_IO, None, c, d))"

definition setExposureMode ::
  "'d usb \<Rightarrow> uvc_control_interface \<Rightarrow> int \<Rightarrow> camera \<Rightarrow> 'd \<Rightarrow> (int \<times> camera \<times> 'd) option" where
  [camera_defs]: "setExposureMode usb ci mode c d =
     (if mDeviceHandle c \<and> mCtrlSupports c AND CTRL_AE \<noteq> 0 then write_direct (on_handle c (uvc_set_ae_mode usb ci)) (word_of_int mode) c d
      else Some (UVC_ERROR_ACCESS, c, d))"

definition getExposureMode ::
  "'d usb \<Rightarrow> uvc_control_interface \<Rightarrow> camera \<Rightarrow> 'd \<Rightarrow> (int \<times> camera \<times> 'd) option" where
  [camera_defs]: "getExposureMode usb ci c d =
     (if mDeviceHandle c \<and> mCtrlSupports c AND CTRL_AE \<noteq> 0 then read_direct uint (on_handle c (uvc_get_ae_mode usb ci)) c d
      else Some (UVC_ERROR_ACCESS, c, d))"

definition updateExposurePriorityLimit ::
  "'d usb \<Rightarrow> uvc_control_interface \<Rightarrow> camera \<Rightarrow> 'd \<Rightarrow> (int \<times> (int \<times> int \<times> int) option \<times> camera \<times> 'd) option" where
  [camera_defs]: "updateExposurePriorityLimit usb ci c d =
     (if mPUSupports c AND CTRL_AE_PRIORITY \<noteq> 0 then UPDATE_CTRL_VALUES mExposurePriority (update_u8 (on_handle c (uvc_get_ae_priority usb ci))) c d
      else Some (UVC_ERROR_IO, None, c, d))"

definition setExposurePriority ::
  "'d usb \<Rightarrow> uvc_control_interface \<Rightarrow> int \<Rightarrow> camera \<Rightarrow> 'd \<Rightarrow> (int \<times> camera \<times> 'd) option" where
  [camera_defs]: "setExposurePriority usb ci priority c d =
     (if mDeviceHandle c \<and> mCtrlSupports c AND CTRL_AE_PRIORITY \<noteq> 0 then write_direct (on_handle c (uvc_set_ae_priority usb ci)) (word_of_int priority) c d
      else Some (UVC_ERROR_ACCESS, c, d))"

definition getExposurePriority ::
  "'d usb \<Rightarrow> uvc_control_interface \<Rightarrow> camera \<Rightarrow> 'd \<Rightarrow> (int \<times> camera \<times> 'd) option" where
  [camera_defs]: "getExposurePriority usb ci c d =
     (if mDeviceHandle c \<and> mCtrlSupports c AND CTRL_AE_PRIORITY \<noteq> 0 then read_direct uint (on_handle c (uvc_get_ae_priority usb ci)) c d
      else Some (UVC_ERROR_ACCESS, c, d))"

definition updateExposureLimit ::
  "'d usb \<Rightarrow> uvc_control_interface \<Rightarrow> camera \<Rightarrow> 'd \<Rightarrow> (int \<times> (int \<times> int \<times> int) option \<times> camera \<times> 'd) option" where
  [camera_defs]: "updateExposureLimit usb ci c d =
     (if mPUSupports c AND CTRL_AE_ABS \<noteq> 0 then UPDATE_CTRL_VALUES mExposureAbs (update_i32 (on_handle c (uvc_get_exposure_abs usb ci))) c d
      else Some (UVC_ERROR_IO, None, c, d))"

definition setExposure ::
  "'d usb \<Rightarrow> uvc_control_interface \<Rightarrow> int \<Rightarrow> camera \<Rightarrow> 'd \<Rightarrow> (int \<times> camera \<times> 'd) option" where
  [camera_defs]: "setExposure usb ci ae_abs c d =
     (if mDeviceHandle c \<and> mCtrlSupports c AND CTRL_AE_ABS \<noteq> 0 then write_direct (on_handle c (uvc_set_exposure_abs usb ci)) (word_of_int ae_abs) c d
      else Some (UVC_ERROR_ACCESS, c, d))"

definition getExposure ::
  "'d usb \<Rightarrow> uvc_control_interface \<Rightarrow> camera \<Rightarrow> 'd \<Rightarrow> (int \<times> camera \<times> 'd) option" where
  [camera_defs]: "getExposure usb ci c d =
     (if mDeviceHandle c \<and> mCtrlSupports c AND CTRL_AE_ABS \<noteq> 0 then read_direct sint (on_handle c (uvc_get_exposure_abs usb ci)) c d
      else Some (UVC_ERROR_ACCESS, c, d))"

definition updateExposureRelLimit ::
  "'d usb \<Rightarrow> uvc_control_interface \<Rightarrow> camera \<Rightarrow> 'd \<Rightarrow> (int \<times> (int \<times> int \<times> int) option \<times> camera \<times> 'd) option" where
  [camera_defs]: "updateExposureRelLimit usb ci c d =
     (if mPUSupports c AND CTRL_AE_REL \<noteq> 0 then UPDATE_CTRL_VALUES mExposureAbs (update_i32 (on_handle c (uvc_get_exposure_rel usb ci))) c d
      else Some (UVC_ERROR_IO, None, c, d))"

definition setExposureRel ::
  "'d usb \<Rightarrow> uvc_control_interface \<Rightarrow> int \<Rightarrow> camera \<Rightarrow> 'd \<Rightarrow> (int \<times> camera \<times> 'd) option" where
  [camera_defs]: "setExposureRel usb ci ae_rel c d =
     (if mDeviceHandle c \<and> mCtrlSupports c AND CTRL_AE_REL \<noteq> 0 then write_direct (on_handle c (uvc_set_exposure_rel usb ci)) (word_of_int ae_rel) c d
      else Some (UVC_ERROR_ACCESS, c, d))"

definition getExposureRel ::
  "'d usb \<Rightarrow> uvc_control_interface \<Rightarrow> camera \<Rightarrow> 'd \<Rightarrow> (int \<times> camera \<times> 'd) option" where
  [camera_defs]: "getExposureRel usb ci c d =
     (if mDeviceHandle c \<and> mCtrlSupports c AND CTRL_AE_REL \<noteq> 0 then read_direct sint (on_handle c (uvc_get_exposure_rel usb ci)) c d
      else Some (UVC_ERROR_ACCESS, c, d))"

definition updateAutoFocusLimit ::
  "'d usb \<Rightarrow> uvc_control_interface \<Rightarrow> camera \<Rightarrow> 'd \<Rightarrow> (int \<times> (int \<times> int \<times> int) option \<times> camera \<times> 'd) option" where
  [camera_defs]: "updateAutoFocusLimit usb ci c d =
     (if mPUSupports c AND CTRL_FOCUS_AUTO \<noteq> 0 then UPDATE_CTRL_VALUES mAutoFocus (update_u8 (on_handle c (uvc_get_focus_auto usb ci))) c d
      else Some (UVC_ERROR_IO, None, c, d))"

definition setAutoFocus ::
  "'d usb \<Rightarrow> uvc_control_interface \<Rightarrow> bool \<Rightarrow> camera \<Rightarrow> 'd \<Rightarrow> (int \<times> camera \<times> 'd) option" where
  [camera_defs]: "setAutoFocus usb ci autoFocus c d =
     (if mDeviceHandle c \<and> mCtrlSupports c AND CTRL_FOCUS_AUTO \<noteq> 0 then write_direct (on_handle c (uvc_set_focus_auto usb ci)) (if autoFocus then 1 else 0) c d
      else Some (UVC_ERROR_ACCESS, c, d))"

definition getAutoFocus ::
  "'d usb \<Rightarrow> uvc_control_interface \<Rightarrow> camera \<Rightarrow> 'd \<Rightarrow> (bool \<times> camera \<times> 'd) option" where
  [camera_defs]: "getAutoFocus usb ci c d =
     map_option (\<lambda>(r, c, d). (r \<noteq> 0, c, d))
       (if mDeviceHandle c \<and> mCtrlSupports c AND CTRL_FOCUS_AUTO \<noteq> 0 then read_direct uint (on_handle c (uvc_get_focus_auto usb ci)) c d
      else Some (UVC_ERROR_ACCESS, c, d))"

definition updateFocusLimit ::
  "'d usb \<Rightarrow> uvc_control_interface \<Rightarrow> camera \<Rightarrow> 'd \<Rightarrow> (int \<times> (int \<times> int \<times> int) option \<times> camera \<times> 'd) option" where
  [camera_defs]: "updateFocusLimit usb ci c d =
     (if mCtrlSupports c AND CTRL_FOCUS_ABS \<noteq> 0 then UPDATE_CTRL_VALUES mFocus (update_i16 (on_handle c (uvc_get_focus_abs usb ci))) c d
      else Some (UVC_ERROR_ACCESS, None, c, d))"

definition setFocus ::
  "'d usb \<Rightarrow> uvc_control_interface \<Rightarrow> int \<Rightarrow> camera \<Rightarrow> 'd \<Rightarrow> (int \<times> camera \<times> 'd) option" where
  [camera_defs]: "setFocus usb ci focus c d =
     (if mCtrlSupports c AND CTRL_FOCUS_ABS \<noteq> 0 then with_limits mFocus (internalSetCtrlValue_i16 (word_of_int focus) (on_handle c (uvc_get_focus_abs usb ci)) (on_handle c (uvc_set_focus_abs usb ci))) c d
      else Some (UVC_ERROR_ACCESS, c, d))"

definition getFocus ::
  "'d usb \<Rightarrow> uvc_control_interface \<Rightarrow> camera \<Rightarrow> 'd \<Rightarrow> (int \<times> camera \<times> 'd) option" where
  [camera_defs]: "getFocus usb ci c d =
     (if mCtrlSupports c AND CTRL_FOCUS_ABS \<noteq> 0 then get_current mFocus (update_i16 (on_handle c (uvc_get_focus_abs usb ci))) sint (on_handle c (uvc_get_focus_abs usb ci)) c d
      else Some (0, c, d))"

definition updateFocusRelLimit ::
  "'d usb \<Rightarrow> uvc_control_interface \<Rightarrow> camera \<Rightarrow> 'd \<Rightarrow> (int \<times> (int \<times> int \<times> int) option \<times> camera \<times> 'd) option" where
  [camera_defs]: "updateFocusRelLimit usb ci c d =
     (if mCtrlSupports c AND CTRL_FOCUS_REL \<noteq> 0 then UPDATE_CTRL_VALUES mFocusRel (update_i8u8 (on_handle c (uvc_get_focus_rel usb ci))) c d
      else Some (UVC_ERROR_ACCESS, None, c, d))"

definition setFocusRel ::
  "'d usb \<Rightarrow> uvc_control_interface \<Rightarrow> int \<Rightarrow> camera \<Rightarrow> 'd \<Rightarrow> (int \<times> camera \<times> 'd) option" where
  [camera_defs]: "setFocusRel usb ci focus_rel c d =
     (if mCtrlSupports c AND CTRL_FOCUS_REL \<noteq> 0 then with_limits mFocusRel (internalSetCtrlValue_i8u8 (word_of_int (focus_rel div 2 ^ 8)) (word_of_int focus_rel) (on_handle c (uvc_get_focus_rel usb ci)) (on_handle c (\<lambda>(v1, v2). uvc_set_focus_rel usb ci v1 v2))) c d
      else Some (UVC_ERROR_ACCESS, c, d))"

definition getFocusRel ::
  "'d usb \<Rightarrow> uvc_control_interface \<Rightarrow> camera \<Rightarrow> 'd \<Rightarrow> (int \<times> camera \<times> 'd) option" where
  [camera_defs]: "getFocusRel usb ci c d =
     (if mCtrlSupports c AND CTRL_FOCUS_REL \<noteq> 0 then get_current mFocusRel (update_i16 (on_handle c (uvc_get_focus_abs usb ci))) join_i8u8 (on_handle c (uvc_get_focus_rel usb ci)) c d
      else Some (0, c, d))"

definition updateIrisLimit ::
  "'d usb \<Rightarrow> uvc_control_interface \<Rightarrow> camera \<Rightarrow> 'd \<Rightarrow> (int \<times> (int \<times> int \<times> int) option \<times> camera \<times> 'd) option" where
  [camera_defs]: "updateIrisLimit usb ci c d =
     (if mCtrlSupports c AND CTRL_IRIS_ABS \<noteq> 0 then UPDATE_CTRL_VALUES mIris (update_u16 (on_handle c (uvc_get_iris_abs usb ci))) c d
      else Some (UVC_ERROR_ACCESS, None, c, d))"

definition setIris ::
  "'d usb \<Rightarrow> uvc_control_interface \<Rightarrow> int \<Rightarrow> camera \<Rightarrow> 'd \<Rightarrow> (int \<times> camera \<times> 'd) option" where
  [camera_defs]: "setIris usb ci iris c d =
     (if mCtrlSupports c AND CTRL_IRIS_ABS \<noteq> 0 then with_limits mIris (internalSetCtrlValue_u16 (word_of_int iris) (on_handle c (uvc_get_iris_abs usb ci)) (on_handle c (uvc_set_iris_abs usb ci))) c d
      else Some (UVC_ERROR_ACCESS, c, d))"

definition getIris ::
  "'d usb \<Rightarrow> uvc_control_interface \<Rightarrow> camera \<Rightarrow> 'd \<Rightarrow> (int \<times> camera \<times> 'd) option" where
  [camera_defs]: "getIris usb ci c d =
     (if mCtrlSupports c AND CTRL_IRIS_ABS \<noteq> 0 then get_current mIris (update_u16 (on_handle c (uvc_get_iris_abs usb ci))) uint (on_handle c (uvc_get_iris_abs usb ci)) c d
      else Some (0, c, d))"

definition updateIrisRelLimit ::
  "'d usb \<Rightarrow> uvc_control_interface \<Rightarrow> camera \<Rightarrow> 'd \<Rightarrow> (int \<times> (int \<times> int \<times> int) option \<times> camera \<times> 'd) option" where
  [camera_defs]: "updateIrisRelLimit usb ci c d =
     (if mCtrlSupports c AND CTRL_IRIS_REL \<noteq> 0 then UPDATE_CTRL_VALUES mIris (update_u8 (on_handle c (uvc_get_iris_rel usb ci))) c d
      else Some (UVC_ERROR_ACCESS, None, c, d))"

definition setIrisRel ::
  "'d usb \<Rightarrow> uvc_control_interface \<Rightarrow> int \<Rightarrow> camera \<Rightarrow> 'd \<Rightarrow> (int \<times> camera \<times> 'd) option" where
  [camera_defs]: "setIrisRel usb ci iris_rel c d =
     (if mCtrlSupports c AND CTRL_IRIS_REL \<noteq> 0 then with_limits mIris (internalSetCtrlValue_u8 (word_of_int iris_rel) (on_handle c (uvc_get_iris_rel usb ci)) (on_handle c (uvc_set_iris_rel usb ci))) c d
      else Some (UVC_ERROR_ACCESS, c, d))"

definition getIrisRel ::
  "'d usb \<Rightarrow> uvc_control_interface \<Rightarrow> camera \<Rightarrow> 'd \<Rightarrow> (int \<times> camera \<times> 'd) option" where
  [camera_defs]: "getIrisRel usb ci c d =
     (if mCtrlSupports c AND CTRL_IRIS_REL \<noteq> 0 then get_current mIris (update_u8 (on_handle c (uvc_get_iris_rel usb ci))) uint (on_handle c (uvc_get_iris_rel usb ci)) c d
      else Some (0, c, d))"

definition updateRollLimit ::
  "'d usb \<Rightarrow> uvc_control_interface \<Rightarrow> camera \<Rightarrow> 'd \<Rightarrow> (int \<times> (int \<times> int \<times> int) option \<times> camera \<times> 'd) option" where
  [camera_defs]: "updateRollLimit usb ci c d =
     (if mCtrlSupports c AND CTRL_ROLL_ABS \<noteq> 0 then UPDATE_CTRL_VALUES mRoll (update_i16 (on_handle c (uvc_get_roll_abs usb ci))) c d
      else Some (UVC_ERROR_ACCESS, None, c, d))"

definition setRoll ::
  "'d usb \<Rightarrow> uvc_control_interface \<Rightarrow> int \<Rightarrow> camera \<Rightarrow> 'd \<Rightarrow> (int \<times> camera \<times> 'd) option" where
  [camera_defs]: "setRoll usb ci roll c d =
     (if mCtrlSupports c AND CTRL_ROLL_ABS \<noteq> 0 then with_limits mRoll (internalSetCtrlValue_i16 (word_of_int roll) (on_handle c (uvc_get_roll_abs usb ci)) (on_handle c (uvc_set_roll_abs usb ci))) c d
      else Some (UVC_ERROR_ACCESS, c, d))"

definition updatePanRelLimit ::
  "'d usb \<Rightarrow> uvc_control_interface \<Rightarrow> camera \<Rightarrow> 'd \<Rightarrow> (int \<times> (int \<times> int \<times> int) option \<times> camera \<times> 'd) option" where
  [camera_defs]: "updatePanRelLimit usb ci c d =
     Some (UVC_ERROR_ACCESS, None, c, d)"

definition setPanRel ::
  "'d usb \<Rightarrow> uvc_control_interface \<Rightarrow> int \<Rightarrow> camera \<Rightarrow> 'd \<Rightarrow> (int \<times> camera \<times> 'd) option" where
  [camera_defs]: "setPanRel usb ci pan_rel c d =
     Some (UVC_ERROR_ACCESS, c, d)"

definition getPanRel ::
  "'d usb \<Rightarrow> uvc_control_interface \<Rightarrow> camera \<Rightarrow> 'd \<Rightarrow> (int \<times> camera \<times> 'd) option" where
  [camera_defs]: "getPanRel usb ci c d =
     Some (UVC_ERROR_ACCESS, c, d)"

definition updateTiltRelLimit ::
  "'d usb \<Rightarrow> uvc_control_interface \<Rightarrow> camera \<Rightarrow> 'd \<Rightarrow> (int \<times> (int \<times> int \<times> int) option \<times> camera \<times> 'd) option" where
  [camera_defs]: "updateTiltRelLimit usb ci c d =
     Some (UVC_ERROR_ACCESS, None, c, d)"

definition setTiltRel ::
  "'d usb \<Rightarrow> uvc_control_interface \<Rightarrow> int \<Rightarrow> camera \<Rightarrow> 'd \<Rightarrow> (int \<times> camera \<times> 'd) option" where
  [camera_defs]: "setTiltRel usb ci tilt_rel c d =
     Some (UVC_ERROR_ACCESS, c, d)"

definition getTiltRel ::
  "'d usb \<Rightarrow> uvc_control_interface \<Rightarrow> camera \<Rightarrow> 'd \<Rightarrow> (int \<times> camera \<times> 'd) option" where
  [camera_defs]: "getTiltRel usb ci c d =
     Some (UVC_ERROR_ACCESS, c, d)"

definition updateRollRelLimit ::
  "'d usb \<Rightarrow> uvc_control_interface \<Rightarrow> camera \<Rightarrow> 'd \<Rightarrow> (int \<times> (int \<times> int \<times> int) option \<times> camera \<times> 'd) option" where
  [camera_defs]: "updateRollRelLimit usb ci c d =
     Some (UVC_ERROR_ACCESS, None, c, d)"

definition setRollRel ::
  "'d usb \<Rightarrow> uvc_control_interface \<Rightarrow> int \<Rightarrow> camera \<Rightarrow> 'd \<Rightarrow> (int \<times> camera \<times> 'd) option" where
  [camera_defs]: "setRollRel usb ci roll_rel c d =
     Some (UVC_ERROR_ACCESS, c, d)"

definition getRollRel ::
  "'d usb \<Rightarrow> uvc_control_interface \<Rightarrow> camera \<Rightarrow> 'd \<Rightarrow> (int \<times> camera \<times> 'd) option" where
  [camera_defs]: "getRollRel usb ci c d =
     Some (UVC_ERROR_ACCESS, c, d)"

definition updatePrivacyLimit ::
  "'d usb \<Rightarrow> uvc_control_interface \<Rightarrow> camera \<Rightarrow> 'd \<Rightarrow> (int \<times> (int \<times> int \<times> int) option \<times> camera \<times> 'd) option" where
  [camera_defs]: "updatePrivacyLimit usb ci c d =
     (if mCtrlSupports c AND CTRL_PRIVACY \<noteq> 0 then UPDATE_CTRL_VALUES mPrivacy (update_i16 (on_handle c (uvc_get_focus_abs usb ci))) c d
      else Some (UVC_ERROR_ACCESS, None, c, d))"

definition setPrivacy ::
  "'d usb \<Rightarrow> uvc_control_interface \<Rightarrow> int \<Rightarrow> camera \<Rightarrow> 'd \<Rightarrow> (int \<times> camera \<times> 'd) option" where
  [camera_defs]: "setPrivacy usb ci privacy c d =
     (if mCtrlSupports c AND CTRL_PRIVACY \<noteq> 0 then with_limits mPrivacy (internalSetCtrlValue_u8 (word_of_int privacy) (on_handle c (uvc_get_privacy usb ci)) (on_handle c (uvc_set_privacy usb ci))) c d
      else Some (UVC_ERROR_ACCESS, c, d))"

definition getPrivacy ::
  "'d usb \<Rightarrow> uvc_control_interface \<Rightarrow> camera \<Rightarrow> 'd \<Rightarrow> (int \<times> camera \<times> 'd) option" where
  [camera_defs]: "getPrivacy usb ci c d =
     (if mCtrlSupports c AND CTRL_PRIVACY \<noteq> 0 then get_current mPrivacy (update_u8 (on_handle c (uvc_get_privacy usb ci))) uint (on_handle c (uvc_get_privacy usb ci)) c d
      else Some (0, c, d))"

section \<open>The processing unit controls\<close>

definition updateBacklightCompLimit ::
  "'d usb \<Rightarrow> uvc_control_interface \<Rightarrow> camera \<Rightarrow> 'd \<Rightarrow> (int \<times> (int \<times> int \<times> int) option \<times> camera \<times> 'd) option" where
  [camera_defs]: "updateBacklightCompLimit usb ci c d =
     (if mPUSupports c AND PU_BACKLIGHT \<noteq> 0 then UPDATE_CTRL_VALUES mBacklightComp (update_i16 (on_handle c (uvc_get_backlight_compensation usb ci))) c d
      else Some (UVC_ERROR_IO, None, c, d))"

definition setBacklightComp ::
  "'d usb \<Rightarrow> uvc_control_interface \<Rightarrow> int \<Rightarrow> camera \<Rightarrow> 'd \<Rightarrow> (int \<times> camera \<times> 'd) option" where
  [camera_defs]: "setBacklightComp usb ci backlight c d =
     (if mPUSupports c AND PU_BACKLIGHT \<noteq> 0 then with_limits mBacklightComp (internalSetCtrlValue_i16 (word_of_int backlight) (on_handle c (uvc_get_backlight_compensation usb ci)) (on_handle c (uvc_set_backlight_compensation usb ci))) c d
      else Some (UVC_ERROR_IO, c, d))"

definition getBacklightComp ::
  "'d usb \<Rightarrow> uvc_control_interface \<Rightarrow> camera \<Rightarrow> 'd \<Rightarrow> (int \<times> camera \<times> 'd) option" where
  [camera_defs]: "getBacklightComp usb ci c d =
     (if mPUSupports c AND PU_BACKLIGHT \<noteq> 0 then get_current mBacklightComp (update_i16 (on_handle c (uvc_get_backlight_compensation usb ci))) sint (on_handle c (uvc_get_backlight_compensation usb ci)) c d
      else Some (0, c, d))"

definition updateBrightnessLimit ::
  "'d usb \<Rightarrow> uvc_control_interface \<Rightarrow> camera \<Rightarrow> 'd \<Rightarrow> (int \<times> (int \<times> int \<times> int) option \<times> camera \<times> 'd) option" where
  [camera_defs]: "updateBrightnessLimit usb ci c d =
     (if mPUSupports c AND PU_BRIGHTNESS \<noteq> 0 then UPDATE_CTRL_VALUES mBrightness (update_i16 (on_handle c (uvc_get_brightness usb ci))) c d
      else Some (UVC_ERROR_IO, None, c, d))"

definition setBrightness ::
  "'d usb \<Rightarrow> uvc_control_interface \<Rightarrow> int \<Rightarrow> camera \<Rightarrow> 'd \<Rightarrow> (int \<times> camera \<times> 'd) option" where
  [camera_defs]: "setBrightness usb ci brightness c d =
     (if mPUSupports c AND PU_BRIGHTNESS \<noteq> 0 then with_limits mBrightness (internalSetCtrlValue_i16 (word_of_int brightness) (on_handle c (uvc_get_brightness usb ci)) (on_handle c (uvc_set_brightness usb ci))) c d
      else Some (UVC_ERROR_IO, c, d))"

definition getBrightness ::
  "'d usb \<Rightarrow> uvc_control_interface \<Rightarrow> camera \<Rightarrow> 'd \<Rightarrow> (int \<times> camera \<times> 'd) option" where
  [camera_defs]: "getBrightness usb ci c d =
     (if mPUSupports c AND PU_BRIGHTNESS \<noteq> 0 then get_current mBrightness (update_i16 (on_handle c (uvc_get_brightness usb ci))) sint (on_handle c (uvc_get_brightness usb ci)) c d
      else Some (0, c, d))"

definition updateContrastLimit ::
  "'d usb \<Rightarrow> uvc_control_interface \<Rightarrow> camera \<Rightarrow> 'd \<Rightarrow> (int \<times> (int \<times> int \<times> int) option \<times> camera \<times> 'd) option" where
  [camera_defs]: "updateContrastLimit usb ci c d =
     (if mPUSupports c AND PU_CONTRAST \<noteq> 0 then UPDATE_CTRL_VALUES mContrast (update_u16 (on_handle c (uvc_get_contrast usb ci))) c d
      else Some (UVC_ERROR_IO, None, c, d))"

definition setContrast ::
  "'d usb \<Rightarrow> uvc_control_interface \<Rightarrow> int \<Rightarrow> camera \<Rightarrow> 'd \<Rightarrow> (int \<times> camera \<times> 'd) option" where
  [camera_defs]: "setContrast usb ci contrast c d =
     (if mPUSupports c AND PU_CONTRAST \<noteq> 0 then with_limits mContrast (internalSetCtrlValue_u16 (word_of_int contrast) (on_handle c (uvc_get_contrast usb ci)) (on_handle c (uvc_set_contrast usb ci))) c d
      else Some (UVC_ERROR_IO, c, d))"

definition getContrast ::
  "'d usb \<Rightarrow> uvc_control_interface \<Rightarrow> camera \<Rightarrow> 'd \<Rightarrow> (int \<times> camera \<times> 'd) option" where
  [camera_defs]: "getContrast usb ci c d =
     (if mPUSupports c AND PU_CONTRAST \<noteq> 0 then get_current mContrast (update_u16 (on_handle c (uvc_get_contrast usb ci))) uint (on_handle c (uvc_get_contrast usb ci)) c d
      else Some (0, c, d))"

definition updateAutoContrastLimit ::
  "'d usb \<Rightarrow> uvc_control_interface \<Rightarrow> camera \<Rightarrow> 'd \<Rightarrow> (int \<times> (int \<times> int \<times> int) option \<times> camera \<times> 'd) option" where
  [camera_defs]: "updateAutoContrastLimit usb ci c d =
     (if mPUSupports c AND PU_CONTRAST_AUTO \<noteq> 0 then UPDATE_CTRL_VALUES mAutoFocus (update_u8 (on_handle c (uvc_get_contrast_auto usb ci))) c d
      else Some (UVC_ERROR_IO, None, c, d))"

definition setAutoContrast ::
  "'d usb \<Rightarrow> uvc_control_interface \<Rightarrow> bool \<Rightarrow> camera \<Rightarrow> 'd \<Rightarrow> (int \<times> camera \<times> 'd) option" where
  [camera_defs]: "setAutoContrast usb ci autoContrast c d =
     (if mDeviceHandle c \<and> mPUSupports c AND PU_CONTRAST_AUTO \<noteq> 0 then write_direct (on_handle c (uvc_set_contrast_auto usb ci)) (if autoContrast then 1 else 0) c d
      else Some (UVC_ERROR_ACCESS, c, d))"

definition getAutoContrast ::
  "'d usb \<Rightarrow> uvc_control_interface \<Rightarrow> camera \<Rightarrow> 'd \<Rightarrow> (bool \<times> camera \<times> 'd) option" where
  [camera_defs]: "getAutoContrast usb ci c d =
     map_option (\<lambda>(r, c, d). (r \<noteq> 0, c, d))
       (if mDeviceHandle c \<and> mPUSupports c AND PU_CONTRAST_AUTO \<noteq> 0 then read_direct uint (on_handle c (uvc_get_contrast_auto usb ci)) c d
      else Some (UVC_ERROR_ACCESS, c, d))"

definition updateSharpnessLimit ::
  "'d usb \<Rightarrow> uvc_control_interface \<Rightarrow> camera \<Rightarrow> 'd \<Rightarrow> (int \<times> (int \<times> int \<times> int) option \<times> camera \<times> 'd) option" where
  [camera_defs]: "updateSharpnessLimit usb ci c d =
     (if mPUSupports c AND PU_SHARPNESS \<noteq> 0 then UPDATE_CTRL_VALUES mSharpness (update_u16 (on_handle c (uvc_get_sharpness usb ci))) c d
      else Some (UVC_ERROR_IO, None, c, d))"

definition setSharpness ::
  "'d usb \<Rightarrow> uvc_control_interface \<Rightarrow> int \<Rightarrow> camera \<Rightarrow> 'd \<Rightarrow> (int \<times> camera \<times> 'd) option" where
  [camera_defs]: "setSharpness usb ci sharpness c d =
     (if mPUSupports c AND PU_SHARPNESS \<noteq> 0 then with_limits mSharpness (internalSetCtrlValue_u16 (word_of_int sharpness) (on_handle c (uvc_get_sharpness usb ci)) (on_handle c (uvc_set_sharpness usb ci))) c d
      else Some (UVC_ERROR_IO, c, d))"

definition getSharpness ::
  "'d usb \<Rightarrow> uvc_control_interface \<Rightarrow> camera \<Rightarrow> 'd \<Rightarrow> (int \<times> camera \<times> 'd) option" where
  [camera_defs]: "getSharpness usb ci c d =
     (if mPUSupports c AND PU_SHARPNESS \<noteq> 0 then get_current mSharpness (update_u16 (on_handle c (uvc_get_sharpness usb ci))) uint (on_handle c (uvc_get_sharpness usb ci)) c d
      else Some (0, c, d))"

definition updateGainLimit ::
  "'d usb \<Rightarrow> uvc_control_interface \<Rightarrow> camera \<Rightarrow> 'd \<Rightarrow> (int \<times> (int \<times> int \<times> int) option \<times> camera \<times> 'd) option" where
  [camera_defs]: "updateGainLimit usb ci c d =
     (if mPUSupports c AND PU_GAIN \<noteq> 0 then UPDATE_CTRL_VALUES mGain (update_u16 (on_handle c (uvc_get_gain usb ci))) c d
      else Some (UVC_ERROR_IO, None, c, d))"

definition setGain ::
  "'d usb \<Rightarrow> uvc_control_interface \<Rightarrow> int \<Rightarrow> camera \<Rightarrow> 'd \<Rightarrow> (int \<times> camera \<times> 'd) option" where
  [camera_defs]: "setGain usb ci gain c d =
     (if mPUSupports c AND PU_GAIN \<noteq> 0 then with_limits mGain (internalSetCtrlValue_u16 (word_of_int gain) (on_handle c (uvc_get_gain usb ci)) (on_handle c (uvc_set_gain usb ci))) c d
      else Some (UVC_ERROR_IO, c, d))"

definition getGain ::
  "'d usb \<Rightarrow> uvc_control_interface \<Rightarrow> camera \<Rightarrow> 'd \<Rightarrow> (int \<times> camera \<times> 'd) option" where
  [camera_defs]: "getGain usb ci c d =
     (if mPUSupports c AND PU_GAIN \<noteq> 0 then get_current mGain (update_u16 (on_handle c (uvc_get_gain usb ci))) uint (on_handle c (uvc_get_gain usb ci)) c d
      else Some (0, c, d))"

definition updateAutoWhiteBlanceLimit ::
  "'d usb \<Rightarrow> uvc_control_interface \<Rightarrow> camera \<Rightarrow> 'd \<Rightarrow> (int \<times> (int \<times> int \<times> int) option \<times> camera \<times> 'd) option" where
  [camera_defs]: "updateAutoWhiteBlanceLimit usb ci c d =
     (if mPUSupports c AND PU_WB_TEMP_AUTO \<noteq> 0 then UPDATE_CTRL_VALUES mAutoWhiteBlance (update_u8 (on_handle c (uvc_get_white_balance_temperature_auto usb ci))) c d
      else Some (UVC_ERROR_IO, None, c, d))"

definition setAutoWhiteBlance ::
  "'d usb \<Rightarrow> uvc_control_interface \<Rightarrow> bool \<Rightarrow> camera \<Rightarrow> 'd \<Rightarrow> (int \<times> camera \<times> 'd) option" where
  [camera_defs]: "setAutoWhiteBlance usb ci autoWhiteBlance c d =
     (if mDeviceHandle c \<and> mPUSupports c AND PU_WB_TEMP_AUTO \<noteq> 0 then write_direct (on_handle c (uvc_set_white_balance_temperature_auto usb ci)) (if autoWhiteBlance then 1 else 0) c d
      else Some (UVC_ERROR_ACCESS, c, d))"

definition getAutoWhiteBlance ::
  "'d usb \<Rightarrow> uvc_control_interface \<Rightarrow> camera \<Rightarrow> 'd \<Rightarrow> (bool \<times> camera \<times> 'd) option" where
  [camera_defs]: "getAutoWhiteBlance usb ci c d =
     map_option (\<lambda>(r, c, d). (r \<noteq> 0, c, d))
       (if mDeviceHandle c \<and> mPUSupports c AND PU_WB_TEMP_AUTO \<noteq> 0 then read_direct uint (on_handle c (uvc_get_white_balance_temperature_auto usb ci)) c d
      else Some (UVC_ERROR_ACCESS, c, d))"

definition updateAutoWhiteBlanceCompoLimit ::
  "'d usb \<Rightarrow> uvc_control_interface \<Rightarrow> camera \<Rightarrow> 'd \<Rightarrow> (int \<times> (int \<times> int \<times> int) option \<times> camera \<times> 'd) option" where
  [camera_defs]: "updateAutoWhiteBlanceCompoLimit usb ci c d =
     (if mPUSupports c AND PU_WB_COMPO_AUTO \<noteq> 0 then UPDATE_CTRL_VALUES mAutoWhiteBlanceCompo (update_u8 (on_handle c (uvc_get_white_balance_component_auto usb ci))) c d
      else Some (UVC_ERROR_IO, None, c, d))"

definition setAutoWhiteBlanceCompo ::
  "'d usb \<Rightarrow> uvc_control_interface \<Rightarrow> bool \<Rightarrow> camera \<Rightarrow> 'd \<Rightarrow> (int \<times> camera \<times> 'd) option" where
  [camera_defs]: "setAutoWhiteBlanceCompo usb ci autoWhiteBlanceCompo c d =
     (if mDeviceHandle c \<and> mPUSupports c AND PU_WB_COMPO_AUTO \<noteq> 0 then write_direct (on_handle c (uvc_set_white_balance_component_auto usb ci)) (if autoWhiteBlanceCompo then 1 else 0) c d
      else Some (UVC_ERROR_ACCESS, c, d))"

definition getAutoWhiteBlanceCompo ::
  "'d usb \<Rightarrow> uvc_control_interface \<Rightarrow> camera \<Rightarrow> 'd \<Rightarrow> (bool \<times> camera \<times> 'd) option" where
  [camera_defs]: "getAutoWhiteBlanceCompo usb ci c d =
     map_option (\<lambda>(r, c, d). (r \<noteq> 0, c, d))
       (if mDeviceHandle c \<and> mPUSupports c AND PU_WB_COMPO_AUTO \<noteq> 0 then read_direct uint (on_handle c (uvc_get_white_balance_component_auto usb ci)) c d
      else Some (UVC_ERROR_ACCESS, c, d))"

definition updateWhiteBlanceLimit ::
  "'d usb \<Rightarrow> uvc_control_interface \<Rightarrow> camera \<Rightarrow> 'd \<Rightarrow> (int \<times> (int \<times> int \<times> int) option \<times> camera \<times> 'd) option" where
  [camera_defs]: "updateWhiteBlanceLimit usb ci c d =
     (if mPUSupports c AND PU_WB_TEMP \<noteq> 0 then UPDATE_CTRL_VALUES mWhiteBlance (update_u16 (on_handle c (uvc_get_white_balance_temperature usb ci))) c d
      else Some (UVC_ERROR_IO, None, c, d))"

definition setWhiteBlance ::
  "'d usb \<Rightarrow> uvc_control_interface \<Rightarrow> int \<Rightarrow> camera \<Rightarrow> 'd \<Rightarrow> (int \<times> camera \<times> 'd) option" where
  [camera_defs]: "setWhiteBlance usb ci white_blance c d =
     (if mPUSupports c AND PU_WB_TEMP \<noteq> 0 then with_limits mWhiteBlance (internalSetCtrlValue_u16 (word_of_int white_blance) (on_handle c (uvc_get_white_balance_temperature usb ci)) (on_handle c (uvc_set_white_balance_temperature usb ci))) c d
      else Some (UVC_ERROR_IO, c, d))"

definition getWhiteBlance ::
  "'d usb \<Rightarrow> uvc_control_interface \<Rightarrow> camera \<Rightarrow> 'd \<Rightarrow> (int \<times> camera \<times> 'd) option" where
  [camera_defs]: "getWhiteBlance usb ci c d =
     (if mPUSupports c AND PU_WB_TEMP \<noteq> 0 then get_current mWhiteBlance (update_u16 (on_handle c (uvc_get_white_balance_temperature usb ci))) uint (on_handle c (uvc_get_white_balance_temperature usb ci)) c d
      else Some (0, c, d))"

definition updateWhiteBlanceCompoLimit ::
  "'d usb \<Rightarrow> uvc_control_interface \<Rightarrow> camera \<Rightarrow> 'd \<Rightarrow> (int \<times> (int \<times> int \<times> int) option \<times> camera \<times> 'd) option" where
  [camera_defs]: "updateWhiteBlanceCompoLimit usb ci c d =
     (if mPUSupports c AND PU_WB_COMPO \<noteq> 0 then UPDATE_CTRL_VALUES mWhiteBlanceCompo (update_u32 (on_handle c (uvc_get_white_balance_component usb ci))) c d
      else Some (UVC_ERROR_IO, None, c, d))"

definition setWhiteBlanceCompo ::
  "'d usb \<Rightarrow> uvc_control_interface \<Rightarrow> int \<Rightarrow> camera \<Rightarrow> 'd \<Rightarrow> (int \<times> camera \<times> 'd) option" where
  [camera_defs]: "setWhiteBlanceCompo usb ci white_blance_compo c d =
     (if mPUSupports c AND PU_WB_COMPO \<noteq> 0 then with_limits mWhiteBlanceCompo (internalSetCtrlValue_u32 (word_of_int white_blance_compo) (on_handle c (uvc_get_white_balance_component usb ci)) (on_handle c (uvc_set_white_balance_component usb ci))) c d
      else Some (UVC_ERROR_IO, c, d))"

definition getWhiteBlanceCompo ::
  "'d usb \<Rightarrow> uvc_control_interface \<Rightarrow> camera \<Rightarrow> 'd \<Rightarrow> (int \<times> camera \<times> 'd) option" where
  [camera_defs]: "getWhiteBlanceCompo usb ci c d =
     (if mPUSupports c AND PU_WB_COMPO \<noteq> 0 then get_current mWhiteBlanceCompo (update_u32 (on_handle c (uvc_get_white_balance_component usb ci))) sint (on_handle c (uvc_get_white_balance_component usb ci)) c d
      else Some (0, c, d))"

definition updateGammaLimit ::
  "'d usb \<Rightarrow> uvc_control_interface \<Rightarrow> camera \<Rightarrow> 'd \<Rightarrow> (int \<times> (int \<times> int \<times> int) option \<times> camera \<times> 'd) option" where
  [camera_defs]: "updateGammaLimit usb ci c d =
     (if mPUSupports c AND PU_GAMMA \<noteq> 0 then UPDATE_CTRL_VALUES mGamma (update_u16 (on_handle c (uvc_get_gamma usb ci))) c d
      else Some (UVC_ERROR_IO, None, c, d))"

definition setGamma ::
  "'d usb \<Rightarrow> uvc_control_interface \<Rightarrow> int \<Rightarrow> camera \<Rightarrow> 'd \<Rightarrow> (int \<times> camera \<times> 'd) option" where
  [camera_defs]: "setGamma usb ci gamma c d =
     (if mPUSupports c AND PU_GAMMA \<noteq> 0 then with_limits mGamma (internalSetCtrlValue_u16 (word_of_int gamma) (on_handle c (uvc_get_gamma usb ci)) (on_handle c (uvc_set_gamma usb ci))) c d
      else Some (UVC_ERROR_IO, c, d))"

definition getGamma ::
  "'d usb \<Rightarrow> uvc_control_interface \<Rightarrow> camera \<Rightarrow> 'd \<Rightarrow> (int \<times> camera \<times> 'd) option" where
  [camera_defs]: "getGamma usb ci c d =
     (if mPUSupports c AND PU_GAMMA \<noteq> 0 then get_current mGamma (update_u16 (on_handle c (uvc_get_gamma usb ci))) uint (on_handle c (uvc_get_gamma usb ci)) c d
      else Some (0, c, d))"

definition updateSaturationLimit ::
  "'d usb \<Rightarrow> uvc_control_interface \<Rightarrow> camera \<Rightarrow> 'd \<Rightarrow> (int \<times> (int \<times> int \<times> int) option \<times> camera \<times> 'd) option" where
  [camera_defs]: "updateSaturationLimit usb ci c d =
     (if mPUSupports c AND PU_SATURATION \<noteq> 0 then UPDATE_CTRL_VALUES mSaturation (update_u16 (on_handle c (uvc_get_saturation usb ci))) c d
      else Some (UVC_ERROR_IO, None, c, d))"

definition setSaturation ::
  "'d usb \<Rightarrow> uvc_control_interface \<Rightarrow> int \<Rightarrow> camera \<Rightarrow> 'd \<Rightarrow> (int \<times> camera \<times> 'd) option" where
  [camera_defs]: "setSaturation usb ci saturation c d =
     (if mPUSupports c AND PU_SATURATION \<noteq> 0 then with_limits mSaturation (internalSetCtrlValue_u16 (word_of_int saturation) (on_handle c (uvc_get_saturation usb ci)) (on_handle c (uvc_set_saturation usb ci))) c d
      else Some (UVC_ERROR_IO, c, d))"

definition getSaturation ::
  "'d usb \<Rightarrow> uvc_control_interface \<Rightarrow> camera \<Rightarrow> 'd \<Rightarrow> (int \<times> camera \<times> 'd) option" where
  [camera_defs]: "getSaturation usb ci c d =
     (if mPUSupports c AND PU_SATURATION \<noteq> 0 then get_current mSaturation (update_u16 (on_handle c (uvc_get_saturation usb ci))) uint (on_handle c (uvc_get_saturation usb ci)) c d
      else Some (0, c, d))"

definition updateHueLimit ::
  "'d usb \<Rightarrow> uvc_control_interface \<Rightarrow> camera \<Rightarrow> 'd \<Rightarrow> (int \<times> (int \<times> int \<times> int) option \<times> camera \<times> 'd) option" where
  [camera_defs]: "updateHueLimit usb ci c d =
     (if mPUSupports c AND PU_HUE \<noteq> 0 then UPDATE_CTRL_VALUES mHue (update_i16 (on_handle c (uvc_get_hue usb ci))) c d
      else Some (UVC_ERROR_IO, None, c, d))"

definition setHue ::
  "'d usb \<Rightarrow> uvc_control_interface \<Rightarrow> int \<Rightarrow> camera \<Rightarrow> 'd \<Rightarrow> (int \<times> camera \<times> 'd) option" where
  [camera_defs]: "setHue usb ci hue c d =
     (if mPUSupports c AND PU_HUE \<noteq> 0 then with_limits mHue (internalSetCtrlValue_i16 (word_of_int hue) (on_handle c (uvc_get_hue usb ci)) (on_handle c (uvc_set_hue usb ci))) c d
      else Some (UVC_ERROR_IO, c, d))"

definition getHue ::
  "'d usb \<Rightarrow> uvc_control_interface \<Rightarrow> camera \<Rightarrow> 'd \<Rightarrow> (int \<times> camera \<times> 'd) option" where
  [camera_defs]: "getHue usb ci c d =
     (if mPUSupports c AND PU_HUE \<noteq> 0 then get_current mHue (update_i16 (on_handle c (uvc_get_hue usb ci))) sint (on_handle c (uvc_get_hue usb ci)) c d
      else Some (0, c, d))"

definition updateAutoHueLimit ::
  "'d usb \<Rightarrow> uvc_control_interface \<Rightarrow> camera \<Rightarrow> 'd \<Rightarrow> (int \<times> (int \<times> int \<times> int) option \<times> camera \<times> 'd) option" where
  [camera_defs]: "updateAutoHueLimit usb ci c d =
     (if mPUSupports c AND PU_HUE_AUTO \<noteq> 0 then UPDATE_CTRL_VALUES mAutoHue (update_u8 (on_handle c (uvc_get_hue_auto usb ci))) c d
      else Some (UVC_ERROR_IO, None, c, d))"

definition setAutoHue ::
  "'d usb \<Rightarrow> uvc_control_interface \<Rightarrow> bool \<Rightarrow> camera \<Rightarrow> 'd \<Rightarrow> (int \<times> camera \<times> 'd) option" where
  [camera_defs]: "setAutoHue usb ci autoHue c d =
     (if mDeviceHandle c \<and> mPUSupports c AND PU_HUE_AUTO \<noteq> 0 then write_direct (on_handle c (uvc_set_hue_auto usb ci)) (if autoHue then 1 else 0) c d
      else Some (UVC_ERROR_ACCESS, c, d))"

definition getAutoHue ::
  "'d usb \<Rightarrow> uvc_control_interface \<Rightarrow> camera \<Rightarrow> 'd \<Rightarrow> (bool \<times> camera \<times> 'd) option" where
  [camera_defs]: "getAutoHue usb ci c d =
     map_option (\<lambda>(r, c, d). (r \<noteq> 0, c, d))
       (if mDeviceHandle c \<and> mPUSupports c AND PU_HUE_AUTO \<noteq> 0 then read_direct uint (on_handle c (uvc_get_hue_auto usb ci)) c d
      else Some (UVC_ERROR_ACCESS, c, d))"

definition updatePowerlineFrequencyLimit ::
  "'d usb \<Rightarrow> uvc_control_interface \<Rightarrow> camera \<Rightarrow> 'd \<Rightarrow> (int \<times> (int \<times> int \<times> int) option \<times> camera \<times> 'd) option" where
  [camera_defs]: "updatePowerlineFrequencyLimit usb ci c d =
     (if mCtrlSupports c AND PU_POWER_LF \<noteq> 0 then UPDATE_CTRL_VALUES mPowerlineFrequency (update_u8 (on_handle c (uvc_get_powerline_freqency usb ci))) c d
      else Some (UVC_ERROR_IO, None, c, d))"

definition updateZoomLimit ::
  "'d usb \<Rightarrow> uvc_control_interface \<Rightarrow> camera \<Rightarrow> 'd \<Rightarrow> (int \<times> (int \<times> int \<times> int) option \<times> camera \<times> 'd) option" where
  [camera_defs]: "updateZoomLimit usb ci c d =
     (if mCtrlSupports c AND CTRL_ZOOM_ABS \<noteq> 0 then UPDATE_CTRL_VALUES mZoom (update_u16 (on_handle c (uvc_get_zoom_abs usb ci))) c d
      else Some (UVC_ERROR_IO, None, c, d))"

definition setZoom ::
  "'d usb \<Rightarrow> uvc_control_interface \<Rightarrow> int \<Rightarrow> camera \<Rightarrow> 'd \<Rightarrow> (int \<times> camera \<times> 'd) option" where
  [camera_defs]: "setZoom usb ci zoom c d =
     (if mCtrlSupports c AND CTRL_ZOOM_ABS \<noteq> 0 then with_limits mZoom (internalSetCtrlValue_u16 (word_of_int zoom) (on_handle c (uvc_get_zoom_abs usb ci)) (on_handle c (uvc_set_zoom_abs usb ci))) c d
      else Some (UVC_ERROR_IO, c, d))"

definition getZoom ::
  "'d usb \<Rightarrow> uvc_control_interface \<Rightarrow> camera \<Rightarrow> 'd \<Rightarrow> (int \<times> camera \<times> 'd) option" where
  [camera_defs]: "getZoom usb ci c d =
     (if mCtrlSupports c AND CTRL_ZOOM_ABS \<noteq> 0 then get_current mZoom (update_u16 (on_handle c (uvc_get_zoom_abs usb ci))) uint (on_handle c (uvc_get_zoom_abs usb ci)) c d
      else Some (0, c, d))"

definition updateZoomRelLimit ::
  "'d usb \<Rightarrow> uvc_control_interface \<Rightarrow> camera \<Rightarrow> 'd \<Rightarrow> (int \<times> (int \<times> int \<times> int) option \<times> camera \<times> 'd) option" where
  [camera_defs]: "updateZoomRelLimit usb ci c d =
     (if mCtrlSupports c AND CTRL_ZOOM_REL \<noteq> 0 then UPDATE_CTRL_VALUES mZoomRel (update_i8u8u8 (on_handle c (uvc_get_zoom_rel usb ci))) c d
      else Some (UVC_ERROR_IO, None, c, d))"

definition setZoomRel ::
  "'d usb \<Rightarrow> uvc_control_interface \<Rightarrow> int \<Rightarrow> camera \<Rightarrow> 'd \<Rightarrow> (int \<times> camera \<times> 'd) option" where
  [camera_defs]: "setZoomRel usb ci zoom c d =
     (if mCtrlSupports c AND CTRL_ZOOM_REL \<noteq> 0 then with_limits mZoomRel (internalSetCtrlValue_i8u8u8 (word_of_int (zoom div 2 ^ 16)) (word_of_int (zoom div 2 ^ 8)) (word_of_int zoom) (on_handle c (uvc_get_zoom_rel usb ci)) (on_handle c (\<lambda>(v1, v2, v3). uvc_set_zoom_rel usb ci v1 v2 v3))) c d
      else Some (UVC_ERROR_IO, c, d))"

definition getZoomRel ::
  "'d usb \<Rightarrow> uvc_control_interface \<Rightarrow> camera \<Rightarrow> 'd \<Rightarrow> (int \<times> camera \<times> 'd) option" where
  [camera_defs]: "getZoomRel usb ci c d =
     (if mCtrlSupports c AND CTRL_ZOOM_REL \<noteq> 0 then get_current mZoomRel (update_i8u8u8 (on_handle c (uvc_get_zoom_rel usb ci))) join_i8u8u8 (on_handle c (uvc_get_zoom_rel usb ci)) c d
      else Some (0, c, d))"

definition updateDigitalMultiplierLimit ::
  "'d usb \<Rightarrow> uvc_control_interface \<Rightarrow> camera \<Rightarrow> 'd \<Rightarrow> (int \<times> (int \<times> int \<times> int) option \<times> camera \<times> 'd) option" where
  [camera_defs]: "updateDigitalMultiplierLimit usb ci c d =
     (if mPUSupports c AND PU_DIGITAL_MULT \<noteq> 0 then UPDATE_CTRL_VALUES mMultiplier (update_u16 (on_handle c (uvc_get_digital_multiplier usb ci))) c d
      else Some (UVC_ERROR_IO, None, c, d))"

definition setDigitalMultiplier ::
  "'d usb \<Rightarrow> uvc_control_interface \<Rightarrow> int \<Rightarrow> camera \<Rightarrow> 'd \<Rightarrow> (int \<times> camera \<times> 'd) option" where
  [camera_defs]: "setDigitalMultiplier usb ci multiplier c d =
     (if mPUSupports c AND PU_DIGITAL_MULT \<noteq> 0 then with_limits mMultiplier (internalSetCtrlValue_u16 (word_of_int multiplier) (on_handle c (uvc_get_digital_multiplier usb ci)) (on_handle c (uvc_set_digital_multiplier usb ci))) c d
      else Some (UVC_ERROR_IO, c, d))"

definition getDigitalMultiplier ::
  "'d usb \<Rightarrow> uvc_control_interface \<Rightarrow> camera \<Rightarrow> 'd \<Rightarrow> (int \<times> camera \<times> 'd) option" where
  [camera_defs]: "getDigitalMultiplier usb ci c d =
     (if mPUSupports c AND PU_DIGITAL_MULT \<noteq> 0 then get_current mMultiplier (update_u16 (on_handle c (uvc_get_digital_multiplier usb ci))) uint (on_handle c (uvc_get_digital_multiplier usb ci)) c d
      else Some (0, c, d))"

definition updateDigitalMultiplierLimitLimit ::
  "'d usb \<Rightarrow> uvc_control_interface \<Rightarrow> camera \<Rightarrow> 'd \<Rightarrow> (int \<times> (int \<times> int \<times> int) option \<times> camera \<times> 'd) option" where
  [camera_defs]: "updateDigitalMultiplierLimitLimit usb ci c d =
     (if mPUSupports c AND PU_DIGITAL_LIMIT \<noteq> 0 then UPDATE_CTRL_VALUES mMultiplierLimit (update_u16 (on_handle c (uvc_get_digital_multiplier_limit usb ci))) c d
      else Some (UVC_ERROR_IO, None, c, d))"

definition setDigitalMultiplierLimit ::
  "'d usb \<Rightarrow> uvc_control_interface \<Rightarrow> int \<Rightarrow> camera \<Rightarrow> 'd \<Rightarrow> (int \<times> camera \<times> 'd) option" where
  [camera_defs]: "setDigitalMultiplierLimit usb ci multiplier_limit c d =
     (if mPUSupports c AND PU_DIGITAL_LIMIT \<noteq> 0 then with_limits mMultiplierLimit (internalSetCtrlValue_u16 (word_of_int multiplier_limit) (on_handle c (uvc_get_digital_multiplier_limit usb ci)) (on_handle c (uvc_set_digital_multiplier_limit usb ci))) c d
      else Some (UVC_ERROR_IO, c, d))"

definition getDigitalMultiplierLimit ::
  "'d usb \<Rightarrow> uvc_control_interface \<Rightarrow> camera \<Rightarrow> 'd \<Rightarrow> (int \<times> camera \<times> 'd) option" where
  [camera_defs]: "getDigitalMultiplierLimit usb ci c d =
     (if mPUSupports c AND PU_DIGITAL_LIMIT \<noteq> 0 then get_current mMultiplierLimit (update_u16 (on_handle c (uvc_get_digital_multiplier_limit usb ci))) uint (on_handle c (uvc_get_digital_multiplier_limit usb ci)) c d
      else Some (0, c, d))"

definition updateAnalogVideoStandardLimit ::
  "'d usb \<Rightarrow> uvc_control_interface \<Rightarrow> camera \<Rightarrow> 'd \<Rightarrow> (int \<times> (int \<times> int \<times> int) option \<times> camera \<times> 'd) option" where
  [camera_defs]: "updateAnalogVideoStandardLimit usb ci c d =
     (if mPUSupports c AND PU_AVIDEO_STD \<noteq> 0 then UPDATE_CTRL_VALUES mAnalogVideoStandard (update_u8 (on_handle c (uvc_get_analog_video_standard usb ci))) c d
      else Some (UVC_ERROR_IO, None, c, d))"

definition setAnalogVideoStandard ::
  "'d usb \<Rightarrow> uvc_control_interface \<Rightarrow> int \<Rightarrow> camera \<Rightarrow> 'd \<Rightarrow> (int \<times> camera \<times> 'd) option" where
  [camera_defs]: "setAnalogVideoStandard usb ci standard c d =
     (if mPUSupports c AND PU_AVIDEO_STD \<noteq> 0 then with_limits mAnalogVideoStandard (internalSetCtrlValue_u8 (word_of_int standard) (on_handle c (uvc_get_analog_video_standard usb ci)) (on_handle c (uvc_set_analog_video_standard usb ci))) c d
      else Some (UVC_ERROR_IO, c, d))"

definition getAnalogVideoStandard ::
  "'d usb \<Rightarrow> uvc_control_interface \<Rightarrow> camera \<Rightarrow> 'd \<Rightarrow> (int \<times> camera \<times> 'd) option" where
  [camera_defs]: "getAnalogVideoStandard usb ci c d =
     (if mPUSupports c AND PU_AVIDEO_STD \<noteq> 0 then get_current mAnalogVideoStandard (update_u8 (on_handle c (uvc_get_analog_video_standard usb ci))) uint (on_handle c (uvc_get_analog_video_standard usb ci)) c d
      else Some (0, c, d))"

definition updateAnalogVideoLockStateLimit ::
  "'d usb \<Rightarrow> uvc_control_interface \<Rightarrow> camera \<Rightarrow> 'd \<Rightarrow> (int \<times> (int \<times> int \<times> int) option \<times> camera \<times> 'd) option" where
  [camera_defs]: "updateAnalogVideoLockStateLimit usb ci c d =
     (if mPUSupports c AND PU_AVIDEO_LOCK \<noteq> 0 then UPDATE_CTRL_VALUES mAnalogVideoLockState (update_u8 (on_handle c (uvc_get_analog_video_lockstate usb ci))) c d
      else Some (UVC_ERROR_IO, None, c, d))"

definition setAnalogVideoLockState ::
  "'d usb \<Rightarrow> uvc_control_interface \<Rightarrow> int \<Rightarrow> camera \<Rightarrow> 'd \<Rightarrow> (int \<times> camera \<times> 'd) option" where
  [camera_defs]: "setAnalogVideoLockState usb ci state c d =
     (if mPUSupports c AND PU_AVIDEO_LOCK \<noteq> 0 then with_limits mAnalogVideoLockState (internalSetCtrlValue_u8 (word_of_int state) (on_handle c (uvc_get_analog_video_lockstate usb ci)) (on_handle c (uvc_set_analog_video_lockstate usb ci))) c d
      else Some (UVC_ERROR_IO, c, d))"

definition getAnalogVideoLockState ::
  "'d usb \<Rightarrow> uvc_control_interface \<Rightarrow> camera \<Rightarrow> 'd \<Rightarrow> (int \<times> camera \<times> 'd) option" where
  [camera_defs]: "getAnalogVideoLockState usb ci c d =
     (if mPUSupports c AND PU_AVIDEO_LOCK \<noteq> 0 then get_current mAnalogVideoLockState (update_u8 (on_handle c (uvc_get_analog_video_lockstate usb ci))) uint (on_handle c (uvc_get_analog_video_lockstate usb ci)) c d
      else Some (0, c, d))"

lemmas pantilt_defs = updatePanLimit_def setPan_def getPan_def updateTiltLimit_def setTilt_def getTilt_def getRoll_def

lemmas shape_defs = with_limits_def UPDATE_CTRL_VALUES_def get_current_def read_direct_def write_direct_def

end
