(* ===== verification/Camera_Laws.thy ===== *)
theory Camera_Laws
  imports Camera_Controls
begin

text \<open>
  The application's controls. The controls with one value, signed or not, of one or two bytes share a contract
  (\<open>limited_control\<close>): a setter sends the value clamped to the limits and a getter reads it back.
\<close>

section \<open>The contract of a control with limits\<close>

lemma clamp_cases: "clamp lo hi v \<in> {lo, hi, v}"
  by (simp add: clamp_def)

text \<open>The limits are known, and need not be asked for again.\<close>

definition limits_known :: "control_value \<Rightarrow> bool" where
  "limits_known vs \<longleftrightarrow> cv_min vs \<noteq> 0 \<or> cv_max vs \<noteq> 0"

lemma update_known: "limits_known vs \<Longrightarrow> update_ctrl_values as_int get_func vs d = Some (UVC_SUCCESS, vs, d)"
  by (auto simp: update_ctrl_values_def limits_known_def)

text \<open>An update leaves limits that are values of the control's type.\<close>

lemma update_fits:
  assumes "update_ctrl_values as_int get_func vs d = Some (0, vs', d')"
    and "\<And>w. nw (as_int w) = as_int w" and "nw (cv_min vs) = cv_min vs" and "nw (cv_max vs) = cv_max vs"
  shows "nw (cv_min vs') = cv_min vs' \<and> nw (cv_max vs') = cv_max vs'"
  using assms by (auto simp: update_ctrl_values_def read_value_def Let_def split: if_splits bind_splits option.splits)

text \<open>A row of the table of controls: member, what the device must support, narrowing of the parameter, setter, getter.\<close>

type_synonym 'd limited = "control_field \<times> (camera \<Rightarrow> bool) \<times> (int \<Rightarrow> int) \<times>
  (int \<Rightarrow> camera \<Rightarrow> 'd \<Rightarrow> (int \<times> camera \<times> 'd) option) \<times> (camera \<Rightarrow> 'd \<Rightarrow> (int \<times> camera \<times> 'd) option)"

definition stores_clamped :: "'d limited \<Rightarrow> bool" where
  "stores_clamped row \<longleftrightarrow> (case row of (f, has, nw, setm, getm) \<Rightarrow> \<forall>v c d c' d'.
     nw (cv_min (limits c f)) = cv_min (limits c f) \<and> nw (cv_max (limits c f)) = cv_max (limits c f) \<and>
     setm v c d = Some (0, c', d') \<and> limits_known (limits c' f) \<longrightarrow>
     (\<exists>d''. getm c' d' = Some (clamp (cv_min (limits c' f)) (cv_max (limits c' f)) (nw v), c', d'')))"

definition set_succeeds :: "'d limited \<Rightarrow> bool" where
  "set_succeeds row \<longleftrightarrow> (case row of (f, has, nw, setm, getm) \<Rightarrow> \<forall>v c d.
     has c \<and> mDeviceHandle c \<and> limits_known (limits c f) \<longrightarrow> (\<exists>d'. setm v c d = Some (0, c, d')))"

text \<open>A parameter narrowed to the type of the control.\<close>

definition narrow :: "('a::len word \<Rightarrow> int) \<Rightarrow> int \<Rightarrow> int" where
  "narrow as_int v = as_int (word_of_int v)"

locale limited_control =
  fixes f :: control_field
    and has :: "camera \<Rightarrow> bool"
    and err :: int
    and as_int :: "'a::len word \<Rightarrow> int"
    and ctl_unit :: "uvc_control_interface \<Rightarrow> u16 option"
    and getf :: "'d usb \<Rightarrow> uvc_control_interface \<Rightarrow> ('a word, 'd) getter"
    and setf :: "'d usb \<Rightarrow> uvc_control_interface \<Rightarrow> ('a word, 'd) setter"
    and setm :: "'d usb \<Rightarrow> uvc_control_interface \<Rightarrow> int \<Rightarrow> camera \<Rightarrow> 'd \<Rightarrow> (int \<times> camera \<times> 'd) option"
    and getm :: "'d usb \<Rightarrow> uvc_control_interface \<Rightarrow> camera \<Rightarrow> 'd \<Rightarrow> (int \<times> camera \<times> 'd) option"
  assumes word_of_as_int: "word_of_int (as_int w) = w"
    and err: "err \<noteq> 0"
    and has_limits: "has (c\<lparr>limits := l\<rparr>) = has c"
    and stored: "usb_stores usb \<Longrightarrow> ctl_unit ci = Some ri \<Longrightarrow> reads_back getf setf usb ci w d"
    and put_None: "setf usb ci w d = None \<longleftrightarrow> ctl_unit ci = None"
    and setm_eq: "setm usb ci v c d = (if has c
      then with_limits f (set_clamped (update_ctrl_values as_int (on_handle c (getf usb ci)))
        (\<lambda>vs. word_of_int (clamp (cv_min vs) (cv_max vs) (as_int (word_of_int v)))) (on_handle c (setf usb ci))) c d
      else Some (err, c, d))"
    and getm_eq: "getm usb ci c d = (if has c
      then get_current f (update_ctrl_values as_int (on_handle c (getf usb ci))) as_int (on_handle c (getf usb ci)) c d
      else Some (0, c, d))"
begin

lemma narrow_as_int: "narrow as_int (as_int w) = as_int w"
  by (simp add: narrow_def word_of_as_int)

lemma set_reads_back:
  assumes stores: "usb_stores usb" and unit: "ctl_unit ci = Some ri"
    and fits: "narrow as_int (cv_min (limits c f)) = cv_min (limits c f)" "narrow as_int (cv_max (limits c f)) = cv_max (limits c f)"
    and run: "setm usb ci v c d = Some (0, c', d')" and known: "limits_known (limits c' f)"
  shows "\<exists>d''. getm usb ci c' d' = Some (clamp (cv_min (limits c' f)) (cv_max (limits c' f)) (narrow as_int v), c', d'')"
proof -
  let ?g = "on_handle c (getf usb ci)"
  have has: "has c"
    using run err by (auto simp: setm_eq split: if_splits)
  with run obtain vs d1 r where upd: "update_ctrl_values as_int ?g (limits c f) d = Some (0, vs, d1)"
    and put: "on_handle c (setf usb ci) (word_of_int (clamp (cv_min vs) (cv_max vs) (narrow as_int v))) d1 = Some (r, d')"
    and c': "c' = c\<lparr>limits := (limits c)(f := vs)\<rparr>"
    by (auto simp: setm_eq with_limits_def set_clamped_def narrow_def split: bind_splits if_splits)
  let ?x = "clamp (cv_min vs) (cv_max vs) (narrow as_int v)"
  have "narrow as_int (cv_min vs) = cv_min vs \<and> narrow as_int (cv_max vs) = cv_max vs"
    using update_fits [OF upd] narrow_as_int fits by blast
  then have x: "as_int (word_of_int ?x) = ?x"
    using clamp_cases [of "cv_min vs" "cv_max vs" "narrow as_int v"] narrow_as_int by (auto simp: narrow_def word_of_as_int)
  have handle: "mDeviceHandle c"
    using put by (auto simp: on_handle_def split: if_splits)
  obtain d'' where "getf usb ci UVC_GET_CUR d' = Some (0, Some (word_of_int ?x), d'')"
    using reads_back_other [OF stored [OF stores unit, of "word_of_int ?x" d1]] put handle by (auto simp: on_handle_def)
  then show ?thesis
    using has known handle x
    by (intro exI [of _ d''])
      (simp add: getm_eq c' has_limits get_current_def with_limits_def update_known read_value_def on_handle_def)
qed

lemma set_succeeds_known:
  assumes "ctl_unit ci = Some ri" and "has c" and "mDeviceHandle c" and "limits_known (limits c f)"
  shows "\<exists>d'. setm usb ci v c d = Some (0, c, d')"
proof -
  obtain r d' where "setf usb ci (word_of_int (clamp (cv_min (limits c f)) (cv_max (limits c f)) (as_int (word_of_int v)))) d = Some (r, d')"
    using put_None [of usb ci _ d] assms(1) by (metis not_None_eq option.discI surj_pair)
  with assms show ?thesis
    by (simp add: setm_eq with_limits_def set_clamped_def update_known on_handle_def)
qed

lemma stores_clamped:
  "usb_stores usb \<Longrightarrow> ctl_unit ci = Some ri \<Longrightarrow> stores_clamped (f, has, narrow as_int, setm usb ci, getm usb ci)"
  unfolding stores_clamped_def split_conv using set_reads_back by blast

lemma set_succeeds: "ctl_unit ci = Some ri \<Longrightarrow> set_succeeds (f, has, narrow as_int, setm usb ci, getm usb ci)"
  unfolding set_succeeds_def split_conv using set_succeeds_known by blast

end

section \<open>The controls\<close>

interpretation app_focus_abs: limited_control mFocus "\<lambda>c. mCtrlSupports c AND CTRL_FOCUS_ABS \<noteq> 0" UVC_ERROR_ACCESS "sint :: u16 \<Rightarrow> int"
  camera_unit "uvc_get_focus_abs" "uvc_set_focus_abs" "setFocus" "getFocus"
  by unfold_locales (simp_all add: focus_abs.reads_back focus_abs.put_None setFocus_def getFocus_def internal_defs overload_defs)

interpretation app_iris_abs: limited_control mIris "\<lambda>c. mCtrlSupports c AND CTRL_IRIS_ABS \<noteq> 0" UVC_ERROR_ACCESS "uint :: u16 \<Rightarrow> int"
  camera_unit "uvc_get_iris_abs" "uvc_set_iris_abs" "setIris" "getIris"
  by unfold_locales (simp_all add: iris_abs.reads_back iris_abs.put_None setIris_def getIris_def internal_defs overload_defs)

interpretation app_iris_rel: limited_control mIris "\<lambda>c. mCtrlSupports c AND CTRL_IRIS_REL \<noteq> 0" UVC_ERROR_ACCESS "uint :: u8 \<Rightarrow> int"
  camera_unit "uvc_get_iris_rel" "uvc_set_iris_rel" "setIrisRel" "getIrisRel"
  by unfold_locales (simp_all add: iris_rel.reads_back iris_rel.put_None setIrisRel_def getIrisRel_def internal_defs overload_defs)

interpretation app_privacy: limited_control mPrivacy "\<lambda>c. mCtrlSupports c AND CTRL_PRIVACY \<noteq> 0" UVC_ERROR_ACCESS "uint :: u8 \<Rightarrow> int"
  camera_unit "uvc_get_privacy" "uvc_set_privacy" "setPrivacy" "getPrivacy"
  by unfold_locales (simp_all add: privacy.reads_back privacy.put_None setPrivacy_def getPrivacy_def internal_defs overload_defs)

interpretation app_backlight_compensation: limited_control mBacklightComp "\<lambda>c. mPUSupports c AND PU_BACKLIGHT \<noteq> 0" UVC_ERROR_IO "sint :: u16 \<Rightarrow> int"
  processing_unit "uvc_get_backlight_compensation" "uvc_set_backlight_compensation" "setBacklightComp" "getBacklightComp"
  by unfold_locales (simp_all add: backlight_compensation.reads_back backlight_compensation.put_None setBacklightComp_def getBacklightComp_def internal_defs overload_defs)

interpretation app_brightness: limited_control mBrightness "\<lambda>c. mPUSupports c AND PU_BRIGHTNESS \<noteq> 0" UVC_ERROR_IO "sint :: u16 \<Rightarrow> int"
  processing_unit "uvc_get_brightness" "uvc_set_brightness" "setBrightness" "getBrightness"
  by unfold_locales (simp_all add: brightness.reads_back brightness.put_None setBrightness_def getBrightness_def internal_defs overload_defs)

interpretation app_contrast: limited_control mContrast "\<lambda>c. mPUSupports c AND PU_CONTRAST \<noteq> 0" UVC_ERROR_IO "uint :: u16 \<Rightarrow> int"
  processing_unit "uvc_get_contrast" "uvc_set_contrast" "setContrast" "getContrast"
  by unfold_locales (simp_all add: contrast.reads_back contrast.put_None setContrast_def getContrast_def internal_defs overload_defs)

interpretation app_sharpness: limited_control mSharpness "\<lambda>c. mPUSupports c AND PU_SHARPNESS \<noteq> 0" UVC_ERROR_IO "uint :: u16 \<Rightarrow> int"
  processing_unit "uvc_get_sharpness" "uvc_set_sharpness" "setSharpness" "getSharpness"
  by unfold_locales (simp_all add: sharpness.reads_back sharpness.put_None setSharpness_def getSharpness_def internal_defs overload_defs)

interpretation app_gain: limited_control mGain "\<lambda>c. mPUSupports c AND PU_GAIN \<noteq> 0" UVC_ERROR_IO "uint :: u16 \<Rightarrow> int"
  processing_unit "uvc_get_gain" "uvc_set_gain" "setGain" "getGain"
  by unfold_locales (simp_all add: gain.reads_back gain.put_None setGain_def getGain_def internal_defs overload_defs)

interpretation app_white_balance_temperature: limited_control mWhiteBlance "\<lambda>c. mPUSupports c AND PU_WB_TEMP \<noteq> 0" UVC_ERROR_IO "uint :: u16 \<Rightarrow> int"
  processing_unit "uvc_get_white_balance_temperature" "uvc_set_white_balance_temperature" "setWhiteBlance" "getWhiteBlance"
  by unfold_locales (simp_all add: white_balance_temperature.reads_back white_balance_temperature.put_None setWhiteBlance_def getWhiteBlance_def internal_defs overload_defs)

interpretation app_gamma: limited_control mGamma "\<lambda>c. mPUSupports c AND PU_GAMMA \<noteq> 0" UVC_ERROR_IO "uint :: u16 \<Rightarrow> int"
  processing_unit "uvc_get_gamma" "uvc_set_gamma" "setGamma" "getGamma"
  by unfold_locales (simp_all add: gamma.reads_back gamma.put_None setGamma_def getGamma_def internal_defs overload_defs)

interpretation app_saturation: limited_control mSaturation "\<lambda>c. mPUSupports c AND PU_SATURATION \<noteq> 0" UVC_ERROR_IO "uint :: u16 \<Rightarrow> int"
  processing_unit "uvc_get_saturation" "uvc_set_saturation" "setSaturation" "getSaturation"
  by unfold_locales (simp_all add: saturation.reads_back saturation.put_None setSaturation_def getSaturation_def internal_defs overload_defs)

interpretation app_hue: limited_control mHue "\<lambda>c. mPUSupports c AND PU_HUE \<noteq> 0" UVC_ERROR_IO "sint :: u16 \<Rightarrow> int"
  processing_unit "uvc_get_hue" "uvc_set_hue" "setHue" "getHue"
  by unfold_locales (simp_all add: hue.reads_back hue.put_None setHue_def getHue_def internal_defs overload_defs)

interpretation app_zoom_abs: limited_control mZoom "\<lambda>c. mCtrlSupports c AND CTRL_ZOOM_ABS \<noteq> 0" UVC_ERROR_IO "uint :: u16 \<Rightarrow> int"
  camera_unit "uvc_get_zoom_abs" "uvc_set_zoom_abs" "setZoom" "getZoom"
  by unfold_locales (simp_all add: zoom_abs.reads_back zoom_abs.put_None setZoom_def getZoom_def internal_defs overload_defs)

interpretation app_digital_multiplier: limited_control mMultiplier "\<lambda>c. mPUSupports c AND PU_DIGITAL_MULT \<noteq> 0" UVC_ERROR_IO "uint :: u16 \<Rightarrow> int"
  processing_unit "uvc_get_digital_multiplier" "uvc_set_digital_multiplier" "setDigitalMultiplier" "getDigitalMultiplier"
  by unfold_locales (simp_all add: digital_multiplier.reads_back digital_multiplier.put_None setDigitalMultiplier_def getDigitalMultiplier_def internal_defs overload_defs)

interpretation app_digital_multiplier_limit: limited_control mMultiplierLimit "\<lambda>c. mPUSupports c AND PU_DIGITAL_LIMIT \<noteq> 0" UVC_ERROR_IO "uint :: u16 \<Rightarrow> int"
  processing_unit "uvc_get_digital_multiplier_limit" "uvc_set_digital_multiplier_limit" "setDigitalMultiplierLimit" "getDigitalMultiplierLimit"
  by unfold_locales (simp_all add: digital_multiplier_limit.reads_back digital_multiplier_limit.put_None setDigitalMultiplierLimit_def getDigitalMultiplierLimit_def internal_defs overload_defs)

interpretation app_analog_video_standard: limited_control mAnalogVideoStandard "\<lambda>c. mPUSupports c AND PU_AVIDEO_STD \<noteq> 0" UVC_ERROR_IO "uint :: u8 \<Rightarrow> int"
  processing_unit "uvc_get_analog_video_standard" "uvc_set_analog_video_standard" "setAnalogVideoStandard" "getAnalogVideoStandard"
  by unfold_locales (simp_all add: analog_video_standard.reads_back analog_video_standard.put_None setAnalogVideoStandard_def getAnalogVideoStandard_def internal_defs overload_defs)

interpretation app_analog_video_lockstate: limited_control mAnalogVideoLockState "\<lambda>c. mPUSupports c AND PU_AVIDEO_LOCK \<noteq> 0" UVC_ERROR_IO "uint :: u8 \<Rightarrow> int"
  processing_unit "uvc_get_analog_video_lockstate" "uvc_set_analog_video_lockstate" "setAnalogVideoLockState" "getAnalogVideoLockState"
  by unfold_locales (simp_all add: analog_video_lockstate.reads_back analog_video_lockstate.put_None setAnalogVideoLockState_def getAnalogVideoLockState_def internal_defs overload_defs)

text \<open>The table of these controls.\<close>

definition limited_controls :: "'d usb \<Rightarrow> uvc_control_interface \<Rightarrow> 'd limited list" where
  "limited_controls usb ci =
     [(mFocus, \<lambda>c. mCtrlSupports c AND CTRL_FOCUS_ABS \<noteq> 0, narrow (sint :: u16 \<Rightarrow> int), setFocus usb ci, getFocus usb ci),
      (mIris, \<lambda>c. mCtrlSupports c AND CTRL_IRIS_ABS \<noteq> 0, narrow (uint :: u16 \<Rightarrow> int), setIris usb ci, getIris usb ci),
      (mIris, \<lambda>c. mCtrlSupports c AND CTRL_IRIS_REL \<noteq> 0, narrow (uint :: u8 \<Rightarrow> int), setIrisRel usb ci, getIrisRel usb ci),
      (mPrivacy, \<lambda>c. mCtrlSupports c AND CTRL_PRIVACY \<noteq> 0, narrow (uint :: u8 \<Rightarrow> int), setPrivacy usb ci, getPrivacy usb ci),
      (mBacklightComp, \<lambda>c. mPUSupports c AND PU_BACKLIGHT \<noteq> 0, narrow (sint :: u16 \<Rightarrow> int), setBacklightComp usb ci, getBacklightComp usb ci),
      (mBrightness, \<lambda>c. mPUSupports c AND PU_BRIGHTNESS \<noteq> 0, narrow (sint :: u16 \<Rightarrow> int), setBrightness usb ci, getBrightness usb ci),
      (mContrast, \<lambda>c. mPUSupports c AND PU_CONTRAST \<noteq> 0, narrow (uint :: u16 \<Rightarrow> int), setContrast usb ci, getContrast usb ci),
      (mSharpness, \<lambda>c. mPUSupports c AND PU_SHARPNESS \<noteq> 0, narrow (uint :: u16 \<Rightarrow> int), setSharpness usb ci, getSharpness usb ci),
      (mGain, \<lambda>c. mPUSupports c AND PU_GAIN \<noteq> 0, narrow (uint :: u16 \<Rightarrow> int), setGain usb ci, getGain usb ci),
      (mWhiteBlance, \<lambda>c. mPUSupports c AND PU_WB_TEMP \<noteq> 0, narrow (uint :: u16 \<Rightarrow> int), setWhiteBlance usb ci, getWhiteBlance usb ci),
      (mGamma, \<lambda>c. mPUSupports c AND PU_GAMMA \<noteq> 0, narrow (uint :: u16 \<Rightarrow> int), setGamma usb ci, getGamma usb ci),
      (mSaturation, \<lambda>c. mPUSupports c AND PU_SATURATION \<noteq> 0, narrow (uint :: u16 \<Rightarrow> int), setSaturation usb ci, getSaturation usb ci),
      (mHue, \<lambda>c. mPUSupports c AND PU_HUE \<noteq> 0, narrow (sint :: u16 \<Rightarrow> int), setHue usb ci, getHue usb ci),
      (mZoom, \<lambda>c. mCtrlSupports c AND CTRL_ZOOM_ABS \<noteq> 0, narrow (uint :: u16 \<Rightarrow> int), setZoom usb ci, getZoom usb ci),
      (mMultiplier, \<lambda>c. mPUSupports c AND PU_DIGITAL_MULT \<noteq> 0, narrow (uint :: u16 \<Rightarrow> int), setDigitalMultiplier usb ci, getDigitalMultiplier usb ci),
      (mMultiplierLimit, \<lambda>c. mPUSupports c AND PU_DIGITAL_LIMIT \<noteq> 0, narrow (uint :: u16 \<Rightarrow> int), setDigitalMultiplierLimit usb ci, getDigitalMultiplierLimit usb ci),
      (mAnalogVideoStandard, \<lambda>c. mPUSupports c AND PU_AVIDEO_STD \<noteq> 0, narrow (uint :: u8 \<Rightarrow> int), setAnalogVideoStandard usb ci, getAnalogVideoStandard usb ci),
      (mAnalogVideoLockState, \<lambda>c. mPUSupports c AND PU_AVIDEO_LOCK \<noteq> 0, narrow (uint :: u8 \<Rightarrow> int), setAnalogVideoLockState usb ci, getAnalogVideoLockState usb ci)]"

lemmas controls_stored = app_focus_abs.stores_clamped
  app_iris_abs.stores_clamped
  app_iris_rel.stores_clamped
  app_privacy.stores_clamped
  app_backlight_compensation.stores_clamped
  app_brightness.stores_clamped
  app_contrast.stores_clamped
  app_sharpness.stores_clamped
  app_gain.stores_clamped
  app_white_balance_temperature.stores_clamped
  app_gamma.stores_clamped
  app_saturation.stores_clamped
  app_hue.stores_clamped
  app_zoom_abs.stores_clamped
  app_digital_multiplier.stores_clamped
  app_digital_multiplier_limit.stores_clamped
  app_analog_video_standard.stores_clamped
  app_analog_video_lockstate.stores_clamped

lemmas controls_succeed = app_focus_abs.set_succeeds
  app_iris_abs.set_succeeds
  app_iris_rel.set_succeeds
  app_privacy.set_succeeds
  app_backlight_compensation.set_succeeds
  app_brightness.set_succeeds
  app_contrast.set_succeeds
  app_sharpness.set_succeeds
  app_gain.set_succeeds
  app_white_balance_temperature.set_succeeds
  app_gamma.set_succeeds
  app_saturation.set_succeeds
  app_hue.set_succeeds
  app_zoom_abs.set_succeeds
  app_digital_multiplier.set_succeeds
  app_digital_multiplier_limit.set_succeeds
  app_analog_video_standard.set_succeeds
  app_analog_video_lockstate.set_succeeds

lemma limited_controls_stored:
  assumes "usb_stores usb" and "camera_unit ci = Some ri" and "processing_unit ci = Some rp"
  shows "list_all stores_clamped (limited_controls usb ci)"
  unfolding limited_controls_def list.pred_inject
  by (intro conjI) ((rule controls_stored, fact assms, fact assms) | simp)+

lemma limited_controls_succeed:
  assumes "camera_unit ci = Some ri" and "processing_unit ci = Some rp"
  shows "list_all set_succeeds (limited_controls usb ci)"
  unfolding limited_controls_def list.pred_inject
  by (intro conjI) ((rule controls_succeed, fact assms) | simp)+

text \<open>C36. For each of the 18 one-value controls: when a set reports success on a device that stores what it is sent, a get right after it
  returns the value asked for, narrowed to the type of the control and clamped to the limits the object now holds.\<close>

theorem set_clamps_and_reads_back:
  assumes "usb_stores usb" and "camera_unit ci = Some ri" and "processing_unit ci = Some rp"
    and "(f, has, nw, setm, getm) \<in> set (limited_controls usb ci)"
    and "nw (cv_min (limits c f)) = cv_min (limits c f)" and "nw (cv_max (limits c f)) = cv_max (limits c f)"
    and "setm v c d = Some (0, c', d')" and "limits_known (limits c' f)"
  shows "\<exists>d''. getm c' d' = Some (clamp (cv_min (limits c' f)) (cv_max (limits c' f)) (nw v), c', d'')"
  using limited_controls_stored [OF assms(1-3)] assms(4-8) unfolding list_all_iff stores_clamped_def by fast

text \<open>A closed camera; and one with a device whose brightness runs from -10 to 20.\<close>

definition no_camera :: camera where
  "no_camera = \<lparr>mDeviceHandle = False, mCtrlSupports = 0, mPUSupports = 0,
     limits = (\<lambda>_. \<lparr>cv_min = 0, cv_max = 0, cv_def = 0, cv_current = -1\<rparr>)\<rparr>"

definition demo_camera :: camera where
  "demo_camera = \<lparr>mDeviceHandle = True, mCtrlSupports = CTRL_PANTILT_ABS, mPUSupports = 0xFFFFFF,
     limits = (\<lambda>_. \<lparr>cv_min = -10, cv_max = 20, cv_def = 5, cv_current = -1\<rparr>)\<rparr>"

definition demo_units :: uvc_control_interface where
  "demo_units = one_camera\<lparr>processing_unit_descs := processing_unit_descs one_processing\<rparr>"

lemma demo_units: "camera_unit demo_units = Some 0x100" "processing_unit demo_units = Some 0x200"
  by (simp_all add: demo_units_def one_camera_def one_processing_def camera_unit_def processing_unit_def)

lemma brightness_row:
  "(mBrightness, \<lambda>c. mPUSupports c AND PU_BRIGHTNESS \<noteq> 0, narrow (sint :: u16 \<Rightarrow> int), setBrightness usb ci, getBrightness usb ci)
     \<in> set (limited_controls usb ci)"
  by (simp add: limited_controls_def)

lemma demo_known: "limits_known (limits demo_camera f)"
  by (simp add: demo_camera_def limits_known_def)

theorem set_clamps_and_reads_back_witness:
  "\<exists>d' d''. setBrightness mem_usb demo_units 100 demo_camera (\<lambda>_. []) = Some (0, demo_camera, d') \<and>
     getBrightness mem_usb demo_units demo_camera d' = Some (20, demo_camera, d'')"
proof -
  obtain d' where d': "setBrightness mem_usb demo_units 100 demo_camera (\<lambda>_. []) = Some (0, demo_camera, d')"
    using app_brightness.set_succeeds_known [OF demo_units(2) _ _ demo_known] by (force simp: demo_camera_def)
  moreover have "\<exists>d''. getBrightness mem_usb demo_units demo_camera d' = Some (20, demo_camera, d'')"
    using set_clamps_and_reads_back [OF mem_usb_stores demo_units brightness_row _ _ d' demo_known]
    by (simp add: demo_camera_def narrow_def clamp_def)
  ultimately show ?thesis
    by blast
qed

text \<open>Once the limits are known, each of these setters reports success whatever the device answers: that a transfer was refused, or
  that the device is gone, is not reported.\<close>

theorem set_reports_success:
  assumes "camera_unit ci = Some ri" and "processing_unit ci = Some rp"
    and "(f, has, nw, setm, getm) \<in> set (limited_controls usb ci)"
    and "has c" and "mDeviceHandle c" and "limits_known (limits c f)"
  shows "\<exists>d'. setm v c d = Some (0, c, d')"
  using limited_controls_succeed [OF assms(1,2)] assms(3-6) unfolding list_all_iff set_succeeds_def by fast

definition dead_usb :: "unit usb" where
  "dead_usb = \<lparr>usb_in = (\<lambda>t q v i n d. (-4, [], d)), usb_out = (\<lambda>t q v i bs d. (-4, d))\<rparr>"

theorem set_reports_success_witness:
  "setBrightness dead_usb demo_units 3 demo_camera () = Some (0, demo_camera, ())"
  using set_reports_success [where v = 3 and d = "()", OF demo_units brightness_row [where usb = dead_usb] _ _ demo_known]
  by (simp add: demo_camera_def)

end
