(* ===== verification/Camera_Errors.thy ===== *)
theory Camera_Errors
  imports Camera_Laws
begin

text \<open>
  What the application's controls do when a request fails, the device is gone or the value asked for is unusual.
\<close>

section \<open>A closed camera\<close>

text \<open>All methods.\<close>

definition limit_methods :: "'d usb \<Rightarrow> uvc_control_interface \<Rightarrow> (camera \<Rightarrow> 'd \<Rightarrow> (int \<times> (int \<times> int \<times> int) option \<times> camera \<times> 'd) option) list" where
  "limit_methods usb ci =
     [updateScanningModeLimit usb ci, updateExposureModeLimit usb ci, updateExposurePriorityLimit usb ci, updateExposureLimit usb ci,
      updateExposureRelLimit usb ci, updateAutoFocusLimit usb ci, updateFocusLimit usb ci, updateFocusRelLimit usb ci,
      updateIrisLimit usb ci, updateIrisRelLimit usb ci, updatePanLimit usb ci, updateTiltLimit usb ci, updateRollLimit usb ci,
      updatePanRelLimit usb ci, updateTiltRelLimit usb ci, updateRollRelLimit usb ci, updatePrivacyLimit usb ci,
      updateBacklightCompLimit usb ci, updateBrightnessLimit usb ci, updateContrastLimit usb ci, updateAutoContrastLimit usb ci,
      updateSharpnessLimit usb ci, updateGainLimit usb ci, updateAutoWhiteBlanceLimit usb ci, updateAutoWhiteBlanceCompoLimit usb ci,
      updateWhiteBlanceLimit usb ci, updateWhiteBlanceCompoLimit usb ci, updateGammaLimit usb ci, updateSaturationLimit usb ci,
      updateHueLimit usb ci, updateAutoHueLimit usb ci, updatePowerlineFrequencyLimit usb ci, updateZoomLimit usb ci,
      updateZoomRelLimit usb ci, updateDigitalMultiplierLimit usb ci, updateDigitalMultiplierLimitLimit usb ci,
      updateAnalogVideoStandardLimit usb ci, updateAnalogVideoLockStateLimit usb ci]"

definition int_setters :: "'d usb \<Rightarrow> uvc_control_interface \<Rightarrow> (int \<Rightarrow> camera \<Rightarrow> 'd \<Rightarrow> (int \<times> camera \<times> 'd) option) list" where
  "int_setters usb ci =
     [setScanningMode usb ci, setExposureMode usb ci, setExposurePriority usb ci, setExposure usb ci, setExposureRel usb ci,
      setFocus usb ci, setFocusRel usb ci, setIris usb ci, setIrisRel usb ci, setPan usb ci, setTilt usb ci, setRoll usb ci,
      setPanRel usb ci, setTiltRel usb ci, setRollRel usb ci, setPrivacy usb ci, setBacklightComp usb ci, setBrightness usb ci,
      setContrast usb ci, setSharpness usb ci, setGain usb ci, setWhiteBlance usb ci, setWhiteBlanceCompo usb ci, setGamma usb ci,
      setSaturation usb ci, setHue usb ci, setPowerlineFrequency usb ci, setZoom usb ci, setZoomRel usb ci, setDigitalMultiplier usb ci,
      setDigitalMultiplierLimit usb ci, setAnalogVideoStandard usb ci, setAnalogVideoLockState usb ci]"

definition bool_setters :: "'d usb \<Rightarrow> uvc_control_interface \<Rightarrow> (bool \<Rightarrow> camera \<Rightarrow> 'd \<Rightarrow> (int \<times> camera \<times> 'd) option) list" where
  "bool_setters usb ci =
     [setAutoFocus usb ci, setAutoContrast usb ci, setAutoWhiteBlance usb ci, setAutoWhiteBlanceCompo usb ci, setAutoHue usb ci]"

definition int_getters :: "'d usb \<Rightarrow> uvc_control_interface \<Rightarrow> (camera \<Rightarrow> 'd \<Rightarrow> (int \<times> camera \<times> 'd) option) list" where
  "int_getters usb ci =
     [getScanningMode usb ci, getExposureMode usb ci, getExposurePriority usb ci, getExposure usb ci, getExposureRel usb ci,
      getFocus usb ci, getFocusRel usb ci, getIris usb ci, getIrisRel usb ci, getPan usb ci, getTilt usb ci, getRoll usb ci,
      getPanRel usb ci, getTiltRel usb ci, getRollRel usb ci, getPrivacy usb ci, getBacklightComp usb ci, getBrightness usb ci,
      getContrast usb ci, getSharpness usb ci, getGain usb ci, getWhiteBlance usb ci, getWhiteBlanceCompo usb ci, getGamma usb ci,
      getSaturation usb ci, getHue usb ci, getPowerlineFrequency usb ci, getZoom usb ci, getZoomRel usb ci, getDigitalMultiplier usb ci,
      getDigitalMultiplierLimit usb ci, getAnalogVideoStandard usb ci, getAnalogVideoLockState usb ci]"

definition bool_getters :: "'d usb \<Rightarrow> uvc_control_interface \<Rightarrow> (camera \<Rightarrow> 'd \<Rightarrow> (bool \<times> camera \<times> 'd) option) list" where
  "bool_getters usb ci =
     [getAutoFocus usb ci, getAutoContrast usb ci, getAutoWhiteBlance usb ci, getAutoWhiteBlanceCompo usb ci, getAutoHue usb ci]"

lemmas method_tables = limit_methods_def int_setters_def bool_setters_def int_getters_def bool_getters_def

lemmas method_defs = camera_defs pantilt_defs setPowerlineFrequency_def getPowerlineFrequency_def

definition closed :: "camera \<Rightarrow> bool" where
  "closed c \<longleftrightarrow> \<not> mDeviceHandle c \<and> mCtrlSupports c = 0 \<and> mPUSupports c = 0"

lemma closed_clear: "\<not> mDeviceHandle c \<Longrightarrow> closed (clearCameraParams c)"
  by (simp add: closed_def clearCameraParams_def)

text \<open>On a camera that is not open no method touches the device or the missing handle: every limit query and every setter returns an
  error code, every \<open>int\<close> getter zero or an error code, with the object unchanged. The \<open>bool\<close> getters, which turn their
  error code into a truth value, all answer true.\<close>

theorem closed_camera:
  assumes "closed c"
  shows "list_all (\<lambda>m. \<exists>e < 0. m c d = Some (e, None, c, d)) (limit_methods usb ci) \<and>
    list_all (\<lambda>m. \<exists>e < 0. m v c d = Some (e, c, d)) (int_setters usb ci) \<and>
    list_all (\<lambda>m. \<exists>e < 0. m b c d = Some (e, c, d)) (bool_setters usb ci) \<and>
    list_all (\<lambda>m. \<exists>e \<le> 0. m c d = Some (e, c, d)) (int_getters usb ci) \<and>
    list_all (\<lambda>m. m c d = Some (True, c, d)) (bool_getters usb ci)"
  using assms by (simp add: method_tables method_defs closed_def)

theorem closed_camera_witness:
  "setZoom dead_usb demo_units 3 no_camera () = Some (UVC_ERROR_IO, no_camera, ()) \<and>
   getAutoFocus dead_usb demo_units no_camera () = Some (True, no_camera, ())"
proof -
  have "closed no_camera"
    by (simp add: closed_def no_camera_def)
  from closed_camera [OF this, of "()" dead_usb demo_units 3 True] show ?thesis
    by (simp add: bool_getters_def setZoom_def no_camera_def)
qed

section \<open>Limits read by half\<close>

text \<open>When the minimum of the brightness was read, is not 0, and the query of the maximum fails, the first query of the limits reports the
  failure but keeps the minimum. From then on the limits count as known: every later query succeeds without asking the device, with a
  maximum of 0 no device ever reported, and every set is clamped to it.\<close>

theorem half_read_limits:
  fixes usb :: "'d usb"
  assumes has: "mPUSupports c AND PU_BRIGHTNESS \<noteq> 0" and handle: "mDeviceHandle c" and fresh: "\<not> limits_known (limits c mBrightness)"
    and min: "uvc_get_brightness usb ci UVC_GET_MIN d = Some (0, Some w, d1)" "w \<noteq> 0"
    and max: "uvc_get_brightness usb ci UVC_GET_MAX d1 = Some (e, out, d2)" "e \<noteq> 0"
  shows "\<exists>c'. updateBrightnessLimit usb ci c d = Some (e, None, c', d2) \<and>
    (\<forall>(usb' :: 'd usb) d'. updateBrightnessLimit usb' ci c' d' = Some (0, Some (sint w, 0, cv_def (limits c mBrightness)), c', d')) \<and>
    (\<forall>(usb' :: 'd usb) v d'. setBrightness usb' ci v c' d' = do {
       (_, d') \<leftarrow> uvc_set_brightness usb' ci (word_of_int (clamp (sint w) 0 (narrow (sint :: u16 \<Rightarrow> int) v))) d';
       Some (0, c', d') })"
proof -
  let ?vs = "(limits c mBrightness)\<lparr>cv_min := sint w\<rparr>"
  let ?c = "c\<lparr>limits := (limits c)(mBrightness := ?vs)\<rparr>"
  have w: "sint w \<noteq> 0"
    using min(2) by (metis signed_eq_0_iff)
  have max0: "cv_max (limits c mBrightness) = 0"
    using fresh by (simp add: limits_known_def)
  have "update_ctrl_values sint (on_handle c (uvc_get_brightness usb ci)) (limits c mBrightness) d = Some (e, ?vs, d2)"
    using fresh min max handle by (simp add: update_ctrl_values_def read_value_def on_handle_def limits_known_def)
  then have "updateBrightnessLimit usb ci c d = Some (e, None, ?c, d2)"
    using has max(2) by (simp add: camera_defs overload_defs shape_defs)
  moreover have known: "update_ctrl_values sint g ?vs d' = Some (0, ?vs, d')" for g :: "(u16, 'd) getter" and d'
    using w by (intro update_known) (simp add: limits_known_def)
  have "updateBrightnessLimit usb' ci ?c d' = Some (0, Some (sint w, 0, cv_def (limits c mBrightness)), ?c, d')" for usb' :: "'d usb" and d'
    using has max0 by (simp add: camera_defs overload_defs shape_defs known)
  moreover have "setBrightness usb' ci v ?c d' = do {
       (_, d') \<leftarrow> uvc_set_brightness usb' ci (word_of_int (clamp (sint w) 0 (narrow (sint :: u16 \<Rightarrow> int) v))) d';
       Some (0, ?c, d') }" for usb' :: "'d usb" and v d'
    using has max0 handle
    by (cases "uvc_set_brightness usb' ci (word_of_int (clamp (sint w) 0 (narrow (sint :: u16 \<Rightarrow> int) v))) d'")
      (simp_all add: camera_defs internal_defs overload_defs shape_defs set_clamped_def known on_handle_def narrow_def split_def)
  ultimately show ?thesis
    by blast
qed

text \<open>A device that knows its minima only.\<close>

definition min_only_usb :: "unit usb" where
  "min_only_usb = \<lparr>usb_in = (\<lambda>t q v i n d. if q = UVC_GET_MIN then (2, SHORT_TO_SW 0xFFF6, d) else (-1, [], d)),
     usb_out = (\<lambda>t q v i bs d. (int (length bs), d))\<rparr>"

definition open_camera :: camera where
  "open_camera = no_camera\<lparr>mDeviceHandle := True, mPUSupports := 0xFFFFFF\<rparr>"

theorem half_read_limits_witness:
  "\<exists>c'. updateBrightnessLimit min_only_usb demo_units open_camera () = Some (-1, None, c', ()) \<and>
    updateBrightnessLimit min_only_usb demo_units c' () = Some (0, Some (-10, 0, 0), c', ()) \<and>
    setBrightness dead_usb demo_units 15 c' () = Some (0, c', ())"
proof -
  have g: "uvc_get_brightness min_only_usb demo_units UVC_GET_MIN () = Some (0, Some 0xFFF6, ())"
    "uvc_get_brightness min_only_usb demo_units UVC_GET_MAX () = Some (-1, None, ())"
    by (simp_all add: uvc_get_brightness_def demo_units ctrl_get_def min_only_usb_def)
  have p: "uvc_set_brightness dead_usb demo_units x () = Some (-4, ())" for x
    by (simp add: uvc_set_brightness_def demo_units ctrl_set_def dead_usb_def SHORT_TO_SW_def)
  show ?thesis
    using half_read_limits [of open_camera min_only_usb demo_units "()" "0xFFF6" "()" "-1" None "()"] g p
    by (auto simp: open_camera_def no_camera_def limits_known_def)
qed

section \<open>Power line frequency\<close>

text \<open>A negative frequency asks for the default of the device, but none is ever set: when the default was read the method returns
  success without setting it, and when it could not be read it goes on with a variable nothing was written to.\<close>

theorem negative_powerline:
  assumes "mPUSupports c AND PU_POWER_LF \<noteq> 0" and "mDeviceHandle c" and "processing_unit ci = Some ri" and "frequency < 0"
    and "usb_in usb REQ_TYPE_GET UVC_GET_DEF (push_bit 8 UVC_PU_POWER_LINE_FREQUENCY_CONTROL) ri 1 d = (r, data, d1)"
  shows "setPowerlineFrequency usb ci frequency c d = (if r = 0 \<or> r = 1 then Some (0, c, d1) else None)"
  using assms by (simp add: setPowerlineFrequency_def on_handle_def uvc_get_powerline_freqency_def ctrl_get_def)

theorem negative_powerline_witness:
  "setPowerlineFrequency min_only_usb demo_units (-1) open_camera () = None"
  using negative_powerline [of open_camera demo_units "0x200" "-1" min_only_usb "()" "-1" "[]" "()"]
  by (simp add: open_camera_def no_camera_def demo_units min_only_usb_def)

section \<open>Pan and tilt\<close>

lemma pantilt_known:
  assumes "limits_known (limits c mPan)" and "limits_known (limits c mTilt)"
  shows "pantilt_limits usb ci c d = Some (0, c, d)"
proof -
  have "(limits c)(mPan := limits c mPan, mTilt := limits c mTilt) = limits c"
    by simp
  then show ?thesis
    using assms by (auto simp: pantilt_limits_def update_i32i32_def limits_known_def)
qed

lemma setPan_sent:
  assumes "limits_known (limits c mPan)" and "limits_known (limits c mTilt)" and "setPan usb ci pan c d = Some (0, c', d')"
  shows "send_pantilt usb ci (clamp (cv_min (limits c mPan)) (cv_max (limits c mPan)) pan) (last_known (limits c mTilt)) c d = Some (0, c', d')"
  using assms by (auto simp: setPan_def pantilt_known split: if_splits)

lemma setTilt_sent:
  assumes "limits_known (limits c mPan)" and "limits_known (limits c mTilt)" and "setTilt usb ci tilt c d = Some (0, c', d')"
  shows "send_pantilt usb ci (last_known (limits c mPan)) (clamp (cv_min (limits c mTilt)) (cv_max (limits c mTilt)) tilt) c d = Some (0, c', d')"
  using assms by (auto simp: setTilt_def pantilt_known split: if_splits)

lemma send_pantilt_kept:
  assumes "send_pantilt usb ci pan tilt c d = Some (0, c', d')"
  shows "c' = keep_pantilt pan tilt c" and "mDeviceHandle c" and
    "uvc_set_pantilt_abs usb ci (word_of_int pan) (word_of_int tilt) d = Some (0, d')"
  using assms by (auto simp: send_pantilt_def on_handle_def split: if_splits bind_splits)

lemma keep_pantilt_known:
  "limits_known (limits (keep_pantilt pan tilt c) f) = limits_known (limits c f)"
  by (simp add: keep_pantilt_def limits_known_def)

text \<open>After a send that succeeded, a device that stores what it is sent answers with the pan that was sent.\<close>

lemma pan_reads_back:
  assumes stores: "usb_stores usb" and known: "limits_known (limits c mPan)" "limits_known (limits c mTilt)"
    and has: "mCtrlSupports c AND CTRL_PANTILT_ABS \<noteq> 0"
    and sent: "send_pantilt usb ci pan tilt c d = Some (0, c', d')"
  shows "\<exists>c'' d''. getPan usb ci c' d' = Some (narrow (sint :: u32 \<Rightarrow> int) pan, c'', d'')"
proof -
  note kept = send_pantilt_kept [OF sent]
  obtain ri where "camera_unit ci = Some ri"
    using pantilt_abs.put_None [of usb ci "(word_of_int pan, word_of_int tilt)" d] kept(3) by auto
  from reads_back_other [OF pantilt_abs.reads_back [OF stores this TrueI, of "(word_of_int pan, word_of_int tilt)" d]] kept(3)
  obtain d'' where "uvc_get_pantilt_abs usb ci UVC_GET_CUR d' = Some (0, Some (word_of_int pan, word_of_int tilt), d'')"
    by auto
  moreover have "limits_known (limits c' mPan)" "limits_known (limits c' mTilt)" "mCtrlSupports c' = mCtrlSupports c"
    "mDeviceHandle c'"
    using known kept by (simp_all add: keep_pantilt_known) (simp_all add: keep_pantilt_def)
  ultimately show ?thesis
    using has by (simp add: getPan_def pantilt_known read_values_def on_handle_def narrow_def)
qed

text \<open>Setting the tilt sends the pan along as last set, except that a negative one counts as unknown: a camera turned to the left of its
  centre goes back to its default pan when it is tilted, and reads back so.\<close>

theorem pan_lost_by_tilt:
  assumes "usb_stores usb" and "limits_known (limits c mPan)" and "limits_known (limits c mTilt)"
    and "setPan usb ci pan c d = Some (0, c1, d1)" and "setTilt usb ci tilt c1 d1 = Some (0, c2, d2)"
    and "q = clamp (cv_min (limits c mPan)) (cv_max (limits c mPan)) pan"
    and "q' = (if q < 0 then cv_def (limits c mPan) else q)"
  shows "cv_current (limits c1 mPan) = q \<and> cv_current (limits c2 mPan) = q' \<and>
    (\<exists>c3 d3. getPan usb ci c2 d2 = Some (narrow (sint :: u32 \<Rightarrow> int) q', c3, d3))"
proof -
  note s1 = setPan_sent [OF assms(2-4)]
  have c1: "c1 = keep_pantilt q (last_known (limits c mTilt)) c"
    using send_pantilt_kept(1) [OF s1] assms(6) by simp
  have known: "limits_known (limits c1 mPan)" "limits_known (limits c1 mTilt)"
    using assms(2,3) by (simp_all add: c1 keep_pantilt_known)
  note s2 = setTilt_sent [OF known assms(5)]
  have last: "last_known (limits c1 mPan) = q'"
    using assms(7) by (simp add: c1 keep_pantilt_def last_known_def)
  have "mCtrlSupports c1 AND CTRL_PANTILT_ABS \<noteq> 0"
    using assms(5) by (auto simp: setTilt_def split: if_splits)
  from pan_reads_back [OF assms(1) known this s2] last send_pantilt_kept(1) [OF s2] show ?thesis
    by (simp add: c1) (simp add: keep_pantilt_def)
qed

theorem pan_lost_by_tilt_witness:
  "\<exists>c1 d1 c2 d2. setPan mem_usb demo_units (-7) demo_camera (\<lambda>_. []) = Some (0, c1, d1) \<and>
    setTilt mem_usb demo_units 3 c1 d1 = Some (0, c2, d2) \<and> cv_current (limits c1 mPan) = -7 \<and> cv_current (limits c2 mPan) = 5"
proof -
  have put: "\<exists>d'. uvc_set_pantilt_abs mem_usb demo_units v w d = Some (0, d')" for v w d
    using pantilt_abs.reads_back [OF mem_usb_stores demo_units(1) TrueI, of "(v, w)" d]
    by (auto simp: reads_back_def split: option.splits)
  have send: "\<exists>d'. send_pantilt mem_usb demo_units x y c d = Some (0, keep_pantilt x y c, d')" if "mDeviceHandle c" for x y c d
    using put [of "word_of_int x" "word_of_int y" d] that by (auto simp: send_pantilt_def on_handle_def)
  have bit: "mCtrlSupports demo_camera AND CTRL_PANTILT_ABS \<noteq> 0" "mDeviceHandle demo_camera"
    by (simp_all add: demo_camera_def)
  obtain d1 where r1: "setPan mem_usb demo_units (-7) demo_camera (\<lambda>_. []) = Some (0, keep_pantilt (-7) 5 demo_camera, d1)"
    using send [OF bit(2), of "-7" 5 "\<lambda>_. []"] bit
    by (auto simp: setPan_def pantilt_known demo_known) (simp add: demo_camera_def clamp_def last_known_def)
  let ?c1 = "keep_pantilt (-7) 5 demo_camera"
  have c1: "mDeviceHandle ?c1" "mCtrlSupports ?c1 = mCtrlSupports demo_camera"
    by (simp_all add: keep_pantilt_def demo_camera_def)
  obtain d2 where r2: "setTilt mem_usb demo_units 3 ?c1 d1 = Some (0, keep_pantilt 5 3 ?c1, d2)"
    using send [OF c1(1), of 5 3 d1] bit c1
    by (auto simp: setTilt_def pantilt_known keep_pantilt_known demo_known)
      (simp add: demo_camera_def clamp_def last_known_def keep_pantilt_def)
  show ?thesis
    using pan_lost_by_tilt [OF mem_usb_stores demo_known demo_known r1 r2 refl refl] r1 r2
    by (auto simp: demo_camera_def clamp_def)
qed

end
