(* ===== verification/Camera_Life.thy ===== *)
theory Camera_Life
  imports Uvc_Device Camera_Errors
begin

text \<open>
  Opening and closing the camera object (\<open>UVCCamera.cpp\<close>: constructor, destructor, \<open>connect\<close>, \<open>release\<close>) over
  the context of \<open>Uvc_Device\<close>. Java passes a file descriptor of the device; the object duplicates it. \<open>fds\<close> is history: the
  descriptors the process has open. The stop of a preview, with which a release begins, is \<open>Preview_Threads\<close>; here no stream is open.
\<close>

section \<open>State and operations\<close>

record 'd application =
  cam :: camera
  mFd :: int
  mUsbFs :: bool
  mContext :: "'d uvc_context option"
  mDevice :: "nat option"
  mHandle :: "nat option"
  mPreview :: bool
  fds :: "int set"

definition new_application :: "(control_field \<Rightarrow> control_value) \<Rightarrow> int set \<Rightarrow> 'd application" where
  "new_application lims open_fds = \<lparr>cam = clearCameraParams \<lparr>mDeviceHandle = False, mCtrlSupports = 0, mPUSupports = 0, limits = lims\<rparr>,
     mFd = 0, mUsbFs = False, mContext = None, mDevice = None, mHandle = None, mPreview = False, fds = open_fds\<rparr>"

definition close_fd :: "int \<Rightarrow> 'd application \<Rightarrow> 'd application" where
  "close_fd fd a = a\<lparr>fds := fds a - {fd}\<rparr>"

text \<open>From the search for the device on; \<open>fd\<close> is the duplicate.\<close>

definition connect_device ::
  "'d usb_bus \<Rightarrow> int \<Rightarrow> int \<Rightarrow> int \<Rightarrow> int \<Rightarrow> int \<Rightarrow> 'd uvc_context \<Rightarrow> 'd application \<Rightarrow> (int \<times> 'd application) option" where
  "connect_device b vid pid fd busnum devaddr w a =
     (case uvc_get_device_with_fd b vid pid None fd busnum devaddr w of (result, device, w) \<Rightarrow>
        let a = a\<lparr>mContext := Some w, mDevice := device\<rparr> in
        if result = 0 then (case device of None \<Rightarrow> None
          | Some dev \<Rightarrow> do {
              (result, devh, w) \<leftarrow> uvc_open b dev w;
              if result = 0
              then Some (result, a\<lparr>mContext := Some w, mHandle := devh, cam := (cam a)\<lparr>mDeviceHandle := devh \<noteq> None\<rparr>, mFd := fd,
                mPreview := True\<rparr>)
              else do { w \<leftarrow> uvc_unref_device dev w; Some (result, close_fd fd (a\<lparr>mContext := Some w, mDevice := None\<rparr>)) } })
        else Some (result, close_fd fd a))"

text \<open>\<open>usb_init\<close> is what the initialisation of libusb gives, \<open>newfd\<close> what \<open>dup\<close> gives.\<close>

definition dup_fd :: "int \<Rightarrow> 'd application \<Rightarrow> 'd application" where
  "dup_fd newfd a = (if newfd < 0 then a else a\<lparr>fds := insert newfd (fds a)\<rparr>)"

definition connect ::
  "'d usb_bus \<Rightarrow> int \<times> 'd \<Rightarrow> int \<Rightarrow> int \<Rightarrow> int \<Rightarrow> int \<Rightarrow> int \<Rightarrow> int \<Rightarrow> 'd application \<Rightarrow> (int \<times> 'd application) option" where
  "connect b usb_init vid pid fd busnum devaddr newfd a =
     (if mHandle a = None \<and> fd \<noteq> 0
      then let a = a\<lparr>mUsbFs := True\<rparr>; start = (\<lambda>w. connect_device b vid pid newfd busnum devaddr w
             (dup_fd newfd (a\<lparr>mContext := Some w, cam := clearCameraParams (cam a)\<rparr>)))
        in (case mContext a of Some w \<Rightarrow> start w
          | None \<Rightarrow> (case uvc_init2 usb_init True of (result, ctx) \<Rightarrow>
              if result < 0 then Some (result, a) else (case ctx of None \<Rightarrow> None | Some w \<Rightarrow> start w)))
      else Some (UVC_ERROR_BUSY, a))"

text \<open>The inner \<open>None\<close> is a release that waits for a stream to stop.\<close>

definition close_camera :: "'d usb_bus \<Rightarrow> stream_event list list \<Rightarrow> 'd application \<Rightarrow> 'd application option option" where
  "close_camera b ess a = (case mHandle a of None \<Rightarrow> Some (Some a)
     | Some devh \<Rightarrow> (case mContext a of None \<Rightarrow> None
       | Some w \<Rightarrow> do {
           r \<leftarrow> uvc_close b devh ess w;
           Some (map_option (\<lambda>w. a\<lparr>mPreview := False, mContext := Some w, mHandle := None,
             cam := (cam a)\<lparr>mDeviceHandle := False\<rparr>\<rparr>) r) }))"

definition unref_camera :: "'d application \<Rightarrow> 'd application option" where
  "unref_camera a = (case mDevice a of None \<Rightarrow> Some a
     | Some dev \<Rightarrow> (case mContext a of None \<Rightarrow> None
       | Some w \<Rightarrow> do { w \<leftarrow> uvc_unref_device dev w; Some (a\<lparr>mContext := Some w, mDevice := None\<rparr>) }))"

definition release :: "'d usb_bus \<Rightarrow> stream_event list list \<Rightarrow> 'd application \<Rightarrow> 'd application option option" where
  "release b ess a = do {
     r \<leftarrow> close_camera b ess a;
     (case r of None \<Rightarrow> Some None
      | Some a \<Rightarrow> do {
          a \<leftarrow> unref_camera a;
          let a = a\<lparr>cam := clearCameraParams (cam a)\<rparr> in
            Some (Some (if mUsbFs a then (close_fd (mFd a) a)\<lparr>mFd := 0, mUsbFs := False\<rparr> else a)) }) }"

definition delete_application :: "'d usb_bus \<Rightarrow> stream_event list list \<Rightarrow> 'd application \<Rightarrow> 'd application option option" where
  "delete_application b ess a = do {
     r \<leftarrow> release b ess a;
     (case r of None \<Rightarrow> Some None
      | Some a \<Rightarrow> (case mContext a of None \<Rightarrow> Some (Some (a\<lparr>mUsbFs := False\<rparr>))
        | Some w \<Rightarrow> do {
            r \<leftarrow> uvc_exit b w;
            Some (map_option (\<lambda>_. a\<lparr>mContext := None, mUsbFs := False\<rparr>) r) })) }"

section \<open>What a context keeps\<close>

text \<open>Identifiers to be drawn are unused.\<close>

definition ids_fresh :: "'d uvc_context \<Rightarrow> bool" where
  "ids_fresh w \<longleftrightarrow> (\<forall>k \<ge> next_id w. devices w k = None \<and> handles w k = None \<and> k \<notin> set (open_devices w))"

lemma unref_keeps:
  assumes "uvc_unref_device dev w = Some w'"
  shows "next_id w' = next_id w" "own_usb_ctx w' = own_usb_ctx w" "open_devices w' = open_devices w" "handles w' = handles w"
    "kill_handler_thread w' = kill_handler_thread w" "configs w' = configs w"
  using assms by (auto simp: uvc_unref_device_def split: option.splits)

lemma open_failed_keeps:
  assumes "open_failed b dev usb e w = Some (ret, h, w')"
  shows "h = None \<and> next_id w' = next_id w \<and> own_usb_ctx w' = own_usb_ctx w \<and> kill_handler_thread w' = kill_handler_thread w"
  using assms by (auto simp: open_failed_def Let_def unref_keeps split: bind_splits)

lemma open_control_next:
  assumes "open_control b dev usb info w = Some (ret, h, w')"
  shows "next_id w' = (if h = None then next_id w else Suc (next_id w)) \<and> own_usb_ctx w' = own_usb_ctx w \<and>
    kill_handler_thread w' = kill_handler_thread w \<and> (\<forall>k. h = Some k \<longrightarrow> k = next_id w)"
  using assms unfolding open_control_def uvc_start_handler_thread_def
  by (auto simp: Let_def dest!: open_failed_keeps split: prod.splits if_splits)

lemma open_next:
  assumes "uvc_open b dev w = Some (ret, h, w')"
  shows "next_id w' = (if h = None then next_id w else Suc (next_id w)) \<and> own_usb_ctx w' = own_usb_ctx w \<and>
    kill_handler_thread w' = kill_handler_thread w \<and> (\<forall>k. h = Some k \<longrightarrow> k = next_id w)"
proof -
  obtain u where u: "devices w dev = Some u"
    using assms by (auto simp: uvc_open_def split: option.splits)
  obtain r d where op: "libusb_open b (usb_dev u) (bus_state w) = (r, d)"
    by fastforce
  show ?thesis
  proof (cases "r = UVC_SUCCESS")
    case False
    with assms u op show ?thesis
      by (auto simp: uvc_open_def)
  next
    case True
    with assms u op obtain w1 where w1: "uvc_ref_device dev (w\<lparr>bus_state := d\<rparr>) = Some w1"
      "next_id w1 = next_id w" "own_usb_ctx w1 = own_usb_ctx w" "kill_handler_thread w1 = kill_handler_thread w"
      by (simp add: uvc_ref_device_def)
    with assms u op True obtain r2 info w2 where inf: "uvc_get_device_info b (usb_dev u) w1 = Some (r2, info, w2)"
      and rest: "(case info of None \<Rightarrow> open_failed b dev (usb_dev u) r2 w2
        | Some info \<Rightarrow> open_control b dev (usb_dev u) info w2) = Some (ret, h, w')"
      by (auto simp: uvc_open_def split: bind_splits)
    from inf show ?thesis
    proof (cases rule: device_info_cases)
      case failed
      with rest w1 show ?thesis
        by (auto dest: open_failed_keeps)
    next
      case (found i)
      with rest have "open_control b dev (usb_dev u) i w2 = Some (ret, h, w')"
        by simp
      from open_control_next [OF this] found w1 show ?thesis
        by auto
    qed
  qed
qed

lemma close_keeps:
  assumes "uvc_close b k ess w = Some (Some w')"
  shows "next_id w' = next_id w" "own_usb_ctx w' = own_usb_ctx w" "kill_handler_thread w \<Longrightarrow> kill_handler_thread w'"
    "own_usb_ctx w \<Longrightarrow> open_devices w = [k] \<Longrightarrow> kill_handler_thread w'"
  using assms unfolding uvc_close_def
  by (auto simp: Let_def uvc_free_devh_def unref_keeps split: option.splits bind_splits if_splits)

lemma unref_new:
  assumes "same_resources (snd (new_device usb w)) w'" and "devices w (next_id w) = None"
  shows "\<exists>w''. uvc_unref_device (next_id w) w' = Some w'' \<and> same_resources w w''"
proof -
  have "(devices w)(next_id w := None) = devices w"
    using assms(2) by auto
  then show ?thesis
    using assms(1) by (simp add: same_resources_def new_device_def uvc_unref_device_def)
qed

section \<open>The outcomes of a connection\<close>

text \<open>A failed connection has changed nothing but the state of the bus, and closed the duplicate; after one that succeeded the device is
  the one new structure and the handle can be closed.\<close>

definition connect_outcome ::
  "'d usb_bus \<Rightarrow> int \<Rightarrow> 'd uvc_context \<Rightarrow> 'd application \<Rightarrow> int \<Rightarrow> 'd application \<Rightarrow> bool" where
  "connect_outcome b fd w a r a' \<longleftrightarrow>
     (if r = 0 then \<exists>w' usb w''. a' = a\<lparr>mContext := Some w', mDevice := Some (next_id w), mHandle := Some (Suc (next_id w)),
         cam := (cam a)\<lparr>mDeviceHandle := True\<rparr>, mFd := fd, mPreview := True\<rparr> \<and>
         open_devices w' = open_devices w @ [Suc (next_id w)] \<and> next_id w' = Suc (Suc (next_id w)) \<and>
         own_usb_ctx w' = own_usb_ctx w \<and> kill_handler_thread w' = kill_handler_thread w \<and>
         uvc_close b (Suc (next_id w)) [] w' = Some (Some w'') \<and> same_resources (snd (new_device usb w)) w''
      else \<exists>w'. a' = close_fd fd (a\<lparr>mContext := Some w', mDevice := None\<rparr>) \<and> same_resources w w' \<and> next_id w \<le> next_id w' \<and>
         own_usb_ctx w' = own_usb_ctx w \<and> kill_handler_thread w' = kill_handler_thread w)"

lemma connect_device_outcome:
  assumes fresh: "ids_fresh w" and run: "connect_device b vid pid fd busnum devaddr w a = Some (r, a')"
  shows "connect_outcome b fd w a r a'"
proof -
  obtain found d where find: "libusb_get_device_with_fd b vid pid None fd busnum devaddr (bus_state w) = (found, d)"
    by fastforce
  show ?thesis
  proof (cases found)
    case None
    with run find show ?thesis
      by (auto simp: connect_device_def uvc_get_device_with_fd_def connect_outcome_def same_resources_def)
  next
    case (Some usb)
    let ?n = "next_id w" and ?w0 = "w\<lparr>bus_state := d\<rparr>"
    let ?w1 = "snd (new_device usb ?w0)"
    have get: "uvc_get_device_with_fd b vid pid None fd busnum devaddr w = (UVC_SUCCESS, Some ?n, ?w1)"
      using find Some by (simp add: uvc_get_device_with_fd_def new_device_def)
    have w1: "devices ?w1 ?n = Some \<lparr>usb_dev = usb, ref = 1\<rparr>" "next_id ?w1 = Suc ?n" "own_usb_ctx ?w1 = own_usb_ctx w"
      "kill_handler_thread ?w1 = kill_handler_thread w" "open_devices ?w1 = open_devices w" "fresh_handle ?w1"
      using fresh by (simp_all add: new_device_def fresh_handle_def ids_fresh_def)
    from run get obtain r2 h w2 where op: "uvc_open b ?n ?w1 = Some (r2, h, w2)"
      by (auto simp: connect_device_def Let_def split: bind_splits)
    have out: "open_outcome b ?n ?w1 r2 h w2"
      using open_outcomes [OF w1(1) _ w1(6) op] by simp
    note nx = open_next [OF op]
    have same: "same_resources (snd (new_device usb w)) w'" if "same_resources ?w1 w'" for w'
      using that by (simp add: same_resources_def new_device_def)
    show ?thesis
    proof (cases h)
      case None
      with out have r2: "r2 \<noteq> 0" "same_resources ?w1 w2"
        by (simp_all add: open_outcome_def)
      from unref_new [OF same [OF r2(2)]] fresh obtain w3 where
        w3: "uvc_unref_device ?n w2 = Some w3" "same_resources w w3"
        by (auto simp: ids_fresh_def)
      have "r = r2 \<and> a' = close_fd fd (a\<lparr>mContext := Some w3, mDevice := None\<rparr>)"
        using run get op r2(1) w3(1) by (simp add: connect_device_def)
      then show ?thesis
        using r2(1) w3 nx None w1 unref_keeps [OF w3(1)] by (auto simp: connect_outcome_def)
    next
      case (Some k)
      with out have r2: "r2 = 0" "open_devices w2 = open_devices ?w1 @ [k]"
        and "\<exists>w''. uvc_close b k [] w2 = Some (Some w'') \<and> same_resources ?w1 w''"
        by (auto simp: open_outcome_def)
      then obtain w'' where close: "uvc_close b k [] w2 = Some (Some w'')" "same_resources ?w1 w''"
        by blast
      have k: "k = Suc ?n"
        using nx Some w1(2) by simp
      have "r = 0 \<and> a' = a\<lparr>mContext := Some w2, mDevice := Some ?n, mHandle := Some k,
          cam := (cam a)\<lparr>mDeviceHandle := True\<rparr>, mFd := fd, mPreview := True\<rparr>"
        using run get op r2(1) Some by (auto simp: connect_device_def)
      then show ?thesis
        using r2(2) close same nx Some w1 k by (auto simp: connect_outcome_def)
    qed
  qed
qed

section \<open>Connecting and releasing\<close>

text \<open>The object between a release and a connection.\<close>

definition app_idle :: "'d application \<Rightarrow> bool" where
  "app_idle a \<longleftrightarrow> mHandle a = None \<and> mDevice a = None \<and> closed (cam a) \<and> \<not> mUsbFs a \<and> mFd a = 0"

text \<open>The context a connection works with: the one at hand, or a new one.\<close>

definition starting_context :: "int \<times> 'd \<Rightarrow> 'd application \<Rightarrow> 'd uvc_context \<Rightarrow> bool" where
  "starting_context usb_init a w \<longleftrightarrow> (case mContext a of Some w' \<Rightarrow> w = w' | None \<Rightarrow> uvc_init2 usb_init True = (UVC_SUCCESS, Some w))"

definition start_app :: "int \<Rightarrow> 'd uvc_context \<Rightarrow> 'd application \<Rightarrow> 'd application" where
  "start_app newfd w a = dup_fd newfd (a\<lparr>mUsbFs := True, mContext := Some w, cam := clearCameraParams (cam a)\<rparr>)"

lemma connect_outcomes:
  assumes "mHandle a = None" and "fd \<noteq> 0" and "starting_context usb_init a w" and "ids_fresh w"
    and "connect b usb_init vid pid fd busnum devaddr newfd a = Some (r, a')"
  shows "connect_outcome b newfd w (start_app newfd w a) r a'"
proof -
  have "connect_device b vid pid newfd busnum devaddr w (start_app newfd w a) = Some (r, a')"
    using assms by (simp add: connect_def starting_context_def start_app_def Let_def split: option.splits)
  with assms(4) show ?thesis
    by (rule connect_device_outcome)
qed

lemma start_app_fields:
  "mUsbFs (start_app newfd w a)" "mFd (start_app newfd w a) = mFd a" "mHandle (start_app newfd w a) = mHandle a"
  "cam (start_app newfd w a) = clearCameraParams (cam a)"
  "0 < newfd \<Longrightarrow> fds (start_app newfd w a) = insert newfd (fds a)"
  by (simp_all add: start_app_def dup_fd_def)

lemma closed_cleared: "closed (clearCameraParams c\<lparr>mDeviceHandle := False\<rparr>)" "closed (clearCameraParams (c\<lparr>mDeviceHandle := False\<rparr>))"
  by (simp_all add: closed_def clearCameraParams_def)

lemma release_after_connect:
  assumes "app_idle a" and "fd \<noteq> 0" and "0 < newfd" and "newfd \<notin> fds a" and "starting_context usb_init a w" and "ids_fresh w"
    and "connect b usb_init vid pid fd busnum devaddr newfd a = Some (0, a1)"
  shows "mFd a1 = newfd \<and> fds a1 = insert newfd (fds a) \<and>
    (\<exists>a2 w2. release b [] a1 = Some (Some a2) \<and> app_idle a2 \<and> fds a2 = fds a \<and> mContext a2 = Some w2 \<and> same_resources w w2)"
proof -
  have idle: "mHandle a = None"
    using assms(1) by (simp add: app_idle_def)
  let ?s = "start_app newfd w a"
  from connect_outcomes [OF idle assms(2,5,6,7)] obtain w' usb w'' where
    a1: "a1 = ?s\<lparr>mContext := Some w', mDevice := Some (next_id w), mHandle := Some (Suc (next_id w)),
         cam := (cam ?s)\<lparr>mDeviceHandle := True\<rparr>, mFd := newfd, mPreview := True\<rparr>"
    and close: "uvc_close b (Suc (next_id w)) [] w' = Some (Some w'')" "same_resources (snd (new_device usb w)) w''"
    by (auto simp: connect_outcome_def)
  from unref_new [OF close(2)] assms(6) obtain w3 where w3: "uvc_unref_device (next_id w) w'' = Some w3" "same_resources w w3"
    by (auto simp: ids_fresh_def)
  then show ?thesis
    using a1 close(1) assms(3,4) start_app_fields [of newfd w a]
    by (simp add: release_def close_camera_def unref_camera_def close_fd_def app_idle_def closed_cleared clearCameraParams_def closed_def)
qed

text \<open>A connection that fails, because no device was found or it could not be opened, leaves the context as it was and closes the
  duplicate; but the object keeps the name of the file system without a descriptor of its own, and the release after it closes descriptor
  0, the standard input of the process or whatever was opened as 0 since.\<close>

theorem failed_connect_closes_stdin:
  assumes "app_idle a" and "fd \<noteq> 0" and "0 < newfd" and "newfd \<notin> fds a" and "starting_context usb_init a w" and "ids_fresh w"
    and "connect b usb_init vid pid fd busnum devaddr newfd a = Some (r, a1)" and "r \<noteq> 0"
  shows "fds a1 = fds a \<and> (\<exists>w1. mContext a1 = Some w1 \<and> same_resources w w1) \<and>
    (\<exists>a2. release b ess a1 = Some (Some a2) \<and> fds a2 = fds a - {0})"
proof -
  have idle: "mHandle a = None" "mFd a = 0"
    using assms(1) by (simp_all add: app_idle_def)
  from connect_outcomes [OF idle(1) assms(2,5,6,7)] assms(8) obtain w1 where
    a1: "a1 = close_fd newfd ((start_app newfd w a)\<lparr>mContext := Some w1, mDevice := None\<rparr>)" "same_resources w w1"
    by (auto simp: connect_outcome_def)
  then show ?thesis
    using start_app_fields [of newfd w a] idle assms(3,4)
    by (simp add: release_def close_camera_def unref_camera_def close_fd_def)
qed

text \<open>C19. A connection that succeeds and the release after it are balanced: the release returns, the context holds the devices, references,
  handles and descriptors it held before, the process the file descriptors, and the object is idle again. A connection that fails leaves
  context and descriptors as they were, but the release after it closes descriptor 0.\<close>

theorem connect_release_balanced:
  assumes "app_idle a" and "fd \<noteq> 0" and "0 < newfd" and "newfd \<notin> fds a" and "starting_context usb_init a w" and "ids_fresh w"
    and "connect b usb_init vid pid fd busnum devaddr newfd a = Some (r, a1)"
  shows "if r = 0
    then mFd a1 = newfd \<and> fds a1 = insert newfd (fds a) \<and>
      (\<exists>a2 w2. release b [] a1 = Some (Some a2) \<and> app_idle a2 \<and> fds a2 = fds a \<and> mContext a2 = Some w2 \<and> same_resources w w2)
    else fds a1 = fds a \<and> (\<exists>w1. mContext a1 = Some w1 \<and> same_resources w w1) \<and>
      (\<exists>a2. release b [] a1 = Some (Some a2) \<and> fds a2 = fds a - {0})"
  using release_after_connect [OF assms(1-6)] failed_connect_closes_stdin [OF assms(1-6)] assms(7) by (cases "r = 0") simp_all

text \<open>C38. An object that is connected, released and connected again has a camera whose event thread handles nothing: the release stopped the
  events of the context for good, and the object keeps its context. No frame and no status report reaches the application.\<close>

theorem reconnected_camera_deaf:
  assumes "app_idle a" and "fd \<noteq> 0" and "0 < newfd" and "newfd \<notin> fds a" and "starting_context usb_init a w" and "ids_fresh w"
    and "own_usb_ctx w" and "open_devices w = []"
    and "connect b usb_init vid pid fd busnum devaddr newfd a = Some (0, a1)"
    and "release b [] a1 = Some (Some a2)"
    and "fd' \<noteq> 0" and "connect b usb_init' vid' pid' fd' busnum' devaddr' newfd' a2 = Some (0, a3)"
  shows "mHandle a3 \<noteq> None \<and> (\<exists>w3. mContext a3 = Some w3 \<and> uvc_handle_events rounds w3 = (0, w3))"
proof -
  have idle: "mHandle a = None"
    using assms(1) by (simp add: app_idle_def)
  let ?k = "Suc (next_id w)"
  from connect_outcomes [OF idle assms(2,5,6,9)] obtain w' usb w'' where
    a1: "mContext a1 = Some w'" "mDevice a1 = Some (next_id w)" "mHandle a1 = Some ?k"
    and w': "open_devices w' = [?k]" "next_id w' = Suc ?k" "own_usb_ctx w'"
    and close: "uvc_close b ?k [] w' = Some (Some w'')" "same_resources (snd (new_device usb w)) w''"
    using assms(7,8) by (auto simp: connect_outcome_def)
  from unref_new [OF close(2)] assms(6) obtain w3 where w3: "uvc_unref_device (next_id w) w'' = Some w3" "same_resources w w3"
    by (auto simp: ids_fresh_def)
  have a2: "mContext a2 = Some w3" "mHandle a2 = None"
    using assms(10) a1 close(1) w3(1) by (auto simp: release_def close_camera_def unref_camera_def close_fd_def Let_def)
  have kill: "kill_handler_thread w3"
    using close_keeps(4) [OF close(1)] w' unref_keeps(5) [OF w3(1)] by simp
  have fresh: "ids_fresh w3"
    using assms(6) w3(2) close_keeps(1) [OF close(1)] w'(2) unref_keeps(1) [OF w3(1)]
    by (auto simp: ids_fresh_def same_resources_def)
  have "starting_context usb_init' a2 w3"
    using a2 by (simp add: starting_context_def)
  from connect_outcomes [OF a2(2) assms(11) this fresh assms(12)] obtain w4 where
    "mContext a3 = Some w4" "mHandle a3 \<noteq> None" "kill_handler_thread w4"
    using kill by (auto simp: connect_outcome_def)
  then show ?thesis
    by (cases rounds) simp_all
qed

section \<open>Instances\<close>

text \<open>An object for a bus with one webcam, and the same bus with the webcam gone.\<close>

definition idle_app :: "mem_dev application" where
  "idle_app = new_application (limits no_camera) {0, 1, 2}"

definition first_context :: "mem_dev uvc_context" where
  "first_context = the (snd (uvc_init2 (0, demo_dev) True))"

definition empty_bus :: "mem_dev usb_bus" where
  "empty_bus = demo_bus\<lparr>libusb_get_device_with_fd := (\<lambda>_ _ _ _ _ _ d. (None, d))\<rparr>"

lemma idle_app: "app_idle idle_app" "fds idle_app = {0, 1, 2}" "mContext idle_app = None" "mHandle idle_app = None"
  by (simp_all add: idle_app_def new_application_def app_idle_def closed_def clearCameraParams_def)

lemma first_context: "ids_fresh first_context" "own_usb_ctx first_context" "open_devices first_context = []"
  "starting_context (0, demo_dev) idle_app first_context"
  by (simp_all add: first_context_def uvc_init2_def ids_fresh_def starting_context_def idle_app)

lemma demo_connect_device:
  "\<exists>a'. connect_device demo_bus vid pid fd busnum devaddr w a = Some (0, a')"
proof -
  let ?w = "snd (new_device 7 w)"
  have get: "uvc_get_device_with_fd demo_bus vid pid None fd busnum devaddr w = (UVC_SUCCESS, Some (next_id w), ?w)"
    by (simp add: uvc_get_device_with_fd_def demo_bus_def new_device_def)
  obtain w' where "uvc_open demo_bus (next_id w) ?w = Some (UVC_SUCCESS, Some (next_id ?w), w')"
    by (rule demo_opens [of ?w "next_id w"]) (simp add: new_device_def)
  with get show ?thesis
    by (simp add: connect_device_def)
qed

lemma demo_connect:
  "mHandle a = None \<Longrightarrow> fd \<noteq> 0 \<Longrightarrow> \<exists>a'. connect demo_bus (0, demo_dev) 0 0 fd 0 0 newfd a = Some (0, a')"
  by (auto simp: connect_def Let_def uvc_init2_def demo_connect_device split: option.split)

theorem connect_release_balanced_witness:
  "\<exists>a1 a2. connect demo_bus (0, demo_dev) 0 0 9 0 0 10 idle_app = Some (0, a1) \<and> mFd a1 = 10 \<and>
     release demo_bus [] a1 = Some (Some a2) \<and> fds a2 = {0, 1, 2}"
proof -
  obtain a1 where a1: "connect demo_bus (0, demo_dev) 0 0 9 0 0 10 idle_app = Some (0, a1)"
    using demo_connect [OF idle_app(4), of 9 10] by auto
  from connect_release_balanced [OF idle_app(1) _ _ _ first_context(4,1) a1] show ?thesis
    using a1 by (auto simp: idle_app)
qed

theorem failed_connect_closes_stdin_witness:
  "\<exists>a1 a2. connect empty_bus (0, demo_dev) 0 0 9 0 0 10 idle_app = Some (-4, a1) \<and> fds a1 = {0, 1, 2} \<and>
     release empty_bus [] a1 = Some (Some a2) \<and> fds a2 = {1, 2}"
proof -
  obtain a1 where a1: "connect empty_bus (0, demo_dev) 0 0 9 0 0 10 idle_app = Some (-4, a1)"
    by (simp add: connect_def idle_app uvc_init2_def connect_device_def uvc_get_device_with_fd_def empty_bus_def Let_def)
  from failed_connect_closes_stdin [OF idle_app(1) _ _ _ first_context(4,1) a1] show ?thesis
    using a1 by (auto simp: idle_app)
qed

theorem reconnected_camera_deaf_witness:
  "\<exists>a1 a2 a3 w3. connect demo_bus (0, demo_dev) 0 0 9 0 0 10 idle_app = Some (0, a1) \<and> release demo_bus [] a1 = Some (Some a2) \<and>
     connect demo_bus (0, demo_dev) 0 0 9 0 0 10 a2 = Some (0, a3) \<and> mContext a3 = Some w3 \<and>
     uvc_handle_events [\<lambda>w. w, \<lambda>w. w] w3 = (0, w3)"
proof -
  obtain a1 where a1: "connect demo_bus (0, demo_dev) 0 0 9 0 0 10 idle_app = Some (0, a1)"
    using demo_connect [OF idle_app(4), of 9 10] by auto
  have "connect_outcome demo_bus 10 first_context (start_app 10 first_context idle_app) 0 a1"
    using connect_outcomes [OF idle_app(4) _ first_context(4,1) a1] by simp
  then obtain a2 where a2: "release demo_bus [] a1 = Some (Some a2)" "mHandle a2 = None"
    using first_context(1) unref_new [of 7 first_context]
    by (auto simp: connect_outcome_def release_def close_camera_def unref_camera_def close_fd_def ids_fresh_def Let_def
        dest!: unref_new)
  obtain a3 where a3: "connect demo_bus (0, demo_dev) 0 0 9 0 0 10 a2 = Some (0, a3)"
    using demo_connect [OF a2(2), of 9 10] by auto
  from reconnected_camera_deaf [OF idle_app(1) _ _ _ first_context(4,1,2,3) a1 a2(1) _ a3, of "[\<lambda>w. w, \<lambda>w. w]"] a1 a2 a3
  show ?thesis
    by (auto simp: idle_app)
qed

end
