(* ===== verification/Libusb_Desc.thy ===== *)
theory Libusb_Desc
  imports Uvc_Scan
begin

text \<open>
  The parsers of \<open>libusb\<close>'s \<open>descriptor.c\<close>, which make the configuration handed to \<open>libuvc\<close> from the bytes of a
  device. A buffer is the bytes from the pointer to the end of its object, \<open>sz\<close> how many of them the code takes to be there. The
  host is little-endian, so \<open>host_endian\<close> makes no difference.
\<close>

abbreviation "LIBUSB_ERROR_IO \<equiv> (-1 :: int)"
abbreviation "LIBUSB_ERROR_INVALID_PARAM \<equiv> (-2 :: int)"
abbreviation "LIBUSB_ERROR_NOT_FOUND \<equiv> (-5 :: int)"
abbreviation "LIBUSB_DT_CONFIG \<equiv> (0x02 :: u8)"
abbreviation "LIBUSB_DT_STRING \<equiv> (0x03 :: u8)"
abbreviation "LIBUSB_DT_INTERFACE \<equiv> (0x04 :: u8)"
abbreviation "LIBUSB_DT_ENDPOINT \<equiv> (0x05 :: u8)"
abbreviation "LIBUSB_DT_ASSOCIATION \<equiv> (0x0b :: u8)"

section \<open>Fields\<close>

datatype field = FByte u8 | FWord u16 | FDword u32 | FUuid bytes

primrec fbyte :: "field \<Rightarrow> u8" where
  "fbyte (FByte b) = b"
| "fbyte (FWord w) = 0"
| "fbyte (FDword d) = 0"
| "fbyte (FUuid u) = 0"

primrec fword :: "field \<Rightarrow> u16" where
  "fword (FByte b) = 0"
| "fword (FWord w) = w"
| "fword (FDword d) = 0"
| "fword (FUuid u) = 0"

text \<open>The fields a format string asks for, and the bytes after them.\<close>

fun parse_fields :: "string \<Rightarrow> bytes \<Rightarrow> (field list \<times> bytes) option" where
  "parse_fields [] sp = Some ([], sp)"
| "parse_fields (c # cs) sp =
     (if c = CHR ''b'' then need 1 sp (do { (fs, rest) \<leftarrow> parse_fields cs (drop 1 sp); Some (FByte (sp ! 0) # fs, rest) })
      else if c = CHR ''w'' then need 2 sp (do { (fs, rest) \<leftarrow> parse_fields cs (drop 2 sp); Some (FWord (get_sw sp) # fs, rest) })
      else if c = CHR ''d'' then need 4 sp (do { (fs, rest) \<leftarrow> parse_fields cs (drop 4 sp); Some (FDword (DW_TO_INT sp) # fs, rest) })
      else if c = CHR ''u'' then need 16 sp (do { (fs, rest) \<leftarrow> parse_fields cs (drop 16 sp); Some (FUuid (take 16 sp) # fs, rest) })
      else parse_fields cs sp)"

definition usbi_parse_descriptor :: "bytes \<Rightarrow> string \<Rightarrow> (field list \<times> nat) option" where
  "usbi_parse_descriptor source descriptor = do {
     (fs, rest) \<leftarrow> parse_fields descriptor source;
     Some (fs, length source - length rest) }"

definition is_known_descriptor_type :: "u8 \<Rightarrow> bool" where
  "is_known_descriptor_type t \<longleftrightarrow> t \<in> {LIBUSB_DT_ENDPOINT, LIBUSB_DT_INTERFACE, LIBUSB_DT_CONFIG, 1, LIBUSB_DT_ASSOCIATION}"

text \<open>Length and type.\<close>

definition read_header :: "bytes \<Rightarrow> (u8 \<times> u8) option" where
  "read_header buffer = do {
     (fs, n) \<leftarrow> usbi_parse_descriptor buffer ''bb'';
     Some (fbyte (fs ! 0), fbyte (fs ! 1)) }"

section \<open>Structures\<close>

record usb_endpoint =
  e_bLength :: u8
  e_bDescriptorType :: u8
  e_bEndpointAddress :: u8
  e_bmAttributes :: u8
  e_wMaxPacketSize :: u16
  e_bInterval :: u8
  e_bRefresh :: u8
  e_bSynchAddress :: u8
  e_extra :: bytes

record usb_altsetting =
  i_bLength :: u8
  i_bDescriptorType :: u8
  i_bInterfaceNumber :: u8
  i_bAlternateSetting :: u8
  i_bNumEndpoints :: u8
  i_bInterfaceClass :: u8
  i_bInterfaceSubClass :: u8
  i_bInterfaceProtocol :: u8
  i_iInterface :: u8
  i_endpoint :: "usb_endpoint list"
  i_extra :: bytes

text \<open>\<open>array\<close> is whether the pointer \<open>altsetting\<close> is not null; the list holds the settings counted.\<close>

record usb_interface =
  array :: bool
  altsetting :: "usb_altsetting list"

record usb_association =
  a_bLength :: u8
  a_bDescriptorType :: u8
  a_bFirstInterface :: u8
  a_bInterfaceCount :: u8
  a_bFunctionClass :: u8
  a_bFunctionSubClass :: u8
  a_bFunctionProtocol :: u8
  a_iFunction :: u8

record usb_config =
  c_bLength :: u8
  c_bDescriptorType :: u8
  c_wTotalLength :: u16
  c_bNumInterfaces :: u8
  c_bConfigurationValue :: u8
  c_iConfiguration :: u8
  c_bmAttributes :: u8
  c_MaxPower :: u8
  c_interface :: "usb_interface list"
  c_association :: "usb_association list"
  c_num_associations :: u8
  c_extra :: bytes

definition zero_endpoint :: usb_endpoint where
  "zero_endpoint = \<lparr>e_bLength = 0, e_bDescriptorType = 0, e_bEndpointAddress = 0, e_bmAttributes = 0, e_wMaxPacketSize = 0,
     e_bInterval = 0, e_bRefresh = 0, e_bSynchAddress = 0, e_extra = []\<rparr>"

definition null_interface :: usb_interface where
  "null_interface = \<lparr>array = False, altsetting = []\<rparr>"

section \<open>Blocks no parser knows\<close>

text \<open>
  The loop that skips class and vendor descriptors, the same in four places: it ends where fewer than two bytes are left or a
  descriptor of a known type begins, with the bytes skipped, the bytes parsed and the last header read (\<open>Skipped\<close>); at a length
  below 2 (\<open>Invalid\<close>), or at one beyond the size (\<open>TooLong\<close>).
\<close>

lemma block_length: "\<not> l < 2 \<Longrightarrow> 2 \<le> uint l" for l :: u8
  by (simp add: word_less_def)

datatype skip = Invalid | TooLong bytes int int | Skipped bytes bytes int int "(u8 \<times> u8) option"

function skip_unknown :: "bytes \<Rightarrow> bytes \<Rightarrow> int \<Rightarrow> int \<Rightarrow> (u8 \<times> u8) option \<Rightarrow> skip option" where
  "skip_unknown extra buffer sz parsed header =
     (if sz < 2 then Some (Skipped extra buffer sz parsed header)
      else (case read_header buffer of None \<Rightarrow> None
        | Some (l, t) \<Rightarrow>
            if l < 2 then Some Invalid
            else if uint l > sz then Some (TooLong buffer sz parsed)
            else if is_known_descriptor_type t then Some (Skipped extra buffer sz parsed (Some (l, t)))
            else skip_unknown (extra @ take (unat l) buffer) (drop (unat l) buffer) (sz - uint l) (parsed + uint l) (Some (l, t))))"
  by auto

termination
  by (relation "measure (\<lambda>(_, _, sz, _, _). nat sz)") (auto dest: block_length)

declare skip_unknown.simps [simp del]

text \<open>What a skip has done: the bytes skipped are the bytes parsed.\<close>

definition skip_result :: "bytes \<Rightarrow> bytes \<Rightarrow> int \<Rightarrow> int \<Rightarrow> skip \<Rightarrow> bool" where
  "skip_result extra buffer sz parsed r \<longleftrightarrow> (case r of Invalid \<Rightarrow> True
     | TooLong b s p \<Rightarrow> 2 \<le> s \<and> s \<le> sz \<and> p = parsed + (sz - s)
     | Skipped e b s p h \<Rightarrow> s \<le> sz \<and> p = parsed + (sz - s) \<and> (0 \<le> sz \<longrightarrow> 0 \<le> s) \<and>
         b = drop (nat (sz - s)) buffer \<and> e = extra @ take (nat (sz - s)) buffer)"

lemma nat_split_at: "0 \<le> a \<Longrightarrow> s \<le> z - a \<Longrightarrow> nat (z - s) = nat a + nat (z - a - s)" for a s z :: int
  by arith

lemma skip_spec:
  "skip_unknown extra buffer sz parsed h = Some r \<Longrightarrow> skip_result extra buffer sz parsed r"
proof (induction extra buffer sz parsed h rule: skip_unknown.induct)
  case (1 extra buffer sz parsed h)
  show ?case
  proof (cases "sz < 2")
    case True
    with 1(2) show ?thesis
      by (auto simp: skip_unknown.simps skip_result_def)
  next
    case False
    with 1(2) obtain l t where head: "read_header buffer = Some (l, t)"
      by (auto simp: skip_unknown.simps [of _ _ sz] split: option.splits)
    show ?thesis
    proof (cases "l < 2 \<or> uint l > sz \<or> is_known_descriptor_type t")
      case True
      with False head 1(2) show ?thesis
        by (auto simp: skip_unknown.simps [of _ _ sz] skip_result_def split: if_splits)
    next
      case unknown: False
      with False head 1(2) have rest:
        "skip_unknown (extra @ take (unat l) buffer) (drop (unat l) buffer) (sz - uint l) (parsed + uint l) (Some (l, t)) = Some r"
        by (auto simp: skip_unknown.simps [of _ _ sz])
      let ?l = "uint l"
      have ih: "skip_result (extra @ take (unat l) buffer) (drop (unat l) buffer) (sz - ?l) (parsed + ?l) r"
        using 1(1) [OF False head refl _ _ _ rest] unknown by blast
      have nats: "nat (sz - s) = unat l + nat (sz - ?l - s)" if "s \<le> sz - ?l" for s
        using nat_split_at [OF uint_ge_0 that] by (simp only: unat_eq_nat_uint)
      show ?thesis
      proof (cases r)
        case (TooLong b s p)
        have "sz - ?l \<le> sz"
          by simp
        with TooLong ih show ?thesis
          by (auto simp: skip_result_def intro: order_trans)
      next
        case (Skipped e b s p h')
        with ih have *: "s \<le> sz - ?l" "p = parsed + ?l + (sz - ?l - s)" "0 \<le> sz - ?l \<longrightarrow> 0 \<le> s"
          "b = drop (nat (sz - ?l - s)) (drop (unat l) buffer)"
          "e = (extra @ take (unat l) buffer) @ take (nat (sz - ?l - s)) (drop (unat l) buffer)"
          by (simp_all add: skip_result_def)
        have "b = drop (nat (sz - s)) buffer" "e = extra @ take (nat (sz - s)) buffer"
          unfolding nats [OF *(1)] *(4,5) by (simp_all add: take_add add.commute)
        moreover have "s \<le> sz"
          using *(1) order_trans [of s "sz - ?l" sz] by simp
        moreover have "p = parsed + (sz - s)" "0 \<le> sz \<longrightarrow> 0 \<le> s"
          using *(2,3) unknown by auto
        ultimately show ?thesis
          using Skipped by (simp add: skip_result_def)
      qed (simp add: skip_result_def)
    qed
  qed
qed

section \<open>Endpoints\<close>

definition endpoint_of :: "field list \<Rightarrow> usb_endpoint" where
  "endpoint_of fs = \<lparr>e_bLength = fbyte (fs ! 0), e_bDescriptorType = fbyte (fs ! 1), e_bEndpointAddress = fbyte (fs ! 2),
     e_bmAttributes = fbyte (fs ! 3), e_wMaxPacketSize = fword (fs ! 4), e_bInterval = fbyte (fs ! 5),
     e_bRefresh = (if length fs = 8 then fbyte (fs ! 6) else 0), e_bSynchAddress = (if length fs = 8 then fbyte (fs ! 7) else 0),
     e_extra = []\<rparr>"

text \<open>The result code and the endpoint, all zero before.\<close>

definition parse_endpoint :: "bytes \<Rightarrow> int \<Rightarrow> (int \<times> usb_endpoint) option" where
  "parse_endpoint buffer sz =
     (if sz < 2 then Some (LIBUSB_ERROR_IO, zero_endpoint)
      else do {
        (l, t) \<leftarrow> read_header buffer;
        if t \<noteq> LIBUSB_DT_ENDPOINT then Some (0, zero_endpoint)
        else if uint l > sz then Some (0, zero_endpoint)
        else if l < 7 then Some (LIBUSB_ERROR_IO, zero_endpoint)
        else do {
          (fs, n) \<leftarrow> usbi_parse_descriptor buffer (if l \<ge> 9 then ''bbbbwbbb'' else ''bbbbwb'');
          let ep = endpoint_of fs;
          skipped \<leftarrow> skip_unknown [] (drop (unat l) buffer) (sz - uint l) (uint l) None;
          (case skipped of
             Invalid \<Rightarrow> Some (LIBUSB_ERROR_IO, ep)
           | TooLong b s parsed \<Rightarrow> Some (parsed, ep)
           | Skipped extra b s parsed h \<Rightarrow> Some (parsed, ep\<lparr>e_extra := extra\<rparr>)) } })"

text \<open>At most \<open>n\<close> endpoints: an error code, or the endpoints and where they end.\<close>

fun parse_endpoints ::
  "nat \<Rightarrow> bytes \<Rightarrow> int \<Rightarrow> int \<Rightarrow> usb_endpoint list \<Rightarrow> (int + usb_endpoint list \<times> bytes \<times> int \<times> int) option" where
  "parse_endpoints 0 buffer sz parsed eps = Some (Inr (eps, buffer, sz, parsed))"
| "parse_endpoints (Suc n) buffer sz parsed eps = do {
     (r, ep) \<leftarrow> parse_endpoint buffer sz;
     if r < 0 then Some (Inl r)
     else if r = 0 then Some (Inr (eps, buffer, sz, parsed))
     else parse_endpoints n (drop (nat r) buffer) (sz - r) (parsed + r) (eps @ [ep]) }"

section \<open>Interfaces\<close>

definition altsetting_of :: "field list \<Rightarrow> usb_altsetting" where
  "altsetting_of fs = \<lparr>i_bLength = fbyte (fs ! 0), i_bDescriptorType = fbyte (fs ! 1), i_bInterfaceNumber = fbyte (fs ! 2),
     i_bAlternateSetting = fbyte (fs ! 3), i_bNumEndpoints = fbyte (fs ! 4), i_bInterfaceClass = fbyte (fs ! 5),
     i_bInterfaceSubClass = fbyte (fs ! 6), i_bInterfaceProtocol = fbyte (fs ! 7), i_iInterface = fbyte (fs ! 8),
     i_endpoint = [], i_extra = []\<rparr>"

text \<open>One alternate setting: an error; not counted; counted with its endpoints missing; or complete.\<close>

datatype alt_step = AltError int | AltStop | AltShort usb_altsetting int | AltNext usb_altsetting bytes int int

definition parse_altsetting :: "bytes \<Rightarrow> int \<Rightarrow> int \<Rightarrow> alt_step option" where
  "parse_altsetting buffer sz parsed = do {
     (fs, n) \<leftarrow> usbi_parse_descriptor buffer ''bbbbbbbbb'';
     let ifp = altsetting_of fs;
     let l = i_bLength ifp;
     if i_bDescriptorType ifp \<noteq> LIBUSB_DT_INTERFACE then Some AltStop
     else if l < 9 then Some (AltError LIBUSB_ERROR_IO)
     else if uint l > sz then Some AltStop
     else if i_bNumEndpoints ifp > 32 then Some (AltError LIBUSB_ERROR_IO)
     else do {
       skipped \<leftarrow> skip_unknown [] (drop (unat l) buffer) (sz - uint l) (parsed + uint l) None;
       (case skipped of
          Invalid \<Rightarrow> Some (AltError LIBUSB_ERROR_IO)
        | TooLong b s parsed \<Rightarrow> Some (AltShort ifp parsed)
        | Skipped extra buffer sz parsed h \<Rightarrow>
            (let ifp = ifp\<lparr>i_extra := extra\<rparr> in
             if i_bNumEndpoints ifp > 0
             then do {
               e \<leftarrow> parse_endpoints (unat (i_bNumEndpoints ifp)) buffer sz parsed [];
               (case e of Inl r \<Rightarrow> Some (AltError r)
                | Inr (eps, buffer, sz, parsed) \<Rightarrow>
                    Some (AltNext (ifp\<lparr>i_endpoint := eps, i_bNumEndpoints := word_of_nat (length eps)\<rparr>) buffer sz parsed)) }
             else Some (AltNext ifp buffer sz parsed))) } }"

lemma endpoint_bound:
  assumes "parse_endpoint buffer sz = Some (r, ep)" and "0 \<le> sz"
  shows "r \<le> sz"
proof (cases "r \<le> 0")
  case False
  let ?fmt = "\<lambda>l. if l \<ge> 9 then ''bbbbwbbb'' else ''bbbbwb''"
  have big: "\<not> sz < 2"
    using assms(1) False by (auto simp: parse_endpoint_def)
  with assms(1) obtain l t where head: "read_header buffer = Some (l, t)"
    by (auto simp: parse_endpoint_def split: bind_splits)
  have l: "uint l \<le> sz" "\<not> l < 7" "t = LIBUSB_DT_ENDPOINT"
    using assms(1) big False by (auto simp: parse_endpoint_def head split: if_splits)
  then obtain fs n where "usbi_parse_descriptor buffer (?fmt l) = Some (fs, n)"
    using assms(1) big by (cases "usbi_parse_descriptor buffer (?fmt l)") (auto simp: parse_endpoint_def head)
  with assms(1) big head l have run: "do { skipped \<leftarrow> skip_unknown [] (drop (unat l) buffer) (sz - uint l) (uint l) None;
      (case skipped of Invalid \<Rightarrow> Some (LIBUSB_ERROR_IO, endpoint_of fs) | TooLong b s parsed \<Rightarrow> Some (parsed, endpoint_of fs)
        | Skipped extra b s parsed h \<Rightarrow> Some (parsed, (endpoint_of fs)\<lparr>e_extra := extra\<rparr>)) } = Some (r, ep)"
    by (simp add: parse_endpoint_def Let_def)
  then obtain skipped where skip: "skip_unknown [] (drop (unat l) buffer) (sz - uint l) (uint l) None = Some skipped"
    by (auto split: bind_splits)
  with skip_spec [OF skip] run False l(1) show ?thesis
    by (cases skipped) (auto simp: skip_result_def)
qed (use assms(2) in simp)

lemma endpoints_bound:
  "parse_endpoints n buffer sz parsed eps = Some (Inr (eps', b, s, p)) \<Longrightarrow> 0 \<le> sz \<Longrightarrow>
   0 \<le> s \<and> s \<le> sz \<and> p = parsed + (sz - s) \<and> b = drop (nat (sz - s)) buffer \<and>
   length eps' \<le> length eps + n"
proof (induction n buffer sz parsed eps rule: parse_endpoints.induct)
  case (2 n buffer sz parsed eps)
  then obtain r ep where ep: "parse_endpoint buffer sz = Some (r, ep)" "0 \<le> r"
    by (auto split: bind_splits if_splits)
  note le = endpoint_bound [OF ep(1) 2(3)]
  show ?case
  proof (cases "r = 0")
    case False
    with 2 ep le have "0 \<le> s \<and> s \<le> sz - r \<and> p = parsed + r + (sz - r - s) \<and> b = drop (nat (sz - r - s)) (drop (nat r) buffer) \<and>
        length eps' \<le> length (eps @ [ep]) + n"
      by simp
    then show ?thesis
      using ep(2) nat_split_at [of r s sz] by (simp add: add.commute)
  qed (use 2 ep in auto)
qed simp

text \<open>What a step over an alternate setting gives.\<close>

definition alt_ok :: "bytes \<Rightarrow> int \<Rightarrow> int \<Rightarrow> alt_step \<Rightarrow> bool" where
  "alt_ok buffer sz parsed st \<longleftrightarrow> (case st of AltError r \<Rightarrow> r < 0 | AltStop \<Rightarrow> True
     | AltShort a p \<Rightarrow> parsed + 9 \<le> p \<and> p \<le> parsed + sz \<and> i_endpoint a = []
     | AltNext a b s p \<Rightarrow> 0 \<le> s \<and> s + 9 \<le> sz \<and> p = parsed + (sz - s) \<and> b = drop (nat (sz - s)) buffer \<and>
         i_bDescriptorType a = LIBUSB_DT_INTERFACE \<and> unat (i_bNumEndpoints a) = length (i_endpoint a) \<and> length (i_endpoint a) \<le> 32)"

lemma endpoints_error: "parse_endpoints n buffer sz parsed eps = Some (Inl r) \<Longrightarrow> r < 0"
  by (induction n buffer sz parsed eps rule: parse_endpoints.induct) (auto split: bind_splits if_splits)

lemma u8_of_count: "n \<le> 32 \<Longrightarrow> unat (word_of_nat n :: u8) = n"
  by (simp add: unat_of_nat)

lemma u8_le_32: "\<not> 32 < (x :: u8) \<Longrightarrow> unat x \<le> 32"
  by (simp add: word_less_nat_alt)

lemma u8_ge_9: "\<not> (x :: u8) < 9 \<Longrightarrow> 9 \<le> uint x"
  by (simp add: word_less_def)

lemma altsetting_bound:
  assumes run: "parse_altsetting buffer sz parsed = Some st" and nonneg: "0 \<le> sz"
  shows "alt_ok buffer sz parsed st"
proof -
  obtain fs n where fields: "usbi_parse_descriptor buffer ''bbbbbbbbb'' = Some (fs, n)"
    using run by (auto simp: parse_altsetting_def split: bind_splits)
  let ?a = "altsetting_of fs" and ?l = "uint (i_bLength (altsetting_of fs))"
  show ?thesis
  proof (cases "i_bDescriptorType ?a \<noteq> LIBUSB_DT_INTERFACE \<or> i_bLength ?a < 9 \<or> ?l > sz \<or> i_bNumEndpoints ?a > 32")
    case True
    with run fields show ?thesis
      by (auto simp: parse_altsetting_def Let_def alt_ok_def split: if_splits)
  next
    case False
    with run fields obtain skipped where
      skip: "skip_unknown [] (drop (unat (i_bLength ?a)) buffer) (sz - ?l) (parsed + ?l) None = Some skipped"
      by (auto simp: parse_altsetting_def Let_def split: bind_splits)
    note spec = skip_spec [OF skip]
    have l: "9 \<le> ?l" "unat (i_bLength ?a) = nat ?l"
      using False u8_ge_9 [of "i_bLength ?a"] by (simp_all only: unat_eq_nat_uint) simp_all
    show ?thesis
    proof (cases skipped)
      case Invalid
      with run fields False skip show ?thesis
        by (auto simp: parse_altsetting_def Let_def alt_ok_def)
    next
      case (TooLong b s p)
      with run fields False skip have "st = AltShort ?a p"
        by (simp add: parse_altsetting_def Let_def)
      then show ?thesis
        using spec TooLong l by (simp add: skip_result_def alt_ok_def altsetting_of_def)
    next
      case (Skipped e b s p h)
      with spec have s0: "s \<le> sz - ?l" "p = parsed + ?l + (sz - ?l - s)" "0 \<le> sz - ?l \<longrightarrow> 0 \<le> s"
        "b = drop (nat (sz - ?l - s)) (drop (unat (i_bLength ?a)) buffer)"
        by (simp_all add: skip_result_def)
      have "nat (sz - s) = nat ?l + nat (sz - ?l - s)"
        using nat_split_at [OF uint_ge_0 s0(1)] .
      then have b: "b = drop (nat (sz - s)) buffer"
        by (simp only: s0(4) l(2) drop_drop add.commute)
      have "0 \<le> sz - ?l"
        using False by linarith
      with s0(1,2,3) b have s: "s \<le> sz - ?l" "p = parsed + (sz - s)" "0 \<le> s" "b = drop (nat (sz - s)) buffer"
        by simp_all
      show ?thesis
      proof (cases "i_bNumEndpoints ?a > 0")
        case no: False
        with run fields False skip Skipped have "st = AltNext (?a\<lparr>i_extra := e\<rparr>) b s p"
          by (simp add: parse_altsetting_def Let_def)
        with False no s l show ?thesis
          by (simp add: alt_ok_def altsetting_of_def word_gt_0)
      next
        case some: True
        with run fields False skip Skipped obtain x where
          eps: "parse_endpoints (unat (i_bNumEndpoints ?a)) b s p [] = Some x"
          and st: "st = (case x of Inl r \<Rightarrow> AltError r | Inr (eps, b, s, p) \<Rightarrow>
            AltNext (?a\<lparr>i_extra := e, i_endpoint := eps, i_bNumEndpoints := word_of_nat (length eps)\<rparr>) b s p)"
          by (auto simp: parse_altsetting_def Let_def split: bind_splits sum.splits)
        show ?thesis
        proof (cases x)
          case (Inl r)
          with eps st endpoints_error show ?thesis
            by (fastforce simp: alt_ok_def)
        next
          case (Inr y)
          obtain eps' b' s' p' where y: "y = (eps', b', s', p')"
            by (cases y)
          with Inr eps have run': "parse_endpoints (unat (i_bNumEndpoints ?a)) b s p [] = Some (Inr (eps', b', s', p'))"
            by simp
          from endpoints_bound [OF run' s(3)] have e: "0 \<le> s'" "s' \<le> s" "p' = p + (s - s')" "b' = drop (nat (s - s')) b"
            "length eps' \<le> 32"
            using False u8_le_32 [of "i_bNumEndpoints ?a"] by auto
          have "b' = drop (nat (sz - s')) buffer"
            using e s l by (simp add: nat_add_distrib [symmetric])
          with False st Inr y e s l u8_of_count [OF e(5)] show ?thesis
            by (simp add: alt_ok_def altsetting_of_def)
        qed
      qed
    qed
  qed
qed

text \<open>The alternate settings of one interface; \<open>ifnum\<close> is the number of the first, -1 before.\<close>

function parse_altsettings :: "bytes \<Rightarrow> int \<Rightarrow> int \<Rightarrow> int \<Rightarrow> usb_interface \<Rightarrow> (int \<times> usb_interface) option" where
  "parse_altsettings buffer sz parsed ifnum ui =
     (if sz < 9 then Some (parsed, ui)
      else do {
        st \<leftarrow> parse_altsetting buffer sz parsed;
        (case st of
           AltError r \<Rightarrow> Some (r, ui\<lparr>array := False\<rparr>)
         | AltStop \<Rightarrow> Some (parsed, ui\<lparr>array := True\<rparr>)
         | AltShort a p \<Rightarrow> Some (p, \<lparr>array = True, altsetting = altsetting ui @ [a]\<rparr>)
         | AltNext a b s p \<Rightarrow>
             let ifnum = (if ifnum = -1 then uint (i_bInterfaceNumber a) else ifnum);
                 ui = \<lparr>array = True, altsetting = altsetting ui @ [a]\<rparr> in
             if s < 9 then Some (p, ui)
             else need 3 b (if b ! 1 \<noteq> LIBUSB_DT_INTERFACE \<or> uint (b ! 2) \<noteq> ifnum then Some (p, ui)
               else parse_altsettings b s p ifnum ui)) })"
  by auto

termination
  by (relation "measure (\<lambda>(_, sz, _, _, _). nat sz)") (auto dest!: altsetting_bound simp: alt_ok_def)

declare parse_altsettings.simps [simp del]

definition parse_interface :: "bytes \<Rightarrow> int \<Rightarrow> (int \<times> usb_interface) option" where
  "parse_interface buffer sz = parse_altsettings buffer sz 0 (-1) null_interface"

section \<open>Associations\<close>

definition association_of :: "field list \<Rightarrow> usb_association" where
  "association_of fs = \<lparr>a_bLength = fbyte (fs ! 0), a_bDescriptorType = fbyte (fs ! 1), a_bFirstInterface = fbyte (fs ! 2),
     a_bInterfaceCount = fbyte (fs ! 3), a_bFunctionClass = fbyte (fs ! 4), a_bFunctionSubClass = fbyte (fs ! 5),
     a_bFunctionProtocol = fbyte (fs ! 6), a_iFunction = fbyte (fs ! 7)\<rparr>"

text \<open>The array grows to the counted associations and one more; the counter is a byte.\<close>

definition add_association :: "usb_association \<Rightarrow> usb_config \<Rightarrow> usb_config" where
  "add_association a c = c\<lparr>c_association := take (unat (c_num_associations c)) (c_association c) @ [a],
     c_num_associations := c_num_associations c + 1\<rparr>"

definition parse_association :: "usb_config \<Rightarrow> bytes \<Rightarrow> int \<Rightarrow> (int \<times> usb_config) option" where
  "parse_association c buffer sz =
     (if sz < 2 then Some (LIBUSB_ERROR_IO, c)
      else do {
        (l, t) \<leftarrow> read_header buffer;
        if t \<noteq> LIBUSB_DT_ASSOCIATION then Some (0, c)
        else if uint l > sz then Some (0, c)
        else if l < 8 then Some (LIBUSB_ERROR_IO, c)
        else do {
          (fs, n) \<leftarrow> usbi_parse_descriptor buffer ''bbbbbbbb'';
          let c = add_association (association_of fs) c;
          skipped \<leftarrow> skip_unknown [] (drop (unat l) buffer) (sz - uint l) (uint l) None;
          (case skipped of
             Invalid \<Rightarrow> Some (LIBUSB_ERROR_IO, c)
           | TooLong b s parsed \<Rightarrow> Some (parsed, c)
           | Skipped extra b s parsed h \<Rightarrow> Some (parsed, c\<lparr>c_extra := c_extra c @ extra\<rparr>)) } })"

section \<open>Configurations\<close>

definition config_of :: "field list \<Rightarrow> usb_config" where
  "config_of fs = \<lparr>c_bLength = fbyte (fs ! 0), c_bDescriptorType = fbyte (fs ! 1), c_wTotalLength = fword (fs ! 2),
     c_bNumInterfaces = fbyte (fs ! 3), c_bConfigurationValue = fbyte (fs ! 4), c_iConfiguration = fbyte (fs ! 5),
     c_bmAttributes = fbyte (fs ! 6), c_MaxPower = fbyte (fs ! 7), c_interface = [], c_association = [],
     c_num_associations = 0, c_extra = []\<rparr>"

text \<open>
  The loop over associations and interfaces, with the number of interfaces parsed and the last header read, which is used
  even when the loop over unknown descriptors has read none.
\<close>

function parse_items :: "bytes \<Rightarrow> int \<Rightarrow> nat \<Rightarrow> (u8 \<times> u8) option \<Rightarrow> usb_config \<Rightarrow> (int \<times> usb_config) option" where
  "parse_items buffer sz parsed_if header c =
     (if parsed_if < unat (c_bNumInterfaces c) \<and> 0 < sz
      then do {
        skipped \<leftarrow> skip_unknown [] buffer sz 0 header;
        (case skipped of
           Invalid \<Rightarrow> Some (LIBUSB_ERROR_IO, c)
         | TooLong b s p \<Rightarrow> Some (s, c\<lparr>c_bNumInterfaces := word_of_nat parsed_if\<rparr>)
         | Skipped extra b s p header \<Rightarrow>
             let c = c\<lparr>c_extra := c_extra c @ extra\<rparr> in
             (case header of None \<Rightarrow> None
              | Some (l, t) \<Rightarrow> do {
                  (r, parsed_if, c) \<leftarrow> (if t = LIBUSB_DT_ASSOCIATION
                    then do { (r, c) \<leftarrow> parse_association c b s; Some (r, parsed_if, c) }
                    else do { (r, ui) \<leftarrow> parse_interface b s; Some (r, Suc parsed_if, c\<lparr>c_interface := c_interface c @ [ui]\<rparr>) });
                  if r < 0 then Some (r, c)
                  else if r = 0 then Some (s, c\<lparr>c_bNumInterfaces := word_of_nat parsed_if\<rparr>)
                  else parse_items (drop (nat r) b) (s - r) parsed_if header c })) }
      else Some (sz, c))"
  by auto

termination
  by (relation "measure (\<lambda>(_, sz, _, _, _). nat sz)") (auto dest!: skip_spec simp: skip_result_def)

declare parse_items.simps [simp del]

text \<open>The array of interfaces has as many entries as were announced, zero where nothing was parsed.\<close>

definition pad_interfaces :: "nat \<Rightarrow> usb_config \<Rightarrow> usb_config" where
  "pad_interfaces n c = c\<lparr>c_interface := c_interface c @ replicate (n - length (c_interface c)) null_interface\<rparr>"

definition parse_configuration :: "bytes \<Rightarrow> int \<Rightarrow> (int \<times> usb_config option) option" where
  "parse_configuration buffer sz =
     (if sz < 9 then Some (LIBUSB_ERROR_IO, None)
      else do {
        (fs, n) \<leftarrow> usbi_parse_descriptor buffer ''bbwbbbbb'';
        let c = config_of fs;
        if c_bDescriptorType c \<noteq> LIBUSB_DT_CONFIG \<or> c_bLength c < 9 \<or> uint (c_bLength c) > sz \<or> c_bNumInterfaces c > 32
        then Some (LIBUSB_ERROR_IO, None)
        else do {
          (r, c') \<leftarrow> parse_items (drop (unat (c_bLength c)) buffer) (sz - uint (c_bLength c)) 0 None c;
          Some (r, if r < 0 then None else Some (pad_interfaces (unat (c_bNumInterfaces c)) c')) } })"

definition raw_desc_to_config :: "bytes \<Rightarrow> int \<Rightarrow> (int \<times> usb_config option) option" where
  "raw_desc_to_config buf sz = do {
     (r, c) \<leftarrow> parse_configuration buf sz;
     Some (if r < 0 then (r, None) else (0, c)) }"

end
