(* ===== verification/Libusb_Safe.thy ===== *)
theory Libusb_Safe
  imports Libusb_Desc
begin

text \<open>
  The parsers stay inside the buffer they are given, and use one variable before it is written to; what a configuration
  that promises more interfaces than it describes does to \<open>libuvc\<close>.
\<close>

section \<open>Fields\<close>

fun fields_width :: "string \<Rightarrow> nat" where
  "fields_width [] = 0"
| "fields_width (c # cs) = (if c = CHR ''b'' then 1 else if c = CHR ''w'' then 2 else if c = CHR ''d'' then 4
     else if c = CHR ''u'' then 16 else 0) + fields_width cs"

lemma parse_fields_total:
  "fields_width cs \<le> length sp \<Longrightarrow> \<exists>fs. parse_fields cs sp = Some (fs, drop (fields_width cs) sp)"
proof (induction cs arbitrary: sp)
  case (Cons c cs)
  let ?w = "if c = CHR ''b'' then 1 else if c = CHR ''w'' then 2 else if c = CHR ''d'' then 4 else if c = CHR ''u'' then 16 else 0"
  have "fields_width cs \<le> length (drop ?w sp)"
    using Cons.prems by simp
  from Cons.IH [OF this] Cons.prems show ?case
    by (auto simp: add.commute)
qed simp

lemma descriptor_total:
  assumes "fields_width cs \<le> length sp"
  shows "\<exists>fs. usbi_parse_descriptor sp cs = Some (fs, fields_width cs)"
  using parse_fields_total [OF assms] assms by (auto simp: usbi_parse_descriptor_def)

lemma read_header_eq: "read_header buffer = (if length buffer < 2 then None else Some (buffer ! 0, buffer ! 1))"
  by (auto simp: read_header_def usbi_parse_descriptor_def need_def nth_drop)

section \<open>No access outside the buffer\<close>

lemma nat_le_drop: "0 \<le> r \<Longrightarrow> sz \<le> int (length buffer) \<Longrightarrow> sz - r \<le> int (length (drop (nat r) buffer))" for sz r :: int
  by simp

lemma uint_le_drop: "sz \<le> int (length buffer) \<Longrightarrow> sz - uint l \<le> int (length (drop (unat l) buffer))" for l :: u8
  using nat_le_drop [OF uint_ge_0, of sz buffer l] by (simp only: unat_eq_nat_uint)

lemma skip_safe: "sz \<le> int (length buffer) \<Longrightarrow> \<exists>r. skip_unknown extra buffer sz parsed h = Some r"
proof (induction extra buffer sz parsed h rule: skip_unknown.induct)
  case (1 extra buffer sz parsed h)
  show ?case
  proof (cases "sz < 2")
    case False
    with 1(2) have head: "read_header buffer = Some (buffer ! 0, buffer ! 1)"
      by (simp add: read_header_eq)
    show ?thesis
    proof (cases "buffer ! 0 < 2 \<or> uint (buffer ! 0) > sz \<or> is_known_descriptor_type (buffer ! 1)")
      case True
      with False head show ?thesis
        by (auto simp: skip_unknown.simps [of _ _ sz])
    next
      case unknown: False
      with 1(1) [OF False head refl] uint_le_drop [OF 1(2)] False head show ?thesis
        by (simp add: skip_unknown.simps [of _ _ sz])
    qed
  qed (simp add: skip_unknown.simps)
qed

lemma endpoint_safe:
  assumes "sz \<le> int (length buffer)"
  shows "\<exists>x. parse_endpoint buffer sz = Some x"
proof (cases "sz < 2 \<or> buffer ! 1 \<noteq> LIBUSB_DT_ENDPOINT \<or> uint (buffer ! 0) > sz \<or> buffer ! 0 < 7")
  case True
  with assms show ?thesis
    by (auto simp: parse_endpoint_def read_header_eq)
next
  case False
  let ?fmt = "if buffer ! 0 \<ge> 9 then ''bbbbwbbb'' else ''bbbbwb''"
  have "7 \<le> uint (buffer ! 0)" "buffer ! 0 \<ge> 9 \<Longrightarrow> 9 \<le> uint (buffer ! 0)"
    using False by (simp_all add: word_less_def word_le_def)
  then have "fields_width ?fmt \<le> length buffer"
    using False assms by auto
  from descriptor_total [OF this] obtain fs n where "usbi_parse_descriptor buffer ?fmt = Some (fs, n)"
    by blast
  moreover obtain r where
    "skip_unknown [] (drop (unat (buffer ! 0)) buffer) (sz - uint (buffer ! 0)) (uint (buffer ! 0)) None = Some r"
    using skip_safe [OF uint_le_drop [OF assms]] by blast
  ultimately show ?thesis
    using False assms by (cases r) (auto simp: parse_endpoint_def read_header_eq Let_def)
qed

lemma endpoints_safe: "0 \<le> sz \<Longrightarrow> sz \<le> int (length buffer) \<Longrightarrow> \<exists>x. parse_endpoints n buffer sz parsed eps = Some x"
proof (induction n buffer sz parsed eps rule: parse_endpoints.induct)
  case (2 n buffer sz parsed eps)
  obtain r ep where ep: "parse_endpoint buffer sz = Some (r, ep)"
    using endpoint_safe [OF 2(3)] by auto
  show ?case
  proof (cases "r \<le> 0")
    case False
    with 2(1) [OF ep refl] endpoint_bound [OF ep 2(2)] nat_le_drop [of r sz buffer] 2(3) ep show ?thesis
      by simp
  qed (use ep in auto)
qed simp

lemma altsetting_safe:
  assumes "9 \<le> sz" and "sz \<le> int (length buffer)"
  shows "\<exists>st. parse_altsetting buffer sz parsed = Some st"
proof -
  have "fields_width ''bbbbbbbbb'' \<le> length buffer"
    using assms by simp
  from descriptor_total [OF this] obtain fs n where fields: "usbi_parse_descriptor buffer ''bbbbbbbbb'' = Some (fs, n)"
    by blast
  let ?a = "altsetting_of fs"
  obtain r where skip:
    "skip_unknown [] (drop (unat (i_bLength ?a)) buffer) (sz - uint (i_bLength ?a)) (parsed + uint (i_bLength ?a)) None = Some r"
    using skip_safe [OF uint_le_drop [OF assms(2)]] by blast
  show ?thesis
  proof (cases "uint (i_bLength ?a) > sz")
    case True
    with fields show ?thesis
      by (simp add: parse_altsetting_def Let_def)
  next
    case False
    show ?thesis
    proof (cases r)
      case (Skipped e b s p h)
      from skip_spec [OF skip] Skipped False have "0 \<le> s" "s \<le> sz - uint (i_bLength ?a)"
        and b: "b = drop (nat (sz - uint (i_bLength ?a) - s)) (drop (unat (i_bLength ?a)) buffer)"
        by (simp_all add: skip_result_def)
      moreover have "s \<le> int (length b)"
        using nat_le_drop [OF _ uint_le_drop [OF assms(2)], of "sz - uint (i_bLength ?a) - s" "i_bLength ?a"] calculation
        by simp
      ultimately obtain x where "parse_endpoints (unat (i_bNumEndpoints ?a)) b s p [] = Some x"
        using endpoints_safe by blast
      with fields skip Skipped show ?thesis
        by (cases x) (auto simp: parse_altsetting_def Let_def split: prod.splits)
    qed (use fields skip in \<open>simp_all add: parse_altsetting_def Let_def\<close>)
  qed
qed

lemma altsettings_safe:
  "0 \<le> sz \<Longrightarrow> sz \<le> int (length buffer) \<Longrightarrow> \<exists>x. parse_altsettings buffer sz parsed ifnum ui = Some x"
proof (induction buffer sz parsed ifnum ui rule: parse_altsettings.induct)
  case (1 buffer sz parsed ifnum ui)
  show ?case
  proof (cases "sz < 9")
    case False
    then obtain st where st: "parse_altsetting buffer sz parsed = Some st"
      using altsetting_safe [of sz buffer parsed] 1(3) by auto
    show ?thesis
    proof (cases st)
      case (AltNext a b s p)
      with altsetting_bound [OF st 1(2)] have s: "0 \<le> s" "s \<le> sz" "b = drop (nat (sz - s)) buffer"
        by (simp_all add: alt_ok_def)
      then have len: "s \<le> int (length b)"
        using nat_le_drop [of "sz - s" sz buffer] 1(3) by simp
      show ?thesis
      proof (cases "s < 9 \<or> b ! 1 \<noteq> LIBUSB_DT_INTERFACE \<or>
          uint (b ! 2) \<noteq> (if ifnum = -1 then uint (i_bInterfaceNumber a) else ifnum)")
        case True
        with False st AltNext len show ?thesis
          by (auto simp: parse_altsettings.simps [of _ sz] need_def Let_def)
      next
        case more: False
        with 1(1) [OF False st AltNext refl refl _ _ s(1) len] False st AltNext len show ?thesis
          by (simp add: parse_altsettings.simps [of _ sz] Let_def)
      qed
    qed (use False st in \<open>simp_all add: parse_altsettings.simps [of _ sz]\<close>)
  qed (simp add: parse_altsettings.simps)
qed

lemma association_safe:
  assumes "sz \<le> int (length buffer)"
  shows "\<exists>x. parse_association c buffer sz = Some x"
proof (cases "sz < 2 \<or> buffer ! 1 \<noteq> LIBUSB_DT_ASSOCIATION \<or> uint (buffer ! 0) > sz \<or> buffer ! 0 < 8")
  case True
  with assms show ?thesis
    by (auto simp: parse_association_def read_header_eq)
next
  case False
  then have "8 \<le> uint (buffer ! 0)"
    by (simp add: word_less_def)
  then have "fields_width ''bbbbbbbb'' \<le> length buffer"
    using False assms by auto
  from descriptor_total [OF this] obtain fs n where "usbi_parse_descriptor buffer ''bbbbbbbb'' = Some (fs, n)"
    by blast
  moreover obtain r where
    "skip_unknown [] (drop (unat (buffer ! 0)) buffer) (sz - uint (buffer ! 0)) (uint (buffer ! 0)) None = Some r"
    using skip_safe [OF uint_le_drop [OF assms]] by blast
  ultimately show ?thesis
    using False assms by (cases r) (auto simp: parse_association_def read_header_eq Let_def)
qed

text \<open>How far an item moves.\<close>

lemma association_bound:
  assumes "parse_association c buffer sz = Some (r, c')" and "0 \<le> sz"
  shows "r \<le> sz"
proof (cases "r \<le> 0")
  case False
  have big: "\<not> sz < 2"
    using assms(1) False by (auto simp: parse_association_def)
  with assms(1) obtain l t where head: "read_header buffer = Some (l, t)"
    by (auto simp: parse_association_def split: bind_splits)
  have l: "uint l \<le> sz" "\<not> l < 8" "t = LIBUSB_DT_ASSOCIATION"
    using assms(1) big False by (auto simp: parse_association_def head split: if_splits)
  with assms(1) big head obtain fs n where "usbi_parse_descriptor buffer ''bbbbbbbb'' = Some (fs, n)"
    by (cases "usbi_parse_descriptor buffer ''bbbbbbbb''") (auto simp: parse_association_def)
  moreover from this assms(1) big head l obtain skipped where
    skip: "skip_unknown [] (drop (unat l) buffer) (sz - uint l) (uint l) None = Some skipped"
    by (auto simp: parse_association_def Let_def split: bind_splits)
  ultimately show ?thesis
    using skip_spec [OF skip] assms(1) big head l False
    by (cases skipped) (auto simp: parse_association_def Let_def skip_result_def)
qed (use assms(2) in simp)

lemma altsettings_bound:
  "parse_altsettings buffer sz parsed ifnum ui = Some (r, ui') \<Longrightarrow> 0 \<le> sz \<Longrightarrow> 0 \<le> parsed \<Longrightarrow> r \<le> parsed + sz"
proof (induction buffer sz parsed ifnum ui rule: parse_altsettings.induct)
  case (1 buffer sz parsed ifnum ui)
  show ?case
  proof (cases "sz < 9")
    case False
    with 1(2) obtain st where st: "parse_altsetting buffer sz parsed = Some st"
      by (auto simp: parse_altsettings.simps [of _ sz] split: bind_splits)
    note ok = altsetting_bound [OF st 1(3)]
    show ?thesis
    proof (cases st)
      case (AltNext a b s p)
      let ?n = "if ifnum = -1 then uint (i_bInterfaceNumber a) else ifnum"
      show ?thesis
      proof (cases "s < 9 \<or> b ! 1 \<noteq> LIBUSB_DT_INTERFACE \<or> uint (b ! 2) \<noteq> ?n")
        case True
        with False st AltNext 1(2) ok 1(4) show ?thesis
          by (auto simp: parse_altsettings.simps [of _ sz] need_def Let_def alt_ok_def split: if_splits)
      next
        case more: False
        with False st AltNext 1(2) have "parse_altsettings b s p ?n \<lparr>array = True, altsetting = altsetting ui @ [a]\<rparr> = Some (r, ui')"
          by (auto simp: parse_altsettings.simps [of _ sz] Let_def need_def split: if_splits)
        with 1(1) [OF False st AltNext refl refl _ _ this] more ok AltNext 1(4) show ?thesis
          by (simp add: alt_ok_def)
      qed
    qed (use False st 1(2,3,4) ok in \<open>auto simp: parse_altsettings.simps [of _ sz] alt_ok_def\<close>)
  qed (use 1(2,3) in \<open>simp add: parse_altsettings.simps\<close>)
qed

lemma skip_header:
  "skip_unknown extra buffer sz parsed h = Some (Skipped e b s p h') \<Longrightarrow> h \<noteq> None \<or> 2 \<le> sz \<Longrightarrow> h' \<noteq> None"
proof (induction extra buffer sz parsed h rule: skip_unknown.induct)
  case (1 extra buffer sz parsed h)
  show ?case
  proof (cases "sz < 2")
    case False
    with 1(2) obtain l t where head: "read_header buffer = Some (l, t)"
      by (auto simp: skip_unknown.simps [of _ _ sz] split: option.splits)
    show ?thesis
    proof (cases "is_known_descriptor_type t")
      case True
      with False head 1(2) have "h' = Some (l, t)"
        by (auto simp: skip_unknown.simps [of _ _ sz] split: if_splits)
      then show ?thesis
        by simp
    next
      case unknown: False
      with 1(1) [OF False head refl] 1(2) False head show ?thesis
        by (auto simp: skip_unknown.simps [of _ _ sz] split: if_splits)
    qed
  qed (use 1(2,3) in \<open>auto simp: skip_unknown.simps\<close>)
qed

lemma items_safe:
  "0 \<le> sz \<Longrightarrow> sz \<le> int (length buffer) \<Longrightarrow> h \<noteq> None \<or> sz \<noteq> 1 \<Longrightarrow> \<exists>x. parse_items buffer sz parsed_if h c = Some x"
proof (induction buffer sz parsed_if h c rule: parse_items.induct)
  case (1 buffer sz parsed_if h c)
  show ?case
  proof (cases "parsed_if < unat (c_bNumInterfaces c) \<and> 0 < sz")
    case True
    obtain st where st: "skip_unknown [] buffer sz 0 h = Some st"
      using skip_safe [OF 1(3)] by blast
    note spec = skip_spec [OF st]
    show ?thesis
    proof (cases st)
      case (Skipped extra b s p h')
      let ?c = "c\<lparr>c_extra := c_extra c @ extra\<rparr>"
      obtain l t where h': "h' = Some (l, t)"
        using skip_header [OF st [unfolded Skipped]] 1(4) True by fastforce
      from spec Skipped 1(2) have s: "0 \<le> s" "s \<le> sz" "b = drop (nat (sz - s)) buffer"
        by (simp_all add: skip_result_def)
      then have len: "s \<le> int (length b)"
        using nat_le_drop [of "sz - s" sz buffer] 1(3) by simp
      define item where "item = (if t = LIBUSB_DT_ASSOCIATION
          then do { (r, c) \<leftarrow> parse_association ?c b s; Some (r, parsed_if, c) }
          else do { (r, ui) \<leftarrow> parse_interface b s; Some (r, Suc parsed_if, ?c\<lparr>c_interface := c_interface ?c @ [ui]\<rparr>) })"
      obtain r n2 c2 where item: "item = Some (r, n2, c2)" and r: "r \<le> s"
      proof (cases "t = LIBUSB_DT_ASSOCIATION")
        case assoc: True
        obtain r c2 where "parse_association ?c b s = Some (r, c2)"
          using association_safe [OF len] by fast
        with assoc that association_bound [OF this s(1)] show ?thesis
          by (simp add: item_def)
      next
        case other: False
        obtain r ui where i: "parse_interface b s = Some (r, ui)"
          using altsettings_safe [OF s(1) len, of 0 "-1" null_interface] by (auto simp: parse_interface_def)
        with altsettings_bound [OF i [unfolded parse_interface_def] s(1)] other that show ?thesis
          by (simp add: item_def)
      qed
      show ?thesis
      proof (cases "r \<le> 0")
        case True
        with \<open>parsed_if < _ \<and> 0 < sz\<close> st Skipped h' item show ?thesis
          by (auto simp: parse_items.simps [of _ sz] Let_def item_def [symmetric])
      next
        case False
        then have "0 \<le> s - r" "s - r \<le> int (length (drop (nat r) b))"
          using r nat_le_drop [of r s b] len by simp_all
        with 1(1) [OF True st Skipped refl h' refl item [unfolded item_def] refl refl] False True st Skipped h' item
        show ?thesis
          by (simp add: parse_items.simps [of _ sz] Let_def item_def [symmetric])
      qed
    qed (use True st in \<open>simp_all add: parse_items.simps [of _ sz]\<close>)
  qed (auto simp: parse_items.simps)
qed

text \<open>C20. On a buffer that holds the bytes it is said to, parsing a configuration never reads outside it and uses no undefined value, whatever
  the bytes, with one exception: when exactly one byte follows a well-formed configuration header that announces interfaces, the type of a
  descriptor that was never read decides what is parsed next.\<close>

theorem parse_configuration_undefined_iff:
  assumes "sz \<le> int (length buffer)"
  shows "parse_configuration buffer sz = None \<longleftrightarrow>
    9 \<le> sz \<and> buffer ! 1 = LIBUSB_DT_CONFIG \<and> 9 \<le> buffer ! 0 \<and> sz = uint (buffer ! 0) + 1 \<and> 0 < buffer ! 4 \<and> buffer ! 4 \<le> 32"
proof (cases "sz < 9")
  case False
  have len9: "9 \<le> length buffer"
    using assms False by linarith
  have fields: "usbi_parse_descriptor buffer ''bbwbbbbb'' = Some ([FByte (buffer ! 0), FByte (buffer ! 1), FWord (get_sw (drop 2 buffer)),
      FByte (buffer ! 4), FByte (buffer ! 5), FByte (buffer ! 6), FByte (buffer ! 7), FByte (buffer ! 8)], 9)"
  proof -
    obtain b0 b1 b2 b3 b4 b5 b6 b7 b8 rest where "buffer = b0 # b1 # b2 # b3 # b4 # b5 # b6 # b7 # b8 # rest"
      using len9 by (auto simp: numeral_eq_Suc Suc_le_length_iff)
    then show ?thesis
      by (simp add: usbi_parse_descriptor_def need_def)
  qed
  obtain c where c: "config_of [FByte (buffer ! 0), FByte (buffer ! 1), FWord (get_sw (drop 2 buffer)),
      FByte (buffer ! 4), FByte (buffer ! 5), FByte (buffer ! 6), FByte (buffer ! 7), FByte (buffer ! 8)] = c"
    and n: "c_bLength c = buffer ! 0" "c_bDescriptorType c = buffer ! 1" "c_bNumInterfaces c = buffer ! 4"
    by (simp add: config_of_def)
  show ?thesis
  proof (cases "buffer ! 1 \<noteq> LIBUSB_DT_CONFIG \<or> buffer ! 0 < 9 \<or> uint (buffer ! 0) > sz \<or> buffer ! 4 > 32")
    case True
    with False fields c n show ?thesis
      by (auto simp: parse_configuration_def not_le)
  next
    case ok: False
    let ?b = "drop (unat (buffer ! 0)) buffer" and ?s = "sz - uint (buffer ! 0)"
    have run: "parse_configuration buffer sz = None \<longleftrightarrow> parse_items ?b ?s 0 None c = None"
      using False ok fields c n by (auto simp: parse_configuration_def split: bind_splits)
    have len: "?s \<le> int (length ?b)"
      by (rule uint_le_drop [OF assms])
    show ?thesis
    proof (cases "?s = 1")
      case True
      have "parse_items ?b 1 0 None c = None \<longleftrightarrow> 0 < buffer ! 4"
        by (simp add: parse_items.simps skip_unknown.simps [of _ _ 1] n word_gt_0 unat_gt_0)
      with True run ok False show ?thesis
        by (auto simp: not_less)
    next
      case other: False
      with items_safe [OF _ len, of None 0 c] ok run show ?thesis
        by auto
    qed
  qed
qed (simp add: parse_configuration_def)

text \<open>A configuration header with one interface and one byte after it.\<close>

theorem parse_configuration_undefined_iff_witness:
  "parse_configuration [9, 2, 10, 0, 1, 1, 0, 0, 0, 7] 10 = None"
  using parse_configuration_undefined_iff [of 10 "[9, 2, 10, 0, 1, 1, 0, 0, 0, 7]"] by simp

section \<open>Interfaces announced and not there\<close>

text \<open>The configuration as \<open>libuvc\<close> sees it.\<close>

definition to_uvc_endpoint :: "usb_endpoint \<Rightarrow> libusb_endpoint_descriptor" where
  "to_uvc_endpoint e = \<lparr>ep_bEndpointAddress = e_bEndpointAddress e, ep_wMaxPacketSize = e_wMaxPacketSize e, ep_extra = e_extra e\<rparr>"

definition to_uvc_altsetting :: "usb_altsetting \<Rightarrow> libusb_interface_descriptor" where
  "to_uvc_altsetting i = \<lparr>if_bInterfaceNumber = i_bInterfaceNumber i, if_bAlternateSetting = i_bAlternateSetting i,
     if_bInterfaceClass = i_bInterfaceClass i, if_bInterfaceSubClass = i_bInterfaceSubClass i,
     if_endpoint = map to_uvc_endpoint (i_endpoint i), if_extra = i_extra i\<rparr>"

definition to_uvc :: "usb_config \<Rightarrow> libusb_config_descriptor" where
  "to_uvc c = map (\<lambda>i. map to_uvc_altsetting (altsetting i)) (c_interface c)"

text \<open>A device that answers with a configuration header alone, announcing \<open>n\<close> interfaces, is accepted: the configuration has
  \<open>n\<close> interfaces with a null array of settings, and \<open>libuvc\<close> dereferences the first of them when it looks for the control interface.\<close>

theorem missing_interfaces_crash:
  assumes "0 < n" and "n \<le> 32"
  shows "\<exists>c. raw_desc_to_config [9, 2, t1, t2, n, v, i, a, p] 9 = Some (0, Some c) \<and>
    c_bNumInterfaces c = n \<and> c_interface c = replicate (unat n) null_interface \<and>
    uvc_scan_control idVendor idProduct (zero_info (to_uvc c)) = None"
proof -
  let ?c = "\<lparr>c_bLength = 9, c_bDescriptorType = 2, c_wTotalLength = get_sw [t1, t2, n, v, i, a, p], c_bNumInterfaces = n,
    c_bConfigurationValue = v, c_iConfiguration = i, c_bmAttributes = a, c_MaxPower = p,
    c_interface = replicate (unat n) null_interface, c_association = [], c_num_associations = 0, c_extra = []\<rparr>"
  have "raw_desc_to_config [9, 2, t1, t2, n, v, i, a, p] 9 = Some (0, Some ?c)"
    using assms
    by (simp add: raw_desc_to_config_def parse_configuration_def usbi_parse_descriptor_def config_of_def parse_items.simps
        pad_interfaces_def need_def not_less Let_def)
  moreover obtain k where "unat n = Suc k"
    using assms(1) by (metis gr0_implies_Suc unat_gt_0 word_gt_0)
  ultimately show ?thesis
    by (intro exI [of _ ?c]) (simp add: to_uvc_def null_interface_def uvc_scan_control_def zero_info_def)
qed

theorem missing_interfaces_crash_witness:
  "\<exists>c. raw_desc_to_config [9, 2, 9, 0, 1, 1, 0, 0x80, 50] 9 = Some (0, Some c) \<and> uvc_scan_control 0 0 (zero_info (to_uvc c)) = None"
  using missing_interfaces_crash [of 1 9 0 1 0 "0x80" 50 0 0] by auto

text \<open>A setting whose class descriptors are cut off keeps the number of endpoints of its header, with none parsed.\<close>

lemma short_extra_null_endpoints:
  assumes "0 < n" and "n \<le> 32" and "2 < l"
  shows "parse_interface ([9, 4, num, alt, n, cl, sub, pr, i] @ [l, 0x24]) 11 = Some (9, \<lparr>array = True,
    altsetting = [\<lparr>i_bLength = 9, i_bDescriptorType = 4, i_bInterfaceNumber = num, i_bAlternateSetting = alt, i_bNumEndpoints = n,
      i_bInterfaceClass = cl, i_bInterfaceSubClass = sub, i_bInterfaceProtocol = pr, i_iInterface = i, i_endpoint = [], i_extra = []\<rparr>]\<rparr>)"
proof -
  have "\<not> l < 2" "\<not> uint l \<le> 2" "\<not> 32 < n"
    using assms by (simp_all add: word_less_def not_less word_le_def)
  then show ?thesis
    by (simp add: parse_interface_def parse_altsettings.simps parse_altsetting_def usbi_parse_descriptor_def altsetting_of_def
        need_def skip_unknown.simps read_header_eq null_interface_def)
qed

end
