(* ===== verification/Libusb_Scan.thy ===== *)
theory Libusb_Scan
  imports Libusb_Safe
begin

text \<open>
  The bytes \<open>libusb\<close> keeps for \<open>libuvc\<close> (\<open>extra\<close> of a setting and of an endpoint) are whole blocks, each as long as
  it says and of two bytes at least, so that the loops of \<open>uvc_scan_control\<close> and \<open>uvc_scan_streaming\<close>, which do not check a
  length, go from block to block and end.
\<close>

section \<open>Whole blocks\<close>

definition whole_block :: "bytes \<Rightarrow> bool" where
  "whole_block b \<longleftrightarrow> 2 \<le> length b \<and> unat (hd b) = length b"

definition blocked :: "bytes \<Rightarrow> bool" where
  "blocked e \<longleftrightarrow> (\<exists>bs. e = concat bs \<and> (\<forall>b \<in> set bs. whole_block b))"

lemma blocked_Nil [simp]: "blocked []"
  unfolding blocked_def by (intro exI [of _ "[]"]) simp

lemma blocked_snoc:
  assumes "blocked e" and "whole_block b"
  shows "blocked (e @ b)"
proof -
  from assms(1) obtain bs where "e = concat bs" "\<forall>b \<in> set bs. whole_block b"
    by (auto simp: blocked_def)
  with assms(2) show ?thesis
    unfolding blocked_def by (intro exI [of _ "bs @ [b]"]) auto
qed

lemma skip_blocked:
  "skip_unknown extra buffer sz parsed h = Some (Skipped e b s p h') \<Longrightarrow> sz \<le> int (length buffer) \<Longrightarrow> blocked extra \<Longrightarrow> blocked e"
proof (induction extra buffer sz parsed h rule: skip_unknown.induct)
  case (1 extra buffer sz parsed h)
  show ?case
  proof (cases "sz < 2")
    case True
    with 1(2,4) show ?thesis
      by (auto simp: skip_unknown.simps)
  next
    case False
    with 1(2) obtain l t where head: "read_header buffer = Some (l, t)"
      by (auto simp: skip_unknown.simps [of _ _ sz] split: option.splits)
    show ?thesis
    proof (cases "l < 2 \<or> uint l > sz \<or> is_known_descriptor_type t")
      case True
      with False head 1(2,4) show ?thesis
        by (auto simp: skip_unknown.simps [of _ _ sz] split: if_splits)
    next
      case unknown: False
      have "2 \<le> length buffer" "l = buffer ! 0"
        using head by (simp_all add: read_header_eq split: if_splits)
      moreover have "2 \<le> uint l" "uint l \<le> int (length buffer)"
        using unknown block_length [of l] 1(3) by auto
      then have "2 \<le> unat l" "unat l \<le> length buffer"
        unfolding unat_eq_nat_uint by linarith+
      ultimately have "whole_block (take (unat l) buffer)"
        by (cases buffer) (simp_all add: whole_block_def)
      with 1(4) have "blocked (extra @ take (unat l) buffer)"
        by (rule blocked_snoc)
      with 1(1) [OF False head refl] uint_le_drop [OF 1(3)] 1(2) False head unknown show ?thesis
        by (simp add: skip_unknown.simps [of _ _ sz])
    qed
  qed
qed

lemma skip_rest:
  assumes "skip_unknown extra buffer sz parsed h = Some (Skipped e b s p h')" and "sz \<le> int (length buffer)"
  shows "s \<le> int (length b)"
  using skip_spec [OF assms(1)] nat_le_drop [of "sz - s" sz buffer] assms(2) by (auto simp: skip_result_def)

section \<open>A configuration\<close>

lemma endpoint_blocked:
  assumes "parse_endpoint buffer sz = Some (r, ep)" and "sz \<le> int (length buffer)"
  shows "blocked (e_extra ep)"
proof (cases "e_extra ep = []")
  case False
  with assms(1) have big: "\<not> sz < 2"
    by (auto simp: parse_endpoint_def zero_endpoint_def)
  with assms(1) obtain l t where head: "read_header buffer = Some (l, t)"
    by (auto simp: parse_endpoint_def split: bind_splits)
  let ?fmt = "if l \<ge> 9 then ''bbbbwbbb'' else ''bbbbwb''"
  have l: "\<not> uint l > sz" "\<not> l < 7" "t = LIBUSB_DT_ENDPOINT"
    using assms(1) big False by (auto simp: parse_endpoint_def head zero_endpoint_def split: if_splits)
  then obtain fs n where "usbi_parse_descriptor buffer ?fmt = Some (fs, n)"
    using assms(1) big by (cases "usbi_parse_descriptor buffer ?fmt") (auto simp: parse_endpoint_def head)
  with assms(1) big head l have run: "do { skipped \<leftarrow> skip_unknown [] (drop (unat l) buffer) (sz - uint l) (uint l) None;
      (case skipped of Invalid \<Rightarrow> Some (LIBUSB_ERROR_IO, endpoint_of fs) | TooLong b s parsed \<Rightarrow> Some (parsed, endpoint_of fs)
        | Skipped extra b s parsed h \<Rightarrow> Some (parsed, (endpoint_of fs)\<lparr>e_extra := extra\<rparr>)) } = Some (r, ep)"
    by (simp add: parse_endpoint_def Let_def)
  then obtain skipped where skip: "skip_unknown [] (drop (unat l) buffer) (sz - uint l) (uint l) None = Some skipped"
    by (auto split: bind_splits)
  show ?thesis
    using run skip False skip_blocked [OF _ uint_le_drop [OF assms(2)]]
    by (cases skipped) (auto simp: endpoint_of_def)
qed simp

lemma endpoints_blocked:
  "parse_endpoints n buffer sz parsed eps = Some (Inr (eps', b, s, p)) \<Longrightarrow> sz \<le> int (length buffer) \<Longrightarrow>
   \<forall>e \<in> set eps. blocked (e_extra e) \<Longrightarrow> \<forall>e \<in> set eps'. blocked (e_extra e)"
proof (induction n buffer sz parsed eps rule: parse_endpoints.induct)
  case (2 n buffer sz parsed eps)
  then obtain r ep where ep: "parse_endpoint buffer sz = Some (r, ep)" "0 \<le> r"
    by (auto split: bind_splits if_splits)
  show ?case
  proof (cases "r = 0")
    case False
    then have "parse_endpoints n (drop (nat r) buffer) (sz - r) (parsed + r) (eps @ [ep]) = Some (Inr (eps', b, s, p))"
      using 2(2) ep by simp
    moreover have "\<forall>e \<in> set (eps @ [ep]). blocked (e_extra e)"
      using endpoint_blocked [OF ep(1) 2(3)] 2(4) by simp
    ultimately show ?thesis
      using 2(1) [OF ep(1) refl] ep(2) False nat_le_drop [OF ep(2) 2(3)] by simp
  qed (use 2(2,4) ep in auto)
qed simp

definition setting_blocked :: "usb_altsetting \<Rightarrow> bool" where
  "setting_blocked a \<longleftrightarrow> blocked (i_extra a) \<and> (\<forall>e \<in> set (i_endpoint a). blocked (e_extra e))"

lemma altsetting_blocked:
  assumes "parse_altsetting buffer sz parsed = Some st" and "sz \<le> int (length buffer)"
  shows "case st of AltShort a p \<Rightarrow> setting_blocked a | AltNext a b s p \<Rightarrow> setting_blocked a | _ \<Rightarrow> True"
proof -
  obtain fs n where fs: "usbi_parse_descriptor buffer ''bbbbbbbbb'' = Some (fs, n)"
    using assms(1) by (auto simp: parse_altsetting_def split: bind_splits)
  define a where "a = altsetting_of fs"
  have a: "i_extra a = []" "i_endpoint a = []"
    by (simp_all add: a_def altsetting_of_def)
  show ?thesis
  proof (cases "i_bDescriptorType a \<noteq> LIBUSB_DT_INTERFACE \<or> i_bLength a < 9 \<or> uint (i_bLength a) > sz \<or> i_bNumEndpoints a > 32")
    case True
    with assms(1) fs show ?thesis
      by (auto simp: parse_altsetting_def a_def Let_def split: if_splits)
  next
    case False
    let ?l = "i_bLength a"
    from False assms(1) fs obtain skipped where skip: "skip_unknown [] (drop (unat ?l) buffer) (sz - uint ?l) (parsed + uint ?l) None = Some skipped"
      by (auto simp: parse_altsetting_def a_def [symmetric] Let_def split: bind_splits)
    show ?thesis
    proof (cases skipped)
      case Invalid
      with assms(1) fs skip False show ?thesis
        by (auto simp: parse_altsetting_def a_def [symmetric] Let_def)
    next
      case (TooLong b s p)
      with assms(1) fs skip False a show ?thesis
        by (auto simp: parse_altsetting_def a_def [symmetric] Let_def setting_blocked_def)
    next
      case (Skipped extra b s p h)
      have extra: "blocked extra"
        using skip_blocked [OF skip [unfolded Skipped] uint_le_drop [OF assms(2)]] by simp
      note rest = skip_rest [OF skip [unfolded Skipped] uint_le_drop [OF assms(2)]]
      show ?thesis
      proof (cases "i_bNumEndpoints a > 0")
        case more: True
        with assms(1) fs skip False Skipped obtain y where "parse_endpoints (unat (i_bNumEndpoints a)) b s p [] = Some y"
          by (auto simp: parse_altsetting_def a_def [symmetric] Let_def split: bind_splits)
        with more assms(1) fs skip False Skipped extra endpoints_blocked [OF _ rest] show ?thesis
          by (cases y) (auto simp: parse_altsetting_def a_def [symmetric] Let_def setting_blocked_def)
      next
        case none: False
        with assms(1) fs skip False Skipped extra a show ?thesis
          by (auto simp: parse_altsetting_def a_def [symmetric] Let_def setting_blocked_def)
      qed
    qed
  qed
qed

definition interface_blocked :: "usb_interface \<Rightarrow> bool" where
  "interface_blocked ui \<longleftrightarrow> (\<forall>a \<in> set (altsetting ui). setting_blocked a)"

lemma altsettings_blocked:
  "parse_altsettings buffer sz parsed ifnum ui = Some (r, ui') \<Longrightarrow> 0 \<le> sz \<Longrightarrow> sz \<le> int (length buffer) \<Longrightarrow> interface_blocked ui \<Longrightarrow>
   interface_blocked ui'"
proof (induction buffer sz parsed ifnum ui rule: parse_altsettings.induct)
  case (1 buffer sz parsed ifnum ui)
  show ?case
  proof (cases "sz < 9")
    case False
    with 1(2) obtain st where st: "parse_altsetting buffer sz parsed = Some st"
      by (auto simp: parse_altsettings.simps [of _ sz] split: bind_splits)
    note ok = altsetting_bound [OF st 1(3)] and settings = altsetting_blocked [OF st 1(4)]
    show ?thesis
    proof (cases st)
      case (AltNext a b s p)
      let ?n = "if ifnum = -1 then uint (i_bInterfaceNumber a) else ifnum"
      let ?ui = "\<lparr>array = True, altsetting = altsetting ui @ [a]\<rparr>"
      have ui: "interface_blocked ?ui"
        using 1(5) settings AltNext by (auto simp: interface_blocked_def)
      have s: "0 \<le> s" "s \<le> sz" "b = drop (nat (sz - s)) buffer"
        using ok AltNext by (simp_all add: alt_ok_def)
      show ?thesis
      proof (cases "s < 9 \<or> b ! 1 \<noteq> LIBUSB_DT_INTERFACE \<or> uint (b ! 2) \<noteq> ?n")
        case True
        with False st AltNext 1(2) ui show ?thesis
          by (auto simp: parse_altsettings.simps [of _ sz] need_def Let_def split: if_splits)
      next
        case more: False
        with False st AltNext 1(2) have "parse_altsettings b s p ?n ?ui = Some (r, ui')"
          by (auto simp: parse_altsettings.simps [of _ sz] Let_def need_def split: if_splits)
        from 1(1) [OF False st AltNext refl refl _ _ this s(1)] more ui s nat_le_drop [of "sz - s" sz buffer] 1(4) show ?thesis
          by simp
      qed
    next
      case (AltShort a p)
      with False st 1(2,5) settings show ?thesis
        by (auto simp: parse_altsettings.simps [of _ sz] interface_blocked_def)
    qed (use False st 1(2,5) in \<open>auto simp: parse_altsettings.simps [of _ sz] interface_blocked_def\<close>)
  qed (use 1(2,5) in \<open>simp add: parse_altsettings.simps\<close>)
qed

lemma association_interfaces:
  assumes "parse_association c buffer sz = Some (r, c')"
  shows "c_interface c' = c_interface c"
proof -
  have "c_interface (add_association a c) = c_interface c" for a
    by (simp add: add_association_def)
  with assms show ?thesis
    by (auto simp: parse_association_def Let_def split: if_splits bind_splits skip.splits)
qed

definition config_blocked :: "usb_config \<Rightarrow> bool" where
  "config_blocked c \<longleftrightarrow> (\<forall>ui \<in> set (c_interface c). interface_blocked ui)"

lemma item_blocked:
  assumes "(if t = LIBUSB_DT_ASSOCIATION
      then do { (r, c) \<leftarrow> parse_association c b s; Some (r, parsed_if, c) }
      else do { (r, ui) \<leftarrow> parse_interface b s; Some (r, Suc parsed_if, c\<lparr>c_interface := c_interface c @ [ui]\<rparr>) }) = Some (r, n, c')"
    and "0 \<le> s" and "s \<le> int (length b)" and "config_blocked c"
  shows "config_blocked c' \<and> r \<le> s"
proof (cases "t = LIBUSB_DT_ASSOCIATION")
  case True
  with assms(1) have "parse_association c b s = Some (r, c')"
    by (auto split: bind_splits)
  from association_interfaces [OF this] association_bound [OF this assms(2)] assms(4) show ?thesis
    by (simp add: config_blocked_def)
next
  case False
  with assms(1) obtain ui where ui: "parse_interface b s = Some (r, ui)" "c' = c\<lparr>c_interface := c_interface c @ [ui]\<rparr>"
    by (auto split: bind_splits)
  have "interface_blocked null_interface"
    by (simp add: interface_blocked_def null_interface_def)
  with altsettings_blocked [OF ui(1) [unfolded parse_interface_def] assms(2,3)] have "interface_blocked ui" .
  with altsettings_bound [OF ui(1) [unfolded parse_interface_def] assms(2)] ui(2) assms(4) show ?thesis
    by (auto simp: config_blocked_def)
qed

lemma items_blocked:
  "parse_items buffer sz parsed_if h c = Some (r, c') \<Longrightarrow> 0 \<le> sz \<Longrightarrow> sz \<le> int (length buffer) \<Longrightarrow> config_blocked c \<Longrightarrow> config_blocked c'"
proof (induction buffer sz parsed_if h c rule: parse_items.induct)
  case (1 buffer sz parsed_if h c)
  show ?case
  proof (cases "parsed_if < unat (c_bNumInterfaces c) \<and> 0 < sz")
    case True
    with 1(2) obtain st where st: "skip_unknown [] buffer sz 0 h = Some st"
      by (auto simp: parse_items.simps [of _ sz] split: bind_splits)
    show ?thesis
    proof (cases st)
      case (Skipped extra b s p h')
      let ?c = "c\<lparr>c_extra := c_extra c @ extra\<rparr>"
      have c: "config_blocked ?c"
        using 1(5) by (simp add: config_blocked_def)
      have s: "0 \<le> s" "s \<le> int (length b)"
        using skip_spec [OF st] skip_rest [OF st [unfolded Skipped] 1(4)] Skipped 1(3) by (simp_all add: skip_result_def)
      from True st Skipped 1(2) obtain l t where h': "h' = Some (l, t)"
        by (cases h') (auto simp: parse_items.simps [of _ sz] Let_def)
      define item where "item = (if t = LIBUSB_DT_ASSOCIATION
          then do { (r, c) \<leftarrow> parse_association ?c b s; Some (r, parsed_if, c) }
          else do { (r, ui) \<leftarrow> parse_interface b s; Some (r, Suc parsed_if, ?c\<lparr>c_interface := c_interface ?c @ [ui]\<rparr>) })"
      from True st Skipped h' 1(2) obtain r2 n2 c2 where item: "item = Some (r2, n2, c2)"
        by (cases item) (auto simp: parse_items.simps [of _ sz] Let_def item_def [symmetric])
      have c2: "config_blocked c2" "r2 \<le> s"
        using item_blocked [OF item [unfolded item_def] s c] by simp_all
      show ?thesis
      proof (cases "r2 \<le> 0")
        case small: True
        with True st Skipped h' item 1(2) c2(1) show ?thesis
          by (auto simp: parse_items.simps [of _ sz] Let_def item_def [symmetric] config_blocked_def split: if_splits)
      next
        case False
        then have "0 \<le> s - r2" "s - r2 \<le> int (length (drop (nat r2) b))"
          using c2(2) nat_le_drop [of r2 s b] s(2) by simp_all
        moreover have "parse_items (drop (nat r2) b) (s - r2) n2 h' c2 = Some (r, c')"
          using False True st Skipped h' item 1(2) by (simp add: parse_items.simps [of _ sz] Let_def item_def [symmetric])
        ultimately show ?thesis
          using 1(1) [OF True st Skipped refl h' refl item [unfolded item_def] refl refl] False c2(1) h' by simp
      qed
    qed (use True st 1(2,5) in \<open>auto simp: parse_items.simps [of _ sz] config_blocked_def\<close>)
  qed (use 1(2,5) in \<open>auto simp: parse_items.simps\<close>)
qed

lemma configuration_blocked:
  assumes "raw_desc_to_config buf sz = Some (0, Some c)" and "sz \<le> int (length buf)"
  shows "config_blocked c"
proof -
  obtain r where p: "parse_configuration buf sz = Some (r, Some c)"
    using assms(1) by (auto simp: raw_desc_to_config_def split: bind_splits if_splits)
  then have big: "\<not> sz < 9"
    by (auto simp: parse_configuration_def)
  with p obtain fs n where fs: "usbi_parse_descriptor buf ''bbwbbbbb'' = Some (fs, n)"
    by (auto simp: parse_configuration_def split: bind_splits)
  define c0 where "c0 = config_of fs"
  have "\<not> (c_bDescriptorType c0 \<noteq> LIBUSB_DT_CONFIG \<or> c_bLength c0 < 9 \<or> uint (c_bLength c0) > sz \<or> c_bNumInterfaces c0 > 32)"
    using p big fs by (auto simp: parse_configuration_def c0_def [symmetric] Let_def split: if_splits)
  with p big fs obtain c' where items: "parse_items (drop (unat (c_bLength c0)) buf) (sz - uint (c_bLength c0)) 0 None c0 = Some (r, c')"
    "c = pad_interfaces (unat (c_bNumInterfaces c0)) c'" "uint (c_bLength c0) \<le> sz"
    by (auto simp: parse_configuration_def c0_def [symmetric] Let_def split: bind_splits if_splits)
  have "config_blocked c0"
    by (simp add: c0_def config_of_def config_blocked_def)
  with items_blocked [OF items(1) _ uint_le_drop [OF assms(2)]] items(3) have "config_blocked c'"
    by simp
  then show ?thesis
    by (auto simp: items(2) pad_interfaces_def config_blocked_def interface_blocked_def null_interface_def)
qed

section \<open>The scan of whole blocks\<close>

text \<open>A pass over the blocks, one after the other; the parser sees what is left of the bytes.\<close>

fun scan_each :: "('s \<Rightarrow> bytes \<Rightarrow> nat \<Rightarrow> (int \<times> 's) option) \<Rightarrow> bytes list \<Rightarrow> 's \<Rightarrow> (int \<times> 's) option" where
  "scan_each parse [] s = Some (UVC_SUCCESS, s)"
| "scan_each parse (b # bs) s =
     (if length (concat (b # bs)) < 3 then Some (UVC_SUCCESS, s)
      else do {
        (ret, s) \<leftarrow> parse s (concat (b # bs)) (length b);
        if ret \<noteq> UVC_SUCCESS then Some (ret, s) else scan_each parse bs s })"

lemma scan_whole_blocks:
  "\<forall>b \<in> set bs. whole_block b \<Longrightarrow> length (concat bs) < k \<Longrightarrow> scan_blocks k parse (concat bs) s = scan_each parse bs s"
proof (induction bs arbitrary: k s)
  case Nil
  then show ?case
    by (cases k) simp_all
next
  case (Cons b bs)
  then obtain k' where k: "k = Suc k'"
    by (cases k) simp_all
  have b: "2 \<le> length b" "unat (hd b) = length b" "b \<noteq> []"
    using Cons.prems(1) by (auto simp: whole_block_def)
  have "scan_blocks k' parse (concat bs) t = scan_each parse bs t" for t
    using Cons.prems b(1) by (intro Cons.IH) (auto simp: k)
  then show ?case
    using b by (cases "parse s (b @ concat bs) (length b)") (auto simp: k Let_def need_def hd_append)
qed

text \<open>C37. Whatever a device sends, the loops of \<open>uvc_scan_control\<close> and \<open>uvc_scan_streaming\<close> over the bytes that \<open>libusb\<close> makes of it
  end: the bytes kept for a setting or an endpoint are blocks of at least two bytes, as long as they say, the loop passes over them one by
  one, and as many passes as there are bytes, and one more, are enough, whatever the parser of the blocks does.\<close>

theorem scans_end:
  assumes "raw_desc_to_config buf sz = Some (0, Some c)" and "sz \<le> int (length buf)"
    and "intf \<in> set (to_uvc c)" and "if_desc \<in> set intf"
    and "extra = if_extra if_desc \<or> extra = streaming_extra if_desc"
  shows "\<exists>bs. extra = concat bs \<and> (\<forall>b \<in> set bs. 2 \<le> length b \<and> unat (hd b) = length b) \<and>
    (\<forall>k > length extra. scan_blocks k parse extra s = scan_each parse bs s)"
proof -
  obtain ui a where ui: "ui \<in> set (c_interface c)" "a \<in> set (altsetting ui)" "if_desc = to_uvc_altsetting a"
    using assms(3,4) by (auto simp: to_uvc_def)
  then have "setting_blocked a"
    using configuration_blocked [OF assms(1,2)] by (auto simp: config_blocked_def interface_blocked_def)
  then have "blocked (i_extra a)" "e \<in> set (i_endpoint a) \<Longrightarrow> blocked (e_extra e)" for e
    by (simp_all add: setting_blocked_def)
  then have "blocked (if_extra if_desc)" "blocked (streaming_extra if_desc)"
    by (cases "i_endpoint a"; simp add: ui(3) streaming_extra_def to_uvc_altsetting_def to_uvc_endpoint_def)+
  with assms(5) have "blocked extra"
    by blast
  then obtain bs where "extra = concat bs" "\<forall>b \<in> set bs. whole_block b"
    by (auto simp: blocked_def)
  moreover from this have "\<forall>k > length extra. scan_blocks k parse extra s = scan_each parse bs s"
    using scan_whole_blocks [of bs _ parse s] by simp
  ultimately show ?thesis
    by (intro exI [of _ bs]) (simp add: whole_block_def)
qed

text \<open>A streaming interface with a block of an unknown subtype.\<close>

definition demo_configuration :: bytes where
  "demo_configuration = [9, 2, 21, 0, 1, 1, 0, 0x80, 50] @ [9, 4, 1, 0, 0, 14, 2, 0, 0] @ [3, 0x24, 13]"

definition demo_setting :: libusb_interface_descriptor where
  "demo_setting = \<lparr>if_bInterfaceNumber = 1, if_bAlternateSetting = 0, if_bInterfaceClass = 14, if_bInterfaceSubClass = 2, if_endpoint = [],
     if_extra = [3, 0x24, 13]\<rparr>"

theorem scans_end_witness:
  "\<exists>c bs. raw_desc_to_config demo_configuration 21 = Some (0, Some c) \<and> to_uvc c = [[demo_setting]] \<and> [3, 0x24, 13] = concat bs \<and>
     (\<forall>k>3. scan_blocks k uvc_parse_vs [3, 0x24, 13] zero_streaming = scan_each uvc_parse_vs bs zero_streaming)"
proof -
  have "map_option (\<lambda>(r, c). (r, map_option to_uvc c)) (raw_desc_to_config demo_configuration 21) = Some (0, Some [[demo_setting]])"
    by code_simp
  then obtain c where c: "raw_desc_to_config demo_configuration 21 = Some (0, Some c)" "to_uvc c = [[demo_setting]]"
    by auto
  have "21 \<le> int (length demo_configuration)"
    by (simp add: demo_configuration_def)
  from scans_end [OF c(1) this, of "[demo_setting]" demo_setting "[3, 0x24, 13]" uvc_parse_vs zero_streaming] c show ?thesis
    by (auto simp: demo_setting_def)
qed

end
