(* ===== verification/Rtmp_Nal.thy ===== *)
theory Rtmp_Nal
  imports Prelude
begin

text \<open>
  What pushing and pulling an RTMP stream share (\<open>AnyCore/anyrtmpush.cc\<close>, \<open>AnyCore/anyrtmpull.cc\<close>): the search for the
  start codes inside a key frame, which is the same loop in both files, and the contract of a client that connects again a limited number
  of times.
\<close>

section \<open>Start codes\<close>

definition start_code :: "bytes \<Rightarrow> nat \<Rightarrow> bool" where
  "start_code p i \<longleftrightarrow> (p ! i = 0 \<and> p ! (i + 1) = 0 \<and> p ! (i + 2) = 0 \<and> p ! (i + 3) = 1) \<or>
     (p ! i = 0 \<and> p ! (i + 1) = 0 \<and> p ! (i + 2) = 1)"

definition head01 :: "bytes \<Rightarrow> nat \<Rightarrow> nat" where
  "head01 p i = (if p ! (i + 2) = 1 then 3 else 4)"

definition nal_type :: "u8 \<Rightarrow> u8" where
  "nal_type b = b AND 0x1f"

text \<open>
  The loop over a key frame: \<open>find7\<close> and \<open>find8\<close> are the positions found, 0 before, and the result also has the position
  and the length of the start code of the picture, if it came to one. The first start code lets the loop jump over one position, the
  second does not.
\<close>

function scan_nals :: "bytes \<Rightarrow> nat \<Rightarrow> nat \<Rightarrow> nat \<Rightarrow> nat \<times> nat \<times> (nat \<times> nat) option" where
  "scan_nals p i find7 find8 =
     (if i + 4 < length p
      then if start_code p i
        then if find7 = 0 then scan_nals p (i + 2) i find8
          else if find8 = 0
            then if nal_type (p ! (i + head01 p i)) = 5 then (find7, i, Some (i, head01 p i)) else scan_nals p (i + 1) find7 i
            else (find7, find8, Some (i, head01 p i))
        else scan_nals p (i + 1) find7 find8
      else (find7, find8, None))"
  by auto

termination
  by (relation "measure (\<lambda>(p, i, _, _). length p - i)") auto

declare scan_nals.simps [simp del]

text \<open>The bytes up to the first start code, and from there to the second.\<close>

definition nal7 :: "bytes \<Rightarrow> nat \<Rightarrow> bytes" where
  "nal7 p find7 = take find7 p"

definition nal8 :: "bytes \<Rightarrow> nat \<Rightarrow> nat \<Rightarrow> bytes" where
  "nal8 p find7 find8 = take (find8 - find7) (drop find7 p)"

lemma nal_empty [simp]: "nal7 p 0 = []" "nal8 p find7 0 = []"
  by (simp_all add: nal7_def nal8_def)

subsection \<open>Start codes of a byte stream\<close>

text \<open>The bytes of a unit in the byte stream format: no start code inside, and a last byte that is not zero.\<close>

definition is_code :: "bytes \<Rightarrow> bool" where
  "is_code c \<longleftrightarrow> c = [0, 0, 1] \<or> c = [0, 0, 0, 1]"

definition is_unit :: "bytes \<Rightarrow> bool" where
  "is_unit b \<longleftrightarrow> b \<noteq> [] \<and> last b \<noteq> 0 \<and> (\<forall>i. i + 2 < length b \<longrightarrow> \<not> (b ! i = 0 \<and> b ! (i + 1) = 0 \<and> b ! (i + 2) \<le> 1))"

lemma is_unit_code:
  "is_unit b \<longleftrightarrow> b \<noteq> [] \<and> last b \<noteq> 0 \<and> list_all (\<lambda>i. \<not> (b ! i = 0 \<and> b ! (i + 1) = 0 \<and> b ! (i + 2) \<le> 1)) [0..<length b - 2]"
  by (auto simp: is_unit_def list_all_iff)

text \<open>Inside a unit, wherever it stands, there is no start code.\<close>

lemma no_code_in_unit:
  assumes "is_unit b" and "k < length b"
  shows "\<not> start_code (a @ b @ c) (length a + k)"
proof
  let ?p = "a @ b @ c"
  have at: "?p ! (length a + j) = b ! j" if "j < length b" for j
    using that by (simp add: nth_append)
  assume "start_code ?p (length a + k)"
  then have *: "?p ! (length a + k) = 0" "?p ! (length a + (k + 1)) = 0"
    "?p ! (length a + (k + 2)) = 1 \<or> ?p ! (length a + (k + 2)) = 0 \<and> ?p ! (length a + (k + 3)) = 1"
    by (auto simp: start_code_def add.assoc)
  have last: "b ! (length b - 1) \<noteq> 0"
    using assms(1) by (auto simp: is_unit_def last_conv_nth)
  consider "k + 2 < length b" | "k + 2 = length b" | "k + 1 = length b"
    using assms(2) by linarith
  then show False
  proof cases
    case 1
    then have "k < length b" "k + 1 < length b" "k + 2 < length b"
      by simp_all
    then have "b ! k = 0" "b ! (k + 1) = 0" "b ! (k + 2) = 1 \<or> b ! (k + 2) = 0"
      using * by (simp_all only: at) blast
    moreover have "\<not> (b ! k = 0 \<and> b ! (k + 1) = 0 \<and> b ! (k + 2) \<le> 1)"
      using assms(1) 1 by (simp add: is_unit_def)
    ultimately show False
      by auto
  next
    case 2
    then have "b ! (length b - 1) = 0"
      using *(2) at [of "k + 1"] by (simp flip: 2)
    with last show False ..
  next
    case 3
    then have "b ! (length b - 1) = 0"
      using *(1) at [of k] by (simp flip: 3)
    with last show False ..
  qed
qed

text \<open>The loop runs over bytes without a start code.\<close>

lemma scan_skip:
  "(\<And>k. k < n \<Longrightarrow> \<not> start_code p (i + k)) \<Longrightarrow> i + n + 4 \<le> length p \<Longrightarrow> scan_nals p i f7 f8 = scan_nals p (i + n) f7 f8"
proof (induction n arbitrary: i)
  case (Suc n)
  have here: "\<not> start_code p i"
    using Suc.prems(1) [of 0] by simp
  have "\<not> start_code p (Suc i + k)" if "k < n" for k
    using Suc.prems(1) [of "Suc k"] that by simp
  then have "scan_nals p (Suc i) f7 f8 = scan_nals p (Suc i + n) f7 f8"
    using Suc.prems(2) by (intro Suc.IH) simp_all
  with here Suc.prems(2) show ?case
    by (simp add: scan_nals.simps [of p i])
qed simp

lemma code_at:
  assumes "is_code c"
  shows "start_code (a @ c @ b) (length a)" "head01 (a @ c @ b) (length a) = length c"
    "\<not> start_code (a @ c @ b) (length a + 2) \<or> length c = 3"
  using assms by (auto simp: is_code_def start_code_def head01_def nth_append)

text \<open>After its first zero a start code is not one again two bytes later, nor does it make one with a unit that follows.\<close>

lemma no_code_after:
  assumes "is_code c" and "2 \<le> k" and "k < length c"
  shows "\<not> start_code (a @ c @ b) (length a + k)"
  using assms by (auto simp: is_code_def start_code_def nth_append less_Suc_eq numeral_eq_Suc)

text \<open>What the loop finds in three units of the byte stream, whichever start codes they have, when the third is a picture.\<close>

lemma scan_three:
  assumes c: "is_code c2" "is_code c3" and b: "is_unit sps" "is_unit pps" and idr: "2 \<le> length idr" "nal_type (idr ! 0) = 5"
    and c1: "length c1 = 4"
  shows "scan_nals (c1 @ sps @ c2 @ pps @ c3 @ idr) 4 0 0 =
    (4 + length sps, 4 + length sps + length c2 + length pps, Some (4 + length sps + length c2 + length pps, length c3))"
proof -
  let ?p = "c1 @ sps @ c2 @ pps @ c3 @ idr" and ?i = "4 + length sps" and ?j = "4 + length sps + length c2 + length pps"
  have len: "length c2 = 3 \<or> length c2 = 4" "length c3 = 3 \<or> length c3 = 4"
    using c by (auto simp: is_code_def)
  then have ge: "3 \<le> length c2" "3 \<le> length c3"
    by auto
  have "scan_nals ?p 4 0 0 = scan_nals ?p ?i 0 0"
    using no_code_in_unit [OF b(1), of _ c1] c1 ge idr(1) by (intro scan_skip) simp_all
  also have "\<dots> = scan_nals ?p (?i + 2) ?i 0"
    using code_at(1) [OF c(1), of "c1 @ sps" "pps @ c3 @ idr"] c1 ge idr(1)
    by (simp add: scan_nals.simps [of ?p ?i])
  also have "\<dots> = scan_nals ?p (?i + 2 + (length c2 - 2)) ?i 0"
  proof (rule scan_skip)
    fix k
    assume "k < length c2 - 2"
    then show "\<not> start_code ?p (?i + 2 + k)"
      using no_code_after [OF c(1), of "2 + k" "c1 @ sps" "pps @ c3 @ idr"] c1 by (simp add: add.assoc)
  qed (use ge c1 idr(1) in simp)
  also have "?i + 2 + (length c2 - 2) = ?i + length c2"
    using len by auto
  also have "scan_nals ?p (?i + length c2) ?i 0 = scan_nals ?p (?i + length c2 + length pps) ?i 0"
    using no_code_in_unit [OF b(2), of _ "c1 @ sps @ c2"] c1 ge idr(1) by (intro scan_skip) (simp_all add: add.assoc)
  also have "\<dots> = (?i, ?j, Some (?j, length c3))"
  proof -
    have j: "length (c1 @ sps @ c2 @ pps) = ?j"
      using c1 by simp
    have split: "?p = (c1 @ sps @ c2 @ pps) @ c3 @ idr"
      by simp
    have "start_code ?p ?j" "head01 ?p ?j = length c3"
      using code_at [OF c(2), of "c1 @ sps @ c2 @ pps" idr] by (simp_all only: j split)
    moreover have "?p ! (?j + length c3) = idr ! 0"
      using idr(1) by (simp only: split nth_append j) simp
    ultimately show ?thesis
      using idr ge c1 by (simp add: scan_nals.simps [of ?p ?j])
  qed
  finally show ?thesis .
qed

section \<open>The RTMP library\<close>

text \<open>
  The calls of \<open>srs_librtmp\<close>, and the library as a function of the calls made before. It is third-party code and a parameter of the
  model; of its three error codes that are no reason to disconnect, the values.
\<close>

datatype srs_call = Srs_Create | Srs_Destroy | Srs_Disconnect | Srs_Handshake | Srs_Connect_App | Srs_Publish | Srs_Play
  | Srs_Write_H264 bytes u32 | Srs_Write_Audio u8 u8 u8 u8 bytes u32 | Srs_Write_Script bytes u32

type_synonym srs = "srs_call list \<Rightarrow> srs_call \<Rightarrow> int"

definition srs_h264_ignored :: "int \<Rightarrow> bool" where
  "srs_h264_ignored ret \<longleftrightarrow> ret = 3043 \<or> ret = 3044 \<or> ret = 3045"

section \<open>Clients that connect again\<close>

text \<open>
  \<open>step\<close> is one iteration of the thread of a client with a connection \<open>conn\<close>, \<open>retries\<close> its counter and
  \<open>fails\<close> a state in which the library refuses what is tried.
\<close>

locale retrying_client =
  fixes step :: "'e \<Rightarrow> 's \<Rightarrow> 's"
    and conn :: "'s \<Rightarrow> bool"
    and retries :: "'s \<Rightarrow> int"
    and fails :: "'s \<Rightarrow> bool"
  assumes idle: "\<not> conn s \<Longrightarrow> step e s = s"
    and retry: "conn s \<Longrightarrow> fails s \<Longrightarrow>
      fails (step e s) \<and> retries (step e s) = retries s + 1 \<and> (conn (step e s) \<longleftrightarrow> retries s < 3)"
begin

lemma idle_forever: "\<not> conn s \<Longrightarrow> fold step es s = s"
  by (induction es) (simp_all add: idle)

text \<open>Against a server that refuses everything, the client gives up with its fourth failure, not before and not after.\<close>

lemma gives_up_exactly:
  "conn s \<Longrightarrow> fails s \<Longrightarrow> retries s \<le> 3 \<Longrightarrow> conn (fold step es s) \<longleftrightarrow> int (length es) < 4 - retries s"
proof (induction es arbitrary: s)
  case (Cons e es)
  note r = retry [OF Cons.prems(1,2), of e]
  show ?case
  proof (cases "retries s < 3")
    case True
    with r Cons.IH [of "step e s"] show ?thesis
      by simp
  next
    case False
    with r Cons.prems(3) show ?thesis
      by (simp add: idle_forever)
  qed
qed simp

lemma gives_up:
  "fails s \<Longrightarrow> retries s \<le> 3 \<Longrightarrow> 4 - retries s \<le> int (length es) \<Longrightarrow> \<not> conn (fold step es s)"
  by (cases "conn s") (simp_all add: gives_up_exactly idle_forever)

end

end
