(* ===== verification/Rtmp_Push.thy ===== *)
theory Rtmp_Push
  imports Rtmp_Nal "HOL-Library.Sublist"
begin

text \<open>
  Publishing a stream (\<open>AnyCore/anyrtmpush.cc\<close>): encoded pictures and sound are queued by the threads of the encoders and written by the
  thread of the object, which makes the connection and makes it again when it breaks. An iteration of that thread is a step; the encoder's
  thread cuts a key frame into units and queues one unit per step. \<open>calls\<close>, \<open>callbacks\<close>, \<open>queued\<close> and
  \<open>leaked\<close> are histories: calls of the library, callbacks, everything queued, objects without an owner.
\<close>

section \<open>State\<close>

datatype enc_type = VIDEO_DATA | AUDIO_DATA | META_DATA

record enc_data =
  en_data :: bytes
  en_type :: enc_type
  en_dts :: u32

datatype push_status = RS_STM_Init | RS_STM_Handshaked | RS_STM_Connected | RS_STM_Published | RS_STM_Closed

datatype push_callback = OnRtmpConnected | OnRtmpReconnecting int | OnRtmpDisconnect | OnRtmpStatusEvent u32 u32

record push =
  push_running :: bool
  need_keyframe :: bool
  only_audio_mode :: bool
  retrys :: int
  stat_time :: u32
  net_band :: u32
  lst_enc_data :: "enc_data list"
  sound_format :: u8
  sound_rate :: u8
  sound_size :: u8
  sound_type :: u8
  rtmp_status :: push_status
  rtmp :: bool
  sound_samplerate :: "int option"
  video_parameters :: "(int \<times> int \<times> int \<times> int) option"
  pending :: "enc_data list"
  calls :: "srs_call list"
  callbacks :: "push_callback list"
  queued :: "enc_data list"
  leaked :: "enc_data list"

definition new_push :: push where
  "new_push = \<lparr>push_running = True, need_keyframe = True, only_audio_mode = False, retrys = 0, stat_time = 0, net_band = 0,
     lst_enc_data = [], sound_format = 10, sound_rate = 3, sound_size = 1, sound_type = 1, rtmp_status = RS_STM_Init, rtmp = True,
     sound_samplerate = None, video_parameters = None, pending = [], calls = [Srs_Create], callbacks = [], queued = [], leaked = []\<rparr>"

definition EnableOnlyAudioMode :: "push \<Rightarrow> push" where
  "EnableOnlyAudioMode s = s\<lparr>only_audio_mode := True\<rparr>"

definition SetAudioParameter :: "int \<Rightarrow> int \<Rightarrow> int \<Rightarrow> push \<Rightarrow> push" where
  "SetAudioParameter samplerate pcmbitsize channel s = s\<lparr>
     sound_samplerate := Some samplerate,
     sound_rate := (if samplerate = 44100 then 3 else if samplerate = 22050 then 2 else if samplerate = 11025 then 1 else sound_rate s),
     sound_size := (if pcmbitsize = 8 then 0 else if pcmbitsize = 16 then 1 else sound_size s),
     sound_type := (if channel = 1 then 0 else if channel = 2 then 1 else sound_type s)\<rparr>"

text \<open>Width, height, data rate and frame rate. Nothing is written to these and to the sample rate before they are set.\<close>

definition SetVideoParameter :: "int \<Rightarrow> int \<Rightarrow> int \<Rightarrow> int \<Rightarrow> push \<Rightarrow> push" where
  "SetVideoParameter width height videodatarate framerate s = s\<lparr>video_parameters := Some (width, height, videodatarate, framerate)\<rparr>"

section \<open>Queueing\<close>

definition enqueue :: "enc_data \<Rightarrow> push \<Rightarrow> push" where
  "enqueue d s = s\<lparr>lst_enc_data := lst_enc_data s @ [d], queued := queued s @ [d]\<rparr>"

definition GotH264Nal :: "bytes \<Rightarrow> u32 \<Rightarrow> push \<Rightarrow> push" where
  "GotH264Nal data ts s = enqueue \<lparr>en_data = data, en_type = VIDEO_DATA, en_dts = ts\<rparr> s"

text \<open>The units of a key frame; a unit that was not found is empty.\<close>

definition key_nals :: "bytes \<Rightarrow> bytes list" where
  "key_nals p = (case scan_nals p 4 0 0 of (find7, find8, pic) \<Rightarrow>
     [nal7 p find7, nal8 p find7 find8, (case pic of None \<Rightarrow> [] | Some (i, head) \<Rightarrow> drop i p)])"

text \<open>What a frame leaves to queue, if the frame is taken at all, and whether a key frame is needed after it.\<close>

definition cut_h264 :: "bytes \<Rightarrow> bool \<Rightarrow> (bytes list \<times> bool) option" where
  "cut_h264 p need_key = need 5 p
     (let nal = nal_type (p ! 4); need_key = (need_key \<and> nal \<noteq> 7)
      in Some (if need_key then [] else if nal = 7 then key_nals p else [p], need_key))"

definition SetH264Data :: "bytes \<Rightarrow> u32 \<Rightarrow> push \<Rightarrow> push option" where
  "SetH264Data p ts s = do {
     (nals, need_key) \<leftarrow> cut_h264 p (need_keyframe s);
     Some (fold (\<lambda>nal. GotH264Nal nal ts) nals (s\<lparr>need_keyframe := need_key\<rparr>)) }"

definition SetAacData :: "bytes \<Rightarrow> u32 \<Rightarrow> push \<Rightarrow> push" where
  "SetAacData data ts s = (if need_keyframe s \<and> \<not> only_audio_mode s then s
     else enqueue \<lparr>en_data = data, en_type = AUDIO_DATA, en_dts = ts\<rparr> s)"

definition setMetaData :: "bytes \<Rightarrow> u32 \<Rightarrow> push \<Rightarrow> push" where
  "setMetaData data ts s = enqueue \<lparr>en_data = data, en_type = META_DATA, en_dts = ts\<rparr> s"

section \<open>The thread\<close>

definition call :: "srs \<Rightarrow> srs_call \<Rightarrow> push \<Rightarrow> int \<times> push" where
  "call srs c s = (srs (calls s) c, s\<lparr>calls := calls s @ [c]\<rparr>)"

definition CallConnect :: "push \<Rightarrow> push" where
  "CallConnect s = s\<lparr>need_keyframe := True, retrys := 0, lst_enc_data := [], callbacks := callbacks s @ [OnRtmpConnected]\<rparr>"

definition CallDisconnect :: "srs \<Rightarrow> push \<Rightarrow> push" where
  "CallDisconnect srs s =
     (let s = s\<lparr>need_keyframe := True\<rparr>;
          s = (if rtmp s then (snd (call srs Srs_Destroy s))\<lparr>rtmp := False\<rparr> else s)
      in if rtmp_status s = RS_STM_Closed then s
         else let s = s\<lparr>rtmp_status := RS_STM_Init, retrys := retrys s + 1\<rparr>
           in if retrys s \<le> 3
              then (snd (call srs Srs_Create s))\<lparr>rtmp := True, callbacks := callbacks s @ [OnRtmpReconnecting (retrys s)]\<rparr>
              else s\<lparr>callbacks := callbacks s @ [OnRtmpDisconnect]\<rparr>)"

text \<open>Once a second; the clock is read twice.\<close>

definition send_status :: "u32 \<Rightarrow> u32 \<Rightarrow> push \<Rightarrow> push" where
  "send_status now now' s =
     (if stat_time s \<le> now
      then let delayMs = (if lst_enc_data s = [] then 0 else en_dts (last (lst_enc_data s)) - en_dts (hd (lst_enc_data s)))
        in s\<lparr>stat_time := now' + 1000, callbacks := callbacks s @ [OnRtmpStatusEvent delayMs (net_band s * (8 + 1))], net_band := 0\<rparr>
      else s)"

definition write_data :: "srs \<Rightarrow> enc_data \<Rightarrow> push \<Rightarrow> int \<times> push" where
  "write_data srs d s = (case en_type d of
     VIDEO_DATA \<Rightarrow> call srs (Srs_Write_H264 (en_data d) (en_dts d)) s
   | AUDIO_DATA \<Rightarrow> call srs (Srs_Write_Audio (sound_format s) (sound_rate s) (sound_size s) (sound_type s) (en_data d) (en_dts d)) s
   | META_DATA \<Rightarrow> call srs (Srs_Write_Script (en_data d) (en_dts d)) s)"

definition DoSendData :: "srs \<Rightarrow> u32 \<Rightarrow> u32 \<Rightarrow> push \<Rightarrow> push" where
  "DoSendData srs now now' s = (case lst_enc_data s of [] \<Rightarrow> send_status now now' s
     | d # ds \<Rightarrow> (case write_data srs d (s\<lparr>lst_enc_data := ds\<rparr>) of (ret, s) \<Rightarrow>
         if en_type d = META_DATA then s\<lparr>leaked := leaked s @ [d]\<rparr>
         else if ret = 0 \<or> en_type d = VIDEO_DATA \<and> srs_h264_ignored ret
         then send_status now now' (s\<lparr>net_band := net_band s + word_of_nat (length (en_data d))\<rparr>)
         else CallDisconnect srs (s\<lparr>leaked := leaked s @ [d]\<rparr>)))"

definition push_iterate :: "srs \<Rightarrow> u32 \<Rightarrow> u32 \<Rightarrow> push \<Rightarrow> push" where
  "push_iterate srs now now' s =
     (if push_running s \<and> rtmp s
      then (case rtmp_status s of
          RS_STM_Init \<Rightarrow> (case call srs Srs_Handshake s of (ret, s) \<Rightarrow>
            if ret = 0 then s\<lparr>rtmp_status := RS_STM_Handshaked\<rparr> else CallDisconnect srs s)
        | RS_STM_Handshaked \<Rightarrow> (case call srs Srs_Connect_App s of (ret, s) \<Rightarrow>
            if ret = 0 then s\<lparr>rtmp_status := RS_STM_Connected\<rparr> else CallDisconnect srs s)
        | RS_STM_Connected \<Rightarrow> (case call srs Srs_Publish s of (ret, s) \<Rightarrow>
            if ret = 0 then CallConnect (s\<lparr>rtmp_status := RS_STM_Published\<rparr>) else CallDisconnect srs s)
        | RS_STM_Published \<Rightarrow> DoSendData srs now now' s
        | RS_STM_Closed \<Rightarrow> s)
      else s)"

text \<open>The destructor, after the thread has seen that it is to end.\<close>

definition delete_push :: "srs \<Rightarrow> push \<Rightarrow> push" where
  "delete_push srs s =
     (let s = s\<lparr>push_running := False, rtmp_status := RS_STM_Closed\<rparr>;
          s = (if rtmp s then (snd (call srs Srs_Destroy (snd (call srs Srs_Disconnect s))))\<lparr>rtmp := False\<rparr> else s)
      in s\<lparr>lst_enc_data := []\<rparr>)"

section \<open>Interleaving\<close>

text \<open>A frame from the encoder's thread, the queueing of one of its units, a sound, an iteration, the end.\<close>

datatype push_event = Video bytes u32 | Queue_Nal | Audio bytes u32 | Only_Audio | Iterate u32 u32 | Delete

definition push_step :: "srs \<Rightarrow> push \<Rightarrow> push_event \<Rightarrow> push option" where
  "push_step srs s e = (case e of
     Video p ts \<Rightarrow> if pending s \<noteq> [] \<or> \<not> push_running s then Some s else do {
       (nals, need_key) \<leftarrow> cut_h264 p (need_keyframe s);
       Some (s\<lparr>need_keyframe := need_key, pending := map (\<lambda>nal. \<lparr>en_data = nal, en_type = VIDEO_DATA, en_dts = ts\<rparr>) nals\<rparr>) }
   | Queue_Nal \<Rightarrow> Some (case pending s of [] \<Rightarrow> s | d # ds \<Rightarrow> enqueue d (s\<lparr>pending := ds\<rparr>))
   | Audio p ts \<Rightarrow> Some (if push_running s then SetAacData p ts s else s)
   | Only_Audio \<Rightarrow> Some (EnableOnlyAudioMode s)
   | Iterate now now' \<Rightarrow> Some (push_iterate srs now now' s)
   | Delete \<Rightarrow> Some (if pending s = [] then delete_push srs s else s))"

end
