(* ===== verification/Rtmp_Session.thy ===== *)
theory Rtmp_Session
  imports Rtmp_Push
begin

text \<open>
  What publishing promises: the order of the library's calls and of the callbacks, the order of what is written, how key frames are cut,
  and when the client gives up.
\<close>

section \<open>The protocol of a session\<close>

datatype phase = No_Connection | Fresh | Shaken | Joined | Publishing | Broken

text \<open>What may be called in which phase, and the phase after an answer.\<close>

definition next_phase :: "int \<Rightarrow> phase \<Rightarrow> srs_call \<Rightarrow> phase option" where
  "next_phase r ph c = (case c of
     Srs_Create \<Rightarrow> if ph = No_Connection then Some Fresh else None
   | Srs_Destroy \<Rightarrow> if ph = No_Connection then None else Some No_Connection
   | Srs_Disconnect \<Rightarrow> if ph = No_Connection then None else Some Broken
   | Srs_Handshake \<Rightarrow> if ph = Fresh then Some (if r = 0 then Shaken else Broken) else None
   | Srs_Connect_App \<Rightarrow> if ph = Shaken then Some (if r = 0 then Joined else Broken) else None
   | Srs_Publish \<Rightarrow> if ph = Joined then Some (if r = 0 then Publishing else Broken) else None
   | Srs_Play \<Rightarrow> None
   | Srs_Write_H264 d ts \<Rightarrow> if ph = Publishing then Some (if r = 0 \<or> srs_h264_ignored r then Publishing else Broken) else None
   | Srs_Write_Audio f rt sz ty d ts \<Rightarrow> if ph = Publishing then Some (if r = 0 then Publishing else Broken) else None
   | Srs_Write_Script d ts \<Rightarrow> if ph = Publishing then Some Publishing else None)"

fun run_protocol :: "srs \<Rightarrow> srs_call list \<Rightarrow> phase \<Rightarrow> srs_call list \<Rightarrow> phase option" where
  "run_protocol srs before ph [] = Some ph"
| "run_protocol srs before ph (c # cs) = do { ph' \<leftarrow> next_phase (srs before c) ph c; run_protocol srs (before @ [c]) ph' cs }"

definition rtmp_session :: "srs \<Rightarrow> srs_call list \<Rightarrow> phase option" where
  "rtmp_session srs cs = run_protocol srs [] No_Connection cs"

lemma run_protocol_snoc:
  "run_protocol srs before ph (cs @ [c]) = do { ph' \<leftarrow> run_protocol srs before ph cs; next_phase (srs (before @ cs) c) ph' c }"
  by (induction cs arbitrary: before ph) (auto split: bind_splits)

lemma rtmp_session_snoc [simp]: "rtmp_session srs (cs @ [c]) = do { ph \<leftarrow> rtmp_session srs cs; next_phase (srs cs c) ph c }"
  by (simp add: rtmp_session_def run_protocol_snoc)

lemma session_snoc_two [simp]:
  "rtmp_session srs (cs @ [a, b]) = do { ph \<leftarrow> rtmp_session srs cs; ph \<leftarrow> next_phase (srs cs a) ph a; next_phase (srs (cs @ [a]) b) ph b }"
  using rtmp_session_snoc [of srs "cs @ [a]" b] by simp

lemma rtmp_session_create [simp]: "rtmp_session srs [Srs_Create] = Some Fresh"
  by (simp add: rtmp_session_def next_phase_def)

text \<open>The reconnections in a row so far (4: given up) and whether the stream is published.\<close>

definition next_callback :: "int \<times> bool \<Rightarrow> push_callback \<Rightarrow> (int \<times> bool) option" where
  "next_callback st cb = (case st of (n, up) \<Rightarrow> (case cb of
     OnRtmpConnected \<Rightarrow> if n \<le> 3 \<and> \<not> up then Some (0, True) else None
   | OnRtmpReconnecting k \<Rightarrow> if k = n + 1 \<and> k \<le> 3 then Some (k, False) else None
   | OnRtmpDisconnect \<Rightarrow> if n = 3 then Some (4, False) else None
   | OnRtmpStatusEvent delay band \<Rightarrow> if up then Some (n, up) else None))"

definition callback_state :: "push_callback list \<Rightarrow> (int \<times> bool) option" where
  "callback_state cbs = foldl (\<lambda>st cb. Option.bind st (\<lambda>st. next_callback st cb)) (Some (0, False)) cbs"

lemma callback_state_snoc [simp]: "callback_state (cbs @ [cb]) = Option.bind (callback_state cbs) (\<lambda>st. next_callback st cb)"
  by (simp add: callback_state_def)

lemma callback_state_Nil [simp]: "callback_state [] = Some (0, False)"
  by (simp add: callback_state_def)

definition callbacks_legal :: "push_callback list \<Rightarrow> bool" where
  "callbacks_legal cbs \<longleftrightarrow> callback_state cbs \<noteq> None"

lemma callbacks_legalI: "callback_state cbs = Some st \<Longrightarrow> callbacks_legal cbs"
  by (simp add: callbacks_legal_def)

text \<open>What the calls have written.\<close>

fun written_by :: "srs_call \<Rightarrow> enc_data list" where
  "written_by (Srs_Write_H264 d ts) = [\<lparr>en_data = d, en_type = VIDEO_DATA, en_dts = ts\<rparr>]"
| "written_by (Srs_Write_Audio f rt sz ty d ts) = [\<lparr>en_data = d, en_type = AUDIO_DATA, en_dts = ts\<rparr>]"
| "written_by (Srs_Write_Script d ts) = [\<lparr>en_data = d, en_type = META_DATA, en_dts = ts\<rparr>]"
| "written_by c = []"

definition written :: "srs_call list \<Rightarrow> enc_data list" where
  "written cs = concat (map written_by cs)"

lemma written_simps [simp]: "written [] = []" "written (c # cs) = written_by c @ written cs" "written (cs @ cs') = written cs @ written cs'"
  by (simp_all add: written_def)

section \<open>The invariant\<close>

primrec status_phase :: "push_status \<Rightarrow> phase" where
  "status_phase RS_STM_Init = Fresh"
| "status_phase RS_STM_Handshaked = Shaken"
| "status_phase RS_STM_Connected = Joined"
| "status_phase RS_STM_Published = Publishing"
| "status_phase RS_STM_Closed = No_Connection"

text \<open>\<open>before_disconnect\<close> holds of a connection that is up or has just broken in phase \<open>ph\<close>.\<close>

definition before_disconnect :: "srs \<Rightarrow> phase \<Rightarrow> push \<Rightarrow> bool" where
  "before_disconnect srs ph s \<longleftrightarrow> rtmp s \<and> rtmp_status s \<noteq> RS_STM_Closed \<and> rtmp_session srs (calls s) = Some ph \<and> ph \<noteq> No_Connection \<and>
     0 \<le> retrys s \<and> retrys s \<le> 3 \<and> callback_state (callbacks s) = Some (retrys s, rtmp_status s = RS_STM_Published) \<and>
     subseq (written (calls s) @ lst_enc_data s) (queued s)"

definition push_ok :: "srs \<Rightarrow> push \<Rightarrow> bool" where
  "push_ok srs s \<longleftrightarrow> (if rtmp s then before_disconnect srs (status_phase (rtmp_status s)) s
     else rtmp_session srs (calls s) = Some No_Connection \<and> callbacks_legal (callbacks s) \<and>
       (push_running s \<longrightarrow> callback_state (callbacks s) = Some (4, False)) \<and>
       subseq (written (calls s) @ lst_enc_data s) (queued s))"

lemma call_simps [simp]:
  "fst (call srs c s) = srs (calls s) c" "snd (call srs c s) = s\<lparr>calls := calls s @ [c]\<rparr>"
  by (simp_all add: call_def)

lemma new_push_ok: "push_ok srs new_push"
  by (simp add: push_ok_def before_disconnect_def new_push_def)

lemma CallDisconnect_ok:
  assumes "before_disconnect srs ph s"
  shows "push_ok srs (CallDisconnect srs s)" "0 \<le> retrys s \<and> retrys (CallDisconnect srs s) = retrys s + 1"
    "rtmp (CallDisconnect srs s) \<longleftrightarrow> retrys s < 3" "push_running (CallDisconnect srs s) = push_running s"
  using assms
  by (simp_all add: CallDisconnect_def Let_def callbacks_legalI push_ok_def before_disconnect_def next_phase_def next_callback_def call_def)

lemma send_status_ok:
  assumes "before_disconnect srs Publishing s" and "rtmp_status s = RS_STM_Published"
  shows "push_ok srs (send_status now now' s)" "rtmp (send_status now now' s)" "push_running (send_status now now' s) = push_running s"
  using assms by (simp_all add: send_status_def Let_def push_ok_def before_disconnect_def next_callback_def)

text \<open>Taking the first entry of the queue and writing it.\<close>

lemma write_data_call:
  "\<exists>c. write_data srs d s = (srs (calls s) c, s\<lparr>calls := calls s @ [c]\<rparr>) \<and> written_by c = [d] \<and>
     next_phase (srs (calls s) c) Publishing c = Some (if srs (calls s) c = 0 \<or> en_type d = META_DATA \<or>
       en_type d = VIDEO_DATA \<and> srs_h264_ignored (srs (calls s) c) then Publishing else Broken)"
proof (cases "en_type d")
  case VIDEO_DATA
  then show ?thesis
    by (intro exI [of _ "Srs_Write_H264 (en_data d) (en_dts d)"]) (simp add: write_data_def call_def next_phase_def)
next
  case AUDIO_DATA
  then show ?thesis
    by (intro exI [of _ "Srs_Write_Audio (sound_format s) (sound_rate s) (sound_size s) (sound_type s) (en_data d) (en_dts d)"])
      (simp add: write_data_def call_def next_phase_def)
next
  case META_DATA
  then show ?thesis
    by (intro exI [of _ "Srs_Write_Script (en_data d) (en_dts d)"]) (simp add: write_data_def call_def next_phase_def)
qed

lemma DoSendData_ok:
  assumes "push_ok srs s" and "rtmp s" and "rtmp_status s = RS_STM_Published"
  shows "push_ok srs (DoSendData srs now now' s)" "push_running (DoSendData srs now now' s) = push_running s"
proof -
  have up: "before_disconnect srs Publishing s"
    using assms by (simp add: push_ok_def)
  have "push_ok srs (DoSendData srs now now' s) \<and> push_running (DoSendData srs now now' s) = push_running s"
  proof (cases "lst_enc_data s")
    case Nil
    with send_status_ok [OF up assms(3)] show ?thesis
      by (simp add: DoSendData_def)
  next
    case (Cons d ds)
    define s' where "s' = s\<lparr>lst_enc_data := ds\<rparr>"
    obtain c where c: "write_data srs d s' = (srs (calls s) c, s'\<lparr>calls := calls s @ [c]\<rparr>)" "written_by c = [d]"
      "next_phase (srs (calls s) c) Publishing c = Some (if srs (calls s) c = 0 \<or> en_type d = META_DATA \<or>
         en_type d = VIDEO_DATA \<and> srs_h264_ignored (srs (calls s) c) then Publishing else Broken)"
      using write_data_call [of srs d s'] by (auto simp: s'_def)
    let ?t = "s'\<lparr>calls := calls s @ [c]\<rparr>" and ?r = "srs (calls s) c"
    have base: "before_disconnect srs ph (?t\<lparr>leaked := l, net_band := n\<rparr>)"
      if "next_phase ?r Publishing c = Some ph" "ph \<noteq> No_Connection" for ph n l
      using up Cons c(2) that by (simp add: before_disconnect_def s'_def)
    show ?thesis
    proof (cases "en_type d = META_DATA")
      case True
      with base [of Publishing "net_band s" "leaked s @ [d]"] Cons c assms(3) show ?thesis
        by (simp add: DoSendData_def push_ok_def before_disconnect_def s'_def)
    next
      case media: False
      show ?thesis
      proof (cases "?r = 0 \<or> en_type d = VIDEO_DATA \<and> srs_h264_ignored ?r")
        case True
        with send_status_ok [OF base [of Publishing "net_band s + word_of_nat (length (en_data d))" "leaked s"]] media Cons c assms(3)
        show ?thesis
          by (simp add: DoSendData_def s'_def)
      next
        case False
        with CallDisconnect_ok [OF base [of Broken "net_band s" "leaked s @ [d]"]] media Cons c show ?thesis
          by (auto simp: DoSendData_def s'_def)
      qed
    qed
  qed
  then show "push_ok srs (DoSendData srs now now' s)" "push_running (DoSendData srs now now' s) = push_running s"
    by simp_all
qed

lemma subseq_leftD: "subseq (xs @ ys) zs \<Longrightarrow> subseq xs zs"
  by (rule subseq_order.order_trans [of xs "xs @ ys"]) (simp_all add: prefix_imp_subseq)

lemma push_iterate_ok:
  assumes ok: "push_ok srs s"
  shows "push_ok srs (push_iterate srs now now' s)"
proof (cases "push_running s \<and> rtmp s")
  case True
  then have up: "before_disconnect srs (status_phase (rtmp_status s)) s"
    using ok by (simp add: push_ok_def)
  have failed: "push_ok srs (CallDisconnect srs (s\<lparr>calls := calls s @ [c]\<rparr>))"
    if "next_phase (srs (calls s) c) (status_phase (rtmp_status s)) c = Some Broken" "written_by c = []" for c
    using CallDisconnect_ok(1) [of srs Broken "s\<lparr>calls := calls s @ [c]\<rparr>"] up that by (simp add: before_disconnect_def)
  show ?thesis
  proof (cases "rtmp_status s")
    case RS_STM_Init
    with up True failed [of Srs_Handshake] show ?thesis
      by (cases "srs (calls s) Srs_Handshake = 0") (simp_all add: push_iterate_def call_def next_phase_def push_ok_def before_disconnect_def)
  next
    case RS_STM_Handshaked
    with up True failed [of Srs_Connect_App] show ?thesis
      by (cases "srs (calls s) Srs_Connect_App = 0") (simp_all add: push_iterate_def call_def next_phase_def push_ok_def before_disconnect_def)
  next
    case RS_STM_Connected
    have "push_ok srs (CallConnect (s\<lparr>calls := calls s @ [Srs_Publish], rtmp_status := RS_STM_Published\<rparr>))"
      if "srs (calls s) Srs_Publish = 0"
      using up that RS_STM_Connected subseq_leftD [of "written (calls s)" "lst_enc_data s" "queued s"]
      by (simp add: CallConnect_def push_ok_def before_disconnect_def next_phase_def next_callback_def)
    with RS_STM_Connected failed [of Srs_Publish] True show ?thesis
      by (simp add: push_iterate_def call_def next_phase_def)
  next
    case RS_STM_Published
    with True DoSendData_ok(1) [OF ok] show ?thesis
      by (simp add: push_iterate_def)
  next
    case RS_STM_Closed
    with True ok show ?thesis
      by (simp add: push_iterate_def)
  qed
qed (use ok in \<open>auto simp: push_iterate_def\<close>)

lemma enqueue_ok: "push_ok srs s \<Longrightarrow> push_ok srs (enqueue d s)"
  using subseq_append' [of "written (calls s) @ lst_enc_data s" "queued s" "[d]"]
  by (auto simp: push_ok_def before_disconnect_def enqueue_def simp flip: append_assoc)

lemma other_fields_ok [simp]:
  "push_ok srs (s\<lparr>need_keyframe := b\<rparr>) = push_ok srs s" "push_ok srs (s\<lparr>pending := ds\<rparr>) = push_ok srs s"
  "push_ok srs (s\<lparr>only_audio_mode := b\<rparr>) = push_ok srs s"
  by (simp_all add: push_ok_def before_disconnect_def)

lemma delete_ok: "push_ok srs s \<Longrightarrow> push_ok srs (delete_push srs s)"
  using subseq_leftD [of "written (calls s)" "lst_enc_data s" "queued s"]
  by (auto simp: delete_push_def Let_def push_ok_def before_disconnect_def next_phase_def call_def intro: callbacks_legalI)

definition frame_long_enough :: "push_event \<Rightarrow> bool" where
  "frame_long_enough e = (case e of Video p ts \<Rightarrow> 5 \<le> length p | _ \<Rightarrow> True)"

interpretation push_run: safe_step "push_step srs" "push_ok srs" frame_long_enough for srs
proof
  fix s e
  assume *: "push_ok srs s" "frame_long_enough e"
  show "\<exists>s'. push_step srs s e = Some s' \<and> push_ok srs s'"
  proof (cases e)
    case (Video p ts)
    with * show ?thesis
      by (auto simp: push_step_def frame_long_enough_def cut_h264_def Let_def)
  qed (use * in \<open>auto simp: push_step_def enqueue_ok push_iterate_ok delete_ok SetAacData_def EnableOnlyAudioMode_def split: list.split\<close>)
qed

section \<open>Sessions\<close>

text \<open>C4. However the encoders' threads and the thread of the connection interleave, for any server: the library is called in the order of
  the protocol (a connection is made, shaken, joined, published and then written to, nothing is called on it after a failure but its
  release, and there is never more than one); the application is told of a connection, of up to three attempts in a row to make it again,
  and of the end, in this order; and what is written was queued, in that order and at most once.\<close>

theorem push_session:
  assumes "list_all frame_long_enough es"
  shows "\<exists>s. run_partial (push_step srs) new_push es = Some s \<and> rtmp_session srs (calls s) \<noteq> None \<and> callbacks_legal (callbacks s) \<and>
    subseq (written (calls s)) (queued s)"
proof -
  obtain s where "run_partial (push_step srs) new_push es = Some s" "push_ok srs s"
    using push_run.run_safe [OF new_push_ok assms] by blast
  then show ?thesis
    using subseq_leftD [of "written (calls s)" "lst_enc_data s" "queued s"]
    by (auto simp: push_ok_def before_disconnect_def intro: callbacks_legalI split: if_splits)
qed

text \<open>A short session: connect, a key frame, a sound, two writes.\<close>

theorem push_session_witness:
  "\<exists>s. run_partial (push_step (\<lambda>_ _. 0)) new_push
      [Iterate 0 0, Iterate 0 0, Iterate 0 0, Video [0, 0, 0, 1, 0x67, 1, 0, 0, 1, 0x68, 2, 0, 0, 1, 0x65, 3] 40, Queue_Nal, Audio [7] 41,
       Iterate 50 50, Iterate 60 60] = Some s \<and> rtmp_session (\<lambda>_ _. 0) (calls s) \<noteq> None \<and> callbacks_legal (callbacks s) \<and>
    subseq (written (calls s)) (queued s)"
  by (rule push_session) (simp add: frame_long_enough_def)

definition refuses :: "srs \<Rightarrow> push \<Rightarrow> bool" where
  "refuses srs s \<longleftrightarrow> push_running s \<and> rtmp_status s \<in> {RS_STM_Init, RS_STM_Handshaked, RS_STM_Connected} \<and>
     (\<forall>h. srs h Srs_Handshake \<noteq> 0 \<and> srs h Srs_Connect_App \<noteq> 0 \<and> srs h Srs_Publish \<noteq> 0)"

interpretation publisher: retrying_client "\<lambda>(now, now'). push_iterate srs now now'" rtmp retrys "refuses srs" for srs
proof
  fix s :: push and e :: "u32 \<times> u32"
  show "\<not> rtmp s \<Longrightarrow> (case e of (now, now') \<Rightarrow> push_iterate srs now now') s = s"
    by (cases e) (simp add: push_iterate_def)
  show "refuses srs ((case e of (now, now') \<Rightarrow> push_iterate srs now now') s) \<and>
      retrys ((case e of (now, now') \<Rightarrow> push_iterate srs now now') s) = retrys s + 1 \<and>
      rtmp ((case e of (now, now') \<Rightarrow> push_iterate srs now now') s) = (retrys s < 3)"
    if "rtmp s" "refuses srs s"
    using that by (cases e) (auto simp: refuses_def push_iterate_def call_def CallDisconnect_def Let_def split: if_splits)
qed

lemma given_up_last: "callback_state cbs = Some (4, False) \<Longrightarrow> cbs \<noteq> [] \<and> last cbs = OnRtmpDisconnect"
proof (cases cbs rule: rev_cases)
  case (snoc cbs' cb)
  moreover assume "callback_state cbs = Some (4, False)"
  ultimately show ?thesis
    by (cases cb) (auto simp: next_callback_def split: bind_splits if_splits)
qed simp

lemma iterations_ok:
  "push_ok srs s \<Longrightarrow> push_running s \<Longrightarrow> push_ok srs (fold (\<lambda>(now, now'). push_iterate srs now now') clocks s) \<and>
     push_running (fold (\<lambda>(now, now'). push_iterate srs now now') clocks s)"
proof (induction clocks arbitrary: s)
  case (Cons c clocks)
  obtain a b where c: "c = (a, b)"
    by (cases c)
  have "push_running (push_iterate srs a b s)"
    using Cons.prems DoSendData_ok(2) [OF Cons.prems(1), of a b]
    by (cases "rtmp_status s") (auto simp: push_iterate_def call_def CallConnect_def CallDisconnect_def Let_def)
  with Cons push_iterate_ok show ?case
    by (simp add: c)
qed simp

text \<open>What the application hears of the failures from the number \<open>r\<close> on.\<close>

definition refusals :: "int \<Rightarrow> nat \<Rightarrow> push_callback list" where
  "refusals r n = map (\<lambda>i. if r + int i < 3 then OnRtmpReconnecting (r + int i + 1) else OnRtmpDisconnect) [0..<n]"

lemma refusals_Suc: "refusals r (Suc n) = (if r < 3 then OnRtmpReconnecting (r + 1) else OnRtmpDisconnect) # refusals (r + 1) n"
  unfolding refusals_def by (simp only: map_upt_Suc) (simp add: comp_def algebra_simps)

lemma refused_callback:
  "refuses srs s \<Longrightarrow> rtmp s \<Longrightarrow> callbacks (push_iterate srs now now' s) =
    callbacks s @ [if retrys s < 3 then OnRtmpReconnecting (retrys s + 1) else OnRtmpDisconnect]"
  by (auto simp: refuses_def push_iterate_def call_def CallDisconnect_def Let_def)

lemma refused_callbacks:
  "refuses srs s \<Longrightarrow> rtmp s \<Longrightarrow> retrys s \<le> 3 \<Longrightarrow> callbacks (fold (\<lambda>(now, now'). push_iterate srs now now') clocks s) =
    callbacks s @ refusals (retrys s) (min (nat (4 - retrys s)) (length clocks))"
proof (induction clocks arbitrary: s)
  case Nil
  then show ?case
    by (simp add: refusals_def)
next
  case (Cons c clocks)
  obtain a b where c: "c = (a, b)"
    by (cases c)
  let ?s = "push_iterate srs a b s"
  have r: "refuses srs ?s" "retrys ?s = retrys s + 1" "rtmp ?s = (retrys s < 3)"
    using publisher.retry [OF Cons.prems(2,1), of "(a, b)"] by simp_all
  show ?case
  proof (cases "retrys s < 3")
    case True
    then have "min (nat (4 - retrys s)) (length (c # clocks)) = Suc (min (nat (4 - retrys ?s)) (length clocks))"
      using r(2) by (simp add: min_def nat_diff_distrib) linarith
    with True Cons.IH [of ?s] r refused_callback [OF Cons.prems(1,2)] show ?thesis
      by (simp add: c refusals_Suc)
  next
    case False
    then have "retrys s = 3"
      using Cons.prems(3) by simp
    with False r refused_callback [OF Cons.prems(1,2)] publisher.idle_forever [of ?s] show ?thesis
      by (simp add: c refusals_def)
  qed
qed

text \<open>C13. Against a server that refuses every handshake, application and stream, the client with \<open>retrys\<close> failures behind it makes just
  the attempts that are left of four: with fewer iterations it still has its connection and has announced each new attempt by its number;
  with as many or more it has given up, has announced the disconnection last, and no iteration does anything after it.\<close>

theorem push_gives_up:
  fixes s :: push and clocks :: "(u32 \<times> u32) list"
  assumes "push_ok srs s" and "refuses srs s" and "rtmp s"
  defines "s' \<equiv> fold (\<lambda>(now, now'). push_iterate srs now now') clocks s"
  shows "(rtmp s' \<longleftrightarrow> length clocks < nat (4 - retrys s)) \<and>
    callbacks s' = callbacks s @ map (\<lambda>i. if retrys s + int i < 3 then OnRtmpReconnecting (retrys s + int i + 1) else OnRtmpDisconnect)
      [0..<min (nat (4 - retrys s)) (length clocks)] \<and>
    (\<not> rtmp s' \<longrightarrow> last (callbacks s') = OnRtmpDisconnect \<and> push_iterate srs now now' s' = s')"
proof -
  have r: "retrys s \<le> 3" "push_running s"
    using assms(1,2,3) by (simp_all add: push_ok_def before_disconnect_def refuses_def)
  have "rtmp s' \<longleftrightarrow> length clocks < nat (4 - retrys s)"
    unfolding s'_def publisher.gives_up_exactly [OF assms(3,2) r(1)] by linarith
  moreover have "push_ok srs s'" "push_running s'"
    using iterations_ok [OF assms(1) r(2)] by (simp_all add: s'_def)
  moreover have "callbacks s' = callbacks s @ refusals (retrys s) (min (nat (4 - retrys s)) (length clocks))"
    unfolding s'_def by (rule refused_callbacks [OF assms(2,3) r(1)])
  ultimately show ?thesis
    using given_up_last [of "callbacks s'"] unfolding refusals_def by (auto simp: push_ok_def push_iterate_def simp del: upt_conv_Cons)
qed

text \<open>A new client, and one that meets the refusals after two failures.\<close>

theorem push_gives_up_witness:
  "callbacks (fold (\<lambda>(now, now'). push_iterate (\<lambda>_ _. -1) now now') [(0, 0), (10, 10), (20, 20), (30, 30), (40, 40)] new_push) =
    [OnRtmpReconnecting 1, OnRtmpReconnecting 2, OnRtmpReconnecting 3, OnRtmpDisconnect]"
  using push_gives_up [of "\<lambda>_ _. -1" new_push "[(0, 0), (10, 10), (20, 20), (30, 30), (40, 40)]"] new_push_ok
  by (simp add: refuses_def new_push_def upt_rec)

section \<open>Key frames\<close>

lemma key_nals_three:
  assumes "is_code c2" "is_code c3" "is_unit sps" "is_unit pps" "2 \<le> length idr" "nal_type (idr ! 0) = 5" "length c1 = 4"
  shows "key_nals (c1 @ sps @ c2 @ pps @ c3 @ idr) = [c1 @ sps, c2 @ pps, c3 @ idr]"
  using assms(7) by (simp add: key_nals_def scan_three [OF assms] nal7_def nal8_def)

text \<open>C24. A key frame in the byte stream format, which begins with a start code of four bytes and has the second parameter set and the
  picture behind start codes of three or four, is queued as these three units, unchanged and complete, and from then on pictures and sound
  are taken.\<close>

theorem key_frame_cut:
  assumes "is_code c2" "is_code c3" "is_unit sps" "is_unit pps" "2 \<le> length idr" "nal_type (idr ! 0) = 5"
    and "nal_type (sps ! 0) = 7"
  shows "\<exists>s'. SetH264Data ([0, 0, 0, 1] @ sps @ c2 @ pps @ c3 @ idr) ts s = Some s' \<and> \<not> need_keyframe s' \<and>
    lst_enc_data s' = lst_enc_data s @ map (\<lambda>d. \<lparr>en_data = d, en_type = VIDEO_DATA, en_dts = ts\<rparr>) [[0, 0, 0, 1] @ sps, c2 @ pps, c3 @ idr]"
proof -
  have "sps \<noteq> []"
    using assms(3) by (simp add: is_unit_def)
  then have "cut_h264 ([0, 0, 0, 1] @ sps @ c2 @ pps @ c3 @ idr) (need_keyframe s) =
      Some ([[0, 0, 0, 1] @ sps, c2 @ pps, c3 @ idr], False)"
    using key_nals_three [OF assms(1-6), of "[0, 0, 0, 1]"] assms(5,7)
    by (simp add: cut_h264_def Let_def nth_append)
  then show ?thesis
    by (simp add: SetH264Data_def GotH264Nal_def enqueue_def)
qed

theorem key_frame_cut_witness:
  "\<exists>s'. SetH264Data [0, 0, 0, 1, 0x67, 1, 0, 0, 1, 0x68, 2, 0, 0, 0, 1, 0x65, 0] 40 new_push = Some s' \<and> map en_data (lst_enc_data s') =
    [[0, 0, 0, 1, 0x67, 1], [0, 0, 1, 0x68, 2], [0, 0, 0, 1, 0x65, 0]]"
  using key_frame_cut [of "[0, 0, 1]" "[0, 0, 0, 1]" "[0x67, 1]" "[0x68, 2]" "[0x65, 0]" 40 new_push]
  by (auto simp: is_code_def is_unit_code nal_type_def new_push_def)

text \<open>Behind a first start code of three bytes the type is read from the second byte of the parameter set, and a client that waits for a key
  frame drops the frame.\<close>

lemma short_first_code:
  assumes "2 \<le> length sps" and "nal_type (sps ! 1) \<noteq> 7" and "need_keyframe s"
  shows "SetH264Data ([0, 0, 1] @ sps @ rest) ts s = Some s"
proof -
  obtain a b sps' where "sps = a # b # sps'"
    using assms(1) by (cases sps; cases "tl sps") auto
  with assms(2,3) show ?thesis
    by (simp add: SetH264Data_def cut_h264_def)
qed

text \<open>What a frame of one parameter set and one more unit is cut into: the second unit is lost.\<close>

lemma key_nals_two:
  assumes "is_code c2" "is_unit sps" "is_unit b" "3 \<le> length b" "length c1 = 4"
  shows "key_nals (c1 @ sps @ c2 @ b) = [c1 @ sps, [], []]"
proof -
  let ?p = "c1 @ sps @ c2 @ b" and ?i = "4 + length sps"
  have len: "length c2 = 3 \<or> length c2 = 4"
    using assms(1) by (auto simp: is_code_def)
  then have ge: "3 \<le> length c2"
    by auto
  have "scan_nals ?p 4 0 0 = scan_nals ?p ?i 0 0"
    using no_code_in_unit [OF assms(2), of _ c1] assms(4,5) ge by (intro scan_skip) simp_all
  also have "\<dots> = scan_nals ?p (?i + 2) ?i 0"
    using code_at(1) [OF assms(1), of "c1 @ sps" b] assms(4,5) ge by (simp add: scan_nals.simps [of ?p ?i])
  also have "\<dots> = scan_nals ?p (?i + 2 + (length c2 + length b - 6)) ?i 0"
  proof (rule scan_skip)
    fix k
    assume k: "k < length c2 + length b - 6"
    show "\<not> start_code ?p (?i + 2 + k)"
    proof (cases "k + 2 < length c2")
      case True
      with no_code_after [OF assms(1), of "2 + k" "c1 @ sps" b] assms(5) show ?thesis
        by (simp add: add.assoc)
    next
      case False
      with k have "k + 2 - length c2 < length b"
        using assms(4) by linarith
      with no_code_in_unit [OF assms(3) this, of "c1 @ sps @ c2" "[]"] False assms(5) show ?thesis
        by (simp add: add.assoc)
    qed
  qed (use assms(4,5) ge in auto)
  also have "\<dots> = (?i, 0, None)"
    using assms(4,5) ge by (subst scan_nals.simps) auto
  finally show ?thesis
    using assms(5) by (simp add: key_nals_def nal7_def)
qed

text \<open>A key frame that carries only one unit beside its sequence parameter set (the two parameter sets alone, or a picture without a
  picture parameter set) loses that unit, and costs the connection: two empty blocks are queued in its place, and the library answers an
  empty block with an error that is taken for a broken connection.\<close>

theorem two_unit_key_frame:
  assumes "is_code c2" "is_unit sps" "is_unit b" "3 \<le> length b" "nal_type (sps ! 0) = 7"
    and "push_running s" "rtmp s" "rtmp_status s = RS_STM_Published" "lst_enc_data s = []" "retrys s = 0"
    and "\<And>h. srs h (Srs_Write_H264 ([0, 0, 0, 1] @ sps) ts) = 0" and "\<And>h. srs h (Srs_Write_H264 [] ts) = 3038"
  shows "\<exists>s'. SetH264Data ([0, 0, 0, 1] @ sps @ c2 @ b) ts s = Some s' \<and> map en_data (lst_enc_data s') = [[0, 0, 0, 1] @ sps, [], []] \<and>
    last (callbacks (push_iterate srs t3 t4 (push_iterate srs t1 t2 s'))) = OnRtmpReconnecting 1"
proof -
  have "sps \<noteq> []"
    using assms(2) by (simp add: is_unit_def)
  then have cut: "cut_h264 ([0, 0, 0, 1] @ sps @ c2 @ b) (need_keyframe s) = Some ([[0, 0, 0, 1] @ sps, [], []], False)"
    using key_nals_two [OF assms(1-4), of "[0, 0, 0, 1]"] assms(4,5) by (simp add: cut_h264_def Let_def nth_append)
  let ?d = "\<lambda>d. \<lparr>en_data = d, en_type = VIDEO_DATA, en_dts = ts\<rparr>"
  define s' where "s' = fold (\<lambda>nal. GotH264Nal nal ts) [[0, 0, 0, 1] @ sps, [], []] (s\<lparr>need_keyframe := False\<rparr>)"
  have q: "lst_enc_data s' = [?d ([0, 0, 0, 1] @ sps), ?d [], ?d []]"
    and f: "push_running s'" "rtmp s'" "rtmp_status s' = RS_STM_Published" "retrys s' = 0"
    using assms(6-10) by (simp_all add: s'_def GotH264Nal_def enqueue_def)
  define s1 where "s1 = push_iterate srs t1 t2 s'"
  have s1: "lst_enc_data s1 = [?d [], ?d []]" "push_running s1" "rtmp s1" "rtmp_status s1 = RS_STM_Published" "retrys s1 = 0"
    using q f assms(11)
    by (simp_all add: s1_def push_iterate_def DoSendData_def write_data_def call_def send_status_def Let_def)
  have "last (callbacks (push_iterate srs t3 t4 s1)) = OnRtmpReconnecting 1"
    using s1 assms(12)
    by (simp add: push_iterate_def DoSendData_def write_data_def call_def CallDisconnect_def Let_def srs_h264_ignored_def)
  moreover have "SetH264Data ([0, 0, 0, 1] @ sps @ c2 @ b) ts s = Some s'"
    by (simp only: SetH264Data_def cut bind.bind_lunit prod.case s'_def)
  ultimately show ?thesis
    using q by (simp add: s1_def)
qed

definition published_push :: push where
  "published_push = push_iterate (\<lambda>_ _. 0) 0 0 (push_iterate (\<lambda>_ _. 0) 0 0 (push_iterate (\<lambda>_ _. 0) 0 0 new_push))"

definition empty_refusing :: srs where
  "empty_refusing h c = (case c of Srs_Write_H264 d ts \<Rightarrow> if d = [] then 3038 else 0 | _ \<Rightarrow> 0)"

lemma published_push: "push_running published_push" "rtmp published_push" "rtmp_status published_push = RS_STM_Published"
  "lst_enc_data published_push = []" "retrys published_push = 0"
  by (simp_all add: published_push_def push_iterate_def call_def CallConnect_def new_push_def)

theorem two_unit_key_frame_witness:
  "\<exists>s'. SetH264Data [0, 0, 0, 1, 0x67, 1, 0, 0, 1, 0x68, 2, 3] 40 published_push = Some s' \<and>
    last (callbacks (push_iterate empty_refusing 9 9 (push_iterate empty_refusing 5 5 s'))) = OnRtmpReconnecting 1"
  using two_unit_key_frame [of "[0, 0, 1]" "[0x67, 1]" "[0x68, 2, 3]" published_push empty_refusing 40 9 9 5 5] published_push
  by (auto simp: is_code_def is_unit_code nal_type_def empty_refusing_def)

end
