(* ===== verification/Rtmp_Encoder.thy ===== *)
theory Rtmp_Encoder
  imports Prelude "HOL-Library.Signed_Division"
begin

text \<open>
  The encoders before \<open>Rtmp_Push\<close> (\<open>AnyCore/avcodec.cc\<close>, \<open>AnyCore/aacencode.cc\<close>,
  \<open>AnyCore/videofilter.cc\<close>): the picture encoder with the bit rate that follows the delay of the network, the sound encoder that
  collects samples into blocks, and the filter that crops pictures. The codecs themselves are parameters. \<open>requests\<close> and
  \<open>blocks\<close> are histories: what the codecs were asked to encode.
\<close>

section \<open>Pictures\<close>

record h264_encoder =
  v_running :: bool
  v_need_keyframe :: bool
  v_encoded :: bool
  video_bitrate :: int
  delay_ms :: int
  adjust_v_bitrate :: int
  target_bitrate :: int
  max_bitrate :: int
  max_framerate :: int
  v_width :: int
  v_height :: int
  v_codec :: "(int \<times> int) option"
  requests :: "(int \<times> int \<times> bool) list"

definition new_h264_encoder :: h264_encoder where
  "new_h264_encoder = \<lparr>v_running = True, v_need_keyframe = True, v_encoded = False, video_bitrate = 768, delay_ms = 0,
     adjust_v_bitrate = 768, target_bitrate = 768, max_bitrate = 1024, max_framerate = 20, v_width = 640, v_height = 480,
     v_codec = None, requests = []\<rparr>"

definition SetParameter :: "int \<Rightarrow> int \<Rightarrow> int \<Rightarrow> int \<Rightarrow> h264_encoder \<Rightarrow> h264_encoder" where
  "SetParameter width height fps bitrate e = e\<lparr>target_bitrate := bitrate, max_bitrate := bitrate, max_framerate := fps,
     v_width := width, v_height := height\<rparr>"

text \<open>\<open>v_codec\<close> is the codec in use, with the rate and the frame rate it was last given.\<close>

definition SetRates :: "int \<Rightarrow> h264_encoder \<Rightarrow> h264_encoder" where
  "SetRates bitrate e = e\<lparr>video_bitrate := bitrate, target_bitrate := bitrate, max_bitrate := bitrate,
     v_codec := map_option (\<lambda>_. (bitrate, max_framerate e)) (v_codec e)\<rparr>"

definition SetAutoAdjustBit :: "bool \<Rightarrow> h264_encoder \<Rightarrow> h264_encoder" where
  "SetAutoAdjustBit enabled e = (if enabled then e\<lparr>adjust_v_bitrate := video_bitrate e\<rparr> else e)"

text \<open>To level \<open>l\<close> of the delay, at the rate \<open>r\<close>.\<close>

definition to_level :: "int \<Rightarrow> int \<Rightarrow> h264_encoder \<Rightarrow> h264_encoder" where
  "to_level l r e = SetRates r (e\<lparr>delay_ms := l\<rparr>)"

definition SetNetDelay :: "int \<Rightarrow> h264_encoder \<Rightarrow> h264_encoder" where
  "SetNetDelay delayMs e =
     (let a = adjust_v_bitrate e in
      if 0 \<le> delayMs \<and> delayMs < 3000
      then if delay_ms e \<noteq> 0 \<and> delayMs \<le> 1000 then to_level 0 a e else e
      else if 3000 \<le> delayMs \<and> delayMs < 5000
      then if delay_ms e = 0 then to_level 3000 (a * 3 sdiv 4) e
        else if 5000 \<le> delay_ms e \<and> delayMs \<le> 4000 then to_level 3000 (a * 3 sdiv 4) e else e
      else if 5000 \<le> delayMs \<and> delayMs < 10000
      then if delay_ms e \<le> 3000 then to_level 5000 (a sdiv 2) e
        else if 10000 \<le> delay_ms e \<and> delayMs \<le> 7000 then to_level 5000 (a sdiv 2) e else e
      else if 10000 \<le> delayMs then if delay_ms e \<le> 5000 then to_level 10000 (a sdiv 3) e else e
      else e)"

definition v_StartEncoder :: "h264_encoder \<Rightarrow> h264_encoder" where
  "v_StartEncoder e = e\<lparr>v_need_keyframe := True, v_encoded := True\<rparr>"

definition v_StopEncoder :: "h264_encoder \<Rightarrow> h264_encoder" where
  "v_StopEncoder e = e\<lparr>v_encoded := False\<rparr>"

definition RequestKeyFrame :: "h264_encoder \<Rightarrow> h264_encoder" where
  "RequestKeyFrame e = e\<lparr>v_need_keyframe := True\<rparr>"

text \<open>A codec, of the factory or the library's own, starts with the settings of the moment.\<close>

definition CreateVideoEncoder :: "h264_encoder \<Rightarrow> h264_encoder" where
  "CreateVideoEncoder e = e\<lparr>v_codec := Some (target_bitrate e, max_framerate e)\<rparr>"

text \<open>One round of the thread, with the picture that is due, if any, as its size.\<close>

definition encoder_round :: "(int \<times> int) option \<Rightarrow> h264_encoder \<Rightarrow> h264_encoder" where
  "encoder_round pic e = (if \<not> v_running e then e else (case pic of None \<Rightarrow> e
     | Some (w, h) \<Rightarrow>
        let e = (if v_width e \<noteq> w \<or> v_height e \<noteq> h then e\<lparr>v_width := w, v_height := h, v_codec := None\<rparr> else e);
            e = (if v_codec e = None then CreateVideoEncoder e else e)
        in e\<lparr>requests := requests e @ [(w, h, v_need_keyframe e)], v_need_keyframe := False\<rparr>))"

section \<open>Sound\<close>

text \<open>The wrapper of the codec: \<open>nPcmSize\<close> bytes make a block.\<close>

record aac_enc =
  nPcmSize :: nat
  pPCM :: bytes
  blocks :: "bytes list"

text \<open>
  Samples come in. The collected bytes are \<open>pPCM\<close>; a full block goes to the codec, whose output of \<open>out\<close> bytes is copied
  to a buffer of 1024 of the caller. What is left after one block must fit the buffer.
\<close>

definition aac_encoder_encode_frame :: "bytes \<Rightarrow> nat \<Rightarrow> aac_enc \<Rightarrow> (nat \<times> nat \<times> aac_enc) option" where
  "aac_encoder_encode_frame inbuf out e =
     (if length (pPCM e) + length inbuf < nPcmSize e then Some (0, 0, e\<lparr>pPCM := pPCM e @ inbuf\<rparr>)
      else let fill = nPcmSize e - length (pPCM e); rest = drop fill inbuf
        in if out > 1024 \<or> length rest > nPcmSize e then None
           else Some (length (pPCM e), out, e\<lparr>pPCM := rest, blocks := blocks e @ [pPCM e @ take fill inbuf]\<rparr>))"

record aac_encoder =
  a_muted :: bool
  a_encoded :: bool
  a_enc :: "aac_enc option"
  a_frames :: "nat list"

definition a_StartEncoder :: "aac_encoder \<Rightarrow> aac_encoder" where
  "a_StartEncoder a = a\<lparr>a_encoded := True\<rparr>"

definition a_StopEncoder :: "aac_encoder \<Rightarrow> aac_encoder" where
  "a_StopEncoder a = a\<lparr>a_encoded := False\<rparr>"

definition Muted :: "bool \<Rightarrow> aac_encoder \<Rightarrow> aac_encoder" where
  "Muted enable a = a\<lparr>a_muted := enable\<rparr>"

text \<open>\<open>a_frames\<close> has the sizes of the frames handed on.\<close>

definition Encode :: "bytes \<Rightarrow> nat \<Rightarrow> aac_encoder \<Rightarrow> aac_encoder option" where
  "Encode samples out a = (case a_enc a of None \<Rightarrow> Some a
     | Some e \<Rightarrow> do {
         (status, outlen, e) \<leftarrow> aac_encoder_encode_frame (if a_muted a then replicate (length samples) 0 else samples) out e;
         Some (a\<lparr>a_enc := Some e, a_frames := (if outlen > 0 then a_frames a @ [outlen] else a_frames a)\<rparr>) })"

definition OnData :: "bytes \<Rightarrow> nat \<Rightarrow> aac_encoder \<Rightarrow> aac_encoder option" where
  "OnData samples out a = (if a_encoded a then Encode samples out a else Some a)"

section \<open>Cropping\<close>

text \<open>
  A plane is its rows, one after the other; \<open>crop_rows\<close> copies rows of \<open>n\<close> bytes from the offset on, \<open>w\<close> bytes apart,
  as long as the source has them.
\<close>

fun crop_rows :: "nat \<Rightarrow> nat \<Rightarrow> nat \<Rightarrow> nat \<Rightarrow> bytes \<Rightarrow> bytes option" where
  "crop_rows 0 w n off src = Some []"
| "crop_rows (Suc k) w n off src =
     need (off + n) src (do { rows \<leftarrow> crop_rows k w n (off + w) src; Some (take n (drop off src) @ rows) })"

definition crop_width :: "nat \<Rightarrow> nat \<Rightarrow> nat" where
  "crop_width w h = (if w < h then h * 9 div 16 else w)"

definition abs_diff :: "nat \<Rightarrow> nat \<Rightarrow> nat" where
  "abs_diff a b = (if a \<le> b then b - a else a - b)"

text \<open>The three planes of the filtered picture. Two of three pictures go through; \<open>sFpsCt\<close> counts them.\<close>

definition VideoFilter_OnFrame :: "u32 \<Rightarrow> nat \<Rightarrow> nat \<Rightarrow> bytes \<times> bytes \<times> bytes \<Rightarrow> ((bytes \<times> bytes \<times> bytes) option \<times> u32) option" where
  "VideoFilter_OnFrame sFpsCt w h planes =
     (if sFpsCt mod 3 = 0 then Some (None, sFpsCt + 1)
      else (case planes of (y, u, v) \<Rightarrow>
        let n = crop_width w h; offsetW = abs_diff n w div 2 in do {
          y' \<leftarrow> crop_rows h w n offsetW y;
          u' \<leftarrow> crop_rows (h div 2) (w div 2) (n div 2) (offsetW div 2) u;
          v' \<leftarrow> crop_rows (h div 2) (w div 2) (n div 2) (offsetW div 2) v;
          Some (Some (y', u', v'), sFpsCt + 1) }))"

section \<open>The rate\<close>

definition rate_at :: "int \<Rightarrow> int \<Rightarrow> int" where
  "rate_at l a = (if l = 0 then a else if l = 3000 then a * 3 sdiv 4 else if l = 5000 then a sdiv 2 else a sdiv 3)"

definition delay_class :: "int \<Rightarrow> int" where
  "delay_class d = (if d < 3000 then 0 else if d < 5000 then 3000 else if d < 10000 then 5000 else 10000)"

text \<open>The level is one of four, the rate the one of the level, and the codec, if there is one, knows it.\<close>

definition rate_ok :: "int \<Rightarrow> int \<Rightarrow> h264_encoder \<Rightarrow> bool" where
  "rate_ok a fps e \<longleftrightarrow> delay_ms e \<in> {0, 3000, 5000, 10000} \<and> adjust_v_bitrate e = a \<and> video_bitrate e = rate_at (delay_ms e) a \<and>
     max_framerate e = fps \<and> (\<forall>c. v_codec e = Some c \<longrightarrow> c = (video_bitrate e, fps))"

lemma sdiv_nonneg: "0 \<le> a \<Longrightarrow> 0 < k \<Longrightarrow> a sdiv k = a div k" for a k :: int
  by (cases "a = 0") (simp_all add: signed_divide_int_def)

lemma SetNetDelay_ok:
  assumes "rate_ok a fps e"
  shows "rate_ok a fps (SetNetDelay d e)"
  using assms by (auto simp: rate_ok_def SetNetDelay_def Let_def to_level_def SetRates_def rate_at_def)

lemma SetNetDelays_ok: "rate_ok a fps e \<Longrightarrow> rate_ok a fps (fold SetNetDelay ds e)"
  by (induction ds arbitrary: e) (simp_all add: SetNetDelay_ok)

text \<open>C26. Whatever delays the network reports, the bit rate is the chosen one, three quarters, half or a third of it, the codec has been told,
  and after each report it is no higher than the reported delay allows; after a report of at most a second it is the chosen one.\<close>

theorem rate_follows_delay:
  fixes ds :: "int list"
  assumes "rate_ok a fps e" and "0 \<le> d"
  defines "e' \<equiv> fold SetNetDelay (ds @ [d]) e"
  shows "rate_ok a fps e' \<and> delay_class d \<le> delay_ms e' \<and> (d \<le> 1000 \<longrightarrow> video_bitrate e' = a)"
proof -
  have "rate_ok a fps (fold SetNetDelay ds e)"
    using assms(1) by (rule SetNetDelays_ok)
  moreover have "delay_class d \<le> delay_ms (SetNetDelay d f) \<and> (d \<le> 1000 \<longrightarrow> video_bitrate (SetNetDelay d f) = a)" if "rate_ok a fps f" for f
    using that assms(2) by (auto simp: rate_ok_def SetNetDelay_def Let_def to_level_def SetRates_def rate_at_def delay_class_def)
  ultimately show ?thesis
    by (simp add: e'_def SetNetDelay_ok)
qed

theorem rate_follows_delay_witness:
  "video_bitrate (fold SetNetDelay ([3500, 12000, 6000] @ [800]) new_h264_encoder) = 768"
  using rate_follows_delay [of 768 20 new_h264_encoder 800 "[3500, 12000, 6000]"]
  by (simp add: rate_ok_def rate_at_def new_h264_encoder_def)

text \<open>From the lowest rate, a delay of two seconds changes nothing, one of three and a half seconds raises it.\<close>

lemma middling_delay_sticks:
  assumes "rate_ok a fps e" and "delay_ms e = 10000"
  shows "video_bitrate (SetNetDelay 2000 e) = a sdiv 3" "video_bitrate (SetNetDelay 3500 e) = a * 3 sdiv 4"
  using assms by (simp_all add: rate_ok_def SetNetDelay_def to_level_def SetRates_def rate_at_def)

text \<open>Switching the adjustment on while the rate is reduced makes the reduced rate the chosen one: when the delay is over, and after any
  delays, the rate is never again above the third it was switched on at.\<close>

theorem adjustment_ratchets_down:
  assumes "rate_ok a fps e" and "0 \<le> a" and "delay_ms e = 10000"
  shows "video_bitrate (SetNetDelay 0 (SetAutoAdjustBit True e)) = a sdiv 3 \<and>
    video_bitrate (fold SetNetDelay ds (SetNetDelay 0 (SetAutoAdjustBit True e))) \<le> a sdiv 3"
proof -
  let ?e = "SetNetDelay 0 (SetAutoAdjustBit True e)"
  have "?e = to_level 0 (a sdiv 3) (e\<lparr>adjust_v_bitrate := a sdiv 3\<rparr>)"
    using assms(1,3) by (simp add: rate_ok_def rate_at_def SetAutoAdjustBit_def SetNetDelay_def)
  then have e: "rate_ok (a sdiv 3) fps ?e" "video_bitrate ?e = a sdiv 3"
    using assms(1) by (auto simp: rate_ok_def to_level_def SetRates_def rate_at_def)
  have "rate_at l b \<le> b" if "0 \<le> b" for l b
    using that by (auto simp: rate_at_def sdiv_nonneg)
  with SetNetDelays_ok [OF e(1), of ds] assms(2) e(2) show ?thesis
    by (simp add: rate_ok_def sdiv_nonneg)
qed

theorem adjustment_ratchets_down_witness:
  "video_bitrate (fold SetNetDelay [0] (SetNetDelay 0 (SetAutoAdjustBit True (SetNetDelay 20000 new_h264_encoder)))) \<le> 256"
  using adjustment_ratchets_down [of 768 20 "SetNetDelay 20000 new_h264_encoder" "[0]"]
  by (simp add: rate_ok_def rate_at_def new_h264_encoder_def SetNetDelay_def to_level_def SetRates_def)

section \<open>Blocks of sound\<close>

definition feed :: "aac_enc \<Rightarrow> bytes \<times> nat \<Rightarrow> aac_enc option" where
  "feed e x = map_option (\<lambda>(status, outlen, e). e) (aac_encoder_encode_frame (fst x) (snd x) e)"

definition enc_ok :: "bytes \<Rightarrow> nat \<Rightarrow> aac_enc \<Rightarrow> bool" where
  "enc_ok input n e \<longleftrightarrow> nPcmSize e = n \<and> concat (blocks e) @ pPCM e = input \<and> length (pPCM e) < n \<and> list_all (\<lambda>b. length b = n) (blocks e)"

lemma feed_ok:
  assumes "enc_ok input n e" and "length (fst x) \<le> n" and "snd x \<le> 1024"
  shows "\<exists>e'. feed e x = Some e' \<and> enc_ok (input @ fst x) n e'"
proof (cases "length (pPCM e) + length (fst x) < n")
  case True
  with assms(1) show ?thesis
    by (auto simp: feed_def aac_encoder_encode_frame_def enc_ok_def)
next
  case False
  with assms show ?thesis
    by (auto simp: feed_def aac_encoder_encode_frame_def enc_ok_def Let_def)
qed

text \<open>C27. Samples in portions no longer than a block come out in blocks: nothing is lost, doubled or reordered, every block the codec gets is
  full, and the wrapper stays inside its buffer.\<close>

theorem sound_blocks:
  assumes "0 < n" and "list_all (\<lambda>x. length (fst x) \<le> n \<and> snd x \<le> 1024) xs"
  shows "\<exists>e. run_partial feed \<lparr>nPcmSize = n, pPCM = [], blocks = []\<rparr> xs = Some e \<and>
    concat (blocks e) @ pPCM e = concat (map fst xs) \<and> list_all (\<lambda>b. length b = n) (blocks e) \<and> length (pPCM e) < n"
proof -
  have "\<exists>e'. run_partial feed e xs = Some e' \<and> enc_ok (input @ concat (map fst xs)) n e'" if "enc_ok input n e" for e input
    using that assms(2)
  proof (induction xs arbitrary: e input)
    case (Cons x xs)
    then obtain e1 where "feed e x = Some e1" "enc_ok (input @ fst x) n e1"
      using feed_ok [of input n e x] by auto
    with Cons.IH [of "input @ fst x" e1] Cons.prems show ?case
      by simp
  qed simp
  from this [of "[]" "\<lparr>nPcmSize = n, pPCM = [], blocks = []\<rparr>"] assms(1) show ?thesis
    by (auto simp: enc_ok_def)
qed

theorem sound_blocks_witness:
  "\<exists>e. run_partial feed \<lparr>nPcmSize = 4, pPCM = [], blocks = []\<rparr> [([1, 2, 3], 0), ([4, 5, 6], 9), ([7, 8, 9, 10], 9)] = Some e \<and>
    concat (blocks e) @ pPCM e = [1, 2, 3, 4, 5, 6, 7, 8, 9, 10] \<and> list_all (\<lambda>b. length b = 4) (blocks e)"
  using sound_blocks [of 4 "[([1, 2, 3], 0), ([4, 5, 6], 9), ([7, 8, 9, 10], 9)]"] by auto

text \<open>A portion longer than what two blocks take is written past the buffer.\<close>

lemma long_portion_overflows:
  "length (pPCM e) \<le> nPcmSize e \<Longrightarrow> 2 * nPcmSize e < length (pPCM e) + length inbuf \<Longrightarrow> aac_encoder_encode_frame inbuf out e = None"
  by (auto simp: aac_encoder_encode_frame_def Let_def)

section \<open>Cropped pictures\<close>

lemma crop_rows_exact:
  assumes "list_all (\<lambda>r. length r = w) rows" and "off + n \<le> w" and "0 < w \<or> rows = []"
  shows "crop_rows (length rows) w n (length before + off) (before @ concat rows) = Some (concat (map (\<lambda>r. take n (drop off r)) rows))"
  using assms
proof (induction rows arbitrary: before)
  case (Cons r rows)
  have "crop_rows (length rows) w n (length (before @ r) + off) ((before @ r) @ concat rows) =
      Some (concat (map (\<lambda>r. take n (drop off r)) rows))"
    using Cons.prems by (intro Cons.IH) auto
  with Cons.prems show ?case
    by (simp add: add.commute add.left_commute)
qed simp

lemma crop_rows_short: "crop_rows k w n off src = None" if "0 < k" "length src < (k - 1) * w + off + n"
  using that
proof (induction k arbitrary: off)
  case (Suc k)
  show ?case
  proof (cases k)
    case 0
    with Suc.prems show ?thesis
      by (simp add: need_def)
  next
    case (Suc j)
    with Suc.IH [of "off + w"] Suc.prems show ?thesis
      by (simp add: need_def algebra_simps)
  qed
qed simp

lemma concat_length: "list_all (\<lambda>r. length r = w) rows \<Longrightarrow> length (concat rows) = length rows * w"
  by (induction rows) simp_all

text \<open>The rows of a plane, cropped or not.\<close>

lemma crop_plane:
  assumes "list_all (\<lambda>r. length r = w) rows" and "rows \<noteq> []" and "0 < w"
  shows "crop_rows (length rows) w n off (concat rows) =
    (if off + n \<le> w then Some (concat (map (\<lambda>r. take n (drop off r)) rows)) else None)"
proof (cases "off + n \<le> w")
  case True
  with crop_rows_exact [of w rows off n "[]"] assms show ?thesis
    by simp
next
  case False
  obtain m where m: "length rows = Suc m"
    using assms(2) by (cases rows) auto
  then have "crop_rows (Suc m) w n off (concat rows) = None"
    using False assms by (intro crop_rows_short) (simp_all add: concat_length)
  with False m show ?thesis
    by simp
qed

text \<open>C28. A picture passes the filter unchanged when it is not upright; of an upright one the middle of each row remains, nine sixteenths of
  the height wide; and an upright picture narrower than that makes the filter read past its planes. One picture of three is dropped.\<close>

theorem filter_crops_middle:
  assumes "list_all (\<lambda>r. length r = w) ys" "list_all (\<lambda>r. length r = w div 2) us" "list_all (\<lambda>r. length r = w div 2) vs"
    and "length ys = h" "length us = h div 2" "length vs = h div 2" and "2 \<le> w" "2 \<le> h"
    and "ct mod 3 \<noteq> 0"
  defines "n \<equiv> crop_width w h" and "off \<equiv> (w - crop_width w h) div 2"
  shows "VideoFilter_OnFrame ct w h (concat ys, concat us, concat vs) =
    (if n \<le> w then Some (Some (concat (map (\<lambda>r. take n (drop off r)) ys), concat (map (\<lambda>r. take (n div 2) (drop (off div 2) r)) us),
         concat (map (\<lambda>r. take (n div 2) (drop (off div 2) r)) vs)), ct + 1)
     else None)"
proof -
  have nonempty: "ys \<noteq> []" "us \<noteq> []" "vs \<noteq> []"
    using assms(4-8) by auto
  have pos: "0 < w" "0 < w div 2"
    using assms(7) by auto
  note y = crop_plane [OF assms(1) nonempty(1) pos(1), unfolded assms(4)]
  note u = crop_plane [OF assms(2) nonempty(2) pos(2), unfolded assms(5)]
  note v = crop_plane [OF assms(3) nonempty(3) pos(2), unfolded assms(6)]
  show ?thesis
  proof (cases "n \<le> w")
    case True
    then have "abs_diff n w div 2 = off" "off + n \<le> w" "off div 2 + n div 2 \<le> w div 2"
      by (auto simp: off_def n_def abs_diff_def)
    with True assms(9) y u v show ?thesis
      by (simp add: VideoFilter_OnFrame_def Let_def flip: n_def)
  next
    case False
    then have "\<not> abs_diff n w div 2 + n \<le> w"
      by simp
    with False assms(9) y show ?thesis
      by (simp add: VideoFilter_OnFrame_def Let_def flip: n_def)
  qed
qed

theorem filter_crops_middle_witness:
  "VideoFilter_OnFrame 1 2 4 ([1, 2, 1, 2, 1, 2, 1, 2], [3, 4], [5, 6]) = Some (Some ([1, 2, 1, 2, 1, 2, 1, 2], [3, 4], [5, 6]), 2) \<and>
   VideoFilter_OnFrame 1 2 6 ([1, 2, 1, 2, 1, 2, 1, 2, 1, 2, 1, 2], [3, 4, 7], [5, 6, 7]) = None"
  using filter_crops_middle [of 2 "[[1, 2], [1, 2], [1, 2], [1, 2]]" "[[3], [4]]" "[[5], [6]]" 4 1]
    filter_crops_middle [of 2 "[[1, 2], [1, 2], [1, 2], [1, 2], [1, 2], [1, 2]]" "[[3], [4], [7]]" "[[5], [6], [7]]" 6 1]
  by (simp add: crop_width_def)

end
