(* ===== verification/Rtmp_Streamer.thy ===== *)
theory Rtmp_Streamer
  imports Rtmp_Session Rtmp_Encoder
begin

text \<open>
  The streamer (\<open>AnyCore/anyrtmpstreamer.cc\<close>), which joins the encoders of \<open>Rtmp_Encoder\<close> to the connection of
  \<open>Rtmp_Push\<close>, and the host (\<open>AnyCore/RtmpHosterImpl.cc\<close>), which starts and stops it by messages. An iteration of the
  connection's thread is one step with the callbacks it makes.
\<close>

section \<open>The streamer\<close>

datatype streamer_callback = OnStreamOk | OnStreamReconnecting int | OnStreamFailed int | OnStreamClosed | OnStreamStatus int int

record streamer =
  rtmp_connected :: bool
  auto_adjust_bit :: bool
  a_enc_obj :: aac_encoder
  v_enc_obj :: h264_encoder
  st_width :: int
  st_height :: int
  st_bitrate :: int
  av_rtmp :: "push option"
  stream_callbacks :: "streamer_callback list"

definition new_streamer :: "aac_enc \<Rightarrow> streamer" where
  "new_streamer enc = \<lparr>rtmp_connected = False, auto_adjust_bit = False,
     a_enc_obj = \<lparr>a_muted = False, a_encoded = False, a_enc = Some enc, a_frames = []\<rparr>,
     v_enc_obj = SetParameter 640 480 20 768 new_h264_encoder, st_width = 640, st_height = 480, st_bitrate = 768, av_rtmp = None,
     stream_callbacks = []\<rparr>"

definition SetAudioEnable :: "bool \<Rightarrow> streamer \<Rightarrow> streamer" where
  "SetAudioEnable enabled s = s\<lparr>a_enc_obj := Muted (\<not> enabled) (a_enc_obj s)\<rparr>"

definition SetVideoEnable :: "bool \<Rightarrow> streamer \<Rightarrow> streamer" where
  "SetVideoEnable enabled s = (if enabled then s else s\<lparr>av_rtmp := map_option EnableOnlyAudioMode (av_rtmp s)\<rparr>)"

definition st_SetAutoAdjustBit :: "bool \<Rightarrow> streamer \<Rightarrow> streamer" where
  "st_SetAutoAdjustBit enabled s = s\<lparr>auto_adjust_bit := enabled, v_enc_obj := SetAutoAdjustBit enabled (v_enc_obj s)\<rparr>"

definition st_SetVideoParameter :: "int \<Rightarrow> int \<Rightarrow> int \<Rightarrow> streamer \<Rightarrow> streamer" where
  "st_SetVideoParameter w h bitrate s = s\<lparr>st_width := w, st_height := h, v_enc_obj := SetRates bitrate (v_enc_obj s), st_bitrate := bitrate\<rparr>"

definition st_SetBitrate :: "int \<Rightarrow> streamer \<Rightarrow> streamer" where
  "st_SetBitrate bitrate s = s\<lparr>v_enc_obj := SetRates bitrate (v_enc_obj s), st_bitrate := bitrate\<rparr>"

definition st_StartEncoder :: "streamer \<Rightarrow> streamer" where
  "st_StartEncoder s = s\<lparr>v_enc_obj := v_StartEncoder (v_enc_obj s), a_enc_obj := a_StartEncoder (a_enc_obj s)\<rparr>"

definition st_StopEncoder :: "streamer \<Rightarrow> streamer" where
  "st_StopEncoder s = s\<lparr>v_enc_obj := v_StopEncoder (v_enc_obj s), a_enc_obj := a_StopEncoder (a_enc_obj s)\<rparr>"

definition StartStream :: "streamer \<Rightarrow> streamer" where
  "StartStream s = s\<lparr>av_rtmp := Some (SetVideoParameter (st_width s) (st_height s) (st_bitrate s) 20
     (SetAudioParameter 44100 16 1 (case av_rtmp s of None \<Rightarrow> new_push | Some p \<Rightarrow> p)))\<rparr>"

definition StopStream :: "streamer \<Rightarrow> streamer" where
  "StopStream s = st_StopEncoder (s\<lparr>av_rtmp := None\<rparr>)"

definition tell :: "streamer_callback \<Rightarrow> streamer \<Rightarrow> streamer" where
  "tell cb s = s\<lparr>stream_callbacks := stream_callbacks s @ [cb]\<rparr>"

text \<open>The callbacks of the connection.\<close>

definition on_push :: "push_callback \<Rightarrow> streamer \<Rightarrow> streamer" where
  "on_push cb s = (case cb of
     OnRtmpConnected \<Rightarrow> tell OnStreamOk (st_StartEncoder s)
   | OnRtmpReconnecting k \<Rightarrow> tell (OnStreamReconnecting k) (st_StopEncoder s)
   | OnRtmpDisconnect \<Rightarrow> (let s = st_StopEncoder s
       in (tell (if rtmp_connected s then OnStreamClosed else OnStreamFailed 1) s)\<lparr>rtmp_connected := False\<rparr>)
   | OnRtmpStatusEvent delayMs netBand \<Rightarrow> tell (OnStreamStatus (sint delayMs) (sint netBand))
       (if auto_adjust_bit s then s\<lparr>v_enc_obj := SetNetDelay (sint delayMs) (v_enc_obj s)\<rparr> else s))"

definition push_round :: "srs \<Rightarrow> u32 \<Rightarrow> u32 \<Rightarrow> streamer \<Rightarrow> streamer" where
  "push_round srs now now' s = (case av_rtmp s of None \<Rightarrow> s
     | Some p \<Rightarrow> let p' = push_iterate srs now now' p in
         fold on_push (drop (length (callbacks p)) (callbacks p')) (s\<lparr>av_rtmp := Some p'\<rparr>))"

definition OnEncodeDataCallback :: "bool \<Rightarrow> bytes \<Rightarrow> u32 \<Rightarrow> streamer \<Rightarrow> streamer option" where
  "OnEncodeDataCallback audio data ts s = (case av_rtmp s of None \<Rightarrow> Some s
     | Some p \<Rightarrow> if audio then Some (s\<lparr>av_rtmp := Some (SetAacData data ts p)\<rparr>)
         else do { p \<leftarrow> SetH264Data data ts p; Some (s\<lparr>av_rtmp := Some p\<rparr>) })"

datatype streamer_event = S_Start | S_Stop | S_Round u32 u32 | S_Data bool bytes u32 | S_Audio bool | S_Video bool | S_Bitrate int
  | S_Parameter int int int | S_Auto bool

definition streamer_step :: "srs \<Rightarrow> streamer \<Rightarrow> streamer_event \<Rightarrow> streamer option" where
  "streamer_step srs s e = (case e of
     S_Start \<Rightarrow> Some (StartStream s)
   | S_Stop \<Rightarrow> Some (StopStream s)
   | S_Round now now' \<Rightarrow> Some (push_round srs now now' s)
   | S_Data audio data ts \<Rightarrow> OnEncodeDataCallback audio data ts s
   | S_Audio b \<Rightarrow> Some (SetAudioEnable b s)
   | S_Video b \<Rightarrow> Some (SetVideoEnable b s)
   | S_Bitrate b \<Rightarrow> Some (st_SetBitrate b s)
   | S_Parameter w h b \<Rightarrow> Some (st_SetVideoParameter w h b s)
   | S_Auto b \<Rightarrow> Some (st_SetAutoAdjustBit b s))"

section \<open>The host\<close>

datatype video_mode = RTMP_Video_720P | RTMP_Video_HD | RTMP_Video_QHD | RTMP_Video_SD | RTMP_Video_Low

text \<open>Requested size, size on this platform, bit rate.\<close>

definition mode_parameters :: "video_mode \<Rightarrow> (int \<times> int) \<times> (int \<times> int) \<times> int" where
  "mode_parameters m = (case m of
     RTMP_Video_720P \<Rightarrow> ((1280, 720), (720, 1280), 1280)
   | RTMP_Video_HD \<Rightarrow> ((1280, 720), (540, 960), 1024)
   | RTMP_Video_QHD \<Rightarrow> ((640, 480), (360, 640), 768)
   | RTMP_Video_SD \<Rightarrow> ((640, 480), (360, 640), 512)
   | RTMP_Video_Low \<Rightarrow> ((640, 480), (360, 640), 384))"

datatype hoster_message = MSG_START_RTMP | MSG_STOP_RTMP

text \<open>\<open>messages\<close> of the worker's thread, with the time from which each may be handled, in the order of handling.\<close>

record hoster =
  av_rtmp_started :: bool
  h_streamer :: streamer
  req_size :: "int \<times> int"
  has_capturer :: bool
  messages :: "(nat \<times> hoster_message) list"

definition SetVideoMode :: "video_mode \<Rightarrow> hoster \<Rightarrow> hoster" where
  "SetVideoMode m h = (case mode_parameters m of (req, (w, hg), bitrate) \<Rightarrow>
     h\<lparr>req_size := req, h_streamer := st_SetVideoParameter w hg bitrate (h_streamer h)\<rparr>)"

definition new_hoster :: "aac_enc \<Rightarrow> hoster" where
  "new_hoster enc = SetVideoMode RTMP_Video_SD \<lparr>av_rtmp_started = False, h_streamer = new_streamer enc, req_size = (0, 0),
     has_capturer = False, messages = []\<rparr>"

definition post :: "nat \<Rightarrow> hoster_message \<Rightarrow> hoster \<Rightarrow> hoster" where
  "post due m h = h\<lparr>messages := takeWhile (\<lambda>x. fst x \<le> due) (messages h) @ (due, m) # dropWhile (\<lambda>x. fst x \<le> due) (messages h)\<rparr>"

definition StartRtmpStream :: "nat \<Rightarrow> hoster \<Rightarrow> hoster" where
  "StartRtmpStream now h = (if av_rtmp_started h then h else post (now + 500) MSG_START_RTMP (h\<lparr>av_rtmp_started := True\<rparr>))"

definition StopRtmpStream :: "nat \<Rightarrow> hoster \<Rightarrow> hoster" where
  "StopRtmpStream now h = (if av_rtmp_started h then post now MSG_STOP_RTMP (h\<lparr>av_rtmp_started := False\<rparr>) else h)"

definition OnMessage :: "hoster_message \<Rightarrow> hoster \<Rightarrow> hoster" where
  "OnMessage m h = (case m of
     MSG_START_RTMP \<Rightarrow> (let s = StartStream (h_streamer h) in h\<lparr>h_streamer := if has_capturer h then s else SetVideoEnable False s\<rparr>)
   | MSG_STOP_RTMP \<Rightarrow> h\<lparr>h_streamer := StopStream (h_streamer h)\<rparr>)"

text \<open>The worker's thread handles the first message that is due.\<close>

definition handle_message :: "nat \<Rightarrow> hoster \<Rightarrow> hoster" where
  "handle_message now h = (case messages h of (due, m) # ms \<Rightarrow> if due \<le> now then OnMessage m (h\<lparr>messages := ms\<rparr>) else h | [] \<Rightarrow> h)"

section \<open>The encoders run while the stream is published\<close>

definition push_published :: "push option \<Rightarrow> bool" where
  "push_published po \<longleftrightarrow> (\<exists>p. po = Some p \<and> rtmp_status p = RS_STM_Published)"

definition streamer_ok :: "streamer \<Rightarrow> bool" where
  "streamer_ok s \<longleftrightarrow> (v_encoded (v_enc_obj s) \<longleftrightarrow> push_published (av_rtmp s)) \<and> (a_encoded (a_enc_obj s) \<longleftrightarrow> push_published (av_rtmp s)) \<and>
     \<not> rtmp_connected s \<and> OnStreamClosed \<notin> set (stream_callbacks s)"

text \<open>The callbacks of an iteration and the state it leaves.\<close>

definition iterate_shape :: "push \<Rightarrow> push \<Rightarrow> push_callback list \<Rightarrow> bool" where
  "iterate_shape p p' cbs \<longleftrightarrow> callbacks p' = callbacks p @ cbs \<and>
     (cbs = [] \<and> (rtmp_status p' = RS_STM_Published \<longleftrightarrow> rtmp_status p = RS_STM_Published) \<or>
      (\<exists>d b. cbs = [OnRtmpStatusEvent d b] \<and> (rtmp_status p' = RS_STM_Published \<longleftrightarrow> rtmp_status p = RS_STM_Published)) \<or>
      cbs = [OnRtmpConnected] \<and> rtmp_status p' = RS_STM_Published \<or>
      (\<exists>k. cbs = [OnRtmpReconnecting k] \<and> rtmp_status p' \<noteq> RS_STM_Published) \<or>
      cbs = [OnRtmpDisconnect] \<and> rtmp_status p' \<noteq> RS_STM_Published)"

lemma disconnect_shape:
  "rtmp_status p \<noteq> RS_STM_Closed \<Longrightarrow> callbacks p = callbacks q \<Longrightarrow> \<exists>cbs. iterate_shape q (CallDisconnect srs p) cbs"
  by (auto simp: CallDisconnect_def Let_def call_def iterate_shape_def)

lemma status_shape:
  "callbacks p = callbacks q \<Longrightarrow> rtmp_status p = rtmp_status q \<Longrightarrow> \<exists>cbs. iterate_shape q (send_status now now' p) cbs"
  by (auto simp: send_status_def Let_def iterate_shape_def)

lemma write_keeps:
  "write_data srs d p = (r, p') \<Longrightarrow> callbacks p' = callbacks p \<and> rtmp_status p' = rtmp_status p"
  by (cases "en_type d") (auto simp: write_data_def call_def)

lemma send_shape:
  assumes "rtmp_status p = RS_STM_Published"
  shows "\<exists>cbs. iterate_shape p (DoSendData srs now now' p) cbs"
proof (cases "lst_enc_data p")
  case Nil
  then show ?thesis
    by (simp add: DoSendData_def status_shape)
next
  case (Cons d ds)
  obtain r p' where w: "write_data srs d (p\<lparr>lst_enc_data := ds\<rparr>) = (r, p')"
    by fastforce
  from write_keeps [OF w] assms have k: "callbacks p' = callbacks p" "rtmp_status p' = RS_STM_Published"
    by simp_all
  consider "en_type d = META_DATA" | "en_type d \<noteq> META_DATA" "r = 0 \<or> en_type d = VIDEO_DATA \<and> srs_h264_ignored r"
    | "en_type d \<noteq> META_DATA" "\<not> (r = 0 \<or> en_type d = VIDEO_DATA \<and> srs_h264_ignored r)"
    by blast
  then show ?thesis
  proof cases
    case 1
    with Cons w k assms show ?thesis
      by (auto simp: DoSendData_def iterate_shape_def)
  next
    case 2
    with Cons w have "DoSendData srs now now' p = send_status now now' (p'\<lparr>net_band := net_band p' + word_of_nat (length (en_data d))\<rparr>)"
      by (simp add: DoSendData_def)
    with k assms show ?thesis
      by (simp add: status_shape)
  next
    case 3
    with Cons w have "DoSendData srs now now' p = CallDisconnect srs (p'\<lparr>leaked := leaked p' @ [d]\<rparr>)"
      by (auto simp: DoSendData_def)
    with k show ?thesis
      by (simp add: disconnect_shape)
  qed
qed

lemma quiet_shape:
  "callbacks p' = callbacks p \<Longrightarrow> rtmp_status p' = RS_STM_Published \<longleftrightarrow> rtmp_status p = RS_STM_Published \<Longrightarrow>
   \<exists>cbs. iterate_shape p p' cbs"
  by (auto simp: iterate_shape_def)

lemma iteration_shape: "\<exists>cbs. iterate_shape p (push_iterate srs now now' p) cbs"
proof (cases "push_running p \<and> rtmp p")
  case True
  show ?thesis
  proof (cases "rtmp_status p")
    case RS_STM_Published
    with True send_shape show ?thesis
      by (simp add: push_iterate_def)
  next
    case RS_STM_Connected
    then have "iterate_shape p (CallConnect (p\<lparr>calls := calls p @ [Srs_Publish], rtmp_status := RS_STM_Published\<rparr>)) [OnRtmpConnected]"
      by (simp add: CallConnect_def iterate_shape_def)
    with True RS_STM_Connected show ?thesis
      by (auto simp: push_iterate_def call_def disconnect_shape)
  qed (use True in \<open>auto simp: push_iterate_def call_def intro: disconnect_shape quiet_shape\<close>)
qed (auto simp: push_iterate_def intro: quiet_shape)

lemma encoder_fields [simp]:
  "v_encoded (SetRates r e) = v_encoded e" "v_encoded (SetAutoAdjustBit b e) = v_encoded e" "v_encoded (SetNetDelay d e) = v_encoded e"
  "v_encoded (v_StartEncoder e)" "\<not> v_encoded (v_StopEncoder e)" "a_encoded (Muted m a) = a_encoded a"
  "a_encoded (a_StartEncoder a)" "\<not> a_encoded (a_StopEncoder a)"
  by (simp_all add: SetRates_def SetAutoAdjustBit_def SetNetDelay_def to_level_def v_StartEncoder_def v_StopEncoder_def Muted_def
      a_StartEncoder_def a_StopEncoder_def Let_def)

lemma SetH264Data_fields: "SetH264Data data ts p = Some p' \<Longrightarrow> rtmp_status p' = rtmp_status p"
proof -
  have "rtmp_status (fold (\<lambda>nal. GotH264Nal nal ts) nals q) = rtmp_status q" for nals q
    by (induction nals arbitrary: q) (simp_all add: GotH264Nal_def enqueue_def)
  then show "SetH264Data data ts p = Some p' \<Longrightarrow> rtmp_status p' = rtmp_status p"
    by (auto simp: SetH264Data_def split: bind_splits)
qed

lemma round_ok:
  assumes "streamer_ok s"
  shows "streamer_ok (push_round srs now now' s)"
proof (cases "av_rtmp s")
  case None
  with assms show ?thesis
    by (simp add: push_round_def)
next
  case (Some p)
  let ?p' = "push_iterate srs now now' p"
  obtain cbs where sh: "iterate_shape p ?p' cbs"
    using iteration_shape by blast
  then have round: "push_round srs now now' s = fold on_push cbs (s\<lparr>av_rtmp := Some ?p'\<rparr>)"
    using Some by (simp add: push_round_def iterate_shape_def)
  from sh assms Some show ?thesis
    unfolding round iterate_shape_def
    by (elim conjE disjE exE)
      (simp_all add: on_push_def tell_def st_StartEncoder_def st_StopEncoder_def streamer_ok_def push_published_def Let_def)
qed

lemma streamer_step_ok:
  assumes "streamer_ok s" and "streamer_step srs s e = Some s'"
  shows "streamer_ok s'"
proof (cases e)
  case (S_Round now now')
  with assms round_ok show ?thesis
    by (auto simp: streamer_step_def)
next
  case (S_Data audio data ts)
  with assms show ?thesis
    by (auto simp: streamer_step_def OnEncodeDataCallback_def SetAacData_def enqueue_def streamer_ok_def push_published_def
        dest: SetH264Data_fields split: option.splits bind_splits if_splits)
next
  case S_Start
  with assms show ?thesis
    by (auto simp: streamer_step_def StartStream_def SetAudioParameter_def SetVideoParameter_def streamer_ok_def push_published_def new_push_def split: option.splits)
next
  case S_Stop
  with assms show ?thesis
    by (auto simp: streamer_step_def StopStream_def st_StopEncoder_def streamer_ok_def push_published_def)
qed (use assms in \<open>auto simp: streamer_step_def streamer_ok_def push_published_def SetAudioEnable_def SetVideoEnable_def EnableOnlyAudioMode_def
    st_SetBitrate_def st_SetVideoParameter_def st_SetAutoAdjustBit_def split: if_splits\<close>)

lemma new_streamer_ok: "streamer_ok (new_streamer enc)"
  by (simp add: streamer_ok_def new_streamer_def push_published_def SetParameter_def new_h264_encoder_def)

text \<open>C12. For any server and any use of the streamer: both encoders run exactly while the stream is published; and the application is never
  told that a stream was closed. The loss of a published stream is reported as a failure to start one, because nothing ever records that
  there was a connection.\<close>

theorem encoders_run_while_published:
  assumes "run_partial (streamer_step srs) (new_streamer enc) es = Some s"
  shows "(v_encoded (v_enc_obj s) \<longleftrightarrow> push_published (av_rtmp s)) \<and> (a_encoded (a_enc_obj s) \<longleftrightarrow> push_published (av_rtmp s)) \<and>
    OnStreamClosed \<notin> set (stream_callbacks s)"
proof -
  have "streamer_ok s" if "run_partial (streamer_step srs) t es = Some s" "streamer_ok t" for t
    using that by (induction es arbitrary: t) (auto split: bind_splits dest: streamer_step_ok)
  with assms new_streamer_ok show ?thesis
    by (auto simp: streamer_ok_def)
qed

theorem encoders_run_while_published_witness:
  "\<exists>s. run_partial (streamer_step (\<lambda>_ _. 0)) (new_streamer \<lparr>nPcmSize = 2048, pPCM = [], blocks = []\<rparr>)
      [S_Start, S_Round 0 0, S_Round 10 10, S_Round 20 20] = Some s \<and>
    stream_callbacks s = [OnStreamOk] \<and> (v_encoded (v_enc_obj s) \<longleftrightarrow> push_published (av_rtmp s))"
proof -
  let ?run = "run_partial (streamer_step (\<lambda>_ _. 0)) (new_streamer \<lparr>nPcmSize = 2048, pPCM = [], blocks = []\<rparr>)
      [S_Start, S_Round 0 0, S_Round 10 10, S_Round 20 20]"
  obtain s where s: "?run = Some s" "stream_callbacks s = [OnStreamOk]"
    by (simp add: streamer_step_def StartStream_def SetAudioParameter_def SetVideoParameter_def new_push_def push_round_def push_iterate_def call_def
        CallConnect_def on_push_def tell_def st_StartEncoder_def new_streamer_def Let_def)
  with encoders_run_while_published [OF s(1)] show ?thesis
    by auto
qed

section \<open>Stopping too soon\<close>

text \<open>A host that is stopped less than half a second after it was started streams all the same: the message that stops is handled before
  the one that starts. From then on another stop does nothing.\<close>

theorem early_stop_streams_on:
  assumes "\<not> av_rtmp_started h" and "messages h = []" and "t \<le> t'" and "t' < t + 500" and "t + 500 \<le> now" and "now \<le> now'"
  defines "h' \<equiv> handle_message now' (handle_message now (StopRtmpStream t' (StartRtmpStream t h)))"
  shows "av_rtmp (h_streamer h') \<noteq> None \<and> \<not> av_rtmp_started h' \<and> messages h' = [] \<and> StopRtmpStream t'' h' = h'"
  using assms(1-6)
  by (simp add: h'_def StartRtmpStream_def StopRtmpStream_def post_def handle_message_def OnMessage_def StartStream_def SetVideoEnable_def Let_def)

theorem early_stop_streams_on_witness:
  "av_rtmp (h_streamer (handle_message 2000 (handle_message 1900 (StopRtmpStream 1300 (StartRtmpStream 1000
    (new_hoster \<lparr>nPcmSize = 2048, pPCM = [], blocks = []\<rparr>)))))) \<noteq> None"
  using early_stop_streams_on [of "new_hoster \<lparr>nPcmSize = 2048, pPCM = [], blocks = []\<rparr>" 1000 1300 1900 2000]
  by (simp add: new_hoster_def SetVideoMode_def mode_parameters_def)

end
