(* ===== verification/Srs_Stream.thy ===== *)
theory Srs_Stream
  imports Prelude
begin

text \<open>
  The byte and bit streams of librtmp (\<open>SrsStream\<close>, \<open>SrsBitStream\<close> in
  \<open>AnyCore/srs_librtmp/srs_librtmp.cpp\<close>) and the Exp-Golomb numbers of H.264. A byte stream is what is left of it; numbers are
  big-endian. A bit stream is the current byte, how many of its bits are left, and the bytes behind it.
\<close>

section \<open>Bytes\<close>

definition be :: "bytes \<Rightarrow> nat" where
  "be bs = foldl (\<lambda>n b. n * 256 + unat b) 0 bs"

definition be_bytes :: "nat \<Rightarrow> nat \<Rightarrow> bytes" where
  "be_bytes k n = map (\<lambda>i. word_of_nat (n div 256 ^ i)) (rev [0..<k])"

definition read_1bytes :: "bytes \<Rightarrow> (u8 \<times> bytes) option" where
  "read_1bytes s = need 1 s (Some (s ! 0, drop 1 s))"

definition read_2bytes :: "bytes \<Rightarrow> (nat \<times> bytes) option" where
  "read_2bytes s = need 2 s (Some (be (take 2 s), drop 2 s))"

definition read_3bytes :: "bytes \<Rightarrow> (nat \<times> bytes) option" where
  "read_3bytes s = need 3 s (Some (be (take 3 s), drop 3 s))"

definition read_4bytes :: "bytes \<Rightarrow> (nat \<times> bytes) option" where
  "read_4bytes s = need 4 s (Some (be (take 4 s), drop 4 s))"

definition read_bytes :: "nat \<Rightarrow> bytes \<Rightarrow> (bytes \<times> bytes) option" where
  "read_bytes n s = need n s (Some (take n s, drop n s))"

text \<open>The value of \<open>k\<close> bytes as a signed number.\<close>

definition signed_be :: "nat \<Rightarrow> nat \<Rightarrow> int" where
  "signed_be k n = (if n < 2 ^ (8 * k - 1) then int n else int n - 2 ^ (8 * k))"

lemmas read_defs = read_1bytes_def read_2bytes_def read_3bytes_def read_4bytes_def read_bytes_def

lemma be_Nil [simp]: "be [] = 0"
  by (simp add: be_def)

lemma be_snoc: "be (bs @ [b]) = be bs * 256 + unat b"
  by (simp add: be_def)

lemma length_be_bytes [simp]: "length (be_bytes k n) = k"
  by (simp add: be_bytes_def)

lemma be_bytes_Suc: "be_bytes (Suc k) n = be_bytes k (n div 256) @ [word_of_nat n]"
proof -
  have "[0..<Suc k] = 0 # map Suc [0..<k]"
    by (simp add: upt_conv_Cons map_Suc_upt del: upt_Suc)
  then have "rev [0..<Suc k] = map Suc (rev [0..<k]) @ [0]"
    by (simp add: rev_map del: upt_Suc)
  then show ?thesis
    by (simp add: be_bytes_def div_mult2_eq del: upt_Suc)
qed

lemma be_be_bytes: "be (be_bytes k n) = n mod 256 ^ k"
proof (induction k arbitrary: n)
  case 0
  then show ?case
    by (simp add: be_bytes_def)
next
  case (Suc k)
  then show ?case
    by (simp add: be_bytes_Suc be_snoc unat_of_nat mod_mult2_eq [of n 256 "256 ^ k"])
qed

lemma be_less: "be bs < 256 ^ length bs"
proof (induction bs rule: rev_induct)
  case (snoc b bs)
  have "unat b < 256"
    using unsigned_less [of b, where 'a = nat] by simp
  with snoc show ?case
    by (simp add: be_snoc)
qed simp

text \<open>Reading what was written.\<close>

lemma read_be_bytes [simp]:
  "read_2bytes (be_bytes 2 n @ s) = Some (n mod 65536, s)"
  "read_3bytes (be_bytes 3 n @ s) = Some (n mod 16777216, s)"
  "read_4bytes (be_bytes 4 n @ s) = Some (n mod 4294967296, s)"
  by (simp_all add: read_defs be_be_bytes)

lemma read_1bytes_Cons [simp]: "read_1bytes (b # s) = Some (b, s)"
  by (simp add: read_1bytes_def)

lemma read_bytes_append [simp]: "length u = n \<Longrightarrow> read_bytes n (u @ s) = Some (u, s)"
  by (simp add: read_bytes_def)

section \<open>Start codes and sync words\<close>

text \<open>Any number of zeros, then 00 00 01; the length of it all.\<close>

fun startswith_annexb :: "bytes \<Rightarrow> nat option" where
  "startswith_annexb (a # b # c # s) =
     (if a \<noteq> 0 \<or> b \<noteq> 0 then None else if c = 1 then Some 3 else map_option Suc (startswith_annexb (b # c # s)))"
| "startswith_annexb s = None"

definition startswith_adts :: "bytes \<Rightarrow> bool" where
  "startswith_adts s \<longleftrightarrow> 2 \<le> length s \<and> s ! 0 = 0xff \<and> s ! 1 AND 0xf0 = 0xf0"

lemma annexb_length: "startswith_annexb s = Some n \<Longrightarrow> 3 \<le> n \<and> n \<le> length s"
  by (induction s arbitrary: n rule: startswith_annexb.induct) (auto split: if_splits)

section \<open>Bits\<close>

type_synonym bit_stream = "u8 \<times> nat \<times> bytes"

definition bits_start :: "bytes \<Rightarrow> bit_stream" where
  "bits_start s = (0, 0, s)"

definition bits_empty :: "bit_stream \<Rightarrow> bool" where
  "bits_empty bs = (case bs of (cb, left, s) \<Rightarrow> left = 0 \<and> s = [])"

definition read_bit :: "bit_stream \<Rightarrow> (bool \<times> bit_stream) option" where
  "read_bit bs = (case bs of (cb, left, s) \<Rightarrow>
     if left = 0 then do { (cb, s) \<leftarrow> read_1bytes s; Some (bit cb 7, (cb, 7, s)) }
     else Some (bit cb (left - 1), (cb, left - 1, s)))"

text \<open>The bits that are left, in order.\<close>

definition byte_bits :: "nat \<Rightarrow> u8 \<Rightarrow> bool list" where
  "byte_bits n b = map (bit b) (rev [0..<n])"

definition bits_of :: "bit_stream \<Rightarrow> bool list" where
  "bits_of bs = (case bs of (cb, left, s) \<Rightarrow> byte_bits left cb @ concat (map (byte_bits 8) s))"

lemma byte_bits_Suc: "byte_bits (Suc n) b = bit b n # byte_bits n b"
  by (simp add: byte_bits_def)

lemma byte_bits_0 [simp]: "byte_bits 0 b = []"
  by (simp add: byte_bits_def)

lemma bits_of_start [simp]: "bits_of (bits_start s) = concat (map (byte_bits 8) s)"
  by (simp add: bits_of_def bits_start_def)

lemma byte_bits_8: "byte_bits 8 b = bit b 7 # byte_bits 7 b"
  using byte_bits_Suc [of 7 b] by simp

lemma bits_empty_iff: "bits_empty bs \<longleftrightarrow> bits_of bs = []"
proof (cases bs)
  case (fields cb left s)
  then show ?thesis
    by (cases left; cases s) (simp_all add: bits_empty_def bits_of_def byte_bits_Suc byte_bits_8)
qed

text \<open>Reading a bit takes the first one of them.\<close>

lemma read_bit_refines:
  "read_bit bs = None \<longleftrightarrow> bits_of bs = []"
  "read_bit bs = Some (b, bs') \<Longrightarrow> bits_of bs = b # bits_of bs'"
proof -
  obtain cb left s where bs: "bs = (cb, left, s)"
    by (cases bs)
  have "read_bit bs = None \<and> bits_of bs = [] \<or> (\<exists>b bs'. read_bit bs = Some (b, bs') \<and> bits_of bs = b # bits_of bs')"
  proof (cases left)
    case (Suc n)
    then show ?thesis
      by (simp add: bs read_bit_def bits_of_def byte_bits_Suc)
  next
    case 0
    then show ?thesis
      by (cases s) (simp_all add: bs read_bit_def bits_of_def byte_bits_8 read_1bytes_def need_short)
  qed
  then show "read_bit bs = None \<longleftrightarrow> bits_of bs = []" "read_bit bs = Some (b, bs') \<Longrightarrow> bits_of bs = b # bits_of bs'"
    by auto
qed

lemma read_bit_cases:
  "(\<exists>b bs'. bits_of bs = b # bits_of bs' \<and> read_bit bs = Some (b, bs')) \<or> bits_of bs = [] \<and> read_bit bs = None"
  using read_bit_refines [of bs] by (cases "read_bit bs") auto

section \<open>Exp-Golomb numbers\<close>

text \<open>The loop over the zeros, from \<open>n = -1\<close>, and the loop over the bits behind the one.\<close>

function leading_zeros :: "int \<Rightarrow> bit_stream \<Rightarrow> int \<times> bit_stream" where
  "leading_zeros n bs =
     (if bits_empty bs then (n, bs)
      else (case read_bit bs of None \<Rightarrow> (n, bs) | Some (b, bs') \<Rightarrow> if b then (n + 1, bs') else leading_zeros (n + 1) bs'))"
  by auto

termination
  by (relation "measure (\<lambda>(n, bs). length (bits_of bs))") (auto dest: read_bit_refines(2))

declare leading_zeros.simps [simp del]

fun read_bits :: "nat \<Rightarrow> nat \<Rightarrow> bit_stream \<Rightarrow> (nat \<times> bit_stream) option" where
  "read_bits 0 v bs = Some (v, bs)"
| "read_bits (Suc k) v bs = do { (b, bs) \<leftarrow> read_bit bs; read_bits k (v + of_bool b * 2 ^ k) bs }"

text \<open>An error code, or the number and what is left. Behind the zeros the loop does not look for the end of the stream.\<close>

definition ERROR_AVC_NALU_UEV :: int where
  "ERROR_AVC_NALU_UEV = 4027"

definition read_uev :: "bit_stream \<Rightarrow> (int + nat \<times> bit_stream) option" where
  "read_uev bs =
     (if bits_empty bs then Some (Inl ERROR_AVC_NALU_UEV)
      else (case leading_zeros (-1) bs of (zeros, bs) \<Rightarrow>
        if zeros \<ge> 31 then Some (Inl ERROR_AVC_NALU_UEV)
        else map_option Inr (read_bits (nat zeros) (2 ^ nat zeros - 1) bs)))"

definition nalu_read_bit :: "bit_stream \<Rightarrow> (int + bool \<times> bit_stream) option" where
  "nalu_read_bit bs = (if bits_empty bs then Some (Inl ERROR_AVC_NALU_UEV) else map_option Inr (read_bit bs))"

text \<open>
  The number \<open>2 ^ k - 1 + r\<close> is written as \<open>k\<close> zeros, a one and the \<open>k\<close> bits of \<open>r\<close>; reading finds it,
  wherever in a byte it begins, and nothing else is consumed.
\<close>

definition num_bits :: "nat \<Rightarrow> nat \<Rightarrow> bool list" where
  "num_bits k r = map (bit r) (rev [0..<k])"

definition uev_bits :: "nat \<Rightarrow> nat \<Rightarrow> bool list" where
  "uev_bits k r = replicate k False @ True # num_bits k r"

lemma leading_zeros_run:
  "bits_of bs = replicate k False @ True # rest \<Longrightarrow>
   \<exists>bs'. leading_zeros n bs = (n + 1 + int k, bs') \<and> bits_of bs' = rest"
proof (induction k arbitrary: n bs)
  case 0
  with read_bit_cases [of bs] show ?case
    by (auto simp: leading_zeros.simps [of n bs] bits_empty_iff)
next
  case (Suc k)
  with read_bit_cases [of bs] obtain bs' where
    r: "read_bit bs = Some (False, bs')" "bits_of bs' = replicate k False @ True # rest" "bits_of bs \<noteq> []"
    by auto
  from Suc.IH [OF r(2), of "n + 1"] r show ?case
    by (simp add: leading_zeros.simps [of n bs] bits_empty_iff add.assoc)
qed

lemma read_bits_run:
  "bits_of bs = num_bits k r @ rest \<Longrightarrow> \<exists>bs'. read_bits k v bs = Some (v + take_bit k r, bs') \<and> bits_of bs' = rest"
proof (induction k arbitrary: v bs)
  case 0
  then show ?case
    by (simp add: num_bits_def)
next
  case (Suc k)
  with read_bit_cases [of bs] obtain bs' where
    b: "read_bit bs = Some (bit r k, bs')" "bits_of bs' = num_bits k r @ rest"
    by (auto simp: num_bits_def)
  have "take_bit (Suc k) r = of_bool (bit r k) * 2 ^ k + take_bit k r"
    by (simp add: take_bit_Suc_from_most)
  with Suc.IH [OF b(2), of "v + of_bool (bit r k) * 2 ^ k"] b(1) show ?case
    by (simp add: algebra_simps)
qed

lemma read_uev_run:
  assumes "bits_of bs = uev_bits k r @ rest" and "k < 31" and "r < 2 ^ k"
  shows "\<exists>bs'. read_uev bs = Some (Inr (2 ^ k - 1 + r, bs')) \<and> bits_of bs' = rest"
proof -
  have "bits_of bs = replicate k False @ True # (num_bits k r @ rest)"
    using assms(1) by (simp add: uev_bits_def)
  from leading_zeros_run [OF this, of "-1"] obtain bs1 where
    z: "leading_zeros (-1) bs = (int k, bs1)" "bits_of bs1 = num_bits k r @ rest"
    by auto
  have "take_bit k r = r"
    using assms(3) by (simp add: take_bit_nat_eq_self_iff)
  with read_bits_run [OF z(2), of "2 ^ k - 1"] obtain bs2 where
    "read_bits k (2 ^ k - 1) bs1 = Some (2 ^ k - 1 + r, bs2)" "bits_of bs2 = rest"
    by metis
  moreover have "\<not> bits_empty bs"
    using assms(1) by (simp add: bits_empty_iff uev_bits_def)
  ultimately show ?thesis
    using z(1) assms(2) by (simp add: read_uev_def)
qed

text \<open>Zeros up to the end of the stream: the bits behind a one that is not there are read past the end.\<close>

lemma leading_zeros_end: "bits_of bs = replicate k False \<Longrightarrow> \<exists>bs'. leading_zeros n bs = (n + int k, bs') \<and> bits_of bs' = []"
proof (induction k arbitrary: n bs)
  case 0
  then show ?case
    by (auto simp: leading_zeros.simps [of n bs] bits_empty_iff)
next
  case (Suc k)
  with read_bit_cases [of bs] obtain bs' where
    r: "read_bit bs = Some (False, bs')" "bits_of bs' = replicate k False" "bits_of bs \<noteq> []"
    by auto
  from Suc.IH [OF r(2), of "n + 1"] r show ?case
    by (simp add: leading_zeros.simps [of n bs] bits_empty_iff add.assoc)
qed

lemma read_uev_past_end:
  assumes "bits_of bs = replicate (Suc (Suc k)) False" and "k < 30"
  shows "read_uev bs = None"
proof -
  from leading_zeros_end [OF assms(1), of "-1"] obtain bs' where
    "leading_zeros (-1) bs = (1 + int k, bs')" "bits_of bs' = []"
    by auto
  moreover from this have "read_bit bs' = None"
    using read_bit_refines(1) [of bs'] by simp
  ultimately show ?thesis
    using assms by (simp add: read_uev_def bits_empty_iff nat_add_distrib)
qed

end
