(* ===== verification/Srs_Codec.thy ===== *)
theory Srs_Codec
  imports Srs_Stream
begin

text \<open>
  The demultiplexer of the player (\<open>SrsAvcAacCodec\<close>, \<open>SrsCodecSample\<close> in
  \<open>AnyCore/srs_librtmp/srs_librtmp.cpp\<close>): from the payload of an RTMP message to the units of a sample, and the parameters of the
  stream that its sequence headers set. An error is its code; what was stored before it stays stored.
\<close>

section \<open>State\<close>

text \<open>A message of the stream, as it is sent and as it is read.\<close>

record packet =
  pk_type :: u8
  pk_timestamp :: u32
  pk_data :: bytes

definition ERROR_HLS_DECODE_ERROR :: int where
  "ERROR_HLS_DECODE_ERROR = 3001"

definition ERROR_KERNEL_STREAM_INIT :: int where
  "ERROR_KERNEL_STREAM_INIT = 3038"

definition ERROR_HLS_AVC_TRY_OTHERS :: int where
  "ERROR_HLS_AVC_TRY_OTHERS = 3040"

definition ERROR_HLS_TRY_MP3 :: int where
  "ERROR_HLS_TRY_MP3 = 3049"

lemmas srs_errors = ERROR_HLS_DECODE_ERROR_def ERROR_KERNEL_STREAM_INIT_def ERROR_HLS_AVC_TRY_OTHERS_def ERROR_HLS_TRY_MP3_def
  ERROR_AVC_NALU_UEV_def

datatype payload_format = SrsAvcPayloadFormatGuess | SrsAvcPayloadFormatAnnexb | SrsAvcPayloadFormatIbmf

text \<open>
  A parameter set is its announced length and the bytes last stored for it, which are not always that many. The extra data is empty while
  no sequence header came.
\<close>

record codec =
  video_codec_id :: int
  audio_codec_id :: int
  avc_profile :: int
  avc_level :: int
  NAL_unit_length :: nat
  sequenceParameterSet :: "nat \<times> bytes"
  pictureParameterSet :: "nat \<times> bytes"
  payload_format :: payload_format
  avc_extra :: bytes
  aac_extra :: bytes
  aac_object :: int
  aac_sample_rate :: u8
  aac_channels :: u8
  avc_size :: "int \<times> int"

definition new_codec :: codec where
  "new_codec = \<lparr>video_codec_id = 0, audio_codec_id = 0, avc_profile = 0, avc_level = 0, NAL_unit_length = 0,
     sequenceParameterSet = (0, []), pictureParameterSet = (0, []), payload_format = SrsAvcPayloadFormatGuess, avc_extra = [], aac_extra = [],
     aac_object = 0, aac_sample_rate = 15, aac_channels = 0, avc_size = (0, 0)\<rparr>"

record codec_sample =
  sample_units :: "bytes list"
  is_video :: bool
  cts :: nat
  frame_type :: int
  avc_packet_type :: int
  has_idr :: bool
  first_nalu_type :: u8
  acodec :: int
  sound_fields :: "int \<times> int \<times> int"
  aac_packet_type :: int

definition new_sample :: codec_sample where
  "new_sample = \<lparr>sample_units = [], is_video = False, cts = 0, frame_type = 0, avc_packet_type = 3, has_idr = False, first_nalu_type = 0,
     acodec = 16, sound_fields = (4, 2, 2), aac_packet_type = 2\<rparr>"

text \<open>A unit of \<open>n\<close> bytes at the beginning of \<open>s\<close>. The first byte of a picture is read even if \<open>n\<close> is 0.\<close>

definition add_sample_unit :: "bytes \<Rightarrow> nat \<Rightarrow> codec_sample \<Rightarrow> (int \<times> codec_sample) option" where
  "add_sample_unit s n sample =
     (if length (sample_units sample) \<ge> 128 then Some (ERROR_HLS_DECODE_ERROR, sample)
      else let sample = sample\<lparr>sample_units := sample_units sample @ [take n s]\<rparr> in
        if is_video sample
        then need 1 s (let t = s ! 0 AND 0x1f in Some (0, sample\<lparr>has_idr := has_idr sample \<or> t = 5,
          first_nalu_type := (if first_nalu_type sample = 0 then t else first_nalu_type sample)\<rparr>))
        else Some (0, sample))"

section \<open>Sequence parameter sets\<close>

definition try_parse :: "(int + 'a) option \<Rightarrow> ('a \<Rightarrow> (int + 'b) option) \<Rightarrow> (int + 'b) option" where
  "try_parse m f = (case m of None \<Rightarrow> None | Some (Inl e) \<Rightarrow> Some (Inl e) | Some (Inr x) \<Rightarrow> f x)"

fun skip_uevs :: "nat \<Rightarrow> bit_stream \<Rightarrow> (int + bit_stream) option" where
  "skip_uevs 0 bs = Some (Inr bs)"
| "skip_uevs (Suc n) bs = try_parse (read_uev bs) (\<lambda>(v, bs). skip_uevs n bs)"

fun skip_bits :: "nat \<Rightarrow> bit_stream \<Rightarrow> (int + bit_stream) option" where
  "skip_bits 0 bs = Some (Inr bs)"
| "skip_bits (Suc n) bs = try_parse (nalu_read_bit bs) (\<lambda>(b, bs). skip_bits n bs)"

definition high_profile :: "u8 \<Rightarrow> bool" where
  "high_profile p \<longleftrightarrow> p \<in> {100, 110, 122, 244, 44, 83, 86, 118, 128}"

definition sps_chroma :: "bit_stream \<Rightarrow> (int + bit_stream) option" where
  "sps_chroma bs =
     try_parse (read_uev bs) (\<lambda>(chroma, bs).
     try_parse (skip_bits (if chroma = 3 then 1 else 0) bs) (\<lambda>bs.
     try_parse (skip_uevs 2 bs) (\<lambda>bs.
     try_parse (skip_bits 1 bs) (\<lambda>bs.
     try_parse (nalu_read_bit bs) (\<lambda>(scaling, bs).
     skip_bits (if scaling then if chroma \<noteq> 3 then 8 else 12 else 0) bs)))))"

definition sps_order :: "bit_stream \<Rightarrow> (int + bit_stream) option" where
  "sps_order bs =
     try_parse (read_uev bs) (\<lambda>(t, bs).
     if t = 0 then skip_uevs 1 bs
     else if t = 1 then
       try_parse (skip_bits 1 bs) (\<lambda>bs.
       try_parse (skip_uevs 2 bs) (\<lambda>bs.
       try_parse (read_uev bs) (\<lambda>(n, bs). skip_uevs n bs)))
     else Some (Inr bs))"

definition sps_size :: "bool \<Rightarrow> bit_stream \<Rightarrow> (int + nat \<times> nat) option" where
  "sps_size high bs =
     try_parse (skip_uevs 1 bs) (\<lambda>bs.
     try_parse (if high then sps_chroma bs else Some (Inr bs)) (\<lambda>bs.
     try_parse (skip_uevs 1 bs) (\<lambda>bs.
     try_parse (sps_order bs) (\<lambda>bs.
     try_parse (skip_uevs 1 bs) (\<lambda>bs.
     try_parse (skip_bits 1 bs) (\<lambda>bs.
     try_parse (read_uev bs) (\<lambda>(w, bs).
     try_parse (read_uev bs) (\<lambda>(h, bs). Some (Inr (w, h))))))))))"

definition macroblocks :: "nat \<Rightarrow> int" where
  "macroblocks n = sint (word_of_nat ((n + 1) * 16) :: u32)"

definition avc_demux_sps_rbsp :: "bytes \<Rightarrow> codec \<Rightarrow> (int \<times> codec) option" where
  "avc_demux_sps_rbsp rbsp cd =
     (if rbsp = [] then Some (ERROR_KERNEL_STREAM_INIT, cd)
      else if length rbsp < 3 \<or> rbsp ! 0 = 0 \<or> rbsp ! 1 AND 3 \<noteq> 0 \<or> rbsp ! 2 = 0 then Some (ERROR_HLS_DECODE_ERROR, cd)
      else (case sps_size (high_profile (rbsp ! 0)) (bits_start (drop 3 rbsp)) of
          None \<Rightarrow> None
        | Some (Inl e) \<Rightarrow> Some (e, cd)
        | Some (Inr (w, h)) \<Rightarrow> Some (0, cd\<lparr>avc_size := (macroblocks w, macroblocks h)\<rparr>)))"

text \<open>The bytes without the 03 behind two zeros, from the fourth byte on; the byte behind it is taken as it is.\<close>

fun unescape :: "bytes \<Rightarrow> bytes \<Rightarrow> bytes" where
  "unescape r [] = r"
| "unescape r (b # s) =
     (if length r > 2 \<and> r ! (length r - 2) = 0 \<and> r ! (length r - 1) = 0 \<and> b = 3
      then (case s of [] \<Rightarrow> r | c # s \<Rightarrow> unescape (r @ [c]) s)
      else unescape (r @ [b]) s)"

definition avc_demux_sps :: "codec \<Rightarrow> (int \<times> codec) option" where
  "avc_demux_sps cd = (case sequenceParameterSet cd of (len, u) \<Rightarrow>
     if len = 0 then Some (0, cd)
     else do { (nutv, s) \<leftarrow> read_1bytes (take len u);
       if bit nutv 7 \<or> drop_bit 5 nutv AND 3 = 0 \<or> nutv AND 0x1f \<noteq> 7 then Some (ERROR_HLS_DECODE_ERROR, cd)
       else avc_demux_sps_rbsp (unescape [] s) cd })"

section \<open>Sequence headers of pictures\<close>

definition read_set :: "bytes \<Rightarrow> nat \<times> bytes \<Rightarrow> (int \<times> (nat \<times> bytes) \<times> bytes) option" where
  "read_set s old =
     (if s = [] then Some (ERROR_HLS_DECODE_ERROR, old, s)
      else do {
        (k, s) \<leftarrow> read_1bytes s;
        if k AND 0x1f \<noteq> 1 \<or> length s < 2 then Some (ERROR_HLS_DECODE_ERROR, old, s)
        else do {
          (len, s) \<leftarrow> read_2bytes s;
          if length s < len then Some (ERROR_HLS_DECODE_ERROR, (len, snd old), s)
          else do { (u, s) \<leftarrow> read_bytes len s; Some (0, (len, if len > 0 then u else snd old), s) } } })"

definition avc_demux_sps_pps :: "bytes \<Rightarrow> codec \<Rightarrow> (int \<times> codec) option" where
  "avc_demux_sps_pps s cd =
     (let cd = cd\<lparr>avc_extra := s\<rparr> in
      if length s < 6 then Some (ERROR_HLS_DECODE_ERROR, cd)
      else let n = unat (s ! 4 AND 3); cd = cd\<lparr>avc_profile := sint (s ! 1), avc_level := sint (s ! 3), NAL_unit_length := n\<rparr> in
        if n = 2 then Some (ERROR_HLS_DECODE_ERROR, cd)
        else do {
          (ret, set, s) \<leftarrow> read_set (drop 5 s) (sequenceParameterSet cd);
          let cd = cd\<lparr>sequenceParameterSet := set\<rparr>;
          if ret \<noteq> 0 then Some (ret, cd)
          else do {
            (ret, set, s) \<leftarrow> read_set s (pictureParameterSet cd);
            let cd = cd\<lparr>pictureParameterSet := set\<rparr>;
            if ret \<noteq> 0 then Some (ret, cd) else avc_demux_sps cd } })"

section \<open>Units of pictures\<close>

fun to_next_code :: "bytes \<Rightarrow> nat" where
  "to_next_code [] = 0"
| "to_next_code (b # s) = (if startswith_annexb (b # s) \<noteq> None then 0 else Suc (to_next_code s))"

function annexb_units :: "bytes \<Rightarrow> codec_sample \<Rightarrow> (int \<times> codec_sample) option" where
  "annexb_units s sample =
     (if s = [] then Some (0, sample)
      else (case startswith_annexb s of None \<Rightarrow> Some (0, sample)
        | Some n \<Rightarrow> let s = drop n s; k = to_next_code s in
            if k = 0 then annexb_units s sample
            else (case add_sample_unit s k sample of None \<Rightarrow> None
              | Some (ret, sample) \<Rightarrow> if ret \<noteq> 0 then Some (ret, sample) else annexb_units (drop k s) sample)))"
  by auto

termination
  by (relation "measure (\<lambda>(s, _). length s)") (auto dest!: annexb_length)

declare annexb_units.simps [simp del]

definition avc_demux_annexb_format :: "bytes \<Rightarrow> codec_sample \<Rightarrow> (int \<times> codec_sample) option" where
  "avc_demux_annexb_format s sample =
     (if startswith_annexb s = None then Some (ERROR_HLS_AVC_TRY_OTHERS, sample) else annexb_units s sample)"

text \<open>The length before a unit, in \<open>n + 1\<close> bytes, read as a signed number.\<close>

definition nalu_length :: "nat \<Rightarrow> bytes \<Rightarrow> (int \<times> bytes) option" where
  "nalu_length n s =
     (if n = 3 then map_option (apfst (signed_be 4)) (read_4bytes s)
      else if n = 1 then map_option (apfst (signed_be 2)) (read_2bytes s)
      else map_option (apfst sint) (read_1bytes s))"

function ibmf_units :: "nat \<Rightarrow> nat \<Rightarrow> nat \<Rightarrow> bytes \<Rightarrow> codec_sample \<Rightarrow> (int \<times> codec_sample) option" where
  "ibmf_units n i picture_len s sample =
     (if i < picture_len
      then if length s < n + 1 then Some (ERROR_HLS_DECODE_ERROR, sample)
        else (case nalu_length n s of None \<Rightarrow> None
          | Some (len, s) \<Rightarrow>
              if len < 0 \<or> length s < nat len then Some (ERROR_HLS_DECODE_ERROR, sample)
              else (case add_sample_unit s (nat len) sample of None \<Rightarrow> None
                | Some (ret, sample) \<Rightarrow> if ret \<noteq> 0 then Some (ret, sample)
                    else ibmf_units n (i + (n + 1 + nat len)) picture_len (drop (nat len) s) sample))
      else Some (0, sample))"
  by auto

termination
  by (relation "measure (\<lambda>(n, i, picture_len, _). picture_len - i)") auto

declare ibmf_units.simps [simp del]

text \<open>
  The assertion that the length of the lengths is not 2 is compiled out like all others; lengths of one byte are then counted as three.
\<close>

definition avc_demux_ibmf_format :: "nat \<Rightarrow> bytes \<Rightarrow> codec_sample \<Rightarrow> (int \<times> codec_sample) option" where
  "avc_demux_ibmf_format n s sample = ibmf_units n 0 (length s) s sample"

text \<open>Length prefixes once they were met, start codes before and whenever they fit.\<close>

definition avc_demux_nalus :: "bytes \<Rightarrow> codec \<Rightarrow> codec_sample \<Rightarrow> (int \<times> codec \<times> codec_sample) option" where
  "avc_demux_nalus s cd sample =
     (if payload_format cd = SrsAvcPayloadFormatIbmf
      then do { (ret, sample) \<leftarrow> avc_demux_ibmf_format (NAL_unit_length cd) s sample; Some (ret, cd, sample) }
      else do {
        (ret, sample) \<leftarrow> avc_demux_annexb_format s sample;
        if ret = 0
        then Some (0, if payload_format cd = SrsAvcPayloadFormatGuess then cd\<lparr>payload_format := SrsAvcPayloadFormatAnnexb\<rparr> else cd, sample)
        else if ret \<noteq> ERROR_HLS_AVC_TRY_OTHERS then Some (ret, cd, sample)
        else do {
          (ret, sample) \<leftarrow> avc_demux_ibmf_format (NAL_unit_length cd) s sample;
          Some (ret, if ret = 0 then cd\<lparr>payload_format := SrsAvcPayloadFormatIbmf\<rparr> else cd, sample) } })"

definition video_avc_demux :: "bytes \<Rightarrow> codec \<Rightarrow> (int \<times> codec \<times> codec_sample) option" where
  "video_avc_demux data cd =
     (let sample = new_sample\<lparr>is_video := True\<rparr> in
      if data = [] then Some (0, cd, sample)
      else do {
        (b, s) \<leftarrow> read_1bytes data;
        let sample = sample\<lparr>frame_type := uint (drop_bit 4 b)\<rparr>;
        if frame_type sample = 5 then Some (0, cd, sample)
        else if b AND 0xf \<noteq> 7 then Some (ERROR_HLS_DECODE_ERROR, cd, sample)
        else let cd = cd\<lparr>video_codec_id := 7\<rparr> in
          if length s < 4 then Some (ERROR_HLS_DECODE_ERROR, cd, sample)
          else do {
            (t, s) \<leftarrow> read_1bytes s;
            (c, s) \<leftarrow> read_3bytes s;
            let sample = sample\<lparr>cts := c, avc_packet_type := sint t\<rparr>;
            if t = 0 then do { (ret, cd) \<leftarrow> avc_demux_sps_pps s cd; Some (ret, cd, sample) }
            else if t = 1 \<and> avc_extra cd \<noteq> [] then avc_demux_nalus s cd sample
            else Some (0, cd, sample) } })"

section \<open>Sound\<close>

definition srs_codec_aac_rtmp2ts :: "int \<Rightarrow> u32" where
  "srs_codec_aac_rtmp2ts obj = (if obj = 1 then 0 else if obj = 5 \<or> obj = 29 \<or> obj = 2 then 1 else if obj = 3 then 2 else 3)"

definition srs_codec_aac_ts2rtmp :: "u8 \<Rightarrow> int" where
  "srs_codec_aac_ts2rtmp profile = (if profile = 0 then 1 else if profile = 1 then 2 else if profile = 2 then 3 else 0)"

definition audio_aac_sequence_header_demux :: "bytes \<Rightarrow> codec \<Rightarrow> int \<times> codec" where
  "audio_aac_sequence_header_demux s cd =
     (if length s < 2 then (ERROR_HLS_DECODE_ERROR, cd)
      else let cd = cd\<lparr>aac_channels := drop_bit 3 (s ! 1) AND 0x0f,
             aac_sample_rate := (push_bit 1 (s ! 0) AND 0x0e) OR (drop_bit 7 (s ! 1) AND 0x01),
             aac_object := uint (drop_bit 3 (s ! 0) AND 0x1f)\<rparr>
        in (if aac_object cd = 0 then ERROR_HLS_DECODE_ERROR else 0, cd))"

text \<open>The sound rate of a sample is the one of the sequence header where it has a code.\<close>

definition sound_rate_of :: "u8 \<Rightarrow> int \<Rightarrow> int" where
  "sound_rate_of rate old = (if rate = 10 then 1 else if rate = 7 then 2 else if rate = 4 then 3 else old)"

definition audio_aac_demux :: "bytes \<Rightarrow> codec \<Rightarrow> (int \<times> codec \<times> codec_sample) option" where
  "audio_aac_demux data cd =
     (if data = [] then Some (0, cd, new_sample)
      else do {
        (b, s) \<leftarrow> read_1bytes data;
        let cd = cd\<lparr>audio_codec_id := uint (drop_bit 4 b)\<rparr>;
        let sample = new_sample\<lparr>acodec := audio_codec_id cd,
          sound_fields := (uint (drop_bit 2 b AND 3), uint (drop_bit 1 b AND 1), uint (b AND 1))\<rparr>;
        if audio_codec_id cd = 2 then Some (ERROR_HLS_TRY_MP3, cd, sample)
        else if audio_codec_id cd \<noteq> 10 \<or> s = [] then Some (ERROR_HLS_DECODE_ERROR, cd, sample)
        else do {
          (t, s) \<leftarrow> read_1bytes s;
          let sample = sample\<lparr>aac_packet_type := sint t\<rparr>;
          let rated = (\<lambda>cd sample. sample\<lparr>sound_fields := apfst (sound_rate_of (aac_sample_rate cd)) (sound_fields sample)\<rparr>);
          if t = 0
          then (let cd = cd\<lparr>aac_extra := s\<rparr>; (ret, cd) = (if s = [] then (0, cd) else audio_aac_sequence_header_demux s cd)
            in Some (ret, cd, if ret = 0 then rated cd sample else sample))
          else if t = 1
          then if aac_extra cd = [] then Some (0, cd, sample)
            else do { (ret, sample) \<leftarrow> add_sample_unit s (length s) sample; Some (ret, cd, if ret = 0 then rated cd sample else sample) }
          else Some (0, cd, rated cd sample) } })"

definition audio_mp3_demux :: "bytes \<Rightarrow> codec_sample \<Rightarrow> (int \<times> codec_sample) option" where
  "audio_mp3_demux data sample =
     (if length data \<le> 1 then Some (0, sample) else add_sample_unit (drop 1 data) (length data - 1) sample)"

end
