(* ===== verification/Rtmp_Pull.thy ===== *)
theory Rtmp_Pull
  imports Rtmp_Nal Srs_Codec
begin

text \<open>
  Playing a stream (\<open>AnyCore/anyrtmpull.cc\<close>): the thread that makes the connection and reads packets, and the way from the samples
  of a packet to the frames of the player. Packets are taken apart by \<open>Srs_Codec\<close>; which packets come is an argument. A unit of a
  sample is its bytes, empty where the code finds no bytes or a size that is not positive.
\<close>

section \<open>State\<close>

datatype pull_status = RS_PLY_Init | RS_PLY_Handshaked | RS_PLY_Connected | RS_PLY_Played | RS_PLY_Closed

datatype pull_callback = OnRtmpullConnected | OnRtmpullFailed | OnRtmpullDisconnect | OnRtmpullH264Data bytes u32
  | OnRtmpullAACData bytes u32

record pull =
  pull_running :: bool
  connected :: bool
  retry_ct :: int
  pull_status :: pull_status
  pull_rtmp :: bool
  srs_codec :: codec
  audio_payload :: bytes
  video_payload :: bytes
  pull_calls :: "srs_call list"
  pull_callbacks :: "pull_callback list"

definition new_pull :: pull where
  "new_pull = \<lparr>pull_running = True, connected = False, retry_ct = 0, pull_status = RS_PLY_Init, pull_rtmp = True, srs_codec = new_codec,
     audio_payload = [], video_payload = [], pull_calls = [Srs_Create], pull_callbacks = []\<rparr>"

section \<open>Buffers\<close>

definition audio_size :: nat where
  "audio_size = 1024"

definition video_size :: nat where
  "video_size = 384 * 1024"

text \<open>What does not fit is dropped without a word.\<close>

definition append_data :: "nat \<Rightarrow> bytes \<Rightarrow> bytes \<Rightarrow> bytes" where
  "append_data cap data buf = (if length buf + length data > cap then buf else buf @ data)"

definition append_video :: "bytes \<Rightarrow> pull \<Rightarrow> pull" where
  "append_video data s = s\<lparr>video_payload := append_data video_size data (video_payload s)\<rparr>"

definition append_audio :: "bytes \<Rightarrow> pull \<Rightarrow> pull" where
  "append_audio data s = s\<lparr>audio_payload := append_data audio_size data (audio_payload s)\<rparr>"

definition deliver_video :: "u32 \<Rightarrow> pull \<Rightarrow> pull" where
  "deliver_video ts s = s\<lparr>pull_callbacks := pull_callbacks s @ [OnRtmpullH264Data (video_payload s) ts], video_payload := []\<rparr>"

definition deliver_audio :: "u32 \<Rightarrow> pull \<Rightarrow> pull" where
  "deliver_audio ts s = s\<lparr>pull_callbacks := pull_callbacks s @ [OnRtmpullAACData (audio_payload s) ts], audio_payload := []\<rparr>"

section \<open>Pictures\<close>

definition fresh_nalu_header :: bytes where
  "fresh_nalu_header = [0, 0, 0, 1]"

definition cont_nalu_header :: bytes where
  "cont_nalu_header = [0, 0, 1]"

definition RescanVideoframe :: "bytes \<Rightarrow> u32 \<Rightarrow> pull \<Rightarrow> pull option" where
  "RescanVideoframe p ts s = need 5 p (Some (deliver_video ts
     (if nal_type (p ! 4) = 7
      then (case scan_nals p 4 0 0 of (find7, find8, pic) \<Rightarrow>
        append_video (case pic of None \<Rightarrow> [] | Some (i, head) \<Rightarrow> drop (i + head) p)
          (append_video fresh_nalu_header (append_video (nal8 p find7 find8) (append_video (nal7 p find7) s))))
      else append_video p s)))"

fun video_units :: "u32 \<Rightarrow> bytes list \<Rightarrow> pull \<Rightarrow> (int \<times> pull) option" where
  "video_units ts [] s = Some (0, s)"
| "video_units ts (u # us) s =
     (if u = [] then Some (-1, s)
      else let t = nal_type (u ! 0) in
        if t = 7 \<or> t = 8 \<or> t = 6 \<or> t = 9 then video_units ts us s
        else if t = 0 then do { s \<leftarrow> RescanVideoframe u ts s; video_units ts us s }
        else video_units ts us
          (deliver_video ts (append_video u (append_video (if t = 5 then cont_nalu_header else fresh_nalu_header) s))))"

text \<open>A parameter set is appended with its announced length, wherever that ends, unless the buffer is full.\<close>

definition append_stored :: "nat \<Rightarrow> bytes \<Rightarrow> pull \<Rightarrow> pull option" where
  "append_stored len u s = (if length (video_payload s) + len > video_size then Some s
     else need len u (Some (s\<lparr>video_payload := video_payload s @ take len u\<rparr>)))"

definition append_set :: "nat \<times> bytes \<Rightarrow> pull \<Rightarrow> pull option" where
  "append_set ps s = (case ps of (len, u) \<Rightarrow> if len = 0 then Some s else append_stored len u (append_video fresh_nalu_header s))"

definition GotVideoSample :: "codec \<Rightarrow> u32 \<Rightarrow> codec_sample \<Rightarrow> pull \<Rightarrow> (int \<times> pull) option" where
  "GotVideoSample cd ts sample s =
     (if frame_type sample = 5 \<or> frame_type sample = 1 \<and> avc_packet_type sample = 0 then Some (0, s)
      else do {
        s \<leftarrow> if has_idr sample then do { s \<leftarrow> append_set (sequenceParameterSet cd) s; append_set (pictureParameterSet cd) s } else Some s;
        video_units ts (sample_units sample) s })"

section \<open>Sound\<close>

definition adts_header :: "codec \<Rightarrow> u32 \<Rightarrow> bytes" where
  "adts_header cd frame_length =
     (let rate = ucast (aac_sample_rate cd); channels = ucast (aac_channels cd)
      in [0xff, 0xf9,
          ucast ((push_bit 6 (srs_codec_aac_rtmp2ts (aac_object cd)) AND 0xc0) OR (push_bit 2 rate AND 0x3c) OR (drop_bit 2 channels AND 0x01)),
          ucast ((push_bit 6 channels AND 0xc0) OR (drop_bit 11 frame_length AND 0x03)),
          ucast (drop_bit 3 frame_length AND 0xff),
          ucast ((push_bit 5 frame_length AND 0xe0) OR 0x1f),
          0xfc])"

fun audio_units :: "codec \<Rightarrow> u32 \<Rightarrow> bytes list \<Rightarrow> pull \<Rightarrow> int \<times> pull" where
  "audio_units cd ts [] s = (0, s)"
| "audio_units cd ts (u # us) s =
     (if u = [] \<or> length u > 0x1fff then (-1, s)
      else audio_units cd ts us (deliver_audio ts (append_audio u (append_audio (adts_header cd (word_of_nat (length u + 7))) s))))"

definition GotAudioSample :: "codec \<Rightarrow> u32 \<Rightarrow> codec_sample \<Rightarrow> pull \<Rightarrow> int \<times> pull" where
  "GotAudioSample cd ts sample s = audio_units cd ts (sample_units sample) s"

section \<open>Packets\<close>

text \<open>A failed read leaves type 0 and no data.\<close>

definition DoReadData :: "packet \<Rightarrow> pull \<Rightarrow> pull option" where
  "DoReadData pk s =
     (if pk_type pk = 9
      then do {
        (ret, cd, sample) \<leftarrow> video_avc_demux (pk_data pk) (srs_codec s);
        let s = s\<lparr>srs_codec := cd\<rparr>;
        if ret = 0 \<and> video_codec_id cd = 7 then map_option snd (GotVideoSample cd (pk_timestamp pk) sample s) else Some s }
      else if pk_type pk = 8
      then do {
        (ret, cd, sample) \<leftarrow> audio_aac_demux (pk_data pk) (srs_codec s);
        let s = s\<lparr>srs_codec := cd\<rparr>;
        if ret \<noteq> 0
        then if acodec sample = 2 then do { (ret, sample) \<leftarrow> audio_mp3_demux (pk_data pk) sample; Some s } else Some s
        else if audio_codec_id cd \<notin> {10, 2} then Some s
        else if audio_codec_id cd = 10 \<and> aac_packet_type sample = 0 \<or> aac_object cd = 0 then Some s
        else Some (snd (GotAudioSample cd (pk_timestamp pk) sample s)) }
      else Some s)"

definition failed_packet :: "packet \<Rightarrow> bool" where
  "failed_packet pk \<longleftrightarrow> pk_type pk = 0"

section \<open>The thread\<close>

definition pull_call :: "srs \<Rightarrow> srs_call \<Rightarrow> pull \<Rightarrow> int \<times> pull" where
  "pull_call srs c s = (srs (pull_calls s) c, s\<lparr>pull_calls := pull_calls s @ [c]\<rparr>)"

definition pull_connected :: "pull \<Rightarrow> pull" where
  "pull_connected s = s\<lparr>retry_ct := 0, connected := True, pull_callbacks := pull_callbacks s @ [OnRtmpullConnected]\<rparr>"

definition pull_disconnect :: "srs \<Rightarrow> pull \<Rightarrow> pull" where
  "pull_disconnect srs s =
     (let s = (if pull_rtmp s then (snd (pull_call srs Srs_Destroy s))\<lparr>pull_rtmp := False\<rparr> else s)
      in if pull_status s = RS_PLY_Closed then s
         else let s = s\<lparr>pull_status := RS_PLY_Init, retry_ct := retry_ct s + 1\<rparr>
           in if retry_ct s \<le> 3 then (snd (pull_call srs Srs_Create s))\<lparr>pull_rtmp := True\<rparr>
              else s\<lparr>pull_callbacks := pull_callbacks s @ [if connected s then OnRtmpullDisconnect else OnRtmpullFailed]\<rparr>)"

definition pull_iterate :: "srs \<Rightarrow> packet \<Rightarrow> pull \<Rightarrow> pull option" where
  "pull_iterate srs pk s =
     (if pull_running s \<and> pull_rtmp s
      then (case pull_status s of
          RS_PLY_Init \<Rightarrow> (case pull_call srs Srs_Handshake s of (ret, s) \<Rightarrow>
            Some (if ret = 0 then s\<lparr>pull_status := RS_PLY_Handshaked\<rparr> else pull_disconnect srs s))
        | RS_PLY_Handshaked \<Rightarrow> (case pull_call srs Srs_Connect_App s of (ret, s) \<Rightarrow>
            Some (if ret = 0 then s\<lparr>pull_status := RS_PLY_Connected\<rparr> else pull_disconnect srs s))
        | RS_PLY_Connected \<Rightarrow> (case pull_call srs Srs_Play s of (ret, s) \<Rightarrow>
            Some (if ret = 0 then pull_connected (s\<lparr>pull_status := RS_PLY_Played\<rparr>) else pull_disconnect srs s))
        | RS_PLY_Played \<Rightarrow> DoReadData pk s
        | RS_PLY_Closed \<Rightarrow> Some s)
      else Some s)"

definition delete_pull :: "srs \<Rightarrow> pull \<Rightarrow> pull" where
  "delete_pull srs s =
     (let s = s\<lparr>pull_running := False, pull_status := RS_PLY_Closed\<rparr>;
          s = (if pull_rtmp s then (snd (pull_call srs Srs_Destroy (snd (pull_call srs Srs_Disconnect s))))\<lparr>pull_rtmp := False\<rparr> else s)
      in s\<lparr>audio_payload := [], video_payload := []\<rparr>)"

end
