(* ===== verification/Rtmp_Play.thy ===== *)
theory Rtmp_Play
  imports Rtmp_Pull
begin

text \<open>
  What playing promises: the frames handed to the player, the headers of sound frames, when a connection is given up, and what becomes of
  one that is lost.
\<close>

section \<open>Pictures\<close>

definition picture :: "bytes \<Rightarrow> bool" where
  "picture u \<longleftrightarrow> u \<noteq> [] \<and> nal_type (u ! 0) \<notin> {0, 6, 7, 8, 9}"

definition aside :: "bytes \<Rightarrow> bool" where
  "aside u \<longleftrightarrow> u \<noteq> [] \<and> nal_type (u ! 0) \<in> {6, 7, 8, 9}"

definition framed :: "bytes \<Rightarrow> bytes" where
  "framed u = (if nal_type (u ! 0) = 5 then cont_nalu_header else fresh_nalu_header) @ u"

definition parameter_sets :: "codec \<Rightarrow> bytes" where
  "parameter_sets cd =
     concat (map (\<lambda>(len, u). if len = 0 then [] else fresh_nalu_header @ take len u) [sequenceParameterSet cd, pictureParameterSet cd])"

text \<open>Both sets were stored with the length that was announced.\<close>

definition sets_stored :: "codec \<Rightarrow> bool" where
  "sets_stored cd \<longleftrightarrow> fst (sequenceParameterSet cd) \<le> length (snd (sequenceParameterSet cd)) \<and>
     fst (pictureParameterSet cd) \<le> length (snd (pictureParameterSet cd))"

text \<open>The frames of a sample: its pictures, the first one behind what is already in the buffer.\<close>

fun frames_of :: "bytes \<Rightarrow> bytes list \<Rightarrow> bytes list" where
  "frames_of buf [] = []"
| "frames_of buf (u # us) = (buf @ framed u) # frames_of [] us"

lemma append_fits: "length buf + length data \<le> cap \<Longrightarrow> append_data cap data buf = buf @ data"
  by (simp add: append_data_def)

lemma video_units_frames:
  assumes "list_all (\<lambda>u. picture u \<or> aside u) us" and "\<And>u. u \<in> set us \<Longrightarrow> length (video_payload s) + length u + 4 \<le> video_size"
  shows "video_units ts us s = Some (0, s\<lparr>
    pull_callbacks := pull_callbacks s @ map (\<lambda>f. OnRtmpullH264Data f ts) (frames_of (video_payload s) (filter picture us)),
    video_payload := (if filter picture us = [] then video_payload s else [])\<rparr>)"
  using assms
proof (induction us arbitrary: s)
  case (Cons u us)
  show ?case
  proof (cases "picture u")
    case True
    define h where "h = (if nal_type (u ! 0) = 5 then cont_nalu_header else fresh_nalu_header)"
    have fit: "length (video_payload s) + length h \<le> video_size" "length (video_payload s @ h) + length u \<le> video_size"
      using Cons.prems(2) [of u] by (auto simp: h_def cont_nalu_header_def fresh_nalu_header_def)
    define s' where "s' = deliver_video ts (append_video u (append_video h s))"
    have s': "s' = s\<lparr>pull_callbacks := pull_callbacks s @ [OnRtmpullH264Data (video_payload s @ framed u) ts], video_payload := []\<rparr>"
      using append_fits [OF fit(1)] append_fits [OF fit(2)]
      by (simp add: s'_def deliver_video_def append_video_def framed_def flip: h_def)
    have rest: "length v + 4 \<le> video_size" if "v \<in> set us" for v
      using Cons.prems(2) [of v] that by simp
    have "video_units ts (u # us) s = video_units ts us s'"
      using True by (auto simp: picture_def s'_def h_def Let_def)
    also have "\<dots> = Some (0, s'\<lparr>
        pull_callbacks := pull_callbacks s' @ map (\<lambda>f. OnRtmpullH264Data f ts) (frames_of (video_payload s') (filter picture us)),
        video_payload := (if filter picture us = [] then video_payload s' else [])\<rparr>)"
      using Cons.prems(1) rest by (intro Cons.IH) (simp_all add: s')
    finally show ?thesis
      using True by (simp add: s')
  next
    case False
    with Cons.prems(1) have "video_units ts (u # us) s = video_units ts us s"
      by (auto simp: aside_def Let_def)
    with False Cons show ?thesis
      by simp
  qed
qed simp

lemma append_set_fits:
  assumes "len \<le> length u" and "length (video_payload s) + len + 4 \<le> video_size"
  shows "append_set (len, u) s = Some (s\<lparr>video_payload := video_payload s @ (if len = 0 then [] else fresh_nalu_header @ take len u)\<rparr>)"
  using assms by (simp add: append_set_def append_stored_def append_video_def append_data_def fresh_nalu_header_def)

lemma append_set_sets:
  assumes "sets_stored cd" and "fst (sequenceParameterSet cd) + fst (pictureParameterSet cd) + 8 \<le> video_size" and "video_payload s = []"
  shows "do { s \<leftarrow> append_set (sequenceParameterSet cd) s; append_set (pictureParameterSet cd) s } =
    Some (s\<lparr>video_payload := parameter_sets cd\<rparr>)"
proof -
  obtain m u n v where sets: "sequenceParameterSet cd = (m, u)" "pictureParameterSet cd = (n, v)"
    by fastforce
  let ?s = "s\<lparr>video_payload := if m = 0 then [] else fresh_nalu_header @ take m u\<rparr>"
  have "append_set (m, u) s = Some ?s"
    using append_set_fits [of m u s] assms by (simp add: sets_stored_def sets)
  moreover have "append_set (n, v) ?s = Some (?s\<lparr>video_payload := video_payload ?s @ (if n = 0 then [] else fresh_nalu_header @ take n v)\<rparr>)"
    using assms by (intro append_set_fits) (simp_all add: sets_stored_def sets fresh_nalu_header_def)
  ultimately show ?thesis
    by (simp add: sets parameter_sets_def)
qed

text \<open>A sample of pictures, parameter sets and other units, none of them out of order, is handed to the player picture by picture, in
  order and complete, each behind a start code; before the first picture of a sample with a refresh picture stand the parameter sets of the
  stream. Nothing else is handed over and the buffer is empty again.\<close>

lemma sample_frames:
  assumes "frame_type sample \<noteq> 5" and "\<not> (frame_type sample = 1 \<and> avc_packet_type sample = 0)"
    and "list_all (\<lambda>u. picture u \<or> aside u) (sample_units sample)" and "filter picture (sample_units sample) \<noteq> []"
    and "video_payload s = []"
    and "list_all (\<lambda>u. fst (sequenceParameterSet cd) + fst (pictureParameterSet cd) + length u + 12 \<le> video_size) (sample_units sample)"
    and "sets_stored cd"
  shows "GotVideoSample cd ts sample s = Some (0, s\<lparr>pull_callbacks := pull_callbacks s @ map (\<lambda>f. OnRtmpullH264Data f ts)
    (frames_of (if has_idr sample then parameter_sets cd else []) (filter picture (sample_units sample)))\<rparr>)"
proof -
  obtain u where u: "u \<in> set (sample_units sample)"
    using assms(4) by (cases "sample_units sample") auto
  let ?s = "if has_idr sample then s\<lparr>video_payload := parameter_sets cd\<rparr> else s"
  have fits: "fst (sequenceParameterSet cd) + fst (pictureParameterSet cd) + length v + 12 \<le> video_size"
    if "v \<in> set (sample_units sample)" for v
    using assms(6) that by (simp add: list_all_iff)
  have sets: "length (parameter_sets cd) \<le> fst (sequenceParameterSet cd) + fst (pictureParameterSet cd) + 8"
    by (auto simp: parameter_sets_def fresh_nalu_header_def split: prod.splits)
  have "GotVideoSample cd ts sample s = video_units ts (sample_units sample) ?s"
    using assms(1,2) fits [OF u] append_set_sets [of cd s] assms(5,7) by (auto simp: GotVideoSample_def)
  also have "\<dots> = Some (0, ?s\<lparr>
      pull_callbacks := pull_callbacks ?s @ map (\<lambda>f. OnRtmpullH264Data f ts) (frames_of (video_payload ?s) (filter picture (sample_units sample))),
      video_payload := (if filter picture (sample_units sample) = [] then video_payload ?s else [])\<rparr>)"
  proof (rule video_units_frames [OF assms(3)])
    fix v
    assume "v \<in> set (sample_units sample)"
    from fits [OF this] sets show "length (video_payload ?s) + length v + 4 \<le> video_size"
      using assms(5) by auto
  qed
  finally show ?thesis
    using assms(4,5) by auto
qed

definition demo_codec :: codec where
  "demo_codec = new_codec\<lparr>video_codec_id := 7, audio_codec_id := 10, sequenceParameterSet := (2, [0x67, 1]),
     pictureParameterSet := (2, [0x68, 2]), aac_object := 2, aac_sample_rate := 4, aac_channels := 2\<rparr>"

definition demo_sample :: "bytes list \<Rightarrow> codec_sample" where
  "demo_sample us = new_sample\<lparr>sample_units := us, frame_type := 1, avc_packet_type := 1, has_idr := True, aac_packet_type := 1\<rparr>"

section \<open>Sound\<close>

text \<open>The fields a decoder reads from a header.\<close>

definition adts_profile :: "bytes \<Rightarrow> u8" where
  "adts_profile h = drop_bit 6 (h ! 2)"

definition adts_rate :: "bytes \<Rightarrow> u8" where
  "adts_rate h = drop_bit 2 (h ! 2) AND 0xf"

definition adts_channels :: "bytes \<Rightarrow> u8" where
  "adts_channels h = push_bit 2 (h ! 2 AND 1) OR drop_bit 6 (h ! 3)"

definition adts_length :: "bytes \<Rightarrow> u32" where
  "adts_length h = push_bit 11 (ucast (h ! 3 AND 3)) OR push_bit 3 (ucast (h ! 4)) OR ucast (drop_bit 5 (h ! 5))"

lemma profile_bits:
  assumes "2 \<le> j"
  shows "\<not> bit (srs_codec_aac_rtmp2ts k) j"
proof -
  have "take_bit 2 (srs_codec_aac_rtmp2ts k) = srs_codec_aac_rtmp2ts k"
    by (simp add: srs_codec_aac_rtmp2ts_def)
  then show ?thesis
    using assms by (metis bit_take_bit_iff not_le)
qed

lemma adts_header_fields:
  fixes cd :: codec and n :: u32
  defines "h \<equiv> adts_header cd n"
  shows "length h = 7 \<and> h ! 0 = 0xff \<and> h ! 1 = 0xf9 \<and> h ! 6 = 0xfc \<and> adts_profile h = ucast (srs_codec_aac_rtmp2ts (aac_object cd)) \<and>
    adts_rate h = aac_sample_rate cd AND 0xf \<and> adts_channels h = aac_channels cd AND 7 \<and> adts_length h = take_bit 13 n"
proof -
  have three: "\<not> bit (3 :: int) j" "\<not> bit (3 :: nat) j" if "2 \<le> j" for j
  proof -
    have "take_bit 2 (3 :: int) = 3" "take_bit 2 (3 :: nat) = 3"
      by simp_all
    then show "\<not> bit (3 :: int) j" "\<not> bit (3 :: nat) j"
      using that by (metis bit_take_bit_iff not_le)+
  qed
  have h: "length h = 7 \<and> h ! 0 = 0xff \<and> h ! 1 = 0xf9 \<and> h ! 6 = 0xfc"
    by (simp add: h_def adts_header_def Let_def)
  moreover have "adts_profile h = ucast (srs_codec_aac_rtmp2ts (aac_object cd))"
    by (rule u8_eqI) (simp_all add: h_def adts_header_def Let_def adts_profile_def bit_simps profile_bits)
  moreover have "adts_rate h = aac_sample_rate cd AND 0xf"
    by (rule u8_eqI) (simp_all add: h_def adts_header_def Let_def adts_rate_def bit_simps)
  moreover have "adts_channels h = aac_channels cd AND 7"
    by (rule u8_eqI) (simp_all add: h_def adts_header_def Let_def adts_channels_def bit_simps)
  moreover have "adts_length h = take_bit 13 n"
  proof (rule bit_word_eqI)
    fix j :: nat
    have "13 \<le> j \<or> j = 0 \<or> j = 1 \<or> j = 2 \<or> j = 3 \<or> j = 4 \<or> j = 5 \<or> j = 6 \<or> j = 7 \<or> j = 8 \<or> j = 9 \<or> j = 10 \<or> j = 11 \<or> j = 12"
      by presburger
    then show "bit (adts_length h) j = bit (take_bit 13 n) j"
      by (elim disjE) (auto simp: h_def adts_header_def Let_def adts_length_def bit_simps three)
  qed
  ultimately show ?thesis
    by blast
qed

lemma small_word_mask:
  fixes w :: "'a :: len word"
  assumes "unat w < 2 ^ n"
  shows "take_bit n w = w"
  using assms by (simp add: word_unat_eq_iff unsigned_take_bit_eq take_bit_nat_eq_self_iff)

lemma small_word_bits:
  fixes w :: "'a :: len word"
  assumes "unat w < 2 ^ n" and "n \<le> j"
  shows "\<not> bit w j"
  using small_word_mask [OF assms(1)] assms(2) by (metis bit_take_bit_iff not_le)

text \<open>Within its bounds, the header says what went into it.\<close>

lemma adts_header_small:
  fixes cd :: codec and n :: u32
  defines "h \<equiv> adts_header cd n"
  assumes "aac_sample_rate cd < 16" and "aac_channels cd < 8" and "n < 8192"
  shows "length h = 7 \<and> h ! 0 = 0xff \<and> h ! 1 = 0xf9 \<and> h ! 6 = 0xfc \<and> adts_profile h = ucast (srs_codec_aac_rtmp2ts (aac_object cd)) \<and>
    adts_rate h = aac_sample_rate cd \<and> adts_channels h = aac_channels cd \<and> adts_length h = n"
proof -
  have "aac_sample_rate cd AND 0xf = aac_sample_rate cd"
    using small_word_mask [of "aac_sample_rate cd" 4] assms(2) by (simp add: word_less_nat_alt take_bit_eq_mask mask_numeral)
  moreover have "aac_channels cd AND 7 = aac_channels cd"
    using small_word_mask [of "aac_channels cd" 3] assms(3) by (simp add: word_less_nat_alt take_bit_eq_mask mask_numeral)
  moreover have "take_bit 13 n = n"
    using small_word_mask [of n 13] assms(4) by (simp add: word_less_nat_alt)
  ultimately show ?thesis
    using adts_header_fields [of cd n] by (simp add: h_def)
qed



lemma length_adts_header [simp]: "length (adts_header cd n) = 7"
  by (simp add: adts_header_def Let_def)

text \<open>What becomes of one sound unit: the buffer has 1024 bytes, and what does not fit behind the header is left out.\<close>

definition sound_frame :: "codec \<Rightarrow> bytes \<Rightarrow> bytes" where
  "sound_frame cd u = adts_header cd (word_of_nat (length u + 7)) @ (if length u \<le> 1017 then u else [])"

lemma audio_units_frames:
  assumes "list_all (\<lambda>u. u \<noteq> [] \<and> length u \<le> 0x1fff) us" and "audio_payload s = []"
  shows "audio_units cd ts us s =
    (0, s\<lparr>pull_callbacks := pull_callbacks s @ map (\<lambda>u. OnRtmpullAACData (sound_frame cd u) ts) us\<rparr>)"
  using assms
proof (induction us arbitrary: s)
  case (Cons u us)
  define s' where "s' = deliver_audio ts (append_audio u (append_audio (adts_header cd (word_of_nat (length u + 7))) s))"
  have s': "s' = s\<lparr>pull_callbacks := pull_callbacks s @ [OnRtmpullAACData (sound_frame cd u) ts]\<rparr>"
    using Cons.prems(2) by (simp add: s'_def deliver_audio_def append_audio_def append_data_def audio_size_def sound_frame_def)
  have "audio_units cd ts (u # us) s = audio_units cd ts us s'"
    using Cons.prems(1) by (simp add: s'_def)
  also have "\<dots> = (0, s'\<lparr>pull_callbacks := pull_callbacks s' @ map (\<lambda>u. OnRtmpullAACData (sound_frame cd u) ts) us\<rparr>)"
    using Cons.prems by (intro Cons.IH) (simp_all add: s')
  finally show ?case
    by (simp add: s')
qed simp

text \<open>Every sound unit of up to 8191 bytes is handed to the player behind a header that announces its length; but of a unit of more than
  1017 bytes only the header arrives.\<close>

theorem sound_units_truncated:
  assumes "list_all (\<lambda>u. u \<noteq> [] \<and> length u \<le> 0x1fff) (sample_units sample)" and "audio_payload s = []"
  shows "GotAudioSample cd ts sample s = (0, s\<lparr>pull_callbacks := pull_callbacks s @
    map (\<lambda>u. OnRtmpullAACData (adts_header cd (word_of_nat (length u + 7)) @ (if length u \<le> 1017 then u else [])) ts) (sample_units sample)\<rparr>)"
  using audio_units_frames [OF assms] by (simp add: GotAudioSample_def sound_frame_def)

theorem sound_units_truncated_witness:
  "pull_callbacks (snd (GotAudioSample demo_codec 40 (demo_sample [[1, 2], replicate 1018 0]) new_pull)) =
    [OnRtmpullAACData (adts_header demo_codec 9 @ [1, 2]) 40, OnRtmpullAACData (adts_header demo_codec 1025) 40]"
  using sound_units_truncated [of "demo_sample [[1, 2], replicate 1018 0]" new_pull demo_codec 40]
  by (simp add: demo_sample_def new_pull_def)

section \<open>Connections\<close>

definition refuses_pull :: "srs \<Rightarrow> pull \<Rightarrow> bool" where
  "refuses_pull srs s \<longleftrightarrow> pull_running s \<and> pull_status s \<in> {RS_PLY_Init, RS_PLY_Handshaked, RS_PLY_Connected} \<and>
     (\<forall>h. srs h Srs_Handshake \<noteq> 0 \<and> srs h Srs_Connect_App \<noteq> 0 \<and> srs h Srs_Play \<noteq> 0)"

definition pull_next :: "srs \<Rightarrow> packet \<Rightarrow> pull \<Rightarrow> pull" where
  "pull_next srs pk s = (case pull_iterate srs pk s of None \<Rightarrow> s | Some s' \<Rightarrow> s')"

interpretation player: retrying_client "pull_next srs" pull_rtmp retry_ct "refuses_pull srs" for srs
proof
  fix s :: pull and pk
  show "\<not> pull_rtmp s \<Longrightarrow> pull_next srs pk s = s"
    by (simp add: pull_next_def pull_iterate_def)
  show "refuses_pull srs (pull_next srs pk s) \<and> retry_ct (pull_next srs pk s) = retry_ct s + 1 \<and>
      pull_rtmp (pull_next srs pk s) = (retry_ct s < 3)"
    if "pull_rtmp s" "refuses_pull srs s"
    using that
    by (auto simp: refuses_pull_def pull_next_def pull_iterate_def pull_call_def pull_disconnect_def Let_def split: if_splits)
qed

text \<open>Reading delivers frames and does nothing else.\<close>

definition delivers :: "pull \<Rightarrow> pull \<Rightarrow> bool" where
  "delivers s s' \<longleftrightarrow> (\<exists>ds a v c. s' = s\<lparr>pull_callbacks := pull_callbacks s @ ds, audio_payload := a, video_payload := v, srs_codec := c\<rparr> \<and>
     set ds \<inter> {OnRtmpullConnected, OnRtmpullFailed, OnRtmpullDisconnect} = {})"

lemma deliversI:
  "s' = s\<lparr>pull_callbacks := pull_callbacks s @ ds, audio_payload := a, video_payload := v, srs_codec := c\<rparr> \<Longrightarrow>
   set ds \<inter> {OnRtmpullConnected, OnRtmpullFailed, OnRtmpullDisconnect} = {} \<Longrightarrow> delivers s s'"
  unfolding delivers_def by blast

lemma delivers_trans: "delivers r s \<Longrightarrow> delivers s t \<Longrightarrow> delivers r t"
proof -
  assume "delivers r s" "delivers s t"
  then obtain ds a v c ds' a' v' c' where
    "s = r\<lparr>pull_callbacks := pull_callbacks r @ ds, audio_payload := a, video_payload := v, srs_codec := c\<rparr>"
    "t = s\<lparr>pull_callbacks := pull_callbacks s @ ds', audio_payload := a', video_payload := v', srs_codec := c'\<rparr>"
    "set ds \<inter> {OnRtmpullConnected, OnRtmpullFailed, OnRtmpullDisconnect} = {}"
    "set ds' \<inter> {OnRtmpullConnected, OnRtmpullFailed, OnRtmpullDisconnect} = {}"
    unfolding delivers_def by blast
  then show ?thesis
    by (intro deliversI [where ds = "ds @ ds'" and a = a' and v = v' and c = c']) auto
qed

lemma delivers_refl [simp]: "delivers s s"
  by (rule deliversI [where ds = "[]" and a = "audio_payload s" and v = "video_payload s" and c = "srs_codec s"]) simp_all

lemma delivers_append [simp]: "delivers s (append_video d s)" "delivers s (append_audio d s)"
proof -
  show "delivers s (append_video d s)"
    by (rule deliversI [where ds = "[]" and a = "audio_payload s" and v = "append_data video_size d (video_payload s)" and c = "srs_codec s"]) (simp_all add: append_video_def)
  show "delivers s (append_audio d s)"
    by (rule deliversI [where ds = "[]" and a = "append_data audio_size d (audio_payload s)" and v = "video_payload s" and c = "srs_codec s"]) (simp_all add: append_audio_def)
qed

lemma delivers_deliver [simp]: "delivers s (deliver_video ts s)" "delivers s (deliver_audio ts s)"
proof -
  show "delivers s (deliver_video ts s)"
    by (rule deliversI [where ds = "[OnRtmpullH264Data (video_payload s) ts]" and a = "audio_payload s" and v = "[]" and c = "srs_codec s"]) (simp_all add: deliver_video_def)
  show "delivers s (deliver_audio ts s)"
    by (rule deliversI [where ds = "[OnRtmpullAACData (audio_payload s) ts]" and a = "[]" and v = "video_payload s" and c = "srs_codec s"]) (simp_all add: deliver_audio_def)
qed

lemma delivers_codec [simp]: "delivers s (s\<lparr>srs_codec := c\<rparr>)"
  by (rule deliversI [where ds = "[]" and a = "audio_payload s" and v = "video_payload s" and c = c]) simp_all

lemmas delivers_chain = delivers_trans [OF _ delivers_append(1)] delivers_trans [OF _ delivers_append(2)]
  delivers_trans [OF _ delivers_deliver(1)] delivers_trans [OF _ delivers_deliver(2)]

lemma delivers_rescan: "RescanVideoframe p ts s = Some s' \<Longrightarrow> delivers s s'"
  by (auto simp: RescanVideoframe_def need_def intro!: delivers_chain split: if_splits prod.splits)

lemma delivers_video: "video_units ts us s = Some (r, s') \<Longrightarrow> delivers s s'"
proof (induction ts us s rule: video_units.induct)
  case (2 ts u us s)
  show ?case
  proof (cases "nal_type (u ! 0) = 0 \<and> u \<noteq> []")
    case True
    with 2 obtain t where "RescanVideoframe u ts s = Some t" "video_units ts us t = Some (r, s')"
      by (auto simp: Let_def split: bind_splits if_splits)
    with 2(2) True show ?thesis
      by (auto dest: delivers_rescan intro: delivers_trans)
  next
    case False
    have d: "delivers s (deliver_video ts (append_video u (append_video h s)))" for h
      by (intro delivers_chain delivers_refl)
    from False 2 show ?thesis
      by (auto simp: Let_def intro: delivers_trans [OF d] split: if_splits)
  qed
qed simp

lemma delivers_audio: "delivers s (snd (audio_units cd ts us s))"
proof (induction cd ts us s rule: audio_units.induct)
  case (2 cd ts u us s)
  have "delivers s (deliver_audio ts (append_audio u (append_audio h s)))" for h
    by (intro delivers_chain delivers_refl)
  with 2 show ?case
    by (auto intro: delivers_trans)
qed simp

lemma delivers_set:
  assumes "append_set ps s = Some t"
  shows "delivers s t"
proof -
  obtain len u where ps: "ps = (len, u)"
    by fastforce
  have "delivers s' (s'\<lparr>video_payload := v\<rparr>)" for s' :: pull and v
    by (rule deliversI [where ds = "[]" and a = "audio_payload s'" and v = v and c = "srs_codec s'"]) simp_all
  with assms show ?thesis
    by (auto simp: ps append_set_def append_stored_def ub_simps split: if_splits intro: delivers_trans [OF delivers_append(1)])
qed

lemma delivers_sample: "GotVideoSample cd ts sample s = Some (r, t) \<Longrightarrow> delivers s t"
  by (auto simp: GotVideoSample_def split: if_splits bind_splits dest!: delivers_set delivers_video intro: delivers_trans)

lemma delivers_read:
  assumes "DoReadData pk s = Some s'"
  shows "delivers s s'"
proof -
  consider "pk_type pk = 9" | "pk_type pk = 8" | "s' = s"
    using assms by (auto simp: DoReadData_def split: if_splits)
  then show ?thesis
  proof cases
    case 1
    with assms show ?thesis
      by (auto simp: DoReadData_def Let_def split: bind_splits if_splits
          intro: delivers_trans [OF delivers_codec delivers_sample])
  next
    case 2
    with assms show ?thesis
      by (auto simp: DoReadData_def Let_def GotAudioSample_def split: bind_splits if_splits
          intro: delivers_trans [OF delivers_codec delivers_audio])
  qed simp
qed

text \<open>As long as the thread runs: the stream is played exactly when a connection was reported, and no loss ever was.\<close>

definition pull_ok :: "pull \<Rightarrow> bool" where
  "pull_ok s \<longleftrightarrow> pull_running s \<and> pull_status s \<noteq> RS_PLY_Closed \<and> OnRtmpullDisconnect \<notin> set (pull_callbacks s) \<and>
     0 \<le> retry_ct s \<and> (pull_rtmp s \<longleftrightarrow> retry_ct s \<le> 3) \<and>
     (connected s \<longleftrightarrow> pull_status s = RS_PLY_Played) \<and> (OnRtmpullConnected \<in> set (pull_callbacks s) \<longleftrightarrow> connected s) \<and>
     (connected s \<longrightarrow> pull_rtmp s) \<and> (\<not> pull_rtmp s \<longrightarrow> pull_callbacks s \<noteq> [] \<and> last (pull_callbacks s) = OnRtmpullFailed)"

lemma new_pull_ok: "pull_ok new_pull"
  by (simp add: pull_ok_def new_pull_def)

lemma delivers_ok: "pull_ok s \<Longrightarrow> connected s \<Longrightarrow> delivers s s' \<Longrightarrow> pull_ok s'"
  unfolding delivers_def pull_ok_def by auto

lemma pull_iterate_ok:
  assumes "pull_ok s" and "pull_iterate srs pk s = Some s'"
  shows "pull_ok s'"
proof (cases "pull_status s = RS_PLY_Played \<and> pull_rtmp s")
  case True
  with assms have "connected s" "DoReadData pk s = Some s'"
    by (auto simp: pull_ok_def pull_iterate_def)
  with assms(1) delivers_read show ?thesis
    by (blast intro: delivers_ok)
next
  case False
  with assms show ?thesis
    by (cases "pull_status s")
      (auto simp: pull_iterate_def pull_ok_def pull_call_def pull_disconnect_def pull_connected_def Let_def split: if_splits)
qed

lemma pull_run_ok:
  "run_partial (\<lambda>s (pk :: packet). pull_iterate srs pk s) s pks = Some s' \<Longrightarrow> pull_ok s \<Longrightarrow> pull_ok s'"
  by (induction pks arbitrary: s) (auto split: bind_splits dest: pull_iterate_ok)

text \<open>C39. A player whose connection is lost does not notice: once a stream has been played, failing reads change nothing, however many there
  are, the connection is never made again, and the loss of a connection is never reported, in no run and against no server.\<close>

theorem lost_connection_unnoticed:
  assumes "run_partial (\<lambda>s pk. pull_iterate srs pk s) new_pull pks = Some s" and "list_all failed_packet lost"
  shows "OnRtmpullDisconnect \<notin> set (pull_callbacks s) \<and>
    (OnRtmpullConnected \<in> set (pull_callbacks s) \<longrightarrow> run_partial (\<lambda>s pk. pull_iterate srs pk s) s lost = Some s)"
proof -
  have ok: "pull_ok s"
    using pull_run_ok [OF assms(1) new_pull_ok] .
  have "run_partial (\<lambda>s pk. pull_iterate srs pk s) s lost = Some s" if "OnRtmpullConnected \<in> set (pull_callbacks s)"
    using assms(2)
  proof (induction lost)
    case (Cons pk lost)
    have "pull_iterate srs pk s = Some s"
      using Cons.prems ok that by (auto simp: pull_iterate_def pull_ok_def DoReadData_def failed_packet_def)
    with Cons show ?case
      by simp
  qed simp
  with ok show ?thesis
    by (simp add: pull_ok_def)
qed

definition failed_read :: packet where
  "failed_read = \<lparr>pk_type = 0, pk_timestamp = 0, pk_data = []\<rparr>"

theorem lost_connection_unnoticed_witness:
  "\<exists>s. run_partial (\<lambda>s pk. pull_iterate (\<lambda>_ _. 0) pk s) new_pull [failed_read, failed_read, failed_read] = Some s \<and>
    pull_callbacks s = [OnRtmpullConnected] \<and> run_partial (\<lambda>s pk. pull_iterate (\<lambda>_ _. 0) pk s) s (replicate 9 failed_read) = Some s"
proof -
  let ?run = "run_partial (\<lambda>s pk. pull_iterate (\<lambda>_ _. 0) pk s)"
  define s where "s = pull_connected (new_pull\<lparr>pull_calls := [Srs_Create, Srs_Handshake, Srs_Connect_App, Srs_Play],
    pull_status := RS_PLY_Played\<rparr>)"
  have s: "?run new_pull [failed_read, failed_read, failed_read] = Some s" "pull_callbacks s = [OnRtmpullConnected]"
    by (simp_all add: s_def pull_iterate_def pull_call_def pull_connected_def new_pull_def)
  with lost_connection_unnoticed [OF s(1), of "replicate 9 failed_read"] show ?thesis
    by (simp add: list_all_length failed_packet_def failed_read_def)
qed

text \<open>Against a server that refuses, the player gives up after four attempts and reports a failure.\<close>

lemma pull_gives_up:
  assumes "pull_ok s" and "refuses_pull srs s" and "4 - retry_ct s \<le> int (length pks)" and "retry_ct s \<le> 3"
  shows "\<not> pull_rtmp (fold (pull_next srs) pks s) \<and> last (pull_callbacks (fold (pull_next srs) pks s)) = OnRtmpullFailed"
proof -
  have "pull_ok (fold (pull_next srs) pks s)"
    using assms(1)
    by (induction pks arbitrary: s) (auto simp: pull_next_def split: option.splits dest: pull_iterate_ok)
  with player.gives_up [OF assms(2,4,3)] show ?thesis
    by (simp add: pull_ok_def)
qed

end
