(* ===== verification/Player.thy ===== *)
theory Player
  imports Prelude "HOL-Library.Sublist"
begin

text \<open>
  The player behind \<open>Rtmp_Pull\<close> (\<open>AnyCore/plybuffer.cc\<close>, \<open>AnyCore/plydecoder.cc\<close> and the playing side of
  \<open>AnyCore/anyrtmpcore.cc\<close>): pictures and sound wait in the play buffer, whose tick decides when a picture is due and when to stop and
  collect; the decoder's thread decodes the pictures that are due, the sound device takes the sound. Times are 32-bit milliseconds and wrap.
  The codecs are third-party code: what they return is part of an event. \<open>arrived\<close>, \<open>taken\<close>, \<open>decoded\<close>,
  \<open>pcm_in\<close> and \<open>pcm_out\<close> are histories.
\<close>

section \<open>The play buffer\<close>

record ply_packet =
  pp_data :: bytes
  pp_video :: bool
  pp_dts :: u32

datatype ply_status = PS_Fast | PS_Normal | PS_Cache

datatype ply_callback = OnPlay | OnPause | OnNeedDecodeData ply_packet

record ply_buffer =
  got_audio :: bool
  cache_time :: int
  cache_delta :: int
  buf_cache_time :: int
  ply_status :: ply_status
  sys_fast_video_time :: u32
  rtmp_fast_video_time :: u32
  rtmp_cache_time :: u32
  play_cur_time :: u32
  lst_audio_buffer :: "ply_packet list"
  lst_video_buffer :: "ply_packet list"

definition new_ply_buffer :: ply_buffer where
  "new_ply_buffer = \<lparr>got_audio = False, cache_time = 1000, cache_delta = 1, buf_cache_time = 0, ply_status = PS_Fast,
     sys_fast_video_time = 0, rtmp_fast_video_time = 0, rtmp_cache_time = 0, play_cur_time = 0, lst_audio_buffer = [], lst_video_buffer = []\<rparr>"

definition SetCacheSize :: "int \<Rightarrow> ply_buffer \<Rightarrow> ply_buffer" where
  "SetCacheSize miliseconds b = (if 500 < miliseconds \<and> miliseconds \<le> 600000 then b\<lparr>cache_time := miliseconds\<rparr> else b)"

definition CacheH264Data :: "u32 \<Rightarrow> bytes \<Rightarrow> u32 \<Rightarrow> ply_buffer \<Rightarrow> ply_buffer" where
  "CacheH264Data now data ts b =
     (let b = (if sys_fast_video_time b = 0 then b\<lparr>sys_fast_video_time := now, rtmp_fast_video_time := ts\<rparr> else b)
      in b\<lparr>lst_video_buffer := lst_video_buffer b @ [\<lparr>pp_data = data, pp_video = True, pp_dts = ts\<rparr>]\<rparr>)"

text \<open>The time between the first and the last packet.\<close>

definition time_span :: "ply_packet list \<Rightarrow> u32" where
  "time_span ps = (if ps = [] then 0 else pp_dts (last ps) - pp_dts (hd ps))"

definition CachePcmData :: "u32 \<Rightarrow> bytes \<Rightarrow> u32 \<Rightarrow> ply_buffer \<Rightarrow> ply_buffer" where
  "CachePcmData now data ts b =
     (let b = b\<lparr>got_audio := True, lst_audio_buffer := lst_audio_buffer b @ [\<lparr>pp_data = data, pp_video = False, pp_dts = ts\<rparr>]\<rparr>
      in if sys_fast_video_time b = 0 \<and> time_span (lst_audio_buffer b) \<ge> 1000
         then b\<lparr>sys_fast_video_time := now, rtmp_fast_video_time := ts\<rparr> else b)"

definition GetPlayAudio :: "ply_buffer \<Rightarrow> bytes \<times> ply_buffer" where
  "GetPlayAudio b = (case lst_audio_buffer b of [] \<Rightarrow> ([], b)
     | p # ps \<Rightarrow> (pp_data p, b\<lparr>play_cur_time := pp_dts p, lst_audio_buffer := ps\<rparr>))"

text \<open>How much is buffered: by the sound, or by the pictures when there never was sound and the sound says nothing.\<close>

definition by_pictures :: "ply_buffer \<Rightarrow> bool" where
  "by_pictures b \<longleftrightarrow> time_span (lst_audio_buffer b) = 0 \<and> \<not> got_audio b \<and> lst_video_buffer b \<noteq> []"

definition media_buf_time :: "ply_buffer \<Rightarrow> u32" where
  "media_buf_time b = (if by_pictures b then time_span (lst_video_buffer b) else time_span (lst_audio_buffer b))"

definition play_video_time :: "u32 \<Rightarrow> ply_buffer \<Rightarrow> u32" where
  "play_video_time now b = (if by_pictures b then rtmp_fast_video_time b + (now - sys_fast_video_time b) else play_cur_time b)"

definition decode_fast :: "u32 \<Rightarrow> ply_buffer \<Rightarrow> ply_buffer \<times> ply_callback list" where
  "decode_fast now b =
     (let gap = now - sys_fast_video_time b; start = (\<lambda>p. (b\<lparr>ply_status := PS_Normal, play_cur_time := pp_dts p\<rparr>, [OnPlay]))
      in if gap < 250 then (b, [])
         else (case lst_audio_buffer b of
             p # ps \<Rightarrow> if time_span (lst_audio_buffer b) > 250 then start p else (b, [])
           | [] \<Rightarrow> if gap < 1000 then (b, []) else (case lst_video_buffer b of p # ps \<Rightarrow> start p | [] \<Rightarrow> (b, []))))"

text \<open>The first picture, if it is due.\<close>

definition take_picture :: "u32 \<Rightarrow> ply_buffer \<Rightarrow> ply_packet option \<times> ply_buffer" where
  "take_picture time b = (case lst_video_buffer b of
     p # ps \<Rightarrow> if pp_dts p \<le> time then (Some p, b\<lparr>lst_video_buffer := ps\<rparr>) else (None, b)
   | [] \<Rightarrow> (None, b))"

definition decode_normal :: "u32 \<Rightarrow> u32 \<Rightarrow> ply_buffer \<Rightarrow> ply_buffer \<times> ply_callback list" where
  "decode_normal now now' b =
     (let media = media_buf_time b;
          (pkt, b) = take_picture (play_video_time now b) b;
          cbs = (case pkt of Some p \<Rightarrow> [OnNeedDecodeData p] | None \<Rightarrow> []);
          (b, cbs) = (if media \<le> 250
            then (b\<lparr>ply_status := PS_Cache, cache_time := cache_delta b * 1000,
                cache_delta := (if cache_delta b < 16 then cache_delta b * 2 else cache_delta b),
                rtmp_cache_time := now' + word_of_int (cache_delta b * 1000)\<rparr>, cbs @ [OnPause])
            else (b, cbs))
      in (b\<lparr>buf_cache_time := sint media\<rparr>, cbs))"

definition decode_cache :: "u32 \<Rightarrow> u32 \<Rightarrow> ply_buffer \<Rightarrow> ply_buffer \<times> ply_callback list" where
  "decode_cache now now' b =
     (if rtmp_cache_time b \<le> now
      then let media = media_buf_time b;
          (b, cbs) = (if media \<ge> word_of_int (cache_time b - 250)
            then (b\<lparr>ply_status := PS_Normal, cache_delta := (if cache_delta b = 16 then 8 else cache_delta b)\<rparr>, [OnPlay])
            else (b\<lparr>rtmp_cache_time := now' + word_of_int (cache_time b)\<rparr>, []));
          b = (if got_audio b then b else b\<lparr>sys_fast_video_time := sys_fast_video_time b + word_of_int (cache_time b)\<rparr>)
        in (b\<lparr>buf_cache_time := sint media\<rparr>, cbs)
      else (b, []))"

text \<open>A tick; the clock is read up to three times.\<close>

definition DoDecode :: "u32 \<Rightarrow> u32 \<Rightarrow> u32 \<Rightarrow> ply_buffer \<Rightarrow> ply_buffer \<times> ply_callback list" where
  "DoDecode t1 t2 t3 b =
     (if sys_fast_video_time b = 0 then (b, [])
      else (case ply_status b of PS_Fast \<Rightarrow> decode_fast t1 b | PS_Normal \<Rightarrow> decode_normal t1 t2 b | PS_Cache \<Rightarrow> decode_cache t2 t3 b))"

section \<open>The decoder\<close>

record player =
  playing :: bool
  ply_buf :: ply_buffer
  lst_h264_buffer :: "ply_packet list"
  aac_decoder :: bool
  audio_cache :: bytes
  aac_sample_hz :: u32
  aac_channels_n :: u8
  aac_frame_per10ms_size :: u32
  arrived :: "ply_packet list"
  taken :: "ply_packet list"
  decoded :: "ply_packet list"
  pcm_in :: bytes
  pcm_out :: bytes

definition per10ms :: "u32 \<Rightarrow> u8 \<Rightarrow> u32" where
  "per10ms hz channels = (hz div 100) * 2 * ucast channels"

definition new_player :: player where
  "new_player = \<lparr>playing = False, ply_buf = new_ply_buffer, lst_h264_buffer = [], aac_decoder = False, audio_cache = [],
     aac_sample_hz = 44100, aac_channels_n = 2, aac_frame_per10ms_size = per10ms 44100 2,
     arrived = [], taken = [], decoded = [], pcm_in = [], pcm_out = []\<rparr>"

definition IsPlaying :: "player \<Rightarrow> bool" where
  "IsPlaying s \<longleftrightarrow> ply_status (ply_buf s) \<noteq> PS_Cache"

definition AddH264Data :: "u32 \<Rightarrow> bytes \<Rightarrow> u32 \<Rightarrow> player \<Rightarrow> player" where
  "AddH264Data now data ts s = s\<lparr>ply_buf := CacheH264Data now data ts (ply_buf s),
     arrived := arrived s @ [\<lparr>pp_data = data, pp_video = True, pp_dts = ts\<rparr>]\<rparr>"

text \<open>Opening the sound decoder with the first frame: whether it worked, and what it found.\<close>

definition open_aac :: "bool \<Rightarrow> u8 \<Rightarrow> u32 \<Rightarrow> player \<Rightarrow> player" where
  "open_aac ok channels hz s =
     (let channels = (if channels = 0 then 1 else channels)
      in s\<lparr>aac_decoder := ok, aac_channels_n := channels, aac_sample_hz := hz, aac_frame_per10ms_size := per10ms hz channels\<rparr>)"

text \<open>The pieces of ten milliseconds, and what is left; a piece is only cut off when more than it is there.\<close>

function pcm_pieces :: "nat \<Rightarrow> bytes \<Rightarrow> bytes list \<times> bytes" where
  "pcm_pieces fsize cache =
     (if 0 < fsize \<and> fsize < length cache
      then (case pcm_pieces fsize (drop fsize cache) of (ps, rest) \<Rightarrow> (take fsize cache # ps, rest))
      else ([], cache))"
  by auto

termination
  by (relation "measure (\<lambda>(fsize, cache). length cache)") auto

declare pcm_pieces.simps [simp del]

text \<open>A decoded frame. It must fit behind what the cache of 8192 bytes holds; with a piece of no bytes the loop does not end.\<close>

definition decode_aac :: "u32 \<Rightarrow> bytes \<Rightarrow> u32 \<Rightarrow> player \<Rightarrow> player option" where
  "decode_aac now pcm ts s =
     (let fsize = unat (aac_frame_per10ms_size s); cache = audio_cache s @ pcm
      in if pcm = [] then Some s
         else if length cache > 8192 \<or> fsize = 0 then None
         else (case pcm_pieces fsize cache of (ps, rest) \<Rightarrow>
           Some (s\<lparr>audio_cache := rest, ply_buf := fold (\<lambda>p. CachePcmData now p ts) ps (ply_buf s), pcm_in := pcm_in s @ pcm\<rparr>)))"

definition AddAACData :: "bool \<times> u8 \<times> u32 \<Rightarrow> u32 \<Rightarrow> bytes \<Rightarrow> u32 \<Rightarrow> player \<Rightarrow> player option" where
  "AddAACData op now pcm ts s =
     (if aac_decoder s then decode_aac now pcm ts s else case op of (ok, channels, hz) \<Rightarrow> Some (open_aac ok channels hz s))"

text \<open>The sound device asks for sound, into a buffer of 1920 bytes.\<close>

definition GetPcmData :: "player \<Rightarrow> bytes \<times> player" where
  "GetPcmData s = (if playing s
     then (case GetPlayAudio (ply_buf s) of (pcm, b) \<Rightarrow> (pcm, s\<lparr>ply_buf := b, pcm_out := pcm_out s @ pcm\<rparr>)) else ([], s))"

definition NeedMorePlayData :: "player \<Rightarrow> player option" where
  "NeedMorePlayData s = (case GetPcmData s of (pcm, s) \<Rightarrow> if length pcm \<le> 1920 then Some s else None)"

definition key_picture :: "ply_packet \<Rightarrow> bool" where
  "key_picture p \<longleftrightarrow> pp_data p ! 4 AND 0x1f = 7"

text \<open>A picture that is due; a key frame throws away what waits for the decoder. The fifth byte is read whatever the length.\<close>

definition need_decode :: "ply_packet \<Rightarrow> player \<Rightarrow> player option" where
  "need_decode p s = need 5 (pp_data p)
     (Some (s\<lparr>taken := taken s @ [p], lst_h264_buffer := (if key_picture p then [] else lst_h264_buffer s) @ [p]\<rparr>))"

definition ply_call :: "ply_callback \<Rightarrow> player \<Rightarrow> player option" where
  "ply_call cb s = (case cb of OnPlay \<Rightarrow> Some (s\<lparr>playing := True\<rparr>) | OnPause \<Rightarrow> Some (s\<lparr>playing := False\<rparr>) | OnNeedDecodeData p \<Rightarrow> need_decode p s)"

fun ply_calls :: "ply_callback list \<Rightarrow> player \<Rightarrow> player option" where
  "ply_calls [] s = Some s"
| "ply_calls (cb # cbs) s = do { s \<leftarrow> ply_call cb s; ply_calls cbs s }"

definition play_tick :: "u32 \<Rightarrow> u32 \<Rightarrow> u32 \<Rightarrow> player \<Rightarrow> player option" where
  "play_tick t1 t2 t3 s = (case DoDecode t1 t2 t3 (ply_buf s) of (b, cbs) \<Rightarrow> ply_calls cbs (s\<lparr>ply_buf := b\<rparr>))"

definition decode_picture :: "player \<Rightarrow> player" where
  "decode_picture s = (case lst_h264_buffer s of [] \<Rightarrow> s | p # ps \<Rightarrow> s\<lparr>lst_h264_buffer := ps, decoded := decoded s @ [p]\<rparr>)"

section \<open>Interleaving\<close>

datatype player_event = Picture u32 bytes u32 | Sound "bool \<times> u8 \<times> u32" u32 bytes u32 | Tick u32 u32 u32 | Decode | Device

definition player_step :: "player \<Rightarrow> player_event \<Rightarrow> player option" where
  "player_step s e = (case e of
     Picture now data ts \<Rightarrow> Some (AddH264Data now data ts s)
   | Sound op now pcm ts \<Rightarrow> AddAACData op now pcm ts s
   | Tick t1 t2 t3 \<Rightarrow> play_tick t1 t2 t3 s
   | Decode \<Rightarrow> Some (decode_picture s)
   | Device \<Rightarrow> NeedMorePlayData s)"

end
