(* ===== verification/Player_Laws.thy ===== *)
theory Player_Laws
  imports Player
begin

text \<open>What the player promises: memory safety, complete sound, pictures without gaps between key frames, and when it stalls.\<close>

section \<open>Pictures without gaps\<close>

text \<open>\<open>ys\<close> is decoded of \<open>xs\<close>: nothing is left out but what stands before a key frame.\<close>

inductive skips_to_key :: "ply_packet list \<Rightarrow> ply_packet list \<Rightarrow> bool" where
  none: "skips_to_key [] []"
| next_one: "skips_to_key xs ys \<Longrightarrow> skips_to_key (xs @ [p]) (ys @ [p])"
| key: "skips_to_key xs (ys @ zs) \<Longrightarrow> key_picture p \<Longrightarrow> skips_to_key (xs @ [p]) (ys @ [p])"

text \<open>Two pictures decoded one after the other arrived one after the other, unless the second is a key frame.\<close>

definition continuous :: "ply_packet list \<Rightarrow> ply_packet list \<Rightarrow> bool" where
  "continuous xs ys \<longleftrightarrow> subseq ys xs \<and>
     (\<forall>ys1 a b ys2. ys = ys1 @ a # b # ys2 \<longrightarrow> \<not> key_picture b \<longrightarrow> (\<exists>xs1 xs2. xs = xs1 @ a # b # xs2))"

lemma skips_last: "skips_to_key xs ys \<Longrightarrow> ys \<noteq> [] \<Longrightarrow> \<exists>xs'. xs = xs' @ [last ys]"
  by (induction rule: skips_to_key.induct) auto

lemma skips_to_key_continuous: "skips_to_key xs ys \<Longrightarrow> continuous xs ys"
proof (induction rule: skips_to_key.induct)
  case none
  then show ?case
    by (simp add: continuous_def)
next
  case (next_one xs ys p)
  have "\<exists>xs1 xs2. xs @ [p] = xs1 @ a # b # xs2" if *: "ys @ [p] = ys1 @ a # b # ys2" "\<not> key_picture b" for ys1 a b ys2
  proof (cases ys2 rule: rev_cases)
    case Nil
    with *(1) have "ys = ys1 @ [a]" "b = p"
      by simp_all
    with skips_last [OF next_one(1)] obtain xs' where "xs @ [p] = xs' @ a # b # []"
      by auto
    then show ?thesis
      by blast
  next
    case (snoc ys' q)
    with *(1) have "ys = ys1 @ a # b # ys'"
      by simp
    with next_one(2) *(2) obtain xs1 xs2 where "xs = xs1 @ a # b # xs2"
      unfolding continuous_def by blast
    then show ?thesis
      by auto
  qed
  with next_one(2) show ?case
    unfolding continuous_def by simp
next
  case (key xs ys zs p)
  have "\<exists>xs1 xs2. xs @ [p] = xs1 @ a # b # xs2" if *: "ys @ [p] = ys1 @ a # b # ys2" "\<not> key_picture b" for ys1 a b ys2
  proof (cases ys2 rule: rev_cases)
    case Nil
    with * key(2) show ?thesis
      by simp
  next
    case (snoc ys' q)
    with *(1) have "ys @ zs = ys1 @ a # b # (ys' @ zs)"
      by simp
    with key(3) *(2) obtain xs1 xs2 where "xs = xs1 @ a # b # xs2"
      unfolding continuous_def by blast
    then show ?thesis
      by auto
  qed
  moreover have "subseq ys xs"
    using key(3) subseq_order.order_trans [of ys "ys @ zs" xs] by (simp add: continuous_def prefix_imp_subseq)
  ultimately show ?case
    unfolding continuous_def by simp
qed

section \<open>Sound\<close>

lemma pcm_pieces_concat: "pcm_pieces fsize cache = (ps, rest) \<Longrightarrow> concat ps @ rest = cache"
proof (induction fsize cache arbitrary: ps rest rule: pcm_pieces.induct)
  case (1 fsize cache)
  show ?case
  proof (cases "0 < fsize \<and> fsize < length cache")
    case True
    obtain qs r where "pcm_pieces fsize (drop fsize cache) = (qs, r)"
      by fastforce
    with 1 True show ?thesis
      by (auto simp: pcm_pieces.simps [of fsize cache])
  qed (use 1(2) in \<open>auto simp: pcm_pieces.simps [of fsize cache]\<close>)
qed

lemma pcm_pieces_size:
  "pcm_pieces fsize cache = (ps, rest) \<Longrightarrow> (\<forall>p \<in> set ps. length p = fsize) \<and> (0 < fsize \<longrightarrow> length rest \<le> fsize)"
proof (induction fsize cache arbitrary: ps rest rule: pcm_pieces.induct)
  case (1 fsize cache)
  show ?case
  proof (cases "0 < fsize \<and> fsize < length cache")
    case True
    obtain qs r where "pcm_pieces fsize (drop fsize cache) = (qs, r)"
      by fastforce
    with 1 True show ?thesis
      by (auto simp: pcm_pieces.simps [of fsize cache])
  qed (use 1(2) in \<open>auto simp: pcm_pieces.simps [of fsize cache]\<close>)
qed

lemma cache_pcm_fields [simp]:
  "lst_video_buffer (CachePcmData now d ts b) = lst_video_buffer b" "ply_status (CachePcmData now d ts b) = ply_status b"
  "cache_delta (CachePcmData now d ts b) = cache_delta b" "cache_time (CachePcmData now d ts b) = cache_time b"
  "map pp_data (lst_audio_buffer (CachePcmData now d ts b)) = map pp_data (lst_audio_buffer b) @ [d]"
  by (simp_all add: CachePcmData_def Let_def)

lemma cache_pcms_fields:
  defines "cache \<equiv> \<lambda>now ts ps b. fold (\<lambda>p. CachePcmData now p ts) ps b"
  shows "lst_video_buffer (cache now ts ps b) = lst_video_buffer b" "ply_status (cache now ts ps b) = ply_status b"
    "cache_delta (cache now ts ps b) = cache_delta b" "cache_time (cache now ts ps b) = cache_time b"
    "map pp_data (lst_audio_buffer (cache now ts ps b)) = map pp_data (lst_audio_buffer b) @ ps"
  unfolding cache_def by (induction ps arbitrary: b) simp_all

section \<open>The invariant\<close>

definition wait_ok :: "ply_buffer \<Rightarrow> bool" where
  "wait_ok b \<longleftrightarrow> cache_delta b \<in> {1, 2, 4, 8, 16} \<and> (ply_status b = PS_Cache \<longrightarrow> cache_time b \<in> {1000, 2000, 4000, 8000, 16000})"

definition pcm_ok :: "player \<Rightarrow> bool" where
  "pcm_ok s \<longleftrightarrow> pcm_out s @ concat (map pp_data (lst_audio_buffer (ply_buf s))) @ audio_cache s = pcm_in s \<and>
     (\<forall>p \<in> set (map pp_data (lst_audio_buffer (ply_buf s))). length p \<le> 1920) \<and> length (audio_cache s) \<le> 1920 \<and>
     (aac_decoder s \<longrightarrow> 0 < aac_frame_per10ms_size s \<and> unat (aac_frame_per10ms_size s) \<le> 1920)"

definition pictures_ok :: "player \<Rightarrow> bool" where
  "pictures_ok s \<longleftrightarrow> taken s @ lst_video_buffer (ply_buf s) = arrived s \<and> skips_to_key (taken s) (decoded s @ lst_h264_buffer s) \<and>
     (\<forall>p \<in> set (lst_video_buffer (ply_buf s)). 5 \<le> length (pp_data p))"

definition player_ok :: "player \<Rightarrow> bool" where
  "player_ok s \<longleftrightarrow> (playing s \<longleftrightarrow> ply_status (ply_buf s) = PS_Normal) \<and> wait_ok (ply_buf s) \<and> pcm_ok s \<and> pictures_ok s"

lemmas player_defs = player_ok_def wait_ok_def pcm_ok_def pictures_ok_def

lemma new_player_ok: "player_ok new_player"
  by (simp add: player_defs new_player_def new_ply_buffer_def none)

text \<open>What the events must be: pictures of five bytes, sound up to 48 kHz in two channels, frames of the decoder of up to 6272 bytes.\<close>

definition event_ok :: "player_event \<Rightarrow> bool" where
  "event_ok e = (case e of Picture now data ts \<Rightarrow> 5 \<le> length data
     | Sound (ok, channels, hz) now pcm ts \<Rightarrow> (ok \<longrightarrow> 100 \<le> hz \<and> hz \<le> 48000 \<and> channels \<le> 2) \<and> length pcm \<le> 6272
     | _ \<Rightarrow> True)"

lemma per10ms_range:
  assumes "100 \<le> hz" "hz \<le> 48000" "0 < channels" "channels \<le> 2"
  shows "0 < per10ms hz channels \<and> unat (per10ms hz channels) \<le> 1920"
proof -
  have "0 < unat channels" "unat channels \<le> 2"
    using assms(3,4) by (simp_all add: word_less_nat_alt word_le_nat_alt)
  then have c: "unat channels = 1 \<or> unat channels = 2"
    by linarith
  have hz: "100 \<le> unat hz" "unat hz \<le> 48000"
    using assms(1,2) by (simp_all add: word_le_nat_alt)
  have d: "unat (hz div 100) = unat hz div 100"
    by (simp add: unat_div_distrib)
  have "1 \<le> unat hz div 100" "unat hz div 100 \<le> 480"
    using hz by linarith+
  then have "unat (per10ms hz channels) = unat hz div 100 * 2 * unat channels"
    using c d by (auto simp: per10ms_def unat_word_ariths unsigned_ucast_eq)
  then show ?thesis
    using c \<open>1 \<le> unat hz div 100\<close> \<open>unat hz div 100 \<le> 480\<close> by (elim disjE) (simp_all add: word_less_nat_alt)
qed

lemma take_picture_fields:
  "take_picture time b = (pkt, b') \<Longrightarrow> ply_status b' = ply_status b \<and> cache_delta b' = cache_delta b \<and> cache_time b' = cache_time b \<and>
     lst_audio_buffer b' = lst_audio_buffer b \<and> lst_video_buffer b = (case pkt of None \<Rightarrow> [] | Some p \<Rightarrow> [p]) @ lst_video_buffer b'"
  by (auto simp: take_picture_def split: list.splits if_splits)

text \<open>The shapes of a tick: nothing; the start or a new start; a picture or none; and with it the end of playing.\<close>

lemma tick_shape:
  assumes "DoDecode t1 t2 t3 b = (b', cbs)" and "wait_ok b"
  shows "wait_ok b' \<and> lst_audio_buffer b' = lst_audio_buffer b \<and>
    (cbs = [] \<and> ply_status b' = ply_status b \<and> lst_video_buffer b' = lst_video_buffer b \<or>
     cbs = [OnPlay] \<and> ply_status b' = PS_Normal \<and> lst_video_buffer b' = lst_video_buffer b \<or>
     (\<exists>pkt. cbs = (case pkt of None \<Rightarrow> [] | Some p \<Rightarrow> [OnNeedDecodeData p]) \<and> ply_status b' = ply_status b \<and>
        lst_video_buffer b = (case pkt of None \<Rightarrow> [] | Some p \<Rightarrow> [p]) @ lst_video_buffer b') \<or>
     (\<exists>pkt. cbs = (case pkt of None \<Rightarrow> [] | Some p \<Rightarrow> [OnNeedDecodeData p]) @ [OnPause] \<and> ply_status b' = PS_Cache \<and>
        lst_video_buffer b = (case pkt of None \<Rightarrow> [] | Some p \<Rightarrow> [p]) @ lst_video_buffer b'))"
proof (cases "sys_fast_video_time b = 0")
  case True
  with assms show ?thesis
    by (auto simp: DoDecode_def)
next
  case started: False
  show ?thesis
  proof (cases "ply_status b")
    case PS_Fast
    with assms started show ?thesis
      by (auto simp: DoDecode_def decode_fast_def Let_def wait_ok_def split: list.splits if_splits)
  next
    case PS_Normal
    obtain pkt b1 where p: "take_picture (play_video_time t1 b) b = (pkt, b1)"
      by fastforce
    note f = take_picture_fields [OF p]
    let ?short = "media_buf_time b \<le> 250" and ?d = "case pkt of None \<Rightarrow> [] | Some p \<Rightarrow> [OnNeedDecodeData p]"
    have "(b', cbs) = decode_normal t1 t2 b"
      using assms(1) started PS_Normal by (simp add: DoDecode_def)
    then have r: "cbs = ?d @ (if ?short then [OnPause] else [])" "ply_status b' = (if ?short then PS_Cache else PS_Normal)"
      "lst_video_buffer b' = lst_video_buffer b1" "lst_audio_buffer b' = lst_audio_buffer b1"
      "cache_delta b' = (if ?short \<and> cache_delta b1 < 16 then cache_delta b1 * 2 else cache_delta b1)"
      "?short \<Longrightarrow> cache_time b' = cache_delta b1 * 1000"
      using f PS_Normal by (simp_all add: decode_normal_def p Let_def split: if_splits)
    have wait: "wait_ok b'"
      using assms(2) r f PS_Normal by (cases ?short) (auto simp: wait_ok_def)
    have v: "lst_video_buffer b = (case pkt of None \<Rightarrow> [] | Some p \<Rightarrow> [p]) @ lst_video_buffer b'"
      using f r(3) by simp
    have a: "lst_audio_buffer b' = lst_audio_buffer b"
      using f r(4) by simp
    show ?thesis
    proof (cases ?short)
      case True
      with r(1,2) have "cbs = ?d @ [OnPause]" "ply_status b' = PS_Cache"
        by simp_all
      with wait v a show ?thesis
        by blast
    next
      case False
      with r(1,2) PS_Normal have "cbs = ?d" "ply_status b' = ply_status b"
        by simp_all
      with wait v a show ?thesis
        by blast
    qed
  next
    case PS_Cache
    have run: "(b', cbs) = decode_cache t2 t3 b"
      using assms(1) started PS_Cache by (simp add: DoDecode_def)
    let ?wait = "rtmp_cache_time b \<le> t2" and ?full = "word_of_int (cache_time b - 250) \<le> media_buf_time b"
    have r: "cbs = (if ?wait \<and> ?full then [OnPlay] else [])" "ply_status b' = (if ?wait \<and> ?full then PS_Normal else PS_Cache)"
      "lst_video_buffer b' = lst_video_buffer b" "lst_audio_buffer b' = lst_audio_buffer b" "cache_time b' = cache_time b"
      "cache_delta b' = (if ?wait \<and> ?full \<and> cache_delta b = 16 then 8 else cache_delta b)"
      using run PS_Cache by (simp_all add: decode_cache_def Let_def split: if_splits)
    have "wait_ok b'"
      using assms(2) PS_Cache r(2,5,6) by (auto simp: wait_ok_def)
    with r(1-4) PS_Cache show ?thesis
      by (cases "?wait \<and> ?full") simp_all
  qed
qed

lemma need_decode_pictures:
  assumes "skips_to_key (taken s) (decoded s @ lst_h264_buffer s)" and "5 \<le> length (pp_data p)"
  shows "\<exists>L. need_decode p s = Some (s\<lparr>taken := taken s @ [p], lst_h264_buffer := L\<rparr>) \<and> skips_to_key (taken s @ [p]) (decoded s @ L)"
  using assms(2) skips_to_key.next_one [OF assms(1), of p] skips_to_key.key [OF assms(1), of p]
  by (auto simp: need_decode_def)

lemma ply_calls_append: "ply_calls (xs @ ys) s = do { s' \<leftarrow> ply_calls xs s; ply_calls ys s' }"
  by (induction xs arbitrary: s) (auto split: bind_splits)

lemma tick_ok:
  assumes "player_ok s"
  shows "\<exists>s'. play_tick t1 t2 t3 s = Some s' \<and> player_ok s'"
proof -
  obtain b cbs where d: "DoDecode t1 t2 t3 (ply_buf s) = (b, cbs)"
    by fastforce
  have "wait_ok (ply_buf s)"
    using assms by (simp add: player_ok_def)
  note sh = tick_shape [OF d this]
  let ?s = "s\<lparr>ply_buf := b\<rparr>"
  have picture: "\<exists>tk L. ply_calls (case pkt of None \<Rightarrow> [] | Some p \<Rightarrow> [OnNeedDecodeData p]) ?s =
      Some (?s\<lparr>taken := tk, lst_h264_buffer := L\<rparr>) \<and> pictures_ok (?s\<lparr>taken := tk, lst_h264_buffer := L\<rparr>)"
    if v: "lst_video_buffer (ply_buf s) = (case pkt of None \<Rightarrow> [] | Some p \<Rightarrow> [p]) @ lst_video_buffer b" for pkt
  proof (cases pkt)
    case None
    have "?s = ?s\<lparr>taken := taken s, lst_h264_buffer := lst_h264_buffer s\<rparr>"
      by simp
    with None v assms show ?thesis
      by (intro exI [of _ "taken s"] exI [of _ "lst_h264_buffer s"]) (simp add: player_ok_def pictures_ok_def)
  next
    case (Some p)
    have "skips_to_key (taken ?s) (decoded ?s @ lst_h264_buffer ?s)" "5 \<le> length (pp_data p)"
      using assms v Some by (simp_all add: player_ok_def pictures_ok_def)
    from need_decode_pictures [OF this] obtain L where
      "need_decode p ?s = Some (?s\<lparr>taken := taken s @ [p], lst_h264_buffer := L\<rparr>)" "skips_to_key (taken s @ [p]) (decoded s @ L)"
      by auto
    with assms v Some show ?thesis
      by (intro exI [of _ "taken s @ [p]"] exI [of _ L]) (simp add: ply_call_def player_ok_def pictures_ok_def)
  qed
  have pcm: "pcm_ok (?s\<lparr>playing := pl, taken := tk, lst_h264_buffer := h\<rparr>)" "pcm_ok (?s\<lparr>taken := tk, lst_h264_buffer := h\<rparr>)" for pl tk h
    using assms sh by (simp_all add: player_ok_def pcm_ok_def)
  show ?thesis
    using sh
  proof (elim conjE disjE exE)
    assume "cbs = []" "wait_ok b" "ply_status b = ply_status (ply_buf s)" "lst_video_buffer b = lst_video_buffer (ply_buf s)"
      "lst_audio_buffer b = lst_audio_buffer (ply_buf s)"
    with d assms show ?thesis
      by (simp add: play_tick_def player_defs)
  next
    assume "cbs = [OnPlay]" "wait_ok b" "ply_status b = PS_Normal" "lst_video_buffer b = lst_video_buffer (ply_buf s)"
      "lst_audio_buffer b = lst_audio_buffer (ply_buf s)"
    with d assms show ?thesis
      by (simp add: play_tick_def player_defs ply_call_def)
  next
    fix pkt
    assume *: "cbs = (case pkt of None \<Rightarrow> [] | Some p \<Rightarrow> [OnNeedDecodeData p])" "wait_ok b" "ply_status b = ply_status (ply_buf s)"
      "lst_video_buffer (ply_buf s) = (case pkt of None \<Rightarrow> [] | Some p \<Rightarrow> [p]) @ lst_video_buffer b"
    obtain tk L where "ply_calls cbs ?s = Some (?s\<lparr>taken := tk, lst_h264_buffer := L\<rparr>)" "pictures_ok (?s\<lparr>taken := tk, lst_h264_buffer := L\<rparr>)"
      using picture [OF *(4)] *(1) by blast
    with *(2,3) d assms pcm(2) show ?thesis
      by (simp add: play_tick_def player_ok_def)
  next
    fix pkt
    assume *: "cbs = (case pkt of None \<Rightarrow> [] | Some p \<Rightarrow> [OnNeedDecodeData p]) @ [OnPause]" "wait_ok b" "ply_status b = PS_Cache"
      "lst_video_buffer (ply_buf s) = (case pkt of None \<Rightarrow> [] | Some p \<Rightarrow> [p]) @ lst_video_buffer b"
    obtain tk L where t: "ply_calls (case pkt of None \<Rightarrow> [] | Some p \<Rightarrow> [OnNeedDecodeData p]) ?s = Some (?s\<lparr>taken := tk, lst_h264_buffer := L\<rparr>)"
        "pictures_ok (?s\<lparr>taken := tk, lst_h264_buffer := L\<rparr>)"
      using picture [OF *(4)] by blast
    then have "play_tick t1 t2 t3 s = Some (?s\<lparr>playing := False, taken := tk, lst_h264_buffer := L\<rparr>)"
      using d *(1) by (simp add: play_tick_def ply_calls_append ply_call_def)
    with t(2) *(2,3) pcm(1) show ?thesis
      by (simp add: player_ok_def pictures_ok_def)
  qed
qed

lemma sound_ok:
  assumes "player_ok s" and "event_ok (Sound op now pcm ts)"
  shows "\<exists>s'. AddAACData op now pcm ts s = Some s' \<and> player_ok s'"
proof (cases "aac_decoder s")
  case False
  obtain ok channels hz where op: "op = (ok, channels, hz)"
    by (cases op)
  let ?c = "if channels = 0 then 1 else channels"
  have "ok \<Longrightarrow> 0 < per10ms hz ?c \<and> unat (per10ms hz ?c) \<le> 1920"
    using assms(2) per10ms_range [of hz ?c] by (auto simp: event_ok_def op word_gt_0)
  with False assms(1) show ?thesis
    by (simp add: op AddAACData_def open_aac_def Let_def player_defs)
next
  case True
  let ?f = "unat (aac_frame_per10ms_size s)"
  obtain ps rest where pieces: "pcm_pieces ?f (audio_cache s @ pcm) = (ps, rest)"
    by fastforce
  have f: "0 < ?f" "?f \<le> 1920"
    using True assms(1) by (simp_all add: player_ok_def pcm_ok_def word_less_nat_alt)
  define b where "b = fold (\<lambda>p. CachePcmData now p ts) ps (ply_buf s)"
  note b = cache_pcms_fields [where now = now and ts = ts and ps = ps and b = "ply_buf s", folded b_def]
  show ?thesis
  proof (cases "pcm = []")
    case True
    with \<open>aac_decoder s\<close> assms(1) show ?thesis
      by (simp add: AddAACData_def decode_aac_def)
  next
    case False
    have "length (audio_cache s) + length pcm \<le> 8192"
      using assms by (simp add: player_ok_def pcm_ok_def event_ok_def split: prod.splits)
    with False f have run: "AddAACData op now pcm ts s =
        Some (s\<lparr>audio_cache := rest, ply_buf := b, pcm_in := pcm_in s @ pcm\<rparr>)"
      using \<open>aac_decoder s\<close> by (simp add: AddAACData_def decode_aac_def Let_def pieces b_def)
    have "pcm_ok (s\<lparr>audio_cache := rest, ply_buf := b, pcm_in := pcm_in s @ pcm\<rparr>)"
      using assms(1) pcm_pieces_concat [OF pieces] pcm_pieces_size [OF pieces] f b(5)
      by (auto simp: player_ok_def pcm_ok_def simp flip: set_map)
    with assms(1) b run show ?thesis
      by (simp add: player_ok_def wait_ok_def pictures_ok_def)
  qed
qed

lemma device_ok:
  assumes "player_ok s"
  shows "\<exists>s'. NeedMorePlayData s = Some s' \<and> player_ok s'"
proof (cases "playing s \<and> lst_audio_buffer (ply_buf s) \<noteq> []")
  case True
  then obtain p ps where "lst_audio_buffer (ply_buf s) = p # ps"
    by (cases "lst_audio_buffer (ply_buf s)") auto
  with True assms show ?thesis
    by (simp add: NeedMorePlayData_def GetPcmData_def GetPlayAudio_def player_ok_def wait_ok_def pcm_ok_def pictures_ok_def)
next
  case False
  with assms show ?thesis
    by (auto simp: NeedMorePlayData_def GetPcmData_def GetPlayAudio_def player_ok_def wait_ok_def pcm_ok_def pictures_ok_def)
qed

interpretation player_run: safe_step player_step player_ok event_ok
proof
  fix s e
  assume *: "player_ok s" "event_ok e"
  show "\<exists>s'. player_step s e = Some s' \<and> player_ok s'"
  proof (cases e)
    case (Picture now data ts)
    with * show ?thesis
      by (auto simp: player_step_def AddH264Data_def CacheH264Data_def Let_def event_ok_def player_ok_def wait_ok_def pcm_ok_def pictures_ok_def
          simp flip: append_assoc)
  next
    case (Sound op now pcm ts)
    with * sound_ok show ?thesis
      by (simp add: player_step_def)
  next
    case (Tick t1 t2 t3)
    with * tick_ok show ?thesis
      by (simp add: player_step_def)
  next
    case Decode
    with * show ?thesis
      by (auto simp: player_step_def decode_picture_def player_ok_def wait_ok_def pcm_ok_def pictures_ok_def split: list.split)
  next
    case Device
    with * device_ok show ?thesis
      by (simp add: player_step_def)
  qed
qed

section \<open>What the player promises\<close>

text \<open>C11. However pictures, sound, ticks, decoding and the sound device interleave, the player stays inside its buffers; the sound handed to
  the device, followed by what is buffered, is all the sound that was decoded, in order and without a gap; pictures are decoded in their
  order, and nothing is left out between a key frame and a picture decoded after it; and sound is played exactly while the buffer plays.\<close>

theorem player_complete:
  assumes "list_all event_ok es"
  shows "\<exists>s. run_partial player_step new_player es = Some s \<and>
    pcm_out s @ concat (map pp_data (lst_audio_buffer (ply_buf s))) @ audio_cache s = pcm_in s \<and>
    (\<exists>later. arrived s = taken s @ later \<and> continuous (taken s) (decoded s)) \<and>
    (playing s \<longleftrightarrow> ply_status (ply_buf s) = PS_Normal)"
proof -
  obtain s where run: "run_partial player_step new_player es = Some s" and ok: "player_ok s"
    using player_run.run_safe [OF new_player_ok assms] by blast
  have skips: "skips_to_key (taken s) (decoded s @ lst_h264_buffer s)"
    using ok by (simp add: player_ok_def pictures_ok_def)
  have "continuous (taken s) (decoded s)"
    unfolding continuous_def
  proof (intro conjI allI impI)
    have "subseq (decoded s @ lst_h264_buffer s) (taken s)"
      using skips_to_key_continuous [OF skips] by (simp add: continuous_def)
    then show "subseq (decoded s) (taken s)"
      using subseq_order.order_trans [of "decoded s" "decoded s @ lst_h264_buffer s" "taken s"] by (simp add: prefix_imp_subseq)
  next
    fix ys1 a b ys2
    assume "decoded s = ys1 @ a # b # ys2" "\<not> key_picture b"
    then have "decoded s @ lst_h264_buffer s = ys1 @ a # b # (ys2 @ lst_h264_buffer s)"
      by simp
    with skips_to_key_continuous [OF skips] \<open>\<not> key_picture b\<close> show "\<exists>xs1 xs2. taken s = xs1 @ a # b # xs2"
      unfolding continuous_def by blast
  qed
  with run ok show ?thesis
    by (auto simp: player_ok_def pcm_ok_def pictures_ok_def intro: sym)
qed

definition demo_player_events :: "player_event list" where
  "demo_player_events = [Picture 100 [0, 0, 0, 1, 0x67] 5, Sound (True, 1, 8000) 100 [] 5, Sound (True, 1, 8000) 101 (replicate 400 1) 6,
     Tick 1200 1200 1200, Tick 1205 1205 1205, Device, Decode]"

theorem player_complete_witness:
  "\<exists>s. run_partial player_step new_player demo_player_events = Some s \<and> continuous (taken s) (decoded s)"
  using player_complete [of demo_player_events] by (auto simp: demo_player_events_def event_ok_def)

text \<open>When the sound of a stream ends while its pictures go on, the player stops for good: with the sound played out, it never plays
  again, and no further picture goes to the decoder, however many arrive.\<close>

theorem sound_end_stalls:
  assumes "got_audio (ply_buf s)" and "lst_audio_buffer (ply_buf s) = []" and "ply_status (ply_buf s) = PS_Cache" and "\<not> playing s"
    and "wait_ok (ply_buf s)" and "list_all (\<lambda>e. case e of Sound op now pcm ts \<Rightarrow> False | _ \<Rightarrow> True) es"
  shows "\<exists>s'. run_partial player_step s es = Some s' \<and> ply_status (ply_buf s') = PS_Cache \<and> \<not> playing s' \<and> taken s' = taken s \<and>
    (\<exists>more. lst_video_buffer (ply_buf s') = lst_video_buffer (ply_buf s) @ more)"
  using assms
proof (induction es arbitrary: s)
  case (Cons e es)
  note p = Cons.prems
  have "\<exists>t. player_step s e = Some t \<and> got_audio (ply_buf t) \<and> lst_audio_buffer (ply_buf t) = [] \<and> ply_status (ply_buf t) = PS_Cache \<and>
      \<not> playing t \<and> wait_ok (ply_buf t) \<and> taken t = taken s \<and> (\<exists>more. lst_video_buffer (ply_buf t) = lst_video_buffer (ply_buf s) @ more)"
  proof (cases e)
    case (Picture now data ts)
    with p show ?thesis
      by (simp add: player_step_def AddH264Data_def CacheH264Data_def Let_def wait_ok_def)
  next
    case (Sound op now pcm ts)
    with p show ?thesis
      by simp
  next
    case (Tick t1 t2 t3)
    have media: "media_buf_time (ply_buf s) = 0"
      using p by (simp add: media_buf_time_def by_pictures_def time_span_def)
    have "cache_time (ply_buf s) \<in> {1000, 2000, 4000, 8000, 16000}"
      using p by (simp add: wait_ok_def)
    then have "\<not> word_of_int (cache_time (ply_buf s) - 250) \<le> (0 :: u32)"
      by auto
    with Tick p media show ?thesis
      by (auto simp: player_step_def play_tick_def DoDecode_def decode_cache_def Let_def wait_ok_def)
  next
    case Decode
    with p show ?thesis
      by (auto simp: player_step_def decode_picture_def split: list.split)
  next
    case Device
    with p show ?thesis
      by (simp add: player_step_def NeedMorePlayData_def GetPcmData_def)
  qed
  then obtain t where t: "player_step s e = Some t" "got_audio (ply_buf t)" "lst_audio_buffer (ply_buf t) = []"
      "ply_status (ply_buf t) = PS_Cache" "\<not> playing t" "wait_ok (ply_buf t)" "taken t = taken s"
      "\<exists>more. lst_video_buffer (ply_buf t) = lst_video_buffer (ply_buf s) @ more"
    by blast
  moreover have "list_all (\<lambda>e. case e of Sound op now pcm ts \<Rightarrow> False | _ \<Rightarrow> True) es"
    using p(6) by simp
  ultimately obtain s' where "run_partial player_step t es = Some s'" "ply_status (ply_buf s') = PS_Cache" "\<not> playing s'"
      "taken s' = taken t" "\<exists>more. lst_video_buffer (ply_buf s') = lst_video_buffer (ply_buf t) @ more"
    using Cons.IH [of t] by blast
  with t show ?case
    by auto
qed simp

definition sound_over :: player where
  "sound_over = new_player\<lparr>ply_buf := new_ply_buffer\<lparr>got_audio := True, cache_delta := 2, ply_status := PS_Cache, sys_fast_video_time := 9\<rparr>\<rparr>"

theorem sound_end_stalls_witness:
  "\<exists>s'. run_partial player_step sound_over [Picture 1500 [0, 0, 0, 1, 0x67] 5, Tick 1600 1600 1600, Picture 90000 [0, 0, 0, 1, 0x67] 88000,
     Tick 99000 99000 99000] = Some s' \<and> \<not> playing s' \<and> taken s' = []"
  using sound_end_stalls [of sound_over "[Picture 1500 [0, 0, 0, 1, 0x67] 5, Tick 1600 1600 1600, Picture 90000 [0, 0, 0, 1, 0x67] 88000,
     Tick 99000 99000 99000]"]
  by (auto simp: sound_over_def new_player_def new_ply_buffer_def wait_ok_def)

text \<open>Above 48 kHz in two channels a piece of ten milliseconds is longer than the device's buffer.\<close>

lemma fast_sound_overflows:
  "playing s \<Longrightarrow> lst_audio_buffer (ply_buf s) = p # ps \<Longrightarrow> 1920 < length (pp_data p) \<Longrightarrow> NeedMorePlayData s = None"
  by (simp add: NeedMorePlayData_def GetPcmData_def GetPlayAudio_def)

end
