(* ===== verification/Rtmp_Guest.thy ===== *)
theory Rtmp_Guest
  imports Rtmp_Play Player_Laws
begin

text \<open>
  The guest (\<open>AnyCore/anyrtmplayer.cc\<close>, \<open>AnyCore/RtmpGuesterImpl.cc\<close>), which joins the reader of \<open>Rtmp_Pull\<close> to
  the player of \<open>Player\<close>. Its operations post messages to a thread of its own; the reader's thread calls back, the decoder's thread
  renders. The renderer belongs to the guest; the decoder keeps a pointer to it. The sound decoder is the argument \<open>aac\<close>.
\<close>

section \<open>State\<close>

datatype ply_message = PLY_START | PLY_STOP | PLY_TICK

datatype guest_callback = OnRtmplayerOK | OnRtmplayerStatus int int | OnRtmplayerCache int | OnRtmplayerClose int

text \<open>\<open>renderer\<close> is the live renderer, \<open>player_renderer\<close> and \<open>decoder_renderer\<close> are pointers to one.\<close>

record guest =
  play_started :: bool
  renderer :: "nat option"
  next_renderer :: nat
  player_renderer :: "nat option"
  rtmp_pull :: "pull option"
  ply_decoder :: "player option"
  decoder_renderer :: "nat option"
  cur_bitrate :: int
  ply_messages :: "(nat \<times> ply_message) list"
  guest_callbacks :: "guest_callback list"

definition new_guest :: guest where
  "new_guest = \<lparr>play_started = False, renderer = None, next_renderer = 0, player_renderer = None, rtmp_pull = None, ply_decoder = None,
     decoder_renderer = None, cur_bitrate = 0, ply_messages = [], guest_callbacks = []\<rparr>"

definition guest_tell :: "guest_callback \<Rightarrow> guest \<Rightarrow> guest" where
  "guest_tell cb g = g\<lparr>guest_callbacks := guest_callbacks g @ [cb]\<rparr>"

definition ply_post :: "nat \<Rightarrow> ply_message \<Rightarrow> guest \<Rightarrow> guest" where
  "ply_post due m g = g\<lparr>ply_messages :=
     takeWhile (\<lambda>x. fst x \<le> due) (ply_messages g) @ (due, m) # dropWhile (\<lambda>x. fst x \<le> due) (ply_messages g)\<rparr>"

section \<open>The player object\<close>

definition StartPlay :: "nat \<Rightarrow> guest \<Rightarrow> guest" where
  "StartPlay now g = ply_post (now + 1000) PLY_TICK (ply_post now PLY_START g)"

definition StopPlay :: "nat \<Rightarrow> guest \<Rightarrow> guest" where
  "StopPlay now g = guest_tell (OnRtmplayerClose 0)
     (ply_post now PLY_STOP (g\<lparr>ply_messages := filter (\<lambda>x. snd x \<noteq> PLY_TICK) (ply_messages g)\<rparr>))"

definition ply_on_message :: "nat \<Rightarrow> ply_message \<Rightarrow> guest \<Rightarrow> guest" where
  "ply_on_message now m g = (case m of
     PLY_START \<Rightarrow>
       let g = (if ply_decoder g = None then g\<lparr>ply_decoder := Some new_player, decoder_renderer := player_renderer g\<rparr> else g)
       in if rtmp_pull g = None then g\<lparr>rtmp_pull := Some new_pull\<rparr> else g
   | PLY_STOP \<Rightarrow> g\<lparr>rtmp_pull := None, ply_decoder := None\<rparr>
   | PLY_TICK \<Rightarrow> ply_post (now + 1000) PLY_TICK (case ply_decoder g of None \<Rightarrow> g
       | Some d \<Rightarrow> if IsPlaying d then (guest_tell (OnRtmplayerStatus (buf_cache_time (ply_buf d)) (cur_bitrate g)) g)\<lparr>cur_bitrate := 0\<rparr>
           else guest_tell (OnRtmplayerCache (buf_cache_time (ply_buf d))) g))"

definition ply_handle :: "nat \<Rightarrow> guest \<Rightarrow> guest" where
  "ply_handle now g = (case ply_messages g of (due, m) # ms \<Rightarrow>
     if due \<le> now then ply_on_message now m (g\<lparr>ply_messages := ms\<rparr>) else g | [] \<Rightarrow> g)"

text \<open>The callbacks of the reader.\<close>

type_synonym aac = "bytes \<Rightarrow> (bool \<times> u8 \<times> u32) \<times> bytes"

definition on_pull :: "aac \<Rightarrow> nat \<Rightarrow> pull_callback \<Rightarrow> guest \<Rightarrow> guest option" where
  "on_pull aac now cb g = (case cb of
     OnRtmpullConnected \<Rightarrow> Some (guest_tell OnRtmplayerOK g)
   | OnRtmpullFailed \<Rightarrow> Some (guest_tell (OnRtmplayerClose (-1)) (StopPlay now g))
   | OnRtmpullDisconnect \<Rightarrow> Some (guest_tell (OnRtmplayerClose (-2)) (StopPlay now g))
   | OnRtmpullH264Data data ts \<Rightarrow> Some (g\<lparr>cur_bitrate := cur_bitrate g + int (length data),
       ply_decoder := map_option (AddH264Data (word_of_nat now) data ts) (ply_decoder g)\<rparr>)
   | OnRtmpullAACData data ts \<Rightarrow> (let g' = g\<lparr>cur_bitrate := cur_bitrate g + int (length data)\<rparr> in
       (case ply_decoder g of None \<Rightarrow> Some g'
        | Some d \<Rightarrow> (case aac data of (op, pcm) \<Rightarrow>
            map_option (\<lambda>d. g'\<lparr>ply_decoder := Some d\<rparr>) (AddAACData op (word_of_nat now) pcm ts d)))))"

fun on_pulls :: "aac \<Rightarrow> nat \<Rightarrow> pull_callback list \<Rightarrow> guest \<Rightarrow> guest option" where
  "on_pulls aac now [] g = Some g"
| "on_pulls aac now (cb # cbs) g = do { g \<leftarrow> on_pull aac now cb g; on_pulls aac now cbs g }"

text \<open>An iteration of the reader's thread and the callbacks it makes.\<close>

definition pull_round :: "srs \<Rightarrow> aac \<Rightarrow> nat \<Rightarrow> packet \<Rightarrow> guest \<Rightarrow> guest option" where
  "pull_round srs aac now pk g = (case rtmp_pull g of None \<Rightarrow> Some g
     | Some p \<Rightarrow> do {
         p' \<leftarrow> pull_iterate srs pk p;
         on_pulls aac now (drop (length (pull_callbacks p)) (pull_callbacks p')) (g\<lparr>rtmp_pull := Some p'\<rparr>) })"

definition GetNeedPlayAudio :: "guest \<Rightarrow> guest option" where
  "GetNeedPlayAudio g = (case ply_decoder g of None \<Rightarrow> Some g
     | Some d \<Rightarrow> map_option (\<lambda>d. g\<lparr>ply_decoder := Some d\<rparr>) (NeedMorePlayData d))"

text \<open>The decoder's thread renders a decoded picture, with a renderer that must be alive.\<close>

definition render_round :: "guest \<Rightarrow> guest option" where
  "render_round g = (case ply_decoder g of None \<Rightarrow> Some g
     | Some d \<Rightarrow> (case lst_h264_buffer d of [] \<Rightarrow> Some g
        | p # ps \<Rightarrow> if decoder_renderer g = None \<or> decoder_renderer g = renderer g
            then Some (g\<lparr>ply_decoder := Some (decode_picture d)\<rparr>) else None))"

section \<open>The guest\<close>

definition StartRtmpPlay :: "nat \<Rightarrow> guest \<Rightarrow> guest" where
  "StartRtmpPlay now g = (if play_started g then g
     else StartPlay now (g\<lparr>play_started := True, renderer := Some (next_renderer g), next_renderer := Suc (next_renderer g),
       player_renderer := Some (next_renderer g)\<rparr>))"

definition StopRtmpPlay :: "nat \<Rightarrow> guest \<Rightarrow> guest" where
  "StopRtmpPlay now g = (if play_started g then (StopPlay now (g\<lparr>play_started := False\<rparr>))\<lparr>renderer := None\<rparr> else g)"

text \<open>The destructor of the guest, and with it of the player object.\<close>

definition delete_guest :: "nat \<Rightarrow> guest \<Rightarrow> guest" where
  "delete_guest now g = (StopPlay now (StopRtmpPlay now g))\<lparr>ply_messages := [], rtmp_pull := None, ply_decoder := None, renderer := None\<rparr>"

section \<open>What goes wrong\<close>

lemma StopPlay_fields [simp]:
  "ply_decoder (StopPlay now g) = ply_decoder g" "decoder_renderer (StopPlay now g) = decoder_renderer g"
  "renderer (StopPlay now g) = renderer g" "guest_callbacks (StopPlay now g) = guest_callbacks g @ [OnRtmplayerClose 0]"
  by (simp_all add: StopPlay_def ply_post_def guest_tell_def)

text \<open>Stopping frees the renderer at once, but the decoder goes on until its thread handles the message: a picture that waits for the
  decoder when playing is stopped is rendered with a freed renderer.\<close>

theorem stop_renders_freed:
  assumes "play_started g" and "ply_decoder g = Some d" and "lst_h264_buffer d \<noteq> []" and "decoder_renderer g = Some r"
    and "renderer g = Some r"
  shows "render_round g \<noteq> None \<and> render_round (StopRtmpPlay now g) = None"
  using assms by (cases "lst_h264_buffer d") (simp_all add: render_round_def StopRtmpPlay_def)

theorem stop_renders_freed_witness:
  "\<exists>g. ply_decoder g \<noteq> None \<and> render_round (StopRtmpPlay 2000 g) = None"
proof -
  define g where "g = (ply_handle 1000 (StartRtmpPlay 1000 new_guest))\<lparr>ply_decoder :=
    Some (new_player\<lparr>lst_h264_buffer := [\<lparr>pp_data = [0, 0, 0, 1, 0x67], pp_video = True, pp_dts = 0\<rparr>]\<rparr>)\<rparr>"
  have "play_started g" "decoder_renderer g = Some 0" "renderer g = Some 0"
    by (simp_all add: g_def ply_handle_def StartRtmpPlay_def StartPlay_def ply_post_def ply_on_message_def new_guest_def)
  with stop_renders_freed [of g "new_player\<lparr>lst_h264_buffer := [\<lparr>pp_data = [0, 0, 0, 1, 0x67], pp_video = True, pp_dts = 0\<rparr>]\<rparr>" 0 2000]
  show ?thesis
    by (intro exI [of _ g]) (simp add: g_def)
qed

text \<open>A failed connection is reported twice: closed without an error, and closed with one.\<close>

lemma failure_reported_twice:
  "\<exists>g'. on_pull aac now OnRtmpullFailed g = Some g' \<and> guest_callbacks g' = guest_callbacks g @ [OnRtmplayerClose 0, OnRtmplayerClose (-1)]"
  by (simp add: on_pull_def guest_tell_def)

text \<open>Against a server that cannot be reached the guest tells the application that playing was closed without an error and, next, that
  it failed; it reports nothing before, and nothing after.\<close>

theorem unreachable_reported_twice:
  assumes "refuses_pull srs new_pull" and "rtmp_pull g = Some new_pull"
  shows "\<exists>g'. run_partial (\<lambda>g (now, pk). pull_round srs aac now pk g) g [c1, c2, c3, c4] = Some g' \<and>
    guest_callbacks g' = guest_callbacks g @ [OnRtmplayerClose 0, OnRtmplayerClose (-1)] \<and>
    (\<forall>c. (case c of (now, pk) \<Rightarrow> pull_round srs aac now pk g') = Some g')"
proof -
  obtain t1 k1 t2 k2 t3 k3 t4 k4 where c: "c1 = (t1, k1)" "c2 = (t2, k2)" "c3 = (t3, k3)" "c4 = (t4, k4)"
    by (cases c1; cases c2; cases c3; cases c4)
  have r: "srs h Srs_Handshake \<noteq> 0" for h
    using assms(1) by (simp add: refuses_pull_def)
  show ?thesis
    using assms(2) r
    by (simp add: c pull_round_def pull_iterate_def pull_call_def pull_disconnect_def new_pull_def Let_def on_pull_def guest_tell_def
        StopPlay_def ply_post_def)
qed

theorem unreachable_reported_twice_witness:
  "\<exists>g'. run_partial (\<lambda>g (now, pk). pull_round (\<lambda>_ _. -1) (\<lambda>_. ((True, 2, 44100), [])) now pk g)
      (new_guest\<lparr>rtmp_pull := Some new_pull\<rparr>) [(1, failed_read), (2, failed_read), (3, failed_read), (4, failed_read)] = Some g' \<and>
    guest_callbacks g' = [OnRtmplayerClose 0, OnRtmplayerClose (-1)]"
  using unreachable_reported_twice [of "\<lambda>_ _. -1" "new_guest\<lparr>rtmp_pull := Some new_pull\<rparr>" "\<lambda>_. ((True, 2, 44100), [])"
    "(1, failed_read)" "(2, failed_read)" "(3, failed_read)" "(4, failed_read)"]
  by (auto simp: refuses_pull_def new_pull_def new_guest_def)

end
