(* ===== verification/Srs_Chunk.thy ===== *)
theory Srs_Chunk
  imports Srs_Stream
begin

text \<open>
  The chunk stream of RTMP (\<open>SrsProtocol\<close>, \<open>SrsFastBuffer\<close> in \<open>AnyCore/srs_librtmp/srs_librtmp.cpp\<close>): messages are
  sent as chunks, each behind a header, and put together again from the chunks that arrive. What a socket does is an argument: the list of
  what its reads return, and a function from all that was written to the result of the last write. An operation gives an error code or a
  value, and the connection as it leaves it, which after an error is not as it was before.
\<close>

section \<open>Messages and connections\<close>

definition RTMP_EXTENDED_TIMESTAMP :: nat where
  "RTMP_EXTENDED_TIMESTAMP = 0xFFFFFF"

definition ERROR_SOCKET_READ :: int where
  "ERROR_SOCKET_READ = 1007"

definition ERROR_SOCKET_TIMEOUT :: int where
  "ERROR_SOCKET_TIMEOUT = 1011"

definition ERROR_READER_BUFFER_OVERFLOW :: int where
  "ERROR_READER_BUFFER_OVERFLOW = 1022"

definition ERROR_RTMP_CHUNK_START :: int where
  "ERROR_RTMP_CHUNK_START = 2001"

definition ERROR_RTMP_MESSAGE_DECODE :: int where
  "ERROR_RTMP_MESSAGE_DECODE = 2007"

definition ERROR_RTMP_MESSAGE_ENCODE :: int where
  "ERROR_RTMP_MESSAGE_ENCODE = 2008"

definition ERROR_RTMP_CHUNK_SIZE :: int where
  "ERROR_RTMP_CHUNK_SIZE = 2010"

definition ERROR_RTMP_PACKET_SIZE :: int where
  "ERROR_RTMP_PACKET_SIZE = 2013"

lemmas chunk_errors = ERROR_SOCKET_READ_def ERROR_SOCKET_TIMEOUT_def ERROR_READER_BUFFER_OVERFLOW_def ERROR_RTMP_CHUNK_START_def
  ERROR_RTMP_MESSAGE_DECODE_def ERROR_RTMP_MESSAGE_ENCODE_def ERROR_RTMP_CHUNK_SIZE_def ERROR_RTMP_PACKET_SIZE_def

record msg_header =
  timestamp_delta :: nat
  payload_length :: nat
  message_type :: u8
  stream_id :: u32
  timestamp :: int
  perfer_cid :: nat

definition new_header :: "nat \<Rightarrow> msg_header" where
  "new_header cid = \<lparr>timestamp_delta = 0, payload_length = 0, message_type = 0, stream_id = 0, timestamp = 0, perfer_cid = cid\<rparr>"

text \<open>A message and what has been received of its payload.\<close>

record common_msg =
  msg_header :: msg_header
  msg_payload :: bytes

record chunk_stream =
  cs_header :: msg_header
  extended_timestamp :: bool
  cs_msg :: "common_msg option"
  msg_count :: nat

definition new_chunk_stream :: "nat \<Rightarrow> chunk_stream" where
  "new_chunk_stream cid = \<lparr>cs_header = new_header cid, extended_timestamp = False, cs_msg = None, msg_count = 0\<rparr>"

datatype recv_result = Received bytes | TimedOut | Failed

type_synonym socket = "bytes list \<Rightarrow> int"

text \<open>
  The buffer is what was read from the socket and not yet consumed, \<open>unread\<close>, behind \<open>consumed\<close> bytes that were.
  \<open>cs_cache\<close> stands for the array and the map of chunk streams, which are made when they are first met; \<open>written\<close> is the
  history of the socket.
\<close>

record protocol =
  unread :: bytes
  consumed :: nat
  reads :: "recv_result list"
  recv_bytes :: nat
  in_chunk_size :: nat
  out_chunk_size :: nat
  cs_cache :: "nat \<Rightarrow> chunk_stream"
  ack_window_size :: int
  acked_size :: nat
  written :: "bytes list"

definition new_protocol :: "recv_result list \<Rightarrow> protocol" where
  "new_protocol rs = \<lparr>unread = [], consumed = 0, reads = rs, recv_bytes = 0, in_chunk_size = 128, out_chunk_size = 128,
     cs_cache = new_chunk_stream, ack_window_size = 0, acked_size = 0, written = []\<rparr>"

type_synonym 'a io = "protocol \<Rightarrow> (int + 'a) \<times> protocol"

definition and_then :: "'a io \<Rightarrow> ('a \<Rightarrow> 'b io) \<Rightarrow> 'b io" where
  "and_then m f p = (case m p of (Inl e, p) \<Rightarrow> (Inl e, p) | (Inr x, p) \<Rightarrow> f x p)"

section \<open>The buffer\<close>

definition nb_buffer :: nat where
  "nb_buffer = 131072"

text \<open>A read returns at most as many bytes as it is asked for; none at all means that the connection is closed.\<close>

fun srs_hijack_io_read :: "nat \<Rightarrow> recv_result list \<Rightarrow> (int + bytes) \<times> recv_result list" where
  "srs_hijack_io_read n [] = (Inl ERROR_SOCKET_READ, [])"
| "srs_hijack_io_read n (TimedOut # rs) = (Inl ERROR_SOCKET_TIMEOUT, rs)"
| "srs_hijack_io_read n (Failed # rs) = (Inl ERROR_SOCKET_READ, rs)"
| "srs_hijack_io_read n (Received bs # rs) =
     (if take n bs = [] then (Inl ERROR_SOCKET_READ, rs)
      else (Inr (take n bs), if drop n bs = [] then rs else Received (drop n bs) # rs))"

fun to_come :: "recv_result list \<Rightarrow> nat" where
  "to_come [] = 0"
| "to_come (Received bs # rs) = Suc (length bs) + to_come rs"
| "to_come (r # rs) = Suc (to_come rs)"

lemma read_to_come: "srs_hijack_io_read n rs = (Inr bs, rs') \<Longrightarrow> to_come rs' < to_come rs \<and> length bs + to_come rs' \<le> to_come rs \<and> bs \<noteq> []"
  by (induction n rs rule: srs_hijack_io_read.induct) (auto split: if_splits)

lemma read_error_to_come: "srs_hijack_io_read n rs = (Inl e, rs') \<Longrightarrow> to_come rs' \<le> to_come rs"
  by (induction n rs rule: srs_hijack_io_read.induct) (auto split: if_splits)

function fill :: "nat \<Rightarrow> unit io" where
  "fill n p =
     (if n \<le> length (unread p) then (Inr (), p)
      else (case srs_hijack_io_read (nb_buffer - (consumed p + length (unread p))) (reads p) of
          (Inl e, rs) \<Rightarrow> (Inl e, p\<lparr>reads := rs\<rparr>)
        | (Inr bs, rs) \<Rightarrow> fill n (p\<lparr>unread := unread p @ bs, reads := rs, recv_bytes := recv_bytes p + length bs\<rparr>)))"
  by auto

termination
  by (relation "measure (\<lambda>(n, p). to_come (reads p))") (auto dest: read_to_come [OF sym])

declare fill.simps [simp del]

definition grow :: "nat \<Rightarrow> unit io" where
  "grow n p =
     (if n \<le> length (unread p) then (Inr (), p)
      else if nb_buffer - (consumed p + length (unread p)) \<ge> n then fill n p
      else let p = p\<lparr>consumed := 0\<rparr> in
        if nb_buffer - length (unread p) < n then (Inl ERROR_READER_BUFFER_OVERFLOW, p) else fill n p)"

definition read_slice :: "nat \<Rightarrow> protocol \<Rightarrow> bytes \<times> protocol" where
  "read_slice n p = (take n (unread p), p\<lparr>unread := drop n (unread p), consumed := consumed p + n\<rparr>)"

definition receive :: "nat \<Rightarrow> bytes io" where
  "receive n = and_then (grow n) (\<lambda>_ p. apfst Inr (read_slice n p))"

section \<open>Reading chunks\<close>

text \<open>The format of a chunk and the number of its stream.\<close>

definition read_basic_header :: "(nat \<times> nat) io" where
  "read_basic_header = and_then (receive 1) (\<lambda>b.
     let fmt = unat (drop_bit 6 (b ! 0)); cid = unat (b ! 0 AND 0x3f)
     in if cid = 0 then and_then (receive 1) (\<lambda>b p. (Inr (fmt, 64 + unat (b ! 0)), p))
       else if cid = 1 then and_then (receive 2) (\<lambda>b p. (Inr (fmt, 64 + unat (b ! 0) + unat (b ! 1) * 256), p))
       else (\<lambda>p. (Inr (fmt, cid), p)))"

definition put_cs :: "nat \<Rightarrow> chunk_stream \<Rightarrow> protocol \<Rightarrow> protocol" where
  "put_cs cid cs p = p\<lparr>cs_cache := (cs_cache p)(cid := cs)\<rparr>"

definition mh_size :: "nat \<Rightarrow> nat" where
  "mh_size fmt = [11, 7, 3, 0] ! fmt"

text \<open>What a header of format \<open>fmt\<close> changes in its stream; what it changed before an error stays.\<close>

definition header_time :: "nat \<Rightarrow> bool \<Rightarrow> bytes \<Rightarrow> chunk_stream \<Rightarrow> chunk_stream" where
  "header_time fmt fresh h cs = (let mh = cs_header cs in
     if fmt \<le> 2
     then let delta = be (take 3 h); ext = (RTMP_EXTENDED_TIMESTAMP \<le> delta); mh = mh\<lparr>timestamp_delta := delta\<rparr>
       in cs\<lparr>extended_timestamp := ext, cs_header := (if ext then mh
         else if fmt = 0 then mh\<lparr>timestamp := int delta\<rparr> else mh\<lparr>timestamp := timestamp mh + int delta\<rparr>)\<rparr>
     else if fresh \<and> \<not> extended_timestamp cs
     then cs\<lparr>cs_header := mh\<lparr>timestamp := timestamp mh + int (timestamp_delta mh)\<rparr>\<rparr>
     else cs)"

definition header_message :: "nat \<Rightarrow> bool \<Rightarrow> bytes \<Rightarrow> chunk_stream \<Rightarrow> int \<times> chunk_stream" where
  "header_message fmt fresh h cs = (let mh = cs_header cs; len = be (take 3 (drop 3 h)) in
     if 1 < fmt then (0, cs)
     else if \<not> fresh \<and> payload_length mh \<noteq> len then (ERROR_RTMP_PACKET_SIZE, cs)
     else let mh = mh\<lparr>payload_length := len, message_type := h ! 6\<rparr>
       in (0, cs\<lparr>cs_header := (if fmt = 0 then mh\<lparr>stream_id := word_of_nat (be (rev (take 4 (drop 7 h))))\<rparr> else mh)\<rparr>))"

text \<open>The extended time of a continued message is put back into the buffer if it is not the time of the message.\<close>

definition read_extended :: "nat \<Rightarrow> bool \<Rightarrow> unit io" where
  "read_extended cid fresh p = (if \<not> extended_timestamp (cs_cache p cid) then (Inr (), p)
     else and_then (grow 4) (\<lambda>_ p.
       (case read_slice 4 p of (b, q) \<Rightarrow>
         let cs = cs_cache p cid; ts = be b mod 2 ^ 31; chunk_ts = timestamp (cs_header cs) mod 2 ^ 32
         in (Inr (), if \<not> fresh \<and> 0 < chunk_ts \<and> chunk_ts \<noteq> int ts then p
           else put_cs cid (cs\<lparr>cs_header := (cs_header cs)\<lparr>timestamp := int ts\<rparr>\<rparr>) q))) p)"

definition read_message_header :: "nat \<Rightarrow> nat \<Rightarrow> unit io" where
  "read_message_header cid fmt p =
     (let cs = cs_cache p cid; fresh = (cs_msg cs = None) in
      if msg_count cs = 0 \<and> fmt \<noteq> 0 \<and> \<not> (cid = 2 \<and> fmt = 1) \<or> \<not> fresh \<and> fmt = 0 then (Inl ERROR_RTMP_CHUNK_START, p)
      else and_then (\<lambda>p. receive (mh_size fmt) (if fresh then put_cs cid (cs\<lparr>cs_msg := Some \<lparr>msg_header = new_header 3, msg_payload = []\<rparr>\<rparr>) p else p)) (\<lambda>h p.
        (case header_message fmt fresh h (header_time fmt fresh h (cs_cache p cid)) of (ret, cs) \<Rightarrow>
          if ret \<noteq> 0 then (Inl ret, put_cs cid cs p)
          else and_then (read_extended cid fresh) (\<lambda>_ p.
            let cs = cs_cache p cid; mh = (cs_header cs)\<lparr>timestamp := timestamp (cs_header cs) mod 2 ^ 31\<rparr>
            in (Inr (), put_cs cid (cs\<lparr>cs_header := mh, msg_count := msg_count cs + 1,
              cs_msg := map_option (\<lambda>m. m\<lparr>msg_header := mh\<rparr>) (cs_msg cs)\<rparr>) p)) (put_cs cid cs p))) p)"

text \<open>A chunk of the payload; the message if that was the last.\<close>

definition read_message_payload :: "nat \<Rightarrow> common_msg option io" where
  "read_message_payload cid p =
     (let cs = cs_cache p cid; len = payload_length (cs_header cs) in
      (case cs_msg cs of None \<Rightarrow> (Inr None, p) | Some m \<Rightarrow>
        if len = 0 then (Inr (Some m), put_cs cid (cs\<lparr>cs_msg := None\<rparr>) p)
        else and_then (receive (min (len - length (msg_payload m)) (in_chunk_size p))) (\<lambda>b p.
          let m = m\<lparr>msg_payload := msg_payload m @ b\<rparr>
          in if length (msg_payload m) = len then (Inr (Some m), put_cs cid (cs\<lparr>cs_msg := None\<rparr>) p)
            else (Inr None, put_cs cid (cs\<lparr>cs_msg := Some m\<rparr>) p)) p))"

definition recv_interlaced_message :: "common_msg option io" where
  "recv_interlaced_message = and_then read_basic_header (\<lambda>(fmt, cid).
     and_then (read_message_header cid fmt) (\<lambda>_. read_message_payload cid))"

section \<open>Writing chunks\<close>

text \<open>No header is written into a cache that is too small for the largest one.\<close>

definition srs_chunk_header_c0 :: "nat \<Rightarrow> u32 \<Rightarrow> nat \<Rightarrow> u8 \<Rightarrow> u32 \<Rightarrow> nat \<Rightarrow> bytes" where
  "srs_chunk_header_c0 cid ts len t sid nb_cache =
     (if nb_cache < 16 then []
      else [word_of_nat cid AND 0x3f] @ be_bytes 3 (if unat ts < RTMP_EXTENDED_TIMESTAMP then unat ts else 0xFFFFFF) @
        be_bytes 3 len @ [t] @ rev (be_bytes 4 (unat sid)) @
        (if RTMP_EXTENDED_TIMESTAMP \<le> unat ts then be_bytes 4 (unat ts) else []))"

definition srs_chunk_header_c3 :: "nat \<Rightarrow> u32 \<Rightarrow> nat \<Rightarrow> bytes" where
  "srs_chunk_header_c3 cid ts nb_cache =
     (if nb_cache < 5 then []
      else [0xC0 OR (word_of_nat cid AND 0x3f)] @ (if RTMP_EXTENDED_TIMESTAMP \<le> unat ts then be_bytes 4 (unat ts) else []))"

definition chunk_header :: "common_msg \<Rightarrow> nat \<Rightarrow> bool \<Rightarrow> bytes" where
  "chunk_header m nb_cache c0 = (let mh = msg_header m in
     if c0 then srs_chunk_header_c0 (perfer_cid mh) (word_of_int (timestamp mh)) (payload_length mh) (message_type mh) (stream_id mh) nb_cache
     else srs_chunk_header_c3 (perfer_cid mh) (word_of_int (timestamp mh)) nb_cache)"

text \<open>Only the result of a write is looked at: one that takes a part of the bytes counts as complete, as in the code.\<close>

definition writev :: "socket \<Rightarrow> bytes list \<Rightarrow> unit io" where
  "writev sk iovs p = (let w = written p @ [concat iovs] in
     (if sk w = 0 then Inr () else Inl (sk w), p\<lparr>written := w\<rparr>))"

text \<open>At most \<open>limits\<close> pieces at a time.\<close>

definition limits :: nat where
  "limits = 1024"

function write_pieces :: "socket \<Rightarrow> bytes list \<Rightarrow> unit io" where
  "write_pieces sk iovs = (if iovs = [] then (\<lambda>p. (Inr (), p))
     else and_then (writev sk (take limits iovs)) (\<lambda>_. write_pieces sk (drop limits iovs)))"
  by auto

termination
  by (relation "measure (\<lambda>(sk, iovs). length iovs)") (auto simp: limits_def)

declare write_pieces.simps [simp del]

definition srs_write_large_iovs :: "socket \<Rightarrow> bytes list \<Rightarrow> unit io" where
  "srs_write_large_iovs sk iovs = (if length iovs < limits then writev sk iovs else write_pieces sk iovs)"

definition SRS_CONSTS_C0C3_HEADERS_MAX :: nat where
  "SRS_CONSTS_C0C3_HEADERS_MAX = 4096"

text \<open>
  The chunks of a message, collected with their headers until the cache of headers is nearly full: \<open>c0\<close> tells whether the next one is
  the first, \<open>used\<close> how much of the cache is taken. The client never sets a chunk size of 0, with which the loop would not end.
\<close>

function send_chunks :: "socket \<Rightarrow> common_msg \<Rightarrow> bool \<Rightarrow> bytes \<Rightarrow> nat \<Rightarrow> bytes list \<Rightarrow> unit io" where
  "send_chunks sk m c0 rest used iovs p =
     (if rest = [] \<or> out_chunk_size p = 0 then if iovs = [] then (Inr (), p) else srs_write_large_iovs sk iovs p
      else let h = chunk_header m (SRS_CONSTS_C0C3_HEADERS_MAX - used) c0; n = out_chunk_size p; used = used + length h;
            iovs = iovs @ [h, take n rest]
        in if SRS_CONSTS_C0C3_HEADERS_MAX - used < 16
          then (case srs_write_large_iovs sk iovs p of (Inl e, p) \<Rightarrow> (Inl e, p)
            | (Inr _, p) \<Rightarrow> send_chunks sk m False (drop n rest) 0 [] p)
          else send_chunks sk m False (drop n rest) used iovs p)"
  by auto

termination
  by (relation "measure (\<lambda>(sk, m, c0, rest, used, iovs, p). length rest)") (auto simp: Let_def)

declare send_chunks.simps [simp del]

definition do_send_message :: "socket \<Rightarrow> common_msg \<Rightarrow> unit io" where
  "do_send_message sk m p = send_chunks sk m True (msg_payload m) 0 [] p"

definition send_and_free_message :: "socket \<Rightarrow> common_msg \<Rightarrow> u32 \<Rightarrow> unit io" where
  "send_and_free_message sk m sid = (let mh = msg_header m in
     do_send_message sk (m\<lparr>msg_header := mh\<lparr>perfer_cid := (if perfer_cid mh < 2 then 2 else perfer_cid mh), stream_id := sid\<rparr>\<rparr>))"

text \<open>The simple way of the control messages: every chunk is written by itself.\<close>

function do_simple_send :: "socket \<Rightarrow> common_msg \<Rightarrow> bool \<Rightarrow> bytes \<Rightarrow> unit io" where
  "do_simple_send sk m c0 rest p =
     (if rest = [] \<or> out_chunk_size p = 0 then (Inr (), p)
      else let n = out_chunk_size p in
        (case writev sk [chunk_header m 16 c0, take n rest] p of (Inl e, p) \<Rightarrow> (Inl e, p)
          | (Inr _, p) \<Rightarrow> do_simple_send sk m False (drop n rest) p))"
  by auto

termination
  by (relation "measure (\<lambda>(sk, m, c0, rest, p). length rest)") (auto simp: Let_def)

declare do_simple_send.simps [simp del]

section \<open>Control messages\<close>

text \<open>A control message on its own chunk stream, without a time.\<close>

definition control_msg :: "u8 \<Rightarrow> bytes \<Rightarrow> common_msg" where
  "control_msg t b = \<lparr>msg_header = (new_header 2)\<lparr>payload_length := length b, message_type := t\<rparr>, msg_payload = b\<rparr>"

definition response_acknowledgement_message :: "socket \<Rightarrow> unit io" where
  "response_acknowledgement_message sk p =
     (let m = control_msg 3 (be_bytes 4 (recv_bytes p)) in do_simple_send sk m True (msg_payload m) (p\<lparr>acked_size := recv_bytes p\<rparr>))"

definition response_ping_message :: "socket \<Rightarrow> nat \<Rightarrow> unit io" where
  "response_ping_message sk ts = (let m = control_msg 4 (be_bytes 2 7 @ be_bytes 4 ts) in do_simple_send sk m True (msg_payload m))"

text \<open>The event of a user control message and the 32 bits of its data, which event \<open>SrsPCUCFmsEvent0\<close> gives as a signed byte; what is
  left is read for the length of a buffer only.\<close>

definition decode_user_control :: "bytes \<Rightarrow> int + nat \<times> nat" where
  "decode_user_control s =
     (if length s < 2 then Inl ERROR_RTMP_MESSAGE_DECODE
      else let ev = be (take 2 s); s = drop 2 s; n = (if ev = 0x1a then 1 else 4) in
        if length s < n then Inl ERROR_RTMP_MESSAGE_DECODE
        else if ev = 3 \<and> length (drop n s) < 4 then Inl ERROR_RTMP_MESSAGE_ENCODE
        else Inr (ev, if ev = 0x1a then unat (scast (word_of_nat (be (take n s)) :: u8) :: u32) else be (take n s)))"

definition acknowledge :: "socket \<Rightarrow> unit io" where
  "acknowledge sk p = (if ack_window_size p > 0 \<and> int (recv_bytes p) - int (acked_size p) > ack_window_size p
     then response_acknowledgement_message sk p else (Inr (), p))"

definition on_control_message :: "socket \<Rightarrow> common_msg \<Rightarrow> unit io" where
  "on_control_message sk m p = (let t = message_type (msg_header m); s = msg_payload m in
     if t = 1
     then if length s < 4 then (Inl ERROR_RTMP_MESSAGE_DECODE, p)
       else let n = signed_be 4 (be (take 4 s))
         in if n < 128 then (Inl ERROR_RTMP_CHUNK_SIZE, p) else (Inr (), p\<lparr>in_chunk_size := nat n\<rparr>)
     else if t = 5
     then if length s < 4 then (Inl ERROR_RTMP_MESSAGE_DECODE, p)
       else let n = signed_be 4 (be (take 4 s)) in (Inr (), if n > 0 then p\<lparr>ack_window_size := n\<rparr> else p)
     else if t = 4
     then (case decode_user_control s of Inl e \<Rightarrow> (Inl e, p)
       | Inr (ev, dat) \<Rightarrow> if ev = 6 then response_ping_message sk dat p else (Inr (), p))
     else (Inr (), p))"

definition on_recv_message :: "socket \<Rightarrow> common_msg \<Rightarrow> unit io" where
  "on_recv_message sk m = and_then (acknowledge sk) (\<lambda>_. on_control_message sk m)"

section \<open>Reading messages\<close>

lemma and_then_Inr: "and_then m f p = (Inr y, q) \<longleftrightarrow> (\<exists>x r. m p = (Inr x, r) \<and> f x r = (Inr y, q))"
  by (auto simp: and_then_def split: prod.splits sum.splits)

text \<open>What is left to be read never grows, and a chunk takes a part of it.\<close>

definition bytes_left :: "protocol \<Rightarrow> nat" where
  "bytes_left p = length (unread p) + to_come (reads p)"

lemma fill_left: "fill n p = (Inr u, q) \<Longrightarrow> bytes_left q \<le> bytes_left p \<and> n \<le> length (unread q)"
proof (induction n p rule: fill.induct)
  case (1 n p)
  show ?case
  proof (cases "n \<le> length (unread p)")
    case True
    with "1.prems" show ?thesis
      by (simp add: fill.simps [of n p])
  next
    case False
    with "1.prems" obtain bs rs where r: "srs_hijack_io_read (nb_buffer - (consumed p + length (unread p))) (reads p) = (Inr bs, rs)"
      "fill n (p\<lparr>unread := unread p @ bs, reads := rs, recv_bytes := recv_bytes p + length bs\<rparr>) = (Inr u, q)"
      by (auto simp: fill.simps [of n p] split: prod.splits sum.splits)
    from "1.IH" [OF False r(1) [symmetric] refl r(2)] read_to_come [OF r(1)] show ?thesis
      by (simp add: bytes_left_def)
  qed
qed

lemma grow_left: "grow n p = (Inr u, q) \<Longrightarrow> bytes_left q \<le> bytes_left p \<and> n \<le> length (unread q)"
  using fill_left [of n p u q] fill_left [of n "p\<lparr>consumed := 0\<rparr>" u q]
  by (auto simp: grow_def Let_def bytes_left_def split: if_splits)

lemma receive_left: "receive n p = (Inr b, q) \<Longrightarrow> bytes_left q + n \<le> bytes_left p"
  by (auto simp: receive_def and_then_Inr read_slice_def bytes_left_def dest!: grow_left)

lemma put_cs_left [simp]: "bytes_left (put_cs cid cs p) = bytes_left p"
  by (simp add: put_cs_def bytes_left_def)

lemma read_slice_left: "bytes_left (snd (read_slice n p)) \<le> bytes_left p"
  by (simp add: read_slice_def bytes_left_def)

lemma read_basic_header_left: "read_basic_header p = (Inr x, q) \<Longrightarrow> bytes_left q < bytes_left p"
  by (auto simp: read_basic_header_def and_then_Inr Let_def split: if_splits dest!: receive_left)

lemma read_extended_left: "read_extended cid fresh p = (Inr u, q) \<Longrightarrow> bytes_left q \<le> bytes_left p"
  by (auto simp: read_extended_def and_then_Inr Let_def read_slice_def bytes_left_def put_cs_def split: if_splits dest!: grow_left)

lemma read_message_header_left:
  assumes "read_message_header cid fmt p = (Inr u, q)"
  shows "bytes_left q \<le> bytes_left p"
proof -
  let ?fresh = "cs_msg (cs_cache p cid) = None"
  obtain p0 h r where r: "receive (mh_size fmt) p0 = (Inr h, r)" "bytes_left p0 = bytes_left p" and
    c: "(case header_message fmt ?fresh h (header_time fmt ?fresh h (cs_cache r cid)) of (ret, cs) \<Rightarrow>
          if ret \<noteq> 0 then (Inl ret, put_cs cid cs r)
          else and_then (read_extended cid ?fresh) (\<lambda>_ p.
            let cs = cs_cache p cid; mh = (cs_header cs)\<lparr>timestamp := timestamp (cs_header cs) mod 2 ^ 31\<rparr>
            in (Inr (), put_cs cid (cs\<lparr>cs_header := mh, msg_count := msg_count cs + 1,
              cs_msg := map_option (\<lambda>m. m\<lparr>msg_header := mh\<rparr>) (cs_msg cs)\<rparr>) p)) (put_cs cid cs r)) = (Inr u, q)"
    using assms by (fastforce simp: read_message_header_def and_then_Inr Let_def split: if_split_asm)
  obtain ret cs where "header_message fmt ?fresh h (header_time fmt ?fresh h (cs_cache r cid)) = (ret, cs)"
    by fastforce
  with c obtain r' where "read_extended cid ?fresh (put_cs cid cs r) = (Inr (), r')" "bytes_left q = bytes_left r'"
    by (auto simp: and_then_Inr Let_def split: if_split_asm)
  with r receive_left [OF r(1)] read_extended_left [of cid ?fresh "put_cs cid cs r"] show ?thesis
    by simp
qed

lemma read_message_payload_left: "read_message_payload cid p = (Inr u, q) \<Longrightarrow> bytes_left q \<le> bytes_left p"
  by (auto simp: read_message_payload_def and_then_Inr Let_def split: if_splits option.splits dest!: receive_left)

lemma recv_interlaced_message_left: "recv_interlaced_message p = (Inr m, q) \<Longrightarrow> bytes_left q < bytes_left p"
  by (auto simp: recv_interlaced_message_def and_then_Inr dest!: read_basic_header_left read_message_header_left read_message_payload_left)

function recv_message :: "socket \<Rightarrow> common_msg io" where
  "recv_message sk p = (case recv_interlaced_message p of
       (Inl e, q) \<Rightarrow> (Inl e, q)
     | (Inr None, q) \<Rightarrow> recv_message sk q
     | (Inr (Some m), q) \<Rightarrow> if msg_payload m = [] then recv_message sk q
         else and_then (on_recv_message sk m) (\<lambda>_ q. (Inr m, q)) q)"
  by auto

termination
  by (relation "measure (\<lambda>(sk, p). bytes_left p)") (auto dest: recv_interlaced_message_left [OF sym])

declare recv_message.simps [simp del]

end
