(* ===== verification/Srs_Writer.thy ===== *)
theory Srs_Writer
  imports Srs_Codec Rtmp_Nal
begin

text \<open>
  The multiplexer of the publisher (\<open>SrsRawH264Stream\<close>, \<open>SrsRawAacStream\<close> and the write functions in
  \<open>AnyCore/srs_librtmp/srs_librtmp.cpp\<close>): units behind a start code and ADTS frames become messages of the stream, with a sequence
  header before the first and whenever the parameter sets change. The result of sending a message is an argument, a function of the
  messages sent before; \<open>sent\<close> is their history.
\<close>

section \<open>State\<close>

record srs_context =
  h264_sps :: bytes
  h264_pps :: bytes
  h264_sps_pps_sent :: bool
  h264_sps_changed :: bool
  h264_pps_changed :: bool
  aac_specific_config :: bytes
  sent :: "packet list"

definition new_context :: srs_context where
  "new_context = \<lparr>h264_sps = [], h264_pps = [], h264_sps_pps_sent = False, h264_sps_changed = False, h264_pps_changed = False,
     aac_specific_config = [], sent = []\<rparr>"

type_synonym net = "packet list \<Rightarrow> packet \<Rightarrow> int"

definition ERROR_H264_API_NO_PREFIXED :: int where
  "ERROR_H264_API_NO_PREFIXED = 3041"

definition ERROR_H264_DROP_BEFORE_SPS_PPS :: int where
  "ERROR_H264_DROP_BEFORE_SPS_PPS = 3043"

definition ERROR_H264_DUPLICATED_SPS :: int where
  "ERROR_H264_DUPLICATED_SPS = 3044"

definition ERROR_H264_DUPLICATED_PPS :: int where
  "ERROR_H264_DUPLICATED_PPS = 3045"

definition ERROR_AAC_REQUIRED_ADTS :: int where
  "ERROR_AAC_REQUIRED_ADTS = 3046"

definition ERROR_AAC_ADTS_HEADER :: int where
  "ERROR_AAC_ADTS_HEADER = 3047"

definition ERROR_AAC_DATA_INVALID :: int where
  "ERROR_AAC_DATA_INVALID = 3048"

lemmas write_errors = ERROR_H264_API_NO_PREFIXED_def ERROR_H264_DROP_BEFORE_SPS_PPS_def ERROR_H264_DUPLICATED_SPS_def
  ERROR_H264_DUPLICATED_PPS_def ERROR_AAC_REQUIRED_ADTS_def ERROR_AAC_ADTS_HEADER_def ERROR_AAC_DATA_INVALID_def srs_errors

text \<open>A script message has no time.\<close>

definition srs_rtmp_create_msg :: "u8 \<Rightarrow> u32 \<Rightarrow> bytes \<Rightarrow> packet option" where
  "srs_rtmp_create_msg t ts data =
     (if t = 8 \<or> t = 9 then Some \<lparr>pk_type = t, pk_timestamp = ts, pk_data = data\<rparr>
      else if t = 18 then Some \<lparr>pk_type = t, pk_timestamp = 0, pk_data = data\<rparr>
      else None)"

definition srs_rtmp_write_packet :: "net \<Rightarrow> u8 \<Rightarrow> u32 \<Rightarrow> bytes \<Rightarrow> srs_context \<Rightarrow> int \<times> srs_context" where
  "srs_rtmp_write_packet net t ts data c = (case srs_rtmp_create_msg t ts data of None \<Rightarrow> (4024, c)
     | Some pk \<Rightarrow> (net (sent c) pk, c\<lparr>sent := sent c @ [pk]\<rparr>))"

section \<open>Pictures\<close>

text \<open>The header reads two bytes of the parameter set.\<close>

definition mux_avc_sequence_header :: "bytes \<Rightarrow> bytes \<Rightarrow> bytes option" where
  "mux_avc_sequence_header sps pps = need 4 sps (Some
     ([1, sps ! 1, 0, sps ! 3, 3] @ 1 # be_bytes 2 (length sps) @ sps @ 1 # be_bytes 2 (length pps) @ pps))"

definition mux_ipb_frame :: "bytes \<Rightarrow> bytes" where
  "mux_ipb_frame frame = be_bytes 4 (length frame) @ frame"

definition mux_avc2flv :: "bytes \<Rightarrow> u8 \<Rightarrow> u8 \<Rightarrow> u32 \<Rightarrow> u32 \<Rightarrow> bytes" where
  "mux_avc2flv video ft packet_type dts pts =
     [push_bit 4 ft OR 7, packet_type] @ be_bytes 3 (unat (pts - dts)) @ video"

definition srs_write_h264_ipb_frame :: "net \<Rightarrow> bytes \<Rightarrow> u32 \<Rightarrow> u32 \<Rightarrow> srs_context \<Rightarrow> int \<times> srs_context" where
  "srs_write_h264_ipb_frame net frame dts pts c =
     (if \<not> h264_sps_pps_sent c then (ERROR_H264_DROP_BEFORE_SPS_PPS, c)
      else srs_rtmp_write_packet net 9 dts (mux_avc2flv (mux_ipb_frame frame) (if nal_type (frame ! 0) = 5 then 1 else 2) 1 dts pts) c)"

definition srs_write_h264_sps_pps :: "net \<Rightarrow> u32 \<Rightarrow> u32 \<Rightarrow> srs_context \<Rightarrow> (int \<times> srs_context) option" where
  "srs_write_h264_sps_pps net dts pts c =
     (if \<not> h264_sps_changed c \<and> \<not> h264_pps_changed c then Some (0, c)
      else do {
        sh \<leftarrow> mux_avc_sequence_header (h264_sps c) (h264_pps c);
        Some (srs_rtmp_write_packet net 9 dts (mux_avc2flv sh 1 0 dts pts)
          (c\<lparr>h264_sps_changed := False, h264_pps_changed := False, h264_sps_pps_sent := True\<rparr>)) })"

definition sps_demux :: "bytes \<Rightarrow> bytes" where
  "sps_demux frame = (if length frame < 4 then [] else frame)"

definition srs_write_h264_raw_frame :: "net \<Rightarrow> bytes \<Rightarrow> u32 \<Rightarrow> u32 \<Rightarrow> srs_context \<Rightarrow> (int \<times> srs_context) option" where
  "srs_write_h264_raw_frame net frame dts pts c =
     (if frame = [] then Some (0, c)
      else let t = nal_type (frame ! 0) in
        if t = 7 then Some (if h264_sps c = sps_demux frame then (ERROR_H264_DUPLICATED_SPS, c)
          else (0, c\<lparr>h264_sps_changed := True, h264_sps := sps_demux frame\<rparr>))
        else if t = 8 then Some (if h264_pps c = frame then (ERROR_H264_DUPLICATED_PPS, c)
          else (0, c\<lparr>h264_pps_changed := True, h264_pps := frame\<rparr>))
        else if t \<noteq> 5 \<and> t \<noteq> 1 \<and> t \<noteq> 9 then Some (0, c)
        else do {
          (ret, c) \<leftarrow> srs_write_h264_sps_pps net dts pts c;
          Some (if ret \<noteq> 0 then (ret, c) else srs_write_h264_ipb_frame net frame dts pts c) })"

text \<open>All that stands behind the first start code is one unit.\<close>

definition annexb_demux_pri :: "bytes \<Rightarrow> bytes option" where
  "annexb_demux_pri s = map_option (\<lambda>n. drop n s) (startswith_annexb s)"

definition srs_h264_write_raw_frames :: "net \<Rightarrow> bytes \<Rightarrow> u32 \<Rightarrow> u32 \<Rightarrow> srs_context \<Rightarrow> (int \<times> srs_context) option" where
  "srs_h264_write_raw_frames net frames dts pts c =
     (if frames = [] then Some (ERROR_KERNEL_STREAM_INIT, c)
      else (case annexb_demux_pri frames of None \<Rightarrow> Some (ERROR_H264_API_NO_PREFIXED, c)
        | Some frame \<Rightarrow> if frame = [] then Some (0, c) else srs_write_h264_raw_frame net frame dts pts c))"

section \<open>Sound\<close>

text \<open>What a header says: object type, index of the sample rate, channels.\<close>

record raw_aac =
  ra_object :: int
  ra_rate :: u8
  ra_channels :: u8

text \<open>
  A frame behind its header, and what follows it; an error is its code. A length below the one of the header moves the stream back and
  asks for a negative number of bytes.
\<close>

definition adts_demux :: "bytes \<Rightarrow> (int + raw_aac \<times> bytes \<times> bytes) option" where
  "adts_demux s =
     (if length s < 7 then Some (Inl ERROR_AAC_ADTS_HEADER)
      else if \<not> startswith_adts s then Some (Inl ERROR_AAC_REQUIRED_ADTS)
      else let protection_absent = bit (s ! 1) 0;
          sfiv = (word_of_nat (be (take 2 (drop 2 s))) :: u16);
          abfv = (word_of_nat (be (take 3 (drop 4 s))) :: u32);
          frame_length = (push_bit 11 (ucast sfiv) AND 0x1800) OR (drop_bit 13 abfv AND 0x07ff);
          header = (if protection_absent then 7 else 9)
        in if length s < header then Some (Inl ERROR_AAC_ADTS_HEADER)
          else if unat frame_length < header then None
          else if length s < unat frame_length then Some (Inl ERROR_AAC_ADTS_HEADER)
          else Some (Inr (\<lparr>ra_object = srs_codec_aac_ts2rtmp (ucast (drop_bit 14 sfiv AND 3)), ra_rate = ucast (drop_bit 10 sfiv AND 0x0f),
              ra_channels = ucast (drop_bit 6 sfiv AND 7)\<rparr>,
            take (unat frame_length - header) (drop header s), drop (unat frame_length) s)))"

definition mux_aac_sequence_header :: "raw_aac \<Rightarrow> u8 \<Rightarrow> int + bytes" where
  "mux_aac_sequence_header codec sound_rate =
     (if ra_object codec = 0 then Inl ERROR_AAC_DATA_INVALID
      else let rate = (if sound_rate = 1 then 0x0a else if sound_rate = 2 then 0x07 else if sound_rate = 3 then 0x04 else ra_rate codec)
        in if rate = 0x0f then Inl ERROR_AAC_DATA_INVALID
          else Inr [(push_bit 3 (word_of_int (ra_object codec)) AND 0xf8) OR (drop_bit 1 rate AND 0x07),
            (push_bit 7 rate AND 0x80) OR (push_bit 3 (ra_channels codec) AND 0x78)])"

definition mux_aac2flv :: "bytes \<Rightarrow> u8 \<Rightarrow> u8 \<Rightarrow> u8 \<Rightarrow> u8 \<Rightarrow> u8 \<Rightarrow> bytes" where
  "mux_aac2flv frame sound_format sound_rate sound_size sound_type packet_type =
     [(sound_type AND 1) OR (push_bit 1 sound_size AND 2) OR (push_bit 2 sound_rate AND 0x0c) OR (push_bit 4 sound_format AND 0xf0)] @
     (if sound_format = 10 then [packet_type] else []) @ frame"

definition srs_write_audio_raw_frame ::
    "net \<Rightarrow> u8 \<Rightarrow> u8 \<Rightarrow> u8 \<Rightarrow> u8 \<Rightarrow> u8 \<Rightarrow> bytes \<Rightarrow> u32 \<Rightarrow> srs_context \<Rightarrow> int \<times> srs_context" where
  "srs_write_audio_raw_frame net fmt rate sz typ pt frame ts c = srs_rtmp_write_packet net 8 ts (mux_aac2flv frame fmt rate sz typ pt) c"

definition srs_write_aac_adts_frame ::
    "net \<Rightarrow> u8 \<Rightarrow> u8 \<Rightarrow> u8 \<Rightarrow> u8 \<Rightarrow> raw_aac \<Rightarrow> bytes \<Rightarrow> u32 \<Rightarrow> srs_context \<Rightarrow> int \<times> srs_context" where
  "srs_write_aac_adts_frame net fmt rate sz typ codec frame ts c =
     (if aac_specific_config c = []
      then (case mux_aac_sequence_header codec rate of Inl e \<Rightarrow> (e, c)
        | Inr sh \<Rightarrow> (case srs_write_audio_raw_frame net fmt rate sz typ 0 sh ts (c\<lparr>aac_specific_config := sh\<rparr>) of (ret, c) \<Rightarrow>
            if ret \<noteq> 0 then (ret, c) else srs_write_audio_raw_frame net fmt rate sz typ 1 frame ts c))
      else srs_write_audio_raw_frame net fmt rate sz typ 1 frame ts c)"

lemma adts_demux_rest: "adts_demux s = Some (Inr (codec, frame, rest)) \<Longrightarrow> length rest < length s"
  by (auto simp: adts_demux_def Let_def split: if_splits)

function srs_write_aac_adts_frames ::
    "net \<Rightarrow> u8 \<Rightarrow> u8 \<Rightarrow> u8 \<Rightarrow> u8 \<Rightarrow> bytes \<Rightarrow> u32 \<Rightarrow> srs_context \<Rightarrow> (int \<times> srs_context) option" where
  "srs_write_aac_adts_frames net fmt rate sz typ s ts c =
     (if s = [] then Some (0, c)
      else (case adts_demux s of None \<Rightarrow> None
        | Some (Inl e) \<Rightarrow> Some (e, c)
        | Some (Inr (codec, frame, rest)) \<Rightarrow> (case srs_write_aac_adts_frame net fmt rate sz typ codec frame ts c of (ret, c) \<Rightarrow>
            if ret \<noteq> 0 then Some (ret, c) else srs_write_aac_adts_frames net fmt rate sz typ rest ts c)))"
  by auto

termination
  by (relation "measure (\<lambda>(net, fmt, rate, sz, typ, s, ts, c). length s)") (auto dest: adts_demux_rest)

declare srs_write_aac_adts_frames.simps [simp del]

definition srs_audio_write_raw_frame ::
    "net \<Rightarrow> u8 \<Rightarrow> u8 \<Rightarrow> u8 \<Rightarrow> u8 \<Rightarrow> bytes \<Rightarrow> u32 \<Rightarrow> srs_context \<Rightarrow> (int \<times> srs_context) option" where
  "srs_audio_write_raw_frame net fmt rate sz typ frame ts c =
     (if fmt = 10
      then if \<not> startswith_adts frame then Some (ERROR_AAC_REQUIRED_ADTS, c) else srs_write_aac_adts_frames net fmt rate sz typ frame ts c
      else Some (srs_write_audio_raw_frame net fmt rate sz typ 0 frame ts c))"

end
