(* ===== verification/Srs_Client.thy ===== *)
theory Srs_Client
  imports Srs_Chunk Srs_Writer
begin

text \<open>
  The packets of the client over its connection (\<open>srs_rtmp_write_packet\<close>, \<open>srs_rtmp_read_packet\<close> in
  \<open>AnyCore/srs_librtmp/srs_librtmp.cpp\<close>): the message that is made of a packet, the packet that is made of a message, and the aggregate
  messages that are taken apart and kept for later.
\<close>

section \<open>Writing\<close>

text \<open>The chunk stream of a message follows from its type; a script message is sent without a time.\<close>

definition packet_cid :: "u8 \<Rightarrow> nat" where
  "packet_cid t = (if t = 8 then 7 else if t = 9 then 6 else 4)"

definition packet_msg :: "packet \<Rightarrow> u32 \<Rightarrow> common_msg" where
  "packet_msg pk sid = \<lparr>msg_header = \<lparr>timestamp_delta = 0, payload_length = length (pk_data pk), message_type = pk_type pk, stream_id = sid,
     timestamp = uint (pk_timestamp pk), perfer_cid = packet_cid (pk_type pk)\<rparr>, msg_payload = pk_data pk\<rparr>"

definition send_packet :: "socket \<Rightarrow> u32 \<Rightarrow> u8 \<Rightarrow> u32 \<Rightarrow> bytes \<Rightarrow> unit io" where
  "send_packet sk sid t ts data p = (case srs_rtmp_create_msg t ts data of None \<Rightarrow> (Inl 4024, p)
     | Some pk \<Rightarrow> send_and_free_message sk (packet_msg pk sid) sid p)"

section \<open>Aggregate messages\<close>

definition ERROR_RTMP_AGGREGATE :: int where
  "ERROR_RTMP_AGGREGATE = 2024"

definition int32 :: "int \<Rightarrow> int" where
  "int32 x = sint (word_of_int x :: u32)"

text \<open>A message in an aggregate: eleven bytes of header and the data. Its time is shifted by \<open>delta\<close>.\<close>

definition tag_size :: "bytes \<Rightarrow> nat" where
  "tag_size s = be (take 3 (drop 1 s))"

definition tag_time :: "bytes \<Rightarrow> int" where
  "tag_time s = int (be (take 3 (drop 4 s)) + unat (s ! 7) mod 128 * 2 ^ 24)"

definition tag_msg :: "msg_header \<Rightarrow> int \<Rightarrow> bytes \<Rightarrow> common_msg" where
  "tag_msg mh delta s = \<lparr>msg_header = \<lparr>timestamp_delta = unat (word_of_int (tag_time s + delta) :: u32), payload_length = tag_size s,
     message_type = s ! 0, stream_id = word_of_nat (be (take 3 (drop 8 s))), timestamp = int32 (tag_time s + delta),
     perfer_cid = perfer_cid mh\<rparr>, msg_payload = take (tag_size s) (drop 11 s)\<rparr>"

definition tag_delta :: "msg_header \<Rightarrow> int \<Rightarrow> bytes \<Rightarrow> int" where
  "tag_delta mh delta s = (if delta < 0 then int32 (timestamp mh) - tag_time s else delta)"

text \<open>
  The messages in \<open>s\<close>, behind those taken out before, with four bytes that are skipped behind each. \<open>delta\<close> is the difference
  to the time of the aggregate; it counts as not known while it is negative.
\<close>

function aggregate_msgs :: "msg_header \<Rightarrow> int \<Rightarrow> bytes \<Rightarrow> common_msg list \<Rightarrow> int \<times> common_msg list" where
  "aggregate_msgs mh delta s msgs =
     (if s = [] then (0, msgs)
      else if length s < 11 \<or> length s < tag_size s + 15 then (ERROR_RTMP_AGGREGATE, msgs)
      else aggregate_msgs mh (tag_delta mh delta s) (drop (tag_size s + 15) s) (msgs @ [tag_msg mh (tag_delta mh delta s) s]))"
  by auto

termination
  by (relation "measure (\<lambda>(mh, delta, s, msgs). length s)") (auto simp: Let_def)

declare aggregate_msgs.simps [simp del]

definition srs_rtmp_on_aggregate :: "common_msg \<Rightarrow> common_msg list \<Rightarrow> int \<times> common_msg list" where
  "srs_rtmp_on_aggregate m msgs =
     (if msg_payload m = [] then (ERROR_KERNEL_STREAM_INIT, msgs) else aggregate_msgs (msg_header m) (-1) (msg_payload m) msgs)"

section \<open>Reading\<close>

record client =
  cl_protocol :: protocol
  cl_msgs :: "common_msg list"

definition new_packet :: packet where
  "new_packet = \<lparr>pk_type = 0, pk_timestamp = 0, pk_data = []\<rparr>"

text \<open>The packet of a message, if it is not an aggregate.\<close>

definition srs_rtmp_go_packet :: "common_msg \<Rightarrow> client \<Rightarrow> int \<times> packet option \<times> client" where
  "srs_rtmp_go_packet m c =
     (let t = message_type (msg_header m); pk = new_packet\<lparr>pk_type := t, pk_data := msg_payload m\<rparr> in
      if t = 8 \<or> t = 9 then (0, Some (pk\<lparr>pk_timestamp := word_of_int (timestamp (msg_header m))\<rparr>), c)
      else if t = 18 \<or> t = 15 then (0, Some (pk\<lparr>pk_type := 18\<rparr>), c)
      else if t = 22 then (case srs_rtmp_on_aggregate m (cl_msgs c) of (ret, msgs) \<Rightarrow> (ret, None, c\<lparr>cl_msgs := msgs\<rparr>))
      else (0, Some pk, c))"

text \<open>Every step reads a chunk or makes the stored messages shorter.\<close>

definition stored :: "common_msg list \<Rightarrow> nat" where
  "stored msgs = sum_list (map (\<lambda>m. Suc (length (msg_payload m))) msgs)"

lemma aggregate_stored: "aggregate_msgs mh delta s msgs = (ret, msgs') \<Longrightarrow> stored msgs' \<le> stored msgs + length s"
proof (induction mh delta s msgs rule: aggregate_msgs.induct)
  case (1 mh delta s msgs)
  show ?case
  proof (cases "s = [] \<or> length s < 11 \<or> length s < tag_size s + 15")
    case True
    with "1.prems" show ?thesis
      by (auto simp: aggregate_msgs.simps [of mh delta s] split: if_split_asm)
  next
    case False
    with "1.prems" have "stored msgs' \<le> stored (msgs @ [tag_msg mh (tag_delta mh delta s) s]) + length (drop (tag_size s + 15) s)"
      using "1.IH" by (simp add: aggregate_msgs.simps [of mh delta s])
    with False show ?thesis
      by (simp add: stored_def tag_msg_def min_def split: if_split_asm)
  qed
qed

lemma go_packet_stored:
  assumes "srs_rtmp_go_packet m c = (ret, None, c')"
  shows "cl_protocol c' = cl_protocol c \<and> stored (cl_msgs c') \<le> stored (cl_msgs c) + length (msg_payload m)"
  using assms aggregate_stored [of "msg_header m" "-1" "msg_payload m" "cl_msgs c"]
  by (auto simp: srs_rtmp_go_packet_def srs_rtmp_on_aggregate_def Let_def split: if_split_asm prod.splits)

lemma writev_left [simp]: "writev sk iovs p = (r, q) \<Longrightarrow> bytes_left q = bytes_left p"
  by (auto simp: writev_def Let_def bytes_left_def)

lemma simple_send_left: "do_simple_send sk m c0 rest p = (r, q) \<Longrightarrow> bytes_left q = bytes_left p"
proof (induction sk m c0 rest p rule: do_simple_send.induct)
  case (1 sk m c0 rest p)
  show ?case
  proof (cases "rest = [] \<or> out_chunk_size p = 0")
    case False
    obtain w p' where w: "writev sk [chunk_header m 16 c0, take (out_chunk_size p) rest] p = (w, p')"
      by fastforce
    with False "1.prems" "1.IH" [OF False refl w [symmetric]] writev_left [OF w] show ?thesis
      by (auto simp: do_simple_send.simps [of sk m c0 rest p] Let_def split: sum.splits)
  qed (use "1.prems" in \<open>auto simp: do_simple_send.simps [of sk m c0 rest p]\<close>)
qed

lemma on_recv_message_left: "on_recv_message sk m p = (Inr u, q) \<Longrightarrow> bytes_left q = bytes_left p"
  by (auto simp: on_recv_message_def acknowledge_def on_control_message_def and_then_Inr response_acknowledgement_message_def response_ping_message_def Let_def bytes_left_def
      split: if_split_asm sum.splits dest!: simple_send_left)

lemma recv_message_left: "recv_message sk p = (Inr m, q) \<Longrightarrow> bytes_left q < bytes_left p"
proof (induction sk p rule: recv_message.induct)
  case (1 sk p)
  then show ?case
    by (auto simp: recv_message.simps [of sk p] and_then_Inr split: prod.splits sum.splits option.splits if_split_asm
        dest!: recv_interlaced_message_left on_recv_message_left) (blast intro: less_trans)+
qed

definition next_msg :: "socket \<Rightarrow> client \<Rightarrow> (int + common_msg) \<times> client" where
  "next_msg sk c = (case cl_msgs c of m # msgs \<Rightarrow> (Inr m, c\<lparr>cl_msgs := msgs\<rparr>)
     | [] \<Rightarrow> (case recv_message sk (cl_protocol c) of (r, p) \<Rightarrow> (r, c\<lparr>cl_protocol := p\<rparr>)))"

lemma next_msg_left:
  assumes "next_msg sk c = (Inr m, c')"
  shows "bytes_left (cl_protocol c') < bytes_left (cl_protocol c) \<or>
    cl_protocol c' = cl_protocol c \<and> stored (cl_msgs c') + length (msg_payload m) < stored (cl_msgs c)"
  using assms by (auto simp: next_msg_def stored_def split: list.splits prod.splits dest: recv_message_left)

text \<open>The next packet, or an error and a packet of type 0.\<close>

function srs_rtmp_read_packet :: "socket \<Rightarrow> client \<Rightarrow> int \<times> packet \<times> client" where
  "srs_rtmp_read_packet sk c = (case next_msg sk c of
       (Inl e, c) \<Rightarrow> (e, new_packet, c)
     | (Inr m, c) \<Rightarrow> (case srs_rtmp_go_packet m c of
           (ret, Some pk, c) \<Rightarrow> (ret, pk, c)
         | (ret, None, c) \<Rightarrow> if ret \<noteq> 0 then (ret, new_packet, c) else srs_rtmp_read_packet sk c))"
  by auto

termination
proof (relation "measures [\<lambda>(sk, c). bytes_left (cl_protocol c), \<lambda>(sk, c). stored (cl_msgs c)]")
  fix sk :: socket and c :: client and r c1 m g ret pk x c2
  assume n: "(r, c1) = next_msg sk c" "r = Inr m" and g: "(ret, x) = srs_rtmp_go_packet m c1" "(pk, c2) = x" "pk = None"
  from n next_msg_left [of sk c m c1] go_packet_stored [of m c1 ret c2] g
  show "((sk, c2), (sk, c)) \<in> measures [\<lambda>(sk, c). bytes_left (cl_protocol c), \<lambda>(sk, c). stored (cl_msgs c)]"
    by auto
qed simp

declare srs_rtmp_read_packet.simps [simp del]

end
