(* ===== verification/Srs_Wire.thy ===== *)
theory Srs_Wire
  imports Srs_Client
begin

text \<open>
  What is written as chunks is read as the messages it was made of, however the socket cuts the bytes into reads.
\<close>

section \<open>Writing\<close>

text \<open>The bytes of the chunks of a message.\<close>

function wire :: "nat \<Rightarrow> common_msg \<Rightarrow> bool \<Rightarrow> bytes \<Rightarrow> bytes" where
  "wire n m c0 rest = (if rest = [] \<or> n = 0 then [] else chunk_header m 16 c0 @ take n rest @ wire n m False (drop n rest))"
  by auto

termination
  by (relation "measure (\<lambda>(n, m, c0, rest). length rest)") auto

declare wire.simps [simp del]

abbreviation accepts :: socket where
  "accepts \<equiv> \<lambda>_. 0"

lemma chunk_header_cache: "16 \<le> n \<Longrightarrow> chunk_header m n c0 = chunk_header m 16 c0"
  by (simp add: chunk_header_def srs_chunk_header_c0_def srs_chunk_header_c3_def Let_def)

lemma write_pieces_accepts:
  "\<exists>w. write_pieces accepts iovs p = (Inr (), p\<lparr>written := written p @ w\<rparr>) \<and> concat w = concat iovs"
proof (induction "accepts" iovs arbitrary: p rule: write_pieces.induct)
  case (1 iovs)
  show ?case
  proof (cases "iovs = []")
    case True
    then show ?thesis
      by (intro exI [of _ "[]"]) (simp add: write_pieces.simps)
  next
    case False
    let ?q = "p\<lparr>written := written p @ [concat (take limits iovs)]\<rparr>"
    from 1 [OF False, of ?q] obtain w where
      w: "write_pieces accepts (drop limits iovs) ?q = (Inr (), ?q\<lparr>written := written ?q @ w\<rparr>)" "concat w = concat (drop limits iovs)"
      by blast
    have "concat (take limits iovs) @ concat (drop limits iovs) = concat iovs"
      by (metis append_take_drop_id concat_append)
    with w False show ?thesis
      by (intro exI [of _ "concat (take limits iovs) # w"]) (simp add: write_pieces.simps [of _ iovs] and_then_def writev_def)
  qed
qed

lemma large_iovs_accepts:
  "\<exists>w. srs_write_large_iovs accepts iovs p = (Inr (), p\<lparr>written := written p @ w\<rparr>) \<and> concat w = concat iovs"
  using write_pieces_accepts [of iovs p]
  by (cases "length iovs < limits") (auto simp: srs_write_large_iovs_def writev_def intro: exI [of _ "[concat iovs]"])

lemma send_chunks_accepts:
  assumes "16 \<le> SRS_CONSTS_C0C3_HEADERS_MAX - used"
  shows "\<exists>w. send_chunks accepts m c0 rest used iovs p = (Inr (), p\<lparr>written := written p @ w\<rparr>) \<and>
    concat w = concat iovs @ wire (out_chunk_size p) m c0 rest"
  using assms
proof (induction "accepts" m c0 rest used iovs p rule: send_chunks.induct)
  case (1 m c0 rest used iovs p)
  show ?case
  proof (cases "rest = [] \<or> out_chunk_size p = 0")
    case True
    then have none: "wire (out_chunk_size p) m c0 rest = []"
      by (simp add: wire.simps)
    show ?thesis
    proof (cases "iovs = []")
      case True
      then show ?thesis
        using \<open>rest = [] \<or> out_chunk_size p = 0\<close> none by (intro exI [of _ "[]"]) (simp add: send_chunks.simps)
    next
      case False
      with True none large_iovs_accepts [of iovs p] show ?thesis
        by (auto simp: send_chunks.simps [of _ m c0 rest])
    qed
  next
    case False
    let ?h = "chunk_header m 16 c0" and ?n = "out_chunk_size p"
    let ?iovs = "iovs @ [?h, take ?n rest]"
    have h: "chunk_header m (SRS_CONSTS_C0C3_HEADERS_MAX - used) c0 = ?h"
      using "1.prems" by (rule chunk_header_cache)
    have w: "wire ?n m c0 rest = ?h @ take ?n rest @ wire ?n m False (drop ?n rest)"
      using False by (simp add: wire.simps [of _ m c0])
    show ?thesis
    proof (cases "SRS_CONSTS_C0C3_HEADERS_MAX - (used + length ?h) < 16")
      case True
      obtain w1 where w1: "srs_write_large_iovs accepts ?iovs p = (Inr (), p\<lparr>written := written p @ w1\<rparr>)" "concat w1 = concat ?iovs"
        using large_iovs_accepts by blast
      let ?q = "p\<lparr>written := written p @ w1\<rparr>"
      have "16 \<le> SRS_CONSTS_C0C3_HEADERS_MAX - 0"
        by (simp add: SRS_CONSTS_C0C3_HEADERS_MAX_def)
      from "1.hyps"(1) [OF False refl refl refl refl _ _ _ this, unfolded h, OF True w1(1) [symmetric] refl]
      obtain w2 where "send_chunks accepts m False (drop ?n rest) 0 [] ?q = (Inr (), ?q\<lparr>written := written ?q @ w2\<rparr>)"
        "concat w2 = concat [] @ wire (out_chunk_size ?q) m False (drop ?n rest)"
        by auto
      with w1 w False True h show ?thesis
        by (intro exI [of _ "w1 @ w2"]) (simp add: send_chunks.simps [of _ m c0 rest] Let_def)
    next
      case less: False
      then have "16 \<le> SRS_CONSTS_C0C3_HEADERS_MAX - (used + length ?h)"
        by simp
      from "1.hyps"(2) [OF False refl refl refl refl, unfolded h, OF less this]
      obtain w2 where "send_chunks accepts m False (drop ?n rest) (used + length ?h) ?iovs p = (Inr (), p\<lparr>written := written p @ w2\<rparr>)"
        "concat w2 = concat ?iovs @ wire ?n m False (drop ?n rest)"
        by auto
      with w False less h show ?thesis
        by (intro exI [of _ w2]) (simp add: send_chunks.simps [of _ m c0 rest] Let_def)
    qed
  qed
qed

section \<open>Reading bytes\<close>

text \<open>The bytes that come before the first read that fails.\<close>

fun incoming :: "recv_result list \<Rightarrow> bytes" where
  "incoming (Received bs # rs) = (if bs = [] then [] else bs @ incoming rs)"
| "incoming _ = []"

text \<open>Reading leaves the other direction alone.\<close>

definition sent_side :: "protocol \<Rightarrow> nat \<times> bytes list" where
  "sent_side p = (out_chunk_size p, written p)"

definition keeps_side :: "'a io \<Rightarrow> bool" where
  "keeps_side m \<longleftrightarrow> (\<forall>p. sent_side (snd (m p)) = sent_side p)"

lemma keeps_sideI: "(\<And>p. sent_side (snd (m p)) = sent_side p) \<Longrightarrow> keeps_side m"
  by (simp add: keeps_side_def)

lemma side_then:
  assumes "keeps_side m" and "\<And>x q. sent_side (snd (f x q)) = sent_side q"
  shows "sent_side (snd (and_then m f p)) = sent_side p"
proof -
  obtain r q where "m p = (r, q)"
    by fastforce
  moreover from this have "sent_side q = sent_side p"
    using assms(1) unfolding keeps_side_def by (metis snd_conv)
  ultimately show ?thesis
    using assms(2) by (cases r) (simp_all add: and_then_def)
qed

lemma keeps_side_then: "keeps_side m \<Longrightarrow> (\<And>x. keeps_side (f x)) \<Longrightarrow> keeps_side (and_then m f)"
  using side_then [of m f] by (simp add: keeps_side_def)

lemma keeps_side_fill: "keeps_side (fill n)"
proof (rule keeps_sideI)
  show "sent_side (snd (fill n p)) = sent_side p" for p
  proof (induction n p rule: fill.induct)
    case (1 n p)
    then show ?case
      by (subst fill.simps) (auto simp: sent_side_def split: prod.splits sum.splits)
  qed
qed

lemma keeps_side_grow: "keeps_side (grow n)"
  using keeps_side_fill [of n] by (auto simp: keeps_side_def grow_def Let_def sent_side_def)

lemma keeps_side_receive: "keeps_side (receive n)"
  unfolding receive_def by (rule keeps_side_then [OF keeps_side_grow]) (simp add: keeps_side_def read_slice_def sent_side_def)

lemma keeps_side_value [simp]: "keeps_side (Pair x)" "keeps_side (\<lambda>p. (x, p))"
  by (simp_all add: keeps_side_def)

lemma side_put_cs [simp]: "sent_side (put_cs cid cs p) = sent_side p"
  by (simp add: put_cs_def sent_side_def)

lemma keeps_side_basic_header: "keeps_side read_basic_header"
  unfolding read_basic_header_def Let_def by (auto intro!: keeps_side_then keeps_side_receive)

lemma side_extended: "sent_side (snd (read_extended cid fresh p)) = sent_side p"
  unfolding read_extended_def
  by (cases "extended_timestamp (cs_cache p cid)", simp_all, rule side_then [OF keeps_side_grow])
    (simp add: read_slice_def Let_def, simp add: sent_side_def)

lemma side_message_header: "sent_side (snd (read_message_header cid fmt p)) = sent_side p"
proof -
  have "sent_side (snd (and_then (read_extended cid fresh) (\<lambda>_ p. let cs = cs_cache p cid;
      mh = (cs_header cs)\<lparr>timestamp := timestamp (cs_header cs) mod 2 ^ 31\<rparr> in (Inr (), put_cs cid (cs\<lparr>cs_header := mh, msg_count := msg_count cs + 1,
        cs_msg := map_option (\<lambda>m. m\<lparr>msg_header := mh\<rparr>) (cs_msg cs)\<rparr>) p)) q)) = sent_side q" for fresh q
    by (rule side_then) (simp_all add: keeps_side_def side_extended Let_def)
  then have "sent_side (snd (and_then (\<lambda>p. receive n (g p)) (\<lambda>h p. (case header_message fmt fresh h (header_time fmt fresh h (cs_cache p cid)) of (ret, cs) \<Rightarrow>
      if ret \<noteq> 0 then (Inl ret, put_cs cid cs p)
      else and_then (read_extended cid fresh) (\<lambda>_ p. let cs = cs_cache p cid;
        mh = (cs_header cs)\<lparr>timestamp := timestamp (cs_header cs) mod 2 ^ 31\<rparr> in (Inr (), put_cs cid (cs\<lparr>cs_header := mh, msg_count := msg_count cs + 1,
          cs_msg := map_option (\<lambda>m. m\<lparr>msg_header := mh\<rparr>) (cs_msg cs)\<rparr>) p)) (put_cs cid cs p))) p)) = sent_side p"
    if "\<And>p. sent_side (g p) = sent_side p" for n g fresh
    using that keeps_side_receive [of n] by (intro side_then) (auto simp: keeps_side_def split: prod.split)
  then show ?thesis
    by (simp add: read_message_header_def Let_def)
qed

lemma side_message_payload: "sent_side (snd (read_message_payload cid p)) = sent_side p"
  by (auto simp: read_message_payload_def Let_def split: option.split intro!: side_then [OF keeps_side_receive])

lemma side_interlaced: "sent_side (snd (recv_interlaced_message p)) = sent_side p"
  unfolding recv_interlaced_message_def
  by (rule side_then [OF keeps_side_basic_header]) (auto simp: keeps_side_def side_message_header side_message_payload intro!: side_then)

text \<open>A connection with \<open>s\<close> to read, the streams \<open>cs\<close> and chunks of \<open>n\<close> bytes.\<close>

definition reading :: "bytes \<Rightarrow> (nat \<Rightarrow> chunk_stream) \<Rightarrow> nat \<Rightarrow> protocol \<Rightarrow> bool" where
  "reading s cs n p \<longleftrightarrow> consumed p + length (unread p) \<le> nb_buffer \<and> unread p @ incoming (reads p) = s \<and> cs_cache p = cs \<and> in_chunk_size p = n"

lemma read_incoming:
  assumes "0 < n" and "incoming rs \<noteq> []"
  shows "\<exists>bs rs'. srs_hijack_io_read n rs = (Inr bs, rs') \<and> bs \<noteq> [] \<and> length bs \<le> n \<and> bs @ incoming rs' = incoming rs"
proof -
  obtain b bs rs' where rs: "rs = Received (b # bs) # rs'"
    using assms(2) by (cases rs rule: incoming.cases; cases "hd rs") (auto simp: neq_Nil_conv split: if_split_asm)
  obtain k where "n = Suc k"
    using assms(1) by (cases n) auto
  then show ?thesis
    using append_take_drop_id [of k bs] by (auto simp: rs)
qed

lemma fill_reading:
  assumes "reading s cs n p" and "consumed p + k \<le> nb_buffer" and "k \<le> length s"
  shows "\<exists>q. fill k p = (Inr (), q) \<and> reading s cs n q \<and> k \<le> length (unread q)"
  using assms
proof (induction k p rule: fill.induct)
  case (1 k p)
  show ?case
  proof (cases "k \<le> length (unread p)")
    case True
    with "1.prems" show ?thesis
      by (auto simp: fill.simps [of k p])
  next
    case False
    let ?f = "nb_buffer - (consumed p + length (unread p))"
    have "0 < ?f" "incoming (reads p) \<noteq> []"
      using False "1.prems" by (auto simp: reading_def)
    then obtain bs rs where r: "srs_hijack_io_read ?f (reads p) = (Inr bs, rs)" "bs \<noteq> []" "length bs \<le> ?f" "bs @ incoming rs = incoming (reads p)"
      using read_incoming by blast
    let ?q = "p\<lparr>unread := unread p @ bs, reads := rs, recv_bytes := recv_bytes p + length bs\<rparr>"
    have "reading s cs n ?q"
      using "1.prems"(1) r(3,4) by (auto simp: reading_def)
    with "1.IH" [OF False r(1) [symmetric] refl] "1.prems"(2,3) False r(1) show ?thesis
      by (auto simp: fill.simps [of k p])
  qed
qed

lemma grow_reading:
  assumes "reading s cs n p" and "k \<le> 65536" and "k \<le> length s"
  shows "\<exists>q. grow k p = (Inr (), q) \<and> reading s cs n q \<and> k \<le> length (unread q)"
proof -
  have "reading s cs n (p\<lparr>consumed := 0\<rparr>)"
    using assms(1) by (simp add: reading_def)
  then show ?thesis
    using assms fill_reading [of s cs n p k] fill_reading [of s cs n "p\<lparr>consumed := 0\<rparr>" k]
    by (auto simp: grow_def Let_def nb_buffer_def)
qed

lemma slice_reading:
  assumes "reading s cs n p" and "k \<le> length (unread p)"
  shows "\<exists>q. read_slice k p = (take k s, q) \<and> reading (drop k s) cs n q"
  using assms by (auto simp: read_slice_def reading_def)

lemma receive_reading:
  assumes "reading s cs n p" and "k \<le> 65536" and "k \<le> length s"
  shows "\<exists>q. receive k p = (Inr (take k s), q) \<and> reading (drop k s) cs n q"
proof -
  obtain q where q: "grow k p = (Inr (), q)" "reading s cs n q" "k \<le> length (unread q)"
    using grow_reading [OF assms] by blast
  with slice_reading [OF q(2,3)] show ?thesis
    by (auto simp: receive_def and_then_def)
qed

lemma put_cs_reading: "reading s cs n p \<Longrightarrow> reading s (cs(cid := x)) n (put_cs cid x p)"
  by (simp add: reading_def put_cs_def)

lemma basic_header_reading:
  assumes "reading (b # s) cs n p" and "2 \<le> unat (b AND 0x3f)"
  shows "\<exists>q. read_basic_header p = (Inr (unat (drop_bit 6 b), unat (b AND 0x3f)), q) \<and> reading s cs n q"
  using receive_reading [OF assms(1), of 1] assms(2) by (auto simp: read_basic_header_def and_then_def Let_def)

section \<open>Reading chunks\<close>

definition in_progress :: "msg_header \<Rightarrow> bool \<Rightarrow> bytes \<Rightarrow> nat \<Rightarrow> chunk_stream" where
  "in_progress mh ext sofar k = \<lparr>cs_header = mh, extended_timestamp = ext, cs_msg = Some \<lparr>msg_header = mh, msg_payload = sofar\<rparr>, msg_count = k\<rparr>"

definition extended_bytes :: "nat \<Rightarrow> bytes" where
  "extended_bytes ts = (if RTMP_EXTENDED_TIMESTAMP \<le> ts then be_bytes 4 ts else [])"

lemma be_of_bytes [simp]: "n < 256 ^ k \<Longrightarrow> be (be_bytes k n) = n"
  by (simp add: be_be_bytes)

lemma read_extended_reading:
  assumes "reading (extended_bytes ts @ s) cs n p" and "ts < 2 ^ 31" and "extended_timestamp (cs cid) \<longleftrightarrow> RTMP_EXTENDED_TIMESTAMP \<le> ts"
    and "fresh \<or> timestamp (cs_header (cs cid)) = int ts"
  shows "\<exists>q. read_extended cid fresh p = (Inr (), q) \<and>
    reading s (cs(cid := (cs cid)\<lparr>cs_header := (cs_header (cs cid))\<lparr>timestamp := (if RTMP_EXTENDED_TIMESTAMP \<le> ts then int ts
      else timestamp (cs_header (cs cid)))\<rparr>\<rparr>)) n q"
proof (cases "RTMP_EXTENDED_TIMESTAMP \<le> ts")
  case False
  then show ?thesis
    using assms(1,3) by (auto simp: read_extended_def extended_bytes_def reading_def)
next
  case True
  have r: "reading (be_bytes 4 ts @ s) cs n p"
    using assms(1) True by (simp add: extended_bytes_def)
  obtain q where q: "grow 4 p = (Inr (), q)" "reading (be_bytes 4 ts @ s) cs n q" "4 \<le> length (unread q)"
    using grow_reading [OF r, of 4] by auto
  obtain q2 where q2: "read_slice 4 q = (be_bytes 4 ts, q2)" "reading s cs n q2"
    using slice_reading [OF q(2,3)] by auto
  have ts: "be (be_bytes 4 ts) mod 2147483648 = ts" "int ts mod 4294967296 = int ts"
    using assms(2) by simp_all
  have c: "cs_cache p = cs" "cs_cache q = cs"
    using r q(2) by (simp_all add: reading_def)
  have "read_extended cid fresh p = (Inr (), put_cs cid ((cs cid)\<lparr>cs_header := (cs_header (cs cid))\<lparr>timestamp := int ts\<rparr>\<rparr>) q2)"
    using True assms(3,4) q(1) q2(1) c ts by (auto simp: read_extended_def and_then_def Let_def)
  with put_cs_reading [OF q2(2)] True show ?thesis
    by auto
qed

text \<open>A message the chunk stream carries as it is: a stream of the short form, 31 bits of time, a length of 24 bits.\<close>

definition sendable :: "common_msg \<Rightarrow> bool" where
  "sendable m \<longleftrightarrow> (let mh = msg_header m in 2 \<le> perfer_cid mh \<and> perfer_cid mh < 64 \<and> 0 \<le> timestamp mh \<and> timestamp mh < 2 ^ 31 \<and>
     payload_length mh = length (msg_payload m) \<and> msg_payload m \<noteq> [] \<and> length (msg_payload m) < 2 ^ 24)"

abbreviation time_of :: "common_msg \<Rightarrow> nat" where
  "time_of m \<equiv> nat (timestamp (msg_header m))"

lemma cid_words:
  assumes "2 \<le> c" and "c < 64"
  shows "(word_of_nat c AND 0x3f :: u8) = word_of_nat c" and "unat (drop_bit 6 (word_of_nat c :: u8)) = 0"
    and "unat ((word_of_nat c :: u8) AND 0x3f) = c" and "unat (drop_bit 6 (0xC0 OR word_of_nat c :: u8)) = 3"
    and "unat ((0xC0 OR word_of_nat c :: u8) AND 0x3f) = c"
proof -
  have "\<forall>c \<in> set [2..<64]. (word_of_nat c AND 0x3f :: u8) = word_of_nat c \<and> unat (drop_bit 6 (word_of_nat c :: u8)) = 0 \<and>
      unat ((word_of_nat c :: u8) AND 0x3f) = c \<and> unat (drop_bit 6 (0xC0 OR word_of_nat c :: u8)) = 3 \<and>
      unat ((0xC0 OR word_of_nat c :: u8) AND 0x3f) = c"
    by code_simp
  moreover have "c \<in> set [2..<64]"
    unfolding set_upt atLeastLessThan_iff using assms by (rule conjI)
  ultimately show "(word_of_nat c AND 0x3f :: u8) = word_of_nat c" "unat (drop_bit 6 (word_of_nat c :: u8)) = 0"
    "unat ((word_of_nat c :: u8) AND 0x3f) = c" "unat (drop_bit 6 (0xC0 OR word_of_nat c :: u8)) = 3"
    "unat ((0xC0 OR word_of_nat c :: u8) AND 0x3f) = c"
    by blast+
qed

lemma headers:
  assumes "sendable m"
  shows "chunk_header m 16 True = [word_of_nat (perfer_cid (msg_header m))] @ be_bytes 3 (min (time_of m) 0xFFFFFF) @
      be_bytes 3 (length (msg_payload m)) @ [message_type (msg_header m)] @ rev (be_bytes 4 (unat (stream_id (msg_header m)))) @ extended_bytes (time_of m)"
    and "chunk_header m 16 False = [0xC0 OR word_of_nat (perfer_cid (msg_header m))] @ extended_bytes (time_of m)"
proof -
  let ?cid = "perfer_cid (msg_header m)"
  have cid: "(word_of_nat ?cid AND 0x3f :: u8) = word_of_nat ?cid"
    using cid_words [of ?cid] assms by (auto simp: sendable_def Let_def)
  have "unat (word_of_int (timestamp (msg_header m)) :: u32) = time_of m"
    using assms by (auto simp: sendable_def Let_def unsigned_of_int take_bit_int_eq_self)
  with cid assms show "chunk_header m 16 True = [word_of_nat ?cid] @ be_bytes 3 (min (time_of m) 0xFFFFFF) @
      be_bytes 3 (length (msg_payload m)) @ [message_type (msg_header m)] @ rev (be_bytes 4 (unat (stream_id (msg_header m)))) @ extended_bytes (time_of m)"
    "chunk_header m 16 False = [0xC0 OR word_of_nat ?cid] @ extended_bytes (time_of m)"
    by (auto simp: chunk_header_def srs_chunk_header_c0_def srs_chunk_header_c3_def extended_bytes_def sendable_def Let_def
        RTMP_EXTENDED_TIMESTAMP_def)
qed

text \<open>The header of a further chunk changes nothing but the count.\<close>

lemma header3_reading:
  assumes "reading (extended_bytes ts @ s) cs n p" and "cs cid = in_progress mh (RTMP_EXTENDED_TIMESTAMP \<le> ts) sofar (Suc k)"
    and "ts < 2 ^ 31" and "timestamp mh = int ts"
  shows "\<exists>q. read_message_header cid 3 p = (Inr (), q) \<and>
    reading s (cs(cid := in_progress mh (RTMP_EXTENDED_TIMESTAMP \<le> ts) sofar (Suc (Suc k)))) n q"
proof -
  have cs: "cs_header (cs cid) = mh" "extended_timestamp (cs cid) = (RTMP_EXTENDED_TIMESTAMP \<le> ts)" "cs_msg (cs cid) \<noteq> None"
    "msg_count (cs cid) = Suc k"
    using assms(2) by (simp_all add: in_progress_def)
  have c: "cs_cache p = cs"
    using assms(1) by (simp add: reading_def)
  obtain q where q: "receive 0 p = (Inr [], q)" "reading (extended_bytes ts @ s) cs n q"
    using receive_reading [OF assms(1), of 0] by auto
  have cq: "cs_cache q = cs"
    using q(2) by (simp add: reading_def)
  have "reading (extended_bytes ts @ s) cs n (put_cs cid (cs cid) q)"
    using put_cs_reading [OF q(2), of cid "cs cid"] by simp
  from read_extended_reading [OF this assms(3) cs(2), of False] cs(1) assms(4) obtain q2 where
    q2: "read_extended cid False (put_cs cid (cs cid) q) = (Inr (), q2)"
    "reading s (cs(cid := (cs cid)\<lparr>cs_header := mh\<lparr>timestamp := int ts\<rparr>\<rparr>)) n q2"
    by (auto split: if_split_asm)
  have "cs(cid := (cs cid)\<lparr>cs_header := mh\<lparr>timestamp := int ts\<rparr>\<rparr>) = cs"
    using assms(4) by (intro ext) (simp add: assms(2) in_progress_def)
  with q2(2) have r2: "reading s cs n q2" "cs_cache q2 = cs"
    by (simp_all add: reading_def)
  let ?x = "in_progress mh (RTMP_EXTENDED_TIMESTAMP \<le> ts) sofar (Suc (Suc k))"
  have tm: "timestamp mh mod 2147483648 = timestamp mh"
    using assms(3,4) by simp
  have "read_message_header cid 3 p = (Inr (), put_cs cid ?x q2)"
    using cs c cq q(1) q2(1) r2(2) assms(2) tm
    by (simp add: read_message_header_def and_then_def mh_size_def header_time_def header_message_def Let_def) (simp add: in_progress_def)
  then show ?thesis
    using put_cs_reading [OF r2(1)] by blast
qed

text \<open>The header of the first chunk gives the fields of the message.\<close>

lemma header0_reading:
  assumes "reading (be_bytes 3 (min ts 0xFFFFFF) @ be_bytes 3 len @ [t] @ rev (be_bytes 4 (unat sid)) @ extended_bytes ts @ s) cs n p"
    and "cs_msg (cs cid) = None" and "ts < 2 ^ 31" and "len < 2 ^ 24"
  shows "\<exists>q. read_message_header cid 0 p = (Inr (), q) \<and>
    reading s (cs(cid := in_progress ((cs_header (cs cid))\<lparr>timestamp_delta := min ts 0xFFFFFF, payload_length := len, message_type := t,
      stream_id := sid, timestamp := int ts\<rparr>) (RTMP_EXTENDED_TIMESTAMP \<le> ts) [] (Suc (msg_count (cs cid))))) n q"
proof -
  let ?h = "be_bytes 3 (min ts 0xFFFFFF) @ be_bytes 3 len @ [t] @ rev (be_bytes 4 (unat sid))"
  let ?m = "\<lparr>msg_header = new_header 3, msg_payload = []\<rparr>"
  let ?cs = "cs(cid := (cs cid)\<lparr>cs_msg := Some ?m\<rparr>)"
  let ?p = "put_cs cid ((cs cid)\<lparr>cs_msg := Some ?m\<rparr>) p"
  let ?ext = "RTMP_EXTENDED_TIMESTAMP \<le> ts"
  have r: "reading (?h @ extended_bytes ts @ s) ?cs n ?p"
    using put_cs_reading [OF assms(1)] by simp
  obtain q where q: "receive 11 ?p = (Inr ?h, q)" "reading (extended_bytes ts @ s) ?cs n q"
    using receive_reading [OF r, of 11] by auto
  let ?fields = "(cs_header (cs cid))\<lparr>timestamp_delta := min ts 0xFFFFFF, payload_length := len, message_type := t, stream_id := sid\<rparr>"
  let ?parsed = "(cs cid)\<lparr>cs_msg := Some ?m, extended_timestamp := ?ext,
    cs_header := ?fields\<lparr>timestamp := (if ?ext then timestamp (cs_header (cs cid)) else int ts)\<rparr>\<rparr>"
  have "be (be_bytes 3 (min ts 16777215)) = min ts 16777215" "be (be_bytes 3 len) = len"
    using assms(4) by (simp_all add: be_be_bytes)
  moreover have "word_of_nat (be (be_bytes 4 (unat sid))) = sid"
    using unsigned_less [of sid, where 'a = nat] by (simp add: be_be_bytes)
  moreover have "?h ! 6 = t"
    by (simp add: nth_append)
  ultimately have x0: "header_message 0 True ?h (header_time 0 True ?h (?cs cid)) = (0, ?parsed)"
    by (auto simp: header_message_def header_time_def Let_def RTMP_EXTENDED_TIMESTAMP_def)
  have "reading (extended_bytes ts @ s) (?cs(cid := ?parsed)) n (put_cs cid ?parsed q)"
    using put_cs_reading [OF q(2)] by blast
  from read_extended_reading [OF this assms(3), of cid True] obtain q2 where
    q2: "read_extended cid True (put_cs cid ?parsed q) = (Inr (), q2)"
    "reading s (cs(cid := ?parsed\<lparr>cs_header := ?fields\<lparr>timestamp := int ts\<rparr>\<rparr>)) n q2"
    by (auto split: if_split_asm)
  let ?mh = "?fields\<lparr>timestamp := int ts\<rparr>"
  let ?x = "in_progress ?mh ?ext [] (Suc (msg_count (cs cid)))"
  have "cs_cache q2 = cs(cid := ?parsed\<lparr>cs_header := ?mh\<rparr>)"
    using q2(2) by (simp only: reading_def)
  then have c: "cs_cache p = cs" "cs_cache q = ?cs" "cs_cache q2 cid = ?parsed\<lparr>cs_header := ?mh\<rparr>"
    using assms(1) q(2) by (simp_all only: reading_def fun_upd_same)
  have "read_message_header cid 0 p = (Inr (), put_cs cid ?x q2)"
    using assms(2,3) c q(1) x0 q2(1)
    by (simp add: read_message_header_def and_then_def mh_size_def Let_def)
      (rule arg_cong [where f = "\<lambda>x. put_cs cid x q2"], rule chunk_stream.equality, simp_all add: in_progress_def)
  then show ?thesis
    using put_cs_reading [OF q2(2), of cid ?x] by simp
qed

lemma payload_reading:
  assumes "reading (take n rest @ s) cs n p" and "cs cid = in_progress mh ext sofar k" and "0 < n" and "n \<le> 65536" and "rest \<noteq> []"
    and "payload_length mh = length sofar + length rest"
  shows "\<exists>q. reading s (cs(cid := (in_progress mh ext (sofar @ take n rest) k)\<lparr>cs_msg := (if length rest \<le> n then None
        else Some \<lparr>msg_header = mh, msg_payload = sofar @ take n rest\<rparr>)\<rparr>)) n q \<and>
    read_message_payload cid p = (Inr (if length rest \<le> n then Some \<lparr>msg_header = mh, msg_payload = sofar @ rest\<rparr> else None), q)"
proof -
  have c: "cs_cache p = cs" "in_chunk_size p = n"
    using assms(1) by (simp_all add: reading_def)
  let ?k = "min (length rest) n"
  have k: "?k \<le> 65536" "?k \<le> length (take n rest @ s)" "take ?k (take n rest @ s) = take n rest" "drop ?k (take n rest @ s) = s"
    using assms(4) by (simp_all add: min_def)
  obtain q where q: "receive ?k p = (Inr (take n rest), q)" "reading s cs n q"
    using receive_reading [OF assms(1) k(1,2)] unfolding k(3,4) by blast
  let ?x = "(in_progress mh ext (sofar @ take n rest) k)\<lparr>cs_msg := (if length rest \<le> n then None
    else Some \<lparr>msg_header = mh, msg_payload = sofar @ take n rest\<rparr>)\<rparr>"
  have "read_message_payload cid p = (Inr (if length rest \<le> n then Some \<lparr>msg_header = mh, msg_payload = sofar @ rest\<rparr> else None), put_cs cid ?x q)"
    using assms(2,3,5,6) c q(1) by (auto simp: read_message_payload_def in_progress_def and_then_def Let_def)
  with put_cs_reading [OF q(2), of cid ?x] show ?thesis
    by blast
qed

lemma recv_interlaced_steps:
  assumes "read_basic_header p = (Inr (fmt, cid), q1)" and "read_message_header cid fmt q1 = (Inr (), q2)"
  shows "recv_interlaced_message p = read_message_payload cid q2"
  using assms by (simp add: recv_interlaced_message_def and_then_def)

text \<open>The message is given to the control messages' handler when its last chunk was read.\<close>

definition received :: "socket \<Rightarrow> common_msg \<Rightarrow> common_msg io" where
  "received sk m = and_then (on_recv_message sk m) (\<lambda>_ q. (Inr m, q))"

lemma chunks_reading:
  assumes "sendable m" and "0 < n" and "n \<le> 65536" and "reading (take n rest @ wire n m False (drop n rest) @ s) cs n q2"
    and "recv_interlaced_message p = read_message_payload (perfer_cid (msg_header m)) q2" and "rest \<noteq> []"
    and "cs (perfer_cid (msg_header m)) = in_progress mh (RTMP_EXTENDED_TIMESTAMP \<le> time_of m) sofar (Suc k)"
    and "timestamp mh = int (time_of m)" and "payload_length mh = length sofar + length rest" and "mm = \<lparr>msg_header = mh, msg_payload = sofar @ rest\<rparr>"
  shows "\<exists>q x. recv_message sk p = received sk mm q \<and> reading s (cs(perfer_cid (msg_header m) := x)) n q \<and> cs_msg x = None \<and> sent_side q = sent_side p"
  using assms(4-10)
proof (induction "length rest" arbitrary: rest cs p q2 sofar k rule: less_induct)
  case less
  let ?cid = "perfer_cid (msg_header m)" and ?ext = "RTMP_EXTENDED_TIMESTAMP \<le> time_of m"
  have ts: "time_of m < 2 ^ 31" and cid: "2 \<le> ?cid" "?cid < 64"
    using assms(1) by (auto simp: sendable_def Let_def)
  let ?z = "in_progress mh ?ext (sofar @ take n rest) (Suc k)"
  from payload_reading [OF less.prems(1,4) assms(2,3) less.prems(3,6)] obtain q3 where
    q3: "read_message_payload ?cid q2 = (Inr (if length rest \<le> n then Some mm else None), q3)"
    "reading (wire n m False (drop n rest) @ s) (cs(?cid := ?z\<lparr>cs_msg :=
      (if length rest \<le> n then None else Some \<lparr>msg_header = mh, msg_payload = sofar @ take n rest\<rparr>)\<rparr>)) n q3"
    unfolding less.prems(7) by blast
  note r = less.prems(2) [unfolded q3(1)]
  have side: "sent_side q3 = sent_side p"
    using side_interlaced [of p] by (simp add: r)
  show ?case
  proof (cases "length rest \<le> n")
    case True
    have "wire n m False (drop n rest) = []"
      using True by (simp add: wire.simps)
    with q3(2) True have "reading s (cs(?cid := ?z\<lparr>cs_msg := None\<rparr>)) n q3"
      by simp
    moreover have "recv_message sk p = received sk mm q3"
      using r True less.prems(3,7) by (simp add: recv_message.simps [of sk p] received_def)
    ultimately show ?thesis
      using side by (intro exI [of _ q3] exI [of _ "?z\<lparr>cs_msg := None\<rparr>"]) simp
  next
    case False
    let ?rest = "drop n rest"
    have rest: "length ?rest < length rest" "?rest \<noteq> []"
      using False assms(2) by simp_all
    have "?z\<lparr>cs_msg := Some \<lparr>msg_header = mh, msg_payload = sofar @ take n rest\<rparr>\<rparr> = ?z"
      by (simp add: in_progress_def)
    moreover have "wire n m False ?rest = (0xC0 OR word_of_nat ?cid) # extended_bytes (time_of m) @ take n ?rest @ wire n m False (drop n ?rest)"
      using rest assms(2) by (simp add: wire.simps [of n m False ?rest] headers(2) [OF assms(1)])
    ultimately have "reading ((0xC0 OR word_of_nat ?cid) # extended_bytes (time_of m) @ take n ?rest @ wire n m False (drop n ?rest) @ s) (cs(?cid := ?z)) n q3"
      using q3(2) False by simp
    from basic_header_reading [OF this] cid_words [OF cid] cid obtain q4 where
      q4: "read_basic_header q3 = (Inr (3, ?cid), q4)" "reading (extended_bytes (time_of m) @ take n ?rest @ wire n m False (drop n ?rest) @ s) (cs(?cid := ?z)) n q4"
      by auto
    let ?y = "in_progress mh ?ext (sofar @ take n rest) (Suc (Suc k))"
    from header3_reading [OF q4(2) fun_upd_same ts less.prems(5)] obtain q5 where
      q5: "read_message_header ?cid 3 q4 = (Inr (), q5)" "reading (take n ?rest @ wire n m False (drop n ?rest) @ s) (cs(?cid := ?y)) n q5"
      unfolding fun_upd_upd by blast
    have "payload_length mh = length (sofar @ take n rest) + length ?rest" "mm = \<lparr>msg_header = mh, msg_payload = (sofar @ take n rest) @ ?rest\<rparr>"
      using False less.prems(6,7) by simp_all
    from less.hyps [OF rest(1) q5(2) recv_interlaced_steps [OF q4(1) q5(1)] rest(2) fun_upd_same less.prems(5) this] obtain q x where
      "recv_message sk q3 = received sk mm q" "reading s (cs(?cid := x)) n q" "cs_msg x = None" "sent_side q = sent_side p"
      unfolding fun_upd_upd side by blast
    moreover have "recv_message sk p = recv_message sk q3"
      using r False by (simp add: recv_message.simps [of sk p])
    ultimately show ?thesis
      by metis
  qed
qed

text \<open>The message that is made of what the first header tells.\<close>

definition as_read :: "msg_header \<Rightarrow> common_msg \<Rightarrow> common_msg" where
  "as_read old m = (let mh = msg_header m in \<lparr>msg_header = old\<lparr>timestamp_delta := min (time_of m) 0xFFFFFF, payload_length := payload_length mh,
     message_type := message_type mh, stream_id := stream_id mh, timestamp := timestamp mh\<rparr>, msg_payload = msg_payload m\<rparr>)"

lemma message_reading:
  assumes "sendable m" and "0 < n" and "n \<le> 65536" and "reading (wire n m True (msg_payload m) @ s) cs n p"
    and "cs_msg (cs (perfer_cid (msg_header m))) = None"
  shows "\<exists>q x. recv_message sk p = received sk (as_read (cs_header (cs (perfer_cid (msg_header m)))) m) q \<and>
    reading s (cs(perfer_cid (msg_header m) := x)) n q \<and> cs_msg x = None \<and> sent_side q = sent_side p"
proof -
  let ?cid = "perfer_cid (msg_header m)" and ?rest = "msg_payload m" and ?ts = "time_of m"
  let ?more = "take n ?rest @ wire n m False (drop n ?rest) @ s"
  let ?mm = "as_read (cs_header (cs ?cid)) m"
  have m: "?ts < 2 ^ 31" "2 \<le> ?cid" "?cid < 64" "?rest \<noteq> []" "length ?rest < 2 ^ 24" "payload_length (msg_header m) = length ?rest"
    "int ?ts = timestamp (msg_header m)"
    using assms(1) by (auto simp: sendable_def Let_def)
  have "wire n m True ?rest @ s = word_of_nat ?cid # be_bytes 3 (min ?ts 0xFFFFFF) @ be_bytes 3 (length ?rest) @
      [message_type (msg_header m)] @ rev (be_bytes 4 (unat (stream_id (msg_header m)))) @ extended_bytes ?ts @ ?more"
    using m(4) assms(2) by (simp add: wire.simps [of n m True] headers(1) [OF assms(1)])
  from basic_header_reading [OF assms(4) [unfolded this]] cid_words [OF m(2,3)] m(2) obtain q1 where
    q1: "read_basic_header p = (Inr (0, ?cid), q1)" "reading (be_bytes 3 (min ?ts 0xFFFFFF) @ be_bytes 3 (length ?rest) @
      [message_type (msg_header m)] @ rev (be_bytes 4 (unat (stream_id (msg_header m)))) @ extended_bytes ?ts @ ?more) cs n q1"
    by auto
  have mh: "(cs_header (cs ?cid))\<lparr>timestamp_delta := min ?ts 0xFFFFFF, payload_length := length ?rest, message_type := message_type (msg_header m),
      stream_id := stream_id (msg_header m), timestamp := int ?ts\<rparr> = msg_header ?mm"
    using m(6,7) by (simp add: as_read_def Let_def)
  from header0_reading [OF q1(2) assms(5) m(1,5)] obtain q2 where
    q2: "read_message_header ?cid 0 q1 = (Inr (), q2)"
    "reading ?more (cs(?cid := in_progress (msg_header ?mm) (RTMP_EXTENDED_TIMESTAMP \<le> ?ts) [] (Suc (msg_count (cs ?cid))))) n q2"
    unfolding mh by blast
  have mm: "timestamp (msg_header ?mm) = int ?ts" "payload_length (msg_header ?mm) = length [] + length ?rest"
    "?mm = \<lparr>msg_header = msg_header ?mm, msg_payload = [] @ ?rest\<rparr>"
    using m(6,7) by (simp_all add: as_read_def Let_def)
  show ?thesis
    using chunks_reading [OF assms(1-3) q2(2) recv_interlaced_steps [OF q1(1) q2(1)] m(4) fun_upd_same mm] unfolding fun_upd_upd .
qed

section \<open>Packets\<close>

lemma simple_send_accepts:
  "\<exists>w. do_simple_send accepts m c0 rest p = (Inr (), p\<lparr>written := written p @ w\<rparr>) \<and> concat w = wire (out_chunk_size p) m c0 rest"
proof (induction "accepts" m c0 rest p rule: do_simple_send.induct)
  case (1 m c0 rest p)
  let ?n = "out_chunk_size p"
  let ?w = "concat [chunk_header m 16 c0, take ?n rest]" and ?q = "p\<lparr>written := written p @ [concat [chunk_header m 16 c0, take ?n rest]]\<rparr>"
  have w: "(Inr (), ?q) = writev accepts [chunk_header m 16 c0, take ?n rest] p"
    by (simp add: writev_def)
  show ?case
  proof (cases "rest = [] \<or> ?n = 0")
    case True
    then show ?thesis
      by (intro exI [of _ "[]"]) (simp add: do_simple_send.simps [of _ m] wire.simps)
  next
    case False
    from 1 [OF False refl w refl] obtain w2 where
      "do_simple_send accepts m False (drop ?n rest) ?q = (Inr (), ?q\<lparr>written := written ?q @ w2\<rparr>)" "concat w2 = wire ?n m False (drop ?n rest)"
      by auto
    with w [symmetric] False show ?thesis
      by (intro exI [of _ "?w # w2"]) (simp add: do_simple_send.simps [of _ m c0 rest p] wire.simps [of ?n m c0] Let_def)
  qed
qed

lemma reading_written: "reading s cs n p \<Longrightarrow> reading s cs n (p\<lparr>written := w\<rparr>)" "reading s cs n p \<Longrightarrow> reading s cs n (p\<lparr>acked_size := k, written := w\<rparr>)"
  by (simp_all add: reading_def)

text \<open>
  Messages one after the other. The size of the chunks changes behind a message that sets it; \<open>wrote\<close> tells what messages stand
  between two states of a connection.
\<close>

definition size_after :: "nat \<Rightarrow> common_msg \<Rightarrow> nat" where
  "size_after n m = (if message_type (msg_header m) = 1 then nat (signed_be 4 (be (take 4 (msg_payload m)))) else n)"

definition sizes_after :: "nat \<Rightarrow> common_msg list \<Rightarrow> nat" where
  "sizes_after n ms = fold (\<lambda>m n. size_after n m) ms n"

primrec messages_wire :: "nat \<Rightarrow> common_msg list \<Rightarrow> bytes" where
  "messages_wire n [] = []"
| "messages_wire n (m # ms) = wire n m True (msg_payload m) @ messages_wire (size_after n m) ms"

definition wrote :: "protocol \<Rightarrow> protocol \<Rightarrow> common_msg list \<Rightarrow> bool" where
  "wrote p q ms \<longleftrightarrow> concat (written q) = concat (written p) @ messages_wire (out_chunk_size p) ms \<and> out_chunk_size q = sizes_after (out_chunk_size p) ms"

lemma sizes_after_simps [simp]:
  "sizes_after n [] = n" "sizes_after n (m # ms) = sizes_after (size_after n m) ms" "sizes_after n (ms @ ms') = sizes_after (sizes_after n ms) ms'"
  by (simp_all add: sizes_after_def)

lemma messages_wire_append [simp]: "messages_wire n (ms @ ms') = messages_wire n ms @ messages_wire (sizes_after n ms) ms'"
  by (induction ms arbitrary: n) simp_all

lemma wrote_nothing: "sent_side q = sent_side p \<Longrightarrow> wrote p q []"
  by (simp add: wrote_def sent_side_def)

lemma wrote_trans: "wrote p q ms \<Longrightarrow> wrote q r ms' \<Longrightarrow> wrote p r (ms @ ms')"
  by (simp add: wrote_def)

text \<open>What a reader writes of itself when a message has been read: an acknowledgement or the answer to a ping.\<close>

definition is_reply :: "common_msg \<Rightarrow> bool" where
  "is_reply m \<longleftrightarrow> (\<exists>k. m = control_msg 3 (be_bytes 4 k)) \<or> (\<exists>ts. m = control_msg 4 (be_bytes 2 7 @ be_bytes 4 ts))"

definition replies_only :: "protocol \<Rightarrow> protocol \<Rightarrow> bool" where
  "replies_only p q \<longleftrightarrow> (\<exists>ms. list_all is_reply ms \<and> wrote p q ms)"

lemma replies_only_refl: "sent_side q = sent_side p \<Longrightarrow> replies_only p q"
  unfolding replies_only_def by (intro exI [of _ "[]"]) (simp add: wrote_nothing)

lemma replies_only_trans: "replies_only p q \<Longrightarrow> replies_only q r \<Longrightarrow> replies_only p r"
  unfolding replies_only_def by (metis wrote_trans list_all_append)

lemma reply_sent:
  assumes "is_reply m"
  shows "\<exists>q. do_simple_send accepts m True (msg_payload m) p = (Inr (), q) \<and> replies_only p q \<and> (reading s cs n p \<longrightarrow> reading s cs n q)"
proof -
  obtain w where w: "do_simple_send accepts m True (msg_payload m) p = (Inr (), p\<lparr>written := written p @ w\<rparr>)"
    "concat w = wire (out_chunk_size p) m True (msg_payload m)"
    using simple_send_accepts [of m True "msg_payload m" p] by blast
  moreover have "size_after k m = k" for k
    using assms by (auto simp: is_reply_def size_after_def control_msg_def new_header_def)
  ultimately have "wrote p (p\<lparr>written := written p @ w\<rparr>) [m]"
    by (simp add: wrote_def)
  then have "replies_only p (p\<lparr>written := written p @ w\<rparr>)"
    unfolding replies_only_def using assms by (intro exI [of _ "[m]"]) simp
  with w(1) reading_written(1) show ?thesis
    by blast
qed

lemma acknowledged:
  "\<exists>q. acknowledge accepts p = (Inr (), q) \<and> replies_only p q \<and> (reading s cs n p \<longrightarrow> reading s cs n q)"
proof -
  let ?m = "control_msg 3 (be_bytes 4 (recv_bytes p))" and ?p = "p\<lparr>acked_size := recv_bytes p\<rparr>"
  have "is_reply ?m"
    unfolding is_reply_def by blast
  from reply_sent [OF this, of ?p s cs n] obtain q where
    q: "do_simple_send accepts ?m True (msg_payload ?m) ?p = (Inr (), q)" "replies_only ?p q" "reading s cs n ?p \<longrightarrow> reading s cs n q"
    by blast
  have "replies_only p ?p" "reading s cs n p \<longrightarrow> reading s cs n ?p"
    by (simp_all add: replies_only_refl sent_side_def reading_def)
  with q replies_only_trans [OF _ q(2)] replies_only_refl [of p p] show ?thesis
    by (auto simp: acknowledge_def response_acknowledgement_message_def Let_def)
qed

text \<open>A message that is no control message changes nothing.\<close>

lemma received_control:
  assumes "reading s cs n p" and "\<And>q. reading s cs n q \<Longrightarrow> \<exists>r. on_control_message accepts m q = (Inr (), r) \<and> reading s cs k r \<and> replies_only q r"
  shows "\<exists>q. received accepts m p = (Inr m, q) \<and> reading s cs k q \<and> replies_only p q"
proof -
  obtain q where q: "acknowledge accepts p = (Inr (), q)" "replies_only p q" "reading s cs n q"
    using acknowledged [of p s cs n] assms(1) by blast
  from assms(2) [OF q(3)] obtain r where "on_control_message accepts m q = (Inr (), r)" "reading s cs k r" "replies_only q r"
    by blast
  with q replies_only_trans [OF q(2)] show ?thesis
    by (auto simp: received_def on_recv_message_def and_then_def)
qed

lemma received_media:
  assumes "message_type (msg_header m) \<notin> {1, 4, 5}" and "reading s cs n p"
  shows "\<exists>q. received accepts m p = (Inr m, q) \<and> reading s cs n q \<and> replies_only p q"
  by (rule received_control [OF assms(2)]) (use assms(1) replies_only_refl in \<open>auto simp: on_control_message_def Let_def\<close>)

text \<open>
  A message a reader takes without an error: what a control message says is complete, and the chunks it sets are of a legal size the buffer
  can hold.
\<close>

definition carried :: "common_msg \<Rightarrow> bool" where
  "carried m \<longleftrightarrow> (let t = message_type (msg_header m); b = msg_payload m; k = signed_be 4 (be (take 4 b)) in
     sendable m \<and> (t = 1 \<longrightarrow> 4 \<le> length b \<and> 128 \<le> k \<and> k \<le> 65536) \<and> (t = 5 \<longrightarrow> 4 \<le> length b) \<and>
     (t = 4 \<longrightarrow> (\<exists>x. decode_user_control b = Inr x)))"

lemma size_after_bounds: "carried m \<Longrightarrow> 0 < n \<Longrightarrow> n \<le> 65536 \<Longrightarrow> 0 < size_after n m \<and> size_after n m \<le> 65536"
  by (auto simp: carried_def size_after_def Let_def)

lemma control_reading:
  assumes "carried m" and "reading s cs n p"
  shows "\<exists>q. on_control_message accepts m p = (Inr (), q) \<and> reading s cs (size_after n m) q \<and> replies_only p q"
proof (cases "message_type (msg_header m) = 4")
  case False
  have "replies_only p (p\<lparr>in_chunk_size := k\<rparr>)" "replies_only p (p\<lparr>ack_window_size := j\<rparr>)" "replies_only p p" for k j
    by (simp_all add: replies_only_refl sent_side_def)
  with assms False show ?thesis
    by (auto simp: on_control_message_def carried_def size_after_def reading_def Let_def)
next
  case True
  then obtain ev ts where d: "decode_user_control (msg_payload m) = Inr (ev, ts)"
    using assms(1) by (auto simp: carried_def Let_def)
  let ?m = "control_msg 4 (be_bytes 2 7 @ be_bytes 4 ts)"
  have "is_reply ?m"
    unfolding is_reply_def by blast
  from reply_sent [OF this, of p s cs n] assms(2) obtain q where "response_ping_message accepts ts p = (Inr (), q)" "replies_only p q" "reading s cs n q"
    by (auto simp: response_ping_message_def Let_def)
  with True d assms(2) replies_only_refl [of p p] show ?thesis
    by (auto simp: on_control_message_def size_after_def Let_def)
qed

lemma carried_read:
  assumes "carried m" and "0 < n" and "n \<le> 65536" and "reading (wire n m True (msg_payload m) @ s) cs n p" and "\<And>cid. cs_msg (cs cid) = None"
  shows "\<exists>m' q cs'. recv_message accepts p = (Inr m', q) \<and> message_type (msg_header m') = message_type (msg_header m) \<and>
    stream_id (msg_header m') = stream_id (msg_header m) \<and> msg_payload m' = msg_payload m \<and> reading s cs' (size_after n m) q \<and>
    (\<forall>cid. cs_msg (cs' cid) = None) \<and> replies_only p q"
proof -
  let ?cid = "perfer_cid (msg_header m)"
  let ?m = "as_read (cs_header (cs ?cid)) m"
  have m: "message_type (msg_header ?m) = message_type (msg_header m)" "stream_id (msg_header ?m) = stream_id (msg_header m)"
    "msg_payload ?m = msg_payload m"
    by (simp_all add: as_read_def Let_def)
  have "sendable m"
    using assms(1) by (simp add: carried_def Let_def)
  from message_reading [OF this assms(2-5), of accepts] obtain q x where
    q: "recv_message accepts p = received accepts ?m q" "reading s (cs(?cid := x)) n q" "cs_msg x = None" "sent_side q = sent_side p"
    by blast
  have "on_control_message accepts ?m = on_control_message accepts m" "size_after n ?m = size_after n m"
    by (intro ext) (simp_all add: on_control_message_def size_after_def m)
  then obtain r where r: "received accepts ?m q = (Inr ?m, r)" "reading s (cs(?cid := x)) (size_after n m) r" "replies_only q r"
    using received_control [OF q(2), of ?m] control_reading [OF assms(1)] by (metis (no_types, lifting))
  have "replies_only p r"
    using replies_only_trans [OF replies_only_refl [OF q(4)] r(3)] .
  with q r m assms(5) show ?thesis
    by (intro exI [of _ ?m] exI [of _ r] exI [of _ "cs(?cid := x)"]) simp
qed

text \<open>A packet that a chunk stream carries: a script has no time, and the highest bit of the time is not read.\<close>

definition packet_ok :: "packet \<Rightarrow> bool" where
  "packet_ok pk \<longleftrightarrow> pk_type pk \<in> {8, 9, 18} \<and> pk_data pk \<noteq> [] \<and> length (pk_data pk) < 2 ^ 24 \<and> unat (pk_timestamp pk) < 2 ^ 31 \<and>
     (pk_type pk = 18 \<longrightarrow> pk_timestamp pk = 0)"

lemma packet_sendable:
  assumes "packet_ok pk"
  shows "sendable (packet_msg pk sid)"
proof -
  have "int (unat (pk_timestamp pk)) < int (2 ^ 31)"
    using assms unfolding packet_ok_def of_nat_less_iff by blast
  then have "uint (pk_timestamp pk) < 2 ^ 31"
    by simp
  then show ?thesis
    using assms by (simp add: sendable_def packet_msg_def packet_ok_def packet_cid_def Let_def)
qed

definition packet_wire :: "nat \<Rightarrow> u32 \<Rightarrow> packet \<Rightarrow> bytes" where
  "packet_wire n sid pk = wire n (packet_msg pk sid) True (pk_data pk)"

lemma packet_written:
  assumes "packet_ok pk"
  shows "\<exists>w. send_packet accepts sid (pk_type pk) (pk_timestamp pk) (pk_data pk) p = (Inr (), p\<lparr>written := written p @ w\<rparr>) \<and>
    concat w = packet_wire (out_chunk_size p) sid pk"
proof -
  have "srs_rtmp_create_msg (pk_type pk) (pk_timestamp pk) (pk_data pk) = Some pk"
    using assms by (auto simp: srs_rtmp_create_msg_def packet_ok_def)
  moreover have "send_and_free_message accepts (packet_msg pk sid) sid p = send_chunks accepts (packet_msg pk sid) True (pk_data pk) 0 [] p"
    by (simp add: send_and_free_message_def do_send_message_def packet_msg_def packet_cid_def Let_def)
  moreover have "16 \<le> SRS_CONSTS_C0C3_HEADERS_MAX - 0"
    by (simp add: SRS_CONSTS_C0C3_HEADERS_MAX_def)
  note send_chunks_accepts [OF this, of "packet_msg pk sid" True "pk_data pk" "[]" p]
  ultimately show ?thesis
    by (simp add: send_packet_def packet_wire_def)
qed

lemma packet_as_read: "srs_rtmp_go_packet (as_read old (packet_msg pk sid)) c = (0, Some pk, c)" if "packet_ok pk"
  using that by (auto simp: srs_rtmp_go_packet_def as_read_def packet_msg_def new_packet_def packet_ok_def Let_def intro: packet.equality)

definition listening :: "bytes \<Rightarrow> nat \<Rightarrow> client \<Rightarrow> bool" where
  "listening s n c \<longleftrightarrow> cl_msgs c = [] \<and> (\<exists>cs. reading s cs n (cl_protocol c) \<and> (\<forall>cid. cs_msg (cs cid) = None))"

lemma packet_read:
  assumes "packet_ok pk" and "0 < n" and "n \<le> 65536" and "listening (packet_wire n sid pk @ s) n c"
  shows "\<exists>c'. srs_rtmp_read_packet accepts c = (0, pk, c') \<and> listening s n c'"
proof -
  let ?m = "packet_msg pk sid"
  let ?cid = "perfer_cid (msg_header ?m)"
  obtain cs where cs: "reading (packet_wire n sid pk @ s) cs n (cl_protocol c)" "\<And>cid. cs_msg (cs cid) = None" and c: "cl_msgs c = []"
    using assms(4) by (auto simp: listening_def)
  have data: "msg_payload ?m = pk_data pk"
    by (simp add: packet_msg_def)
  let ?r = "as_read (cs_header (cs ?cid)) ?m"
  from message_reading [OF packet_sendable [OF assms(1)] assms(2,3) cs(1) [unfolded packet_wire_def data [symmetric]] cs(2), of accepts]
  obtain q x where q: "recv_message accepts (cl_protocol c) = received accepts ?r q" "reading s (cs(?cid := x)) n q" "cs_msg x = None"
    by blast
  have "message_type (msg_header ?r) \<notin> {1, 4, 5}"
    using assms(1) by (auto simp: as_read_def packet_msg_def packet_ok_def Let_def)
  from received_media [OF this q(2)] obtain q2 where
    q2: "received accepts ?r q = (Inr ?r, q2)" "reading s (cs(?cid := x)) n q2"
    by blast
  let ?c = "c\<lparr>cl_protocol := q2\<rparr>"
  have "next_msg accepts c = (Inr ?r, ?c)"
    using c q(1) q2(1) by (simp add: next_msg_def)
  then have "srs_rtmp_read_packet accepts c = (0, pk, ?c)"
    by (simp add: srs_rtmp_read_packet.simps [of _ c] packet_as_read [OF assms(1)])
  moreover have "listening s n ?c"
    using c q2(2) q(3) cs(2) by (auto simp: listening_def intro!: exI [of _ "cs(?cid := x)"])
  ultimately show ?thesis
    by blast
qed

primrec write_packets :: "socket \<Rightarrow> u32 \<Rightarrow> packet list \<Rightarrow> unit io" where
  "write_packets sk sid [] = (\<lambda>p. (Inr (), p))"
| "write_packets sk sid (pk # pks) =
     and_then (send_packet sk sid (pk_type pk) (pk_timestamp pk) (pk_data pk)) (\<lambda>_. write_packets sk sid pks)"

primrec read_packets :: "socket \<Rightarrow> nat \<Rightarrow> client \<Rightarrow> (int \<times> packet) list" where
  "read_packets sk 0 c = []"
| "read_packets sk (Suc k) c = (case srs_rtmp_read_packet sk c of (ret, pk, c) \<Rightarrow> (ret, pk) # read_packets sk k c)"

lemma packets_written:
  assumes "list_all packet_ok pks"
  shows "\<exists>w. write_packets accepts sid pks p = (Inr (), p\<lparr>written := written p @ w\<rparr>) \<and>
    concat w = concat (map (packet_wire (out_chunk_size p) sid) pks)"
  using assms
proof (induction pks arbitrary: p)
  case Nil
  show ?case
    by (intro exI [of _ "[]"]) simp
next
  case (Cons pk pks)
  then obtain w where w: "send_packet accepts sid (pk_type pk) (pk_timestamp pk) (pk_data pk) p = (Inr (), p\<lparr>written := written p @ w\<rparr>)"
    "concat w = packet_wire (out_chunk_size p) sid pk"
    using packet_written by fastforce
  have "list_all packet_ok pks"
    using Cons.prems by simp
  from Cons.IH [OF this, of "p\<lparr>written := written p @ w\<rparr>"] obtain w2 where "write_packets accepts sid pks (p\<lparr>written := written p @ w\<rparr>) = (Inr (), p\<lparr>written := (written p @ w) @ w2\<rparr>)"
    "concat w2 = concat (map (packet_wire (out_chunk_size p) sid) pks)"
    by auto
  with w show ?case
    by (intro exI [of _ "w @ w2"]) (simp add: and_then_def)
qed

lemma packets_read:
  assumes "list_all packet_ok pks" and "0 < n" and "n \<le> 65536" and "listening (concat (map (packet_wire n sid) pks) @ s) n c"
  shows "read_packets accepts (length pks) c = map (Pair 0) pks"
  using assms(1,4)
proof (induction pks arbitrary: c)
  case (Cons pk pks)
  then have "packet_ok pk" "listening (packet_wire n sid pk @ concat (map (packet_wire n sid) pks) @ s) n c"
    by simp_all
  from packet_read [OF this(1) assms(2,3) this(2)] Cons show ?case
    by auto
qed simp

text \<open>A client whose connection has just been made, with chunks of \<open>n\<close> bytes.\<close>

definition new_client :: "nat \<Rightarrow> recv_result list \<Rightarrow> client" where
  "new_client n rs = \<lparr>cl_protocol = (new_protocol rs)\<lparr>in_chunk_size := n, out_chunk_size := n\<rparr>, cl_msgs = []\<rparr>"

lemma new_listening: "listening (incoming rs) n (new_client n rs)"
  by (auto simp: listening_def new_client_def reading_def new_protocol_def new_chunk_stream_def nb_buffer_def)

lemma crosses_wire:
  assumes "list_all packet_ok pks" and "0 < n" and "n \<le> 65536" and "written p = []" and "out_chunk_size p = n"
    and "write_packets accepts sid pks p = (r, q)" and "incoming rs = concat (written q) @ s"
  shows "r = Inr () \<and> read_packets accepts (length pks) (new_client n rs) = map (Pair 0) pks"
proof -
  obtain w where w: "write_packets accepts sid pks p = (Inr (), p\<lparr>written := written p @ w\<rparr>)"
    "concat w = concat (map (packet_wire n sid) pks)"
    using packets_written [OF assms(1), of sid p] assms(5) by blast
  then have "listening (concat (map (packet_wire n sid) pks) @ s) n (new_client n rs)"
    using new_listening [of rs n] assms(4,6,7) by simp
  from packets_read [OF assms(1-3) this] w(1) assms(6) show ?thesis
    by simp
qed

text \<open>C6. Packets cross the connection: the sounds, pictures and scripts one side writes as chunks of up to 64 KiB, with as many reads for the
  bytes as there may be, cut at any place, the other side reads as the same packets in the same order.
\<close>

theorem packets_cross_wire:
  assumes "list_all packet_ok pks" and "0 < n" and "n \<le> 65536"
    and "write_packets accepts sid pks (cl_protocol (new_client n [])) = (r, q)" and "incoming rs = concat (written q) @ s"
  shows "r = Inr () \<and> read_packets accepts (length pks) (new_client n rs) = map (Pair 0) pks"
  by (rule crosses_wire [OF assms(1-3) _ _ assms(4,5)]) (simp_all add: new_client_def new_protocol_def)

text \<open>A script, a sound later than the extended time, and a picture of more than two chunks, in two reads.\<close>

theorem packets_cross_wire_witness:
  "let pks = [\<lparr>pk_type = 18, pk_timestamp = 0, pk_data = [2, 0, 1]\<rparr>, \<lparr>pk_type = 8, pk_timestamp = 0x1000010, pk_data = [0xAF, 1, 7]\<rparr>,
      \<lparr>pk_type = 9, pk_timestamp = 40, pk_data = replicate 300 7\<rparr>]
   in \<exists>q. write_packets accepts 1 pks (cl_protocol (new_client 128 [])) = (Inr (), q) \<and>
     (let bs = concat (written q) in read_packets accepts 3 (new_client 128 [Received (take 5 bs), Received (drop 5 bs)]) = map (Pair 0) pks)"
proof -
  let ?pks = "[\<lparr>pk_type = 18, pk_timestamp = 0, pk_data = [2, 0, 1]\<rparr>, \<lparr>pk_type = 8, pk_timestamp = 0x1000010, pk_data = [0xAF, 1, 7]\<rparr>,
    \<lparr>pk_type = 9, pk_timestamp = 40, pk_data = replicate 300 7\<rparr>] :: packet list"
  obtain r q where q: "write_packets accepts 1 ?pks (cl_protocol (new_client 128 [])) = (r, q)"
    by fastforce
  let ?bs = "concat (written q)"
  have ok: "list_all packet_ok ?pks"
    by (simp add: packet_ok_def)
  have "incoming [Received (take 5 ?bs), Received (drop 5 ?bs)] = ?bs @ []"
    by simp
  from packets_cross_wire [OF ok _ _ q this] have "r = Inr ()"
    "read_packets accepts 3 (new_client 128 [Received (take 5 ?bs), Received (drop 5 ?bs)]) = map (Pair 0) ?pks"
    by (simp_all add: numeral_3_eq_3)
  with q show ?thesis
    unfolding Let_def by blast
qed

end
