(* ===== verification/Srs_Aggregate.thy ===== *)
theory Srs_Aggregate
  imports Srs_Wire
begin

text \<open>
  An aggregate message is taken apart into the messages it was made of, with their times shifted to the time of the aggregate, if that is
  not before the first of them; otherwise they all get the time of the aggregate.
\<close>

text \<open>Type, time, stream, data and what stands in the four bytes behind.\<close>

type_synonym tag = "u8 \<times> nat \<times> nat \<times> bytes \<times> nat"

fun tag_bytes :: "tag \<Rightarrow> bytes" where
  "tag_bytes (t, ts, sid, d, k) = [t] @ be_bytes 3 (length d) @ be_bytes 3 (ts mod 2 ^ 24) @ [word_of_nat (ts div 2 ^ 24)] @ be_bytes 3 sid @ d @ be_bytes 4 k"

fun tag_ok :: "tag \<Rightarrow> bool" where
  "tag_ok (t, ts, sid, d, k) \<longleftrightarrow> ts < 2 ^ 31 \<and> sid < 2 ^ 24 \<and> length d < 2 ^ 24"

fun tag_ts :: "tag \<Rightarrow> int" where
  "tag_ts (t, ts, sid, d, k) = int ts"

fun tag_result :: "msg_header \<Rightarrow> int \<Rightarrow> tag \<Rightarrow> common_msg" where
  "tag_result mh time (t, ts, sid, d, k) = \<lparr>msg_header = \<lparr>timestamp_delta = unat (word_of_int time :: u32), payload_length = length d,
     message_type = t, stream_id = word_of_nat sid, timestamp = int32 time, perfer_cid = perfer_cid mh\<rparr>, msg_payload = d\<rparr>"

lemma tag_fields:
  assumes "tag_ok tg"
  shows "tag_time (tag_bytes tg @ s) = tag_ts tg" and "tag_msg mh delta (tag_bytes tg @ s) = tag_result mh (tag_ts tg + delta) tg"
    and "tag_bytes tg @ s \<noteq> []" and "\<not> (length (tag_bytes tg @ s) < 11 \<or> length (tag_bytes tg @ s) < tag_size (tag_bytes tg @ s) + 15)"
    and "drop (tag_size (tag_bytes tg @ s) + 15) (tag_bytes tg @ s) = s"
proof -
  obtain t ts sid d k where tg: "tg = (t, ts, sid, d, k)"
    by (cases tg)
  let ?s = "tag_bytes tg @ s"
  have sz: "tag_size ?s = length d"
    using assms by (simp add: tg tag_size_def)
  have "ts div 2 ^ 24 < 2 ^ 7"
    using assms by (simp add: tg div_less_iff_less_mult)
  then have "unat (word_of_nat (ts div 2 ^ 24) :: u8) mod 128 = ts div 2 ^ 24"
    by (simp add: unat_of_nat)
  moreover have "?s ! 7 = word_of_nat (ts div 2 ^ 24)"
    by (simp add: tg nth_append nth_Cons')
  moreover have "ts mod 2 ^ 24 < 256 ^ 3"
    by simp
  ultimately show time: "tag_time ?s = tag_ts tg"
    unfolding tag_time_def by (simp add: tg)
  show "tag_msg mh delta ?s = tag_result mh (tag_ts tg + delta) tg"
    using assms unfolding tag_msg_def time sz by (simp add: tg)
  have "length (tag_bytes tg) = length d + 15"
    by (simp add: tg)
  then show "drop (tag_size ?s + 15) ?s = s"
    unfolding sz by simp
  show "?s \<noteq> []" "\<not> (length ?s < 11 \<or> length ?s < tag_size ?s + 15)"
    unfolding sz by (simp_all add: tg)
qed

lemma aggregate_step:
  assumes "tag_ok tg"
  shows "aggregate_msgs mh delta (tag_bytes tg @ s) msgs = (let d = (if delta < 0 then int32 (timestamp mh) - tag_ts tg else delta)
    in aggregate_msgs mh d s (msgs @ [tag_result mh (tag_ts tg + d) tg]))"
  by (subst aggregate_msgs.simps) (simp only: tag_fields [OF assms] tag_delta_def Let_def if_False)

lemma aggregate_shifted: "0 \<le> delta \<Longrightarrow> list_all tag_ok tgs \<Longrightarrow>
  aggregate_msgs mh delta (concat (map tag_bytes tgs)) msgs = (0, msgs @ map (\<lambda>tg. tag_result mh (tag_ts tg + delta) tg) tgs)"
  by (induction tgs arbitrary: msgs) (simp_all add: aggregate_step aggregate_msgs.simps [of _ _ "[]"])

lemma aggregate_collapsed: "delta < 0 \<Longrightarrow> list_all tag_ok tgs \<Longrightarrow> \<forall>tg \<in> set tgs. int32 (timestamp mh) < tag_ts tg \<Longrightarrow>
  aggregate_msgs mh delta (concat (map tag_bytes tgs)) msgs = (0, msgs @ map (tag_result mh (int32 (timestamp mh))) tgs)"
  by (induction tgs arbitrary: msgs delta) (simp_all add: aggregate_step aggregate_msgs.simps [of _ _ "[]"])

text \<open>C25. The messages of an aggregate are those it was made of, in order. They keep the distances of their times if the first is not later
  than the aggregate; if all are later, the shift is negative, which counts as not known, is computed again for each message, and all of
  them get the same time.
\<close>

theorem aggregate_taken_apart:
  assumes "list_all tag_ok (tg # tgs)" and "0 \<le> timestamp mh" and "timestamp mh < 2 ^ 31"
    and "tag_ts tg \<le> timestamp mh \<or> (\<forall>x \<in> set (tg # tgs). timestamp mh < tag_ts x)"
  shows "srs_rtmp_on_aggregate \<lparr>msg_header = mh, msg_payload = concat (map tag_bytes (tg # tgs))\<rparr> msgs =
    (0, msgs @ map (\<lambda>x. tag_result mh (if tag_ts tg \<le> timestamp mh then timestamp mh + (tag_ts x - tag_ts tg) else timestamp mh) x) (tg # tgs))"
proof -
  have t: "int32 (timestamp mh) = timestamp mh"
    using assms(2,3) by (simp add: int32_def signed_of_int signed_take_bit_int_eq_self)
  have tg: "tag_ok tg" "list_all tag_ok tgs"
    using assms(1) by simp_all
  show ?thesis
  proof (cases "tag_ts tg \<le> timestamp mh")
    case True
    then show ?thesis
      using tg tag_fields(3) [OF tg(1), where s = "[]"]
      by (simp add: srs_rtmp_on_aggregate_def aggregate_step aggregate_shifted t algebra_simps)
  next
    case False
    with assms(4) have "\<forall>x \<in> set (tg # tgs). int32 (timestamp mh) < tag_ts x"
      by (simp add: t)
    from aggregate_collapsed [OF _ assms(1) this, of "-1" msgs] False tag_fields(3) [OF tg(1), where s = "[]"] show ?thesis
      by (simp add: srs_rtmp_on_aggregate_def t)
  qed
qed

text \<open>Two messages 40 milliseconds apart, in an aggregate whose time is that of the first, and in one whose time is before it.\<close>

theorem aggregate_taken_apart_witness:
  "map (timestamp \<circ> msg_header) (snd (srs_rtmp_on_aggregate \<lparr>msg_header = (new_header 4)\<lparr>timestamp := 1000\<rparr>,
      msg_payload = concat (map tag_bytes [(8, 1000, 1, [1], 12), (9, 1040, 1, [2, 3], 13)])\<rparr> [])) = [1000, 1040] \<and>
   map (timestamp \<circ> msg_header) (snd (srs_rtmp_on_aggregate \<lparr>msg_header = (new_header 4)\<lparr>timestamp := 500\<rparr>,
      msg_payload = concat (map tag_bytes [(8, 1000, 1, [1], 12), (9, 1040, 1, [2, 3], 13)])\<rparr> [])) = [500, 500]"
  using aggregate_taken_apart [of "(8, 1000, 1, [1], 12)" "[(9, 1040, 1, [2, 3], 13)]" "(new_header 4)\<lparr>timestamp := 1000\<rparr>" "[]"]
    aggregate_taken_apart [of "(8, 1000, 1, [1], 12)" "[(9, 1040, 1, [2, 3], 13)]" "(new_header 4)\<lparr>timestamp := 500\<rparr>" "[]"]
  by (simp add: int32_def)

end
