(* ===== verification/Srs_Live.thy ===== *)
theory Srs_Live
  imports Srs_Writer Rtmp_Play
begin

text \<open>
  From the publisher to the player: what \<open>Srs_Writer\<close> makes of the pictures it is given, \<open>Srs_Codec\<close> and
  \<open>Rtmp_Pull\<close> make the same pictures of again. And what becomes of the player behind a truncated sequence header.
\<close>

section \<open>Sequence headers\<close>

lemma read_set_written:
  assumes "length u < 65536" and "u \<noteq> []"
  shows "read_set (1 # be_bytes 2 (length u) @ u @ rest) old = Some (0, (length u, u), rest)"
  using assms by (simp add: read_set_def)

lemma avc_demux_sps_only_size: "avc_demux_sps cd = Some (ret, cd') \<Longrightarrow> \<exists>sz. cd' = cd\<lparr>avc_size := sz\<rparr>"
proof -
  have same: "\<exists>sz. cd = cd\<lparr>avc_size := sz\<rparr>"
    by (intro exI [of _ "avc_size cd"]) simp
  assume "avc_demux_sps cd = Some (ret, cd')"
  then show ?thesis
    using same by (auto simp: avc_demux_sps_def avc_demux_sps_rbsp_def split: prod.splits if_splits bind_splits option.splits sum.splits)
qed

text \<open>Whether the parser of a parameter set reads past its end depends on the set alone.\<close>

definition sps_readable :: "bytes \<Rightarrow> bool" where
  "sps_readable sps \<longleftrightarrow> avc_demux_sps (new_codec\<lparr>sequenceParameterSet := (length sps, sps)\<rparr>) \<noteq> None"

lemma sps_readable_codec:
  assumes "sps_readable sps" and "sequenceParameterSet cd = (length sps, sps)"
  shows "\<exists>ret sz. avc_demux_sps cd = Some (ret, cd\<lparr>avc_size := sz\<rparr>)"
proof -
  have "avc_demux_sps cd \<noteq> None"
    using assms by (auto simp: sps_readable_def avc_demux_sps_def avc_demux_sps_rbsp_def split: if_splits bind_splits option.splits sum.splits)
  then show ?thesis
    using avc_demux_sps_only_size [of cd] by fastforce
qed

text \<open>The codec after the sequence header.\<close>

definition ready :: "bytes \<Rightarrow> bytes \<Rightarrow> codec \<Rightarrow> bool" where
  "ready sps pps cd \<longleftrightarrow> video_codec_id cd = 7 \<and> sequenceParameterSet cd = (length sps, sps) \<and> pictureParameterSet cd = (length pps, pps) \<and>
     NAL_unit_length cd = 3 \<and> avc_extra cd \<noteq> []"

text \<open>The part of the codec that belongs to the sound.\<close>

definition audio_of :: "codec \<Rightarrow> int \<times> bytes \<times> int \<times> u8 \<times> u8" where
  "audio_of cd = (audio_codec_id cd, aac_extra cd, aac_object cd, aac_sample_rate cd, aac_channels cd)"

definition set_ok :: "bytes \<Rightarrow> bool" where
  "set_ok u \<longleftrightarrow> u \<noteq> [] \<and> length u < 65536"

lemma sps_pps_read:
  assumes "set_ok sps" and "set_ok pps" and "sps_readable sps" and "mux_avc_sequence_header sps pps = Some sh"
  shows "\<exists>ret cd'. avc_demux_sps_pps sh cd = Some (ret, cd') \<and> payload_format cd' = payload_format cd \<and> audio_of cd' = audio_of cd \<and>
    (video_codec_id cd = 7 \<longrightarrow> ready sps pps cd')"
proof -
  have sh: "sh = [1, sps ! 1, 0, sps ! 3, 3] @ 1 # be_bytes 2 (length sps) @ sps @ 1 # be_bytes 2 (length pps) @ pps"
    using assms(4) by (simp add: mux_avc_sequence_header_def ub_simps)
  let ?cd = "cd\<lparr>avc_extra := sh, avc_profile := sint (sps ! 1), avc_level := sint (sps ! 3), NAL_unit_length := 3,
    sequenceParameterSet := (length sps, sps), pictureParameterSet := (length pps, pps)\<rparr>"
  have "read_set (drop 5 sh) old = Some (0, (length sps, sps), 1 # be_bytes 2 (length pps) @ pps)" for old
    using read_set_written [of sps] assms(1) by (simp add: sh set_ok_def)
  moreover have "read_set (1 # be_bytes 2 (length pps) @ pps) old = Some (0, (length pps, pps), [])" for old
    using read_set_written [of pps "[]"] assms(2) by (simp add: set_ok_def)
  moreover have "length sh \<ge> 6" "sh ! 1 = sps ! 1" "sh ! 3 = sps ! 3" "unat (sh ! 4 AND 3) = 3"
    by (simp_all add: sh)
  ultimately have "avc_demux_sps_pps sh cd = avc_demux_sps ?cd"
    by (simp add: avc_demux_sps_pps_def Let_def)
  moreover obtain ret sz where "avc_demux_sps ?cd = Some (ret, ?cd\<lparr>avc_size := sz\<rparr>)"
    using sps_readable_codec [OF assms(3), of ?cd] by auto
  ultimately show ?thesis
    by (simp add: ready_def audio_of_def sh)
qed

lemma header_packet_read:
  assumes "set_ok sps" and "set_ok pps" and "sps_readable sps" and "mux_avc_sequence_header sps pps = Some sh"
  shows "\<exists>cd. DoReadData \<lparr>pk_type = 9, pk_timestamp = ts, pk_data = mux_avc2flv sh 1 0 ts ts\<rparr> s = Some (s\<lparr>srs_codec := cd\<rparr>) \<and>
    ready sps pps cd \<and> payload_format cd = payload_format (srs_codec s) \<and> audio_of cd = audio_of (srs_codec s)"
proof -
  let ?cd = "srs_codec s\<lparr>video_codec_id := 7\<rparr>"
  obtain ret cd where cd: "avc_demux_sps_pps sh ?cd = Some (ret, cd)" "ready sps pps cd" "payload_format cd = payload_format (srs_codec s)"
    "audio_of cd = audio_of (srs_codec s)"
    using sps_pps_read [OF assms, of ?cd] by (auto simp: audio_of_def)
  let ?sample = "new_sample\<lparr>is_video := True, frame_type := 1, cts := 0, avc_packet_type := 0\<rparr>"
  have "4 \<le> length (be_bytes 3 0 @ sh)"
    using assms(4) by (auto simp: mux_avc_sequence_header_def ub_simps)
  then have "video_avc_demux (mux_avc2flv sh 1 0 ts ts) (srs_codec s) = Some (ret, cd, ?sample)"
    using cd(1) by (simp add: video_avc_demux_def mux_avc2flv_def Let_def)
  then show ?thesis
    using cd(2-) by (auto simp: DoReadData_def Let_def GotVideoSample_def)
qed

section \<open>Pictures\<close>

lemma signed_length: "n < 2147483648 \<Longrightarrow> signed_be 4 n = int n"
  by (simp add: signed_be_def)

definition sample_of :: "bytes \<Rightarrow> codec_sample" where
  "sample_of u = new_sample\<lparr>is_video := True, frame_type := (if nal_type (u ! 0) = 5 then 1 else 2), cts := 0, avc_packet_type := 1,
     sample_units := [u], has_idr := nal_type (u ! 0) = 5, first_nalu_type := nal_type (u ! 0)\<rparr>"

lemma ibmf_end [simp]: "ibmf_units n i i s sample = Some (0, sample)"
  by (simp add: ibmf_units.simps)

lemma ibmf_one_unit:
  assumes "u \<noteq> []" and "length u < 2147483648" and "sample_units sample = []" and "is_video sample" and "\<not> has_idr sample" and "first_nalu_type sample = 0"
  shows "avc_demux_ibmf_format 3 (mux_ipb_frame u) sample = Some (0, sample\<lparr>sample_units := [u], has_idr := nal_type (u ! 0) = 5,
    first_nalu_type := nal_type (u ! 0)\<rparr>)"
proof -
  have "nalu_length 3 (mux_ipb_frame u) = Some (int (length u), u)"
    using assms(2) read_be_bytes(3) [of "length u" u] by (simp add: nalu_length_def mux_ipb_frame_def signed_length)
  moreover have "add_sample_unit u (length u) sample = Some (0, sample\<lparr>sample_units := [u], has_idr := nal_type (u ! 0) = 5,
      first_nalu_type := nal_type (u ! 0)\<rparr>)"
    using assms by (cases u) (simp_all add: add_sample_unit_def nal_type_def Let_def)
  ultimately show ?thesis
    by (simp add: avc_demux_ibmf_format_def ibmf_units.simps [of 3 0] mux_ipb_frame_def)
qed

text \<open>A picture whose length is not mistaken for a start code.\<close>

definition recognised :: "bytes \<Rightarrow> bool" where
  "recognised u \<longleftrightarrow> startswith_annexb (mux_ipb_frame u) = None"

definition live_picture :: "bytes \<Rightarrow> bool" where
  "live_picture u \<longleftrightarrow> u \<noteq> [] \<and> nal_type (u ! 0) \<in> {1, 5}"

lemma picture_demux:
  assumes "video_codec_id cd = 7 \<and> avc_extra cd \<noteq> [] \<and> NAL_unit_length cd = 3" and "live_picture u" and "length u < 2147483648"
    and "payload_format cd = SrsAvcPayloadFormatIbmf \<or> recognised u"
  shows "video_avc_demux (mux_avc2flv (mux_ipb_frame u) (if nal_type (u ! 0) = 5 then 1 else 2) 1 ts ts) cd =
    Some (0, cd\<lparr>payload_format := SrsAvcPayloadFormatIbmf\<rparr>, sample_of u)"
proof -
  let ?ft = "if nal_type (u ! 0) = 5 then 1 else 2 :: u8"
  let ?sample = "new_sample\<lparr>is_video := True, frame_type := uint ?ft, cts := 0, avc_packet_type := 1\<rparr>"
  have cd: "cd\<lparr>video_codec_id := 7\<rparr> = cd" "avc_extra cd \<noteq> []" "NAL_unit_length cd = 3"
    using assms(1) by simp_all
  have one: "avc_demux_ibmf_format 3 (mux_ipb_frame u) ?sample = Some (0, sample_of u)"
    using assms(2,3) ibmf_one_unit [of u ?sample] by (simp add: live_picture_def new_sample_def sample_of_def)
  have "avc_demux_nalus (mux_ipb_frame u) cd ?sample = Some (0, cd\<lparr>payload_format := SrsAvcPayloadFormatIbmf\<rparr>, sample_of u)"
  proof (cases "payload_format cd = SrsAvcPayloadFormatIbmf")
    case True
    moreover from this have "cd\<lparr>payload_format := SrsAvcPayloadFormatIbmf\<rparr> = cd"
      by simp
    ultimately show ?thesis
      using one cd(3) by (simp add: avc_demux_nalus_def)
  next
    case False
    with assms(4) one cd(3) show ?thesis
      by (simp add: avc_demux_nalus_def recognised_def avc_demux_annexb_format_def srs_errors)
  qed
  moreover have "drop_bit 4 (push_bit 4 ?ft OR 7) = ?ft" "(push_bit 4 ?ft OR 7) AND 0xf = 7"
    by simp_all
  moreover have "4 \<le> length (be_bytes 3 0 @ mux_ipb_frame u)"
    by (simp add: mux_ipb_frame_def)
  ultimately show ?thesis
    using cd(1,2) by (simp add: video_avc_demux_def mux_avc2flv_def Let_def)
qed

text \<open>What the player is to see of a picture: behind start codes the parameter sets, before a refresh picture, and the unit.\<close>

definition shown :: "bytes \<Rightarrow> bytes \<Rightarrow> bytes \<Rightarrow> bytes" where
  "shown sps pps u = (if nal_type (u ! 0) = 5 then fresh_nalu_header @ sps @ fresh_nalu_header @ pps @ cont_nalu_header @ u
     else fresh_nalu_header @ u)"

definition picture_packet :: "bytes \<Rightarrow> u32 \<Rightarrow> packet" where
  "picture_packet u ts = \<lparr>pk_type = 9, pk_timestamp = ts,
     pk_data = mux_avc2flv (mux_ipb_frame u) (if nal_type (u ! 0) = 5 then 1 else 2) 1 ts ts\<rparr>"

lemma picture_packet_read:
  assumes "ready sps pps (srs_codec s)" and "set_ok sps" and "set_ok pps" and "live_picture u"
    and "length sps + length pps + length u + 12 \<le> video_size" and "payload_format (srs_codec s) = SrsAvcPayloadFormatIbmf \<or> recognised u"
    and "video_payload s = []"
  shows "DoReadData (picture_packet u ts) s = Some (s\<lparr>srs_codec := srs_codec s\<lparr>payload_format := SrsAvcPayloadFormatIbmf\<rparr>,
    pull_callbacks := pull_callbacks s @ [OnRtmpullH264Data (shown sps pps u) ts]\<rparr>)"
proof -
  let ?cd = "srs_codec s\<lparr>payload_format := SrsAvcPayloadFormatIbmf\<rparr>"
  have long: "length u < 2147483648"
    using assms(5) by (simp add: video_size_def)
  have sets: "sequenceParameterSet ?cd = (length sps, sps)" "pictureParameterSet ?cd = (length pps, pps)" "video_codec_id ?cd = 7"
    using assms(1) by (simp_all add: ready_def)
  have pic: "picture u" "filter picture [u] = [u]"
    using assms(4) by (auto simp: live_picture_def picture_def)
  have "GotVideoSample ?cd ts (sample_of u) (s\<lparr>srs_codec := ?cd\<rparr>) = Some (0, s\<lparr>srs_codec := ?cd, pull_callbacks := pull_callbacks s @
      map (\<lambda>f. OnRtmpullH264Data f ts) (frames_of (if has_idr (sample_of u) then parameter_sets ?cd else []) (filter picture (sample_units (sample_of u))))\<rparr>)"
    using assms(5,7) pic sets by (subst sample_frames) (simp_all add: sample_of_def sets_stored_def)
  also have "frames_of (if has_idr (sample_of u) then parameter_sets ?cd else []) (filter picture (sample_units (sample_of u))) = [shown sps pps u]"
    using pic sets assms(2,3) by (simp add: sample_of_def parameter_sets_def shown_def framed_def set_ok_def)
  moreover have "video_codec_id (srs_codec s) = 7 \<and> avc_extra (srs_codec s) \<noteq> [] \<and> NAL_unit_length (srs_codec s) = 3"
    using assms(1) by (simp add: ready_def)
  ultimately show ?thesis
    using picture_demux [OF _ assms(4) long assms(6), of ts] sets(3) by (simp add: DoReadData_def picture_packet_def)
qed

section \<open>Truncated headers\<close>

lemma truncated_set:
  assumes "length rest < n" and "n < 65536"
  shows "read_set (1 # be_bytes 2 n @ rest) old = Some (ERROR_HLS_DECODE_ERROR, (n, snd old), rest)"
  using assms by (simp add: read_set_def)

text \<open>A sequence header that ends before its parameter set is refused, but the length it announced is kept: the next refresh picture
  makes the player append that many bytes of the set it had before, past its end.\<close>

theorem truncated_header_overread:
  assumes "length rest < n" and "n < 65536" and "length (snd (sequenceParameterSet (srs_codec s))) < n" and "video_payload s = []"
    and "nal_type (u ! 0) = 5" and "u \<noteq> []" and "length u < 2147483648"
    and "payload_format (srs_codec s) = SrsAvcPayloadFormatIbmf \<or> recognised u"
  shows "\<exists>s'. DoReadData \<lparr>pk_type = 9, pk_timestamp = t0, pk_data = mux_avc2flv ([1, p, c, l, 3, 1] @ be_bytes 2 n @ rest) 1 0 t0 t0\<rparr> s = Some s' \<and>
    pull_callbacks s' = pull_callbacks s \<and> DoReadData (picture_packet u ts) s' = None"
proof -
  let ?sh = "[1, p, c, l, 3, 1] @ be_bytes 2 n @ rest"
  let ?cd = "srs_codec s\<lparr>video_codec_id := 7, avc_extra := ?sh, avc_profile := sint p, avc_level := sint l, NAL_unit_length := 3,
    sequenceParameterSet := (n, snd (sequenceParameterSet (srs_codec s)))\<rparr>"
  let ?s = "s\<lparr>srs_codec := ?cd\<rparr>"
  have "avc_demux_sps_pps ?sh (srs_codec s\<lparr>video_codec_id := 7\<rparr>) = Some (ERROR_HLS_DECODE_ERROR, ?cd)"
    using truncated_set [OF assms(1,2)] by (simp add: avc_demux_sps_pps_def Let_def srs_errors)
  then have "\<exists>sample. video_avc_demux (mux_avc2flv ?sh 1 0 t0 t0) (srs_codec s) = Some (ERROR_HLS_DECODE_ERROR, ?cd, sample)"
    by (simp add: video_avc_demux_def mux_avc2flv_def Let_def)
  then have "DoReadData \<lparr>pk_type = 9, pk_timestamp = t0, pk_data = mux_avc2flv ?sh 1 0 t0 t0\<rparr> s = Some ?s"
    by (auto simp: DoReadData_def Let_def srs_errors)
  moreover have "video_avc_demux (mux_avc2flv (mux_ipb_frame u) 1 1 ts ts) ?cd =
      Some (0, ?cd\<lparr>payload_format := SrsAvcPayloadFormatIbmf\<rparr>, sample_of u)"
    using picture_demux [of ?cd u ts] assms(5-8) by (simp add: live_picture_def)
  then have "DoReadData (picture_packet u ts) ?s = None"
    using assms(2-5) by (simp add: DoReadData_def picture_packet_def GotVideoSample_def sample_of_def append_set_def append_stored_def
        append_video_def append_data_def fresh_nalu_header_def video_size_def need_short)
  ultimately show ?thesis
    by (intro exI [of _ ?s]) simp
qed

theorem truncated_header_overread_witness:
  "\<exists>s'. DoReadData \<lparr>pk_type = 9, pk_timestamp = 0, pk_data = mux_avc2flv ([1, 0x42, 0, 0x29, 3, 1] @ be_bytes 2 10 @ [0x67, 0x42]) 1 0 0 0\<rparr>
    new_pull = Some s' \<and> pull_callbacks s' = [] \<and> DoReadData (picture_packet [0x65, 0xB8, 4] 40) s' = None"
proof -
  have "recognised [0x65, 0xB8, 4]"
    by (simp add: recognised_def mux_ipb_frame_def be_bytes_def upt_rec)
  then show ?thesis
    using truncated_header_overread [where rest = "[0x67, 0x42]" and n = 10 and s = new_pull and u = "[0x65, 0xB8, 4]" and ts = 40
      and ?t0.0 = 0 and p = "0x42" and c = 0 and l = "0x29"]
    by (simp add: new_pull_def new_codec_def nal_type_def)
qed

section \<open>Publishing pictures\<close>

lemma annexb_code [simp]: "is_code k \<Longrightarrow> annexb_demux_pri (k @ u) = Some u"
  by (auto simp: is_code_def annexb_demux_pri_def)

lemma code_not_empty [simp]: "is_code k \<Longrightarrow> k @ u \<noteq> []"
  by (auto simp: is_code_def)

lemma write_unit:
  "is_code k \<Longrightarrow> u \<noteq> [] \<Longrightarrow> srs_h264_write_raw_frames net (k @ u) dts pts c = srs_write_h264_raw_frame net u dts pts c"
  by (simp add: srs_h264_write_raw_frames_def)

abbreviation accepting :: net where
  "accepting \<equiv> \<lambda>_ _. 0"

lemma picture_written:
  assumes "live_picture u"
  shows "srs_write_h264_raw_frame net u ts ts c =
    do { (ret, c) \<leftarrow> srs_write_h264_sps_pps net ts ts c;
      Some (if ret \<noteq> 0 then (ret, c) else srs_write_h264_ipb_frame net u ts ts c) }"
  using assms by (auto simp: srs_write_h264_raw_frame_def live_picture_def Let_def)

lemma ipb_written:
  "h264_sps_pps_sent c \<Longrightarrow> srs_write_h264_ipb_frame accepting u ts ts c = (0, c\<lparr>sent := sent c @ [picture_packet u ts]\<rparr>)"
  by (simp add: srs_write_h264_ipb_frame_def srs_rtmp_write_packet_def srs_rtmp_create_msg_def picture_packet_def)

section \<open>The whole way\<close>

text \<open>A publisher and the player that has read all it sent.\<close>

definition read_all :: "packet list \<Rightarrow> pull option" where
  "read_all pks = run_partial (\<lambda>s pk. DoReadData pk s) new_pull pks"

lemma read_all_snoc: "read_all pks = Some s \<Longrightarrow> read_all (pks @ [pk]) = DoReadData pk s"
  by (simp add: read_all_def run_partial_append)

definition linked :: "bytes \<Rightarrow> bytes \<Rightarrow> srs_context \<Rightarrow> pull \<Rightarrow> bool" where
  "linked sps pps c s \<longleftrightarrow> h264_sps c = sps \<and> h264_pps c = pps \<and> read_all (sent c) = Some s \<and> video_payload s = [] \<and>
     (if h264_sps_pps_sent c
      then \<not> h264_sps_changed c \<and> \<not> h264_pps_changed c \<and> ready sps pps (srs_codec s) \<and>
        payload_format (srs_codec s) = SrsAvcPayloadFormatIbmf
      else h264_sps_changed c)"

text \<open>What may be published: the parameter sets, again and again, and pictures that fit the player's buffer.\<close>

definition unit_ok :: "bytes \<Rightarrow> bytes \<Rightarrow> bytes \<Rightarrow> bool" where
  "unit_ok sps pps u \<longleftrightarrow> u = sps \<or> u = pps \<or> live_picture u \<and> length sps + length pps + length u + 12 \<le> video_size"

definition sets_ok :: "bytes \<Rightarrow> bytes \<Rightarrow> bool" where
  "sets_ok sps pps \<longleftrightarrow> set_ok sps \<and> set_ok pps \<and> 4 \<le> length sps \<and> nal_type (sps ! 0) = 7 \<and> nal_type (pps ! 0) = 8 \<and> sps_readable sps"

lemma set_written:
  assumes "linked sps pps c s" and "sets_ok sps pps" and "u = sps \<or> u = pps"
  shows "\<exists>ret. srs_write_h264_raw_frame net u ts ts c = Some (ret, c)"
  using assms by (auto simp: srs_write_h264_raw_frame_def linked_def sets_ok_def set_ok_def sps_demux_def Let_def)

lemma picture_published:
  assumes "linked sps pps c s" and "sets_ok sps pps" and "live_picture u" and "length sps + length pps + length u + 12 \<le> video_size"
    and "h264_sps_pps_sent c \<or> recognised u"
  shows "\<exists>c' s'. srs_write_h264_raw_frame accepting u ts ts c = Some (0, c') \<and> linked sps pps c' s' \<and> h264_sps_pps_sent c' \<and>
    aac_specific_config c' = aac_specific_config c \<and> audio_of (srs_codec s') = audio_of (srs_codec s) \<and>
    audio_payload s' = audio_payload s \<and> pull_callbacks s' = pull_callbacks s @ [OnRtmpullH264Data (shown sps pps u) ts]"
proof (cases "h264_sps_pps_sent c")
  case True
  let ?c = "c\<lparr>sent := sent c @ [picture_packet u ts]\<rparr>"
  let ?s = "s\<lparr>srs_codec := srs_codec s\<lparr>payload_format := SrsAvcPayloadFormatIbmf\<rparr>,
    pull_callbacks := pull_callbacks s @ [OnRtmpullH264Data (shown sps pps u) ts]\<rparr>"
  have l: "\<not> h264_sps_changed c" "\<not> h264_pps_changed c" "ready sps pps (srs_codec s)"
    "payload_format (srs_codec s) = SrsAvcPayloadFormatIbmf" "video_payload s = []" "read_all (sent c) = Some s"
    using assms(1) True by (simp_all add: linked_def)
  have "srs_write_h264_raw_frame accepting u ts ts c = Some (0, ?c)"
    using l(1,2) True by (simp add: picture_written [OF assms(3)] srs_write_h264_sps_pps_def ipb_written)
  moreover have "DoReadData (picture_packet u ts) s = Some ?s"
    using l assms(2-4) by (intro picture_packet_read [of sps pps]) (simp_all add: sets_ok_def)
  then have "linked sps pps ?c ?s"
    using assms(1) True l by (simp add: linked_def read_all_snoc ready_def)
  ultimately show ?thesis
    using True by (intro exI [of _ ?c] exI [of _ ?s]) (simp add: audio_of_def)
next
  case False
  obtain sh where sh: "mux_avc_sequence_header sps pps = Some sh"
    using assms(2) by (simp add: mux_avc_sequence_header_def sets_ok_def)
  let ?h = "\<lparr>pk_type = 9, pk_timestamp = ts, pk_data = mux_avc2flv sh 1 0 ts ts\<rparr>"
  have l: "h264_sps c = sps" "h264_pps c = pps" "h264_sps_changed c" "read_all (sent c) = Some s" "video_payload s = []"
    using assms(1) False by (auto simp: linked_def)
  let ?c = "c\<lparr>h264_sps_changed := False, h264_pps_changed := False, h264_sps_pps_sent := True, sent := sent c @ [?h, picture_packet u ts]\<rparr>"
  obtain cd where cd: "DoReadData ?h s = Some (s\<lparr>srs_codec := cd\<rparr>)" "ready sps pps cd" "audio_of cd = audio_of (srs_codec s)"
    using header_packet_read [OF _ _ _ sh, of ts s] assms(2) by (auto simp: sets_ok_def)
  let ?t = "s\<lparr>srs_codec := cd\<rparr>"
  let ?s = "?t\<lparr>srs_codec := srs_codec ?t\<lparr>payload_format := SrsAvcPayloadFormatIbmf\<rparr>,
    pull_callbacks := pull_callbacks ?t @ [OnRtmpullH264Data (shown sps pps u) ts]\<rparr>"
  have "srs_write_h264_raw_frame accepting u ts ts c = Some (0, ?c)"
    using l sh by (simp add: picture_written [OF assms(3)] srs_write_h264_sps_pps_def srs_rtmp_write_packet_def srs_rtmp_create_msg_def ipb_written)
  moreover have "DoReadData (picture_packet u ts) ?t = Some ?s"
    using cd(2) assms(2-5) l(5) False by (intro picture_packet_read [of sps pps]) (simp_all add: sets_ok_def)
  then have "read_all (sent c @ [?h, picture_packet u ts]) = Some ?s"
    using read_all_snoc [OF l(4), of ?h] cd(1) read_all_snoc [of "sent c @ [?h]" ?t "picture_packet u ts"] by simp
  then have "linked sps pps ?c ?s"
    using cd l by (simp add: linked_def ready_def)
  ultimately show ?thesis
    using cd(3) by (intro exI [of _ ?c] exI [of _ ?s]) (simp add: audio_of_def)
qed

end
