(* ===== verification/Srs_Sps.thy ===== *)
theory Srs_Sps
  imports Srs_Codec "HOL-Library.Log_Nat"
begin

text \<open>
  Sequence parameter sets as the standard writes them (ITU-T H.264, 7.3.2.1.1), up to the size of the picture, and that
  \<open>avc_demux_sps_rbsp\<close> finds the size.
\<close>

section \<open>Numbers\<close>

definition ue :: "nat \<Rightarrow> bool list" where
  "ue v = (let k = floorlog 2 (v + 1) - 1 in uev_bits k (v + 1 - 2 ^ k))"

lemma ue_parts:
  assumes "v < 2147483647"
  shows "\<exists>k r. ue v = uev_bits k r \<and> k < 31 \<and> r < 2 ^ k \<and> 2 ^ k - 1 + r = v"
proof -
  let ?k = "floorlog 2 (v + 1) - 1"
  have "2 ^ ?k \<le> v + 1" "v + 1 < 2 ^ (?k + 1)"
    using floorlog_bounds [of "v + 1" 2] floorlog_leD [of 2 "v + 1" 0] by (auto simp: floorlog_def)
  moreover from this have "(2 :: nat) ^ ?k < 2 ^ 31"
    using assms by simp
  then have "?k < 31"
    by (simp only: power_strict_increasing_iff)
  ultimately show ?thesis
    by (intro exI [of _ ?k] exI [of _ "v + 1 - 2 ^ ?k"]) (auto simp: ue_def Let_def)
qed

lemma read_ue:
  assumes "bits_of bs = ue v @ rest" and "v < 2147483647"
  shows "\<exists>bs'. read_uev bs = Some (Inr (v, bs')) \<and> bits_of bs' = rest"
  using ue_parts [OF assms(2)] read_uev_run [of bs _ _ rest] assms(1) by metis

text \<open>The steps of the parser on what was written.\<close>

abbreviation fits :: "nat \<Rightarrow> bool" where
  "fits v \<equiv> v < 2147483647"

lemma ue_step:
  assumes "bits_of bs = ue v @ rest" and "fits v" and "\<And>bs'. bits_of bs' = rest \<Longrightarrow> Q (f (v, bs'))"
  shows "Q (try_parse (read_uev bs) f)"
  using read_ue [OF assms(1,2)] assms(3) by (auto simp: try_parse_def)

lemma ues_step:
  assumes "bits_of bs = concat (map ue vs) @ rest" and "list_all fits vs" and "n = length vs" and "\<And>bs'. bits_of bs' = rest \<Longrightarrow> Q (f bs')"
  shows "Q (try_parse (skip_uevs n bs) f)"
  using assms(1-3)
proof (induction vs arbitrary: bs n)
  case Nil
  then show ?case
    using assms(4) by (simp add: try_parse_def)
next
  case (Cons v vs)
  then have "bits_of bs = ue v @ concat (map ue vs) @ rest" "fits v"
    by simp_all
  from read_ue [OF this] obtain bs1 where r: "read_uev bs = Some (Inr (v, bs1))" "bits_of bs1 = concat (map ue vs) @ rest"
    by blast
  from Cons.IH [OF r(2), of "length vs"] Cons.prems(2,3) r(1) show ?case
    by (simp add: try_parse_def)
qed

lemma bit_step:
  assumes "bits_of bs = b # rest" and "\<And>bs'. bits_of bs' = rest \<Longrightarrow> Q (f (b, bs'))"
  shows "Q (try_parse (nalu_read_bit bs) f)"
  using read_bit_cases [of bs] assms by (auto simp: nalu_read_bit_def bits_empty_iff try_parse_def)

lemma bits_step:
  assumes "bits_of bs = xs @ rest" and "n = length xs" and "\<And>bs'. bits_of bs' = rest \<Longrightarrow> Q (f bs')"
  shows "Q (try_parse (skip_bits n bs) f)"
  using assms(1,2)
proof (induction xs arbitrary: bs n)
  case Nil
  then show ?case
    using assms(3) by (simp add: try_parse_def)
next
  case (Cons x xs)
  then have "bits_of bs = x # xs @ rest"
    by simp
  with read_bit_cases [of bs] obtain bs1 where r: "read_bit bs = Some (x, bs1)" "bits_of bs1 = xs @ rest" "\<not> bits_empty bs"
    by (auto simp: bits_empty_iff)
  from Cons.IH [OF r(2), of "length xs"] Cons.prems(2) r(1,3) show ?case
    by (simp add: nalu_read_bit_def try_parse_def)
qed

text \<open>The parser as one chain of steps.\<close>

lemma try_parse_Inr [simp]: "try_parse (Some (Inr x)) f = f x"
  by (simp add: try_parse_def)

lemma try_parse_assoc: "try_parse (try_parse m f) g = try_parse m (\<lambda>x. try_parse (f x) g)"
  by (auto simp: try_parse_def split: option.splits sum.splits)

lemma skip_chain:
  "try_parse (skip_uevs 1 bs) f = try_parse (read_uev bs) (\<lambda>(v, bs). f bs)"
  "try_parse (skip_uevs 2 bs) f = try_parse (read_uev bs) (\<lambda>(v, bs). try_parse (read_uev bs) (\<lambda>(v, bs). f bs))"
  "try_parse (skip_bits 0 bs) f = f bs"
  "try_parse (skip_bits 1 bs) f = try_parse (nalu_read_bit bs) (\<lambda>(b, bs). f bs)"
  by (auto simp: numeral_2_eq_2 One_nat_def try_parse_assoc fun_eq_iff intro!: arg_cong [of _ _ "try_parse _"])

lemmas chain = try_parse_assoc skip_chain split_conv if_True if_False simp_thms one_neq_zero

section \<open>The syntax\<close>

datatype pic_order = Order0 nat | Order1 bool nat nat "nat list" | Order2

text \<open>A scaling matrix may be present, with the flags of its lists all 0: lists themselves the parser does not skip.\<close>

record sps_syntax =
  seq_parameter_set_id :: nat
  chroma_format_idc :: nat
  separate_colour_plane :: bool
  bit_depth_luma :: nat
  bit_depth_chroma :: nat
  transform_bypass :: bool
  scaling_matrix :: bool
  log2_max_frame_num :: nat
  pic_order :: pic_order
  max_num_ref_frames :: nat
  gaps_allowed :: bool
  pic_width_in_mbs :: nat
  pic_height_in_map_units :: nat

fun order_bits :: "pic_order \<Rightarrow> bool list" where
  "order_bits (Order0 lsb) = ue 0 @ ue lsb"
| "order_bits (Order1 z a b os) = ue 1 @ z # ue a @ ue b @ ue (length os) @ concat (map ue os)"
| "order_bits Order2 = ue 2"

definition scaling_bits :: "sps_syntax \<Rightarrow> bool list" where
  "scaling_bits x = replicate (if scaling_matrix x then if chroma_format_idc x \<noteq> 3 then 8 else 12 else 0) False"

definition chroma_bits :: "sps_syntax \<Rightarrow> bool list" where
  "chroma_bits x = ue (chroma_format_idc x) @ (if chroma_format_idc x = 3 then [separate_colour_plane x] else []) @
     ue (bit_depth_luma x) @ ue (bit_depth_chroma x) @ [transform_bypass x, scaling_matrix x] @ scaling_bits x"

definition sps_bits :: "bool \<Rightarrow> sps_syntax \<Rightarrow> bool list" where
  "sps_bits high x = ue (seq_parameter_set_id x) @ (if high then chroma_bits x else []) @ ue (log2_max_frame_num x) @ order_bits (pic_order x) @
     ue (max_num_ref_frames x) @ [gaps_allowed x] @ ue (pic_width_in_mbs x) @ ue (pic_height_in_map_units x)"

fun order_fits :: "pic_order \<Rightarrow> bool" where
  "order_fits (Order0 lsb) \<longleftrightarrow> fits lsb"
| "order_fits (Order1 z a b os) \<longleftrightarrow> fits a \<and> fits b \<and> fits (length os) \<and> list_all fits os"
| "order_fits Order2 \<longleftrightarrow> True"

definition sps_fits :: "sps_syntax \<Rightarrow> bool" where
  "sps_fits x \<longleftrightarrow> list_all fits [seq_parameter_set_id x, chroma_format_idc x, bit_depth_luma x, bit_depth_chroma x, log2_max_frame_num x,
     max_num_ref_frames x, pic_width_in_mbs x, pic_height_in_map_units x] \<and> order_fits (pic_order x)"

lemma order_step:
  assumes "bits_of bs = order_bits p @ rest" and "order_fits p" and "\<And>bs'. bits_of bs' = rest \<Longrightarrow> Q (f bs')"
  shows "Q (try_parse (sps_order bs) f)"
proof (cases p)
  case (Order0 lsb)
  with assms(1,2) have b: "bits_of bs = ue 0 @ ue lsb @ rest" "fits lsb"
    by simp_all
  show ?thesis
    unfolding sps_order_def try_parse_assoc
    by (rule ue_step [OF b(1)], simp, simp only: chain, erule ue_step, rule b(2), simp only: chain, erule assms(3))
next
  case (Order1 z a b os)
  with assms(1,2) have b: "bits_of bs = ue 1 @ z # ue a @ ue b @ ue (length os) @ concat (map ue os) @ rest"
    "fits a" "fits b" "fits (length os)" "list_all fits os"
    by simp_all
  show ?thesis
    unfolding sps_order_def try_parse_assoc
    by (rule ue_step [OF b(1)], simp, simp only: chain, erule bit_step, simp only: chain, erule ue_step, rule b(2),
        simp only: chain, erule ue_step, rule b(3), simp only: chain, erule ue_step, rule b(4), simp only: chain,
        erule ues_step, rule b(5), rule refl, erule assms(3))
next
  case Order2
  with assms(1) have b: "bits_of bs = ue 2 @ rest"
    by simp
  show ?thesis
    unfolding sps_order_def try_parse_assoc by (rule ue_step [OF b], simp, simp add: assms(3))
qed

lemma chroma_step:
  assumes "bits_of bs = chroma_bits x @ rest" and "fits (chroma_format_idc x)" and "fits (bit_depth_luma x)" and "fits (bit_depth_chroma x)"
    and "\<And>bs'. bits_of bs' = rest \<Longrightarrow> Q (f bs')"
  shows "Q (try_parse (sps_chroma bs) f)"
proof -
  let ?sep = "if chroma_format_idc x = 3 then [separate_colour_plane x] else []"
  have b: "bits_of bs = ue (chroma_format_idc x) @ ?sep @ ue (bit_depth_luma x) @ ue (bit_depth_chroma x) @ transform_bypass x # scaling_matrix x # scaling_bits x @ rest"
    using assms(1) by (simp add: chroma_bits_def)
  have lists: "Q (try_parse (skip_bits (if scaling_matrix x then if chroma_format_idc x \<noteq> 3 then 8 else 12 else 0) bs) f)"
    if "bits_of bs = scaling_bits x @ rest" for bs
    by (rule bits_step [OF that]) (simp_all add: scaling_bits_def assms(5))
  show ?thesis
    unfolding sps_chroma_def try_parse_assoc
    by (rule ue_step [OF b assms(2)], (simp only: chain)?, erule bits_step, simp, (simp only: chain)?, erule ue_step, rule assms(3), (simp only: chain)?,
        erule ue_step, rule assms(4), (simp only: chain)?, erule bit_step, (simp only: chain)?, erule bit_step, (simp only: split_conv)?, erule lists)
qed

lemma sps_size_read:
  assumes "bits_of bs = sps_bits high x @ rest" and "sps_fits x"
  shows "sps_size high bs = Some (Inr (pic_width_in_mbs x, pic_height_in_map_units x))"
proof -
  let ?Q = "\<lambda>m. m = Some (Inr (pic_width_in_mbs x, pic_height_in_map_units x))"
  let ?more = "ue (log2_max_frame_num x) @ order_bits (pic_order x) @ ue (max_num_ref_frames x) @ gaps_allowed x # ue (pic_width_in_mbs x) @
    ue (pic_height_in_map_units x) @ rest"
  have f: "fits (seq_parameter_set_id x)" "fits (chroma_format_idc x)" "fits (bit_depth_luma x)" "fits (bit_depth_chroma x)"
    "fits (log2_max_frame_num x)" "fits (max_num_ref_frames x)" "fits (pic_width_in_mbs x)" "fits (pic_height_in_map_units x)"
    "order_fits (pic_order x)"
    using assms(2) by (simp_all add: sps_fits_def)
  have tail: "?Q (try_parse (skip_uevs 1 bs) (\<lambda>bs. try_parse (sps_order bs) (\<lambda>bs. try_parse (skip_uevs 1 bs) (\<lambda>bs.
      try_parse (skip_bits 1 bs) (\<lambda>bs. try_parse (read_uev bs) (\<lambda>(w, bs). try_parse (read_uev bs) (\<lambda>(h, bs). Some (Inr (w, h)))))))))"
    if "bits_of bs = ?more" for bs
    by ((simp only: chain)?, rule ue_step [where Q = ?Q, OF that f(5)], (simp only: chain)?, erule order_step [where Q = ?Q], rule f(9),
        (simp only: chain)?, erule ue_step [where Q = ?Q], rule f(6), (simp only: chain)?, erule bit_step [where Q = ?Q],
        (simp only: chain)?, erule ue_step [where Q = ?Q], rule f(7), (simp only: chain)?, erule ue_step [where Q = ?Q], rule f(8), simp)
  have b: "bits_of bs = ue (seq_parameter_set_id x) @ (if high then chroma_bits x else []) @ ?more"
    using assms(1) by (simp add: sps_bits_def)
  show ?thesis
  proof (cases high)
    case True
    with b have b2: "bits_of bs = ue (seq_parameter_set_id x) @ chroma_bits x @ ?more"
      by simp
    show ?thesis
      unfolding sps_size_def skip_chain(1) [of bs]
      by (rule ue_step [where Q = ?Q, OF b2 f(1)], simp only: split_conv True if_True, erule chroma_step [where Q = ?Q, OF _ f(2-4)], rule tail)
  next
    case False
    with b have b2: "bits_of bs = ue (seq_parameter_set_id x) @ ?more"
      by simp
    show ?thesis
      unfolding sps_size_def skip_chain(1) [of bs]
      by (rule ue_step [where Q = ?Q, OF b2 f(1)], simp only: split_conv False if_False try_parse_Inr, rule tail)
  qed
qed

text \<open>C15. Whatever a sequence parameter set says before its width and height, with or without the fields of the high profiles and with any
  picture order, but without scaling lists, the two are read where they stand: the player learns the width in macroblocks and the height in
  map units, both times 16. That is the size of the coded picture where \<open>frame_mbs_only_flag\<close> is set; the fields behind the height, that
  flag and the cropping, have no influence.\<close>

theorem sps_size_roundtrip:
  assumes "sequenceParameterSet cd = (length (h # s), h # s)" and "\<not> bit h 7" and "drop_bit 5 h AND 3 \<noteq> 0" and "h AND 0x1f = 7"
    and "unescape [] s = [p, f, l] @ body" and "p \<noteq> 0" and "f AND 3 = 0" and "l \<noteq> 0"
    and "concat (map (byte_bits 8) body) = sps_bits (high_profile p) x @ rest" and "sps_fits x"
  shows "avc_demux_sps cd = Some (0, cd\<lparr>avc_size := (macroblocks (pic_width_in_mbs x), macroblocks (pic_height_in_map_units x))\<rparr>)"
proof -
  have "sps_size (high_profile p) (bits_start body) = Some (Inr (pic_width_in_mbs x, pic_height_in_map_units x))"
    using sps_size_read [of "bits_start body"] assms(9,10) by simp
  then show ?thesis
    using assms(1-8) by (simp add: avc_demux_sps_def avc_demux_sps_rbsp_def)
qed

text \<open>The set of a stream of 1280 x 720.\<close>

definition demo_sps :: bytes where
  "demo_sps = [0x67, 0x42, 0x80, 0x29, 0x95, 0xA0, 0x14, 0x01, 0x6E, 0x40]"

definition demo_syntax :: sps_syntax where
  "demo_syntax = \<lparr>seq_parameter_set_id = 0, chroma_format_idc = 1, separate_colour_plane = False, bit_depth_luma = 0, bit_depth_chroma = 0,
     transform_bypass = False, scaling_matrix = False, log2_max_frame_num = 4, pic_order = Order2, max_num_ref_frames = 1, gaps_allowed = False,
     pic_width_in_mbs = 79, pic_height_in_map_units = 44\<rparr>"

lemma demo_bits: "concat (map (byte_bits 8) [0x95, 0xA0, 0x14, 0x01, 0x6E, 0x40]) =
    sps_bits False demo_syntax @ True # True # False # byte_bits 8 0x40"
  by code_simp

lemma macroblocks_size: "macroblocks 79 = 1280" "macroblocks 44 = 720"
  by (simp_all add: macroblocks_def)

theorem sps_size_roundtrip_witness:
  "avc_demux_sps (new_codec\<lparr>sequenceParameterSet := (length demo_sps, demo_sps)\<rparr>) =
    Some (0, new_codec\<lparr>sequenceParameterSet := (length demo_sps, demo_sps), avc_size := (1280, 720)\<rparr>)"
  using sps_size_roundtrip [where cd = "new_codec\<lparr>sequenceParameterSet := (length demo_sps, demo_sps)\<rparr>" and h = "0x67"
      and s = "tl demo_sps" and p = "0x42" and f = "0x80" and l = "0x29" and body = "[0x95, 0xA0, 0x14, 0x01, 0x6E, 0x40]"
      and x = demo_syntax and rest = "True # True # False # byte_bits 8 0x40"] demo_bits
  by (simp add: demo_sps_def high_profile_def macroblocks_size) (simp add: demo_syntax_def sps_fits_def macroblocks_size)

end
