(* ===== verification/Srs_Sound.thy ===== *)
theory Srs_Sound
  imports Srs_Live Srs_Sps
begin

text \<open>
  From the publisher to the player, sound and pictures together: the frames of sound the encoder made come back as frames with the same
  parameters and content, between the pictures as they were written.
\<close>

section \<open>Headers\<close>

lemma byte_bit: "bit (b :: u8) j \<Longrightarrow> j < 8"
  using bit_imp_le_length [of b j] by simp

lemma byte_bit_iff: "8 \<le> j \<Longrightarrow> \<not> bit (b :: u8) j"
  using byte_bit by force

lemma be_two: "(word_of_nat (be [x, y]) :: u16) = push_bit 8 (ucast x) OR ucast y"
proof -
  have "(push_bit 8 (ucast x) AND ucast y :: u16) = 0"
    by (rule bit_word_eqI) (auto simp: bit_simps dest: byte_bit)
  then have "(push_bit 8 (ucast x) OR ucast y :: u16) = push_bit 8 (ucast x) + ucast y"
    by (simp add: disjunctive_add_eq_or)
  then show ?thesis
    by (simp add: be_def push_bit_eq_mult unsigned_of_nat)
qed

lemma be_three: "(word_of_nat (be [x, y, z]) :: u32) = push_bit 16 (ucast x) OR push_bit 8 (ucast y) OR ucast z"
proof -
  have "(push_bit 8 (ucast y) AND ucast z :: u32) = 0" "(push_bit 16 (ucast x) AND (push_bit 8 (ucast y) OR ucast z) :: u32) = 0"
    by (rule bit_word_eqI; auto simp: bit_simps dest!: byte_bit)+
  then have "(push_bit 16 (ucast x) OR push_bit 8 (ucast y) OR ucast z :: u32) = push_bit 16 (ucast x) + (push_bit 8 (ucast y) + ucast z)"
    by (simp add: disjunctive_add_eq_or)
  then show ?thesis
    by (simp add: be_def push_bit_eq_mult algebra_simps)
qed

lemma high_bit: "take_bit n m = m \<Longrightarrow> n \<le> j \<Longrightarrow> \<not> bit m j"
  by (metis bit_take_bit_iff not_le)

lemma length_masks:
  assumes "13 \<le> j"
  shows "\<not> bit (6144 :: nat) j" "\<not> bit (6144 :: int) j" "\<not> bit (3 :: nat) (j - 11)" "\<not> bit (3 :: int) (j - 11)"
  using assms high_bit [of 13 "6144 :: nat" j] high_bit [of 13 "6144 :: int" j] high_bit [of 2 "3 :: nat" "j - 11"]
    high_bit [of 2 "3 :: int" "j - 11"] by simp_all

lemma adts_demux_fields:
  assumes "length h = 7" and "h ! 0 = 0xff" and "h ! 1 = 0xf9" and "adts_length h = word_of_nat (length u + 7)" and "length u \<le> 8184"
  shows "adts_demux (h @ u) = Some (Inr (\<lparr>ra_object = srs_codec_aac_ts2rtmp (adts_profile h), ra_rate = adts_rate h,
    ra_channels = adts_channels h\<rparr>, u, []))"
proof -
  obtain a b c d e f g where h: "h = [a, b, c, d, e, f, g]"
    using assms(1) by (auto simp: length_Suc_conv numeral_eq_Suc)
  let ?sfiv = "push_bit 8 (ucast c) OR ucast d :: u16"
  let ?abfv = "push_bit 16 (ucast e) OR push_bit 8 (ucast f) OR ucast g :: u32"
  have "ucast (drop_bit 14 ?sfiv AND 3) = adts_profile h"
    by (rule u8_eqI) (simp_all add: h adts_profile_def bit_simps byte_bit_iff)
  moreover have "ucast (drop_bit 10 ?sfiv AND 0x0f) = adts_rate h"
    by (rule u8_eqI) (simp_all add: h adts_rate_def bit_simps byte_bit_iff)
  moreover have "ucast (drop_bit 6 ?sfiv AND 7) = adts_channels h"
    by (rule u8_eqI) (simp_all add: h adts_channels_def bit_simps byte_bit_iff)
  moreover have "(push_bit 11 (ucast ?sfiv) AND 0x1800) OR (drop_bit 13 ?abfv AND 0x07ff) = adts_length h"
  proof (rule bit_word_eqI)
    fix j :: nat
    have "13 \<le> j \<or> j = 0 \<or> j = 1 \<or> j = 2 \<or> j = 3 \<or> j = 4 \<or> j = 5 \<or> j = 6 \<or> j = 7 \<or> j = 8 \<or> j = 9 \<or> j = 10 \<or> j = 11 \<or> j = 12"
      by presburger
    then show "bit ((push_bit 11 (ucast ?sfiv) AND 0x1800) OR (drop_bit 13 ?abfv AND 0x07ff)) j = bit (adts_length h) j"
      by (elim disjE) (auto simp: h adts_length_def bit_simps byte_bit_iff length_masks)
  qed
  moreover have "unat (adts_length h) = length u + 7"
    using assms(5) unfolding assms(4) by (simp add: unat_of_nat del: of_nat_add)
  ultimately show ?thesis
    using assms(2,3) by (simp add: adts_demux_def Let_def be_two be_three startswith_adts_def h)
qed

text \<open>What the player puts before a frame, the publisher's side of librtmp takes apart again.\<close>

lemma adts_demux_header:
  assumes "ra_object a \<in> {1, 2, 3}" and "aac_object cd = ra_object a" and "aac_sample_rate cd = ra_rate a" and "aac_channels cd = ra_channels a"
    and "ra_rate a < 16" and "ra_channels a < 8" and "length u \<le> 8184"
  shows "adts_demux (adts_header cd (word_of_nat (length u + 7)) @ u) = Some (Inr (a, u, []))"
proof -
  let ?h = "adts_header cd (word_of_nat (length u + 7))"
  have "(word_of_nat (length u + 7) :: u32) < 8192"
    using assms(7) by (simp add: word_less_nat_alt unat_of_nat del: of_nat_add)
  note fields = adts_header_small [of cd, OF _ _ this, unfolded assms(3,4), OF assms(5,6)]
  have "srs_codec_aac_ts2rtmp (adts_profile ?h) = ra_object a"
    using assms(1,2) fields by (auto simp: srs_codec_aac_rtmp2ts_def srs_codec_aac_ts2rtmp_def)
  then show ?thesis
    using adts_demux_fields [of ?h u] fields assms(7) by simp
qed

section \<open>Messages\<close>

text \<open>The parameters the publisher was told must agree with the frames of its encoder.\<close>

definition sound_ok :: "u8 \<Rightarrow> raw_aac \<Rightarrow> bool" where
  "sound_ok rate a \<longleftrightarrow> ra_object a \<in> {1, 2, 3} \<and> ra_rate a < 15 \<and> ra_channels a < 8 \<and>
     (rate = 1 \<longrightarrow> ra_rate a = 10) \<and> (rate = 2 \<longrightarrow> ra_rate a = 7) \<and> (rate = 3 \<longrightarrow> ra_rate a = 4)"

definition heard :: "raw_aac \<Rightarrow> codec \<Rightarrow> bool" where
  "heard a cd \<longleftrightarrow> (\<exists>sh. sh \<noteq> [] \<and> audio_of cd = (10, sh, ra_object a, ra_rate a, ra_channels a))"

lemma sound_byte:
  obtains b where "drop_bit 4 b = (10 :: u8)" and "\<And>u t. mux_aac2flv u 10 rate sz ty t = b # t # u"
proof
  let ?b = "(ty AND 1) OR (push_bit 1 sz AND 2) OR (push_bit 2 rate AND 0x0c) OR (push_bit 4 10 AND 0xf0) :: u8"
  show "drop_bit 4 ?b = 10"
    by (rule u8_eqI) (simp_all add: bit_simps)
  show "mux_aac2flv u 10 rate sz ty t = ?b # t # u" for u t
    by (simp add: mux_aac2flv_def)
qed

lemma sound_config:
  assumes "sound_ok rate a"
  shows "\<exists>sh. mux_aac_sequence_header a rate = Inr sh \<and> sh \<noteq> [] \<and> (\<forall>cd. audio_aac_sequence_header_demux sh cd =
    (0, cd\<lparr>aac_channels := ra_channels a, aac_sample_rate := ra_rate a, aac_object := ra_object a\<rparr>))"
proof -
  let ?r = "ra_rate a" and ?c = "ra_channels a"
  let ?x = "(push_bit 3 (word_of_int (ra_object a)) AND 0xf8) OR (drop_bit 1 ?r AND 0x07) :: u8"
  let ?y = "(push_bit 7 ?r AND 0x80) OR (push_bit 3 ?c AND 0x78) :: u8"
  have r: "\<not> bit ?r j" if "4 \<le> j" for j
    using small_word_bits [of ?r 4 j] assms that by (simp add: sound_ok_def word_less_nat_alt)
  have c: "\<not> bit ?c j" if "3 \<le> j" for j
    using small_word_bits [of ?c 3 j] assms that by (simp add: sound_ok_def word_less_nat_alt)
  have "drop_bit 3 ?y AND 0x0f = ?c"
    by (rule u8_eqI) (simp_all add: bit_simps c)
  moreover have "(push_bit 1 ?x AND 0x0e) OR (drop_bit 7 ?y AND 0x01) = ?r"
    by (rule u8_eqI) (simp_all add: mult.commute [of _ "2 :: u8"] bit_simps r numeral_2_eq_2 numeral_3_eq_3)
  moreover have "drop_bit 3 ?x AND 0x1f = word_of_int (ra_object a)"
    using assms by (intro u8_eqI) (auto simp: sound_ok_def bit_simps r)
  then have "uint (drop_bit 3 ?x AND 0x1f) = ra_object a"
    using assms by (auto simp: sound_ok_def)
  moreover have "mux_aac_sequence_header a rate = Inr [?x, ?y]"
    using assms by (auto simp: mux_aac_sequence_header_def sound_ok_def Let_def)
  ultimately show ?thesis
    using assms by (auto simp: audio_aac_sequence_header_demux_def Let_def sound_ok_def)
qed

lemma sound_header_read:
  assumes "sound_ok rate a"
  shows "\<exists>sh cd. mux_aac_sequence_header a rate = Inr sh \<and> sh \<noteq> [] \<and> heard a cd \<and>
    (\<forall>sps pps. ready sps pps cd = ready sps pps (srs_codec s)) \<and> payload_format cd = payload_format (srs_codec s) \<and>
    DoReadData \<lparr>pk_type = 8, pk_timestamp = ts, pk_data = mux_aac2flv sh 10 rate sz ty 0\<rparr> s = Some (s\<lparr>srs_codec := cd\<rparr>)"
proof -
  let ?cd = "(srs_codec s)\<lparr>audio_codec_id := 10\<rparr>"
  obtain sh where sh: "mux_aac_sequence_header a rate = Inr sh" "sh \<noteq> []" and
    read: "\<And>cd. audio_aac_sequence_header_demux sh cd =
      (0, cd\<lparr>aac_channels := ra_channels a, aac_sample_rate := ra_rate a, aac_object := ra_object a\<rparr>)"
    using sound_config [OF assms] by blast
  let ?cd' = "?cd\<lparr>aac_extra := sh, aac_channels := ra_channels a, aac_sample_rate := ra_rate a, aac_object := ra_object a\<rparr>"
  obtain b where b: "drop_bit 4 b = (10 :: u8)" "\<And>u t. mux_aac2flv u 10 rate sz ty t = b # t # u"
    using sound_byte [of rate sz ty] by blast
  have "\<exists>sample. audio_aac_demux (mux_aac2flv sh 10 rate sz ty 0) (srs_codec s) = Some (0, ?cd', sample) \<and> aac_packet_type sample = 0"
    using sh(2) b(1) by (simp add: b(2) audio_aac_demux_def read Let_def)
  then have "DoReadData \<lparr>pk_type = 8, pk_timestamp = ts, pk_data = mux_aac2flv sh 10 rate sz ty 0\<rparr> s = Some (s\<lparr>srs_codec := ?cd'\<rparr>)"
    by (auto simp: DoReadData_def)
  moreover have "heard a ?cd'" "\<forall>sps pps. ready sps pps ?cd' = ready sps pps (srs_codec s)"
    using sh(2) by (simp_all add: heard_def audio_of_def ready_def)
  moreover have "payload_format ?cd' = payload_format (srs_codec s)"
    by simp
  ultimately show ?thesis
    using sh by blast
qed

lemma sound_packet_read:
  assumes "heard a (srs_codec s)" and "ra_object a \<noteq> 0" and "u \<noteq> []" and "length u \<le> 1017" and "audio_payload s = []"
  shows "DoReadData \<lparr>pk_type = 8, pk_timestamp = ts, pk_data = mux_aac2flv u 10 rate sz ty 1\<rparr> s = Some (s\<lparr>pull_callbacks :=
    pull_callbacks s @ [OnRtmpullAACData (adts_header (srs_codec s) (word_of_nat (length u + 7)) @ u) ts]\<rparr>)"
proof -
  obtain b where b: "drop_bit 4 b = (10 :: u8)" "\<And>u t. mux_aac2flv u 10 rate sz ty t = b # t # u"
    using sound_byte [of rate sz ty] by blast
  have cd: "(srs_codec s)\<lparr>audio_codec_id := 10\<rparr> = srs_codec s" "aac_extra (srs_codec s) \<noteq> []" "audio_codec_id (srs_codec s) = 10"
    using assms(1) by (auto simp: heard_def audio_of_def)
  have "\<exists>sample. audio_aac_demux (mux_aac2flv u 10 rate sz ty 1) (srs_codec s) = Some (0, srs_codec s, sample) \<and>
      aac_packet_type sample = 1 \<and> sample_units sample = [u]"
    using cd assms(3) b(1) by (simp add: b(2) audio_aac_demux_def add_sample_unit_def new_sample_def Let_def)
  moreover  have "audio_units (srs_codec s) ts [u] s = (0, s\<lparr>pull_callbacks :=
      pull_callbacks s @ [OnRtmpullAACData (adts_header (srs_codec s) (word_of_nat (length u + 7)) @ u) ts]\<rparr>)"
    using assms(3-5) audio_units_frames [of "[u]" s] by (simp add: sound_frame_def)
  ultimately show ?thesis
    using assms(1,2) by (auto simp: DoReadData_def GotAudioSample_def heard_def audio_of_def simp del: audio_units.simps)
qed

section \<open>Publishing sound\<close>

lemma adts_demux_starts: "adts_demux f = Some (Inr x) \<Longrightarrow> startswith_adts f \<and> f \<noteq> []"
  by (auto simp: adts_demux_def split: if_splits)

lemma sound_frame_written:
  assumes "adts_demux f = Some (Inr (a, u, []))" and "srs_write_aac_adts_frame net 10 rate sz ty a u ts c = (0, c')"
  shows "srs_audio_write_raw_frame net 10 rate sz ty f ts c = Some (0, c')"
  using adts_demux_starts [OF assms(1)] assms
  by (simp add: srs_audio_write_raw_frame_def srs_write_aac_adts_frames.simps [of _ _ _ _ _ f] srs_write_aac_adts_frames.simps [of _ _ _ _ _ "[]"])

definition sound_linked :: "raw_aac \<Rightarrow> srs_context \<Rightarrow> pull \<Rightarrow> bool" where
  "sound_linked a c s \<longleftrightarrow> audio_payload s = [] \<and> (aac_specific_config c \<noteq> [] \<longrightarrow> heard a (srs_codec s))"

lemma packet_read_linked:
  assumes "linked sps pps c s" and "DoReadData pk s = Some s'" and "video_payload s' = video_payload s"
    and "\<And>sps pps. ready sps pps (srs_codec s') = ready sps pps (srs_codec s)"
    and "payload_format (srs_codec s') = payload_format (srs_codec s)"
  shows "linked sps pps (c\<lparr>sent := sent c @ [pk]\<rparr>) s'"
  using assms by (auto simp: linked_def read_all_snoc)

lemma raw_frame_written:
  "srs_write_audio_raw_frame accepting 10 rate sz ty t u ts c =
    (0, c\<lparr>sent := sent c @ [\<lparr>pk_type = 8, pk_timestamp = ts, pk_data = mux_aac2flv u 10 rate sz ty t\<rparr>]\<rparr>)"
  by (simp add: srs_write_audio_raw_frame_def srs_rtmp_write_packet_def srs_rtmp_create_msg_def)

lemma raw_frame_published:
  assumes "linked sps pps c s" and "heard a (srs_codec s)" and "audio_payload s = []" and "sound_ok rate a"
    and "u \<noteq> []" and "length u \<le> 1017"
  shows "\<exists>c' s' g. srs_write_audio_raw_frame accepting 10 rate sz ty 1 u ts c = (0, c') \<and> linked sps pps c' s' \<and> heard a (srs_codec s') \<and>
    audio_payload s' = [] \<and> h264_sps_pps_sent c' = h264_sps_pps_sent c \<and> aac_specific_config c' = aac_specific_config c \<and>
    pull_callbacks s' = pull_callbacks s @ [OnRtmpullAACData g ts] \<and> adts_demux g = Some (Inr (a, u, []))"
proof -
  let ?g = "adts_header (srs_codec s) (word_of_nat (length u + 7)) @ u"
  let ?s = "s\<lparr>pull_callbacks := pull_callbacks s @ [OnRtmpullAACData ?g ts]\<rparr>"
  let ?pk = "\<lparr>pk_type = 8, pk_timestamp = ts, pk_data = mux_aac2flv u 10 rate sz ty 1\<rparr>"
  have "ra_object a \<noteq> 0"
    using assms(4) by (auto simp: sound_ok_def)
  then have "DoReadData ?pk s = Some ?s"
    using assms by (intro sound_packet_read [of a]) simp_all
  then have "linked sps pps (c\<lparr>sent := sent c @ [?pk]\<rparr>) ?s"
    using assms(1) by (intro packet_read_linked [of _ _ _ s]) simp_all
  moreover have "adts_demux ?g = Some (Inr (a, u, []))"
    using assms(2,4,6) by (intro adts_demux_header) (auto simp: heard_def audio_of_def sound_ok_def word_less_nat_alt)
  ultimately show ?thesis
    using assms(2,3) by (intro exI [of _ "c\<lparr>sent := sent c @ [?pk]\<rparr>"] exI [of _ ?s] exI [of _ ?g]) (simp add: raw_frame_written)
qed

lemma sound_published:
  assumes "linked sps pps c s" and "sound_linked a c s" and "sound_ok rate a" and "adts_demux f = Some (Inr (a, u, []))"
    and "u \<noteq> []" and "length u \<le> 1017"
  shows "\<exists>c' s' g. srs_audio_write_raw_frame accepting 10 rate sz ty f ts c = Some (0, c') \<and> linked sps pps c' s' \<and> sound_linked a c' s' \<and>
    h264_sps_pps_sent c' = h264_sps_pps_sent c \<and> pull_callbacks s' = pull_callbacks s @ [OnRtmpullAACData g ts] \<and> adts_demux g = adts_demux f"
proof -
  have silent: "audio_payload s = []"
    using assms(2) by (simp add: sound_linked_def)
  obtain c' s' g where w: "srs_write_aac_adts_frame accepting 10 rate sz ty a u ts c = (0, c')" "linked sps pps c' s'" "heard a (srs_codec s')"
    "audio_payload s' = []" "h264_sps_pps_sent c' = h264_sps_pps_sent c" "pull_callbacks s' = pull_callbacks s @ [OnRtmpullAACData g ts]"
    "adts_demux g = Some (Inr (a, u, []))"
  proof (cases "aac_specific_config c = []")
    case False
    then have "heard a (srs_codec s)"
      using assms(2) by (simp add: sound_linked_def)
    from raw_frame_published [where sz = sz and ty = ty and ts = ts, OF assms(1) this silent assms(3,5,6)] False that show thesis
      by (auto simp: srs_write_aac_adts_frame_def)
  next
    case True
    obtain sh cd where sh: "mux_aac_sequence_header a rate = Inr sh" "sh \<noteq> []" "heard a cd"
      "\<And>sps pps. ready sps pps cd = ready sps pps (srs_codec s)" "payload_format cd = payload_format (srs_codec s)"
      "DoReadData \<lparr>pk_type = 8, pk_timestamp = ts, pk_data = mux_aac2flv sh 10 rate sz ty 0\<rparr> s = Some (s\<lparr>srs_codec := cd\<rparr>)"
      using sound_header_read [where s = s, OF assms(3)] by blast
    let ?c = "c\<lparr>aac_specific_config := sh\<rparr>"
    have "linked sps pps ?c s"
      using assms(1) by (simp add: linked_def)
    from packet_read_linked [OF this sh(6)] sh(4,5)
    have "linked sps pps (?c\<lparr>sent := sent ?c @ [\<lparr>pk_type = 8, pk_timestamp = ts, pk_data = mux_aac2flv sh 10 rate sz ty 0\<rparr>]\<rparr>)
      (s\<lparr>srs_codec := cd\<rparr>)"
      by simp
    from raw_frame_published [where sz = sz and ty = ty and ts = ts, OF this _ _ assms(3,5,6)] sh(1,3) silent True that show thesis
      by (auto simp: srs_write_aac_adts_frame_def raw_frame_written)
  qed
  then show ?thesis
    using sound_frame_written [OF assms(4) w(1)] assms(4) by (auto simp: sound_linked_def)
qed

section \<open>The whole way\<close>

text \<open>A stream as the publisher gives it to librtmp: units behind start codes and frames of sound, each with its time.\<close>

datatype stream_item = NalUnit bytes bytes u32 | SoundFrame bytes u32

fun write_items :: "net \<Rightarrow> u8 \<Rightarrow> u8 \<Rightarrow> u8 \<Rightarrow> stream_item list \<Rightarrow> srs_context \<Rightarrow> srs_context option" where
  "write_items net rate sz ty [] c = Some c"
| "write_items net rate sz ty (NalUnit k u ts # is) c =
     do { (ret, c) \<leftarrow> srs_h264_write_raw_frames net (k @ u) ts ts c; write_items net rate sz ty is c }"
| "write_items net rate sz ty (SoundFrame f ts # is) c =
     do { (ret, c) \<leftarrow> srs_audio_write_raw_frame net 10 rate sz ty f ts c; write_items net rate sz ty is c }"

fun item_ok :: "bytes \<Rightarrow> bytes \<Rightarrow> raw_aac \<Rightarrow> stream_item \<Rightarrow> bool" where
  "item_ok sps pps a (NalUnit k u ts) \<longleftrightarrow> is_code k \<and> unit_ok sps pps u"
| "item_ok sps pps a (SoundFrame f ts) \<longleftrightarrow> (case adts_demux f of
     Some (Inr (b, u, rest)) \<Rightarrow> b = a \<and> rest = [] \<and> u \<noteq> [] \<and> length u \<le> 1017 | _ \<Rightarrow> False)"

fun item_time :: "stream_item \<Rightarrow> u32" where
  "item_time (NalUnit k u ts) = ts"
| "item_time (SoundFrame f ts) = ts"

fun visible :: "stream_item \<Rightarrow> bool" where
  "visible (NalUnit k u ts) \<longleftrightarrow> live_picture u"
| "visible (SoundFrame f ts) \<longleftrightarrow> True"

definition pictures_in :: "stream_item list \<Rightarrow> bytes list" where
  "pictures_in is = concat (map (\<lambda>i. case i of NalUnit k u ts \<Rightarrow> if live_picture u then [u] else [] | _ \<Rightarrow> []) is)"

text \<open>What the player must call back with: the shown picture, or a frame that is taken apart into the same parameters and data.\<close>

fun played :: "bytes \<Rightarrow> bytes \<Rightarrow> stream_item \<Rightarrow> pull_callback \<Rightarrow> bool" where
  "played sps pps (NalUnit k u ts) cb \<longleftrightarrow> cb = OnRtmpullH264Data (shown sps pps u) ts"
| "played sps pps (SoundFrame f ts) cb \<longleftrightarrow> (case cb of OnRtmpullAACData g t \<Rightarrow> t = ts \<and> adts_demux g = adts_demux f | _ \<Rightarrow> False)"

text \<open>What one item does to the two ends.\<close>

definition passed :: "bytes \<Rightarrow> bytes \<Rightarrow> raw_aac \<Rightarrow> stream_item list \<Rightarrow> srs_context \<times> pull \<Rightarrow> srs_context \<times> pull \<Rightarrow> bool" where
  "passed sps pps a is x y \<longleftrightarrow> linked sps pps (fst y) (snd y) \<and> sound_linked a (fst y) (snd y) \<and>
     (\<exists>cbs. pull_callbacks (snd y) = pull_callbacks (snd x) @ cbs \<and> list_all2 (played sps pps) (filter visible is) cbs)"

lemma passed_trans: "passed sps pps a is x y \<Longrightarrow> passed sps pps a js y z \<Longrightarrow> passed sps pps a (is @ js) x z"
  unfolding passed_def by (auto intro!: list_all2_appendI)

lemma unit_passed:
  assumes "linked sps pps c s" and "sound_linked a c s" and "sets_ok sps pps" and "is_code k" and "unit_ok sps pps u"
    and "live_picture u \<longrightarrow> h264_sps_pps_sent c \<or> recognised u"
  shows "\<exists>ret c' s'. srs_h264_write_raw_frames accepting (k @ u) ts ts c = Some (ret, c') \<and> passed sps pps a [NalUnit k u ts] (c, s) (c', s') \<and>
    (h264_sps_pps_sent c' \<longleftrightarrow> h264_sps_pps_sent c \<or> live_picture u)"
proof (cases "live_picture u")
  case True
  with assms(3,5) have "length sps + length pps + length u + 12 \<le> video_size" "u \<noteq> []"
    by (auto simp: unit_ok_def live_picture_def sets_ok_def)
  with picture_published [OF assms(1,3) True, of ts] assms(6) True obtain c' s' where w:
    "srs_write_h264_raw_frame accepting u ts ts c = Some (0, c')" "linked sps pps c' s'" "h264_sps_pps_sent c'"
    "aac_specific_config c' = aac_specific_config c" "audio_of (srs_codec s') = audio_of (srs_codec s)" "audio_payload s' = audio_payload s"
    "pull_callbacks s' = pull_callbacks s @ [OnRtmpullH264Data (shown sps pps u) ts]"
    by blast
  then have "passed sps pps a [NalUnit k u ts] (c, s) (c', s')"
    using assms(2) True by (simp add: passed_def sound_linked_def heard_def)
  with w(1,3) show ?thesis
    using assms(4) \<open>u \<noteq> []\<close> True by (auto simp: write_unit)
next
  case False
  with assms(5) have "u = sps \<or> u = pps"
    by (auto simp: unit_ok_def)
  with set_written [OF assms(1,3)] obtain ret where "srs_write_h264_raw_frame accepting u ts ts c = Some (ret, c)"
    by blast
  moreover have "u \<noteq> []"
    using \<open>u = sps \<or> u = pps\<close> assms(3) by (auto simp: sets_ok_def set_ok_def)
  ultimately show ?thesis
    using assms(1,2,4) False by (intro exI [of _ ret] exI [of _ c] exI [of _ s]) (simp add: write_unit passed_def)
qed

lemma sound_passed:
  assumes "linked sps pps c s" and "sound_linked a c s" and "sound_ok rate a" and "item_ok sps pps a (SoundFrame f ts)"
  shows "\<exists>c' s'. srs_audio_write_raw_frame accepting 10 rate sz ty f ts c = Some (0, c') \<and> passed sps pps a [SoundFrame f ts] (c, s) (c', s') \<and>
    h264_sps_pps_sent c' = h264_sps_pps_sent c"
proof -
  obtain u where "adts_demux f = Some (Inr (a, u, []))" "u \<noteq> []" "length u \<le> 1017"
    using assms(4) by (auto split: option.splits sum.splits prod.splits)
  from sound_published [where sz = sz and ty = ty and ts = ts, OF assms(1-3) this] obtain c' s' g where
    "srs_audio_write_raw_frame accepting 10 rate sz ty f ts c = Some (0, c')" "linked sps pps c' s'" "sound_linked a c' s'"
    "h264_sps_pps_sent c' = h264_sps_pps_sent c" "pull_callbacks s' = pull_callbacks s @ [OnRtmpullAACData g ts]" "adts_demux g = adts_demux f"
    by blast
  then show ?thesis
    by (intro exI [of _ c'] exI [of _ s']) (simp add: passed_def)
qed

definition pending_ok :: "stream_item list \<Rightarrow> srs_context \<Rightarrow> bool" where
  "pending_ok is c \<longleftrightarrow> h264_sps_pps_sent c \<or> pictures_in is = [] \<or> recognised (hd (pictures_in is))"

lemma item_passed:
  assumes "linked sps pps c s" and "sound_linked a c s" and "sets_ok sps pps" and "sound_ok rate a" and "item_ok sps pps a i"
    and "pending_ok (i # is) c"
  shows "\<exists>c' s'. write_items accepting rate sz ty (i # is) c = write_items accepting rate sz ty is c' \<and>
    passed sps pps a [i] (c, s) (c', s') \<and> pending_ok is c'"
proof (cases i)
  case (NalUnit k u ts)
  with assms(5,6) have "is_code k" "unit_ok sps pps u" "live_picture u \<longrightarrow> h264_sps_pps_sent c \<or> recognised u"
    by (auto simp: pending_ok_def pictures_in_def)
  from unit_passed [OF assms(1-3) this, of ts] obtain ret c' s' where w:
    "srs_h264_write_raw_frames accepting (k @ u) ts ts c = Some (ret, c')" "passed sps pps a [NalUnit k u ts] (c, s) (c', s')"
    "h264_sps_pps_sent c' \<longleftrightarrow> h264_sps_pps_sent c \<or> live_picture u"
    by blast
  with assms(6) have "pending_ok is c'"
    by (auto simp: pending_ok_def pictures_in_def NalUnit)
  with w show ?thesis
    by (auto simp: NalUnit)
next
  case (SoundFrame f ts)
  with assms(5) have "item_ok sps pps a (SoundFrame f ts)"
    by simp
  from sound_passed [where sz = sz and ty = ty, OF assms(1,2,4) this] obtain c' s' where w:
    "srs_audio_write_raw_frame accepting 10 rate sz ty f ts c = Some (0, c')" "passed sps pps a [SoundFrame f ts] (c, s) (c', s')"
    "h264_sps_pps_sent c' = h264_sps_pps_sent c"
    by blast
  with assms(6) have "pending_ok is c'"
    by (simp add: pending_ok_def pictures_in_def SoundFrame)
  with w show ?thesis
    by (auto simp: SoundFrame)
qed

lemma items_passed:
  assumes "linked sps pps c s" and "sound_linked a c s" and "sets_ok sps pps" and "sound_ok rate a" and "list_all (item_ok sps pps a) is"
    and "pending_ok is c"
  shows "\<exists>c' s'. write_items accepting rate sz ty is c = Some c' \<and> passed sps pps a is (c, s) (c', s')"
  using assms(1,2,5,6)
proof (induction "is" arbitrary: c s)
  case Nil
  then show ?case
    by (auto simp: passed_def)
next
  case (Cons i "is")
  from Cons.prems(3) have "item_ok sps pps a i"
    by simp
  from item_passed [where sz = sz and ty = ty, OF Cons.prems(1,2) assms(3,4) this Cons.prems(4)] obtain c' s' where w:
    "write_items accepting rate sz ty (i # is) c = write_items accepting rate sz ty is c'" "passed sps pps a [i] (c, s) (c', s')" "pending_ok is c'"
    by blast
  from w(2) have "linked sps pps c' s'" "sound_linked a c' s'"
    by (simp_all add: passed_def)
  from Cons.IH [OF this _ w(3)] Cons.prems(3) obtain c2 s2 where
    "write_items accepting rate sz ty is c' = Some c2" "passed sps pps a is (c', s') (c2, s2)"
    by auto
  then show ?case
    using w(1) passed_trans [OF w(2), of "is"] by auto
qed

lemma stream_passed:
  assumes "sets_ok sps pps" and "sound_ok rate a" and "is_code k1" and "is_code k2" and "list_all (item_ok sps pps a) is"
    and "pictures_in is = [] \<or> recognised (hd (pictures_in is))"
  shows "\<exists>c s. write_items accepting rate sz ty (NalUnit k1 sps t1 # NalUnit k2 pps t2 # is) new_context = Some c \<and>
    write_items accepting rate sz ty is (new_context\<lparr>h264_sps_changed := True, h264_sps := sps, h264_pps_changed := True, h264_pps := pps\<rparr>) = Some c \<and>
    read_all (sent c) = Some s \<and> list_all2 (played sps pps) (filter visible is) (pull_callbacks s)"
proof -
  let ?c = "new_context\<lparr>h264_sps_changed := True, h264_sps := sps, h264_pps_changed := True, h264_pps := pps\<rparr>"
  have nonempty: "sps \<noteq> []" "pps \<noteq> []"
    using assms(1) by (simp_all add: sets_ok_def set_ok_def)
  have "write_items accepting rate sz ty (NalUnit k1 sps t1 # NalUnit k2 pps t2 # is) new_context = write_items accepting rate sz ty is ?c"
    using assms(1) nonempty by (simp add: write_unit [OF assms(3)] write_unit [OF assms(4)] srs_write_h264_raw_frame_def sets_ok_def
        new_context_def sps_demux_def)
  moreover have "linked sps pps ?c new_pull"
    by (simp add: linked_def new_context_def read_all_def new_pull_def)
  moreover have "sound_linked a ?c new_pull"
    by (simp add: sound_linked_def new_context_def new_pull_def)
  ultimately show ?thesis
    using items_passed [where sz = sz and ty = ty, of sps pps ?c new_pull a rate "is"] assms
    by (auto simp: pending_ok_def passed_def linked_def new_pull_def)
qed

text \<open>A picture parameter set and a short frame of stereo sound of 44100 Hz.\<close>

definition demo_pps :: bytes where
  "demo_pps = [0x68, 0xCE, 0x38, 0x80]"

definition demo_sound :: bytes where
  "demo_sound = [0xFF, 0xF1, 0x50, 0x80, 0x01, 0x3F, 0xFC, 0x21, 0x10]"

definition demo_aac :: raw_aac where
  "demo_aac = \<lparr>ra_object = 2, ra_rate = 4, ra_channels = 2\<rparr>"

definition demo_items :: "stream_item list" where
  "demo_items = [SoundFrame demo_sound 20, NalUnit [0, 0, 1] [0x65, 0xB8, 4] 40, SoundFrame demo_sound 60,
     NalUnit [0, 0, 0, 1] demo_sps 80, NalUnit [0, 0, 0, 1] [0x41, 0xE0] 80]"

lemma demo_sound_frame: "adts_demux demo_sound = Some (Inr (demo_aac, [0x21, 0x10], []))"
  by (simp add: demo_sound_def demo_aac_def adts_demux_def be_two be_three startswith_adts_def srs_codec_aac_ts2rtmp_def Let_def)

lemma demo_size: "avc_demux_sps (new_codec\<lparr>sequenceParameterSet := (length demo_sps, demo_sps)\<rparr>) =
    Some (0, new_codec\<lparr>sequenceParameterSet := (length demo_sps, demo_sps), avc_size := (1280, 720)\<rparr>)"
  by code_simp

lemma demo_ok:
  "sets_ok demo_sps demo_pps" "sound_ok 3 demo_aac" "is_code [0, 0, 0, 1]" "list_all (item_ok demo_sps demo_pps demo_aac) demo_items"
  "pictures_in demo_items = [] \<or> recognised (hd (pictures_in demo_items))" "list_all (\<lambda>i. unat (item_time i) < 2 ^ 31) demo_items"
proof -
  have "sps_readable demo_sps"
    by (simp add: sps_readable_def demo_size)
  then show "sets_ok demo_sps demo_pps"
    by (simp add: sets_ok_def set_ok_def nal_type_def) (simp add: demo_sps_def demo_pps_def)
  show "sound_ok 3 demo_aac"
    by (simp add: sound_ok_def demo_aac_def)
  show "list_all (item_ok demo_sps demo_pps demo_aac) demo_items"
    by (simp add: demo_items_def demo_sound_frame is_code_def unit_ok_def live_picture_def nal_type_def video_size_def)
      (simp add: demo_sps_def demo_pps_def)
  have "recognised [0x65, 0xB8, 4]"
    by (simp add: recognised_def mux_ipb_frame_def be_bytes_def upt_rec)
  then show "pictures_in demo_items = [] \<or> recognised (hd (pictures_in demo_items))"
    by (simp add: demo_items_def pictures_in_def live_picture_def nal_type_def)
  show "is_code [0, 0, 0, 1]" "list_all (\<lambda>i. unat (item_time i) < 2 ^ 31) demo_items"
    by (simp_all add: is_code_def demo_items_def)
qed

text \<open>The parameter set among them is not shown.\<close>

lemma demo_visible: "filter visible demo_items = [SoundFrame demo_sound 20, NalUnit [0, 0, 1] [0x65, 0xB8, 4] 40, SoundFrame demo_sound 60,
    NalUnit [0, 0, 0, 1] [0x41, 0xE0] 80]"
  by (simp add: demo_items_def live_picture_def nal_type_def) (simp add: demo_sps_def)

end
