(* ===== verification/Srs_Whole.thy ===== *)
theory Srs_Whole
  imports Srs_Sound Srs_Wire
begin

text \<open>
  The whole way of a stream: pictures and sound become packets, packets become chunks on the connection, and the player at the other end
  of it shows what was published.
\<close>

section \<open>The packets of the publisher\<close>

text \<open>All packets sent so far can be carried, and the parameter sets are small.\<close>

definition sent_ok :: "srs_context \<Rightarrow> bool" where
  "sent_ok c \<longleftrightarrow> list_all packet_ok (sent c) \<and> length (h264_sps c) < 65536 \<and> length (h264_pps c) < 65536"

lemma packet_sent:
  assumes "srs_rtmp_write_packet net t ts d c = (ret, c')" and "sent_ok c" and "t = 8 \<or> t = 9" and "d \<noteq> []" and "length d < 2 ^ 24" and "unat ts < 2 ^ 31"
  shows "sent_ok c'"
proof -
  have "packet_ok \<lparr>pk_type = t, pk_timestamp = ts, pk_data = d\<rparr>"
    using assms(3-6) by (auto simp: packet_ok_def)
  then show ?thesis
    using assms(1-3) by (auto simp: srs_rtmp_write_packet_def srs_rtmp_create_msg_def sent_ok_def)
qed

lemma length_mux_avc2flv [simp]: "length (mux_avc2flv d ft pt ts us) = length d + 5"
  by (simp add: mux_avc2flv_def)

lemma mux_avc2flv_nonempty [simp]: "mux_avc2flv d ft pt ts us \<noteq> []"
  by (simp add: mux_avc2flv_def)

lemma sets_sent:
  assumes "srs_write_h264_sps_pps net ts ts c = Some (ret, c')" and "sent_ok c" and "unat ts < 2 ^ 31"
  shows "sent_ok c'"
proof (cases "h264_sps_changed c \<or> h264_pps_changed c")
  case False
  with assms show ?thesis
    by (simp add: srs_write_h264_sps_pps_def)
next
  case True
  let ?c = "c\<lparr>h264_sps_changed := False, h264_pps_changed := False, h264_sps_pps_sent := True\<rparr>"
  obtain sh where sh: "mux_avc_sequence_header (h264_sps c) (h264_pps c) = Some sh"
    "srs_rtmp_write_packet net 9 ts (mux_avc2flv sh 1 0 ts ts) ?c = (ret, c')"
    using assms(1) True by (auto simp: srs_write_h264_sps_pps_def split: bind_splits)
  have "sent_ok ?c" and "length sh < 65536 * 2 + 11"
    using assms(2) sh(1) by (auto simp: sent_ok_def mux_avc_sequence_header_def need_def split: if_split_asm)
  then show ?thesis
    using packet_sent [OF sh(2)] assms(3) by simp
qed

lemma unit_sent:
  assumes "srs_write_h264_raw_frame net u ts ts c = Some (ret, c')" and "sent_ok c" and "unat ts < 2 ^ 31" and "length u < 2 ^ 23"
    and "nal_type (u ! 0) \<in> {7, 8} \<Longrightarrow> length u < 65536"
  shows "sent_ok c'"
proof (cases "u \<noteq> [] \<and> nal_type (u ! 0) \<in> {1, 5, 9}")
  case False
  with assms show ?thesis
    by (auto simp: srs_write_h264_raw_frame_def sps_demux_def sent_ok_def Let_def split: if_split_asm)
next
  case True
  then obtain ret1 c1 where c1: "srs_write_h264_sps_pps net ts ts c = Some (ret1, c1)"
    "(if ret1 \<noteq> 0 then (ret1, c1) else srs_write_h264_ipb_frame net u ts ts c1) = (ret, c')"
    using assms(1) by (auto simp: srs_write_h264_raw_frame_def Let_def split: bind_splits)
  have "sent_ok c1"
    using sets_sent [OF c1(1) assms(2,3)] .
  moreover have "length (mux_ipb_frame u) + 5 < 2 ^ 24"
    using assms(4) by (simp add: mux_ipb_frame_def)
  ultimately show ?thesis
    using c1(2) packet_sent [OF _ _ _ mux_avc2flv_nonempty _ assms(3), of net 9 "mux_ipb_frame u" _ 1 ts ts c1 ret c']
    by (auto simp: srs_write_h264_ipb_frame_def split: if_split_asm)
qed

lemma sound_sent:
  assumes "srs_write_audio_raw_frame net 10 rate sz ty pt u ts c = (ret, c')" and "sent_ok c" and "length u \<le> 1017" and "unat ts < 2 ^ 31"
  shows "sent_ok c'"
  using assms by (auto simp: srs_write_audio_raw_frame_def mux_aac2flv_def elim!: packet_sent)

lemma adts_sent:
  assumes "srs_write_aac_adts_frame net 10 rate sz ty a u ts c = (ret, c')" and "sent_ok c" and "length u \<le> 1017" and "unat ts < 2 ^ 31"
  shows "sent_ok c'"
proof (cases "aac_specific_config c = []")
  case False
  with assms sound_sent show ?thesis
    by (auto simp: srs_write_aac_adts_frame_def)
next
  case True
  show ?thesis
  proof (cases "mux_aac_sequence_header a rate")
    case (Inl e)
    with True assms show ?thesis
      by (simp add: srs_write_aac_adts_frame_def)
  next
    case (Inr sh)
    obtain ret1 c1 where c1: "srs_write_audio_raw_frame net 10 rate sz ty 0 sh ts (c\<lparr>aac_specific_config := sh\<rparr>) = (ret1, c1)"
      by fastforce
    have "length sh \<le> 1017" "sent_ok (c\<lparr>aac_specific_config := sh\<rparr>)"
      using Inr assms(2) by (auto simp: mux_aac_sequence_header_def sent_ok_def Let_def split: if_split_asm)
    with sound_sent [OF c1] assms(4) have "sent_ok c1"
      by simp
    then show ?thesis
      using True Inr c1 assms sound_sent [OF _ _ assms(3,4), of net rate sz ty 1 c1 ret c']
      by (auto simp: srs_write_aac_adts_frame_def split: if_split_asm)
  qed
qed

lemma item_sent:
  assumes "write_items net rate sz ty (i # is) c = Some c'" and "item_ok sps pps a i" and "sets_ok sps pps" and "unat (item_time i) < 2 ^ 31"
    and "sent_ok c"
  shows "\<exists>c1. sent_ok c1 \<and> write_items net rate sz ty is c1 = Some c'"
proof (cases i)
  case (NalUnit k u ts)
  have u: "is_code k" "u \<noteq> []" "length u < 2 ^ 23" "nal_type (u ! 0) \<in> {7, 8} \<Longrightarrow> length u < 65536"
    using assms(2,3) by (auto simp: NalUnit unit_ok_def sets_ok_def set_ok_def live_picture_def video_size_def)
  obtain ret c1 where "srs_write_h264_raw_frame net u ts ts c = Some (ret, c1)" "write_items net rate sz ty is c1 = Some c'"
    using assms(1) by (auto simp: NalUnit write_unit [OF u(1,2)] split: bind_splits)
  with unit_sent [OF this(1) assms(5) _ u(3,4)] assms(4) show ?thesis
    by (auto simp: NalUnit)
next
  case (SoundFrame f ts)
  obtain u where u: "adts_demux f = Some (Inr (a, u, []))" "length u \<le> 1017"
    using assms(2) by (auto simp: SoundFrame split: option.splits sum.splits prod.splits)
  obtain ret c1 where c1: "srs_write_aac_adts_frame net 10 rate sz ty a u ts c = (ret, c1)"
    by fastforce
  have "srs_audio_write_raw_frame net 10 rate sz ty f ts c = Some (ret, c1)"
    using adts_demux_starts [OF u(1)] u(1) c1
    by (simp add: srs_audio_write_raw_frame_def srs_write_aac_adts_frames.simps [of _ _ _ _ _ f] srs_write_aac_adts_frames.simps [of _ _ _ _ _ "[]"])
  with assms(1) have "write_items net rate sz ty is c1 = Some c'"
    by (simp add: SoundFrame)
  with adts_sent [OF c1 assms(5) u(2)] assms(4) show ?thesis
    by (auto simp: SoundFrame)
qed

lemma items_sent:
  assumes "write_items net rate sz ty is c = Some c'" and "list_all (item_ok sps pps a) is" and "sets_ok sps pps"
    and "list_all (\<lambda>i. unat (item_time i) < 2 ^ 31) is" and "sent_ok c"
  shows "sent_ok c'"
  using assms(1,2,4,5)
proof (induction "is" arbitrary: c)
  case (Cons i "is")
  then have "item_ok sps pps a i" "unat (item_time i) < 2 ^ 31"
    by simp_all
  from item_sent [OF Cons.prems(1) this(1) assms(3) this(2) Cons.prems(4)] Cons.IH Cons.prems(2,3) show ?case
    by auto
qed simp

section \<open>The whole way\<close>

lemma packets_of_reads [simp]: "map (snd \<circ> Pair e) xs = xs"
  by (simp add: comp_def)

text \<open>C5. What is published is what is played, over the connection: after the parameter sets, every picture and every frame of sound of the
  publisher, sent as chunks and read in any pieces, arrives at the player in order and with its time, a picture as the same unit behind a
  start code and, if it is a refresh picture, behind the parameter sets, sound as a frame with the same parameters and data. Times are below
  \<open>2 ^ 31\<close> milliseconds, the length of the first picture does not look like a start code, a frame of sound has at most 1017 bytes.
\<close>

theorem published_crosses_wire:
  assumes "sets_ok sps pps" and "sound_ok rate a" and "is_code k1" and "is_code k2" and "list_all (item_ok sps pps a) is"
    and "pictures_in is = [] \<or> recognised (hd (pictures_in is))" and "list_all (\<lambda>i. unat (item_time i) < 2 ^ 31) is"
    and "0 < n" and "n \<le> 65536"
  shows "\<exists>c q. write_items (\<lambda>_ _. 0) rate sz ty (NalUnit k1 sps t1 # NalUnit k2 pps t2 # is) new_context = Some c \<and>
    write_packets accepts sid (sent c) (cl_protocol (new_client n [])) = (Inr (), q) \<and>
    (\<forall>rs. incoming rs = concat (written q) \<longrightarrow>
      (\<exists>s. read_all (map snd (read_packets accepts (length (sent c)) (new_client n rs))) = Some s \<and>
        list_all2 (played sps pps) (filter visible is) (pull_callbacks s)))"
proof -
  let ?c = "new_context\<lparr>h264_sps_changed := True, h264_sps := sps, h264_pps_changed := True, h264_pps := pps\<rparr>"
  obtain c s where w: "write_items accepting rate sz ty (NalUnit k1 sps t1 # NalUnit k2 pps t2 # is) new_context = Some c"
    "write_items accepting rate sz ty is ?c = Some c" "read_all (sent c) = Some s" "list_all2 (played sps pps) (filter visible is) (pull_callbacks s)"
    using stream_passed [OF assms(1-6)] by blast
  have "sent_ok ?c"
    using assms(1) by (simp add: sent_ok_def new_context_def sets_ok_def set_ok_def)
  from items_sent [OF w(2) assms(5,1,7) this] have ok: "list_all packet_ok (sent c)"
    by (simp add: sent_ok_def)
  let ?p = "cl_protocol (new_client n [])"
  have p: "written ?p = []" "out_chunk_size ?p = n"
    by (simp_all add: new_client_def new_protocol_def)
  obtain r q where q: "write_packets accepts sid (sent c) ?p = (r, q)"
    by fastforce
  note cross = crosses_wire [OF ok assms(8,9) p q]
  have "r = Inr ()"
    using cross [of "[Received (concat (written q))]" "[]"] by simp
  with q w cross [where s = "[]"] show ?thesis
    by (intro exI [of _ c] exI [of _ q]) simp
qed

theorem published_crosses_wire_witness:
  "\<exists>c q. write_items (\<lambda>_ _. 0) 3 1 1 (NalUnit [0, 0, 0, 1] demo_sps 0 # NalUnit [0, 0, 0, 1] demo_pps 0 # demo_items) new_context = Some c \<and>
    write_packets accepts 1 (sent c) (cl_protocol (new_client 128 [])) = (Inr (), q) \<and>
    (\<exists>s. read_all (map snd (read_packets accepts (length (sent c)) (new_client 128 [Received (concat (written q))]))) = Some s \<and>
      list_all2 (played demo_sps demo_pps) [SoundFrame demo_sound 20, NalUnit [0, 0, 1] [0x65, 0xB8, 4] 40,
        SoundFrame demo_sound 60, NalUnit [0, 0, 0, 1] [0x41, 0xE0] 80] (pull_callbacks s))"
proof -
  have incoming: "incoming [Received bs] = bs" for bs
    by simp
  show ?thesis
    using published_crosses_wire [OF demo_ok(1-2) demo_ok(3) demo_ok(3) demo_ok(4-6), of 128 1 1 0 0 1] incoming
    unfolding demo_visible by fastforce
qed

end
