(* ===== verification/Amf0.thy ===== *)
theory Amf0
  imports Srs_Stream
begin

text \<open>
  The values of AMF0 (\<open>SrsAmf0Any\<close> and its classes in \<open>AnyCore/srs_librtmp/srs_librtmp.cpp\<close>), in which the
  commands of a session are written: reading them from what is left of a stream, writing them into a stream with room for so many bytes,
  their sizes, copies and properties. A number is the 64 bits of a double.
\<close>

section \<open>Values\<close>

type_synonym u64 = "64 word"

datatype amf0 = Str bytes | Boolean bool | Number u64 | Null | Undefined | Object "(bytes \<times> amf0) list" | EcmaArray u32 "(bytes \<times> amf0) list"
  | StrictArray u32 "amf0 list" | Date u64 u16 | ObjectEOF

definition RTMP_AMF0_Number :: u8 where
  "RTMP_AMF0_Number = 0x00"

definition RTMP_AMF0_Boolean :: u8 where
  "RTMP_AMF0_Boolean = 0x01"

definition RTMP_AMF0_String :: u8 where
  "RTMP_AMF0_String = 0x02"

definition RTMP_AMF0_Object :: u8 where
  "RTMP_AMF0_Object = 0x03"

definition RTMP_AMF0_Null :: u8 where
  "RTMP_AMF0_Null = 0x05"

definition RTMP_AMF0_Undefined :: u8 where
  "RTMP_AMF0_Undefined = 0x06"

definition RTMP_AMF0_EcmaArray :: u8 where
  "RTMP_AMF0_EcmaArray = 0x08"

definition RTMP_AMF0_ObjectEnd :: u8 where
  "RTMP_AMF0_ObjectEnd = 0x09"

definition RTMP_AMF0_StrictArray :: u8 where
  "RTMP_AMF0_StrictArray = 0x0A"

definition RTMP_AMF0_Date :: u8 where
  "RTMP_AMF0_Date = 0x0B"

lemmas amf0_markers = RTMP_AMF0_Number_def RTMP_AMF0_Boolean_def RTMP_AMF0_String_def RTMP_AMF0_Object_def RTMP_AMF0_Null_def
  RTMP_AMF0_Undefined_def RTMP_AMF0_EcmaArray_def RTMP_AMF0_ObjectEnd_def RTMP_AMF0_StrictArray_def RTMP_AMF0_Date_def

definition ERROR_RTMP_AMF0_DECODE :: int where
  "ERROR_RTMP_AMF0_DECODE = 2003"

definition ERROR_RTMP_AMF0_INVALID :: int where
  "ERROR_RTMP_AMF0_INVALID = 2004"

definition ERROR_RTMP_AMF0_ENCODE :: int where
  "ERROR_RTMP_AMF0_ENCODE = 2009"

section \<open>Properties\<close>

text \<open>A property that is set goes to the end, and a null pointer only removes.\<close>

type_synonym properties = "(bytes \<times> amf0) list"

fun remove_first :: "bytes \<Rightarrow> properties \<Rightarrow> properties" where
  "remove_first k [] = []"
| "remove_first k ((k', v) # ps) = (if k = k' then ps else (k', v) # remove_first k ps)"

definition set_property :: "bytes \<Rightarrow> amf0 option \<Rightarrow> properties \<Rightarrow> properties" where
  "set_property k v ps = remove_first k ps @ (case v of None \<Rightarrow> [] | Some v \<Rightarrow> [(k, v)])"

definition get_property :: "bytes \<Rightarrow> properties \<Rightarrow> amf0 option" where
  "get_property k ps = map_of ps k"

definition ensure_property_string :: "bytes \<Rightarrow> properties \<Rightarrow> bytes option" where
  "ensure_property_string k ps = (case get_property k ps of Some (Str s) \<Rightarrow> Some s | _ \<Rightarrow> None)"

definition ensure_property_number :: "bytes \<Rightarrow> properties \<Rightarrow> u64 option" where
  "ensure_property_number k ps = (case get_property k ps of Some (Number n) \<Rightarrow> Some n | _ \<Rightarrow> None)"

definition remove_property :: "bytes \<Rightarrow> properties \<Rightarrow> properties" where
  "remove_property k ps = filter (\<lambda>(k', v). k' \<noteq> k) ps"

definition set_all :: "properties \<Rightarrow> properties" where
  "set_all ps = fold (\<lambda>(k, v). set_property k (Some v)) ps []"

text \<open>A string is copied up to its first zero.\<close>

fun amf0_copy :: "amf0 \<Rightarrow> amf0" where
  "amf0_copy (Str s) = Str (takeWhile (\<lambda>b. b \<noteq> 0) s)"
| "amf0_copy (Object ps) = Object (set_all (map (\<lambda>(k, v). (k, amf0_copy v)) ps))"
| "amf0_copy (EcmaArray n ps) = EcmaArray n (set_all (map (\<lambda>(k, v). (k, amf0_copy v)) ps))"
| "amf0_copy (StrictArray n vs) = StrictArray n (map amf0_copy vs)"
| "amf0_copy v = v"

definition ecma_array_to_object :: "properties \<Rightarrow> amf0" where
  "ecma_array_to_object ps = Object (set_all (map (\<lambda>(k, v). (k, amf0_copy v)) ps))"

section \<open>Sizes\<close>

definition utf8_size :: "bytes \<Rightarrow> nat" where
  "utf8_size s = 2 + length s"

fun total_size :: "amf0 \<Rightarrow> nat" where
  "total_size (Str s) = 1 + utf8_size s"
| "total_size (Boolean b) = 1 + 1"
| "total_size (Number n) = 1 + 8"
| "total_size Null = 1"
| "total_size Undefined = 1"
| "total_size (Object ps) = 1 + sum_list (map (\<lambda>(k, v). utf8_size k + total_size v) ps) + 3"
| "total_size (EcmaArray n ps) = 1 + 4 + sum_list (map (\<lambda>(k, v). utf8_size k + total_size v) ps) + 3"
| "total_size (StrictArray n vs) = 1 + 4 + sum_list (map total_size vs)"
| "total_size (Date d z) = 1 + 8 + 2"
| "total_size ObjectEOF = 3"

section \<open>Writing\<close>

text \<open>What is written into a stream that has so much room.\<close>

type_synonym writer = "nat \<Rightarrow> int + bytes"

definition emit :: "bytes \<Rightarrow> writer" where
  "emit b room = (if length b \<le> room then Inr b else Inl ERROR_RTMP_AMF0_ENCODE)"

definition then_write :: "writer \<Rightarrow> writer \<Rightarrow> writer" where
  "then_write w1 w2 room = (case w1 room of Inl e \<Rightarrow> Inl e
     | Inr b \<Rightarrow> (case w2 (room - length b) of Inl e \<Rightarrow> Inl e | Inr b' \<Rightarrow> Inr (b @ b')))"

definition write_all :: "writer list \<Rightarrow> writer" where
  "write_all ws = foldr then_write ws (\<lambda>_. Inr [])"

definition srs_amf0_write_utf8 :: "bytes \<Rightarrow> writer" where
  "srs_amf0_write_utf8 s = then_write (emit (be_bytes 2 (length s))) (if s = [] then (\<lambda>_. Inr []) else emit s)"

definition srs_amf0_write_string :: "bytes \<Rightarrow> writer" where
  "srs_amf0_write_string s = then_write (emit [RTMP_AMF0_String]) (srs_amf0_write_utf8 s)"

definition srs_amf0_write_boolean :: "bool \<Rightarrow> writer" where
  "srs_amf0_write_boolean b = then_write (emit [RTMP_AMF0_Boolean]) (emit [if b then 1 else 0])"

definition srs_amf0_write_number :: "u64 \<Rightarrow> writer" where
  "srs_amf0_write_number n = then_write (emit [RTMP_AMF0_Number]) (emit (be_bytes 8 (unat n)))"

definition srs_amf0_write_null :: writer where
  "srs_amf0_write_null = emit [RTMP_AMF0_Null]"

definition srs_amf0_write_undefined :: writer where
  "srs_amf0_write_undefined = emit [RTMP_AMF0_Undefined]"

definition srs_amf0_write_date :: "u64 \<Rightarrow> u16 \<Rightarrow> writer" where
  "srs_amf0_write_date d z = then_write (emit [RTMP_AMF0_Date]) (then_write (emit (be_bytes 8 (unat d))) (emit (be_bytes 2 (unat z))))"

definition srs_amf0_write_object_eof :: writer where
  "srs_amf0_write_object_eof = then_write (emit (be_bytes 2 0)) (emit [RTMP_AMF0_ObjectEnd])"

fun srs_amf0_write_any :: "amf0 \<Rightarrow> writer" where
  "srs_amf0_write_any (Str s) = srs_amf0_write_string s"
| "srs_amf0_write_any (Boolean b) = srs_amf0_write_boolean b"
| "srs_amf0_write_any (Number n) = srs_amf0_write_number n"
| "srs_amf0_write_any Null = srs_amf0_write_null"
| "srs_amf0_write_any Undefined = srs_amf0_write_undefined"
| "srs_amf0_write_any (Object ps) = then_write (emit [RTMP_AMF0_Object]) (then_write
     (write_all (map (\<lambda>(k, v). then_write (srs_amf0_write_utf8 k) (srs_amf0_write_any v)) ps)) srs_amf0_write_object_eof)"
| "srs_amf0_write_any (EcmaArray n ps) = then_write (emit [RTMP_AMF0_EcmaArray]) (then_write (emit (be_bytes 4 (unat n))) (then_write
     (write_all (map (\<lambda>(k, v). then_write (srs_amf0_write_utf8 k) (srs_amf0_write_any v)) ps)) srs_amf0_write_object_eof))"
| "srs_amf0_write_any (StrictArray n vs) = then_write (emit [RTMP_AMF0_StrictArray]) (then_write (emit (be_bytes 4 (unat n)))
     (write_all (map srs_amf0_write_any vs)))"
| "srs_amf0_write_any (Date d z) = srs_amf0_write_date d z"
| "srs_amf0_write_any ObjectEOF = srs_amf0_write_object_eof"

section \<open>Reading\<close>

text \<open>A value and what is left of the stream, or an error.\<close>

type_synonym 'a reader = "bytes \<Rightarrow> int + 'a \<times> bytes"

definition then_read :: "'a reader \<Rightarrow> ('a \<Rightarrow> 'b reader) \<Rightarrow> 'b reader" where
  "then_read r f s = (case r s of Inl e \<Rightarrow> Inl e | Inr (x, s) \<Rightarrow> f x s)"

definition return :: "'a \<Rightarrow> 'a reader" where
  "return x s = Inr (x, s)"

definition take_bytes :: "nat \<Rightarrow> bytes reader" where
  "take_bytes n s = (if n \<le> length s then Inr (take n s, drop n s) else Inl ERROR_RTMP_AMF0_DECODE)"

definition read_marker :: "u8 \<Rightarrow> unit reader" where
  "read_marker m = then_read (take_bytes 1) (\<lambda>b s. if b ! 0 \<noteq> m then Inl ERROR_RTMP_AMF0_DECODE else Inr ((), s))"

text \<open>The length is a signed number; what is not positive is the empty string.\<close>

definition srs_amf0_read_utf8 :: "bytes reader" where
  "srs_amf0_read_utf8 = then_read (take_bytes 2) (\<lambda>b. if signed_be 2 (be b) \<le> 0 then return [] else take_bytes (be b))"

definition srs_amf0_read_string :: "bytes reader" where
  "srs_amf0_read_string = then_read (read_marker RTMP_AMF0_String) (\<lambda>_. srs_amf0_read_utf8)"

definition srs_amf0_read_boolean :: "bool reader" where
  "srs_amf0_read_boolean = then_read (read_marker RTMP_AMF0_Boolean) (\<lambda>_. then_read (take_bytes 1) (\<lambda>b. return (b ! 0 \<noteq> 0)))"

definition srs_amf0_read_number :: "u64 reader" where
  "srs_amf0_read_number = then_read (read_marker RTMP_AMF0_Number) (\<lambda>_. then_read (take_bytes 8) (\<lambda>b. return (word_of_nat (be b))))"

definition srs_amf0_read_null :: "unit reader" where
  "srs_amf0_read_null = read_marker RTMP_AMF0_Null"

text \<open>Nothing at all and null pass for undefined.\<close>

definition srs_amf0_read_undefined :: "unit reader" where
  "srs_amf0_read_undefined s = (if s = [] then Inr ((), s)
     else if s ! 0 = RTMP_AMF0_Null \<or> s ! 0 = RTMP_AMF0_Undefined then Inr ((), drop 1 s) else Inl ERROR_RTMP_AMF0_DECODE)"

definition srs_amf0_read_date :: "(u64 \<times> u16) reader" where
  "srs_amf0_read_date = then_read (read_marker RTMP_AMF0_Date) (\<lambda>_. then_read (take_bytes 8) (\<lambda>d. then_read (take_bytes 2)
     (\<lambda>z. return (word_of_nat (be d), word_of_nat (be z)))))"

definition srs_amf0_is_object_eof :: "bytes \<Rightarrow> bool" where
  "srs_amf0_is_object_eof s \<longleftrightarrow> 3 \<le> length s \<and> be (take 3 s) = 9"

definition srs_amf0_read_object_eof :: "unit reader" where
  "srs_amf0_read_object_eof = then_read (take_bytes 2) (\<lambda>b. if be b \<noteq> 0 then (\<lambda>_. Inl ERROR_RTMP_AMF0_DECODE) else read_marker RTMP_AMF0_ObjectEnd)"

text \<open>
  The value at the head of a stream; the properties and the elements behind those that were read before. The lists end with the stream
  even if their end mark or some of their elements are missing.
\<close>

function srs_amf0_read_any :: "amf0 reader" and read_properties :: "properties \<Rightarrow> properties reader"
  and read_elements :: "nat \<Rightarrow> amf0 list \<Rightarrow> amf0 list reader" where
  "srs_amf0_read_any s =
     (if srs_amf0_is_object_eof s then then_read srs_amf0_read_object_eof (\<lambda>_. return ObjectEOF) s
      else case s of [] \<Rightarrow> Inl ERROR_RTMP_AMF0_DECODE | m # s' \<Rightarrow>
        if m = RTMP_AMF0_String then then_read srs_amf0_read_string (return \<circ> Str) s
        else if m = RTMP_AMF0_Boolean then then_read srs_amf0_read_boolean (return \<circ> Boolean) s
        else if m = RTMP_AMF0_Number then then_read srs_amf0_read_number (return \<circ> Number) s
        else if m = RTMP_AMF0_Null then then_read srs_amf0_read_null (\<lambda>_. return Null) s
        else if m = RTMP_AMF0_Undefined then then_read srs_amf0_read_undefined (\<lambda>_. return Undefined) s
        else if m = RTMP_AMF0_Object
        then (case read_properties [] s' of Inl e \<Rightarrow> Inl e | Inr (ps, s'') \<Rightarrow> Inr (Object ps, s''))
        else if m = RTMP_AMF0_EcmaArray
        then (case take_bytes 4 s' of Inl e \<Rightarrow> Inl e | Inr (n, s'') \<Rightarrow>
          (case read_properties [] s'' of Inl e \<Rightarrow> Inl e | Inr (ps, s3) \<Rightarrow> Inr (EcmaArray (word_of_nat (be n)) ps, s3)))
        else if m = RTMP_AMF0_StrictArray
        then (case take_bytes 4 s' of Inl e \<Rightarrow> Inl e | Inr (n, s'') \<Rightarrow>
          (case read_elements (nat (signed_be 4 (be n))) [] s'' of Inl e \<Rightarrow> Inl e | Inr (vs, s3) \<Rightarrow> Inr (StrictArray (word_of_nat (be n)) vs, s3)))
        else if m = RTMP_AMF0_Date then then_read srs_amf0_read_date (\<lambda>(d, z). return (Date d z)) s
        else Inl ERROR_RTMP_AMF0_INVALID)"
| "read_properties ps s =
     (if s = [] then Inr (ps, s)
      else if srs_amf0_is_object_eof s then then_read srs_amf0_read_object_eof (\<lambda>_. return ps) s
      else case srs_amf0_read_utf8 s of Inl e \<Rightarrow> Inl e | Inr (k, s') \<Rightarrow>
        (case srs_amf0_read_any s' of Inl e \<Rightarrow> Inl e | Inr (v, s'') \<Rightarrow> read_properties (set_property k (Some v) ps) s''))"
| "read_elements n vs s =
     (if n = 0 \<or> s = [] then Inr (vs, s)
      else case srs_amf0_read_any s of Inl e \<Rightarrow> Inl e | Inr (v, s') \<Rightarrow> read_elements (n - 1) (vs @ [v]) s')"
  by pat_completeness auto

lemma take_bytes_Inr: "take_bytes n s = Inr (b, s') \<longleftrightarrow> n \<le> length s \<and> b = take n s \<and> s' = drop n s"
  by (auto simp: take_bytes_def)

lemma then_read_Inr: "then_read r f s = Inr (y, s') \<longleftrightarrow> (\<exists>x t. r s = Inr (x, t) \<and> f x t = Inr (y, s'))"
  by (auto simp: then_read_def split: sum.splits)

lemma return_Inr [simp]: "return x s = Inr (y, s') \<longleftrightarrow> x = y \<and> s = s'"
  by (auto simp: return_def)

lemma read_marker_rest: "read_marker m s = Inr (u, s') \<Longrightarrow> length s' < length s"
  by (auto simp: read_marker_def then_read_Inr take_bytes_Inr split: if_split_asm)

lemma read_utf8_rest: "srs_amf0_read_utf8 s = Inr (k, s') \<Longrightarrow> length s' < length s"
  by (auto simp: srs_amf0_read_utf8_def then_read_Inr take_bytes_Inr split: if_split_asm)

lemmas read_value_defs = srs_amf0_read_string_def srs_amf0_read_boolean_def srs_amf0_read_number_def srs_amf0_read_null_def
  srs_amf0_read_date_def

lemma read_value_rest:
  "srs_amf0_read_string s = Inr (x1, s') \<Longrightarrow> length s' < length s"
  "srs_amf0_read_boolean s = Inr (x2, s') \<Longrightarrow> length s' < length s"
  "srs_amf0_read_number s = Inr (x3, s') \<Longrightarrow> length s' < length s"
  "srs_amf0_read_null s = Inr (x4, s') \<Longrightarrow> length s' < length s"
  "s \<noteq> [] \<Longrightarrow> srs_amf0_read_undefined s = Inr (x4, s') \<Longrightarrow> length s' < length s"
  "srs_amf0_read_date s = Inr (x5, s') \<Longrightarrow> length s' < length s"
  "srs_amf0_read_object_eof s = Inr (x4, s') \<Longrightarrow> length s' < length s"
  by (auto simp: read_value_defs srs_amf0_read_undefined_def srs_amf0_read_object_eof_def then_read_Inr take_bytes_Inr split: if_split_asm
      dest!: read_marker_rest read_utf8_rest)

lemma read_undefined_rest: "srs_amf0_read_undefined (b # s) = Inr (u, s') \<Longrightarrow> length s' \<le> length s"
  by (auto simp: srs_amf0_read_undefined_def split: if_split_asm)

lemma shorter: "k \<le> n - 4 \<Longrightarrow> k < Suc n" "k \<le> n \<Longrightarrow> k < Suc n"
  by simp_all

lemma read_rest:
  "srs_amf0_read_any_read_properties_read_elements_dom (Inl s) \<Longrightarrow> srs_amf0_read_any s = Inr (v, s') \<Longrightarrow> length s' < length s"
  "srs_amf0_read_any_read_properties_read_elements_dom (Inr (Inl (ps, s))) \<Longrightarrow> read_properties ps s = Inr (qs, s') \<Longrightarrow> length s' \<le> length s"
  "srs_amf0_read_any_read_properties_read_elements_dom (Inr (Inr (n, vs, s))) \<Longrightarrow> read_elements n vs s = Inr (ws, s') \<Longrightarrow> length s' \<le> length s"
proof (induction s and ps s and n vs s arbitrary: v s' and qs s' and ws s' rule: srs_amf0_read_any_read_properties_read_elements.pinduct)
  case (1 s)
  then show ?case
    by (auto simp: srs_amf0_read_any.psimps then_read_Inr take_bytes_Inr split: if_split_asm list.splits sum.splits dest: read_value_rest
        read_undefined_rest intro: shorter(2)) (rule shorter(1), blast)+
next
  case (2 ps s)
  show ?case
  proof (cases "s = [] \<or> srs_amf0_is_object_eof s")
    case True
    with 2 show ?thesis
      by (auto simp: read_properties.psimps then_read_Inr split: if_split_asm dest: read_value_rest(7))
  next
    case False
    with "2.prems" have "(case srs_amf0_read_utf8 s of Inl e \<Rightarrow> Inl e | Inr (k, s') \<Rightarrow>
        (case srs_amf0_read_any s' of Inl e \<Rightarrow> Inl e | Inr (v, s'') \<Rightarrow> read_properties (set_property k (Some v) ps) s'')) = Inr (qs, s')"
      by (simp only: read_properties.psimps [OF "2.hyps"] if_False de_Morgan_disj)
    then obtain k s1 v s2 where r: "srs_amf0_read_utf8 s = Inr (k, s1)" "srs_amf0_read_any s1 = Inr (v, s2)"
      "read_properties (set_property k (Some v) ps) s2 = Inr (qs, s')"
      by (auto split: sum.split_asm prod.split_asm)
    with "2.IH"(1) [OF _ _ r(1) refl r(2)] "2.IH"(2) [OF _ _ r(1) refl r(2) refl r(3)] read_utf8_rest [OF r(1)] False show ?thesis
      by simp
  qed
next
  case (3 n vs s)
  show ?case
  proof (cases "n = 0 \<or> s = []")
    case True
    with 3 show ?thesis
      by (auto simp: read_elements.psimps)
  next
    case False
    with "3.prems" have "(case srs_amf0_read_any s of Inl e \<Rightarrow> Inl e | Inr (v, s') \<Rightarrow> read_elements (n - 1) (vs @ [v]) s') = Inr (ws, s')"
      by (simp only: read_elements.psimps [OF "3.hyps"] if_False de_Morgan_disj)
    then obtain v s1 where r: "srs_amf0_read_any s = Inr (v, s1)" "read_elements (n - 1) (vs @ [v]) s1 = Inr (ws, s')"
      by (auto split: sum.split_asm prod.split_asm)
    with "3.IH"(1) [OF _ r(1)] "3.IH"(2) [OF _ r(1) refl r(2)] False show ?thesis
      by simp
  qed
qed

termination srs_amf0_read_any
  apply (relation "measure (case_sum (\<lambda>s. 2 * length s) (case_sum (\<lambda>(ps, s). 2 * length s) (\<lambda>(n, vs, s). 2 * length s + 1)))")
  apply (auto simp: take_bytes_Inr)
  using read_rest read_utf8_rest less_trans apply blast+
  done

declare srs_amf0_read_any.simps [simp del] read_properties.simps [simp del] read_elements.simps [simp del]

end
