(* ===== verification/Amf0_Laws.thy ===== *)
theory Amf0_Laws
  imports Amf0
begin

text \<open>
  Writing a value takes exactly the room its size says, reading gives back what was written, and a copy is equal, for the values the
  format can carry; what happens to the others.
\<close>

section \<open>Writing\<close>

definition utf8_bytes :: "bytes \<Rightarrow> bytes" where
  "utf8_bytes s = be_bytes 2 (length s) @ s"

text \<open>The bytes of a value.\<close>

fun amf0_bytes :: "amf0 \<Rightarrow> bytes" where
  "amf0_bytes (Str s) = 0x02 # utf8_bytes s"
| "amf0_bytes (Boolean b) = [0x01, if b then 1 else 0]"
| "amf0_bytes (Number n) = 0x00 # be_bytes 8 (unat n)"
| "amf0_bytes Null = [0x05]"
| "amf0_bytes Undefined = [0x06]"
| "amf0_bytes (Object ps) = 0x03 # concat (map (\<lambda>(k, v). utf8_bytes k @ amf0_bytes v) ps) @ [0, 0, 9]"
| "amf0_bytes (EcmaArray n ps) = 0x08 # be_bytes 4 (unat n) @ concat (map (\<lambda>(k, v). utf8_bytes k @ amf0_bytes v) ps) @ [0, 0, 9]"
| "amf0_bytes (StrictArray n vs) = 0x0A # be_bytes 4 (unat n) @ concat (map amf0_bytes vs)"
| "amf0_bytes (Date d z) = 0x0B # be_bytes 8 (unat d) @ be_bytes 2 (unat z)"
| "amf0_bytes ObjectEOF = [0, 0, 9]"

text \<open>A writer that writes \<open>b\<close> if there is room for it and fails otherwise.\<close>

definition writes :: "writer \<Rightarrow> bytes \<Rightarrow> bool" where
  "writes w b \<longleftrightarrow> (\<forall>room. w room = (if length b \<le> room then Inr b else Inl ERROR_RTMP_AMF0_ENCODE))"

lemma writes_emit [intro!]: "writes (emit b) b"
  by (simp add: writes_def emit_def)

lemma writes_nothing [intro!]: "writes (\<lambda>_. Inr []) []"
  by (simp add: writes_def)

lemma writes_then: "writes w1 b1 \<Longrightarrow> writes w2 b2 \<Longrightarrow> writes (then_write w1 w2) (b1 @ b2)"
  by (auto simp: writes_def then_write_def)

lemma writes_all: "list_all2 writes ws bs \<Longrightarrow> writes (write_all ws) (concat bs)"
proof (induction rule: list_all2_induct)
  case Nil
  show ?case
    by (simp add: write_all_def writes_nothing)
next
  case (Cons w ws b bs)
  then show ?case
    using writes_then [of w b "write_all ws" "concat bs"] by (simp add: write_all_def)
qed

lemma writes_utf8: "writes (srs_amf0_write_utf8 s) (utf8_bytes s)"
proof -
  have "writes (if s = [] then \<lambda>_. Inr [] else emit s) s"
    by auto
  then show ?thesis
    unfolding srs_amf0_write_utf8_def utf8_bytes_def by (intro writes_then writes_emit)
qed

lemma writes_marker: "writes w b \<Longrightarrow> writes (then_write (emit [m]) w) (m # b)"
  using writes_then [OF writes_emit, of w b "[m]"] by simp

lemma writes_eof: "writes srs_amf0_write_object_eof [0, 0, 9]"
proof -
  have "be_bytes 2 0 @ [RTMP_AMF0_ObjectEnd] = [0, 0, 9]"
    by (simp add: be_bytes_def amf0_markers upt_rec)
  then show ?thesis
    using writes_then [OF writes_emit writes_emit, of "be_bytes 2 0" "[RTMP_AMF0_ObjectEnd]"] by (simp add: srs_amf0_write_object_eof_def)
qed

lemma writes_any: "writes (srs_amf0_write_any v) (amf0_bytes v)"
proof (induction v)
  case (Object ps)
  then have "list_all2 writes (map (\<lambda>(k, v). then_write (srs_amf0_write_utf8 k) (srs_amf0_write_any v)) ps)
      (map (\<lambda>(k, v). utf8_bytes k @ amf0_bytes v) ps)"
    by (fastforce simp: list_all2_conv_all_nth in_set_conv_nth split: prod.splits intro: writes_then writes_utf8)
  then show ?case
    by (auto simp: amf0_markers intro!: writes_marker writes_then writes_all writes_eof)
next
  case (EcmaArray n ps)
  then have "list_all2 writes (map (\<lambda>(k, v). then_write (srs_amf0_write_utf8 k) (srs_amf0_write_any v)) ps)
      (map (\<lambda>(k, v). utf8_bytes k @ amf0_bytes v) ps)"
    by (fastforce simp: list_all2_conv_all_nth in_set_conv_nth split: prod.splits intro: writes_then writes_utf8)
  then show ?case
    by (auto simp: amf0_markers intro!: writes_marker writes_then writes_all writes_eof)
next
  case (StrictArray n vs)
  then have "list_all2 writes (map srs_amf0_write_any vs) (map amf0_bytes vs)"
    by (simp add: list_all2_conv_all_nth)
  then show ?case
    by (auto simp: amf0_markers intro!: writes_marker writes_then writes_all)
qed (auto simp: srs_amf0_write_string_def srs_amf0_write_boolean_def srs_amf0_write_number_def srs_amf0_write_null_def srs_amf0_write_undefined_def
    srs_amf0_write_date_def amf0_markers intro!: writes_marker writes_utf8 writes_then writes_eof)

lemma length_amf0_bytes: "length (amf0_bytes v) = total_size v"
proof (induction v)
  case (Object ps)
  then have "map (\<lambda>(k, v). length (utf8_bytes k @ amf0_bytes v)) ps = map (\<lambda>(k, v). utf8_size k + total_size v) ps"
    by (fastforce simp: utf8_bytes_def utf8_size_def)
  then show ?case
    by (simp add: length_concat comp_def split_def cong: map_cong)
next
  case (EcmaArray n ps)
  then have "map (\<lambda>(k, v). length (utf8_bytes k @ amf0_bytes v)) ps = map (\<lambda>(k, v). utf8_size k + total_size v) ps"
    by (fastforce simp: utf8_bytes_def utf8_size_def)
  then show ?case
    by (simp add: length_concat comp_def split_def cong: map_cong)
next
  case (StrictArray n vs)
  then have "map (\<lambda>v. length (amf0_bytes v)) vs = map total_size vs"
    by simp
  then show ?case
    by (simp add: length_concat comp_def cong: map_cong)
qed (simp_all add: utf8_bytes_def utf8_size_def)

text \<open>A value is written if there is room for the size it tells, with exactly as many bytes, and refused otherwise.\<close>

theorem amf0_size_exact:
  "srs_amf0_write_any v room = (if total_size v \<le> room then Inr (amf0_bytes v) else Inl ERROR_RTMP_AMF0_ENCODE) \<and>
   length (amf0_bytes v) = total_size v"
  using writes_any [of v] by (simp add: writes_def length_amf0_bytes)

section \<open>Reading\<close>

text \<open>
  What can be carried: strings and names of at most 32767 bytes, different names, arrays that know their length, and numbers whose bits do
  not look like the end of an object.
\<close>

fun amf0_ok :: "amf0 \<Rightarrow> bool" where
  "amf0_ok (Str s) \<longleftrightarrow> length s < 32768"
| "amf0_ok (Number n) \<longleftrightarrow> unat n div 2 ^ 48 \<noteq> 9"
| "amf0_ok (Object ps) \<longleftrightarrow> distinct (map fst ps) \<and> list_all (\<lambda>(k, v). length k < 32768 \<and> amf0_ok v) ps"
| "amf0_ok (EcmaArray n ps) \<longleftrightarrow> distinct (map fst ps) \<and> list_all (\<lambda>(k, v). length k < 32768 \<and> amf0_ok v) ps"
| "amf0_ok (StrictArray n vs) \<longleftrightarrow> unat n = length vs \<and> length vs < 2 ^ 31 \<and> list_all amf0_ok vs"
| "amf0_ok v \<longleftrightarrow> True"

lemma be_Cons: "be (b # bs) = unat b * 256 ^ length bs + be bs"
proof (induction bs rule: rev_induct)
  case Nil
  show ?case
    using be_snoc [of "[]" b] by simp
next
  case (snoc x xs)
  have "be (b # (xs @ [x])) = be (b # xs) * 256 + unat x"
    using be_snoc [of "b # xs" x] by simp
  also have "\<dots> = unat b * 256 ^ length (xs @ [x]) + be (xs @ [x])"
    using snoc by (simp add: be_snoc algebra_simps)
  finally show ?case .
qed

lemma signed_length16: "n < 32768 \<Longrightarrow> signed_be 2 n = int n"
  by (simp add: signed_be_def)

lemma then_read_step: "r s = Inr (x, t) \<Longrightarrow> then_read r f s = f x t"
  by (simp add: then_read_def)

lemma take_bytes_append: "length b = n \<Longrightarrow> take_bytes n (b @ s) = Inr (b, s)"
  by (simp add: take_bytes_def)

lemma read_utf8_bytes: "length k < 32768 \<Longrightarrow> srs_amf0_read_utf8 (utf8_bytes k @ s) = Inr (k, s)"
  by (cases "k = []") (simp_all add: srs_amf0_read_utf8_def utf8_bytes_def then_read_def take_bytes_append be_be_bytes signed_length16 return_def)

lemma read_marker_Cons: "read_marker m (m # s) = Inr ((), s)"
  by (simp add: read_marker_def then_read_def take_bytes_def)

text \<open>The end of an object.\<close>

lemma eof_iff: "srs_amf0_is_object_eof s \<longleftrightarrow> (\<exists>t. s = 0 # 0 # 9 # t)"
proof (cases "3 \<le> length s")
  case False
  then show ?thesis
    by (auto simp: srs_amf0_is_object_eof_def)
next
  case True
  then obtain a b c t where s: "s = a # b # c # t"
    by (auto simp: numeral_3_eq_3 Suc_le_length_iff)
  have "be [a, b, c] = 9 \<longleftrightarrow> unat a = 0 \<and> unat b = 0 \<and> unat c = 9"
    by (cases "unat a"; cases "unat b"; simp add: be_Cons)
  also have "\<dots> \<longleftrightarrow> a = 0 \<and> b = 0 \<and> c = 9"
    by (simp add: word_unat_eq_iff)
  finally show ?thesis
    by (simp add: srs_amf0_is_object_eof_def s)
qed

lemma be_bytes_two: "be_bytes 2 n = [word_of_nat (n div 256), word_of_nat n]"
  using be_bytes_Suc [of 1 n] be_bytes_Suc [of 0 "n div 256"] by (simp add: be_bytes_def numeral_2_eq_2)

lemma word_of_nat_0_iff: "(word_of_nat n :: u8) = 0 \<longleftrightarrow> n mod 256 = 0"
  by (simp add: word_of_nat_eq_0_iff dvd_eq_mod_eq_0)

lemma utf8_not_eof:
  assumes "length k < 32768" and "k = [] \<Longrightarrow> s \<noteq> [] \<and> hd s \<noteq> 9"
  shows "\<not> srs_amf0_is_object_eof (utf8_bytes k @ s)"
proof
  assume "srs_amf0_is_object_eof (utf8_bytes k @ s)"
  then obtain t where t: "(word_of_nat (length k div 256) :: u8) = 0" "(word_of_nat (length k) :: u8) = 0" "k @ s = 9 # t"
    by (auto simp: eof_iff utf8_bytes_def be_bytes_two)
  from t(1,2) have "length k div 256 = 0" "length k mod 256 = 0"
    using assms(1) by (simp_all add: word_of_nat_0_iff div_less_iff_less_mult)
  then have "k = []"
    by (metis div_mult_mod_eq length_0_conv mult_0 plus_nat.add_0)
  with assms(2) t(3) show False
    by simp
qed

lemma amf0_bytes_Cons: "\<exists>m t. amf0_bytes v = m # t \<and> m \<noteq> 9"
  by (cases v) simp_all

lemma number_not_eof:
  assumes "unat (n :: u64) div 2 ^ 48 \<noteq> 9"
  shows "\<not> srs_amf0_is_object_eof (0 # be_bytes 8 (unat n) @ s)"
proof
  assume "srs_amf0_is_object_eof (0 # be_bytes 8 (unat n) @ s)"
  moreover have "be_bytes 8 (unat n) = word_of_nat (unat n div 256 ^ 7) # word_of_nat (unat n div 256 ^ 6) # be_bytes 6 (unat n)"
    by (simp add: be_bytes_def upt_rec)
  ultimately have b: "(word_of_nat (unat n div 256 ^ 7) :: u8) = 0" "(word_of_nat (unat n div 256 ^ 6) :: u8) = 9"
    by (auto simp: eof_iff)
  have "unat n < 256 ^ 8"
    using unsigned_less [of n, where 'a = nat] by simp
  then have "unat n div 256 ^ 7 < 256"
    by (simp add: div_less_iff_less_mult)
  with b(1) have "unat n div 256 ^ 6 div 256 = 0"
    by (simp add: word_of_nat_0_iff div_mult2_eq [symmetric])
  then have small: "unat n div 256 ^ 6 < 256"
    by (simp add: div_eq_0_iff)
  from b(2) have "unat (word_of_nat (unat n div 256 ^ 6) :: u8) = 9"
    by simp
  with small have "unat n div 256 ^ 6 = 9"
    by (simp add: unat_of_nat)
  with assms show False
    by simp
qed

lemma set_new_property: "k \<notin> fst ` set ps \<Longrightarrow> set_property k (Some v) ps = ps @ [(k, v)]"
proof -
  assume "k \<notin> fst ` set ps"
  then have "remove_first k ps = ps"
    by (induction k ps rule: remove_first.induct) auto
  then show ?thesis
    by (simp add: set_property_def)
qed

lemma read_properties_bytes:
  assumes "\<forall>(k, v) \<in> set ps. length k < 32768 \<and> (\<forall>s. srs_amf0_read_any (amf0_bytes v @ s) = Inr (v, s))" and "distinct (map fst (qs @ ps))"
  shows "read_properties qs (concat (map (\<lambda>(k, v). utf8_bytes k @ amf0_bytes v) ps) @ 0 # 0 # 9 # s) = Inr (qs @ ps, s)"
  using assms
proof (induction ps arbitrary: qs)
  case Nil
  have "srs_amf0_is_object_eof (0 # 0 # 9 # s)"
    by (simp add: eof_iff)
  then show ?case
    by (simp add: read_properties.simps [of qs] then_read_def srs_amf0_read_object_eof_def take_bytes_def read_marker_def return_def be_Cons amf0_markers)
next
  case (Cons kv ps)
  obtain k v where kv: "kv = (k, v)"
    by fastforce
  let ?s = "concat (map (\<lambda>(k, v). utf8_bytes k @ amf0_bytes v) ps) @ 0 # 0 # 9 # s"
  have k: "length k < 32768" "srs_amf0_read_any (amf0_bytes v @ ?s) = Inr (v, ?s)" "k \<notin> fst ` set qs"
    using Cons.prems by (auto simp: kv)
  have "\<not> srs_amf0_is_object_eof (utf8_bytes k @ amf0_bytes v @ ?s)"
    using amf0_bytes_Cons [of v] by (intro utf8_not_eof k(1)) auto
  moreover have "utf8_bytes k @ amf0_bytes v @ ?s \<noteq> []"
    by (simp add: utf8_bytes_def be_bytes_two)
  ultimately have "read_properties qs (utf8_bytes k @ amf0_bytes v @ ?s) = read_properties (qs @ [(k, v)]) ?s"
    using k by (simp only: read_properties.simps [of qs] read_utf8_bytes set_new_property [OF k(3)] if_False sum.case prod.case)
  moreover have "read_properties (qs @ [(k, v)]) ?s = Inr ((qs @ [(k, v)]) @ ps, s)"
    using Cons.prems by (intro Cons.IH) (auto simp: kv)
  ultimately show ?case
    by (simp add: kv)
qed

lemma read_elements_bytes:
  assumes "\<forall>v \<in> set vs. \<forall>s. srs_amf0_read_any (amf0_bytes v @ s) = Inr (v, s)"
  shows "read_elements (length vs) ws (concat (map amf0_bytes vs) @ s) = Inr (ws @ vs, s)"
  using assms
proof (induction vs arbitrary: ws)
  case Nil
  show ?case
    by (simp add: read_elements.simps)
next
  case (Cons v vs)
  let ?s = "concat (map amf0_bytes vs) @ s"
  have "amf0_bytes v @ ?s \<noteq> []"
    using amf0_bytes_Cons [of v] by auto
  with Cons show ?case
    by (simp add: read_elements.simps [of "Suc (length vs)"])
qed

lemma not_eof:
  assumes "amf0_ok v" and "v \<noteq> ObjectEOF"
  shows "\<not> srs_amf0_is_object_eof (amf0_bytes v @ s)"
  using assms number_not_eof by (cases v) (auto simp: eof_iff)

lemma read_any_marker:
  assumes "\<not> srs_amf0_is_object_eof (m # t)"
  shows "srs_amf0_read_any (m # t) =
     (if m = 0x02 then then_read srs_amf0_read_string (return \<circ> Str) (m # t)
      else if m = 0x01 then then_read srs_amf0_read_boolean (return \<circ> Boolean) (m # t)
      else if m = 0x00 then then_read srs_amf0_read_number (return \<circ> Number) (m # t)
      else if m = 0x05 then then_read srs_amf0_read_null (\<lambda>_. return Null) (m # t)
      else if m = 0x06 then then_read srs_amf0_read_undefined (\<lambda>_. return Undefined) (m # t)
      else if m = 0x03 then (case read_properties [] t of Inl e \<Rightarrow> Inl e | Inr (ps, s'') \<Rightarrow> Inr (Object ps, s''))
      else if m = 0x08
      then (case take_bytes 4 t of Inl e \<Rightarrow> Inl e | Inr (n, s'') \<Rightarrow>
        (case read_properties [] s'' of Inl e \<Rightarrow> Inl e | Inr (ps, s3) \<Rightarrow> Inr (EcmaArray (word_of_nat (be n)) ps, s3)))
      else if m = 0x0A
      then (case take_bytes 4 t of Inl e \<Rightarrow> Inl e | Inr (n, s'') \<Rightarrow>
        (case read_elements (nat (signed_be 4 (be n))) [] s'' of Inl e \<Rightarrow> Inl e | Inr (vs, s3) \<Rightarrow> Inr (StrictArray (word_of_nat (be n)) vs, s3)))
      else if m = 0x0B then then_read srs_amf0_read_date (\<lambda>(d, z). return (Date d z)) (m # t)
      else Inl ERROR_RTMP_AMF0_INVALID)"
  using assms by (subst srs_amf0_read_any.simps) (simp only: amf0_markers list.case if_False)

lemma word_of_be_bytes [simp]:
  "word_of_nat (be (be_bytes 8 (unat (n :: u64)))) = n" "word_of_nat (be (be_bytes 4 (unat (c :: u32)))) = c"
  "word_of_nat (be (be_bytes 2 (unat (z :: u16)))) = z"
  using unsigned_less [of n, where 'a = nat] unsigned_less [of c, where 'a = nat] unsigned_less [of z, where 'a = nat]
  by (simp_all add: be_be_bytes)

lemma read_any_bytes:
  assumes "amf0_ok v"
  shows "srs_amf0_read_any (amf0_bytes v @ s) = Inr (v, s)"
  using assms
proof (induction v arbitrary: s)
  case (Object ps)
  then have "\<forall>(k, v) \<in> set ps. length k < 32768 \<and> (\<forall>s. srs_amf0_read_any (amf0_bytes v @ s) = Inr (v, s))"
    by (fastforce simp: list_all_iff)
  from read_properties_bytes [OF this, of "[]"] Object.prems not_eof [OF Object.prems, of s] show ?case
    by (simp add: read_any_marker)
next
  case (EcmaArray n ps)
  then have "\<forall>(k, v) \<in> set ps. length k < 32768 \<and> (\<forall>s. srs_amf0_read_any (amf0_bytes v @ s) = Inr (v, s))"
    by (fastforce simp: list_all_iff)
  from read_properties_bytes [OF this, of "[]"] EcmaArray.prems not_eof [OF EcmaArray.prems, of s] show ?case
    by (simp add: read_any_marker take_bytes_append)
next
  case (StrictArray n vs)
  then have "\<forall>v \<in> set vs. \<forall>s. srs_amf0_read_any (amf0_bytes v @ s) = Inr (v, s)"
    by (simp add: list_all_iff)
  note elems = read_elements_bytes [OF this, of "[]"]
  have "nat (signed_be 4 (unat n)) = length vs"
    using StrictArray.prems by (simp add: signed_be_def)
  moreover have "be (be_bytes 4 (unat n)) = unat n"
    using unsigned_less [of n, where 'a = nat] by (simp add: be_be_bytes)
  ultimately show ?case
    using elems not_eof [OF StrictArray.prems, of s] by (simp add: read_any_marker take_bytes_append)
next
  case (Number n)
  from not_eof [OF Number.prems, of s] show ?case
    by (simp add: read_any_marker srs_amf0_read_number_def then_read_def read_marker_Cons take_bytes_append return_def amf0_markers)
next
  case ObjectEOF
  show ?case
    by (simp add: srs_amf0_read_any.simps eof_iff then_read_def srs_amf0_read_object_eof_def take_bytes_def read_marker_def return_def be_Cons amf0_markers)
qed (simp_all add: read_any_marker eof_iff srs_amf0_read_string_def srs_amf0_read_boolean_def srs_amf0_read_null_def srs_amf0_read_undefined_def
    srs_amf0_read_date_def then_read_def read_marker_Cons take_bytes_append return_def amf0_markers read_utf8_bytes take_bytes_def [of "Suc 0"])

text \<open>C9. Where there is room for a value, as many bytes are written as it tells, and reading gives it back and leaves what stands behind it.\<close>

theorem amf0_roundtrip:
  assumes "amf0_ok v" and "total_size v \<le> room"
  shows "\<exists>b. srs_amf0_write_any v room = Inr b \<and> length b = total_size v \<and> srs_amf0_read_any (b @ s) = Inr (v, s)"
  using assms amf0_size_exact [of v room] read_any_bytes by simp

text \<open>An object with a name, a number, an array and an object in it.\<close>

definition demo_amf0 :: amf0 where
  "demo_amf0 = Object [([0x61], Str [0x6C, 0x69]), ([0x62], Number 0x3FF0000000000000), ([0x63], StrictArray 2 [Null, Boolean True]),
     ([], EcmaArray 7 [([0x64], Object []), ([0x65], Date 12 3)])]"

theorem amf0_roundtrip_witness:
  "\<exists>b. srs_amf0_write_any demo_amf0 100 = Inr b \<and> length b = 66 \<and> srs_amf0_read_any (b @ [7]) = Inr (demo_amf0, [7])"
proof -
  have "amf0_ok demo_amf0" "total_size demo_amf0 = 66"
    by (simp_all add: demo_amf0_def utf8_size_def)
  with amf0_roundtrip [of demo_amf0 100 "[7]"] show ?thesis
    by simp
qed

section \<open>What cannot be carried\<close>

text \<open>A number whose first two bytes are 0 and 9 is read as the end of an object, and six bytes of it are left.\<close>

lemma number_read_as_end:
  assumes "unat n div 2 ^ 48 = 9"
  shows "srs_amf0_read_any (amf0_bytes (Number n) @ s) = Inr (ObjectEOF, be_bytes 6 (unat n) @ s)"
proof -
  have "unat n div 256 ^ 7 = unat n div 2 ^ 48 div 256"
    by (simp add: div_mult2_eq [symmetric])
  then have "unat n div 256 ^ 7 = 0" "unat n div 256 ^ 6 = 9"
    using assms by simp_all
  then have "be_bytes 8 (unat n) = 0 # 9 # be_bytes 6 (unat n)"
    by (simp add: be_bytes_def upt_rec)
  then show ?thesis
    by (simp add: srs_amf0_read_any.simps eof_iff then_read_def srs_amf0_read_object_eof_def take_bytes_def read_marker_def return_def be_Cons amf0_markers)
qed

text \<open>A string of 32 KiB and more is read as an empty one, and its bytes as what follows it.\<close>

lemma long_string_left:
  assumes "32768 \<le> length k" and "length k < 65536"
  shows "srs_amf0_read_any (amf0_bytes (Str k) @ s) = Inr (Str [], k @ s)"
proof -
  have "\<not> srs_amf0_is_object_eof (amf0_bytes (Str k) @ s)"
    by (simp add: eof_iff)
  then show ?thesis
    using assms by (simp add: read_any_marker srs_amf0_read_string_def then_read_def read_marker_Cons amf0_markers srs_amf0_read_utf8_def
        utf8_bytes_def take_bytes_append be_be_bytes signed_be_def return_def)
qed

section \<open>Copies\<close>

fun no_zero :: "amf0 \<Rightarrow> bool" where
  "no_zero (Str s) \<longleftrightarrow> 0 \<notin> set s"
| "no_zero (Object ps) \<longleftrightarrow> distinct (map fst ps) \<and> list_all (\<lambda>(k, v). no_zero v) ps"
| "no_zero (EcmaArray n ps) \<longleftrightarrow> distinct (map fst ps) \<and> list_all (\<lambda>(k, v). no_zero v) ps"
| "no_zero (StrictArray n vs) \<longleftrightarrow> list_all no_zero vs"
| "no_zero v \<longleftrightarrow> True"

lemma set_all_distinct: "distinct (map fst ps) \<Longrightarrow> set_all ps = ps"
proof -
  have "distinct (map fst (qs @ ps)) \<Longrightarrow> fold (\<lambda>(k, v). set_property k (Some v)) ps qs = qs @ ps" for qs
    by (induction ps arbitrary: qs) (auto simp: set_new_property)
  from this [of "[]"] show "distinct (map fst ps) \<Longrightarrow> set_all ps = ps"
    by (simp add: set_all_def)
qed

lemma copy_properties:
  assumes "\<forall>(k, v) \<in> set ps. amf0_copy v = v" and "distinct (map fst ps)"
  shows "set_all (map (\<lambda>(k, v). (k, amf0_copy v)) ps) = ps"
proof -
  have "map (\<lambda>(k, v). (k, amf0_copy v)) ps = ps"
    using assms(1) by (intro map_idI) auto
  then show ?thesis
    using set_all_distinct [OF assms(2)] by simp
qed

text \<open>A copy is equal to the value, if no string has a zero in it.\<close>

theorem amf0_copy_equal: "no_zero v \<Longrightarrow> amf0_copy v = v"
proof (induction v)
  case (Object ps)
  then show ?case
    by (intro amf0_copy.simps(2) [THEN trans] arg_cong [where f = Object] copy_properties) (fastforce simp: list_all_iff)+
next
  case (EcmaArray n ps)
  then show ?case
    by (intro amf0_copy.simps(3) [THEN trans] arg_cong [where f = "EcmaArray n"] copy_properties) (fastforce simp: list_all_iff)+
next
  case (StrictArray n vs)
  then show ?case
    by (auto simp: list_all_iff intro: map_idI)
qed (auto simp: takeWhile_eq_all_conv)

text \<open>What is set is got, and nothing else changes.\<close>

lemma get_set_property:
  assumes "distinct (map fst ps)"
  shows "get_property k (set_property k' v ps) = (if k = k' then v else get_property k ps)"
    and "distinct (map fst (set_property k' v ps))"
proof -
  have r: "distinct (map fst ps) \<Longrightarrow> map_of (remove_first k' ps) = (map_of ps)(k' := None)" "set (remove_first k' ps) \<subseteq> set ps"
    "distinct (map fst ps) \<Longrightarrow> distinct (map fst (remove_first k' ps)) \<and> k' \<notin> fst ` set (remove_first k' ps)"
    by (induction k' ps rule: remove_first.induct) (auto simp: fun_eq_iff map_of_eq_None_iff)
  show "get_property k (set_property k' v ps) = (if k = k' then v else get_property k ps)"
    using r(1) [OF assms] by (cases v) (auto simp: get_property_def set_property_def map_add_def split: option.splits)
  show "distinct (map fst (set_property k' v ps))"
    using r(3) [OF assms] by (cases v) (auto simp: set_property_def)
qed

end
