(* ===== verification/Rtmp_Command.thy ===== *)
theory Rtmp_Command
  imports Amf0_Laws Srs_Chunk "HOL-Library.Char_ord"
begin

text \<open>
  The packets of a session (\<open>SrsPacket\<close> and its classes, \<open>SrsProtocol::do_decode_message\<close> in
  \<open>AnyCore/srs_librtmp/srs_librtmp.cpp\<close>): commands in AMF0 and control messages, how they are written into the payload of a message
  and which packet a message is taken for. The answer to a request is recognised by the number of the transaction.
\<close>

section \<open>Packets\<close>

definition ascii :: "string \<Rightarrow> bytes" where
  "ascii s = map (\<lambda>c. word_of_nat (of_char c)) s"

definition ERROR_SYSTEM_PACKET_INVALID :: int where
  "ERROR_SYSTEM_PACKET_INVALID = 1019"

definition ERROR_RTMP_NO_REQUEST :: int where
  "ERROR_RTMP_NO_REQUEST = 2017"

datatype command =
    SrsPacket
  | SrsConnectAppPacket u64 properties "properties option"
  | SrsConnectAppResPacket u64 properties properties
  | SrsCallPacket bytes u64 amf0 "amf0 option"
  | SrsCreateStreamPacket u64
  | SrsCreateStreamResPacket u64 u64
  | SrsCloseStreamPacket bytes u64
  | SrsFMLEStartPacket bytes u64 bytes
  | SrsFMLEStartResPacket u64
  | SrsPublishPacket u64 bytes bytes
  | SrsPausePacket u64 bool u64
  | SrsPlayPacket u64 bytes u64 u64 bool
  | SrsOnMetaDataPacket bytes properties
  | SrsBandwidthPacket bytes u64 properties
  | SrsUserControlPacket nat nat nat
  | SrsSetWindowAckSizePacket u32
  | SrsSetChunkSizePacket u32
  | SrsCallResPacket u64 "amf0 option" "amf0 option"
  | SrsPlayResPacket u64 properties
  | SrsOnBWDonePacket u64
  | SrsOnStatusCallPacket u64 properties
  | SrsOnStatusDataPacket properties
  | SrsSampleAccessPacket bool bool
  | SrsAcknowledgementPacket u32
  | SrsSetPeerBandwidthPacket u32 u8

text \<open>The last eight are written by the library and known by no class when they are read.\<close>

section \<open>Writing\<close>

definition get_message_type :: "command \<Rightarrow> u8" where
  "get_message_type c = (case c of SrsPacket \<Rightarrow> 0 | SrsOnMetaDataPacket _ _ \<Rightarrow> 18 | SrsUserControlPacket _ _ _ \<Rightarrow> 4
     | SrsSetWindowAckSizePacket _ \<Rightarrow> 5 | SrsSetChunkSizePacket _ \<Rightarrow> 1 | SrsCloseStreamPacket _ _ \<Rightarrow> 0 | SrsPausePacket _ _ _ \<Rightarrow> 0
     | SrsOnStatusDataPacket _ \<Rightarrow> 18 | SrsSampleAccessPacket _ _ \<Rightarrow> 18 | SrsAcknowledgementPacket _ \<Rightarrow> 3 | SrsSetPeerBandwidthPacket _ _ \<Rightarrow> 6 | _ \<Rightarrow> 20)"

definition get_prefer_cid :: "command \<Rightarrow> nat" where
  "get_prefer_cid c = (case c of SrsPacket \<Rightarrow> 0 | SrsCloseStreamPacket _ _ \<Rightarrow> 0 | SrsPausePacket _ _ _ \<Rightarrow> 0
     | SrsOnMetaDataPacket _ _ \<Rightarrow> 4 | SrsUserControlPacket _ _ _ \<Rightarrow> 2 | SrsSetWindowAckSizePacket _ \<Rightarrow> 2 | SrsSetChunkSizePacket _ \<Rightarrow> 2
     | SrsPublishPacket _ _ _ \<Rightarrow> 5 | SrsPlayPacket _ _ _ _ _ \<Rightarrow> 5 | SrsBandwidthPacket _ _ _ \<Rightarrow> 5
     | SrsPlayResPacket _ _ \<Rightarrow> 5 | SrsOnStatusCallPacket _ _ \<Rightarrow> 5 | SrsOnStatusDataPacket _ \<Rightarrow> 5 | SrsSampleAccessPacket _ _ \<Rightarrow> 5
     | SrsAcknowledgementPacket _ \<Rightarrow> 2 | SrsSetPeerBandwidthPacket _ _ \<Rightarrow> 2 | _ \<Rightarrow> 3)"

text \<open>-2, -1 and the requests' numbers as doubles.\<close>

abbreviation double_minus_2 :: u64 where
  "double_minus_2 \<equiv> 0xC000000000000000"

abbreviation double_minus_1 :: u64 where
  "double_minus_1 \<equiv> 0xBFF0000000000000"

definition SrcPCUCSetBufferLength :: nat where
  "SrcPCUCSetBufferLength = 3"

definition SrsPCUCFmsEvent0 :: nat where
  "SrsPCUCFmsEvent0 = 0x1a"

definition command_size :: "bytes \<Rightarrow> nat" where
  "command_size name = total_size (Str name) + total_size (Number 0)"

fun get_size :: "command \<Rightarrow> nat" where
  "get_size (SrsConnectAppPacket tid obj args) = command_size (ascii ''connect'') + total_size (Object obj) +
     (case args of None \<Rightarrow> 0 | Some a \<Rightarrow> total_size (Object a))"
| "get_size (SrsConnectAppResPacket tid props info) = command_size (ascii ''_result'') + total_size (Object props) + total_size (Object info)"
| "get_size (SrsCallPacket name tid obj args) = command_size name + total_size obj + (case args of None \<Rightarrow> 0 | Some a \<Rightarrow> total_size a)"
| "get_size (SrsCreateStreamPacket tid) = command_size (ascii ''createStream'') + total_size Null"
| "get_size (SrsCreateStreamResPacket tid sid) = command_size (ascii ''_result'') + total_size Null + total_size (Number sid)"
| "get_size (SrsFMLEStartPacket name tid stream) = command_size name + total_size Null + total_size (Str stream)"
| "get_size (SrsFMLEStartResPacket tid) = command_size (ascii ''_result'') + total_size Null + total_size Undefined"
| "get_size (SrsPublishPacket tid stream t) = command_size (ascii ''publish'') + total_size Null + total_size (Str stream) + total_size (Str t)"
| "get_size (SrsPlayPacket tid stream start duration reset) = command_size (ascii ''play'') + total_size Null + total_size (Str stream) +
     (if start \<noteq> double_minus_2 \<or> duration \<noteq> double_minus_1 \<or> \<not> reset then total_size (Number start) else 0) +
     (if duration \<noteq> double_minus_1 \<or> \<not> reset then total_size (Number duration) else 0) + (if \<not> reset then total_size (Boolean reset) else 0)"
| "get_size (SrsOnMetaDataPacket name metadata) = total_size (Str name) + total_size (Object metadata)"
| "get_size (SrsBandwidthPacket name tid dat) = command_size name + total_size Null + total_size (Object dat)"
| "get_size (SrsUserControlPacket ev dat extra) = 2 + (if ev = SrsPCUCFmsEvent0 then 1 else 4) + (if ev = SrcPCUCSetBufferLength then 4 else 0)"
| "get_size (SrsSetWindowAckSizePacket n) = 4"
| "get_size (SrsSetChunkSizePacket n) = 4"
| "get_size (SrsCallResPacket tid obj response) = command_size (ascii ''_result'') + (case obj of None \<Rightarrow> 0 | Some v \<Rightarrow> total_size v) +
     (case response of None \<Rightarrow> 0 | Some v \<Rightarrow> total_size v)"
| "get_size (SrsPlayResPacket tid desc) = command_size (ascii ''_result'') + total_size Null + total_size (Object desc)"
| "get_size (SrsOnBWDonePacket tid) = command_size (ascii ''onBWDone'') + total_size Null"
| "get_size (SrsOnStatusCallPacket tid dat) = command_size (ascii ''onStatus'') + total_size Null + total_size (Object dat)"
| "get_size (SrsOnStatusDataPacket dat) = total_size (Str (ascii ''onStatus'')) + total_size (Object dat)"
| "get_size (SrsSampleAccessPacket video audio) = total_size (Str (ascii ''|RtmpSampleAccess'')) + total_size (Boolean video) + total_size (Boolean audio)"
| "get_size (SrsAcknowledgementPacket n) = 4"
| "get_size (SrsSetPeerBandwidthPacket n t) = 5"
| "get_size c = 0"

definition write_command :: "bytes \<Rightarrow> u64 \<Rightarrow> writer \<Rightarrow> writer" where
  "write_command name tid w = then_write (srs_amf0_write_string name) (then_write (srs_amf0_write_number tid) w)"

definition emit_control :: "bytes \<Rightarrow> writer" where
  "emit_control b room = (if length b \<le> room then Inr b else Inl ERROR_RTMP_MESSAGE_ENCODE)"

definition write_when :: "bool \<Rightarrow> writer \<Rightarrow> writer" where
  "write_when b w = (if b then w else (\<lambda>_. Inr []))"

fun encode_packet :: "command \<Rightarrow> writer" where
  "encode_packet (SrsConnectAppPacket tid obj args) = write_command (ascii ''connect'') tid (then_write (srs_amf0_write_any (Object obj))
     (case args of None \<Rightarrow> (\<lambda>_. Inr []) | Some a \<Rightarrow> srs_amf0_write_any (Object a)))"
| "encode_packet (SrsConnectAppResPacket tid props info) = write_command (ascii ''_result'') tid
     (then_write (srs_amf0_write_any (Object props)) (srs_amf0_write_any (Object info)))"
| "encode_packet (SrsCallPacket name tid obj args) = write_command name tid (then_write (srs_amf0_write_any obj)
     (case args of None \<Rightarrow> (\<lambda>_. Inr []) | Some a \<Rightarrow> srs_amf0_write_any a))"
| "encode_packet (SrsCreateStreamPacket tid) = write_command (ascii ''createStream'') tid srs_amf0_write_null"
| "encode_packet (SrsCreateStreamResPacket tid sid) = write_command (ascii ''_result'') tid (then_write srs_amf0_write_null (srs_amf0_write_number sid))"
| "encode_packet (SrsFMLEStartPacket name tid stream) = write_command name tid (then_write srs_amf0_write_null (srs_amf0_write_string stream))"
| "encode_packet (SrsFMLEStartResPacket tid) = write_command (ascii ''_result'') tid (then_write srs_amf0_write_null srs_amf0_write_undefined)"
| "encode_packet (SrsPublishPacket tid stream t) = write_command (ascii ''publish'') tid (then_write srs_amf0_write_null
     (then_write (srs_amf0_write_string stream) (srs_amf0_write_string t)))"
| "encode_packet (SrsPlayPacket tid stream start duration reset) = write_command (ascii ''play'') tid (then_write srs_amf0_write_null
     (then_write (srs_amf0_write_string stream) (then_write
       (write_when (start \<noteq> double_minus_2 \<or> duration \<noteq> double_minus_1 \<or> \<not> reset) (srs_amf0_write_number start)) (then_write
       (write_when (duration \<noteq> double_minus_1 \<or> \<not> reset) (srs_amf0_write_number duration))
       (write_when (\<not> reset) (srs_amf0_write_boolean reset))))))"
| "encode_packet (SrsOnMetaDataPacket name metadata) = then_write (srs_amf0_write_string name) (srs_amf0_write_any (Object metadata))"
| "encode_packet (SrsBandwidthPacket name tid dat) = write_command name tid (then_write srs_amf0_write_null (srs_amf0_write_any (Object dat)))"
| "encode_packet (SrsUserControlPacket ev dat extra) = emit_control (be_bytes 2 ev @
     (if ev = SrsPCUCFmsEvent0 then be_bytes 1 dat else be_bytes 4 dat) @ (if ev = SrcPCUCSetBufferLength then be_bytes 4 extra else []))"
| "encode_packet (SrsSetWindowAckSizePacket n) = emit_control (be_bytes 4 (unat n))"
| "encode_packet (SrsSetChunkSizePacket n) = emit_control (be_bytes 4 (unat n))"
| "encode_packet (SrsCallResPacket tid obj response) = write_command (ascii ''_result'') tid
     (then_write (case obj of None \<Rightarrow> (\<lambda>_. Inr []) | Some v \<Rightarrow> srs_amf0_write_any v)
       (case response of None \<Rightarrow> (\<lambda>_. Inr []) | Some v \<Rightarrow> srs_amf0_write_any v))"
| "encode_packet (SrsPlayResPacket tid desc) = write_command (ascii ''_result'') tid (then_write srs_amf0_write_null (srs_amf0_write_any (Object desc)))"
| "encode_packet (SrsOnBWDonePacket tid) = write_command (ascii ''onBWDone'') tid srs_amf0_write_null"
| "encode_packet (SrsOnStatusCallPacket tid dat) = write_command (ascii ''onStatus'') tid (then_write srs_amf0_write_null (srs_amf0_write_any (Object dat)))"
| "encode_packet (SrsOnStatusDataPacket dat) = then_write (srs_amf0_write_string (ascii ''onStatus'')) (srs_amf0_write_any (Object dat))"
| "encode_packet (SrsSampleAccessPacket video audio) = then_write (srs_amf0_write_string (ascii ''|RtmpSampleAccess''))
     (then_write (srs_amf0_write_boolean video) (srs_amf0_write_boolean audio))"
| "encode_packet (SrsAcknowledgementPacket n) = emit_control (be_bytes 4 (unat n))"
| "encode_packet (SrsSetPeerBandwidthPacket n t) = emit_control (be_bytes 4 (unat n) @ be_bytes 1 (unat t))"
| "encode_packet c = (\<lambda>_. Inl ERROR_SYSTEM_PACKET_INVALID)"

definition encode_command :: "command \<Rightarrow> int + bytes" where
  "encode_command c = encode_packet c (get_size c)"

section \<open>Reading\<close>

definition fail :: "int \<Rightarrow> 'a reader" where
  "fail e s = Inl e"

definition if_more :: "'a \<Rightarrow> 'a reader \<Rightarrow> 'a reader" where
  "if_more x r s = (if s = [] then Inr (x, s) else r s)"

definition read_name :: "bytes list \<Rightarrow> bytes reader" where
  "read_name names = then_read srs_amf0_read_string (\<lambda>n. if n = [] \<or> n \<notin> set names then fail ERROR_RTMP_AMF0_DECODE else return n)"

definition read_object :: "properties reader" where
  "read_object = then_read (read_marker RTMP_AMF0_Object) (\<lambda>_. read_properties [])"

definition decode_connect :: "command reader" where
  "decode_connect = then_read (read_name [ascii ''connect'']) (\<lambda>_. then_read srs_amf0_read_number (\<lambda>tid. then_read read_object (\<lambda>obj.
     if_more (SrsConnectAppPacket tid obj None) (then_read srs_amf0_read_any (\<lambda>a.
       return (SrsConnectAppPacket tid obj (case a of Object ps \<Rightarrow> Some ps | _ \<Rightarrow> None)))))))"

definition decode_connect_res :: "command reader" where
  "decode_connect_res = then_read (read_name [ascii ''_result'']) (\<lambda>_. then_read srs_amf0_read_number (\<lambda>tid.
     then_read (if_more [] (then_read srs_amf0_read_any (\<lambda>a. return (case a of Object ps \<Rightarrow> ps | _ \<Rightarrow> [])))) (\<lambda>props.
       then_read read_object (\<lambda>info. return (SrsConnectAppResPacket tid props info)))))"

definition decode_call :: "command reader" where
  "decode_call = then_read srs_amf0_read_string (\<lambda>n. if n = [] then fail ERROR_RTMP_AMF0_DECODE else then_read srs_amf0_read_number (\<lambda>tid.
     then_read srs_amf0_read_any (\<lambda>obj. if_more (SrsCallPacket n tid obj None)
       (then_read srs_amf0_read_any (\<lambda>a. return (SrsCallPacket n tid obj (Some a)))))))"

definition decode_create_stream :: "command reader" where
  "decode_create_stream = then_read (read_name [ascii ''createStream'']) (\<lambda>_. then_read srs_amf0_read_number (\<lambda>tid.
     then_read srs_amf0_read_null (\<lambda>_. return (SrsCreateStreamPacket tid))))"

definition decode_create_stream_res :: "command reader" where
  "decode_create_stream_res = then_read (read_name [ascii ''_result'']) (\<lambda>_. then_read srs_amf0_read_number (\<lambda>tid.
     then_read srs_amf0_read_null (\<lambda>_. then_read srs_amf0_read_number (\<lambda>sid. return (SrsCreateStreamResPacket tid sid)))))"

definition decode_close_stream :: "command reader" where
  "decode_close_stream = then_read srs_amf0_read_string (\<lambda>n. then_read srs_amf0_read_number (\<lambda>tid. then_read srs_amf0_read_null (\<lambda>_.
     return (SrsCloseStreamPacket n tid))))"

definition decode_fmle_start :: "command reader" where
  "decode_fmle_start = then_read (read_name [ascii ''releaseStream'', ascii ''FCPublish'', ascii ''FCUnpublish'']) (\<lambda>n.
     then_read srs_amf0_read_number (\<lambda>tid. then_read srs_amf0_read_null (\<lambda>_. then_read srs_amf0_read_string (\<lambda>stream.
       return (SrsFMLEStartPacket n tid stream)))))"

definition decode_fmle_start_res :: "command reader" where
  "decode_fmle_start_res = then_read (read_name [ascii ''_result'']) (\<lambda>_. then_read srs_amf0_read_number (\<lambda>tid.
     then_read srs_amf0_read_null (\<lambda>_. then_read srs_amf0_read_undefined (\<lambda>_. return (SrsFMLEStartResPacket tid)))))"

definition decode_publish :: "command reader" where
  "decode_publish = then_read (read_name [ascii ''publish'']) (\<lambda>_. then_read srs_amf0_read_number (\<lambda>tid. then_read srs_amf0_read_null (\<lambda>_.
     then_read srs_amf0_read_string (\<lambda>stream. then_read (if_more (ascii ''live'') srs_amf0_read_string) (\<lambda>t.
       return (SrsPublishPacket tid stream t))))))"

definition decode_pause :: "command reader" where
  "decode_pause = then_read (read_name [ascii ''pause'']) (\<lambda>_. then_read srs_amf0_read_number (\<lambda>tid. then_read srs_amf0_read_null (\<lambda>_.
     then_read srs_amf0_read_boolean (\<lambda>b. then_read srs_amf0_read_number (\<lambda>ms. return (SrsPausePacket tid b ms))))))"

definition nonzero :: "u64 \<Rightarrow> bool" where
  "nonzero n \<longleftrightarrow> n AND 0x7FFFFFFFFFFFFFFF \<noteq> 0"

definition read_reset :: "bool reader" where
  "read_reset s = (case srs_amf0_read_any s of Inl e \<Rightarrow> Inl ERROR_RTMP_AMF0_DECODE
     | Inr (Boolean b, s) \<Rightarrow> Inr (b, s) | Inr (Number n, s) \<Rightarrow> Inr (nonzero n, s) | _ \<Rightarrow> Inl ERROR_RTMP_AMF0_DECODE)"

definition decode_play :: "command reader" where
  "decode_play = then_read (read_name [ascii ''play'']) (\<lambda>_. then_read srs_amf0_read_number (\<lambda>tid. then_read srs_amf0_read_null (\<lambda>_.
     then_read srs_amf0_read_string (\<lambda>stream. then_read (if_more double_minus_2 srs_amf0_read_number) (\<lambda>start.
       then_read (if_more double_minus_1 srs_amf0_read_number) (\<lambda>duration. then_read (if_more True read_reset) (\<lambda>reset.
         return (SrsPlayPacket tid stream start duration reset))))))))"

text \<open>The properties of an array are copied one by one.\<close>

definition decode_metadata :: "command reader" where
  "decode_metadata = then_read srs_amf0_read_string (\<lambda>n. then_read (if n = ascii ''@setDataFrame'' then srs_amf0_read_string else return n) (\<lambda>n.
     then_read srs_amf0_read_any (\<lambda>a. return (SrsOnMetaDataPacket n (case a of Object ps \<Rightarrow> ps
       | EcmaArray k ps \<Rightarrow> set_all (map (\<lambda>(k, v). (k, amf0_copy v)) ps) | _ \<Rightarrow> [])))))"

definition bandwidth_with_data :: "bytes list" where
  "bandwidth_with_data = [ascii ''onSrsBandCheckStopPlayBytes'', ascii ''onSrsBandCheckStartPublishBytes'', ascii ''onSrsBandCheckFinished'']"

definition bandwidth_commands :: "bytes list" where
  "bandwidth_commands = bandwidth_with_data @ [ascii ''onSrsBandCheckPlaying'', ascii ''onSrsBandCheckPublishing'',
     ascii ''onSrsBandCheckStartingPlayBytes'', ascii ''onSrsBandCheckStartingPublishBytes'', ascii ''onSrsBandCheckStartPlayBytes'',
     ascii ''onSrsBandCheckStoppedPlayBytes'', ascii ''onSrsBandCheckStopPublishBytes'', ascii ''onSrsBandCheckStoppedPublishBytes'',
     ascii ''finalClientPacket'']"

definition decode_bandwidth :: "command reader" where
  "decode_bandwidth = then_read srs_amf0_read_string (\<lambda>n. then_read srs_amf0_read_number (\<lambda>tid. then_read srs_amf0_read_null (\<lambda>_.
     then_read (if n \<in> set bandwidth_with_data then read_object else return []) (\<lambda>dat. return (SrsBandwidthPacket n tid dat)))))"

definition decode_control :: "u8 \<Rightarrow> bytes \<Rightarrow> int + command" where
  "decode_control t s =
     (if t = 4
      then (case decode_user_control s of Inl e \<Rightarrow> Inl e
        | Inr (ev, dat) \<Rightarrow> Inr (SrsUserControlPacket ev dat (if ev = SrcPCUCSetBufferLength then be (take 4 (drop 6 s)) else 0)))
      else if length s < 4 then Inl ERROR_RTMP_MESSAGE_DECODE
      else let n = word_of_nat (be (take 4 s)) in Inr (if t = 5 then SrsSetWindowAckSizePacket n else SrsSetChunkSizePacket n))"

text \<open>
  The requests by the numbers of their transactions, smallest first. Searched by its order, the map finds its first entry for a
  number that is none. The numbers of requests are positive, and positive doubles are ordered as their bits are.
\<close>

type_synonym requests = "(u64 \<times> bytes) list"

definition is_nan :: "u64 \<Rightarrow> bool" where
  "is_nan n \<longleftrightarrow> (n AND 0x7FF0000000000000) = 0x7FF0000000000000 \<and> (n AND 0xFFFFFFFFFFFFF) \<noteq> 0"

definition find_request :: "requests \<Rightarrow> u64 \<Rightarrow> bytes option" where
  "find_request rs tid = (if is_nan tid then map_option snd (if rs = [] then None else Some (hd rs)) else map_of rs tid)"

fun add_request :: "u64 \<Rightarrow> bytes \<Rightarrow> requests \<Rightarrow> requests" where
  "add_request tid n [] = [(tid, n)]"
| "add_request tid n ((k, m) # rs) = (if tid < k then (tid, n) # (k, m) # rs else if tid = k then (k, n) # rs else (k, m) # add_request tid n rs)"

definition decode_answer :: "bytes option \<Rightarrow> command reader" where
  "decode_answer request = (case request of None \<Rightarrow> fail ERROR_RTMP_NO_REQUEST | Some n \<Rightarrow>
     if n = ascii ''connect'' then decode_connect_res
     else if n = ascii ''createStream'' then decode_create_stream_res
     else if n \<in> {ascii ''releaseStream'', ascii ''FCPublish'', ascii ''FCUnpublish''} then decode_fmle_start_res
     else fail ERROR_RTMP_NO_REQUEST)"

definition decode_named :: "u8 \<Rightarrow> bytes \<Rightarrow> command reader" where
  "decode_named t n =
     (if n = ascii ''connect'' then decode_connect
      else if n = ascii ''createStream'' then decode_create_stream
      else if n = ascii ''play'' then decode_play
      else if n = ascii ''pause'' then decode_pause
      else if n \<in> {ascii ''releaseStream'', ascii ''FCPublish'', ascii ''FCUnpublish''} then decode_fmle_start
      else if n = ascii ''publish'' then decode_publish
      else if n \<in> {ascii ''@setDataFrame'', ascii ''onMetaData''} then decode_metadata
      else if n \<in> set bandwidth_commands then decode_bandwidth
      else if n = ascii ''closeStream'' then decode_close_stream
      else if t = 20 \<or> t = 17 then decode_call
      else return SrsPacket)"

definition do_decode_message :: "requests \<Rightarrow> u8 \<Rightarrow> bytes \<Rightarrow> int + command option" where
  "do_decode_message rs t payload =
     (if t \<in> {20, 17, 18, 15}
      then let s = (if t = 17 then drop 1 payload else payload) in
        (case srs_amf0_read_string s of Inl e \<Rightarrow> Inl e
         | Inr (n, s') \<Rightarrow>
           (case (if n = ascii ''_result'' \<or> n = ascii ''_error''
              then then_read srs_amf0_read_number (\<lambda>tid _. decode_answer (find_request rs tid) s) s' else decode_named t n s) of
             Inl e \<Rightarrow> Inl e | Inr (c, s'') \<Rightarrow> Inr (Some c)))
      else if t = 4 \<or> t = 5 \<or> t = 1 then (case decode_control t payload of Inl e \<Rightarrow> Inl e | Inr c \<Rightarrow> Inr (Some c))
      else Inr None)"

end
