(* ===== verification/Rtmp_Url.thy ===== *)
theory Rtmp_Url
  imports Rtmp_Command
begin

text \<open>
  The address of a stream (\<open>srs_librtmp_context_parse_uri\<close>, \<open>srs_discovery_tc_url\<close>, \<open>srs_vhost_resolve\<close>,
  \<open>srs_generate_tc_url\<close> in \<open>AnyCore/srs_librtmp/srs_librtmp.cpp\<close>): taken apart into host, port, application and stream, and put
  together again for the command that connects. The replacing of a string looks again at what it has put in, and need not end;
  \<open>None\<close> is that it does not.
\<close>

section \<open>Strings\<close>

fun find_sub :: "bytes \<Rightarrow> bytes \<Rightarrow> nat option" where
  "find_sub pat [] = (if pat = [] then Some 0 else None)"
| "find_sub pat (b # s) = (if take (length pat) (b # s) = pat then Some 0 else map_option Suc (find_sub pat s))"

partial_function (option) srs_string_replace :: "bytes \<Rightarrow> bytes \<Rightarrow> bytes \<Rightarrow> bytes option" where
  "srs_string_replace old new s = (if old = new then Some s else case find_sub old s of None \<Rightarrow> Some s
     | Some k \<Rightarrow> Option.bind (srs_string_replace old new (new @ drop (k + length old) s)) (\<lambda>t. Some (take k s @ t)))"

section \<open>Addresses\<close>

definition SRS_CONSTS_RTMP_DEFAULT_VHOST :: bytes where
  "SRS_CONSTS_RTMP_DEFAULT_VHOST = ascii ''__defaultVhost__''"

definition SRS_CONSTS_RTMP_DEFAULT_PORT :: bytes where
  "SRS_CONSTS_RTMP_DEFAULT_PORT = ascii ''1935''"

record address =
  ad_tcUrl :: bytes
  ad_host :: bytes
  ad_port :: bytes
  ad_vhost :: bytes
  ad_app :: bytes
  ad_stream :: bytes
  ad_param :: bytes

definition new_address :: address where
  "new_address = \<lparr>ad_tcUrl = [], ad_host = [], ad_port = [], ad_vhost = [], ad_app = [], ad_stream = [], ad_param = []\<rparr>"

definition replaces :: "string list \<Rightarrow> bytes \<Rightarrow> bytes option" where
  "replaces olds s = fold (\<lambda>old r. Option.bind r (srs_string_replace (ascii old) (ascii ''?''))) olds (Some s)"

text \<open>The virtual host behind \<open>vhost?\<close>, when every separator has become a question mark.\<close>

definition vhost_of :: "bytes \<Rightarrow> bytes \<Rightarrow> bytes" where
  "vhost_of query vhost = (case find_sub (ascii ''vhost?'') query of None \<Rightarrow> vhost
     | Some k \<Rightarrow> let q = drop (k + 6) query; v = (if q = [] then vhost else q)
         in (case find_sub (ascii ''?'') v of None \<Rightarrow> v | Some j \<Rightarrow> take j v))"

definition srs_vhost_resolve :: "address \<Rightarrow> address option" where
  "srs_vhost_resolve a = (let a = (case find_sub (ascii ''?'') (ad_app a) of None \<Rightarrow> a | Some k \<Rightarrow> a\<lparr>ad_param := drop k (ad_app a)\<rparr>) in
     map_option (\<lambda>app. case find_sub (ascii ''?'') app of None \<Rightarrow> a\<lparr>ad_app := app\<rparr>
       | Some k \<Rightarrow> a\<lparr>ad_app := take k app, ad_vhost := vhost_of (drop (k + 1) app) (ad_vhost a)\<rparr>)
     (replaces ['','', ''...'', ''&&'', ''=''] (ad_app a)))"

definition srs_discovery_tc_url :: "bytes \<Rightarrow> address \<Rightarrow> address option" where
  "srs_discovery_tc_url tcUrl a =
     (let url = (case find_sub (ascii ''://'') tcUrl of None \<Rightarrow> tcUrl | Some k \<Rightarrow> drop (k + 3) tcUrl);
          (host, url) = (case find_sub (ascii ''/'') url of None \<Rightarrow> (ad_host a, url) | Some k \<Rightarrow> (take k url, drop (k + 1) url));
          (host, port) = (case find_sub (ascii '':'') host of None \<Rightarrow> (host, SRS_CONSTS_RTMP_DEFAULT_PORT) | Some k \<Rightarrow> (take k host, drop (k + 1) host))
      in srs_vhost_resolve (a\<lparr>ad_host := host, ad_port := port, ad_app := url, ad_vhost := host\<rparr>))"

text \<open>What stands behind the last slash is the stream.\<close>

definition srs_librtmp_context_parse_uri :: "bytes \<Rightarrow> address option" where
  "srs_librtmp_context_parse_uri url =
     (let a = (case find_sub (ascii ''/'') (rev url) of None \<Rightarrow> new_address
        | Some k \<Rightarrow> new_address\<lparr>ad_stream := drop (length url - k) url, ad_tcUrl := take (length url - k - 1) url\<rparr>)
      in srs_discovery_tc_url (ad_tcUrl a) a)"

definition srs_generate_tc_url :: "bytes \<Rightarrow> address \<Rightarrow> bytes" where
  "srs_generate_tc_url ip a = ascii ''rtmp://'' @ (if ad_vhost a = SRS_CONSTS_RTMP_DEFAULT_VHOST then ip else ad_vhost a) @
     (if ad_port a \<noteq> SRS_CONSTS_RTMP_DEFAULT_PORT then ascii '':'' @ ad_port a else []) @ ascii ''/'' @ ad_app a @ ad_param a"

end
