(* ===== verification/Url_Laws.thy ===== *)
theory Url_Laws
  imports Rtmp_Url
begin

text \<open>
  What parsing and printing the address of a stream come to: its parts are found again, and so is the address.
\<close>

section \<open>Parsing and printing\<close>

lemma ascii_simps [simp]: "ascii [] = []" "ascii (c # s) = word_of_nat (of_char c) # ascii s"
  by (simp_all add: ascii_def)

lemma find_sub_None: "pat \<noteq> [] \<Longrightarrow> hd pat \<notin> set s \<Longrightarrow> find_sub pat s = None"
  by (induction s) (auto simp: neq_Nil_conv)

lemma find_sub_Some:
  assumes "hd pat \<notin> set s" and "pat \<noteq> []"
  shows "find_sub pat (s @ pat @ t) = Some (length s)"
  using assms
proof (induction s)
  case Nil
  then show ?case
    by (cases pat) simp_all
next
  case (Cons b s)
  then show ?case
    by (cases pat) auto
qed

lemma replace_absent: "find_sub old s = None \<Longrightarrow> srs_string_replace old new s = Some s"
  by (simp add: srs_string_replace.simps [of old])

text \<open>A separator, once: it becomes a question mark.\<close>

lemma replace_once:
  assumes "find_sub old (s @ old @ t) = Some (length s)" and "old \<noteq> new" and "find_sub old (new @ t) = None"
  shows "srs_string_replace old new (s @ old @ t) = Some (s @ new @ t)"
  using assms replace_absent [OF assms(3)] by (simp add: srs_string_replace.simps [of old new "s @ old @ t"])

lemma find_sub_across:
  assumes "x \<notin> set pat" and "find_sub pat s = None" and "find_sub pat t = None"
  shows "find_sub pat (s @ x # t) = None"
  using assms(2)
proof (induction s)
  case Nil
  then show ?case
    using assms(1,3) by (cases pat) auto
next
  case (Cons b s)
  have "take (length pat) ((b # s) @ x # t) \<noteq> pat"
  proof
    assume p: "take (length pat) ((b # s) @ x # t) = pat"
    show False
    proof (cases "length pat \<le> length (b # s)")
      case True
      then have "take (length pat) ((b # s) @ x # t) = take (length pat) (b # s)"
        unfolding take_append by simp
      with p Cons.prems show False
        by (auto split: if_split_asm)
    next
      case False
      then have "x \<in> set (take (length pat) ((b # s) @ x # t))"
        by (auto simp: take_Cons' split: nat.splits)
      with p assms(1) show False
        by simp
    qed
  qed
  with Cons show ?case
    by (auto split: if_split_asm)
qed

text \<open>Names without separators, and an address that is made of them.\<close>

definition plain :: "bytes \<Rightarrow> bool" where
  "plain s \<longleftrightarrow> set s \<inter> set (ascii ''?,=&'') = {} \<and> find_sub (ascii ''...'') s = None"

definition address_param :: "bytes option \<Rightarrow> bytes" where
  "address_param vhost = (case vhost of None \<Rightarrow> [] | Some v \<Rightarrow> ascii ''?vhost='' @ v)"

definition address_text :: "bytes \<Rightarrow> bytes option \<Rightarrow> bytes \<Rightarrow> bytes option \<Rightarrow> bytes" where
  "address_text host port app vhost = ascii ''rtmp://'' @ host @ (case port of None \<Rightarrow> [] | Some p \<Rightarrow> ascii '':'' @ p) @ ascii ''/'' @ app @ address_param vhost"

text \<open>Names in which no separator is found.\<close>

definition unbroken :: "bytes \<Rightarrow> bool" where
  "unbroken s \<longleftrightarrow> list_all (\<lambda>p. find_sub (ascii p) s = None) ['','', ''...'', ''&&'', ''='', ''?'']"

lemma plain_unbroken: "plain s \<Longrightarrow> unbroken s"
  by (auto simp: plain_def unbroken_def intro!: find_sub_None)

lemma plain_resolved:
  assumes "plain (ad_app a)"
  shows "srs_vhost_resolve a = Some a"
  using plain_unbroken [OF assms] by (simp add: srs_vhost_resolve_def replaces_def replace_absent unbroken_def)

lemma vhost_resolved:
  assumes "plain app" and "unbroken v" and "v \<noteq> []" and "ad_app a = app @ address_param (Some v)"
  shows "srs_vhost_resolve a = Some (a\<lparr>ad_param := address_param (Some v), ad_app := app, ad_vhost := v\<rparr>)"
proof -
  let ?q = "ascii ''?''" and ?e = "ascii ''=''"
  let ?s = "app @ ascii ''?vhost=''  @ v" and ?t = "(app @ ascii ''?vhost'') @ ?q @ v"
  have app: "unbroken app"
    using assms(1) by (rule plain_unbroken)
  note v = assms(2) [unfolded unbroken_def, simplified]
  have start: "find_sub ?q ?s = Some (length app)"
    using find_sub_Some [of ?q app "ascii ''vhost='' @ v"] assms(1) by (simp add: plain_def)
  have absent: "find_sub (ascii '','') ?s = None" "find_sub (ascii ''...'') ?s = None" "find_sub (ascii ''&&'') ?s = None"
    using app v by (auto simp: unbroken_def intro!: find_sub_across)
  have "srs_string_replace ?e ?q ((app @ ascii ''?vhost'') @ ?e @ v) = Some ?t"
  proof (rule replace_once)
    show "find_sub ?e ((app @ ascii ''?vhost'') @ ?e @ v) = Some (length (app @ ascii ''?vhost''))"
      using assms(1) by (intro find_sub_Some) (auto simp: plain_def)
    show "find_sub ?e (?q @ v) = None"
      using v by simp
  qed simp
  with absent have r: "replaces ['','', ''...'', ''&&'', ''=''] ?s = Some ?t"
    by (simp add: replaces_def replace_absent)
  have again: "find_sub ?q ?t = Some (length app)"
    using find_sub_Some [of ?q app "ascii ''vhost'' @ ?q @ v"] assms(1) by (simp add: plain_def)
  have "vhost_of (drop (length app + 1) ?t) old = v" for old
    using v assms(3) by (simp add: vhost_of_def)
  with start r again assms(4) show ?thesis
    by (simp add: srs_vhost_resolve_def address_param_def)
qed

text \<open>The application may hold slashes; host, port and stream may not, nor the host a colon.\<close>

definition named :: "bytes \<Rightarrow> bytes option \<Rightarrow> bytes \<Rightarrow> bytes option \<Rightarrow> bytes \<Rightarrow> bool" where
  "named host port app vhost stream \<longleftrightarrow> set host \<inter> set (ascii '':/'') = {} \<and> 0x2F \<notin> set stream \<and> plain app \<and>
     (case port of None \<Rightarrow> True | Some p \<Rightarrow> 0x2F \<notin> set p) \<and> (case vhost of None \<Rightarrow> True | Some v \<Rightarrow> plain v \<and> v \<noteq> [])"

definition the_address :: "bytes \<Rightarrow> bytes option \<Rightarrow> bytes \<Rightarrow> bytes option \<Rightarrow> bytes \<Rightarrow> address" where
  "the_address host port app vhost stream = \<lparr>ad_tcUrl = address_text host port app vhost, ad_host = host,
     ad_port = (case port of None \<Rightarrow> SRS_CONSTS_RTMP_DEFAULT_PORT | Some p \<Rightarrow> p), ad_vhost = (case vhost of None \<Rightarrow> host | Some v \<Rightarrow> v),
     ad_app = app, ad_stream = stream, ad_param = address_param vhost\<rparr>"

lemma resolved:
  assumes "plain app" and "case vhost of None \<Rightarrow> True | Some v \<Rightarrow> plain v \<and> v \<noteq> []" and "ad_app a = app @ address_param vhost" and "ad_vhost a = host"
    and "ad_param a = []"
  shows "srs_vhost_resolve a = Some (a\<lparr>ad_param := address_param vhost, ad_app := app, ad_vhost := (case vhost of None \<Rightarrow> host | Some v \<Rightarrow> v)\<rparr>)"
proof (cases vhost)
  case None
  then have "ad_app a = app" "a = a\<lparr>ad_param := [], ad_app := app, ad_vhost := host\<rparr>"
    using assms(3-5) by (simp_all add: address_param_def)
  with plain_resolved [of a] assms(1) None show ?thesis
    by (simp add: address_param_def)
next
  case (Some v)
  with vhost_resolved [of app v a] plain_unbroken assms show ?thesis
    by simp
qed

lemma discovered:
  assumes "named host port app vhost stream" and "ad_host a = []" and "ad_param a = []"
  shows "srs_discovery_tc_url (address_text host port app vhost) a = Some (a\<lparr>ad_host := host, ad_port := ad_port (the_address host port app vhost stream),
    ad_app := app, ad_vhost := ad_vhost (the_address host port app vhost stream), ad_param := address_param vhost\<rparr>)"
proof -
  let ?hp = "host @ (case port of None \<Rightarrow> [] | Some p \<Rightarrow> ascii '':'' @ p)"
  let ?rest = "app @ address_param vhost"
  have url: "address_text host port app vhost = ascii ''rtmp'' @ ascii ''://'' @ ?hp @ ascii ''/'' @ ?rest"
    by (simp add: address_text_def)
  have f1: "find_sub (ascii ''://'') (address_text host port app vhost) = Some 4"
    unfolding url using find_sub_Some [of "ascii ''://''" "ascii ''rtmp''"] by simp
  have f2: "find_sub (ascii ''/'') (?hp @ ascii ''/'' @ ?rest) = Some (length ?hp)"
    using assms(1) by (intro find_sub_Some) (auto simp: named_def split: option.splits)
  have f3: "find_sub (ascii '':'') ?hp = (case port of None \<Rightarrow> None | Some p \<Rightarrow> Some (length host))"
    using assms(1) find_sub_None [of "ascii '':''" host] find_sub_Some [of "ascii '':''" host]
    by (auto simp: named_def split: option.split)
  let ?a = "a\<lparr>ad_host := host, ad_port := ad_port (the_address host port app vhost stream), ad_app := ?rest, ad_vhost := host\<rparr>"
  have "drop 7 (address_text host port app vhost) = ?hp @ ascii ''/'' @ ?rest"
    unfolding url by simp
  then have "srs_discovery_tc_url (address_text host port app vhost) a = srs_vhost_resolve ?a"
    using f1 f2 f3 by (cases port) (simp_all add: srs_discovery_tc_url_def the_address_def)
  also have "\<dots> = Some (?a\<lparr>ad_param := address_param vhost, ad_app := app, ad_vhost := (case vhost of None \<Rightarrow> host | Some v \<Rightarrow> v)\<rparr>)"
    using assms(1,3) by (intro resolved) (simp_all add: named_def)
  finally show ?thesis
    by (simp add: the_address_def)
qed

text \<open>C10. An address of host, port, application, virtual host and stream is taken apart into these, and the address put together for the command that
  connects is the one that was given, less the stream, if it names no virtual host and no default port or host.\<close>

theorem address_roundtrip:
  assumes "named host port app vhost stream"
  shows "\<exists>a. srs_librtmp_context_parse_uri (address_text host port app vhost @ ascii ''/'' @ stream) = Some a \<and> a = the_address host port app vhost stream \<and>
    (vhost = None \<longrightarrow> port \<noteq> Some SRS_CONSTS_RTMP_DEFAULT_PORT \<longrightarrow> host \<noteq> SRS_CONSTS_RTMP_DEFAULT_VHOST \<longrightarrow>
      srs_generate_tc_url ip a = address_text host port app vhost)"
proof -
  let ?t = "address_text host port app vhost"
  let ?url = "?t @ ascii ''/'' @ stream"
  have "find_sub (ascii ''/'') (rev stream @ ascii ''/'' @ rev ?t) = Some (length (rev stream))"
    using assms by (intro find_sub_Some) (auto simp: named_def)
  then have "srs_librtmp_context_parse_uri ?url = srs_discovery_tc_url ?t (new_address\<lparr>ad_stream := stream, ad_tcUrl := ?t\<rparr>)"
    by (simp add: srs_librtmp_context_parse_uri_def)
  also have "\<dots> = Some (the_address host port app vhost stream)"
    using discovered [OF assms, of "new_address\<lparr>ad_stream := stream, ad_tcUrl := ?t\<rparr>"] by (simp add: new_address_def the_address_def)
  finally show ?thesis
    by (auto simp: the_address_def srs_generate_tc_url_def address_text_def address_param_def split: option.splits)
qed

theorem address_roundtrip_witness:
  "\<exists>a. srs_librtmp_context_parse_uri (ascii ''rtmp://h:19350/live/x/s'') = Some a \<and> ad_app a = ascii ''live/x'' \<and> ad_stream a = ascii ''s'' \<and>
    srs_generate_tc_url [] a = ascii ''rtmp://h:19350/live/x''"
proof -
  have "named (ascii ''h'') (Some (ascii ''19350'')) (ascii ''live/x'') None (ascii ''s'')"
    by (simp add: named_def plain_def)
  from address_roundtrip [OF this, of "[]"] show ?thesis
    by (simp add: the_address_def address_text_def address_param_def SRS_CONSTS_RTMP_DEFAULT_PORT_def SRS_CONSTS_RTMP_DEFAULT_VHOST_def)
qed

text \<open>A single ampersand does not end the name of a virtual host.\<close>

lemma ampersand_in_vhost:
  assumes "plain app" and "ad_app a = app @ ascii ''?vhost=v&key''"
  shows "map_option ad_vhost (srs_vhost_resolve a) = Some (ascii ''v&key'')"
  using vhost_resolved [OF assms(1), of "ascii ''v&key''" a] assms(2) by (simp add: unbroken_def address_param_def)

end
