(* ===== verification/Rtmp_Connect.thy ===== *)
theory Rtmp_Connect
  imports Rtmp_Url Srs_Client
begin

text \<open>
  A session of the client from the handshake to the stream (\<open>SrsSimpleHandshake\<close>, \<open>SrsRtmpClient\<close>,
  \<open>srs_rtmp_connect_app\<close>, \<open>srs_rtmp_publish_stream\<close>, \<open>srs_rtmp_play_stream\<close> in
  \<open>AnyCore/srs_librtmp/srs_librtmp.cpp\<close>): the commands it sends, the answers it waits for, and the numbers it takes from them. A
  double that is converted to an \<open>int\<close> it does not fit is undefined behaviour.
\<close>

section \<open>Sessions\<close>

definition ERROR_RTMP_HANDSHAKE :: int where
  "ERROR_RTMP_HANDSHAKE = 2016"

record session =
  se_protocol :: protocol
  se_requests :: requests
  se_stream_id :: int

definition new_session :: "recv_result list \<Rightarrow> session" where
  "new_session rs = \<lparr>se_protocol = new_protocol rs, se_requests = [], se_stream_id = 0\<rparr>"

type_synonym 'a task = "session \<Rightarrow> ((int + 'a) \<times> session) option"

definition then_do :: "'a task \<Rightarrow> ('a \<Rightarrow> 'b task) \<Rightarrow> 'b task" where
  "then_do m f s = (case m s of None \<Rightarrow> None | Some (Inl e, s) \<Rightarrow> Some (Inl e, s) | Some (Inr x, s) \<Rightarrow> f x s)"

definition over_protocol :: "'a io \<Rightarrow> 'a task" where
  "over_protocol m s = (case m (se_protocol s) of (r, p) \<Rightarrow> Some (r, s\<lparr>se_protocol := p\<rparr>))"

definition double_to_int :: "u64 \<Rightarrow> int option" where
  "double_to_int d =
     (let n = unat d; e = n div 2 ^ 52 mod 2048; m = 2 ^ 52 + n mod 2 ^ 52;
          v = (if e < 1023 then 0 else m div 2 ^ (1075 - e)); x = (if n div 2 ^ 63 = 1 then - int v else int v)
      in if e < 1055 \<and> - (2 ^ 31) \<le> x \<and> x < 2 ^ 31 then Some x else None)"

section \<open>Handshake\<close>

text \<open>Read straight from the socket, before the buffer of the protocol is used; the bytes are counted twice.\<close>

function read_pieces :: "nat \<Rightarrow> bytes io" where
  "read_pieces n p =
     (if n = 0 then (Inr [], p)
      else (case srs_hijack_io_read n (reads p) of
          (Inl e, rs) \<Rightarrow> (Inl e, p\<lparr>reads := rs\<rparr>)
        | (Inr b, rs) \<Rightarrow> and_then (read_pieces (n - length b)) (\<lambda>b' p. (Inr (b @ b'), p)) (p\<lparr>reads := rs, recv_bytes := recv_bytes p + length b\<rparr>)))"
  by auto

termination
  by (relation "measure (\<lambda>(n, p). n)") (auto dest: read_to_come [OF sym])

declare read_pieces.simps [simp del]

definition srs_hijack_io_read_fully :: "nat \<Rightarrow> bytes io" where
  "srs_hijack_io_read_fully n = and_then (read_pieces n) (\<lambda>b p. (Inr b, p\<lparr>recv_bytes := recv_bytes p + length b\<rparr>))"

text \<open>The random bytes and the clock are arguments.\<close>

definition create_c0c1 :: "u32 \<Rightarrow> bytes \<Rightarrow> bytes" where
  "create_c0c1 now rnd = [3] @ be_bytes 4 (unat now) @ be_bytes 4 0 @ drop 9 (take 1537 rnd)"

definition handshake_with_server :: "socket \<Rightarrow> u32 \<Rightarrow> bytes \<Rightarrow> unit task" where
  "handshake_with_server sk now rnd =
     then_do (over_protocol (writev sk [create_c0c1 now rnd])) (\<lambda>_.
     then_do (over_protocol (srs_hijack_io_read_fully 3073)) (\<lambda>b.
       if b ! 0 \<noteq> 3 then (\<lambda>s. Some (Inl ERROR_RTMP_HANDSHAKE, s))
       else over_protocol (writev sk [take 1536 (drop 1 b)])))"

section \<open>Sending and waiting\<close>

definition command_msg :: "command \<Rightarrow> u32 \<Rightarrow> bytes \<Rightarrow> common_msg" where
  "command_msg c sid b = \<lparr>msg_header = (new_header (get_prefer_cid c))\<lparr>payload_length := length b, message_type := get_message_type c, stream_id := sid\<rparr>,
     msg_payload = b\<rparr>"

definition ask :: "u64 \<Rightarrow> bytes \<Rightarrow> session \<Rightarrow> session" where
  "ask tid name s = s\<lparr>se_requests := add_request tid name (se_requests s)\<rparr>"

definition on_send_packet :: "command \<Rightarrow> session \<Rightarrow> session" where
  "on_send_packet c s = (case c of
       SrsSetChunkSizePacket n \<Rightarrow> s\<lparr>se_protocol := (se_protocol s)\<lparr>out_chunk_size := unat n\<rparr>\<rparr>
     | SrsConnectAppPacket tid _ _ \<Rightarrow> ask tid (ascii ''connect'') s
     | SrsCreateStreamPacket tid \<Rightarrow> ask tid (ascii ''createStream'') s
     | SrsFMLEStartPacket name tid _ \<Rightarrow> ask tid name s
     | _ \<Rightarrow> s)"

definition send_and_free_packet :: "socket \<Rightarrow> command \<Rightarrow> u32 \<Rightarrow> unit task" where
  "send_and_free_packet sk c sid = (\<lambda>s. case encode_command c of Inl e \<Rightarrow> Some (Inl e, s)
     | Inr b \<Rightarrow> if b = [] then Some (Inr (), s)
       else then_do (over_protocol (do_simple_send sk (command_msg c sid b) True b)) (\<lambda>_ s. Some (Inr (), on_send_packet c s)) s)"

text \<open>Messages are dropped until one is the packet that is wanted; one that cannot be decoded is an error.\<close>

function expect_message :: "socket \<Rightarrow> (command \<Rightarrow> 'a option) \<Rightarrow> session \<Rightarrow> (int + 'a) \<times> session" where
  "expect_message sk wanted s = (case recv_message sk (se_protocol s) of
       (Inl e, p) \<Rightarrow> (Inl e, s\<lparr>se_protocol := p\<rparr>)
     | (Inr m, p) \<Rightarrow>
       (case do_decode_message (se_requests s) (message_type (msg_header m)) (msg_payload m) of
            Inl e \<Rightarrow> (Inl e, s\<lparr>se_protocol := p\<rparr>)
          | Inr c \<Rightarrow> (case Option.bind c wanted of
                Some x \<Rightarrow> (Inr x, s\<lparr>se_protocol := p\<rparr>)
              | None \<Rightarrow> expect_message sk wanted (s\<lparr>se_protocol := p\<rparr>))))"
  by auto

termination
  by (relation "measure (\<lambda>(sk, wanted, s). bytes_left (se_protocol s))") (auto dest: recv_message_left [OF sym])

declare expect_message.simps [simp del]

definition expected :: "socket \<Rightarrow> (command \<Rightarrow> 'a option) \<Rightarrow> 'a task" where
  "expected sk wanted s = Some (expect_message sk wanted s)"

definition connect_result :: "command \<Rightarrow> properties option" where
  "connect_result c = (case c of SrsConnectAppResPacket _ _ info \<Rightarrow> Some info | _ \<Rightarrow> None)"

definition created_stream :: "command \<Rightarrow> u64 option" where
  "created_stream c = (case c of SrsCreateStreamResPacket _ sid \<Rightarrow> Some sid | _ \<Rightarrow> None)"

section \<open>Commands of a session\<close>

abbreviation double_1 :: u64 where
  "double_1 \<equiv> 0x3FF0000000000000"

abbreviation double_2 :: u64 where
  "double_2 \<equiv> 0x4000000000000000"

abbreviation double_3 :: u64 where
  "double_3 \<equiv> 0x4008000000000000"

abbreviation double_4 :: u64 where
  "double_4 \<equiv> 0x4010000000000000"

record server_info =
  srs_server_ip :: bytes
  srs_server :: bytes
  srs_primary :: bytes
  srs_authors :: bytes
  srs_version :: bytes
  srs_id :: int
  srs_pid :: int

definition server_text :: "string \<Rightarrow> properties \<Rightarrow> bytes" where
  "server_text k ps = (case ensure_property_string (ascii k) ps of None \<Rightarrow> [] | Some v \<Rightarrow> v)"

definition server_number :: "string \<Rightarrow> properties \<Rightarrow> int option" where
  "server_number k ps = (case ensure_property_number (ascii k) ps of None \<Rightarrow> Some 0 | Some d \<Rightarrow> double_to_int d)"

definition read_server_info :: "properties \<Rightarrow> server_info option" where
  "read_server_info info = (let ps = (case get_property (ascii ''data'') info of Some (EcmaArray _ ps) \<Rightarrow> ps | _ \<Rightarrow> []) in
     Option.bind (server_number ''srs_id'' ps) (\<lambda>i. Option.bind (server_number ''srs_pid'' ps) (\<lambda>pid. Some
       \<lparr>srs_server_ip = server_text ''srs_server_ip'' ps, srs_server = server_text ''srs_server'' ps, srs_primary = server_text ''srs_primary'' ps,
        srs_authors = server_text ''srs_authors'' ps, srs_version = server_text ''srs_version'' ps, srs_id = i, srs_pid = pid\<rparr>)))"

text \<open>Without a request of its own the client sends empty addresses of film and page. A C string ends at its first zero.\<close>

definition c_str :: "bytes \<Rightarrow> bytes" where
  "c_str s = takeWhile (\<lambda>b. b \<noteq> 0) s"

definition connect_object :: "bytes \<Rightarrow> bytes \<Rightarrow> properties" where
  "connect_object app tc_url = set_all (map (\<lambda>(k, v). (ascii k, v))
     [(''app'', Str (c_str app)), (''flashVer'', Str (ascii ''WIN 15,0,0,239'')), (''swfUrl'', Str []), (''tcUrl'', Str (c_str tc_url)),
      (''fpad'', Boolean False), (''capabilities'', Number 0x406DE00000000000), (''audioCodecs'', Number 0x40ABEE0000000000),
      (''videoCodecs'', Number 0x406F800000000000), (''videoFunction'', Number double_1), (''pageUrl'', Str []), (''objectEncoding'', Number 0)])"

definition connect_app2 :: "socket \<Rightarrow> bytes \<Rightarrow> bytes \<Rightarrow> server_info task" where
  "connect_app2 sk app tc_url =
     then_do (send_and_free_packet sk (SrsConnectAppPacket double_1 (connect_object app tc_url) None) 0) (\<lambda>_.
     then_do (send_and_free_packet sk (SrsSetWindowAckSizePacket 2500000) 0) (\<lambda>_.
     then_do (expected sk connect_result) (\<lambda>info s. map_option (\<lambda>i. (Inr i, s)) (read_server_info info))))"

definition set_stream_id :: "u64 \<Rightarrow> int task" where
  "set_stream_id d s = map_option (\<lambda>i. (Inr i, s\<lparr>se_stream_id := i\<rparr>)) (double_to_int d)"

definition create_stream :: "socket \<Rightarrow> u64 \<Rightarrow> int task" where
  "create_stream sk tid = then_do (send_and_free_packet sk (SrsCreateStreamPacket tid) 0) (\<lambda>_. then_do (expected sk created_stream) set_stream_id)"

definition play :: "socket \<Rightarrow> bytes \<Rightarrow> int \<Rightarrow> unit task" where
  "play sk name i =
     then_do (send_and_free_packet sk (SrsPlayPacket 0 name double_minus_2 double_minus_1 True) (word_of_int i)) (\<lambda>_.
     then_do (send_and_free_packet sk (SrsUserControlPacket SrcPCUCSetBufferLength (unat (word_of_int i :: u32)) 1000) 0) (\<lambda>_.
       send_and_free_packet sk (SrsSetChunkSizePacket 60000) 0))"

definition publish :: "socket \<Rightarrow> bytes \<Rightarrow> int \<Rightarrow> unit task" where
  "publish sk name i =
     then_do (send_and_free_packet sk (SrsSetChunkSizePacket 60000) 0) (\<lambda>_.
       send_and_free_packet sk (SrsPublishPacket 0 name (ascii ''live'')) (word_of_int i))"

definition fmle_publish :: "socket \<Rightarrow> bytes \<Rightarrow> unit task" where
  "fmle_publish sk name = (\<lambda>s.
     then_do (send_and_free_packet sk (SrsFMLEStartPacket (ascii ''releaseStream'') double_2 name) 0) (\<lambda>_.
     then_do (send_and_free_packet sk (SrsFMLEStartPacket (ascii ''FCPublish'') double_3 name) 0) (\<lambda>_.
     then_do (create_stream sk double_4) (\<lambda>i.
       send_and_free_packet sk (SrsPublishPacket 0 name (ascii ''live'')) (word_of_int i)))) (s\<lparr>se_stream_id := 0\<rparr>))"

text \<open>The calls of the application, at an address with the number its host was resolved to.\<close>

definition srs_rtmp_connect_app :: "socket \<Rightarrow> bytes \<Rightarrow> address \<Rightarrow> unit task" where
  "srs_rtmp_connect_app sk ip a = then_do (connect_app2 sk (ad_app a) (srs_generate_tc_url ip a)) (\<lambda>_ s. Some (Inr (), s))"

definition srs_rtmp_play_stream :: "socket \<Rightarrow> address \<Rightarrow> unit task" where
  "srs_rtmp_play_stream sk a = then_do (create_stream sk double_2) (play sk (ad_stream a))"

definition srs_rtmp_publish_stream :: "socket \<Rightarrow> address \<Rightarrow> unit task" where
  "srs_rtmp_publish_stream sk a = fmle_publish sk (ad_stream a)"

end
