(* ===== verification/Command_Laws.thy ===== *)
theory Command_Laws
  imports Rtmp_Command
begin

text \<open>
  A packet takes as many bytes as it says, and the message it becomes is taken for the same packet.
\<close>

section \<open>Writing\<close>

definition command_bytes :: "bytes \<Rightarrow> u64 \<Rightarrow> bytes \<Rightarrow> bytes" where
  "command_bytes name tid rest = amf0_bytes (Str name) @ amf0_bytes (Number tid) @ rest"

fun packet_bytes :: "command \<Rightarrow> bytes" where
  "packet_bytes (SrsConnectAppPacket tid obj args) = command_bytes (ascii ''connect'') tid (amf0_bytes (Object obj) @
     (case args of None \<Rightarrow> [] | Some a \<Rightarrow> amf0_bytes (Object a)))"
| "packet_bytes (SrsConnectAppResPacket tid props info) = command_bytes (ascii ''_result'') tid (amf0_bytes (Object props) @ amf0_bytes (Object info))"
| "packet_bytes (SrsCallPacket name tid obj args) = command_bytes name tid (amf0_bytes obj @ (case args of None \<Rightarrow> [] | Some a \<Rightarrow> amf0_bytes a))"
| "packet_bytes (SrsCreateStreamPacket tid) = command_bytes (ascii ''createStream'') tid (amf0_bytes Null)"
| "packet_bytes (SrsCreateStreamResPacket tid sid) = command_bytes (ascii ''_result'') tid (amf0_bytes Null @ amf0_bytes (Number sid))"
| "packet_bytes (SrsFMLEStartPacket name tid stream) = command_bytes name tid (amf0_bytes Null @ amf0_bytes (Str stream))"
| "packet_bytes (SrsFMLEStartResPacket tid) = command_bytes (ascii ''_result'') tid (amf0_bytes Null @ amf0_bytes Undefined)"
| "packet_bytes (SrsPublishPacket tid stream t) = command_bytes (ascii ''publish'') tid (amf0_bytes Null @ amf0_bytes (Str stream) @ amf0_bytes (Str t))"
| "packet_bytes (SrsPlayPacket tid stream start duration reset) = command_bytes (ascii ''play'') tid (amf0_bytes Null @ amf0_bytes (Str stream) @
     (if start \<noteq> double_minus_2 \<or> duration \<noteq> double_minus_1 \<or> \<not> reset then amf0_bytes (Number start) else []) @
     (if duration \<noteq> double_minus_1 \<or> \<not> reset then amf0_bytes (Number duration) else []) @ (if \<not> reset then amf0_bytes (Boolean reset) else []))"
| "packet_bytes (SrsOnMetaDataPacket name metadata) = amf0_bytes (Str name) @ amf0_bytes (Object metadata)"
| "packet_bytes (SrsBandwidthPacket name tid dat) = command_bytes name tid (amf0_bytes Null @ amf0_bytes (Object dat))"
| "packet_bytes (SrsUserControlPacket ev dat extra) = be_bytes 2 ev @
     (if ev = SrsPCUCFmsEvent0 then be_bytes 1 dat else be_bytes 4 dat) @ (if ev = SrcPCUCSetBufferLength then be_bytes 4 extra else [])"
| "packet_bytes (SrsSetWindowAckSizePacket n) = be_bytes 4 (unat n)"
| "packet_bytes (SrsSetChunkSizePacket n) = be_bytes 4 (unat n)"
| "packet_bytes (SrsCallResPacket tid obj response) = command_bytes (ascii ''_result'') tid
     ((case obj of None \<Rightarrow> [] | Some v \<Rightarrow> amf0_bytes v) @ (case response of None \<Rightarrow> [] | Some v \<Rightarrow> amf0_bytes v))"
| "packet_bytes (SrsPlayResPacket tid desc) = command_bytes (ascii ''_result'') tid (amf0_bytes Null @ amf0_bytes (Object desc))"
| "packet_bytes (SrsOnBWDonePacket tid) = command_bytes (ascii ''onBWDone'') tid (amf0_bytes Null)"
| "packet_bytes (SrsOnStatusCallPacket tid dat) = command_bytes (ascii ''onStatus'') tid (amf0_bytes Null @ amf0_bytes (Object dat))"
| "packet_bytes (SrsOnStatusDataPacket dat) = amf0_bytes (Str (ascii ''onStatus'')) @ amf0_bytes (Object dat)"
| "packet_bytes (SrsSampleAccessPacket video audio) = amf0_bytes (Str (ascii ''|RtmpSampleAccess'')) @ amf0_bytes (Boolean video) @ amf0_bytes (Boolean audio)"
| "packet_bytes (SrsAcknowledgementPacket n) = be_bytes 4 (unat n)"
| "packet_bytes (SrsSetPeerBandwidthPacket n t) = be_bytes 4 (unat n) @ be_bytes 1 (unat t)"
| "packet_bytes c = []"

lemma writes_values:
  "writes (srs_amf0_write_string s) (amf0_bytes (Str s))" "writes (srs_amf0_write_number n) (amf0_bytes (Number n))"
  "writes srs_amf0_write_null (amf0_bytes Null)" "writes srs_amf0_write_undefined (amf0_bytes Undefined)"
  "writes (srs_amf0_write_boolean b) (amf0_bytes (Boolean b))"
  using writes_any [of "Str s"] writes_any [of "Number n"] writes_any [of Null] writes_any [of Undefined] writes_any [of "Boolean b"] by simp_all

lemma writes_command: "writes w b \<Longrightarrow> writes (write_command name tid w) (command_bytes name tid b)"
  unfolding write_command_def command_bytes_def by (intro writes_then writes_values)

lemma writes_when: "writes w b \<Longrightarrow> writes (write_when c w) (if c then b else [])"
  by (simp add: write_when_def writes_nothing)

lemma writes_args: "writes (case args of None \<Rightarrow> \<lambda>_. Inr [] | Some a \<Rightarrow> srs_amf0_write_any (f a)) (case args of None \<Rightarrow> [] | Some a \<Rightarrow> amf0_bytes (f a))"
  by (simp add: writes_nothing writes_any split: option.split)

definition is_sent :: "command \<Rightarrow> bool" where
  "is_sent c = (case c of SrsPacket \<Rightarrow> False | SrsCloseStreamPacket _ _ \<Rightarrow> False | SrsPausePacket _ _ _ \<Rightarrow> False | SrsUserControlPacket _ _ _ \<Rightarrow> False
     | SrsSetWindowAckSizePacket _ \<Rightarrow> False | SrsSetChunkSizePacket _ \<Rightarrow> False
     | SrsAcknowledgementPacket _ \<Rightarrow> False | SrsSetPeerBandwidthPacket _ _ \<Rightarrow> False | _ \<Rightarrow> True)"

lemma writes_optional: "writes (case v of None \<Rightarrow> \<lambda>_. Inr [] | Some a \<Rightarrow> srs_amf0_write_any a) (case v of None \<Rightarrow> [] | Some a \<Rightarrow> amf0_bytes a)"
  by (simp add: writes_nothing writes_any split: option.split)

lemma writes_packet: "is_sent c \<Longrightarrow> writes (encode_packet c) (packet_bytes c)"
  by (cases c) (simp_all only: is_sent_def command.case encode_packet.simps packet_bytes.simps,
    (intro writes_command writes_then writes_values writes_any writes_when writes_args writes_optional)+)

lemma length_number: "length (amf0_bytes (Number n)) = 9"
  by simp

lemma size_packet: "length (packet_bytes c) = get_size c"
  by (cases c) (auto simp: command_bytes_def command_size_def length_amf0_bytes [symmetric] length_number simp del: amf0_bytes.simps total_size.simps split: option.split)

lemma encode_bytes:
  assumes "get_size c \<noteq> 0"
  shows "encode_command c = Inr (packet_bytes c)"
proof (cases "is_sent c")
  case True
  then show ?thesis
    using writes_packet size_packet [of c] by (simp add: writes_def encode_command_def)
next
  case False
  then show ?thesis
    using assms size_packet [of c] by (cases c) (simp_all add: is_sent_def encode_command_def emit_control_def)
qed

section \<open>Names\<close>

lemma ascii_eq [simp]: "ascii s = ascii t \<longleftrightarrow> s = t"
proof -
  have "inj (\<lambda>c :: char. word_of_nat (of_char c) :: u8)"
  proof (rule injI)
    fix c d :: char
    assume "word_of_nat (of_char c) = (word_of_nat (of_char d) :: u8)"
    then have "unat (word_of_nat (of_char c) :: u8) = unat (word_of_nat (of_char d) :: u8)"
      by simp
    moreover have "of_char c < (256 :: nat)" "of_char d < (256 :: nat)"
      by (rule nat_of_char_less_256)+
    ultimately show "c = d"
      by (simp add: unat_of_nat)
  qed
  then show ?thesis
    by (simp add: ascii_def inj_map_eq_map)
qed

lemma length_ascii [simp]: "length (ascii s) = length s"
  by (simp add: ascii_def)

lemma ascii_Nil [simp]: "ascii s = [] \<longleftrightarrow> s = []"
  by (simp add: ascii_def)

section \<open>Reading\<close>

lemma read_string_bytes: "length s < 32768 \<Longrightarrow> srs_amf0_read_string (amf0_bytes (Str s) @ t) = Inr (s, t)"
  by (simp add: srs_amf0_read_string_def then_read_def read_marker_Cons amf0_markers read_utf8_bytes)

lemma read_number_bytes: "srs_amf0_read_number (amf0_bytes (Number n) @ t) = Inr (n, t)"
  by (simp add: srs_amf0_read_number_def then_read_def read_marker_Cons amf0_markers take_bytes_append return_def)

lemma read_simple_bytes:
  "srs_amf0_read_null (amf0_bytes Null @ t) = Inr ((), t)" "srs_amf0_read_undefined (amf0_bytes Undefined @ t) = Inr ((), t)"
  by (simp_all add: srs_amf0_read_null_def srs_amf0_read_undefined_def read_marker_Cons amf0_markers)

lemma read_object_bytes:
  assumes "amf0_ok (Object ps)"
  shows "read_object (amf0_bytes (Object ps) @ t) = Inr (ps, t)"
proof -
  have "\<not> srs_amf0_is_object_eof (amf0_bytes (Object ps) @ t)"
    by (simp add: eof_iff)
  with read_any_bytes [OF assms, of t] show ?thesis
    by (simp add: read_object_def then_read_def read_marker_Cons amf0_markers read_any_marker split: sum.splits prod.splits)
qed

lemma read_name_bytes: "n \<in> set names \<Longrightarrow> n \<noteq> [] \<Longrightarrow> length n < 32768 \<Longrightarrow> read_name names (amf0_bytes (Str n) @ t) = Inr (n, t)"
  by (simp add: read_name_def then_read_def read_string_bytes return_def del: amf0_bytes.simps)

lemma amf0_bytes_not_Nil: "amf0_bytes v \<noteq> []"
  using amf0_bytes_Cons [of v] by auto

lemmas read_bytes_simps = read_string_bytes read_number_bytes read_simple_bytes read_object_bytes read_name_bytes read_any_bytes

text \<open>The same where nothing follows.\<close>

lemmas read_last_simps = read_string_bytes [where t = "[]", unfolded append_Nil2] read_number_bytes [where t = "[]", unfolded append_Nil2]
  read_simple_bytes [where t = "[]", unfolded append_Nil2] read_object_bytes [where t = "[]", unfolded append_Nil2]
  read_any_bytes [where s = "[]", unfolded append_Nil2]

text \<open>Commands that are not taken for a call.\<close>

definition known_commands :: "bytes list" where
  "known_commands = map ascii [''_result'', ''_error'', ''connect'', ''createStream'', ''play'', ''pause'', ''releaseStream'', ''FCPublish'',
     ''FCUnpublish'', ''publish'', ''@setDataFrame'', ''onMetaData'', ''closeStream''] @ bandwidth_commands"

definition fmle_commands :: "bytes set" where
  "fmle_commands = {ascii ''releaseStream'', ascii ''FCPublish'', ascii ''FCUnpublish''}"

fun command_ok :: "requests \<Rightarrow> command \<Rightarrow> bool" where
  "command_ok rs (SrsConnectAppPacket tid obj args) \<longleftrightarrow> amf0_ok (Object obj) \<and> (case args of None \<Rightarrow> True | Some a \<Rightarrow> amf0_ok (Object a))"
| "command_ok rs (SrsConnectAppResPacket tid props info) \<longleftrightarrow> amf0_ok (Object props) \<and> amf0_ok (Object info) \<and>
     find_request rs tid = Some (ascii ''connect'')"
| "command_ok rs (SrsCallPacket name tid obj args) \<longleftrightarrow> name \<noteq> [] \<and> name \<notin> set known_commands \<and> length name < 32768 \<and> amf0_ok obj \<and>
     (case args of None \<Rightarrow> True | Some a \<Rightarrow> amf0_ok a)"
| "command_ok rs (SrsCreateStreamPacket tid) \<longleftrightarrow> True"
| "command_ok rs (SrsCreateStreamResPacket tid sid) \<longleftrightarrow> find_request rs tid = Some (ascii ''createStream'')"
| "command_ok rs (SrsFMLEStartPacket name tid stream) \<longleftrightarrow> name \<in> fmle_commands \<and> length stream < 32768"
| "command_ok rs (SrsFMLEStartResPacket tid) \<longleftrightarrow> (\<exists>n \<in> fmle_commands. find_request rs tid = Some n)"
| "command_ok rs (SrsPublishPacket tid stream t) \<longleftrightarrow> length stream < 32768 \<and> length t < 32768"
| "command_ok rs (SrsPlayPacket tid stream start duration reset) \<longleftrightarrow> length stream < 32768"
| "command_ok rs (SrsOnMetaDataPacket name metadata) \<longleftrightarrow> name = ascii ''onMetaData'' \<and> amf0_ok (Object metadata)"
| "command_ok rs (SrsBandwidthPacket name tid dat) \<longleftrightarrow> name \<in> set bandwidth_commands \<and> amf0_ok (Object dat) \<and>
     (name \<in> set bandwidth_with_data \<or> dat = [])"
| "command_ok rs (SrsUserControlPacket ev dat extra) \<longleftrightarrow> ev < 65536 \<and>
     (if ev = SrsPCUCFmsEvent0 then dat = unat (scast (word_of_nat dat :: u8) :: u32) else dat < 2 ^ 32) \<and>
     (if ev = SrcPCUCSetBufferLength then extra < 2 ^ 32 else extra = 0)"
| "command_ok rs (SrsSetWindowAckSizePacket n) \<longleftrightarrow> True"
| "command_ok rs (SrsSetChunkSizePacket n) \<longleftrightarrow> True"
| "command_ok rs c \<longleftrightarrow> False"

text \<open>How a message with the name of a command is dispatched.\<close>

lemma dispatch_named:
  assumes "n \<notin> {ascii ''_result'', ascii ''_error''}" and "length n < 32768" and "t = 20 \<or> t = 18" and "decode_named t n (amf0_bytes (Str n) @ b) = Inr (c, s)"
  shows "do_decode_message rs t (amf0_bytes (Str n) @ b) = Inr (Some c)"
  using assms by (auto simp: do_decode_message_def read_string_bytes Let_def simp del: amf0_bytes.simps)

lemma dispatch_answer:
  assumes "decode_answer (find_request rs tid) (command_bytes (ascii ''_result'') tid b) = Inr (c, s)"
  shows "do_decode_message rs 20 (command_bytes (ascii ''_result'') tid b) = Inr (Some c)"
  using assms by (simp add: do_decode_message_def command_bytes_def read_string_bytes read_number_bytes then_read_def Let_def del: amf0_bytes.simps)

lemmas decode_simps = decode_named_def command_bytes_def then_read_def return_def read_bytes_simps read_last_simps if_more_def amf0_bytes_not_Nil

lemma take_four: "take 4 (be_bytes 4 n) = be_bytes 4 n" "take 4 (be_bytes 4 n @ s) = be_bytes 4 n"
  by (simp_all add: take_all)

lemma byte_of_mod: "(word_of_nat (n mod 256) :: u8) = word_of_nat n"
  by (simp add: word_of_nat_eq_iff take_bit_eq_mod)

lemma control_roundtrip:
  assumes "command_ok rs c" and "get_message_type c \<in> {1, 4, 5}"
  shows "do_decode_message rs (get_message_type c) (packet_bytes c) = Inr (Some c)"
proof (cases c)
  case (SrsUserControlPacket ev dat extra)
  show ?thesis
    using assms by (auto simp: SrsUserControlPacket get_message_type_def do_decode_message_def decode_control_def decode_user_control_def Let_def
        be_be_bytes SrcPCUCSetBufferLength_def SrsPCUCFmsEvent0_def byte_of_mod split: if_split_asm)
qed (use assms in \<open>auto simp: get_message_type_def do_decode_message_def decode_control_def Let_def\<close>)

lemma answer_roundtrip:
  assumes "command_ok rs c" and "c = SrsConnectAppResPacket tid props info \<or> c = SrsCreateStreamResPacket tid sid \<or> c = SrsFMLEStartResPacket tid"
  shows "do_decode_message rs (get_message_type c) (packet_bytes c) = Inr (Some c)"
  using assms(2)
proof (elim disjE)
  assume c: "c = SrsConnectAppResPacket tid props info"
  show ?thesis
    using assms(1) unfolding c get_message_type_def packet_bytes.simps command.case
    by (intro dispatch_answer) (simp add: decode_answer_def decode_connect_res_def decode_simps del: amf0_bytes.simps)
next
  assume c: "c = SrsCreateStreamResPacket tid sid"
  show ?thesis
    using assms(1) unfolding c get_message_type_def packet_bytes.simps command.case
    by (intro dispatch_answer) (simp add: decode_answer_def decode_create_stream_res_def decode_simps del: amf0_bytes.simps)
next
  assume c: "c = SrsFMLEStartResPacket tid"
  show ?thesis
    using assms(1) unfolding c get_message_type_def packet_bytes.simps command.case
    by (intro dispatch_answer) (auto simp: decode_answer_def decode_fmle_start_res_def fmle_commands_def decode_simps simp del: amf0_bytes.simps)
qed

lemma dispatch_command:
  assumes "n \<notin> {ascii ''_result'', ascii ''_error''}" and "length n < 32768" and "decode_named 20 n (command_bytes n tid b) = Inr (c, s)"
  shows "do_decode_message rs 20 (command_bytes n tid b) = Inr (Some c)"
  using dispatch_named [OF assms(1,2), of 20] assms(3) by (simp add: command_bytes_def)

lemma request_roundtrip:
  assumes "command_ok rs c" and "is_sent c" and "c = SrsConnectAppPacket tid obj args \<or> c = SrsCreateStreamPacket tid \<or>
    c = SrsPublishPacket tid stream pt \<or> c = SrsPlayPacket tid stream start duration reset"
  shows "do_decode_message rs (get_message_type c) (packet_bytes c) = Inr (Some c)"
  using assms(3)
proof (elim disjE)
  assume c: "c = SrsConnectAppPacket tid obj args"
  show ?thesis
    using assms(1) unfolding c get_message_type_def packet_bytes.simps command.case
    by (intro dispatch_command) (auto simp: decode_connect_def decode_simps simp del: amf0_bytes.simps split: option.splits)
next
  assume c: "c = SrsCreateStreamPacket tid"
  show ?thesis
    unfolding c get_message_type_def packet_bytes.simps command.case
    by (intro dispatch_command) (simp_all add: decode_create_stream_def decode_simps del: amf0_bytes.simps)
next
  assume c: "c = SrsPublishPacket tid stream pt"
  show ?thesis
    using assms(1) unfolding c get_message_type_def packet_bytes.simps command.case
    by (intro dispatch_command) (simp_all add: decode_publish_def decode_simps del: amf0_bytes.simps)
next
  assume c: "c = SrsPlayPacket tid stream start duration reset"
  have reset: "read_reset (amf0_bytes (Boolean False)) = Inr (False, [])"
    using read_any_bytes [of "Boolean False" "[]"] by (simp add: read_reset_def)
  show ?thesis
    using assms(1) unfolding c get_message_type_def packet_bytes.simps command.case
    by (intro dispatch_command [where s = "[]"]) (simp_all add: decode_play_def decode_simps reset del: amf0_bytes.simps)
qed

lemma fmle_roundtrip:
  assumes "command_ok rs (SrsFMLEStartPacket n tid stream)"
  shows "do_decode_message rs 20 (packet_bytes (SrsFMLEStartPacket n tid stream)) = Inr (Some (SrsFMLEStartPacket n tid stream))"
  using assms unfolding packet_bytes.simps
  by (intro dispatch_command) (auto simp: decode_fmle_start_def fmle_commands_def decode_simps simp del: amf0_bytes.simps)

lemma call_roundtrip:
  assumes "command_ok rs (SrsCallPacket n tid obj args)"
  shows "do_decode_message rs 20 (packet_bytes (SrsCallPacket n tid obj args)) = Inr (Some (SrsCallPacket n tid obj args))"
  using assms unfolding packet_bytes.simps
  by (intro dispatch_command) (auto simp: decode_call_def known_commands_def decode_simps simp del: amf0_bytes.simps split: option.splits)

lemma bandwidth_names:
  "\<forall>n \<in> set bandwidth_commands. length n < 32768"
  "\<forall>n \<in> set bandwidth_commands. n \<notin> set (map ascii [''_result'', ''_error'', ''connect'', ''createStream'', ''play'', ''pause'',
     ''releaseStream'', ''FCPublish'', ''FCUnpublish'', ''publish'', ''@setDataFrame'', ''onMetaData''])"
  by (simp_all add: bandwidth_commands_def bandwidth_with_data_def)

lemma bandwidth_roundtrip:
  assumes "command_ok rs (SrsBandwidthPacket n tid dat)"
  shows "do_decode_message rs 20 (packet_bytes (SrsBandwidthPacket n tid dat)) = Inr (Some (SrsBandwidthPacket n tid dat))"
proof -
  have n: "n \<in> set bandwidth_commands" "length n < 32768" "n \<notin> set (map ascii [''_result'', ''_error'', ''connect'', ''createStream'', ''play'',
      ''pause'', ''releaseStream'', ''FCPublish'', ''FCUnpublish'', ''publish'', ''@setDataFrame'', ''onMetaData''])"
    using assms bandwidth_names by (simp_all only: command_ok.simps) blast+
  then have "decode_named 20 n = decode_bandwidth"
    by (simp add: decode_named_def)
  then show ?thesis
    using assms n unfolding packet_bytes.simps
    by (intro dispatch_command [where s = "if n \<in> set bandwidth_with_data then [] else amf0_bytes (Object [])"])
      (auto simp: decode_bandwidth_def decode_simps(2-) simp del: amf0_bytes.simps)
qed

lemma metadata_roundtrip:
  assumes "command_ok rs (SrsOnMetaDataPacket n ps)"
  shows "do_decode_message rs 18 (packet_bytes (SrsOnMetaDataPacket n ps)) = Inr (Some (SrsOnMetaDataPacket n ps))"
  using assms unfolding packet_bytes.simps
  by (intro dispatch_named) (auto simp: decode_metadata_def bandwidth_commands_def bandwidth_with_data_def decode_simps simp del: amf0_bytes.simps amf0_ok.simps)

lemma packet_read_back:
  assumes "command_ok rs c"
  shows "do_decode_message rs (get_message_type c) (packet_bytes c) = Inr (Some c)"
proof (cases c)
  case (SrsCallPacket n tid obj args)
  with assms call_roundtrip show ?thesis
    by (simp add: get_message_type_def del: packet_bytes.simps command_ok.simps)
next
  case (SrsFMLEStartPacket n tid stream)
  with assms fmle_roundtrip show ?thesis
    by (simp add: get_message_type_def del: packet_bytes.simps command_ok.simps)
next
  case (SrsOnMetaDataPacket n ps)
  with assms metadata_roundtrip show ?thesis
    by (simp add: get_message_type_def del: packet_bytes.simps command_ok.simps)
next
  case (SrsBandwidthPacket n tid dat)
  with assms bandwidth_roundtrip show ?thesis
    by (simp add: get_message_type_def del: packet_bytes.simps command_ok.simps)
next
  case (SrsConnectAppPacket tid obj args)
  then show ?thesis
    by (intro request_roundtrip [OF assms]) (simp add: is_sent_def, blast)
next
  case (SrsCreateStreamPacket tid)
  then show ?thesis
    by (intro request_roundtrip [OF assms]) (simp add: is_sent_def, blast)
next
  case (SrsPublishPacket tid stream pt)
  then show ?thesis
    by (intro request_roundtrip [OF assms]) (simp add: is_sent_def, blast)
next
  case (SrsPlayPacket tid stream start duration reset)
  then show ?thesis
    by (intro request_roundtrip [OF assms]) (simp add: is_sent_def, blast)
next
  case (SrsConnectAppResPacket tid props info)
  then show ?thesis
    by (intro answer_roundtrip [OF assms]) blast
next
  case (SrsCreateStreamResPacket tid sid)
  then show ?thesis
    by (intro answer_roundtrip [OF assms]) blast
next
  case (SrsFMLEStartResPacket tid)
  then show ?thesis
    by (intro answer_roundtrip [OF assms]) blast
next
  case (SrsUserControlPacket ev dat extra)
  then show ?thesis
    by (intro control_roundtrip [OF assms]) (simp add: get_message_type_def)
next
  case (SrsSetWindowAckSizePacket n)
  then show ?thesis
    by (intro control_roundtrip [OF assms]) (simp add: get_message_type_def)
next
  case (SrsSetChunkSizePacket n)
  then show ?thesis
    by (intro control_roundtrip [OF assms]) (simp add: get_message_type_def)
qed (use assms in simp_all)

section \<open>What a packet is taken for\<close>

text \<open>
  Four packets a server writes have no class that reads them: an \<open>onBWDone\<close> and an \<open>onStatus\<close> command are taken for calls, and of the
  two data messages nothing is kept. The payloads of acknowledgements and peer bandwidths are not looked at, and an answer to a request
  that is not known, as that to \<open>play\<close>, is an error.
\<close>

fun taken_for :: "command \<Rightarrow> int + command option" where
  "taken_for (SrsCallResPacket tid obj response) = Inl ERROR_RTMP_NO_REQUEST"
| "taken_for (SrsPlayResPacket tid desc) = Inl ERROR_RTMP_NO_REQUEST"
| "taken_for (SrsOnBWDonePacket tid) = Inr (Some (SrsCallPacket (ascii ''onBWDone'') tid Null None))"
| "taken_for (SrsOnStatusCallPacket tid dat) = Inr (Some (SrsCallPacket (ascii ''onStatus'') tid Null (Some (Object dat))))"
| "taken_for (SrsOnStatusDataPacket dat) = Inr (Some SrsPacket)"
| "taken_for (SrsSampleAccessPacket video audio) = Inr (Some SrsPacket)"
| "taken_for (SrsAcknowledgementPacket n) = Inr None"
| "taken_for (SrsSetPeerBandwidthPacket n t) = Inr None"
| "taken_for c = Inr (Some c)"

fun packet_ok :: "requests \<Rightarrow> command \<Rightarrow> bool" where
  "packet_ok rs (SrsCallResPacket tid obj response) \<longleftrightarrow> find_request rs tid = None"
| "packet_ok rs (SrsPlayResPacket tid desc) \<longleftrightarrow> find_request rs tid = None"
| "packet_ok rs (SrsOnBWDonePacket tid) \<longleftrightarrow> True"
| "packet_ok rs (SrsOnStatusCallPacket tid dat) \<longleftrightarrow> amf0_ok (Object dat)"
| "packet_ok rs (SrsOnStatusDataPacket dat) \<longleftrightarrow> True"
| "packet_ok rs (SrsSampleAccessPacket video audio) \<longleftrightarrow> True"
| "packet_ok rs (SrsAcknowledgementPacket n) \<longleftrightarrow> True"
| "packet_ok rs (SrsSetPeerBandwidthPacket n t) \<longleftrightarrow> True"
| "packet_ok rs c \<longleftrightarrow> command_ok rs c"

lemma unknown_names:
  "n \<in> {''onBWDone'', ''onStatus'', ''|RtmpSampleAccess''} \<Longrightarrow> ascii n \<noteq> [] \<and> ascii n \<notin> set known_commands \<and> length (ascii n) < 32768"
  by (auto simp: known_commands_def bandwidth_commands_def bandwidth_with_data_def)

lemma decode_unknown: "n \<notin> set known_commands \<Longrightarrow> decode_named 18 n = return SrsPacket"
  by (simp add: decode_named_def known_commands_def del: ascii_eq)

lemma status_calls:
  "do_decode_message rs 20 (packet_bytes (SrsOnBWDonePacket tid)) = Inr (Some (SrsCallPacket (ascii ''onBWDone'') tid Null None))"
  "amf0_ok (Object dat) \<Longrightarrow> do_decode_message rs 20 (packet_bytes (SrsOnStatusCallPacket tid dat)) =
     Inr (Some (SrsCallPacket (ascii ''onStatus'') tid Null (Some (Object dat))))"
proof -
  note names = unknown_names
  have amf0_null: "amf0_ok Null"
    by simp
  show "do_decode_message rs 20 (packet_bytes (SrsOnBWDonePacket tid)) = Inr (Some (SrsCallPacket (ascii ''onBWDone'') tid Null None))"
    using call_roundtrip [of rs "ascii ''onBWDone''" tid Null None] names [of "''onBWDone''"] by simp
  show "do_decode_message rs 20 (packet_bytes (SrsOnStatusCallPacket tid dat)) =
      Inr (Some (SrsCallPacket (ascii ''onStatus'') tid Null (Some (Object dat))))" if "amf0_ok (Object dat)"
    using call_roundtrip [of rs "ascii ''onStatus''" tid Null "Some (Object dat)"] names [of "''onStatus''"] that amf0_null
    by (simp del: amf0_bytes.simps amf0_ok.simps)
qed

lemma data_dropped:
  assumes "n \<in> {''onStatus'', ''|RtmpSampleAccess''}"
  shows "do_decode_message rs 18 (amf0_bytes (Str (ascii n)) @ b) = Inr (Some SrsPacket)"
proof -
  have "ascii n \<notin> set known_commands" "length (ascii n) < 32768"
    using unknown_names assms by blast+
  with decode_unknown [of "ascii n"] show ?thesis
    by (intro dispatch_named) (simp_all add: return_def known_commands_def del: ascii_eq)
qed

lemma unknown_answer:
  "find_request rs tid = None \<Longrightarrow> do_decode_message rs 20 (command_bytes (ascii ''_result'') tid b) = Inl ERROR_RTMP_NO_REQUEST"
  by (simp add: do_decode_message_def command_bytes_def read_string_bytes read_number_bytes then_read_def decode_answer_def fail_def Let_def
      del: amf0_bytes.simps)

lemma packet_taken:
  assumes "packet_ok rs c"
  shows "do_decode_message rs (get_message_type c) (packet_bytes c) = taken_for c"
proof (cases c)
  case (SrsCallResPacket tid obj response)
  with assms show ?thesis
    by (simp add: get_message_type_def unknown_answer)
next
  case (SrsPlayResPacket tid desc)
  with assms show ?thesis
    by (simp add: get_message_type_def unknown_answer)
next
  case (SrsOnBWDonePacket tid)
  with status_calls(1) show ?thesis
    by (simp add: get_message_type_def del: packet_bytes.simps)
next
  case (SrsOnStatusCallPacket tid dat)
  with assms status_calls(2) show ?thesis
    by (simp add: get_message_type_def del: packet_bytes.simps amf0_ok.simps)
next
  case (SrsOnStatusDataPacket dat)
  then show ?thesis
    using data_dropped [of "''onStatus''"] by (simp add: get_message_type_def del: amf0_bytes.simps)
next
  case (SrsSampleAccessPacket video audio)
  then show ?thesis
    using data_dropped [of "''|RtmpSampleAccess''"] by (simp add: get_message_type_def del: amf0_bytes.simps)
next
  case (SrsAcknowledgementPacket n)
  then show ?thesis
    by (simp add: get_message_type_def do_decode_message_def)
next
  case (SrsSetPeerBandwidthPacket n t)
  then show ?thesis
    by (simp add: get_message_type_def do_decode_message_def)
qed (use assms packet_read_back [of rs c] in \<open>simp_all del: packet_bytes.simps command_ok.simps\<close>)



end
