(* ===== verification/Connect_Laws.thy ===== *)
theory Connect_Laws
  imports Rtmp_Connect Command_Laws Srs_Wire
begin

text \<open>
  What a session of the client comes to: with a server that answers, the stream is open, and what the client wrote is understood by a peer as
  the commands it meant; a refusal is an error.
\<close>

section \<open>Handshake\<close>

lemma pieces_reading:
  assumes "n \<le> length (incoming (reads p))"
  shows "\<exists>rs k. read_pieces n p = (Inr (take n (incoming (reads p))), p\<lparr>reads := rs, recv_bytes := k\<rparr>) \<and> incoming rs = drop n (incoming (reads p)) \<and>
    k = recv_bytes p + n"
  using assms
proof (induction n p rule: read_pieces.induct)
  case (1 n p)
  show ?case
  proof (cases "n = 0")
    case True
    then show ?thesis
      by (intro exI [of _ "reads p"] exI [of _ "recv_bytes p"]) (simp add: read_pieces.simps)
  next
    case False
    with "1.prems" obtain b rs where r: "srs_hijack_io_read n (reads p) = (Inr b, rs)" "b \<noteq> []" "length b \<le> n" "b @ incoming rs = incoming (reads p)"
      using read_incoming [of n "reads p"] by fastforce
    let ?p = "p\<lparr>reads := rs, recv_bytes := recv_bytes p + length b\<rparr>"
    have "n - length b \<le> length (incoming (reads ?p))"
      using "1.prems" r(4) [symmetric] by simp
    from "1.IH" [OF False r(1) [symmetric] refl this] obtain rs' k where
      i: "read_pieces (n - length b) ?p = (Inr (take (n - length b) (incoming rs)), ?p\<lparr>reads := rs', recv_bytes := k\<rparr>)"
      "incoming rs' = drop (n - length b) (incoming rs)" "k = recv_bytes p + length b + (n - length b)"
      by auto
    have "take n (incoming (reads p)) = b @ take (n - length b) (incoming rs)" "drop n (incoming (reads p)) = drop (n - length b) (incoming rs)"
      using r(3) by (simp_all add: r(4) [symmetric])
    with i r(1,3) False show ?thesis
      by (intro exI [of _ rs'] exI [of _ k]) (simp add: read_pieces.simps [of n p] and_then_def)
  qed
qed

text \<open>The handshake writes its greeting and then the greeting of the server, if that speaks plain text.\<close>

lemma handshake_done:
  assumes "incoming (reads (se_protocol s)) = reply @ rest" and "length reply = 3073"
  shows "\<exists>rs k. incoming rs = rest \<and> k = recv_bytes (se_protocol s) + 2 * 3073 \<and> handshake_with_server accepts now rnd s =
    (if reply ! 0 = 3 then Some (Inr (), s\<lparr>se_protocol := (se_protocol s)\<lparr>reads := rs, recv_bytes := k,
        written := written (se_protocol s) @ [create_c0c1 now rnd, take 1536 (drop 1 reply)]\<rparr>\<rparr>)
     else Some (Inl ERROR_RTMP_HANDSHAKE, s\<lparr>se_protocol := (se_protocol s)\<lparr>reads := rs, recv_bytes := k,
        written := written (se_protocol s) @ [create_c0c1 now rnd]\<rparr>\<rparr>))"
proof -
  let ?p = "(se_protocol s)\<lparr>written := written (se_protocol s) @ [create_c0c1 now rnd]\<rparr>"
  obtain rs k where "read_pieces 3073 ?p = (Inr reply, ?p\<lparr>reads := rs, recv_bytes := k\<rparr>)" "incoming rs = rest" "k = recv_bytes (se_protocol s) + 3073"
    using pieces_reading [of 3073 ?p] assms by auto
  then show ?thesis
    using assms(2) by (intro exI [of _ rs] exI [of _ "k + 3073"])
      (simp add: handshake_with_server_def then_do_def over_protocol_def writev_def srs_hijack_io_read_fully_def and_then_def)
qed

section \<open>Sending\<close>

definition command_to :: "u32 \<Rightarrow> command \<Rightarrow> common_msg" where
  "command_to sid c = command_msg c sid (packet_bytes c)"

lemma size_after_command:
  assumes "\<And>n. c = SrsSetChunkSizePacket n \<Longrightarrow> unat n < 2 ^ 31"
  shows "size_after k (command_to sid c) = (case c of SrsSetChunkSizePacket n \<Rightarrow> unat n | _ \<Rightarrow> k)"
  using assms unsigned_less [where 'a = nat and 'b = 32]
  by (cases c) (auto simp: size_after_def command_to_def command_msg_def new_header_def get_message_type_def take_four signed_be_def be_be_bytes)

text \<open>A packet is sent whatever was read before, and changes nothing about the reading.\<close>

definition waits :: "bytes \<Rightarrow> nat \<Rightarrow> session \<Rightarrow> bool" where
  "waits b n s \<longleftrightarrow> (\<exists>cs. reading b cs n (se_protocol s) \<and> (\<forall>cid. cs_msg (cs cid) = None))"

lemma packet_posted:
  assumes "get_size c \<noteq> 0" and "\<And>n. c = SrsSetChunkSizePacket n \<Longrightarrow> unat n < 2 ^ 31"
  shows "\<exists>s'. send_and_free_packet accepts c sid s = Some (Inr (), s') \<and> wrote (se_protocol s) (se_protocol s') [command_to sid c] \<and>
    se_requests s' = se_requests (on_send_packet c s) \<and> se_stream_id s' = se_stream_id s \<and> (\<forall>b n. waits b n s \<longrightarrow> waits b n s')"
proof -
  let ?m = "command_to sid c" and ?b = "packet_bytes c"
  have b: "encode_command c = Inr ?b" "?b \<noteq> []"
    using encode_bytes [OF assms(1)] assms(1) size_packet [of c] by auto
  obtain w where w: "do_simple_send accepts ?m True ?b (se_protocol s) = (Inr (), (se_protocol s)\<lparr>written := written (se_protocol s) @ w\<rparr>)"
    "concat w = wire (out_chunk_size (se_protocol s)) ?m True ?b"
    using simple_send_accepts [of ?m True ?b "se_protocol s"] by blast
  let ?s = "on_send_packet c (s\<lparr>se_protocol := (se_protocol s)\<lparr>written := written (se_protocol s) @ w\<rparr>\<rparr>)"
  have "send_and_free_packet accepts c sid s = Some (Inr (), ?s)"
    using b w(1) by (simp add: send_and_free_packet_def then_do_def over_protocol_def command_to_def)
  moreover have "wrote (se_protocol s) (se_protocol ?s) [?m]"
  proof -
    have "messages_wire (out_chunk_size (se_protocol s)) [?m] = concat w"
      using w(2) by (simp add: command_to_def command_msg_def)
    moreover have "sizes_after (out_chunk_size (se_protocol s)) [?m] = (case c of SrsSetChunkSizePacket n \<Rightarrow> unat n | _ \<Rightarrow> out_chunk_size (se_protocol s))"
      using size_after_command [where c = c] assms(2) by simp
    moreover have "written (se_protocol ?s) = written (se_protocol s) @ w"
      "out_chunk_size (se_protocol ?s) = (case c of SrsSetChunkSizePacket n \<Rightarrow> unat n | _ \<Rightarrow> out_chunk_size (se_protocol s))"
      by (cases c; simp add: on_send_packet_def ask_def)+
    ultimately show ?thesis
      by (simp add: wrote_def del: messages_wire.simps sizes_after_simps)
  qed
  moreover have "se_requests ?s = se_requests (on_send_packet c s)" "se_stream_id ?s = se_stream_id s"
    by (cases c; simp add: on_send_packet_def ask_def)+
  moreover have "waits b n s \<longrightarrow> waits b n ?s" for b n
    by (cases c) (auto simp: waits_def on_send_packet_def ask_def reading_def)
  ultimately show ?thesis
    by blast
qed

section \<open>Waiting\<close>

text \<open>What a message means to a session that waits: nothing, an error, or what is wanted.\<close>

definition verdict :: "requests \<Rightarrow> (command \<Rightarrow> 'a option) \<Rightarrow> common_msg \<Rightarrow> (int + 'a) option" where
  "verdict rs wanted m = (case do_decode_message rs (message_type (msg_header m)) (msg_payload m) of
     Inl e \<Rightarrow> Some (Inl e) | Inr c \<Rightarrow> map_option Inr (Option.bind c wanted))"

definition dropped :: "requests \<Rightarrow> (command \<Rightarrow> 'a option) \<Rightarrow> common_msg \<Rightarrow> bool" where
  "dropped rs wanted m \<longleftrightarrow> carried m \<and> verdict rs wanted m = None"

lemma message_waited:
  assumes "carried m" and "0 < n" and "n \<le> 65536" and "waits (messages_wire n (m # ms) @ rest) n s"
  shows "\<exists>m' p. recv_message accepts (se_protocol s) = (Inr m', p) \<and> message_type (msg_header m') = message_type (msg_header m) \<and>
    stream_id (msg_header m') = stream_id (msg_header m) \<and> msg_payload m' = msg_payload m \<and>
    waits (messages_wire (size_after n m) ms @ rest) (size_after n m) (s\<lparr>se_protocol := p\<rparr>) \<and> replies_only (se_protocol s) p"
proof -
  obtain cs where "reading (wire n m True (msg_payload m) @ messages_wire (size_after n m) ms @ rest) cs n (se_protocol s)" "\<And>cid. cs_msg (cs cid) = None"
    using assms(4) by (auto simp: waits_def)
  from carried_read [OF assms(1-3) this] show ?thesis
    by (auto simp: waits_def)
qed

lemma expect_verdict:
  assumes "list_all (dropped (se_requests s) wanted) ms" and "carried a" and "verdict (se_requests s) wanted a = Some x"
    and "0 < n" and "n \<le> 65536" and "waits (messages_wire n (ms @ [a]) @ rest) n s"
  shows "\<exists>p. expect_message accepts wanted s = (x, s\<lparr>se_protocol := p\<rparr>) \<and> waits rest (sizes_after n (ms @ [a])) (s\<lparr>se_protocol := p\<rparr>) \<and>
    replies_only (se_protocol s) p"
  using assms
proof (induction ms arbitrary: s n)
  case Nil
  from Nil.prems(6) have "waits (messages_wire n [a] @ rest) n s"
    by simp
  from message_waited [OF Nil.prems(2,4,5) this] obtain m p where
    m: "recv_message accepts (se_protocol s) = (Inr m, p)" "message_type (msg_header m) = message_type (msg_header a)" "msg_payload m = msg_payload a"
    "waits rest (size_after n a) (s\<lparr>se_protocol := p\<rparr>)" "replies_only (se_protocol s) p"
    by auto
  have "expect_message accepts wanted s = (x, s\<lparr>se_protocol := p\<rparr>)"
    using m(1-3) Nil.prems(3) by (auto simp: expect_message.simps [of _ _ s] verdict_def split: sum.splits option.splits)
  with m(4,5) show ?case
    by auto
next
  case (Cons d ms)
  have d: "carried d" "verdict (se_requests s) wanted d = None"
    using Cons.prems(1) by (simp_all add: dropped_def)
  from Cons.prems(6) have "waits (messages_wire n (d # ms @ [a]) @ rest) n s"
    by simp
  from message_waited [OF d(1) Cons.prems(4,5) this] obtain m p where
    m: "recv_message accepts (se_protocol s) = (Inr m, p)" "message_type (msg_header m) = message_type (msg_header d)" "msg_payload m = msg_payload d"
    "waits (messages_wire (size_after n d) (ms @ [a]) @ rest) (size_after n d) (s\<lparr>se_protocol := p\<rparr>)" "replies_only (se_protocol s) p"
    by blast
  let ?s = "s\<lparr>se_protocol := p\<rparr>"
  have e: "expect_message accepts wanted s = expect_message accepts wanted ?s"
    using m(1-3) d(2) by (auto simp: expect_message.simps [of _ _ s] verdict_def split: sum.splits option.splits)
  have "list_all (dropped (se_requests ?s) wanted) ms" "verdict (se_requests ?s) wanted a = Some x"
    using Cons.prems(1,3) by simp_all
  from Cons.IH [OF this(1) Cons.prems(2) this(2) _ _ m(4)] size_after_bounds [OF d(1) Cons.prems(4,5)] obtain q where
    "expect_message accepts wanted ?s = (x, s\<lparr>se_protocol := q\<rparr>)" "waits rest (sizes_after n ((d # ms) @ [a])) (s\<lparr>se_protocol := q\<rparr>)"
    "replies_only p q"
    by auto
  with e replies_only_trans [OF m(5)] show ?case
    by auto
qed

lemma expected_verdict:
  assumes "list_all (dropped (se_requests s) wanted) ms" and "carried a" and "verdict (se_requests s) wanted a = Some x"
    and "0 < n" and "n \<le> 65536" and "waits (messages_wire n (ms @ [a]) @ rest) n s"
  shows "\<exists>s' rep. expected accepts wanted s = Some (x, s') \<and> waits rest (sizes_after n (ms @ [a])) s' \<and> list_all is_reply rep \<and>
    wrote (se_protocol s) (se_protocol s') rep \<and> se_requests s' = se_requests s \<and> se_stream_id s' = se_stream_id s"
proof -
  obtain p where p: "expect_message accepts wanted s = (x, s\<lparr>se_protocol := p\<rparr>)" "waits rest (sizes_after n (ms @ [a])) (s\<lparr>se_protocol := p\<rparr>)"
    "replies_only (se_protocol s) p"
    using expect_verdict [OF assms] by blast
  then obtain rep where "list_all is_reply rep" "wrote (se_protocol s) p rep"
    by (auto simp: replies_only_def)
  with p show ?thesis
    by (intro exI [of _ "s\<lparr>se_protocol := p\<rparr>"] exI [of _ rep]) (simp add: expected_def)
qed

section \<open>Commands\<close>

lemma command_sent:
  assumes "get_size c \<noteq> 0" and "\<And>n. c \<noteq> SrsSetChunkSizePacket n" and "waits b n s"
  shows "\<exists>s'. send_and_free_packet accepts c sid s = Some (Inr (), s') \<and> wrote (se_protocol s) (se_protocol s') [command_to sid c] \<and>
    se_requests s' = se_requests (on_send_packet c s) \<and> se_stream_id s' = se_stream_id s \<and> waits b n s'"
  using packet_posted [OF assms(1), of sid s] assms(2,3) by blast

lemma size_nonzero:
  "get_size (SrsConnectAppPacket tid obj args) \<noteq> 0" "get_size (SrsCreateStreamPacket tid) \<noteq> 0" "get_size (SrsFMLEStartPacket k tid name) \<noteq> 0"
  "get_size (SrsPublishPacket tid name k) \<noteq> 0" "get_size (SrsSetWindowAckSizePacket w) \<noteq> 0"
  by (simp_all add: command_size_def)

lemma create_stream_done:
  assumes "rs = add_request tid (ascii ''createStream'') (se_requests s)" and "list_all (dropped rs created_stream) ms" and "carried a"
    and "verdict rs created_stream a = Some x" and "0 < n" and "n \<le> 65536" and "waits (messages_wire n (ms @ [a]) @ rest) n s"
  shows "\<exists>s' rep. create_stream accepts tid s = (case x of Inl e \<Rightarrow> Some (Inl e, s') | Inr d \<Rightarrow> set_stream_id d s') \<and>
    waits rest (sizes_after n (ms @ [a])) s' \<and> list_all is_reply rep \<and>
    wrote (se_protocol s) (se_protocol s') (command_to 0 (SrsCreateStreamPacket tid) # rep) \<and> se_requests s' = rs \<and> se_stream_id s' = se_stream_id s"
proof -
  from command_sent [OF size_nonzero(2) _ assms(7), of tid 0] obtain s1 where
    s1: "send_and_free_packet accepts (SrsCreateStreamPacket tid) 0 s = Some (Inr (), s1)"
    "wrote (se_protocol s) (se_protocol s1) [command_to 0 (SrsCreateStreamPacket tid)]" "se_requests s1 = rs" "se_stream_id s1 = se_stream_id s"
    "waits (messages_wire n (ms @ [a]) @ rest) n s1"
    using assms(1) by (auto simp: on_send_packet_def ask_def)
  from expected_verdict [OF assms(2-4) [folded s1(3)] assms(5,6) s1(5)] obtain s2 rep where
    s2: "expected accepts created_stream s1 = Some (x, s2)" "waits rest (sizes_after n (ms @ [a])) s2" "list_all is_reply rep"
    "wrote (se_protocol s1) (se_protocol s2) rep" "se_requests s2 = se_requests s1" "se_stream_id s2 = se_stream_id s1"
    by blast
  have "create_stream accepts tid s = (case x of Inl e \<Rightarrow> Some (Inl e, s2) | Inr d \<Rightarrow> set_stream_id d s2)"
    using s1(1) s2(1) by (simp add: create_stream_def then_do_def split: sum.split)
  with s1 s2 wrote_trans [OF s1(2) s2(4)] show ?thesis
    by auto
qed

lemma connect_done:
  assumes "rs = add_request double_1 (ascii ''connect'') (se_requests s)" and "list_all (dropped rs connect_result) ms" and "carried a"
    and "verdict rs connect_result a = Some x" and "0 < n" and "n \<le> 65536" and "waits (messages_wire n (ms @ [a]) @ rest) n s"
  shows "\<exists>s' rep. connect_app2 accepts app tc_url s = (case x of Inl e \<Rightarrow> Some (Inl e, s')
      | Inr info \<Rightarrow> map_option (\<lambda>i. (Inr i, s')) (read_server_info info)) \<and> waits rest (sizes_after n (ms @ [a])) s' \<and> list_all is_reply rep \<and>
    wrote (se_protocol s) (se_protocol s') (command_to 0 (SrsConnectAppPacket double_1 (connect_object app tc_url) None) #
      command_to 0 (SrsSetWindowAckSizePacket 2500000) # rep) \<and> se_requests s' = rs \<and> se_stream_id s' = se_stream_id s"
proof -
  let ?c = "SrsConnectAppPacket double_1 (connect_object app tc_url) None"
  from command_sent [OF size_nonzero(1) _ assms(7), of double_1 "connect_object app tc_url" None 0] obtain s1 where
    s1: "send_and_free_packet accepts ?c 0 s = Some (Inr (), s1)" "wrote (se_protocol s) (se_protocol s1) [command_to 0 ?c]" "se_requests s1 = rs"
    "se_stream_id s1 = se_stream_id s" "waits (messages_wire n (ms @ [a]) @ rest) n s1"
    using assms(1) by (auto simp: on_send_packet_def ask_def)
  from command_sent [OF size_nonzero(5) _ s1(5), of 2500000 0] obtain s2 where
    s2: "send_and_free_packet accepts (SrsSetWindowAckSizePacket 2500000) 0 s1 = Some (Inr (), s2)"
    "wrote (se_protocol s1) (se_protocol s2) [command_to 0 (SrsSetWindowAckSizePacket 2500000)]" "se_requests s2 = rs" "se_stream_id s2 = se_stream_id s1"
    "waits (messages_wire n (ms @ [a]) @ rest) n s2"
    using s1(3) by (auto simp: on_send_packet_def)
  from expected_verdict [OF assms(2-4) [folded s2(3)] assms(5,6) s2(5)] obtain s3 rep where
    s3: "expected accepts connect_result s2 = Some (x, s3)" "waits rest (sizes_after n (ms @ [a])) s3" "list_all is_reply rep"
    "wrote (se_protocol s2) (se_protocol s3) rep" "se_requests s3 = se_requests s2" "se_stream_id s3 = se_stream_id s2"
    by blast
  have "connect_app2 accepts app tc_url s = (case x of Inl e \<Rightarrow> Some (Inl e, s3) | Inr info \<Rightarrow> map_option (\<lambda>i. (Inr i, s3)) (read_server_info info))"
    using s1(1) s2(1) s3(1) by (simp add: connect_app2_def then_do_def split: sum.split)
  with s1 s2 s3 wrote_trans [OF wrote_trans [OF s1(2) s2(2)] s3(4)] show ?thesis
    by auto
qed

definition publish_requests :: "requests \<Rightarrow> requests" where
  "publish_requests rs = add_request double_4 (ascii ''createStream'') (add_request double_3 (ascii ''FCPublish'')
     (add_request double_2 (ascii ''releaseStream'') rs))"

lemma publish_done:
  assumes "rs = publish_requests (se_requests s)" and "list_all (dropped rs created_stream) ms" and "carried a"
    and "verdict rs created_stream a = Some x" and "0 < n" and "n \<le> 65536" and "waits (messages_wire n (ms @ [a]) @ rest) n s"
  shows "\<exists>s' rep. fmle_publish accepts name s = (case x of Inl e \<Rightarrow> Some (Inl e, s') | Inr d \<Rightarrow>
      then_do (set_stream_id d) (\<lambda>i. send_and_free_packet accepts (SrsPublishPacket 0 name (ascii ''live'')) (word_of_int i)) s') \<and>
    waits rest (sizes_after n (ms @ [a])) s' \<and> list_all is_reply rep \<and>
    wrote (se_protocol s) (se_protocol s') ([command_to 0 (SrsFMLEStartPacket (ascii ''releaseStream'') double_2 name),
      command_to 0 (SrsFMLEStartPacket (ascii ''FCPublish'') double_3 name), command_to 0 (SrsCreateStreamPacket double_4)] @ rep) \<and> se_requests s' = rs"
proof -
  let ?s = "s\<lparr>se_stream_id := 0\<rparr>"
  have w: "waits (messages_wire n (ms @ [a]) @ rest) n ?s"
    using assms(7) by (simp add: waits_def)
  let ?c1 = "SrsFMLEStartPacket (ascii ''releaseStream'') double_2 name" and ?c2 = "SrsFMLEStartPacket (ascii ''FCPublish'') double_3 name"
  from command_sent [OF size_nonzero(3) _ w, of "ascii ''releaseStream''" double_2 name 0] obtain s1 where
    s1: "send_and_free_packet accepts ?c1 0 ?s = Some (Inr (), s1)" "wrote (se_protocol s) (se_protocol s1) [command_to 0 ?c1]"
    "se_requests s1 = add_request double_2 (ascii ''releaseStream'') (se_requests s)" "waits (messages_wire n (ms @ [a]) @ rest) n s1"
    by (auto simp: on_send_packet_def ask_def)
  from command_sent [OF size_nonzero(3) _ s1(4), of "ascii ''FCPublish''" double_3 name 0] obtain s2 where
    s2: "send_and_free_packet accepts ?c2 0 s1 = Some (Inr (), s2)" "wrote (se_protocol s1) (se_protocol s2) [command_to 0 ?c2]"
    "se_requests s2 = add_request double_3 (ascii ''FCPublish'') (se_requests s1)" "waits (messages_wire n (ms @ [a]) @ rest) n s2"
    by (auto simp: on_send_packet_def ask_def)
  have rs: "rs = add_request double_4 (ascii ''createStream'') (se_requests s2)"
    by (simp add: assms(1) publish_requests_def s1(3) s2(3))
  from create_stream_done [OF rs assms(2-6) s2(4)] obtain s3 rep where
    s3: "create_stream accepts double_4 s2 = (case x of Inl e \<Rightarrow> Some (Inl e, s3) | Inr d \<Rightarrow> set_stream_id d s3)"
    "waits rest (sizes_after n (ms @ [a])) s3" "list_all is_reply rep"
    "wrote (se_protocol s2) (se_protocol s3) (command_to 0 (SrsCreateStreamPacket double_4) # rep)" "se_requests s3 = rs"
    by blast
  have "fmle_publish accepts name s = (case x of Inl e \<Rightarrow> Some (Inl e, s3) | Inr d \<Rightarrow>
      then_do (set_stream_id d) (\<lambda>i. send_and_free_packet accepts (SrsPublishPacket 0 name (ascii ''live'')) (word_of_int i)) s3)"
    using s1(1) s2(1) s3(1) by (simp add: fmle_publish_def then_do_def split: sum.split)
  with s3 wrote_trans [OF wrote_trans [OF s1(2) s2(2)] s3(4)] show ?thesis
    by auto
qed

section \<open>A session that publishes\<close>

definition publisher_session :: "socket \<Rightarrow> u32 \<Rightarrow> bytes \<Rightarrow> bytes \<Rightarrow> address \<Rightarrow> unit task" where
  "publisher_session sk now rnd ip a = then_do (handshake_with_server sk now rnd) (\<lambda>_.
     then_do (srs_rtmp_connect_app sk ip a) (\<lambda>_. srs_rtmp_publish_stream sk a))"

definition connect_packet :: "bytes \<Rightarrow> bytes \<Rightarrow> command" where
  "connect_packet app tc_url = SrsConnectAppPacket double_1 (connect_object app tc_url) None"

text \<open>The commands with the streams they are sent on; what the client answers by itself stands behind the second and before the last.\<close>

definition connect_commands :: "bytes \<Rightarrow> bytes \<Rightarrow> (u32 \<times> command) list" where
  "connect_commands app tc_url = [(0, connect_packet app tc_url), (0, SrsSetWindowAckSizePacket 2500000)]"

definition create_commands :: "bytes \<Rightarrow> (u32 \<times> command) list" where
  "create_commands name = [(0, SrsFMLEStartPacket (ascii ''releaseStream'') double_2 name), (0, SrsFMLEStartPacket (ascii ''FCPublish'') double_3 name),
     (0, SrsCreateStreamPacket double_4)]"

definition publish_commands :: "bytes \<Rightarrow> int \<Rightarrow> (u32 \<times> command) list" where
  "publish_commands name i = [(word_of_int i, SrsPublishPacket 0 name (ascii ''live''))]"

definition session_commands :: "bytes \<Rightarrow> address \<Rightarrow> int \<Rightarrow> (u32 \<times> command) list" where
  "session_commands ip a i = connect_commands (ad_app a) (srs_generate_tc_url ip a) @ create_commands (ad_stream a) @ publish_commands (ad_stream a) i"

definition commands_to :: "(u32 \<times> command) list \<Rightarrow> common_msg list" where
  "commands_to cs = map (\<lambda>(sid, c). command_to sid c) cs"

lemma session_done:
  assumes "incoming rs = reply @ messages_wire 128 (ms1 @ [a1] @ ms2 @ [a2]) @ rest" and "length reply = 3073" and "reply ! 0 = 3"
    and "list_all (dropped [(double_1, ascii ''connect'')] connect_result) ms1" and "carried a1"
    and "verdict [(double_1, ascii ''connect'')] connect_result a1 = Some (Inr info)" and "read_server_info info = Some si"
    and "list_all (dropped (publish_requests [(double_1, ascii ''connect'')]) created_stream) ms2" and "carried a2"
    and "verdict (publish_requests [(double_1, ascii ''connect'')]) created_stream a2 = Some (Inr d)" and "double_to_int d = Some i"
  shows "\<exists>s rep1 rep2. publisher_session accepts now rnd ip a (new_session rs) = Some (Inr (), s) \<and> se_stream_id s = i \<and>
    waits rest (sizes_after 128 (ms1 @ [a1] @ ms2 @ [a2])) s \<and> list_all is_reply (rep1 @ rep2) \<and>
    concat (written (se_protocol s)) = create_c0c1 now rnd @ take 1536 (drop 1 reply) @ messages_wire 128 (commands_to (connect_commands (ad_app a) (srs_generate_tc_url ip a)) @ rep1 @
      commands_to (create_commands (ad_stream a)) @ rep2 @ commands_to (publish_commands (ad_stream a) i))"
proof -
  let ?app = "ad_app a" and ?tc = "srs_generate_tc_url ip a" and ?name = "ad_stream a"
  let ?s = "new_session rs" and ?r1 = "[(double_1, ascii ''connect'')]"
  let ?in = "messages_wire 128 (ms1 @ [a1] @ ms2 @ [a2]) @ rest"
  have new: "se_requests ?s = []" "written (se_protocol ?s) = []" "out_chunk_size (se_protocol ?s) = 128" "in_chunk_size (se_protocol ?s) = 128"
    "unread (se_protocol ?s) = []" "consumed (se_protocol ?s) = 0" "cs_cache (se_protocol ?s) = new_chunk_stream" "reads (se_protocol ?s) = rs"
    by (simp_all add: new_session_def new_protocol_def)
  obtain rs1 k where h: "incoming rs1 = ?in" "handshake_with_server accepts now rnd ?s = Some (Inr (), ?s\<lparr>se_protocol := (se_protocol ?s)\<lparr>reads := rs1,
      recv_bytes := k, written := [create_c0c1 now rnd, take 1536 (drop 1 reply)]\<rparr>\<rparr>)"
    using handshake_done [of ?s reply ?in now rnd] assms(1-3) new(2,8) by auto
  let ?p1 = "(se_protocol ?s)\<lparr>reads := rs1, recv_bytes := k, written := [create_c0c1 now rnd, take 1536 (drop 1 reply)]\<rparr>"
  let ?s1 = "?s\<lparr>se_protocol := ?p1\<rparr>"
  let ?n = "sizes_after 128 (ms1 @ [a1])"
  have w1: "waits (messages_wire 128 (ms1 @ [a1]) @ messages_wire ?n (ms2 @ [a2]) @ rest) 128 ?s1"
    using h(1) new by (auto simp: waits_def reading_def new_chunk_stream_def nb_buffer_def)
  have r1: "?r1 = add_request double_1 (ascii ''connect'') (se_requests ?s1)"
    by (simp add: new(1))
  obtain s2 rep1 where s2: "connect_app2 accepts ?app ?tc ?s1 = Some (Inr si, s2)"
    "waits (messages_wire ?n (ms2 @ [a2]) @ rest) ?n s2" "list_all is_reply rep1"
    "wrote ?p1 (se_protocol s2) (commands_to (connect_commands ?app ?tc) @ rep1)" "se_requests s2 = ?r1"
    using connect_done [OF r1 assms(4-6) _ _ w1, of ?app ?tc] assms(7)
    by (auto simp: commands_to_def connect_commands_def connect_packet_def)
  have r2: "publish_requests ?r1 = publish_requests (se_requests s2)"
    by (simp add: s2(5))
  have n: "0 < ?n" "?n \<le> 65536"
  proof -
    have "list_all carried (ms1 @ [a1])"
      using assms(4,5) by (auto simp: dropped_def list_all_iff)
    then have "0 < sizes_after m (ms1 @ [a1]) \<and> sizes_after m (ms1 @ [a1]) \<le> 65536" if "0 < m" "m \<le> 65536" for m
      using that by (induction "ms1 @ [a1]" arbitrary: m ms1) (auto simp: Cons_eq_append_conv size_after_bounds)
    then show "0 < ?n" "?n \<le> 65536"
      by simp_all
  qed
  from publish_done [OF r2 assms(8-10) n s2(2), of ?name] obtain s3 rep2 where
    s3: "fmle_publish accepts ?name s2 = then_do (set_stream_id d) (\<lambda>i. send_and_free_packet accepts (SrsPublishPacket 0 ?name (ascii ''live'')) (word_of_int i)) s3"
    "waits rest (sizes_after ?n (ms2 @ [a2])) s3" "list_all is_reply rep2"
    "wrote (se_protocol s2) (se_protocol s3) (commands_to (create_commands ?name) @ rep2)"
    by (auto simp: commands_to_def create_commands_def)
  let ?s3 = "s3\<lparr>se_stream_id := i\<rparr>"
  have "waits rest (sizes_after ?n (ms2 @ [a2])) ?s3"
    using s3(2) by (simp add: waits_def)
  from command_sent [OF size_nonzero(4) _ this, of 0 ?name "ascii ''live''" "word_of_int i"] obtain s4 where
    s4: "send_and_free_packet accepts (SrsPublishPacket 0 ?name (ascii ''live'')) (word_of_int i) ?s3 = Some (Inr (), s4)"
    "wrote (se_protocol s3) (se_protocol s4) (commands_to (publish_commands ?name i))" "se_stream_id s4 = i" "waits rest (sizes_after ?n (ms2 @ [a2])) s4"
    by (auto simp: commands_to_def publish_commands_def)
  have "publisher_session accepts now rnd ip a ?s = Some (Inr (), s4)"
    using h(2) s2(1) s3(1) s4(1) assms(11)
    by (simp add: publisher_session_def then_do_def srs_rtmp_connect_app_def srs_rtmp_publish_stream_def set_stream_id_def)
  moreover have "concat (written (se_protocol s4)) = create_c0c1 now rnd @ take 1536 (drop 1 reply) @ messages_wire 128 (commands_to (connect_commands ?app ?tc) @
      rep1 @ commands_to (create_commands ?name) @ rep2 @ commands_to (publish_commands ?name i))"
    using wrote_trans [OF wrote_trans [OF s2(4) s3(4)] s4(2)] new(3) by (simp add: wrote_def)
  moreover have "sizes_after 128 (ms1 @ [a1] @ ms2 @ [a2]) = sizes_after ?n (ms2 @ [a2])"
    by simp
  ultimately show ?thesis
    using s2(3) s3(3) s4(3,4) by (intro exI [of _ s4] exI [of _ rep1] exI [of _ rep2]) simp
qed

section \<open>What a peer understands\<close>

text \<open>The packets in the next \<open>k\<close> messages, with the streams they came on.\<close>

definition packets_of :: "requests \<Rightarrow> common_msg \<Rightarrow> (u32 \<times> command) list" where
  "packets_of rs m = (case do_decode_message rs (message_type (msg_header m)) (msg_payload m) of
     Inr (Some c) \<Rightarrow> [(stream_id (msg_header m), c)] | _ \<Rightarrow> [])"

primrec heard :: "nat \<Rightarrow> session \<Rightarrow> (u32 \<times> command) list" where
  "heard 0 s = []"
| "heard (Suc k) s = (case recv_message accepts (se_protocol s) of
       (Inl e, p) \<Rightarrow> []
     | (Inr m, p) \<Rightarrow> packets_of (se_requests s) m @ heard k (s\<lparr>se_protocol := p\<rparr>))"

lemma heard_messages:
  assumes "list_all carried ms" and "0 < n" and "n \<le> 65536" and "waits (messages_wire n ms @ rest) n s"
  shows "heard (length ms) s = concat (map (packets_of (se_requests s)) ms)"
  using assms
proof (induction ms arbitrary: n s)
  case (Cons m ms)
  then have m: "carried m" "list_all carried ms"
    by simp_all
  from message_waited [OF m(1) Cons.prems(2-4)] obtain m' p where
    r: "recv_message accepts (se_protocol s) = (Inr m', p)" "message_type (msg_header m') = message_type (msg_header m)"
    "stream_id (msg_header m') = stream_id (msg_header m)" "msg_payload m' = msg_payload m"
    "waits (messages_wire (size_after n m) ms @ rest) (size_after n m) (s\<lparr>se_protocol := p\<rparr>)"
    by blast
  have "packets_of (se_requests s) m' = packets_of (se_requests s) m"
    using r(2-4) by (simp add: packets_of_def split: sum.split option.split)
  with Cons.IH [OF m(2) _ _ r(5)] size_after_bounds [OF m(1) Cons.prems(2,3)] r(1) show ?case
    by simp
qed simp

lemma be_bytes_Nil [simp]: "be_bytes k n = [] \<longleftrightarrow> k = 0"
  by (metis length_0_conv length_be_bytes)

lemma reply_carried:
  assumes "is_reply m"
  shows "carried m"
proof -
  have "length (be_bytes 2 7) = 2" "length (be_bytes 4 k) = 4" for k
    by simp_all
  with assms show ?thesis
    by (auto simp: is_reply_def carried_def sendable_def control_msg_def new_header_def decode_user_control_def Let_def be_be_bytes)
qed

text \<open>The answer to a ping is the only packet among them.\<close>

definition is_pong :: "u32 \<times> command \<Rightarrow> bool" where
  "is_pong x = (case snd x of SrsUserControlPacket ev _ _ \<Rightarrow> ev = 7 | _ \<Rightarrow> False)"

lemma reply_packets:
  assumes "is_reply m"
  shows "filter (\<lambda>x. \<not> is_pong x) (packets_of rs m) = []"
  using assms unfolding is_reply_def
proof (elim disjE exE)
  fix k
  assume "m = control_msg 3 (be_bytes 4 k)"
  then show ?thesis
    by (simp add: packets_of_def control_msg_def new_header_def do_decode_message_def)
next
  fix ts
  assume m: "m = control_msg 4 (be_bytes 2 7 @ be_bytes 4 ts)"
  have "decode_user_control (be_bytes 2 7 @ be_bytes 4 ts) = Inr (7, be (be_bytes 4 ts))"
    by (simp add: decode_user_control_def be_be_bytes)
  then show ?thesis
    by (simp add: m packets_of_def control_msg_def new_header_def do_decode_message_def decode_control_def is_pong_def del: be_bytes_Nil)
qed

lemma replies_packets: "list_all is_reply ms \<Longrightarrow> filter (\<lambda>x. \<not> is_pong x) (concat (map (packets_of rs) ms)) = []"
  by (induction ms) (simp_all add: reply_packets)

lemma command_heard:
  assumes "command_ok rs c" and "get_size c < 2 ^ 24" and "c = SrsSetWindowAckSizePacket w \<or> get_message_type c = 20"
  shows "carried (command_to sid c)" and "packets_of rs (command_to sid c) = [(sid, c)]"
proof -
  have "packet_bytes c \<noteq> []"
    using assms(1) size_packet [of c] by (cases c) (auto simp: command_size_def)
  moreover have "2 \<le> get_prefer_cid c" "get_prefer_cid c < 64"
    using assms(1) by (cases c; simp add: get_prefer_cid_def)+
  moreover have "get_message_type c = 5 \<Longrightarrow> 4 \<le> length (packet_bytes c)" "get_message_type c \<noteq> 1" "get_message_type c \<noteq> 4"
    using assms(3) by (auto simp: get_message_type_def)
  ultimately show "carried (command_to sid c)"
    using assms(2) by (simp add: carried_def sendable_def command_to_def command_msg_def new_header_def Let_def size_packet)
  show "packets_of rs (command_to sid c) = [(sid, c)]"
    using packet_read_back [OF assms(1)] by (simp add: packets_of_def command_to_def command_msg_def)
qed

lemma c_str_length: "length (c_str s) \<le> length s"
  by (simp add: c_str_def length_takeWhile_le)

lemma connect_packet_ok:
  assumes "length app < 32768" and "length tc_url < 32768"
  shows "command_ok rs (connect_packet app tc_url)" and "get_size (connect_packet app tc_url) < 2 ^ 24"
proof -
  let ?l = "map (\<lambda>(k, v). (ascii k, v)) [(''app'', Str (c_str app)), (''flashVer'', Str (ascii ''WIN 15,0,0,239'')), (''swfUrl'', Str []),
    (''tcUrl'', Str (c_str tc_url)), (''fpad'', Boolean False), (''capabilities'', Number 0x406DE00000000000), (''audioCodecs'', Number 0x40ABEE0000000000),
    (''videoCodecs'', Number 0x406F800000000000), (''videoFunction'', Number double_1), (''pageUrl'', Str []), (''objectEncoding'', Number 0)]"
  have "distinct (map fst ?l)"
    by simp
  then have c: "connect_object app tc_url = ?l"
    unfolding connect_object_def by (rule set_all_distinct)
  have l: "length (c_str app) < 32768" "length (c_str tc_url) < 32768"
    using assms c_str_length [of app] c_str_length [of tc_url] by simp_all
  then show "command_ok rs (connect_packet app tc_url)"
    by (simp add: connect_packet_def c)
  show "get_size (connect_packet app tc_url) < 2 ^ 24"
    using l by (simp add: connect_packet_def c command_size_def utf8_size_def)
qed

definition understood :: "u32 \<times> command \<Rightarrow> bool" where
  "understood x \<longleftrightarrow> carried (command_to (fst x) (snd x)) \<and> packets_of [] (command_to (fst x) (snd x)) = [x] \<and> \<not> is_pong x"

lemma understood_heard:
  assumes "list_all understood cs"
  shows "filter (\<lambda>x. \<not> is_pong x) (concat (map (packets_of []) (commands_to cs))) = cs" and "list_all carried (commands_to cs)"
  using assms by (induction cs) (auto simp: commands_to_def understood_def)

lemma replies_carried: "list_all is_reply ms \<Longrightarrow> list_all carried ms"
  by (auto simp: list_all_iff reply_carried)

lemma understoodI:
  assumes "command_ok [] c" and "get_size c < 2 ^ 24" and "c = SrsSetWindowAckSizePacket w \<or> get_message_type c = 20" and "\<not> is_pong (sid, c)"
  shows "understood (sid, c)"
  using assms(4) command_heard [OF assms(1-3)] by (simp add: understood_def)

lemma commands_heard:
  assumes "length app < 32768" and "length tc_url < 32768" and "length name < 32768"
  shows "list_all understood (connect_commands app tc_url)" and "list_all understood (create_commands name)"
    and "list_all understood (publish_commands name i)"
proof -
  have "understood (sid, connect_packet app tc_url)" for sid
    by (rule understoodI [OF connect_packet_ok [OF assms(1,2)]]) (simp_all add: connect_packet_def get_message_type_def is_pong_def)
  moreover have "understood (sid, SrsSetWindowAckSizePacket 2500000)" for sid
    by (rule understoodI) (auto simp: is_pong_def)
  moreover have "understood (sid, SrsFMLEStartPacket (ascii ''releaseStream'') t name)" "understood (sid, SrsFMLEStartPacket (ascii ''FCPublish'') t name)"
    "understood (sid, SrsCreateStreamPacket t)" "understood (sid, SrsPublishPacket t name (ascii ''live''))" for sid t
    using assms(3) by (auto intro!: understoodI simp: fmle_commands_def command_size_def utf8_size_def get_message_type_def is_pong_def)
  ultimately show "list_all understood (connect_commands app tc_url)" "list_all understood (create_commands name)"
    "list_all understood (publish_commands name i)"
    by (simp_all add: connect_commands_def create_commands_def publish_commands_def)
qed

text \<open>C7. With a server that answers, whatever else it says before its answers, a session of the publisher opens the stream the server gives, and a
  peer that reads what the client wrote hears the commands in their order, on the right streams, and nothing else but answers to pings.\<close>

theorem session_understood:
  assumes "length (ad_app a) < 32768" and "length (srs_generate_tc_url ip a) < 32768" and "length (ad_stream a) < 32768"
    and "incoming rs = reply @ messages_wire 128 (ms1 @ [a1] @ ms2 @ [a2]) @ rest" and "length reply = 3073" and "reply ! 0 = 3"
    and "list_all (dropped [(double_1, ascii ''connect'')] connect_result) ms1" and "carried a1"
    and "verdict [(double_1, ascii ''connect'')] connect_result a1 = Some (Inr info)" and "read_server_info info = Some si"
    and "list_all (dropped (publish_requests [(double_1, ascii ''connect'')]) created_stream) ms2" and "carried a2"
    and "verdict (publish_requests [(double_1, ascii ''connect'')]) created_stream a2 = Some (Inr d)" and "double_to_int d = Some i"
  shows "\<exists>s sent. publisher_session accepts now rnd ip a (new_session rs) = Some (Inr (), s) \<and> se_stream_id s = i \<and>
    waits rest (sizes_after 128 (ms1 @ [a1] @ ms2 @ [a2])) s \<and> concat (written (se_protocol s)) = create_c0c1 now rnd @ take 1536 (drop 1 reply) @ sent \<and>
    (\<forall>rs' more. incoming rs' = sent @ more \<longrightarrow> (\<exists>k. filter (\<lambda>x. \<not> is_pong x) (heard k (new_session rs')) =
      session_commands ip a i))"
proof -
  from session_done [OF assms(4-14), of now rnd ip] obtain s rep1 rep2 where
    s: "publisher_session accepts now rnd ip a (new_session rs) = Some (Inr (), s)" "se_stream_id s = i"
    "waits rest (sizes_after 128 (ms1 @ [a1] @ ms2 @ [a2])) s" and rep: "list_all is_reply (rep1 @ rep2)"
    and w: "concat (written (se_protocol s)) = create_c0c1 now rnd @ take 1536 (drop 1 reply) @ messages_wire 128 (commands_to (connect_commands (ad_app a) (srs_generate_tc_url ip a)) @
      rep1 @ commands_to (create_commands (ad_stream a)) @ rep2 @ commands_to (publish_commands (ad_stream a) i))"
    by blast
  let ?ms = "commands_to (connect_commands (ad_app a) (srs_generate_tc_url ip a)) @ rep1 @ commands_to (create_commands (ad_stream a)) @ rep2 @ commands_to (publish_commands (ad_stream a) i)"
  note ok = commands_heard(1) [OF assms(1-3)] commands_heard(2) [OF assms(1-3)] commands_heard(3) [OF assms(1-3), where i = i]
  have c: "list_all carried ?ms"
    using rep by (simp add: ok understood_heard(2) replies_carried)
  have "\<exists>k. filter (\<lambda>x. \<not> is_pong x) (heard k (new_session rs')) = session_commands ip a i"
    if "incoming rs' = messages_wire 128 ?ms @ more" for rs' more
  proof -
    have "waits (messages_wire 128 ?ms @ more) 128 (new_session rs')"
      using that by (auto simp: waits_def reading_def new_session_def new_protocol_def new_chunk_stream_def nb_buffer_def)
    from heard_messages [OF c _ _ this] have "heard (length ?ms) (new_session rs') = concat (map (packets_of []) ?ms)"
      by (simp add: new_session_def)
    then show ?thesis
      using rep by (intro exI [of _ "length ?ms"]) (simp add: ok understood_heard(1) replies_packets session_commands_def)
  qed
  with s w show ?thesis
    by blast
qed

lemma verdict_command: "command_ok rs c \<Longrightarrow> verdict rs wanted (command_to sid c) = map_option Inr (wanted c)"
  by (simp add: verdict_def command_to_def command_msg_def new_header_def packet_read_back)

text \<open>A server that sets its window, accepts everything and gives the stream 1.\<close>

definition demo_address :: address where
  "demo_address = new_address\<lparr>ad_host := ascii ''h'', ad_port := ascii ''1935'', ad_vhost := ascii ''h'', ad_app := ascii ''live'', ad_stream := ascii ''s''\<rparr>"

theorem session_understood_witness:
  "\<exists>rs s sent k. publisher_session accepts 0 [] [] demo_address (new_session rs) = Some (Inr (), s) \<and> se_stream_id s = 1 \<and>
    filter (\<lambda>x. \<not> is_pong x) (heard k (new_session [Received sent])) = session_commands [] demo_address 1"
proof -
  let ?r1 = "[(double_1, ascii ''connect'')]"
  let ?r2 = "publish_requests ?r1"
  let ?ms1 = "[command_to 0 (SrsSetWindowAckSizePacket 5000000)]" and ?a1 = "command_to 0 (SrsConnectAppResPacket double_1 [] [])"
  let ?ms2 = "map (command_to 0) [SrsFMLEStartResPacket double_2, SrsFMLEStartResPacket double_3]"
    and ?a2 = "command_to 0 (SrsCreateStreamResPacket double_4 double_1)"
  let ?reply = "3 # replicate 3072 7 :: bytes" and ?in = "messages_wire 128 (?ms1 @ [?a1] @ ?ms2 @ [?a2])"
  let ?rs = "[Received (?reply @ ?in)]"
  have r2: "?r2 = [(double_1, ascii ''connect''), (double_2, ascii ''releaseStream''), (double_3, ascii ''FCPublish''), (double_4, ascii ''createStream'')]"
    by (simp add: publish_requests_def)
  have find: "find_request ?r1 double_1 = Some (ascii ''connect'')" "find_request ?r2 double_2 = Some (ascii ''releaseStream'')"
    "find_request ?r2 double_3 = Some (ascii ''FCPublish'')" "find_request ?r2 double_4 = Some (ascii ''createStream'')"
    by (simp_all add: find_request_def is_nan_def r2)
  have ok: "command_ok ?r1 (SrsSetWindowAckSizePacket 5000000)" "command_ok ?r1 (SrsConnectAppResPacket double_1 [] [])"
    "command_ok ?r2 (SrsFMLEStartResPacket double_2)" "command_ok ?r2 (SrsFMLEStartResPacket double_3)" "command_ok ?r2 (SrsCreateStreamResPacket double_4 double_1)"
    using find by (simp_all add: fmle_commands_def)
  have c: "carried (command_to 0 c)" if "command_ok rs c" "get_size c < 2 ^ 24" "c = SrsSetWindowAckSizePacket 5000000 \<or> get_message_type c = 20" for rs c
    using command_heard(1) [OF that] .
  note verdict = verdict_command [OF ok(1)] verdict_command [OF ok(2)] verdict_command [OF ok(3)] verdict_command [OF ok(4)] verdict_command [OF ok(5)]
  have 1: "list_all (dropped ?r1 connect_result) ?ms1" "carried ?a1" "verdict ?r1 connect_result ?a1 = Some (Inr [])"
    using c [OF ok(1)] c [OF ok(2)] by (simp_all add: dropped_def verdict connect_result_def command_size_def utf8_size_def get_message_type_def)
  have 2: "list_all (dropped ?r2 created_stream) ?ms2" "carried ?a2" "verdict ?r2 created_stream ?a2 = Some (Inr double_1)"
    using c [OF ok(3)] c [OF ok(4)] c [OF ok(5)]
    by (simp_all add: dropped_def verdict created_stream_def command_size_def utf8_size_def get_message_type_def)
  have info: "\<exists>si. read_server_info [] = Some si"
    by (simp add: read_server_info_def server_number_def ensure_property_number_def get_property_def)
  have i: "double_to_int double_1 = Some 1"
    by (simp add: double_to_int_def Let_def)
  have l: "length (ad_app demo_address) < 32768" "length (srs_generate_tc_url [] demo_address) < 32768" "length (ad_stream demo_address) < 32768"
    by (simp_all add: demo_address_def new_address_def srs_generate_tc_url_def)
  have "incoming ?rs = ?reply @ ?in @ []" "length ?reply = 3073" "?reply ! 0 = 3"
    by simp_all
  with info session_understood [OF l _ _ _ 1 _ 2 i, of ?rs ?reply "[]" _ 0 "[]"] obtain s sent where
    s: "publisher_session accepts 0 [] [] demo_address (new_session ?rs) = Some (Inr (), s)" "se_stream_id s = 1"
    "\<And>rs' more. incoming rs' = sent @ more \<Longrightarrow> \<exists>k. filter (\<lambda>x. \<not> is_pong x) (heard k (new_session rs')) = session_commands [] demo_address 1"
    by blast
  have "incoming [Received sent] = sent @ []"
    by simp
  from s(1,2) s(3) [OF this] show ?thesis
    by blast
qed

section \<open>A refusal\<close>

lemma error_answer:
  assumes "find_request rs tid = Some n" and "n \<in> {ascii ''connect'', ascii ''createStream''} \<union> fmle_commands"
  shows "do_decode_message rs 20 (command_bytes (ascii ''_error'') tid b) = Inl ERROR_RTMP_AMF0_DECODE"
proof -
  have "read_name [ascii ''_result''] (command_bytes (ascii ''_error'') tid b) = Inl ERROR_RTMP_AMF0_DECODE"
    by (simp add: read_name_def command_bytes_def then_read_def read_string_bytes fail_def del: amf0_bytes.simps)
  then have "decode_answer (find_request rs tid) (command_bytes (ascii ''_error'') tid b) = Inl ERROR_RTMP_AMF0_DECODE"
    using assms by (auto simp: decode_answer_def decode_connect_res_def decode_create_stream_res_def decode_fmle_start_res_def then_read_def fmle_commands_def)
  then show ?thesis
    by (simp add: do_decode_message_def command_bytes_def read_string_bytes read_number_bytes then_read_def Let_def del: amf0_bytes.simps)
qed

text \<open>C40. A server that refuses any request the client has made, be it one of those whose success the client does not wait for, ends the opening of the stream
  with a decode error, before the publish command is sent.\<close>

theorem refusal_is_decode_error:
  assumes "list_all (dropped (publish_requests (se_requests s)) created_stream) ms" and "carried a" and "message_type (msg_header a) = 20"
    and "msg_payload a = command_bytes (ascii ''_error'') tid b" and "find_request (publish_requests (se_requests s)) tid = Some n"
    and "n \<in> {ascii ''connect'', ascii ''createStream''} \<union> fmle_commands" and "0 < k" and "k \<le> 65536"
    and "waits (messages_wire k (ms @ [a]) @ rest) k s"
  shows "\<exists>s' rep. srs_rtmp_publish_stream accepts ad s = Some (Inl ERROR_RTMP_AMF0_DECODE, s') \<and> list_all is_reply rep \<and>
    wrote (se_protocol s) (se_protocol s') (commands_to (create_commands (ad_stream ad)) @ rep)"
proof -
  have "verdict (publish_requests (se_requests s)) created_stream a = Some (Inl ERROR_RTMP_AMF0_DECODE)"
    by (simp add: verdict_def assms(3,4) error_answer [OF assms(5,6)])
  from publish_done [OF refl assms(1,2) this assms(7-9), of "ad_stream ad"] show ?thesis
    by (auto simp: srs_rtmp_publish_stream_def commands_to_def create_commands_def)
qed

text \<open>The first request, to release the stream, is refused.\<close>

theorem refusal_is_decode_error_witness:
  "\<exists>rs s rep. srs_rtmp_publish_stream accepts demo_address (new_session rs) = Some (Inl ERROR_RTMP_AMF0_DECODE, s) \<and> list_all is_reply rep \<and>
    concat (written (se_protocol s)) = messages_wire 128 (commands_to (create_commands (ad_stream demo_address)) @ rep)"
proof -
  let ?b = "command_bytes (ascii ''_error'') double_2 []"
  let ?a = "\<lparr>msg_header = (new_header 3)\<lparr>payload_length := length ?b, message_type := 20\<rparr>, msg_payload = ?b\<rparr>"
  let ?s = "new_session [Received (messages_wire 128 ([] @ [?a]))]"
  have b: "?b \<noteq> []" "length ?b < 2 ^ 24"
    by (simp_all add: command_bytes_def utf8_bytes_def)
  then have a: "carried ?a" "message_type (msg_header ?a) = 20" "msg_payload ?a = ?b"
    by (simp_all add: carried_def sendable_def new_header_def Let_def)
  have n: "find_request (publish_requests (se_requests ?s)) double_2 = Some (ascii ''releaseStream'')"
    by (simp add: new_session_def publish_requests_def find_request_def is_nan_def)
  have "waits (messages_wire 128 ([] @ [?a]) @ []) 128 ?s"
    by (auto simp: waits_def reading_def new_session_def new_protocol_def new_chunk_stream_def nb_buffer_def)
  from refusal_is_decode_error [OF _ a n _ _ _ this, of demo_address] obtain s rep where
    "srs_rtmp_publish_stream accepts demo_address ?s = Some (Inl ERROR_RTMP_AMF0_DECODE, s)" "list_all is_reply rep"
    "wrote (se_protocol ?s) (se_protocol s) (commands_to (create_commands (ad_stream demo_address)) @ rep)"
    by (auto simp: fmle_commands_def)
  moreover have "written (se_protocol ?s) = []" "out_chunk_size (se_protocol ?s) = 128"
    by (simp_all add: new_session_def new_protocol_def)
  ultimately show ?thesis
    unfolding wrote_def by (metis append_Nil concat.simps(1))
qed

section \<open>A session that plays\<close>

text \<open>The player asks for the stream it is given, a buffer of a second and, for its own writing, large chunks.\<close>

definition play_commands :: "bytes \<Rightarrow> int \<Rightarrow> (u32 \<times> command) list" where
  "play_commands name i = [(word_of_int i, SrsPlayPacket 0 name double_minus_2 double_minus_1 True),
     (0, SrsUserControlPacket SrcPCUCSetBufferLength (unat (word_of_int i :: u32)) 1000), (0, SrsSetChunkSizePacket 60000)]"

lemma play_sent:
  assumes "waits b n s"
  shows "\<exists>s'. play accepts name i s = Some (Inr (), s') \<and> waits b n s' \<and> wrote (se_protocol s) (se_protocol s') (commands_to (play_commands name i)) \<and>
    se_stream_id s' = se_stream_id s"
proof -
  let ?c1 = "SrsPlayPacket 0 name double_minus_2 double_minus_1 True" and ?c3 = "SrsSetChunkSizePacket 60000"
    and ?c2 = "SrsUserControlPacket SrcPCUCSetBufferLength (unat (word_of_int i :: u32)) 1000"
  have size: "get_size ?c1 \<noteq> 0" "get_size ?c2 \<noteq> 0" "get_size ?c3 \<noteq> 0"
    by (simp_all add: command_size_def)
  from command_sent [OF size(1) _ assms, of "word_of_int i"] obtain s1 where
    s1: "send_and_free_packet accepts ?c1 (word_of_int i) s = Some (Inr (), s1)" "wrote (se_protocol s) (se_protocol s1) [command_to (word_of_int i) ?c1]"
    "se_stream_id s1 = se_stream_id s" "waits b n s1"
    by blast
  from command_sent [OF size(2) _ s1(4), of 0] obtain s2 where
    s2: "send_and_free_packet accepts ?c2 0 s1 = Some (Inr (), s2)" "wrote (se_protocol s1) (se_protocol s2) [command_to 0 ?c2]"
    "se_stream_id s2 = se_stream_id s1" "waits b n s2"
    by blast
  have "\<And>n. ?c3 = SrsSetChunkSizePacket n \<Longrightarrow> unat n < 2 ^ 31"
    by simp
  from packet_posted [OF size(3) this, of 0 s2] obtain s3 where
    s3: "send_and_free_packet accepts ?c3 0 s2 = Some (Inr (), s3)" "wrote (se_protocol s2) (se_protocol s3) [command_to 0 ?c3]"
    "se_stream_id s3 = se_stream_id s2" "waits b n s3"
    using s2(4) by blast
  have "play accepts name i s = Some (Inr (), s3)"
    using s1(1) s2(1) s3(1) by (simp add: play_def then_do_def)
  with s1 s2 s3 wrote_trans [OF wrote_trans [OF s1(2) s2(2)] s3(2)] show ?thesis
    by (auto simp: commands_to_def play_commands_def)
qed

lemma play_done:
  assumes "rs = add_request double_2 (ascii ''createStream'') (se_requests s)" and "list_all (dropped rs created_stream) ms" and "carried a"
    and "verdict rs created_stream a = Some (Inr d)" and "double_to_int d = Some i" and "0 < n" and "n \<le> 65536" and "waits (messages_wire n (ms @ [a]) @ rest) n s"
  shows "\<exists>s' rep. srs_rtmp_play_stream accepts ad s = Some (Inr (), s') \<and> se_stream_id s' = i \<and> waits rest (sizes_after n (ms @ [a])) s' \<and>
    list_all is_reply rep \<and> wrote (se_protocol s) (se_protocol s') (commands_to [(0, SrsCreateStreamPacket double_2)] @ rep @ commands_to (play_commands (ad_stream ad) i)) \<and>
    out_chunk_size (se_protocol s') = 60000"
proof -
  from create_stream_done [OF assms(1-4,6-8)] obtain s1 rep where
    s1: "create_stream accepts double_2 s = set_stream_id d s1" "waits rest (sizes_after n (ms @ [a])) s1" "list_all is_reply rep"
    "wrote (se_protocol s) (se_protocol s1) (command_to 0 (SrsCreateStreamPacket double_2) # rep)"
    by auto
  have "waits rest (sizes_after n (ms @ [a])) (s1\<lparr>se_stream_id := i\<rparr>)"
    using s1(2) by (simp add: waits_def)
  from play_sent [OF this, of "ad_stream ad" i] obtain s2 where
    s2: "play accepts (ad_stream ad) i (s1\<lparr>se_stream_id := i\<rparr>) = Some (Inr (), s2)" "waits rest (sizes_after n (ms @ [a])) s2"
    "wrote (se_protocol s1) (se_protocol s2) (commands_to (play_commands (ad_stream ad) i))" "se_stream_id s2 = i"
    by auto
  have "srs_rtmp_play_stream accepts ad s = Some (Inr (), s2)"
    using s1(1) s2(1) assms(5) by (simp add: srs_rtmp_play_stream_def then_do_def set_stream_id_def)
  moreover have "out_chunk_size (se_protocol s2) = 60000"
  proof -
    have "size_after j (command_to 0 (SrsSetChunkSizePacket 60000)) = 60000" for j
      by (simp add: size_after_def command_to_def command_msg_def new_header_def get_message_type_def take_four signed_be_def be_be_bytes)
    with s2(3) show ?thesis
      by (simp add: wrote_def commands_to_def play_commands_def)
  qed
  ultimately show ?thesis
    using s1(3) s2(2,4) wrote_trans [OF s1(4) s2(3)] by (auto simp: commands_to_def)
qed

end
