(* ===== verification/Spec2Isabelle.thy ===== *)
theory Spec2Isabelle
  imports Sensor_Handle Sensor_Rfid Uvc_Camera Uvc_Processing Uvc_Roundtrip Uvc_Status Uvc_Stream_Demo Uvc_Device Uvc_Planar
    Preview_Stop Camera_Life Libusb_Scan Rtmp_Streamer Rtmp_Guest Srs_Aggregate Srs_Whole Url_Laws Connect_Laws
begin

text \<open>
  A model of the native code of an advertising terminal, written in C and C++: a USB webcam stack, the drivers of a sensor board and the
  core that publishes and plays live streams.

  The program. The Java application shows a preview of a USB video class camera, records and streams it, and reads sensors and an RFID card
  reader. Its native code is in three layers. \<open>src/libuvccamera/src/main/jni/UVCCamera\<close> holds the objects the application talks
  to: \<open>UVCCamera\<close> (open, close and controls of a camera) and \<open>UVCPreview\<close> (frames on their way to the screen and to
  Java). They call \<open>src/libuvccamera/src/main/jni/libuvc\<close>, which finds and opens devices, parses their descriptors, negotiates and runs
  a video stream, puts frames together from its transfers and converts their pixels. \<open>libuvc\<close> calls \<open>libusb\<close>, of which the
  parsers of descriptors are modelled; the rest is a parameter.
  \<open>src/sensordriver/src/main/jni\<close> is separate: native methods over device files of the board. So is
  \<open>src/anyrtc/jni/AnyCore\<close>: a host encodes pictures and sound and publishes them by RTMP, a guest reads a stream, decodes and plays it.

  Conventions. A function that can run into undefined behaviour (an index outside an array, a freed object, a null pointer, a variable
  nothing was written to) returns an option, and \<open>None\<close> is exactly that; error codes are ordinary results, with the values of the
  header files. A C \<open>int\<close> is an integer, narrowed or wrapped where the code does so and the range matters; unsigned fields and
  bytes are words, \<open>size_t\<close> has 32 bits. Memory is a list of bytes; a shared mutable object is an entry of a store. Allocation is
  taken to succeed. Assertions are compiled out, as the build does. What another library does is an argument: \<open>'d usb\<close> for control
  transfers, \<open>'d usb_bus\<close> and \<open>stream_host\<close> for the rest of libusb, \<open>os\<close> for the device files, a decoder
  for JPEG, the world of a preview for surfaces, Java callbacks and the camera. What a theorem needs of them it assumes by name
  (\<open>usb_conforms\<close>, \<open>usb_stores\<close>, \<open>read_conforms\<close>), and each such theorem is followed by an instance.

  Theories, from the bottom up.

  \<open>Prelude\<close>: lists, memory access as a partial function, the option monad.

  \<open>Sensor_Handle\<close>, \<open>Sensor_Rfid\<close> (\<open>com_bupt_sensordriver_*.c\<close>): open, close, ioctl and read of the
  adc, led and sensor files; the RC522 card reader over its SPI file, from register access to \<open>ReadCardNum\<close>. Shown: handles are opened
  once and closed once; the transceive command returns one of three states and never leaves its buffer, whatever the chip answers; a card
  number handed to Java is complete and checked. The chip is polled at most 6000 times as in the code, an explicit count.

  \<open>Uvc_Bytes\<close>, \<open>Uvc_Types\<close> (\<open>libuvc_internal.h\<close>, \<open>libuvc.h\<close>): little-endian accessors as
  codecs (a locale, interpreted for each width), the records of the device information, and the control transfer.

  \<open>Uvc_Ctrl\<close>, \<open>Uvc_Camera\<close>, \<open>Uvc_Processing\<close> (\<open>ctrl.c\<close>): each control request. The locale
  \<open>control\<close> states what a getter and a setter of one control owe each other and is interpreted for every control; the round trips rest on it,
  and so does the fact that iris and focus share a selector.

  \<open>Uvc_Desc\<close>, \<open>Uvc_Scan\<close>, \<open>Uvc_Format\<close>, \<open>Uvc_Roundtrip\<close> (\<open>device.c\<close>,
  \<open>stream.c\<close>): the parsers of descriptor blocks, the walks over all blocks, lookup of formats and frames. Shown: a scan gives
  well-formed information; parsing inverts encoding. A walk makes at most one pass per byte, so fuel of the length plus one is enough
  unless a block has length 0, which \<open>libusb\<close> never hands on.

  \<open>Uvc_Status\<close> (\<open>device.c\<close>): status transfers and the callbacks they make.

  \<open>Uvc_Negotiate\<close> (\<open>stream.c\<close>): stream control blocks, probe and commit, the choice of format, frame and interval. The
  band width factor of an isochronous start is an argument.

  \<open>Uvc_Payload\<close>, \<open>Uvc_Deliver\<close>, \<open>Uvc_Stream\<close>, \<open>Uvc_Session\<close>, \<open>Uvc_Stop\<close>,
  \<open>Uvc_Stream_Demo\<close> (\<open>stream.c\<close>): payloads to frames, the double buffer between transfers and the callback thread, the life
  of a stream. Transfers complete, threads wake and polls time out as events of a step relation; a start is taken as one step. Shown: the
  code refines an abstract assembler of frames; every frame delivered was published; a close returns and leaves nothing behind; and where
  these fail (a lost resubmission, an unplugged device, a failed start).

  \<open>Uvc_Device\<close> (\<open>device.c\<close>, \<open>init.c\<close>): device lists, reference counts, open, close and exit of a context.

  \<open>Uvc_Frame\<close>, \<open>Uvc_Convert\<close>, \<open>Uvc_Planar\<close> (\<open>frame.c\<close>): frame buffers and the conversions, with
  their unrolled loops; each is compared with the conversion pixel pair by pixel pair.

  \<open>Preview_Array\<close>, \<open>Preview_Frames\<close>, \<open>Preview_Threads\<close>, \<open>Preview_Runs\<close>, \<open>Preview_Stop\<close> (\<open>objectarray.h\<close>,
  \<open>UVCPreview.cpp\<close>): the array of frame pointers (against the locale of a list used at both ends), the pool, queue and capture slot, and the
  camera, preview, capture and application threads as steps between mutex sections. A signal wakes every waiter of its condition and a
  wake-up without a signal is an event of its own. Shown: a frame is always in exactly one place; a stop ends both threads under every schedule
  that lets each thread move 30 times, by a rank that counts the steps left, unless a thread is between its test and its wait; and that a
  stop in that gap never returns.

  \<open>Camera_Values\<close>, \<open>Camera_Controls\<close>, \<open>Camera_Laws\<close>, \<open>Camera_Errors\<close>
  (\<open>UVCCamera.cpp\<close>): the cached limits of the controls, the overloads that fill them and clamp to them, and every update, set and
  get method, over the requests of \<open>Uvc_Camera\<close> and \<open>Uvc_Processing\<close>. The locale \<open>limited_control\<close> is interpreted for
  the 18 controls with one value. Shown: what is set and read back; that a closed camera is safe; what failed requests leave behind.

  \<open>Camera_Life\<close> (\<open>UVCCamera.cpp\<close>): construction, connection, release and destruction of the camera object over the
  context of \<open>Uvc_Device\<close>, with the file descriptors of the process. Shown: a connection and its release are balanced, and a failed
  connection leaves the open descriptors and devices as they were; the release after it closes a descriptor of someone else; a second connection is deaf.

  \<open>Libusb_Desc\<close>, \<open>Libusb_Safe\<close>, \<open>Libusb_Scan\<close> (\<open>libusb/descriptor.c\<close>): the parsers that make
  the configuration the scan of \<open>Uvc_Scan\<close> walks over from the bytes of a device; exactly when they read what is not there, and
  what a lying header does to \<open>libuvc\<close>. The abstraction \<open>to_uvc\<close> connects the two. Shown: what is kept of the bytes of a
  device is whole blocks, so that every scan over it ends.

  \<open>Rtmp_Nal\<close>, \<open>Rtmp_Push\<close>, \<open>Rtmp_Session\<close> (\<open>anyrtmpush.cc\<close>): the queue between the
  encoders and the thread that publishes, the cutting of key frames, connection, retries and end. The calls of librtmp return what a
  function \<open>srs\<close> of all calls so far says. One iteration of the thread is a step; the encoders' thread queues unit by unit. The locale
  \<open>retrying_client\<close> is a client that counts refusals; it is interpreted for the publisher and for the reader. Shown: the calls
  follow the protocol and the callbacks are legal; a refusing server is given up after
  exactly the failures the code allows; which key frames are cut rightly.

  \<open>Rtmp_Pull\<close>, \<open>Rtmp_Play\<close> (\<open>anyrtmpull.cc\<close>): the thread that reads, and the samples of the demultiplexer
  put together as H.264 and ADTS frames. The packets read are arguments of an iteration; the demultiplexer of \<open>Srs_Codec\<close> takes them
  apart.

  \<open>Srs_Stream\<close>, \<open>Srs_Codec\<close>, \<open>Srs_Sps\<close>, \<open>Srs_Writer\<close>, \<open>Srs_Live\<close>,
  \<open>Srs_Sound\<close> (\<open>srs_librtmp.cpp\<close>): of librtmp, the byte and bit streams with their Exp-Golomb numbers, the demultiplexer of the player (sequence
  headers, parameter sets, start codes and length prefixes, AAC) and the multiplexer of the publisher, each with the state it keeps between
  messages. The result of sending a message is an argument, a function of the messages sent before. Shown: the size in a
  sequence parameter set is found behind whatever the syntax of the standard puts before it (\<open>Srs_Sps\<close> writes the syntax, without scaling
  lists); and a truncated sequence header makes the player read past a set.

  \<open>Srs_Chunk\<close>, \<open>Srs_Client\<close>, \<open>Srs_Wire\<close>, \<open>Srs_Aggregate\<close>, \<open>Srs_Whole\<close>
  (\<open>srs_librtmp.cpp\<close>): the chunk stream (\<open>SrsProtocol\<close>, \<open>SrsFastBuffer\<close>) and the packets of the client. What the reads of
  a socket return is a list in the state, what its writes return a function of all that was written; a write that
  succeeds has taken all bytes or is, as in the code, believed to have. The loops of the reader end because
  each pass takes bytes off that list or messages off the stored ones. Shown: packets written as chunks are read as the same packets,
  however the bytes are cut into reads; how an aggregate message is taken apart; and the main result on streaming, over multiplexer, chunks and
  demultiplexer: the player calls back with the pictures, sound and times the publisher wrote. \<open>wire\<close> is the specification of what
  a message looks like on the connection, \<open>reading\<close> the state of a reader between two messages.

  \<open>Amf0\<close>, \<open>Amf0_Laws\<close>, \<open>Rtmp_Command\<close>, \<open>Command_Laws\<close>
  (\<open>srs_librtmp.cpp\<close>): the values of AMF0, a number being the 64 bits of a double, and every packet class with the function that
  tells which packet a message is. The readers of values call each other on what the others leave, so that their termination needs that they
  leave less, which is shown by partial induction first (\<open>read_rest\<close>). Shown: a value takes exactly the size it tells, or is
  refused; values and packets are read back as they were written; and the values that are not.

  \<open>Rtmp_Url\<close>, \<open>Url_Laws\<close>, \<open>Rtmp_Connect\<close>, \<open>Connect_Laws\<close>
  (\<open>srs_librtmp.cpp\<close>): the address of a stream and a session of the client from the handshake to the publish or play command, over the chunk
  stream and the packets below. Waiting ends because every message takes bytes off what is left to read. \<open>carried\<close> says what a
  message must be to be taken without an error, \<open>verdict\<close> what it means to a session that waits, \<open>wrote\<close> which messages stand
  between two states of a connection. Shown: with a server that answers, the stream is open, and a peer hears exactly the commands of the client;
  a refusal is a decode error; an address is found again.

  \<open>Player\<close>, \<open>Player_Laws\<close> (\<open>plybuffer.cc\<close>, \<open>plydecoder.cc\<close>, \<open>anyrtmpcore.cc\<close>): the
  buffer that evens out the network, its three states and the queue of the decoder. The clock is read as often as the code does, each
  reading an argument. Shown: nothing is lost, repeated or reordered but what a key frame discards; and how the end of sound stops the pictures.

  \<open>Rtmp_Encoder\<close>, \<open>Rtmp_Streamer\<close>, \<open>Rtmp_Guest\<close> (\<open>avcodec.cc\<close>,
  \<open>aacencode.cc\<close>, \<open>videofilter.cc\<close>, \<open>anyrtmpstreamer.cc\<close>, \<open>RtmpHosterImpl.cc\<close>,
  \<open>anyrtmplayer.cc\<close>, \<open>RtmpGuesterImpl.cc\<close>): bit rate and delay, blocks of sound, cropping; the objects that own the parts
  above, their messages and callbacks. Codecs, resampling, devices and the threads of WebRTC are parameters. Shown: the encoders run exactly
  while the stream is published; the rate follows the delay; and three orders of start and stop that go wrong.

  Not modelled. \<open>frame-mjpeg.c\<close> only calls libjpeg-turbo. \<open>diag.c\<close> prints. Of the preview, the lookups of Java classes and
  methods, the geometry of a surface and the camera's own answer to a new size are left out. The JNI glue
  (\<open>serenegiant_usb_UVCCamera.cpp\<close>, \<open>Parameters.cpp\<close>, the callback objects) moves values between Java and these
  objects. Of the streaming core, the capturer and renderers of the host, the audio device and the metadata that is never sent are
  left out. Of librtmp, which is bundled as one source with most of the SRS server, the complex handshake, the opening of sockets
  and the tools for FLV files are left out. Third-party code (WebRTC, x264,
  libyuv, libjpeg-turbo, RapidJSON, faac, faad) is not part of the program's own logic.
\<close>

end
